(* ===== verification/Prelude.thy ===== *)
theory Prelude imports Main "HOL-Library.AList" "HOL-Library.Multiset" begin

text \<open>
  Shared vocabulary of the development: Python exceptions as values, the sequencing of fallible
  operations, \<open>for\<close> loops over lists, Python list indexing and slicing, dictionaries kept in
  insertion order (association lists), and the list lemmas the components share.

  Conventions.  A Python \<open>int\<close> is an \<open>int\<close>.  A Python \<open>float\<close> is read as an exact rational
  (\<open>rat\<close>): rounding of floating-point arithmetic is not modelled.  A raise, a failed \<open>assert\<close>
  or an implicit exception is \<open>Inl\<close> of a \<open>py_error\<close>; a normal result is \<open>Inr\<close>.
\<close>

section \<open>Exceptions and sequencing\<close>

datatype py_error =
    KeyError | IndexError | AssertionError | AttributeError | TypeError | ValueError
  | ZeroDivisionError | StopIteration | RuntimeError | OverflowError
  | Exception | MaroError string

type_synonym 'a res = "py_error + 'a"

named_theorems res_simps "rewriting of sequenced fallible operations"

definition bindE :: "'a res \<Rightarrow> ('a \<Rightarrow> 'b res) \<Rightarrow> 'b res" where
  "bindE m f = (case m of Inl e \<Rightarrow> Inl e | Inr x \<Rightarrow> f x)"

definition assertE :: "bool \<Rightarrow> 'a res \<Rightarrow> 'a res" where
  "assertE b k = (if b then k else Inl AssertionError)"

lemma bindE_Inl [simp]: "bindE (Inl e) f = Inl e"
  by (simp add: bindE_def)

lemma bindE_Inr [simp]: "bindE (Inr x) f = f x"
  by (simp add: bindE_def)

lemma bindE_eq_Inr [res_simps]: "bindE m f = Inr y \<longleftrightarrow> (\<exists>x. m = Inr x \<and> f x = Inr y)"
  by (cases m) auto

lemma bindE_Inr_E:
  assumes "bindE m f = Inr y"
  obtains x where "m = Inr x" "f x = Inr y"
  using assms by (auto simp: res_simps)

lemma bindE_assoc: "bindE (bindE m f) g = bindE m (\<lambda>x. bindE (f x) g)"
  by (cases m) auto

lemma bindE_cong [fundef_cong]:
  "m = m' \<Longrightarrow> (\<And>x. m' = Inr x \<Longrightarrow> f x = f' x) \<Longrightarrow> bindE m f = bindE m' f'"
  by (cases m') auto

lemma assertE_True [simp]: "assertE True k = k"
  by (simp add: assertE_def)

lemma assertE_False [simp]: "assertE False k = Inl AssertionError"
  by (simp add: assertE_def)

lemma assertE_eq_Inr [res_simps]: "assertE b k = Inr y \<longleftrightarrow> b \<and> k = Inr y"
  by (simp add: assertE_def)

text \<open>
  \<open>Exception\<close> is a plain \<open>raise Exception(...)\<close>, \<open>MaroError\<close> a raise of one of the exception classes of
  \<open>maro.utils.exception\<close>, by its name.  Next: arithmetic on a value that may be \<open>None\<close>.
\<close>

definition need :: "'a option \<Rightarrow> 'a res" where
  "need x = (case x of None \<Rightarrow> Inl TypeError | Some v \<Rightarrow> Inr v)"

text \<open>A \<open>for\<close> loop over a list, and a list comprehension whose element expression may raise.\<close>

fun foldE :: "('a \<Rightarrow> 's \<Rightarrow> 's res) \<Rightarrow> 'a list \<Rightarrow> 's \<Rightarrow> 's res" where
  "foldE f [] s = Inr s"
| "foldE f (x # xs) s = bindE (f x s) (foldE f xs)"

fun mapE :: "('a \<Rightarrow> 'b res) \<Rightarrow> 'a list \<Rightarrow> 'b list res" where
  "mapE f [] = Inr []"
| "mapE f (x # xs) = bindE (f x) (\<lambda>y. bindE (mapE f xs) (\<lambda>ys. Inr (y # ys)))"

lemma foldE_append: "foldE f (xs @ ys) s = bindE (foldE f xs s) (foldE f ys)"
  by (induction xs arbitrary: s) (auto simp: bindE_def split: sum.splits)

lemma foldE_invariant:
  assumes "foldE f xs s = Inr s'"
    and "I s"
    and "\<And>x s s'. x \<in> set xs \<Longrightarrow> I s \<Longrightarrow> f x s = Inr s' \<Longrightarrow> I s'"
  shows "I s'"
  using assms by (induction xs arbitrary: s) (auto simp: res_simps)

lemma foldE_total:
  assumes "I s"
    and "\<And>x s. x \<in> set xs \<Longrightarrow> I s \<Longrightarrow> \<exists>s'. f x s = Inr s' \<and> I s'"
  shows "\<exists>s'. foldE f xs s = Inr s' \<and> I s'"
  using assms
proof (induction xs arbitrary: s)
  case Nil
  then show ?case by simp
next
  case (Cons x xs)
  from Cons.prems obtain t where t: "f x s = Inr t" "I t" by force
  with Cons.IH [OF t(2)] Cons.prems(2) show ?case by auto
qed

lemma mapE_length: "mapE f xs = Inr ys \<Longrightarrow> length ys = length xs"
  by (induction xs arbitrary: ys) (auto simp: res_simps)

lemma mapE_nth: "mapE f xs = Inr ys \<Longrightarrow> i < length xs \<Longrightarrow> f (xs ! i) = Inr (ys ! i)"
  by (induction xs arbitrary: ys i) (auto simp: res_simps nth_Cons split: nat.splits)

lemma mapE_Inr_map: "(\<And>x. x \<in> set xs \<Longrightarrow> f x = Inr (g x)) \<Longrightarrow> mapE f xs = Inr (map g xs)"
  by (induction xs) auto

section \<open>Python lists\<close>

text \<open>Indexing: a negative index counts from the end; out of range raises \<open>IndexError\<close>.\<close>

definition py_pos :: "nat \<Rightarrow> int \<Rightarrow> nat option" where
  "py_pos n i =
     (let j = (if i < 0 then int n + i else i)
      in if 0 \<le> j \<and> j < int n then Some (nat j) else None)"

definition py_get :: "'a list \<Rightarrow> int \<Rightarrow> 'a res" where
  "py_get xs i = (case py_pos (length xs) i of None \<Rightarrow> Inl IndexError | Some j \<Rightarrow> Inr (xs ! j))"

definition py_set :: "'a list \<Rightarrow> int \<Rightarrow> 'a \<Rightarrow> 'a list res" where
  "py_set xs i v =
     (case py_pos (length xs) i of None \<Rightarrow> Inl IndexError | Some j \<Rightarrow> Inr (xs[j := v]))"

text \<open>Slicing \<open>xs[a:b]\<close>: bounds are shifted when negative, then clamped; it never raises.\<close>

definition slice_bound :: "nat \<Rightarrow> int \<Rightarrow> nat" where
  "slice_bound n i = nat (min (int n) (if i < 0 then max 0 (int n + i) else i))"

definition py_slice :: "'a list \<Rightarrow> int \<Rightarrow> int \<Rightarrow> 'a list" where
  "py_slice xs a b =
     (let n = length xs; i = slice_bound n a; j = slice_bound n b in take (j - i) (drop i xs))"

lemma py_pos_nonneg [simp]: "py_pos n (int i) = (if i < n then Some i else None)"
  by (simp add: py_pos_def)

lemma py_pos_less: "py_pos n i = Some j \<Longrightarrow> j < n"
  by (auto simp: py_pos_def Let_def split: if_splits)

lemma py_get_nonneg: "0 \<le> i \<Longrightarrow> i < int (length xs) \<Longrightarrow> py_get xs i = Inr (xs ! nat i)"
  by (simp add: py_get_def py_pos_def)

lemma py_get_mem: "py_get xs i = Inr x \<Longrightarrow> x \<in> set xs"
  by (auto simp: py_get_def split: option.splits dest: py_pos_less)

lemma py_set_length: "py_set xs i v = Inr ys \<Longrightarrow> length ys = length xs"
  by (auto simp: py_set_def split: option.splits)

lemma py_get_set:
  "py_set xs i v = Inr ys \<Longrightarrow>
   py_get ys j = (if py_pos (length xs) j = py_pos (length xs) i then Inr v else py_get xs j)"
  by (auto simp: py_set_def py_get_def split: option.splits dest: py_pos_less)

text \<open>Indexing a list of mutable nodes: the position it resolves to, and the node there.\<close>

definition node_at :: "'n list \<Rightarrow> int \<Rightarrow> (nat \<times> 'n) res" where
  "node_at nodes i = (case py_pos (length nodes) i of None \<Rightarrow> Inl IndexError | Some j \<Rightarrow> Inr (j, nodes ! j))"

lemma node_at_int: "node_at xs (int i) = Inr (j, x) \<longleftrightarrow> i < length xs \<and> j = i \<and> x = xs ! i"
  by (auto simp: node_at_def)

lemma node_at_Inr: "node_at xs i = Inr (j, x) \<Longrightarrow> j < length xs \<and> x = xs ! j"
  by (auto simp: node_at_def split: option.splits dest: py_pos_less)

lemma py_slice_nonneg:
  "0 \<le> a \<Longrightarrow> a \<le> b \<Longrightarrow> py_slice xs a b = take (nat b - nat a) (drop (nat a) xs)"
  by (cases "int (length xs) \<le> a"; cases "int (length xs) \<le> b")
     (auto simp: py_slice_def slice_bound_def Let_def min_def nat_diff_distrib)

lemma set_py_slice: "set (py_slice xs a b) \<subseteq> set xs"
  by (auto simp: py_slice_def Let_def dest!: in_set_takeD in_set_dropD)

text \<open>Replacing one element.\<close>

lemma map_update_at: "(\<And>x. f (g x) = f x) \<Longrightarrow> map f (xs[j := g (xs ! j)]) = map f xs"
  by (metis list_update_beyond list_update_id map_update not_le)

lemma list_all_update: "list_all P xs \<Longrightarrow> (j < length xs \<Longrightarrow> P y) \<Longrightarrow> list_all P (xs[j := y])"
  by (cases "j < length xs") (auto simp: list_all_length nth_list_update)

lemma list_all_update_at: "list_all P xs \<Longrightarrow> (\<And>x. P x \<Longrightarrow> P (g x)) \<Longrightarrow> list_all P (xs[j := g (xs ! j)])"
  by (rule list_all_update) (auto simp: list_all_length)

section \<open>Dictionaries in insertion order\<close>

text \<open>
  A Python \<open>dict\<close> is an association list with distinct keys: \<open>map_of\<close> looks up,
  \<open>AList.update\<close> overwrites in place or appends at the end, as \<open>d[k] = v\<close> does.
\<close>

definition dict_get :: "('k \<times> 'v) list \<Rightarrow> 'k \<Rightarrow> 'v res" where
  "dict_get d k = (case map_of d k of None \<Rightarrow> Inl KeyError | Some v \<Rightarrow> Inr v)"

definition dict_mem :: "'k \<Rightarrow> ('k \<times> 'v) list \<Rightarrow> bool" where
  "dict_mem k d = (k \<in> set (map fst d))"

lemma dict_mem_map_of: "dict_mem k d \<longleftrightarrow> map_of d k \<noteq> None"
  by (simp add: dict_mem_def map_of_eq_None_iff)

lemma dict_mem_obtain:
  assumes "dict_mem k d"
  obtains v where "map_of d k = Some v"
  using assms by (auto simp: dict_mem_map_of)

lemma keys_update: "map fst (AList.update k v d) = (if dict_mem k d then map fst d else map fst d @ [k])"
  by (simp add: dict_mem_def update_keys)

lemma dict_mem_cong: "map fst d = map fst d' \<Longrightarrow> dict_mem k d = dict_mem k d'"
  by (simp add: dict_mem_def)

lemma dict_mem_nth: "j < length d \<Longrightarrow> dict_mem (fst (d ! j)) d"
  by (simp add: dict_mem_def)

lemma dict_mem_in_nth:
  assumes "dict_mem k d"
  obtains j where "j < length d" "k = fst (d ! j)"
  using assms by (auto simp: dict_mem_def in_set_conv_nth)

lemma dict_get_update: "dict_get (AList.update k v d) k' = (if k' = k then Inr v else dict_get d k')"
  by (simp add: dict_get_def update_conv')

lemma map_of_update [simp]: "map_of (AList.update k v d) = (map_of d)(k \<mapsto> v)"
  by (simp add: update_conv')

section \<open>Sums over lists\<close>

lemma sum_list_update_int:
  "i < length xs \<Longrightarrow> sum_list (xs[i := v]) = sum_list xs - xs ! i + (v :: int)"
proof (induction xs arbitrary: i)
  case Nil
  then show ?case by simp
next
  case (Cons x xs)
  then show ?case by (cases i) auto
qed

lemma sum_list_map_update:
  fixes f :: "'a \<Rightarrow> int"
  shows "i < length xs \<Longrightarrow> sum_list (map f (xs[i := v])) = sum_list (map f xs) - f (xs ! i) + f v"
  by (simp add: map_update sum_list_update_int)

lemma sum_list_member_le_int:
  fixes xs :: "int list"
  assumes "\<And>x. x \<in> set xs \<Longrightarrow> 0 \<le> x" "x \<in> set xs"
  shows "x \<le> sum_list xs"
  using assms
proof (induction xs)
  case Nil
  then show ?case by simp
next
  case (Cons a xs)
  then have "0 \<le> sum_list xs" by (simp add: sum_list_nonneg)
  with Cons show ?case by fastforce
qed

text \<open>The newest \<open>n\<close> entries.\<close>

definition keep_last :: "nat \<Rightarrow> 'a list \<Rightarrow> 'a list" where
  "keep_last n xs = drop (length xs - n) xs"

lemma keep_last_snoc: "keep_last n (keep_last n xs @ [x]) = keep_last n (xs @ [x])"
  by (cases "n = 0"; cases "n \<le> length xs") (auto simp: keep_last_def Suc_diff_le)

lemma keep_last_append: "keep_last n (keep_last n xs @ ys) = keep_last n (xs @ ys)"
proof (induction ys rule: rev_induct)
  case Nil
  then show ?case by (simp add: keep_last_def)
next
  case (snoc y ys)
  have "keep_last n (keep_last n xs @ ys @ [y]) = keep_last n (keep_last n (keep_last n xs @ ys) @ [y])"
    by (simp only: keep_last_snoc append_assoc)
  also have "\<dots> = keep_last n (xs @ ys @ [y])" by (simp only: snoc keep_last_snoc append_assoc)
  finally show ?case .
qed

lemma set_keep_last: "set (keep_last n xs) \<subseteq> set xs"
  by (simp add: keep_last_def set_drop_subset)

section \<open>NumPy arrays\<close>

text \<open>
  \<open>a[indices] = vals\<close>: as many values as indices, or one for all; a position that occurs twice keeps the last
  value.  Reading \<open>a[indices]\<close> and \<open>a[i::k]\<close>.
\<close>

definition np_fit :: "nat \<Rightarrow> 'a list \<Rightarrow> 'a list res" where
  "np_fit n vals =
     (if length vals = n then Inr vals
      else case vals of [v] \<Rightarrow> Inr (replicate n v) | _ \<Rightarrow> Inl ValueError)"

definition assign_slots :: "nat list \<Rightarrow> 'a list \<Rightarrow> 'a list \<Rightarrow> 'a list" where
  "assign_slots indices vals slots = fold (\<lambda>(i, v) s. s[i := v]) (zip indices vals) slots"

lemma assign_slots_length [simp]: "length (assign_slots idx vals slots) = length slots"
  unfolding assign_slots_def by (rule fold_invariant [where Q = "\<lambda>_. True"]) auto

lemma assign_slots_Cons: "assign_slots (i # idx) (v # vals) slots = assign_slots idx vals (slots[i := v])"
  by (simp add: assign_slots_def)

lemma assign_slots_other: "k \<notin> set idx \<Longrightarrow> assign_slots idx vals slots ! k = slots ! k"
proof (induction idx arbitrary: vals slots)
  case Nil
  then show ?case by (simp add: assign_slots_def)
next
  case (Cons i idx)
  then show ?case by (cases vals) (auto simp: assign_slots_Cons, simp add: assign_slots_def)
qed

lemma assign_slots_nth:
  "distinct idx \<Longrightarrow> length vals = length idx \<Longrightarrow> \<forall>i\<in>set idx. i < length slots \<Longrightarrow> m < length idx \<Longrightarrow>
   assign_slots idx vals slots ! (idx ! m) = vals ! m"
proof (induction idx arbitrary: vals slots m)
  case Nil
  then show ?case by simp
next
  case (Cons i idx)
  then obtain v vs where "vals = v # vs" by (cases vals) auto
  with Cons show ?case by (cases m) (auto simp: assign_slots_Cons assign_slots_other)
qed

definition np_take :: "nat list \<Rightarrow> 'a list \<Rightarrow> 'a list res" where
  "np_take indices slots =
     (if list_all (\<lambda>i. i < length slots) indices then Inr (map ((!) slots) indices) else Inl IndexError)"

definition np_put :: "nat list \<Rightarrow> 'a list \<Rightarrow> 'a list \<Rightarrow> 'a list res" where
  "np_put indices vals slots =
     (if \<not> list_all (\<lambda>i. i < length slots) indices then Inl IndexError
      else bindE (np_fit (length indices) vals) (\<lambda>vals. Inr (assign_slots indices vals slots)))"

definition stride :: "nat \<Rightarrow> nat \<Rightarrow> 'a list \<Rightarrow> 'a list" where
  "stride i k xs = map (\<lambda>m. xs ! (i + m * k)) [0..<(length xs + k - 1 - i) div k]"

lemma np_put_exact:
  "length vals = length indices \<Longrightarrow> \<forall>i\<in>set indices. i < length slots \<Longrightarrow> np_put indices vals slots = Inr (assign_slots indices vals slots)"
  by (simp add: np_put_def np_fit_def list_all_iff)

lemma np_take_exact: "\<forall>i\<in>set indices. i < length slots \<Longrightarrow> np_take indices slots = Inr (map ((!) slots) indices)"
  by (simp add: np_take_def list_all_iff)

lemma take_assigned:
  assumes "distinct indices" "length vals = length indices" "\<forall>i\<in>set indices. i < length slots"
  shows "map ((!) (assign_slots indices vals slots)) indices = vals"
  using assms by (intro nth_equalityI) (simp_all add: assign_slots_nth)

lemma stride_bound: "i < k \<Longrightarrow> m < (n + k - 1 - i) div k \<longleftrightarrow> i + m * k < n" for i k m n :: nat
proof -
  assume "i < k"
  then have "m < (n + k - 1 - i) div k \<longleftrightarrow> Suc m * k \<le> n + k - 1 - i"
    by (simp add: less_eq_div_iff_mult_less_eq Suc_le_eq [symmetric] del: mult_Suc)
  with \<open>i < k\<close> show ?thesis by (auto simp: algebra_simps)
qed

lemma stride_nth: "m < length (stride i k xs) \<Longrightarrow> stride i k xs ! m = xs ! (i + m * k)"
  by (simp add: stride_def)

lemma stride_length: "length (stride i k xs) = (length xs + k - 1 - i) div k"
  by (simp add: stride_def)

end
