(* ===== verification/Event.thy ===== *)
theory Event imports Prelude begin

text \<open>
  \<open>maro/event_buffer/event.py\<close>, \<open>event_state.py\<close>, \<open>maro_events.py\<close>.

  Events are mutable objects linked by \<open>next_event\<close> pointers and shared between a tick's list, a
  cascade event's immediate list, the finished list and the pool, so they live in an explicit heap
  from addresses to events.  \<open>'e\<close> is the scenario's own event type, \<open>'p\<close> its payloads.  The
  \<open>DummyEvent\<close> heading a list is represented by the one field of it that is ever read, its
  \<open>next_event\<close>.  The second half relates a linked segment of the heap to the list of its
  addresses, and shows that \<open>add_immediate_event\<close> is insertion into that list.
\<close>

section \<open>Data\<close>

datatype event_state = PENDING | EXECUTING | FINISHED | RECYCLING

datatype 'e maro_event = PENDING_DECISION | TAKE_ACTION | Scenario 'e

datatype event_class = AtomEvent | CascadeEvent

type_synonym addr = nat

record ('e, 'p) event =
  ev_class :: event_class
  ev_id :: "int option"
  ev_tick :: "int option"
  ev_type :: "'e maro_event option"
  ev_payload :: "'p option"
  ev_state :: event_state
  ev_next :: "addr option"
  imm_head :: "addr option"
  imm_tail :: "addr option"
  imm_count :: int

type_synonym ('e, 'p) heap = "addr \<Rightarrow> ('e, 'p) event"

text \<open>The constructors: \<open>AbsEvent.__init__\<close> and \<open>CascadeEvent.__init__\<close>.\<close>

definition new_event ::
  "event_class \<Rightarrow> int option \<Rightarrow> int option \<Rightarrow> 'e maro_event option \<Rightarrow> 'p option \<Rightarrow> ('e, 'p) event" where
  "new_event cls i tick ty payload =
     \<lparr>ev_class = cls, ev_id = i, ev_tick = tick, ev_type = ty, ev_payload = payload,
      ev_state = PENDING, ev_next = None, imm_head = None, imm_tail = None, imm_count = 0\<rparr>"

definition reset_value ::
  "int option \<Rightarrow> int option \<Rightarrow> 'e maro_event option \<Rightarrow> 'p option \<Rightarrow> event_state
   \<Rightarrow> ('e, 'p) event \<Rightarrow> ('e, 'p) event" where
  "reset_value i tick ty payload st ev =
     ev\<lparr>ev_id := i, ev_tick := tick, ev_type := ty, ev_payload := payload, ev_state := st\<rparr>"

definition upd :: "('e, 'p) heap \<Rightarrow> addr \<Rightarrow> (('e, 'p) event \<Rightarrow> ('e, 'p) event) \<Rightarrow> ('e, 'p) heap" where
  "upd h a f = h(a := f (h a))"

lemma upd_same [simp]: "upd h a f a = f (h a)"
  by (simp add: upd_def)

lemma upd_other [simp]: "b \<noteq> a \<Longrightarrow> upd h a f b = h b"
  by (simp add: upd_def)

lemma upd_apply: "upd h a f b = (if b = a then f (h a) else h b)"
  by (simp add: upd_def)

text \<open>\<open>CascadeEvent.clear\<close>.\<close>

definition clear_immediate :: "('e, 'p) heap \<Rightarrow> addr \<Rightarrow> ('e, 'p) heap" where
  "clear_immediate h a = upd h a (\<lambda>ev. ev\<lparr>imm_head := None, imm_tail := None, imm_count := 0\<rparr>)"

text \<open>
  \<open>CascadeEvent.add_immediate_event\<close>: refused when the ticks differ; an insertion at the head
  asserts that the new event has no follow-up; an atom event has no such method.
\<close>

definition add_immediate_event ::
  "('e, 'p) heap \<Rightarrow> addr \<Rightarrow> addr \<Rightarrow> bool \<Rightarrow> (('e, 'p) heap \<times> bool) res" where
  "add_immediate_event h self event is_head =
     (if ev_class (h self) \<noteq> CascadeEvent then Inl AttributeError
      else if ev_tick (h event) \<noteq> ev_tick (h self) then Inr (h, False)
      else if imm_count (h self) = 0 then
        Inr (upd h self (\<lambda>ev. ev\<lparr>imm_head := Some event, imm_tail := Some event,
                                  imm_count := imm_count ev + 1\<rparr>), True)
      else if is_head then
        (if ev_next (h event) \<noteq> None then Inl AssertionError
         else let h1 = upd h event (\<lambda>ev. ev\<lparr>ev_next := imm_head (h self)\<rparr>)
              in Inr (upd h1 self (\<lambda>ev. ev\<lparr>imm_head := Some event, imm_count := imm_count ev + 1\<rparr>),
                      True))
      else
        (case imm_tail (h self) of
           None \<Rightarrow> Inl AttributeError
         | Some t \<Rightarrow>
             let h1 = upd h t (\<lambda>ev. ev\<lparr>ev_next := Some event\<rparr>)
             in Inr (upd h1 self (\<lambda>ev. ev\<lparr>imm_tail := Some event, imm_count := imm_count ev + 1\<rparr>),
                     True)))"

section \<open>Linked segments\<close>

text \<open>\<open>lseg h p xs q\<close>: following \<open>next_event\<close> from \<open>p\<close> visits \<open>xs\<close> and stops at \<open>q\<close>.\<close>

fun lseg :: "('e, 'p) heap \<Rightarrow> addr option \<Rightarrow> addr list \<Rightarrow> addr option \<Rightarrow> bool" where
  "lseg h p [] q \<longleftrightarrow> p = q"
| "lseg h p (x # xs) q \<longleftrightarrow> p = Some x \<and> lseg h (ev_next (h x)) xs q"

lemma lseg_append:
  "lseg h p (xs @ ys) q \<longleftrightarrow> (\<exists>r. lseg h p xs r \<and> lseg h r ys q)"
  by (induction xs arbitrary: p) auto

lemma lseg_cong:
  "(\<And>x. x \<in> set xs \<Longrightarrow> ev_next (h x) = ev_next (h' x)) \<Longrightarrow> lseg h p xs q = lseg h' p xs q"
  by (induction xs arbitrary: p) auto

lemma lseg_upd_notin [simp]: "a \<notin> set xs \<Longrightarrow> lseg (upd h a f) p xs q = lseg h p xs q"
  by (rule lseg_cong) (auto simp: upd_apply)

lemma lseg_upd_frame [simp]:
  "(\<And>ev. ev_next (f ev) = ev_next ev) \<Longrightarrow> lseg (upd h a f) p xs q = lseg h p xs q"
  by (rule lseg_cong) (auto simp: upd_apply)

lemma lseg_functional: "lseg h p xs None \<Longrightarrow> lseg h p ys None \<Longrightarrow> xs = ys"
proof (induction xs arbitrary: p ys)
  case Nil
  then show ?case by (cases ys) auto
next
  case (Cons x xs)
  then show ?case by (cases ys) auto
qed

lemma lseg_snoc:
  assumes "lseg h p xs q" "distinct xs" "xs \<noteq> []"
  shows "lseg (upd h (last xs) (\<lambda>ev. ev\<lparr>ev_next := r\<rparr>)) p xs r"
proof -
  from assms(3) obtain ys x where xs: "xs = ys @ [x]"
    by (cases xs rule: rev_cases) auto
  with assms(1,2) show ?thesis
    by (auto simp: lseg_append)
qed

section \<open>Immediate lists\<close>

text \<open>
  \<open>imm_list h a xs\<close>: the immediate list of the event at \<open>a\<close> is well formed and holds \<open>xs\<close>.
\<close>

definition imm_list :: "('e, 'p) heap \<Rightarrow> addr \<Rightarrow> addr list \<Rightarrow> bool" where
  "imm_list h a xs \<longleftrightarrow>
     lseg h (imm_head (h a)) xs None \<and> distinct xs \<and> imm_count (h a) = int (length xs) \<and>
     imm_tail (h a) = (if xs = [] then None else Some (last xs))"

lemma imm_list_empty: "imm_list h a [] \<longleftrightarrow> imm_head (h a) = None \<and> imm_tail (h a) = None \<and> imm_count (h a) = 0"
  by (auto simp: imm_list_def)

lemma imm_list_new: "imm_list (h(a := new_event cls i t ty p)) a []"
  by (simp add: imm_list_def new_event_def)

lemma imm_list_clear: "imm_list (clear_immediate h a) a []"
  by (simp add: imm_list_def clear_immediate_def)

lemma add_immediate_refused:
  "ev_class (h a) = CascadeEvent \<Longrightarrow> ev_tick (h e) \<noteq> ev_tick (h a) \<Longrightarrow>
   add_immediate_event h a e b = Inr (h, False)"
  by (simp add: add_immediate_event_def)

lemma add_immediate_tail:
  assumes l: "imm_list h a xs" and fresh: "e \<notin> set xs" "ev_next (h e) = None" "e \<noteq> a" "a \<notin> set xs"
    and c: "ev_class (h a) = CascadeEvent" "ev_tick (h e) = ev_tick (h a)"
  shows "\<exists>h'. add_immediate_event h a e False = Inr (h', True) \<and> imm_list h' a (xs @ [e])"
proof (cases "xs = []")
  case True
  with l fresh c show ?thesis
    by (auto simp: add_immediate_event_def imm_list_def)
next
  case False
  let ?h1 = "upd h (last xs) (\<lambda>ev. ev\<lparr>ev_next := Some e\<rparr>)"
  from False fresh have "last xs \<noteq> a" "last xs \<noteq> e" by (metis last_in_set)+
  with l fresh False have "lseg ?h1 (imm_head (h a)) (xs @ [e]) None"
    by (auto simp: lseg_append imm_list_def intro!: exI [of _ "Some e"] lseg_snoc)
  with l fresh c False \<open>last xs \<noteq> a\<close> show ?thesis
    by (auto simp: add_immediate_event_def imm_list_def Let_def)
qed

lemma add_immediate_head:
  assumes l: "imm_list h a xs" and fresh: "e \<notin> set xs" "ev_next (h e) = None" "e \<noteq> a" "a \<notin> set xs"
    and c: "ev_class (h a) = CascadeEvent" "ev_tick (h e) = ev_tick (h a)"
  shows "\<exists>h'. add_immediate_event h a e True = Inr (h', True) \<and> imm_list h' a (e # xs)"
  using assms by (auto simp: add_immediate_event_def imm_list_def Let_def)

end
