(* ===== verification/EventList.thy ===== *)
theory EventList imports Event begin

text \<open>
  \<open>maro/event_buffer/event_linked_list.py\<close>.

  A list is its head pointer (the \<open>next_event\<close> of its dummy head), its tail (\<open>None\<close> is the dummy
  head itself) and a counter.  Loops that follow pointers may meet a cycle, so they are
  \<open>partial_function\<close>s: \<open>None\<close> is a loop that does not return.

  The abstraction is an ordered forest (\<open>etree\<close>): a root per linked event, the events of its
  immediate list below it.  \<open>queue_ok\<close> says that a list represents a forest; \<open>tail_ok\<close> says that
  its tail pointer is the last root.  The first is kept by every operation, the second is not.
\<close>

section \<open>State and operations\<close>

record event_list =
  el_head :: "addr option"
  el_tail :: "addr option"
  el_count :: int

definition new_event_list :: event_list where
  "new_event_list = \<lparr>el_head = None, el_tail = None, el_count = 0\<rparr>"

definition clear_list :: "event_list \<Rightarrow> event_list" where
  "clear_list l = l\<lparr>el_head := None, el_tail := None, el_count := 0\<rparr>"

definition append_tail ::
  "('e, 'p) heap \<Rightarrow> event_list \<Rightarrow> addr \<Rightarrow> ('e, 'p) heap \<times> event_list" where
  "append_tail h l event =
     (case el_tail l of
        None \<Rightarrow> (h, l\<lparr>el_head := Some event, el_tail := Some event, el_count := el_count l + 1\<rparr>)
      | Some t \<Rightarrow> (upd h t (\<lambda>ev. ev\<lparr>ev_next := Some event\<rparr>),
                   l\<lparr>el_tail := Some event, el_count := el_count l + 1\<rparr>))"

definition append_head ::
  "('e, 'p) heap \<Rightarrow> event_list \<Rightarrow> addr \<Rightarrow> ('e, 'p) heap \<times> event_list" where
  "append_head h l event =
     (if el_count l = 0 then append_tail h l event
      else (upd h event (\<lambda>ev. ev\<lparr>ev_next := el_head l\<rparr>),
            l\<lparr>el_head := Some event, el_count := el_count l + 1\<rparr>))"

definition extract_sub_events ::
  "('e, 'p) heap \<Rightarrow> event_list \<Rightarrow> addr \<Rightarrow> (('e, 'p) heap \<times> event_list) res" where
  "extract_sub_events h l event =
     (case imm_tail (h event) of
        None \<Rightarrow> Inl AttributeError
      | Some t \<Rightarrow>
          let h1 = upd h t (\<lambda>ev. ev\<lparr>ev_next := el_head l\<rparr>);
              l1 = l\<lparr>el_head := imm_head (h1 event), el_count := el_count l + imm_count (h1 event)\<rparr>
          in Inr (clear_immediate h1 event, l1))"

definition is_finish :: "('e, 'p) event \<Rightarrow> bool" where
  "is_finish ev = (ev_state ev = FINISHED \<or> ev_state ev = RECYCLING)"

partial_function (option) clear_finished_events ::
  "('e, 'p) heap \<Rightarrow> event_list \<Rightarrow> (('e, 'p) heap \<times> event_list) res option" where
  "clear_finished_events h l =
     (case el_head l of
        None \<Rightarrow> Some (Inr (h, l))
      | Some event \<Rightarrow>
          if is_finish (h event) then
            (let l1 = l\<lparr>el_head := ev_next (h event), el_count := el_count l - 1\<rparr>
             in if ev_class (h event) = CascadeEvent \<and> imm_count (h event) \<noteq> 0 then
                  (case extract_sub_events h l1 event of
                     Inl err \<Rightarrow> Some (Inl err)
                   | Inr (h2, l2) \<Rightarrow> clear_finished_events h2 l2)
                else clear_finished_events h l1)
          else Some (Inr (h, l)))"

partial_function (option) collect_pending_decisions ::
  "('e, 'p) heap \<Rightarrow> addr option \<Rightarrow> addr list \<Rightarrow> addr list res option" where
  "collect_pending_decisions h cur acc =
     (case cur of
        None \<Rightarrow> Some (Inr acc)
      | Some event \<Rightarrow>
          if ev_type (h event) = Some PENDING_DECISION then
            (if ev_class (h event) = CascadeEvent
             then collect_pending_decisions h (ev_next (h event)) (acc @ [event])
             else Some (Inl AssertionError))
          else Some (Inr acc))"

datatype front = NoFront | FrontEvent addr | FrontDecisions "addr list"

definition clear_finished_and_get_front ::
  "('e, 'p) heap \<Rightarrow> event_list \<Rightarrow> (('e, 'p) heap \<times> event_list \<times> front) res option" where
  "clear_finished_and_get_front h l =
     (case clear_finished_events h l of
        None \<Rightarrow> None
      | Some (Inl err) \<Rightarrow> Some (Inl err)
      | Some (Inr (h1, l1)) \<Rightarrow>
          (case el_head l1 of
             None \<Rightarrow> Some (Inr (h1, l1, NoFront))
           | Some event \<Rightarrow>
               if ev_state (h1 event) = EXECUTING \<or> ev_type (h1 event) \<noteq> Some PENDING_DECISION
               then Some (Inr (h1, l1, FrontEvent event))
               else (case collect_pending_decisions h1 (Some event) [] of
                       None \<Rightarrow> None
                     | Some (Inl err) \<Rightarrow> Some (Inl err)
                     | Some (Inr ds) \<Rightarrow> Some (Inr (h1, l1, FrontDecisions ds)))))"

text \<open>Iteration (\<open>__iter__\<close>, \<open>__next__\<close>) over an unchanging heap.\<close>

partial_function (option) iter_events ::
  "('e, 'p) heap \<Rightarrow> addr option \<Rightarrow> addr list \<Rightarrow> addr list option" where
  "iter_events h cur acc =
     (case cur of None \<Rightarrow> Some acc
      | Some event \<Rightarrow> iter_events h (ev_next (h event)) (acc @ [event]))"

text \<open>\<open>__len__\<close>: Python refuses a negative length.\<close>

definition list_len :: "event_list \<Rightarrow> int res" where
  "list_len l = (if el_count l < 0 then Inl ValueError else Inr (el_count l))"

section \<open>Forests\<close>

datatype etree = ENode (root: addr) (subs: "etree list")

primrec addrs :: "etree \<Rightarrow> addr list" where
  "addrs (ENode a us) = a # concat (map addrs us)"

abbreviation flat :: "etree list \<Rightarrow> addr list" where
  "flat ts \<equiv> concat (map addrs ts)"

lemma root_in_addrs [simp]: "root t \<in> set (addrs t)"
  by (cases t) simp

lemma addrs_split: "addrs t = root t # flat (subs t)"
  by (cases t) simp

primrec tree_ok :: "('e, 'p) heap \<Rightarrow> etree \<Rightarrow> bool" where
  "tree_ok h (ENode a us) \<longleftrightarrow>
     imm_list h a (map root us) \<and> (us \<noteq> [] \<longrightarrow> ev_class (h a) = CascadeEvent) \<and>
     list_all (tree_ok h) us"

definition queue_ok :: "('e, 'p) heap \<Rightarrow> event_list \<Rightarrow> etree list \<Rightarrow> bool" where
  "queue_ok h l ts \<longleftrightarrow>
     lseg h (el_head l) (map root ts) None \<and> list_all (tree_ok h) ts \<and> distinct (flat ts) \<and>
     el_count l = int (length ts)"

definition tail_ok :: "event_list \<Rightarrow> etree list \<Rightarrow> bool" where
  "tail_ok l ts \<longleftrightarrow> el_tail l = (if ts = [] then None else Some (root (last ts)))"

function drop_done :: "(addr \<Rightarrow> bool) \<Rightarrow> etree list \<Rightarrow> etree list" where
  "drop_done d [] = []"
| "drop_done d (ENode a us # ts) = (if d a then drop_done d (us @ ts) else ENode a us # ts)"
  by pat_completeness auto
termination
  by (relation "measure (\<lambda>(d, ts). length (flat ts))") auto

lemma flat_cong_set: "u \<in> set us \<Longrightarrow> set (addrs u) \<subseteq> set (flat us)"
  by auto

lemma root_in_flat: "u \<in> set us \<Longrightarrow> root u \<in> set (flat us)"
  using flat_cong_set root_in_addrs by blast

lemma inner_in_flat: "t \<in> set ts \<Longrightarrow> x \<in> set (flat (subs t)) \<Longrightarrow> x \<in> set (flat ts)"
proof -
  assume t: "t \<in> set ts" and "x \<in> set (flat (subs t))"
  then have "x \<in> set (addrs t)" by (simp add: addrs_split [of t])
  then show ?thesis using flat_cong_set [OF t] by blast
qed

lemma distinct_roots: "distinct (flat ts) \<Longrightarrow> distinct (map root ts)"
proof (induction ts)
  case Nil
  then show ?case by simp
next
  case (Cons t ts)
  have "root t \<notin> set (map root ts)"
  proof
    assume "root t \<in> set (map root ts)"
    then obtain u where "u \<in> set ts" "root u = root t" by auto
    then have "root t \<in> set (flat ts)" using root_in_flat [of u ts] by simp
    moreover have "set (addrs t) \<inter> set (flat ts) = {}" using Cons.prems by simp
    ultimately show False using root_in_addrs [of t] by blast
  qed
  with Cons show ?case by simp
qed

text \<open>
  A tree is unaffected by writes outside it, and by writes to the \<open>next_event\<close> of its root.
\<close>

lemma imm_list_cong:
  assumes "imm_head (h a) = imm_head (h' a)" "imm_tail (h a) = imm_tail (h' a)"
    "imm_count (h a) = imm_count (h' a)"
    and "\<And>x. x \<in> set xs \<Longrightarrow> ev_next (h x) = ev_next (h' x)"
  shows "imm_list h a xs = imm_list h' a xs"
  using assms lseg_cong [of xs h h'] by (simp add: imm_list_def)

definition same_links :: "('e, 'p) event \<Rightarrow> ('e, 'p) event \<Rightarrow> bool" where
  "same_links e e' \<longleftrightarrow> ev_class e = ev_class e' \<and> imm_head e = imm_head e' \<and>
     imm_tail e = imm_tail e' \<and> imm_count e = imm_count e'"

lemma same_links_refl [simp]: "same_links e e"
  by (simp add: same_links_def)

lemma tree_ok_cong:
  assumes "\<And>x. x \<in> set (addrs t) \<Longrightarrow> same_links (h x) (h' x)"
    and "\<And>x. x \<in> set (flat (subs t)) \<Longrightarrow> ev_next (h x) = ev_next (h' x)"
  shows "tree_ok h t = tree_ok h' t"
  using assms
proof (induction t)
  case (ENode a us)
  have "tree_ok h u = tree_ok h' u" if u: "u \<in> set us" for u
  proof (rule ENode.IH [OF u])
    have sub: "set (addrs u) \<subseteq> set (flat us)" using u by (rule flat_cong_set)
    show "same_links (h x) (h' x)" if "x \<in> set (addrs u)" for x
      using that sub ENode.prems(1) [of x] by auto
    show "ev_next (h x) = ev_next (h' x)" if "x \<in> set (flat (subs u))" for x
      using that sub ENode.prems(2) [of x] by (auto simp: addrs_split [of u])
  qed
  moreover have "imm_list h a (map root us) = imm_list h' a (map root us)"
  proof (rule imm_list_cong)
    fix x assume "x \<in> set (map root us)"
    then obtain u where u: "u \<in> set us" "x = root u" by auto
    have "x \<in> set (flat us)" using u by (simp only: root_in_flat)
    with ENode.prems(2) show "ev_next (h x) = ev_next (h' x)" by simp
  qed (use ENode.prems(1) [of a] in \<open>auto simp: same_links_def\<close>)
  ultimately show ?case
    using ENode.prems(1) [of a] by (auto simp: same_links_def list_all_iff)
qed

lemma forest_ok_cong:
  assumes "\<And>x. x \<in> set (flat ts) \<Longrightarrow> same_links (h x) (h' x)"
    and "\<And>x t. t \<in> set ts \<Longrightarrow> x \<in> set (flat (subs t)) \<Longrightarrow> ev_next (h x) = ev_next (h' x)"
  shows "list_all (tree_ok h) ts = list_all (tree_ok h') ts"
proof -
  have "tree_ok h t = tree_ok h' t" if "t \<in> set ts" for t
    using that assms by (intro tree_ok_cong) auto
  then show ?thesis by (auto simp: list_all_iff)
qed

section \<open>Every operation refines its list operation\<close>

lemma queue_ok_new: "queue_ok h new_event_list [] \<and> tail_ok new_event_list []"
  by (simp add: queue_ok_def tail_ok_def new_event_list_def)

lemma queue_ok_clear: "queue_ok h (clear_list l) [] \<and> tail_ok (clear_list l) []"
  by (simp add: queue_ok_def tail_ok_def clear_list_def)

lemma tree_unique:
  assumes "distinct (flat ts)" "t \<in> set ts" "u \<in> set ts" "x \<in> set (addrs t)" "x \<in> set (addrs u)"
  shows "t = u"
  using assms by (induction ts) auto

lemma inner_not_root:
  assumes "distinct (flat ts)" "t \<in> set ts" "x \<in> set (flat (subs t))"
  shows "x \<notin> root ` set ts"
proof
  assume "x \<in> root ` set ts"
  then obtain u where u: "u \<in> set ts" "x = root u" by auto
  have "x \<in> set (addrs t)" using assms(3) by (simp add: addrs_split [of t])
  with u assms have "t = u" by (intro tree_unique [of ts t u x]) auto
  with u assms(3) have "\<not> distinct (root t # flat (subs t))" by simp
  then have "\<not> distinct (addrs t)" by (subst addrs_split)
  with assms(1,2) show False by (simp add: distinct_concat_iff)
qed

text \<open>What no list operation changes: everything but the links.\<close>

definition same_core :: "('e, 'p) event \<Rightarrow> ('e, 'p) event \<Rightarrow> bool" where
  "same_core e e' \<longleftrightarrow> ev_class e = ev_class e' \<and> ev_id e = ev_id e' \<and> ev_tick e = ev_tick e' \<and>
     ev_type e = ev_type e' \<and> ev_payload e = ev_payload e' \<and> ev_state e = ev_state e'"

lemma same_core_refl [simp]: "same_core e e"
  by (simp add: same_core_def)

lemma same_core_trans: "same_core e f \<Longrightarrow> same_core f g \<Longrightarrow> same_core e g"
  by (simp add: same_core_def)

lemma append_tail_refines:
  assumes q: "queue_ok h l ts" "tail_ok l ts"
    and fresh: "e \<notin> set (flat ts)" "ev_next (h e) = None" "tree_ok h (ENode e [])"
  shows "case append_tail h l e of (h', l') \<Rightarrow>
           queue_ok h' l' (ts @ [ENode e []]) \<and> tail_ok l' (ts @ [ENode e []]) \<and>
           (\<forall>x. same_core (h' x) (h x))"
proof (cases "ts = []")
  case True
  with q fresh show ?thesis
    by (simp add: append_tail_def queue_ok_def tail_ok_def)
next
  case False
  let ?t = "root (last ts)"
  let ?h = "upd h ?t (\<lambda>ev. ev\<lparr>ev_next := Some e\<rparr>)"
  have t: "?t \<in> root ` set ts" using False by simp
  have ne: "e \<noteq> ?t" using fresh(1) root_in_flat [of "last ts" ts] False by auto
  have dr: "distinct (map root ts)" using q(1) by (simp add: queue_ok_def distinct_roots)
  have "lseg ?h (el_head l) (map root ts) (Some e)"
    using lseg_snoc [of h "el_head l" "map root ts" None] dr q(1) False
    by (simp add: queue_ok_def last_map)
  then have "lseg ?h (el_head l) (map root (ts @ [ENode e []])) None"
    using fresh ne by (auto simp: lseg_append)
  moreover have "list_all (tree_ok h) ts = list_all (tree_ok ?h) ts"
    using q(1) t inner_not_root [of ts]
    by (intro forest_ok_cong) (auto simp: upd_apply same_links_def queue_ok_def)
  moreover have "tree_ok h (ENode e []) = tree_ok ?h (ENode e [])"
    by (intro tree_ok_cong) (auto simp: upd_apply same_links_def)
  ultimately show ?thesis
    using q fresh False
    by (auto simp: append_tail_def queue_ok_def tail_ok_def same_core_def upd_apply)
qed

lemma append_head_refines:
  assumes q: "queue_ok h l ts" "tail_ok l ts"
    and fresh: "e \<notin> set (flat ts)" "ev_next (h e) = None" "tree_ok h (ENode e [])"
  shows "case append_head h l e of (h', l') \<Rightarrow>
           queue_ok h' l' (ENode e [] # ts) \<and> tail_ok l' (ENode e [] # ts) \<and>
           (\<forall>x. same_core (h' x) (h x))"
proof (cases "ts = []")
  case True
  with q have "append_head h l e = append_tail h l e"
    by (simp add: append_head_def queue_ok_def)
  with append_tail_refines [OF assms] True show ?thesis by simp
next
  case False
  let ?h = "upd h e (\<lambda>ev. ev\<lparr>ev_next := el_head l\<rparr>)"
  have nr: "e \<notin> set (map root ts)" using fresh(1) root_in_flat [of _ ts] by auto
  have "list_all (tree_ok h) ts = list_all (tree_ok ?h) ts"
  proof (rule forest_ok_cong)
    fix x t assume "t \<in> set ts" "x \<in> set (flat (subs t))"
    then have "x \<in> set (flat ts)" by (rule inner_in_flat)
    with fresh(1) have "x \<noteq> e" by blast
    then show "ev_next (h x) = ev_next (?h x)" by simp
  qed (simp add: upd_apply same_links_def)
  moreover have "tree_ok h (ENode e []) = tree_ok ?h (ENode e [])"
    by (intro tree_ok_cong) (auto simp: upd_apply same_links_def)
  moreover have "append_head h l e = (?h, l\<lparr>el_head := Some e, el_count := el_count l + 1\<rparr>)"
    using q(1) False by (simp add: append_head_def queue_ok_def)
  ultimately show ?thesis
    using q fresh False nr
    by (auto simp: queue_ok_def tail_ok_def same_core_def upd_apply)
qed

lemma drop_done_subset: "set (flat (drop_done d ts)) \<subseteq> set (flat ts)"
  by (induction d ts rule: drop_done.induct) auto

lemma extract_refines:
  assumes q: "queue_ok h l (ENode a us # ts)" and ne: "us \<noteq> []"
    and l1: "l1 = l\<lparr>el_head := ev_next (h a), el_count := el_count l - 1\<rparr>"
  shows "\<exists>h2 l2. extract_sub_events h l1 a = Inr (h2, l2) \<and> queue_ok h2 l2 (us @ ts) \<and>
           el_tail l2 = el_tail l \<and> (\<forall>x. same_core (h2 x) (h x)) \<and>
           (\<forall>x. x \<notin> set (flat (ENode a us # ts)) \<longrightarrow> h2 x = h x)"
proof -
  let ?t = "root (last us)"
  let ?h1 = "upd h ?t (\<lambda>ev. ev\<lparr>ev_next := el_head l1\<rparr>)"
  let ?h2 = "clear_immediate ?h1 a"
  from q have dist: "distinct (a # flat (us @ ts))" and imm: "imm_list h a (map root us)"
    and chain: "lseg h (ev_next (h a)) (map root ts) None"
    and oks: "list_all (tree_ok h) (us @ ts)"
    by (auto simp: queue_ok_def)
  have tm: "?t \<in> root ` set (us @ ts)" using ne by simp
  have t_in: "?t \<in> set (flat us)" using ne by (intro root_in_flat) simp
  then have ta: "?t \<noteq> a" using dist by (auto simp del: set_concat)
  have t_ts: "?t \<notin> set (map root ts)"
    using dist t_in root_in_flat [of _ ts] by (auto simp del: set_concat)
  have du: "distinct (map root us)" using dist by (intro distinct_roots) simp
  have "lseg ?h1 (imm_head (h a)) (map root us) (ev_next (h a))"
    using lseg_snoc [of h "imm_head (h a)" "map root us" None] imm du ne l1
    by (simp add: imm_list_def last_map)
  with chain t_ts have "lseg ?h1 (imm_head (h a)) (map root (us @ ts)) None"
    by (auto simp: lseg_append)
  then have "lseg ?h2 (imm_head (h a)) (map root (us @ ts)) None"
    by (simp add: clear_immediate_def)
  moreover have "list_all (tree_ok h) (us @ ts) = list_all (tree_ok ?h2) (us @ ts)"
  proof (rule forest_ok_cong)
    fix x assume "x \<in> set (flat (us @ ts))"
    with dist have "x \<noteq> a" by (auto simp del: set_concat)
    then show "same_links (h x) (?h2 x)"
      by (simp add: clear_immediate_def upd_apply same_links_def)
  next
    fix x t assume "t \<in> set (us @ ts)" "x \<in> set (flat (subs t))"
    with dist have "x \<notin> root ` set (us @ ts)" by (intro inner_not_root) auto
    with tm have "x \<noteq> ?t" by blast
    then show "ev_next (h x) = ev_next (?h2 x)"
      by (simp add: clear_immediate_def upd_apply)
  qed
  moreover have "extract_sub_events h l1 a =
      Inr (?h2, l1\<lparr>el_head := imm_head (h a), el_count := el_count l1 + imm_count (h a)\<rparr>)"
    using imm ne ta by (simp add: extract_sub_events_def imm_list_def Let_def last_map)
  moreover have "\<forall>x. same_core (?h2 x) (h x)"
    by (simp add: clear_immediate_def upd_apply same_core_def)
  moreover have "\<forall>x. x \<notin> set (flat (ENode a us # ts)) \<longrightarrow> ?h2 x = h x"
    using t_in by (auto simp: clear_immediate_def upd_apply simp del: set_concat)
  ultimately show ?thesis
    using q imm oks dist l1 by (auto simp: queue_ok_def imm_list_def)
qed

text \<open>Dropping finished events, with the sub-events of a finished cascade event put in its place.\<close>

abbreviation finished_at :: "('e, 'p) heap \<Rightarrow> addr \<Rightarrow> bool" where
  "finished_at h a \<equiv> is_finish (h a)"

lemma same_core_finish: "(\<forall>x. same_core (h' x) (h x)) \<Longrightarrow> finished_at h' = finished_at h"
  by (auto simp: same_core_def is_finish_def fun_eq_iff)

lemma clear_finished_refines:
  assumes "queue_ok h l ts"
  shows "\<exists>h' l'. clear_finished_events h l = Some (Inr (h', l')) \<and>
           queue_ok h' l' (drop_done (finished_at h) ts) \<and> el_tail l' = el_tail l \<and>
           (\<forall>x. same_core (h' x) (h x)) \<and> (\<forall>x. x \<notin> set (flat ts) \<longrightarrow> h' x = h x)"
  using assms
proof (induction "finished_at h" ts arbitrary: h l rule: drop_done.induct)
  case 1
  then show ?case by (subst clear_finished_events.simps) (simp add: queue_ok_def)
next
  case (2 a us ts)
  let ?l1 = "l\<lparr>el_head := ev_next (h a), el_count := el_count l - 1\<rparr>"
  from "2.prems" have hd: "el_head l = Some a" by (simp add: queue_ok_def)
  show ?case
  proof (cases "is_finish (h a)")
    case False
    with hd "2.prems" show ?thesis by (subst clear_finished_events.simps) simp
  next
    case True
    show ?thesis
    proof (cases "us = []")
      case True
      with "2.prems" have "imm_count (h a) = 0" by (simp add: queue_ok_def imm_list_def)
      with hd \<open>is_finish (h a)\<close> have "clear_finished_events h l = clear_finished_events h ?l1"
        by (subst clear_finished_events.simps) (simp add: Let_def)
      moreover have "queue_ok h ?l1 (us @ ts)" using "2.prems" True by (simp add: queue_ok_def)
      ultimately show ?thesis
        using "2.hyps" [OF \<open>is_finish (h a)\<close> refl, of ?l1] \<open>is_finish (h a)\<close> by fastforce
    next
      case False
      from extract_refines [OF "2.prems" False refl] obtain h2 l2 where
        e: "extract_sub_events h ?l1 a = Inr (h2, l2)" and q: "queue_ok h2 l2 (us @ ts)"
        and t: "el_tail l2 = el_tail l" and c: "\<forall>x. same_core (h2 x) (h x)"
        and fr: "\<forall>x. x \<notin> set (flat (ENode a us # ts)) \<longrightarrow> h2 x = h x" by blast
      have "imm_count (h a) \<noteq> 0" "ev_class (h a) = CascadeEvent"
        using "2.prems" False by (auto simp: queue_ok_def imm_list_def)
      with hd \<open>is_finish (h a)\<close> e have "clear_finished_events h l = clear_finished_events h2 l2"
        by (subst clear_finished_events.simps) (simp add: Let_def)
      moreover have fin: "finished_at h2 = finished_at h" using c by (rule same_core_finish)
      moreover from "2.hyps" [OF True fin [symmetric] q] obtain h' l' where
        "clear_finished_events h2 l2 = Some (Inr (h', l'))"
        "queue_ok h' l' (drop_done (finished_at h2) (us @ ts))" "el_tail l' = el_tail l2"
        "\<forall>x. same_core (h' x) (h2 x)" "\<forall>x. x \<notin> set (flat (us @ ts)) \<longrightarrow> h' x = h2 x" by blast
      moreover have "x \<notin> set (flat (us @ ts))" if "x \<notin> set (flat (ENode a us # ts))" for x
        using that by simp
      ultimately show ?thesis using t c fr True by (auto intro: same_core_trans simp del: set_concat)
    qed
  qed
qed

text \<open>The tail pointer survives when the last event of the list does.\<close>

lemma drop_done_last:
  "drop_done d ts \<noteq> [] \<Longrightarrow> \<not> d (root (last ts)) \<Longrightarrow> last (drop_done d ts) = last ts"
proof (induction d ts rule: drop_done.induct)
  case (1 d)
  then show ?case by simp
next
  case (2 d a us ts)
  show ?case
  proof (cases "d a")
    case True
    with "2.prems" have "ts \<noteq> []" by auto
    with "2" True show ?thesis by simp
  qed simp
qed

lemma clear_finished_tail_ok:
  assumes "tail_ok l ts" "el_tail l' = el_tail l" "ts \<noteq> []" "\<not> finished_at h (root (last ts))"
  shows "tail_ok l' (drop_done (finished_at h) ts)"
proof -
  have "drop_done (finished_at h) ts \<noteq> []"
    using assms(3,4)
  proof (induction "finished_at h" ts rule: drop_done.induct)
    case (2 a us ts)
    then show ?case by (cases "ts = []"; cases "is_finish (h a)") auto
  qed simp
  with assms show ?thesis by (simp add: tail_ok_def drop_done_last)
qed

section \<open>The front of the queue\<close>

definition is_decision :: "('e, 'p) heap \<Rightarrow> addr \<Rightarrow> bool" where
  "is_decision h a \<longleftrightarrow> ev_type (h a) = Some PENDING_DECISION"

lemma collect_decisions_eq:
  assumes "lseg h p xs None" "\<forall>x \<in> set xs. is_decision h x \<longrightarrow> ev_class (h x) = CascadeEvent"
  shows "collect_pending_decisions h p acc = Some (Inr (acc @ takeWhile (is_decision h) xs))"
  using assms
proof (induction xs arbitrary: p acc)
  case Nil
  then show ?case by (subst collect_pending_decisions.simps) simp
next
  case (Cons x xs)
  then show ?case
    by (subst collect_pending_decisions.simps) (auto simp: is_decision_def [abs_def])
qed

lemma iter_events_eq: "lseg h p xs None \<Longrightarrow> iter_events h p acc = Some (acc @ xs)"
proof (induction xs arbitrary: p acc)
  case Nil
  then show ?case by (subst iter_events.simps) simp
next
  case (Cons x xs)
  then show ?case by (subst iter_events.simps) auto
qed

definition front_of :: "('e, 'p) heap \<Rightarrow> addr list \<Rightarrow> front" where
  "front_of h xs =
     (case xs of [] \<Rightarrow> NoFront
      | x # _ \<Rightarrow> if ev_state (h x) = EXECUTING \<or> \<not> is_decision h x then FrontEvent x
                else FrontDecisions (takeWhile (is_decision h) xs))"

definition decisions_cascade :: "('e, 'p) heap \<Rightarrow> etree list \<Rightarrow> bool" where
  "decisions_cascade h ts \<longleftrightarrow> (\<forall>x \<in> set (flat ts). is_decision h x \<longrightarrow> ev_class (h x) = CascadeEvent)"

lemma get_front_refines:
  assumes q: "queue_ok h l ts" and d: "decisions_cascade h ts"
  shows "\<exists>h' l'. clear_finished_and_get_front h l =
             Some (Inr (h', l', front_of h (map root (drop_done (finished_at h) ts)))) \<and>
           queue_ok h' l' (drop_done (finished_at h) ts) \<and> el_tail l' = el_tail l \<and>
           (\<forall>x. same_core (h' x) (h x)) \<and> (\<forall>x. x \<notin> set (flat ts) \<longrightarrow> h' x = h x)"
proof -
  let ?xs = "map root (drop_done (finished_at h) ts)"
  from clear_finished_refines [OF q] obtain h' l' where
    c: "clear_finished_events h l = Some (Inr (h', l'))"
    and q': "queue_ok h' l' (drop_done (finished_at h) ts)" and t: "el_tail l' = el_tail l"
    and core: "\<forall>x. same_core (h' x) (h x)" and fr: "\<forall>x. x \<notin> set (flat ts) \<longrightarrow> h' x = h x" by blast
  from core have same: "is_decision h' = is_decision h" "\<And>x. ev_state (h' x) = ev_state (h x)"
    "\<And>x. ev_type (h' x) = ev_type (h x)"
    by (auto simp: same_core_def is_decision_def fun_eq_iff)
  have "set ?xs \<subseteq> set (flat ts)"
    using drop_done_subset [of "finished_at h" ts] root_in_flat by fastforce
  with core d have d': "\<forall>x \<in> set ?xs. is_decision h x \<longrightarrow> ev_class (h' x) = CascadeEvent"
    by (auto simp: same_core_def decisions_cascade_def)
  from q' have l': "lseg h' (el_head l') ?xs None" by (simp add: queue_ok_def)
  show ?thesis
  proof (cases ?xs)
    case Nil
    with l' have "el_head l' = None" by simp
    with c q' t core fr Nil show ?thesis
      by (simp add: clear_finished_and_get_front_def front_of_def del: set_concat)
  next
    case (Cons x xs)
    with l' have hd: "el_head l' = Some x" by simp
    have "collect_pending_decisions h' (Some x) [] = Some (Inr (takeWhile (is_decision h) ?xs))"
      using collect_decisions_eq [of h' "Some x" ?xs "[]"] l' hd d' same(1) by simp
    with c hd q' t core fr Cons same show ?thesis
      by (auto simp del: set_concat simp: clear_finished_and_get_front_def front_of_def is_decision_def)
  qed
qed

end
