(* ===== verification/EventBuffer.thy ===== *)
theory EventBuffer imports EventList begin

text \<open>
  \<open>maro/event_buffer/event_pool.py\<close> and \<open>event_buffer.py\<close>.

  The buffer's state holds the event heap, the pool, the per-tick lists in the insertion order of
  the \<open>defaultdict\<close>, the handler table, the finished list and the rows of the event recorder.
  A handler is a name \<open>'h\<close>; \<open>execute\<close> takes the function \<open>invoke\<close> that runs a named handler on
  an event over the pair of the buffer and the business engine's state \<open>'w\<close>, since handlers
  generate, insert and link events themselves.
\<close>

section \<open>State\<close>

record ('e, 'p, 'h) event_buffer =
  eb_heap :: "('e, 'p) heap"
  eb_fresh :: addr
  pool_atom :: "addr list"
  pool_cascade :: "addr list"
  pool_count :: int
  eb_pending :: "(int option \<times> event_list) list"
  eb_handlers :: "('e maro_event \<times> 'h list) list"
  eb_finished :: "addr list"
  eb_disable_finished :: bool
  eb_record :: bool
  eb_recorder_ep :: int
  eb_rows :: "(int \<times> int option \<times> 'e maro_event option \<times> 'p option) list"

text \<open>\<open>EventBuffer.__init__\<close>: recording without a path raises \<open>ValueError\<close>.\<close>

definition init_event_buffer ::
  "bool \<Rightarrow> bool \<Rightarrow> string option \<Rightarrow> ('e, 'p, 'h) event_buffer res" where
  "init_event_buffer disable_finished_events record_events record_path =
     (if record_events \<and> record_path = None then Inl ValueError
      else Inr \<lparr>eb_heap = (\<lambda>_. new_event AtomEvent None None None None), eb_fresh = 0,
                pool_atom = [], pool_cascade = [], pool_count = 0, eb_pending = [],
                eb_handlers = [], eb_finished = [],
                eb_disable_finished = disable_finished_events, eb_record = record_events,
                eb_recorder_ep = 0, eb_rows = []\<rparr>)"

section \<open>The event pool\<close>

text \<open>\<open>_pop\<close>: the last pooled event of the class, or a new object.\<close>

definition pool_pop ::
  "('e, 'p, 'h) event_buffer \<Rightarrow> event_class \<Rightarrow> ('e, 'p, 'h) event_buffer \<times> addr" where
  "pool_pop b cls =
     (let cntr = (case cls of CascadeEvent \<Rightarrow> pool_cascade b | AtomEvent \<Rightarrow> pool_atom b)
      in if cntr = [] then
           (b\<lparr>eb_heap := (eb_heap b)(eb_fresh b := new_event cls None None None None),
              eb_fresh := eb_fresh b + 1\<rparr>, eb_fresh b)
         else
           ((case cls of CascadeEvent \<Rightarrow> b\<lparr>pool_cascade := butlast cntr\<rparr>
              | AtomEvent \<Rightarrow> b\<lparr>pool_atom := butlast cntr\<rparr>), last cntr))"

definition gen_event ::
  "('e, 'p, 'h) event_buffer \<Rightarrow> int option \<Rightarrow> 'e maro_event option \<Rightarrow> 'p option \<Rightarrow> bool
   \<Rightarrow> ('e, 'p, 'h) event_buffer \<times> addr" where
  "gen_event b tick event_type payload is_cascade =
     (let (b1, a) = pool_pop b (if is_cascade then CascadeEvent else AtomEvent)
      in (b1\<lparr>eb_heap := upd (eb_heap b1) a
                (reset_value (Some (pool_count b1)) tick event_type payload PENDING),
             pool_count := pool_count b1 + 1\<rparr>, a))"

text \<open>\<open>_append\<close>: detach the payload and the link, mark as recycling, put into the class's pool.\<close>

definition recycle_event ::
  "('e, 'p, 'h) event_buffer \<Rightarrow> addr \<Rightarrow> ('e, 'p, 'h) event_buffer" where
  "recycle_event b a =
     (let b1 = b\<lparr>eb_heap := upd (eb_heap b) a
                  (\<lambda>ev. ev\<lparr>ev_payload := None, ev_next := None, ev_state := RECYCLING\<rparr>)\<rparr>
      in case ev_class (eb_heap b a) of
           CascadeEvent \<Rightarrow> b1\<lparr>pool_cascade := pool_cascade b1 @ [a]\<rparr>
         | AtomEvent \<Rightarrow> b1\<lparr>pool_atom := pool_atom b1 @ [a]\<rparr>)"

text \<open>\<open>_extend\<close> over a Python list, and over a linked list: the iterator reads \<open>next_event\<close> of the
  event it returned last, after that event has been recycled.\<close>

definition recycle_all ::
  "('e, 'p, 'h) event_buffer \<Rightarrow> addr list \<Rightarrow> ('e, 'p, 'h) event_buffer" where
  "recycle_all b events = foldl recycle_event b events"

partial_function (option) recycle_linked ::
  "('e, 'p, 'h) event_buffer \<Rightarrow> addr option \<Rightarrow> ('e, 'p, 'h) event_buffer option" where
  "recycle_linked b cur =
     (case cur of
        None \<Rightarrow> Some b
      | Some event \<Rightarrow>
          (let b1 = recycle_event b event
           in recycle_linked b1 (ev_next (eb_heap b1 event))))"

section \<open>Operations of the buffer\<close>

definition get_finished_events :: "('e, 'p, 'h) event_buffer \<Rightarrow> addr list" where
  "get_finished_events b = eb_finished b"

definition set_pending ::
  "int option \<Rightarrow> event_list \<Rightarrow> ('e, 'p, 'h) event_buffer \<Rightarrow> ('e, 'p, 'h) event_buffer" where
  "set_pending k l b = b\<lparr>eb_pending := AList.update k l (eb_pending b)\<rparr>"

text \<open>Reading a missing key of the \<open>defaultdict\<close> creates an empty list.\<close>

definition touch_pending ::
  "int option \<Rightarrow> ('e, 'p, 'h) event_buffer \<Rightarrow> ('e, 'p, 'h) event_buffer \<times> event_list" where
  "touch_pending k b =
     (case map_of (eb_pending b) k of
        Some l \<Rightarrow> (b, l)
      | None \<Rightarrow> (set_pending k new_event_list b, new_event_list))"

definition get_pending_events ::
  "('e, 'p, 'h) event_buffer \<Rightarrow> int \<Rightarrow> (('e, 'p, 'h) event_buffer \<times> addr list) option" where
  "get_pending_events b tick =
     (let (b1, l) = touch_pending (Some tick) b
      in case iter_events (eb_heap b1) (el_head l) [] of
           None \<Rightarrow> None
         | Some es \<Rightarrow> Some (b1, es))"

fun reset_pending ::
  "int option list \<Rightarrow> ('e, 'p, 'h) event_buffer \<Rightarrow> ('e, 'p, 'h) event_buffer option" where
  "reset_pending [] b = Some b"
| "reset_pending (k # ks) b =
     (let l = snd (touch_pending k b)
      in case recycle_linked b (el_head l) of
           None \<Rightarrow> None
         | Some b1 \<Rightarrow> reset_pending ks (set_pending k (clear_list l) b1))"

definition reset_buffer ::
  "('e, 'p, 'h) event_buffer \<Rightarrow> ('e, 'p, 'h) event_buffer option" where
  "reset_buffer b =
     (let b1 = (recycle_all b (eb_finished b))\<lparr>eb_finished := []\<rparr>
      in case reset_pending (map fst (eb_pending b1)) b1 of
           None \<Rightarrow> None
         | Some b2 \<Rightarrow>
             Some (if eb_record b2 then b2\<lparr>eb_recorder_ep := eb_recorder_ep b2 + 1\<rparr> else b2))"

definition gen_atom_event ::
  "('e, 'p, 'h) event_buffer \<Rightarrow> int \<Rightarrow> 'e maro_event \<Rightarrow> 'p option \<Rightarrow> ('e, 'p, 'h) event_buffer \<times> addr" where
  "gen_atom_event b tick event_type payload = gen_event b (Some tick) (Some event_type) payload False"

definition gen_cascade_event ::
  "('e, 'p, 'h) event_buffer \<Rightarrow> int \<Rightarrow> 'e maro_event \<Rightarrow> 'p option \<Rightarrow> ('e, 'p, 'h) event_buffer \<times> addr" where
  "gen_cascade_event b tick event_type payload = gen_event b (Some tick) (Some event_type) payload True"

definition gen_decision_event ::
  "('e, 'p, 'h) event_buffer \<Rightarrow> int \<Rightarrow> 'p \<Rightarrow> ('e, 'p, 'h) event_buffer \<times> addr" where
  "gen_decision_event b tick payload = gen_cascade_event b tick PENDING_DECISION (Some payload)"

definition register_event_handler ::
  "('e, 'p, 'h) event_buffer \<Rightarrow> 'e maro_event \<Rightarrow> 'h \<Rightarrow> ('e, 'p, 'h) event_buffer" where
  "register_event_handler b event_type handler =
     b\<lparr>eb_handlers := AList.update event_type
          ((case map_of (eb_handlers b) event_type of None \<Rightarrow> [] | Some hs \<Rightarrow> hs) @ [handler])
          (eb_handlers b)\<rparr>"

definition insert_event ::
  "('e, 'p, 'h) event_buffer \<Rightarrow> addr \<Rightarrow> ('e, 'p, 'h) event_buffer" where
  "insert_event b event =
     (let k = ev_tick (eb_heap b event);
          (b1, l) = touch_pending k b;
          (h, l') = append_tail (eb_heap b1) l event
      in set_pending k l' (b1\<lparr>eb_heap := h\<rparr>))"

section \<open>Dispatch\<close>

type_synonym ('e, 'p, 'h, 'w) world = "('e, 'p, 'h) event_buffer \<times> 'w"

definition handlers_for :: "('e maro_event \<times> 'h list) list \<Rightarrow> 'e maro_event option \<Rightarrow> 'h list" where
  "handlers_for table event_type =
     (case event_type of
        None \<Rightarrow> []
      | Some ty \<Rightarrow> (case map_of table ty of None \<Rightarrow> [] | Some hs \<Rightarrow> hs))"

definition handlers_of :: "('e, 'p, 'h) event_buffer \<Rightarrow> addr \<Rightarrow> 'h list" where
  "handlers_of b event = handlers_for (eb_handlers b) (ev_type (eb_heap b event))"

definition set_state :: "event_state \<Rightarrow> addr \<Rightarrow> ('e, 'p, 'h) event_buffer \<Rightarrow> ('e, 'p, 'h) event_buffer" where
  "set_state st event b = b\<lparr>eb_heap := upd (eb_heap b) event (\<lambda>ev. ev\<lparr>ev_state := st\<rparr>)\<rparr>"

definition finish_event :: "addr \<Rightarrow> ('e, 'p, 'h) event_buffer \<Rightarrow> ('e, 'p, 'h) event_buffer" where
  "finish_event event b =
     (let b1 = set_state FINISHED event b;
          b2 = (if eb_disable_finished b1 then recycle_event b1 event
                else b1\<lparr>eb_finished := eb_finished b1 @ [event]\<rparr>);
          ev = eb_heap b2 event
      in if eb_record b2
         then b2\<lparr>eb_rows := eb_rows b2 @ [(eb_recorder_ep b2, ev_tick ev, ev_type ev, ev_payload ev)]\<rparr>
         else b2)"

partial_function (option) execute ::
  "('h \<Rightarrow> addr \<Rightarrow> ('e, 'p, 'h, 'w) world \<Rightarrow> ('e, 'p, 'h, 'w) world res) \<Rightarrow> int
   \<Rightarrow> ('e, 'p, 'h, 'w) world \<Rightarrow> (('e, 'p, 'h, 'w) world \<times> addr list) res option" where
  "execute invoke tick s =
     (case map_of (eb_pending (fst s)) (Some tick) of
        None \<Rightarrow> Some (Inr (s, []))
      | Some l \<Rightarrow>
          (if el_count l < 0 then Some (Inl ValueError)
           else if el_count l = 0 then Some (Inr (s, []))
           else
             (case clear_finished_and_get_front (eb_heap (fst s)) l of
                None \<Rightarrow> None
              | Some (Inl err) \<Rightarrow> Some (Inl err)
              | Some (Inr (h1, l1, front)) \<Rightarrow>
                  (let b1 = set_pending (Some tick) l1 ((fst s)\<lparr>eb_heap := h1\<rparr>)
                   in case front of
                        NoFront \<Rightarrow> Some (Inr ((b1, snd s), []))
                      | FrontDecisions ds \<Rightarrow> Some (Inr ((b1, snd s), ds))
                      | FrontEvent event \<Rightarrow>
                          (let b2 = set_state EXECUTING event b1
                           in case foldE (\<lambda>hd. invoke hd event) (handlers_of b2 event) (b2, snd s) of
                                Inl err \<Rightarrow> Some (Inl err)
                              | Inr s3 \<Rightarrow>
                                  execute invoke tick (finish_event event (fst s3), snd s3))))))"

end
