(* ===== verification/BufferProps.thy ===== *)
theory BufferProps imports EventBuffer "HOL-Library.Multiset_Order" begin

text \<open>
  Correctness of the event buffer over the forest abstraction of \<open>EventList\<close>: the order in which
  one tick's events are dispatched, where dispatch stops, what insertion, generation, reset and
  recycling do, and the two situations in which linked events are lost (recycling a finished event
  before it is unlinked; appending behind a tail pointer that has left the list).
\<close>

section \<open>Frame lemmas\<close>

lemma queue_ok_cong:
  assumes "\<And>x. x \<in> set (flat ts) \<Longrightarrow> same_links (h x) (h' x) \<and> ev_next (h x) = ev_next (h' x)"
  shows "queue_ok h l ts = queue_ok h' l ts"
proof -
  have "list_all (tree_ok h) ts = list_all (tree_ok h') ts"
    using assms by (intro forest_ok_cong) (blast intro: inner_in_flat)+
  moreover have "lseg h (el_head l) (map root ts) None = lseg h' (el_head l) (map root ts) None"
    using assms root_in_flat by (intro lseg_cong) fastforce
  ultimately show ?thesis by (simp add: queue_ok_def)
qed

lemma queue_ok_set_state [simp]:
  "queue_ok (eb_heap (set_state st a b)) l ts = queue_ok (eb_heap b) l ts"
  by (rule queue_ok_cong) (auto simp: set_state_def upd_apply same_links_def)

lemma set_state_simps [simp]:
  "eb_pending (set_state st a b) = eb_pending b" "eb_finished (set_state st a b) = eb_finished b"
  "eb_handlers (set_state st a b) = eb_handlers b" "eb_record (set_state st a b) = eb_record b"
  "eb_disable_finished (set_state st a b) = eb_disable_finished b"
  "eb_rows (set_state st a b) = eb_rows b" "eb_recorder_ep (set_state st a b) = eb_recorder_ep b"
  by (simp_all add: set_state_def)

lemma set_state_heap: "eb_heap (set_state st a b) x = (if x = a then (eb_heap b a)\<lparr>ev_state := st\<rparr> else eb_heap b x)"
  by (simp add: set_state_def upd_apply)

lemma set_pending_simps [simp]:
  "eb_heap (set_pending k l b) = eb_heap b" "eb_finished (set_pending k l b) = eb_finished b"
  "eb_handlers (set_pending k l b) = eb_handlers b" "eb_record (set_pending k l b) = eb_record b"
  "eb_disable_finished (set_pending k l b) = eb_disable_finished b"
  "map_of (eb_pending (set_pending k l b)) = (map_of (eb_pending b))(k \<mapsto> l)"
  by (simp_all add: set_pending_def)

lemma drop_done_none: "\<forall>a \<in> set (flat ts). \<not> d a \<Longrightarrow> drop_done d ts = ts"
  by (cases "(d, ts)" rule: drop_done.cases) auto

lemma drop_done_hd: "ts \<noteq> [] \<Longrightarrow> \<not> d (root (hd ts)) \<Longrightarrow> drop_done d ts = ts"
  by (cases "(d, ts)" rule: drop_done.cases) auto

section \<open>Handlers\<close>

text \<open>
  The effect on the engine of the handlers of an event, when \<open>act hd a tick payload\<close> is the effect of
  handler \<open>hd\<close> on event \<open>a\<close>.
\<close>

definition event_effect ::
  "('h \<Rightarrow> addr \<Rightarrow> int option \<Rightarrow> 'p option \<Rightarrow> 'o \<Rightarrow> 'o) \<Rightarrow> ('e, 'p, 'h) event_buffer \<Rightarrow> addr \<Rightarrow> 'o \<Rightarrow> 'o" where
  "event_effect act b a w =
     fold (\<lambda>hd. act hd a (ev_tick (eb_heap b a)) (ev_payload (eb_heap b a))) (handlers_of b a) w"

text \<open>The events that live: those created and not in the pool.\<close>

definition in_use :: "('e, 'p, 'h) event_buffer \<Rightarrow> addr \<Rightarrow> bool" where
  "in_use b x \<longleftrightarrow> x < eb_fresh b \<and> x \<notin> set (pool_atom b @ pool_cascade b)"

definition pool_ok :: "('e, 'p, 'h) event_buffer \<Rightarrow> bool" where
  "pool_ok b \<longleftrightarrow> distinct (pool_atom b @ pool_cascade b) \<and>
     (\<forall>x \<in> set (pool_atom b @ pool_cascade b). x < eb_fresh b) \<and>
     (\<forall>x \<in> set (pool_atom b). ev_class (eb_heap b x) = AtomEvent \<and> ev_next (eb_heap b x) = None \<and>
        imm_list (eb_heap b) x [])"

text \<open>The events \<open>X\<close> queued at tick \<open>t\<close> live, and are in no other tick's list.\<close>

definition detached :: "int \<Rightarrow> addr set \<Rightarrow> ('e, 'p, 'h) event_buffer \<Rightarrow> bool" where
  "detached t X b \<longleftrightarrow> pool_ok b \<and> (\<forall>x \<in> X. in_use b x) \<and>
     (\<forall>u l y. u \<noteq> Some t \<longrightarrow> map_of (eb_pending b) u = Some l \<longrightarrow> el_tail l = Some y \<longrightarrow> in_use b y \<and> y \<notin> X)"

text \<open>What dispatch keeps of the living events: everything but their links and their state.\<close>

definition kept :: "('e, 'p, 'h) event_buffer \<Rightarrow> ('e, 'p, 'h) event_buffer \<Rightarrow> bool" where
  "kept b b' \<longleftrightarrow> eb_handlers b' = eb_handlers b \<and>
     (\<forall>x. in_use b x \<longrightarrow> in_use b' x \<and>
        same_core ((eb_heap b' x)\<lparr>ev_state := ev_state (eb_heap b x)\<rparr>) (eb_heap b x))"

text \<open>Events attached to an event of rank \<open>n\<close>: ordinary, not finished, of a lower rank.\<close>

definition attached ::
  "('e maro_event option \<Rightarrow> nat) \<Rightarrow> nat \<Rightarrow> ('e, 'p) heap \<Rightarrow> etree list \<Rightarrow> bool" where
  "attached rank n h news \<longleftrightarrow>
     (\<forall>x \<in> set (flat news). \<not> finished_at h x \<and> \<not> is_decision h x \<and> rank (ev_type (h x)) < n)"

text \<open>
  What a handler may do to the buffer while the event \<open>a\<close> at the front of tick \<open>t\<close>'s list \<open>l\<close> is
  executed: create events, insert them at other ticks, and attach them to \<open>a\<close> as further immediate
  events (\<open>news\<close>).
\<close>

definition grows ::
  "('e maro_event option \<Rightarrow> nat) \<Rightarrow> int \<Rightarrow> event_list \<Rightarrow> addr \<Rightarrow> etree list \<Rightarrow> etree list \<Rightarrow> etree list
   \<Rightarrow> ('e, 'p, 'h) event_buffer \<Rightarrow> ('e, 'p, 'h) event_buffer \<Rightarrow> bool" where
  "grows rank t l a us news rs b b' \<longleftrightarrow>
     eb_finished b' = eb_finished b \<and> eb_disable_finished b' = eb_disable_finished b \<and>
     map_of (eb_pending b') (Some t) = Some l \<and> kept b b' \<and>
     (\<forall>x. in_use b x \<longrightarrow> ev_state (eb_heap b' x) = ev_state (eb_heap b x)) \<and>
     detached t (set (flat (ENode a (us @ news) # rs))) b' \<and>
     queue_ok (eb_heap b') l (ENode a (us @ news) # rs) \<and>
     attached rank (rank (ev_type (eb_heap b' a))) (eb_heap b') news"

definition calm ::
  "('h \<Rightarrow> addr \<Rightarrow> ('e, 'p, 'h, 'w) world \<Rightarrow> ('e, 'p, 'h, 'w) world res) \<Rightarrow> ('e maro_event option \<Rightarrow> nat)
   \<Rightarrow> ('w \<Rightarrow> 'o) \<Rightarrow> ('h \<Rightarrow> addr \<Rightarrow> int option \<Rightarrow> 'p option \<Rightarrow> 'o \<Rightarrow> 'o) \<Rightarrow> int \<Rightarrow> bool" where
  "calm invoke rank f g t \<longleftrightarrow>
     (\<forall>hd a b w b' w' l us rs. invoke hd a (b, w) = Inr (b', w') \<longrightarrow>
        map_of (eb_pending b) (Some t) = Some l \<longrightarrow> queue_ok (eb_heap b) l (ENode a us # rs) \<longrightarrow>
        detached t (set (flat (ENode a us # rs))) b \<longrightarrow>
        f w' = g hd a (ev_tick (eb_heap b a)) (ev_payload (eb_heap b a)) (f w) \<and>
        (\<exists>news. grows rank t l a us news rs b b'))"

lemma detached_cong:
  assumes "detached t X b" "X' \<subseteq> X" "eb_fresh b' = eb_fresh b" "pool_atom b' = pool_atom b"
    "pool_cascade b' = pool_cascade b" "\<forall>u. u \<noteq> Some t \<longrightarrow> map_of (eb_pending b') u = map_of (eb_pending b) u"
    "\<forall>x. x \<notin> X \<longrightarrow> ev_class (eb_heap b' x) = ev_class (eb_heap b x) \<and> ev_next (eb_heap b' x) = ev_next (eb_heap b x) \<and>
       same_links (eb_heap b' x) (eb_heap b x)"
  shows "detached t X' b'"
proof -
  have "in_use b' = in_use b" using assms(3-5) by (simp add: in_use_def fun_eq_iff)
  moreover have "x \<notin> X" if "x \<in> set (pool_atom b)" for x
    using assms(1) that by (auto simp: detached_def in_use_def)
  ultimately show ?thesis
    using assms by (fastforce simp: detached_def pool_ok_def imm_list_empty same_links_def)
qed

lemma kept_refl [simp]: "kept b b"
  by (simp add: kept_def same_core_def)

lemma kept_trans: "kept b b1 \<Longrightarrow> kept b1 b2 \<Longrightarrow> kept b b2"
  by (auto simp: kept_def same_core_def)

lemma kept_event:
  assumes "kept b b'" "in_use b a"
  shows "ev_tick (eb_heap b' a) = ev_tick (eb_heap b a)" "ev_type (eb_heap b' a) = ev_type (eb_heap b a)"
    "ev_payload (eb_heap b' a) = ev_payload (eb_heap b a)" "ev_class (eb_heap b' a) = ev_class (eb_heap b a)"
    "is_decision (eb_heap b') a = is_decision (eb_heap b) a" "in_use b' a" "event_effect g b' a = event_effect g b a"
  using assms by (simp_all add: kept_def same_core_def is_decision_def event_effect_def handlers_of_def fun_eq_iff)

lemma grows_refl:
  "map_of (eb_pending b) (Some t) = Some l \<Longrightarrow> queue_ok (eb_heap b) l (ENode a us # rs) \<Longrightarrow>
   detached t (set (flat (ENode a us # rs))) b \<Longrightarrow> grows rank t l a us [] rs b b"
  by (simp add: grows_def attached_def)

lemma grows_trans:
  assumes "grows rank t l a us n1 rs b b1" "grows rank t l a (us @ n1) n2 rs b1 b2"
  shows "grows rank t l a us (n1 @ n2) rs b b2"
proof -
  have use: "in_use b1 x" if "x \<in> set (flat n1) \<or> x = a" for x
    using assms(1) that by (auto simp: grows_def detached_def)
  have k: "kept b1 b2" "kept b b1" and st: "\<forall>x. in_use b1 x \<longrightarrow> ev_state (eb_heap b2 x) = ev_state (eb_heap b1 x)"
    using assms by (simp_all add: grows_def)
  have ra: "rank (ev_type (eb_heap b2 a)) = rank (ev_type (eb_heap b1 a))"
    using kept_event(2) [OF k(1) use] by simp
  have "attached rank (rank (ev_type (eb_heap b2 a))) (eb_heap b2) n1"
    using assms(1) use st kept_event(2,5) [OF k(1) use] ra
    by (auto simp: grows_def attached_def is_finish_def simp del: set_concat)
  moreover have "attached rank (rank (ev_type (eb_heap b2 a))) (eb_heap b2) n2"
    using assms(2) by (simp add: grows_def)
  ultimately have "attached rank (rank (ev_type (eb_heap b2 a))) (eb_heap b2) (n1 @ n2)"
    by (auto simp: attached_def)
  moreover have "\<forall>x. in_use b x \<longrightarrow> ev_state (eb_heap b2 x) = ev_state (eb_heap b x)"
    using assms(1) st k(2) by (auto simp: grows_def kept_def)
  ultimately show ?thesis using assms k kept_trans by (auto simp: grows_def)
qed

text \<open>The handlers of an event, run in order.\<close>

lemma calm_handlers:
  assumes c: "calm invoke rank f g t"
    and "foldE (\<lambda>hd. invoke hd a) hs (b, w) = Inr (b', w')" "map_of (eb_pending b) (Some t) = Some l"
    "queue_ok (eb_heap b) l (ENode a us # rs)" "detached t (set (flat (ENode a us # rs))) b"
  shows "f w' = fold (\<lambda>hd. g hd a (ev_tick (eb_heap b a)) (ev_payload (eb_heap b a))) hs (f w) \<and>
    (\<exists>news. grows rank t l a us news rs b b')"
  using assms(2-)
proof (induction hs arbitrary: b w us)
  case Nil
  then show ?case using grows_refl by fastforce
next
  case (Cons hd hs)
  obtain b1 w1 where i: "invoke hd a (b, w) = Inr (b1, w1)" "foldE (\<lambda>hd. invoke hd a) hs (b1, w1) = Inr (b', w')"
    using Cons.prems(1) by (auto simp: res_simps)
  from c i(1) Cons.prems(2-) have fw: "f w1 = g hd a (ev_tick (eb_heap b a)) (ev_payload (eb_heap b a)) (f w)"
    and "\<exists>n1. grows rank t l a us n1 rs b b1" unfolding calm_def by blast+
  then obtain n1 where g1: "grows rank t l a us n1 rs b b1" by blast
  then have "map_of (eb_pending b1) (Some t) = Some l" "queue_ok (eb_heap b1) l (ENode a (us @ n1) # rs)"
    "detached t (set (flat (ENode a (us @ n1) # rs))) b1" "kept b b1" by (simp_all add: grows_def)
  note this and Cons.IH [OF i(2) this(1-3)]
  moreover have "in_use b a" using Cons.prems(4) by (simp add: detached_def)
  ultimately show ?case using fw kept_event [of b b1 a] grows_trans [OF g1] by fastforce
qed

lemma calm_error:
  assumes c: "calm invoke rank f g t"
    and "foldE (\<lambda>hd. invoke hd a) hs (b, w) = Inl err" "map_of (eb_pending b) (Some t) = Some l"
    "queue_ok (eb_heap b) l (ENode a us # rs)" "detached t (set (flat (ENode a us # rs))) b"
  shows "\<exists>hd b1 w1. invoke hd a (b1, w1) = Inl err \<and> kept b b1"
  using assms(2-)
proof (induction hs arbitrary: b w us)
  case (Cons hd hs)
  show ?case
  proof (cases "invoke hd a (b, w)")
    case (Inl e)
    with Cons.prems(1) show ?thesis by (auto simp: bindE_def intro: kept_refl)
  next
    case (Inr s)
    obtain b1 w1 where s: "s = (b1, w1)" by (cases s)
    with c Inr Cons.prems(2-) obtain n1 where g1: "grows rank t l a us n1 rs b b1" unfolding calm_def by blast
    have "foldE (\<lambda>hd. invoke hd a) hs (b1, w1) = Inl err" using Cons.prems(1) Inr s by (simp add: bindE_def)
    moreover have "map_of (eb_pending b1) (Some t) = Some l" "queue_ok (eb_heap b1) l (ENode a (us @ n1) # rs)"
      "detached t (set (flat (ENode a (us @ n1) # rs))) b1" "kept b b1" using g1 by (simp_all add: grows_def)
    ultimately show ?thesis using Cons.IH [of b1 w1 "us @ n1"] kept_trans by blast
  qed
qed simp

section \<open>Dispatch order\<close>

lemma finish_keeps [simp]:
  "\<not> eb_disable_finished b \<Longrightarrow> eb_pending (finish_event a b) = eb_pending b"
  "\<not> eb_disable_finished b \<Longrightarrow> eb_finished (finish_event a b) = eb_finished b @ [a]"
  "\<not> eb_disable_finished b \<Longrightarrow> eb_heap (finish_event a b) = eb_heap (set_state FINISHED a b)"
  "\<not> eb_disable_finished b \<Longrightarrow> eb_handlers (finish_event a b) = eb_handlers b"
  "\<not> eb_disable_finished b \<Longrightarrow> eb_fresh (finish_event a b) = eb_fresh b"
  "\<not> eb_disable_finished b \<Longrightarrow> pool_atom (finish_event a b) = pool_atom b"
  "\<not> eb_disable_finished b \<Longrightarrow> pool_cascade (finish_event a b) = pool_cascade b"
  "\<not> eb_disable_finished b \<Longrightarrow> \<not> eb_disable_finished (finish_event a b)"
  by (simp_all add: finish_event_def Let_def set_state_def)

text \<open>An event at which a call of \<open>execute\<close> stops: a decision that has not been answered.\<close>

definition stops :: "('e, 'p) heap \<Rightarrow> addr \<Rightarrow> bool" where
  "stops h a \<longleftrightarrow> is_decision h a \<and> ev_state (h a) \<noteq> EXECUTING"

text \<open>One round of the loop of \<open>execute\<close>: the front is taken off, its handlers run, it is finished.\<close>

lemma execute_round:
  assumes c: "calm invoke rank f g t"
    and p: "map_of (eb_pending b) (Some t) = Some l" "queue_ok (eb_heap b) l ts" "detached t (set (flat ts)) b"
    and d: "decisions_cascade (eb_heap b) ts" and nd: "\<not> eb_disable_finished b"
    and front: "drop_done (finished_at (eb_heap b)) ts = ENode a us # rs" "\<not> stops (eb_heap b) a"
  shows "(\<exists>err hd b1 w1. execute invoke t (b, w) = Some (Inl err) \<and> invoke hd a (b1, w1) = Inl err \<and> kept b b1) \<or>
    (\<exists>b' w' l' news. execute invoke t (b, w) = execute invoke t (b', w') \<and> f w' = event_effect g b a (f w) \<and>
       map_of (eb_pending b') (Some t) = Some l' \<and> queue_ok (eb_heap b') l' (ENode a (us @ news) # rs) \<and>
       el_tail l' = el_tail l \<and> eb_finished b' = eb_finished b @ [a] \<and> \<not> eb_disable_finished b' \<and>
       ev_state (eb_heap b' a) = FINISHED \<and> kept b b' \<and>
       (\<forall>x. in_use b x \<longrightarrow> x \<noteq> a \<longrightarrow> ev_state (eb_heap b' x) = ev_state (eb_heap b x)) \<and>
       detached t (set (flat (ENode a (us @ news) # rs))) b' \<and>
       attached rank (rank (ev_type (eb_heap b a))) (eb_heap b') news)"
proof -
  have sub: "set (flat (ENode a us # rs)) \<subseteq> set (flat ts)" using drop_done_subset [of "finished_at (eb_heap b)" ts] front(1) by simp
  from get_front_refines [OF p(2) d] front obtain h1 l1 where
    g: "clear_finished_and_get_front (eb_heap b) l = Some (Inr (h1, l1, FrontEvent a))"
    and q1: "queue_ok h1 l1 (ENode a us # rs)" and tl: "el_tail l1 = el_tail l"
    and core: "\<forall>x. same_core (h1 x) (eb_heap b x)" and frame: "\<forall>x. x \<notin> set (flat ts) \<longrightarrow> h1 x = eb_heap b x"
    by (auto simp: front_of_def stops_def simp del: set_concat)
  let ?b1 = "set_pending (Some t) l1 (b\<lparr>eb_heap := h1\<rparr>)"
  let ?b2 = "set_state EXECUTING a ?b1"
  from p(2) front(1) have cnt: "0 < el_count l" by (cases ts) (auto simp: queue_ok_def)
  have use: "in_use b a" using p(3) sub by (auto simp: detached_def)
  have eq: "in_use ?b2 = in_use b" by (simp add: in_use_def fun_eq_iff set_state_def set_pending_def)
  have k2: "kept b ?b2" using core eq by (auto simp: kept_def set_state_heap same_core_def)
  have d2: "detached t (set (flat (ENode a us # rs))) ?b2"
    by (rule detached_cong [OF p(3) sub])
       (use frame sub in \<open>auto simp: set_state_def set_pending_def upd_apply same_links_def simp del: set_concat\<close>)
  have unf: "execute invoke t (b, w) =
      (case foldE (\<lambda>hd. invoke hd a) (handlers_of ?b2 a) (?b2, w) of Inl err \<Rightarrow> Some (Inl err)
        | Inr s3 \<Rightarrow> execute invoke t (finish_event a (fst s3), snd s3))"
    using cnt p(1) g by (subst execute.simps) (simp add: Let_def)
  show ?thesis
  proof (cases "foldE (\<lambda>hd. invoke hd a) (handlers_of ?b2 a) (?b2, w)")
    case (Inl err)
    have "map_of (eb_pending ?b2) (Some t) = Some l1" "queue_ok (eb_heap ?b2) l1 (ENode a us # rs)" using q1 by simp_all
    from calm_error [OF c Inl this d2] unf Inl kept_trans [OF k2] show ?thesis by auto
  next
    case (Inr s3)
    obtain b3 w3 where s3: "s3 = (b3, w3)" by (cases s3)
    have "map_of (eb_pending ?b2) (Some t) = Some l1" "queue_ok (eb_heap ?b2) l1 (ENode a us # rs)" using q1 by simp_all
    from calm_handlers [OF c Inr [unfolded s3] this d2] obtain news where
      fw: "f w3 = event_effect g ?b2 a (f w)" and gr: "grows rank t l1 a us news rs ?b2 b3"
      by (auto simp: event_effect_def)
    have nd3: "\<not> eb_disable_finished b3" using gr nd by (simp add: grows_def)
    let ?b' = "finish_event a b3"
    have use3: "in_use ?b' = in_use b3" using nd3 by (simp add: in_use_def fun_eq_iff)
    have k3: "kept ?b2 b3" using gr by (simp add: grows_def)
    have k: "kept b ?b'" using kept_trans [OF k2 k3] use3 nd3 by (auto simp: kept_def set_state_heap same_core_def)
    have "detached t (set (flat (ENode a (us @ news) # rs))) b3" using gr by (simp add: grows_def)
    then have d3: "detached t (set (flat (ENode a (us @ news) # rs))) ?b'"
      by (rule detached_cong) (use nd3 in \<open>auto simp: set_state_heap same_links_def\<close>)
    have "distinct (flat (ENode a (us @ news) # rs))" using gr by (simp add: grows_def queue_ok_def)
    then have "a \<notin> set (flat news)" by auto
    moreover have "ev_type (eb_heap b3 a) = ev_type (eb_heap b a)"
      using kept_event(2) [OF kept_trans [OF k2 k3] use] .
    moreover have "attached rank (rank (ev_type (eb_heap b3 a))) (eb_heap b3) news" using gr by (simp add: grows_def)
    ultimately have "attached rank (rank (ev_type (eb_heap b a))) (eb_heap ?b') news"
      using nd3 by (auto simp: attached_def set_state_heap is_decision_def simp del: set_concat)
    moreover have "execute invoke t (b, w) = execute invoke t (?b', w3)" using unf Inr s3 by simp
    moreover have "\<forall>x. in_use b x \<longrightarrow> x \<noteq> a \<longrightarrow> ev_state (eb_heap ?b' x) = ev_state (eb_heap b x)"
      using gr core nd3 eq by (auto simp: grows_def set_state_heap same_core_def)
    moreover have "eb_finished ?b' = eb_finished b @ [a]" using gr nd3 by (simp add: grows_def)
    moreover have "map_of (eb_pending ?b') (Some t) = Some l1" "queue_ok (eb_heap ?b') l1 (ENode a (us @ news) # rs)"
      "ev_state (eb_heap ?b' a) = FINISHED" using gr nd3 by (simp_all add: grows_def set_state_heap)
    ultimately show ?thesis
      using tl fw [unfolded kept_event(7) [OF k2 use]] k d3 finish_keeps(8) [OF nd3, of a]
      by - (intro disjI2 exI [of _ ?b'] exI [of _ w3] exI [of _ l1] exI [of _ news] conjI; assumption)
  qed
qed

text \<open>The round that ends a call: nothing is left, or the front is a pending decision.\<close>

lemma execute_stop:
  assumes p: "map_of (eb_pending b) (Some t) = Some l" "queue_ok (eb_heap b) l ts"
    and d: "decisions_cascade (eb_heap b) ts"
    and stop: "drop_done (finished_at (eb_heap b)) ts = rs" "rs = [] \<or> stops (eb_heap b) (root (hd rs))"
  shows "\<exists>b' l'. execute invoke t (b, w) =
             Some (Inr ((b', w), takeWhile (is_decision (eb_heap b)) (map root rs))) \<and>
           map_of (eb_pending b') (Some t) = Some l' \<and> queue_ok (eb_heap b') l' rs \<and>
           el_tail l' = el_tail l \<and> eb_finished b' = eb_finished b \<and> kept b b'"
proof (cases "ts = []")
  case True
  with p stop(1) show ?thesis
    by (subst execute.simps) (auto simp: queue_ok_def intro!: exI [of _ b] exI [of _ l])
next
  case False
  then have cnt: "0 < el_count l" using p(2) by (simp add: queue_ok_def)
  from get_front_refines [OF p(2) d] obtain h1 l1 where
    g: "clear_finished_and_get_front (eb_heap b) l =
          Some (Inr (h1, l1, front_of (eb_heap b) (map root rs)))"
    and q1: "queue_ok h1 l1 rs" and tl: "el_tail l1 = el_tail l"
    and core: "\<forall>x. same_core (h1 x) (eb_heap b x)"
    using stop(1) by auto
  have "front_of (eb_heap b) (map root rs) = (if rs = [] then NoFront
      else FrontDecisions (takeWhile (is_decision (eb_heap b)) (map root rs)))"
    using stop(2) by (cases rs) (auto simp: front_of_def stops_def)
  with cnt p(1) g have "execute invoke t (b, w) =
      Some (Inr ((set_pending (Some t) l1 (b\<lparr>eb_heap := h1\<rparr>), w),
        takeWhile (is_decision (eb_heap b)) (map root rs)))"
    by (subst execute.simps) (auto simp: Let_def)
  moreover have "kept b (set_pending (Some t) l1 (b\<lparr>eb_heap := h1\<rparr>))"
    using core by (auto simp: kept_def set_pending_def in_use_def same_core_def)
  ultimately show ?thesis using q1 tl
    by (intro exI [of _ "set_pending (Some t) l1 (b\<lparr>eb_heap := h1\<rparr>)"] exI [of _ l1]) auto
qed

lemma attach_decreases:
  assumes "\<forall>k \<in># K. k < (n :: nat)"
  shows "A + K + C < add_mset n (A + C)"
proof -
  have "multp (<) ((A + C) + K) ((A + C) + {#n#})"
    using assms by (intro one_step_implies_multp) auto
  then show ?thesis by (simp add: less_multiset_def ac_simps)
qed

text \<open>\<open>grown t t'\<close>: \<open>t'\<close> is \<open>t\<close> with further events attached below it, behind those already there.\<close>

inductive grown :: "etree \<Rightarrow> etree \<Rightarrow> bool" where
  node: "list_all2 grown us vs \<Longrightarrow> grown (ENode a us) (ENode a (vs @ news))"

lemma drop_done_front:
  assumes "\<forall>x \<in> set (flat ts). \<not> d x" "rs = [] \<or> \<not> d (root (hd rs))"
  shows "drop_done d (ts @ rs) = ts @ rs"
proof (cases ts)
  case Nil
  with assms(2) show ?thesis by (cases "rs = []") (auto intro: drop_done_hd)
next
  case (Cons n ns)
  then have "\<not> d (root n)" using assms(1) root_in_addrs [of n] by (auto simp del: root_in_addrs)
  with Cons show ?thesis by (simp add: drop_done_hd)
qed

text \<open>
  The events of \<open>pre\<close> are dispatched in preorder: the immediate events of an event right after it,
  those its handlers attached included, before the next event of the list.
\<close>

lemma execute_forest:
  assumes c: "calm invoke rank f g t"
    and p: "map_of (eb_pending b) (Some t) = Some l" "queue_ok (eb_heap b) l ts" "detached t (set (flat ts)) b"
    and d: "decisions_cascade (eb_heap b) ts" and nd: "\<not> eb_disable_finished b"
    and ts: "drop_done (finished_at (eb_heap b)) ts = pre @ post"
    and pre: "\<forall>a \<in> set (flat pre). \<not> finished_at (eb_heap b) a \<and> \<not> stops (eb_heap b) a"
    and post: "post = [] \<or> stops (eb_heap b) (root (hd post)) \<and> \<not> finished_at (eb_heap b) (root (hd post))"
  shows "(\<exists>err hd a b1 w1. execute invoke t (b, w) = Some (Inl err) \<and> invoke hd a (b1, w1) = Inl err \<and> kept b b1) \<or>
    (\<exists>b' w' l' pre'. execute invoke t (b, w) =
         Some (Inr ((b', w'), takeWhile (is_decision (eb_heap b)) (map root post))) \<and>
       list_all2 grown pre pre' \<and> eb_finished b' = eb_finished b @ flat pre' \<and>
       f w' = fold (event_effect g b') (flat pre') (f w) \<and>
       map_of (eb_pending b') (Some t) = Some l' \<and> queue_ok (eb_heap b') l' post \<and>
       el_tail l' = el_tail l \<and> kept b b')"
  using assms(2-)
proof (induction "image_mset (\<lambda>x. rank (ev_type (eb_heap b x))) (mset (flat pre))" arbitrary: b l ts pre w rule: less_induct)
  case less
  show ?case
  proof (cases pre)
    case Nil
    with less.prems execute_stop [of b t l ts post invoke w] show ?thesis by fastforce
  next
    case (Cons n rs)
    obtain a us where n: "n = ENode a us" by (cases n)
    have na: "\<not> stops (eb_heap b) a" using less.prems(7) Cons n by simp
    have dd: "drop_done (finished_at (eb_heap b)) ts = ENode a us # rs @ post" using less.prems(6) Cons n by simp
    have sub: "set (flat (ENode a us # rs @ post)) \<subseteq> set (flat ts)"
      using drop_done_subset [of "finished_at (eb_heap b)" ts] dd by simp
    have use: "in_use b x" if "x \<in> set (flat (ENode a us # rs @ post))" for x
      using that sub less.prems(3) by (auto simp: detached_def simp del: set_concat)
    show ?thesis
    proof (cases "\<exists>err hd b1 w1. execute invoke t (b, w) = Some (Inl err) \<and> invoke hd a (b1, w1) = Inl err \<and> kept b b1")
      case False
      with execute_round [OF c less.prems(1-5) dd na, of w] obtain b' w' l' news where
        e: "execute invoke t (b, w) = execute invoke t (b', w')" and fw: "f w' = event_effect g b a (f w)"
        and p': "map_of (eb_pending b') (Some t) = Some l'" "queue_ok (eb_heap b') l' (ENode a (us @ news) # rs @ post)"
        and tl: "el_tail l' = el_tail l" and fin: "eb_finished b' = eb_finished b @ [a]" "\<not> eb_disable_finished b'"
          "ev_state (eb_heap b' a) = FINISHED"
        and k: "kept b b'" and st: "\<forall>x. in_use b x \<longrightarrow> x \<noteq> a \<longrightarrow> ev_state (eb_heap b' x) = ev_state (eb_heap b x)"
        and det: "detached t (set (flat (ENode a (us @ news) # rs @ post))) b'"
        and at: "attached rank (rank (ev_type (eb_heap b a))) (eb_heap b') news"
        by blast
      have dist: "distinct (a # flat (us @ news @ rs @ post))" using p'(2) by (simp add: queue_ok_def)
      have old: "finished_at (eb_heap b') x = finished_at (eb_heap b) x \<and> stops (eb_heap b') x = stops (eb_heap b) x \<and>
          is_decision (eb_heap b') x = is_decision (eb_heap b) x \<and> ev_class (eb_heap b' x) = ev_class (eb_heap b x) \<and>
          ev_type (eb_heap b' x) = ev_type (eb_heap b x)"
        if "x \<in> set (flat (us @ rs @ post))" for x
      proof -
        have "in_use b x" using that by (intro use) auto
        moreover have "x \<noteq> a" using that dist by auto
        ultimately show ?thesis using k st kept_event [OF k] by (simp add: is_finish_def stops_def)
      qed
      have pre': "\<forall>x \<in> set (flat (us @ news @ rs)). \<not> finished_at (eb_heap b') x \<and> \<not> stops (eb_heap b') x"
      proof
        fix x assume "x \<in> set (flat (us @ news @ rs))"
        then consider "x \<in> set (flat news)" | "x \<in> set (flat (us @ rs))" by auto
        then show "\<not> finished_at (eb_heap b') x \<and> \<not> stops (eb_heap b') x"
        proof cases
          case 1
          with at show ?thesis by (simp add: attached_def stops_def del: set_concat)
        next
          case 2
          then have "x \<in> set (flat pre)" "x \<in> set (flat (us @ rs @ post))" using Cons n by auto
          with less.prems(7) old show ?thesis by blast
        qed
      qed
      have rt: "root (hd post) \<in> set (flat (us @ rs @ post))" if "post \<noteq> []"
        using that by (cases post) auto
      have post': "post = [] \<or> stops (eb_heap b') (root (hd post)) \<and> \<not> finished_at (eb_heap b') (root (hd post))"
        using less.prems(8) old rt by blast
      have "drop_done (finished_at (eb_heap b')) ((us @ news @ rs) @ post) = (us @ news @ rs) @ post"
        using pre' post' by (intro drop_done_front) auto
      then have dd': "drop_done (finished_at (eb_heap b')) (ENode a (us @ news) # rs @ post) = (us @ news @ rs) @ post"
        using fin(3) by (simp add: is_finish_def)
      have da: "decisions_cascade (eb_heap b) (ENode a us # rs @ post)"
        using less.prems(4) sub unfolding decisions_cascade_def by blast
      have dc: "decisions_cascade (eb_heap b') (ENode a (us @ news) # rs @ post)"
        unfolding decisions_cascade_def
      proof (intro ballI impI)
        fix x assume "x \<in> set (flat (ENode a (us @ news) # rs @ post))" and dx: "is_decision (eb_heap b') x"
        then consider "x \<in> set (flat news)" | "x = a" | "x \<in> set (flat (us @ rs @ post))" by auto
        then show "ev_class (eb_heap b' x) = CascadeEvent"
        proof cases
          case 1
          with at dx show ?thesis by (simp add: attached_def del: set_concat)
        next
          case 2
          have "in_use b a" by (rule use) simp
          with kept_event(4,5) [OF k this] da dx 2 show ?thesis by (simp add: decisions_cascade_def)
        next
          case 3
          with old da dx show ?thesis by (auto simp: decisions_cascade_def simp del: set_concat)
        qed
      qed
      have "image_mset (\<lambda>x. rank (ev_type (eb_heap b' x))) (mset (flat us)) = image_mset (\<lambda>x. rank (ev_type (eb_heap b x))) (mset (flat us))"
        "image_mset (\<lambda>x. rank (ev_type (eb_heap b' x))) (mset (flat rs)) = image_mset (\<lambda>x. rank (ev_type (eb_heap b x))) (mset (flat rs))"
        using old by (auto intro!: image_mset_cong)
      then have "image_mset (\<lambda>x. rank (ev_type (eb_heap b' x))) (mset (flat (us @ news @ rs)))
          < image_mset (\<lambda>x. rank (ev_type (eb_heap b x))) (mset (flat pre))"
        using attach_decreases [of "image_mset (\<lambda>x. rank (ev_type (eb_heap b' x))) (mset (flat news))"
            "rank (ev_type (eb_heap b a))" "image_mset (\<lambda>x. rank (ev_type (eb_heap b x))) (mset (flat us))"
            "image_mset (\<lambda>x. rank (ev_type (eb_heap b x))) (mset (flat rs))"] at Cons n
        by (auto simp: attached_def add.assoc)
      from less.hyps [OF this p' det dc fin(2) dd' pre' post', of w'] consider
          (err) "\<exists>err hd a b1 w1. execute invoke t (b', w') = Some (Inl err) \<and> invoke hd a (b1, w1) = Inl err \<and> kept b' b1"
        | (ok) b2 w2 l2 pre1 where "execute invoke t (b', w') =
              Some (Inr ((b2, w2), takeWhile (is_decision (eb_heap b')) (map root post)))"
            "list_all2 grown (us @ news @ rs) pre1" "eb_finished b2 = eb_finished b' @ flat pre1"
            "f w2 = fold (event_effect g b2) (flat pre1) (f w')" "map_of (eb_pending b2) (Some t) = Some l2"
            "queue_ok (eb_heap b2) l2 post" "el_tail l2 = el_tail l'" "kept b' b2" by blast
      then show ?thesis
      proof cases
        case err
        with kept_trans [OF k] show ?thesis unfolding e by blast
      next
        case ok
        from ok(2) obtain vs ns rs' where pre1: "pre1 = vs @ ns @ rs'" "list_all2 grown us vs" "list_all2 grown rs rs'"
          by (auto simp: list_all2_append1)
        let ?pre' = "ENode a (vs @ ns) # rs'"
        have k2: "kept b b2" using kept_trans [OF k ok(8)] .
        have "takeWhile (is_decision (eb_heap b')) (map root post) = takeWhile (is_decision (eb_heap b)) (map root post)"
          using old root_in_flat [of _ post] by (intro takeWhile_cong) auto
        moreover have "list_all2 grown pre ?pre'" using pre1 Cons n by (auto intro: grown.node)
        moreover have "f w2 = fold (event_effect g b2) (flat ?pre') (f w)"
          using ok(4) fw kept_event(7) [OF k2 use, of a g] pre1(1) by simp
        moreover have "eb_finished b2 = eb_finished b @ flat ?pre'" using ok(3) fin(1) pre1(1) by simp
        ultimately show ?thesis using ok(1,5-7) e tl k2
          by - (rule disjI2, rule exI [of _ b2], rule exI [of _ w2], rule exI [of _ l2], rule exI [of _ ?pre'], simp)
      qed
    qed blast
  qed
qed


section \<open>Handlers that create events\<close>

lemma gen_event_result:
  assumes "gen_event b tick ty payload c = (b', a)"
  shows "ev_id (eb_heap b' a) = Some (pool_count b)" "pool_count b' = pool_count b + 1"
    "ev_tick (eb_heap b' a) = tick" "ev_type (eb_heap b' a) = ty"
    "ev_payload (eb_heap b' a) = payload" "ev_state (eb_heap b' a) = PENDING"
    "eb_pending b' = eb_pending b" "eb_finished b' = eb_finished b"
    "\<And>x. x \<noteq> a \<Longrightarrow> eb_heap b' x = eb_heap b x"
  using assms
  by (auto simp: gen_event_def pool_pop_def Let_def reset_value_def new_event_def upd_apply
      split: if_splits event_class.splits)

lemma gen_event_alloc:
  assumes "gen_event b k ty p cas = (b1, e)" "pool_ok b"
  shows "\<not> in_use b e" "in_use b1 e" "\<And>x. in_use b x \<Longrightarrow> in_use b1 x" "pool_ok b1"
    "eb_handlers b1 = eb_handlers b" "eb_disable_finished b1 = eb_disable_finished b"
    "\<not> cas \<Longrightarrow> ev_class (eb_heap b1 e) = AtomEvent \<and> ev_next (eb_heap b1 e) = None \<and> imm_list (eb_heap b1) e []"
proof -
  let ?cntr = "if cas then pool_cascade b else pool_atom b"
  have fresh: "e = (if ?cntr = [] then eb_fresh b else last ?cntr)"
    "eb_fresh b1 = (if ?cntr = [] then eb_fresh b + 1 else eb_fresh b)"
    "pool_atom b1 = (if cas then pool_atom b else butlast (pool_atom b))"
    "pool_cascade b1 = (if cas then butlast (pool_cascade b) else pool_cascade b)"
    "eb_handlers b1 = eb_handlers b" "eb_disable_finished b1 = eb_disable_finished b"
    using assms(1) by (auto simp: gen_event_def pool_pop_def Let_def split: if_splits)
  have e: "e \<in> set ?cntr \<or> ?cntr = [] \<and> e = eb_fresh b" using fresh(1) last_in_set by metis
  have split: "set ?cntr \<subseteq> insert e (set (butlast ?cntr))" "distinct ?cntr" "e \<notin> set (butlast ?cntr)"
    "set (butlast ?cntr) \<subseteq> set ?cntr"
  proof -
    show d: "distinct ?cntr" using assms(2) by (simp add: pool_ok_def)
    show "set ?cntr \<subseteq> insert e (set (butlast ?cntr))" "set (butlast ?cntr) \<subseteq> set ?cntr"
      using fresh(1) by (cases ?cntr rule: rev_cases; simp add: subset_insertI)+
    show "e \<notin> set (butlast ?cntr)" using fresh(1) d by (cases ?cntr rule: rev_cases) auto
  qed
  show "\<not> in_use b e" using e by (auto simp: in_use_def split: if_splits)
  show use: "in_use b1 e"
  proof -
    have "e \<notin> set (if cas then pool_atom b else pool_cascade b)" "e < eb_fresh b1"
      using e assms(2) fresh(2) by (auto simp: pool_ok_def split: if_splits)
    with split(3) fresh(3,4) show ?thesis by (auto simp: in_use_def split: if_splits)
  qed
  show "in_use b1 x" if "in_use b x" for x
    using that fresh by (auto simp: in_use_def dest: in_set_butlastD split: if_splits)
  have same: "eb_heap b1 x = eb_heap b x" if "x \<noteq> e" for x using gen_event_result(9) [OF assms(1) that] .
  have "x \<noteq> e" if "x \<in> set (pool_atom b1)" for x using use that by (auto simp: in_use_def)
  with same have "\<forall>x \<in> set (pool_atom b1). eb_heap b1 x = eb_heap b x" by blast
  then show "pool_ok b1"
    using assms(2) fresh by (auto simp: pool_ok_def imm_list_empty distinct_butlast dest: in_set_butlastD split: if_splits)
  show "eb_handlers b1 = eb_handlers b" "eb_disable_finished b1 = eb_disable_finished b" using fresh by auto
  show "ev_class (eb_heap b1 e) = AtomEvent \<and> ev_next (eb_heap b1 e) = None \<and> imm_list (eb_heap b1) e []" if "\<not> cas"
  proof (cases "pool_atom b = []")
    case True
    with assms(1) that show ?thesis
      by (auto simp: gen_event_def pool_pop_def Let_def reset_value_def new_event_def imm_list_empty upd_apply)
  next
    case False
    then have "e \<in> set (pool_atom b)" using e that by auto
    then have "ev_class (eb_heap b e) = AtomEvent \<and> ev_next (eb_heap b e) = None \<and> imm_list (eb_heap b) e []"
      using assms(2) by (auto simp: pool_ok_def)
    with assms(1) that False show ?thesis
      by (auto simp: gen_event_def pool_pop_def Let_def reset_value_def imm_list_empty upd_apply)
  qed
qed

lemma detached_gen:
  assumes "detached t X b" "gen_event b k ty p cas = (b1, e)"
  shows "detached t (insert e X) b1"
proof -
  have ok: "pool_ok b" and X: "\<forall>x \<in> X. in_use b x" using assms(1) by (simp_all add: detached_def)
  note al = gen_event_alloc [OF assms(2) ok]
  show ?thesis
    using assms(1) al(1-4) X gen_event_result(7) [OF assms(2)] unfolding detached_def by (metis insert_iff)
qed

lemma insert_event_frame:
  assumes "ev_tick (eb_heap b e) = k"
  shows "eb_fresh (insert_event b e) = eb_fresh b" "pool_atom (insert_event b e) = pool_atom b"
    "pool_cascade (insert_event b e) = pool_cascade b" "eb_handlers (insert_event b e) = eb_handlers b"
    "eb_finished (insert_event b e) = eb_finished b" "eb_disable_finished (insert_event b e) = eb_disable_finished b"
    "j \<noteq> k \<Longrightarrow> map_of (eb_pending (insert_event b e)) j = map_of (eb_pending b) j"
    "map_of (eb_pending (insert_event b e)) k = Some l \<Longrightarrow> el_tail l = Some e"
    "same_core (eb_heap (insert_event b e) x) (eb_heap b x) \<and> same_links (eb_heap (insert_event b e) x) (eb_heap b x)"
    "(\<forall>l. map_of (eb_pending b) k = Some l \<longrightarrow> el_tail l \<noteq> Some x) \<Longrightarrow> eb_heap (insert_event b e) x = eb_heap b x"
  using assms
  by (auto simp: insert_event_def Let_def touch_pending_def append_tail_def set_pending_def new_event_list_def
      upd_apply same_core_def same_links_def split: option.splits)

text \<open>Creating an event and inserting it at another tick.\<close>

lemma grows_insert:
  assumes p: "map_of (eb_pending b) (Some t) = Some l" "queue_ok (eb_heap b) l (ENode a us # rs)"
    and det: "detached t (set (flat (ENode a us # rs))) b"
    and g: "gen_event b (Some u) ty pl cas = (b1, e)" and u: "u \<noteq> t"
  shows "grows rank t l a us [] rs b (insert_event b1 e)"
proof -
  let ?X = "set (flat (ENode a us # rs))" and ?b2 = "insert_event b1 e"
  have ok: "pool_ok b" and X: "\<forall>x \<in> ?X. in_use b x" using det by (simp_all add: detached_def)
  note al = gen_event_alloc [OF g ok] and res = gen_event_result [OF g]
  note fr = insert_event_frame [OF res(3)]
  have d1: "detached t (insert e ?X) b1" by (rule detached_gen [OF det g])
  have eX: "e \<notin> ?X" using X al(1) by blast
  have use: "in_use ?b2 = in_use b1" using fr(1-3) by (simp add: in_use_def fun_eq_iff)
  have tl: "in_use b1 y \<and> y \<notin> insert e ?X" if "map_of (eb_pending b1) (Some u) = Some l'" "el_tail l' = Some y" for l' y
    using d1 that u by (auto simp: detached_def simp del: set_concat)
  have heap: "eb_heap ?b2 x = eb_heap b1 x" if "x \<in> insert e ?X \<or> \<not> in_use b1 x" for x
    using tl that by (intro fr(10)) blast
  have "pool_ok ?b2"
  proof -
    have "eb_heap ?b2 x = eb_heap b1 x" if "x \<in> set (pool_atom b1)" for x
      using that by (intro heap) (auto simp: in_use_def)
    with al(4) fr(1-3) show ?thesis by (simp add: pool_ok_def imm_list_empty)
  qed
  moreover have "in_use ?b2 y \<and> y \<notin> ?X" if "v \<noteq> Some t" "map_of (eb_pending ?b2) v = Some l'" "el_tail l' = Some y" for v l' y
  proof (cases "v = Some u")
    case True
    with that fr(8) have "y = e" by auto
    with al(2) use eX show ?thesis by simp
  next
    case False
    with that(2) fr(7) have "map_of (eb_pending b1) v = Some l'" by simp
    with d1 that use show ?thesis by (auto simp: detached_def simp del: set_concat)
  qed
  ultimately have "detached t ?X ?b2" using X al(3) use by (auto simp: detached_def simp del: set_concat)
  moreover have same: "same_core (eb_heap ?b2 x) (eb_heap b x)" if "in_use b x" for x
    using that al(1) res(9) [of x] fr(9) [of x] by (cases "x = e") auto
  moreover have "kept b ?b2" using same al(3,5) use fr(4) by (auto simp: kept_def same_core_def)
  moreover have "queue_ok (eb_heap ?b2) l (ENode a us # rs)"
  proof -
    have "eb_heap b x = eb_heap ?b2 x" if "x \<in> ?X" for x
    proof -
      have "x \<noteq> e" using that eX by blast
      moreover have "eb_heap ?b2 x = eb_heap b1 x" using that by (intro heap disjI1 insertI2)
      ultimately show ?thesis using res(9) by simp
    qed
    then have "queue_ok (eb_heap b) l (ENode a us # rs) = queue_ok (eb_heap ?b2) l (ENode a us # rs)"
      by (intro queue_ok_cong) (simp del: set_concat)
    with p(2) show ?thesis by simp
  qed
  moreover have "map_of (eb_pending ?b2) (Some t) = Some l" using p(1) fr(7) [of "Some t"] u res(7) by simp
  ultimately show ?thesis
    using fr(5,6) res(8) al(6) by (auto simp: grows_def same_core_def attached_def simp del: set_concat)
qed

lemma attach_refines:
  assumes q: "queue_ok h l (ENode a us # rs)" and e: "e \<notin> set (flat (ENode a us # rs))" "ev_next (h e) = None" "imm_list h e []"
    and add: "add_immediate_event h a e False = Inr (h', added)"
  shows "\<not> added \<and> h' = h \<or> queue_ok h' l (ENode a (us @ [ENode e []]) # rs) \<and> (\<forall>x. same_core (h' x) (h x)) \<and>
    (\<forall>x. x \<notin> set (flat (ENode a us # rs)) \<longrightarrow> h' x = h x)"
proof (cases "ev_class (h a) = CascadeEvent \<and> ev_tick (h e) = ev_tick (h a)")
  case False
  with add show ?thesis by (auto simp: add_immediate_event_def split: if_splits)
next
  case True
  have dist: "distinct (a # flat (us @ rs))" and imm: "imm_list h a (map root us)"
    and oks: "list_all (tree_ok h) us" "list_all (tree_ok h) rs" and chain: "lseg h (el_head l) (a # map root rs) None"
    using q by (auto simp: queue_ok_def)
  have ar: "a \<notin> set (map root us)" "e \<notin> set (map root us)" "e \<noteq> a"
    using dist e(1) root_in_flat [of _ us] by (auto simp del: set_concat)
  from add_immediate_tail [OF imm ar(2) e(2) ar(3,1)] True add have imm': "imm_list h' a (map root (us @ [ENode e []]))"
    by auto
  define T where "T = (if us = [] then a else root (last us))"
  have h': "\<And>x. x \<noteq> a \<Longrightarrow> x \<noteq> T \<Longrightarrow> h' x = h x" "\<And>x. x \<noteq> a \<Longrightarrow> same_links (h' x) (h x)" "\<And>x. same_core (h' x) (h x)"
    "\<And>x. x \<noteq> T \<or> us = [] \<Longrightarrow> ev_next (h' x) = ev_next (h x)"
    using add True imm by (cases "us = []"; auto simp: T_def add_immediate_event_def imm_list_def Let_def upd_apply last_map
        same_links_def same_core_def)+
  have T_us: "us \<noteq> [] \<Longrightarrow> T \<in> set (flat us)" unfolding T_def using root_in_flat [of "last us" us] by simp
  then have T: "us \<noteq> [] \<Longrightarrow> T \<noteq> a" "T \<notin> set (flat rs)" using dist by (auto simp: T_def simp del: set_concat)
  have ne: "x \<noteq> a" if "x \<in> set (flat us) \<or> x \<in> set (flat rs)" for x
    using that dist by (auto simp del: set_concat)
  have "list_all (tree_ok h) us = list_all (tree_ok h') us"
  proof (rule forest_ok_cong)
    fix x assume "x \<in> set (flat us)"
    then show "same_links (h x) (h' x)" using h'(2) [of x] ne by (simp add: same_links_def)
  next
    fix x u assume u: "u \<in> set us" "x \<in> set (flat (subs u))"
    have "x \<notin> root ` set us" using dist u by (intro inner_not_root) auto
    then have "x \<noteq> T" using u(1) by (auto simp: T_def)
    then show "ev_next (h x) = ev_next (h' x)" using h'(4) by simp
  qed
  moreover have rs: "h' x = h x" if "x \<in> set (flat rs)" for x
    using that ne T(2) by (intro h'(1)) blast+
  have "list_all (tree_ok h) rs = list_all (tree_ok h') rs"
    using rs inner_in_flat by (intro forest_ok_cong) (auto simp del: set_concat)
  moreover have "tree_ok h' (ENode e [])"
  proof -
    have "e \<noteq> T" using T_us e(1) ar(3) by (auto simp: T_def)
    with h'(1) ar(3) e(3) show ?thesis by (simp add: imm_list_empty)
  qed
  moreover have "lseg h (el_head l) (a # map root rs) None = lseg h' (el_head l) (a # map root rs) None"
  proof (rule lseg_cong)
    fix x assume "x \<in> set (a # map root rs)"
    then have "x = a \<or> x \<in> set (flat rs)" using root_in_flat [of _ rs] by auto
    then have "x \<noteq> T \<or> us = []" using T by metis
    then show "ev_next (h x) = ev_next (h' x)" using h'(4) by simp
  qed
  moreover have "h' x = h x" if "x \<notin> set (flat (ENode a us # rs))" for x
    using that T_us by (intro h'(1)) (auto simp: T_def)
  ultimately have "queue_ok h' l (ENode a (us @ [ENode e []]) # rs)"
    using q oks imm' chain e(1) True by (auto simp: queue_ok_def h'(3) [unfolded same_core_def])
  then show ?thesis using h'(3) \<open>\<And>x. x \<notin> set (flat (ENode a us # rs)) \<Longrightarrow> h' x = h x\<close> by blast
qed

text \<open>Creating an event and attaching it to the event that is executed.\<close>

lemma grows_attach:
  assumes p: "map_of (eb_pending b) (Some t) = Some l" "queue_ok (eb_heap b) l (ENode a us # rs)"
    and det: "detached t (set (flat (ENode a us # rs))) b"
    and g: "gen_event b k ty pl False = (b1, e)" and add: "add_immediate_event (eb_heap b1) a e False = Inr (h, added)"
    and ty: "rank ty < rank (ev_type (eb_heap b a))" "ty \<noteq> Some PENDING_DECISION"
  shows "\<exists>news. grows rank t l a us news rs b (b1\<lparr>eb_heap := h\<rparr>)"
proof -
  let ?X = "set (flat (ENode a us # rs))" and ?b2 = "b1\<lparr>eb_heap := h\<rparr>"
  have ok: "pool_ok b" and X: "\<forall>x \<in> ?X. in_use b x" using det by (simp_all add: detached_def)
  note al = gen_event_alloc [OF g ok] and res = gen_event_result [OF g]
  have eX: "e \<notin> ?X" using X al(1) by blast
  have d1: "detached t (insert e ?X) b1" by (rule detached_gen [OF det g])
  have "eb_heap b1 x = eb_heap b x" if "x \<in> ?X" for x
    using res(9) that eX by metis
  then have q1: "queue_ok (eb_heap b1) l (ENode a us # rs)"
    using p(2) queue_ok_cong [of "ENode a us # rs" "eb_heap b" "eb_heap b1" l] by (metis same_links_refl)
  have a: "in_use b a" "a \<noteq> e" using X eX by auto
  from attach_refines [OF q1 eX _ _ add] al(7) have cases: "\<not> added \<and> h = eb_heap b1 \<or>
      queue_ok h l (ENode a (us @ [ENode e []]) # rs) \<and> (\<forall>x. same_core (h x) (eb_heap b1 x)) \<and>
      (\<forall>x. x \<notin> ?X \<longrightarrow> h x = eb_heap b1 x)" by simp
  then have core: "same_core (h x) (eb_heap b1 x)" and frame: "x \<notin> ?X \<Longrightarrow> h x = eb_heap b1 x" for x by auto
  have old: "same_core (h x) (eb_heap b x)" if "in_use b x" for x
    using core [of x] res(9) [of x] al(1) that by (cases "x = e") auto
  have "in_use ?b2 = in_use b1" by (simp add: in_use_def fun_eq_iff)
  then have k: "kept b ?b2" using old al(3,5) by (auto simp: kept_def same_core_def)
  have st: "\<forall>x. in_use b x \<longrightarrow> ev_state (eb_heap ?b2 x) = ev_state (eb_heap b x)" using old by (simp add: same_core_def)
  have d2: "detached t Y ?b2" if "Y \<subseteq> insert e ?X" for Y
    by (rule detached_cong [OF d1 that]) (use frame in simp_all)
  have news: "attached rank (rank (ev_type (eb_heap ?b2 a))) (eb_heap ?b2) [ENode e []]"
  proof -
    have "ev_type (h a) = ev_type (eb_heap b a)" "ev_type (h e) = ty" "ev_state (h e) = PENDING"
      using old [OF a(1)] core [of e] res(4,6) by (simp_all add: same_core_def)
    with ty show ?thesis by (simp add: attached_def is_finish_def is_decision_def)
  qed
  note base = k st res(7,8) al(6) p(1)
  from cases show ?thesis
  proof
    assume "\<not> added \<and> h = eb_heap b1"
    with base q1 d2 [of ?X] show ?thesis
      by (intro exI [of _ "[]"]) (simp add: grows_def attached_def subset_insertI del: set_concat)
  next
    assume "queue_ok h l (ENode a (us @ [ENode e []]) # rs) \<and> (\<forall>x. same_core (h x) (eb_heap b1 x)) \<and>
      (\<forall>x. x \<notin> ?X \<longrightarrow> h x = eb_heap b1 x)"
    moreover have "set (flat (ENode a (us @ [ENode e []]) # rs)) \<subseteq> insert e ?X" by auto
    ultimately show ?thesis
      using base news d2 by (intro exI [of _ "[ENode e []]"]) (simp add: grows_def del: set_concat)
  qed
qed

section \<open>A sample queue\<close>

text \<open>
  A cascade event (payload 10) with one immediate event (11), an atom event (12), and a decision.
  The handler of the sample logs the payload; on an event of type \<open>True\<close> it also creates an event at
  tick 7 and attaches one with payload 14.
\<close>

definition sample_heap :: "(bool, int) heap" where
  "sample_heap =
     (\<lambda>_. new_event AtomEvent None None None None)
       (0 := (new_event CascadeEvent (Some 0) (Some 5) (Some (Scenario True)) (Some 10))
               \<lparr>ev_next := Some 2, imm_head := Some 4, imm_tail := Some 4, imm_count := 1\<rparr>,
        4 := new_event AtomEvent (Some 1) (Some 5) (Some (Scenario False)) (Some 11),
        2 := (new_event AtomEvent (Some 2) (Some 5) (Some (Scenario False)) (Some 12))\<lparr>ev_next := Some 3\<rparr>,
        3 := new_event CascadeEvent (Some 3) (Some 5) (Some PENDING_DECISION) (Some 13))"

definition sample_buffer :: "bool \<Rightarrow> event_list \<Rightarrow> (bool, int, unit) event_buffer" where
  "sample_buffer disable l =
     \<lparr>eb_heap = sample_heap, eb_fresh = 5, pool_atom = [], pool_cascade = [], pool_count = 4,
      eb_pending = [(Some 5, l)], eb_handlers = [(Scenario True, [()]), (Scenario False, [()])], eb_finished = [],
      eb_disable_finished = disable, eb_record = False, eb_recorder_ep = 0, eb_rows = []\<rparr>"

definition sample_act :: "unit \<Rightarrow> addr \<Rightarrow> int option \<Rightarrow> int option \<Rightarrow> int list \<Rightarrow> int list" where
  "sample_act hn a tick payload log = (case payload of None \<Rightarrow> log | Some x \<Rightarrow> log @ [x])"

definition sample_invoke ::
  "unit \<Rightarrow> addr \<Rightarrow> (bool, int, unit, int list) world \<Rightarrow> (bool, int, unit, int list) world res" where
  "sample_invoke hn a s =
     Inr (fst s, sample_act hn a (ev_tick (eb_heap (fst s) a)) (ev_payload (eb_heap (fst s) a)) (snd s))"

definition sample_create :: "addr \<Rightarrow> (bool, int, unit) event_buffer \<Rightarrow> (bool, int, unit) event_buffer" where
  "sample_create a b =
     (if ev_type (eb_heap b a) = Some (Scenario True) \<and> ev_class (eb_heap b a) = CascadeEvent then
        (let (b1, e1) = gen_event b (Some 7) (Some (Scenario True)) (Some 20) True;
             (b3, e2) = gen_event (insert_event b1 e1) (Some 5) (Some (Scenario False)) (Some 14) False
         in case add_immediate_event (eb_heap b3) a e2 False of Inl err \<Rightarrow> b | Inr (h, added) \<Rightarrow> b3\<lparr>eb_heap := h\<rparr>)
      else b)"

definition sample_handler ::
  "unit \<Rightarrow> addr \<Rightarrow> (bool, int, unit, int list) world \<Rightarrow> (bool, int, unit, int list) world res" where
  "sample_handler hn a s =
     Inr (sample_create a (fst s),
       sample_act hn a (ev_tick (eb_heap (fst s) a)) (ev_payload (eb_heap (fst s) a)) (snd s))"

definition sample_rank :: "bool maro_event option \<Rightarrow> nat" where
  "sample_rank ty = (if ty = Some (Scenario True) then 1 else 0)"

lemma sample_create_grows:
  assumes "map_of (eb_pending b) (Some t) = Some l"
    "queue_ok (eb_heap b) l (ENode a us # rs)" "detached t (set (flat (ENode a us # rs))) b" "t \<noteq> 7"
  shows "\<exists>news. grows sample_rank t l a us news rs b (sample_create a b)"
proof (cases "ev_type (eb_heap b a) = Some (Scenario True) \<and> ev_class (eb_heap b a) = CascadeEvent")
  case False
  then have "sample_create a b = b" by (auto simp: sample_create_def)
  with grows_refl [OF assms(1-3)] show ?thesis by auto
next
  case True
  obtain b1 e1 where g1: "gen_event b (Some 7) (Some (Scenario True)) (Some 20) True = (b1, e1)" by fastforce
  let ?b2 = "insert_event b1 e1"
  obtain b3 e2 where g2: "gen_event ?b2 (Some 5) (Some (Scenario False)) (Some 14) False = (b3, e2)" by fastforce
  show ?thesis
  proof (cases "add_immediate_event (eb_heap b3) a e2 False")
    case (Inl err)
    with True g1 g2 have "sample_create a b = b" by (simp add: sample_create_def)
    with grows_refl [OF assms(1-3)] show ?thesis by auto
  next
    case (Inr s)
    then obtain h added where add: "add_immediate_event (eb_heap b3) a e2 False = Inr (h, added)" by (cases s) simp
    with True g1 g2 have sc: "sample_create a b = b3\<lparr>eb_heap := h\<rparr>" by (simp add: sample_create_def)
    have gr: "grows sample_rank t l a us [] rs b ?b2"
      by (rule grows_insert [OF assms(1-3) g1]) (use assms(4) in simp)
    then have q: "map_of (eb_pending ?b2) (Some t) = Some l" "queue_ok (eb_heap ?b2) l (ENode a us # rs)"
      "detached t (set (flat (ENode a us # rs))) ?b2" and k: "kept b ?b2" by (simp_all add: grows_def)
    have "in_use b a" using assms(3) by (simp add: detached_def)
    from kept_event(2) [OF k this] True have "sample_rank (Some (Scenario False)) < sample_rank (ev_type (eb_heap ?b2 a))"
      by (simp add: sample_rank_def)
    from grows_attach [OF q g2 add this] obtain news where "grows sample_rank t l a us news rs ?b2 (sample_create a b)"
      unfolding sc by auto
    with grows_trans [OF gr, of news] show ?thesis by auto
  qed
qed

lemma sample_handler_calm: "calm sample_handler sample_rank id sample_act 5"
  using sample_create_grows [where t = 5] by (simp add: calm_def sample_handler_def)


lemma sample_facts:
  "decisions_cascade (eb_heap (sample_buffer d l)) ts"
  "eb_disable_finished (sample_buffer d l) = d" "eb_finished (sample_buffer d l) = []"
  "eb_heap (sample_buffer d l) = sample_heap" "decisions_cascade sample_heap ts"
  "\<not> finished_at sample_heap a" "is_decision sample_heap a \<longleftrightarrow> a = 3" "ev_state (sample_heap a) = PENDING"
  "map_of (eb_pending (sample_buffer d l)) (Some 5) = Some l"
  "event_effect sample_act (sample_buffer d l) 0 log = log @ [10]"
  "event_effect sample_act (sample_buffer d l) 4 log = log @ [11]"
  "event_effect sample_act (sample_buffer d l) 2 log = log @ [12]"
  "stops sample_heap a \<longleftrightarrow> a = 3" "detached 5 {0, 2, 3, 4} (sample_buffer d l)" "detached 5 {4} (sample_buffer d l)"
  by (simp_all add: decisions_cascade_def is_decision_def sample_buffer_def
      sample_heap_def new_event_def event_effect_def handlers_of_def handlers_for_def sample_act_def
      is_finish_def stops_def detached_def pool_ok_def in_use_def)

lemma sample_queue:
  "queue_ok sample_heap \<lparr>el_head = Some 0, el_tail = Some 3, el_count = 3\<rparr>
     [ENode 0 [ENode 4 []], ENode 2 [], ENode 3 []]"
  "queue_ok sample_heap \<lparr>el_head = Some 4, el_tail = Some 4, el_count = 1\<rparr> [ENode 4 []]"
  "queue_ok sample_heap \<lparr>el_head = Some 2, el_tail = Some 3, el_count = 2\<rparr> [ENode 2 [], ENode 3 []]"
  by (simp_all add: queue_ok_def sample_heap_def new_event_def imm_list_def)


section \<open>Insertion, generation, reset\<close>

lemma insert_event_refines:
  assumes k: "ev_tick (eb_heap b e) = k"
    and q: "snd (touch_pending k b) = l" "queue_ok (eb_heap b) l ts" "tail_ok l ts"
    and fresh: "e \<notin> set (flat ts)" "ev_next (eb_heap b e) = None" "tree_ok (eb_heap b) (ENode e [])"
  shows "\<exists>l'. map_of (eb_pending (insert_event b e)) k = Some l' \<and>
           queue_ok (eb_heap (insert_event b e)) l' (ts @ [ENode e []]) \<and>
           tail_ok l' (ts @ [ENode e []]) \<and>
           (\<forall>j. j \<noteq> k \<longrightarrow> map_of (eb_pending (insert_event b e)) j = map_of (eb_pending b) j)"
proof -
  obtain b1 where b1: "touch_pending k b = (b1, l)" using q(1) by (cases "touch_pending k b") simp
  then have "eb_heap b1 = eb_heap b"
    and o: "\<forall>j. j \<noteq> k \<longrightarrow> map_of (eb_pending b1) j = map_of (eb_pending b) j"
    by (auto simp: touch_pending_def split: option.splits)
  with b1 k append_tail_refines [OF q(2,3) fresh] show ?thesis
    by (auto simp: insert_event_def Let_def split: prod.splits)
qed

lemma recycle_linked_first:
  "recycle_linked b (Some a) = Some (recycle_event b a)"
proof -
  have "ev_next (eb_heap (recycle_event b a) a) = None"
    by (auto simp: recycle_event_def Let_def split: event_class.splits)
  then show ?thesis
    by (subst recycle_linked.simps, simp add: Let_def, subst recycle_linked.simps, simp)
qed

lemma recycle_linked_returns: "\<exists>b'. recycle_linked b p = Some b' \<and> eb_pending b' = eb_pending b \<and>
   eb_finished b' = eb_finished b \<and> eb_handlers b' = eb_handlers b"
proof (cases p)
  case None
  then show ?thesis by (subst recycle_linked.simps) simp
next
  case (Some a)
  then show ?thesis
    by (auto simp: recycle_linked_first recycle_event_def Let_def split: event_class.splits)
qed

lemma recycle_all_keeps:
  "eb_pending (recycle_all b es) = eb_pending b" "eb_handlers (recycle_all b es) = eb_handlers b"
  by (induction es arbitrary: b)
     (auto simp: recycle_all_def recycle_event_def Let_def split: event_class.splits)

lemma reset_pending_result:
  "\<exists>b'. reset_pending ks b = Some b' \<and> eb_finished b' = eb_finished b \<and>
     eb_handlers b' = eb_handlers b \<and>
     (\<forall>k. map_of (eb_pending b') k =
        (if k \<in> set ks then Some (clear_list new_event_list) else map_of (eb_pending b) k))"
proof (induction ks arbitrary: b)
  case Nil
  then show ?case by simp
next
  case (Cons k ks)
  let ?l = "snd (touch_pending k b)"
  have cl: "clear_list ?l = clear_list new_event_list" by (simp add: clear_list_def)
  obtain b1 where b1: "recycle_linked b (el_head ?l) = Some b1" "eb_pending b1 = eb_pending b"
    "eb_finished b1 = eb_finished b" "eb_handlers b1 = eb_handlers b"
    using recycle_linked_returns by blast
  with Cons.IH [of "set_pending k (clear_list ?l) b1"] cl show ?case
    by (auto simp: Let_def)
qed

text \<open>Resetting the buffer terminates and leaves every tick's list empty, no finished
  event and the handlers as they were.\<close>

theorem reset_buffer_empties:
  "\<exists>b'. reset_buffer b = Some b' \<and> eb_finished b' = [] \<and> eb_handlers b' = eb_handlers b \<and>
     (\<forall>k l. map_of (eb_pending b') k = Some l \<longrightarrow> l = new_event_list)"
proof -
  let ?b1 = "(recycle_all b (eb_finished b))\<lparr>eb_finished := []\<rparr>"
  obtain b2 where b2: "reset_pending (map fst (eb_pending ?b1)) ?b1 = Some b2"
    "eb_finished b2 = []" "eb_handlers b2 = eb_handlers ?b1"
    and p: "\<forall>k. map_of (eb_pending b2) k =
        (if k \<in> set (map fst (eb_pending ?b1)) then Some (clear_list new_event_list)
         else map_of (eb_pending ?b1) k)"
    using reset_pending_result [of "map fst (eb_pending ?b1)" ?b1] by auto
  have "clear_list new_event_list = new_event_list" by (simp add: clear_list_def new_event_list_def)
  moreover have "map_of (eb_pending ?b1) k = None" if "k \<notin> set (map fst (eb_pending ?b1))" for k
    using that by (metis list.set_map map_of_eq_None_iff)
  ultimately have "\<forall>k l. map_of (eb_pending b2) k = Some l \<longrightarrow> l = new_event_list"
    using p by auto
  with b2 show ?thesis by (auto simp: reset_buffer_def Let_def recycle_all_keeps)
qed

theorem reset_buffer_empties_witness:
  "\<exists>b'. reset_buffer (sample_buffer False \<lparr>el_head = Some 0, el_tail = Some 3, el_count = 3\<rparr>) = Some b' \<and>
     eb_handlers b' = [(Scenario True, [()]), (Scenario False, [()])] \<and>
     (\<forall>k l. map_of (eb_pending b') k = Some l \<longrightarrow> l = new_event_list)"
proof -
  have "eb_handlers (sample_buffer False l) = [(Scenario True, [()]), (Scenario False, [()])]" for l by (simp add: sample_buffer_def)
  with reset_buffer_empties [of "sample_buffer False \<lparr>el_head = Some 0, el_tail = Some 3, el_count = 3\<rparr>"]
  show ?thesis by auto
qed

section \<open>Lost events\<close>

text \<open>Handlers that only act on the engine.\<close>

definition quiet ::
  "('h \<Rightarrow> addr \<Rightarrow> ('e, 'p, 'h, 'w) world \<Rightarrow> ('e, 'p, 'h, 'w) world res)
   \<Rightarrow> ('h \<Rightarrow> addr \<Rightarrow> int option \<Rightarrow> 'p option \<Rightarrow> 'w \<Rightarrow> 'w) \<Rightarrow> bool" where
  "quiet invoke act \<longleftrightarrow>
     (\<forall>hd a b w. invoke hd a (b, w) =
        Inr (b, act hd a (ev_tick (eb_heap b a)) (ev_payload (eb_heap b a)) w))"

lemma quiet_handlers:
  "quiet invoke act \<Longrightarrow>
   foldE (\<lambda>hd. invoke hd a) hs (b, w) =
     Inr (b, fold (\<lambda>hd. act hd a (ev_tick (eb_heap b a)) (ev_payload (eb_heap b a))) hs w)"
  by (induction hs arbitrary: w) (auto simp: quiet_def)

lemma quiet_calm: "quiet invoke act \<Longrightarrow> calm invoke (\<lambda>_. 0) id act t"
  using grows_refl by (fastforce simp: quiet_def calm_def)

lemma same_core_event:
  assumes "\<forall>x. same_core (h x) (eb_heap b x)"
  shows "event_effect act (set_pending k l (b\<lparr>eb_heap := h\<rparr>)) = event_effect act b"
  using assms
  by (auto simp: event_effect_def handlers_of_def same_core_def set_pending_def fun_eq_iff)

lemma finish_disabled:
  "eb_disable_finished b \<Longrightarrow>
   ev_next (eb_heap (finish_event a b) a) = None \<and> ev_state (eb_heap (finish_event a b) a) = RECYCLING \<and>
   eb_pending (finish_event a b) = eb_pending b \<and>
   imm_count (eb_heap (finish_event a b) a) = imm_count (eb_heap b a)"
  by (auto simp: finish_event_def recycle_event_def Let_def set_state_def split: event_class.splits)

text \<open>With finished events disabled the front event is recycled, and so unlinked from its
  successor, before the list has moved past it: of the events of a tick only the first is
  dispatched, and the list that stays behind has lost its head although it still counts the others.\<close>

theorem disable_finished_drops_rest:
  assumes q: "quiet invoke act"
    and p: "map_of (eb_pending b) (Some t) = Some l" "queue_ok (eb_heap b) l (ENode a [] # ts)"
    and d: "decisions_cascade (eb_heap b) (ENode a [] # ts)" and dis: "eb_disable_finished b"
    and a: "\<not> finished_at (eb_heap b) a" "\<not> is_decision (eb_heap b) a"
  shows "\<exists>b' l'. execute invoke t (b, w) = Some (Inr ((b', event_effect act b a w), [])) \<and>
           map_of (eb_pending b') (Some t) = Some l' \<and> el_head l' = None \<and>
           el_count l' = int (length ts)"
proof -
  from get_front_refines [OF p(2) d] a obtain h1 l1 where
    g: "clear_finished_and_get_front (eb_heap b) l = Some (Inr (h1, l1, FrontEvent a))"
    and q1: "queue_ok h1 l1 (ENode a [] # ts)" and core: "\<forall>x. same_core (h1 x) (eb_heap b x)"
    by (auto simp: front_of_def)
  let ?b1 = "set_pending (Some t) l1 (b\<lparr>eb_heap := h1\<rparr>)"
  let ?b2 = "set_state EXECUTING a ?b1"
  let ?b3 = "finish_event a ?b2"
  let ?w = "event_effect act b a w"
  let ?l2 = "l1\<lparr>el_head := None, el_count := el_count l1 - 1\<rparr>"
  have ef: "foldE (\<lambda>hd. invoke hd a) (handlers_of ?b2 a) (?b2, w) = Inr (?b2, ?w)"
    using quiet_handlers [OF q] same_core_event [OF core, of act "Some t" l1]
    by (simp add: event_effect_def handlers_of_def set_state_heap fun_eq_iff)
  have round1: "execute invoke t (b, w) = execute invoke t (?b3, ?w)"
    using p g ef by (subst execute.simps) (auto simp: Let_def queue_ok_def)
  have f: "ev_next (eb_heap ?b3 a) = None" "is_finish (eb_heap ?b3 a)"
    "map_of (eb_pending ?b3) (Some t) = Some l1" "imm_count (eb_heap ?b3 a) = 0"
    using finish_disabled [of ?b2 a] dis q1
    by (auto simp: is_finish_def set_state_heap queue_ok_def imm_list_def)
  have hd: "el_head l1 = Some a" "el_count l1 = 1 + int (length ts)"
    using q1 by (auto simp: queue_ok_def)
  have "clear_finished_events (eb_heap ?b3) l1 = clear_finished_events (eb_heap ?b3) ?l2"
    using f hd by (subst clear_finished_events.simps) (simp add: Let_def)
  also have "\<dots> = Some (Inr (eb_heap ?b3, ?l2))"
    by (subst clear_finished_events.simps) simp
  finally have "clear_finished_and_get_front (eb_heap ?b3) l1 = Some (Inr (eb_heap ?b3, ?l2, NoFront))"
    by (simp add: clear_finished_and_get_front_def)
  then have "execute invoke t (?b3, ?w) =
      Some (Inr ((set_pending (Some t) ?l2 (?b3\<lparr>eb_heap := eb_heap ?b3\<rparr>), ?w), []))"
    using f(3) hd(2) by (subst execute.simps) (simp add: Let_def)
  with round1 show ?thesis using hd(2) by simp
qed

lemma sample_quiet: "quiet sample_invoke sample_act"
  by (simp add: quiet_def sample_invoke_def)

theorem disable_finished_drops_rest_witness:
  "\<exists>b' l'. execute sample_invoke 5 (sample_buffer True \<lparr>el_head = Some 2, el_tail = Some 3, el_count = 2\<rparr>, []) =
     Some (Inr ((b', [12]), [])) \<and> map_of (eb_pending b') (Some 5) = Some l' \<and> el_head l' = None \<and> el_count l' = 1"
  using disable_finished_drops_rest [where invoke = sample_invoke and act = sample_act and t = 5 and w = "[]"
      and b = "sample_buffer True \<lparr>el_head = Some 2, el_tail = Some 3, el_count = 2\<rparr>" and a = 2 and ts = "[ENode 3 []]"]
  by (auto simp: sample_facts sample_quiet sample_queue)

text \<open>
  Once a tick's list has been drained its tail pointer still refers to an event that has left it.
\<close>

lemma insert_after_drain_lost:
  assumes "map_of (eb_pending b) (Some t) = Some l" "el_head l = None" "el_tail l = Some x"
    and "0 \<le> el_count l" "ev_tick (eb_heap b e) = Some t"
  shows "\<exists>b'. execute invoke t (insert_event b e, w) = Some (Inr ((b', w), []))"
proof -
  let ?b = "insert_event b e"
  let ?l = "l\<lparr>el_tail := Some e, el_count := el_count l + 1\<rparr>"
  have "map_of (eb_pending ?b) (Some t) = Some ?l"
    using assms by (simp add: insert_event_def touch_pending_def append_tail_def Let_def)
  moreover have "clear_finished_events h ?l = Some (Inr (h, ?l))" for h :: "('a, 'b) heap"
    using assms(2) by (subst clear_finished_events.simps) simp
  then have "clear_finished_and_get_front h ?l = Some (Inr (h, ?l, NoFront))" for h :: "('a, 'b) heap"
    using assms(2) by (simp add: clear_finished_and_get_front_def)
  ultimately show ?thesis
    using assms(4) by (subst execute.simps) (simp add: Let_def)
qed

text \<open>After a tick's events have all been dispatched, an event inserted at that tick is
  linked behind a departed event: the next call of execute returns at once and dispatches nothing.\<close>

theorem insert_after_execute_lost:
  assumes q: "quiet invoke act"
    and p: "map_of (eb_pending b) (Some t) = Some l" "queue_ok (eb_heap b) l ts" "tail_ok l ts"
    and det: "detached t (set (flat ts)) b"
    and d: "decisions_cascade (eb_heap b) ts" and nd: "\<not> eb_disable_finished b" and ne: "ts \<noteq> []"
    and ts: "\<forall>a \<in> set (flat ts). \<not> finished_at (eb_heap b) a \<and> \<not> is_decision (eb_heap b) a"
  shows "\<exists>b' w'. execute invoke t (b, w) = Some (Inr ((b', w'), [])) \<and>
           (\<forall>e. ev_tick (eb_heap b' e) = Some t \<longrightarrow>
              (\<exists>b''. execute invoke t (insert_event b' e, w') = Some (Inr ((b'', w'), []))))"
proof -
  have "drop_done (finished_at (eb_heap b)) ts = ts @ []"
    using ts drop_done_none by fastforce
  from execute_forest [OF quiet_calm [OF q] p(1,2) det d nd this, where w = w] ts q obtain b' w' l' where
    e: "execute invoke t (b, w) = Some (Inr ((b', w'), []))"
    and p': "map_of (eb_pending b') (Some t) = Some l'" "queue_ok (eb_heap b') l' []"
    and tl: "el_tail l' = el_tail l" by (fastforce simp: stops_def quiet_def)
  from tl p(3) ne have tl': "el_tail l' = Some (root (last ts))" by (simp add: tail_ok_def)
  have hd: "el_head l' = None" "0 \<le> el_count l'" using p'(2) by (simp_all add: queue_ok_def)
  from e insert_after_drain_lost [OF p'(1) hd(1) tl' hd(2), where invoke = invoke and w = w']
  show ?thesis by blast
qed

theorem insert_after_execute_lost_witness:
  "\<exists>b' w'. execute sample_invoke 5 (sample_buffer False \<lparr>el_head = Some 4, el_tail = Some 4, el_count = 1\<rparr>, []) =
     Some (Inr ((b', w'), [])) \<and>
     (\<forall>e. ev_tick (eb_heap b' e) = Some 5 \<longrightarrow>
        (\<exists>b''. execute sample_invoke 5 (insert_event b' e, w') = Some (Inr ((b'', w'), []))))"
  by (rule insert_after_execute_lost [where act = sample_act and ts = "[ENode 4 []]" and
        l = "\<lparr>el_head = Some 4, el_tail = Some 4, el_count = 1\<rparr>"])
     (simp_all add: sample_facts sample_quiet sample_queue tail_ok_def)

end
