(* ===== verification/SimUtils.thy ===== *)
theory SimUtils imports Prelude Complex_Main begin

text \<open>
  \<open>maro/simulator/utils/common.py\<close> (ticks and frame indices), \<open>utils/sim_random.py\<close> (named random
  generators), \<open>scenarios/matrix_accessor.py\<close> (a matrix over the slots of a node attribute), and the
  tick helpers of \<open>scenarios/abs_business_engine.py\<close>; Python's rounding of floats.

  The frame backend is Cython and C++; a slot attribute is the list of its slots, whose accessor
  refuses indices outside \<open>[0, slot number)\<close> (no negative indexing).
\<close>

section \<open>Rounding\<close>

text \<open>Python's \<open>round\<close> (half to even) and \<open>int\<close> (towards zero) on floats.\<close>

definition round_half_even :: "rat \<Rightarrow> int" where
  "round_half_even r =
     (let f = \<lfloor>r\<rfloor>; d = r - of_int f
      in if d < 1 / 2 then f else if 1 / 2 < d then f + 1 else if even f then f else f + 1)"

definition py_round :: "rat \<Rightarrow> nat \<Rightarrow> rat" where
  "py_round x n = of_int (round_half_even (x * 10 ^ n)) / 10 ^ n"

definition py_int :: "rat \<Rightarrow> int" where
  "py_int r = (if 0 \<le> r then \<lfloor>r\<rfloor> else \<lceil>r\<rceil>)"

section \<open>Ticks and frame indices\<close>

definition tick_to_frame_index :: "int \<Rightarrow> int \<Rightarrow> int \<Rightarrow> int res" where
  "tick_to_frame_index start_tick cur_tick resolution =
     (if resolution = 0 then Inl ZeroDivisionError
      else Inr \<lfloor>of_int (cur_tick - start_tick) / (of_int resolution :: rat)\<rfloor>)"

definition total_frames :: "int \<Rightarrow> int \<Rightarrow> int \<Rightarrow> int res" where
  "total_frames start_tick max_tick resolution =
     (if resolution = 0 then Inl ZeroDivisionError
      else Inr \<lceil>of_int (max_tick - start_tick) / (of_int resolution :: rat)\<rceil>)"

definition frame_ticks :: "int \<Rightarrow> int \<Rightarrow> int \<Rightarrow> int \<Rightarrow> int list" where
  "frame_ticks start_tick max_tick resolution frame_index =
     (let frame_start_tick = start_tick + frame_index * resolution;
          frame_end_tick = min max_tick (frame_start_tick + resolution)
      in [frame_start_tick..frame_end_tick - 1])"

definition frame_index_to_ticks :: "int \<Rightarrow> int \<Rightarrow> int \<Rightarrow> (int \<times> int list) list res" where
  "frame_index_to_ticks start_tick max_tick resolution =
     bindE (total_frames start_tick max_tick resolution) (\<lambda>max_snapshot_num.
       Inr (map (\<lambda>frame_index. (frame_index, frame_ticks start_tick max_tick resolution frame_index))
              [0..max_snapshot_num - 1]))"

text \<open>\<open>AbsBusinessEngine.__init__\<close> (its assertions), \<open>frame_index\<close>, \<open>calc_max_snapshots\<close> and
  \<open>get_ticks_frame_index_mapping\<close>; \<open>frame_index_list\<close> is what the snapshot list reports.\<close>

record engine_base =
  be_start_tick :: int
  be_max_tick :: int
  be_snapshot_resolution :: int
  be_max_snapshots :: "int option"

definition init_engine_base :: "int \<Rightarrow> int \<Rightarrow> int \<Rightarrow> int option \<Rightarrow> engine_base res" where
  "init_engine_base start_tick max_tick snapshot_resolution max_snapshots =
     assertE (0 \<le> start_tick) (assertE (start_tick < max_tick)
       (assertE (case max_snapshots of None \<Rightarrow> True | Some n \<Rightarrow> 0 < n)
         (Inr \<lparr>be_start_tick = start_tick, be_max_tick = max_tick,
               be_snapshot_resolution = snapshot_resolution, be_max_snapshots = max_snapshots\<rparr>)))"

definition be_frame_index :: "engine_base \<Rightarrow> int \<Rightarrow> int res" where
  "be_frame_index be tick = tick_to_frame_index (be_start_tick be) tick (be_snapshot_resolution be)"

definition calc_max_snapshots :: "engine_base \<Rightarrow> int res" where
  "calc_max_snapshots be =
     (case be_max_snapshots be of
        Some n \<Rightarrow> Inr n
      | None \<Rightarrow> total_frames (be_start_tick be) (be_max_tick be) (be_snapshot_resolution be))"

definition get_ticks_frame_index_mapping ::
  "engine_base \<Rightarrow> int list option \<Rightarrow> (int \<times> int) list" where
  "get_ticks_frame_index_mapping be frame_index_list =
     (case frame_index_list of
        None \<Rightarrow> []
      | Some fs \<Rightarrow>
          fold (\<lambda>frame_index mapping.
                  fold (\<lambda>tick. AList.update tick frame_index)
                    (frame_ticks (be_start_tick be) (be_max_tick be) (be_snapshot_resolution be)
                       frame_index) mapping)
            fs [])"

lemma floor_rat_div: "0 < r \<Longrightarrow> \<lfloor>of_int a / (of_int r :: rat)\<rfloor> = a div r"
  by (simp add: floor_divide_of_int_eq)

lemma ceiling_rat_div: "0 < r \<Longrightarrow> \<lceil>of_int a / (of_int r :: rat)\<rceil> = - ((- a) div r)"
  by (metis ceiling_def floor_divide_of_int_eq minus_divide_left of_int_minus)

lemma tick_to_frame_index_pos:
  "0 < r \<Longrightarrow> tick_to_frame_index s t r = Inr ((t - s) div r)"
  by (simp add: tick_to_frame_index_def floor_rat_div del: of_int_diff)

lemma total_frames_pos: "0 < r \<Longrightarrow> total_frames s m r = Inr (- ((s - m) div r))"
  by (simp add: total_frames_def ceiling_rat_div del: of_int_diff)

lemma div_mult_bounds: "0 < r \<Longrightarrow> (a :: int) div r * r \<le> a \<and> a < (a div r + 1) * r"
proof -
  assume r: "0 < r"
  have "a = a div r * r + a mod r" by simp
  with pos_mod_sign [OF r, of a] pos_mod_bound [OF r, of a] show ?thesis
    by (simp only: distrib_right mult_1) linarith
qed

lemma total_frames_bounds:
  assumes "0 < r" "total_frames s m r = Inr n"
  shows "(n - 1) * r < m - s" "m - s \<le> n * r"
proof -
  from assms have n: "n = - ((s - m) div r)" by (simp add: total_frames_pos)
  with div_mult_bounds [OF assms(1), of "s - m"]
  show "(n - 1) * r < m - s" "m - s \<le> n * r"
    by (simp_all add: algebra_simps)
qed

lemma mem_frame_ticks:
  assumes "0 < r"
  shows "t \<in> set (frame_ticks s m r i) \<longleftrightarrow> (t - s) div r = i \<and> t < m"
proof -
  have "(t - s) div r = i \<longleftrightarrow> i * r \<le> t - s \<and> t - s < (i + 1) * r"
  proof
    assume "(t - s) div r = i"
    with div_mult_bounds [OF assms, of "t - s"] show "i * r \<le> t - s \<and> t - s < (i + 1) * r"
      by simp
  next
    assume "i * r \<le> t - s \<and> t - s < (i + 1) * r"
    with div_mult_bounds [OF assms, of "t - s"]
    have "(t - s) div r * r < (i + 1) * r" "i * r < ((t - s) div r + 1) * r" by linarith+
    with assms have "(t - s) div r < i + 1" "i < (t - s) div r + 1"
      by (simp_all only: mult_less_cancel_right_pos)
    then show "(t - s) div r = i" by linarith
  qed
  then show ?thesis
    by (auto simp: frame_ticks_def Let_def algebra_simps)
qed

text \<open>
  The frame table covers every tick of the episode exactly under its own frame index, and the
  per-engine mapping agrees with \<open>tick_to_frame_index\<close>.
\<close>

text \<open>The table of frame indices lists each tick of the episode exactly under the frame
  index that tick_to_frame_index computes for it, and no other tick.\<close>

theorem frame_index_to_ticks_spec:
  assumes "0 < r" "s \<le> m"
  shows "\<exists>table. frame_index_to_ticks s m r = Inr table \<and> distinct (map fst table) \<and>
     (\<forall>t i. (\<exists>ts. (i, ts) \<in> set table \<and> t \<in> set ts) \<longleftrightarrow>
        s \<le> t \<and> t < m \<and> tick_to_frame_index s t r = Inr i)"
proof -
  obtain n where n: "total_frames s m r = Inr n" using assms(1) by (simp add: total_frames_pos)
  have "0 \<le> n" using total_frames_bounds(2) [OF assms(1) n] assms
    by (smt (verit, best) mult_nonneg_nonneg mult_neg_pos)
  have "(t - s) div r < n" if "t < m" for t
  proof -
    have "t - s < n * r" using that total_frames_bounds(2) [OF assms(1) n] by simp
    with div_mult_bounds [OF assms(1), of "t - s"] have "(t - s) div r * r < n * r" by linarith
    with assms(1) show ?thesis by simp
  qed
  moreover have "0 \<le> (t - s) div r \<longleftrightarrow> s \<le> t" for t
    using assms(1) by (simp add: pos_imp_zdiv_nonneg_iff)
  moreover have "inj_on (\<lambda>i. (i, frame_ticks s m r i)) A" for A by (rule inj_onI) simp
  ultimately show ?thesis
    using assms(1) n
    by (auto simp: frame_index_to_ticks_def mem_frame_ticks tick_to_frame_index_pos comp_def image_iff)
qed

lemma fold_update_const:
  "map_of (fold (\<lambda>t. AList.update t v) ts d) k = (if k \<in> set ts then Some v else map_of d k)"
  by (induction ts arbitrary: d) auto

text \<open>The mapping from ticks to frame indices holds a tick of the episode exactly when
  its frame index is among the recorded ones.\<close>

theorem ticks_frame_mapping_spec:
  assumes "0 < be_snapshot_resolution be"
  shows "map_of (get_ticks_frame_index_mapping be (Some fs)) t =
     (case be_frame_index be t of
        Inr i \<Rightarrow> if i \<in> set fs \<and> t < be_max_tick be then Some i else None
      | Inl _ \<Rightarrow> None)"
proof -
  let ?f = "frame_ticks (be_start_tick be) (be_max_tick be) (be_snapshot_resolution be)"
  let ?i = "(t - be_start_tick be) div be_snapshot_resolution be"
  have "map_of (fold (\<lambda>i m. fold (\<lambda>t. AList.update t i) (?f i) m) fs d) t =
      (if ?i \<in> set fs \<and> t < be_max_tick be then Some ?i else map_of d t)" for d
    using assms by (induction fs arbitrary: d) (auto simp: fold_update_const mem_frame_ticks)
  with assms show ?thesis
    by (simp add: get_ticks_frame_index_mapping_def be_frame_index_def tick_to_frame_index_pos)
qed

section \<open>Named random generators\<close>

text \<open>
  \<open>'r\<close> is the state of a \<open>random.Random\<close>; \<open>seeded n\<close> is the state after \<open>seed(n)\<close>.  The instances and
  the seed table are dictionaries in insertion order; the initial seed is the clock.
\<close>

record 'r sim_random =
  rand_instances :: "(string \<times> 'r) list"
  seed_dict :: "(string \<times> int) list"
  base_seed :: int

definition init_sim_random :: "int \<Rightarrow> 'r sim_random" where
  "init_sim_random now = \<lparr>rand_instances = [], seed_dict = [], base_seed = now\<rparr>"

fun seed_instances ::
  "(int \<Rightarrow> 'r) \<Rightarrow> int \<Rightarrow> nat \<Rightarrow> (string \<times> 'r) list \<Rightarrow> 'r sim_random \<Rightarrow> 'r sim_random" where
  "seed_instances seeded seed_num index [] s = s"
| "seed_instances seeded seed_num index ((key, rand) # items) s =
     (let sd = seed_num + int index
      in seed_instances seeded seed_num (Suc index) items
           (s\<lparr>rand_instances := AList.update key (seeded sd) (rand_instances s),
              seed_dict := AList.update key sd (seed_dict s)\<rparr>))"

definition sim_seed :: "(int \<Rightarrow> 'r) \<Rightarrow> int \<Rightarrow> 'r sim_random \<Rightarrow> 'r sim_random" where
  "sim_seed seeded seed_num s =
     (let s1 = s\<lparr>base_seed := seed_num\<rparr>
      in seed_instances seeded seed_num 0 (rand_instances s1) s1)"

definition create_instance :: "(int \<Rightarrow> 'r) \<Rightarrow> string \<Rightarrow> 'r sim_random \<Rightarrow> 'r sim_random" where
  "create_instance seeded key s =
     (if dict_mem key (rand_instances s) then s
      else let sd = base_seed s + int (length (rand_instances s))
           in s\<lparr>seed_dict := AList.update key sd (seed_dict s),
                rand_instances := AList.update key (seeded sd) (rand_instances s)\<rparr>)"

definition get_random :: "(int \<Rightarrow> 'r) \<Rightarrow> string \<Rightarrow> 'r sim_random \<Rightarrow> ('r sim_random \<times> 'r) res" where
  "get_random seeded key s =
     (let s1 = (if dict_mem key (rand_instances s) then s else create_instance seeded key s)
      in bindE (dict_get (rand_instances s1) key) (\<lambda>r. Inr (s1, r)))"

definition reset_seed :: "(int \<Rightarrow> 'r) \<Rightarrow> string \<Rightarrow> 'r sim_random \<Rightarrow> 'r sim_random res" where
  "reset_seed seeded key s =
     (let s1 = (if dict_mem key (seed_dict s) then s else create_instance seeded key s)
      in bindE (dict_get (rand_instances s1) key) (\<lambda>_.
         bindE (dict_get (seed_dict s1) key) (\<lambda>sd.
           Inr (s1\<lparr>rand_instances := AList.update key (seeded sd) (rand_instances s1)\<rparr>))))"

definition sim_clear :: "int \<Rightarrow> 'r sim_random \<Rightarrow> 'r sim_random" where
  "sim_clear now s = s\<lparr>rand_instances := [], seed_dict := [], base_seed := now\<rparr>"

text \<open>The two tables name the same keys, in the same order, once each.\<close>

definition rand_ok :: "'r sim_random \<Rightarrow> bool" where
  "rand_ok s \<longleftrightarrow> distinct (map fst (rand_instances s)) \<and>
     map fst (rand_instances s) = map fst (seed_dict s)"

lemma rand_ok_init: "rand_ok (init_sim_random now)" "rand_ok (sim_clear now s)"
  by (simp_all add: rand_ok_def init_sim_random_def sim_clear_def)

lemma rand_ok_create:
  assumes "rand_ok s"
  shows "rand_ok (create_instance seeded key s)"
proof -
  have "dict_mem key (rand_instances s) = dict_mem key (seed_dict s)"
    using assms by (intro dict_mem_cong) (simp add: rand_ok_def)
  with assms show ?thesis
    by (auto simp: rand_ok_def create_instance_def Let_def keys_update)
       (force simp: dict_mem_def)
qed

lemma seed_instances_frame:
  assumes "\<forall>item \<in> set items. dict_mem (fst item) (rand_instances s)"
    and "map fst (rand_instances s) = map fst (seed_dict s)"
  shows "map fst (rand_instances (seed_instances seeded n i items s)) = map fst (rand_instances s) \<and>
    map fst (seed_dict (seed_instances seeded n i items s)) = map fst (seed_dict s) \<and>
    base_seed (seed_instances seeded n i items s) = base_seed s"
  using assms
proof (induction items arbitrary: i s)
  case (Cons item items)
  obtain key rand where item: "item = (key, rand)" by (cases item)
  let ?s = "s\<lparr>rand_instances := AList.update key (seeded (n + int i)) (rand_instances s),
              seed_dict := AList.update key (n + int i) (seed_dict s)\<rparr>"
  have k: "dict_mem key (rand_instances s)" "dict_mem key (seed_dict s)"
    using Cons.prems item dict_mem_cong [OF Cons.prems(2)] by auto
  then have keys: "map fst (rand_instances ?s) = map fst (rand_instances s)"
    "map fst (seed_dict ?s) = map fst (seed_dict s)"
    by (simp_all add: keys_update)
  have "dict_mem (fst it) (rand_instances ?s)" if "it \<in> set items" for it
    using Cons.prems(1) that dict_mem_cong [OF keys(1)] by auto
  with Cons.prems(2) keys Cons.IH [of ?s "Suc i"] item show ?case
    by (simp only: seed_instances.simps Let_def) simp
qed simp

lemma seed_instances_other:
  "\<not> dict_mem k items \<Longrightarrow>
   map_of (seed_dict (seed_instances seeded n i items s)) k = map_of (seed_dict s) k \<and>
   map_of (rand_instances (seed_instances seeded n i items s)) k = map_of (rand_instances s) k"
  by (induction seeded n i items s rule: seed_instances.induct) (auto simp: Let_def dict_mem_def)

lemma seed_instances_at:
  "distinct (map fst items) \<Longrightarrow> j < length items \<Longrightarrow>
   map_of (seed_dict (seed_instances seeded n i items s)) (fst (items ! j)) = Some (n + int (i + j)) \<and>
   map_of (rand_instances (seed_instances seeded n i items s)) (fst (items ! j)) = Some (seeded (n + int (i + j)))"
proof (induction seeded n i items s arbitrary: j rule: seed_instances.induct)
  case (2 seeded n i key rand items s)
  then show ?case
    using seed_instances_other [of key items seeded n "Suc i"]
    by (cases j) (auto simp: Let_def dict_mem_def)
qed simp

lemma rand_ok_seed:
  assumes "rand_ok s"
  shows "rand_ok (sim_seed seeded n s)" "base_seed (sim_seed seeded n s) = n"
    "map fst (rand_instances (sim_seed seeded n s)) = map fst (rand_instances s)"
proof -
  have "\<forall>item \<in> set (rand_instances s). dict_mem (fst item) (rand_instances (s\<lparr>base_seed := n\<rparr>))"
    by (simp add: dict_mem_def)
  from seed_instances_frame [OF this, of seeded n 0] assms
  show "rand_ok (sim_seed seeded n s)" "base_seed (sim_seed seeded n s) = n"
    "map fst (rand_instances (sim_seed seeded n s)) = map fst (rand_instances s)"
    by (auto simp: rand_ok_def sim_seed_def Let_def)
qed

text \<open>
  \<open>seed n\<close> gives the i-th generator the seed \<open>n + i\<close>; a generator created after \<open>seed n\<close> gets the same
  state it would have been given had it been created before: seeding does not depend on which of
  the named generators were already in use.
\<close>

theorem sim_seed_positions:
  assumes "rand_ok s" "j < length (rand_instances s)"
  shows "map_of (rand_instances (sim_seed seeded n s)) (fst (rand_instances s ! j)) = Some (seeded (n + int j)) \<and>
         map_of (seed_dict (sim_seed seeded n s)) (fst (rand_instances s ! j)) = Some (n + int j)"
proof -
  have "distinct (map fst (rand_instances s))" using assms(1) unfolding rand_ok_def by blast
  from seed_instances_at [OF this assms(2), of seeded n 0 "s\<lparr>base_seed := n\<rparr>"] show ?thesis
    by (simp add: sim_seed_def Let_def)
qed

lemma sim_seed_other:
  assumes "rand_ok s" "\<not> dict_mem k (rand_instances s)"
  shows "map_of (rand_instances (sim_seed seeded n s)) k = None"
    "map_of (seed_dict (sim_seed seeded n s)) k = None"
proof -
  have "\<not> dict_mem k (seed_dict s)"
    using assms dict_mem_cong [of "rand_instances s" "seed_dict s"] by (simp add: rand_ok_def)
  with assms(2) seed_instances_other [OF assms(2), of seeded n 0 "s\<lparr>base_seed := n\<rparr>"]
  show "map_of (rand_instances (sim_seed seeded n s)) k = None"
    "map_of (seed_dict (sim_seed seeded n s)) k = None"
    by (auto simp: sim_seed_def Let_def dict_mem_map_of)
qed

text \<open>Seeding before or after a new generator is created gives the same generators and
  the same recorded seeds.\<close>

theorem seed_create_commute:
  assumes ok: "rand_ok s" and fresh: "\<not> dict_mem key (rand_instances s)"
  shows "map_of (rand_instances (create_instance seeded key (sim_seed seeded n s))) k =
           map_of (rand_instances (sim_seed seeded n (create_instance seeded key s))) k \<and>
         map_of (seed_dict (create_instance seeded key (sim_seed seeded n s))) k =
           map_of (seed_dict (sim_seed seeded n (create_instance seeded key s))) k"
proof -
  let ?rs = "rand_instances s"
  let ?c = "create_instance seeded key s"
  let ?a = "sim_seed seeded n s"
  have okc: "rand_ok ?c" using ok by (rule rand_ok_create)
  have keys: "map fst (rand_instances ?c) = map fst ?rs @ [key]"
    using fresh by (simp add: create_instance_def Let_def keys_update)
  then have len: "length (rand_instances ?c) = Suc (length ?rs)"
    by (metis length_append_singleton length_map)
  have nth: "fst (rand_instances ?c ! j) = (map fst ?rs @ [key]) ! j" if "j \<le> length ?rs" for j
    using keys len that by (metis le_imp_less_Suc nth_map)
  have ka: "map fst (rand_instances ?a) = map fst ?rs" "base_seed ?a = n"
    using rand_ok_seed [OF ok] by auto
  have la: "length (rand_instances ?a) = length ?rs" using ka(1) by (metis length_map)
  have na: "\<not> dict_mem key (rand_instances ?a)" using fresh dict_mem_cong [OF ka(1)] by simp
  then have lhs: "map_of (rand_instances (create_instance seeded key ?a)) k =
      (if k = key then Some (seeded (n + int (length ?rs))) else map_of (rand_instances ?a) k)"
    "map_of (seed_dict (create_instance seeded key ?a)) k =
      (if k = key then Some (n + int (length ?rs)) else map_of (seed_dict ?a) k)"
    using la ka(2) by (simp_all add: create_instance_def [of seeded key ?a] Let_def)
  show ?thesis
  proof (cases "k = key")
    case True
    with lhs show ?thesis
      using sim_seed_positions [OF okc, of "length ?rs" seeded n] len nth [of "length ?rs"]
      by (simp add: nth_append)
  next
    case False
    show ?thesis
    proof (cases "dict_mem k ?rs")
      case True
      then obtain j where j: "j < length ?rs" "k = fst (?rs ! j)" by (rule dict_mem_in_nth)
      with False lhs show ?thesis
        using sim_seed_positions [OF ok j(1), of seeded n]
          sim_seed_positions [OF okc, of j seeded n] len nth [of j]
        by (simp add: nth_append)
    next
      case none: False
      with False keys have "\<not> dict_mem k (rand_instances ?c)" by (simp add: dict_mem_def)
      with False none lhs show ?thesis
        using sim_seed_other [OF ok none, of seeded n] sim_seed_other [OF okc, of k seeded n]
        by simp
    qed
  qed
qed

text \<open>Drawing moves a generator on; \<open>reset_seed\<close> brings it back to the state its last seeding gave it.\<close>

theorem reset_seed_restores:
  assumes ok: "rand_ok s" and sd: "map_of (seed_dict s) key = Some sd"
  shows "\<exists>s'. reset_seed seeded key s = Inr s' \<and> rand_ok s' \<and> seed_dict s' = seed_dict s \<and>
           map_of (rand_instances s') key = Some (seeded sd) \<and>
           (\<forall>k. k \<noteq> key \<longrightarrow> map_of (rand_instances s') k = map_of (rand_instances s) k)"
proof -
  have m: "dict_mem key (seed_dict s)" using sd by (simp add: dict_mem_map_of)
  then have k: "dict_mem key (rand_instances s)"
    using ok dict_mem_cong [of "rand_instances s" "seed_dict s"] by (simp add: rand_ok_def)
  then obtain r where "map_of (rand_instances s) key = Some r" by (rule dict_mem_obtain)
  with sd ok k m show ?thesis
    by (auto simp: reset_seed_def Let_def dict_get_def rand_ok_def keys_update)
qed

section \<open>Matrix accessor\<close>

text \<open>\<open>MatrixAttributeAccessor\<close>: a matrix of \<open>row_num\<close> rows over a flat attribute, row by row.\<close>

record matrix =
  mx_slots :: "int list"
  mx_rows :: int
  mx_cols :: int

definition new_matrix :: "int \<Rightarrow> int \<Rightarrow> matrix" where
  "new_matrix row_num col_num =
     \<lparr>mx_slots = replicate (nat (row_num * col_num)) 0, mx_rows = row_num, mx_cols = col_num\<rparr>"

definition slot_get :: "'a list \<Rightarrow> int \<Rightarrow> 'a res" where
  "slot_get xs i = (if 0 \<le> i \<and> i < int (length xs) then Inr (xs ! nat i) else Inl IndexError)"

definition slot_set :: "'a list \<Rightarrow> int \<Rightarrow> 'a \<Rightarrow> 'a list res" where
  "slot_set xs i v = (if 0 \<le> i \<and> i < int (length xs) then Inr (xs[nat i := v]) else Inl IndexError)"

definition mx_get :: "matrix \<Rightarrow> int \<Rightarrow> int \<Rightarrow> int res" where
  "mx_get m row_idx column_idx = slot_get (mx_slots m) (mx_cols m * row_idx + column_idx)"

definition mx_set :: "matrix \<Rightarrow> int \<Rightarrow> int \<Rightarrow> int \<Rightarrow> matrix res" where
  "mx_set m row_idx column_idx v =
     bindE (slot_set (mx_slots m) (mx_cols m * row_idx + column_idx) v) (\<lambda>s. Inr (m\<lparr>mx_slots := s\<rparr>))"

definition mx_fill :: "matrix \<Rightarrow> int \<Rightarrow> matrix" where
  "mx_fill m v = m\<lparr>mx_slots := replicate (length (mx_slots m)) v\<rparr>"

definition mx_get_row :: "matrix \<Rightarrow> int \<Rightarrow> int list res" where
  "mx_get_row m row_idx =
     (let start = mx_cols m * row_idx in mapE (slot_get (mx_slots m)) [start..start + mx_cols m - 1])"

definition mx_get_column :: "matrix \<Rightarrow> int \<Rightarrow> int list res" where
  "mx_get_column m column_idx =
     mapE (slot_get (mx_slots m)) (map (\<lambda>r. r * mx_cols m + column_idx) [0..mx_rows m - 1])"

definition mx_ok :: "matrix \<Rightarrow> bool" where
  "mx_ok m \<longleftrightarrow> 0 \<le> mx_rows m \<and> 0 \<le> mx_cols m \<and> int (length (mx_slots m)) = mx_rows m * mx_cols m"

definition mx_in :: "matrix \<Rightarrow> int \<Rightarrow> int \<Rightarrow> bool" where
  "mx_in m r c \<longleftrightarrow> 0 \<le> r \<and> r < mx_rows m \<and> 0 \<le> c \<and> c < mx_cols m"

lemma mx_slot_bounds:
  assumes "mx_ok m" "mx_in m r c"
  shows "0 \<le> mx_cols m * r + c" "mx_cols m * r + c < int (length (mx_slots m))"
proof -
  show "0 \<le> mx_cols m * r + c" using assms by (simp add: mx_in_def)
  have "mx_cols m * (r + 1) \<le> mx_cols m * mx_rows m"
    using assms by (intro mult_left_mono) (auto simp: mx_in_def)
  with assms show "mx_cols m * r + c < int (length (mx_slots m))"
    by (simp add: mx_in_def mx_ok_def algebra_simps)
qed

lemma mx_slot_inj:
  assumes "mx_in m r c" "mx_in m r' c'" "mx_cols m * r + c = mx_cols m * r' + c'"
  shows "r = r' \<and> c = c'"
proof -
  have "(mx_cols m * r + c) div mx_cols m = r" "(mx_cols m * r' + c') div mx_cols m = r'"
    using assms(1,2) by (auto simp: mx_in_def div_pos_pos_trivial)
  with assms(3) show ?thesis by simp
qed

lemma mx_ok_new: "0 \<le> r \<Longrightarrow> 0 \<le> c \<Longrightarrow> mx_ok (new_matrix r c)"
  by (simp add: mx_ok_def new_matrix_def)

lemma mx_ok_set: "mx_set m r c v = Inr m' \<Longrightarrow> mx_ok m \<Longrightarrow> mx_ok m' \<and> mx_rows m' = mx_rows m \<and> mx_cols m' = mx_cols m"
  by (auto simp: mx_set_def slot_set_def mx_ok_def res_simps split: if_splits)

text \<open>Within the matrix reads and writes succeed, and a write changes its own cell only.\<close>

lemma mx_get_ok: "mx_ok m \<Longrightarrow> mx_in m r c \<Longrightarrow> mx_get m r c = Inr (mx_slots m ! nat (mx_cols m * r + c))"
  using mx_slot_bounds [of m r c] by (simp add: mx_get_def slot_get_def)

lemma mx_set_ok: "mx_ok m \<Longrightarrow> mx_in m r c \<Longrightarrow>
   mx_set m r c v = Inr (m\<lparr>mx_slots := (mx_slots m)[nat (mx_cols m * r + c) := v]\<rparr>)"
  using mx_slot_bounds [of m r c] by (simp add: mx_set_def slot_set_def)

theorem mx_get_set:
  assumes "mx_ok m" "mx_in m r c" "mx_in m r' c'" "mx_set m r c v = Inr m'"
  shows "mx_get m' r' c' = (if r' = r \<and> c' = c then Inr v else mx_get m r' c')"
proof -
  have m': "m' = m\<lparr>mx_slots := (mx_slots m)[nat (mx_cols m * r + c) := v]\<rparr>"
    using assms mx_set_ok [of m r c v] by simp
  have ne: "nat (mx_cols m * r + c) \<noteq> nat (mx_cols m * r' + c')" if "\<not> (r' = r \<and> c' = c)"
    using that mx_slot_inj [OF assms(2,3)] mx_slot_bounds [OF assms(1,2)]
      mx_slot_bounds [OF assms(1,3)] by (auto simp: eq_nat_nat_iff)
  from mx_ok_set [OF assms(4,1)] have "mx_ok m'" "mx_in m' r' c'"
    using assms(3) by (auto simp: mx_in_def)
  with ne m' mx_slot_bounds [OF assms(1,2)] show ?thesis
    by (auto simp: mx_get_ok assms)
qed

end
