(* ===== verification/SimCore.thy ===== *)
theory SimCore imports BufferProps SimUtils begin

text \<open>
  \<open>maro/simulator/core.py\<close> and \<open>abs_core.py\<close>: the environment that drives a business engine.

  The Python generator \<open>_simulate\<close> is a coroutine.  Its suspended states are the values of
  \<open>gen_state\<close>; the code between two suspensions is \<open>run_inner\<close> (from the inner loop on) and
  \<open>env_step\<close> (what \<open>send\<close> does in each suspended state).  A loop that does not end is \<open>None\<close>.
  \<open>AbsBusinessEngine\<close> is the record \<open>engine\<close> of the methods the environment calls; the telemetry
  client \<open>streamit\<close> and the dump folder of the \<open>enable-dump-snapshot\<close> option are outside the model.
\<close>

section \<open>State\<close>

datatype decision_mode = Sequential | Joint | JointWithSequentialAction

text \<open>An argument of \<open>step\<close>: \<open>None\<close>, an action object, or a list of such values.\<close>

datatype 'a py_action = NoAction | OneAction 'a | ActionList "'a py_action list"

datatype gen_state = NotStarted | AtDecision "addr list" | AtFinal | Closed

record ('e, 'p, 'h, 'w, 'a, 'm) engine =
  ng_step :: "int \<Rightarrow> ('e, 'p, 'h, 'w) world \<Rightarrow> ('e, 'p, 'h, 'w) world res"
  ng_post_step :: "int \<Rightarrow> 'w \<Rightarrow> ('w \<times> bool) res"
  ng_invoke :: "'h \<Rightarrow> addr \<Rightarrow> ('e, 'p, 'h, 'w) world \<Rightarrow> ('e, 'p, 'h, 'w) world res"
  ng_snapshot :: "int \<Rightarrow> 'w \<Rightarrow> 'w"
  ng_metrics :: "'w \<Rightarrow> 'm"
  ng_reset :: "bool \<Rightarrow> ('e, 'p, 'h, 'w) world \<Rightarrow> ('e, 'p, 'h, 'w) world res option"
  ng_actions :: "'a py_action list \<Rightarrow> 'p"

record ('e, 'p, 'h, 'w) env =
  env_tick :: int
  env_start_tick :: int
  env_resolution :: int
  env_mode :: decision_mode
  env_payloads :: "'p option list"
  env_gen :: gen_state
  env_buffer :: "('e, 'p, 'h) event_buffer"
  env_engine :: 'w

text \<open>What \<open>step\<close> returns: the metrics, the decision payload(s), and whether the episode is done.\<close>

datatype 'p decisions = NoDecision | Decision "'p option" | Decisions "'p option list"

type_synonym ('p, 'm) reply = "'m option \<times> 'p decisions \<times> bool"

section \<open>Assigning actions\<close>

definition env_frame_index :: "('e, 'p, 'h, 'w) env \<Rightarrow> int res" where
  "env_frame_index s = tick_to_frame_index (env_start_tick s) (env_tick s) (env_resolution s)"

definition action_items :: "'a py_action \<Rightarrow> 'a py_action list" where
  "action_items act = (case act of NoAction \<Rightarrow> [] | OneAction a \<Rightarrow> [OneAction a] | ActionList as \<Rightarrow> as)"

text \<open>
  \<open>EventBuffer.gen_action_event\<close> asserts that its payloads are a list of action objects: a \<open>None\<close> or a
  list among them raises.  \<open>mk\<close> makes the payload of the event.
\<close>

definition is_action :: "'a py_action \<Rightarrow> bool" where
  "is_action item = (case item of OneAction a \<Rightarrow> True | _ \<Rightarrow> False)"

definition gen_action_event ::
  "('a py_action list \<Rightarrow> 'p) \<Rightarrow> ('e, 'p, 'h) event_buffer \<Rightarrow> int \<Rightarrow> 'a py_action list
   \<Rightarrow> (('e, 'p, 'h) event_buffer \<times> addr) res" where
  "gen_action_event mk b tick payloads =
     assertE (list_all is_action payloads)
       (Inr (gen_cascade_event b tick TAKE_ACTION (Some (mk payloads))))"

definition assign_action ::
  "('a py_action list \<Rightarrow> 'p) \<Rightarrow> int \<Rightarrow> 'a py_action \<Rightarrow> addr
   \<Rightarrow> ('e, 'p, 'h) event_buffer \<Rightarrow> ('e, 'p, 'h) event_buffer res" where
  "assign_action mk tick action decision_event b =
     bindE (gen_action_event mk (set_state EXECUTING decision_event b) tick (action_items action)) (\<lambda>(b1, a).
     bindE (add_immediate_event (eb_heap b1) decision_event a True) (\<lambda>(h, added).
       Inr (b1\<lparr>eb_heap := h\<rparr>)))"

text \<open>What follows the \<open>yield\<close> of a decision: the actions sent in are assigned to the pending events.\<close>

definition joint_actions :: "'a py_action \<Rightarrow> 'a py_action list res" where
  "joint_actions act =
     (case act of NoAction \<Rightarrow> Inr [] | ActionList as \<Rightarrow> Inr as | OneAction a \<Rightarrow> Inl AssertionError)"

definition assign_actions ::
  "('a py_action list \<Rightarrow> 'p) \<Rightarrow> decision_mode \<Rightarrow> int \<Rightarrow> 'a py_action \<Rightarrow> addr list
   \<Rightarrow> ('e, 'p, 'h) event_buffer \<Rightarrow> ('e, 'p, 'h) event_buffer res" where
  "assign_actions mk mode tick action pending_events b =
     (if mode = Sequential then
        bindE (py_get pending_events 0) (\<lambda>event. assign_action mk tick action event b)
      else
        bindE (joint_actions action) (\<lambda>actions.
          bindE (foldE (\<lambda>(act, event). assign_action mk tick act event) (zip actions pending_events) b)
            (\<lambda>b1. Inr (if mode = Joint
                       then foldl (\<lambda>b2 event. set_state FINISHED event b2) b1
                              (drop (length actions) pending_events)
                       else b1))))"

section \<open>The generator\<close>

text \<open>The inner loop stops at a decision: a snapshot, the payloads, and a suspension.\<close>

definition yield_decision ::
  "('e, 'p, 'h, 'w, 'a, 'm) engine \<Rightarrow> addr list \<Rightarrow> ('e, 'p, 'h, 'w) env
   \<Rightarrow> (('e, 'p, 'h, 'w) env \<times> ('p, 'm) reply) res" where
  "yield_decision ng pending_events s =
     bindE (env_frame_index s) (\<lambda>fi.
       let w = ng_snapshot ng fi (env_engine s);
           payloads = map (\<lambda>a. ev_payload (eb_heap (env_buffer s) a)) pending_events;
           seq = (env_mode s = Sequential)
       in Inr (s\<lparr>env_engine := w, env_gen := AtDecision pending_events,
                env_payloads := env_payloads s @ (if seq then [hd payloads] else payloads)\<rparr>,
               (Some (ng_metrics ng w), if seq then Decision (hd payloads) else Decisions payloads, False)))"

text \<open>After the last tick: a closing snapshot unless the resolution has just taken one, and the
  final reply.\<close>

definition yield_final ::
  "('e, 'p, 'h, 'w, 'a, 'm) engine \<Rightarrow> ('e, 'p, 'h, 'w) env
   \<Rightarrow> (('e, 'p, 'h, 'w) env \<times> ('p, 'm) reply) res" where
  "yield_final ng s =
     (if env_resolution s = 0 then Inl ZeroDivisionError
      else bindE (env_frame_index s) (\<lambda>fi.
        let w = (if (env_tick s + 1) mod env_resolution s \<noteq> 0
                 then ng_snapshot ng fi (env_engine s) else env_engine s)
        in Inr (s\<lparr>env_engine := w, env_gen := AtFinal\<rparr>, (Some (ng_metrics ng w), NoDecision, True))))"

partial_function (option) run_inner ::
  "('e, 'p, 'h, 'w, 'a, 'm) engine \<Rightarrow> ('e, 'p, 'h, 'w) env
   \<Rightarrow> (('e, 'p, 'h, 'w) env \<times> ('p, 'm) reply) res option" where
  "run_inner ng s =
     (case execute (ng_invoke ng) (env_tick s) (env_buffer s, env_engine s) of
        None \<Rightarrow> None
      | Some (Inl err) \<Rightarrow> Some (Inl err)
      | Some (Inr ((b, w), pending_events)) \<Rightarrow>
          (let s1 = s\<lparr>env_buffer := b, env_engine := w\<rparr>
           in if pending_events \<noteq> [] then Some (yield_decision ng pending_events s1)
              else
                (case ng_post_step ng (env_tick s1) (env_engine s1) of
                   Inl err \<Rightarrow> Some (Inl err)
                 | Inr (w1, is_end_tick) \<Rightarrow>
                     (let s2 = s1\<lparr>env_engine := w1\<rparr>
                      in if is_end_tick then Some (yield_final ng s2)
                         else
                           (let s3 = s2\<lparr>env_tick := env_tick s2 + 1\<rparr>
                            in case ng_step ng (env_tick s3) (env_buffer s3, env_engine s3) of
                                 Inl err \<Rightarrow> Some (Inl err)
                               | Inr (b2, w2) \<Rightarrow>
                                   run_inner ng (s3\<lparr>env_buffer := b2, env_engine := w2\<rparr>))))))"

text \<open>
  \<open>Env.step\<close>: \<open>send\<close> on the generator.  A generator that has not started takes only \<open>None\<close>; one
  resumed after the final reply ends with \<open>StopIteration\<close>, and stays closed.
\<close>

definition env_step ::
  "('e, 'p, 'h, 'w, 'a, 'm) engine \<Rightarrow> 'a py_action \<Rightarrow> ('e, 'p, 'h, 'w) env
   \<Rightarrow> (('e, 'p, 'h, 'w) env \<times> ('p, 'm) reply) res option" where
  "env_step ng action s =
     (case env_gen s of
        NotStarted \<Rightarrow>
          (case action of
             NoAction \<Rightarrow>
               (case ng_step ng (env_tick s) (env_buffer s, env_engine s) of
                  Inl err \<Rightarrow> Some (Inl err)
                | Inr (b, w) \<Rightarrow> run_inner ng (s\<lparr>env_buffer := b, env_engine := w\<rparr>))
           | _ \<Rightarrow> Some (Inl TypeError))
      | AtDecision pending_events \<Rightarrow>
          (case assign_actions (ng_actions ng) (env_mode s) (env_tick s) action pending_events
                  (env_buffer s) of
             Inl err \<Rightarrow> Some (Inl err)
           | Inr b \<Rightarrow> run_inner ng (s\<lparr>env_buffer := b\<rparr>))
      | AtFinal \<Rightarrow> Some (Inr (s\<lparr>env_gen := Closed\<rparr>, (None, NoDecision, True)))
      | Closed \<Rightarrow> Some (Inr (s, (None, NoDecision, True))))"

text \<open>\<open>Env.__init__\<close> around an engine that has been built over the buffer, and \<open>Env.reset\<close>.\<close>

definition init_env ::
  "int \<Rightarrow> int \<Rightarrow> decision_mode \<Rightarrow> ('e, 'p, 'h) event_buffer \<Rightarrow> 'w \<Rightarrow> ('e, 'p, 'h, 'w) env" where
  "init_env start_tick resolution mode b w =
     \<lparr>env_tick = start_tick, env_start_tick = start_tick, env_resolution = resolution,
      env_mode = mode, env_payloads = [], env_gen = NotStarted, env_buffer = b, env_engine = w\<rparr>"

definition env_reset ::
  "('e, 'p, 'h, 'w, 'a, 'm) engine \<Rightarrow> bool \<Rightarrow> ('e, 'p, 'h, 'w) env
   \<Rightarrow> ('e, 'p, 'h, 'w) env res option" where
  "env_reset ng keep_seed s =
     (case reset_buffer (env_buffer s) of
        None \<Rightarrow> None
      | Some b \<Rightarrow>
          (case ng_reset ng keep_seed (b, env_engine s) of
             None \<Rightarrow> None
           | Some (Inl err) \<Rightarrow> Some (Inl err)
           | Some (Inr (b1, w1)) \<Rightarrow>
               Some (Inr (s\<lparr>env_tick := env_start_tick s, env_gen := NotStarted, env_payloads := [],
                            env_buffer := b1, env_engine := w1\<rparr>))))"

end
