(* ===== verification/SimProps.thy ===== *)
theory SimProps imports SimCore begin

text \<open>
  Properties of the environment core: the protocol of the generator as a step relation and
  \<open>env_step\<close> as one of its steps, the effect of assigning actions, the tick discipline, and the
  locale \<open>engine_invariant\<close>: what a business engine must keep for a whole episode to keep it.
\<close>

section \<open>The protocol of the generator\<close>

datatype phase = PStart | PDecision | PFinal | PClosed

definition phase_of :: "gen_state \<Rightarrow> phase" where
  "phase_of g = (case g of NotStarted \<Rightarrow> PStart | AtDecision _ \<Rightarrow> PDecision | AtFinal \<Rightarrow> PFinal
     | Closed \<Rightarrow> PClosed)"

text \<open>\<open>protocol p p' metrics payload done\<close>: one call of \<open>step\<close> takes the generator from \<open>p\<close> to \<open>p'\<close>
  and its reply has or has not metrics, has or has not a decision, and says done or not.\<close>

inductive protocol :: "phase \<Rightarrow> phase \<Rightarrow> bool \<Rightarrow> bool \<Rightarrow> bool \<Rightarrow> bool" where
  ask: "p \<in> {PStart, PDecision} \<Longrightarrow> protocol p PDecision True True False"
| final: "p \<in> {PStart, PDecision} \<Longrightarrow> protocol p PFinal True False True"
| stop: "p \<in> {PFinal, PClosed} \<Longrightarrow> protocol p PClosed False False True"

inductive_cases protocol_closedE: "protocol PClosed p m d b"
inductive_cases protocol_finalE: "protocol PFinal p m d b"
inductive_simps protocol_done [simp]: "protocol p q m d True"

definition reply_protocol :: "gen_state \<Rightarrow> gen_state \<Rightarrow> ('p, 'm) reply \<Rightarrow> bool" where
  "reply_protocol g g' r = (case r of (m, d, b) \<Rightarrow>
     protocol (phase_of g) (phase_of g') (m \<noteq> None) (d \<noteq> NoDecision) b)"

lemma yield_decision_result:
  assumes "yield_decision ng ps s = Inr (s', r)"
  shows "env_gen s' = AtDecision ps" "env_tick s' = env_tick s" "env_buffer s' = env_buffer s"
    "\<exists>fi. env_frame_index s = Inr fi \<and> env_engine s' = ng_snapshot ng fi (env_engine s)"
    "fst r = Some (ng_metrics ng (env_engine s'))" "fst (snd r) \<noteq> NoDecision" "\<not> snd (snd r)"
    "env_mode s' = env_mode s" "env_start_tick s' = env_start_tick s"
    "env_resolution s' = env_resolution s"
  using assms by (auto simp: yield_decision_def res_simps Let_def split: if_splits)

lemma yield_final_result:
  assumes "yield_final ng s = Inr (s', r)"
  shows "env_gen s' = AtFinal" "env_tick s' = env_tick s" "env_buffer s' = env_buffer s"
    "\<exists>fi. env_frame_index s = Inr fi \<and>
       (env_engine s' = ng_snapshot ng fi (env_engine s) \<or> env_engine s' = env_engine s)"
    "fst r = Some (ng_metrics ng (env_engine s'))" "fst (snd r) = NoDecision" "snd (snd r)"
    "env_mode s' = env_mode s" "env_start_tick s' = env_start_tick s"
    "env_resolution s' = env_resolution s"
  using assms by (auto simp: yield_final_def res_simps Let_def split: if_splits)

text \<open>An induction rule for \<open>run_inner\<close>: a property of the state that every round keeps until the
  call ends.\<close>

lemma run_inner_rule:
  assumes run: "run_inner ng s = Some (Inr (s', r))" and start: "I s"
    and ask: "\<And>s b w ps s' r. I s \<Longrightarrow>
        execute (ng_invoke ng) (env_tick s) (env_buffer s, env_engine s) = Some (Inr ((b, w), ps)) \<Longrightarrow>
        ps \<noteq> [] \<Longrightarrow> yield_decision ng ps (s\<lparr>env_buffer := b, env_engine := w\<rparr>) = Inr (s', r) \<Longrightarrow> P s' r"
    and fin: "\<And>s b w w1 s' r. I s \<Longrightarrow>
        execute (ng_invoke ng) (env_tick s) (env_buffer s, env_engine s) = Some (Inr ((b, w), [])) \<Longrightarrow>
        ng_post_step ng (env_tick s) w = Inr (w1, True) \<Longrightarrow>
        yield_final ng (s\<lparr>env_buffer := b, env_engine := w1\<rparr>) = Inr (s', r) \<Longrightarrow> P s' r"
    and loop: "\<And>s b w w1 b2 w2. I s \<Longrightarrow>
        execute (ng_invoke ng) (env_tick s) (env_buffer s, env_engine s) = Some (Inr ((b, w), [])) \<Longrightarrow>
        ng_post_step ng (env_tick s) w = Inr (w1, False) \<Longrightarrow>
        ng_step ng (env_tick s + 1) (b, w1) = Inr (b2, w2) \<Longrightarrow>
        I (s\<lparr>env_tick := env_tick s + 1, env_buffer := b2, env_engine := w2\<rparr>)"
  shows "P s' r"
proof -
  define Q where "Q = (\<lambda>ng' s y. ng' = ng \<longrightarrow> I s \<longrightarrow> (\<forall>s' r. y = (Inr (s', r) :: _ res) \<longrightarrow> P s' r))"
  have "Q ng' s y" if "run_inner ng' s = Some y" for ng' s y
  proof (rule run_inner.raw_induct [OF _ that], goal_cases)
    case (1 rec ng' s y)
    show ?case unfolding Q_def
    proof (intro impI allI)
      fix s' r assume ng: "ng' = ng" and I: "I s" and y: "y = Inr (s', r)"
      from 1(2) [unfolded ng y] obtain b w ps where
        e: "execute (ng_invoke ng) (env_tick s) (env_buffer s, env_engine s) = Some (Inr ((b, w), ps))"
        by (auto split: option.splits sum.splits)
      show "P s' r"
      proof (cases "ps = []")
        case False
        with 1(2) [unfolded ng y] e
        have "yield_decision ng ps (s\<lparr>env_buffer := b, env_engine := w\<rparr>) = Inr (s', r)"
          by (simp add: Let_def)
        with ask I e False show ?thesis by blast
      next
        case True
        with 1(2) [unfolded ng y] e obtain w1 end_tick where
          ps: "ng_post_step ng (env_tick s) w = Inr (w1, end_tick)"
          by (auto simp: Let_def split: sum.splits)
        show ?thesis
        proof (cases end_tick)
          case ended: True
          with 1(2) [unfolded ng y] e True ps
          have "yield_final ng (s\<lparr>env_buffer := b, env_engine := w1\<rparr>) = Inr (s', r)"
            by (simp add: Let_def)
          with fin [of s b w w1 s' r] I e True ps ended show ?thesis by simp
        next
          case go: False
          with 1(2) [unfolded ng y] e True ps obtain b2 w2 where
            st: "ng_step ng (env_tick s + 1) (b, w1) = Inr (b2, w2)"
            and rec: "rec ng (s\<lparr>env_tick := env_tick s + 1, env_buffer := b2, env_engine := w2\<rparr>) =
                Some (Inr (s', r))"
            by (auto simp: Let_def split: sum.splits)
          from 1(1) [OF rec] loop [OF I e [unfolded True] _ st] go ps
          show ?thesis by (cases r) (simp add: Q_def)
        qed
      qed
    qed
  qed
  from this [OF run] start show ?thesis by (cases r) (simp add: Q_def)
qed

lemma run_inner_gen:
  assumes "run_inner ng s = Some (Inr (s', (m, d, fin)))"
  shows "(if fin then env_gen s' = AtFinal else \<exists>ps. ps \<noteq> [] \<and> env_gen s' = AtDecision ps) \<and>
    m = Some (ng_metrics ng (env_engine s')) \<and> (d = NoDecision \<longleftrightarrow> fin)"
  using assms
proof (rule run_inner_rule [where I = "\<lambda>_. True" and P = "\<lambda>s' (m, d, fin).
    (if fin then env_gen s' = AtFinal else \<exists>ps. ps \<noteq> [] \<and> env_gen s' = AtDecision ps) \<and>
    m = Some (ng_metrics ng (env_engine s')) \<and> (d = NoDecision \<longleftrightarrow> fin)", of ng s s' "(m, d, fin)",
    simplified])
qed (auto dest: yield_decision_result yield_final_result)

theorem env_step_protocol:
  assumes "env_step ng action s = Some (Inr (s', r))"
  shows "reply_protocol (env_gen s) (env_gen s') r"
proof -
  obtain m d fin where r: "r = (m, d, fin)" by (cases r)
  have run: "reply_protocol g (env_gen s') r"
    if "run_inner ng s0 = Some (Inr (s', r))" "phase_of g \<in> {PStart, PDecision}" for s0 g
    using run_inner_gen [OF that(1) [unfolded r]] that(2)
    by (auto simp: reply_protocol_def r phase_of_def split: if_splits intro: protocol.ask)
  show ?thesis
  proof (cases "env_gen s")
    case NotStarted
    with assms run show ?thesis
      by (auto simp: env_step_def phase_of_def split: py_action.splits sum.splits)
  next
    case (AtDecision ps)
    with assms run show ?thesis
      by (auto simp: env_step_def phase_of_def split: sum.splits)
  next
    case AtFinal
    with assms show ?thesis by (auto simp: env_step_def reply_protocol_def phase_of_def)
  next
    case Closed
    with assms show ?thesis by (auto simp: env_step_def reply_protocol_def phase_of_def)
  qed
qed

text \<open>A sequence of calls of \<open>step\<close>.\<close>

fun env_steps ::
  "('e, 'p, 'h, 'w, 'a, 'm) engine \<Rightarrow> 'a py_action list \<Rightarrow> ('e, 'p, 'h, 'w) env
   \<Rightarrow> (('e, 'p, 'h, 'w) env \<times> ('p, 'm) reply list) res option" where
  "env_steps ng [] s = Some (Inr (s, []))"
| "env_steps ng (a # as) s =
     (case env_step ng a s of
        None \<Rightarrow> None
      | Some (Inl err) \<Rightarrow> Some (Inl err)
      | Some (Inr (s1, r)) \<Rightarrow>
          (case env_steps ng as s1 of
             None \<Rightarrow> None
           | Some (Inl err) \<Rightarrow> Some (Inl err)
           | Some (Inr (s2, rs)) \<Rightarrow> Some (Inr (s2, r # rs))))"

lemma env_steps_Cons:
  assumes "env_steps ng (a # as) s = Some (Inr (s2, rs))"
  obtains s1 r rs' where "env_step ng a s = Some (Inr (s1, r))"
    "env_steps ng as s1 = Some (Inr (s2, rs'))" "rs = r # rs'"
  using assms by (auto split: option.splits sum.splits prod.splits)

lemma closed_stays:
  assumes "env_gen s \<in> {AtFinal, Closed}"
  shows "\<exists>s'. env_steps ng as s = Some (Inr (s', replicate (length as) (None, NoDecision, True))) \<and>
           env_buffer s' = env_buffer s \<and> env_engine s' = env_engine s \<and> env_tick s' = env_tick s"
  using assms
proof (induction as arbitrary: s)
  case (Cons a as)
  let ?s = "s\<lparr>env_gen := Closed\<rparr>"
  have "env_step ng a s = Some (Inr (?s, (None, NoDecision, True)))"
    using Cons.prems by (auto simp: env_step_def)
  moreover from Cons.IH [of ?s] obtain s' where
    "env_steps ng as ?s = Some (Inr (s', replicate (length as) (None, NoDecision, True)))"
    "env_buffer s' = env_buffer s \<and> env_engine s' = env_engine s \<and> env_tick s' = env_tick s" by auto
  ultimately show ?case by auto
qed simp

text \<open>Once a reply says the episode is done, further calls change nothing and say so again.\<close>

text \<open>C38: Once Env.step has reported that the episode is done, every further call, with
  whatever actions, answers done with no decision and changes neither the buffer nor the engine nor
  the tick.\<close>

theorem done_is_final:
  assumes "env_step ng action s = Some (Inr (s1, (m, d, True)))"
  shows "\<exists>s2. env_steps ng as s1 = Some (Inr (s2, replicate (length as) (None, NoDecision, True))) \<and>
           env_buffer s2 = env_buffer s1 \<and> env_engine s2 = env_engine s1 \<and> env_tick s2 = env_tick s1"
proof -
  from env_step_protocol [OF assms] have "phase_of (env_gen s1) \<in> {PFinal, PClosed}"
    by (auto simp: reply_protocol_def elim: protocol.cases)
  then have "env_gen s1 \<in> {AtFinal, Closed}" by (auto simp: phase_of_def split: gen_state.splits)
  then show ?thesis by (rule closed_stays)
qed

section \<open>Assigning actions\<close>

text \<open>The object the pool hands out for the next cascade event is clean: unlinked, nothing attached,
  and different from the events in use.\<close>

definition next_cascade :: "('e, 'p, 'h) event_buffer \<Rightarrow> addr" where
  "next_cascade b = snd (pool_pop b CascadeEvent)"

definition clean_cascade :: "('e, 'p, 'h) event_buffer \<Rightarrow> bool" where
  "clean_cascade b \<longleftrightarrow>
     (pool_cascade b \<noteq> [] \<longrightarrow>
        ev_class (eb_heap b (next_cascade b)) = CascadeEvent \<and> ev_next (eb_heap b (next_cascade b)) = None)"

lemma gen_cascade_effect:
  assumes "gen_event b t ty p True = (b', a)" "clean_cascade b"
  shows "a = next_cascade b" "ev_class (eb_heap b' a) = CascadeEvent" "ev_next (eb_heap b' a) = None"
  using assms
  by (auto simp: gen_event_def next_cascade_def clean_cascade_def pool_pop_def Let_def
      reset_value_def new_event_def upd_apply split: if_splits)

lemma imm_list_frame:
  assumes "\<And>x. x \<in> set xs \<Longrightarrow> ev_next (h x) = ev_next (h' x)"
    "imm_head (h a) = imm_head (h' a)" "imm_tail (h a) = imm_tail (h' a)" "imm_count (h a) = imm_count (h' a)"
  shows "imm_list h a xs = imm_list h' a xs"
  using assms lseg_cong [of xs h h'] by (simp add: imm_list_def)

text \<open>
  The action event goes in front of whatever the decision event already cascades to, so it is the
  next event dispatched; every event other than the decision event and the new one is untouched.
\<close>

lemma assign_action_effect:
  assumes d: "ev_class (eb_heap b d) = CascadeEvent" "ev_tick (eb_heap b d) = Some t"
    and l: "imm_list (eb_heap b) d xs" "d \<notin> set xs"
    and new: "next_cascade b \<notin> set (d # xs)" "clean_cascade b" and act: "list_all is_action (action_items action)"
  shows "\<exists>b'. assign_action mk t action d b = Inr b' \<and>
           imm_list (eb_heap b') d (next_cascade b # xs) \<and>
           ev_state (eb_heap b' d) = EXECUTING \<and>
           ev_type (eb_heap b' (next_cascade b)) = Some TAKE_ACTION \<and>
           ev_tick (eb_heap b' (next_cascade b)) = Some t \<and>
           ev_payload (eb_heap b' (next_cascade b)) = Some (mk (action_items action)) \<and>
           (\<forall>x. x \<noteq> d \<and> x \<noteq> next_cascade b \<longrightarrow> eb_heap b' x = eb_heap b x) \<and>
           eb_pending b' = eb_pending b"
proof -
  let ?b1 = "set_state EXECUTING d b"
  obtain b2 a where g: "gen_action_event mk ?b1 t (action_items action) = Inr (b2, a)"
    using act by (cases "gen_cascade_event ?b1 t TAKE_ACTION (Some (mk (action_items action)))") (simp add: gen_action_event_def)
  then have g': "gen_event ?b1 (Some t) (Some TAKE_ACTION) (Some (mk (action_items action))) True = (b2, a)"
    using act by (simp add: gen_action_event_def gen_cascade_event_def)
  have nc: "next_cascade ?b1 = next_cascade b" "clean_cascade ?b1"
    using new by (auto simp: next_cascade_def clean_cascade_def pool_pop_def set_state_def Let_def upd_apply)
  note a = gen_cascade_effect [OF g' nc(2)] gen_event_result [OF g']
  have ad: "a \<noteq> d" "a \<notin> set xs" using a(1) nc new by auto
  have h2: "eb_heap b2 x = (if x = d then (eb_heap b d)\<lparr>ev_state := EXECUTING\<rparr> else eb_heap b x)"
    if "x \<noteq> a" for x
    using a(12) [OF that] by (simp add: set_state_heap)
  have il: "imm_list (eb_heap b2) d xs"
  proof (subst imm_list_frame [where h' = "eb_heap b"])
    fix x assume "x \<in> set xs"
    with ad(2) have "x \<noteq> a" by blast
    then show "ev_next (eb_heap b2 x) = ev_next (eb_heap b x)" by (simp add: h2)
  qed (use l ad in \<open>simp_all add: h2\<close>)
  have "ev_class (eb_heap b2 d) = CascadeEvent" "ev_tick (eb_heap b2 a) = ev_tick (eb_heap b2 d)"
    using d ad a by (auto simp: h2)
  from add_immediate_head [OF il ad(2) a(3) ad(1) l(2) this] obtain h' where
    h': "add_immediate_event (eb_heap b2) d a True = Inr (h', True)" "imm_list h' d (a # xs)" by auto
  have fr: "h' x = eb_heap b2 x" if "x \<noteq> d" "x \<noteq> a" for x
    using h'(1) that by (auto simp: add_immediate_event_def Let_def upd_apply split: if_splits option.splits)
  have "ev_type (h' a) = Some TAKE_ACTION" "ev_tick (h' a) = Some t"
    "ev_payload (h' a) = Some (mk (action_items action))" "ev_state (h' d) = EXECUTING"
    using h'(1) a ad h2 [of d]
    by (auto simp: add_immediate_event_def Let_def upd_apply split: if_splits option.splits)
  with g h' a(1) nc(1) fr h2 a(10) show ?thesis
    by (auto simp: assign_action_def Let_def)
qed

section \<open>Tick discipline\<close>

definition advance :: "('e, 'p, 'h, 'w) env \<Rightarrow> ('e, 'p, 'h, 'w) env \<Rightarrow> bool" where
  "advance s s' \<longleftrightarrow> env_tick s \<le> env_tick s' \<and> env_mode s' = env_mode s \<and>
     env_start_tick s' = env_start_tick s \<and> env_resolution s' = env_resolution s"

lemma run_inner_advance:
  assumes "run_inner ng s = Some (Inr (s', r))"
  shows "advance s s'"
  using assms
proof (rule run_inner_rule [where I = "advance s" and P = "\<lambda>s' r. advance s s'"])
qed (auto simp: advance_def dest: yield_decision_result yield_final_result)

text \<open>Time never goes back, whatever the agent does and whatever the engine does.\<close>

text \<open>Time never goes back: whatever the agent and the engine do, a call of Env.step does
  not lower the tick and leaves the decision mode, the start tick and the resolution alone.\<close>

theorem env_step_advance:
  assumes "env_step ng action s = Some (Inr (s', r))"
  shows "advance s s'"
proof -
  have "advance s s'" if "run_inner ng (s\<lparr>env_buffer := b, env_engine := w\<rparr>) = Some (Inr (s', r))" for b w
    using run_inner_advance [OF that] by (simp add: advance_def)
  moreover have "advance s s'" if "run_inner ng (s\<lparr>env_buffer := b\<rparr>) = Some (Inr (s', r))" for b
    using run_inner_advance [OF that] by (simp add: advance_def)
  ultimately show ?thesis using assms
    by (auto simp: env_step_def split: gen_state.splits py_action.splits sum.splits)
       (simp_all add: advance_def)
qed

section \<open>Engine invariants\<close>

text \<open>
  The contract between the environment and a business engine: a predicate on the engine's state that
  \<open>step\<close>, \<open>post_step\<close>, every event handler, and taking a snapshot keep.  The environment then keeps
  it over any sequence of steps, for every buffer content and every action of the agent.
\<close>

locale engine_invariant =
  fixes ng :: "('e, 'p, 'h, 'w, 'a, 'm) engine" and inv :: "'w \<Rightarrow> bool"
  assumes step_inv: "ng_step ng t (b, w) = Inr (b', w') \<Longrightarrow> inv w \<Longrightarrow> inv w'"
    and post_step_inv: "ng_post_step ng t w = Inr (w', e) \<Longrightarrow> inv w \<Longrightarrow> inv w'"
    and invoke_inv: "ng_invoke ng hn a (b, w) = Inr (b', w') \<Longrightarrow> inv w \<Longrightarrow> inv w'"
    and snapshot_inv: "inv w \<Longrightarrow> inv (ng_snapshot ng fi w)"
begin

lemma handlers_inv:
  "foldE (\<lambda>hn. ng_invoke ng hn a) hs s = Inr s' \<Longrightarrow> inv (snd s) \<Longrightarrow> inv (snd s')"
proof (erule foldE_invariant [where I = "\<lambda>s. inv (snd s)"])
  fix hn s s' assume "ng_invoke ng hn a s = Inr s'" "inv (snd s)"
  then show "inv (snd s')" using invoke_inv [of hn a "fst s" "snd s" "fst s'" "snd s'"] by simp
qed simp

lemma execute_inv:
  assumes "execute (ng_invoke ng) t s = Some (Inr (s', ps))" "inv (snd s)"
  shows "inv (snd s')"
proof -
  define Q where "Q = (\<lambda>invoke (s :: ('e, 'p, 'h, 'w) world)
     (y :: (('e, 'p, 'h, 'w) world \<times> addr list) res). invoke = ng_invoke ng \<longrightarrow> inv (snd s) \<longrightarrow>
     (\<forall>s' ps. y = Inr (s', ps) \<longrightarrow> inv (snd s')))"
  have "Q invoke s y" if "execute invoke t s = Some y" for invoke t s y
  proof (rule execute.raw_induct [OF _ that], goal_cases)
    case (1 rec invoke t s y)
    show ?case unfolding Q_def
    proof (intro impI allI)
      fix s' ps assume hs: "invoke = ng_invoke ng" "inv (snd s)" "y = Inr (s', ps)"
      from 1(2) [unfolded hs(3)] consider "snd s' = snd s"
        | b2 event s3 b3 where
          "foldE (\<lambda>hn. invoke hn event) (handlers_of b2 event) (b2, snd s) = Inr s3"
          "rec invoke t (b3, snd s3) = Some (Inr (s', ps))"
        by (auto simp: Let_def split: option.splits sum.splits if_splits front.splits)
      then show "inv (snd s')"
      proof cases
        case 2
        from handlers_inv [OF 2(1) [unfolded hs(1)]] hs(2) have "inv (snd s3)" by simp
        with 1(1) [OF 2(2)] hs(1) show ?thesis unfolding Q_def by (metis snd_conv)
      qed (use hs in simp)
    qed
  qed
  from this [OF assms(1)] assms(2) show ?thesis by (cases s') (simp add: Q_def)
qed

lemma yield_inv:
  "yield_decision ng ps s = Inr (s', r) \<Longrightarrow> inv (env_engine s) \<Longrightarrow> inv (env_engine s')"
  "yield_final ng s = Inr (s', r) \<Longrightarrow> inv (env_engine s) \<Longrightarrow> inv (env_engine s')"
  by (metis yield_decision_result(4) snapshot_inv) (metis yield_final_result(4) snapshot_inv)

lemma run_inner_inv:
  assumes "run_inner ng s = Some (Inr (s', r))" "inv (env_engine s)"
  shows "inv (env_engine s')"
  using assms
proof (rule run_inner_rule [where I = "\<lambda>s. inv (env_engine s)" and P = "\<lambda>s' r. inv (env_engine s')"], goal_cases)
  case (1 s b w ps s' r)
  from execute_inv [OF 1(2)] 1(1) yield_inv(1) [OF 1(4)] show ?case by simp
next
  case (2 s b w w1 s' r)
  from execute_inv [OF 2(2)] 2(1) have "inv w" by simp
  with post_step_inv [OF 2(3)] yield_inv(2) [OF 2(4)] show ?case by simp
next
  case (3 s b w w1 b2 w2)
  from execute_inv [OF 3(2)] 3(1) have "inv w" by simp
  with post_step_inv [OF 3(3)] step_inv [OF 3(4)] show ?case by simp
qed

lemma env_step_inv:
  assumes "env_step ng action s = Some (Inr (s', r))" "inv (env_engine s)"
  shows "inv (env_engine s')"
proof (cases "env_gen s")
  case NotStarted
  with assms(1) obtain b w where st: "ng_step ng (env_tick s) (env_buffer s, env_engine s) = Inr (b, w)"
    and run: "run_inner ng (s\<lparr>env_buffer := b, env_engine := w\<rparr>) = Some (Inr (s', r))"
    by (auto simp: env_step_def split: py_action.splits sum.splits)
  from run_inner_inv [OF run] step_inv [OF st assms(2)] show ?thesis by simp
next
  case (AtDecision ps)
  with assms(1) obtain b where "run_inner ng (s\<lparr>env_buffer := b\<rparr>) = Some (Inr (s', r))"
    by (auto simp: env_step_def split: sum.splits)
  from run_inner_inv [OF this] assms(2) show ?thesis by simp
qed (use assms in \<open>auto simp: env_step_def\<close>)

lemma env_steps_inv:
  "env_steps ng as s = Some (Inr (s', rs)) \<Longrightarrow> inv (env_engine s) \<Longrightarrow> inv (env_engine s')"
proof (induction as arbitrary: s rs)
  case (Cons a as)
  from Cons.prems(1) obtain s1 r rs' where "env_step ng a s = Some (Inr (s1, r))"
    "env_steps ng as s1 = Some (Inr (s', rs'))" by (rule env_steps_Cons)
  with Cons.IH Cons.prems(2) env_step_inv show ?case by blast
qed simp

end

section \<open>Timed engines\<close>

text \<open>An engine that ends the episode exactly at its last tick, \<open>max_tick - 1\<close>.\<close>

locale timed_engine = engine_invariant +
  fixes max_tick :: int
  assumes post_step_end: "ng_post_step ng t w = Inr (w', e) \<Longrightarrow> inv w \<Longrightarrow> t < max_tick \<Longrightarrow> e \<longleftrightarrow> t + 1 = max_tick"
begin

lemma run_inner_time:
  assumes "run_inner ng s = Some (Inr (s', r))" "env_tick s < max_tick" "inv (env_engine s)"
  shows "env_tick s' < max_tick \<and> (snd (snd r) \<longrightarrow> env_tick s' + 1 = max_tick)"
  using assms(1)
proof (rule run_inner_rule [where I = "\<lambda>s. env_tick s < max_tick \<and> inv (env_engine s)" and
      P = "\<lambda>s' r. env_tick s' < max_tick \<and> (snd (snd r) \<longrightarrow> env_tick s' + 1 = max_tick)"], goal_cases)
  case (2 s b w ps s' r)
  with yield_decision_result [OF 2(4)] show ?case by simp
next
  case (3 s b w w1 s' r)
  from execute_inv [OF 3(2)] 3(1) have "inv w" by simp
  with 3 yield_final_result [OF 3(4)] post_step_end [OF 3(3)] show ?case by simp
next
  case (4 s b w w1 b2 w2)
  from execute_inv [OF 4(2)] 4(1) have "inv w" by simp
  with 4 post_step_end [OF 4(3)] post_step_inv [OF 4(3)] step_inv [OF 4(4)] show ?case by simp
qed (use assms in simp)

lemma env_step_time:
  assumes "env_step ng action s = Some (Inr (s', r))" "env_tick s < max_tick" "inv (env_engine s)"
    "env_gen s = AtFinal \<or> env_gen s = Closed \<longrightarrow> env_tick s + 1 = max_tick"
  shows "env_tick s' < max_tick \<and> (snd (snd r) \<longrightarrow> env_tick s' + 1 = max_tick)"
proof (cases "env_gen s")
  case NotStarted
  with assms(1) obtain b w where st: "ng_step ng (env_tick s) (env_buffer s, env_engine s) = Inr (b, w)"
    and "run_inner ng (s\<lparr>env_buffer := b, env_engine := w\<rparr>) = Some (Inr (s', r))"
    by (auto simp: env_step_def split: py_action.splits sum.splits)
  from run_inner_time [OF this(2)] step_inv [OF st assms(3)] assms(2) show ?thesis by simp
next
  case (AtDecision ps)
  with assms(1) obtain b where "run_inner ng (s\<lparr>env_buffer := b\<rparr>) = Some (Inr (s', r))"
    by (auto simp: env_step_def split: sum.splits)
  from run_inner_time [OF this] assms(2,3) show ?thesis by simp
qed (use assms in \<open>auto simp: env_step_def\<close>)

text \<open>An episode stops at the last tick and nowhere else.\<close>

lemma env_steps_time:
  assumes "env_steps ng as s = Some (Inr (s', rs))" "env_tick s < max_tick" "inv (env_engine s)"
    "env_gen s = AtFinal \<or> env_gen s = Closed \<longrightarrow> env_tick s + 1 = max_tick"
  shows "env_tick s' < max_tick \<and> ((\<exists>r \<in> set rs. snd (snd r)) \<longrightarrow> env_tick s' + 1 = max_tick)"
  using assms
proof (induction as arbitrary: s rs)
  case (Cons a as)
  from Cons.prems(1) obtain s1 r rs' where st: "env_step ng a s = Some (Inr (s1, r))"
    and rest: "env_steps ng as s1 = Some (Inr (s', rs'))" and rs: "rs = r # rs'" by (rule env_steps_Cons)
  from env_step_time [OF st Cons.prems(2-4)]
  have t1: "env_tick s1 < max_tick" "snd (snd r) \<longrightarrow> env_tick s1 + 1 = max_tick" by auto
  have g1: "env_gen s1 = AtFinal \<or> env_gen s1 = Closed \<longleftrightarrow> snd (snd r)"
    using env_step_protocol [OF st]
    by (cases r) (auto simp: reply_protocol_def phase_of_def split: gen_state.splits elim: protocol.cases)
  show ?case
  proof (cases "snd (snd r)")
    case True
    with g1 closed_stays [of s1 ng as] rest t1 show ?thesis by auto
  next
    case False
    with Cons.IH [OF rest t1(1) env_step_inv [OF st Cons.prems(3)]] g1 t1 rs show ?thesis by auto
  qed
qed simp

end

section \<open>Termination of an episode\<close>

text \<open>
  If every call of \<open>execute\<close> returns on the worlds that occur (those satisfying \<open>J\<close>), the call of the
  generator returns too: after at most \<open>max_tick - env_tick\<close> rounds it asks for a decision, ends the
  episode, or raises.
\<close>

text \<open>C39: If each call of execute returns and the engine ends the episode at its last tick,
  the loop of the environment over the ticks returns: it reaches a decision, an error or the end.\<close>

theorem run_inner_returns:
  assumes J: "J (env_buffer s, env_engine s)"
    and ex: "\<And>t x. J x \<Longrightarrow> \<exists>r. execute (ng_invoke ng) t x = Some r \<and>
        (\<forall>b w ps. r = Inr ((b, w), ps) \<longrightarrow> J (b, w))"
    and post: "\<And>t b w w' e. J (b, w) \<Longrightarrow> ng_post_step ng t w = Inr (w', e) \<Longrightarrow>
        J (b, w') \<and> (e \<longleftrightarrow> t + 1 = max_tick)"
    and step: "\<And>t x y. J x \<Longrightarrow> ng_step ng t x = Inr y \<Longrightarrow> J y"
    and t: "env_tick s < max_tick"
  shows "\<exists>r. run_inner ng s = Some r"
  using J t
proof (induction "nat (max_tick - env_tick s)" arbitrary: s rule: less_induct)
  case less
  obtain r where r: "execute (ng_invoke ng) (env_tick s) (env_buffer s, env_engine s) = Some r"
    and rJ: "\<And>b w ps. r = Inr ((b, w), ps) \<Longrightarrow> J (b, w)"
    using ex [OF less.prems(1)] by blast
  show ?case
  proof (cases r)
    case (Inl e)
    with r show ?thesis by (subst run_inner.simps) simp
  next
    case (Inr q)
    obtain b w ps where q: "q = ((b, w), ps)" by (metis prod.collapse)
    with Inr rJ have Jb: "J (b, w)" by blast
    show ?thesis
    proof (cases "ps = []")
      case False
      with r Inr q show ?thesis by (subst run_inner.simps) (simp add: Let_def)
    next
      case nil: True
      show ?thesis
      proof (cases "ng_post_step ng (env_tick s) w")
        case (Inl e)
        with r Inr q nil \<open>r = Inr q\<close> show ?thesis by (subst run_inner.simps) (simp add: Let_def)
      next
        case p: (Inr v)
        obtain w1 e where v: "v = (w1, e)" by (cases v)
        from post [OF Jb p [unfolded v]] have J1: "J (b, w1)" and e: "e \<longleftrightarrow> env_tick s + 1 = max_tick" by auto
        show ?thesis
        proof (cases e)
          case True
          with r Inr q nil p v show ?thesis by (subst run_inner.simps) (simp add: Let_def)
        next
          case go: False
          show ?thesis
          proof (cases "ng_step ng (env_tick s + 1) (b, w1)")
            case (Inl err)
            with r \<open>r = Inr q\<close> q nil p v go show ?thesis by (subst run_inner.simps) (simp add: Let_def)
          next
            case st: (Inr y)
            let ?s = "s\<lparr>env_tick := env_tick s + 1, env_buffer := fst y, env_engine := snd y\<rparr>"
            from step [OF J1 st] have "J (fst y, snd y)" by simp
            moreover have "env_tick ?s < max_tick" "nat (max_tick - env_tick ?s) < nat (max_tick - env_tick s)"
              using go e less.prems(2) by auto
            ultimately have "\<exists>r. run_inner ng ?s = Some r" using less.hyps by simp
            with r Inr q nil p v go st show ?thesis
              by (subst run_inner.simps) (cases y, simp add: Let_def)
          qed
        qed
      qed
    qed
  qed
qed

end
