(* ===== verification/SimSamples.thy ===== *)
theory SimSamples imports SimProps begin

text \<open>
  Concrete instances of the properties of \<open>SimUtils\<close> and \<open>SimProps\<close>: a table of ticks, a pair of
  named generators, and an engine without events whose episode is one tick long.
\<close>

text \<open>A result whose state is \<open>s\<close>, whatever the buffer next to it.\<close>

definition gives :: "('b \<times> 's) res \<Rightarrow> 's \<Rightarrow> bool" where
  "gives r s \<longleftrightarrow> (case r of Inl _ \<Rightarrow> False | Inr x \<Rightarrow> snd x = s)"

lemma gives_obtain:
  assumes "gives r s"
  obtains b where "r = Inr (b, s)"
  using assms by (cases r) (auto simp: gives_def)

section \<open>Ticks and generators\<close>

theorem frame_index_to_ticks_witness:
  "\<exists>table. frame_index_to_ticks 2 9 3 = Inr table \<and> distinct (map fst table) \<and>
     (\<forall>t i. (\<exists>ts. (i, ts) \<in> set table \<and> t \<in> set ts) \<longleftrightarrow>
        2 \<le> t \<and> t < 9 \<and> tick_to_frame_index 2 t 3 = Inr i)"
  by (rule frame_index_to_ticks_spec) simp_all

theorem ticks_frame_mapping_witness:
  "map_of (get_ticks_frame_index_mapping
      \<lparr>be_start_tick = 0, be_max_tick = 10, be_snapshot_resolution = 4, be_max_snapshots = None\<rparr> (Some [1])) 6 = Some 1"
  using ticks_frame_mapping_spec [of "\<lparr>be_start_tick = 0, be_max_tick = 10, be_snapshot_resolution = 4,
      be_max_snapshots = None\<rparr>" "[1]" 6]
  by (simp add: be_frame_index_def tick_to_frame_index_def floor_rat_div [of 4 6, simplified])

definition sample_random :: "int sim_random" where
  "sample_random = \<lparr>rand_instances = [(''a'', 7)], seed_dict = [(''a'', 7)], base_seed = 7\<rparr>"

theorem seed_create_commute_witness:
  "map_of (rand_instances (create_instance (\<lambda>n. n) ''b'' (sim_seed (\<lambda>n. n) 3 sample_random))) ''b'' =
     map_of (rand_instances (sim_seed (\<lambda>n. n) 3 (create_instance (\<lambda>n. n) ''b'' sample_random))) ''b''"
  using seed_create_commute [of sample_random "''b''" "\<lambda>n. n" 3 "''b''"]
  by (simp add: sample_random_def rand_ok_def dict_mem_def)

section \<open>The environment\<close>

definition idle_engine :: "(unit, unit, unit, unit, unit, unit) engine" where
  "idle_engine =
     \<lparr>ng_step = (\<lambda>t w. Inr w), ng_post_step = (\<lambda>t w. Inr (w, t + 1 = 2)), ng_invoke = (\<lambda>hn a w. Inr w),
      ng_snapshot = (\<lambda>fi w. w), ng_metrics = (\<lambda>w. ()), ng_reset = (\<lambda>keep_seed w. Some (Inr w)),
      ng_actions = (\<lambda>as. ())\<rparr>"

definition idle_buffer :: "(unit, unit, unit) event_buffer" where
  "idle_buffer =
     \<lparr>eb_heap = (\<lambda>_. new_event AtomEvent None None None None), eb_fresh = 0, pool_atom = [], pool_cascade = [],
      pool_count = 0, eb_pending = [], eb_handlers = [], eb_finished = [], eb_disable_finished = False,
      eb_record = False, eb_recorder_ep = 0, eb_rows = []\<rparr>"

definition idle_env :: "(unit, unit, unit, unit) env" where
  "idle_env = init_env 1 1 Sequential idle_buffer ()"

lemma idle_step:
  "env_step idle_engine NoAction idle_env = Some (Inr (idle_env\<lparr>env_gen := AtFinal\<rparr>, (Some (), NoDecision, True)))"
proof -
  have "execute (\<lambda>hn a w. Inr w) 1 (idle_buffer, ()) = Some (Inr ((idle_buffer, ()), []))"
    by (subst execute.simps) (simp add: idle_buffer_def)
  then show ?thesis
    by (simp add: env_step_def idle_env_def init_env_def idle_engine_def, subst run_inner.simps)
       (simp add: yield_final_def env_frame_index_def tick_to_frame_index_def Let_def)
qed

theorem done_is_final_witness:
  "\<exists>s2. env_steps idle_engine [NoAction, OneAction ()] (idle_env\<lparr>env_gen := AtFinal\<rparr>) =
     Some (Inr (s2, [(None, NoDecision, True), (None, NoDecision, True)])) \<and> env_tick s2 = 1"
  using done_is_final [OF idle_step, of "[NoAction, OneAction ()]"]
  by (auto simp: idle_env_def init_env_def)

theorem env_step_advance_witness: "advance idle_env (idle_env\<lparr>env_gen := AtFinal\<rparr>)"
  by (rule env_step_advance [OF idle_step])

theorem run_inner_returns_witness: "\<exists>r. run_inner idle_engine (idle_env\<lparr>env_tick := 0\<rparr>) = Some r"
proof (rule run_inner_returns [where J = "\<lambda>x. eb_pending (fst x) = []" and max_tick = 2])
  fix t and x :: "(unit, unit, unit, unit) world"
  assume "eb_pending (fst x) = []"
  then show "\<exists>r. execute (ng_invoke idle_engine) t x = Some r \<and> (\<forall>b w ps. r = Inr ((b, w), ps) \<longrightarrow> eb_pending (fst (b, w)) = [])"
    by (subst execute.simps) (cases x, simp)
qed (auto simp: idle_env_def init_env_def idle_buffer_def idle_engine_def)

end
