(* ===== verification/CimData.thy ===== *)
theory CimData imports SimUtils begin

text \<open>
  \<open>maro/data_lib/cim\<close>: the data collection of the container inventory scenario (\<open>entities.py\<close>), the
  numeric helpers (\<open>utils.py\<close>), the accessors over vessel stops and buffer ticks (the wrapper files),
  and the data containers that generate the orders of a tick (\<open>cim_data_container.py\<close>).

  \<open>random.Random\<close> belongs to the standard library: the record \<open>rng\<close> names the operations the code
  uses, \<open>Random(seed)\<close>, \<open>uniform\<close> and \<open>randint\<close>; \<open>rng_law\<close> is what the library documents.
\<close>

section \<open>Random draws\<close>

record 'r rng =
  rg_seeded :: "int \<Rightarrow> 'r"
  rg_uniform :: "'r \<Rightarrow> rat \<Rightarrow> rat \<Rightarrow> rat \<times> 'r"
  rg_randint :: "'r \<Rightarrow> int \<Rightarrow> int \<Rightarrow> int \<times> 'r"

definition rng_law :: "'r rng \<Rightarrow> bool" where
  "rng_law g \<longleftrightarrow>
     (\<forall>r a b. min a b \<le> fst (rg_uniform g r a b) \<and> fst (rg_uniform g r a b) \<le> max a b) \<and>
     (\<forall>r a b. a \<le> b \<longrightarrow> a \<le> fst (rg_randint g r a b) \<and> fst (rg_randint g r a b) \<le> b)"

definition ORDER_INIT_RAND_KEY :: string where "ORDER_INIT_RAND_KEY = ''order_init''"
definition ROUTE_INIT_RAND_KEY :: string where "ROUTE_INIT_RAND_KEY = ''route_init''"
definition ORDER_NUM_RAND_KEY :: string where "ORDER_NUM_RAND_KEY = ''order_number''"
definition BUFFER_TICK_RAND_KEY :: string where "BUFFER_TICK_RAND_KEY = ''buffer_time''"
definition DATA_CONTAINER_INIT_SEED_LIMIT :: int where "DATA_CONTAINER_INIT_SEED_LIMIT = 4096"

text \<open>\<open>random[key]\<close> creates the generator on first use; a draw advances the generator in place.\<close>

definition draw ::
  "'r rng \<Rightarrow> string \<Rightarrow> ('r \<Rightarrow> 'x \<times> 'r) \<Rightarrow> 'r sim_random \<Rightarrow> ('x \<times> 'r sim_random) res" where
  "draw g key pick s =
     bindE (get_random (rg_seeded g) key s) (\<lambda>(s1, r).
       let (x, r') = pick r in Inr (x, s1\<lparr>rand_instances := AList.update key r' (rand_instances s1)\<rparr>))"

section \<open>Helpers of utils.py\<close>

definition clip :: "rat \<Rightarrow> rat \<Rightarrow> rat \<Rightarrow> rat" where
  "clip min_val max_val value = max min_val (min max_val value)"

definition apply_noise ::
  "'r rng \<Rightarrow> rat \<Rightarrow> rat \<Rightarrow> string \<Rightarrow> 'r sim_random \<Rightarrow> (rat \<times> 'r sim_random) res" where
  "apply_noise g value noise key s =
     bindE (draw g key (\<lambda>r. rg_uniform g r (- noise) noise) s) (\<lambda>(x, s1). Inr (value + x, s1))"

definition list_sum_normalize :: "rat list \<Rightarrow> rat list" where
  "list_sum_normalize num_list =
     (let t = sum_list num_list in if t = 0 then num_list else map (\<lambda>d. d / t) num_list)"

section \<open>Entities\<close>

record noised_item =
  ni_index :: int
  ni_base :: rat
  ni_noise :: rat

record stop =
  st_index :: int
  st_arrival_tick :: int
  st_leave_tick :: int
  st_port_idx :: int
  st_vessel_idx :: int

record port_setting =
  ps_index :: int
  ps_name :: string
  ps_capacity :: int
  ps_empty :: int
  ps_empty_return_buffer :: noised_item
  ps_full_return_buffer :: noised_item
  ps_source_proportion :: noised_item
  ps_target_proportions :: "noised_item list"

record vessel_setting =
  vs_index :: int
  vs_name :: string
  vs_capacity :: int
  vs_route_name :: string
  vs_start_port_name :: "string option"
  vs_sailing_speed :: "rat option"
  vs_sailing_noise :: "rat option"
  vs_parking_duration :: "int option"
  vs_parking_noise :: "rat option"
  vs_empty :: int

record route_point =
  rp_index :: int
  rp_port_name :: string
  rp_distance_to_next_port :: int

datatype order_mode = FIXED | UNFIXED

record order =
  od_tick :: int
  od_src_port_idx :: int
  od_dest_port_idx :: int
  od_quantity :: int

record cim_data =
  cd_port_settings :: "port_setting list"
  cd_port_mapping :: "(string \<times> int) list"
  cd_vessel_settings :: "vessel_setting list"
  cd_vessel_mapping :: "(string \<times> int) list"
  cd_vessel_stops :: "stop list list"
  cd_routes :: "route_point list list"
  cd_route_mapping :: "(string \<times> int) list"
  cd_vessel_period :: "int list"
  cd_container_volume :: rat
  cd_past_stop_number :: int
  cd_future_stop_number :: int
  cd_max_tick :: int
  cd_seed :: int

record synthetic_data = cim_data +
  sd_total_containers :: int
  sd_order_mode :: order_mode
  sd_order_proportion :: "int list"

record real_data = cim_data +
  rd_orders :: "(int \<times> order list) list"

section \<open>Accessors over the stops\<close>

definition get_stop :: "'z cim_data_scheme \<Rightarrow> int \<Rightarrow> int \<Rightarrow> stop res" where
  "get_stop data vessel_idx loc_idx =
     bindE (py_get (cd_vessel_stops data) vessel_idx) (\<lambda>stops. py_get stops loc_idx)"

text \<open>The port the vessel is parking at is not a past (or future) stop.\<close>

definition last_stop_index :: "int \<Rightarrow> int \<Rightarrow> int" where
  "last_stop_index last_loc_idx loc_idx = loc_idx + (if last_loc_idx = loc_idx then 0 else - 1)"

definition past_stops :: "'z cim_data_scheme \<Rightarrow> int \<Rightarrow> int \<Rightarrow> int \<Rightarrow> stop option list res" where
  "past_stops data vessel_idx last_loc_idx loc_idx =
     (let n = cd_past_stop_number data;
          start = max (last_stop_index last_loc_idx loc_idx - n + 1) 0
      in bindE (py_get (cd_vessel_stops data) vessel_idx) (\<lambda>stops.
           let l = py_slice stops start loc_idx
           in Inr (replicate (nat (n - int (length l))) None @ map Some l)))"

definition reachable_stops :: "'z cim_data_scheme \<Rightarrow> int \<Rightarrow> int \<Rightarrow> int \<Rightarrow> (int \<times> int) list res" where
  "reachable_stops data vessel_idx route_idx next_loc_idx =
     bindE (py_get (cd_routes data) route_idx) (\<lambda>route.
       bindE (py_get (cd_vessel_stops data) vessel_idx) (\<lambda>stops.
         Inr (map (\<lambda>s. (st_port_idx s, st_arrival_tick s))
                (py_slice stops (next_loc_idx + 1) (next_loc_idx + 1 + int (length route))))))"

section \<open>Prediction of future stops\<close>

definition ceil_div :: "int \<Rightarrow> rat \<Rightarrow> int res" where
  "ceil_div distance speed =
     (if speed = 0 then Inl ZeroDivisionError else Inr \<lceil>of_int distance / speed\<rceil>)"

fun index_of :: "string list \<Rightarrow> string option \<Rightarrow> int \<Rightarrow> int res" where
  "index_of [] x i = Inl ValueError"
| "index_of (y # ys) x i = (if Some y = x then Inr i else index_of ys x (i + 1))"

definition route_of :: "'z cim_data_scheme \<Rightarrow> vessel_setting \<Rightarrow> route_point list res" where
  "route_of data vessel =
     bindE (dict_get (cd_route_mapping data) (vs_route_name vessel)) (py_get (cd_routes data))"

definition make_vessel_start_port_offsets :: "'z cim_data_scheme \<Rightarrow> int list res" where
  "make_vessel_start_port_offsets data =
     mapE (\<lambda>vessel. bindE (route_of data vessel) (\<lambda>route_points.
             index_of (map rp_port_name route_points) (vs_start_port_name vessel) 0))
       (cd_vessel_settings data)"

fun predict_loop ::
  "(string \<times> int) list \<Rightarrow> route_point list \<Rightarrow> vessel_setting \<Rightarrow> int \<Rightarrow> int list \<Rightarrow> int \<Rightarrow> stop list res" where
  "predict_loop port_mapping route_points vessel vessel_idx [] arrival_tick = Inr []"
| "predict_loop port_mapping route_points vessel vessel_idx (loc_idx # locs) arrival_tick =
     bindE (py_get route_points (loc_idx mod int (length route_points))) (\<lambda>next_route_info.
     bindE (py_get route_points ((loc_idx - 1) mod int (length route_points))) (\<lambda>last_route_info.
     bindE (dict_get port_mapping (rp_port_name next_route_info)) (\<lambda>port_idx.
     bindE (need (vs_sailing_speed vessel)) (\<lambda>speed.
     bindE (ceil_div (rp_distance_to_next_port last_route_info) speed) (\<lambda>sailing.
     bindE (need (vs_parking_duration vessel)) (\<lambda>duration.
       let tick = arrival_tick + (duration + sailing)
       in bindE (predict_loop port_mapping route_points vessel vessel_idx locs tick) (\<lambda>rest.
            Inr (\<lparr>st_index = - 1, st_arrival_tick = tick, st_leave_tick = tick + duration,
                  st_port_idx = port_idx, st_vessel_idx = vessel_idx\<rparr> # rest))))))))"

definition predict_future_stops ::
  "'z cim_data_scheme \<Rightarrow> int list \<Rightarrow> int \<Rightarrow> int \<Rightarrow> int \<Rightarrow> stop list res" where
  "predict_future_stops data offsets vessel_idx last_stop_idx stop_number =
     bindE (py_get (cd_vessel_settings data) vessel_idx) (\<lambda>vessel.
     bindE (route_of data vessel) (\<lambda>route_points.
     bindE (get_stop data vessel_idx last_stop_idx) (\<lambda>last_stop.
     bindE (py_get offsets vessel_idx) (\<lambda>offset.
       if route_points = [] then Inl ZeroDivisionError
       else let last_loc_idx = (offset + last_stop_idx) mod int (length route_points)
            in predict_loop (cd_port_mapping data) route_points vessel vessel_idx
                 [last_loc_idx + 1..last_loc_idx + stop_number] (st_arrival_tick last_stop)))))"

definition future_stops ::
  "'z cim_data_scheme \<Rightarrow> int list \<Rightarrow> int \<Rightarrow> int \<Rightarrow> int \<Rightarrow> stop list res" where
  "future_stops data offsets vessel_idx last_loc_idx loc_idx =
     predict_future_stops data offsets vessel_idx (last_stop_index last_loc_idx loc_idx)
       (cd_future_stop_number data)"

definition planned_stops ::
  "'z cim_data_scheme \<Rightarrow> int list \<Rightarrow> int \<Rightarrow> int \<Rightarrow> int \<Rightarrow> (int \<times> int) list res" where
  "planned_stops data offsets vessel_idx route_idx next_loc_idx =
     bindE (py_get (cd_routes data) route_idx) (\<lambda>route.
     bindE (predict_future_stops data offsets vessel_idx next_loc_idx (int (length route))) (\<lambda>stops.
       Inr (map (\<lambda>s. (st_port_idx s, st_arrival_tick s)) stops)))"

section \<open>Buffer ticks\<close>

definition buffer_ticks ::
  "'r rng \<Rightarrow> (port_setting \<Rightarrow> noised_item) \<Rightarrow> 'z cim_data_scheme \<Rightarrow> int \<Rightarrow> 'r sim_random
   \<Rightarrow> (int \<times> 'r sim_random) res" where
  "buffer_ticks g attribute_func data port_idx s =
     bindE (py_get (cd_port_settings data) port_idx) (\<lambda>port.
       let buffer_setting = attribute_func port
       in bindE (apply_noise g (ni_base buffer_setting) (ni_noise buffer_setting) BUFFER_TICK_RAND_KEY s)
            (\<lambda>(x, s1). Inr (\<lceil>x\<rceil>, s1)))"

section \<open>Orders of a tick\<close>

text \<open>The loop over the targets of one source port: \<open>ts\<close> pairs each target with its normalised share.\<close>

fun dispatch_targets :: "int \<Rightarrow> int \<Rightarrow> int \<Rightarrow> (noised_item \<times> rat) list \<Rightarrow> int \<Rightarrow> order list" where
  "dispatch_targets tick port_idx order_num [] target_remaining_orders = []"
| "dispatch_targets tick port_idx order_num ((target, share) # ts) target_remaining_orders =
     (let cur_num = min \<lceil>of_int order_num * share\<rceil> target_remaining_orders
      in (if 0 < cur_num
          then [\<lparr>od_tick = tick, od_src_port_idx = port_idx, od_dest_port_idx = ni_index target,
                 od_quantity = cur_num\<rparr>]
          else []) @
         dispatch_targets tick port_idx order_num ts (target_remaining_orders - cur_num))"

fun noised_list ::
  "'r rng \<Rightarrow> noised_item list \<Rightarrow> 'r sim_random \<Rightarrow> (rat list \<times> 'r sim_random) res" where
  "noised_list g [] s = Inr ([], s)"
| "noised_list g (i # is) s =
     bindE (apply_noise g (ni_base i) (ni_noise i) ORDER_NUM_RAND_KEY s) (\<lambda>(x, s1).
       bindE (noised_list g is s1) (\<lambda>(xs, s2). Inr (x # xs, s2)))"

fun gen_source_orders ::
  "'r rng \<Rightarrow> int \<Rightarrow> int \<Rightarrow> (port_setting \<times> rat) list \<Rightarrow> int \<Rightarrow> int \<Rightarrow> 'r sim_random
   \<Rightarrow> (order list \<times> 'r sim_random) res" where
  "gen_source_orders g tick orders_to_gen [] port_idx remaining_orders s = Inr ([], s)"
| "gen_source_orders g tick orders_to_gen ((port, share) # ps) port_idx remaining_orders s =
     (if remaining_orders = 0 then Inr ([], s)
      else
        bindE (noised_list g (ps_target_proportions port) s) (\<lambda>(noised, s1).
          let cur_port_order_num = min \<lceil>of_int orders_to_gen * share\<rceil> remaining_orders;
              orders = (if 0 < cur_port_order_num
                        then dispatch_targets tick port_idx cur_port_order_num
                               (zip (ps_target_proportions port) (list_sum_normalize noised))
                               cur_port_order_num
                        else [])
          in bindE (gen_source_orders g tick orders_to_gen ps (port_idx + 1)
                      (remaining_orders - cur_port_order_num) s1)
               (\<lambda>(rest, s2). Inr (orders @ rest, s2))))"

definition gen_orders ::
  "'r rng \<Rightarrow> 'z synthetic_data_scheme \<Rightarrow> int \<Rightarrow> int \<Rightarrow> 'r sim_random
   \<Rightarrow> (order list \<times> 'r sim_random) res" where
  "gen_orders g data tick total_empty_container s =
     bindE (py_get (sd_order_proportion data) tick) (\<lambda>proportion.
       let delta = sd_total_containers data - total_empty_container;
           unfixed = (sd_order_mode data = UNFIXED)
       in if unfixed \<and> proportion \<le> delta then Inr ([], s)
          else
            let orders_to_gen = (if unfixed then proportion - delta else proportion)
            in bindE (noised_list g (map ps_source_proportion (cd_port_settings data)) s) (\<lambda>(noised, s1).
                 bindE (gen_source_orders g tick orders_to_gen
                          (zip (cd_port_settings data) (list_sum_normalize noised)) 0 orders_to_gen s1)
                   (\<lambda>(order_list, s2).
                      assertE (sum_list (map od_quantity order_list) = orders_to_gen)
                        (Inr (order_list, s2)))))"

text \<open>
  The containers: \<open>reset\<close> only marks the seeds; the next \<open>get_orders\<close> resets them.  A synthetic
  container resets the order generator too.
\<close>

record 'r container_state =
  cs_is_need_reset_seed :: bool
  cs_random :: "'r sim_random"

definition container_reset :: "'r container_state \<Rightarrow> 'r container_state" where
  "container_reset c = c\<lparr>cs_is_need_reset_seed := True\<rparr>"

definition base_reset_seed :: "'r rng \<Rightarrow> 'r sim_random \<Rightarrow> 'r sim_random res" where
  "base_reset_seed g s = reset_seed (rg_seeded g) BUFFER_TICK_RAND_KEY s"

definition synthetic_reset_seed :: "'r rng \<Rightarrow> 'r sim_random \<Rightarrow> 'r sim_random res" where
  "synthetic_reset_seed g s = bindE (base_reset_seed g s) (reset_seed (rg_seeded g) ORDER_NUM_RAND_KEY)"

definition reset_if_needed ::
  "('r sim_random \<Rightarrow> 'r sim_random res) \<Rightarrow> 'r container_state \<Rightarrow> 'r container_state res" where
  "reset_if_needed do_reset c =
     (if cs_is_need_reset_seed c
      then bindE (do_reset (cs_random c)) (\<lambda>s. Inr \<lparr>cs_is_need_reset_seed = False, cs_random = s\<rparr>)
      else Inr c)"

definition synthetic_get_orders ::
  "'r rng \<Rightarrow> 'z synthetic_data_scheme \<Rightarrow> int \<Rightarrow> int \<Rightarrow> 'r container_state
   \<Rightarrow> (order list \<times> 'r container_state) res" where
  "synthetic_get_orders g data tick total_empty_container c =
     bindE (reset_if_needed (synthetic_reset_seed g) c) (\<lambda>c1.
       if cd_max_tick data \<le> tick then Inr ([], c1)
       else bindE (gen_orders g data tick total_empty_container (cs_random c1)) (\<lambda>(os, s).
              Inr (os, c1\<lparr>cs_random := s\<rparr>)))"

definition real_get_orders ::
  "'r rng \<Rightarrow> 'z real_data_scheme \<Rightarrow> int \<Rightarrow> int \<Rightarrow> 'r container_state
   \<Rightarrow> (order list \<times> 'r container_state) res" where
  "real_get_orders g data tick total_empty_container c =
     bindE (reset_if_needed (base_reset_seed g) c) (\<lambda>c1.
       if cd_max_tick data \<le> tick then Inr ([], c1)
       else Inr ((case map_of (rd_orders data) tick of Some os \<Rightarrow> os | None \<Rightarrow> []), c1))"

end
