(* ===== verification/CimDataProps.thy ===== *)
theory CimDataProps imports CimData begin

text \<open>
  Properties of the data layer of the container inventory scenario: draws and the independence of the
  named generators, the past-stop window, the predicted stops, and the generation of a tick's orders.
\<close>

section \<open>Draws\<close>

lemma draw_present:
  assumes "map_of (rand_instances s) key = Some r"
  shows "draw g key pick s =
    Inr (fst (pick r), s\<lparr>rand_instances := AList.update key (snd (pick r)) (rand_instances s)\<rparr>)"
  using assms
  by (simp add: draw_def get_random_def dict_mem_map_of dict_get_def split_beta Let_def)

lemma draw_total:
  obtains r s1 where "get_random (rg_seeded g) key s = Inr (s1, r)"
    "draw g key pick s =
      Inr (fst (pick r), s1\<lparr>rand_instances := AList.update key (snd (pick r)) (rand_instances s1)\<rparr>)"
proof -
  let ?s1 = "if dict_mem key (rand_instances s) then s else create_instance (rg_seeded g) key s"
  have "dict_mem key (rand_instances ?s1)"
    by (auto simp: create_instance_def Let_def dict_mem_map_of)
  then obtain r where "map_of (rand_instances ?s1) key = Some r" by (rule dict_mem_obtain)
  then have "get_random (rg_seeded g) key s = Inr (?s1, r)"
    by (simp add: get_random_def Let_def dict_get_def)
  with that show thesis by (simp add: draw_def split_beta)
qed

lemma apply_noise_total:
  assumes "rng_law g"
  obtains x s' where "apply_noise g v n key s = Inr (v + x, s')" "\<bar>x\<bar> \<le> \<bar>n\<bar>"
proof -
  obtain r s1 where "draw g key (\<lambda>r. rg_uniform g r (- n) n) s =
      Inr (fst (rg_uniform g r (- n) n),
        s1\<lparr>rand_instances := AList.update key (snd (rg_uniform g r (- n) n)) (rand_instances s1)\<rparr>)"
    by (rule draw_total)
  moreover have "\<bar>fst (rg_uniform g r (- n) n)\<bar> \<le> \<bar>n\<bar>"
    using assms [unfolded rng_law_def, THEN conjunct1, rule_format, of "- n" n r]
    by (auto simp: min_def max_def split: if_splits)
  ultimately show thesis using that by (simp add: apply_noise_def)
qed

lemma apply_noise_present:
  assumes "map_of (rand_instances s) key = Some r"
  shows "apply_noise g v n key s =
    Inr (v + fst (rg_uniform g r (- n) n),
      s\<lparr>rand_instances := AList.update key (snd (rg_uniform g r (- n) n)) (rand_instances s)\<rparr>)"
  by (simp add: apply_noise_def draw_present [OF assms])

text \<open>Drawing buffer ticks leaves every other generator in use where it was.\<close>

lemma draw_other:
  assumes "draw g key pick s = Inr (x, s')" "k \<noteq> key" "map_of (rand_instances s) k = Some r"
  shows "map_of (rand_instances s') k = Some r"
  using assms
  by (auto simp: draw_def get_random_def create_instance_def res_simps Let_def split_beta split: if_splits)

section \<open>Past stops\<close>

theorem past_stops_window:
  assumes "py_get (cd_vessel_stops data) v = Inr stops" "0 \<le> loc" "loc \<le> int (length stops)"
    and "0 \<le> cd_past_stop_number data"
  shows "\<exists>m. past_stops data v last_loc loc =
           Inr (replicate (nat (cd_past_stop_number data) - m) None @ map Some (take m (drop (nat loc - m) stops))) \<and>
         m = min (nat loc) (nat (cd_past_stop_number data - (if last_loc = loc then 1 else 0)))"
proof -
  let ?n = "cd_past_stop_number data"
  let ?k = "?n - (if last_loc = loc then 1 else 0)"
  let ?s = "max (last_stop_index last_loc loc - ?n + 1) 0"
  define m where "m = min (nat loc) (nat ?k)"
  have m: "int m = min loc (max 0 ?k)" using assms(2) by (auto simp: m_def)
  have s: "?s = max (loc - ?k) 0"
    by (cases "last_loc = loc") (simp_all add: last_stop_index_def algebra_simps)
  have "past_stops data v last_loc loc =
      Inr (replicate (nat ?n - m) None @ map Some (take m (drop (nat loc - m) stops)))"
  proof (cases "?s \<le> loc")
    case True
    have i: "?s = loc - int m" using True assms(2,4) unfolding s m by linarith
    have mle: "m \<le> nat loc" by (simp add: m_def)
    have d: "nat loc - nat ?s = m" "nat ?s = nat loc - m" unfolding i using assms(2) mle by auto
    have sl: "py_slice stops ?s loc = take m (drop (nat loc - m) stops)"
      using True d by (subst py_slice_nonneg) (simp_all only: max.cobounded2 d)
    have "length (take m (drop (nat loc - m) stops)) = m" using assms(2,3) mle by simp
    then have n: "nat (?n - int (length (take m (drop (nat loc - m) stops)))) = nat ?n - m" by simp
    show ?thesis unfolding past_stops_def Let_def sl assms(1) bindE_Inr n ..
  next
    case False
    then have z: "?n = 0" "last_loc = loc" "?s = loc + 1" "m = 0"
      using s assms(2,4) by (auto simp: m_def split: if_splits)
    then have "py_slice stops ?s loc = []" using assms(2)
      by (auto simp: py_slice_def slice_bound_def Let_def)
    with z assms(1,2) show ?thesis by (simp add: past_stops_def Let_def last_stop_index_def)
  qed
  then show ?thesis by (auto simp: m_def)
qed

text \<open>The list of past stops always has the configured length, padded in front, and holds
  only stops of the vessel.\<close>

corollary past_stops_length:
  assumes "py_get (cd_vessel_stops data) v = Inr stops" "0 \<le> loc" "loc \<le> int (length stops)"
    and "0 \<le> cd_past_stop_number data"
  shows "\<exists>l. past_stops data v last_loc loc = Inr l \<and> length l = nat (cd_past_stop_number data) \<and>
           (\<forall>s \<in> set l. \<forall>x. s = Some x \<longrightarrow> x \<in> set stops)"
proof -
  from past_stops_window [OF assms, of last_loc] obtain m where
    p: "past_stops data v last_loc loc =
      Inr (replicate (nat (cd_past_stop_number data) - m) None @ map Some (take m (drop (nat loc - m) stops)))"
    and m: "m = min (nat loc) (nat (cd_past_stop_number data - (if last_loc = loc then 1 else 0)))" by blast
  from m assms(2,3) have "m \<le> nat (cd_past_stop_number data)" "m \<le> nat loc" "nat loc \<le> length stops" by auto
  moreover from this have "m \<le> length (drop (nat loc - m) stops)" by simp
  ultimately have "m \<le> nat (cd_past_stop_number data)" "m \<le> length (drop (nat loc - m) stops)" by simp_all
  with p show ?thesis by (auto dest!: in_set_takeD in_set_dropD)
qed

section \<open>Prediction\<close>

text \<open>What the prediction needs of the configuration: known ports, positive speed, parking of at least
  one tick, no negative distance.\<close>

definition route_ok :: "(string \<times> int) list \<Rightarrow> route_point list \<Rightarrow> bool" where
  "route_ok port_mapping route_points \<longleftrightarrow> route_points \<noteq> [] \<and>
     list_all (\<lambda>p. dict_mem (rp_port_name p) port_mapping \<and> 0 \<le> rp_distance_to_next_port p) route_points"

definition speed_ok :: "vessel_setting \<Rightarrow> bool" where
  "speed_ok vessel \<longleftrightarrow> (case (vs_sailing_speed vessel, vs_parking_duration vessel) of
     (Some speed, Some duration) \<Rightarrow> 0 < speed \<and> 0 < duration | _ \<Rightarrow> False)"

lemma py_get_mod: "xs \<noteq> [] \<Longrightarrow> py_get xs (i mod int (length xs)) = Inr (xs ! nat (i mod int (length xs)))"
  by (rule py_get_nonneg) auto

lemma route_at:
  assumes "route_ok pm rps"
  obtains p port where "py_get rps (i mod int (length rps)) = Inr p"
    "p = rps ! nat (i mod int (length rps))" "0 \<le> rp_distance_to_next_port p"
    "dict_get pm (rp_port_name p) = Inr port"
proof -
  let ?p = "rps ! nat (i mod int (length rps))"
  from assms have ne: "rps \<noteq> []" by (simp add: route_ok_def)
  then have "?p \<in> set rps" by (intro nth_mem) (simp add: nat_less_iff)
  with assms have "dict_mem (rp_port_name ?p) pm" "0 \<le> rp_distance_to_next_port ?p"
    by (auto simp: route_ok_def list_all_iff)
  with that py_get_mod [OF ne] show thesis by (force simp: dict_get_def elim: dict_mem_obtain)
qed

lemma predict_loop_spec:
  assumes "route_ok pm rps" "speed_ok vessel"
  shows "\<exists>ss. predict_loop pm rps vessel v locs tick = Inr ss \<and> length ss = length locs \<and>
           sorted_wrt (<) (tick # map st_arrival_tick ss) \<and>
           list_all2 (\<lambda>loc s. dict_get pm (rp_port_name (rps ! nat (loc mod int (length rps)))) = Inr (st_port_idx s))
             locs ss \<and>
           list_all (\<lambda>s. st_arrival_tick s < st_leave_tick s) ss"
proof (induction locs arbitrary: tick)
  case (Cons loc locs)
  obtain p port where p: "py_get rps (loc mod int (length rps)) = Inr p"
    "p = rps ! nat (loc mod int (length rps))" "dict_get pm (rp_port_name p) = Inr port"
    using route_at [OF assms(1)] .
  obtain q where q: "py_get rps ((loc - 1) mod int (length rps)) = Inr q" "0 \<le> rp_distance_to_next_port q"
    using route_at [OF assms(1)] by metis
  obtain speed duration where sd: "vs_sailing_speed vessel = Some speed"
    "vs_parking_duration vessel = Some duration" "0 < speed" "0 < duration"
    using assms(2) by (auto simp: speed_ok_def split: option.splits)
  have "0 \<le> \<lceil>of_int (rp_distance_to_next_port q) / speed\<rceil>" using q(2) sd(3)
    by (smt (verit, ccfv_threshold) ceiling_less_one ceiling_mono ceiling_zero divide_nonneg_pos of_int_0_le_iff)
  with sd(4) have lt: "tick < tick + (duration + \<lceil>of_int (rp_distance_to_next_port q) / speed\<rceil>)" by linarith
  define tick1 where "tick1 = tick + (duration + \<lceil>of_int (rp_distance_to_next_port q) / speed\<rceil>)"
  with lt have lt: "tick < tick1" by simp
  obtain ss where ss: "predict_loop pm rps vessel v locs tick1 = Inr ss" "length ss = length locs"
    "sorted_wrt (<) (tick1 # map st_arrival_tick ss)"
    "list_all2 (\<lambda>loc s. dict_get pm (rp_port_name (rps ! nat (loc mod int (length rps)))) = Inr (st_port_idx s))
       locs ss"
    "list_all (\<lambda>s. st_arrival_tick s < st_leave_tick s) ss" using Cons.IH [of tick1] by blast
  let ?st = "\<lparr>st_index = - 1, st_arrival_tick = tick1, st_leave_tick = tick1 + duration,
               st_port_idx = port, st_vessel_idx = v\<rparr>"
  have "predict_loop pm rps vessel v (loc # locs) tick = Inr (?st # ss)"
    using p(1,3) q(1) sd(1-3) ss(1) by (simp add: Let_def need_def ceil_div_def tick1_def)
  moreover have "sorted_wrt (<) (tick # map st_arrival_tick (?st # ss))"
    using ss(3) lt by (auto intro: less_trans)
  ultimately show ?case using ss sd(4) p by (intro exI [of _ "?st # ss"]) simp
qed simp

text \<open>The predicted stops follow the route from the last stop on, one port after the other, and their
  arrival ticks increase.\<close>

text \<open>The predicted stops follow the route from the last stop on, one after the other, as
  many as asked for, with strictly increasing arrival ticks.\<close>

theorem predict_future_stops_spec:
  assumes v: "py_get (cd_vessel_settings data) v = Inr vessel" "speed_ok vessel"
    and r: "route_of data vessel = Inr rps" "route_ok (cd_port_mapping data) rps"
    and l: "get_stop data v lst = Inr last_stop" and o: "py_get offsets v = Inr offset" and n: "0 \<le> n"
  shows "\<exists>ss. predict_future_stops data offsets v lst n = Inr ss \<and> length ss = nat n \<and>
           sorted_wrt (<) (st_arrival_tick last_stop # map st_arrival_tick ss) \<and>
           (\<forall>i < nat n. dict_get (cd_port_mapping data)
              (rp_port_name (rps ! nat ((offset + lst + 1 + int i) mod int (length rps)))) =
              Inr (st_port_idx (ss ! i)))"
proof -
  let ?len = "int (length rps)"
  let ?loc = "(offset + lst) mod ?len"
  have ne: "rps \<noteq> []" using r(2) by (simp add: route_ok_def)
  from predict_loop_spec [OF r(2) v(2), of v "[?loc + 1..?loc + n]" "st_arrival_tick last_stop"]
  obtain ss where ss: "predict_loop (cd_port_mapping data) rps vessel v [?loc + 1..?loc + n]
      (st_arrival_tick last_stop) = Inr ss" "length ss = nat n"
    "sorted_wrt (<) (st_arrival_tick last_stop # map st_arrival_tick ss)"
    and p: "list_all2 (\<lambda>loc s. dict_get (cd_port_mapping data)
        (rp_port_name (rps ! nat (loc mod ?len))) = Inr (st_port_idx s)) [?loc + 1..?loc + n] ss"
    using n by auto
  have "dict_get (cd_port_mapping data) (rp_port_name (rps ! nat ((offset + lst + 1 + int i) mod ?len))) =
      Inr (st_port_idx (ss ! i))" if "i < nat n" for i
  proof -
    have "[?loc + 1..?loc + n] ! i = ?loc + 1 + int i" using that by (simp add: nth_upto)
    moreover have "(?loc + 1 + int i) mod ?len = (offset + lst + 1 + int i) mod ?len"
      by (metis mod_add_left_eq add.assoc)
    ultimately show ?thesis using list_all2_nthD2 [OF p, of i] that ss(2) by simp
  qed
  with ss v(1) r(1) l o ne show ?thesis by (auto simp: predict_future_stops_def Let_def)
qed

section \<open>Orders\<close>

text \<open>Noise never exceeds the base, and some item is positive for certain.\<close>

definition proportions_ok :: "noised_item list \<Rightarrow> bool" where
  "proportions_ok is \<longleftrightarrow> list_all (\<lambda>i. \<bar>ni_noise i\<bar> \<le> ni_base i) is \<and>
     list_ex (\<lambda>i. \<bar>ni_noise i\<bar> < ni_base i) is"

lemma noised_list_total:
  assumes "rng_law g" "list_all (\<lambda>i. \<bar>ni_noise i\<bar> \<le> ni_base i) is"
  obtains xs s' where "noised_list g is s = Inr (xs, s')" "length xs = length is"
    "list_all (\<lambda>x. 0 \<le> x) xs" "list_ex (\<lambda>i. \<bar>ni_noise i\<bar> < ni_base i) is \<Longrightarrow> 0 < sum_list xs"
  using assms(2)
proof (induction "is" arbitrary: s thesis)
  case (Cons i "is")
  obtain x s1 where x: "apply_noise g (ni_base i) (ni_noise i) ORDER_NUM_RAND_KEY s = Inr (ni_base i + x, s1)"
    "\<bar>x\<bar> \<le> \<bar>ni_noise i\<bar>" using assms(1) by (rule apply_noise_total)
  from Cons.prems(2) have le: "\<bar>ni_noise i\<bar> \<le> ni_base i" and rest: "list_all (\<lambda>i. \<bar>ni_noise i\<bar> \<le> ni_base i) is" by auto
  obtain xs s2 where xs: "noised_list g is s1 = Inr (xs, s2)" "length xs = length is"
    "list_all (\<lambda>x. 0 \<le> x) xs" "list_ex (\<lambda>i. \<bar>ni_noise i\<bar> < ni_base i) is \<Longrightarrow> 0 < sum_list xs"
    using Cons.IH [OF _ rest] by blast
  have "0 \<le> ni_base i + x" "\<bar>ni_noise i\<bar> < ni_base i \<Longrightarrow> 0 < ni_base i + x" using x(2) le by linarith+
  moreover have "0 \<le> sum_list xs" using xs(3) by (intro sum_list_nonneg) (auto simp: list_all_iff)
  ultimately have "list_ex (\<lambda>i. \<bar>ni_noise i\<bar> < ni_base i) (i # is) \<Longrightarrow> 0 < sum_list ((ni_base i + x) # xs)"
    using xs(4) by (auto simp: add_pos_nonneg add_nonneg_pos)
  with Cons.prems(1) [of "(ni_base i + x) # xs" s2] x xs \<open>0 \<le> ni_base i + x\<close> show ?case by simp
qed simp

lemma noised_list_ok:
  assumes "rng_law g" "proportions_ok is"
  shows "\<exists>xs s'. noised_list g is s = Inr (xs, s') \<and> length xs = length is \<and>
    list_all (\<lambda>x. 0 \<le> x) xs \<and> 0 < sum_list xs"
proof -
  from assms(2) have "list_all (\<lambda>i. \<bar>ni_noise i\<bar> \<le> ni_base i) is"
    and ex: "list_ex (\<lambda>i. \<bar>ni_noise i\<bar> < ni_base i) is" by (simp_all add: proportions_ok_def)
  from assms(1) this(1) show ?thesis
  proof (rule noised_list_total)
    fix xs s' assume "noised_list g is s = Inr (xs, s')" "length xs = length is" "list_all (\<lambda>x. 0 \<le> x) xs"
      "list_ex (\<lambda>i. \<bar>ni_noise i\<bar> < ni_base i) is \<Longrightarrow> 0 < sum_list xs"
    with ex show ?thesis by blast
  qed
qed

lemma sum_list_divide: "sum_list (map (\<lambda>d. d / t) xs) = sum_list xs / (t :: rat)"
  by (induction xs) (simp_all add: add_divide_distrib)

lemma normalize_ok:
  assumes "list_all (\<lambda>x. 0 \<le> x) xs" "0 < sum_list xs"
  shows "sum_list (list_sum_normalize xs) = 1" "list_all (\<lambda>x. 0 \<le> x) (list_sum_normalize xs)"
    "length (list_sum_normalize xs) = length xs"
  using assms by (auto simp: list_sum_normalize_def Let_def sum_list_divide list_all_iff)

definition order_from :: "int \<Rightarrow> int \<Rightarrow> noised_item list \<Rightarrow> order \<Rightarrow> bool" where
  "order_from tick port_idx targets od \<longleftrightarrow> od_tick od = tick \<and> od_src_port_idx od = port_idx \<and>
     od_dest_port_idx od \<in> ni_index ` set targets \<and> 0 < od_quantity od"

lemma ceil_min_bounds:
  assumes "0 \<le> rem" "0 \<le> share" "0 \<le> n" "of_int rem \<le> of_int n * (share + rest)" "0 \<le> (rest :: rat)"
  defines "c \<equiv> min \<lceil>of_int n * share\<rceil> (rem :: int)"
  shows "0 \<le> c" "c \<le> rem" "of_int (rem - c) \<le> of_int n * rest"
proof -
  have p: "0 \<le> of_int n * share" "0 \<le> of_int n * rest" using assms by simp_all
  then have "0 \<le> \<lceil>of_int n * share\<rceil>" by linarith
  then show "0 \<le> c" using assms(1) by (simp add: c_def)
  show "c \<le> rem" by (simp add: c_def)
  have le: "of_int n * share \<le> of_int \<lceil>of_int n * share\<rceil>" by (rule le_of_int_ceiling)
  have d: "of_int rem \<le> of_int n * share + of_int n * rest" using assms(4) by (simp add: distrib_left)
  show "of_int (rem - c) \<le> of_int n * rest"
  proof (cases "\<lceil>of_int n * share\<rceil> \<le> rem")
    case True
    then have "c = \<lceil>of_int n * share\<rceil>" by (simp add: c_def)
    then have "of_int (rem - c) = (of_int rem - of_int \<lceil>of_int n * share\<rceil> :: rat)" by simp
    with le d show ?thesis by linarith
  qed (use p in \<open>simp add: c_def\<close>)
qed

lemma dispatch_targets_spec:
  assumes "0 \<le> rem" "0 \<le> n" "list_all (\<lambda>(t, share). 0 \<le> share) ts"
    and "of_int rem \<le> of_int n * sum_list (map snd ts)"
  shows "sum_list (map od_quantity (dispatch_targets tick p n ts rem)) = rem \<and>
         list_all (order_from tick p (map fst ts)) (dispatch_targets tick p n ts rem)"
  using assms
proof (induction tick p n ts rem rule: dispatch_targets.induct)
  case (1 tick p n rem)
  then show ?case by simp
next
  case (2 tick p n t share ts rem)
  define c where "c = min \<lceil>of_int n * share\<rceil> rem"
  have "0 \<le> sum_list (map snd ts)" using 2(4) by (intro sum_list_nonneg) (auto simp: list_all_iff)
  with ceil_min_bounds [of rem share n "sum_list (map snd ts)"] 2(2-5)
  have c: "0 \<le> c" "c \<le> rem" "of_int (rem - c) \<le> of_int n * sum_list (map snd ts)" by (auto simp: c_def)
  with 2(1) [OF refl, folded c_def] 2(3,4)
  have IH: "sum_list (map od_quantity (dispatch_targets tick p n ts (rem - c))) = rem - c"
    "list_all (order_from tick p (map fst ts)) (dispatch_targets tick p n ts (rem - c))" by auto
  then have "list_all (order_from tick p (map fst ((t, share) # ts))) (dispatch_targets tick p n ts (rem - c))"
    by (auto simp: list_all_iff order_from_def)
  moreover have "dispatch_targets tick p n ((t, share) # ts) rem =
      (if 0 < c then [\<lparr>od_tick = tick, od_src_port_idx = p, od_dest_port_idx = ni_index t, od_quantity = c\<rparr>]
       else []) @ dispatch_targets tick p n ts (rem - c)"
    by (simp add: Let_def c_def)
  moreover have "order_from tick p (map fst ((t, share) # ts))
      \<lparr>od_tick = tick, od_src_port_idx = p, od_dest_port_idx = ni_index t, od_quantity = c\<rparr>" if "0 < c"
    using that by (simp add: order_from_def)
  ultimately show ?case using IH(1) c
    by (cases "0 < c") (simp_all del: dispatch_targets.simps)
qed

definition ports_ok :: "port_setting list \<Rightarrow> bool" where
  "ports_ok ps \<longleftrightarrow> proportions_ok (map ps_source_proportion ps) \<and>
     list_all (\<lambda>p. proportions_ok (ps_target_proportions p)) ps"

definition order_valid :: "int \<Rightarrow> (port_setting \<times> rat) list \<Rightarrow> int \<Rightarrow> order \<Rightarrow> bool" where
  "order_valid tick ps i od \<longleftrightarrow>
     (\<exists>j < length ps. order_from tick (i + int j) (ps_target_proportions (fst (ps ! j))) od)"

lemma order_valid_Cons:
  "order_from tick i (ps_target_proportions p) od \<Longrightarrow> order_valid tick ((p, x) # ps) i od"
  "order_valid tick ps (i + 1) od \<Longrightarrow> order_valid tick ((p, x) # ps) i od"
  by (force simp: order_valid_def)
     (auto simp: order_valid_def intro: exI [of _ "Suc j" for j] simp: add.assoc)

lemma gen_source_orders_spec:
  assumes "rng_law g" "0 \<le> n" "0 \<le> rem" "list_all (\<lambda>(p, share). 0 \<le> share) ps"
    and "list_all (\<lambda>(p, share). proportions_ok (ps_target_proportions p)) ps"
    and "of_int rem \<le> of_int n * sum_list (map snd ps)"
  shows "\<exists>os s'. gen_source_orders g tick n ps i rem s = Inr (os, s') \<and>
           sum_list (map od_quantity os) = rem \<and> list_all (order_valid tick ps i) os"
  using assms(3-)
proof (induction ps arbitrary: i rem s)
  case Nil
  then show ?case by simp
next
  case (Cons ps1 ps)
  obtain p share where ps1: "ps1 = (p, share)" by (cases ps1)
  show ?case
  proof (cases "rem = 0")
    case True
    then show ?thesis by (simp add: ps1)
  next
    case False
    let ?ts = "ps_target_proportions p"
    define c where "c = min \<lceil>of_int n * share\<rceil> rem"
    have "0 \<le> sum_list (map snd ps)" using Cons.prems(2) by (intro sum_list_nonneg) (auto simp: list_all_iff)
    with ceil_min_bounds [of rem share n "sum_list (map snd ps)"] assms(2) Cons.prems ps1
    have c: "0 \<le> c" "c \<le> rem" "of_int (rem - c) \<le> of_int n * sum_list (map snd ps)" by (auto simp: c_def)
    have tok: "proportions_ok ?ts" using Cons.prems(3) ps1 by simp
    obtain xs s1 where xs: "noised_list g ?ts s = Inr (xs, s1)" "length xs = length ?ts"
      "list_all (\<lambda>x. 0 \<le> x) xs" "0 < sum_list xs"
      using noised_list_ok [OF assms(1) tok, of s] by auto
    note nm = normalize_ok [OF xs(3,4)]
    let ?os = "if 0 < c then dispatch_targets tick i c (zip ?ts (list_sum_normalize xs)) c else []"
    have "list_all (\<lambda>(t, share). 0 \<le> share) (zip ?ts (list_sum_normalize xs))"
      using nm(2) by (auto simp: list_all_iff dest: set_zip_rightD)
    with dispatch_targets_spec [of c c "zip ?ts (list_sum_normalize xs)" tick i] c(1) nm xs(2)
    have os: "sum_list (map od_quantity ?os) = c" "list_all (order_from tick i ?ts) ?os" by auto
    obtain rest s2 where rest: "gen_source_orders g tick n ps (i + 1) (rem - c) s1 = Inr (rest, s2)"
      "sum_list (map od_quantity rest) = rem - c" "list_all (order_valid tick ps (i + 1)) rest"
      using Cons.IH [of "rem - c" "i + 1" s1] c Cons.prems(2,3) by auto
    have "gen_source_orders g tick n (ps1 # ps) i rem s = Inr (?os @ rest, s2)"
      using False xs(1) rest(1) by (simp add: ps1 Let_def flip: c_def)
    moreover have "list_all (order_valid tick (ps1 # ps) i) (?os @ rest)"
      using os(2) rest(3) ps1 order_valid_Cons by (fastforce simp: list_all_iff)
    ultimately show ?thesis using os(1) rest(2) by auto
  qed
qed

text \<open>
  For a well-formed configuration the orders of a tick are generated without failing the final
  assertion: they sum up to the configured number, reduced in the unfixed mode by the containers in
  use, and every order is positive, for this tick, from a port to one of its configured targets.
\<close>

text \<open>The orders generated for a tick add up exactly to the quantity the order proportion
  and the order mode ask for, and each goes from an existing port to one of its targets with a
  positive quantity.\<close>

theorem gen_orders_total:
  assumes "rng_law g" "ports_ok (cd_port_settings data)"
    and "py_get (sd_order_proportion data) tick = Inr proportion" "0 \<le> proportion"
  shows "\<exists>os s'. gen_orders g data tick total_empty s = Inr (os, s') \<and>
           sum_list (map od_quantity os) =
             (if sd_order_mode data = UNFIXED
              then max 0 (proportion - (sd_total_containers data - total_empty)) else proportion) \<and>
           list_all (\<lambda>od. \<exists>j < length (cd_port_settings data).
             order_from tick (int j) (ps_target_proportions (cd_port_settings data ! j)) od) os"
proof -
  let ?ps = "cd_port_settings data"
  let ?delta = "sd_total_containers data - total_empty"
  let ?n = "if sd_order_mode data = UNFIXED then proportion - ?delta else proportion"
  show ?thesis
  proof (cases "sd_order_mode data = UNFIXED \<and> proportion \<le> ?delta")
    case True
    with assms(3) show ?thesis by (simp add: gen_orders_def Let_def)
  next
    case False
    then have n: "0 \<le> ?n" using assms(4) by auto
    from assms(2) have po: "proportions_ok (map ps_source_proportion ?ps)"
      "list_all (\<lambda>p. proportions_ok (ps_target_proportions p)) ?ps" by (auto simp: ports_ok_def)
    obtain xs s1 where xs: "noised_list g (map ps_source_proportion ?ps) s = Inr (xs, s1)"
      "length xs = length ?ps" "list_all (\<lambda>x. 0 \<le> x) xs" "0 < sum_list xs"
      using noised_list_ok [OF assms(1) po(1), of s] by auto
    note nm = normalize_ok [OF xs(3,4)]
    let ?z = "zip ?ps (list_sum_normalize xs)"
    have "list_all (\<lambda>(p, share). 0 \<le> share) ?z"
      "list_all (\<lambda>(p, share). proportions_ok (ps_target_proportions p)) ?z"
      using nm(2) po(2) by (auto simp: list_all_iff dest: set_zip_rightD set_zip_leftD)
    moreover have "of_int ?n \<le> of_int ?n * sum_list (map snd ?z)" using nm xs(2) by simp
    ultimately obtain os s2 where os: "gen_source_orders g tick ?n ?z 0 ?n s1 = Inr (os, s2)"
      "sum_list (map od_quantity os) = ?n" "list_all (order_valid tick ?z 0) os"
      using gen_source_orders_spec [OF assms(1) n n] by blast
    have "gen_orders g data tick total_empty s = Inr (os, s2)"
      using False assms(3) xs(1) os(1,2)
      by (simp only: gen_orders_def Let_def bindE_Inr if_False prod.case assertE_True refl)
    moreover have "list_all (\<lambda>od. \<exists>j < length ?ps. order_from tick (int j) (ps_target_proportions (?ps ! j)) od) os"
      unfolding list_all_iff
    proof
      fix od assume "od \<in> set os"
      with os(3) have "order_valid tick ?z 0 od" by (simp add: list_all_iff)
      then obtain j where "j < length ?z" "order_from tick (0 + int j) (ps_target_proportions (fst (?z ! j))) od"
        unfolding order_valid_def by blast
      then show "\<exists>j < length ?ps. order_from tick (int j) (ps_target_proportions (?ps ! j)) od"
        using xs(2) nm(3) by auto
    qed
    ultimately show ?thesis using os(2) False by (auto simp: max_def)
  qed
qed

section \<open>Reproducibility\<close>

text \<open>The orders of a tick depend on one generator only.\<close>

definition same_stream :: "string \<Rightarrow> 'r sim_random \<Rightarrow> 'r sim_random \<Rightarrow> bool" where
  "same_stream key s t \<longleftrightarrow> (\<exists>r. map_of (rand_instances s) key = Some r \<and> map_of (rand_instances t) key = Some r)"

lemma noised_list_stream:
  assumes "same_stream ORDER_NUM_RAND_KEY s t"
  shows "\<exists>xs s' t'. noised_list g is s = Inr (xs, s') \<and> noised_list g is t = Inr (xs, t') \<and>
           same_stream ORDER_NUM_RAND_KEY s' t'"
  using assms
proof (induction "is" arbitrary: s t)
  case (Cons i "is")
  then obtain r where r: "map_of (rand_instances s) ORDER_NUM_RAND_KEY = Some r"
    "map_of (rand_instances t) ORDER_NUM_RAND_KEY = Some r" by (auto simp: same_stream_def)
  let ?u = "rg_uniform g r (- ni_noise i) (ni_noise i)"
  let ?f = "\<lambda>s. s\<lparr>rand_instances := AList.update ORDER_NUM_RAND_KEY (snd ?u) (rand_instances s)\<rparr>"
  have "same_stream ORDER_NUM_RAND_KEY (?f s) (?f t)" by (simp add: same_stream_def)
  from Cons.IH [OF this] show ?case
    by (auto simp: apply_noise_present [OF r(1)] apply_noise_present [OF r(2)])
qed simp

lemma gen_source_orders_stream:
  assumes "same_stream ORDER_NUM_RAND_KEY s t"
  shows "\<exists>os s' t'. gen_source_orders g tick n ps i rem s = Inr (os, s') \<and>
           gen_source_orders g tick n ps i rem t = Inr (os, t')"
  using assms
proof (induction ps arbitrary: i rem s t)
  case (Cons ps1 ps)
  obtain p share where ps1: "ps1 = (p, share)" by (cases ps1)
  obtain xs s1 t1 where x: "noised_list g (ps_target_proportions p) s = Inr (xs, s1)"
    "noised_list g (ps_target_proportions p) t = Inr (xs, t1)" "same_stream ORDER_NUM_RAND_KEY s1 t1"
    using noised_list_stream [OF Cons.prems] by blast
  from Cons.IH [OF x(3), of "i + 1" "rem - min \<lceil>of_int n * share\<rceil> rem"] x(1,2) show ?case
    by (auto simp: ps1 Let_def)
qed simp

lemma gen_orders_stream:
  assumes "same_stream ORDER_NUM_RAND_KEY s t"
  shows "(\<exists>os s' t'. gen_orders g data tick e s = Inr (os, s') \<and> gen_orders g data tick e t = Inr (os, t')) \<or>
         (\<exists>err. gen_orders g data tick e s = Inl err \<and> gen_orders g data tick e t = Inl err)"
proof (cases "py_get (sd_order_proportion data) tick")
  case (Inl err)
  then show ?thesis by (simp add: gen_orders_def)
next
  case (Inr proportion)
  let ?delta = "sd_total_containers data - e"
  let ?n = "if sd_order_mode data = UNFIXED then proportion - ?delta else proportion"
  obtain xs s1 t1 where x: "noised_list g (map ps_source_proportion (cd_port_settings data)) s = Inr (xs, s1)"
    "noised_list g (map ps_source_proportion (cd_port_settings data)) t = Inr (xs, t1)"
    "same_stream ORDER_NUM_RAND_KEY s1 t1"
    using noised_list_stream [OF assms] by blast
  obtain os s2 t2 where o: "gen_source_orders g tick ?n (zip (cd_port_settings data) (list_sum_normalize xs)) 0 ?n s1 = Inr (os, s2)"
    "gen_source_orders g tick ?n (zip (cd_port_settings data) (list_sum_normalize xs)) 0 ?n t1 = Inr (os, t2)"
    using gen_source_orders_stream [OF x(3)] by blast
  show ?thesis
  proof (cases "sd_order_mode data = UNFIXED \<and> proportion \<le> ?delta")
    case True
    with Inr show ?thesis by (simp add: gen_orders_def Let_def)
  next
    case False
    then have "gen_orders g data tick e s = assertE (sum_list (map od_quantity os) = ?n) (Inr (os, s2))"
      "gen_orders g data tick e t = assertE (sum_list (map od_quantity os) = ?n) (Inr (os, t2))"
      using Inr x(1,2) o by (simp_all only: gen_orders_def Let_def bindE_Inr if_False prod.case)
    then show ?thesis by (cases "sum_list (map od_quantity os) = ?n") auto
  qed
qed

lemma reset_seed_some:
  assumes "rand_ok s" "map_of (seed_dict s) key = Some sd"
  obtains s' where "reset_seed seeded key s = Inr s'" "rand_ok s'" "seed_dict s' = seed_dict s"
    "map_of (rand_instances s') key = Some (seeded sd)"
  using reset_seed_restores [OF assms, of seeded] that by blast

lemma synthetic_reset_stream:
  assumes "rand_ok s" "map_of (seed_dict s) BUFFER_TICK_RAND_KEY = Some b"
    "map_of (seed_dict s) ORDER_NUM_RAND_KEY = Some n"
  obtains s' where "synthetic_reset_seed g s = Inr s'"
    "map_of (rand_instances s') ORDER_NUM_RAND_KEY = Some (rg_seeded g n)"
proof -
  obtain s1 where s1: "reset_seed (rg_seeded g) BUFFER_TICK_RAND_KEY s = Inr s1" "rand_ok s1"
    "seed_dict s1 = seed_dict s" using reset_seed_some [OF assms(1,2)] by metis
  with assms(3) obtain s2 where "reset_seed (rg_seeded g) ORDER_NUM_RAND_KEY s1 = Inr s2"
    "map_of (rand_instances s2) ORDER_NUM_RAND_KEY = Some (rg_seeded g n)"
    using reset_seed_some [OF s1(2)] by metis
  with s1(1) that show thesis by (simp add: synthetic_reset_seed_def base_reset_seed_def)
qed

text \<open>
  After a reset that keeps the seed, the first tick's orders do not depend on how many numbers the
  episode before had drawn, from whichever generator.
\<close>

text \<open>After a reset two data containers seeded alike generate the same orders, whatever
  they had drawn before.\<close>

theorem orders_repeat_after_reset:
  assumes ok: "rand_ok (cs_random c)" "rand_ok (cs_random c')"
    and sd: "seed_dict (cs_random c) = seed_dict (cs_random c')"
      "map_of (seed_dict (cs_random c)) BUFFER_TICK_RAND_KEY = Some b"
      "map_of (seed_dict (cs_random c)) ORDER_NUM_RAND_KEY = Some n"
  shows "(case synthetic_get_orders g data tick e (container_reset c) of
            Inl err \<Rightarrow> Inl err | Inr (os, d) \<Rightarrow> Inr os) =
         (case synthetic_get_orders g data tick e (container_reset c') of
            Inl err \<Rightarrow> Inl err | Inr (os, d) \<Rightarrow> Inr os)"
proof -
  obtain s where s: "synthetic_reset_seed g (cs_random c) = Inr s"
    "map_of (rand_instances s) ORDER_NUM_RAND_KEY = Some (rg_seeded g n)"
    using synthetic_reset_stream [OF ok(1) sd(2,3)] by metis
  obtain t where t: "synthetic_reset_seed g (cs_random c') = Inr t"
    "map_of (rand_instances t) ORDER_NUM_RAND_KEY = Some (rg_seeded g n)"
    using synthetic_reset_stream [OF ok(2) sd(2,3) [unfolded sd(1)]] by metis
  have "same_stream ORDER_NUM_RAND_KEY s t" using s t by (simp add: same_stream_def)
  from gen_orders_stream [OF this, of g data tick e] s(1) t(1) show ?thesis
    by (auto simp: synthetic_get_orders_def reset_if_needed_def container_reset_def)
qed

end
