(* ===== verification/CimGen.thy ===== *)
theory CimGen imports CimDataProps begin

text \<open>
  \<open>maro/data_lib/cim/parsers.py\<close>, \<open>cim_data_generator.py\<close> and \<open>cim_data_container_helpers.py\<close>: from a
  topology's configuration to its data collection.

  The YAML file is a value of the record \<open>cim_conf\<close>, already read and with its keys present.
  \<open>numpy.interp\<close> is a parameter.  The unrolling of a vessel's route is a loop that need not end, so it is
  a partial function whose value \<open>None\<close> means it does not.
\<close>

section \<open>Configuration\<close>

record vessel_conf =
  vc_capacity :: int
  vc_route_name :: string
  vc_initial_port_name :: string
  vc_speed :: rat
  vc_speed_noise :: rat
  vc_duration :: int
  vc_duration_noise :: rat
  vc_empty :: "int option"

record port_conf =
  pc_capacity :: int
  pc_initial_container_proportion :: rat
  pc_full_buffer_ticks :: rat
  pc_full_noise :: rat
  pc_empty_buffer_ticks :: rat
  pc_empty_noise :: rat
  pc_source :: "rat \<times> rat"
  pc_targets :: "(string \<times> rat \<times> rat) list option"

record usage_conf =
  uc_period :: int
  uc_sample_noise :: rat
  uc_sample_nodes :: "(int \<times> rat) list"

record cim_conf =
  cf_seed :: int
  cf_total_containers :: int
  cf_stop_number :: "int \<times> int"
  cf_container_volumes :: "rat list"
  cf_vessels :: "(string \<times> vessel_conf) list"
  cf_ports :: "(string \<times> port_conf) list"
  cf_routes :: "(string \<times> (string \<times> int) list) list"
  cf_usage :: usage_conf
  cf_order_generate_mode :: order_mode

section \<open>Parsers\<close>

fun parse_vessels_loop ::
  "(string \<times> vessel_conf) list \<Rightarrow> int \<Rightarrow> (string \<times> int) list \<Rightarrow> vessel_setting list
   \<Rightarrow> (string \<times> int) list \<times> vessel_setting list" where
  "parse_vessels_loop [] index mapping vessels = (mapping, vessels)"
| "parse_vessels_loop ((vessel_name, node) # conf) index mapping vessels =
     parse_vessels_loop conf (index + 1) (AList.update vessel_name index mapping)
       (vessels @
        [\<lparr>vs_index = index, vs_name = vessel_name, vs_capacity = vc_capacity node,
          vs_route_name = vc_route_name node, vs_start_port_name = Some (vc_initial_port_name node),
          vs_sailing_speed = Some (vc_speed node), vs_sailing_noise = Some (vc_speed_noise node),
          vs_parking_duration = Some (vc_duration node),
          vs_parking_noise = Some (vc_duration_noise node),
          vs_empty = (case vc_empty node of Some n \<Rightarrow> n | None \<Rightarrow> 0)\<rparr>])"

definition parse_vessels :: "(string \<times> vessel_conf) list \<Rightarrow> (string \<times> int) list \<times> vessel_setting list" where
  "parse_vessels conf = parse_vessels_loop conf 0 [] []"

fun parse_routes_loop ::
  "(string \<times> (string \<times> int) list) list \<Rightarrow> int \<Rightarrow> (string \<times> int) list \<Rightarrow> route_point list list
   \<Rightarrow> (string \<times> int) list \<times> route_point list list" where
  "parse_routes_loop [] idx route_mapping routes = (route_mapping, routes)"
| "parse_routes_loop ((name, node) # conf) idx route_mapping routes =
     parse_routes_loop conf (idx + 1) (AList.update name idx route_mapping)
       (routes @
        [map (\<lambda>(port_name, distance). \<lparr>rp_index = idx, rp_port_name = port_name,
                rp_distance_to_next_port = distance\<rparr>) node])"

definition parse_routes ::
  "(string \<times> (string \<times> int) list) list \<Rightarrow> (string \<times> int) list \<times> route_point list list" where
  "parse_routes conf = parse_routes_loop conf 0 [] []"

fun index_names :: "(string \<times> 'c) list \<Rightarrow> int \<Rightarrow> (string \<times> int) list \<Rightarrow> (string \<times> int) list" where
  "index_names [] index mapping = mapping"
| "index_names ((name, node) # conf) index mapping =
     index_names conf (index + 1) (AList.update name index mapping)"

definition parse_targets ::
  "(string \<times> int) list \<Rightarrow> (string \<times> rat \<times> rat) list option \<Rightarrow> noised_item list res" where
  "parse_targets ports_mapping targets =
     (case targets of
        None \<Rightarrow> Inr []
      | Some ts \<Rightarrow> mapE (\<lambda>(target_port_name, proportion, noise).
            bindE (dict_get ports_mapping target_port_name) (\<lambda>i.
              Inr \<lparr>ni_index = i, ni_base = proportion, ni_noise = noise\<rparr>)) ts)"

fun parse_ports_loop ::
  "(string \<times> int) list \<Rightarrow> int \<Rightarrow> (string \<times> port_conf) list \<Rightarrow> int \<Rightarrow> port_setting list res" where
  "parse_ports_loop ports_mapping total_container [] port_idx = Inr []"
| "parse_ports_loop ports_mapping total_container ((port_name, port_info) # conf) port_idx =
     bindE (parse_targets ports_mapping (pc_targets port_info)) (\<lambda>targets_dist.
     bindE (parse_ports_loop ports_mapping total_container conf (port_idx + 1)) (\<lambda>rest.
       Inr (\<lparr>ps_index = port_idx, ps_name = port_name, ps_capacity = pc_capacity port_info,
             ps_empty = py_int (pc_initial_container_proportion port_info * of_int total_container),
             ps_empty_return_buffer = \<lparr>ni_index = port_idx, ni_base = pc_empty_buffer_ticks port_info,
                                       ni_noise = pc_empty_noise port_info\<rparr>,
             ps_full_return_buffer = \<lparr>ni_index = port_idx, ni_base = pc_full_buffer_ticks port_info,
                                      ni_noise = pc_full_noise port_info\<rparr>,
             ps_source_proportion = \<lparr>ni_index = port_idx, ni_base = fst (pc_source port_info),
                                     ni_noise = snd (pc_source port_info)\<rparr>,
             ps_target_proportions = targets_dist\<rparr> # rest)))"

definition parse_ports ::
  "(string \<times> port_conf) list \<Rightarrow> int \<Rightarrow> ((string \<times> int) list \<times> port_setting list) res" where
  "parse_ports conf total_container =
     (let total_ratio = sum_list (map (\<lambda>(name, p). pc_initial_container_proportion p) conf);
          ports_mapping = index_names conf 0 []
      in assertE (py_round total_ratio 7 = 1)
           (bindE (parse_ports_loop ports_mapping total_container conf 0) (\<lambda>port_settings.
              Inr (ports_mapping, port_settings))))"

text \<open>
  \<open>parse_global_order_proportion\<close>: sample nodes completed at both ends of the period, interpolated,
  repeated over the ticks with noise, clipped to a ratio and scaled.
\<close>

definition complete_nodes :: "int \<Rightarrow> (int \<times> rat) list \<Rightarrow> (int \<times> rat) list res" where
  "complete_nodes period nodes =
     (if nodes = [] then Inl IndexError
      else let nodes1 = (if fst (hd nodes) \<noteq> 0 then (0, 0) # nodes else nodes)
           in Inr (if fst (last nodes1) \<noteq> period - 1 then nodes1 @ [(period - 1, 0)] else nodes1))"

definition tick_orders ::
  "'r rng \<Rightarrow> rat \<Rightarrow> int \<Rightarrow> rat \<Rightarrow> 'r sim_random \<Rightarrow> (int \<times> 'r sim_random) res" where
  "tick_orders g noise total_container orders s =
     (if orders = 0 then Inr (0, s)
      else bindE (if noise \<noteq> 0 then apply_noise g orders noise ORDER_INIT_RAND_KEY s else Inr (orders, s))
             (\<lambda>(noised, s1). Inr (\<lfloor>clip 0 1 noised * of_int total_container\<rfloor>, s1)))"

fun proportion_loop ::
  "'r rng \<Rightarrow> int \<Rightarrow> rat \<Rightarrow> rat list \<Rightarrow> int \<Rightarrow> int list \<Rightarrow> 'r sim_random \<Rightarrow> (int list \<times> 'r sim_random) res" where
  "proportion_loop g period noise distr total_container [] s = Inr ([], s)"
| "proportion_loop g period noise distr total_container (t # ts) s =
     (if period = 0 then Inl ZeroDivisionError
      else
        bindE (py_get distr (t mod period)) (\<lambda>orders.
        bindE (tick_orders g noise total_container orders s) (\<lambda>(n, s1).
        bindE (proportion_loop g period noise distr total_container ts s1) (\<lambda>(ns, s2).
          Inr (n # ns, s2)))))"

definition parse_global_order_proportion ::
  "'r rng \<Rightarrow> (int list \<Rightarrow> int list \<Rightarrow> rat list \<Rightarrow> rat list) \<Rightarrow> usage_conf \<Rightarrow> int \<Rightarrow> int \<Rightarrow> int
   \<Rightarrow> 'r sim_random \<Rightarrow> (int list \<times> 'r sim_random) res" where
  "parse_global_order_proportion g interp conf total_container max_tick start_tick s =
     (if max_tick < start_tick then Inl ValueError
      else
        bindE (complete_nodes (uc_period conf) (uc_sample_nodes conf)) (\<lambda>nodes.
          let distr = interp [0..uc_period conf - 1] (map fst nodes) (map snd nodes)
          in proportion_loop g (uc_period conf) (uc_sample_noise conf) distr total_container
               [start_tick..max_tick - 1] s))"

section \<open>Unrolling a route\<close>

fun find_start :: "route_point list \<Rightarrow> string option \<Rightarrow> int \<Rightarrow> int res" where
  "find_start [] name i = Inl IndexError"
| "find_start (p # ps) name i = (if Some (rp_port_name p) = name then Inr i else find_start ps name (i + 1))"

record 'r unroll =
  ur_loc :: int
  ur_tick :: int
  ur_period :: int
  ur_extra :: int
  ur_index :: int
  ur_stops :: "stop list"
  ur_random :: "'r sim_random"

text \<open>One iteration of the loop over the stops of a vessel.\<close>

definition unroll_step ::
  "'r rng \<Rightarrow> route_point list \<Rightarrow> (string \<times> int) list \<Rightarrow> vessel_setting \<Rightarrow> int \<Rightarrow> 'r unroll \<Rightarrow> 'r unroll res" where
  "unroll_step g route_points port_mapping vessel max_tick u =
     bindE (py_get route_points (ur_loc u)) (\<lambda>cur_route_point.
     bindE (dict_get port_mapping (rp_port_name cur_route_point)) (\<lambda>port_idx.
     bindE (need (vs_parking_duration vessel)) (\<lambda>duration.
     bindE (need (vs_parking_noise vessel)) (\<lambda>duration_noise.
     bindE (apply_noise g (of_int duration) duration_noise ROUTE_INIT_RAND_KEY (ur_random u)) (\<lambda>(noised, r1).
     let parking_duration = \<lceil>noised\<rceil> in
     assertE (0 < parking_duration) (
     let stop = \<lparr>st_index = ur_index u, st_arrival_tick = ur_tick u,
                 st_leave_tick = ur_tick u + parking_duration, st_port_idx = port_idx,
                 st_vessel_idx = vs_index vessel\<rparr>;
         stops = ur_stops u @ [stop];
         distance = rp_distance_to_next_port cur_route_point
     in bindE (need (vs_sailing_speed vessel)) (\<lambda>speed.
        bindE (need (vs_sailing_noise vessel)) (\<lambda>speed_noise.
        bindE (apply_noise g speed speed_noise ROUTE_INIT_RAND_KEY r1) (\<lambda>(noised_speed, r2).
        bindE (ceil_div distance noised_speed) (\<lambda>sailing_duration.
        bindE (ceil_div distance speed) (\<lambda>sailing_no_noise.
          let tick = ur_tick u + (parking_duration + sailing_duration)
          in Inr \<lparr>ur_loc = (ur_loc u + 1) mod int (length route_points), ur_tick = tick,
                  ur_period = ur_period u + (if length stops \<le> length route_points
                                             then duration + sailing_no_noise else 0),
                  ur_extra = ur_extra u + (if max_tick < tick then 1 else 0),
                  ur_index = ur_index u + 1, ur_stops = stops, ur_random = r2\<rparr>)))))))))))"

partial_function (option) unroll_loop ::
  "'r rng \<Rightarrow> route_point list \<Rightarrow> (string \<times> int) list \<Rightarrow> vessel_setting \<Rightarrow> int \<Rightarrow> int \<Rightarrow> 'r unroll
   \<Rightarrow> 'r unroll res option" where
  "unroll_loop g route_points port_mapping vessel max_tick future_stop_number u =
     (if ur_extra u \<le> future_stop_number then
        (case unroll_step g route_points port_mapping vessel max_tick u of
           Inl err \<Rightarrow> Some (Inl err)
         | Inr u1 \<Rightarrow> unroll_loop g route_points port_mapping vessel max_tick future_stop_number u1)
      else Some (Inr u))"

fun extend_loop ::
  "'r rng \<Rightarrow> int \<Rightarrow> int \<Rightarrow> vessel_setting list \<Rightarrow> (string \<times> int) list \<Rightarrow> route_point list list
   \<Rightarrow> (string \<times> int) list \<Rightarrow> stop list list \<Rightarrow> int list \<Rightarrow> 'r sim_random
   \<Rightarrow> (stop list list \<times> int list \<times> 'r sim_random) res option" where
  "extend_loop g future_stop_number max_tick [] port_mapping routes route_mapping vessel_stops period s =
     Some (Inr (vessel_stops, period, s))"
| "extend_loop g future_stop_number max_tick (vessel # vessels) port_mapping routes route_mapping
     vessel_stops period s =
     (case bindE (dict_get route_mapping (vs_route_name vessel)) (\<lambda>ri.
           bindE (py_get routes ri) (\<lambda>route_points.
           bindE (find_start route_points (vs_start_port_name vessel) 0) (\<lambda>loc.
           bindE (py_get vessel_stops (vs_index vessel)) (\<lambda>stops0.
             Inr (route_points, loc, stops0))))) of
        Inl err \<Rightarrow> Some (Inl err)
      | Inr (route_points, loc, stops0) \<Rightarrow>
          (case unroll_loop g route_points port_mapping vessel max_tick future_stop_number
                  \<lparr>ur_loc = loc, ur_tick = 0, ur_period = 0, ur_extra = 0, ur_index = 0,
                   ur_stops = stops0, ur_random = s\<rparr> of
             None \<Rightarrow> None
           | Some (Inl err) \<Rightarrow> Some (Inl err)
           | Some (Inr u) \<Rightarrow>
               (case py_set vessel_stops (vs_index vessel) (ur_stops u) of
                  Inl err \<Rightarrow> Some (Inl err)
                | Inr vessel_stops' \<Rightarrow>
                    extend_loop g future_stop_number max_tick vessels port_mapping routes route_mapping
                      vessel_stops' (period @ [ur_period u]) (ur_random u))))"

definition extend_route ::
  "'r rng \<Rightarrow> int \<Rightarrow> int \<Rightarrow> vessel_setting list \<Rightarrow> (string \<times> int) list \<Rightarrow> route_point list list
   \<Rightarrow> (string \<times> int) list \<Rightarrow> 'r sim_random \<Rightarrow> (stop list list \<times> int list \<times> 'r sim_random) res option" where
  "extend_route g future_stop_number max_tick vessels_setting port_mapping routes route_mapping s =
     extend_loop g future_stop_number max_tick vessels_setting port_mapping routes route_mapping
       (replicate (length vessels_setting) []) [] s"

section \<open>The data collection\<close>

definition gen_cim_data ::
  "'r rng \<Rightarrow> (int list \<Rightarrow> int list \<Rightarrow> rat list \<Rightarrow> rat list) \<Rightarrow> cim_conf \<Rightarrow> int \<Rightarrow> int \<Rightarrow> int option
   \<Rightarrow> 'r sim_random \<Rightarrow> (synthetic_data \<times> 'r sim_random) res option" where
  "gen_cim_data g interp conf max_tick start_tick topology_seed s =
     (let sd = (case topology_seed of None \<Rightarrow> cf_seed conf | Some n \<Rightarrow> n);
          s0 = sim_seed (rg_seeded g) sd s;
          (past_stop_number, future_stop_number) = cf_stop_number conf;
          (vessel_mapping, vessels_setting) = parse_vessels (cf_vessels conf);
          (route_mapping, routes) = parse_routes (cf_routes conf)
      in case bindE (parse_ports (cf_ports conf) (cf_total_containers conf)) (\<lambda>pp.
              bindE (parse_global_order_proportion g interp (cf_usage conf) (cf_total_containers conf)
                       max_tick start_tick s0) (\<lambda>qq.
                Inr (pp, qq))) of
           Inl err \<Rightarrow> Some (Inl err)
         | Inr ((port_mapping, ports_setting), (order_proportion, s1)) \<Rightarrow>
             (case extend_route g future_stop_number max_tick vessels_setting port_mapping routes
                     route_mapping s1 of
                None \<Rightarrow> None
              | Some (Inl err) \<Rightarrow> Some (Inl err)
              | Some (Inr (vessel_stops, vessel_period, s2)) \<Rightarrow>
                  Some (bindE (py_get (cf_container_volumes conf) 0) (\<lambda>volume.
                    Inr (\<lparr>cd_port_settings = ports_setting, cd_port_mapping = port_mapping,
                          cd_vessel_settings = vessels_setting, cd_vessel_mapping = vessel_mapping,
                          cd_vessel_stops = vessel_stops, cd_routes = routes,
                          cd_route_mapping = route_mapping, cd_vessel_period = vessel_period,
                          cd_container_volume = volume, cd_past_stop_number = past_stop_number,
                          cd_future_stop_number = future_stop_number, cd_max_tick = max_tick,
                          cd_seed = sd, sd_total_containers = cf_total_containers conf,
                          sd_order_mode = cf_order_generate_mode conf,
                          sd_order_proportion = order_proportion\<rparr>, s2)))))"

end
