(* ===== verification/CimNodes.thy ===== *)
theory CimNodes imports CimData SimCore begin

text \<open>
  \<open>maro/simulator/scenarios/cim\<close>: the frame nodes \<open>port.py\<close> and \<open>vessel.py\<close> with the callbacks their
  attributes run when assigned, and the values exchanged with agents and handlers (\<open>common.py\<close>,
  \<open>event_payload.py\<close>, \<open>events.py\<close>).

  The frame stores attributes in C integers; the model keeps their values as \<open>int\<close>, so overflow of
  the 32-bit storage is not modelled.  The cost attribute is a float, read as \<open>rat\<close>.
\<close>

section \<open>Ports\<close>

record port =
  pt_capacity :: int
  pt_empty :: int
  pt_full :: int
  pt_on_shipper :: int
  pt_on_consignee :: int
  pt_shortage :: int
  pt_acc_shortage :: int
  pt_booking :: int
  pt_acc_booking :: int
  pt_fulfillment :: int
  pt_acc_fulfillment :: int
  pt_transfer_cost :: rat
  pt_init_name :: string
  pt_init_capacity :: int
  pt_init_empty :: int

text \<open>The attributes as the frame resets them, the initial values kept by the node.\<close>

definition frame_reset_port :: "port \<Rightarrow> port" where
  "frame_reset_port p =
     \<lparr>pt_capacity = 0, pt_empty = 0, pt_full = 0, pt_on_shipper = 0, pt_on_consignee = 0,
      pt_shortage = 0, pt_acc_shortage = 0, pt_booking = 0, pt_acc_booking = 0, pt_fulfillment = 0,
      pt_acc_fulfillment = 0, pt_transfer_cost = 0, pt_init_name = pt_init_name p,
      pt_init_capacity = pt_init_capacity p, pt_init_empty = pt_init_empty p\<rparr>"

definition port_reset :: "port \<Rightarrow> port" where
  "port_reset p = p\<lparr>pt_capacity := pt_init_capacity p, pt_empty := pt_init_empty p\<rparr>"

definition port_set_init_state :: "string \<Rightarrow> int \<Rightarrow> int \<Rightarrow> port \<Rightarrow> port" where
  "port_set_init_state name capacity empty_num p =
     port_reset (p\<lparr>pt_init_name := name, pt_init_capacity := capacity, pt_init_empty := empty_num\<rparr>)"

text \<open>Assigning \<open>shortage\<close> or \<open>booking\<close> runs a callback that updates \<open>fulfillment\<close>.\<close>

definition update_fulfilment :: "int \<Rightarrow> int \<Rightarrow> port \<Rightarrow> port" where
  "update_fulfilment shortage booking p = p\<lparr>pt_fulfillment := booking - shortage\<rparr>"

definition set_shortage :: "int \<Rightarrow> port \<Rightarrow> port" where
  "set_shortage v p = update_fulfilment v (pt_booking p) (p\<lparr>pt_shortage := v\<rparr>)"

definition set_booking :: "int \<Rightarrow> port \<Rightarrow> port" where
  "set_booking v p = update_fulfilment (pt_shortage p) v (p\<lparr>pt_booking := v\<rparr>)"

section \<open>Vessels\<close>

record vessel =
  vl_capacity :: int
  vl_empty :: int
  vl_full :: int
  vl_remaining_space :: int
  vl_early_discharge :: int
  vl_is_parking :: int
  vl_loc_port_idx :: int
  vl_route_idx :: int
  vl_last_loc_idx :: int
  vl_next_loc_idx :: int
  vl_past_stop_list :: "int list"
  vl_past_stop_tick_list :: "int list"
  vl_future_stop_list :: "int list"
  vl_future_stop_tick_list :: "int list"
  vl_init_name :: string
  vl_init_capacity :: int
  vl_total_space :: int
  vl_container_volume :: rat
  vl_init_route_idx :: int
  vl_init_empty :: int

definition frame_reset_vessel :: "vessel \<Rightarrow> vessel" where
  "frame_reset_vessel v =
     v\<lparr>vl_capacity := 0, vl_empty := 0, vl_full := 0, vl_remaining_space := 0, vl_early_discharge := 0,
       vl_is_parking := 0, vl_loc_port_idx := 0, vl_route_idx := 0, vl_last_loc_idx := 0,
       vl_next_loc_idx := 0,
       vl_past_stop_list := replicate (length (vl_past_stop_list v)) 0,
       vl_past_stop_tick_list := replicate (length (vl_past_stop_tick_list v)) 0,
       vl_future_stop_list := replicate (length (vl_future_stop_list v)) 0,
       vl_future_stop_tick_list := replicate (length (vl_future_stop_tick_list v)) 0\<rparr>"

text \<open>Assigning \<open>empty\<close> or \<open>full\<close> runs a callback that updates \<open>remaining_space\<close>.\<close>

definition update_remaining_space :: "vessel \<Rightarrow> vessel" where
  "update_remaining_space v = v\<lparr>vl_remaining_space := vl_total_space v - vl_full v - vl_empty v\<rparr>"

definition set_empty :: "int \<Rightarrow> vessel \<Rightarrow> vessel" where
  "set_empty n v = update_remaining_space (v\<lparr>vl_empty := n\<rparr>)"

definition set_full :: "int \<Rightarrow> vessel \<Rightarrow> vessel" where
  "set_full n v = update_remaining_space (v\<lparr>vl_full := n\<rparr>)"

definition vessel_reset :: "vessel \<Rightarrow> vessel" where
  "vessel_reset v =
     set_empty (vl_init_empty v) (v\<lparr>vl_capacity := vl_init_capacity v, vl_route_idx := vl_init_route_idx v\<rparr>)"

definition vessel_set_init_state ::
  "string \<Rightarrow> rat \<Rightarrow> int \<Rightarrow> int \<Rightarrow> int \<Rightarrow> vessel \<Rightarrow> vessel res" where
  "vessel_set_init_state name container_volume capacity route_idx empty_num v =
     (if container_volume = 0 then Inl ZeroDivisionError
      else Inr (vessel_reset
        (v\<lparr>vl_init_name := name, vl_container_volume := container_volume,
           vl_total_space := \<lfloor>of_int capacity / container_volume\<rfloor>, vl_init_capacity := capacity,
           vl_init_route_idx := route_idx, vl_init_empty := empty_num\<rparr>)))"

text \<open>\<open>set_stop_list\<close>: an absent or empty list is skipped; a missing stop is written as \<open>-1\<close>.\<close>

fun write_stops :: "stop option list \<Rightarrow> int \<Rightarrow> int list \<times> int list \<Rightarrow> (int list \<times> int list) res" where
  "write_stops [] i ls = Inr ls"
| "write_stops (s # ss) i (ports, ticks) =
     bindE (slot_set ports i (case s of Some x \<Rightarrow> st_port_idx x | None \<Rightarrow> - 1)) (\<lambda>ports'.
     bindE (slot_set ticks i (case s of Some x \<Rightarrow> st_arrival_tick x | None \<Rightarrow> - 1)) (\<lambda>ticks'.
       write_stops ss (i + 1) (ports', ticks')))"

definition set_stop_list :: "stop option list option \<Rightarrow> stop option list option \<Rightarrow> vessel \<Rightarrow> vessel res" where
  "set_stop_list past_stop_list future_stop_list v =
     bindE (case past_stop_list of
              None \<Rightarrow> Inr v
            | Some ss \<Rightarrow> bindE (write_stops ss 0 (vl_past_stop_list v, vl_past_stop_tick_list v)) (\<lambda>(ps, ts).
                Inr (v\<lparr>vl_past_stop_list := ps, vl_past_stop_tick_list := ts\<rparr>)))
       (\<lambda>v1. case future_stop_list of
              None \<Rightarrow> Inr v1
            | Some ss \<Rightarrow> bindE (write_stops ss 0 (vl_future_stop_list v1, vl_future_stop_tick_list v1)) (\<lambda>(ps, ts).
                Inr (v1\<lparr>vl_future_stop_list := ps, vl_future_stop_tick_list := ts\<rparr>)))"

section \<open>Events, payloads, actions\<close>

datatype cim_events =
    RETURN_FULL | LOAD_FULL | DISCHARGE_FULL | RETURN_EMPTY | ORDER | VESSEL_ARRIVAL
  | VESSEL_DEPARTURE | LOAD_EMPTY | DISCHARGE_EMPTY

datatype action_type = LOAD | DISCHARGE

record cim_action =
  ac_vessel_idx :: int
  ac_port_idx :: int
  ac_quantity :: int
  ac_action_type :: action_type

definition mk_action :: "int \<Rightarrow> int \<Rightarrow> int \<Rightarrow> action_type option \<Rightarrow> cim_action res" where
  "mk_action vessel_idx port_idx quantity action_type =
     (case action_type of
        None \<Rightarrow> Inl AssertionError
      | Some ty \<Rightarrow> assertE (0 \<le> quantity)
          (Inr \<lparr>ac_vessel_idx = vessel_idx, ac_port_idx = port_idx, ac_quantity = quantity,
                ac_action_type = ty\<rparr>))"

record action_scope =
  as_load :: int
  as_discharge :: int

text \<open>A decision event computes its scope and its early discharge on first access and keeps them.\<close>

record decision_event =
  de_tick :: int
  de_port_idx :: int
  de_vessel_idx :: int
  de_action_scope :: "action_scope option"
  de_early_discharge :: "int option"

definition mk_decision_event :: "int \<Rightarrow> int \<Rightarrow> int \<Rightarrow> decision_event" where
  "mk_decision_event tick port_idx vessel_idx =
     \<lparr>de_tick = tick, de_port_idx = port_idx, de_vessel_idx = vessel_idx, de_action_scope = None,
      de_early_discharge = None\<rparr>"

definition decision_action_scope ::
  "(int \<Rightarrow> int \<Rightarrow> action_scope res) \<Rightarrow> decision_event \<Rightarrow> (action_scope \<times> decision_event) res" where
  "decision_action_scope action_scope_func d =
     (case de_action_scope d of
        Some sc \<Rightarrow> Inr (sc, d)
      | None \<Rightarrow> bindE (action_scope_func (de_port_idx d) (de_vessel_idx d))
                 (\<lambda>sc. Inr (sc, d\<lparr>de_action_scope := Some sc\<rparr>)))"

definition decision_early_discharge ::
  "(int \<Rightarrow> int res) \<Rightarrow> decision_event \<Rightarrow> (int \<times> decision_event) res" where
  "decision_early_discharge early_discharge_func d =
     (case de_early_discharge d of
        Some n \<Rightarrow> Inr (n, d)
      | None \<Rightarrow> bindE (early_discharge_func (de_vessel_idx d))
                 (\<lambda>n. Inr (n, d\<lparr>de_early_discharge := Some n\<rparr>)))"

datatype cim_payload =
    OrderPayload order
  | VesselStatePayload int int
  | VesselDischargePayload int int int int
  | LadenReturnPayload int int int
  | EmptyReturnPayload int int
  | DecisionPayload decision_event
  | ActionsPayload "cim_action py_action list"

section \<open>Laws of the callbacks\<close>

text \<open>What the callbacks maintain.\<close>

definition fulfilment_ok :: "port \<Rightarrow> bool" where
  "fulfilment_ok p \<longleftrightarrow> pt_fulfillment p = pt_booking p - pt_shortage p"

definition space_ok :: "vessel \<Rightarrow> bool" where
  "space_ok v \<longleftrightarrow> vl_remaining_space v = vl_total_space v - vl_full v - vl_empty v"

lemma set_shortage_simps [simp]:
  "fulfilment_ok (set_shortage n p)" "pt_shortage (set_shortage n p) = n"
  "pt_empty (set_shortage n p) = pt_empty p" "pt_full (set_shortage n p) = pt_full p"
  "pt_on_shipper (set_shortage n p) = pt_on_shipper p"
  "pt_on_consignee (set_shortage n p) = pt_on_consignee p"
  "pt_booking (set_shortage n p) = pt_booking p" "pt_acc_booking (set_shortage n p) = pt_acc_booking p"
  "pt_acc_shortage (set_shortage n p) = pt_acc_shortage p"
  by (simp_all add: set_shortage_def update_fulfilment_def fulfilment_ok_def)

lemma set_booking_simps [simp]:
  "fulfilment_ok (set_booking n p)" "pt_booking (set_booking n p) = n"
  "pt_empty (set_booking n p) = pt_empty p" "pt_full (set_booking n p) = pt_full p"
  "pt_on_shipper (set_booking n p) = pt_on_shipper p"
  "pt_on_consignee (set_booking n p) = pt_on_consignee p"
  "pt_shortage (set_booking n p) = pt_shortage p" "pt_acc_shortage (set_booking n p) = pt_acc_shortage p"
  "pt_acc_booking (set_booking n p) = pt_acc_booking p"
  by (simp_all add: set_booking_def update_fulfilment_def fulfilment_ok_def)

lemma set_empty_simps [simp]:
  "space_ok (set_empty n v)" "vl_empty (set_empty n v) = n" "vl_full (set_empty n v) = vl_full v"
  "vl_total_space (set_empty n v) = vl_total_space v" "vl_capacity (set_empty n v) = vl_capacity v"
  "vl_early_discharge (set_empty n v) = vl_early_discharge v"
  "vl_last_loc_idx (set_empty n v) = vl_last_loc_idx v" "vl_next_loc_idx (set_empty n v) = vl_next_loc_idx v"
  by (simp_all add: set_empty_def update_remaining_space_def space_ok_def)

lemma set_full_simps [simp]:
  "space_ok (set_full n v)" "vl_full (set_full n v) = n" "vl_empty (set_full n v) = vl_empty v"
  "vl_total_space (set_full n v) = vl_total_space v" "vl_capacity (set_full n v) = vl_capacity v"
  "vl_early_discharge (set_full n v) = vl_early_discharge v"
  "vl_last_loc_idx (set_full n v) = vl_last_loc_idx v" "vl_next_loc_idx (set_full n v) = vl_next_loc_idx v"
  by (simp_all add: set_full_def update_remaining_space_def space_ok_def)

lemma write_stops_length:
  "write_stops ss i (ps, ts) = Inr (ps', ts') \<Longrightarrow> length ps' = length ps \<and> length ts' = length ts"
  by (induction ss arbitrary: i ps ts) (auto simp: res_simps slot_set_def split: if_splits)

lemma snoc_update: "k < length xs \<Longrightarrow> (take k xs @ [x])[k := v] = take k xs @ [v]"
  by (simp add: list_update_append)

text \<open>A list as long as the attribute's slots is written in full, position by position.\<close>

lemma write_stops_from:
  assumes "0 \<le> i" "nat i + length ss \<le> length ps" "nat i + length ss \<le> length ts"
  shows "write_stops ss i (ps, ts) =
    Inr (take (nat i) ps @ map (\<lambda>s. case s of Some x \<Rightarrow> st_port_idx x | None \<Rightarrow> - 1) ss @ drop (nat i + length ss) ps,
         take (nat i) ts @ map (\<lambda>s. case s of Some x \<Rightarrow> st_arrival_tick x | None \<Rightarrow> - 1) ss @ drop (nat i + length ss) ts)"
  using assms
proof (induction ss arbitrary: i ps ts)
  case (Cons s ss)
  have "nat (i + 1) = Suc (nat i)" using Cons.prems(1) by simp
  with Cons.prems Cons.IH [of "i + 1" "ps[nat i := (case s of Some x \<Rightarrow> st_port_idx x | None \<Rightarrow> - 1)]"
      "ts[nat i := (case s of Some x \<Rightarrow> st_arrival_tick x | None \<Rightarrow> - 1)]"]
  moreover have "i < int (length ps)" "i < int (length ts)" "nat i < length ps" "nat i < length ts"
    using Cons.prems by auto
  ultimately show ?case
    by (simp add: slot_set_def take_Suc_conv_app_nth take_update_swap snoc_update)
qed simp

text \<open>Lists of stops of the right length are written slot by slot, missing stops as -1.\<close>

theorem set_stop_list_written:
  assumes "length ss = length (vl_past_stop_list v)" "length ss = length (vl_past_stop_tick_list v)"
    and "length fs = length (vl_future_stop_list v)" "length fs = length (vl_future_stop_tick_list v)"
  shows "\<exists>v'. set_stop_list (Some ss) (Some fs) v = Inr v' \<and>
     vl_past_stop_list v' = map (\<lambda>s. case s of Some x \<Rightarrow> st_port_idx x | None \<Rightarrow> - 1) ss \<and>
     vl_past_stop_tick_list v' = map (\<lambda>s. case s of Some x \<Rightarrow> st_arrival_tick x | None \<Rightarrow> - 1) ss \<and>
     vl_future_stop_list v' = map (\<lambda>s. case s of Some x \<Rightarrow> st_port_idx x | None \<Rightarrow> - 1) fs \<and>
     vl_future_stop_tick_list v' = map (\<lambda>s. case s of Some x \<Rightarrow> st_arrival_tick x | None \<Rightarrow> - 1) fs"
  using assms by (auto simp: set_stop_list_def write_stops_from)

end
