(* ===== verification/CimEngine.thy ===== *)
theory CimEngine imports CimGen CimNodes begin

text \<open>
  \<open>maro/simulator/scenarios/cim/business_engine.py\<close> over the event buffer, with the container wrapper of
  \<open>maro/data_lib/cim/cim_data_container_helpers.py\<close>.

  A handler computes the new engine state and the list of effects it has on the buffer, in order:
  inserting a generated event, adding it to the immediate list of the event being handled, or renaming
  that event's type.  \<open>apply_emit\<close> performs an effect, \<open>cim_invoke\<close> runs a handler on the world.
  The snapshot list is the log of the snapshots taken, as (frame index, frame).
\<close>

section \<open>State\<close>

datatype cim_source = Synthetic synthetic_data | Real real_data

definition base_of :: "cim_source \<Rightarrow> cim_data" where
  "base_of src = (case src of Synthetic d \<Rightarrow> cim_data.truncate d | Real d \<Rightarrow> cim_data.truncate d)"

record cim_frame =
  fr_ports :: "port list"
  fr_vessels :: "vessel list"
  fr_full_on_ports :: matrix
  fr_full_on_vessels :: matrix
  fr_vessel_plans :: matrix

record 'r cim = cim_frame +
  ci_source :: cim_source
  ci_offsets :: "int list"
  ci_container :: "'r container_state"
  ci_random_seed :: "int option"
  ci_re_init_flag :: bool
  ci_total_operate_num :: int
  ci_base :: engine_base
  ci_snapshots :: "(int \<times> cim_frame) list"
  ci_export_enabled :: bool
  ci_exported :: "order list"

abbreviation ci_data :: "'r cim \<Rightarrow> cim_data" where
  "ci_data s \<equiv> base_of (ci_source s)"

text \<open>What the engine is built with: the generator library, \<open>numpy.interp\<close>, and the configuration the
  container is regenerated from (\<open>None\<close> for a folder of input files).\<close>

record 'r cim_params =
  cp_rng :: "'r rng"
  cp_interp :: "int list \<Rightarrow> int list \<Rightarrow> rat list \<Rightarrow> rat list"
  cp_conf :: "cim_conf option"

text \<open>The attribute \<open>idx\<close> of a node is its position in the node list of the frame.\<close>

definition put_port :: "nat \<Rightarrow> port \<Rightarrow> 'r cim \<Rightarrow> 'r cim" where
  "put_port i p s = s\<lparr>fr_ports := (fr_ports s)[i := p]\<rparr>"

definition put_vessel :: "nat \<Rightarrow> vessel \<Rightarrow> 'r cim \<Rightarrow> 'r cim" where
  "put_vessel i v s = s\<lparr>fr_vessels := (fr_vessels s)[i := v]\<rparr>"

datatype emit =
    EmitImmediate int cim_events cim_payload
  | EmitInsert int bool cim_events cim_payload
  | EmitRetype cim_events

section \<open>Scope and metrics\<close>

definition cim_action_scope :: "'r cim \<Rightarrow> int \<Rightarrow> int \<Rightarrow> action_scope res" where
  "cim_action_scope s port_idx vessel_idx =
     bindE (node_at (fr_ports s) port_idx) (\<lambda>(pn, port).
     bindE (node_at (fr_vessels s) vessel_idx) (\<lambda>(vi, vessel).
       Inr \<lparr>as_load = min (pt_empty port) (vl_remaining_space vessel), as_discharge = vl_empty vessel\<rparr>))"

definition cim_early_discharge :: "'r cim \<Rightarrow> int \<Rightarrow> int res" where
  "cim_early_discharge s vessel_idx =
     bindE (node_at (fr_vessels s) vessel_idx) (\<lambda>(vi, vessel). Inr (vl_early_discharge vessel))"

record cim_metrics =
  order_requirements :: int
  container_shortage :: int
  operation_number :: int

definition cim_get_metrics :: "'r cim \<Rightarrow> cim_metrics" where
  "cim_get_metrics s =
     \<lparr>order_requirements = sum_list (map pt_acc_booking (fr_ports s)),
      container_shortage = sum_list (map pt_acc_shortage (fr_ports s)),
      operation_number = ci_total_operate_num s\<rparr>"

definition cim_agent_idx_list :: "'r cim \<Rightarrow> int list" where
  "cim_agent_idx_list s = [0..int (length (cd_port_settings (ci_data s))) - 1]"

section \<open>Handlers\<close>

definition set_pending_full :: "int \<Rightarrow> int \<Rightarrow> int \<Rightarrow> 'r cim \<Rightarrow> 'r cim res" where
  "set_pending_full src_port_idx dest_port_idx v s =
     assertE (0 \<le> v)
       (bindE (mx_set (fr_full_on_ports s) src_port_idx dest_port_idx v) (\<lambda>m. Inr (s\<lparr>fr_full_on_ports := m\<rparr>)))"

text \<open>A buffer of zero ticks makes the follow-up event an immediate one.\<close>

definition follow_up :: "int \<Rightarrow> int \<Rightarrow> cim_events \<Rightarrow> cim_payload \<Rightarrow> emit list" where
  "follow_up tick buffer ty payload =
     [if buffer = 0 then EmitImmediate (tick + buffer) ty payload
      else EmitInsert (tick + buffer) False ty payload]"

definition draw_buffer ::
  "'r rng \<Rightarrow> (port_setting \<Rightarrow> noised_item) \<Rightarrow> nat \<Rightarrow> 'r cim \<Rightarrow> (int \<times> 'r cim) res" where
  "draw_buffer g attribute_func pn s =
     bindE (buffer_ticks g attribute_func (ci_data s) (int pn) (cs_random (ci_container s))) (\<lambda>(n, r).
       Inr (n, s\<lparr>ci_container := (ci_container s)\<lparr>cs_random := r\<rparr>\<rparr>))"

definition order_qty :: "port \<Rightarrow> int \<Rightarrow> int" where
  "order_qty p q = (if pt_empty p < q then pt_empty p else q)"

definition book_order :: "int \<Rightarrow> port \<Rightarrow> port" where
  "book_order quantity p =
     (let p1 = set_booking (pt_booking p + quantity) p;
          p2 = p1\<lparr>pt_acc_booking := pt_acc_booking p1 + quantity\<rparr>;
          shortage_qty = quantity - pt_empty p;
          p3 = (if pt_empty p < quantity
                then (set_shortage (pt_shortage p2 + shortage_qty) p2)
                       \<lparr>pt_acc_shortage := pt_acc_shortage p2 + shortage_qty\<rparr>
                else p2);
          execute_qty = order_qty p quantity
      in p3\<lparr>pt_empty := pt_empty p3 - execute_qty, pt_on_shipper := pt_on_shipper p3 + execute_qty\<rparr>)"

definition on_order_generated :: "'r rng \<Rightarrow> int \<Rightarrow> order \<Rightarrow> 'r cim \<Rightarrow> ('r cim \<times> emit list) res" where
  "on_order_generated g tick order s =
     bindE (node_at (fr_ports s) (od_src_port_idx order)) (\<lambda>(pn, src_port).
       let s1 = put_port pn (book_order (od_quantity order) src_port) s
       in bindE (draw_buffer g ps_full_return_buffer pn s1) (\<lambda>(buffer, s2).
            Inr (s2, follow_up tick buffer RETURN_FULL
                       (LadenReturnPayload (od_src_port_idx order) (od_dest_port_idx order)
                          (order_qty src_port (od_quantity order))))))"

definition on_full_return :: "int \<Rightarrow> int \<Rightarrow> int \<Rightarrow> 'r cim \<Rightarrow> ('r cim \<times> emit list) res" where
  "on_full_return src_port_idx dest_port_idx quantity s =
     bindE (node_at (fr_ports s) src_port_idx) (\<lambda>(pn, p).
       let s1 = put_port pn (p\<lparr>pt_on_shipper := pt_on_shipper p - quantity, pt_full := pt_full p + quantity\<rparr>) s
       in bindE (mx_get (fr_full_on_ports s1) src_port_idx dest_port_idx) (\<lambda>pending.
          bindE (set_pending_full src_port_idx dest_port_idx (pending + quantity) s1) (\<lambda>s2. Inr (s2, []))))"

text \<open>The loop of \<open>_on_full_load\<close> over the reachable ports.\<close>

definition load_to_next ::
  "int \<Rightarrow> int \<Rightarrow> nat \<Rightarrow> nat \<Rightarrow> int \<Rightarrow> int \<Rightarrow> int \<Rightarrow> 'r cim \<Rightarrow> 'r cim res" where
  "load_to_next vessel_idx port_idx vi pn next_port_idx pending loaded_qty s =
     bindE (set_pending_full port_idx next_port_idx (pending - loaded_qty) s) (\<lambda>s1.
       let p = fr_ports s1 ! pn; v = fr_vessels s1 ! vi;
           s2 = put_vessel vi (set_full (vl_full v + loaded_qty) v)
                  (put_port pn (p\<lparr>pt_full := pt_full p - loaded_qty\<rparr>) s1)
       in bindE (mx_get (fr_full_on_vessels s2) vessel_idx next_port_idx) (\<lambda>n.
          bindE (mx_set (fr_full_on_vessels s2) vessel_idx next_port_idx (n + loaded_qty)) (\<lambda>m.
            Inr (s2\<lparr>fr_full_on_vessels := m\<rparr>))))"

fun load_loop ::
  "int \<Rightarrow> int \<Rightarrow> nat \<Rightarrow> nat \<Rightarrow> (int \<times> int) list \<Rightarrow> int \<Rightarrow> 'r cim \<Rightarrow> ('r cim \<times> emit list) res" where
  "load_loop vessel_idx port_idx vi pn [] acceptable_number s = Inr (s, [])"
| "load_loop vessel_idx port_idx vi pn ((next_port_idx, arrival_tick) # rs) acceptable_number s =
     bindE (mx_get (fr_full_on_ports s) port_idx next_port_idx) (\<lambda>pending.
       if 0 < acceptable_number \<and> 0 < pending then
         let loaded_qty = min pending acceptable_number
         in bindE (load_to_next vessel_idx port_idx vi pn next_port_idx pending loaded_qty s) (\<lambda>s1.
            bindE (load_loop vessel_idx port_idx vi pn rs (acceptable_number - loaded_qty) s1) (\<lambda>(s2, es).
              Inr (s2, EmitInsert arrival_tick True DISCHARGE_FULL
                         (VesselDischargePayload vessel_idx port_idx next_port_idx loaded_qty) # es)))
       else load_loop vessel_idx port_idx vi pn rs acceptable_number s)"

definition early_discharge :: "rat \<Rightarrow> nat \<Rightarrow> nat \<Rightarrow> 'r cim \<Rightarrow> 'r cim" where
  "early_discharge container_volume vi pn s =
     (let v = fr_vessels s ! vi; p = fr_ports s ! pn;
          total_container = vl_full v + vl_empty v;
          v0 = v\<lparr>vl_early_discharge := 0\<rparr>
      in if of_int (vl_capacity v) < of_int total_container * container_volume then
           let n = total_container - \<lceil>of_int (vl_capacity v) / container_volume\<rceil>
           in put_port pn (p\<lparr>pt_empty := pt_empty p + n\<rparr>)
                (put_vessel vi ((set_empty (vl_empty v0 - n) v0)\<lparr>vl_early_discharge := n\<rparr>) s)
         else put_vessel vi v0 s)"

definition on_full_load :: "int \<Rightarrow> int \<Rightarrow> 'r cim \<Rightarrow> ('r cim \<times> emit list) res" where
  "on_full_load port_idx vessel_idx s =
     bindE (node_at (fr_vessels s) vessel_idx) (\<lambda>(vi, v).
     bindE (node_at (fr_ports s) port_idx) (\<lambda>(pn, p).
       let container_volume = cd_container_volume (ci_data s);
           s1 = put_vessel vi (v\<lparr>vl_last_loc_idx := vl_next_loc_idx v\<rparr>) s;
           remaining_space = of_int (vl_capacity v) - of_int (vl_full v) * container_volume
       in if container_volume = 0 then Inl ZeroDivisionError
          else
            bindE (reachable_stops (ci_data s) vessel_idx (vl_route_idx v) (vl_next_loc_idx v)) (\<lambda>rs.
            bindE (load_loop vessel_idx port_idx vi pn rs \<lfloor>remaining_space / container_volume\<rfloor> s1)
              (\<lambda>(s2, es). Inr (early_discharge container_volume vi pn s2, es)))))"

fun write_plans :: "int \<Rightarrow> (int \<times> int) list \<Rightarrow> 'r cim \<Rightarrow> 'r cim res" where
  "write_plans vessel_idx [] s = Inr s"
| "write_plans vessel_idx ((plan_port_idx, plan_tick) # ps) s =
     bindE (mx_set (fr_vessel_plans s) vessel_idx plan_port_idx plan_tick) (\<lambda>m.
       write_plans vessel_idx ps (s\<lparr>fr_vessel_plans := m\<rparr>))"

definition on_arrival :: "int \<Rightarrow> int \<Rightarrow> 'r cim \<Rightarrow> ('r cim \<times> emit list) res" where
  "on_arrival port_idx vessel_idx s =
     bindE (node_at (fr_vessels s) vessel_idx) (\<lambda>(vi, v).
     bindE (get_stop (ci_data s) (int vi) (vl_next_loc_idx v)) (\<lambda>stop.
       let v1 = v\<lparr>vl_last_loc_idx := vl_next_loc_idx v, vl_is_parking := 1,
                  vl_loc_port_idx := st_port_idx stop\<rparr>
       in bindE (future_stops (ci_data s) (ci_offsets s) (int vi) (vl_last_loc_idx v1) (vl_next_loc_idx v1)) (\<lambda>fs.
          bindE (set_stop_list None (Some (map Some fs)) v1) (\<lambda>v2.
          bindE (planned_stops (ci_data s) (ci_offsets s) vessel_idx (vl_route_idx v2) (vl_last_loc_idx v2)) (\<lambda>ps.
          bindE (write_plans vessel_idx ps (put_vessel vi v2 s)) (\<lambda>s1. Inr (s1, [])))))))"

definition on_departure :: "int \<Rightarrow> int \<Rightarrow> 'r cim \<Rightarrow> ('r cim \<times> emit list) res" where
  "on_departure port_idx vessel_idx s =
     bindE (node_at (fr_vessels s) vessel_idx) (\<lambda>(vi, v).
       let v1 = v\<lparr>vl_next_loc_idx := vl_next_loc_idx v + 1, vl_is_parking := 0, vl_loc_port_idx := - 1\<rparr>
       in bindE (past_stops (ci_data s) (int vi) (vl_last_loc_idx v1) (vl_next_loc_idx v1)) (\<lambda>ps.
          bindE (set_stop_list (Some ps) None v1) (\<lambda>v2. Inr (put_vessel vi v2 s, []))))"

definition on_discharge ::
  "'r rng \<Rightarrow> int \<Rightarrow> int \<Rightarrow> int \<Rightarrow> int \<Rightarrow> int \<Rightarrow> 'r cim \<Rightarrow> ('r cim \<times> emit list) res" where
  "on_discharge g tick vessel_idx from_port_idx port_idx discharge_qty s =
     bindE (node_at (fr_vessels s) vessel_idx) (\<lambda>(vi, v).
     bindE (node_at (fr_ports s) port_idx) (\<lambda>(pn, p).
       let s1 = put_port pn (p\<lparr>pt_on_consignee := pt_on_consignee p + discharge_qty\<rparr>)
                  (put_vessel vi (set_full (vl_full v - discharge_qty) v) s)
       in bindE (mx_get (fr_full_on_vessels s1) vessel_idx port_idx) (\<lambda>n.
          bindE (mx_set (fr_full_on_vessels s1) vessel_idx port_idx (n - discharge_qty)) (\<lambda>m.
          bindE (draw_buffer g ps_empty_return_buffer pn (s1\<lparr>fr_full_on_vessels := m\<rparr>)) (\<lambda>(buffer, s2).
            Inr (s2, follow_up tick buffer RETURN_EMPTY (EmptyReturnPayload (int pn) discharge_qty)))))))"

definition on_empty_return :: "int \<Rightarrow> int \<Rightarrow> 'r cim \<Rightarrow> ('r cim \<times> emit list) res" where
  "on_empty_return port_idx quantity s =
     bindE (node_at (fr_ports s) port_idx) (\<lambda>(pn, p).
       Inr (put_port pn (p\<lparr>pt_on_consignee := pt_on_consignee p - quantity, pt_empty := pt_empty p + quantity\<rparr>) s,
            []))"

definition apply_action :: "cim_action \<Rightarrow> 'r cim \<Rightarrow> ('r cim \<times> emit) res" where
  "apply_action a s =
     bindE (node_at (fr_vessels s) (ac_vessel_idx a)) (\<lambda>(vi, v).
     bindE (node_at (fr_ports s) (ac_port_idx a)) (\<lambda>(pn, p).
       let move_num = ac_quantity a; discharge = (ac_action_type a = DISCHARGE);
           delta = (if discharge then move_num else - move_num)
       in assertE (if discharge then move_num \<le> vl_empty v
                   else move_num \<le> min (pt_empty p) (vl_remaining_space v))
            (let s1 = put_port pn (p\<lparr>pt_empty := pt_empty p + delta,
                                    pt_transfer_cost := pt_transfer_cost p + of_int move_num\<rparr>)
                        (put_vessel vi (set_empty (vl_empty v - delta) v) s);
                 s2 = s1\<lparr>ci_total_operate_num := ci_total_operate_num s1 + move_num\<rparr>
             in bindE (mx_get (fr_vessel_plans s2) (ac_vessel_idx a) (ac_port_idx a)) (\<lambda>n.
                bindE (py_get (cd_vessel_period (ci_data s2)) (ac_vessel_idx a)) (\<lambda>period.
                bindE (mx_set (fr_vessel_plans s2) (ac_vessel_idx a) (ac_port_idx a) (n + period)) (\<lambda>m.
                  Inr (s2\<lparr>fr_vessel_plans := m\<rparr>,
                       EmitRetype (if discharge then DISCHARGE_EMPTY else LOAD_EMPTY))))))))"

fun on_action_received :: "cim_action py_action list \<Rightarrow> 'r cim \<Rightarrow> ('r cim \<times> emit list) res" where
  "on_action_received [] s = Inr (s, [])"
| "on_action_received (x # xs) s =
     (case x of
        OneAction a \<Rightarrow>
          bindE (apply_action a s) (\<lambda>(s1, e).
          bindE (on_action_received xs s1) (\<lambda>(s2, es). Inr (s2, e # es)))
      | _ \<Rightarrow> Inl AssertionError)"

section \<open>Dispatch over the buffer\<close>

datatype cim_handler =
    On_full_return | On_empty_return | On_order_generated | On_full_load | On_arrival | On_departure
  | On_discharge | On_action_received

type_synonym cim_buffer = "(cim_events, cim_payload, cim_handler) event_buffer"
type_synonym 'r cim_world = "(cim_events, cim_payload, cim_handler, 'r cim) world"

text \<open>\<open>_register_events\<close>.\<close>

definition register_events :: "cim_buffer \<Rightarrow> cim_buffer" where
  "register_events b =
     fold (\<lambda>(ty, hn) b. register_event_handler b ty hn)
       [(Scenario RETURN_FULL, On_full_return), (Scenario RETURN_EMPTY, On_empty_return),
        (Scenario ORDER, On_order_generated), (Scenario LOAD_FULL, On_full_load),
        (Scenario VESSEL_ARRIVAL, On_arrival), (Scenario VESSEL_DEPARTURE, On_departure),
        (Scenario DISCHARGE_FULL, On_discharge), (TAKE_ACTION, On_action_received)] b"

text \<open>The bodies of the handlers start by asserting the class of the payload.\<close>

definition handle ::
  "'r rng \<Rightarrow> cim_handler \<Rightarrow> int option \<Rightarrow> cim_payload option \<Rightarrow> 'r cim \<Rightarrow> ('r cim \<times> emit list) res" where
  "handle g hn tick payload s =
     (case (hn, payload) of
        (On_full_return, Some (LadenReturnPayload src dest q)) \<Rightarrow> on_full_return src dest q s
      | (On_empty_return, Some (EmptyReturnPayload port q)) \<Rightarrow> on_empty_return port q s
      | (On_order_generated, Some (OrderPayload order)) \<Rightarrow>
          bindE (need tick) (\<lambda>t. on_order_generated g t order s)
      | (On_full_load, Some (VesselStatePayload port vessel)) \<Rightarrow> on_full_load port vessel s
      | (On_arrival, Some (VesselStatePayload port vessel)) \<Rightarrow> on_arrival port vessel s
      | (On_departure, Some (VesselStatePayload port vessel)) \<Rightarrow> on_departure port vessel s
      | (On_discharge, Some (VesselDischargePayload vessel src port q)) \<Rightarrow>
          bindE (need tick) (\<lambda>t. on_discharge g t vessel src port q s)
      | (On_action_received, Some (ActionsPayload actions)) \<Rightarrow> on_action_received actions s
      | _ \<Rightarrow> Inl AssertionError)"

definition apply_emit :: "addr \<Rightarrow> emit \<Rightarrow> cim_buffer \<Rightarrow> cim_buffer res" where
  "apply_emit event e b =
     (case e of
        EmitImmediate tick ty payload \<Rightarrow>
          (let (b1, a) = gen_atom_event b tick (Scenario ty) (Some payload)
           in bindE (add_immediate_event (eb_heap b1) event a False) (\<lambda>(h, added). Inr (b1\<lparr>eb_heap := h\<rparr>)))
      | EmitInsert tick cascade ty payload \<Rightarrow>
          (let (b1, a) = gen_event b (Some tick) (Some (Scenario ty)) (Some payload) cascade
           in Inr (insert_event b1 a))
      | EmitRetype ty \<Rightarrow>
          Inr (b\<lparr>eb_heap := upd (eb_heap b) event (\<lambda>ev. ev\<lparr>ev_type := Some (Scenario ty)\<rparr>)\<rparr>))"

definition cim_invoke :: "'r rng \<Rightarrow> cim_handler \<Rightarrow> addr \<Rightarrow> 'r cim_world \<Rightarrow> 'r cim_world res" where
  "cim_invoke g hn event w =
     (let ev = eb_heap (fst w) event
      in bindE (handle g hn (ev_tick ev) (ev_payload ev) (snd w)) (\<lambda>(s, es).
         bindE (foldE (apply_emit event) es (fst w)) (\<lambda>b. Inr (b, s))))"

section \<open>Ticks\<close>

definition get_orders :: "'r rng \<Rightarrow> int \<Rightarrow> int \<Rightarrow> 'r cim \<Rightarrow> (order list \<times> 'r cim) res" where
  "get_orders g tick total_empty_container s =
     bindE (case ci_source s of
              Synthetic d \<Rightarrow> synthetic_get_orders g d tick total_empty_container (ci_container s)
            | Real d \<Rightarrow> real_get_orders g d tick total_empty_container (ci_container s))
       (\<lambda>(os, c). Inr (os, s\<lparr>ci_container := c\<rparr>))"

definition export_order :: "order \<Rightarrow> 'r cim \<Rightarrow> 'r cim" where
  "export_order order s =
     (if ci_export_enabled s then s\<lparr>ci_exported := ci_exported s @ [order]\<rparr> else s)"

definition push_order :: "int \<Rightarrow> order \<Rightarrow> 'r cim_world \<Rightarrow> 'r cim_world" where
  "push_order tick order w =
     (let (b1, a) = gen_cascade_event (fst w) tick (Scenario ORDER) (Some (OrderPayload order))
      in (insert_event b1 a, export_order order (snd w)))"

text \<open>One vessel of the loop in \<open>step\<close>; the decision events are kept back.\<close>

definition check_arrival ::
  "int \<Rightarrow> nat \<Rightarrow> ('r cim_world \<times> addr list) \<Rightarrow> ('r cim_world \<times> addr list) res" where
  "check_arrival tick vi wd =
     (let ((b, s), decisions) = wd; v = fr_vessels s ! vi; loc_idx = vl_next_loc_idx v
      in bindE (get_stop (ci_data s) (int vi) loc_idx) (\<lambda>stop.
           if 0 < loc_idx \<and> st_arrival_tick stop = tick then
             let payload = VesselStatePayload (st_port_idx stop) (int vi);
                 (b1, arrival) = gen_atom_event b tick (Scenario VESSEL_ARRIVAL) (Some payload);
                 (b2, load) = gen_atom_event b1 tick (Scenario LOAD_FULL) (Some payload);
                 b3 = insert_event (insert_event b2 arrival) load;
                 (b4, decision) = gen_decision_event b3 tick
                   (DecisionPayload (mk_decision_event tick (st_port_idx stop) (int vi)))
             in bindE (mx_set (fr_vessel_plans s) (int vi) (st_port_idx stop) (st_arrival_tick stop)) (\<lambda>m.
                  Inr ((b4, s\<lparr>fr_vessel_plans := m\<rparr>), decisions @ [decision]))
           else Inr wd))"

definition total_empty :: "'r cim \<Rightarrow> int" where
  "total_empty s = sum_list (map pt_empty (fr_ports s)) + sum_list (map vl_empty (fr_vessels s))"

definition cim_step :: "'r rng \<Rightarrow> int \<Rightarrow> 'r cim_world \<Rightarrow> 'r cim_world res" where
  "cim_step g tick w =
     bindE (get_orders g tick (total_empty (snd w)) (snd w)) (\<lambda>(orders, s1).
       let w1 = fold (push_order tick) orders (fst w, s1)
       in bindE (foldE (check_arrival tick) [0..<length (fr_vessels (snd w1))] (w1, [])) (\<lambda>(w2, decisions).
            Inr (foldl insert_event (fst w2) decisions, snd w2)))"

definition cim_take_snapshot :: "int \<Rightarrow> 'r cim \<Rightarrow> 'r cim" where
  "cim_take_snapshot fi s = s\<lparr>ci_snapshots := ci_snapshots s @ [(fi, cim_frame.truncate s)]\<rparr>"

definition clear_tick_fields :: "port \<Rightarrow> port" where
  "clear_tick_fields p =
     (set_booking 0 (set_shortage 0 p))\<lparr>pt_fulfillment := 0, pt_transfer_cost := 0\<rparr>"

definition cim_post_step :: "int \<Rightarrow> 'r cim \<Rightarrow> ('r cim \<times> bool) res" where
  "cim_post_step tick s =
     (let resolution = be_snapshot_resolution (ci_base s); finished = (tick + 1 = be_max_tick (ci_base s))
      in if resolution = 0 then Inl ZeroDivisionError
         else if (tick + 1) mod resolution = 0 then
           let s1 = s\<lparr>fr_ports := map (\<lambda>p. p\<lparr>pt_acc_fulfillment := pt_acc_booking p - pt_acc_shortage p\<rparr>)
                                   (fr_ports s)\<rparr>
           in bindE (be_frame_index (ci_base s) tick) (\<lambda>fi.
                let s2 = cim_take_snapshot fi s1
                in Inr (s2\<lparr>fr_ports := map clear_tick_fields (fr_ports s2)\<rparr>, finished))
         else Inr (s, finished))"

section \<open>Initialisation and reset\<close>

text \<open>\<open>_load_departure_events\<close>: every stop's departure is scheduled at the beginning.\<close>

definition push_departure :: "int \<Rightarrow> stop \<Rightarrow> cim_buffer \<Rightarrow> cim_buffer" where
  "push_departure vessel_idx stop b =
     (let (b1, a) = gen_atom_event b (st_leave_tick stop) (Scenario VESSEL_DEPARTURE)
                      (Some (VesselStatePayload (st_port_idx stop) vessel_idx))
      in insert_event b1 a)"

definition load_departure_events :: "cim_data \<Rightarrow> cim_buffer \<Rightarrow> cim_buffer" where
  "load_departure_events data b =
     fold (\<lambda>(vi, stops) b. fold (push_departure (int vi)) stops b) (enumerate 0 (cd_vessel_stops data)) b"

definition init_vessel_plan :: "nat \<Rightarrow> 'r cim \<Rightarrow> 'r cim res" where
  "init_vessel_plan vi s =
     (let v = fr_vessels s ! vi; last_loc = vl_last_loc_idx v; next_loc = vl_next_loc_idx v
      in bindE (get_stop (ci_data s) (int vi) last_loc) (\<lambda>stop.
           let v1 = v\<lparr>vl_is_parking := (if last_loc = next_loc then 1 else 0), vl_loc_port_idx := st_port_idx stop\<rparr>
           in bindE (past_stops (ci_data s) (int vi) last_loc next_loc) (\<lambda>ps.
              bindE (future_stops (ci_data s) (ci_offsets s) (int vi) last_loc next_loc) (\<lambda>fs.
              bindE (set_stop_list (Some ps) (Some (map Some fs)) v1) (\<lambda>v2.
              bindE (planned_stops (ci_data s) (ci_offsets s) (int vi) (vl_route_idx v2) last_loc) (\<lambda>plan.
                write_plans (int vi) plan (put_vessel vi v2 s)))))))"

definition init_vessel_plans :: "'r cim \<Rightarrow> 'r cim res" where
  "init_vessel_plans s = foldE init_vessel_plan [0..<length (fr_vessels s)] s"

text \<open>\<open>_init_nodes\<close>: the settings are applied by index.\<close>

definition init_port :: "port_setting \<Rightarrow> 'r cim \<Rightarrow> 'r cim res" where
  "init_port setting s =
     bindE (node_at (fr_ports s) (ps_index setting)) (\<lambda>(pn, p).
       Inr (put_port pn (port_set_init_state (ps_name setting) (ps_capacity setting) (ps_empty setting) p) s))"

definition init_vessel :: "vessel_setting \<Rightarrow> 'r cim \<Rightarrow> 'r cim res" where
  "init_vessel setting s =
     bindE (node_at (fr_vessels s) (vs_index setting)) (\<lambda>(vi, v).
     bindE (dict_get (cd_route_mapping (ci_data s)) (vs_route_name setting)) (\<lambda>route_idx.
     bindE (vessel_set_init_state (vs_name setting) (cd_container_volume (ci_data s)) (vs_capacity setting)
              route_idx (vs_empty setting) v) (\<lambda>v1.
       Inr (put_vessel vi v1 s))))"

definition init_nodes :: "'r cim \<Rightarrow> 'r cim res" where
  "init_nodes s =
     bindE (foldE init_port (cd_port_settings (ci_data s)) s) (\<lambda>s1.
     bindE (foldE init_vessel (cd_vessel_settings (ci_data s1)) s1) (\<lambda>s2.
       Inr (s2\<lparr>fr_vessel_plans := mx_fill (fr_vessel_plans s2) (- 1)\<rparr>)))"

definition reset_nodes :: "'r cim \<Rightarrow> 'r cim" where
  "reset_nodes s =
     s\<lparr>fr_ports := map port_reset (fr_ports s), fr_vessels := map vessel_reset (fr_vessels s),
       fr_vessel_plans := mx_fill (fr_vessel_plans s) (- 1)\<rparr>"

definition frame_reset :: "'r cim \<Rightarrow> 'r cim" where
  "frame_reset s =
     s\<lparr>fr_ports := map frame_reset_port (fr_ports s), fr_vessels := map frame_reset_vessel (fr_vessels s),
       fr_full_on_ports := mx_fill (fr_full_on_ports s) 0,
       fr_full_on_vessels := mx_fill (fr_full_on_vessels s) 0,
       fr_vessel_plans := mx_fill (fr_vessel_plans s) 0\<rparr>"

text \<open>\<open>_init_frame\<close>: nodes with all attributes zero, then the initial settings.\<close>

definition blank_port :: port where
  "blank_port = \<lparr>pt_capacity = 0, pt_empty = 0, pt_full = 0, pt_on_shipper = 0, pt_on_consignee = 0,
      pt_shortage = 0, pt_acc_shortage = 0, pt_booking = 0, pt_acc_booking = 0, pt_fulfillment = 0,
      pt_acc_fulfillment = 0, pt_transfer_cost = 0, pt_init_name = [], pt_init_capacity = 0, pt_init_empty = 0\<rparr>"

definition blank_vessel :: "int \<Rightarrow> int \<Rightarrow> vessel" where
  "blank_vessel past_num future_num =
     \<lparr>vl_capacity = 0, vl_empty = 0, vl_full = 0, vl_remaining_space = 0, vl_early_discharge = 0,
      vl_is_parking = 0, vl_loc_port_idx = 0, vl_route_idx = 0, vl_last_loc_idx = 0, vl_next_loc_idx = 0,
      vl_past_stop_list = replicate (nat past_num) 0, vl_past_stop_tick_list = replicate (nat past_num) 0,
      vl_future_stop_list = replicate (nat future_num) 0, vl_future_stop_tick_list = replicate (nat future_num) 0,
      vl_init_name = [], vl_init_capacity = 0, vl_total_space = 0, vl_container_volume = 0,
      vl_init_route_idx = 0, vl_init_empty = 0\<rparr>"

definition gen_cim_frame :: "int \<Rightarrow> int \<Rightarrow> int \<times> int \<Rightarrow> cim_frame" where
  "gen_cim_frame port_num vessel_num stop_nums =
     \<lparr>fr_ports = replicate (nat port_num) blank_port,
      fr_vessels = replicate (nat vessel_num) (blank_vessel (fst stop_nums) (snd stop_nums)),
      fr_full_on_ports = new_matrix port_num port_num,
      fr_full_on_vessels = new_matrix vessel_num port_num,
      fr_vessel_plans = new_matrix vessel_num port_num\<rparr>"

text \<open>\<open>CimBusinessEngine.__init__\<close>, from a data collection that has been loaded or generated.\<close>

definition init_cim ::
  "cim_source \<Rightarrow> 'r container_state \<Rightarrow> engine_base \<Rightarrow> bool \<Rightarrow> cim_buffer \<Rightarrow> 'r cim_world res" where
  "init_cim src container base export_enabled b =
     (let data = base_of src;
          frame = gen_cim_frame (int (length (cd_port_settings data))) (int (length (cd_vessel_settings data)))
                    (cd_past_stop_number data, cd_future_stop_number data)
      in bindE (make_vessel_start_port_offsets data) (\<lambda>offsets.
         bindE (calc_max_snapshots base) (\<lambda>max_snapshots.
         bindE (init_nodes (cim_frame.extend frame
                  \<lparr>ci_source = src, ci_offsets = offsets, ci_container = container,
                   ci_random_seed = None, ci_re_init_flag = False, ci_total_operate_num = 0,
                   ci_base = base, ci_snapshots = [], ci_export_enabled = export_enabled,
                   ci_exported = []\<rparr>)) (\<lambda>s1.
         bindE (init_vessel_plans s1) (\<lambda>s2.
           Inr (load_departure_events data (register_events b), s2))))))"

text \<open>\<open>CimDataContainerWrapper\<close>: building the container again, with a given seed or the configured one.\<close>

definition init_data_container ::
  "'r cim_params \<Rightarrow> int option \<Rightarrow> 'r cim \<Rightarrow> 'r cim res option" where
  "init_data_container c topology_seed s =
     (case cp_conf c of
        None \<Rightarrow>
          Some (bindE (make_vessel_start_port_offsets (ci_data s)) (\<lambda>offsets.
            Inr (s\<lparr>ci_offsets := offsets,
                   ci_container := \<lparr>cs_is_need_reset_seed = False,
                     cs_random = sim_seed (rg_seeded (cp_rng c)) (cd_seed (ci_data s)) (cs_random (ci_container s))\<rparr>\<rparr>)))
      | Some conf \<Rightarrow>
          (case gen_cim_data (cp_rng c) (cp_interp c) conf (be_max_tick (ci_base s)) 0 topology_seed
                  (cs_random (ci_container s)) of
             None \<Rightarrow> None
           | Some (Inl err) \<Rightarrow> Some (Inl err)
           | Some (Inr (d, r)) \<Rightarrow>
               Some (bindE (make_vessel_start_port_offsets (cim_data.truncate d)) (\<lambda>offsets.
                 Inr (s\<lparr>ci_source := Synthetic d, ci_offsets := offsets,
                        ci_container := \<lparr>cs_is_need_reset_seed = False, cs_random = r\<rparr>\<rparr>)))))"

definition wrapper_reset :: "'r cim_params \<Rightarrow> bool \<Rightarrow> 'r cim \<Rightarrow> 'r cim res option" where
  "wrapper_reset c keep_seed s =
     (case (if keep_seed then Inr s
            else bindE (draw (cp_rng c) ROUTE_INIT_RAND_KEY
                          (\<lambda>r. rg_randint (cp_rng c) r 0 (DATA_CONTAINER_INIT_SEED_LIMIT - 1))
                          (cs_random (ci_container s)))
                   (\<lambda>(n, r). Inr (s\<lparr>ci_random_seed := Some n, ci_re_init_flag := True,
                                     ci_container := (ci_container s)\<lparr>cs_random := r\<rparr>\<rparr>))) of
        Inl err \<Rightarrow> Some (Inl err)
      | Inr s1 \<Rightarrow>
          (if ci_re_init_flag s1 then
             (case init_data_container c (ci_random_seed s1) s1 of
                None \<Rightarrow> None
              | Some (Inl err) \<Rightarrow> Some (Inl err)
              | Some (Inr s2) \<Rightarrow> Some (Inr (s2\<lparr>ci_re_init_flag := False\<rparr>)))
           else Some (Inr (s1\<lparr>ci_container := container_reset (ci_container s1)\<rparr>))))"

definition cim_set_seed :: "int \<Rightarrow> 'r cim \<Rightarrow> 'r cim" where
  "cim_set_seed random_seed s = s\<lparr>ci_random_seed := Some random_seed, ci_re_init_flag := True\<rparr>"

text \<open>\<open>reset\<close>, after the environment has reset the buffer.\<close>

definition cim_reset :: "'r cim_params \<Rightarrow> bool \<Rightarrow> 'r cim_world \<Rightarrow> 'r cim_world res option" where
  "cim_reset c keep_seed w =
     (let s1 = reset_nodes (frame_reset ((snd w)\<lparr>ci_snapshots := []\<rparr>))
      in case wrapper_reset c keep_seed s1 of
           None \<Rightarrow> None
         | Some (Inl err) \<Rightarrow> Some (Inl err)
         | Some (Inr s2) \<Rightarrow>
             Some (bindE (init_vessel_plans s2) (\<lambda>s3.
               Inr (load_departure_events (ci_data s2) (fst w), s3\<lparr>ci_total_operate_num := 0\<rparr>))))"

text \<open>The engine as the environment sees it.\<close>

definition cim_engine ::
  "'r cim_params \<Rightarrow> (cim_events, cim_payload, cim_handler, 'r cim, cim_action, cim_metrics) engine" where
  "cim_engine c =
     \<lparr>ng_step = cim_step (cp_rng c), ng_post_step = cim_post_step, ng_invoke = cim_invoke (cp_rng c),
      ng_snapshot = cim_take_snapshot, ng_metrics = cim_get_metrics,
      ng_reset = cim_reset c, ng_actions = ActionsPayload\<rparr>"

end
