(* ===== verification/CimGenProps.thy ===== *)
theory CimGenProps imports CimGen begin

text \<open>
  Properties of the generator: names and indices agree, the order proportion stays within the
  containers, and the unrolling of a route ends and yields a consistent timetable.
\<close>

section \<open>Names and indices\<close>

lemma index_names_spec:
  "distinct (map fst conf) \<Longrightarrow> j < length conf \<Longrightarrow>
   map_of (index_names conf i m) (fst (conf ! j)) = Some (i + int j)"
proof (induction conf i m arbitrary: j rule: index_names.induct)
  case (2 name node conf i m)
  have other: "k \<notin> set (map fst conf) \<Longrightarrow> map_of (index_names conf i m) k = map_of m k" for k i m
    by (induction conf i m rule: index_names.induct) auto
  show ?case
  proof (cases j)
    case 0
    with 2(2) other [of name] show ?thesis by simp
  next
    case (Suc j')
    with 2 show ?thesis by simp
  qed
qed simp

lemma parse_ports_loop_spec:
  "parse_ports_loop m tot conf i = Inr ps \<Longrightarrow> length ps = length conf \<and>
   (\<forall>j < length conf. ps_index (ps ! j) = i + int j \<and> ps_name (ps ! j) = fst (conf ! j) \<and>
      ps_empty (ps ! j) = py_int (pc_initial_container_proportion (snd (conf ! j)) * of_int tot))"
  by (induction m tot conf i arbitrary: ps rule: parse_ports_loop.induct)
     (auto simp: res_simps nth_Cons split: nat.splits)

text \<open>Every port of the configuration is found under its name at its own index.\<close>

text \<open>Looking up a configured port name in the parsed mapping gives the position of its
  settings, which carry that name and that index.\<close>

theorem parse_ports_mapping:
  assumes "parse_ports conf tot = Inr (mapping, ports)" "distinct (map fst conf)" "j < length conf"
  shows "dict_get mapping (fst (conf ! j)) = Inr (int j) \<and> length ports = length conf \<and>
         ps_index (ports ! j) = int j \<and> ps_name (ports ! j) = fst (conf ! j)"
proof -
  from assms(1) have "mapping = index_names conf 0 []" "parse_ports_loop mapping tot conf 0 = Inr ports"
    by (auto simp: parse_ports_def Let_def res_simps)
  with index_names_spec [OF assms(2,3), of 0 "[]"] parse_ports_loop_spec [of mapping tot conf 0 ports] assms(3)
  show ?thesis by (simp add: dict_get_def)
qed

lemma parse_vessels_loop_spec:
  assumes "distinct (map fst conf)" "int (length vs) = i"
  shows "length (snd (parse_vessels_loop conf i m vs)) = length vs + length conf \<and>
    (\<forall>j < length vs. snd (parse_vessels_loop conf i m vs) ! j = vs ! j) \<and>
    (\<forall>k. k \<notin> set (map fst conf) \<longrightarrow> map_of (fst (parse_vessels_loop conf i m vs)) k = map_of m k) \<and>
    (\<forall>j < length conf. map_of (fst (parse_vessels_loop conf i m vs)) (fst (conf ! j)) = Some (i + int j) \<and>
       vs_index (snd (parse_vessels_loop conf i m vs) ! (length vs + j)) = i + int j \<and>
       vs_name (snd (parse_vessels_loop conf i m vs) ! (length vs + j)) = fst (conf ! j))"
  using assms
proof (induction conf i m vs rule: parse_vessels_loop.induct)
  case (2 name node conf i m vs)
  let ?v = "\<lparr>vs_index = i, vs_name = name, vs_capacity = vc_capacity node,
      vs_route_name = vc_route_name node, vs_start_port_name = Some (vc_initial_port_name node),
      vs_sailing_speed = Some (vc_speed node), vs_sailing_noise = Some (vc_speed_noise node),
      vs_parking_duration = Some (vc_duration node), vs_parking_noise = Some (vc_duration_noise node),
      vs_empty = (case vc_empty node of Some n \<Rightarrow> n | None \<Rightarrow> 0)\<rparr>"
  let ?r = "parse_vessels_loop conf (i + 1) (AList.update name i m) (vs @ [?v])"
  from 2 have IH: "length (snd ?r) = Suc (length vs) + length conf"
    "\<forall>j < Suc (length vs). snd ?r ! j = (vs @ [?v]) ! j"
    "\<forall>k. k \<notin> set (map fst conf) \<longrightarrow> map_of (fst ?r) k = ((map_of m)(name \<mapsto> i)) k"
    "\<forall>j < length conf. map_of (fst ?r) (fst (conf ! j)) = Some (i + 1 + int j) \<and>
       vs_index (snd ?r ! (Suc (length vs) + j)) = i + 1 + int j \<and>
       vs_name (snd ?r ! (Suc (length vs) + j)) = fst (conf ! j)"
    by simp_all
  have z: "map_of (fst ?r) name = Some i" using IH(3) 2(2) by simp
  have l: "snd ?r ! length vs = ?v" using IH(2) by simp
  show ?case
  proof (intro conjI allI impI)
    fix j assume j: "j < length ((name, node) # conf)"
    show "map_of (fst (parse_vessels_loop ((name, node) # conf) i m vs)) (fst (((name, node) # conf) ! j)) = Some (i + int j)"
      using z IH(4) j by (cases j) auto
    show "vs_index (snd (parse_vessels_loop ((name, node) # conf) i m vs) ! (length vs + j)) = i + int j"
      using l IH(4) j by (cases j) auto
    show "vs_name (snd (parse_vessels_loop ((name, node) # conf) i m vs) ! (length vs + j)) = fst (((name, node) # conf) ! j)"
      using l IH(4) j by (cases j) auto
  qed (use IH in \<open>auto simp: nth_append\<close>)
qed simp

section \<open>Order proportion\<close>

lemma tick_orders_bounds:
  assumes "tick_orders g noise tot orders s = Inr (n, s')" "0 \<le> tot"
  shows "0 \<le> n \<and> n \<le> tot"
proof -
  have b: "0 \<le> \<lfloor>clip 0 1 x * of_int tot\<rfloor> \<and> \<lfloor>clip 0 1 x * of_int tot\<rfloor> \<le> tot" for x
  proof -
    have c: "0 \<le> clip 0 1 x" "clip 0 1 x \<le> 1" by (simp_all add: clip_def)
    then have "clip 0 1 x * of_int tot \<le> 1 * of_int tot" using assms(2) by (intro mult_right_mono) simp_all
    then show ?thesis using c assms(2) by (simp add: floor_le_iff)
  qed
  show ?thesis
  proof (cases "orders = 0")
    case True
    with assms show ?thesis by (simp add: tick_orders_def)
  next
    case False
    with assms(1) obtain x where "n = \<lfloor>clip 0 1 x * of_int tot\<rfloor>" by (auto simp: tick_orders_def res_simps)
    with b show ?thesis by blast
  qed
qed

lemma proportion_loop_bounds:
  assumes "proportion_loop g period noise distr tot ts s = Inr (ns, s')" "0 \<le> tot"
  shows "length ns = length ts \<and> list_all (\<lambda>n. 0 \<le> n \<and> n \<le> tot) ns"
  using assms(1)
proof (induction ts arbitrary: s ns)
  case (Cons t ts)
  from Cons.prems obtain orders n s1 ns1 where "tick_orders g noise tot orders s = Inr (n, s1)"
    and l: "proportion_loop g period noise distr tot ts s1 = Inr (ns1, s')" "ns = n # ns1"
    by (auto simp: res_simps split: if_splits)
  with tick_orders_bounds [OF this(1) assms(2)] Cons.IH [OF l(1)] show ?case by simp
qed simp

text \<open>However large the noise, a tick is never given more orders than there are containers.\<close>

text \<open>The global order proportion has one entry per tick of the episode, each between 0
  and the number of containers.\<close>

theorem order_proportion_bounds:
  assumes "parse_global_order_proportion g interp conf tot max_tick start_tick s = Inr (ns, s')"
    and "0 \<le> tot"
  shows "length ns = nat (max_tick - start_tick) \<and> list_all (\<lambda>n. 0 \<le> n \<and> n \<le> tot) ns"
  using assms
  by (auto simp: parse_global_order_proportion_def res_simps Let_def split: if_splits
      dest!: proportion_loop_bounds)

section \<open>Unrolling\<close>

text \<open>Speeds that stay positive under noise, distances that are not negative.\<close>

definition sailing_ok :: "vessel_setting \<Rightarrow> route_point list \<Rightarrow> bool" where
  "sailing_ok vessel rps \<longleftrightarrow> (case (vs_sailing_speed vessel, vs_sailing_noise vessel) of
     (Some speed, Some noise) \<Rightarrow> \<bar>noise\<bar> < speed | _ \<Rightarrow> False) \<and>
     list_all (\<lambda>p. 0 \<le> rp_distance_to_next_port p) rps"

lemma unroll_step_result:
  assumes step: "unroll_step g rps pm vessel max_tick u = Inr u'" and law: "rng_law g" "sailing_ok vessel rps"
  obtains p port parking sailing where "py_get rps (ur_loc u) = Inr p" "dict_get pm (rp_port_name p) = Inr port"
    "0 < parking" "0 \<le> sailing" "ur_tick u' = ur_tick u + (parking + sailing)"
    "ur_stops u' = ur_stops u @ [\<lparr>st_index = ur_index u, st_arrival_tick = ur_tick u,
       st_leave_tick = ur_tick u + parking, st_port_idx = port, st_vessel_idx = vs_index vessel\<rparr>]"
    "ur_loc u' = (ur_loc u + 1) mod int (length rps)" "ur_index u' = ur_index u + 1"
    "ur_extra u' = ur_extra u + (if max_tick < ur_tick u' then 1 else 0)"
proof -
  from step obtain p port duration duration_noise noised r1 speed speed_noise noised_speed r2 sailing sl where
    e: "py_get rps (ur_loc u) = Inr p" "dict_get pm (rp_port_name p) = Inr port"
    "need (vs_parking_duration vessel) = Inr duration"
    "apply_noise g (of_int duration) duration_noise ROUTE_INIT_RAND_KEY (ur_random u) = Inr (noised, r1)"
    "0 < \<lceil>noised\<rceil>" "need (vs_sailing_speed vessel) = Inr speed" "need (vs_sailing_noise vessel) = Inr speed_noise"
    "apply_noise g speed speed_noise ROUTE_INIT_RAND_KEY r1 = Inr (noised_speed, r2)"
    "ceil_div (rp_distance_to_next_port p) noised_speed = Inr sailing"
    "ceil_div (rp_distance_to_next_port p) speed = Inr sl"
    and u': "ur_tick u' = ur_tick u + (\<lceil>noised\<rceil> + sailing)"
    "ur_stops u' = ur_stops u @ [\<lparr>st_index = ur_index u, st_arrival_tick = ur_tick u,
       st_leave_tick = ur_tick u + \<lceil>noised\<rceil>, st_port_idx = port, st_vessel_idx = vs_index vessel\<rparr>]"
    "ur_loc u' = (ur_loc u + 1) mod int (length rps)" "ur_index u' = ur_index u + 1"
    "ur_extra u' = ur_extra u + (if max_tick < ur_tick u' then 1 else 0)"
    unfolding unroll_step_def Let_def by (auto simp: res_simps simp del: zero_less_ceiling)
  obtain x where x: "noised_speed = speed + x" "\<bar>x\<bar> \<le> \<bar>speed_noise\<bar>"
    using apply_noise_total [OF law(1), of speed speed_noise ROUTE_INIT_RAND_KEY r1] e(8)
    by (metis Inr_inject Pair_inject)
  have "\<bar>speed_noise\<bar> < speed" "0 \<le> rp_distance_to_next_port p"
    using law(2) e(6,7) py_get_mem [OF e(1)]
    by (auto simp: sailing_ok_def need_def list_all_iff split: option.splits)
  with x have "0 \<le> of_int (rp_distance_to_next_port p) / noised_speed" by simp
  then have "0 \<le> \<lceil>of_int (rp_distance_to_next_port p) / noised_speed\<rceil>" by linarith
  moreover from e(9) have "sailing = \<lceil>of_int (rp_distance_to_next_port p) / noised_speed\<rceil>"
    by (auto simp: ceil_div_def split: if_splits)
  ultimately have "0 \<le> sailing" by simp
  from that [OF e(1,2,5) this u'] show thesis .
qed

text \<open>
  The loop ends: every stop takes at least a tick, so the tick passes \<open>max_tick\<close>, and from then on each
  stop counts as an extra one.
\<close>

text \<open>Unrolling the stops of a vessel terminates when its speed exceeds its noise,
  whatever the generator draws.\<close>

theorem unroll_loop_returns:
  assumes "rng_law g" "sailing_ok vessel rps"
  shows "\<exists>r. unroll_loop g rps pm vessel max_tick n u = Some r"
proof (induction "nat (max_tick + 1 - ur_tick u) + nat (n + 1 - ur_extra u)" arbitrary: u rule: less_induct)
  case less
  show ?case
  proof (cases "ur_extra u \<le> n")
    case True
    show ?thesis
    proof (cases "unroll_step g rps pm vessel max_tick u")
      case (Inl err)
      with True show ?thesis by (subst unroll_loop.simps) simp
    next
      case (Inr u')
      from Inr assms obtain parking sailing where p: "0 < parking" "(0 :: int) \<le> sailing"
        "ur_tick u' = ur_tick u + (parking + sailing)"
        "ur_extra u' = ur_extra u + (if max_tick < ur_tick u' then 1 else 0)"
        by (rule unroll_step_result)
      have "nat (max_tick + 1 - ur_tick u') + nat (n + 1 - ur_extra u') <
            nat (max_tick + 1 - ur_tick u) + nat (n + 1 - ur_extra u)"
      proof (cases "max_tick < ur_tick u'")
        case True
        with p \<open>ur_extra u \<le> n\<close> show ?thesis by simp
      next
        case False
        with p show ?thesis by simp
      qed
      from less [OF this] Inr True show ?thesis by (subst unroll_loop.simps) simp
    qed
  next
    case False
    then show ?thesis by (subst unroll_loop.simps) simp
  qed
qed

text \<open>The timetable of a vessel: consecutive stops, each at its port of the route, in time order.\<close>

definition timetable :: "route_point list \<Rightarrow> (string \<times> int) list \<Rightarrow> int \<Rightarrow> int \<Rightarrow> stop list \<Rightarrow> bool" where
  "timetable rps pm v loc0 ss \<longleftrightarrow>
     (ss \<noteq> [] \<longrightarrow> st_arrival_tick (hd ss) = 0) \<and>
     (\<forall>i < length ss. st_index (ss ! i) = int i \<and> st_vessel_idx (ss ! i) = v \<and>
        st_arrival_tick (ss ! i) < st_leave_tick (ss ! i) \<and>
        (Suc i < length ss \<longrightarrow> st_leave_tick (ss ! i) \<le> st_arrival_tick (ss ! Suc i)) \<and>
        dict_get pm (rp_port_name (rps ! nat ((loc0 + int i) mod int (length rps)))) = Inr (st_port_idx (ss ! i)))"

definition unroll_inv ::
  "route_point list \<Rightarrow> (string \<times> int) list \<Rightarrow> vessel_setting \<Rightarrow> int \<Rightarrow> int \<Rightarrow> 'r unroll \<Rightarrow> bool" where
  "unroll_inv rps pm vessel max_tick loc0 u \<longleftrightarrow>
     timetable rps pm (vs_index vessel) loc0 (ur_stops u) \<and>
     ur_index u = int (length (ur_stops u)) \<and>
     ur_loc u = (loc0 + int (length (ur_stops u))) mod int (length rps) \<and>
     (ur_stops u = [] \<longrightarrow> ur_tick u = 0) \<and>
     (ur_stops u \<noteq> [] \<longrightarrow> st_leave_tick (last (ur_stops u)) \<le> ur_tick u) \<and>
     0 \<le> ur_extra u \<and> (0 < ur_extra u \<longrightarrow> max_tick < ur_tick u) \<and>
     (max_tick < ur_tick u \<longrightarrow> 0 < ur_extra u \<or> ur_stops u = []) \<and>
     (0 < ur_extra u \<longrightarrow>
        ur_extra u \<le> int (length (filter (\<lambda>s. max_tick < st_arrival_tick s) (ur_stops u))) + 1)"

lemma timetable_snoc:
  assumes t: "timetable rps pm v loc0 ss" and a: "ss = [] \<longrightarrow> st_arrival_tick s = 0"
    "ss \<noteq> [] \<longrightarrow> st_leave_tick (last ss) \<le> st_arrival_tick s"
    and s: "st_index s = int (length ss)" "st_vessel_idx s = v" "st_arrival_tick s < st_leave_tick s"
    "dict_get pm (rp_port_name (rps ! nat ((loc0 + int (length ss)) mod int (length rps)))) = Inr (st_port_idx s)"
  shows "timetable rps pm v loc0 (ss @ [s])"
proof -
  have "st_leave_tick ((ss @ [s]) ! i) \<le> st_arrival_tick ((ss @ [s]) ! Suc i)" if "i < length ss" for i
  proof (cases "Suc i < length ss")
    case True
    with t that show ?thesis by (simp add: timetable_def nth_append)
  next
    case False
    with that have i: "i = length ss - 1" "ss \<noteq> []" by auto
    then have "ss ! i = last ss" by (simp add: last_conv_nth)
    with False that a(2) i(2) show ?thesis by (simp add: nth_append not_less_eq less_antisym)
  qed
  moreover have "st_index ((ss @ [s]) ! i) = int i \<and> st_vessel_idx ((ss @ [s]) ! i) = v \<and>
      st_arrival_tick ((ss @ [s]) ! i) < st_leave_tick ((ss @ [s]) ! i) \<and>
      dict_get pm (rp_port_name (rps ! nat ((loc0 + int i) mod int (length rps)))) = Inr (st_port_idx ((ss @ [s]) ! i))"
    if "i < length (ss @ [s])" for i
  proof (cases "i < length ss")
    case True
    with t show ?thesis by (simp add: timetable_def nth_append)
  next
    case False
    with that have "i = length ss" by simp
    with s show ?thesis by simp
  qed
  moreover have "st_arrival_tick (hd (ss @ [s])) = 0" using t a(1) by (cases ss) (auto simp: timetable_def)
  ultimately show ?thesis unfolding timetable_def by auto
qed

lemma unroll_step_inv:
  assumes step: "unroll_step g rps pm vessel max_tick u = Inr u'" and law: "rng_law g" "sailing_ok vessel rps"
    and inv: "unroll_inv rps pm vessel max_tick loc0 u"
  shows "unroll_inv rps pm vessel max_tick loc0 u'"
proof -
  let ?ss = "ur_stops u"
  from step law obtain p port parking sailing where
    e: "py_get rps (ur_loc u) = Inr p" "dict_get pm (rp_port_name p) = Inr port" "0 < parking" "0 \<le> sailing"
    "ur_tick u' = ur_tick u + (parking + sailing)"
    "ur_stops u' = ?ss @ [\<lparr>st_index = ur_index u, st_arrival_tick = ur_tick u,
       st_leave_tick = ur_tick u + parking, st_port_idx = port, st_vessel_idx = vs_index vessel\<rparr>]"
    "ur_loc u' = (ur_loc u + 1) mod int (length rps)" "ur_index u' = ur_index u + 1"
    "ur_extra u' = ur_extra u + (if max_tick < ur_tick u' then 1 else 0)"
    by (rule unroll_step_result)
  have ne: "rps \<noteq> []" using e(1) by (auto simp: py_get_def py_pos_def split: if_splits)
  have loc: "ur_loc u = (loc0 + int (length ?ss)) mod int (length rps)" using inv by (simp add: unroll_inv_def)
  then have "p = rps ! nat ((loc0 + int (length ?ss)) mod int (length rps))"
    using e(1) py_get_mod [OF ne] by simp
  with e(2,3) inv have tt: "timetable rps pm (vs_index vessel) loc0 (ur_stops u')"
    unfolding e(6) by (intro timetable_snoc) (auto simp: unroll_inv_def)
  have lc: "ur_loc u' = (loc0 + int (length (ur_stops u'))) mod int (length rps)"
    unfolding e(7) loc e(6) by (simp add: mod_simps) (simp add: ac_simps)
  have ex: "0 < ur_extra u' \<longrightarrow>
      ur_extra u' \<le> int (length (filter (\<lambda>s. max_tick < st_arrival_tick s) (ur_stops u'))) + 1"
    using inv e by (auto simp: unroll_inv_def)
  show ?thesis using tt lc ex inv e by (auto simp: unroll_inv_def)
qed

lemma unroll_loop_inv:
  assumes "unroll_loop g rps pm vessel max_tick n u = Some (Inr u')" "rng_law g" "sailing_ok vessel rps"
    and "unroll_inv rps pm vessel max_tick loc0 u"
  shows "unroll_inv rps pm vessel max_tick loc0 u' \<and> n < ur_extra u'"
  using assms(1,4)
proof (induction "nat (max_tick + 1 - ur_tick u) + nat (n + 1 - ur_extra u)" arbitrary: u rule: less_induct)
  case less
  show ?case
  proof (cases "ur_extra u \<le> n")
    case True
    from less.prems(1) True obtain u1 where s: "unroll_step g rps pm vessel max_tick u = Inr u1"
      and l: "unroll_loop g rps pm vessel max_tick n u1 = Some (Inr u')"
      by (subst (asm) unroll_loop.simps) (auto split: sum.splits)
    from s assms(2,3) obtain parking sailing where p: "0 < parking" "(0 :: int) \<le> sailing"
      "ur_tick u1 = ur_tick u + (parking + sailing)"
      "ur_extra u1 = ur_extra u + (if max_tick < ur_tick u1 then 1 else 0)"
      by (rule unroll_step_result)
    have "nat (max_tick + 1 - ur_tick u1) + nat (n + 1 - ur_extra u1) <
          nat (max_tick + 1 - ur_tick u) + nat (n + 1 - ur_extra u)"
    proof (cases "max_tick < ur_tick u1")
      case True
      with p \<open>ur_extra u \<le> n\<close> show ?thesis by simp
    next
      case False
      with p show ?thesis by simp
    qed
    from less.hyps [OF this l] unroll_step_inv [OF s assms(2,3) less.prems(2)] show ?thesis by blast
  next
    case False
    with less.prems show ?thesis by (subst (asm) unroll_loop.simps) auto
  qed
qed

text \<open>
  A vessel's unrolled route is a timetable from tick 0 along the route, and at least
  \<open>future_stop_number\<close> of its stops lie beyond the last tick.
\<close>

text \<open>The unrolled stops of a vessel form a timetable: they are numbered from 0, the
  first arrival is at tick 0, each stop is left after it is reached and the next one reached no
  earlier, the ports follow the route cyclically, and the requested number of stops lies beyond the
  last tick.\<close>

theorem unroll_timetable:
  assumes "unroll_loop g rps pm vessel max_tick n
      \<lparr>ur_loc = loc0, ur_tick = 0, ur_period = 0, ur_extra = 0, ur_index = 0, ur_stops = [],
       ur_random = s\<rparr> = Some (Inr u)"
    and "rng_law g" "sailing_ok vessel rps" "0 \<le> loc0" "loc0 < int (length rps)" "0 \<le> n" "0 \<le> max_tick"
  shows "timetable rps pm (vs_index vessel) loc0 (ur_stops u) \<and>
         n \<le> int (length (filter (\<lambda>s. max_tick < st_arrival_tick s) (ur_stops u)))"
proof -
  have "unroll_inv rps pm vessel max_tick loc0
      \<lparr>ur_loc = loc0, ur_tick = 0, ur_period = 0, ur_extra = 0, ur_index = 0, ur_stops = [], ur_random = s\<rparr>"
    using assms(4,5,7) by (simp add: unroll_inv_def timetable_def)
  from unroll_loop_inv [OF assms(1-3) this] assms(6) show ?thesis by (auto simp: unroll_inv_def)
qed

end
