(* ===== verification/CimProps.thy ===== *)
theory CimProps imports CimEngine SimProps CimGenProps begin

text \<open>
  Properties of the container inventory engine: every handler conserves the containers and keeps the
  attributes maintained by callbacks consistent; \<open>cim_invariant\<close> collects this, the interpretation of
  the engine contract on \<open>cim_engine\<close> carries it over whole episodes of the environment; and which
  actions inside the published scope the engine accepts.
\<close>

section \<open>Containers\<close>

definition port_total :: "port \<Rightarrow> int" where
  "port_total p = pt_empty p + pt_full p + pt_on_shipper p + pt_on_consignee p"

definition vessel_total :: "vessel \<Rightarrow> int" where
  "vessel_total v = vl_empty v + vl_full v"

definition cim_total :: "('r, 'z) cim_scheme \<Rightarrow> int" where
  "cim_total s = sum_list (map port_total (fr_ports s)) + sum_list (map vessel_total (fr_vessels s))"

text \<open>What no operation changes and every operation keeps, for \<open>K\<close> containers.\<close>

definition cim_invariant :: "int \<Rightarrow> engine_base \<Rightarrow> 'r cim \<Rightarrow> bool" where
  "cim_invariant K base s \<longleftrightarrow> cim_total s = K \<and> ci_base s = base \<and>
     list_all fulfilment_ok (fr_ports s) \<and> list_all space_ok (fr_vessels s)"

named_theorems cim_simps "effects on the nodes of the frame"

lemma put_port_simps [simp]:
  "fr_ports (put_port i p s) = (fr_ports s)[i := p]" "fr_vessels (put_port i p s) = fr_vessels s"
  "ci_base (put_port i p s) = ci_base s" "ci_source (put_port i p s) = ci_source s"
  "fr_full_on_ports (put_port i p s) = fr_full_on_ports s"
  "fr_full_on_vessels (put_port i p s) = fr_full_on_vessels s"
  "fr_vessel_plans (put_port i p s) = fr_vessel_plans s"
  "ci_container (put_port i p s) = ci_container s" "ci_offsets (put_port i p s) = ci_offsets s"
  by (simp_all add: put_port_def)

lemma put_vessel_simps [simp]:
  "fr_vessels (put_vessel i v s) = (fr_vessels s)[i := v]" "fr_ports (put_vessel i v s) = fr_ports s"
  "ci_base (put_vessel i v s) = ci_base s" "ci_source (put_vessel i v s) = ci_source s"
  "fr_full_on_ports (put_vessel i v s) = fr_full_on_ports s"
  "fr_full_on_vessels (put_vessel i v s) = fr_full_on_vessels s"
  "fr_vessel_plans (put_vessel i v s) = fr_vessel_plans s"
  "ci_container (put_vessel i v s) = ci_container s" "ci_offsets (put_vessel i v s) = ci_offsets s"
  by (simp_all add: put_vessel_def)

lemma list_all_nthI: "list_all P xs \<Longrightarrow> i < length xs \<Longrightarrow> P (xs ! i)"
  by (simp add: list_all_iff)

text \<open>Replacing a port and a vessel: the invariant survives when the two changes cancel out.\<close>

lemma inv_put_port:
  assumes "cim_invariant K base s" "i < length (fr_ports s)" "fulfilment_ok p"
  shows "cim_invariant (K - port_total (fr_ports s ! i) + port_total p) base (put_port i p s)"
  using assms by (simp add: cim_invariant_def cim_total_def sum_list_map_update list_all_update)

lemma inv_put_vessel:
  assumes "cim_invariant K base s" "i < length (fr_vessels s)" "space_ok v"
  shows "cim_invariant (K - vessel_total (fr_vessels s ! i) + vessel_total v) base (put_vessel i v s)"
  using assms by (simp add: cim_invariant_def cim_total_def sum_list_map_update list_all_update)

lemma inv_port_eq:
  "cim_invariant K base s \<Longrightarrow> i < length (fr_ports s) \<Longrightarrow> fulfilment_ok p \<Longrightarrow>
   port_total p = port_total (fr_ports s ! i) \<Longrightarrow> cim_invariant K base (put_port i p s)"
  using inv_put_port [of K base s i p] by simp

lemma inv_vessel_eq:
  "cim_invariant K base s \<Longrightarrow> i < length (fr_vessels s) \<Longrightarrow> space_ok v \<Longrightarrow>
   vessel_total v = vessel_total (fr_vessels s ! i) \<Longrightarrow> cim_invariant K base (put_vessel i v s)"
  using inv_put_vessel [of K base s i v] by simp

lemma inv_swap:
  assumes "cim_invariant K base s" "i < length (fr_ports s)" "j < length (fr_vessels s)"
    and "fulfilment_ok p" "space_ok v"
    and "port_total p + vessel_total v = port_total (fr_ports s ! i) + vessel_total (fr_vessels s ! j)"
  shows "cim_invariant K base (put_port i p (put_vessel j v s))"
    "cim_invariant K base (put_vessel j v (put_port i p s))"
proof -
  show "cim_invariant K base (put_port i p (put_vessel j v s))"
    using inv_put_port [OF inv_put_vessel [OF assms(1,3,5)], of i p] assms by (simp add: algebra_simps)
  show "cim_invariant K base (put_vessel j v (put_port i p s))"
    using inv_put_vessel [OF inv_put_port [OF assms(1,2,4)], of j v] assms by (simp add: algebra_simps)
qed

lemma inv_nodes:
  assumes "cim_invariant K base s"
  shows "i < length (fr_ports s) \<Longrightarrow> fulfilment_ok (fr_ports s ! i)"
    "j < length (fr_vessels s) \<Longrightarrow> space_ok (fr_vessels s ! j)"
  using assms by (auto simp: cim_invariant_def intro: list_all_nthI)

lemma inv_congI:
  "cim_invariant K base s \<Longrightarrow> fr_ports s' = fr_ports s \<Longrightarrow> fr_vessels s' = fr_vessels s \<Longrightarrow>
   ci_base s' = ci_base s \<Longrightarrow> cim_invariant K base s'"
  by (simp add: cim_invariant_def cim_total_def)

lemma fulfilment_ok_update [simp]:
  "fulfilment_ok (p\<lparr>pt_empty := a\<rparr>) = fulfilment_ok p" "fulfilment_ok (p\<lparr>pt_full := a\<rparr>) = fulfilment_ok p"
  "fulfilment_ok (p\<lparr>pt_on_shipper := a\<rparr>) = fulfilment_ok p"
  "fulfilment_ok (p\<lparr>pt_on_consignee := a\<rparr>) = fulfilment_ok p"
  "fulfilment_ok (p\<lparr>pt_acc_booking := a\<rparr>) = fulfilment_ok p"
  "fulfilment_ok (p\<lparr>pt_acc_shortage := a\<rparr>) = fulfilment_ok p"
  "fulfilment_ok (p\<lparr>pt_acc_fulfillment := a\<rparr>) = fulfilment_ok p"
  "fulfilment_ok (p\<lparr>pt_transfer_cost := x\<rparr>) = fulfilment_ok p"
  by (simp_all add: fulfilment_ok_def)

lemma space_ok_update [simp]:
  "space_ok (v\<lparr>vl_last_loc_idx := a\<rparr>) = space_ok v" "space_ok (v\<lparr>vl_next_loc_idx := a\<rparr>) = space_ok v"
  "space_ok (v\<lparr>vl_is_parking := a\<rparr>) = space_ok v" "space_ok (v\<lparr>vl_loc_port_idx := a\<rparr>) = space_ok v"
  "space_ok (v\<lparr>vl_early_discharge := a\<rparr>) = space_ok v"
  by (simp_all add: space_ok_def)

lemma set_stop_list_keeps:
  assumes "set_stop_list ps fs v = Inr v'"
  shows "vl_empty v' = vl_empty v" "vl_full v' = vl_full v" "space_ok v' = space_ok v"
    "vl_capacity v' = vl_capacity v" "vl_total_space v' = vl_total_space v"
    "vl_next_loc_idx v' = vl_next_loc_idx v" "vl_last_loc_idx v' = vl_last_loc_idx v"
    "vl_route_idx v' = vl_route_idx v"
  using assms
  by (auto simp: set_stop_list_def res_simps space_ok_def split: option.splits)

section \<open>Handlers conserve containers\<close>

lemma book_order_simps:
  "pt_empty (book_order q p) = pt_empty p - order_qty p q"
  "pt_on_shipper (book_order q p) = pt_on_shipper p + order_qty p q"
  "pt_full (book_order q p) = pt_full p" "pt_on_consignee (book_order q p) = pt_on_consignee p"
  "fulfilment_ok (book_order q p)"
  "pt_acc_booking (book_order q p) = pt_acc_booking p + q"
  "pt_acc_shortage (book_order q p) = pt_acc_shortage p + (q - order_qty p q)"
  by (simp_all add: book_order_def Let_def order_qty_def)

lemma draw_buffer_keeps:
  assumes "draw_buffer g f pn s = Inr (n, s')"
  shows "fr_ports s' = fr_ports s" "fr_vessels s' = fr_vessels s" "ci_base s' = ci_base s"
    "fr_full_on_ports s' = fr_full_on_ports s" "fr_full_on_vessels s' = fr_full_on_vessels s"
    "ci_source s' = ci_source s" "fr_vessel_plans s' = fr_vessel_plans s"
  using assms by (auto simp: draw_buffer_def res_simps)

lemma set_pending_full_keeps:
  assumes "set_pending_full a b n s = Inr s'"
  shows "fr_ports s' = fr_ports s" "fr_vessels s' = fr_vessels s" "ci_base s' = ci_base s"
    "fr_full_on_vessels s' = fr_full_on_vessels s" "ci_source s' = ci_source s" "0 \<le> n"
    "fr_vessel_plans s' = fr_vessel_plans s"
    "mx_set (fr_full_on_ports s) a b n = Inr (fr_full_on_ports s')"
  using assms by (auto simp: set_pending_full_def res_simps)

lemma write_plans_keeps:
  "write_plans v ps s = Inr s' \<Longrightarrow> fr_ports s' = fr_ports s \<and> fr_vessels s' = fr_vessels s \<and>
     ci_base s' = ci_base s \<and> fr_full_on_ports s' = fr_full_on_ports s \<and>
     fr_full_on_vessels s' = fr_full_on_vessels s \<and> ci_source s' = ci_source s"
  by (induction v ps s rule: write_plans.induct) (auto simp: res_simps)

lemma inv_on_order:
  assumes "on_order_generated g t order s = Inr (s', es)" "cim_invariant K base s"
  shows "cim_invariant K base s'"
proof -
  from assms(1) obtain pn p n where p: "node_at (fr_ports s) (od_src_port_idx order) = Inr (pn, p)"
    and d: "draw_buffer g ps_full_return_buffer pn (put_port pn (book_order (od_quantity order) p) s) = Inr (n, s')"
    by (auto simp: on_order_generated_def res_simps Let_def)
  have "cim_invariant K base (put_port pn (book_order (od_quantity order) p) s)"
    using node_at_Inr [OF p] assms(2)
    by (intro inv_port_eq) (auto simp: book_order_simps port_total_def)
  with draw_buffer_keeps [OF d] show ?thesis by (elim inv_congI) simp_all
qed

lemma inv_on_full_return:
  assumes "on_full_return a b q s = Inr (s', es)" "cim_invariant K base s"
  shows "cim_invariant K base s'"
proof -
  from assms(1) obtain pn p n where p: "node_at (fr_ports s) a = Inr (pn, p)"
    and d: "set_pending_full a b n (put_port pn (p\<lparr>pt_on_shipper := pt_on_shipper p - q, pt_full := pt_full p + q\<rparr>) s) = Inr s'"
    by (auto simp: on_full_return_def res_simps Let_def)
  have "cim_invariant K base (put_port pn (p\<lparr>pt_on_shipper := pt_on_shipper p - q, pt_full := pt_full p + q\<rparr>) s)"
    using node_at_Inr [OF p] assms(2) inv_nodes [OF assms(2)]
    by (intro inv_port_eq) (auto simp: port_total_def)
  with set_pending_full_keeps [OF d] show ?thesis by (elim inv_congI) simp_all
qed

lemma load_to_next_effect:
  assumes "load_to_next v p vi pn np pending q s = Inr s'" "vi < length (fr_vessels s)" "pn < length (fr_ports s)"
  shows "fr_ports s' = (fr_ports s)[pn := (fr_ports s ! pn)\<lparr>pt_full := pt_full (fr_ports s ! pn) - q\<rparr>]"
    "fr_vessels s' = (fr_vessels s)[vi := set_full (vl_full (fr_vessels s ! vi) + q) (fr_vessels s ! vi)]"
    "ci_base s' = ci_base s" "ci_source s' = ci_source s"
    "mx_set (fr_full_on_ports s) p np (pending - q) = Inr (fr_full_on_ports s')"
    "\<exists>n. mx_get (fr_full_on_vessels s) v np = Inr n \<and>
       mx_set (fr_full_on_vessels s) v np (n + q) = Inr (fr_full_on_vessels s')"
    "0 \<le> pending - q"
  using assms by (auto simp: load_to_next_def set_pending_full_def res_simps Let_def)

lemma inv_load_to_next:
  assumes "load_to_next v p vi pn np pending q s = Inr s'" "cim_invariant K base s"
    "vi < length (fr_vessels s)" "pn < length (fr_ports s)"
  shows "cim_invariant K base s'"
proof -
  let ?p = "fr_ports s ! pn" and ?v = "fr_vessels s ! vi"
  have "cim_invariant K base (put_port pn (?p\<lparr>pt_full := pt_full ?p - q\<rparr>) (put_vessel vi (set_full (vl_full ?v + q) ?v) s))"
    using inv_nodes [OF assms(2)] assms(2-4)
    by (intro inv_swap) (auto simp: port_total_def vessel_total_def)
  with load_to_next_effect [OF assms(1,3,4)] show ?thesis by (elim inv_congI) simp_all
qed

text \<open>The loop keeps whatever loading to one port keeps.\<close>

lemma load_loop_rule:
  assumes "load_loop v p vi pn rs acc s = Inr (s', es)"
    and "\<And>s s1 np pending q. I s \<Longrightarrow> mx_get (fr_full_on_ports s) p np = Inr pending \<Longrightarrow> 0 < q \<Longrightarrow> q \<le> pending \<Longrightarrow>
        load_to_next v p vi pn np pending q s = Inr s1 \<Longrightarrow> I s1"
    and "I s"
  shows "I s'"
  using assms(1,3)
proof (induction rs arbitrary: acc s es)
  case (Cons r rs)
  obtain np tick where r: "r = (np, tick)" by (cases r)
  from Cons.prems(1) r obtain pending where m: "mx_get (fr_full_on_ports s) p np = Inr pending"
    by (auto simp: res_simps)
  show ?case
  proof (cases "0 < acc \<and> 0 < pending")
    case True
    with Cons.prems(1) m r obtain s1 es1 where st: "load_to_next v p vi pn np pending (min pending acc) s = Inr s1"
      and l: "load_loop v p vi pn rs (acc - min pending acc) s1 = Inr (s', es1)"
      by (auto simp: res_simps Let_def)
    have "I s1" by (rule assms(2) [OF Cons.prems(2) m _ _ st]) (use True in auto)
    with Cons.IH [OF l] show ?thesis .
  next
    case False
    with Cons m r show ?thesis by auto
  qed
qed simp

lemma load_loop_lengths:
  assumes "load_loop v p vi pn rs acc s = Inr (s', es)" "vi < length (fr_vessels s)" "pn < length (fr_ports s)"
  shows "length (fr_vessels s') = length (fr_vessels s) \<and> length (fr_ports s') = length (fr_ports s)"
  using assms(1)
proof (rule load_loop_rule [where I = "\<lambda>s'. length (fr_vessels s') = length (fr_vessels s) \<and> length (fr_ports s') = length (fr_ports s)"])
  fix s1 s2 np pending q
  assume "length (fr_vessels s1) = length (fr_vessels s) \<and> length (fr_ports s1) = length (fr_ports s)"
    "load_to_next v p vi pn np pending q s1 = Inr s2"
  with load_to_next_effect [OF this(2)] assms(2,3)
  show "length (fr_vessels s2) = length (fr_vessels s) \<and> length (fr_ports s2) = length (fr_ports s)" by simp
qed simp

lemma inv_early_discharge:
  assumes "cim_invariant K base s" "vi < length (fr_vessels s)" "pn < length (fr_ports s)"
  shows "cim_invariant K base (early_discharge vol vi pn s)"
proof -
  let ?p = "fr_ports s ! pn" and ?v = "fr_vessels s ! vi"
  note n = inv_nodes [OF assms(1)] assms
  have "cim_invariant K base (put_vessel vi (?v\<lparr>vl_early_discharge := 0\<rparr>) s)"
    using n by (intro inv_vessel_eq) (auto simp: vessel_total_def)
  moreover have "cim_invariant K base (put_port pn (?p\<lparr>pt_empty := pt_empty ?p + k\<rparr>)
      (put_vessel vi ((set_empty (vl_empty (?v\<lparr>vl_early_discharge := 0\<rparr>) - k) (?v\<lparr>vl_early_discharge := 0\<rparr>))\<lparr>vl_early_discharge := k\<rparr>) s))" for k
    using n by (intro inv_swap) (auto simp: port_total_def vessel_total_def)
  ultimately show ?thesis unfolding early_discharge_def Let_def by (simp only: split: if_split) blast
qed

lemma inv_on_full_load:
  assumes "on_full_load p v s = Inr (s', es)" "cim_invariant K base s"
  shows "cim_invariant K base s'"
proof -
  from assms(1) obtain vi vs pn pt rs acc s2 where
    n: "node_at (fr_vessels s) v = Inr (vi, vs)" "node_at (fr_ports s) p = Inr (pn, pt)"
    and l: "load_loop v p vi pn rs acc (put_vessel vi (vs\<lparr>vl_last_loc_idx := vl_next_loc_idx vs\<rparr>) s) = Inr (s2, es)"
    and s': "s' = early_discharge (cd_container_volume (ci_data s)) vi pn s2"
    by (auto simp: on_full_load_def res_simps Let_def split: if_splits)
  let ?s1 = "put_vessel vi (vs\<lparr>vl_last_loc_idx := vl_next_loc_idx vs\<rparr>) s"
  note ni = node_at_Inr [OF n(1)] node_at_Inr [OF n(2)]
  have s1: "cim_invariant K base ?s1"
    using ni assms(2) inv_nodes [OF assms(2)] by (intro inv_vessel_eq) (auto simp: vessel_total_def)
  have "cim_invariant K base s2 \<and> length (fr_vessels s2) = length (fr_vessels ?s1) \<and> length (fr_ports s2) = length (fr_ports ?s1)"
    using l
  proof (rule load_loop_rule, goal_cases)
    case (1 s1 s2 np pending q)
    with load_to_next_effect [OF 1(5)] inv_load_to_next [OF 1(5)] ni show ?case by auto
  next
    case 2
    then show ?case using s1 by simp
  qed
  with ni show ?thesis unfolding s' by (auto intro!: inv_early_discharge)
qed

lemma inv_on_arrival:
  assumes "on_arrival p v s = Inr (s', es)" "cim_invariant K base s"
  shows "cim_invariant K base s'"
proof -
  from assms(1) obtain vi vs v2 ps and stop :: stop and fs :: "stop list" where n: "node_at (fr_vessels s) v = Inr (vi, vs)"
    and sl: "set_stop_list None (Some (map Some fs))
        (vs\<lparr>vl_last_loc_idx := vl_next_loc_idx vs, vl_is_parking := 1, vl_loc_port_idx := st_port_idx stop\<rparr>) = Inr v2"
    and w: "write_plans v ps (put_vessel vi v2 s) = Inr s'"
    by (auto simp: on_arrival_def res_simps Let_def)
  have "cim_invariant K base (put_vessel vi v2 s)"
    using node_at_Inr [OF n] assms(2) inv_nodes [OF assms(2)] set_stop_list_keeps [OF sl]
    by (intro inv_vessel_eq) (auto simp: vessel_total_def)
  with write_plans_keeps [OF w] show ?thesis by (elim inv_congI) simp_all
qed

lemma inv_on_departure:
  assumes "on_departure p v s = Inr (s', es)" "cim_invariant K base s"
  shows "cim_invariant K base s'"
proof -
  from assms(1) obtain vi vs ps v2 where n: "node_at (fr_vessels s) v = Inr (vi, vs)"
    and sl: "set_stop_list (Some ps) None
        (vs\<lparr>vl_next_loc_idx := vl_next_loc_idx vs + 1, vl_is_parking := 0, vl_loc_port_idx := - 1\<rparr>) = Inr v2"
    and s': "s' = put_vessel vi v2 s"
    by (auto simp: on_departure_def res_simps Let_def)
  show ?thesis unfolding s'
    using node_at_Inr [OF n] assms(2) inv_nodes [OF assms(2)] set_stop_list_keeps [OF sl]
    by (intro inv_vessel_eq) (auto simp: vessel_total_def)
qed

lemma inv_on_discharge:
  assumes "on_discharge g t v src p q s = Inr (s', es)" "cim_invariant K base s"
  shows "cim_invariant K base s'"
proof -
  from assms(1) obtain vi vs pn pt m n where
    n: "node_at (fr_vessels s) v = Inr (vi, vs)" "node_at (fr_ports s) p = Inr (pn, pt)"
    and d: "draw_buffer g ps_empty_return_buffer pn
        ((put_port pn (pt\<lparr>pt_on_consignee := pt_on_consignee pt + q\<rparr>)
            (put_vessel vi (set_full (vl_full vs - q) vs) s))\<lparr>fr_full_on_vessels := m\<rparr>) = Inr (n, s')"
    by (auto simp: on_discharge_def res_simps Let_def)
  have "cim_invariant K base (put_port pn (pt\<lparr>pt_on_consignee := pt_on_consignee pt + q\<rparr>)
            (put_vessel vi (set_full (vl_full vs - q) vs) s))"
    using node_at_Inr [OF n(1)] node_at_Inr [OF n(2)] assms(2) inv_nodes [OF assms(2)]
    by (intro inv_swap) (auto simp: port_total_def vessel_total_def)
  with draw_buffer_keeps [OF d] show ?thesis by (elim inv_congI) simp_all
qed

lemma inv_on_empty_return:
  assumes "on_empty_return p q s = Inr (s', es)" "cim_invariant K base s"
  shows "cim_invariant K base s'"
proof -
  from assms(1) obtain pn pt where n: "node_at (fr_ports s) p = Inr (pn, pt)"
    and s': "s' = put_port pn (pt\<lparr>pt_on_consignee := pt_on_consignee pt - q, pt_empty := pt_empty pt + q\<rparr>) s"
    by (auto simp: on_empty_return_def res_simps)
  show ?thesis unfolding s'
    using node_at_Inr [OF n] assms(2) inv_nodes [OF assms(2)]
    by (intro inv_port_eq) (auto simp: port_total_def)
qed

lemma inv_apply_action:
  assumes "apply_action a s = Inr (s', e)" "cim_invariant K base s"
  shows "cim_invariant K base s'"
proof -
  let ?d = "if ac_action_type a = DISCHARGE then ac_quantity a else - ac_quantity a"
  from assms(1) obtain vi v pn p where
    n: "node_at (fr_vessels s) (ac_vessel_idx a) = Inr (vi, v)" "node_at (fr_ports s) (ac_port_idx a) = Inr (pn, p)"
    and s': "fr_ports s' = (fr_ports s)[pn := p\<lparr>pt_empty := pt_empty p + ?d,
        pt_transfer_cost := pt_transfer_cost p + of_int (ac_quantity a)\<rparr>]"
      "fr_vessels s' = (fr_vessels s)[vi := set_empty (vl_empty v - ?d) v]" "ci_base s' = ci_base s"
    by (auto simp: apply_action_def res_simps Let_def)
  have "cim_invariant K base (put_port pn (p\<lparr>pt_empty := pt_empty p + ?d,
        pt_transfer_cost := pt_transfer_cost p + of_int (ac_quantity a)\<rparr>) (put_vessel vi (set_empty (vl_empty v - ?d) v) s))"
    using node_at_Inr [OF n(1)] node_at_Inr [OF n(2)] assms(2) inv_nodes [OF assms(2)]
    by (intro inv_swap) (auto simp: port_total_def vessel_total_def)
  with s' show ?thesis by (elim inv_congI) simp_all
qed

lemma inv_on_action:
  "on_action_received xs s = Inr (s', es) \<Longrightarrow> cim_invariant K base s \<Longrightarrow> cim_invariant K base s'"
proof (induction xs arbitrary: s es)
  case (Cons x xs)
  then obtain a s1 e es1 where "x = OneAction a" "apply_action a s = Inr (s1, e)"
    "on_action_received xs s1 = Inr (s', es1)"
    by (auto simp: res_simps split: py_action.splits)
  with Cons inv_apply_action show ?case by blast
qed simp

lemmas handler_invs =
  inv_on_order inv_on_full_return inv_on_full_load inv_on_arrival inv_on_departure inv_on_discharge
  inv_on_empty_return inv_on_action

lemma inv_handle:
  assumes "handle g hn t payload s = Inr (s', es)" "cim_invariant K base s"
  shows "cim_invariant K base s'"
  using assms(1)
  by (auto simp: handle_def res_simps split: cim_handler.splits option.splits cim_payload.splits
      intro: handler_invs [OF _ assms(2)])

section \<open>The engine keeps its contract\<close>

lemma inv_cim_invoke:
  assumes "cim_invoke g hn a (b, s) = Inr (b', s')" "cim_invariant K base s"
  shows "cim_invariant K base s'"
  using assms inv_handle by (fastforce simp: cim_invoke_def Let_def res_simps)

lemma get_orders_keeps:
  assumes "get_orders g t e s = Inr (os, s')"
  shows "fr_ports s' = fr_ports s" "fr_vessels s' = fr_vessels s" "ci_base s' = ci_base s"
  using assms by (auto simp: get_orders_def res_simps)

lemma push_order_keeps:
  "fr_ports (snd (push_order t od w)) = fr_ports (snd w)"
  "fr_vessels (snd (push_order t od w)) = fr_vessels (snd w)"
  "ci_base (snd (push_order t od w)) = ci_base (snd w)"
  by (simp_all add: push_order_def export_order_def split_beta)

lemma push_orders_keep:
  "fr_ports (snd (fold (push_order t) os w)) = fr_ports (snd w) \<and>
   fr_vessels (snd (fold (push_order t) os w)) = fr_vessels (snd w) \<and>
   ci_base (snd (fold (push_order t) os w)) = ci_base (snd w)"
  by (induction os arbitrary: w) (simp_all add: push_order_keeps)

lemma check_arrival_keeps:
  assumes "check_arrival t vi wd = Inr wd'"
  shows "fr_ports (snd (fst wd')) = fr_ports (snd (fst wd)) \<and>
    fr_vessels (snd (fst wd')) = fr_vessels (snd (fst wd)) \<and> ci_base (snd (fst wd')) = ci_base (snd (fst wd))"
proof -
  obtain b s ds where wd: "wd = ((b, s), ds)" by (metis prod.collapse)
  from assms show ?thesis
    unfolding wd check_arrival_def Let_def
    by (auto simp: res_simps split_beta split: if_splits)
qed

lemma cim_step_keeps:
  assumes "cim_step g t (b, s) = Inr (b', s')"
  shows "fr_ports s' = fr_ports s" "fr_vessels s' = fr_vessels s" "ci_base s' = ci_base s"
proof -
  from assms obtain os s1 wd where o: "get_orders g t (total_empty s) s = Inr (os, s1)"
    and f: "foldE (check_arrival t) [0..<length (fr_vessels (snd (fold (push_order t) os (b, s1))))]
        (fold (push_order t) os (b, s1), []) = Inr wd" and s': "s' = snd (fst wd)"
    by (auto simp: cim_step_def res_simps Let_def)
  have "fr_ports (snd (fst wd)) = fr_ports s1 \<and> fr_vessels (snd (fst wd)) = fr_vessels s1 \<and> ci_base (snd (fst wd)) = ci_base s1"
    using f
  proof (rule foldE_invariant [where I = "\<lambda>wd. fr_ports (snd (fst wd)) = fr_ports s1 \<and>
        fr_vessels (snd (fst wd)) = fr_vessels s1 \<and> ci_base (snd (fst wd)) = ci_base s1"])
  qed (use push_orders_keep [of t os "(b, s1)"] check_arrival_keeps in \<open>force+\<close>)
  with get_orders_keeps [OF o] s' show "fr_ports s' = fr_ports s" "fr_vessels s' = fr_vessels s" "ci_base s' = ci_base s"
    by simp_all
qed

lemma take_snapshot_keeps [simp]:
  "fr_ports (cim_take_snapshot fi s) = fr_ports s" "fr_vessels (cim_take_snapshot fi s) = fr_vessels s"
  "ci_base (cim_take_snapshot fi s) = ci_base s"
  "fr_full_on_ports (cim_take_snapshot fi s) = fr_full_on_ports s"
  "fr_full_on_vessels (cim_take_snapshot fi s) = fr_full_on_vessels s"
  by (simp_all add: cim_take_snapshot_def)

lemma clear_tick_fields_simps:
  "port_total (clear_tick_fields p) = port_total p" "fulfilment_ok (clear_tick_fields p)"
  "pt_shortage (clear_tick_fields p) = 0" "pt_booking (clear_tick_fields p) = 0"
  "pt_full (clear_tick_fields p) = pt_full p" "pt_on_shipper (clear_tick_fields p) = pt_on_shipper p"
  "pt_on_consignee (clear_tick_fields p) = pt_on_consignee p" "pt_empty (clear_tick_fields p) = pt_empty p"
  by (simp_all add: clear_tick_fields_def port_total_def fulfilment_ok_def)

lemma inv_post_step:
  assumes "cim_post_step t s = Inr (s', e)" "cim_invariant K base s"
  shows "cim_invariant K base s'" "e \<longleftrightarrow> t + 1 = be_max_tick base"
proof -
  show "cim_invariant K base s'"
  proof (cases "fr_ports s' = fr_ports s \<and> fr_vessels s' = fr_vessels s \<and> ci_base s' = ci_base s")
    case True
    with assms(2) show ?thesis by (elim inv_congI) simp_all
  next
    case False
    with assms(1) have p: "fr_ports s' = map clear_tick_fields (map (\<lambda>p. p\<lparr>pt_acc_fulfillment := pt_acc_booking p - pt_acc_shortage p\<rparr>) (fr_ports s))"
      "fr_vessels s' = fr_vessels s" "ci_base s' = ci_base s"
      by (auto simp: cim_post_step_def Let_def res_simps split: if_splits)
    have "sum_list (map port_total (fr_ports s')) = sum_list (map port_total (fr_ports s))"
      unfolding p(1) map_map comp_def clear_tick_fields_simps by (simp add: port_total_def [abs_def])
    moreover have "list_all fulfilment_ok (fr_ports s')"
      unfolding p(1) by (simp add: list_all_iff clear_tick_fields_simps)
    ultimately show ?thesis using p assms(2) by (simp add: cim_invariant_def cim_total_def)
  qed
  from assms show "e \<longleftrightarrow> t + 1 = be_max_tick base"
    by (auto simp: cim_post_step_def Let_def res_simps cim_invariant_def split: if_splits)
qed

interpretation cim: timed_engine "cim_engine c" "cim_invariant K base" "be_max_tick base"
  for c :: "'r cim_params" and K base
proof (unfold_locales, goal_cases)
  case (1 t b w b' w')
  then show ?case using cim_step_keeps [of "cp_rng c" t b w b' w']
    by (elim inv_congI) (simp_all add: cim_engine_def)
next
  case (2 t w w' e)
  then show ?case using inv_post_step(1) by (simp add: cim_engine_def)
next
  case (3 hn a b w b' w')
  then show ?case using inv_cim_invoke by (simp add: cim_engine_def)
next
  case (4 w fi)
  then show ?case by (elim inv_congI) (simp_all add: cim_engine_def)
next
  case (5 t w w' e)
  then show ?case using inv_post_step(2) by (simp add: cim_engine_def)
qed

end
