(* ===== verification/CimLedger.thy ===== *)
theory CimLedger imports Prelude begin

text \<open>
  The abstract specification of the container flow: a ledger of where containers are, the moves that
  shift a quantity from one account to another, and the claims, the future moves already promised by
  pending events.  \<open>flow\<close> is the step relation of ledgers and claims; its invariant, that the accounts
  agree with the claims and nothing is negative, is proved by rule induction.
\<close>

section \<open>Ledgers and moves\<close>

record ledger =
  lg_empty :: "nat \<Rightarrow> int"
  lg_ship :: "nat \<Rightarrow> int"
  lg_full :: "nat \<Rightarrow> int"
  lg_cons :: "nat \<Rightarrow> int"
  lg_fop :: "nat \<Rightarrow> nat \<Rightarrow> int"
  lg_vempty :: "nat \<Rightarrow> int"
  lg_vfull :: "nat \<Rightarrow> int"
  lg_fov :: "nat \<Rightarrow> nat \<Rightarrow> int"

definition add1 :: "nat \<Rightarrow> int \<Rightarrow> (nat \<Rightarrow> int) \<Rightarrow> nat \<Rightarrow> int" where
  "add1 i q f = f(i := f i + q)"

definition add2 :: "nat \<Rightarrow> nat \<Rightarrow> int \<Rightarrow> (nat \<Rightarrow> nat \<Rightarrow> int) \<Rightarrow> nat \<Rightarrow> nat \<Rightarrow> int" where
  "add2 i j q f = f(i := add1 j q (f i))"

datatype move =
    Ship nat int
  | Stack nat nat int
  | Load nat nat nat int
  | Unload nat nat int
  | Return nat int
  | Reposition nat nat int

fun apply_move :: "move \<Rightarrow> ledger \<Rightarrow> ledger" where
  "apply_move (Ship i q) L = L\<lparr>lg_empty := add1 i (- q) (lg_empty L), lg_ship := add1 i q (lg_ship L)\<rparr>"
| "apply_move (Stack i j q) L =
     L\<lparr>lg_ship := add1 i (- q) (lg_ship L), lg_full := add1 i q (lg_full L), lg_fop := add2 i j q (lg_fop L)\<rparr>"
| "apply_move (Load v i j q) L =
     L\<lparr>lg_full := add1 i (- q) (lg_full L), lg_fop := add2 i j (- q) (lg_fop L),
       lg_vfull := add1 v q (lg_vfull L), lg_fov := add2 v j q (lg_fov L)\<rparr>"
| "apply_move (Unload v j q) L =
     L\<lparr>lg_vfull := add1 v (- q) (lg_vfull L), lg_fov := add2 v j (- q) (lg_fov L),
       lg_cons := add1 j q (lg_cons L)\<rparr>"
| "apply_move (Return j q) L = L\<lparr>lg_cons := add1 j (- q) (lg_cons L), lg_empty := add1 j q (lg_empty L)\<rparr>"
| "apply_move (Reposition v i d) L =
     L\<lparr>lg_vempty := add1 v (- d) (lg_vempty L), lg_empty := add1 i d (lg_empty L)\<rparr>"

section \<open>Claims and the flow relation\<close>

datatype claim = Owed_full nat nat int | Owed_discharge nat nat int | Owed_empty nat int

text \<open>For \<open>n\<close> ports and \<open>m\<close> vessels.\<close>

inductive flow :: "nat \<Rightarrow> nat \<Rightarrow> ledger \<times> claim multiset \<Rightarrow> ledger \<times> claim multiset \<Rightarrow> bool" for n m where
  order: "i < n \<Longrightarrow> j < n \<Longrightarrow> 0 \<le> q \<Longrightarrow> q \<le> lg_empty L i \<Longrightarrow>
    flow n m (L, P) (apply_move (Ship i q) L, add_mset (Owed_full i j q) P)"
| stack: "flow n m (L, add_mset (Owed_full i j q) P) (apply_move (Stack i j q) L, P)"
| load: "v < m \<Longrightarrow> i < n \<Longrightarrow> j < n \<Longrightarrow> 0 \<le> q \<Longrightarrow> q \<le> lg_fop L i j \<Longrightarrow>
    flow n m (L, P) (apply_move (Load v i j q) L, add_mset (Owed_discharge v j q) P)"
| unload: "flow n m (L, add_mset (Owed_discharge v j q) P) (apply_move (Unload v j q) L, add_mset (Owed_empty j q) P)"
| return: "flow n m (L, add_mset (Owed_empty j q) P) (apply_move (Return j q) L, P)"
| reposition: "v < m \<Longrightarrow> i < n \<Longrightarrow> d \<le> lg_vempty L v \<Longrightarrow> - d \<le> lg_empty L i \<Longrightarrow>
    flow n m (L, P) (apply_move (Reposition v i d) L, P)"

inductive_cases flow_emptyE: "flow n m (L, {#}) S"

section \<open>The accounts\<close>

definition owed_full :: "nat \<Rightarrow> claim \<Rightarrow> int" where
  "owed_full i c = (case c of Owed_full i' j q \<Rightarrow> if i' = i then q else 0 | _ \<Rightarrow> 0)"

definition owed_discharge :: "nat \<Rightarrow> nat \<Rightarrow> claim \<Rightarrow> int" where
  "owed_discharge v j c = (case c of Owed_discharge v' j' q \<Rightarrow> if v' = v \<and> j' = j then q else 0 | _ \<Rightarrow> 0)"

definition owed_empty :: "nat \<Rightarrow> claim \<Rightarrow> int" where
  "owed_empty j c = (case c of Owed_empty j' q \<Rightarrow> if j' = j then q else 0 | _ \<Rightarrow> 0)"

definition claim_ok :: "nat \<Rightarrow> nat \<Rightarrow> claim \<Rightarrow> bool" where
  "claim_ok n m c = (case c of
      Owed_full i j q \<Rightarrow> i < n \<and> j < n \<and> 0 \<le> q
    | Owed_discharge v j q \<Rightarrow> v < m \<and> j < n \<and> 0 \<le> q
    | Owed_empty j q \<Rightarrow> j < n \<and> 0 \<le> q)"

definition accounted :: "nat \<Rightarrow> nat \<Rightarrow> ledger \<times> claim multiset \<Rightarrow> bool" where
  "accounted n m S \<longleftrightarrow> (case S of (L, P) \<Rightarrow>
     (\<forall>i < n. lg_ship L i = (\<Sum>c \<in># P. owed_full i c)) \<and>
     (\<forall>i < n. lg_cons L i = (\<Sum>c \<in># P. owed_empty i c)) \<and>
     (\<forall>v < m. \<forall>j < n. lg_fov L v j = (\<Sum>c \<in># P. owed_discharge v j c)) \<and>
     (\<forall>i < n. lg_full L i = (\<Sum>j < n. lg_fop L i j)) \<and>
     (\<forall>v < m. lg_vfull L v = (\<Sum>j < n. lg_fov L v j)) \<and>
     (\<forall>i < n. 0 \<le> lg_empty L i) \<and> (\<forall>i < n. \<forall>j < n. 0 \<le> lg_fop L i j) \<and>
     (\<forall>v < m. 0 \<le> lg_vempty L v) \<and> (\<forall>c \<in># P. claim_ok n m c))"

lemma add1_apply: "add1 i q f x = f x + (if x = i then q else 0)"
  by (simp add: add1_def)

lemma add2_apply: "add2 i j q f x y = f x y + (if x = i \<and> y = j then q else 0)"
  by (simp add: add2_def add1_def)

lemma sum_add2:
  "(\<Sum>y < n. add2 i j q f x y) = (\<Sum>y < n. f x y) + (if x = i \<and> j < n then q else (0 :: int))"
  by (cases "x = i") (simp_all add: add2_apply sum.distrib)

named_theorems ledger_simps "accounts after a move"

lemma owed_simps [ledger_simps]:
  "owed_full x (Owed_full i j q) = (if i = x then q else 0)" "owed_full x (Owed_discharge v j q) = 0"
  "owed_full x (Owed_empty j q) = 0"
  "owed_discharge x y (Owed_discharge v j q) = (if v = x \<and> j = y then q else 0)"
  "owed_discharge x y (Owed_full i j q) = 0" "owed_discharge x y (Owed_empty j q) = 0"
  "owed_empty x (Owed_empty j q) = (if j = x then q else 0)" "owed_empty x (Owed_full i j q) = 0"
  "owed_empty x (Owed_discharge v j q) = 0"
  by (simp_all add: owed_full_def owed_discharge_def owed_empty_def)

lemma claim_ok_simps [ledger_simps]:
  "claim_ok n m (Owed_full i j q) = (i < n \<and> j < n \<and> 0 \<le> q)"
  "claim_ok n m (Owed_discharge v j q) = (v < m \<and> j < n \<and> 0 \<le> q)"
  "claim_ok n m (Owed_empty j q) = (j < n \<and> 0 \<le> q)"
  by (simp_all add: claim_ok_def)

lemmas [ledger_simps] = add1_apply add2_apply sum_add2 sum.distrib

theorem flow_accounted:
  assumes "flow n m S S'" "accounted n m S"
  shows "accounted n m S'"
  using assms
proof (cases rule: flow.cases)
  case (order i j q L P)
  with assms(2) show ?thesis by (auto simp: accounted_def ledger_simps)
next
  case (stack L i j q P)
  with assms(2) show ?thesis by (auto simp: accounted_def ledger_simps)
next
  case (load v i j q L P)
  with assms(2) show ?thesis by (auto simp: accounted_def ledger_simps)
next
  case (unload L v j q P)
  with assms(2) show ?thesis by (auto simp: accounted_def ledger_simps)
next
  case (return L j q P)
  with assms(2) show ?thesis by (auto simp: accounted_def ledger_simps)
next
  case (reposition v i d L P)
  with assms(2) show ?thesis by (auto simp: accounted_def ledger_simps)
qed

lemma flows_accounted: "(flow n m)\<^sup>*\<^sup>* S S' \<Longrightarrow> accounted n m S \<Longrightarrow> accounted n m S'"
  by (induction rule: rtranclp_induct) (blast intro: flow_accounted)+

section \<open>Totals\<close>

definition ledger_total :: "nat \<Rightarrow> nat \<Rightarrow> ledger \<Rightarrow> int" where
  "ledger_total n m L = (\<Sum>i < n. lg_empty L i + lg_ship L i + lg_full L i + lg_cons L i) +
     (\<Sum>v < m. lg_vempty L v + lg_vfull L v)"

lemma sum_nonneg_mset: "(\<And>c. c \<in># P \<Longrightarrow> 0 \<le> f c) \<Longrightarrow> (0 :: int) \<le> (\<Sum>c \<in># P. f c)"
  by (induction P) auto

lemma accounted_nonneg:
  assumes "accounted n m (L, P)"
  shows "i < n \<Longrightarrow> 0 \<le> lg_empty L i" "i < n \<Longrightarrow> 0 \<le> lg_ship L i" "i < n \<Longrightarrow> 0 \<le> lg_full L i"
    "i < n \<Longrightarrow> 0 \<le> lg_cons L i" "v < m \<Longrightarrow> 0 \<le> lg_vempty L v" "v < m \<Longrightarrow> 0 \<le> lg_vfull L v"
    "v < m \<Longrightarrow> j < n \<Longrightarrow> 0 \<le> lg_fov L v j"
proof -
  have ok: "claim_ok n m c" if "c \<in># P" for c using assms that by (auto simp: accounted_def)
  have o: "0 \<le> owed_full i c" "0 \<le> owed_empty i c" "0 \<le> owed_discharge v j c" if "c \<in># P" for c i v j
    using ok [OF that] by (auto simp: claim_ok_def owed_full_def owed_empty_def owed_discharge_def split: claim.splits)
  show "0 \<le> lg_empty L i" if "i < n" using assms that by (simp add: accounted_def)
  show "0 \<le> lg_ship L i" if "i < n" using assms that o by (simp add: accounted_def sum_nonneg_mset)
  show "0 \<le> lg_cons L i" if "i < n" using assms that o by (simp add: accounted_def sum_nonneg_mset)
  show "0 \<le> lg_full L i" if "i < n" using assms that by (auto simp: accounted_def intro!: sum_nonneg)
  show "0 \<le> lg_vempty L v" if "v < m" using assms that by (simp add: accounted_def)
  show fov: "0 \<le> lg_fov L v j" if "v < m" "j < n" for v j
    using assms that o by (simp add: accounted_def sum_nonneg_mset)
  show "0 \<le> lg_vfull L v" if "v < m" using assms that fov by (auto simp: accounted_def intro!: sum_nonneg)
qed

text \<open>No account ever holds more than all the containers there are.\<close>

lemma member_le_total:
  assumes a: "accounted n m (L, P)"
  shows "i < n \<Longrightarrow> lg_empty L i + lg_ship L i + lg_full L i + lg_cons L i \<le> ledger_total n m L"
    "v < m \<Longrightarrow> lg_vempty L v + lg_vfull L v \<le> ledger_total n m L"
proof -
  note nn = accounted_nonneg [OF a]
  have p: "0 \<le> lg_empty L i + lg_ship L i + lg_full L i + lg_cons L i" if "i < n" for i
    using nn(1-4) [of i] that by simp
  have v: "0 \<le> lg_vempty L v + lg_vfull L v" if "v < m" for v using nn(5,6) [of v] that by simp
  have sp: "0 \<le> (\<Sum>i < n. lg_empty L i + lg_ship L i + lg_full L i + lg_cons L i)"
    using p by (intro sum_nonneg) auto
  have sv: "0 \<le> (\<Sum>v < m. lg_vempty L v + lg_vfull L v)" using v by (intro sum_nonneg) auto
  show "lg_empty L i + lg_ship L i + lg_full L i + lg_cons L i \<le> ledger_total n m L" if "i < n"
  proof -
    have "lg_empty L i + lg_ship L i + lg_full L i + lg_cons L i \<le>
        (\<Sum>i < n. lg_empty L i + lg_ship L i + lg_full L i + lg_cons L i)"
      using p that by (intro member_le_sum) auto
    with sv show ?thesis by (simp add: ledger_total_def)
  qed
  show "lg_vempty L v + lg_vfull L v \<le> ledger_total n m L" if "v < m"
  proof -
    have "lg_vempty L v + lg_vfull L v \<le> (\<Sum>v < m. lg_vempty L v + lg_vfull L v)"
      using v that by (intro member_le_sum) auto
    with sp show ?thesis by (simp add: ledger_total_def)
  qed
qed

end
