(* ===== verification/CimFlow.thy ===== *)
theory CimFlow imports CimProps CimLedger begin

text \<open>
  The handlers of the container inventory engine refine the ledger of \<open>CimLedger\<close>: \<open>ledger_of\<close> reads a
  ledger off the frame, each handler is a sequence of \<open>flow\<close> steps, and the claims are the payloads of
  the events still pending.  Reachable states are therefore accounted for, whatever the order in which
  pending events are handled.
\<close>

section \<open>Abstraction\<close>

definition cell :: "matrix \<Rightarrow> nat \<Rightarrow> nat \<Rightarrow> int" where
  "cell m i j = (if mx_in m (int i) (int j) then mx_slots m ! nat (mx_cols m * int i + int j) else 0)"

definition ledger_of :: "'z cim_frame_scheme \<Rightarrow> ledger" where
  "ledger_of s =
     \<lparr>lg_empty = (\<lambda>i. pt_empty (fr_ports s ! i)), lg_ship = (\<lambda>i. pt_on_shipper (fr_ports s ! i)),
      lg_full = (\<lambda>i. pt_full (fr_ports s ! i)), lg_cons = (\<lambda>i. pt_on_consignee (fr_ports s ! i)),
      lg_fop = cell (fr_full_on_ports s),
      lg_vempty = (\<lambda>v. vl_empty (fr_vessels s ! v)), lg_vfull = (\<lambda>v. vl_full (fr_vessels s ! v)),
      lg_fov = cell (fr_full_on_vessels s)\<rparr>"

definition claim_of :: "cim_payload \<Rightarrow> claim multiset" where
  "claim_of p = (case p of
      LadenReturnPayload i j q \<Rightarrow> {#Owed_full (nat i) (nat j) q#}
    | VesselDischargePayload v i j q \<Rightarrow> {#Owed_discharge (nat v) (nat j) q#}
    | EmptyReturnPayload j q \<Rightarrow> {#Owed_empty (nat j) q#}
    | _ \<Rightarrow> {#})"

definition in_range :: "nat \<Rightarrow> int \<Rightarrow> bool" where
  "in_range n i \<longleftrightarrow> 0 \<le> i \<and> i < int n"

definition payload_ok :: "nat \<Rightarrow> nat \<Rightarrow> cim_payload \<Rightarrow> bool" where
  "payload_ok n m p = (case p of
      OrderPayload od \<Rightarrow> in_range n (od_src_port_idx od) \<and> in_range n (od_dest_port_idx od) \<and> 0 \<le> od_quantity od
    | VesselStatePayload i v \<Rightarrow> in_range n i \<and> in_range m v
    | VesselDischargePayload v i j q \<Rightarrow> in_range m v \<and> in_range n j \<and> 0 \<le> q
    | LadenReturnPayload i j q \<Rightarrow> in_range n i \<and> in_range n j \<and> 0 \<le> q
    | EmptyReturnPayload j q \<Rightarrow> in_range n j \<and> 0 \<le> q
    | DecisionPayload d \<Rightarrow> True
    | ActionsPayload as \<Rightarrow> list_all (\<lambda>x. case x of
          OneAction a \<Rightarrow> in_range m (ac_vessel_idx a) \<and> in_range n (ac_port_idx a) \<and> 0 \<le> ac_quantity a
        | _ \<Rightarrow> True) as)"

definition frame_ok :: "nat \<Rightarrow> nat \<Rightarrow> 'r cim \<Rightarrow> bool" where
  "frame_ok n m s \<longleftrightarrow> length (fr_ports s) = n \<and> length (fr_vessels s) = m \<and>
     mx_ok (fr_full_on_ports s) \<and> mx_rows (fr_full_on_ports s) = int n \<and> mx_cols (fr_full_on_ports s) = int n \<and>
     mx_ok (fr_full_on_vessels s) \<and> mx_rows (fr_full_on_vessels s) = int m \<and> mx_cols (fr_full_on_vessels s) = int n \<and>
     0 < cd_container_volume (ci_data s) \<and>
     list_all (list_all (\<lambda>st. in_range n (st_port_idx st))) (cd_vessel_stops (ci_data s)) \<and>
     list_all (\<lambda>v. of_int (vl_full v) * cd_container_volume (ci_data s) \<le> of_int (vl_capacity v)) (fr_vessels s)"

definition emit_payload :: "emit \<Rightarrow> cim_payload list" where
  "emit_payload e = (case e of EmitImmediate t ty p \<Rightarrow> [p] | EmitInsert t c ty p \<Rightarrow> [p] | EmitRetype ty \<Rightarrow> [])"

definition emitted_claims :: "emit list \<Rightarrow> claim multiset" where
  "emitted_claims es = (\<Sum>p \<in># mset (concat (map emit_payload es)). claim_of p)"

lemma emitted_simps [simp]:
  "emitted_claims [] = {#}" "emitted_claims (e # es) = (\<Sum>p \<in># mset (emit_payload e). claim_of p) + emitted_claims es"
  by (simp_all add: emitted_claims_def)

lemma emit_payload_simps [simp]:
  "emit_payload (EmitImmediate t ty p) = [p]" "emit_payload (EmitInsert t c ty p) = [p]"
  "emit_payload (EmitRetype ty) = []"
  by (simp_all add: emit_payload_def)

lemma claim_of_simps [simp]:
  "claim_of (LadenReturnPayload i j q) = {#Owed_full (nat i) (nat j) q#}"
  "claim_of (VesselDischargePayload v i j q) = {#Owed_discharge (nat v) (nat j) q#}"
  "claim_of (EmptyReturnPayload j q) = {#Owed_empty (nat j) q#}"
  "claim_of (OrderPayload od) = {#}" "claim_of (VesselStatePayload i v) = {#}"
  "claim_of (DecisionPayload d) = {#}" "claim_of (ActionsPayload as) = {#}"
  by (simp_all add: claim_of_def)

lemma payload_ok_simps [simp]:
  "payload_ok n m (OrderPayload od) \<longleftrightarrow>
     in_range n (od_src_port_idx od) \<and> in_range n (od_dest_port_idx od) \<and> 0 \<le> od_quantity od"
  "payload_ok n m (VesselStatePayload i v) \<longleftrightarrow> in_range n i \<and> in_range m v"
  "payload_ok n m (VesselDischargePayload v i j q) \<longleftrightarrow> in_range m v \<and> in_range n j \<and> 0 \<le> q"
  "payload_ok n m (LadenReturnPayload i j q) \<longleftrightarrow> in_range n i \<and> in_range n j \<and> 0 \<le> q"
  "payload_ok n m (EmptyReturnPayload j q) \<longleftrightarrow> in_range n j \<and> 0 \<le> q"
  "payload_ok n m (DecisionPayload d)"
  by (simp_all add: payload_ok_def)

lemma in_range_nat:
  assumes "in_range n i" obtains k where "i = int k" "k < n"
  using assms by (auto simp: in_range_def dest: nonneg_int_cases)

lemma in_range_int [simp]: "in_range n (int k) \<longleftrightarrow> k < n"
  by (simp add: in_range_def)

section \<open>Cells\<close>

lemma cell_get:
  assumes "mx_ok m" "mx_rows m = int a" "mx_cols m = int b" "i < a" "j < b"
  shows "mx_get m (int i) (int j) = Inr (cell m i j)"
proof -
  have "mx_in m (int i) (int j)" using assms by (simp add: mx_in_def)
  with mx_get_ok [OF assms(1) this] show ?thesis by (simp add: cell_def)
qed

lemma cell_set:
  assumes ok: "mx_ok m" "mx_rows m = int a" "mx_cols m = int b" "i < a" "j < b"
    and set: "mx_set m (int i) (int j) n = Inr m'"
  shows "cell m' = (cell m)(i := (cell m i)(j := n))"
proof (intro ext)
  fix x y
  from mx_ok_set [OF set ok(1)] have m': "mx_ok m'" "mx_rows m' = int a" "mx_cols m' = int b"
    using ok by simp_all
  show "cell m' x y = ((cell m)(i := (cell m i)(j := n))) x y"
  proof (cases "x < a \<and> y < b")
    case True
    then have "mx_in m (int i) (int j)" "mx_in m (int x) (int y)" using ok by (simp_all add: mx_in_def)
    from mx_get_set [OF ok(1) this set] cell_get [OF m', of x y] cell_get [OF ok(1-3), of x y] True
    show ?thesis by (auto split: if_splits)
  next
    case False
    then have "\<not> mx_in m (int x) (int y)" "\<not> mx_in m' (int x) (int y)" using ok m' by (simp_all add: mx_in_def)
    with False ok(4,5) show ?thesis by (auto simp: cell_def)
  qed
qed

lemma cell_add:
  assumes "mx_ok m" "mx_rows m = int a" "mx_cols m = int b" "i < a" "j < b"
    and "mx_set m (int i) (int j) (cell m i j + q) = Inr m'"
  shows "cell m' = add2 i j q (cell m)"
  using cell_set [OF assms] by (simp add: add2_def add1_def)

section \<open>The ledger under updates of the frame\<close>

lemma ledger_put_port:
  "i < length (fr_ports s) \<Longrightarrow> ledger_of (put_port i p s) =
     (ledger_of s)\<lparr>lg_empty := (lg_empty (ledger_of s))(i := pt_empty p),
        lg_ship := (lg_ship (ledger_of s))(i := pt_on_shipper p),
        lg_full := (lg_full (ledger_of s))(i := pt_full p),
        lg_cons := (lg_cons (ledger_of s))(i := pt_on_consignee p)\<rparr>"
  by (auto simp: ledger_of_def nth_list_update fun_eq_iff)

lemma ledger_put_vessel:
  "i < length (fr_vessels s) \<Longrightarrow> ledger_of (put_vessel i v s) =
     (ledger_of s)\<lparr>lg_vempty := (lg_vempty (ledger_of s))(i := vl_empty v),
        lg_vfull := (lg_vfull (ledger_of s))(i := vl_full v)\<rparr>"
  by (auto simp: ledger_of_def nth_list_update fun_eq_iff)

lemma ledger_cong:
  "fr_ports s' = fr_ports s \<Longrightarrow> fr_vessels s' = fr_vessels s \<Longrightarrow> fr_full_on_ports s' = fr_full_on_ports s \<Longrightarrow>
   fr_full_on_vessels s' = fr_full_on_vessels s \<Longrightarrow> ledger_of s' = ledger_of s"
  by (simp add: ledger_of_def)

lemma ledger_same_nodes:
  assumes "i < length (fr_vessels s)" "vl_empty v = vl_empty (fr_vessels s ! i)" "vl_full v = vl_full (fr_vessels s ! i)"
  shows "ledger_of (put_vessel i v s) = ledger_of s"
  using assms by (simp add: ledger_put_vessel) (auto simp: ledger_of_def fun_eq_iff)

lemma ledger_sel [simp]:
  "lg_empty (ledger_of s) i = pt_empty (fr_ports s ! i)" "lg_ship (ledger_of s) i = pt_on_shipper (fr_ports s ! i)"
  "lg_full (ledger_of s) i = pt_full (fr_ports s ! i)" "lg_cons (ledger_of s) i = pt_on_consignee (fr_ports s ! i)"
  "lg_vempty (ledger_of s) v = vl_empty (fr_vessels s ! v)" "lg_vfull (ledger_of s) v = vl_full (fr_vessels s ! v)"
  "lg_fop (ledger_of s) = cell (fr_full_on_ports s)" "lg_fov (ledger_of s) = cell (fr_full_on_vessels s)"
  by (simp_all add: ledger_of_def)

section \<open>Handlers as moves\<close>

lemma order_moves:
  assumes "on_order_generated g t od s = Inr (s', es)" "frame_ok n m s" "od_src_port_idx od = int i"
  defines "q \<equiv> order_qty (fr_ports s ! i) (od_quantity od)"
  shows "ledger_of s' = apply_move (Ship i q) (ledger_of s)" "i < n"
    "\<exists>e. es = [e] \<and> emit_payload e = [LadenReturnPayload (int i) (od_dest_port_idx od) q]"
    "frame_ok n m s'"
proof -
  from assms(1,3) obtain k s1 where i: "i < length (fr_ports s)" and
    d: "draw_buffer g ps_full_return_buffer i (put_port i (book_order (od_quantity od) (fr_ports s ! i)) s) = Inr (k, s')"
    and es: "es = follow_up t k RETURN_FULL (LadenReturnPayload (int i) (od_dest_port_idx od) q)"
    by (auto simp: on_order_generated_def res_simps Let_def node_at_int q_def)
  show "i < n" using i assms(2) by (simp add: frame_ok_def)
  show "\<exists>e. es = [e] \<and> emit_payload e = [LadenReturnPayload (int i) (od_dest_port_idx od) q]"
    unfolding es follow_up_def by auto
  have "ledger_of s' = ledger_of (put_port i (book_order (od_quantity od) (fr_ports s ! i)) s)"
    using draw_buffer_keeps [OF d] by (intro ledger_cong) simp_all
  then show "ledger_of s' = apply_move (Ship i q) (ledger_of s)"
    using i by (simp add: ledger_put_port book_order_simps add1_def q_def fun_upd_idem)
  show "frame_ok n m s'" using assms(2) draw_buffer_keeps [OF d] by (simp add: frame_ok_def)
qed

lemma full_return_moves:
  assumes "on_full_return (int i) (int j) q s = Inr (s', es)" "frame_ok n m s" "i < n" "j < n"
  shows "ledger_of s' = apply_move (Stack i j q) (ledger_of s)" "es = []" "frame_ok n m s'"
proof -
  let ?p = "fr_ports s ! i"
  let ?s1 = "put_port i (?p\<lparr>pt_on_shipper := pt_on_shipper ?p - q, pt_full := pt_full ?p + q\<rparr>) s"
  from assms(2) have mx: "mx_ok (fr_full_on_ports s)" "mx_rows (fr_full_on_ports s) = int n"
    "mx_cols (fr_full_on_ports s) = int n" and i: "i < length (fr_ports s)" using assms(3) by (simp_all add: frame_ok_def)
  from assms(1) i cell_get [OF mx assms(3,4)]
  have d: "set_pending_full (int i) (int j) (cell (fr_full_on_ports s) i j + q) ?s1 = Inr s'" and es: "es = []"
    by (auto simp: on_full_return_def res_simps Let_def node_at_int)
  note k = set_pending_full_keeps [OF d]
  have c: "cell (fr_full_on_ports s') = add2 i j q (cell (fr_full_on_ports s))"
    using cell_add [OF mx assms(3,4)] k(8) by simp
  have "ledger_of s' = (ledger_of ?s1)\<lparr>lg_fop := cell (fr_full_on_ports s')\<rparr>"
    using k by (simp add: ledger_of_def)
  then show "ledger_of s' = apply_move (Stack i j q) (ledger_of s)"
    using i c by (simp add: ledger_put_port add1_def fun_upd_idem)
  from mx_ok_set [OF k(8)] k assms(2) show "frame_ok n m s'" by (simp add: frame_ok_def)
qed (use assms in \<open>auto simp: on_full_return_def res_simps Let_def\<close>)

lemma discharge_moves:
  assumes "on_discharge g t (int v) src (int j) q s = Inr (s', es)" "frame_ok n m s" "v < m" "j < n" "0 \<le> q"
  shows "ledger_of s' = apply_move (Unload v j q) (ledger_of s)"
    "\<exists>e. es = [e] \<and> emit_payload e = [EmptyReturnPayload (int j) q]" "frame_ok n m s'"
proof -
  let ?v = "fr_vessels s ! v" and ?p = "fr_ports s ! j"
  let ?s1 = "put_port j (?p\<lparr>pt_on_consignee := pt_on_consignee ?p + q\<rparr>) (put_vessel v (set_full (vl_full ?v - q) ?v) s)"
  from assms(2) have mx: "mx_ok (fr_full_on_vessels s)" "mx_rows (fr_full_on_vessels s) = int m"
    "mx_cols (fr_full_on_vessels s) = int n" and i: "v < length (fr_vessels s)" "j < length (fr_ports s)"
    using assms(3,4) by (simp_all add: frame_ok_def)
  from assms(1) i cell_get [OF mx assms(3,4)] obtain mt k where
    st: "mx_set (fr_full_on_vessels s) (int v) (int j) (cell (fr_full_on_vessels s) v j - q) = Inr mt"
    and d: "draw_buffer g ps_empty_return_buffer j (?s1\<lparr>fr_full_on_vessels := mt\<rparr>) = Inr (k, s')"
    and es: "es = follow_up t k RETURN_EMPTY (EmptyReturnPayload (int j) q)"
    by (auto simp: on_discharge_def res_simps Let_def node_at_int)
  show "\<exists>e. es = [e] \<and> emit_payload e = [EmptyReturnPayload (int j) q]"
    unfolding es follow_up_def by auto
  note k = draw_buffer_keeps [OF d]
  have c: "cell mt = add2 v j (- q) (cell (fr_full_on_vessels s))" using cell_add [OF mx assms(3,4), of "- q"] st by simp
  have "ledger_of s' = (ledger_of ?s1)\<lparr>lg_fov := cell mt\<rparr>" using k by (simp add: ledger_of_def)
  then show "ledger_of s' = apply_move (Unload v j q) (ledger_of s)"
    using i c by (simp add: ledger_put_port ledger_put_vessel add1_def fun_upd_idem)
  have cap: "of_int (vl_full ?v) * cd_container_volume (ci_data s) \<le> of_int (vl_capacity ?v)" "0 < cd_container_volume (ci_data s)"
    using assms(2,3) by (auto simp: frame_ok_def intro: list_all_nthI)
  have "of_int (vl_full ?v - q) * cd_container_volume (ci_data s) \<le> of_int (vl_full ?v) * cd_container_volume (ci_data s)"
    using cap(2) assms(5) by (intro mult_right_mono) simp_all
  with cap(1) have "of_int (vl_full ?v - q) * cd_container_volume (ci_data s) \<le> of_int (vl_capacity ?v)" by linarith
  with mx_ok_set [OF st] k assms(2) show "frame_ok n m s'"
    by (simp add: frame_ok_def list_all_update)
qed

lemma empty_return_moves:
  assumes "on_empty_return (int j) q s = Inr (s', es)" "frame_ok n m s" "j < n"
  shows "ledger_of s' = apply_move (Return j q) (ledger_of s)" "es = []" "frame_ok n m s'"
proof -
  let ?p = "fr_ports s ! j"
  from assms have j: "j < length (fr_ports s)"
    and s': "s' = put_port j (?p\<lparr>pt_on_consignee := pt_on_consignee ?p - q, pt_empty := pt_empty ?p + q\<rparr>) s"
    and "es = []" by (auto simp: on_empty_return_def res_simps node_at_int)
  then show "ledger_of s' = apply_move (Return j q) (ledger_of s)" "es = []" "frame_ok n m s'"
    using assms(2) by (simp_all add: ledger_put_port add1_def fun_upd_idem frame_ok_def)
qed

lemma write_plans_frame_ok: "write_plans v ps s = Inr s' \<Longrightarrow> frame_ok n m s \<Longrightarrow> frame_ok n m s' \<and> ledger_of s' = ledger_of s"
  using write_plans_keeps [of v ps s s'] by (simp add: frame_ok_def ledger_of_def)

lemma frame_ok_put_vessel:
  assumes "frame_ok n m s" "v < m" "vl_full v' = vl_full (fr_vessels s ! v)" "vl_capacity v' = vl_capacity (fr_vessels s ! v)"
  shows "frame_ok n m (put_vessel v v' s)"
proof -
  have "of_int (vl_full v') * cd_container_volume (ci_data s) \<le> of_int (vl_capacity v')"
    using assms by (auto simp: frame_ok_def intro: list_all_nthI)
  with assms(1) show ?thesis by (simp add: frame_ok_def list_all_update)
qed

lemma arrival_moves:
  assumes "on_arrival p (int v) s = Inr (s', es)" "frame_ok n m s" "v < m"
  shows "ledger_of s' = ledger_of s" "es = []" "frame_ok n m s'"
proof -
  from assms(1,3) obtain v2 ps and stop :: stop and fs :: "stop list" where i: "v < length (fr_vessels s)"
    and sl: "set_stop_list None (Some (map Some fs)) ((fr_vessels s ! v)\<lparr>vl_last_loc_idx := vl_next_loc_idx (fr_vessels s ! v),
        vl_is_parking := 1, vl_loc_port_idx := st_port_idx stop\<rparr>) = Inr v2"
    and w: "write_plans (int v) ps (put_vessel v v2 s) = Inr s'" and es: "es = []"
    by (auto simp: on_arrival_def res_simps Let_def node_at_int)
  note sl = set_stop_list_keeps [OF sl]
  have "frame_ok n m (put_vessel v v2 s)" using frame_ok_put_vessel [OF assms(2,3)] sl by simp
  moreover have "ledger_of (put_vessel v v2 s) = ledger_of s" using i sl by (intro ledger_same_nodes) simp_all
  ultimately show "ledger_of s' = ledger_of s" "es = []" "frame_ok n m s'"
    using write_plans_frame_ok [OF w] es by simp_all
qed

lemma departure_moves:
  assumes "on_departure p (int v) s = Inr (s', es)" "frame_ok n m s" "v < m"
  shows "ledger_of s' = ledger_of s" "es = []" "frame_ok n m s'"
proof -
  from assms(1,3) obtain v2 ps where i: "v < length (fr_vessels s)"
    and sl: "set_stop_list (Some ps) None ((fr_vessels s ! v)\<lparr>vl_next_loc_idx := vl_next_loc_idx (fr_vessels s ! v) + 1,
        vl_is_parking := 0, vl_loc_port_idx := - 1\<rparr>) = Inr v2"
    and s': "s' = put_vessel v v2 s" and es: "es = []"
    by (auto simp: on_departure_def res_simps Let_def node_at_int)
  note sl = set_stop_list_keeps [OF sl]
  show "ledger_of s' = ledger_of s" "es = []" "frame_ok n m s'"
    unfolding s' using es i sl ledger_same_nodes [of v s v2] frame_ok_put_vessel [OF assms(2,3)] by simp_all
qed

lemma action_moves:
  assumes "apply_action a s = Inr (s', e)" "frame_ok n m s" "ac_vessel_idx a = int v" "ac_port_idx a = int i"
    "v < m" "i < n" "0 \<le> ac_quantity a" "0 \<le> vl_empty (fr_vessels s ! v)" "0 \<le> pt_empty (fr_ports s ! i)"
  defines "d \<equiv> if ac_action_type a = DISCHARGE then ac_quantity a else - ac_quantity a"
  shows "ledger_of s' = apply_move (Reposition v i d) (ledger_of s)" "frame_ok n m s'"
    "d \<le> vl_empty (fr_vessels s ! v)" "- d \<le> pt_empty (fr_ports s ! i)" "emit_payload e = []"
proof -
  let ?v = "fr_vessels s ! v" and ?p = "fr_ports s ! i"
  from assms(1,3,4) have i: "v < length (fr_vessels s)" "i < length (fr_ports s)"
    and s': "fr_ports s' = (fr_ports s)[i := ?p\<lparr>pt_empty := pt_empty ?p + d,
        pt_transfer_cost := pt_transfer_cost ?p + of_int (ac_quantity a)\<rparr>]"
      "fr_vessels s' = (fr_vessels s)[v := set_empty (vl_empty ?v - d) ?v]"
      "fr_full_on_ports s' = fr_full_on_ports s" "fr_full_on_vessels s' = fr_full_on_vessels s"
      "ci_source s' = ci_source s"
    and q: "if ac_action_type a = DISCHARGE then ac_quantity a \<le> vl_empty ?v else ac_quantity a \<le> pt_empty ?p"
    and e: "emit_payload e = []"
    by (auto simp: apply_action_def res_simps Let_def node_at_int d_def)
  let ?s1 = "put_port i (?p\<lparr>pt_empty := pt_empty ?p + d,
      pt_transfer_cost := pt_transfer_cost ?p + of_int (ac_quantity a)\<rparr>) (put_vessel v (set_empty (vl_empty ?v - d) ?v) s)"
  have "ledger_of s' = ledger_of ?s1" using s' by (intro ledger_cong) simp_all
  then show "ledger_of s' = apply_move (Reposition v i d) (ledger_of s)"
    using i by (simp add: ledger_put_port ledger_put_vessel add1_def fun_upd_idem)
  have "frame_ok n m (put_vessel v (set_empty (vl_empty ?v - d) ?v) s)"
    using frame_ok_put_vessel [OF assms(2,5)] by simp
  then show "frame_ok n m s'" using s' by (simp add: frame_ok_def)
  show "d \<le> vl_empty ?v" "- d \<le> pt_empty ?p" using q assms(7-9) by (auto simp: d_def split: if_splits)
  show "emit_payload e = []" by (rule e)
qed

section \<open>Loading\<close>

lemma load_move:
  assumes l: "load_to_next (int v) (int i) v i (int j) (cell (fr_full_on_ports s) i j) q s = Inr s'"
    and ok: "frame_ok n m s" "v < m" "i < n" "j < n"
    and cap: "of_int (vl_full (fr_vessels s ! v) + q) * cd_container_volume (ci_data s) \<le> of_int (vl_capacity (fr_vessels s ! v))"
  shows "ledger_of s' = apply_move (Load v i j q) (ledger_of s)" "frame_ok n m s'"
    "ci_source s' = ci_source s" "vl_full (fr_vessels s' ! v) = vl_full (fr_vessels s ! v) + q"
    "vl_capacity (fr_vessels s' ! v) = vl_capacity (fr_vessels s ! v)"
proof -
  let ?v = "fr_vessels s ! v" and ?p = "fr_ports s ! i"
  let ?s1 = "put_port i (?p\<lparr>pt_full := pt_full ?p - q\<rparr>) (put_vessel v (set_full (vl_full ?v + q) ?v) s)"
  from ok have x: "v < length (fr_vessels s)" "i < length (fr_ports s)"
    and mx: "mx_ok (fr_full_on_ports s)" "mx_rows (fr_full_on_ports s) = int n" "mx_cols (fr_full_on_ports s) = int n"
    and mv: "mx_ok (fr_full_on_vessels s)" "mx_rows (fr_full_on_vessels s) = int m" "mx_cols (fr_full_on_vessels s) = int n"
    by (simp_all add: frame_ok_def)
  note e = load_to_next_effect [OF l x]
  have c1: "cell (fr_full_on_ports s') = add2 i j (- q) (cell (fr_full_on_ports s))"
    using cell_add [OF mx ok(3,4), of "- q"] e(5) by simp
  have c2: "cell (fr_full_on_vessels s') = add2 v j q (cell (fr_full_on_vessels s))"
    using cell_add [OF mv ok(2,4), of q] e(6) cell_get [OF mv ok(2,4)] by auto
  have "ledger_of s' = (ledger_of ?s1)\<lparr>lg_fop := cell (fr_full_on_ports s'), lg_fov := cell (fr_full_on_vessels s')\<rparr>"
    using e(1,2) by (simp add: ledger_of_def)
  then show "ledger_of s' = apply_move (Load v i j q) (ledger_of s)"
    using x c1 c2 by (simp add: ledger_put_port ledger_put_vessel add1_def fun_upd_idem)
  from e(6) obtain k where "mx_set (fr_full_on_vessels s) (int v) (int j) k = Inr (fr_full_on_vessels s')" by blast
  with mx_ok_set [OF e(5)] mx_ok_set [OF this] e(1-4) ok(1) cap show "frame_ok n m s'"
    by (simp add: frame_ok_def list_all_update)
  show "ci_source s' = ci_source s" "vl_full (fr_vessels s' ! v) = vl_full ?v + q"
    "vl_capacity (fr_vessels s' ! v) = vl_capacity ?v" using e x by simp_all
qed

abbreviation flows :: "nat \<Rightarrow> nat \<Rightarrow> ledger \<times> claim multiset \<Rightarrow> ledger \<times> claim multiset \<Rightarrow> bool" where
  "flows n m \<equiv> (flow n m)\<^sup>*\<^sup>*"

lemma load_loop_flow:
  assumes "load_loop (int v) (int i) v i rs acc s = Inr (s', es)" "frame_ok n m s" "v < m" "i < n"
    and "list_all (\<lambda>r. in_range n (fst r)) rs"
    and "0 < acc \<Longrightarrow> of_int (vl_full (fr_vessels s ! v) + acc) * cd_container_volume (ci_data s) \<le> of_int (vl_capacity (fr_vessels s ! v))"
  shows "flows n m (ledger_of s, P) (ledger_of s', emitted_claims es + P) \<and> frame_ok n m s' \<and>
    list_all (payload_ok n m) (concat (map emit_payload es)) \<and> ci_source s' = ci_source s \<and>
    (0 \<le> vl_full (fr_vessels s' ! v) - vl_full (fr_vessels s ! v))"
  using assms
proof (induction rs arbitrary: acc s es P)
  case Nil
  then show ?case by simp
next
  case (Cons r rs)
  from Cons.prems(5) obtain j tick where r: "r = (int j, tick)" "j < n"
    by (cases r) (auto elim: in_range_nat)
  from Cons.prems(2) have mx: "mx_ok (fr_full_on_ports s)" "mx_rows (fr_full_on_ports s) = int n" "mx_cols (fr_full_on_ports s) = int n"
    by (simp_all add: frame_ok_def)
  let ?pend = "cell (fr_full_on_ports s) i j"
  note get = cell_get [OF mx Cons.prems(4) r(2)]
  show ?case
  proof (cases "0 < acc \<and> 0 < ?pend")
    case False
    with Cons.prems(1) get r(1) have "load_loop (int v) (int i) v i rs acc s = Inr (s', es)" by auto
    from Cons.IH [OF this Cons.prems(2-4) _ Cons.prems(6)] Cons.prems(5) show ?thesis by simp
  next
    case True
    define q where "q = min ?pend acc"
    with True have q: "0 < q" "q \<le> ?pend" "q \<le> acc" by auto
    from Cons.prems(1) get r(1) True obtain s1 es1 where
      l: "load_to_next (int v) (int i) v i (int j) ?pend q s = Inr s1"
      and rest: "load_loop (int v) (int i) v i rs (acc - q) s1 = Inr (s', es1)"
      and es: "es = EmitInsert tick True DISCHARGE_FULL (VesselDischargePayload (int v) (int i) (int j) q) # es1"
      by (auto simp: res_simps Let_def q_def)
    let ?vol = "cd_container_volume (ci_data s)"
    have vol: "0 < ?vol" using Cons.prems(2) by (simp add: frame_ok_def)
    have "of_int (vl_full (fr_vessels s ! v) + q) * ?vol \<le> of_int (vl_full (fr_vessels s ! v) + acc) * ?vol"
      using q vol by (intro mult_right_mono) simp_all
    with Cons.prems(6) True have cap: "of_int (vl_full (fr_vessels s ! v) + q) * ?vol \<le> of_int (vl_capacity (fr_vessels s ! v))"
      by linarith
    note lm = load_move [OF l Cons.prems(2-4) r(2) cap]
    have acc: "of_int (vl_full (fr_vessels s1 ! v) + (acc - q)) * cd_container_volume (ci_data s1) \<le> of_int (vl_capacity (fr_vessels s1 ! v))"
      using Cons.prems(6) True lm(3-5) by simp
    from Cons.IH [OF rest lm(2) Cons.prems(3,4) _ acc, of "add_mset (Owed_discharge v j q) P"] Cons.prems(5)
    have IH: "flows n m (ledger_of s1, add_mset (Owed_discharge v j q) P) (ledger_of s', emitted_claims es1 + add_mset (Owed_discharge v j q) P)"
      "frame_ok n m s'" "list_all (payload_ok n m) (concat (map emit_payload es1))" "ci_source s' = ci_source s1"
      "0 \<le> vl_full (fr_vessels s' ! v) - vl_full (fr_vessels s1 ! v)"
      by simp_all
    have "flow n m (ledger_of s, P) (ledger_of s1, add_mset (Owed_discharge v j q) P)"
      unfolding lm(1) using q Cons.prems(3,4) r(2) by (intro flow.load) simp_all
    from converse_rtranclp_into_rtranclp [of "flow n m", OF this IH(1)] IH(2-5) lm(3,4) q r(2) Cons.prems(3)
    show ?thesis by (simp add: es)
  qed
qed

lemma early_flow:
  assumes ok: "frame_ok n m s" "v < m" "i < n" and nn: "0 \<le> pt_empty (fr_ports s ! i)"
  shows "flows n m (ledger_of s, P) (ledger_of (early_discharge (cd_container_volume (ci_data s)) v i s), P) \<and>
    frame_ok n m (early_discharge (cd_container_volume (ci_data s)) v i s)"
proof -
  let ?v = "fr_vessels s ! v" and ?p = "fr_ports s ! i" and ?vol = "cd_container_volume (ci_data s)"
  let ?v0 = "?v\<lparr>vl_early_discharge := 0\<rparr>"
  define tot where "tot = vl_full ?v + vl_empty ?v"
  define d where "d = tot - \<lceil>of_int (vl_capacity ?v) / ?vol\<rceil>"
  have x: "v < length (fr_vessels s)" "i < length (fr_ports s)" and vol: "0 < ?vol"
    and cap: "of_int (vl_full ?v) * ?vol \<le> of_int (vl_capacity ?v)"
    using ok by (auto simp: frame_ok_def intro: list_all_nthI)
  show ?thesis
  proof (cases "of_int (vl_capacity ?v) < of_int tot * ?vol")
    case False
    then have e: "early_discharge ?vol v i s = put_vessel v ?v0 s"
      by (simp add: early_discharge_def Let_def tot_def)
    show ?thesis unfolding e using ledger_same_nodes [OF x(1), of ?v0] frame_ok_put_vessel [OF ok(1,2), of ?v0] by simp
  next
    case True
    let ?v1 = "(set_empty (vl_empty ?v - d) ?v0)\<lparr>vl_early_discharge := d\<rparr>"
    have e: "early_discharge ?vol v i s = put_port i (?p\<lparr>pt_empty := pt_empty ?p + d\<rparr>) (put_vessel v ?v1 s)"
      using True by (simp add: early_discharge_def Let_def tot_def d_def)
    have "of_int (vl_full ?v) \<le> of_int (vl_capacity ?v) / ?vol" using cap vol by (simp add: pos_le_divide_eq)
    then have "vl_full ?v \<le> \<lceil>of_int (vl_capacity ?v) / ?vol\<rceil>" by linarith
    then have d1: "d \<le> vl_empty ?v" by (simp add: d_def tot_def)
    have "of_int (vl_capacity ?v) / ?vol \<le> of_int tot" using True vol by (simp add: pos_divide_le_eq)
    then have "\<lceil>of_int (vl_capacity ?v) / ?vol\<rceil> \<le> tot" by linarith
    then have d2: "0 \<le> d" by (simp add: d_def)
    have m: "ledger_of (early_discharge ?vol v i s) = apply_move (Reposition v i d) (ledger_of s)"
      unfolding e using x by (simp add: ledger_put_port ledger_put_vessel add1_def fun_upd_idem)
    have "flow n m (ledger_of s, P) (ledger_of (early_discharge ?vol v i s), P)"
      unfolding m using ok d1 d2 nn by (intro flow.reposition) simp_all
    moreover have "frame_ok n m (put_vessel v ?v1 s)" using frame_ok_put_vessel [OF ok(1,2), of ?v1] by simp
    then have "frame_ok n m (early_discharge ?vol v i s)" unfolding e by (simp add: frame_ok_def)
    ultimately show ?thesis by blast
  qed
qed

lemma reachable_in_range:
  assumes "reachable_stops data v r l = Inr rs" "list_all (list_all (\<lambda>st. in_range n (st_port_idx st))) (cd_vessel_stops data)"
  shows "list_all (\<lambda>r. in_range n (fst r)) rs"
proof -
  from assms(1) obtain route stops where st: "py_get (cd_vessel_stops data) v = Inr stops"
    and rs: "rs = map (\<lambda>s. (st_port_idx s, st_arrival_tick s)) (py_slice stops (l + 1) (l + 1 + int (length (route :: route_point list))))"
    by (auto simp: reachable_stops_def res_simps)
  from py_get_mem [OF st] assms(2) have "list_all (\<lambda>st. in_range n (st_port_idx st)) stops" by (simp add: list_all_iff)
  with set_py_slice [of stops] show ?thesis by (auto simp: rs list_all_iff)
qed

lemma full_load_flow:
  assumes l: "on_full_load (int i) (int v) s = Inr (s', es)" and ok: "frame_ok n m s" "v < m" "i < n"
    and a: "accounted n m (ledger_of s, P)"
  shows "flows n m (ledger_of s, P) (ledger_of s', emitted_claims es + P) \<and> frame_ok n m s' \<and>
    list_all (payload_ok n m) (concat (map emit_payload es))"
proof -
  let ?v = "fr_vessels s ! v" and ?vol = "cd_container_volume (ci_data s)"
  let ?s1 = "put_vessel v (?v\<lparr>vl_last_loc_idx := vl_next_loc_idx ?v\<rparr>) s"
  let ?acc = "\<lfloor>(of_int (vl_capacity ?v) - of_int (vl_full ?v) * ?vol) / ?vol\<rfloor>"
  have x: "v < length (fr_vessels s)" and vol: "0 < ?vol"
    and st: "list_all (list_all (\<lambda>st. in_range n (st_port_idx st))) (cd_vessel_stops (ci_data s))"
    using ok by (auto simp: frame_ok_def)
  from l x obtain rs s2 where r: "reachable_stops (ci_data s) (int v) (vl_route_idx ?v) (vl_next_loc_idx ?v) = Inr rs"
    and ll: "load_loop (int v) (int i) v i rs ?acc ?s1 = Inr (s2, es)"
    and s': "s' = early_discharge ?vol v i s2"
    by (auto simp: on_full_load_def res_simps Let_def node_at_int split: if_splits)
  have ok1: "frame_ok n m ?s1" using frame_ok_put_vessel [OF ok(1,2)] by simp
  have lg1: "ledger_of ?s1 = ledger_of s" using x by (intro ledger_same_nodes) simp_all
  have "of_int ?acc \<le> (of_int (vl_capacity ?v) - of_int (vl_full ?v) * ?vol) / ?vol" by (rule of_int_floor_le)
  then have "of_int ?acc * ?vol \<le> of_int (vl_capacity ?v) - of_int (vl_full ?v) * ?vol"
    by (rule iffD1 [OF pos_le_divide_eq [OF vol]])
  then have cap: "of_int (vl_full (fr_vessels ?s1 ! v) + ?acc) * cd_container_volume (ci_data ?s1) \<le> of_int (vl_capacity (fr_vessels ?s1 ! v))"
    using x by (simp add: distrib_right)
  from load_loop_flow [OF ll ok1 ok(2,3) reachable_in_range [OF r st] cap, of P]
  have f: "flows n m (ledger_of s, P) (ledger_of s2, emitted_claims es + P)" "frame_ok n m s2"
    "list_all (payload_ok n m) (concat (map emit_payload es))" "ci_source s2 = ci_source s"
    unfolding lg1 by simp_all
  from flows_accounted [OF f(1) a] ok(3) have "0 \<le> lg_empty (ledger_of s2) i" by (simp add: accounted_def)
  then have "0 \<le> pt_empty (fr_ports s2 ! i)" by simp
  from early_flow [OF f(2) ok(2,3) this, of "emitted_claims es + P"] f(4)
  have e: "flows n m (ledger_of s2, emitted_claims es + P) (ledger_of s', emitted_claims es + P)" "frame_ok n m s'"
    unfolding s' by simp_all
  from rtranclp_trans [OF f(1) e(1)] e(2) f(3) show ?thesis by blast
qed

section \<open>Every handler is a flow\<close>

lemma actions_flow:
  assumes "on_action_received as s = Inr (s', es)" "frame_ok n m s" "payload_ok n m (ActionsPayload as)"
    "accounted n m (ledger_of s, P)"
  shows "flows n m (ledger_of s, P) (ledger_of s', emitted_claims es + P) \<and> frame_ok n m s' \<and>
    list_all (payload_ok n m) (concat (map emit_payload es))"
  using assms
proof (induction as arbitrary: s es)
  case (Cons x as)
  from Cons.prems(1) obtain a s1 e es1 where x: "x = OneAction a" and ac: "apply_action a s = Inr (s1, e)"
    and rest: "on_action_received as s1 = Inr (s', es1)" and es: "es = e # es1"
    by (auto simp: res_simps split: py_action.splits)
  from Cons.prems(3) x have "in_range m (ac_vessel_idx a)" "in_range n (ac_port_idx a)" and q: "0 \<le> ac_quantity a"
    and rest_ok: "payload_ok n m (ActionsPayload as)" by (auto simp: payload_ok_def)
  then obtain v i where v: "ac_vessel_idx a = int v" "v < m" and i: "ac_port_idx a = int i" "i < n"
    by (metis in_range_nat)
  have nn: "0 \<le> vl_empty (fr_vessels s ! v)" "0 \<le> pt_empty (fr_ports s ! i)"
    using accounted_nonneg(1,5) [OF Cons.prems(4)] v(2) i(2) by auto
  note mv = action_moves [OF ac Cons.prems(2) v(1) i(1) v(2) i(2) q nn]
  have st: "flow n m (ledger_of s, P) (ledger_of s1, P)"
    unfolding mv(1) using v(2) i(2) mv(3,4) by (intro flow.reposition) simp_all
  from Cons.IH [OF rest mv(2) rest_ok flow_accounted [OF st Cons.prems(4)]]
    converse_rtranclp_into_rtranclp [of "flow n m", OF st] mv(5)
  show ?case by (simp add: es)
qed simp

text \<open>Handling one pending event: its own claim is used up, the claims of what it emits are added.\<close>

lemma handle_flow:
  assumes h: "handle g hn t (Some p) s = Inr (s', es)" and ok: "frame_ok n m s" "payload_ok n m p"
    and a: "accounted n m (ledger_of s, claim_of p + P)"
  shows "flows n m (ledger_of s, claim_of p + P) (ledger_of s', emitted_claims es + P) \<and> frame_ok n m s' \<and>
    list_all (payload_ok n m) (concat (map emit_payload es))"
proof (cases p)
  case (OrderPayload od)
  with h obtain tk where o: "on_order_generated g tk od s = Inr (s', es)"
    by (auto simp: handle_def res_simps split: cim_handler.splits)
  from ok(2) OrderPayload obtain i j where i: "od_src_port_idx od = int i" "i < n" and j: "od_dest_port_idx od = int j" "j < n"
    and q: "0 \<le> od_quantity od" by (auto elim!: in_range_nat)
  note mv = order_moves [OF o ok(1) i(1)]
  let ?q = "order_qty (fr_ports s ! i) (od_quantity od)"
  have e: "0 \<le> pt_empty (fr_ports s ! i)" using accounted_nonneg(1) [OF a i(2)] by simp
  with q have b: "0 \<le> ?q" "?q \<le> pt_empty (fr_ports s ! i)" by (auto simp: order_qty_def)
  then have "flow n m (ledger_of s, P) (ledger_of s', add_mset (Owed_full i j ?q) P)"
    unfolding mv(1) using i(2) j(2) by (intro flow.order) simp_all
  with mv(3,4) b(1) i j OrderPayload show ?thesis by auto
next
  case (VesselStatePayload i v)
  with ok(2) obtain i' v' where iv: "i = int i'" "i' < n" "v = int v'" "v' < m" by (auto elim!: in_range_nat)
  from h VesselStatePayload consider "on_full_load i v s = Inr (s', es)" | "on_arrival i v s = Inr (s', es)"
    | "on_departure i v s = Inr (s', es)"
    by (auto simp: handle_def res_simps split: cim_handler.splits)
  then show ?thesis
  proof cases
    case 1
    with full_load_flow [of i' v' s s' es n m P] iv ok(1) a VesselStatePayload show ?thesis by simp
  next
    case 2
    with arrival_moves [of i v' s s' es n m] iv ok(1) VesselStatePayload show ?thesis by simp
  next
    case 3
    with departure_moves [of i v' s s' es n m] iv ok(1) VesselStatePayload show ?thesis by simp
  qed
next
  case (VesselDischargePayload v i j q)
  with h obtain tk where d: "on_discharge g tk v i j q s = Inr (s', es)"
    by (auto simp: handle_def res_simps split: cim_handler.splits)
  from ok(2) VesselDischargePayload obtain v' j' where vj: "v = int v'" "v' < m" "j = int j'" "j' < n" and q: "0 \<le> q"
    by (auto elim!: in_range_nat)
  note mv = discharge_moves [OF d [unfolded vj(1,3)] ok(1) vj(2,4) q]
  have "flow n m (ledger_of s, add_mset (Owed_discharge v' j' q) P) (ledger_of s', add_mset (Owed_empty j' q) P)"
    unfolding mv(1) by (rule flow.unload)
  with mv(2,3) vj q VesselDischargePayload show ?thesis by auto
next
  case (LadenReturnPayload i j q)
  with h have d: "on_full_return i j q s = Inr (s', es)"
    by (auto simp: handle_def res_simps split: cim_handler.splits)
  from ok(2) LadenReturnPayload obtain i' j' where ij: "i = int i'" "i' < n" "j = int j'" "j' < n"
    by (auto elim!: in_range_nat)
  note mv = full_return_moves [OF d [unfolded ij(1,3)] ok(1) ij(2,4)]
  have "flow n m (ledger_of s, add_mset (Owed_full i' j' q) P) (ledger_of s', P)"
    unfolding mv(1) by (rule flow.stack)
  with mv(2,3) ij LadenReturnPayload show ?thesis by auto
next
  case (EmptyReturnPayload j q)
  with h have d: "on_empty_return j q s = Inr (s', es)"
    by (auto simp: handle_def res_simps split: cim_handler.splits)
  from ok(2) EmptyReturnPayload obtain j' where j: "j = int j'" "j' < n" by (auto elim!: in_range_nat)
  note mv = empty_return_moves [OF d [unfolded j(1)] ok(1) j(2)]
  have "flow n m (ledger_of s, add_mset (Owed_empty j' q) P) (ledger_of s', P)"
    unfolding mv(1) by (rule flow.return)
  with mv(2,3) j EmptyReturnPayload show ?thesis by auto
next
  case (DecisionPayload d)
  with h show ?thesis by (auto simp: handle_def split: cim_handler.splits)
next
  case (ActionsPayload as)
  with h have "on_action_received as s = Inr (s', es)"
    by (auto simp: handle_def res_simps split: cim_handler.splits)
  with actions_flow [of as s s' es n m P] ok a ActionsPayload show ?thesis by simp
qed

section \<open>Reachable states\<close>

text \<open>
  The engine with its pending events as a multiset of payloads, handled in any order by any handler
  that accepts them; new orders, vessel events and actions may arrive at any time, vessel plans are
  written as \<open>check_arrival\<close> does, orders exported and snapshots taken.
\<close>

inductive cim_trans ::
  "'r rng \<Rightarrow> nat \<Rightarrow> nat \<Rightarrow> 'r cim \<times> cim_payload multiset \<Rightarrow> 'r cim \<times> cim_payload multiset \<Rightarrow> bool"
  for g n m where
  arrive: "payload_ok n m p \<Longrightarrow> claim_of p = {#} \<Longrightarrow> cim_trans g n m (s, Q) (s, add_mset p Q)"
| handled: "handle g hn t (Some p) s = Inr (s', es) \<Longrightarrow>
    cim_trans g n m (s, add_mset p Q) (s', mset (concat (map emit_payload es)) + Q)"
| tick: "cim_post_step t s = Inr (s', e) \<Longrightarrow> cim_trans g n m (s, Q) (s', Q)"
| orders: "get_orders g t e s = Inr (os, s') \<Longrightarrow> cim_trans g n m (s, Q) (s', Q)"
| export: "cim_trans g n m (s, Q) (export_order order s, Q)"
| plan: "mx_set (fr_vessel_plans s) vi p a = Inr M \<Longrightarrow> cim_trans g n m (s, Q) (s\<lparr>fr_vessel_plans := M\<rparr>, Q)"
| snapshot: "cim_trans g n m (s, Q) (cim_take_snapshot fi s, Q)"

inductive_cases cim_trans_emptyE: "cim_trans g n m (s, {#}) S"

definition pending_claims :: "cim_payload multiset \<Rightarrow> claim multiset" where
  "pending_claims Q = (\<Sum>p \<in># Q. claim_of p)"

definition cim_accounted :: "nat \<Rightarrow> nat \<Rightarrow> 'r cim \<times> cim_payload multiset \<Rightarrow> bool" where
  "cim_accounted n m S \<longleftrightarrow> (case S of (s, Q) \<Rightarrow>
     frame_ok n m s \<and> (\<forall>p \<in># Q. payload_ok n m p) \<and> accounted n m (ledger_of s, pending_claims Q))"

lemma post_step_ledger:
  assumes "cim_post_step t s = Inr (s', e)"
  shows "i < length (fr_ports s) \<Longrightarrow> port_total (fr_ports s' ! i) = port_total (fr_ports s ! i)"
    "frame_ok n m s \<Longrightarrow> frame_ok n m s'" "accounted (length (fr_ports s)) m (ledger_of s, P) \<Longrightarrow>
     accounted (length (fr_ports s)) m (ledger_of s', P)"
proof -
  let ?f = "\<lambda>p. clear_tick_fields (p\<lparr>pt_acc_fulfillment := pt_acc_booking p - pt_acc_shortage p\<rparr>)"
  have s': "fr_ports s' = fr_ports s \<or> fr_ports s' = map ?f (fr_ports s)"
    "fr_vessels s' = fr_vessels s" "fr_full_on_ports s' = fr_full_on_ports s"
    "fr_full_on_vessels s' = fr_full_on_vessels s" "ci_source s' = ci_source s"
    using assms by (auto simp: cim_post_step_def cim_take_snapshot_def Let_def res_simps split: if_splits)
  have f: "pt_empty (?f p) = pt_empty p" "pt_full (?f p) = pt_full p" "pt_on_shipper (?f p) = pt_on_shipper p"
    "pt_on_consignee (?f p) = pt_on_consignee p" for p
    by (simp_all add: clear_tick_fields_simps)
  show "port_total (fr_ports s' ! i) = port_total (fr_ports s ! i)" if "i < length (fr_ports s)"
    using s'(1) that by (auto simp: port_total_def f)
  show "frame_ok n m s'" if "frame_ok n m s" using that s' by (auto simp: frame_ok_def)
  assume a: "accounted (length (fr_ports s)) m (ledger_of s, P)"
  have "pt_empty (fr_ports s' ! i) = pt_empty (fr_ports s ! i) \<and> pt_full (fr_ports s' ! i) = pt_full (fr_ports s ! i) \<and>
      pt_on_shipper (fr_ports s' ! i) = pt_on_shipper (fr_ports s ! i) \<and>
      pt_on_consignee (fr_ports s' ! i) = pt_on_consignee (fr_ports s ! i)" if "i < length (fr_ports s)" for i
    using s'(1) that f by auto
  with a s' show "accounted (length (fr_ports s)) m (ledger_of s', P)" by (simp add: accounted_def)
qed

theorem cim_trans_accounted:
  assumes "cim_trans g n m S S'" "cim_accounted n m S"
  shows "cim_accounted n m S'"
  using assms
proof (cases rule: cim_trans.cases)
  case (arrive p s Q)
  with assms(2) show ?thesis by (auto simp: cim_accounted_def pending_claims_def)
next
  case (handled hn t p s s' es Q)
  with assms(2) have ok: "frame_ok n m s" "payload_ok n m p" "\<forall>p \<in># Q. payload_ok n m p"
    and a: "accounted n m (ledger_of s, claim_of p + pending_claims Q)"
    by (auto simp: cim_accounted_def pending_claims_def)
  from handle_flow [OF handled(3) ok(1,2) a] have
    f: "flows n m (ledger_of s, claim_of p + pending_claims Q) (ledger_of s', emitted_claims es + pending_claims Q)"
    and ok': "frame_ok n m s'" "list_all (payload_ok n m) (concat (map emit_payload es))" by blast+
  from flows_accounted [OF f a] ok' ok(3) show ?thesis
    unfolding handled(2) by (auto simp: cim_accounted_def pending_claims_def emitted_claims_def list_all_iff)
next
  case (tick t s s' e Q)
  with assms(2) have "frame_ok n m s" "\<forall>p \<in># Q. payload_ok n m p" "accounted n m (ledger_of s, pending_claims Q)"
    by (auto simp: cim_accounted_def)
  moreover from this(1) have "length (fr_ports s) = n" by (simp add: frame_ok_def)
  ultimately show ?thesis using post_step_ledger(2,3) [OF tick(3)] tick(2) by (simp add: cim_accounted_def)
next
  case (orders t e s os s' Q)
  have k: "ledger_of s' = ledger_of s" "frame_ok n m s' = frame_ok n m s"
    using orders(3) by (auto simp: get_orders_def res_simps ledger_of_def frame_ok_def)
  with assms(2) orders show ?thesis by (simp add: cim_accounted_def)
next
  case (export s Q order)
  then show ?thesis
    using assms(2) by (simp add: cim_accounted_def export_order_def frame_ok_def ledger_of_def)
next
  case (plan s vi p a M Q)
  then show ?thesis using assms(2) by (simp add: cim_accounted_def frame_ok_def ledger_of_def)
next
  case (snapshot s Q fi)
  then show ?thesis
    using assms(2) by (simp add: cim_accounted_def cim_take_snapshot_def frame_ok_def ledger_of_def)
qed

lemma cim_reachable_accounted:
  "(cim_trans g n m)\<^sup>*\<^sup>* S S' \<Longrightarrow> cim_accounted n m S \<Longrightarrow> cim_accounted n m S'"
  by (induction rule: rtranclp_induct) (blast intro: cim_trans_accounted)+

end
