(* ===== verification/CimActions.thy ===== *)
theory CimActions imports CimFlow begin

text \<open>
  What the agent sees and does: the scope published with a decision against the assertions of
  \<open>_on_action_received\<close>, the exact effect of an accepted action, early discharge, and the states the
  engine starts from.
\<close>

section \<open>Scope and acceptance\<close>

text \<open>Whatever the environment can ask \<open>apply_action\<close> to look up is there.\<close>

definition action_ok :: "nat \<Rightarrow> nat \<Rightarrow> 'r cim \<Rightarrow> bool" where
  "action_ok n m s \<longleftrightarrow> length (fr_ports s) = n \<and> length (fr_vessels s) = m \<and>
     mx_ok (fr_vessel_plans s) \<and> mx_rows (fr_vessel_plans s) = int m \<and> mx_cols (fr_vessel_plans s) = int n \<and>
     length (cd_vessel_period (ci_data s)) = m"

text \<open>C40: The action scope shown to the agent is exact: an action is executed without an
  error if and only if its quantity is within the load or discharge scope of its type.\<close>

theorem scope_is_exact:
  assumes ok: "action_ok n m s" and a: "ac_vessel_idx a = int v" "ac_port_idx a = int i" "v < m" "i < n"
    and sc: "cim_action_scope s (int i) (int v) = Inr sc"
  shows "(\<exists>s' e. apply_action a s = Inr (s', e)) \<longleftrightarrow>
    ac_quantity a \<le> (case ac_action_type a of LOAD \<Rightarrow> as_load sc | DISCHARGE \<Rightarrow> as_discharge sc)"
proof -
  let ?v = "fr_vessels s ! v" and ?p = "fr_ports s ! i"
  from ok a(3,4) have x: "v < length (fr_vessels s)" "i < length (fr_ports s)"
    and mx: "mx_ok (fr_vessel_plans s)" "mx_rows (fr_vessel_plans s) = int m" "mx_cols (fr_vessel_plans s) = int n"
    by (simp_all add: action_ok_def)
  from sc x have s: "as_load sc = min (pt_empty ?p) (vl_remaining_space ?v)" "as_discharge sc = vl_empty ?v"
    by (auto simp: cim_action_scope_def res_simps node_at_int)
  have g: "mx_get (fr_vessel_plans s) (int v) (int i) = Inr (cell (fr_vessel_plans s) v i)"
    by (rule cell_get [OF mx a(3,4)])
  have "mx_in (fr_vessel_plans s) (int v) (int i)" using mx a(3,4) by (simp add: mx_in_def)
  note st = mx_set_ok [OF mx(1) this]
  have pd: "py_get (cd_vessel_period (ci_data s)) (int v) = Inr (cd_vessel_period (ci_data s) ! v)"
    using ok a(3) by (simp add: action_ok_def py_get_nonneg)
  have n: "node_at (fr_vessels s) (int v) = Inr (v, ?v)" "node_at (fr_ports s) (int i) = Inr (i, ?p)"
    using x by (simp_all add: node_at_int)
  show ?thesis
    by (cases "ac_action_type a") (auto simp: apply_action_def a n g st pd s assertE_def Let_def)
qed

text \<open>The effect of an accepted action: containers move, the vessel's space follows, the plan advances.\<close>

text \<open>An executed action moves its quantity between the empties of the port and of the
  vessel, adjusts the remaining space, extends the vessel plan by one period, counts the operation,
  and renames the event by its direction.\<close>

theorem apply_action_effect:
  assumes "apply_action a s = Inr (s', e)" "action_ok n m s" "ac_vessel_idx a = int v" "ac_port_idx a = int i"
    "v < m" "i < n"
  defines "d \<equiv> if ac_action_type a = DISCHARGE then ac_quantity a else - ac_quantity a"
  shows "pt_empty (fr_ports s' ! i) = pt_empty (fr_ports s ! i) + d \<and>
    vl_empty (fr_vessels s' ! v) = vl_empty (fr_vessels s ! v) - d \<and>
    vl_remaining_space (fr_vessels s' ! v) =
      vl_total_space (fr_vessels s ! v) - vl_full (fr_vessels s ! v) - (vl_empty (fr_vessels s ! v) - d) \<and>
    cell (fr_vessel_plans s') v i = cell (fr_vessel_plans s) v i + cd_vessel_period (ci_data s) ! v \<and>
    ci_total_operate_num s' = ci_total_operate_num s + ac_quantity a \<and>
    e = EmitRetype (if ac_action_type a = DISCHARGE then DISCHARGE_EMPTY else LOAD_EMPTY)"
proof -
  let ?v = "fr_vessels s ! v" and ?p = "fr_ports s ! i"
  from assms(2,5,6) have x: "v < length (fr_vessels s)" "i < length (fr_ports s)"
    and mx: "mx_ok (fr_vessel_plans s)" "mx_rows (fr_vessel_plans s) = int m" "mx_cols (fr_vessel_plans s) = int n"
    by (simp_all add: action_ok_def)
  have g: "mx_get (fr_vessel_plans s) (int v) (int i) = Inr (cell (fr_vessel_plans s) v i)"
    by (rule cell_get [OF mx assms(5,6)])
  have pd: "py_get (cd_vessel_period (ci_data s)) (int v) = Inr (cd_vessel_period (ci_data s) ! v)"
    using assms(2,5) by (simp add: action_ok_def py_get_nonneg)
  have n: "node_at (fr_vessels s) (int v) = Inr (v, ?v)" "node_at (fr_ports s) (int i) = Inr (i, ?p)"
    using x by (simp_all add: node_at_int)
  from assms(1) have s': "fr_ports s' = (fr_ports s)[i := ?p\<lparr>pt_empty := pt_empty ?p + d,
        pt_transfer_cost := pt_transfer_cost ?p + of_int (ac_quantity a)\<rparr>]"
      "fr_vessels s' = (fr_vessels s)[v := set_empty (vl_empty ?v - d) ?v]"
      "ci_total_operate_num s' = ci_total_operate_num s + ac_quantity a"
      "e = EmitRetype (if ac_action_type a = DISCHARGE then DISCHARGE_EMPTY else LOAD_EMPTY)"
    and st: "mx_set (fr_vessel_plans s) (int v) (int i) (cell (fr_vessel_plans s) v i + cd_vessel_period (ci_data s) ! v) =
        Inr (fr_vessel_plans s')"
    by (auto simp: apply_action_def assms(3,4) n g pd res_simps Let_def d_def put_port_def put_vessel_def)
  from cell_set [OF mx assms(5,6) st] s' x show ?thesis
    by (simp add: set_empty_def update_remaining_space_def)
qed

section \<open>Early discharge\<close>

text \<open>
  Early discharge brings the containers on board down to the capacity divided by the container volume,
  rounded up, while the space of a vessel is that quotient rounded down.
\<close>

theorem early_discharge_bound:
  assumes "0 < vol" "v < length (fr_vessels s)" "i < length (fr_ports s)"
  shows "vessel_total (fr_vessels (early_discharge vol v i s) ! v) =
    min (vessel_total (fr_vessels s ! v)) \<lceil>of_int (vl_capacity (fr_vessels s ! v)) / vol\<rceil>"
proof -
  let ?v = "fr_vessels s ! v" and ?c = "\<lceil>of_int (vl_capacity (fr_vessels s ! v)) / vol\<rceil>"
  show ?thesis
  proof (cases "of_int (vl_capacity ?v) < of_int (vl_full ?v + vl_empty ?v) * vol")
    case True
    then have "of_int (vl_capacity ?v) / vol < of_int (vl_full ?v + vl_empty ?v)"
      using assms(1) by (simp add: pos_divide_less_eq)
    then have "?c \<le> vl_full ?v + vl_empty ?v" by linarith
    with True assms show ?thesis
      by (simp add: early_discharge_def Let_def vessel_total_def)
  next
    case False
    then have "of_int (vl_full ?v + vl_empty ?v) \<le> of_int (vl_capacity ?v) / vol"
      using assms(1) by (simp add: pos_le_divide_eq)
    then have "vl_full ?v + vl_empty ?v \<le> ?c" by linarith
    with False assms show ?thesis
      by (simp add: early_discharge_def Let_def vessel_total_def)
  qed
qed

text \<open>
  So when the volume does not divide the capacity a vessel filled past its space stays over it: its
  remaining space and the load scope are negative, and even the action that loads nothing is refused.
\<close>

lemma overloaded_scope_refuses_zero:
  assumes ok: "action_ok n m s" and x: "v < m" "i < n" and sp: "vl_remaining_space (fr_vessels s ! v) < 0"
  shows "apply_action \<lparr>ac_vessel_idx = int v, ac_port_idx = int i, ac_quantity = 0, ac_action_type = LOAD\<rparr> s =
    Inl AssertionError"
proof -
  have "node_at (fr_vessels s) (int v) = Inr (v, fr_vessels s ! v)" "node_at (fr_ports s) (int i) = Inr (i, fr_ports s ! i)"
    using ok x by (simp_all add: node_at_int action_ok_def)
  with sp show ?thesis by (simp add: apply_action_def Let_def)
qed

text \<open>When the container volume does not divide the capacity, a vessel that carries more
  than its total space is discharged only down to one container over it: the remaining space after
  the early discharge is -1.\<close>

theorem early_discharge_overload:
  assumes "0 < vol" "v < length (fr_vessels s)" "i < length (fr_ports s)" "space_ok (fr_vessels s ! v)"
    and ts: "vl_total_space (fr_vessels s ! v) = \<lfloor>of_int (vl_capacity (fr_vessels s ! v)) / vol\<rfloor>"
    and nd: "of_int \<lfloor>of_int (vl_capacity (fr_vessels s ! v)) / vol\<rfloor> \<noteq> of_int (vl_capacity (fr_vessels s ! v)) / vol"
    and over: "vl_total_space (fr_vessels s ! v) < vessel_total (fr_vessels s ! v)"
  shows "vl_remaining_space (fr_vessels (early_discharge vol v i s) ! v) = - 1"
proof -
  let ?v = "fr_vessels s ! v" and ?e = "early_discharge vol v i s"
  let ?x = "of_int (vl_capacity ?v) / vol"
  have c: "\<lceil>?x\<rceil> = \<lfloor>?x\<rfloor> + 1" using nd by (simp add: ceiling_altdef)
  have ts': "vl_total_space (fr_vessels ?e ! v) = vl_total_space ?v" "space_ok (fr_vessels ?e ! v)"
    using assms(2-4) by (simp_all add: early_discharge_def Let_def)
  have "vessel_total (fr_vessels ?e ! v) = \<lfloor>?x\<rfloor> + 1"
    using early_discharge_bound [OF assms(1-3)] over ts c by simp
  with ts' ts show ?thesis by (simp add: space_ok_def vessel_total_def)
qed

section \<open>Initial states\<close>

definition fresh_port :: "port \<Rightarrow> bool" where
  "fresh_port p \<longleftrightarrow> 0 \<le> pt_empty p \<and> pt_full p = 0 \<and> pt_on_shipper p = 0 \<and> pt_on_consignee p = 0"

definition fresh_vessel :: "vessel \<Rightarrow> bool" where
  "fresh_vessel v \<longleftrightarrow> 0 \<le> vl_empty v \<and> vl_full v = 0 \<and> 0 \<le> vl_capacity v"

text \<open>Nodes just reset, empty matrices and nothing pending are accounted for.\<close>

lemma fresh_accounted:
  assumes "list_all fresh_port (fr_ports s)" "list_all fresh_vessel (fr_vessels s)"
    and "length (fr_ports s) = n" "length (fr_vessels s) = m" "0 < cd_container_volume (ci_data s)"
    and "list_all (list_all (\<lambda>st. in_range n (st_port_idx st))) (cd_vessel_stops (ci_data s))"
    and "fr_full_on_ports s = new_matrix (int n) (int n)" "fr_full_on_vessels s = new_matrix (int m) (int n)"
  shows "cim_accounted n m (s, {#})"
proof -
  have z: "cell (new_matrix (int a) (int b)) i j = 0" for a b i j
  proof -
    let ?z = "new_matrix (int a) (int b)"
    have "mx_slots ?z ! nat (mx_cols ?z * int i + int j) = 0" if "mx_in ?z (int i) (int j)"
    proof -
      have "nat (mx_cols ?z * int i + int j) < length (mx_slots ?z)"
        using mx_slot_bounds [OF mx_ok_new that] by (simp add: nat_less_iff)
      from nth_mem [OF this] show ?thesis by (simp add: new_matrix_def)
    qed
    then show ?thesis by (simp add: cell_def)
  qed
  have p: "fresh_port (fr_ports s ! i)" if "i < n" for i using assms(1,3) that by (auto intro: list_all_nthI)
  have v: "fresh_vessel (fr_vessels s ! i)" if "i < m" for i using assms(2,4) that by (auto intro: list_all_nthI)
  have "list_all (\<lambda>v. of_int (vl_full v) * cd_container_volume (ci_data s) \<le> of_int (vl_capacity v)) (fr_vessels s)"
    using assms(2) by (auto simp: list_all_iff fresh_vessel_def)
  then have "frame_ok n m s" using assms mx_ok_new by (simp add: frame_ok_def new_matrix_def)
  moreover have "accounted n m (ledger_of s, {#})"
    using p v assms(7,8) z by (simp add: accounted_def fresh_port_def fresh_vessel_def)
  ultimately show ?thesis by (simp add: cim_accounted_def pending_claims_def)
qed

text \<open>What initialisation keeps of a frame built with all attributes zero.\<close>

definition starting :: "cim_source \<Rightarrow> engine_base \<Rightarrow> nat \<Rightarrow> nat \<Rightarrow> 'r cim \<Rightarrow> bool" where
  "starting src base n m s \<longleftrightarrow> list_all fresh_port (fr_ports s) \<and> list_all fulfilment_ok (fr_ports s) \<and>
     list_all fresh_vessel (fr_vessels s) \<and> list_all space_ok (fr_vessels s) \<and>
     length (fr_ports s) = n \<and> length (fr_vessels s) = m \<and>
     fr_full_on_ports s = new_matrix (int n) (int n) \<and> fr_full_on_vessels s = new_matrix (int m) (int n) \<and>
     ci_source s = src \<and> ci_base s = base"

lemma starting_put_port:
  "starting src base n m s \<Longrightarrow> fresh_port p \<Longrightarrow> fulfilment_ok p \<Longrightarrow> starting src base n m (put_port i p s)"
  by (simp add: starting_def list_all_update)

lemma starting_put_vessel:
  "starting src base n m s \<Longrightarrow> fresh_vessel v \<Longrightarrow> space_ok v \<Longrightarrow> starting src base n m (put_vessel i v s)"
  by (simp add: starting_def list_all_update)

lemma starting_nodes:
  assumes "starting src base n m s"
  shows "i < length (fr_ports s) \<Longrightarrow> fresh_port (fr_ports s ! i) \<and> fulfilment_ok (fr_ports s ! i)"
    "j < length (fr_vessels s) \<Longrightarrow> fresh_vessel (fr_vessels s ! j) \<and> space_ok (fr_vessels s ! j)"
  using assms by (auto simp: starting_def intro: list_all_nthI)

lemma starting_init_port:
  assumes "init_port setting s = Inr s'" "0 \<le> ps_empty setting" "starting src base n m s"
  shows "starting src base n m s'"
proof -
  from assms(1) obtain pn p where n: "node_at (fr_ports s) (ps_index setting) = Inr (pn, p)"
    and s': "s' = put_port pn (port_set_init_state (ps_name setting) (ps_capacity setting) (ps_empty setting) p) s"
    by (auto simp: init_port_def res_simps)
  from node_at_Inr [OF n] starting_nodes(1) [OF assms(3)] have "fresh_port p" "fulfilment_ok p" by auto
  with assms(2,3) show ?thesis unfolding s'
    by (intro starting_put_port) (simp_all add: fresh_port_def fulfilment_ok_def port_set_init_state_def port_reset_def)
qed

lemma starting_init_vessel:
  assumes "init_vessel setting s = Inr s'" "0 \<le> vs_empty setting" "0 \<le> vs_capacity setting" "starting src base n m s"
  shows "starting src base n m s'"
proof -
  from assms(1) obtain vi v v1 r where n: "node_at (fr_vessels s) (vs_index setting) = Inr (vi, v)"
    and v1: "vessel_set_init_state (vs_name setting) (cd_container_volume (ci_data s)) (vs_capacity setting) r (vs_empty setting) v = Inr v1"
    and s': "s' = put_vessel vi v1 s"
    by (auto simp: init_vessel_def res_simps)
  from node_at_Inr [OF n] starting_nodes(2) [OF assms(4)] have "vl_full v = 0" by (auto simp: fresh_vessel_def)
  with v1 assms(2,3) have "fresh_vessel v1" "space_ok v1"
    by (auto simp: vessel_set_init_state_def vessel_reset_def fresh_vessel_def split: if_splits)
  with assms(4) show ?thesis unfolding s' by (intro starting_put_vessel)
qed

lemma starting_init_plan:
  assumes "init_vessel_plan vi s = Inr s'" "vi < m" "starting src base n m s"
  shows "starting src base n m s'"
proof -
  let ?v = "fr_vessels s ! vi"
  from assms(1) obtain v2 plan ps fs k pt where
    sl: "set_stop_list (Some ps) (Some fs) (?v\<lparr>vl_is_parking := k, vl_loc_port_idx := pt\<rparr>) = Inr v2"
    and w: "write_plans (int vi) plan (put_vessel vi v2 s) = Inr s'"
    by (auto simp: init_vessel_plan_def res_simps Let_def)
  have "vi < length (fr_vessels s)" using assms(2,3) by (simp add: starting_def)
  from starting_nodes(2) [OF assms(3) this] set_stop_list_keeps [OF sl] have "fresh_vessel v2" "space_ok v2"
    by (simp_all add: fresh_vessel_def)
  with assms(3) have "starting src base n m (put_vessel vi v2 s)" by (intro starting_put_vessel)
  with write_plans_keeps [OF w] show ?thesis by (simp add: starting_def)
qed

definition settings_ok :: "cim_data \<Rightarrow> bool" where
  "settings_ok data \<longleftrightarrow> list_all (\<lambda>p. 0 \<le> ps_empty p) (cd_port_settings data) \<and>
     list_all (\<lambda>v. 0 \<le> vs_empty v \<and> 0 \<le> vs_capacity v) (cd_vessel_settings data) \<and>
     0 < cd_container_volume data \<and>
     list_all (list_all (\<lambda>st. in_range (length (cd_port_settings data)) (st_port_idx st))) (cd_vessel_stops data)"

text \<open>The engine starts in a state that is accounted for and satisfies its invariant.\<close>

lemma init_accounted:
  assumes init: "init_cim src container base ex b = Inr (b', s)" and ok: "settings_ok (base_of src)"
  shows "cim_accounted (length (cd_port_settings (base_of src))) (length (cd_vessel_settings (base_of src))) (s, {#}) \<and>
    cim_invariant (cim_total s) base s"
proof -
  let ?data = "base_of src" and ?n = "length (cd_port_settings (base_of src))" and ?m = "length (cd_vessel_settings (base_of src))"
  from init obtain offsets s0 s1 s2 s3 where
    s0: "s0 = cim_frame.extend (gen_cim_frame (int ?n) (int ?m) (cd_past_stop_number ?data, cd_future_stop_number ?data))
        \<lparr>ci_source = src, ci_offsets = offsets, ci_container = container, ci_random_seed = None,
         ci_re_init_flag = False, ci_total_operate_num = 0, ci_base = base, ci_snapshots = [],
         ci_export_enabled = ex, ci_exported = []\<rparr>"
    and f1: "foldE init_port (cd_port_settings (ci_data s0)) s0 = Inr s1"
    and f2: "foldE init_vessel (cd_vessel_settings (ci_data s1)) s1 = Inr s2"
    and f3: "init_vessel_plans s3 = Inr s" and s3: "s3 = s2\<lparr>fr_vessel_plans := mx_fill (fr_vessel_plans s2) (- 1)\<rparr>"
    by (auto simp: init_cim_def init_nodes_def res_simps Let_def)
  have "starting src base ?n ?m s0"
    unfolding s0 by (simp add: starting_def cim_frame.extend_def gen_cim_frame_def list_all_iff fresh_port_def
        fresh_vessel_def blank_port_def blank_vessel_def fulfilment_ok_def space_ok_def)
  with f1 have st1: "starting src base ?n ?m s1"
  proof (rule foldE_invariant [where I = "starting src base ?n ?m"])
    fix x s s' assume "x \<in> set (cd_port_settings (ci_data s0))" "starting src base ?n ?m s" "init_port x s = Inr s'"
    moreover have "ci_data s0 = ?data" by (simp add: s0 cim_frame.extend_def)
    ultimately show "starting src base ?n ?m s'" using ok by (auto simp: settings_ok_def list_all_iff intro: starting_init_port)
  qed
  with f2 have st2: "starting src base ?n ?m s2"
  proof (rule foldE_invariant [where I = "starting src base ?n ?m"])
    fix x s s' assume "x \<in> set (cd_vessel_settings (ci_data s1))" "starting src base ?n ?m s" "init_vessel x s = Inr s'"
    moreover have "ci_data s1 = ?data" using st1 by (simp add: starting_def)
    ultimately show "starting src base ?n ?m s'"
      using ok by (auto simp: settings_ok_def list_all_iff intro: starting_init_vessel)
  qed
  then have "starting src base ?n ?m s3" by (simp add: s3 starting_def)
  with f3 [unfolded init_vessel_plans_def] have st: "starting src base ?n ?m s"
  proof (rule foldE_invariant [where I = "starting src base ?n ?m"])
    fix x s s' assume "x \<in> set [0..<length (fr_vessels s3)]" "starting src base ?n ?m s" "init_vessel_plan x s = Inr s'"
    moreover have "length (fr_vessels s3) = ?m" using \<open>starting src base ?n ?m s3\<close> by (simp add: starting_def)
    ultimately show "starting src base ?n ?m s'" by (auto intro: starting_init_plan)
  qed
  from st ok have "cim_accounted ?n ?m (s, {#})"
    by (intro fresh_accounted) (simp_all add: starting_def settings_ok_def)
  with st show ?thesis by (simp add: starting_def cim_invariant_def)
qed

section \<open>Runs and episodes\<close>

text \<open>C2: Whatever the handlers do with whatever payloads, and in whatever order they are
  called, after any run from the initial state the books balance: the containers at shippers, at
  consignees and on board for a port are exactly the sums of the pending laden-return, empty-return
  and discharge events, the laden containers of a port and of a vessel are the row sums of the two
  matrices, and no stock of empties is negative.\<close>

theorem cim_run_balanced:
  assumes init: "init_cim src container base ex b = Inr (b', s0)" and ok: "settings_ok (base_of src)"
    and run: "(cim_trans g n m)\<^sup>*\<^sup>* (s0, {#}) (s, Q)"
    and nm: "n = length (cd_port_settings (base_of src))" "m = length (cd_vessel_settings (base_of src))"
  shows "(\<forall>i < n. 0 \<le> pt_empty (fr_ports s ! i) \<and>
       pt_on_shipper (fr_ports s ! i) = (\<Sum>c \<in># pending_claims Q. owed_full i c) \<and>
       pt_on_consignee (fr_ports s ! i) = (\<Sum>c \<in># pending_claims Q. owed_empty i c) \<and>
       pt_full (fr_ports s ! i) = (\<Sum>j < n. cell (fr_full_on_ports s) i j)) \<and>
     (\<forall>v < m. 0 \<le> vl_empty (fr_vessels s ! v) \<and>
       vl_full (fr_vessels s ! v) = (\<Sum>j < n. cell (fr_full_on_vessels s) v j) \<and>
       (\<forall>j < n. cell (fr_full_on_vessels s) v j = (\<Sum>c \<in># pending_claims Q. owed_discharge v j c)))"
proof -
  have "cim_accounted n m (s0, {#})" using init_accounted [OF init ok] nm by simp
  from cim_reachable_accounted [OF run this] show ?thesis
    by (simp add: cim_accounted_def accounted_def ledger_of_def)
qed

text \<open>C3: Every handler of the container scenario is a sequence of moves of the container
  ledger (order, stack, load, unload, return, reposition), each of which takes only containers that
  are there and settles or creates the claims that the pending events stand for.\<close>

theorem handler_refines_ledger:
  assumes "handle g hn t (Some p) s = Inr (s', es)" "cim_accounted n m (s, add_mset p Q)"
  shows "flows n m (ledger_of s, pending_claims (add_mset p Q))
     (ledger_of s', pending_claims (mset (concat (map emit_payload es)) + Q))"
  using assms handle_flow [OF assms(1), of n m "pending_claims Q"]
  by (auto simp: cim_accounted_def pending_claims_def emitted_claims_def)

text \<open>C4: Over any number of calls of Env.step, with any actions, the containers in the system
  are conserved and the derived attributes (fulfillment, remaining space) stay what their callbacks
  make them.\<close>

theorem cim_episode_conserves:
  assumes "env_steps (cim_engine c) as s = Some (Inr (s', rs))"
    and "list_all fulfilment_ok (fr_ports (env_engine s))" "list_all space_ok (fr_vessels (env_engine s))"
  shows "cim_total (env_engine s') = cim_total (env_engine s) \<and>
     list_all fulfilment_ok (fr_ports (env_engine s')) \<and> list_all space_ok (fr_vessels (env_engine s'))"
  using cim.env_steps_inv [OF assms(1), of "cim_total (env_engine s)" "ci_base (env_engine s)"] assms(2,3)
  by (simp add: cim_invariant_def)

text \<open>An episode of the container scenario never passes the last tick, and a reply that
  says it is done is given at the last tick only.\<close>

theorem cim_episode_ends:
  assumes "env_steps (cim_engine c) as s = Some (Inr (s', rs))" "env_gen s = NotStarted"
    and "list_all fulfilment_ok (fr_ports (env_engine s))" "list_all space_ok (fr_vessels (env_engine s))"
    and "env_tick s < be_max_tick (ci_base (env_engine s))"
  shows "env_tick s' < be_max_tick (ci_base (env_engine s)) \<and>
     ((\<exists>r \<in> set rs. snd (snd r)) \<longrightarrow> env_tick s' + 1 = be_max_tick (ci_base (env_engine s)))"
  using assms(2-)
  by (intro cim.env_steps_time [OF assms(1), where K = "cim_total (env_engine s)"]) (simp_all add: cim_invariant_def)

end
