(* ===== verification/CimSamples.thy ===== *)
theory CimSamples imports CimActions begin

text \<open>
  Concrete instances of the properties of the container inventory scenario: two ports, one vessel
  sailing between them, a generator that always draws the middle of its range.
\<close>

section \<open>A small data collection\<close>

definition mid_rng :: "int rng" where
  "mid_rng = \<lparr>rg_seeded = (\<lambda>n. n), rg_uniform = (\<lambda>r a b. ((a + b) / 2, r + 1)), rg_randint = (\<lambda>r a b. (a, r + 1))\<rparr>"

definition sample_item :: "int \<Rightarrow> rat \<Rightarrow> noised_item" where
  "sample_item i p = \<lparr>ni_index = i, ni_base = p, ni_noise = 0\<rparr>"

definition sample_port :: "int \<Rightarrow> string \<Rightarrow> int \<Rightarrow> port_setting" where
  "sample_port i name target =
     \<lparr>ps_index = i, ps_name = name, ps_capacity = 100, ps_empty = 20, ps_empty_return_buffer = sample_item i 1,
      ps_full_return_buffer = sample_item i 1, ps_source_proportion = sample_item i 1,
      ps_target_proportions = [sample_item target 1]\<rparr>"

definition sample_vessel :: vessel_setting where
  "sample_vessel =
     \<lparr>vs_index = 0, vs_name = ''v'', vs_capacity = 10, vs_route_name = ''r'', vs_start_port_name = Some ''A'',
      vs_sailing_speed = Some 10, vs_sailing_noise = Some 0, vs_parking_duration = Some 1,
      vs_parking_noise = Some 0, vs_empty = 4\<rparr>"

definition sample_route :: "route_point list" where
  "sample_route =
     [\<lparr>rp_index = 0, rp_port_name = ''A'', rp_distance_to_next_port = 30\<rparr>,
      \<lparr>rp_index = 0, rp_port_name = ''B'', rp_distance_to_next_port = 50\<rparr>]"

definition sample_stops :: "stop list" where
  "sample_stops =
     [\<lparr>st_index = 0, st_arrival_tick = 0, st_leave_tick = 1, st_port_idx = 0, st_vessel_idx = 0\<rparr>,
      \<lparr>st_index = 1, st_arrival_tick = 4, st_leave_tick = 5, st_port_idx = 1, st_vessel_idx = 0\<rparr>,
      \<lparr>st_index = 2, st_arrival_tick = 10, st_leave_tick = 11, st_port_idx = 0, st_vessel_idx = 0\<rparr>]"

definition sample_data :: "cim_data" where
  "sample_data =
     \<lparr>cd_port_settings = [sample_port 0 ''A'' 1, sample_port 1 ''B'' 0], cd_port_mapping = [(''A'', 0), (''B'', 1)],
      cd_vessel_settings = [sample_vessel], cd_vessel_mapping = [(''v'', 0)], cd_vessel_stops = [sample_stops],
      cd_routes = [sample_route], cd_route_mapping = [(''r'', 0)], cd_vessel_period = [10],
      cd_container_volume = 1, cd_past_stop_number = 2, cd_future_stop_number = 2, cd_max_tick = 10, cd_seed = 7\<rparr>"

definition sample_synthetic :: synthetic_data where
  "sample_synthetic =
     cim_data.extend sample_data \<lparr>sd_total_containers = 44, sd_order_mode = FIXED, sd_order_proportion = [6, 8]\<rparr>"

definition sample_random_state :: "int sim_random" where
  "sample_random_state =
     \<lparr>rand_instances = [(BUFFER_TICK_RAND_KEY, 1), (ORDER_NUM_RAND_KEY, 2)],
      seed_dict = [(BUFFER_TICK_RAND_KEY, 1), (ORDER_NUM_RAND_KEY, 2)], base_seed = 1\<rparr>"

lemma mid_rng_law: "rng_law mid_rng"
  by (simp add: rng_law_def mid_rng_def min_def max_def field_simps)

lemmas sample_defs = sample_data_def sample_synthetic_def sample_stops_def sample_route_def sample_vessel_def
  sample_port_def sample_item_def cim_data.extend_def

section \<open>Stops, predictions, orders\<close>

theorem past_stops_witness:
  "\<exists>l. past_stops sample_data 0 2 2 = Inr l \<and> length l = 2 \<and> (\<forall>s \<in> set l. \<forall>x. s = Some x \<longrightarrow> x \<in> set sample_stops)"
  using past_stops_length [of sample_data 0 sample_stops 2 2]
  by (simp add: sample_data_def sample_stops_def py_get_nonneg)

theorem predict_future_stops_witness:
  "\<exists>ss. predict_future_stops sample_data [0] 0 1 2 = Inr ss \<and> length ss = 2 \<and>
     sorted_wrt (<) (4 # map st_arrival_tick ss)"
  using predict_future_stops_spec [of sample_data 0 sample_vessel sample_route 1 "sample_stops ! 1" "[0]" 0 2]
  by (auto simp: sample_defs py_get_nonneg speed_ok_def route_of_def dict_get_def route_ok_def dict_mem_def get_stop_def)

theorem gen_orders_witness:
  "\<exists>os s'. gen_orders mid_rng sample_synthetic 1 40 sample_random_state = Inr (os, s') \<and>
     sum_list (map od_quantity os) = 8"
  using gen_orders_total [of mid_rng sample_synthetic 1 8 40 sample_random_state] mid_rng_law
  by (auto simp: sample_defs py_get_nonneg ports_ok_def proportions_ok_def)

theorem orders_repeat_witness:
  "(case synthetic_get_orders mid_rng sample_synthetic 1 40
        (container_reset \<lparr>cs_is_need_reset_seed = False, cs_random = sample_random_state\<rparr>) of
      Inl err \<Rightarrow> Inl err | Inr (os, d) \<Rightarrow> Inr os) =
   (case synthetic_get_orders mid_rng sample_synthetic 1 40
        (container_reset \<lparr>cs_is_need_reset_seed = False,
           cs_random = sample_random_state\<lparr>rand_instances := [(BUFFER_TICK_RAND_KEY, 50), (ORDER_NUM_RAND_KEY, 90)]\<rparr>\<rparr>) of
      Inl err \<Rightarrow> Inl err | Inr (os, d) \<Rightarrow> Inr os)"
  by (rule orders_repeat_after_reset [where b = 1 and n = 2])
     (simp_all add: sample_random_state_def rand_ok_def BUFFER_TICK_RAND_KEY_def ORDER_NUM_RAND_KEY_def)

section \<open>Parsing and unrolling\<close>

definition sample_port_conf :: "rat \<Rightarrow> port_conf" where
  "sample_port_conf p =
     \<lparr>pc_capacity = 100, pc_initial_container_proportion = p, pc_full_buffer_ticks = 1, pc_full_noise = 0,
      pc_empty_buffer_ticks = 1, pc_empty_noise = 0, pc_source = (1, 0), pc_targets = None\<rparr>"

theorem parse_ports_witness:
  "\<exists>mapping ports. parse_ports [(''A'', sample_port_conf (1 / 4)), (''B'', sample_port_conf (3 / 4))] 100 = Inr (mapping, ports) \<and>
     dict_get mapping ''B'' = Inr 1 \<and> ps_name (ports ! 1) = ''B''"
proof -
  let ?conf = "[(''A'', sample_port_conf (1 / 4)), (''B'', sample_port_conf (3 / 4))]"
  obtain mapping ports where p: "parse_ports ?conf 100 = Inr (mapping, ports)"
    by (simp add: parse_ports_def sample_port_conf_def parse_targets_def py_round_def round_half_even_def)
  with parse_ports_mapping [OF p, of 1] show ?thesis by simp
qed

theorem order_proportion_witness:
  "\<exists>ns s'. parse_global_order_proportion mid_rng (\<lambda>xs ps qs. [0, 1 / 2])
      \<lparr>uc_period = 2, uc_sample_noise = 0, uc_sample_nodes = [(0, 0), (1, 1 / 2)]\<rparr> 100 4 1 sample_random_state = Inr (ns, s') \<and>
     length ns = 3 \<and> list_all (\<lambda>n. 0 \<le> n \<and> n \<le> 100) ns"
proof -
  let ?r = "parse_global_order_proportion mid_rng (\<lambda>xs ps qs. [0, 1 / 2])
      \<lparr>uc_period = 2, uc_sample_noise = 0, uc_sample_nodes = [(0, 0), (1, 1 / 2)]\<rparr> 100 4 1 sample_random_state"
  have "upto 1 3 = [1, 2, 3 :: int]" by (simp add: upto.simps)
  then obtain ns s' where p: "?r = Inr (ns, s')"
    by (auto simp: parse_global_order_proportion_def complete_nodes_def tick_orders_def py_get_nonneg)
  with order_proportion_bounds [OF p] show ?thesis by simp
qed

lemma sample_sailing: "sailing_ok sample_vessel sample_route"
  by (simp add: sailing_ok_def sample_defs)

theorem unroll_loop_returns_witness:
  "\<exists>r. unroll_loop mid_rng sample_route [(''A'', 0), (''B'', 1)] sample_vessel 6 1
      \<lparr>ur_loc = 0, ur_tick = 0, ur_period = 0, ur_extra = 0, ur_index = 0, ur_stops = [],
       ur_random = sample_random_state\<rparr> = Some r"
  by (rule unroll_loop_returns [OF mid_rng_law sample_sailing])

theorem unroll_timetable_witness:
  "\<exists>u. unroll_loop mid_rng sample_route [(''A'', 0), (''B'', 1)] sample_vessel 6 1
      \<lparr>ur_loc = 0, ur_tick = 0, ur_period = 0, ur_extra = 0, ur_index = 0, ur_stops = [],
       ur_random = sample_random_state\<rparr> = Some (Inr u) \<and>
     timetable sample_route [(''A'', 0), (''B'', 1)] 0 0 (ur_stops u)"
proof -
  let ?run = "unroll_loop mid_rng sample_route [(''A'', 0), (''B'', 1)] sample_vessel 6 1
      \<lparr>ur_loc = 0, ur_tick = 0, ur_period = 0, ur_extra = 0, ur_index = 0, ur_stops = [], ur_random = sample_random_state\<rparr>"
  note step = unroll_step_def sample_route_def sample_vessel_def py_get_nonneg dict_get_def need_def apply_noise_def
    draw_def get_random_def create_instance_def sample_random_state_def mid_rng_def ceil_div_def Let_def dict_mem_def
    ROUTE_INIT_RAND_KEY_def BUFFER_TICK_RAND_KEY_def ORDER_NUM_RAND_KEY_def
  have "\<exists>u. ?run = Some (Inr u)"
    by (subst unroll_loop.simps, simp add: step, subst unroll_loop.simps, simp add: step,
        subst unroll_loop.simps, simp add: step, subst unroll_loop.simps, simp add: step)
  then obtain u where u: "?run = Some (Inr u)" by blast
  from unroll_timetable [OF this mid_rng_law sample_sailing] u show ?thesis
    by (auto simp: sample_route_def sample_vessel_def)
qed

section \<open>The engine\<close>

definition sample_source :: cim_source where
  "sample_source = Real (cim_data.extend sample_data \<lparr>rd_orders = []\<rparr>)"

definition sample_base :: engine_base where
  "sample_base = \<lparr>be_start_tick = 0, be_max_tick = 1, be_snapshot_resolution = 2, be_max_snapshots = None\<rparr>"

definition sample_ports :: "port list" where
  "sample_ports = [blank_port\<lparr>pt_capacity := 100, pt_empty := 20\<rparr>, blank_port\<lparr>pt_capacity := 100, pt_empty := 20\<rparr>]"

definition sample_ship :: "int \<Rightarrow> int \<Rightarrow> int \<Rightarrow> vessel" where
  "sample_ship space empty_num full_num =
     (blank_vessel 2 2)\<lparr>vl_capacity := 10, vl_empty := empty_num, vl_full := full_num, vl_total_space := space,
       vl_container_volume := 1, vl_remaining_space := space - full_num - empty_num\<rparr>"

definition sample_cim :: "vessel \<Rightarrow> int cim" where
  "sample_cim v =
     \<lparr>fr_ports = sample_ports, fr_vessels = [v], fr_full_on_ports = new_matrix 2 2,
      fr_full_on_vessels = new_matrix 1 2, fr_vessel_plans = new_matrix 1 2,
      ci_source = sample_source, ci_offsets = [0],
      ci_container = \<lparr>cs_is_need_reset_seed = False, cs_random = sample_random_state\<rparr>,
      ci_random_seed = None, ci_re_init_flag = False, ci_total_operate_num = 0, ci_base = sample_base,
      ci_snapshots = [], ci_export_enabled = False, ci_exported = []\<rparr>"

lemma sample_cim_data: "ci_data (sample_cim v) = sample_data"
  by (simp add: sample_cim_def sample_source_def base_of_def cim_data.extend_def cim_data.truncate_def)

lemma sample_action_ok: "action_ok 2 1 (sample_cim v)"
  using mx_ok_new [of 1 2]
  by (simp add: action_ok_def sample_cim_data) (simp add: sample_cim_def sample_ports_def sample_data_def new_matrix_def)

definition load_action :: "int \<Rightarrow> cim_action" where
  "load_action q = \<lparr>ac_vessel_idx = 0, ac_port_idx = 1, ac_quantity = q, ac_action_type = LOAD\<rparr>"

theorem scope_is_exact_witness:
  "(\<exists>s' e. apply_action (load_action 6) (sample_cim (sample_ship 10 4 0)) = Inr (s', e)) \<and>
   \<not> (\<exists>s' e. apply_action (load_action 7) (sample_cim (sample_ship 10 4 0)) = Inr (s', e))"
proof -
  let ?s = "sample_cim (sample_ship 10 4 0)"
  have sc: "cim_action_scope ?s (int 1) (int 0) = Inr \<lparr>as_load = 6, as_discharge = 4\<rparr>"
    by (simp add: cim_action_scope_def sample_cim_def sample_ports_def sample_ship_def node_at_def py_pos_def
        blank_port_def blank_vessel_def)
  from scope_is_exact [OF sample_action_ok _ _ _ _ sc, of "load_action q" for q]
  have "(\<exists>s' e. apply_action (load_action q) ?s = Inr (s', e)) \<longleftrightarrow> q \<le> 6" for q
    by (simp add: load_action_def)
  then show ?thesis by simp
qed

theorem apply_action_witness:
  "\<exists>s' e. apply_action (load_action 6) (sample_cim (sample_ship 10 4 0)) = Inr (s', e) \<and>
     pt_empty (fr_ports s' ! 1) = 14 \<and> vl_empty (fr_vessels s' ! 0) = 10 \<and> vl_remaining_space (fr_vessels s' ! 0) = 0"
proof -
  let ?s = "sample_cim (sample_ship 10 4 0)"
  have "\<not> isl (apply_action (load_action 6) ?s)" by code_simp
  then obtain s' e where "apply_action (load_action 6) ?s = Inr (s', e)"
    by (cases "apply_action (load_action 6) ?s") auto
  with apply_action_effect [OF this sample_action_ok, of 0 1] show ?thesis
    by (auto simp: load_action_def sample_cim_def sample_ports_def sample_ship_def)
qed

theorem early_discharge_overload_witness:
  "vl_remaining_space (fr_vessels (early_discharge (3 / 2) 0 0 (sample_cim (sample_ship 6 4 4))) ! 0) = - 1"
proof -
  have "\<lfloor>20 / 3 :: rat\<rfloor> = 6" by (simp add: floor_eq_iff)
  then show ?thesis
    by (intro early_discharge_overload)
       (simp_all add: sample_cim_def sample_ports_def sample_ship_def space_ok_def vessel_total_def blank_vessel_def)
qed

theorem set_stop_list_witness:
  "\<exists>v'. set_stop_list (Some [None, Some (sample_stops ! 0)]) (Some [Some (sample_stops ! 1), Some (sample_stops ! 2)])
      (sample_ship 10 4 0) = Inr v' \<and> vl_past_stop_list v' = [- 1, 0] \<and> vl_future_stop_tick_list v' = [4, 10]"
  using set_stop_list_written [of "[None, Some (sample_stops ! 0)]" "sample_ship 10 4 0"
      "[Some (sample_stops ! 1), Some (sample_stops ! 2)]"]
  by (auto simp: sample_ship_def blank_vessel_def sample_stops_def)

section \<open>Runs and episodes\<close>

definition empty_buffer :: cim_buffer where
  "empty_buffer =
     \<lparr>eb_heap = (\<lambda>_. new_event AtomEvent None None None None), eb_fresh = 0, pool_atom = [], pool_cascade = [],
      pool_count = 0, eb_pending = [], eb_handlers = [], eb_finished = [], eb_disable_finished = False,
      eb_record = False, eb_recorder_ep = 0, eb_rows = []\<rparr>"

definition sample_order :: order where
  "sample_order = \<lparr>od_tick = 0, od_src_port_idx = 0, od_dest_port_idx = 1, od_quantity = 5\<rparr>"

definition sample_init :: "int cim_world res" where
  "sample_init = init_cim sample_source \<lparr>cs_is_need_reset_seed = False, cs_random = sample_random_state\<rparr>
     sample_base False empty_buffer"

lemma sample_init_order:
  obtains b s s' es where "sample_init = Inr (b, s)"
    "handle mid_rng On_order_generated (Some 0) (Some (OrderPayload sample_order)) s = Inr (s', es)"
    "map pt_on_shipper (fr_ports s') = [5, 0]"
proof -
  have "bindE sample_init (\<lambda>(b, s).
      bindE (handle mid_rng On_order_generated (Some 0) (Some (OrderPayload sample_order)) s) (\<lambda>(s', es).
        Inr (map pt_on_shipper (fr_ports s')))) = Inr [5, 0]" by code_simp
  then show thesis using that by (elim bindE_Inr_E) (auto elim!: bindE_Inr_E)
qed

lemma sample_settings_ok: "settings_ok (base_of sample_source)"
  by code_simp

theorem cim_run_balanced_witness:
  "\<exists>(s :: int cim) Q. pt_on_shipper (fr_ports s ! 0) = 5 \<and> (\<Sum>c \<in># pending_claims Q. owed_full 0 c) = 5 \<and>
     pt_full (fr_ports s ! 0) = (\<Sum>j < 2. cell (fr_full_on_ports s) 0 j)"
proof -
  obtain b s s' es where i: "sample_init = Inr (b, s)"
    and h: "handle mid_rng On_order_generated (Some 0) (Some (OrderPayload sample_order)) s = Inr (s', es)"
    and v: "map pt_on_shipper (fr_ports s') = [5, 0]" by (rule sample_init_order)
  have nm: "length (cd_port_settings (base_of sample_source)) = 2" "length (cd_vessel_settings (base_of sample_source)) = 1"
    by code_simp+
  have "cim_trans mid_rng 2 1 (s, {#}) (s, {#OrderPayload sample_order#})"
    by (rule cim_trans.arrive) (simp_all add: payload_ok_def claim_of_def sample_order_def in_range_def)
  moreover have "cim_trans mid_rng 2 1 (s, {#OrderPayload sample_order#}) (s', mset (concat (map emit_payload es)) + {#})"
    by (rule cim_trans.handled [OF h])
  ultimately have "(cim_trans mid_rng 2 1)\<^sup>*\<^sup>* (s, {#}) (s', mset (concat (map emit_payload es)) + {#})"
    by (rule converse_rtranclp_into_rtranclp [OF _ r_into_rtranclp])
  from cim_run_balanced [OF i [unfolded sample_init_def] sample_settings_ok this nm [symmetric]]
  have "pt_on_shipper (fr_ports s' ! 0) = (\<Sum>c \<in># pending_claims (mset (concat (map emit_payload es)) + {#}). owed_full 0 c) \<and>
     pt_full (fr_ports s' ! 0) = (\<Sum>j < 2. cell (fr_full_on_ports s') 0 j)" by simp
  moreover have "pt_on_shipper (fr_ports s' ! 0) = 5" using v by (cases "fr_ports s'") simp_all
  ultimately show ?thesis by metis
qed

theorem handler_refines_witness:
  "\<exists>s s' es. handle mid_rng On_order_generated (Some 0) (Some (OrderPayload sample_order)) s = Inr (s', es) \<and>
     flows 2 1 (ledger_of s, pending_claims {#OrderPayload sample_order#})
       (ledger_of s', pending_claims (mset (concat (map emit_payload es)) + {#}))"
proof -
  obtain b s s' es where i: "sample_init = Inr (b, s)"
    and h: "handle mid_rng On_order_generated (Some 0) (Some (OrderPayload sample_order)) s = Inr (s', es)"
    by (rule sample_init_order)
  have nm: "length (cd_port_settings (base_of sample_source)) = 2" "length (cd_vessel_settings (base_of sample_source)) = 1"
    by code_simp+
  have "cim_accounted 2 1 (s, {#OrderPayload sample_order#})"
    using init_accounted [OF i [unfolded sample_init_def] sample_settings_ok] nm
    by (simp add: cim_accounted_def payload_ok_def pending_claims_def claim_of_def sample_order_def in_range_def)
  from handler_refines_ledger [OF h this] h show ?thesis by blast
qed

definition sample_params :: "int cim_params" where
  "sample_params = \<lparr>cp_rng = mid_rng, cp_interp = (\<lambda>xs ps qs. qs), cp_conf = None\<rparr>"

definition sample_env :: "(cim_events, cim_payload, cim_handler, int cim) env" where
  "sample_env = init_env 0 2 Sequential empty_buffer (sample_cim (sample_ship 10 4 0))"

lemma sample_episode:
  obtains s' r where "env_steps (cim_engine sample_params) [NoAction] sample_env = Some (Inr (s', [r]))" "snd (snd r)"
proof -
  let ?c = "cim_engine sample_params" and ?w = "sample_cim (sample_ship 10 4 0)"
  have st: "ng_step ?c 0 (empty_buffer, ?w) = Inr (empty_buffer, ?w)"
    by (simp add: cim_engine_def cim_step_def get_orders_def real_get_orders_def reset_if_needed_def sample_cim_def
        sample_source_def sample_params_def sample_data_def cim_data.extend_def check_arrival_def get_stop_def
        base_of_def cim_data.truncate_def py_get_nonneg sample_ship_def blank_vessel_def sample_stops_def)
  have ex: "execute (ng_invoke ?c) 0 (empty_buffer, ?w) = Some (Inr ((empty_buffer, ?w), []))"
    by (subst execute.simps) (simp add: empty_buffer_def)
  have po: "ng_post_step ?c 0 ?w = Inr (?w, True)"
    by (simp add: cim_engine_def cim_post_step_def sample_cim_def sample_base_def)
  have "\<exists>s' r. env_step ?c NoAction sample_env = Some (Inr (s', r)) \<and> snd (snd r)"
    by (simp add: env_step_def sample_env_def init_env_def st, subst run_inner.simps)
       (simp add: ex po yield_final_def env_frame_index_def tick_to_frame_index_def Let_def, blast)
  then show thesis using that by auto
qed

lemma sample_env_ok:
  "list_all fulfilment_ok (fr_ports (env_engine sample_env))" "list_all space_ok (fr_vessels (env_engine sample_env))"
  by (simp_all add: sample_env_def init_env_def sample_cim_def sample_ports_def sample_ship_def fulfilment_ok_def
      space_ok_def blank_port_def blank_vessel_def)

theorem cim_episode_conserves_witness:
  "\<exists>s' rs. env_steps (cim_engine sample_params) [NoAction] sample_env = Some (Inr (s', rs)) \<and>
     cim_total (env_engine s') = 44"
proof -
  obtain s' r where e: "env_steps (cim_engine sample_params) [NoAction] sample_env = Some (Inr (s', [r]))"
    by (rule sample_episode)
  have "cim_total (env_engine sample_env) = 44"
    by (simp add: cim_total_def sample_env_def init_env_def sample_cim_def sample_ports_def sample_ship_def
        port_total_def vessel_total_def blank_port_def blank_vessel_def)
  with cim_episode_conserves [OF e sample_env_ok] e show ?thesis by auto
qed

theorem cim_episode_ends_witness:
  "\<exists>s' r. env_steps (cim_engine sample_params) [NoAction] sample_env = Some (Inr (s', [r])) \<and> snd (snd r) \<and> env_tick s' = 0"
proof -
  obtain s' r where e: "env_steps (cim_engine sample_params) [NoAction] sample_env = Some (Inr (s', [r]))" "snd (snd r)"
    by (rule sample_episode)
  have "env_gen sample_env = NotStarted" "env_tick sample_env = 0" "be_max_tick (ci_base (env_engine sample_env)) = 1"
    by (simp_all add: sample_env_def init_env_def sample_cim_def sample_base_def)
  with cim_episode_ends [OF e(1) _ sample_env_ok] e show ?thesis by auto
qed

end
