(* ===== verification/VmNodes.thy ===== *)
theory VmNodes imports SimCore begin

text \<open>
  \<open>scenarios/vm_scheduling\<close>, the objects: the enumerations of \<open>enums.py\<close>, the virtual machine of
  \<open>virtual_machine.py\<close>, the physical machine of \<open>physical_machine.py\<close>, the frame nodes above it
  (\<open>rack.py\<close>, \<open>cluster.py\<close>, \<open>data_center.py\<close>, \<open>zone.py\<close>, \<open>region.py\<close>), and the actions and payloads of
  \<open>common.py\<close>.

  A \<open>VirtualMachine\<close> is shared between its request payload, the pending requests and the live VMs
  and is updated through all of them, so payloads are kept in a store and referred to by address.
  Python's set of live VM ids is a list without duplicates.
\<close>

section \<open>Enumerations\<close>

datatype vm_events = REQUEST

datatype postpone_type = ResourceExhausted | AgentDecision

datatype pm_state = NON_OVERSUBSCRIBABLE | EMPTY | OVERSUBSCRIBABLE

datatype vm_category = DELAY_INSENSITIVE | INTERACTIVE | UNKNOWN

definition vm_category_of :: "int \<Rightarrow> vm_category res" where
  "vm_category_of n =
     (if n = 0 then Inr DELAY_INSENSITIVE else if n = 1 then Inr INTERACTIVE
      else if n = 2 then Inr UNKNOWN else Inl ValueError)"

text \<open>The enumeration value \<open>EMPTY = 0\<close> is the only one that is false as a condition.\<close>

definition pm_state_truth :: "pm_state \<Rightarrow> bool" where
  "pm_state_truth st = (st \<noteq> EMPTY)"

section \<open>Virtual machines\<close>

record virtual_machine =
  vm_id :: int
  vm_cpu_cores_requirement :: int
  vm_memory_requirement :: int
  vm_lifetime :: int
  vm_sub_id :: int
  vm_deployment_id :: int
  vm_category :: vm_category
  vm_unit_price :: rat
  vm_utilization_series :: "rat list"
  vm_pm_id :: int
  vm_cpu_utilization :: rat
  vm_creation_tick :: int
  vm_deletion_tick :: int

definition new_vm ::
  "int \<Rightarrow> int \<Rightarrow> int \<Rightarrow> int \<Rightarrow> int \<Rightarrow> int \<Rightarrow> vm_category \<Rightarrow> rat \<Rightarrow> virtual_machine" where
  "new_vm i cores memory lifetime sub_id deployment_id category unit_price =
     \<lparr>vm_id = i, vm_cpu_cores_requirement = cores, vm_memory_requirement = memory, vm_lifetime = lifetime,
      vm_sub_id = sub_id, vm_deployment_id = deployment_id, vm_category = category,
      vm_unit_price = unit_price, vm_utilization_series = [], vm_pm_id = - 1, vm_cpu_utilization = 0,
      vm_creation_tick = - 1, vm_deletion_tick = - 1\<rparr>"

definition get_income_till_now :: "int \<Rightarrow> virtual_machine \<Rightarrow> rat" where
  "get_income_till_now cur_tick vm = vm_unit_price vm * of_int (cur_tick - vm_creation_tick vm)"

definition set_vm_utilization :: "rat \<Rightarrow> virtual_machine \<Rightarrow> virtual_machine" where
  "set_vm_utilization u vm = vm\<lparr>vm_cpu_utilization := min (max 0 u) 100\<rparr>"

definition get_utilization :: "int \<Rightarrow> virtual_machine \<Rightarrow> rat res" where
  "get_utilization cur_tick vm =
     (if int (length (vm_utilization_series vm)) < cur_tick - vm_creation_tick vm then Inl RuntimeError
      else py_get (vm_utilization_series vm) (cur_tick - vm_creation_tick vm))"

text \<open>A negative reading stands for missing data: the last one is repeated.\<close>

definition add_utilization :: "rat \<Rightarrow> virtual_machine \<Rightarrow> virtual_machine res" where
  "add_utilization u vm =
     bindE (if u < 0 then py_get (vm_utilization_series vm) (- 1) else Inr u)
       (\<lambda>v. Inr (vm\<lparr>vm_utilization_series := vm_utilization_series vm @ [v]\<rparr>))"

definition historical_utilization_series :: "int \<Rightarrow> virtual_machine \<Rightarrow> rat list" where
  "historical_utilization_series cur_tick vm =
     py_slice (vm_utilization_series vm) 0 (cur_tick - vm_creation_tick vm + 1)"

section \<open>Physical machines\<close>

record pm_setting =
  pi_id :: int
  pi_cpu_cores_capacity :: int
  pi_memory_capacity :: int
  pi_pm_type :: int
  pi_pm_state :: pm_state
  pi_region_id :: int
  pi_zone_id :: int
  pi_data_center_id :: int
  pi_cluster_id :: int
  pi_rack_id :: int

record machine =
  pm_id :: int
  pm_cpu_cores_capacity :: int
  pm_memory_capacity :: int
  pm_type :: int
  pm_cpu_cores_allocated :: int
  pm_memory_allocated :: int
  pm_cpu_utilization :: rat
  pm_energy_consumption :: rat
  pm_oversubscribable :: pm_state
  pm_region_id :: int
  pm_zone_id :: int
  pm_data_center_id :: int
  pm_cluster_id :: int
  pm_rack_id :: int
  pm_init :: pm_setting
  pm_idle_energy :: "rat option"
  pm_live_vms :: "int list"

definition blank_pm_setting :: pm_setting where
  "blank_pm_setting =
     \<lparr>pi_id = 0, pi_cpu_cores_capacity = 0, pi_memory_capacity = 0, pi_pm_type = 0, pi_pm_state = EMPTY,
      pi_region_id = 0, pi_zone_id = 0, pi_data_center_id = 0, pi_cluster_id = 0, pi_rack_id = 0\<rparr>"

text \<open>A node of the frame before its initial state is set; \<open>_idle_energy_consumption\<close> does not exist
  until then.\<close>

definition blank_pm :: machine where
  "blank_pm =
     \<lparr>pm_id = 0, pm_cpu_cores_capacity = 0, pm_memory_capacity = 0, pm_type = 0, pm_cpu_cores_allocated = 0,
      pm_memory_allocated = 0, pm_cpu_utilization = 0, pm_energy_consumption = 0,
      pm_oversubscribable = EMPTY, pm_region_id = 0, pm_zone_id = 0, pm_data_center_id = 0,
      pm_cluster_id = 0, pm_rack_id = 0, pm_init = blank_pm_setting, pm_idle_energy = None, pm_live_vms = []\<rparr>"

definition frame_reset_pm :: "machine \<Rightarrow> machine" where
  "frame_reset_pm pm =
     blank_pm\<lparr>pm_init := pm_init pm, pm_idle_energy := pm_idle_energy pm, pm_live_vms := pm_live_vms pm\<rparr>"

definition pm_reset :: "machine \<Rightarrow> machine res" where
  "pm_reset pm =
     (let i = pm_init pm
      in case pm_idle_energy pm of
           None \<Rightarrow> Inl AttributeError
         | Some idle \<Rightarrow>
             Inr (pm\<lparr>pm_id := pi_id i, pm_cpu_cores_capacity := pi_cpu_cores_capacity i,
               pm_memory_capacity := pi_memory_capacity i, pm_type := pi_pm_type i,
               pm_oversubscribable := pi_pm_state i, pm_region_id := pi_region_id i,
               pm_zone_id := pi_zone_id i, pm_data_center_id := pi_data_center_id i,
               pm_cluster_id := pi_cluster_id i, pm_rack_id := pi_rack_id i, pm_live_vms := [],
               pm_cpu_cores_allocated := 0, pm_memory_allocated := 0, pm_cpu_utilization := 0,
               pm_energy_consumption := idle\<rparr>))"

definition pm_set_init_state :: "pm_setting \<Rightarrow> rat \<Rightarrow> machine \<Rightarrow> machine res" where
  "pm_set_init_state setting idle pm = pm_reset (pm\<lparr>pm_init := setting, pm_idle_energy := Some idle\<rparr>)"

text \<open>\<open>update_cpu_utilization\<close>, with a VM or with a value.\<close>

definition update_cpu_utilization :: "virtual_machine option \<Rightarrow> rat option \<Rightarrow> machine \<Rightarrow> machine res" where
  "update_cpu_utilization vm cpu_utilization pm =
     bindE (case vm of
              Some v \<Rightarrow>
                (if pm_cpu_cores_capacity pm = 0 then Inl ZeroDivisionError
                 else Inr ((of_int (pm_cpu_cores_capacity pm) * pm_cpu_utilization pm
                            + of_int (vm_cpu_cores_requirement v) * vm_cpu_utilization v)
                           / of_int (pm_cpu_cores_capacity pm)))
            | None \<Rightarrow> (case cpu_utilization of None \<Rightarrow> Inl RuntimeError | Some u \<Rightarrow> Inr u))
       (\<lambda>u. Inr (pm\<lparr>pm_cpu_utilization := py_round (max 0 u) 2\<rparr>))"

definition allocate_vms :: "int list \<Rightarrow> machine \<Rightarrow> machine" where
  "allocate_vms vm_ids pm = pm\<lparr>pm_live_vms := fold List.insert vm_ids (pm_live_vms pm)\<rparr>"

definition set_remove :: "int \<Rightarrow> int list \<Rightarrow> int list res" where
  "set_remove x xs = (if x \<in> set xs then Inr (remove1 x xs) else Inl KeyError)"

definition deallocate_vms :: "int list \<Rightarrow> machine \<Rightarrow> machine res" where
  "deallocate_vms vm_ids pm =
     bindE (foldE set_remove vm_ids (pm_live_vms pm)) (\<lambda>vms. Inr (pm\<lparr>pm_live_vms := vms\<rparr>))"

section \<open>Racks, clusters, data centers, zones and regions\<close>

text \<open>
  The five classes have the same shape: the ids of the node and of the nodes above it, the number of
  machines below it, a name, and the ids of the nodes just below it.
\<close>

record group_ids =
  id_self :: int
  id_total :: int

record zone_ids = group_ids +
  id_region :: int

record data_center_ids = zone_ids +
  id_zone :: int

record cluster_ids = data_center_ids +
  id_data_center :: int

record rack_ids = cluster_ids +
  id_cluster :: int

record 'i group_node =
  gn_ids :: "'i group_ids_scheme"
  gn_empty_machine_num :: int
  gn_init :: "'i group_ids_scheme"
  gn_label :: string
  gn_members :: "int list"

type_synonym region = "unit group_node"
type_synonym zone = "unit zone_ids_ext group_node"
type_synonym data_center = "unit data_center_ids_ext zone_ids_ext group_node"
type_synonym cluster = "unit cluster_ids_ext data_center_ids_ext zone_ids_ext group_node"
type_synonym rack = "unit rack_ids_ext cluster_ids_ext data_center_ids_ext zone_ids_ext group_node"

definition gn_total_machine_num :: "'i group_node \<Rightarrow> int" where
  "gn_total_machine_num n = id_total (gn_ids n)"

definition group_reset :: "'i group_node \<Rightarrow> 'i group_node" where
  "group_reset n = n\<lparr>gn_ids := gn_init n, gn_empty_machine_num := id_total (gn_init n)\<rparr>"

definition group_set_init_state :: "'i group_ids_scheme \<Rightarrow> 'i group_node \<Rightarrow> 'i group_node" where
  "group_set_init_state ids n = group_reset (n\<lparr>gn_init := ids\<rparr>)"

definition region_set_init_state :: "int \<Rightarrow> int \<Rightarrow> region \<Rightarrow> region" where
  "region_set_init_state i total_machine_num =
     group_set_init_state \<lparr>id_self = i, id_total = total_machine_num\<rparr>"

definition zone_set_init_state :: "int \<Rightarrow> int \<Rightarrow> int \<Rightarrow> zone \<Rightarrow> zone" where
  "zone_set_init_state i region_id total_machine_num =
     group_set_init_state \<lparr>id_self = i, id_total = total_machine_num, id_region = region_id\<rparr>"

definition data_center_set_init_state :: "int \<Rightarrow> int \<Rightarrow> int \<Rightarrow> int \<Rightarrow> data_center \<Rightarrow> data_center" where
  "data_center_set_init_state i region_id zone_id total_machine_num =
     group_set_init_state \<lparr>id_self = i, id_total = total_machine_num, id_region = region_id, id_zone = zone_id\<rparr>"

definition cluster_set_init_state ::
  "int \<Rightarrow> int \<Rightarrow> int \<Rightarrow> int \<Rightarrow> int \<Rightarrow> cluster \<Rightarrow> cluster" where
  "cluster_set_init_state i region_id zone_id data_center_id total_machine_num =
     group_set_init_state \<lparr>id_self = i, id_total = total_machine_num, id_region = region_id,
       id_zone = zone_id, id_data_center = data_center_id\<rparr>"

definition rack_set_init_state ::
  "int \<Rightarrow> int \<Rightarrow> int \<Rightarrow> int \<Rightarrow> int \<Rightarrow> int \<Rightarrow> rack \<Rightarrow> rack" where
  "rack_set_init_state i region_id zone_id data_center_id cluster_id total_machine_num =
     group_set_init_state \<lparr>id_self = i, id_total = total_machine_num, id_region = region_id,
       id_zone = zone_id, id_data_center = data_center_id, id_cluster = cluster_id\<rparr>"

definition blank_region_ids :: group_ids where
  "blank_region_ids = \<lparr>id_self = 0, id_total = 0\<rparr>"

definition blank_zone_ids :: zone_ids where
  "blank_zone_ids = group_ids.extend blank_region_ids \<lparr>id_region = 0\<rparr>"

definition blank_data_center_ids :: data_center_ids where
  "blank_data_center_ids = zone_ids.extend blank_zone_ids \<lparr>id_zone = 0\<rparr>"

definition blank_cluster_ids :: cluster_ids where
  "blank_cluster_ids = data_center_ids.extend blank_data_center_ids \<lparr>id_data_center = 0\<rparr>"

definition blank_rack_ids :: rack_ids where
  "blank_rack_ids = cluster_ids.extend blank_cluster_ids \<lparr>id_cluster = 0\<rparr>"

definition blank_group :: "'i group_ids_scheme \<Rightarrow> 'i group_node" where
  "blank_group ids = \<lparr>gn_ids = ids, gn_empty_machine_num = 0, gn_init = ids, gn_label = [], gn_members = []\<rparr>"

text \<open>What the frame's own reset does to a node: its attributes become zero.\<close>

definition frame_reset_group :: "'i group_ids_scheme \<Rightarrow> 'i group_node \<Rightarrow> 'i group_node" where
  "frame_reset_group zero n = n\<lparr>gn_ids := zero, gn_empty_machine_num := 0\<rparr>"

section \<open>Actions and payloads\<close>

datatype vm_action =
    PlainAction int
  | PostponeAction int int
  | AllocateAction int int

fun action_vm_id :: "vm_action \<Rightarrow> int" where
  "action_vm_id (PlainAction i) = i"
| "action_vm_id (PostponeAction i step) = i"
| "action_vm_id (AllocateAction i pm) = i"

text \<open>\<open>VmRequestPayload\<close>: the VM it carries, and the buffer time left.\<close>

record vm_request =
  rq_vm_info :: virtual_machine
  rq_remaining_buffer_time :: int

record vm_decision =
  vd_frame_index :: int
  vd_valid_pms :: "int list"
  vd_vm_id :: int
  vd_vm_cpu_cores_requirement :: int
  vd_vm_memory_requirement :: int
  vd_vm_sub_id :: int
  vd_vm_category :: vm_category
  vd_remaining_buffer_time :: int

datatype vm_payload =
    RequestPayload nat
  | VmDecisionPayload vm_decision
  | VmActionsPayload "vm_action py_action list"

end
