(* ===== verification/VmTopology.thy ===== *)
theory VmTopology imports VmNodes begin

text \<open>
  \<open>vm_scheduling/business_engine.py\<close>, the data center structure: the node amounts \<open>_load_configs\<close>
  computes from the topology file, the frame built with them (\<open>frame_builder.py\<close>), the nested
  initialisation from regions down to machines, the counts of empty machines, and the energy curve.

  Configuration: \<open>vmc_architecture\<close> and \<open>vmc_components\<close> are the two sections of the YAML file, whose
  lists keep the order of the file.  Python's \<open>pow\<close> on floats is the parameter \<open>pw\<close>.
\<close>

section \<open>Configuration\<close>

record power_curve =
  pwc_calibration_parameter :: rat
  pwc_busy_power :: int
  pwc_idle_power :: int

record pm_conf =
  pmc_cpu :: int
  pmc_memory :: int
  pmc_power_curve :: power_curve

record vm_components =
  cmp_pm :: "pm_conf list"
  cmp_rack :: "(string \<times> (int \<times> int) list) list"
  cmp_cluster :: "(string \<times> (string \<times> int) list) list"

record dc_conf =
  dcc_name :: string
  dcc_cluster :: "(string \<times> int) list"

record zone_conf =
  znc_name :: string
  znc_data_center :: "dc_conf list"

record region_conf =
  rgc_name :: string
  rgc_zone :: "zone_conf list"

record vm_conf =
  vmc_delay_duration :: int
  vmc_buffer_time_budget :: int
  vmc_ticks_per_hour :: rat
  vmc_max_cpu_oversubscription_rate :: rat
  vmc_max_memory_oversubscription_rate :: rat
  vmc_max_utilization_rate :: rat
  vmc_price_per_cpu_cores_per_hour :: rat
  vmc_price_per_memory_per_hour :: rat
  vmc_unit_energy_price_per_kwh :: rat
  vmc_power_usage_efficiency :: rat
  vmc_kill_all_vms_if_overload :: bool
  vmc_components :: vm_components
  vmc_architecture :: "region_conf list"

section \<open>Amounts\<close>

text \<open>\<open>d[k] = d.get(k, 0) + n\<close>.\<close>

definition dict_add :: "'k \<Rightarrow> int \<Rightarrow> ('k \<times> int) list \<Rightarrow> ('k \<times> int) list" where
  "dict_add k n d = AList.update k ((case map_of d k of None \<Rightarrow> 0 | Some m \<Rightarrow> m) + n) d"

record vm_amounts =
  am_region :: int
  am_zone :: int
  am_data_center :: int
  am_cluster :: int
  am_rack :: int
  am_pm :: int

text \<open>The items \<open>_find_item\<close> yields for a key of the architecture, joined.\<close>

definition all_zones :: "region_conf list \<Rightarrow> zone_conf list" where
  "all_zones arch = concat (map rgc_zone arch)"

definition all_data_centers :: "region_conf list \<Rightarrow> dc_conf list" where
  "all_data_centers arch = concat (map znc_data_center (all_zones arch))"

definition all_clusters :: "region_conf list \<Rightarrow> (string \<times> int) list" where
  "all_clusters arch = concat (map dcc_cluster (all_data_centers arch))"

definition cluster_amount_dict :: "region_conf list \<Rightarrow> (string \<times> int) list" where
  "cluster_amount_dict arch = fold (\<lambda>(ty, n). dict_add ty n) (all_clusters arch) []"

text \<open>The next two dictionaries are filled in the same way: the parts of every item, each times the
  amount of the item itself.\<close>

definition part_amounts ::
  "('k \<times> int) list \<Rightarrow> ('k \<times> ('p \<times> int) list) list \<Rightarrow> ('p \<times> int) list res" where
  "part_amounts amounts items =
     foldE (\<lambda>(item, parts). foldE (\<lambda>(part, n) d.
         bindE (dict_get amounts item) (\<lambda>m. Inr (dict_add part (m * n) d))) parts) items []"

definition rack_amount_dict :: "vm_components \<Rightarrow> region_conf list \<Rightarrow> (string \<times> int) list res" where
  "rack_amount_dict components arch = part_amounts (cluster_amount_dict arch) (cmp_cluster components)"

definition pm_amount_dict :: "vm_components \<Rightarrow> (string \<times> int) list \<Rightarrow> (int \<times> int) list res" where
  "pm_amount_dict components rack_amounts = part_amounts rack_amounts (cmp_rack components)"

definition dict_total :: "('k \<times> int) list \<Rightarrow> int" where
  "dict_total d = sum_list (map snd d)"

definition load_amounts :: "vm_conf \<Rightarrow> vm_amounts res" where
  "load_amounts c =
     (let arch = vmc_architecture c; components = vmc_components c
      in bindE (rack_amount_dict components arch) (\<lambda>racks.
         bindE (pm_amount_dict components racks) (\<lambda>pms.
           Inr \<lparr>am_region = int (length arch), am_zone = int (length (all_zones arch)),
                am_data_center = int (length (all_data_centers arch)),
                am_cluster = dict_total (cluster_amount_dict arch),
                am_rack = dict_total racks, am_pm = dict_total pms\<rparr>)))"

section \<open>Energy\<close>

definition energy_consumption ::
  "(rat \<Rightarrow> rat \<Rightarrow> rat) \<Rightarrow> vm_conf \<Rightarrow> pm_conf \<Rightarrow> rat \<Rightarrow> rat res" where
  "energy_consumption pw c pm_ty cpu_utilization =
     (let curve = pmc_power_curve pm_ty; u = min 1 (cpu_utilization / 100);
          per_hour = of_int (pwc_idle_power curve)
            + of_int (pwc_busy_power curve - pwc_idle_power curve) * (2 * u - pw u (pwc_calibration_parameter curve))
      in if vmc_ticks_per_hour c = 0 then Inl ZeroDivisionError
         else Inr (per_hour / vmc_ticks_per_hour c / 1000))"

section \<open>The structure\<close>

record vm_frame =
  fv_regions :: "region list"
  fv_zones :: "zone list"
  fv_data_centers :: "data_center list"
  fv_clusters :: "cluster list"
  fv_racks :: "rack list"
  fv_pms :: "machine list"

definition build_frame :: "vm_amounts \<Rightarrow> vm_frame" where
  "build_frame am =
     \<lparr>fv_regions = replicate (nat (am_region am)) (blank_group blank_region_ids),
      fv_zones = replicate (nat (am_zone am)) (blank_group blank_zone_ids),
      fv_data_centers = replicate (nat (am_data_center am)) (blank_group blank_data_center_ids),
      fv_clusters = replicate (nat (am_cluster am)) (blank_group blank_cluster_ids),
      fv_racks = replicate (nat (am_rack am)) (blank_group blank_rack_ids),
      fv_pms = replicate (nat (am_pm am)) blank_pm\<rparr>"

text \<open>The frame and the running ids of \<open>_init_structure\<close>.\<close>

record vm_topology = vm_frame +
  tp_region_id :: int
  tp_zone_id :: int
  tp_data_center_id :: int
  tp_cluster_id :: int
  tp_rack_id :: int
  tp_pm_id :: int

text \<open>The configuration dictionaries, by type; machine types are positions in the list.\<close>

definition parts_dict :: "(string \<times> ('p \<times> int) list) list \<Rightarrow> (string \<times> ('p \<times> int) list) list" where
  "parts_dict items =
     fold (\<lambda>(ty, parts). AList.update ty (fold (\<lambda>(part, n). AList.update part n) parts [])) items []"

definition pm_config :: "vm_conf \<Rightarrow> int \<Rightarrow> pm_conf res" where
  "pm_config c ty =
     (let pms = cmp_pm (vmc_components c)
      in if 0 \<le> ty \<and> ty < int (length pms) then Inr (pms ! nat ty) else Inl KeyError)"

text \<open>A \<open>while amount > 0\<close> loop that counts \<open>amount\<close> down.\<close>

fun repeatE :: "nat \<Rightarrow> ('s \<Rightarrow> 's res) \<Rightarrow> 's \<Rightarrow> 's res" where
  "repeatE 0 f s = Inr s"
| "repeatE (Suc n) f s = bindE (f s) (repeatE n f)"

definition each_amount :: "('k \<Rightarrow> 's \<Rightarrow> 's res) \<Rightarrow> ('k \<times> int) list \<Rightarrow> 's \<Rightarrow> 's res" where
  "each_amount f items = foldE (\<lambda>(ty, amount). repeatE (nat amount) (f ty)) items"

definition sum_members :: "('n \<Rightarrow> int) \<Rightarrow> 'n list \<Rightarrow> int list \<Rightarrow> int res" where
  "sum_members f nodes members =
     bindE (mapE (\<lambda>i. bindE (py_get nodes i) (\<lambda>n. Inr (f n))) members) (\<lambda>ns. Inr (sum_list ns))"

definition init_pm :: "(rat \<Rightarrow> rat \<Rightarrow> rat) \<Rightarrow> vm_conf \<Rightarrow> int \<Rightarrow> vm_topology \<Rightarrow> vm_topology res" where
  "init_pm pw c ty s =
     bindE (node_at (fv_pms s) (tp_pm_id s)) (\<lambda>(j, pm).
     bindE (pm_config c ty) (\<lambda>conf.
     bindE (energy_consumption pw c conf 0) (\<lambda>idle.
     bindE (pm_set_init_state
              \<lparr>pi_id = tp_pm_id s, pi_cpu_cores_capacity = pmc_cpu conf, pi_memory_capacity = pmc_memory conf,
               pi_pm_type = ty, pi_pm_state = EMPTY, pi_region_id = tp_region_id s, pi_zone_id = tp_zone_id s,
               pi_data_center_id = tp_data_center_id s, pi_cluster_id = tp_cluster_id s,
               pi_rack_id = tp_rack_id s\<rparr> idle pm) (\<lambda>pm1.
       Inr (s\<lparr>fv_pms := (fv_pms s)[j := pm1], tp_pm_id := tp_pm_id s + 1\<rparr>)))))"

definition init_pms ::
  "(rat \<Rightarrow> rat \<Rightarrow> rat) \<Rightarrow> vm_conf \<Rightarrow> (int \<times> int) list \<Rightarrow> vm_topology \<Rightarrow> vm_topology res" where
  "init_pms pw c = each_amount (init_pm pw c)"

definition init_rack :: "(rat \<Rightarrow> rat \<Rightarrow> rat) \<Rightarrow> vm_conf \<Rightarrow> string \<Rightarrow> vm_topology \<Rightarrow> vm_topology res" where
  "init_rack pw c rack_type s =
     bindE (dict_get (parts_dict (cmp_rack (vmc_components c))) rack_type) (\<lambda>pm_dict.
     bindE (init_pms pw c pm_dict s) (\<lambda>s1.
     bindE (node_at (fv_racks s1) (tp_rack_id s1)) (\<lambda>(j, rack).
       let pm_list = [tp_pm_id s..tp_pm_id s1 - 1]
       in Inr (s1\<lparr>fv_racks := (fv_racks s1)[j :=
                    rack_set_init_state (tp_rack_id s1) (tp_region_id s1) (tp_zone_id s1)
                      (tp_data_center_id s1) (tp_cluster_id s1) (int (length pm_list))
                      (rack\<lparr>gn_label := rack_type, gn_members := pm_list\<rparr>)],
                  tp_rack_id := tp_rack_id s1 + 1\<rparr>))))"

definition init_racks ::
  "(rat \<Rightarrow> rat \<Rightarrow> rat) \<Rightarrow> vm_conf \<Rightarrow> (string \<times> int) list \<Rightarrow> vm_topology \<Rightarrow> vm_topology res" where
  "init_racks pw c = each_amount (init_rack pw c)"

definition init_cluster :: "(rat \<Rightarrow> rat \<Rightarrow> rat) \<Rightarrow> vm_conf \<Rightarrow> string \<Rightarrow> vm_topology \<Rightarrow> vm_topology res" where
  "init_cluster pw c cluster_type s =
     bindE (dict_get (parts_dict (cmp_cluster (vmc_components c))) cluster_type) (\<lambda>rack_dict.
     bindE (init_racks pw c rack_dict s) (\<lambda>s1.
     bindE (node_at (fv_clusters s1) (tp_cluster_id s1)) (\<lambda>(j, cluster).
       let rack_list = [tp_rack_id s..tp_rack_id s1 - 1]
       in bindE (sum_members gn_total_machine_num (fv_racks s1) rack_list) (\<lambda>total_machine_num.
          Inr (s1\<lparr>fv_clusters := (fv_clusters s1)[j :=
                    cluster_set_init_state (tp_cluster_id s1) (tp_region_id s1) (tp_zone_id s1)
                      (tp_data_center_id s1) total_machine_num
                      (cluster\<lparr>gn_label := cluster_type, gn_members := rack_list\<rparr>)],
                  tp_cluster_id := tp_cluster_id s1 + 1\<rparr>)))))"

definition init_clusters ::
  "(rat \<Rightarrow> rat \<Rightarrow> rat) \<Rightarrow> vm_conf \<Rightarrow> (string \<times> int) list \<Rightarrow> vm_topology \<Rightarrow> vm_topology res" where
  "init_clusters pw c = each_amount (init_cluster pw c)"

definition init_data_center :: "(rat \<Rightarrow> rat \<Rightarrow> rat) \<Rightarrow> vm_conf \<Rightarrow> dc_conf \<Rightarrow> vm_topology \<Rightarrow> vm_topology res" where
  "init_data_center pw c conf s =
     bindE (init_clusters pw c (dcc_cluster conf) s) (\<lambda>s1.
     bindE (node_at (fv_data_centers s1) (tp_data_center_id s1)) (\<lambda>(j, data_center).
       let cluster_list = [tp_cluster_id s..tp_cluster_id s1 - 1]
       in bindE (sum_members gn_total_machine_num (fv_clusters s1) cluster_list) (\<lambda>total_machine_num.
          Inr (s1\<lparr>fv_data_centers := (fv_data_centers s1)[j :=
                    data_center_set_init_state (tp_data_center_id s1) (tp_region_id s1) (tp_zone_id s1)
                      total_machine_num (data_center\<lparr>gn_label := dcc_name conf, gn_members := cluster_list\<rparr>)],
                  tp_data_center_id := tp_data_center_id s1 + 1\<rparr>))))"

definition init_zone :: "(rat \<Rightarrow> rat \<Rightarrow> rat) \<Rightarrow> vm_conf \<Rightarrow> zone_conf \<Rightarrow> vm_topology \<Rightarrow> vm_topology res" where
  "init_zone pw c conf s =
     bindE (foldE (init_data_center pw c) (znc_data_center conf) s) (\<lambda>s1.
     bindE (node_at (fv_zones s1) (tp_zone_id s1)) (\<lambda>(j, zone).
       let data_center_list = [tp_data_center_id s..tp_data_center_id s1 - 1]
       in bindE (sum_members gn_total_machine_num (fv_data_centers s1) data_center_list) (\<lambda>total_machine_num.
          Inr (s1\<lparr>fv_zones := (fv_zones s1)[j :=
                    zone_set_init_state (tp_zone_id s1) (tp_region_id s1) total_machine_num
                      (zone\<lparr>gn_label := znc_name conf, gn_members := data_center_list\<rparr>)],
                  tp_zone_id := tp_zone_id s1 + 1\<rparr>))))"

definition init_region :: "(rat \<Rightarrow> rat \<Rightarrow> rat) \<Rightarrow> vm_conf \<Rightarrow> region_conf \<Rightarrow> vm_topology \<Rightarrow> vm_topology res" where
  "init_region pw c conf s =
     bindE (foldE (init_zone pw c) (rgc_zone conf) s) (\<lambda>s1.
     bindE (node_at (fv_regions s1) (tp_region_id s1)) (\<lambda>(j, region).
       let zone_list = [tp_zone_id s..tp_zone_id s1 - 1]
       in bindE (sum_members gn_total_machine_num (fv_zones s1) zone_list) (\<lambda>total_machine_num.
          Inr (s1\<lparr>fv_regions := (fv_regions s1)[j :=
                    region_set_init_state (tp_region_id s1) total_machine_num
                      (region\<lparr>gn_label := rgc_name conf, gn_members := zone_list\<rparr>)],
                  tp_region_id := tp_region_id s1 + 1\<rparr>))))"

definition init_structure :: "(rat \<Rightarrow> rat \<Rightarrow> rat) \<Rightarrow> vm_conf \<Rightarrow> vm_frame \<Rightarrow> vm_topology res" where
  "init_structure pw c frame =
     foldE (init_region pw c) (vmc_architecture c)
       (vm_frame.extend frame \<lparr>tp_region_id = 0, tp_zone_id = 0, tp_data_center_id = 0,
          tp_cluster_id = 0, tp_rack_id = 0, tp_pm_id = 0\<rparr>)"

section \<open>Counts of empty machines\<close>

definition count_empty :: "machine list \<Rightarrow> int list \<Rightarrow> int res" where
  "count_empty pms pm_list = sum_members (\<lambda>pm. if pm_cpu_cores_allocated pm = 0 then 1 else 0) pms pm_list"

definition update_group_metrics :: "(int list \<Rightarrow> int res) \<Rightarrow> 'i group_node list \<Rightarrow> 'i group_node list res" where
  "update_group_metrics below = mapE (\<lambda>n. bindE (below (gn_members n)) (\<lambda>k. Inr (n\<lparr>gn_empty_machine_num := k\<rparr>)))"

definition update_rack_metrics :: "'a vm_frame_scheme \<Rightarrow> 'a vm_frame_scheme res" where
  "update_rack_metrics s =
     bindE (update_group_metrics (count_empty (fv_pms s)) (fv_racks s)) (\<lambda>ns. Inr (s\<lparr>fv_racks := ns\<rparr>))"

definition update_cluster_metrics :: "'a vm_frame_scheme \<Rightarrow> 'a vm_frame_scheme res" where
  "update_cluster_metrics s =
     bindE (update_group_metrics (sum_members gn_empty_machine_num (fv_racks s)) (fv_clusters s))
       (\<lambda>ns. Inr (s\<lparr>fv_clusters := ns\<rparr>))"

definition update_data_center_metrics :: "'a vm_frame_scheme \<Rightarrow> 'a vm_frame_scheme res" where
  "update_data_center_metrics s =
     bindE (update_group_metrics (sum_members gn_empty_machine_num (fv_clusters s)) (fv_data_centers s))
       (\<lambda>ns. Inr (s\<lparr>fv_data_centers := ns\<rparr>))"

definition update_zone_metrics :: "'a vm_frame_scheme \<Rightarrow> 'a vm_frame_scheme res" where
  "update_zone_metrics s =
     bindE (update_group_metrics (sum_members gn_empty_machine_num (fv_data_centers s)) (fv_zones s))
       (\<lambda>ns. Inr (s\<lparr>fv_zones := ns\<rparr>))"

definition update_region_metrics :: "'a vm_frame_scheme \<Rightarrow> 'a vm_frame_scheme res" where
  "update_region_metrics s =
     bindE (update_group_metrics (sum_members gn_empty_machine_num (fv_zones s)) (fv_regions s))
       (\<lambda>ns. Inr (s\<lparr>fv_regions := ns\<rparr>))"

definition update_upper_level_metrics :: "'a vm_frame_scheme \<Rightarrow> 'a vm_frame_scheme res" where
  "update_upper_level_metrics s =
     bindE (update_rack_metrics s) (\<lambda>s1. bindE (update_cluster_metrics s1) (\<lambda>s2.
     bindE (update_data_center_metrics s2) (\<lambda>s3. bindE (update_zone_metrics s3) update_region_metrics)))"

section \<open>Reset\<close>

definition vm_frame_reset :: "'a vm_frame_scheme \<Rightarrow> 'a vm_frame_scheme" where
  "vm_frame_reset s =
     s\<lparr>fv_regions := map (frame_reset_group blank_region_ids) (fv_regions s),
       fv_zones := map (frame_reset_group blank_zone_ids) (fv_zones s),
       fv_data_centers := map (frame_reset_group blank_data_center_ids) (fv_data_centers s),
       fv_clusters := map (frame_reset_group blank_cluster_ids) (fv_clusters s),
       fv_racks := map (frame_reset_group blank_rack_ids) (fv_racks s),
       fv_pms := map frame_reset_pm (fv_pms s)\<rparr>"

definition structure_reset :: "'a vm_frame_scheme \<Rightarrow> 'a vm_frame_scheme res" where
  "structure_reset s =
     bindE (mapE pm_reset (fv_pms s)) (\<lambda>pms.
       Inr (s\<lparr>fv_pms := pms, fv_racks := map group_reset (fv_racks s),
              fv_clusters := map group_reset (fv_clusters s),
              fv_data_centers := map group_reset (fv_data_centers s),
              fv_zones := map group_reset (fv_zones s), fv_regions := map group_reset (fv_regions s)\<rparr>))"

end
