(* ===== verification/VmEngine.thy ===== *)
theory VmEngine imports VmTopology begin

text \<open>
  \<open>vm_scheduling/business_engine.py\<close>, the business engine: the workload updates and the release of
  finished VMs at the start of a tick, the request and action handlers, the choice of valid machines,
  postponement, overload and the metrics at the end of a tick, and reset.

  Handlers return the new state and the events they generate, in order; \<open>vm_apply_emit\<close> puts those
  into the event buffer.  The readers of the VM table and of the CPU readings are the parameters
  \<open>vp_vm_items\<close> and \<open>vp_cpu_items\<close>, which give the items of a tick and the reader's next state.
\<close>

section \<open>State\<close>

record vm_row =
  row_vm_id :: int
  row_vm_cpu_cores :: int
  row_vm_memory :: int
  row_vm_lifetime :: int
  row_sub_id :: int
  row_deploy_id :: int
  row_vm_category :: int

record 'r vm_params =
  vp_conf :: vm_conf
  vp_pow :: "rat \<Rightarrow> rat \<Rightarrow> rat"
  vp_cpu_items :: "int \<Rightarrow> 'r \<Rightarrow> (int \<times> rat) list \<times> 'r"
  vp_vm_items :: "int \<Rightarrow> 'r \<Rightarrow> vm_row list \<times> 'r"
  vp_reader_reset :: "'r \<Rightarrow> 'r"

record vm_metrics =
  mt_total_vm_requests :: int
  mt_total_incomes :: rat
  mt_total_profit :: rat
  mt_energy_consumption_cost :: rat
  mt_total_energy_consumption :: rat
  mt_successful_allocation :: int
  mt_successful_completion :: int
  mt_failed_allocation :: int
  mt_failed_completion :: int
  mt_due_to_agent :: int
  mt_due_to_resource :: int
  mt_total_oversubscriptions :: int
  mt_total_overload_pms :: int
  mt_total_overload_vms :: int

definition init_metrics :: vm_metrics where
  "init_metrics =
     \<lparr>mt_total_vm_requests = 0, mt_total_incomes = 0, mt_total_profit = 0, mt_energy_consumption_cost = 0,
      mt_total_energy_consumption = 0, mt_successful_allocation = 0, mt_successful_completion = 0,
      mt_failed_allocation = 0, mt_failed_completion = 0, mt_due_to_agent = 0, mt_due_to_resource = 0,
      mt_total_oversubscriptions = 0, mt_total_overload_pms = 0, mt_total_overload_vms = 0\<rparr>"

text \<open>\<open>ve_requests\<close> is the store of request payloads; \<open>ve_live\<close> and \<open>ve_pending\<close> map VM ids to it.\<close>

record 'r vms = vm_frame +
  ve_requests :: "vm_request list"
  ve_live :: "(int \<times> nat) list"
  ve_pending :: "(int \<times> nat) list"
  ve_metrics :: vm_metrics
  ve_tick :: int
  ve_pending_action_vm_id :: int
  ve_reader :: 'r
  ve_base :: engine_base
  ve_snapshots :: "(int \<times> vm_frame) list"

datatype vm_emit = EmitDecision "int option" vm_decision | EmitRequest int nat

definition request_at :: "nat \<Rightarrow> 'r vms \<Rightarrow> vm_request res" where
  "request_at a s = (if a < length (ve_requests s) then Inr (ve_requests s ! a) else Inl AttributeError)"

definition put_request :: "nat \<Rightarrow> vm_request \<Rightarrow> 'r vms \<Rightarrow> 'r vms" where
  "put_request a r s = s\<lparr>ve_requests := (ve_requests s)[a := r]\<rparr>"

definition put_pm :: "nat \<Rightarrow> machine \<Rightarrow> 'r vms \<Rightarrow> 'r vms" where
  "put_pm j pm s = s\<lparr>fv_pms := (fv_pms s)[j := pm]\<rparr>"

definition on_metrics :: "(vm_metrics \<Rightarrow> vm_metrics) \<Rightarrow> 'r vms \<Rightarrow> 'r vms" where
  "on_metrics f s = s\<lparr>ve_metrics := f (ve_metrics s)\<rparr>"

definition dict_pop :: "'k \<Rightarrow> ('k \<times> 'v) list \<Rightarrow> ('k \<times> 'v) list res" where
  "dict_pop k d = (if dict_mem k d then Inr (AList.delete k d) else Inl KeyError)"

definition pop_live :: "int \<Rightarrow> 'r vms \<Rightarrow> 'r vms res" where
  "pop_live i s = bindE (dict_pop i (ve_live s)) (\<lambda>d. Inr (s\<lparr>ve_live := d\<rparr>))"

definition pop_pending :: "int \<Rightarrow> 'r vms \<Rightarrow> 'r vms res" where
  "pop_pending i s = bindE (dict_pop i (ve_pending s)) (\<lambda>d. Inr (s\<lparr>ve_pending := d\<rparr>))"

section \<open>Workload\<close>

definition update_vm :: "(virtual_machine \<Rightarrow> virtual_machine res) \<Rightarrow> nat \<Rightarrow> 'r vms \<Rightarrow> 'r vms res" where
  "update_vm f a s =
     bindE (request_at a s) (\<lambda>r.
     bindE (f (rq_vm_info r)) (\<lambda>vm. Inr (put_request a (r\<lparr>rq_vm_info := vm\<rparr>) s)))"

definition read_live :: "(int \<times> rat) list \<Rightarrow> int \<Rightarrow> virtual_machine \<Rightarrow> virtual_machine res" where
  "read_live readings tick vm =
     (case map_of readings (vm_id vm) of
        None \<Rightarrow> add_utilization (- 1) vm
      | Some u \<Rightarrow>
          bindE (add_utilization u vm) (\<lambda>vm1.
          bindE (get_utilization tick vm1) (\<lambda>v. Inr (set_vm_utilization v vm1))))"

definition read_pending :: "(int \<times> rat) list \<Rightarrow> virtual_machine \<Rightarrow> virtual_machine res" where
  "read_pending readings vm =
     add_utilization (case map_of readings (vm_id vm) of None \<Rightarrow> - 1 | Some u \<Rightarrow> u) vm"

definition update_vm_workload :: "(int \<times> rat) list \<Rightarrow> 'r vms \<Rightarrow> 'r vms res" where
  "update_vm_workload readings s =
     bindE (foldE (update_vm (read_live readings (ve_tick s))) (map snd (ve_live s)) s) (\<lambda>s1.
       foldE (update_vm (read_pending readings)) (map snd (ve_pending s1)) s1)"

definition set_energy :: "'r vm_params \<Rightarrow> machine \<Rightarrow> machine res" where
  "set_energy c pm =
     bindE (pm_config (vp_conf c) (pm_type pm)) (\<lambda>conf.
     bindE (energy_consumption (vp_pow c) (vp_conf c) conf (pm_cpu_utilization pm)) (\<lambda>e.
       Inr (pm\<lparr>pm_energy_consumption := e\<rparr>)))"

definition cores_used :: "'r vms \<Rightarrow> int \<Rightarrow> rat res" where
  "cores_used s i =
     bindE (dict_get (ve_live s) i) (\<lambda>a. bindE (request_at a s) (\<lambda>r.
       let vm = rq_vm_info r in Inr (vm_cpu_utilization vm * of_int (vm_cpu_cores_requirement vm))))"

definition pm_workload :: "'r vm_params \<Rightarrow> 'r vms \<Rightarrow> machine \<Rightarrow> machine res" where
  "pm_workload c s pm =
     bindE (mapE (cores_used s) (pm_live_vms pm)) (\<lambda>used.
       if pm_cpu_cores_capacity pm = 0 then Inl ZeroDivisionError
       else bindE (update_cpu_utilization None (Some (sum_list used / of_int (pm_cpu_cores_capacity pm))) pm)
              (set_energy c))"

definition update_pm_workload :: "'r vm_params \<Rightarrow> 'r vms \<Rightarrow> 'r vms res" where
  "update_pm_workload c s = bindE (mapE (pm_workload c s) (fv_pms s)) (\<lambda>pms. Inr (s\<lparr>fv_pms := pms\<rparr>))"

section \<open>Finished VMs\<close>

definition finish_vm :: "nat \<Rightarrow> 'r vms \<times> int list \<Rightarrow> ('r vms \<times> int list) res" where
  "finish_vm a = (\<lambda>(s, vm_id_list).
     bindE (request_at a s) (\<lambda>r. let vm = rq_vm_info r in
       if vm_deletion_tick vm = ve_tick s then
         bindE (node_at (fv_pms s) (vm_pm_id vm)) (\<lambda>(j, pm).
         bindE (deallocate_vms [vm_id vm]
                  (pm\<lparr>pm_cpu_cores_allocated := pm_cpu_cores_allocated pm - vm_cpu_cores_requirement vm,
                      pm_memory_allocated := pm_memory_allocated pm - vm_memory_requirement vm\<rparr>)) (\<lambda>pm1.
           let pm2 = (if pm_live_vms pm1 = [] then pm1\<lparr>pm_oversubscribable := EMPTY\<rparr> else pm1)
           in Inr (on_metrics (\<lambda>m. m\<lparr>mt_successful_completion := mt_successful_completion m + 1\<rparr>)
                     (put_pm j pm2 s), vm_id_list @ [vm_id vm])))
       else Inr (s, vm_id_list)))"

definition process_finished_vm :: "'r vms \<Rightarrow> 'r vms res" where
  "process_finished_vm s =
     bindE (foldE finish_vm (map snd (ve_live s)) (s, [])) (\<lambda>(s1, vm_id_list). foldE pop_live vm_id_list s1)"

section \<open>Requests\<close>

definition valid_non_oversubscribable_pms :: "int \<Rightarrow> int \<Rightarrow> machine list \<Rightarrow> int list" where
  "valid_non_oversubscribable_pms cores memory pms =
     map pm_id (filter (\<lambda>pm.
       (pm_oversubscribable pm = EMPTY \<or> pm_oversubscribable pm = NON_OVERSUBSCRIBABLE)
       \<and> pm_cpu_cores_allocated pm + cores \<le> pm_cpu_cores_capacity pm
       \<and> pm_memory_allocated pm + memory \<le> pm_memory_capacity pm) pms)"

definition valid_oversubscribable_pms :: "vm_conf \<Rightarrow> int \<Rightarrow> int \<Rightarrow> machine list \<Rightarrow> int list" where
  "valid_oversubscribable_pms c cores memory pms =
     map pm_id (filter (\<lambda>pm.
       (pm_oversubscribable pm = EMPTY \<or> pm_oversubscribable pm = OVERSUBSCRIBABLE)
       \<and> of_int (pm_cpu_cores_allocated pm + cores)
           \<le> vmc_max_cpu_oversubscription_rate c * of_int (pm_cpu_cores_capacity pm)
       \<and> of_int (pm_memory_allocated pm + memory)
           \<le> vmc_max_memory_oversubscription_rate c * of_int (pm_memory_capacity pm)
       \<and> pm_cpu_utilization pm / 100 * of_int (pm_cpu_cores_capacity pm) + of_int cores
           \<le> vmc_max_utilization_rate c * of_int (pm_cpu_cores_capacity pm)) pms)"

definition get_valid_pms :: "vm_conf \<Rightarrow> int \<Rightarrow> int \<Rightarrow> vm_category \<Rightarrow> machine list \<Rightarrow> int list" where
  "get_valid_pms c cores memory category pms =
     (if category = INTERACTIVE \<or> category = UNKNOWN then valid_non_oversubscribable_pms cores memory pms
      else valid_oversubscribable_pms c cores memory pms)"

definition add_latency :: "postpone_type \<Rightarrow> int \<Rightarrow> vm_metrics \<Rightarrow> vm_metrics" where
  "add_latency ty d m =
     (case ty of
        ResourceExhausted \<Rightarrow> m\<lparr>mt_due_to_resource := mt_due_to_resource m + d\<rparr>
      | AgentDecision \<Rightarrow> m\<lparr>mt_due_to_agent := mt_due_to_agent m + d\<rparr>)"

definition postpone_vm_request ::
  "vm_conf \<Rightarrow> postpone_type \<Rightarrow> int \<Rightarrow> int \<Rightarrow> 'r vms \<Rightarrow> ('r vms \<times> vm_emit list) res" where
  "postpone_vm_request c ty i remaining_buffer_time s =
     (let delay = vmc_delay_duration c
      in if delay \<le> remaining_buffer_time then
           let s1 = on_metrics (add_latency ty delay) s
           in bindE (dict_get (ve_pending s1) i) (\<lambda>a. bindE (request_at a s1) (\<lambda>r.
                Inr (put_request a (r\<lparr>rq_remaining_buffer_time := rq_remaining_buffer_time r - delay\<rparr>) s1,
                     [EmitRequest (ve_tick s1 + delay) a])))
         else
           bindE (pop_pending i s) (\<lambda>s1.
             Inr (on_metrics (\<lambda>m. m\<lparr>mt_failed_allocation := mt_failed_allocation m + 1\<rparr>) s1, [])))"

definition on_vm_required ::
  "vm_conf \<Rightarrow> int option \<Rightarrow> nat \<Rightarrow> 'r vms \<Rightarrow> ('r vms \<times> vm_emit list) res" where
  "on_vm_required c event_tick a s =
     bindE (request_at a s) (\<lambda>r.
       let vm = rq_vm_info r;
           s1 = s\<lparr>ve_pending := AList.update (vm_id vm) a (ve_pending s)\<rparr>;
           valid_pm_list = get_valid_pms c (vm_cpu_cores_requirement vm) (vm_memory_requirement vm)
                             (vm_category vm) (fv_pms s1)
       in if valid_pm_list \<noteq> [] then
            bindE (be_frame_index (ve_base s1) (ve_tick s1)) (\<lambda>fi.
              Inr (s1\<lparr>ve_pending_action_vm_id := vm_id vm\<rparr>,
                   [EmitDecision event_tick
                      \<lparr>vd_frame_index = fi, vd_valid_pms = valid_pm_list, vd_vm_id = vm_id vm,
                       vd_vm_cpu_cores_requirement = vm_cpu_cores_requirement vm,
                       vd_vm_memory_requirement = vm_memory_requirement vm, vd_vm_sub_id = vm_sub_id vm,
                       vd_vm_category = vm_category vm,
                       vd_remaining_buffer_time = rq_remaining_buffer_time r\<rparr>]))
          else postpone_vm_request c ResourceExhausted (vm_id vm) (rq_remaining_buffer_time r) s1)"

section \<open>Actions\<close>

definition occupy :: "virtual_machine \<Rightarrow> machine \<Rightarrow> machine" where
  "occupy vm pm =
     (let pm1 = (if pm_oversubscribable pm = EMPTY
                 then pm\<lparr>pm_oversubscribable :=
                        (if vm_category vm = DELAY_INSENSITIVE then OVERSUBSCRIBABLE
                         else NON_OVERSUBSCRIBABLE)\<rparr>
                 else pm);
          pm2 = allocate_vms [vm_id vm] pm1
      in pm2\<lparr>pm_cpu_cores_allocated := pm_cpu_cores_allocated pm2 + vm_cpu_cores_requirement vm,
             pm_memory_allocated := pm_memory_allocated pm2 + vm_memory_requirement vm\<rparr>)"

definition start_vm :: "int \<Rightarrow> int \<Rightarrow> virtual_machine \<Rightarrow> virtual_machine res" where
  "start_vm cur_tick pm_idx vm =
     (let vm1 = vm\<lparr>vm_pm_id := pm_idx, vm_creation_tick := cur_tick,
                   vm_deletion_tick := cur_tick + vm_lifetime vm\<rparr>
      in bindE (get_utilization cur_tick vm1) (\<lambda>u. Inr (set_vm_utilization u vm1)))"

definition allocate_vm ::
  "'r vm_params \<Rightarrow> int option \<Rightarrow> int \<Rightarrow> int \<Rightarrow> 'r vms \<Rightarrow> 'r vms res" where
  "allocate_vm c event_tick i pm_idx s =
     bindE (dict_get (ve_pending s) i) (\<lambda>a. bindE (request_at a s) (\<lambda>r.
     bindE (need event_tick) (\<lambda>cur_tick.
     bindE (start_vm cur_tick pm_idx (rq_vm_info r)) (\<lambda>vm.
     bindE (pop_pending i (put_request a (r\<lparr>rq_vm_info := vm\<rparr>) s)) (\<lambda>s1.
       let s2 = s1\<lparr>ve_live := AList.update i a (ve_live s1)\<rparr>
       in bindE (node_at (fv_pms s2) pm_idx) (\<lambda>(j, pm).
          bindE (update_cpu_utilization (Some vm) None (occupy vm pm)) (\<lambda>pm1.
          bindE (set_energy c pm1) (\<lambda>pm2.
            Inr (on_metrics (\<lambda>m. m\<lparr>mt_successful_allocation := mt_successful_allocation m + 1\<rparr>)
                   (put_pm j pm2 s2))))))))))"

definition apply_vm_action ::
  "'r vm_params \<Rightarrow> int option \<Rightarrow> vm_action \<Rightarrow> 'r vms \<Rightarrow> ('r vms \<times> vm_emit list) res" where
  "apply_vm_action c event_tick action s =
     (if \<not> dict_mem (action_vm_id action) (ve_pending s) then Inl RuntimeError
      else case action of
             AllocateAction i pm_idx \<Rightarrow> bindE (allocate_vm c event_tick i pm_idx s) (\<lambda>s1. Inr (s1, []))
           | PostponeAction i postpone_step \<Rightarrow>
               bindE (dict_get (ve_pending s) i) (\<lambda>a. bindE (request_at a s) (\<lambda>r.
                 postpone_vm_request (vp_conf c) AgentDecision i
                   (rq_remaining_buffer_time r - postpone_step * vmc_delay_duration (vp_conf c)) s))
           | PlainAction i \<Rightarrow> Inr (s, []))"

fun apply_vm_actions ::
  "'r vm_params \<Rightarrow> int option \<Rightarrow> vm_action py_action list \<Rightarrow> 'r vms \<Rightarrow> ('r vms \<times> vm_emit list) res" where
  "apply_vm_actions c event_tick [] s = Inr (s, [])"
| "apply_vm_actions c event_tick (x # xs) s =
     (case x of
        OneAction a \<Rightarrow>
          bindE (apply_vm_action c event_tick a s) (\<lambda>(s1, es).
          bindE (apply_vm_actions c event_tick xs s1) (\<lambda>(s2, es'). Inr (s2, es @ es')))
      | _ \<Rightarrow> Inl AssertionError)"

definition on_vm_action_received ::
  "'r vm_params \<Rightarrow> int option \<Rightarrow> vm_action py_action list \<Rightarrow> 'r vms \<Rightarrow> ('r vms \<times> vm_emit list) res" where
  "on_vm_action_received c event_tick actions s =
     (if actions = [] then bindE (pop_pending (ve_pending_action_vm_id s) s) (\<lambda>s1. Inr (s1, []))
      else apply_vm_actions c event_tick actions s)"

section \<open>Dispatch over the buffer\<close>

datatype vm_handler = On_vm_required | On_vm_action_received

type_synonym vm_buffer = "(vm_events, vm_payload, vm_handler) event_buffer"
type_synonym 'r vm_world = "(vm_events, vm_payload, vm_handler, 'r vms) world"

definition vm_register_events :: "vm_buffer \<Rightarrow> vm_buffer" where
  "vm_register_events b =
     register_event_handler (register_event_handler b (Scenario REQUEST) On_vm_required)
       TAKE_ACTION On_vm_action_received"

definition vm_handle ::
  "'r vm_params \<Rightarrow> vm_handler \<Rightarrow> int option \<Rightarrow> vm_payload option \<Rightarrow> 'r vms \<Rightarrow> ('r vms \<times> vm_emit list) res" where
  "vm_handle c hn tick payload s =
     (case hn of
        On_vm_required \<Rightarrow>
          (case payload of
             Some (RequestPayload a) \<Rightarrow> on_vm_required (vp_conf c) tick a s
           | _ \<Rightarrow> Inl AttributeError)
      | On_vm_action_received \<Rightarrow>
          (case payload of
             Some (VmActionsPayload actions) \<Rightarrow> on_vm_action_received c tick actions s
           | _ \<Rightarrow> Inl AssertionError))"

definition vm_apply_emit :: "addr \<Rightarrow> vm_emit \<Rightarrow> vm_buffer \<Rightarrow> vm_buffer res" where
  "vm_apply_emit event e b =
     (case e of
        EmitDecision tick d \<Rightarrow>
          (let (b1, a) = gen_event b tick (Some PENDING_DECISION) (Some (VmDecisionPayload d)) True
           in bindE (add_immediate_event (eb_heap b1) event a False) (\<lambda>(h, added). Inr (b1\<lparr>eb_heap := h\<rparr>)))
      | EmitRequest tick a \<Rightarrow>
          (let (b1, e1) = gen_cascade_event b tick (Scenario REQUEST) (Some (RequestPayload a))
           in Inr (insert_event b1 e1)))"

definition vm_invoke :: "'r vm_params \<Rightarrow> vm_handler \<Rightarrow> addr \<Rightarrow> 'r vm_world \<Rightarrow> 'r vm_world res" where
  "vm_invoke c hn event w =
     (let ev = eb_heap (fst w) event
      in bindE (vm_handle c hn (ev_tick ev) (ev_payload ev) (snd w)) (\<lambda>(s, es).
         bindE (foldE (vm_apply_emit event) es (fst w)) (\<lambda>b. Inr (b, s))))"

section \<open>Ticks\<close>

definition get_unit_price :: "vm_conf \<Rightarrow> int \<Rightarrow> int \<Rightarrow> rat res" where
  "get_unit_price c cores memory =
     (if vmc_ticks_per_hour c = 0 then Inl ZeroDivisionError
      else Inr ((vmc_price_per_cpu_cores_per_hour c * of_int cores
                 + vmc_price_per_memory_per_hour c * of_int memory) / vmc_ticks_per_hour c))"

definition push_request ::
  "vm_conf \<Rightarrow> int \<Rightarrow> (int \<times> rat) list \<Rightarrow> vm_row \<Rightarrow> 'r vm_world \<Rightarrow> 'r vm_world res" where
  "push_request c tick readings row w =
     bindE (get_unit_price c (row_vm_cpu_cores row) (row_vm_memory row)) (\<lambda>unit_price.
     bindE (vm_category_of (row_vm_category row)) (\<lambda>category.
     bindE (case map_of readings (row_vm_id row) of None \<Rightarrow> Inl RuntimeError | Some u \<Rightarrow> Inr u) (\<lambda>u.
     bindE (add_utilization u
              (new_vm (row_vm_id row) (row_vm_cpu_cores row) (row_vm_memory row) (row_vm_lifetime row)
                 (row_sub_id row) (row_deploy_id row) category unit_price)) (\<lambda>vm.
       let (b, s) = w; a = length (ve_requests s);
           s1 = s\<lparr>ve_requests := ve_requests s @
                    [\<lparr>rq_vm_info = vm, rq_remaining_buffer_time = vmc_buffer_time_budget c\<rparr>]\<rparr>;
           (b1, e) = gen_cascade_event b tick (Scenario REQUEST) (Some (RequestPayload a))
       in Inr (insert_event b1 e,
               on_metrics (\<lambda>m. m\<lparr>mt_total_vm_requests := mt_total_vm_requests m + 1\<rparr>) s1)))))"

definition vm_step :: "'r vm_params \<Rightarrow> int \<Rightarrow> 'r vm_world \<Rightarrow> 'r vm_world res" where
  "vm_step c tick w =
     (let (readings, r1) = vp_cpu_items c tick (ve_reader (snd w));
          s = (snd w)\<lparr>ve_tick := tick, ve_reader := r1\<rparr>
      in bindE (process_finished_vm s) (\<lambda>s1.
         bindE (update_vm_workload readings s1) (\<lambda>s2.
         bindE (update_pm_workload c s2) (\<lambda>s3.
         bindE (update_upper_level_metrics s3) (\<lambda>s4.
           let (rows, r2) = vp_vm_items c tick (ve_reader s4)
           in foldE (push_request (vp_conf c) tick readings) rows (fst w, s4\<lparr>ve_reader := r2\<rparr>))))))"

definition kill_vm :: "int \<Rightarrow> int \<Rightarrow> 'r vms \<Rightarrow> 'r vms res" where
  "kill_vm tick i s =
     bindE (dict_get (ve_live s) i) (\<lambda>a. bindE (request_at a s) (\<lambda>r.
       pop_live i (on_metrics (\<lambda>m. m\<lparr>mt_total_incomes :=
                                mt_total_incomes m - get_income_till_now tick (rq_vm_info r)\<rparr>) s)))"

definition overload :: "vm_conf \<Rightarrow> int \<Rightarrow> int \<Rightarrow> 'r vms \<Rightarrow> 'r vms res" where
  "overload c pm_idx tick s =
     bindE (node_at (fv_pms s) pm_idx) (\<lambda>(j, pm).
       let vm_ids = pm_live_vms pm
       in bindE (if vmc_kill_all_vms_if_overload c then
                   bindE (foldE (kill_vm tick) vm_ids s) (\<lambda>s1.
                   bindE (deallocate_vms vm_ids pm) (\<lambda>pm1.
                     Inr (on_metrics (\<lambda>m. m\<lparr>mt_failed_completion :=
                            mt_failed_completion m + int (length vm_ids)\<rparr>) (put_pm j pm1 s1))))
                 else Inr s)
            (\<lambda>s2. Inr (on_metrics (\<lambda>m. m\<lparr>mt_total_overload_vms :=
                         mt_total_overload_vms m + int (length vm_ids)\<rparr>) s2)))"

definition post_pm ::
  "vm_conf \<Rightarrow> int \<Rightarrow> nat \<Rightarrow> 'r vms \<times> rat \<times> rat \<Rightarrow> ('r vms \<times> rat \<times> rat) res" where
  "post_pm c tick j = (\<lambda>(s, energy, cost).
     let pm = fv_pms s ! j;
         s1 = (if pm_state_truth (pm_oversubscribable pm) \<and> pm_cpu_cores_capacity pm < pm_cpu_cores_allocated pm
               then on_metrics (\<lambda>m. m\<lparr>mt_total_oversubscriptions := mt_total_oversubscriptions m + 1\<rparr>) s
               else s);
         pm_cost = pm_energy_consumption pm * vmc_unit_energy_price_per_kwh c * vmc_power_usage_efficiency c
     in bindE (if 100 < pm_cpu_utilization pm then overload c (pm_id pm) tick s1 else Inr s1) (\<lambda>s2.
          Inr (s2, energy + pm_energy_consumption pm, cost + pm_cost)))"

definition live_prices :: "'r vms \<Rightarrow> rat res" where
  "live_prices s =
     bindE (mapE (\<lambda>a. bindE (request_at a s) (\<lambda>r. Inr (vm_unit_price (rq_vm_info r)))) (map snd (ve_live s)))
       (\<lambda>ps. Inr (sum_list ps))"

definition update_incomes :: "'r vms \<Rightarrow> 'r vms res" where
  "update_incomes s =
     bindE (live_prices s) (\<lambda>p. Inr (on_metrics (\<lambda>m. m\<lparr>mt_total_incomes := mt_total_incomes m + p\<rparr>) s))"

definition update_profit :: "'r vms \<Rightarrow> 'r vms" where
  "update_profit =
     on_metrics (\<lambda>m. m\<lparr>mt_total_profit := mt_total_incomes m - mt_energy_consumption_cost m\<rparr>)"

definition vm_take_snapshot :: "int \<Rightarrow> 'r vms \<Rightarrow> 'r vms" where
  "vm_take_snapshot fi s = s\<lparr>ve_snapshots := ve_snapshots s @ [(fi, vm_frame.truncate s)]\<rparr>"

definition vm_post_step :: "vm_conf \<Rightarrow> int \<Rightarrow> 'r vms \<Rightarrow> ('r vms \<times> bool) res" where
  "vm_post_step c tick s =
     bindE (foldE (post_pm c tick) [0..<length (fv_pms s)] (s, 0, 0)) (\<lambda>(s1, energy, cost).
     bindE (update_incomes (on_metrics (\<lambda>m.
              m\<lparr>mt_total_energy_consumption := mt_total_energy_consumption m + energy,
                mt_energy_consumption_cost := mt_energy_consumption_cost m + cost\<rparr>) s1)) (\<lambda>s2.
       let s3 = update_profit s2; resolution = be_snapshot_resolution (ve_base s3);
           finished = (be_max_tick (ve_base s3) \<le> tick + 1)
       in if resolution = 0 then Inl ZeroDivisionError
          else if (tick + 1) mod resolution = 0 then
            bindE (be_frame_index (ve_base s3) tick) (\<lambda>fi. Inr (vm_take_snapshot fi s3, finished))
          else Inr (s3, finished)))"

definition vm_cpu_utilization_series :: "int \<Rightarrow> 'r vms \<Rightarrow> rat list res" where
  "vm_cpu_utilization_series i s =
     (case map_of (ve_live s) i of
        None \<Rightarrow> Inr []
      | Some a \<Rightarrow> bindE (request_at a s) (\<lambda>r. Inr (historical_utilization_series (ve_tick s) (rq_vm_info r))))"

section \<open>Initialisation and reset\<close>

definition init_vms :: "'r vm_params \<Rightarrow> 'r \<Rightarrow> engine_base \<Rightarrow> vm_buffer \<Rightarrow> 'r vm_world res" where
  "init_vms c reader base b =
     bindE (load_amounts (vp_conf c)) (\<lambda>am.
     bindE (calc_max_snapshots base) (\<lambda>snapshots_num.
     bindE (init_structure (vp_pow c) (vp_conf c) (build_frame am)) (\<lambda>topology.
       Inr (vm_register_events b,
            vm_frame.extend (vm_frame.truncate topology)
              \<lparr>ve_requests = [], ve_live = [], ve_pending = [], ve_metrics = init_metrics, ve_tick = 0,
               ve_pending_action_vm_id = 0, ve_reader = reader, ve_base = base, ve_snapshots = []\<rparr>))))"

definition vm_reset :: "'r vm_params \<Rightarrow> bool \<Rightarrow> 'r vm_world \<Rightarrow> 'r vm_world res" where
  "vm_reset c keep_seed w =
     (let s = vm_frame_reset ((snd w)\<lparr>ve_metrics := init_metrics\<rparr>)
      in bindE (structure_reset (s\<lparr>ve_snapshots := []\<rparr>)) (\<lambda>s1.
           Inr (fst w, s1\<lparr>ve_live := [], ve_pending := [], ve_reader := vp_reader_reset c (ve_reader s1)\<rparr>)))"

definition vm_engine ::
  "'r vm_params \<Rightarrow> (vm_events, vm_payload, vm_handler, 'r vms, vm_action, vm_metrics) engine" where
  "vm_engine c =
     \<lparr>ng_step = vm_step c, ng_post_step = vm_post_step (vp_conf c), ng_invoke = vm_invoke c,
      ng_snapshot = vm_take_snapshot, ng_metrics = ve_metrics,
      ng_reset = (\<lambda>keep_seed w. Some (vm_reset c keep_seed w)), ng_actions = VmActionsPayload\<rparr>"

end
