(* ===== verification/VmProps.thy ===== *)
theory VmProps imports VmEngine SimProps begin

text \<open>
  Invariants of the VM scheduling engine over whole episodes, whatever the agent sends: the identity
  and capacity of the machines never change, a VM id runs at most once, and every successful allocation
  is matched by at most one of running, completed, or killed.
\<close>

section \<open>What an operation leaves alone\<close>

definition pm_static :: "machine \<Rightarrow> int \<times> int \<times> int \<times> int" where
  "pm_static pm = (pm_id pm, pm_cpu_cores_capacity pm, pm_memory_capacity pm, pm_type pm)"

definition vm_frozen :: "'r vms \<Rightarrow> engine_base \<times> (int \<times> int \<times> int \<times> int) list \<times> int" where
  "vm_frozen s = (ve_base s, map pm_static (fv_pms s), mt_total_overload_pms (ve_metrics s))"

text \<open>Allocations that have neither been completed nor killed, less the VMs that run.\<close>

definition lost_runs :: "'r vms \<Rightarrow> int" where
  "lost_runs s =
     (let m = ve_metrics s
      in mt_successful_allocation m - mt_successful_completion m - mt_failed_completion m
         - int (length (ve_live s)))"

definition live_keys :: "'r vms \<Rightarrow> int list" where
  "live_keys s = map fst (ve_live s)"

definition vm_invariant :: "engine_base \<times> (int \<times> int \<times> int \<times> int) list \<times> int \<Rightarrow> 'r vms \<Rightarrow> bool" where
  "vm_invariant K s \<longleftrightarrow> vm_frozen s = K \<and> distinct (live_keys s) \<and> 0 \<le> lost_runs s"

named_theorems vm_defs "definitions of the observations of an engine state"

lemmas [vm_defs] = vm_frozen_def lost_runs_def live_keys_def Let_def

text \<open>Operations that start, complete or kill no VM.\<close>

definition steady :: "'r vms \<Rightarrow> 'r vms \<Rightarrow> bool" where
  "steady s s' \<longleftrightarrow> vm_frozen s' = vm_frozen s \<and> ve_live s' = ve_live s \<and> lost_runs s' = lost_runs s"

lemma steady_invariant: "steady s s' \<Longrightarrow> vm_invariant K s' = vm_invariant K s"
  by (simp add: steady_def vm_invariant_def live_keys_def)

lemma steady_refl [simp]: "steady s s"
  by (simp add: steady_def)

lemma steady_trans: "steady s s' \<Longrightarrow> steady s' s'' \<Longrightarrow> steady s s''"
  by (simp add: steady_def)

lemma put_request_simps [simp]:
  "vm_frozen (put_request a r s) = vm_frozen s" "ve_live (put_request a r s) = ve_live s"
  "ve_pending (put_request a r s) = ve_pending s" "lost_runs (put_request a r s) = lost_runs s"
  "fv_pms (put_request a r s) = fv_pms s" "ve_tick (put_request a r s) = ve_tick s"
  "ve_metrics (put_request a r s) = ve_metrics s" "ve_base (put_request a r s) = ve_base s"
  "ve_requests (put_request a r s) = (ve_requests s)[a := r]"
  by (simp_all add: put_request_def vm_defs)

lemma put_pm_simps [simp]:
  "ve_live (put_pm j pm s) = ve_live s" "ve_pending (put_pm j pm s) = ve_pending s"
  "lost_runs (put_pm j pm s) = lost_runs s" "fv_pms (put_pm j pm s) = (fv_pms s)[j := pm]"
  "ve_tick (put_pm j pm s) = ve_tick s" "ve_requests (put_pm j pm s) = ve_requests s"
  "ve_metrics (put_pm j pm s) = ve_metrics s" "ve_base (put_pm j pm s) = ve_base s"
  by (simp_all add: put_pm_def vm_defs)

lemma on_metrics_simps [simp]:
  "ve_live (on_metrics f s) = ve_live s" "ve_pending (on_metrics f s) = ve_pending s"
  "fv_pms (on_metrics f s) = fv_pms s" "ve_tick (on_metrics f s) = ve_tick s"
  "ve_requests (on_metrics f s) = ve_requests s" "ve_metrics (on_metrics f s) = f (ve_metrics s)"
  "ve_base (on_metrics f s) = ve_base s"
  by (simp_all add: on_metrics_def)

lemma put_pm_frozen:
  "j < length (fv_pms s) \<Longrightarrow> pm_static pm = pm_static (fv_pms s ! j) \<Longrightarrow> vm_frozen (put_pm j pm s) = vm_frozen s"
  by (simp add: vm_frozen_def map_update list_update_same_conv)

lemma pop_live_result:
  "pop_live i s = Inr s' \<longleftrightarrow> dict_mem i (ve_live s) \<and> s' = s\<lparr>ve_live := AList.delete i (ve_live s)\<rparr>"
  by (auto simp: pop_live_def dict_pop_def res_simps)

lemma pop_pending_result:
  "pop_pending i s = Inr s' \<longleftrightarrow> dict_mem i (ve_pending s) \<and> s' = s\<lparr>ve_pending := AList.delete i (ve_pending s)\<rparr>"
  by (auto simp: pop_pending_def dict_pop_def res_simps)

lemma request_at_result: "request_at a s = Inr r \<longleftrightarrow> a < length (ve_requests s) \<and> r = ve_requests s ! a"
  by (auto simp: request_at_def)

lemma update_vm_result:
  "update_vm f a s = Inr s' \<longleftrightarrow>
   (a < length (ve_requests s) \<and> (\<exists>vm. f (rq_vm_info (ve_requests s ! a)) = Inr vm
      \<and> s' = put_request a ((ve_requests s ! a)\<lparr>rq_vm_info := vm\<rparr>) s))"
  by (auto simp: update_vm_def res_simps request_at_result)

section \<open>Machines keep their identity\<close>

lemma update_cpu_utilization_static: "update_cpu_utilization vm u pm = Inr pm' \<Longrightarrow> pm_static pm' = pm_static pm"
  by (auto simp: update_cpu_utilization_def pm_static_def res_simps)

lemma set_energy_static: "set_energy c pm = Inr pm' \<Longrightarrow> pm_static pm' = pm_static pm"
  by (auto simp: set_energy_def pm_static_def res_simps)

lemma deallocate_vms_static: "deallocate_vms is pm = Inr pm' \<Longrightarrow> pm_static pm' = pm_static pm"
  by (auto simp: deallocate_vms_def pm_static_def res_simps)

lemma occupy_static: "pm_static (occupy vm pm) = pm_static pm"
  by (simp add: occupy_def allocate_vms_def pm_static_def Let_def)

lemma pm_workload_static: "pm_workload c s pm = Inr pm' \<Longrightarrow> pm_static pm' = pm_static pm"
  by (auto simp: pm_workload_def res_simps split: if_splits
      dest!: set_energy_static update_cpu_utilization_static)

lemma mapE_static:
  "mapE f xs = Inr ys \<Longrightarrow> (\<And>x y. f x = Inr y \<Longrightarrow> g y = g x) \<Longrightarrow> map g ys = map g xs"
  by (induction xs arbitrary: ys) (auto simp: res_simps)

lemma update_pm_workload_keeps:
  assumes "update_pm_workload c s = Inr s'"
  shows "steady s s'"
proof -
  from assms obtain pms where "mapE (pm_workload c s) (fv_pms s) = Inr pms" "s' = s\<lparr>fv_pms := pms\<rparr>"
    by (auto simp: update_pm_workload_def res_simps)
  with mapE_static [of "pm_workload c s" "fv_pms s" pms pm_static] pm_workload_static [of c s]
  show ?thesis by (simp add: steady_def vm_defs)
qed

section \<open>Counting runs\<close>

lemma length_delete_distinct:
  "distinct (map fst d) \<Longrightarrow> dict_mem k d \<Longrightarrow> Suc (length (AList.delete k d)) = length d"
  by (induction d) (auto simp: dict_mem_def delete_id)

lemma length_update: "length (AList.update k v d) = (if dict_mem k d then length d else length d + 1)"
  using keys_update [of k v d] by (metis length_append_singleton length_map Suc_eq_plus1)

lemma pop_live_counts:
  assumes "pop_live i s = Inr s'" "distinct (live_keys s)"
  shows "distinct (live_keys s')" "int (length (ve_live s')) = int (length (ve_live s)) - 1"
    "vm_frozen s' = vm_frozen s" "ve_metrics s' = ve_metrics s"
  using assms length_delete_distinct [of "ve_live s" i]
  by (auto simp: pop_live_result vm_defs distinct_delete)

lemma pop_lives_counts:
  assumes "foldE pop_live is s = Inr s'" "distinct (live_keys s)"
  shows "distinct (live_keys s') \<and> int (length (ve_live s')) = int (length (ve_live s)) - int (length is)
    \<and> vm_frozen s' = vm_frozen s \<and> ve_metrics s' = ve_metrics s"
  using assms
proof (induction "is" arbitrary: s)
  case (Cons i "is")
  from Cons.prems(1) obtain s1 where "pop_live i s = Inr s1" "foldE pop_live is s1 = Inr s'"
    by (auto simp: res_simps)
  with Cons.IH [of s1] pop_live_counts [of i s s1] Cons.prems(2) show ?case by auto
qed simp

lemma finish_vm_counts:
  assumes "finish_vm a (s, ids) = Inr (s', ids')"
  shows "vm_frozen s' = vm_frozen s \<and> ve_live s' = ve_live s
    \<and> lost_runs s' + int (length ids') = lost_runs s + int (length ids)"
proof -
  let ?vm = "rq_vm_info (ve_requests s ! a)"
  show ?thesis
  proof (cases "vm_deletion_tick ?vm = ve_tick s")
    case True
    with assms obtain j pm pm1 where n: "node_at (fv_pms s) (vm_pm_id ?vm) = Inr (j, pm)"
      and d: "deallocate_vms [vm_id ?vm]
          (pm\<lparr>pm_cpu_cores_allocated := pm_cpu_cores_allocated pm - vm_cpu_cores_requirement ?vm,
              pm_memory_allocated := pm_memory_allocated pm - vm_memory_requirement ?vm\<rparr>) = Inr pm1"
      and s': "s' = on_metrics (\<lambda>m. m\<lparr>mt_successful_completion := mt_successful_completion m + 1\<rparr>)
          (put_pm j (if pm_live_vms pm1 = [] then pm1\<lparr>pm_oversubscribable := EMPTY\<rparr> else pm1) s)"
      and ids': "ids' = ids @ [vm_id ?vm]"
      by (auto simp: finish_vm_def res_simps request_at_result Let_def)
    from deallocate_vms_static [OF d] node_at_Inr [OF n]
    have "vm_frozen (put_pm j (if pm_live_vms pm1 = [] then pm1\<lparr>pm_oversubscribable := EMPTY\<rparr> else pm1) s) = vm_frozen s"
      by (intro put_pm_frozen) (auto simp: pm_static_def)
    with s' ids' show ?thesis by (simp add: vm_defs)
  qed (use assms in \<open>auto simp: finish_vm_def res_simps request_at_result Let_def\<close>)
qed

lemma process_finished_vm_keeps:
  assumes "process_finished_vm s = Inr s'" "vm_invariant K s"
  shows "vm_invariant K s'"
proof -
  from assms(1) obtain s1 ids where f: "foldE finish_vm (map snd (ve_live s)) (s, []) = Inr (s1, ids)"
    and p: "foldE pop_live ids s1 = Inr s'" by (auto simp: process_finished_vm_def res_simps)
  have "case (s1, ids) of (t, js) \<Rightarrow> vm_frozen t = vm_frozen s \<and> ve_live t = ve_live s
      \<and> lost_runs t + int (length js) = lost_runs s"
    by (rule foldE_invariant [OF f]) (auto dest: finish_vm_counts)
  with pop_lives_counts [OF p] assms(2) show ?thesis
    by (auto simp: vm_invariant_def vm_defs)
qed

lemma updates_keep:
  assumes "foldE (update_vm f) as s = Inr s'"
  shows "steady s s'"
  by (rule foldE_invariant [OF assms]) (auto simp: update_vm_result steady_def)

lemma update_vm_workload_keeps:
  assumes "update_vm_workload readings s = Inr s'"
  shows "steady s s'"
  using assms by (auto simp: update_vm_workload_def res_simps dest!: updates_keep intro: steady_trans)

lemma upper_level_keeps:
  assumes "update_upper_level_metrics s = Inr s'"
  shows "steady s s'"
  using assms
  by (auto simp: update_upper_level_metrics_def update_rack_metrics_def update_cluster_metrics_def
      update_data_center_metrics_def update_zone_metrics_def update_region_metrics_def res_simps
      steady_def vm_defs)

section \<open>Handlers and ticks\<close>

lemma postpone_steady:
  "postpone_vm_request c ty i rem s = Inr (s', es) \<Longrightarrow> steady s s'"
  by (auto simp: postpone_vm_request_def pop_pending_result res_simps request_at_result steady_def
      vm_defs add_latency_def split: if_splits postpone_type.splits)

lemma on_vm_required_steady: "on_vm_required c t a s = Inr (s', es) \<Longrightarrow> steady s s'"
proof -
  assume "on_vm_required c t a s = Inr (s', es)"
  moreover have "steady s (s\<lparr>ve_pending := p\<rparr>)" for p by (simp add: steady_def vm_defs)
  ultimately show ?thesis
    by (auto simp: on_vm_required_def res_simps request_at_result steady_def vm_defs split: if_splits
        dest!: postpone_steady)
qed

lemma allocate_vm_result:
  assumes "allocate_vm c t i p s = Inr s'"
  obtains a tick vm j pm1 pm2 where "map_of (ve_pending s) i = Some a" "a < length (ve_requests s)"
    "t = Some tick" "start_vm tick p (rq_vm_info (ve_requests s ! a)) = Inr vm"
    "py_pos (length (fv_pms s)) p = Some j"
    "update_cpu_utilization (Some vm) None (occupy vm (fv_pms s ! j)) = Inr pm1" "set_energy c pm1 = Inr pm2"
    "s' = on_metrics (\<lambda>m. m\<lparr>mt_successful_allocation := mt_successful_allocation m + 1\<rparr>)
       (put_pm j pm2
         (put_request a ((ve_requests s ! a)\<lparr>rq_vm_info := vm\<rparr>) s
            \<lparr>ve_pending := AList.delete i (ve_pending s), ve_live := AList.update i a (ve_live s)\<rparr>))"
  using assms
proof -
  from assms obtain a r tick vm j pm pm1 pm2 where *: "dict_get (ve_pending s) i = Inr a" "request_at a s = Inr r"
    "need t = Inr tick" "start_vm tick p (rq_vm_info r) = Inr vm" "node_at (fv_pms s) p = Inr (j, pm)"
    "update_cpu_utilization (Some vm) None (occupy vm pm) = Inr pm1" "set_energy c pm1 = Inr pm2"
    "s' = on_metrics (\<lambda>m. m\<lparr>mt_successful_allocation := mt_successful_allocation m + 1\<rparr>)
       (put_pm j pm2
         (put_request a (r\<lparr>rq_vm_info := vm\<rparr>) s
            \<lparr>ve_pending := AList.delete i (ve_pending s), ve_live := AList.update i a (ve_live s)\<rparr>))"
    unfolding allocate_vm_def Let_def
    by (elim bindE_Inr_E) (simp add: pop_pending_result split: prod.splits, elim conjE bindE_Inr_E, simp)
  from *(1-3) have "map_of (ve_pending s) i = Some a" "a < length (ve_requests s)" "r = ve_requests s ! a" "t = Some tick"
    by (simp_all add: dict_get_def request_at_result need_def split: option.splits)
  moreover from *(5) have "py_pos (length (fv_pms s)) p = Some j" "pm = fv_pms s ! j"
    by (auto simp: node_at_def split: option.splits)
  ultimately show thesis using that * by blast
qed

lemma allocate_vm_keeps:
  assumes "allocate_vm c t i p s = Inr s'" "vm_invariant K s"
  shows "vm_invariant K s'"
proof -
  from assms(1) obtain a tick vm j pm1 pm2 where j: "py_pos (length (fv_pms s)) p = Some j"
    and u: "update_cpu_utilization (Some vm) None (occupy vm (fv_pms s ! j)) = Inr pm1" "set_energy c pm1 = Inr pm2"
    and s': "s' = on_metrics (\<lambda>m. m\<lparr>mt_successful_allocation := mt_successful_allocation m + 1\<rparr>)
       (put_pm j pm2
         (put_request a ((ve_requests s ! a)\<lparr>rq_vm_info := vm\<rparr>) s
            \<lparr>ve_pending := AList.delete i (ve_pending s), ve_live := AList.update i a (ve_live s)\<rparr>))"
    (is "_ = on_metrics _ (put_pm j pm2 ?s2)") by (rule allocate_vm_result)
  from u have "pm_static pm2 = pm_static (fv_pms s ! j)"
    by (simp add: set_energy_static update_cpu_utilization_static occupy_static)
  with py_pos_less [OF j] have "vm_frozen (put_pm j pm2 ?s2) = vm_frozen ?s2"
    by (intro put_pm_frozen) auto
  then have "vm_frozen s' = vm_frozen s" using s' by (simp add: vm_defs)
  moreover have "distinct (live_keys s')" using assms(2) s'
    by (simp add: vm_invariant_def live_keys_def distinct_update)
  moreover have "0 \<le> lost_runs s'" using assms(2) s' length_update [of i a "ve_live s"]
    by (auto simp: vm_invariant_def vm_defs)
  ultimately show ?thesis using assms(2) by (simp add: vm_invariant_def)
qed

lemma apply_vm_action_keeps:
  "apply_vm_action c t act s = Inr (s', es) \<Longrightarrow> vm_invariant K s \<Longrightarrow> vm_invariant K s'"
  by (auto simp: apply_vm_action_def res_simps request_at_result split: if_splits vm_action.splits
      dest!: postpone_steady steady_invariant intro: allocate_vm_keeps)

lemma apply_vm_actions_keeps:
  "apply_vm_actions c t acts s = Inr (s', es) \<Longrightarrow> vm_invariant K s \<Longrightarrow> vm_invariant K s'"
  by (induction acts arbitrary: s es)
     (auto simp: res_simps split: py_action.splits dest: apply_vm_action_keeps)

lemma vm_handle_keeps:
  "vm_handle c hn t p s = Inr (s', es) \<Longrightarrow> vm_invariant K s \<Longrightarrow> vm_invariant K s'"
  by (auto simp: vm_handle_def on_vm_action_received_def pop_pending_result res_simps
      split: vm_handler.splits option.splits vm_payload.splits if_splits
      dest!: on_vm_required_steady steady_invariant intro: apply_vm_actions_keeps)
     (simp add: vm_invariant_def vm_defs)

lemma vm_invoke_keeps:
  "vm_invoke c hn a (b, s) = Inr (b', s') \<Longrightarrow> vm_invariant K s \<Longrightarrow> vm_invariant K s'"
  by (auto simp: vm_invoke_def Let_def res_simps dest: vm_handle_keeps)

lemma push_request_result:
  assumes "push_request c t readings row (b, s) = Inr w'"
  obtains price category u vm b' where "get_unit_price c (row_vm_cpu_cores row) (row_vm_memory row) = Inr price"
    "vm_category_of (row_vm_category row) = Inr category" "map_of readings (row_vm_id row) = Some u"
    "add_utilization u (new_vm (row_vm_id row) (row_vm_cpu_cores row) (row_vm_memory row) (row_vm_lifetime row)
       (row_sub_id row) (row_deploy_id row) category price) = Inr vm"
    "w' = (b', on_metrics (\<lambda>m. m\<lparr>mt_total_vm_requests := mt_total_vm_requests m + 1\<rparr>)
       (s\<lparr>ve_requests := ve_requests s @
          [\<lparr>rq_vm_info = vm, rq_remaining_buffer_time = vmc_buffer_time_budget c\<rparr>]\<rparr>))"
proof -
  obtain b1 e where "gen_cascade_event b t (Scenario REQUEST)
    (Some (RequestPayload (length (ve_requests s)))) = (b1, e)" by force
  with assms that show thesis by (auto simp: push_request_def res_simps Let_def split: option.splits)
qed

lemma push_request_steady:
  assumes "push_request c t readings row w = Inr w'"
  shows "steady (snd w) (snd w')"
proof -
  obtain b s where w: "w = (b, s)" by force
  from assms [unfolded w] show ?thesis
    by (rule push_request_result) (simp add: w steady_def vm_defs)
qed

lemma vm_step_result:
  assumes "vm_step c t (b, s) = Inr (b', s')"
  obtains readings r1 s1 s2 s3 s4 rows r2 where "vp_cpu_items c t (ve_reader s) = (readings, r1)"
    "process_finished_vm (s\<lparr>ve_tick := t, ve_reader := r1\<rparr>) = Inr s1"
    "update_vm_workload readings s1 = Inr s2" "update_pm_workload c s2 = Inr s3"
    "update_upper_level_metrics s3 = Inr s4" "vp_vm_items c t (ve_reader s4) = (rows, r2)"
    "foldE (push_request (vp_conf c) t readings) rows (b, s4\<lparr>ve_reader := r2\<rparr>) = Inr (b', s')"
proof -
  obtain readings r1 where rd: "vp_cpu_items c t (ve_reader s) = (readings, r1)" by force
  with assms obtain s1 s2 s3 s4 where st: "process_finished_vm (s\<lparr>ve_tick := t, ve_reader := r1\<rparr>) = Inr s1"
    "update_vm_workload readings s1 = Inr s2" "update_pm_workload c s2 = Inr s3" "update_upper_level_metrics s3 = Inr s4"
    and f: "(case vp_vm_items c t (ve_reader s4) of (rows, r2) \<Rightarrow>
        foldE (push_request (vp_conf c) t readings) rows (b, s4\<lparr>ve_reader := r2\<rparr>)) = Inr (b', s')"
    by (auto simp: vm_step_def elim!: bindE_Inr_E)
  obtain rows r2 where "vp_vm_items c t (ve_reader s4) = (rows, r2)" by force
  with f that [OF rd st] show thesis by simp
qed

lemma vm_step_keeps:
  assumes "vm_step c t (b, s) = Inr (b', s')" "vm_invariant K s"
  shows "vm_invariant K s'"
proof -
  from assms(1) obtain readings r1 s1 s2 s3 s4 rows r2 where
    p: "process_finished_vm (s\<lparr>ve_tick := t, ve_reader := r1\<rparr>) = Inr s1"
    and st: "update_vm_workload readings s1 = Inr s2" "update_pm_workload c s2 = Inr s3"
      "update_upper_level_metrics s3 = Inr s4"
    and f: "foldE (push_request (vp_conf c) t readings) rows (b, s4\<lparr>ve_reader := r2\<rparr>) = Inr (b', s')"
    by (rule vm_step_result)
  have "vm_invariant K (s\<lparr>ve_tick := t, ve_reader := r1\<rparr>)"
    using assms(2) by (simp add: vm_invariant_def vm_defs)
  from process_finished_vm_keeps [OF p this] have "vm_invariant K s4"
    using update_vm_workload_keeps [OF st(1)] update_pm_workload_keeps [OF st(2)] upper_level_keeps [OF st(3)]
    by (simp add: steady_invariant)
  moreover have "steady s4 (snd (b', s'))"
    by (rule foldE_invariant [OF f])
       (use push_request_steady in \<open>fastforce simp: steady_def vm_defs\<close>)+
  ultimately show ?thesis by (simp add: steady_invariant)
qed

lemma kill_vm_counts:
  assumes "kill_vm t i s = Inr s'" "distinct (live_keys s)"
  shows "distinct (live_keys s')" "int (length (ve_live s')) = int (length (ve_live s)) - 1"
    "vm_frozen s' = vm_frozen s" "lost_runs s' = lost_runs s + 1" "fv_pms s' = fv_pms s"
  using assms length_delete_distinct [of "ve_live s" i]
  by (auto simp: kill_vm_def pop_live_result res_simps vm_defs distinct_delete)

lemma kill_vms_counts:
  assumes "foldE (kill_vm t) is s = Inr s'" "distinct (live_keys s)"
  shows "distinct (live_keys s') \<and> vm_frozen s' = vm_frozen s
    \<and> lost_runs s' = lost_runs s + int (length is) \<and> fv_pms s' = fv_pms s"
  using assms
proof (induction "is" arbitrary: s)
  case (Cons i "is")
  from Cons.prems(1) obtain s1 where "kill_vm t i s = Inr s1" "foldE (kill_vm t) is s1 = Inr s'"
    by (auto simp: res_simps)
  with Cons.IH [of s1] kill_vm_counts [of t i s s1] Cons.prems(2) show ?case by auto
qed simp

lemma overload_keeps:
  assumes "overload c p t s = Inr s'" "vm_invariant K s"
  shows "vm_invariant K s'"
proof -
  from assms(1) obtain j pm where n: "node_at (fv_pms s) p = Inr (j, pm)"
    by (auto simp: overload_def res_simps)
  show ?thesis
  proof (cases "vmc_kill_all_vms_if_overload c")
    case True
    with assms(1) n obtain s1 pm1 where k: "foldE (kill_vm t) (pm_live_vms pm) s = Inr s1"
      and d: "deallocate_vms (pm_live_vms pm) pm = Inr pm1"
      and s': "ve_live s' = ve_live s1" "vm_frozen s' = vm_frozen (put_pm j pm1 s1)"
        "lost_runs s' = lost_runs s1 - int (length (pm_live_vms pm))"
      by (auto simp: overload_def res_simps vm_defs)
    from assms(2) have "distinct (live_keys s)" by (simp add: vm_invariant_def)
    with kill_vms_counts [OF k] have "distinct (live_keys s1)" "vm_frozen s1 = vm_frozen s"
      "lost_runs s1 = lost_runs s + int (length (pm_live_vms pm))" "fv_pms s1 = fv_pms s" by auto
    with s' put_pm_frozen [of j s1 pm1] node_at_Inr [OF n] deallocate_vms_static [OF d] assms(2)
    show ?thesis by (simp add: vm_invariant_def live_keys_def)
  next
    case False
    with assms n show ?thesis by (auto simp: overload_def res_simps vm_invariant_def vm_defs)
  qed
qed

lemma post_pm_keeps:
  "post_pm c t j (s, e, k) = Inr (s', e', k') \<Longrightarrow> vm_invariant K s \<Longrightarrow> vm_invariant K s'"
  by (auto simp: post_pm_def Let_def res_simps split: if_splits intro: overload_keeps elim!: overload_keeps)
     (auto simp: vm_invariant_def vm_defs)

lemma vm_post_step_keeps:
  assumes "vm_post_step c t s = Inr (s', e)" "vm_invariant K s"
  shows "vm_invariant K s'" "e \<longleftrightarrow> be_max_tick (fst K) \<le> t + 1"
proof -
  from assms(1) obtain s1 en co p where
    f: "foldE (post_pm c t) [0..<length (fv_pms s)] (s, 0, 0) = Inr (s1, en, co)"
    and s': "steady s1 s'" "e \<longleftrightarrow> be_max_tick (ve_base s') \<le> t + 1"
    by (auto simp: vm_post_step_def update_incomes_def update_profit_def vm_take_snapshot_def res_simps
        steady_def vm_defs split: if_splits)
  have "vm_invariant K (fst (s1, en, co))"
    by (rule foldE_invariant [OF f]) (use assms(2) in \<open>auto dest: post_pm_keeps\<close>)
  with s'(1) show k: "vm_invariant K s'" by (simp add: steady_invariant)
  from k s'(2) show "e \<longleftrightarrow> be_max_tick (fst K) \<le> t + 1"
    by (auto simp: vm_invariant_def vm_frozen_def)
qed

section \<open>The engine in the environment\<close>

interpretation vm: timed_engine "vm_engine c" "vm_invariant K" "be_max_tick (fst K)"
  for c :: "'r vm_params" and K
proof (unfold_locales, goal_cases)
  case (1 t b w b' w')
  then show ?case using vm_step_keeps by (simp add: vm_engine_def)
next
  case (2 t w w' e)
  then show ?case using vm_post_step_keeps(1) by (simp add: vm_engine_def)
next
  case (3 hn a b w b' w')
  then show ?case using vm_invoke_keeps by (simp add: vm_engine_def)
next
  case (4 w fi)
  then show ?case by (simp add: vm_engine_def vm_take_snapshot_def vm_invariant_def vm_defs)
next
  case (5 t w w' e)
  then have "e \<longleftrightarrow> be_max_tick (fst K) \<le> t + 1"
    using vm_post_step_keeps(2) by (simp add: vm_engine_def)
  with 5(3) show ?case by auto
qed

end
