(* ===== verification/VmAlloc.thy ===== *)
theory VmAlloc imports VmProps begin

text \<open>
  The resource accounts of the VM scheduling engine when overloaded machines are not cleared: the
  allocated cores and memory of a machine are the sums over the VMs that run on it, its set of live VMs
  names exactly those, and it is empty when it says so.  A machine chosen among the valid ones stays
  within its capacity, or within the oversubscription rates.

  \<open>tenants s R j\<close> are the entries of the list \<open>R\<close> of running VMs that are placed on machine \<open>j\<close>; \<open>R\<close> is
  \<open>ve_live s\<close> except in the middle of the loop that releases finished VMs.
\<close>

section \<open>The accounts\<close>

definition vm_of :: "'r vms \<Rightarrow> nat \<Rightarrow> virtual_machine" where
  "vm_of s a = rq_vm_info (ve_requests s ! a)"

definition runs_on :: "'r vms \<Rightarrow> nat \<Rightarrow> nat \<Rightarrow> bool" where
  "runs_on s j a \<longleftrightarrow> py_pos (length (fv_pms s)) (vm_pm_id (vm_of s a)) = Some j"

definition tenants :: "'r vms \<Rightarrow> (int \<times> nat) list \<Rightarrow> nat \<Rightarrow> (int \<times> nat) list" where
  "tenants s R j = filter (\<lambda>e. runs_on s j (snd e)) R"

definition used :: "(virtual_machine \<Rightarrow> int) \<Rightarrow> 'r vms \<Rightarrow> (int \<times> nat) list \<Rightarrow> nat \<Rightarrow> int" where
  "used f s R j = sum_list (map (\<lambda>e. f (vm_of s (snd e))) (tenants s R j))"

definition machine_ok :: "'r vms \<Rightarrow> (int \<times> nat) list \<Rightarrow> nat \<Rightarrow> bool" where
  "machine_ok s R j \<longleftrightarrow> (let pm = fv_pms s ! j in
     pm_id pm = int j \<and> distinct (pm_live_vms pm) \<and> set (pm_live_vms pm) = fst ` set (tenants s R j) \<and>
     pm_cpu_cores_allocated pm = used vm_cpu_cores_requirement s R j \<and>
     pm_memory_allocated pm = used vm_memory_requirement s R j \<and>
     (pm_oversubscribable pm = EMPTY \<longleftrightarrow> pm_live_vms pm = []))"

definition entry_ok :: "'r vms \<Rightarrow> int \<times> nat \<Rightarrow> bool" where
  "entry_ok s e \<longleftrightarrow> snd e < length (ve_requests s) \<and> vm_id (vm_of s (snd e)) = fst e"

definition request_ok :: "vm_request \<Rightarrow> bool" where
  "request_ok r \<longleftrightarrow> 0 \<le> vm_cpu_cores_requirement (rq_vm_info r) \<and> 0 \<le> vm_memory_requirement (rq_vm_info r)"

definition booked_with :: "'r vms \<Rightarrow> (int \<times> nat) list \<Rightarrow> bool" where
  "booked_with s R \<longleftrightarrow> distinct (map fst R) \<and> list_all (entry_ok s) R \<and> list_all (entry_ok s) (ve_pending s) \<and>
     list_all request_ok (ve_requests s) \<and> (\<forall>j < length (fv_pms s). machine_ok s R j)"

abbreviation booked :: "'r vms \<Rightarrow> bool" where
  "booked s \<equiv> booked_with s (ve_live s)"

definition fits :: "vm_conf \<Rightarrow> machine \<Rightarrow> bool" where
  "fits c pm \<longleftrightarrow> (case pm_oversubscribable pm of
     EMPTY \<Rightarrow> True
   | NON_OVERSUBSCRIBABLE \<Rightarrow> pm_cpu_cores_allocated pm \<le> pm_cpu_cores_capacity pm \<and>
       pm_memory_allocated pm \<le> pm_memory_capacity pm
   | OVERSUBSCRIBABLE \<Rightarrow>
       of_int (pm_cpu_cores_allocated pm) \<le> vmc_max_cpu_oversubscription_rate c * of_int (pm_cpu_cores_capacity pm) \<and>
       of_int (pm_memory_allocated pm) \<le> vmc_max_memory_oversubscription_rate c * of_int (pm_memory_capacity pm))"

section \<open>Changes that do not touch the accounts\<close>

definition vm_key :: "virtual_machine \<Rightarrow> int \<times> int \<times> int \<times> int" where
  "vm_key vm = (vm_id vm, vm_cpu_cores_requirement vm, vm_memory_requirement vm, vm_pm_id vm)"

definition pm_key :: "machine \<Rightarrow> int \<times> int list \<times> int \<times> int \<times> pm_state \<times> int \<times> int" where
  "pm_key pm = (pm_id pm, pm_live_vms pm, pm_cpu_cores_allocated pm, pm_memory_allocated pm,
     pm_oversubscribable pm, pm_cpu_cores_capacity pm, pm_memory_capacity pm)"

lemma booked_cong:
  assumes v: "map (vm_key \<circ> rq_vm_info) (ve_requests s') = map (vm_key \<circ> rq_vm_info) (ve_requests s)"
    and p: "map pm_key (fv_pms s') = map pm_key (fv_pms s)" "ve_pending s' = ve_pending s"
  shows "booked_with s' R = booked_with s R"
proof -
  have len: "length (ve_requests s') = length (ve_requests s)" "length (fv_pms s') = length (fv_pms s)"
    using v p(1) by (metis length_map)+
  have vk: "vm_key (vm_of s' a) = vm_key (vm_of s a)" if "a < length (ve_requests s)" for a
    using arg_cong [OF v, of "\<lambda>xs. xs ! a"] that len by (simp add: vm_of_def)
  have pk: "pm_key (fv_pms s' ! j) = pm_key (fv_pms s ! j)" if "j < length (fv_pms s)" for j
    using arg_cong [OF p(1), of "\<lambda>xs. xs ! j"] that len by simp
  have e: "entry_ok s' = entry_ok s"
    using vk len by (auto simp: entry_ok_def vm_key_def fun_eq_iff)
  have r: "list_all request_ok (ve_requests s') = list_all request_ok (ve_requests s)"
    using vk len by (auto simp: list_all_length request_ok_def vm_key_def vm_of_def)
  have m: "machine_ok s' R j = machine_ok s R j" if "list_all (entry_ok s) R" "j < length (fv_pms s)" for j
  proof -
    have a: "snd x < length (ve_requests s)" if "x \<in> set R" for x
      using \<open>list_all (entry_ok s) R\<close> that by (auto simp: list_all_iff entry_ok_def)
    have t: "tenants s' R j = tenants s R j"
      unfolding tenants_def by (rule filter_cong) (use a vk len in \<open>auto simp: runs_on_def vm_key_def\<close>)
    have "used f s' R j = used f s R j" if "\<And>a. a < length (ve_requests s) \<Longrightarrow> f (vm_of s' a) = f (vm_of s a)" for f
      unfolding used_def t by (rule arg_cong [where f = sum_list], rule map_cong [OF refl])
        (use that a in \<open>auto simp: tenants_def\<close>)
    from this [of vm_cpu_cores_requirement] this [of vm_memory_requirement] t pk [OF that(2)] vk
    show ?thesis by (auto simp: machine_ok_def vm_key_def pm_key_def Let_def)
  qed
  show ?thesis
  proof (cases "list_all (entry_ok s) R")
    case True
    with e r m len(2) p(2) show ?thesis by (simp add: booked_with_def)
  qed (use e in \<open>simp add: booked_with_def\<close>)
qed

lemma placement_simps [simp]:
  "vm_of (put_pm j pm s) = vm_of s" "runs_on (put_pm j pm s) = runs_on s" "tenants (put_pm j pm s) = tenants s"
  "used f (put_pm j pm s) = used f s" "entry_ok (put_pm j pm s) = entry_ok s"
  "vm_of (on_metrics g s) = vm_of s" "runs_on (on_metrics g s) = runs_on s" "tenants (on_metrics g s) = tenants s"
  "used f (on_metrics g s) = used f s" "entry_ok (on_metrics g s) = entry_ok s"
  by (simp_all add: vm_of_def runs_on_def tenants_def used_def entry_ok_def fun_eq_iff)

lemma machine_ok_metrics [simp]: "machine_ok (on_metrics g s) R j = machine_ok s R j"
  by (simp add: machine_ok_def)

lemma booked_metrics [simp]: "booked_with (on_metrics g s) R = booked_with s R"
  by (simp add: booked_with_def)

lemma fits_cong: "pm_key pm = pm_key pm' \<Longrightarrow> fits c pm = fits c pm'"
  by (cases "pm_oversubscribable pm'") (auto simp: pm_key_def fits_def)

lemma list_all_fits_cong: "map pm_key pms' = map pm_key pms \<Longrightarrow> list_all (fits c) pms' = list_all (fits c) pms"
  by (metis (no_types, lifting) fits_cong length_map list_all_length nth_map)

lemma used_append [simp]: "used f s (R @ R') j = used f s R j + used f s R' j"
  by (simp add: used_def tenants_def)

lemma used_Cons [simp]:
  "used f s (e # R) j = (if runs_on s j (snd e) then f (vm_of s (snd e)) else 0) + used f s R j"
  by (simp add: used_def tenants_def)

lemma used_Nil [simp]: "used f s [] j = 0"
  by (simp add: used_def tenants_def)

lemma tenants_append [simp]: "tenants s (R @ R') j = tenants s R j @ tenants s R' j"
  by (simp add: tenants_def)

lemma tenants_Cons [simp]:
  "tenants s (e # R) j = (if runs_on s j (snd e) then [e] else []) @ tenants s R j"
  by (simp add: tenants_def)

lemma tenants_Nil [simp]: "tenants s [] j = []"
  by (simp add: tenants_def)

lemma tenants_subset: "set (tenants s R j) \<subseteq> set R"
  by (auto simp: tenants_def)

text \<open>States that agree on everything the accounts read.\<close>

definition same_books :: "'r vms \<Rightarrow> 'r vms \<Rightarrow> bool" where
  "same_books s s' \<longleftrightarrow> map (vm_key \<circ> rq_vm_info) (ve_requests s') = map (vm_key \<circ> rq_vm_info) (ve_requests s) \<and>
     map pm_key (fv_pms s') = map pm_key (fv_pms s) \<and> ve_pending s' = ve_pending s \<and> ve_live s' = ve_live s"

lemma same_books_refl [simp]: "same_books s s"
  by (simp add: same_books_def)

lemma same_books_trans: "same_books s s' \<Longrightarrow> same_books s' s'' \<Longrightarrow> same_books s s''"
  by (simp add: same_books_def)

lemma same_books_keep:
  "same_books s s' \<Longrightarrow> booked s' = booked s"
  "same_books s s' \<Longrightarrow> list_all (fits c) (fv_pms s') = list_all (fits c) (fv_pms s)"
  using booked_cong [of s' s "ve_live s"] list_all_fits_cong [of "fv_pms s'" "fv_pms s" c]
  by (simp_all add: same_books_def)

lemma on_metrics_books [simp]: "same_books s (on_metrics f s')= same_books s s'"
  by (simp add: same_books_def)

lemma add_utilization_key: "add_utilization u vm = Inr vm' \<Longrightarrow> vm_key vm' = vm_key vm"
  by (auto simp: add_utilization_def res_simps vm_key_def)

lemma read_keys:
  "read_live readings t vm = Inr vm' \<Longrightarrow> vm_key vm' = vm_key vm"
  "read_pending readings vm = Inr vm' \<Longrightarrow> vm_key vm' = vm_key vm"
  by (auto simp: read_live_def read_pending_def res_simps set_vm_utilization_def split: option.splits
      dest!: add_utilization_key simp: vm_key_def)

lemma update_vms_books:
  assumes "foldE (update_vm f) as s = Inr s'" and f: "\<And>vm vm'. f vm = Inr vm' \<Longrightarrow> vm_key vm' = vm_key vm"
  shows "same_books s s'"
proof (rule foldE_invariant [OF assms(1)])
  fix a s1 s2 assume "same_books s s1" "update_vm f a s1 = Inr s2"
  moreover from this(2) have "same_books s1 s2"
    by (auto simp: update_vm_result same_books_def map_update list_update_same_conv dest: f)
  ultimately show "same_books s s2" using same_books_trans by blast
qed simp

lemma workload_books:
  "update_vm_workload readings s = Inr s' \<Longrightarrow> same_books s s'"
  by (auto simp: update_vm_workload_def elim!: bindE_Inr_E
      intro: same_books_trans update_vms_books read_keys)

lemma update_cpu_utilization_key: "update_cpu_utilization vm u pm = Inr pm' \<Longrightarrow> pm_key pm' = pm_key pm"
  by (auto simp: update_cpu_utilization_def pm_key_def res_simps)

lemma set_energy_key: "set_energy c pm = Inr pm' \<Longrightarrow> pm_key pm' = pm_key pm"
  by (auto simp: set_energy_def pm_key_def res_simps)

lemma pm_workload_books:
  assumes "update_pm_workload c s = Inr s'"
  shows "same_books s s'"
proof -
  from assms obtain pms where m: "mapE (pm_workload c s) (fv_pms s) = Inr pms" and s': "s' = s\<lparr>fv_pms := pms\<rparr>"
    by (auto simp: update_pm_workload_def res_simps)
  have "map pm_key pms = map pm_key (fv_pms s)"
    by (rule mapE_static [OF m])
      (auto simp: pm_workload_def res_simps split: if_splits dest!: set_energy_key update_cpu_utilization_key)
  with s' show ?thesis by (simp add: same_books_def)
qed

lemma upper_level_books: "update_upper_level_metrics s = Inr s' \<Longrightarrow> same_books s s'"
  by (auto simp: update_upper_level_metrics_def update_rack_metrics_def update_cluster_metrics_def
      update_data_center_metrics_def update_zone_metrics_def update_region_metrics_def res_simps same_books_def)

section \<open>Releasing finished VMs\<close>

lemma entry_placed:
  assumes "py_pos (length (fv_pms s)) (vm_pm_id (vm_of s a)) = Some j"
  shows "runs_on s i a \<longleftrightarrow> i = j"
  using assms by (auto simp: runs_on_def)

lemma machine_ok_other:
  assumes "machine_ok s R i" "i \<noteq> j" "tenants s R' i = tenants s R i"
  shows "machine_ok (put_pm j pm s) R' i"
  using assms by (simp add: machine_ok_def used_def Let_def)

lemma release_machine:
  assumes m: "machine_ok s (ys @ (k, a) # xs) j" and d: "distinct (map fst (ys @ (k, a) # xs))"
    and j: "py_pos (length (fv_pms s)) (vm_pm_id (vm_of s a)) = Some j" "j < length (fv_pms s)"
    and k: "vm_id (vm_of s a) = k" and pm: "pm = fv_pms s ! j"
    and de: "deallocate_vms [k] (pm\<lparr>pm_cpu_cores_allocated := pm_cpu_cores_allocated pm - vm_cpu_cores_requirement (vm_of s a),
              pm_memory_allocated := pm_memory_allocated pm - vm_memory_requirement (vm_of s a)\<rparr>) = Inr pm1"
  shows "machine_ok (put_pm j (if pm_live_vms pm1 = [] then pm1\<lparr>pm_oversubscribable := EMPTY\<rparr> else pm1) s) (ys @ xs) j"
proof -
  let ?s = "put_pm j (if pm_live_vms pm1 = [] then pm1\<lparr>pm_oversubscribable := EMPTY\<rparr> else pm1) s"
  have on: "runs_on s j a" using j(1) by (simp add: runs_on_def)
  have nk: "k \<notin> fst ` set (tenants s (ys @ xs) j)"
    using d tenants_subset [of s "ys @ xs" j] by (force simp: image_iff)
  obtain L where pm1: "pm1 = pm\<lparr>pm_cpu_cores_allocated := pm_cpu_cores_allocated pm - vm_cpu_cores_requirement (vm_of s a),
              pm_memory_allocated := pm_memory_allocated pm - vm_memory_requirement (vm_of s a), pm_live_vms := L\<rparr>"
    and L: "L = remove1 k (pm_live_vms pm)"
    using de by (auto simp: deallocate_vms_def set_remove_def res_simps split: if_splits)
  have l: "set L = fst ` set (tenants s (ys @ xs) j)" "distinct L"
    using m on nk pm L by (auto simp: machine_ok_def Let_def set_remove1_eq)
  then have "L = [] \<longleftrightarrow> tenants s (ys @ xs) j = []" by (metis image_is_empty set_empty)
  moreover have "pm_oversubscribable pm \<noteq> EMPTY" using m on pm by (auto simp: machine_ok_def Let_def)
  ultimately show ?thesis using m on pm pm1 l j(2)
    by (auto simp: machine_ok_def Let_def)
qed

lemma finish_vm_books:
  assumes f: "finish_vm a (s, ids) = Inr (s', ids')" and b: "booked_with s (ys @ (k, a) # xs)"
    and c: "list_all (fits c) (fv_pms s)"
  shows "(s' = s \<and> ids' = ids \<and> vm_deletion_tick (vm_of s a) \<noteq> ve_tick s \<or>
      booked_with s' (ys @ xs) \<and> ids' = ids @ [k]) \<and> list_all (fits c) (fv_pms s') \<and>
    ve_live s' = ve_live s \<and> ve_tick s' = ve_tick s"
proof (cases "vm_deletion_tick (vm_of s a) = ve_tick s")
  case True
  from b have e: "a < length (ve_requests s)" "vm_id (vm_of s a) = k" "distinct (map fst (ys @ (k, a) # xs))"
    by (auto simp: booked_with_def entry_ok_def)
  from f True obtain j pm pm1 where n: "node_at (fv_pms s) (vm_pm_id (vm_of s a)) = Inr (j, pm)"
    and de: "deallocate_vms [k] (pm\<lparr>pm_cpu_cores_allocated := pm_cpu_cores_allocated pm - vm_cpu_cores_requirement (vm_of s a),
              pm_memory_allocated := pm_memory_allocated pm - vm_memory_requirement (vm_of s a)\<rparr>) = Inr pm1"
    and s': "s' = on_metrics (\<lambda>m. m\<lparr>mt_successful_completion := mt_successful_completion m + 1\<rparr>)
          (put_pm j (if pm_live_vms pm1 = [] then pm1\<lparr>pm_oversubscribable := EMPTY\<rparr> else pm1) s)"
      (is "_ = on_metrics _ ?s1")
    and ids': "ids' = ids @ [k]"
    using e by (auto simp: finish_vm_def res_simps request_at_result Let_def vm_of_def)
  from n have j: "py_pos (length (fv_pms s)) (vm_pm_id (vm_of s a)) = Some j" "j < length (fv_pms s)" "pm = fv_pms s ! j"
    by (auto simp: node_at_def split: option.splits dest: py_pos_less)
  from b have mo: "machine_ok s (ys @ (k, a) # xs) i" if "i < length (fv_pms s)" for i
    using that by (simp add: booked_with_def)
  have on: "\<not> runs_on s i a" if "i \<noteq> j" for i using j(1) that by (simp add: runs_on_def)
  have "machine_ok ?s1 (ys @ xs) i" if "i < length (fv_pms s)" for i
    using release_machine [OF mo [OF j(2)] e(3) j(1,2) e(2) j(3) de] mo [OF that] on
    by (cases "i = j") (auto intro!: machine_ok_other)
  then have "booked_with ?s1 (ys @ xs)" using b by (auto simp: booked_with_def)
  then have bk: "booked_with s' (ys @ xs)" using s' by simp
  have r: "0 \<le> vm_cpu_cores_requirement (vm_of s a)" "0 \<le> vm_memory_requirement (vm_of s a)"
    using b e(1) by (auto simp: booked_with_def list_all_length request_ok_def vm_of_def)
  have pf: "fits c pm" using c j by (simp add: list_all_length)
  have "fits c (if pm_live_vms pm1 = [] then pm1\<lparr>pm_oversubscribable := EMPTY\<rparr> else pm1)"
  proof -
    from de have "pm_oversubscribable pm1 = pm_oversubscribable pm"
      "pm_cpu_cores_allocated pm1 = pm_cpu_cores_allocated pm - vm_cpu_cores_requirement (vm_of s a)"
      "pm_memory_allocated pm1 = pm_memory_allocated pm - vm_memory_requirement (vm_of s a)"
      "pm_cpu_cores_capacity pm1 = pm_cpu_cores_capacity pm" "pm_memory_capacity pm1 = pm_memory_capacity pm"
      by (auto simp: deallocate_vms_def res_simps)
    with pf r show ?thesis
      by (cases "pm_oversubscribable pm") (auto simp: fits_def intro: order_trans [rotated])
  qed
  then have "list_all (fits c) (fv_pms s')" using s' c by (simp add: list_all_update)
  with bk ids' s' show ?thesis by simp
next
  case False
  with f c show ?thesis by (auto simp: finish_vm_def res_simps request_at_result Let_def vm_of_def)
qed

lemma finish_loop_books:
  assumes "foldE finish_vm (map snd xs) (s, ids) = Inr (s', ids')" "booked_with s (ys @ xs)" "list_all (fits c) (fv_pms s)"
  shows "\<exists>ds. ids' = ids @ ds \<and> booked_with s' (ys @ filter (\<lambda>e. fst e \<notin> set ds) xs) \<and> set ds \<subseteq> fst ` set xs \<and>
    list_all (fits c) (fv_pms s') \<and> ve_live s' = ve_live s"
  using assms
proof (induction xs arbitrary: s ids ys)
  case Nil
  then show ?case by simp
next
  case (Cons e xs)
  obtain k a where e: "e = (k, a)" by force
  from Cons.prems(1) obtain s1 ids1 where f: "finish_vm a (s, ids) = Inr (s1, ids1)"
    and r: "foldE finish_vm (map snd xs) (s1, ids1) = Inr (s', ids')" by (auto simp: res_simps e)
  from finish_vm_books [OF f Cons.prems(2) [unfolded e] Cons.prems(3)] have
    cs: "s1 = s \<and> ids1 = ids \<or> booked_with s1 (ys @ xs) \<and> ids1 = ids @ [k]"
    and l: "list_all (fits c) (fv_pms s1)" "ve_live s1 = ve_live s" by auto
  have k: "k \<notin> fst ` set xs" using Cons.prems(2) by (auto simp: booked_with_def e)
  from cs show ?case
  proof
    assume "s1 = s \<and> ids1 = ids"
    with Cons.IH [OF r, of "ys @ [e]"] Cons.prems(2) l k show ?thesis by (auto simp: e)
  next
    assume b: "booked_with s1 (ys @ xs) \<and> ids1 = ids @ [k]"
    with Cons.IH [OF r _ l(1), of ys] obtain ds where ds: "ids' = ids @ k # ds"
      "booked_with s' (ys @ filter (\<lambda>e. fst e \<notin> set ds) xs)" "set ds \<subseteq> fst ` set xs"
      "list_all (fits c) (fv_pms s')" "ve_live s' = ve_live s1" by auto
    have "filter (\<lambda>e. fst e \<notin> set (k # ds)) (e # xs) = filter (\<lambda>e. fst e \<notin> set ds) xs"
      using k by (auto simp: e intro!: filter_cong)
    with ds l(2) show ?thesis by (intro exI [of _ "k # ds"]) (auto simp: e)
  qed
qed

lemma pop_lives_result:
  "foldE pop_live ds s = Inr s' \<Longrightarrow> s' = s\<lparr>ve_live := filter (\<lambda>e. fst e \<notin> set ds) (ve_live s)\<rparr>"
proof (induction ds arbitrary: s)
  case (Cons d ds)
  then obtain s1 where s1: "pop_live d s = Inr s1" "foldE pop_live ds s1 = Inr s'" by (auto simp: res_simps)
  then have "s1 = s\<lparr>ve_live := filter (\<lambda>e. fst e \<noteq> d) (ve_live s)\<rparr>"
    by (auto simp: pop_live_result AList.delete_eq case_prod_unfold intro!: arg_cong [where f = "\<lambda>l. s\<lparr>ve_live := l\<rparr>"] filter_cong)
  moreover have "filter (\<lambda>e. fst e \<notin> set ds) (filter (\<lambda>e. fst e \<noteq> d) l) = filter (\<lambda>e. fst e \<notin> set (d # ds)) l" for l
    by (simp only: filter_filter) (rule filter_cong, auto)
  ultimately show ?case using Cons.IH [OF s1(2)] by simp
qed simp

lemma booked_live [simp]: "booked_with (s\<lparr>ve_live := l\<rparr>) R = booked_with s R"
  by (rule booked_cong) simp_all

lemma process_finished_books:
  assumes "process_finished_vm s = Inr s'" "booked s" "list_all (fits c) (fv_pms s)"
  shows "booked s' \<and> list_all (fits c) (fv_pms s')"
proof -
  from assms(1) obtain s1 ids where f: "foldE finish_vm (map snd (ve_live s)) (s, []) = Inr (s1, ids)"
    and p: "foldE pop_live ids s1 = Inr s'" by (auto simp: process_finished_vm_def res_simps)
  from finish_loop_books [OF f, of "[]" c] assms(2,3)
  have "booked_with s1 (filter (\<lambda>e. fst e \<notin> set ids) (ve_live s))" "list_all (fits c) (fv_pms s1)" "ve_live s1 = ve_live s"
    by auto
  with pop_lives_result [OF p] show ?thesis by simp
qed

section \<open>Requests and actions\<close>

lemma update_new: "\<not> dict_mem k d \<Longrightarrow> AList.update k v d = d @ [(k, v)]"
  by (induction d) (auto simp: dict_mem_def)

lemma List_insert_not_Nil [simp]: "List.insert x xs \<noteq> []"
  by (simp add: List.insert_def) auto

lemma start_vm_key:
  "start_vm t p vm = Inr vm' \<Longrightarrow> vm_id vm' = vm_id vm \<and> vm_cpu_cores_requirement vm' = vm_cpu_cores_requirement vm \<and>
     vm_memory_requirement vm' = vm_memory_requirement vm \<and> vm_pm_id vm' = p \<and> vm_category vm' = vm_category vm"
  by (auto simp: start_vm_def set_vm_utilization_def res_simps Let_def)

definition occupied_key :: "virtual_machine \<Rightarrow> machine \<Rightarrow> int \<times> int list \<times> int \<times> int \<times> pm_state \<times> int \<times> int" where
  "occupied_key vm pm =
     (pm_id pm, List.insert (vm_id vm) (pm_live_vms pm), pm_cpu_cores_allocated pm + vm_cpu_cores_requirement vm,
      pm_memory_allocated pm + vm_memory_requirement vm,
      if pm_oversubscribable pm = EMPTY
      then (if vm_category vm = DELAY_INSENSITIVE then OVERSUBSCRIBABLE else NON_OVERSUBSCRIBABLE)
      else pm_oversubscribable pm, pm_cpu_cores_capacity pm, pm_memory_capacity pm)"

lemma occupy_key: "pm_key (occupy vm pm) = occupied_key vm pm"
  by (simp add: occupy_def allocate_vms_def pm_key_def occupied_key_def Let_def)

lemma allocate_books:
  assumes al: "allocate_vm c t i p s = Inr s'" and b: "booked s" and new: "\<not> dict_mem i (ve_live s)"
  shows "booked s'"
proof -
  from al obtain a tick vm j pm1 pm2 where a: "map_of (ve_pending s) i = Some a" "a < length (ve_requests s)"
    and st: "start_vm tick p (vm_of s a) = Inr vm" and j: "py_pos (length (fv_pms s)) p = Some j"
    and u: "update_cpu_utilization (Some vm) None (occupy vm (fv_pms s ! j)) = Inr pm1" "set_energy c pm1 = Inr pm2"
    and s': "s' = on_metrics (\<lambda>m. m\<lparr>mt_successful_allocation := mt_successful_allocation m + 1\<rparr>)
       (put_pm j pm2
         (put_request a ((ve_requests s ! a)\<lparr>rq_vm_info := vm\<rparr>) s
            \<lparr>ve_pending := AList.delete i (ve_pending s), ve_live := AList.update i a (ve_live s)\<rparr>))"
    unfolding vm_of_def by (rule allocate_vm_result)
  note key = start_vm_key [OF st]
  have id: "vm_id (vm_of s a) = i"
    using b a map_of_SomeD [OF a(1)] by (auto simp: booked_with_def list_all_iff entry_ok_def)
  have live: "ve_live s' = ve_live s @ [(i, a)]" using s' new by (simp add: update_new)
  have vm_new: "vm_of s' a = vm" using s' a(2) by (simp add: vm_of_def)
  have len: "length (ve_requests s') = length (ve_requests s)" "length (fv_pms s') = length (fv_pms s)"
    using s' by simp_all
  have other: "vm_of s' (snd e) = vm_of s (snd e)" if "entry_ok s e" "fst e \<noteq> i" for e
    using that id s' by (cases "snd e = a") (auto simp: vm_of_def entry_ok_def nth_list_update)
  have le: "entry_ok s e" "fst e \<noteq> i" if "e \<in> set (ve_live s)" for e
    using b new that by (auto simp: booked_with_def list_all_iff dict_mem_def)
  have old: "runs_on s' k (snd e) = runs_on s k (snd e)" if "e \<in> set (ve_live s)" for e k
    using other [OF le [OF that]] len by (simp add: runs_on_def)
  have t: "tenants s' (ve_live s) k = tenants s (ve_live s) k" for k
    unfolding tenants_def by (rule filter_cong) (simp_all add: old)
  have us: "used f s' (ve_live s) k = used f s (ve_live s) k" for f k
    unfolding used_def t by (rule arg_cong [where f = sum_list], rule map_cong)
      (use other le in \<open>auto simp: tenants_def\<close>)
  have on: "runs_on s' k a \<longleftrightarrow> k = j" for k using j vm_new key len by (auto simp: runs_on_def)
  have pk: "pm_key pm2 = occupied_key vm (fv_pms s ! j)"
    using u by (simp add: set_energy_key update_cpu_utilization_key occupy_key)
  have jl: "j < length (fv_pms s)" using j by (rule py_pos_less)
  have mo: "machine_ok s (ve_live s) k" if "k < length (fv_pms s)" for k
    using b that by (simp add: booked_with_def)
  have "machine_ok s' (ve_live s') k" if k: "k < length (fv_pms s)" for k
  proof (cases "k = j")
    case True
    have "fv_pms s' ! k = pm2" using s' True jl by simp
    with mo [OF jl] pk True key id show ?thesis
      by (auto simp: machine_ok_def live t us on vm_new pm_key_def occupied_key_def Let_def)
  next
    case False
    have "fv_pms s' ! k = fv_pms s ! k" using s' False by simp
    with mo [OF k] False show ?thesis by (simp add: machine_ok_def live t us on Let_def)
  qed
  moreover have "entry_ok s' (i, a)" using a(2) vm_new key id len by (simp add: entry_ok_def)
  moreover have "entry_ok s' e" if "entry_ok s e" "fst e \<noteq> i" for e
    using other [OF that] that len by (simp add: entry_ok_def)
  then have "list_all (entry_ok s') (ve_live s)" "list_all (entry_ok s') (AList.delete i (ve_pending s))"
    using b le by (auto simp: booked_with_def list_all_iff AList.delete_eq)
  moreover have "list_all request_ok (ve_requests s')"
    using b a(2) key s' by (auto simp: booked_with_def list_all_length request_ok_def vm_of_def nth_list_update)
  moreover have "distinct (map fst (ve_live s'))"
    using b new live by (auto simp: booked_with_def dict_mem_def)
  moreover have "ve_pending s' = AList.delete i (ve_pending s)" using s' by simp
  ultimately show ?thesis using len live by (simp add: booked_with_def)
qed

lemma booked_requests_append:
  assumes "booked s" "request_ok r"
  shows "booked (s\<lparr>ve_requests := ve_requests s @ [r]\<rparr>)"
proof -
  let ?s = "s\<lparr>ve_requests := ve_requests s @ [r]\<rparr>"
  have v: "vm_of ?s a = vm_of s a" if "a < length (ve_requests s)" for a
    using that by (simp add: vm_of_def nth_append)
  have e: "entry_ok s e \<Longrightarrow> entry_ok ?s e" for e using v by (simp add: entry_ok_def)
  have l: "snd e < length (ve_requests s)" if "e \<in> set (ve_live s)" for e
    using assms(1) that by (auto simp: booked_with_def list_all_iff entry_ok_def)
  have t: "tenants ?s (ve_live s) j = tenants s (ve_live s) j" for j
    unfolding tenants_def by (rule filter_cong) (use v l in \<open>auto simp: runs_on_def\<close>)
  have u: "used f ?s (ve_live s) j = used f s (ve_live s) j" for f j
    unfolding used_def t by (rule arg_cong [where f = sum_list], rule map_cong)
      (use v l in \<open>auto simp: tenants_def\<close>)
  show ?thesis using assms e by (auto simp: booked_with_def machine_ok_def t u list_all_iff)
qed

lemma push_request_books:
  assumes "push_request c t readings row (b, s) = Inr w'"
    and r: "0 \<le> row_vm_cpu_cores row" "0 \<le> row_vm_memory row"
  shows "(booked s \<longrightarrow> booked (snd w')) \<and> fv_pms (snd w') = fv_pms s"
  using assms(1)
proof (rule push_request_result, goal_cases)
  case (1 price category u vm b')
  from 1(4) have "request_ok \<lparr>rq_vm_info = vm, rq_remaining_buffer_time = vmc_buffer_time_budget c\<rparr>"
    using r by (auto simp: request_ok_def add_utilization_def new_vm_def res_simps)
  with booked_requests_append [of s] 1(5) show ?case by simp
qed

text \<open>The rows of the VM table ask for no negative resources.\<close>

definition rows_ok :: "'r vm_params \<Rightarrow> bool" where
  "rows_ok c \<longleftrightarrow> (\<forall>t r. \<forall>row \<in> set (fst (vp_vm_items c t r)). 0 \<le> row_vm_cpu_cores row \<and> 0 \<le> row_vm_memory row)"

lemma booked_clock [simp]: "booked_with (s\<lparr>ve_tick := t, ve_reader := r\<rparr>) R = booked_with s R"
  "booked_with (s\<lparr>ve_tick := t\<rparr>) R = booked_with s R"
  "booked_with (s\<lparr>ve_reader := r\<rparr>) R = booked_with s R"
  by (rule booked_cong; simp)+

lemma vm_step_books:
  assumes "vm_step c t (b, s) = Inr (b', s')" and b: "booked s" and f: "list_all (fits d) (fv_pms s)"
    and rows: "rows_ok c"
  shows "booked s' \<and> list_all (fits d) (fv_pms s')"
  using assms(1)
proof (rule vm_step_result, goal_cases)
  case (1 readings r1 s1 s2 s3 s4 rows r2)
  have "booked s1 \<and> list_all (fits d) (fv_pms s1)"
    by (rule process_finished_books [OF 1(2)]) (use b f in simp_all)
  moreover have "same_books s1 s4"
    using workload_books [OF 1(3)] pm_workload_books [OF 1(4)] upper_level_books [OF 1(5)] same_books_trans by blast
  ultimately have s4: "booked s4" "list_all (fits d) (fv_pms s4)" using same_books_keep by blast+
  have ok: "0 \<le> row_vm_cpu_cores row \<and> 0 \<le> row_vm_memory row" if "row \<in> set rows" for row
    using rows that 1(6) unfolding rows_ok_def by (metis fst_conv)
  have "case (b', s') of (_, s) \<Rightarrow> booked s \<and> list_all (fits d) (fv_pms s)"
    by (rule foldE_invariant [OF 1(7)]) (use s4 ok push_request_books in \<open>fastforce+\<close>)
  then show ?case by simp
qed

lemma set_update_subset: "set (AList.update k v d) \<subseteq> insert (k, v) (set d)"
  by (induction d) auto

lemma booked_pending:
  assumes "booked_with s R" "list_all (entry_ok s) d"
  shows "booked_with (s\<lparr>ve_pending := d\<rparr>) R"
proof -
  let ?s = "s\<lparr>ve_pending := d\<rparr>"
  have "tenants ?s = tenants s" "entry_ok ?s = entry_ok s"
    by (auto simp: tenants_def runs_on_def vm_of_def entry_ok_def fun_eq_iff)
  moreover from this have "used f ?s = used f s" for f by (simp add: used_def vm_of_def fun_eq_iff)
  ultimately show ?thesis using assms by (simp add: booked_with_def machine_ok_def)
qed

lemma booked_delete:
  "booked_with s R \<Longrightarrow> booked_with (s\<lparr>ve_pending := AList.delete i (ve_pending s)\<rparr>) R"
  by (rule booked_pending) (auto simp: booked_with_def list_all_iff AList.delete_eq)

lemma booked_put_request:
  "a < length (ve_requests s) \<Longrightarrow> rq_vm_info r = rq_vm_info (ve_requests s ! a) \<Longrightarrow>
   booked_with (put_request a r s) R = booked_with s R"
  by (rule booked_cong) (simp_all add: map_update list_update_same_conv)

lemma postpone_books:
  "postpone_vm_request c ty i rem s = Inr (s', es) \<Longrightarrow> (booked s \<longrightarrow> booked s') \<and> fv_pms s' = fv_pms s"
  by (auto simp: postpone_vm_request_def res_simps request_at_result pop_pending_result Let_def
      booked_put_request booked_delete split: if_splits)

lemma on_vm_required_books:
  assumes "on_vm_required c t a s = Inr (s', es)"
  shows "(booked s \<longrightarrow> booked s') \<and> fv_pms s' = fv_pms s"
proof -
  let ?s1 = "s\<lparr>ve_pending := AList.update (vm_id (vm_of s a)) a (ve_pending s)\<rparr>"
  from assms have a: "a < length (ve_requests s)" by (auto simp: on_vm_required_def res_simps request_at_result)
  have "list_all (entry_ok s) (AList.update (vm_id (vm_of s a)) a (ve_pending s))" if "booked s"
    using that a set_update_subset [of "vm_id (vm_of s a)" a "ve_pending s"]
    by (auto simp: booked_with_def list_all_iff entry_ok_def)
  then have b: "booked s \<Longrightarrow> booked ?s1" using booked_pending by simp
  have d: "booked_with (s\<lparr>ve_pending_action_vm_id := i\<rparr>) R = booked_with s R" for i R and s :: "'a vms"
    by (rule booked_cong) simp_all
  from assms consider i where "s' = ?s1\<lparr>ve_pending_action_vm_id := i\<rparr>"
    | "postpone_vm_request c ResourceExhausted (vm_id (vm_of s a)) (rq_remaining_buffer_time (ve_requests s ! a)) ?s1 = Inr (s', es)"
    by (auto simp: on_vm_required_def res_simps request_at_result Let_def vm_of_def split: if_splits)
  then show ?thesis
  proof cases
    case 1
    with b show ?thesis by (simp add: d)
  next
    case 2
    from postpone_books [OF this] b show ?thesis by auto
  qed
qed

lemma valid_pm_fits:
  assumes p: "p \<in> set (get_valid_pms c (vm_cpu_cores_requirement vm) (vm_memory_requirement vm) (vm_category vm) pms)"
    and id: "\<forall>k < length pms. pm_id (pms ! k) = int k" and j: "py_pos (length pms) p = Some j"
    and k: "pm_key pm = occupied_key vm (pms ! j)"
  shows "fits c pm"
proof -
  from p obtain q where q: "q \<in> set pms" "pm_id q = p" and v:
    "if vm_category vm = INTERACTIVE \<or> vm_category vm = UNKNOWN
     then (pm_oversubscribable q = EMPTY \<or> pm_oversubscribable q = NON_OVERSUBSCRIBABLE)
       \<and> pm_cpu_cores_allocated q + vm_cpu_cores_requirement vm \<le> pm_cpu_cores_capacity q
       \<and> pm_memory_allocated q + vm_memory_requirement vm \<le> pm_memory_capacity q
     else (pm_oversubscribable q = EMPTY \<or> pm_oversubscribable q = OVERSUBSCRIBABLE)
       \<and> of_int (pm_cpu_cores_allocated q + vm_cpu_cores_requirement vm)
           \<le> vmc_max_cpu_oversubscription_rate c * of_int (pm_cpu_cores_capacity q)
       \<and> of_int (pm_memory_allocated q + vm_memory_requirement vm)
           \<le> vmc_max_memory_oversubscription_rate c * of_int (pm_memory_capacity q)"
    by (auto simp: get_valid_pms_def valid_non_oversubscribable_pms_def valid_oversubscribable_pms_def split: if_splits)
  from q id obtain k where "k < length pms" "q = pms ! k" "p = int k" by (auto simp: in_set_conv_nth)
  with j have "q = pms ! j" by simp
  with k v show ?thesis
    by (cases "vm_category vm"; cases "pm_oversubscribable q") (auto simp: fits_def pm_key_def occupied_key_def)
qed

lemma allocate_fits:
  assumes al: "allocate_vm c t i p s = Inr s'" and b: "booked s" and f: "list_all (fits d) (fv_pms s)"
    and a: "map_of (ve_pending s) i = Some a"
    and p: "p \<in> set (get_valid_pms d (vm_cpu_cores_requirement (vm_of s a)) (vm_memory_requirement (vm_of s a))
                    (vm_category (vm_of s a)) (fv_pms s))"
  shows "list_all (fits d) (fv_pms s')"
  using al
proof (rule allocate_vm_result, goal_cases)
  case (1 a' tick vm j pm1 pm2)
  from 1(1) a have "a' = a" by simp
  with start_vm_key [OF 1(4)] have key: "vm_cpu_cores_requirement vm = vm_cpu_cores_requirement (vm_of s a)"
    "vm_memory_requirement vm = vm_memory_requirement (vm_of s a)" "vm_category vm = vm_category (vm_of s a)"
    by (simp_all add: vm_of_def)
  have "pm_key pm2 = occupied_key vm (fv_pms s ! j)"
    using 1(6,7) by (simp add: set_energy_key update_cpu_utilization_key occupy_key)
  moreover have "\<forall>k < length (fv_pms s). pm_id (fv_pms s ! k) = int k"
    using b by (simp add: booked_with_def machine_ok_def Let_def)
  ultimately have "fits d pm2" using valid_pm_fits [of p d vm "fv_pms s" j pm2] p 1(5) by (simp add: key)
  with f 1(8) show ?case by (simp add: list_all_update)
qed

section \<open>Whole runs\<close>

definition is_allocation :: "vm_action py_action \<Rightarrow> bool" where
  "is_allocation x = (case x of OneAction (AllocateAction i p) \<Rightarrow> True | _ \<Rightarrow> False)"

text \<open>
  The engine driven by an agent that allocates a VM only while it is not running and only to a machine
  that is valid for it; everything else the engine or the agent does is unrestricted.
\<close>

inductive vm_trans :: "'r vm_params \<Rightarrow> 'r vms \<Rightarrow> 'r vms \<Rightarrow> bool" for c where
  tick: "vm_step c t (b, s) = Inr (b', s') \<Longrightarrow> vm_trans c s s'"
| require: "on_vm_required (vp_conf c) t a s = Inr (s', es) \<Longrightarrow> vm_trans c s s'"
| allocate: "on_vm_action_received c t [OneAction (AllocateAction i p)] s = Inr (s', es) \<Longrightarrow>
    \<not> dict_mem i (ve_live s) \<Longrightarrow> map_of (ve_pending s) i = Some a \<Longrightarrow>
    p \<in> set (get_valid_pms (vp_conf c) (vm_cpu_cores_requirement (vm_of s a)) (vm_memory_requirement (vm_of s a))
          (vm_category (vm_of s a)) (fv_pms s)) \<Longrightarrow> vm_trans c s s'"
| answer: "on_vm_action_received c t acts s = Inr (s', es) \<Longrightarrow> \<not> list_ex is_allocation acts \<Longrightarrow> vm_trans c s s'"
| end_tick: "vm_post_step (vp_conf c) t s = Inr (s', e) \<Longrightarrow> vm_trans c s s'"
| snapshot: "vm_trans c s (vm_take_snapshot fi s)"

lemma apply_other_books:
  assumes "apply_vm_action c t act s = Inr (s', es)" "\<not> is_allocation (OneAction act)"
  shows "(booked s \<longrightarrow> booked s') \<and> fv_pms s' = fv_pms s"
  using assms by (cases act) (auto simp: apply_vm_action_def res_simps is_allocation_def split: if_splits dest: postpone_books)

lemma apply_others_books:
  "apply_vm_actions c t acts s = Inr (s', es) \<Longrightarrow> \<not> list_ex is_allocation acts \<Longrightarrow>
   (booked s \<longrightarrow> booked s') \<and> fv_pms s' = fv_pms s"
proof (induction acts arbitrary: s es)
  case (Cons x acts)
  then obtain a s1 es1 es2 where "x = OneAction a" "apply_vm_action c t a s = Inr (s1, es1)"
    "apply_vm_actions c t acts s1 = Inr (s', es2)" by (cases x) (auto simp: res_simps)
  with Cons.IH [of s1 es2] apply_other_books [of c t a s s1 es1] Cons.prems(2) show ?case by auto
qed simp

lemma answer_books:
  assumes "on_vm_action_received c t acts s = Inr (s', es)" "\<not> list_ex is_allocation acts"
  shows "(booked s \<longrightarrow> booked s') \<and> fv_pms s' = fv_pms s"
  using assms by (auto simp: on_vm_action_received_def res_simps pop_pending_result booked_delete split: if_splits
      dest: apply_others_books)

lemma post_pm_books:
  assumes "post_pm c t j (s, e, k) = Inr (s', e', k')" "\<not> vmc_kill_all_vms_if_overload c"
  shows "same_books s s'"
  using assms by (auto simp: post_pm_def overload_def Let_def res_simps split: if_splits)

lemma snapshot_books [simp]: "same_books s (vm_take_snapshot fi s') = same_books s s'"
  by (simp add: vm_take_snapshot_def same_books_def)

lemma vm_post_step_books:
  assumes "vm_post_step c t s = Inr (s', e)" "\<not> vmc_kill_all_vms_if_overload c"
  shows "same_books s s'"
proof -
  from assms(1) obtain s1 en co where f: "foldE (post_pm c t) [0..<length (fv_pms s)] (s, 0, 0) = Inr (s1, en, co)"
    and s': "same_books s s1 \<Longrightarrow> same_books s s'"
    by (auto simp: vm_post_step_def update_incomes_def update_profit_def res_simps Let_def split: if_splits)
  have "same_books s (fst (s1, en, co))"
    by (rule foldE_invariant [OF f]) (use assms(2) post_pm_books same_books_trans in \<open>fastforce+\<close>)
  with s' show ?thesis by simp
qed

lemma vm_trans_books:
  assumes "vm_trans c s s'" "\<not> vmc_kill_all_vms_if_overload (vp_conf c)" "rows_ok c"
    and b: "booked s" "list_all (fits (vp_conf c)) (fv_pms s)"
  shows "booked s' \<and> list_all (fits (vp_conf c)) (fv_pms s')"
  using assms(1)
proof cases
  case (tick t b0 b')
  from vm_step_books [OF this b assms(3)] show ?thesis .
next
  case (require t a es)
  from on_vm_required_books [OF this] b show ?thesis by simp
next
  case (allocate t i p es a)
  from allocate(1) have al: "allocate_vm c t i p s = Inr s'"
    by (auto simp: on_vm_action_received_def apply_vm_action_def res_simps split: if_splits)
  from allocate_books [OF al b(1) allocate(2)] allocate_fits [OF al b allocate(3,4)] show ?thesis by simp
next
  case (answer t acts es)
  from answer_books [OF this] b show ?thesis by simp
next
  case (end_tick t e)
  from vm_post_step_books [OF this assms(2)] b show ?thesis by (simp add: same_books_keep)
next
  case (snapshot fi)
  have "same_books s s'" by (simp add: snapshot)
  with b show ?thesis by (simp add: same_books_keep)
qed

lemma vm_run_books:
  assumes "(vm_trans c)\<^sup>*\<^sup>* s s'" "\<not> vmc_kill_all_vms_if_overload (vp_conf c)" "rows_ok c"
    and "booked s" "list_all (fits (vp_conf c)) (fv_pms s)"
  shows "booked s' \<and> list_all (fits (vp_conf c)) (fv_pms s')"
  using assms(1)
proof (induction rule: rtranclp_induct)
  case (step y z)
  from vm_trans_books [OF step.hyps(2) assms(2,3)] step.IH show ?case by blast
qed (use assms in simp)

end
