(* ===== verification/VmStructure.thy ===== *)
theory VmStructure imports VmAlloc begin

text \<open>
  The initialisation of the data center structure: the amounts computed from the topology file are
  exactly the numbers of nodes the nested initialisation visits, so no index runs past the frame and
  every machine is set up, with its position as its id.

  What a part of the configuration needs is a multiset of levels; \<open>made\<close> counts the nodes set up so far
  and \<open>slots\<close> those the frame has.
\<close>

section \<open>Needs\<close>

datatype level = RegionL | ZoneL | DataCenterL | ClusterL | RackL | MachineL

definition made :: "vm_topology \<Rightarrow> level multiset" where
  "made s = replicate_mset (nat (tp_region_id s)) RegionL + replicate_mset (nat (tp_zone_id s)) ZoneL
     + replicate_mset (nat (tp_data_center_id s)) DataCenterL + replicate_mset (nat (tp_cluster_id s)) ClusterL
     + replicate_mset (nat (tp_rack_id s)) RackL + replicate_mset (nat (tp_pm_id s)) MachineL"

definition slots :: "'a vm_frame_scheme \<Rightarrow> level multiset" where
  "slots s = replicate_mset (length (fv_regions s)) RegionL + replicate_mset (length (fv_zones s)) ZoneL
     + replicate_mset (length (fv_data_centers s)) DataCenterL + replicate_mset (length (fv_clusters s)) ClusterL
     + replicate_mset (length (fv_racks s)) RackL + replicate_mset (length (fv_pms s)) MachineL"

definition need_list :: "('k \<Rightarrow> level multiset) \<Rightarrow> ('k \<times> int) list \<Rightarrow> level multiset" where
  "need_list w items = sum_list (map (\<lambda>(k, n). repeat_mset (nat n) (w k)) items)"

definition parts_of :: "('k \<times> ('p \<times> int) list) list \<Rightarrow> 'k \<Rightarrow> ('p \<times> int) list" where
  "parts_of items k = (case map_of items k of None \<Rightarrow> [] | Some parts \<Rightarrow> parts)"

definition rack_need :: "vm_components \<Rightarrow> string \<Rightarrow> level multiset" where
  "rack_need p ty = add_mset RackL (need_list (\<lambda>_. {#MachineL#}) (parts_of (cmp_rack p) ty))"

definition cluster_need :: "vm_components \<Rightarrow> string \<Rightarrow> level multiset" where
  "cluster_need p ty = add_mset ClusterL (need_list (rack_need p) (parts_of (cmp_cluster p) ty))"

definition data_center_need :: "vm_components \<Rightarrow> dc_conf \<Rightarrow> level multiset" where
  "data_center_need p d = add_mset DataCenterL (need_list (cluster_need p) (dcc_cluster d))"

definition zone_need :: "vm_components \<Rightarrow> zone_conf \<Rightarrow> level multiset" where
  "zone_need p z = add_mset ZoneL (sum_list (map (data_center_need p) (znc_data_center z)))"

definition region_need :: "vm_components \<Rightarrow> region_conf \<Rightarrow> level multiset" where
  "region_need p r = add_mset RegionL (sum_list (map (zone_need p) (rgc_zone r)))"

text \<open>A well-formed configuration: types are listed once, every type that is listed is used and every
  type that is used is listed, and no amount is negative.\<close>

definition parts_ok :: "('k \<times> ('p \<times> int) list) list \<Rightarrow> bool" where
  "parts_ok items \<longleftrightarrow> distinct (map fst items) \<and>
     (\<forall>(k, parts) \<in> set items. distinct (map fst parts) \<and> (\<forall>(p, n) \<in> set parts. 0 \<le> n))"

definition topology_ok :: "vm_conf \<Rightarrow> bool" where
  "topology_ok c \<longleftrightarrow> (let p = vmc_components c; used_clusters = all_clusters (vmc_architecture c) in
     parts_ok (cmp_rack p) \<and> parts_ok (cmp_cluster p) \<and> (\<forall>(ty, n) \<in> set used_clusters. 0 \<le> n) \<and>
     fst ` set used_clusters = fst ` set (cmp_cluster p) \<and>
     (\<Union>(ty, racks) \<in> set (cmp_cluster p). fst ` set racks) = fst ` set (cmp_rack p) \<and>
     (\<forall>(ty, pms) \<in> set (cmp_rack p). \<forall>(pm, n) \<in> set pms. 0 \<le> pm \<and> pm < int (length (cmp_pm p))) \<and>
     vmc_ticks_per_hour c \<noteq> 0)"

section \<open>Loops that set up nodes\<close>

locale builder =
  fixes f :: "'k \<Rightarrow> vm_topology \<Rightarrow> vm_topology res"
    and need :: "'k \<Rightarrow> level multiset"
    and valid :: "'k \<Rightarrow> bool"
    and good :: "vm_topology \<Rightarrow> bool"
  assumes builds: "good s \<Longrightarrow> valid k \<Longrightarrow> made s + need k \<subseteq># slots s \<Longrightarrow>
    \<exists>s'. f k s = Inr s' \<and> good s' \<and> made s' = made s + need k \<and> slots s' = slots s"
begin

lemma repeats:
  "good s \<Longrightarrow> valid k \<Longrightarrow> made s + repeat_mset n (need k) \<subseteq># slots s \<Longrightarrow>
   \<exists>s'. repeatE n (f k) s = Inr s' \<and> good s' \<and> made s' = made s + repeat_mset n (need k) \<and> slots s' = slots s"
proof (induction n arbitrary: s)
  case (Suc n)
  have "made s + need k \<subseteq># slots s"
    by (rule subset_mset.trans [OF _ Suc.prems(3)]) simp
  from builds [OF Suc.prems(1,2) this] obtain s1 where
    s1: "f k s = Inr s1" "good s1" "made s1 = made s + need k" "slots s1 = slots s" by auto
  with Suc.prems(3) have "made s1 + repeat_mset n (need k) \<subseteq># slots s1" by (simp add: add.assoc)
  from Suc.IH [OF s1(2) Suc.prems(2) this] s1 show ?case by (auto simp: add.assoc)
qed simp

lemma each:
  "good s \<Longrightarrow> \<forall>k \<in> fst ` set items. valid k \<Longrightarrow> made s + need_list need items \<subseteq># slots s \<Longrightarrow>
   \<exists>s'. each_amount f items s = Inr s' \<and> good s' \<and> made s' = made s + need_list need items \<and> slots s' = slots s"
proof (induction items arbitrary: s)
  case (Cons x items)
  obtain k n where x: "x = (k, n)" by force
  have "made s + repeat_mset (nat n) (need k) \<subseteq># slots s"
    by (rule subset_mset.trans [OF _ Cons.prems(3)]) (simp add: need_list_def x)
  from repeats [OF Cons.prems(1) _ this] Cons.prems(2) obtain s1 where
    s1: "repeatE (nat n) (f k) s = Inr s1" "good s1" "made s1 = made s + repeat_mset (nat n) (need k)"
      "slots s1 = slots s" by (auto simp: x)
  with Cons.prems(3) have "made s1 + need_list need items \<subseteq># slots s1" by (simp add: need_list_def x add.assoc)
  from Cons.IH [OF s1(2) _ this] Cons.prems(2) s1 show ?case by (auto simp: each_amount_def need_list_def x add.assoc)
qed (simp add: each_amount_def need_list_def)

lemma all:
  "good s \<Longrightarrow> \<forall>k \<in> set ks. valid k \<Longrightarrow> made s + sum_list (map need ks) \<subseteq># slots s \<Longrightarrow>
   \<exists>s'. foldE f ks s = Inr s' \<and> good s' \<and> made s' = made s + sum_list (map need ks) \<and> slots s' = slots s"
proof (induction ks arbitrary: s)
  case (Cons k ks)
  have "made s + need k \<subseteq># slots s"
    by (rule subset_mset.trans [OF _ Cons.prems(3)]) simp
  from builds [OF Cons.prems(1) _ this] Cons.prems(2) obtain s1 where
    s1: "f k s = Inr s1" "good s1" "made s1 = made s + need k" "slots s1 = slots s" by auto
  with Cons.prems(3) have "made s1 + sum_list (map need ks) \<subseteq># slots s1" by (simp add: add.assoc)
  from Cons.IH [OF s1(2) _ this] Cons.prems(2) s1 show ?case by (auto simp: add.assoc)
qed simp

end

text \<open>The nodes below the running id of their level are set up: a reset would leave them as they are.\<close>

definition fresh_machine :: "nat \<Rightarrow> machine \<Rightarrow> bool" where
  "fresh_machine j pm \<longleftrightarrow> pm_id pm = int j \<and> pm_live_vms pm = [] \<and> pm_cpu_cores_allocated pm = 0 \<and>
     pm_memory_allocated pm = 0 \<and> pm_oversubscribable pm = EMPTY \<and> pm_reset pm = Inr pm"

definition group_settled :: "'i group_node \<Rightarrow> bool" where
  "group_settled n \<longleftrightarrow> group_reset n = n"

definition below :: "(nat \<Rightarrow> 'n \<Rightarrow> bool) \<Rightarrow> int \<Rightarrow> 'n list \<Rightarrow> bool" where
  "below P i ns \<longleftrightarrow> 0 \<le> i \<and> (\<forall>j < min (nat i) (length ns). P j (ns ! j))"

abbreviation settled :: "int \<Rightarrow> 'i group_node list \<Rightarrow> bool" where
  "settled \<equiv> below (\<lambda>_. group_settled)"

definition built :: "vm_topology \<Rightarrow> bool" where
  "built s \<longleftrightarrow> below fresh_machine (tp_pm_id s) (fv_pms s) \<and> settled (tp_rack_id s) (fv_racks s) \<and>
     settled (tp_cluster_id s) (fv_clusters s) \<and> settled (tp_data_center_id s) (fv_data_centers s) \<and>
     settled (tp_zone_id s) (fv_zones s) \<and> settled (tp_region_id s) (fv_regions s)"

text \<open>The member lists of the nodes set up so far put the ids of the level below in a row.\<close>

definition tiled :: "int \<Rightarrow> 'i group_node list \<Rightarrow> int \<Rightarrow> bool" where
  "tiled i ns k \<longleftrightarrow> concat (map gn_members (take (nat i) ns)) = [0..k - 1]"

definition tiled1 :: "vm_topology \<Rightarrow> bool" where
  "tiled1 s \<longleftrightarrow> tiled (tp_rack_id s) (fv_racks s) (tp_pm_id s)"

definition tiled2 :: "vm_topology \<Rightarrow> bool" where
  "tiled2 s \<longleftrightarrow> tiled1 s \<and> tiled (tp_cluster_id s) (fv_clusters s) (tp_rack_id s)"

definition tiled3 :: "vm_topology \<Rightarrow> bool" where
  "tiled3 s \<longleftrightarrow> tiled2 s \<and> tiled (tp_data_center_id s) (fv_data_centers s) (tp_cluster_id s)"

definition tiled4 :: "vm_topology \<Rightarrow> bool" where
  "tiled4 s \<longleftrightarrow> tiled3 s \<and> tiled (tp_zone_id s) (fv_zones s) (tp_data_center_id s)"

definition tiled5 :: "vm_topology \<Rightarrow> bool" where
  "tiled5 s \<longleftrightarrow> tiled4 s \<and> tiled (tp_region_id s) (fv_regions s) (tp_zone_id s)"

text \<open>What the initialisation of a level leaves alone: the levels above it.\<close>

definition above4 :: "vm_topology \<Rightarrow> region list \<times> int" where
  "above4 s = (fv_regions s, tp_region_id s)"

definition above3 :: "vm_topology \<Rightarrow> zone list \<times> int \<times> region list \<times> int" where
  "above3 s = (fv_zones s, tp_zone_id s, above4 s)"

definition above2 :: "vm_topology \<Rightarrow> data_center list \<times> int \<times> zone list \<times> int \<times> region list \<times> int" where
  "above2 s = (fv_data_centers s, tp_data_center_id s, above3 s)"

definition above1 where
  "above1 s = (fv_clusters s, tp_cluster_id s, above2 s)"

definition above0 where
  "above0 s = (fv_racks s, tp_rack_id s, above1 s)"

lemmas above_defs = above0_def above1_def above2_def above3_def above4_def

lemmas tiled_defs = tiled1_def tiled2_def tiled3_def tiled4_def tiled5_def

lemma below_nonneg [simp]: "below P i ns \<Longrightarrow> 0 \<le> i"
  by (simp add: below_def)

lemma nat_next: "0 \<le> i \<Longrightarrow> nat (i + 1) = Suc (nat i)"
  by (simp add: nat_add_distrib)

lemma below_next:
  "below P i ns \<Longrightarrow> nat i < length ns \<Longrightarrow> P (nat i) n \<Longrightarrow> below P (i + 1) (ns[nat i := n])"
  by (auto simp: below_def nat_next nth_list_update less_Suc_eq)

lemma tiled_next:
  assumes t: "tiled i ns a" and i: "0 \<le> i" "nat i < length ns" and n: "gn_members n = [a..b - 1]" "0 \<le> a" "a \<le> b"
  shows "tiled (i + 1) (ns[nat i := n]) b"
proof -
  have "[0..b - 1] = [0..a - 1] @ [a..b - 1]"
    using n(2,3) by (cases "a = b") (simp_all add: upto_split1 [of 0 a "b - 1"])
  moreover have "take (Suc (nat i)) (ns[nat i := n]) = take (nat i) ns @ [n]"
    using i(2) by (simp add: take_Suc_conv_app_nth)
  ultimately show ?thesis using t n(1) i(1) by (simp add: tiled_def nat_next)
qed

lemma settled_init [simp]:
  "group_settled (group_set_init_state ids n)" "gn_members (group_set_init_state ids n) = gn_members n"
  by (simp_all add: group_settled_def group_set_init_state_def group_reset_def)

lemma built_counters:
  assumes "built s"
  shows "0 \<le> tp_pm_id s" "0 \<le> tp_rack_id s" "0 \<le> tp_cluster_id s" "0 \<le> tp_data_center_id s" "0 \<le> tp_zone_id s"
    "0 \<le> tp_region_id s"
  using assms by (auto simp: built_def)

lemma made_count [simp]:
  "count (made s) RegionL = nat (tp_region_id s)" "count (made s) ZoneL = nat (tp_zone_id s)"
  "count (made s) DataCenterL = nat (tp_data_center_id s)" "count (made s) ClusterL = nat (tp_cluster_id s)"
  "count (made s) RackL = nat (tp_rack_id s)" "count (made s) MachineL = nat (tp_pm_id s)"
  by (simp_all add: made_def)

lemma slots_count [simp]:
  "count (slots s) RegionL = length (fv_regions s)" "count (slots s) ZoneL = length (fv_zones s)"
  "count (slots s) DataCenterL = length (fv_data_centers s)" "count (slots s) ClusterL = length (fv_clusters s)"
  "count (slots s) RackL = length (fv_racks s)" "count (slots s) MachineL = length (fv_pms s)"
  by (simp_all add: slots_def)

lemma all_level: "(\<forall>l. P l) \<longleftrightarrow> P RegionL \<and> P ZoneL \<and> P DataCenterL \<and> P ClusterL \<and> P RackL \<and> P MachineL"
proof
  assume *: "P RegionL \<and> P ZoneL \<and> P DataCenterL \<and> P ClusterL \<and> P RackL \<and> P MachineL"
  show "\<forall>l. P l"
  proof
    fix l show "P l" using * by (cases l) simp_all
  qed
qed simp

lemma level_counts: "m \<subseteq># slots s \<longleftrightarrow>
   count m RegionL \<le> length (fv_regions s) \<and> count m ZoneL \<le> length (fv_zones s) \<and>
   count m DataCenterL \<le> length (fv_data_centers s) \<and> count m ClusterL \<le> length (fv_clusters s) \<and>
   count m RackL \<le> length (fv_racks s) \<and> count m MachineL \<le> length (fv_pms s)"
  by (simp add: subseteq_mset_def all_level)

lemma made_mono:
  assumes "made s' = made s + m" "built s" "built s'"
  shows "tp_pm_id s \<le> tp_pm_id s'" "tp_rack_id s \<le> tp_rack_id s'" "tp_cluster_id s \<le> tp_cluster_id s'"
    "tp_data_center_id s \<le> tp_data_center_id s'" "tp_zone_id s \<le> tp_zone_id s'"
proof -
  have c: "count (made s) l \<le> count (made s') l" for l using assms(1) by simp
  show "tp_pm_id s \<le> tp_pm_id s'" "tp_rack_id s \<le> tp_rack_id s'" "tp_cluster_id s \<le> tp_cluster_id s'"
    "tp_data_center_id s \<le> tp_data_center_id s'" "tp_zone_id s \<le> tp_zone_id s'"
    using c [of MachineL] c [of RackL] c [of ClusterL] c [of DataCenterL] c [of ZoneL]
      built_counters [OF assms(2)] built_counters [OF assms(3)] by (simp_all add: nat_le_iff)
qed

lemma node_at_total: "0 \<le> i \<Longrightarrow> nat i < length xs \<Longrightarrow> node_at xs i = Inr (nat i, xs ! nat i)"
  by (simp add: node_at_def py_pos_def)

lemma sum_members_total:
  "(\<And>i. i \<in> set ms \<Longrightarrow> 0 \<le> i \<and> i < int (length nodes)) \<Longrightarrow>
   sum_members f nodes ms = Inr (sum_list (map (\<lambda>i. f (nodes ! nat i)) ms))"
  unfolding sum_members_def
  by (subst mapE_Inr_map [where g = "\<lambda>i. f (nodes ! nat i)"])
     (simp_all add: py_get_nonneg)

definition pm_type_ok :: "vm_conf \<Rightarrow> int \<Rightarrow> bool" where
  "pm_type_ok c ty \<longleftrightarrow> 0 \<le> ty \<and> ty < int (length (cmp_pm (vmc_components c))) \<and> vmc_ticks_per_hour c \<noteq> 0"

lemma init_pm_builds:
  assumes "built s \<and> above0 s = K" "pm_type_ok c ty" "made s + {#MachineL#} \<subseteq># slots s"
  shows "\<exists>s'. init_pm pw c ty s = Inr s' \<and> (built s' \<and> above0 s' = K) \<and> made s' = made s + {#MachineL#} \<and> slots s' = slots s"
proof -
  have j: "0 \<le> tp_pm_id s" "nat (tp_pm_id s) < length (fv_pms s)"
    using assms(1,3) built_counters by (auto simp: level_counts)
  obtain idle where idle: "energy_consumption pw c (cmp_pm (vmc_components c) ! nat ty) 0 = Inr idle"
    using assms(2) by (auto simp: energy_consumption_def pm_type_ok_def Let_def)
  have c: "pm_config c ty = Inr (cmp_pm (vmc_components c) ! nat ty)"
    using assms(2) by (simp add: pm_config_def pm_type_ok_def)
  show ?thesis using assms(1) j
    by (auto simp: init_pm_def node_at_total c idle pm_set_init_state_def pm_reset_def made_def slots_def built_def
        fresh_machine_def nat_next above_defs intro!: below_next)
qed

interpretation machines: builder "init_pm pw c" "\<lambda>_. {#MachineL#}" "pm_type_ok c" "\<lambda>s. built s \<and> above0 s = K"
  for pw c K
  by unfold_locales (rule init_pm_builds)

text \<open>Reading the lists of types into dictionaries changes nothing when no type is listed twice.\<close>

lemma fold_update:
  "distinct (map fst (d @ items)) \<Longrightarrow> fold (\<lambda>(k, v). AList.update k v) items d = d @ items"
proof (induction items arbitrary: d)
  case (Cons x items)
  obtain k v where x: "x = (k, v)" by force
  with Cons.prems have "\<not> dict_mem k d" by (auto simp: dict_mem_def)
  then have "AList.update k v d = d @ [x]" by (simp add: update_new x)
  with Cons.IH [of "d @ [x]"] Cons.prems show ?case by (simp add: x)
qed simp

lemma parts_dict_id:
  assumes "parts_ok items"
  shows "parts_dict items = items"
proof -
  have "fold (\<lambda>(part, n). AList.update part n) parts [] = parts" if "(ty, parts) \<in> set items" for ty parts
    using fold_update [of "[]" parts] assms that by (auto simp: parts_ok_def)
  then have "parts_dict items = fold (\<lambda>(ty, parts). AList.update ty parts) items []"
    unfolding parts_dict_def by (intro fold_cong) auto
  also have "\<dots> = items" using fold_update [of "[]" items] assms by (simp add: parts_ok_def)
  finally show ?thesis .
qed

lemma parts_of_dict: "map_of items k = Some parts \<Longrightarrow> parts_of items k = parts"
  by (simp add: parts_of_def)

definition listed :: "('p \<Rightarrow> bool) \<Rightarrow> ('k \<times> ('p \<times> int) list) list \<Rightarrow> 'k \<Rightarrow> bool" where
  "listed valid items k \<longleftrightarrow> parts_ok items \<and> k \<in> fst ` set items \<and> (\<forall>p \<in> fst ` set (parts_of items k). valid p)"

lemma listed_get:
  assumes "listed valid items k"
  shows "dict_get (parts_dict items) k = Inr (parts_of items k)" "\<forall>p \<in> fst ` set (parts_of items k). valid p"
proof -
  from assms obtain parts where "map_of items k = Some parts"
    by (auto simp: listed_def dest!: weak_map_of_SomeI)
  with assms show "dict_get (parts_dict items) k = Inr (parts_of items k)"
    by (simp add: dict_get_def parts_dict_id listed_def parts_of_dict)
  from assms show "\<forall>p \<in> fst ` set (parts_of items k). valid p" by (simp add: listed_def)
qed

lemma add_mset_split:
  assumes "made s + add_mset l m \<subseteq># slots s"
  shows "made s + m \<subseteq># slots s"
  using assms by (rule subset_mset.trans [rotated]) simp

abbreviation rack_ok :: "vm_conf \<Rightarrow> string \<Rightarrow> bool" where
  "rack_ok c \<equiv> listed (pm_type_ok c) (cmp_rack (vmc_components c))"

lemma init_rack_builds:
  assumes g: "built s \<and> tiled1 s \<and> above1 s = K" and v: "rack_ok c ty"
    and m: "made s + rack_need (vmc_components c) ty \<subseteq># slots s"
  shows "\<exists>s'. init_rack pw c ty s = Inr s' \<and> (built s' \<and> tiled1 s' \<and> above1 s' = K)
    \<and> made s' = made s + rack_need (vmc_components c) ty \<and> slots s' = slots s"
proof -
  from g have g0: "built s \<and> above0 s = above0 s" by (simp add: tiled_defs)
  from machines.each [OF g0 listed_get(2) [OF v] add_mset_split [OF m [unfolded rack_need_def]], of pw]
  obtain s1 where s1: "init_pms pw c (parts_of (cmp_rack (vmc_components c)) ty) s = Inr s1" "built s1" "slots s1 = slots s" "above0 s1 = above0 s"
    "made s1 = made s + need_list (\<lambda>_. {#MachineL#}) (parts_of (cmp_rack (vmc_components c)) ty)"
    by (auto simp: init_pms_def)
  from s1(3,5) m have m1: "add_mset RackL (made s1) \<subseteq># slots s1" by (simp add: rack_need_def)
  with s1(2) have j: "0 \<le> tp_rack_id s1" "nat (tp_rack_id s1) < length (fv_racks s1)"
    "tp_pm_id s1 \<le> int (length (fv_pms s1))" using built_counters [of s1] by (auto simp: level_counts)
  have t: "tiled (tp_rack_id s1) (fv_racks s1) (tp_pm_id s)"
    using g s1(4) by (simp add: tiled_defs above_defs)
  note mono = built_counters [of s] made_mono [OF s1(5)]
  have b: "built (s1\<lparr>fv_racks := (fv_racks s1)[nat (tp_rack_id s1) := n], tp_rack_id := tp_rack_id s1 + 1\<rparr>)"
    if "group_settled n" for n using s1(2) j that by (auto simp: built_def intro!: below_next)
  have u: "tiled (tp_rack_id s1 + 1) ((fv_racks s1)[nat (tp_rack_id s1) := n]) (tp_pm_id s1)"
    if "gn_members n = [tp_pm_id s..tp_pm_id s1 - 1]" for n
    using tiled_next [OF t j(1,2) that] mono g s1(2) by simp
  from s1 j g b u show ?thesis
    by (auto simp: init_rack_def listed_get(1) [OF v] node_at_total Let_def made_def slots_def rack_need_def nat_next rack_set_init_state_def
        tiled_defs above_defs)
qed

interpretation racks: builder "init_rack pw c" "rack_need (vmc_components c)" "rack_ok c"
  "\<lambda>s. built s \<and> tiled1 s \<and> above1 s = K" for pw c K
  by unfold_locales (rule init_rack_builds)

abbreviation cluster_ok :: "vm_conf \<Rightarrow> string \<Rightarrow> bool" where
  "cluster_ok c \<equiv> listed (rack_ok c) (cmp_cluster (vmc_components c))"

lemma init_cluster_builds:
  assumes g: "built s \<and> tiled2 s \<and> above2 s = K" and v: "cluster_ok c ty"
    and m: "made s + cluster_need (vmc_components c) ty \<subseteq># slots s"
  shows "\<exists>s'. init_cluster pw c ty s = Inr s' \<and> (built s' \<and> tiled2 s' \<and> above2 s' = K)
    \<and> made s' = made s + cluster_need (vmc_components c) ty \<and> slots s' = slots s"
proof -
  from g have g0: "built s \<and> tiled1 s \<and> above1 s = above1 s" by (simp add: tiled_defs)
  from racks.each [OF g0 listed_get(2) [OF v] add_mset_split [OF m [unfolded cluster_need_def]], of pw]
  obtain s1 where s1: "init_racks pw c (parts_of (cmp_cluster (vmc_components c)) ty) s = Inr s1" "built s1" "slots s1 = slots s" "above1 s1 = above1 s"
    "made s1 = made s + need_list (rack_need (vmc_components c)) (parts_of (cmp_cluster (vmc_components c)) ty)" "tiled1 s1"
    by (auto simp: init_racks_def)
  from s1(3,5) m have m1: "add_mset ClusterL (made s1) \<subseteq># slots s1" by (simp add: cluster_need_def)
  with s1(2) have j: "0 \<le> tp_cluster_id s1" "nat (tp_cluster_id s1) < length (fv_clusters s1)"
    "tp_rack_id s1 \<le> int (length (fv_racks s1))" using built_counters [of s1] by (auto simp: level_counts)
  have t: "tiled (tp_cluster_id s1) (fv_clusters s1) (tp_rack_id s)"
    using g s1(4) by (simp add: tiled_defs above_defs)
  have sm: "sum_members gn_total_machine_num (fv_racks s1) [tp_rack_id s..tp_rack_id s1 - 1] =
      Inr (sum_list (map (\<lambda>i. gn_total_machine_num (fv_racks s1 ! nat i)) [tp_rack_id s..tp_rack_id s1 - 1]))"
    by (rule sum_members_total) (use g built_counters [of s] j(3) in auto)
  note mono = built_counters [of s] made_mono [OF s1(5)]
  have b: "built (s1\<lparr>fv_clusters := (fv_clusters s1)[nat (tp_cluster_id s1) := n], tp_cluster_id := tp_cluster_id s1 + 1\<rparr>)"
    if "group_settled n" for n using s1(2) j that by (auto simp: built_def intro!: below_next)
  have u: "tiled (tp_cluster_id s1 + 1) ((fv_clusters s1)[nat (tp_cluster_id s1) := n]) (tp_rack_id s1)"
    if "gn_members n = [tp_rack_id s..tp_rack_id s1 - 1]" for n
    using tiled_next [OF t j(1,2) that] mono g s1(2) by simp
  from s1 j g b u show ?thesis
    by (auto simp: init_cluster_def listed_get(1) [OF v] node_at_total sm Let_def made_def slots_def cluster_need_def nat_next cluster_set_init_state_def
        tiled_defs above_defs)
qed

interpretation clusters: builder "init_cluster pw c" "cluster_need (vmc_components c)" "cluster_ok c"
  "\<lambda>s. built s \<and> tiled2 s \<and> above2 s = K" for pw c K
  by unfold_locales (rule init_cluster_builds)

abbreviation data_center_ok :: "vm_conf \<Rightarrow> dc_conf \<Rightarrow> bool" where
  "data_center_ok c d \<equiv> \<forall>ty \<in> fst ` set (dcc_cluster d). cluster_ok c ty"

lemma init_data_center_builds:
  assumes g: "built s \<and> tiled3 s \<and> above3 s = K" and v: "data_center_ok c d"
    and m: "made s + data_center_need (vmc_components c) d \<subseteq># slots s"
  shows "\<exists>s'. init_data_center pw c d s = Inr s' \<and> (built s' \<and> tiled3 s' \<and> above3 s' = K)
    \<and> made s' = made s + data_center_need (vmc_components c) d \<and> slots s' = slots s"
proof -
  from g have g0: "built s \<and> tiled2 s \<and> above2 s = above2 s" by (simp add: tiled_defs)
  from clusters.each [OF g0 v add_mset_split [OF m [unfolded data_center_need_def]], of pw]
  obtain s1 where s1: "init_clusters pw c (dcc_cluster d) s = Inr s1" "built s1" "slots s1 = slots s" "above2 s1 = above2 s"
    "made s1 = made s + need_list (cluster_need (vmc_components c)) (dcc_cluster d)" "tiled2 s1"
    by (auto simp: init_clusters_def)
  from s1(3,5) m have m1: "add_mset DataCenterL (made s1) \<subseteq># slots s1" by (simp add: data_center_need_def)
  with s1(2) have j: "0 \<le> tp_data_center_id s1" "nat (tp_data_center_id s1) < length (fv_data_centers s1)"
    "tp_cluster_id s1 \<le> int (length (fv_clusters s1))" using built_counters [of s1] by (auto simp: level_counts)
  have t: "tiled (tp_data_center_id s1) (fv_data_centers s1) (tp_cluster_id s)"
    using g s1(4) by (simp add: tiled_defs above_defs)
  have sm: "sum_members gn_total_machine_num (fv_clusters s1) [tp_cluster_id s..tp_cluster_id s1 - 1] =
      Inr (sum_list (map (\<lambda>i. gn_total_machine_num (fv_clusters s1 ! nat i)) [tp_cluster_id s..tp_cluster_id s1 - 1]))"
    by (rule sum_members_total) (use g built_counters [of s] j(3) in auto)
  note mono = built_counters [of s] made_mono [OF s1(5)]
  have b: "built (s1\<lparr>fv_data_centers := (fv_data_centers s1)[nat (tp_data_center_id s1) := n], tp_data_center_id := tp_data_center_id s1 + 1\<rparr>)"
    if "group_settled n" for n using s1(2) j that by (auto simp: built_def intro!: below_next)
  have u: "tiled (tp_data_center_id s1 + 1) ((fv_data_centers s1)[nat (tp_data_center_id s1) := n]) (tp_cluster_id s1)"
    if "gn_members n = [tp_cluster_id s..tp_cluster_id s1 - 1]" for n
    using tiled_next [OF t j(1,2) that] mono g s1(2) by simp
  from s1 j g b u show ?thesis
    by (auto simp: init_data_center_def node_at_total sm Let_def made_def slots_def data_center_need_def nat_next data_center_set_init_state_def
        tiled_defs above_defs)
qed

interpretation data_centers: builder "init_data_center pw c" "data_center_need (vmc_components c)" "data_center_ok c"
  "\<lambda>s. built s \<and> tiled3 s \<and> above3 s = K" for pw c K
  by unfold_locales (rule init_data_center_builds)

abbreviation zone_ok :: "vm_conf \<Rightarrow> zone_conf \<Rightarrow> bool" where
  "zone_ok c z \<equiv> \<forall>d \<in> set (znc_data_center z). data_center_ok c d"

lemma init_zone_builds:
  assumes g: "built s \<and> tiled4 s \<and> above4 s = K" and v: "zone_ok c z"
    and m: "made s + zone_need (vmc_components c) z \<subseteq># slots s"
  shows "\<exists>s'. init_zone pw c z s = Inr s' \<and> (built s' \<and> tiled4 s' \<and> above4 s' = K)
    \<and> made s' = made s + zone_need (vmc_components c) z \<and> slots s' = slots s"
proof -
  from g have g0: "built s \<and> tiled3 s \<and> above3 s = above3 s" by (simp add: tiled_defs)
  from data_centers.all [OF g0 v add_mset_split [OF m [unfolded zone_need_def]], of pw]
  obtain s1 where s1: "foldE (init_data_center pw c) (znc_data_center z) s = Inr s1" "built s1" "slots s1 = slots s" "above3 s1 = above3 s"
    "made s1 = made s + sum_list (map (data_center_need (vmc_components c)) (znc_data_center z))" "tiled3 s1"
    by (auto simp: all_conj_distrib)
  from s1(3,5) m have m1: "add_mset ZoneL (made s1) \<subseteq># slots s1" by (simp add: zone_need_def)
  with s1(2) have j: "0 \<le> tp_zone_id s1" "nat (tp_zone_id s1) < length (fv_zones s1)"
    "tp_data_center_id s1 \<le> int (length (fv_data_centers s1))" using built_counters [of s1] by (auto simp: level_counts)
  have t: "tiled (tp_zone_id s1) (fv_zones s1) (tp_data_center_id s)"
    using g s1(4) by (simp add: tiled_defs above_defs)
  have sm: "sum_members gn_total_machine_num (fv_data_centers s1) [tp_data_center_id s..tp_data_center_id s1 - 1] =
      Inr (sum_list (map (\<lambda>i. gn_total_machine_num (fv_data_centers s1 ! nat i)) [tp_data_center_id s..tp_data_center_id s1 - 1]))"
    by (rule sum_members_total) (use g built_counters [of s] j(3) in auto)
  note mono = built_counters [of s] made_mono [OF s1(5)]
  have b: "built (s1\<lparr>fv_zones := (fv_zones s1)[nat (tp_zone_id s1) := n], tp_zone_id := tp_zone_id s1 + 1\<rparr>)"
    if "group_settled n" for n using s1(2) j that by (auto simp: built_def intro!: below_next)
  have u: "tiled (tp_zone_id s1 + 1) ((fv_zones s1)[nat (tp_zone_id s1) := n]) (tp_data_center_id s1)"
    if "gn_members n = [tp_data_center_id s..tp_data_center_id s1 - 1]" for n
    using tiled_next [OF t j(1,2) that] mono g s1(2) by simp
  from s1 j g b u show ?thesis
    by (auto simp: init_zone_def node_at_total sm Let_def made_def slots_def zone_need_def nat_next zone_set_init_state_def
        tiled_defs above_defs)
qed

interpretation zones: builder "init_zone pw c" "zone_need (vmc_components c)" "zone_ok c"
  "\<lambda>s. built s \<and> tiled4 s \<and> above4 s = K" for pw c K
  by unfold_locales (rule init_zone_builds)

abbreviation region_ok :: "vm_conf \<Rightarrow> region_conf \<Rightarrow> bool" where
  "region_ok c r \<equiv> \<forall>z \<in> set (rgc_zone r). zone_ok c z"

lemma init_region_builds:
  assumes g: "built s \<and> tiled5 s" and v: "region_ok c r"
    and m: "made s + region_need (vmc_components c) r \<subseteq># slots s"
  shows "\<exists>s'. init_region pw c r s = Inr s' \<and> (built s' \<and> tiled5 s')
    \<and> made s' = made s + region_need (vmc_components c) r \<and> slots s' = slots s"
proof -
  from g have g0: "built s \<and> tiled4 s \<and> above4 s = above4 s" by (simp add: tiled_defs)
  from zones.all [OF g0 v add_mset_split [OF m [unfolded region_need_def]], of pw]
  obtain s1 where s1: "foldE (init_zone pw c) (rgc_zone r) s = Inr s1" "built s1" "slots s1 = slots s" "above4 s1 = above4 s"
    "made s1 = made s + sum_list (map (zone_need (vmc_components c)) (rgc_zone r))" "tiled4 s1"
    by (auto simp: all_conj_distrib)
  from s1(3,5) m have m1: "add_mset RegionL (made s1) \<subseteq># slots s1" by (simp add: region_need_def)
  with s1(2) have j: "0 \<le> tp_region_id s1" "nat (tp_region_id s1) < length (fv_regions s1)"
    "tp_zone_id s1 \<le> int (length (fv_zones s1))" using built_counters [of s1] by (auto simp: level_counts)
  have t: "tiled (tp_region_id s1) (fv_regions s1) (tp_zone_id s)"
    using g s1(4) by (simp add: tiled_defs above_defs)
  have sm: "sum_members gn_total_machine_num (fv_zones s1) [tp_zone_id s..tp_zone_id s1 - 1] =
      Inr (sum_list (map (\<lambda>i. gn_total_machine_num (fv_zones s1 ! nat i)) [tp_zone_id s..tp_zone_id s1 - 1]))"
    by (rule sum_members_total) (use g built_counters [of s] j(3) in auto)
  note mono = built_counters [of s] made_mono [OF s1(5)]
  have b: "built (s1\<lparr>fv_regions := (fv_regions s1)[nat (tp_region_id s1) := n], tp_region_id := tp_region_id s1 + 1\<rparr>)"
    if "group_settled n" for n using s1(2) j that by (auto simp: built_def intro!: below_next)
  have u: "tiled (tp_region_id s1 + 1) ((fv_regions s1)[nat (tp_region_id s1) := n]) (tp_zone_id s1)"
    if "gn_members n = [tp_zone_id s..tp_zone_id s1 - 1]" for n
    using tiled_next [OF t j(1,2) that] mono g s1(2) by simp
  from s1 j g b u show ?thesis
    by (auto simp: init_region_def node_at_total sm Let_def made_def slots_def region_need_def nat_next region_set_init_state_def
        tiled_defs above_defs)
qed

interpretation regions: builder "init_region pw c" "region_need (vmc_components c)" "region_ok c"
  "\<lambda>s. built s \<and> tiled5 s" for pw c
  by unfold_locales (rule init_region_builds)

section \<open>The amounts\<close>

definition weight :: "('k \<Rightarrow> int) \<Rightarrow> ('k \<times> int) list \<Rightarrow> int" where
  "weight w d = sum_list (map (\<lambda>(k, n). n * w k) d)"

lemma weight_simps [simp]: "weight w [] = 0" "weight w ((k, n) # d) = n * w k + weight w d"
  "weight w (d @ d') = weight w d + weight w d'"
  by (simp_all add: weight_def)

lemma weight_Cons: "weight w (x # d) = snd x * w (fst x) + weight w d"
  by (simp add: weight_def case_prod_unfold)

lemma weight_add: "weight w (dict_add k n d) = weight w d + n * w k"
proof -
  have "weight w (AList.update k v d) = weight w d + (v - (case map_of d k of None \<Rightarrow> 0 | Some m \<Rightarrow> m)) * w k" for v
    by (induction d) (auto simp: algebra_simps)
  then show ?thesis by (simp add: dict_add_def)
qed

lemma keys_add: "fst ` set (dict_add k n d) = insert k (fst ` set d)"
  "distinct (map fst d) \<Longrightarrow> distinct (map fst (dict_add k n d))"
  by (simp_all add: dict_add_def dom_update distinct_update)

lemma dict_total_weight: "dict_total d = weight (\<lambda>_. 1) d"
  by (simp add: dict_total_def weight_def case_prod_unfold)

lemma cluster_amounts:
  "weight w (fold (\<lambda>(ty, n). dict_add ty n) cs d) = weight w d + weight w cs"
  "fst ` set (fold (\<lambda>(ty, n). dict_add ty n) cs d) = fst ` set d \<union> fst ` set cs"
  "distinct (map fst d) \<Longrightarrow> distinct (map fst (fold (\<lambda>(ty, n). dict_add ty n) cs d))"
  by (induction cs arbitrary: d) (simp_all add: weight_add keys_add case_prod_unfold weight_Cons)

lemma add_parts:
  assumes "map_of amounts item = Some m" "distinct (map fst d)"
  shows "\<exists>d'. foldE (\<lambda>(part, n) d. bindE (dict_get amounts item) (\<lambda>m. Inr (dict_add part (m * n) d))) parts d = Inr d'
    \<and> (\<forall>w. weight w d' = weight w d + m * weight w parts) \<and> fst ` set d' = fst ` set d \<union> fst ` set parts
    \<and> distinct (map fst d')"
  using assms(2)
proof (induction parts arbitrary: d)
  case (Cons x parts)
  obtain p n where x: "x = (p, n)" by force
  from Cons.IH [OF keys_add(2) [OF Cons.prems], of p "m * n"] assms(1) show ?case
    by (auto simp: x dict_get_def weight_add keys_add algebra_simps)
qed simp

lemma part_amounts_total:
  assumes "\<forall>k \<in> fst ` set items. dict_mem k amounts"
  shows "\<exists>d. part_amounts amounts items = Inr d
    \<and> (\<forall>w. weight w d = sum_list (map (\<lambda>(item, parts). the (map_of amounts item) * weight w parts) items))
    \<and> fst ` set d = (\<Union>(item, parts) \<in> set items. fst ` set parts) \<and> distinct (map fst d)"
proof -
  have "\<exists>d'. foldE (\<lambda>(item, parts). foldE (\<lambda>(part, n) d.
         bindE (dict_get amounts item) (\<lambda>m. Inr (dict_add part (m * n) d))) parts) items d = Inr d'
    \<and> (\<forall>w. weight w d' = weight w d + sum_list (map (\<lambda>(item, parts). the (map_of amounts item) * weight w parts) items))
    \<and> fst ` set d' = fst ` set d \<union> (\<Union>(item, parts) \<in> set items. fst ` set parts) \<and> distinct (map fst d')"
    if "distinct (map fst d)" for d
    using that assms
  proof (induction items arbitrary: d)
    case (Cons x items)
    obtain item parts where x: "x = (item, parts)" by force
    from Cons.prems(2) obtain m where m: "map_of amounts item = Some m"
      by (auto simp: x elim: dict_mem_obtain)
    from add_parts [OF m Cons.prems(1), of parts] obtain d1 where
      d1: "foldE (\<lambda>(part, n) d. bindE (dict_get amounts item) (\<lambda>m. Inr (dict_add part (m * n) d))) parts d = Inr d1"
      "\<And>w. weight w d1 = weight w d + m * weight w parts" "fst ` set d1 = fst ` set d \<union> fst ` set parts"
      "distinct (map fst d1)" by blast
    from Cons.IH [OF d1(4)] Cons.prems(2) d1(1-3) m show ?case
      by (fastforce simp: x)
  qed simp
  from this [of "[]"] show ?thesis by (simp add: part_amounts_def)
qed

lemma sum_over_keys:
  assumes "distinct (map fst d)"
  shows "sum_list (map (\<lambda>(k, v). g k v) d) = (\<Sum>k \<in> fst ` set d. g k (the (map_of d k)) :: int)"
proof -
  from assms have "sum_list (map (\<lambda>(k, v). g k v) d) = (\<Sum>x \<in> set d. g (fst x) (snd x))"
    by (simp add: sum_list_distinct_conv_sum_set distinct_map case_prod_unfold)
  also have "\<dots> = (\<Sum>x \<in> set d. g (fst x) (the (map_of d (fst x))))"
    using assms by (intro sum.cong) auto
  also have "\<dots> = (\<Sum>k \<in> fst ` set d. g k (the (map_of d k)))"
    using assms by (subst sum.reindex) (auto simp: distinct_map)
  finally show ?thesis .
qed

lemma exchange_amounts:
  assumes "distinct (map fst amounts)" "distinct (map fst items)" "fst ` set amounts = fst ` set items"
  shows "sum_list (map (\<lambda>(item, parts). the (map_of amounts item) * weight w parts) items)
    = weight (\<lambda>k. weight w (parts_of items k)) amounts"
proof -
  have "sum_list (map (\<lambda>(item, parts). the (map_of amounts item) * weight w parts) items)
      = (\<Sum>k \<in> fst ` set items. the (map_of amounts k) * weight w (the (map_of items k)))"
    using sum_over_keys [OF assms(2)] by simp
  also have "\<dots> = (\<Sum>k \<in> fst ` set amounts. the (map_of amounts k) * weight w (parts_of items k))"
    using assms(3) by (intro sum.cong) (auto simp: parts_of_def dest!: weak_map_of_SomeI)
  also have "\<dots> = weight (\<lambda>k. weight w (parts_of items k)) amounts"
    unfolding weight_def using sum_over_keys [OF assms(1)] by simp
  finally show ?thesis .
qed

lemma count_need_list:
  "\<forall>(k, n) \<in> set items. 0 \<le> n \<Longrightarrow> int (count (need_list w items) l) = weight (\<lambda>k. int (count (w k) l)) items"
  by (induction items) (auto simp: need_list_def)

lemma count_need_zero: "(\<And>k. count (w k) l = 0) \<Longrightarrow> count (need_list w items) l = 0"
  by (induction items) (auto simp: need_list_def)

lemma need_list_append [simp]: "need_list w (xs @ ys) = need_list w xs + need_list w ys"
  by (simp add: need_list_def)

lemma need_list_Nil [simp]: "need_list w [] = {#}"
  by (simp add: need_list_def)

lemma regions_need:
  "sum_list (map (region_need p) arch) = replicate_mset (length arch) RegionL
     + replicate_mset (length (all_zones arch)) ZoneL + replicate_mset (length (all_data_centers arch)) DataCenterL
     + need_list (cluster_need p) (all_clusters arch)"
proof -
  have d: "sum_list (map (data_center_need p) ds) = replicate_mset (length ds) DataCenterL
      + need_list (cluster_need p) (concat (map dcc_cluster ds))" for ds
    by (induction ds) (simp_all add: data_center_need_def)
  have z: "sum_list (map (zone_need p) zs) = replicate_mset (length zs) ZoneL
      + sum_list (map (data_center_need p) (concat (map znc_data_center zs)))" for zs
    by (induction zs) (simp_all add: zone_need_def)
  have "sum_list (map (region_need p) arch) = replicate_mset (length arch) RegionL
      + sum_list (map (zone_need p) (concat (map rgc_zone arch)))"
    by (induction arch) (simp_all add: region_need_def)
  then show ?thesis by (simp add: z d all_zones_def all_data_centers_def all_clusters_def)
qed

lemma parts_of_nonneg: "parts_ok items \<Longrightarrow> \<forall>(k, n) \<in> set (parts_of items ty). 0 \<le> n"
  by (auto simp: parts_of_def parts_ok_def split: option.splits dest!: map_of_SomeD)

lemma rack_need_counts:
  assumes "parts_ok (cmp_rack p)"
  shows "int (count (rack_need p ty) MachineL) = weight (\<lambda>_. 1) (parts_of (cmp_rack p) ty)"
    "count (rack_need p ty) RackL = 1" "count (rack_need p ty) ClusterL = 0" "count (rack_need p ty) DataCenterL = 0"
    "count (rack_need p ty) ZoneL = 0" "count (rack_need p ty) RegionL = 0"
  using count_need_list [OF parts_of_nonneg [OF assms], of "\<lambda>_. {#MachineL#}"] by (simp_all add: rack_need_def weight_def count_need_zero)

lemma cluster_need_counts:
  assumes "parts_ok (cmp_rack p)" "parts_ok (cmp_cluster p)"
  shows "int (count (cluster_need p ty) MachineL)
      = weight (\<lambda>k. weight (\<lambda>_. 1) (parts_of (cmp_rack p) k)) (parts_of (cmp_cluster p) ty)"
    "int (count (cluster_need p ty) RackL) = weight (\<lambda>_. 1) (parts_of (cmp_cluster p) ty)"
    "count (cluster_need p ty) ClusterL = 1" "count (cluster_need p ty) DataCenterL = 0"
    "count (cluster_need p ty) ZoneL = 0" "count (cluster_need p ty) RegionL = 0"
  using count_need_list [OF parts_of_nonneg [OF assms(2)], of "rack_need p"]
  by (simp_all add: cluster_need_def rack_need_counts [OF assms(1)] weight_def count_need_zero)

lemma load_amounts_exact:
  assumes "topology_ok c"
  shows "\<exists>am. load_amounts c = Inr am
    \<and> sum_list (map (region_need (vmc_components c)) (vmc_architecture c)) = slots (build_frame am)"
proof -
  let ?p = "vmc_components c" and ?arch = "vmc_architecture c"
  let ?cs = "all_clusters ?arch" and ?cd = "cluster_amount_dict (vmc_architecture c)"
  from assms have ok: "parts_ok (cmp_rack ?p)" "parts_ok (cmp_cluster ?p)" "\<forall>(ty, n) \<in> set ?cs. 0 \<le> n"
    "fst ` set ?cs = fst ` set (cmp_cluster ?p)" "(\<Union>(ty, racks) \<in> set (cmp_cluster ?p). fst ` set racks) = fst ` set (cmp_rack ?p)"
    by (simp_all add: topology_ok_def Let_def)
  from ok(1,2) have dist: "distinct (map fst (cmp_rack ?p))" "distinct (map fst (cmp_cluster ?p))"
    by (simp_all add: parts_ok_def)
  have cd: "weight w ?cd = weight w ?cs" "fst ` set ?cd = fst ` set (cmp_cluster ?p)" "distinct (map fst ?cd)" for w :: "string \<Rightarrow> int"
    using cluster_amounts [where d = "[]" and cs = ?cs] ok(4) by (simp_all add: cluster_amount_dict_def)
  have "\<forall>k \<in> fst ` set (cmp_cluster ?p). dict_mem k ?cd" using cd(2) by (simp add: dict_mem_def)
  from part_amounts_total [OF this] obtain rd where
    r: "rack_amount_dict ?p ?arch = Inr rd" "fst ` set rd = fst ` set (cmp_rack ?p)" "distinct (map fst rd)"
    and rw: "\<And>w. weight w rd = weight (\<lambda>k. weight w (parts_of (cmp_cluster ?p) k)) ?cs"
    using ok(5) by (auto simp only: rack_amount_dict_def exchange_amounts [OF cd(3) dist(2) cd(2)] cd(1))
  have "\<forall>k \<in> fst ` set (cmp_rack ?p). dict_mem k rd" using r(2) by (simp add: dict_mem_def)
  from part_amounts_total [OF this] obtain pd where p: "pm_amount_dict ?p rd = Inr pd"
    and pw: "\<And>w. weight w pd = weight (\<lambda>k. weight w (parts_of (cmp_rack ?p) k)) rd"
    by (auto simp only: pm_amount_dict_def exchange_amounts [OF r(3) dist(1) r(2)])
  let ?am = "\<lparr>am_region = int (length ?arch), am_zone = int (length (all_zones ?arch)),
     am_data_center = int (length (all_data_centers ?arch)), am_cluster = dict_total ?cd,
     am_rack = dict_total rd, am_pm = dict_total pd\<rparr>"
  let ?need = "need_list (cluster_need ?p) ?cs"
  note n = count_need_list [OF ok(3), of "cluster_need ?p"] and counts = cluster_need_counts [OF ok(1,2)]
  have "int (count ?need MachineL) = dict_total pd" "int (count ?need RackL) = dict_total rd"
    "int (count ?need ClusterL) = dict_total ?cd"
    by (simp_all add: n counts dict_total_weight pw rw cd(1))
  then have c: "count ?need MachineL = nat (dict_total pd)" "count ?need RackL = nat (dict_total rd)"
    "count ?need ClusterL = nat (dict_total ?cd)" by simp_all
  have z: "count ?need DataCenterL = 0" "count ?need ZoneL = 0" "count ?need RegionL = 0"
    by (simp_all add: count_need_zero counts)
  have "replicate_mset (length ?arch) RegionL + replicate_mset (length (all_zones ?arch)) ZoneL
      + replicate_mset (length (all_data_centers ?arch)) DataCenterL + ?need = slots (build_frame ?am)"
    by (simp add: multiset_eq_iff all_level c z build_frame_def)
  then show ?thesis by (intro exI [of _ ?am]) (simp add: load_amounts_def r(1) p regions_need Let_def)
qed

lemma parts_of_mem: "x \<in> set (parts_of items ty) \<Longrightarrow> \<exists>parts. (ty, parts) \<in> set items \<and> x \<in> set parts"
  by (cases "map_of items ty") (auto simp: parts_of_def dest: map_of_SomeD)

lemma init_structure_builds:
  assumes "topology_ok c"
  shows "\<exists>am s. load_amounts c = Inr am \<and> init_structure pw c (build_frame am) = Inr s \<and> built s \<and> tiled5 s
    \<and> made s = slots s \<and> slots s = slots (build_frame am)"
proof -
  let ?p = "vmc_components c"
  from load_amounts_exact [OF assms] obtain am where am: "load_amounts c = Inr am"
    "sum_list (map (region_need ?p) (vmc_architecture c)) = slots (build_frame am)" by blast
  let ?s = "vm_frame.extend (build_frame am) \<lparr>tp_region_id = 0, tp_zone_id = 0, tp_data_center_id = 0,
          tp_cluster_id = 0, tp_rack_id = 0, tp_pm_id = 0\<rparr>"
  have s: "built ?s \<and> tiled5 ?s" "made ?s = {#}" "slots ?s = slots (build_frame am)"
    by (simp_all add: built_def below_def tiled_defs tiled_def made_def slots_def vm_frame.defs)
  from assms have ok: "parts_ok (cmp_rack ?p)" "parts_ok (cmp_cluster ?p)" "vmc_ticks_per_hour c \<noteq> 0"
    "fst ` set (all_clusters (vmc_architecture c)) = fst ` set (cmp_cluster ?p)"
    "(\<Union>(ty, racks) \<in> set (cmp_cluster ?p). fst ` set racks) = fst ` set (cmp_rack ?p)"
    "\<forall>(ty, pms) \<in> set (cmp_rack ?p). \<forall>(pm, n) \<in> set pms. 0 \<le> pm \<and> pm < int (length (cmp_pm ?p))"
    by (simp_all add: topology_ok_def Let_def)
  have types: "pm_type_ok c m" if "(ty, pms) \<in> set (cmp_rack ?p)" "(m, n) \<in> set pms" for ty pms m n
    using ok(3,6) that by (auto simp: pm_type_ok_def)
  have racks: "rack_ok c ty" if "ty \<in> fst ` set (cmp_rack ?p)" for ty
  proof -
    have "pm_type_ok c k" if "(k, n) \<in> set (parts_of (cmp_rack ?p) ty)" for k n
      using parts_of_mem [OF that] types by blast
    with that ok(1) show ?thesis by (auto simp: listed_def)
  qed
  have "cluster_ok c ty" if "ty \<in> fst ` set (cmp_cluster ?p)" for ty
  proof -
    have "k \<in> fst ` set (cmp_rack ?p)" if "(k, n) \<in> set (parts_of (cmp_cluster ?p) ty)" for k n
      using parts_of_mem [OF that] ok(5) by force
    then have "\<forall>k \<in> fst ` set (parts_of (cmp_cluster ?p) ty). rack_ok c k" using racks by fastforce
    with that ok(2) show ?thesis unfolding listed_def [of "rack_ok c"] by blast
  qed
  then have "cluster_ok c ty" if "ty \<in> fst ` set (all_clusters (vmc_architecture c))" for ty
    using that ok(4) by simp
  then have "\<forall>r \<in> set (vmc_architecture c). region_ok c r"
    by (fastforce simp: all_clusters_def all_data_centers_def all_zones_def)
  with regions.all [OF s(1) this, of pw] s am show ?thesis by (auto simp: init_structure_def)
qed

text \<open>A frame in which every node is set up.\<close>

definition frame_tiled :: "'a vm_frame_scheme \<Rightarrow> bool" where
  "frame_tiled s \<longleftrightarrow> concat (map gn_members (fv_racks s)) = [0..int (length (fv_pms s)) - 1] \<and>
     concat (map gn_members (fv_clusters s)) = [0..int (length (fv_racks s)) - 1] \<and>
     concat (map gn_members (fv_data_centers s)) = [0..int (length (fv_clusters s)) - 1] \<and>
     concat (map gn_members (fv_zones s)) = [0..int (length (fv_data_centers s)) - 1] \<and>
     concat (map gn_members (fv_regions s)) = [0..int (length (fv_zones s)) - 1]"

definition whole_frame :: "'a vm_frame_scheme \<Rightarrow> bool" where
  "whole_frame s \<longleftrightarrow> (\<forall>j < length (fv_pms s). fresh_machine j (fv_pms s ! j)) \<and> frame_tiled s \<and>
     list_all group_settled (fv_racks s) \<and> list_all group_settled (fv_clusters s) \<and>
     list_all group_settled (fv_data_centers s) \<and> list_all group_settled (fv_zones s) \<and>
     list_all group_settled (fv_regions s)"

lemma complete_frame:
  assumes b: "built s" and t: "tiled5 s" and m: "made s = slots s"
  shows "whole_frame s"
proof -
  have "count (made s) l = count (slots s) l" for l using m by simp
  from this [of RegionL] this [of ZoneL] this [of DataCenterL] this [of ClusterL] this [of RackL] this [of MachineL]
    built_counters [OF b]
  have n: "nat (tp_region_id s) = length (fv_regions s)" "tp_zone_id s = int (length (fv_zones s))"
    "tp_data_center_id s = int (length (fv_data_centers s))" "tp_cluster_id s = int (length (fv_clusters s))"
    "tp_rack_id s = int (length (fv_racks s))" "tp_pm_id s = int (length (fv_pms s))" by simp_all
  with b t show ?thesis
    by (simp add: whole_frame_def frame_tiled_def built_def below_def tiled_defs tiled_def list_all_length)
qed

text \<open>C6: For a well-formed topology the amounts computed from the configuration are exactly
  the numbers of nodes the nested initialisation sets up: it runs without an error, every machine is
  set up with its position as its id, and the member lists of racks, clusters, data centers, zones
  and regions put the ids of the level below in a row without a gap.\<close>

theorem init_structure_exact:
  assumes "topology_ok c"
  shows "\<exists>am s. load_amounts c = Inr am \<and> init_structure pw c (build_frame am) = Inr s \<and>
     length (fv_pms s) = nat (am_pm am) \<and> (\<forall>j < length (fv_pms s). fresh_machine j (fv_pms s ! j)) \<and>
     concat (map gn_members (fv_racks s)) = [0..int (length (fv_pms s)) - 1] \<and>
     concat (map gn_members (fv_clusters s)) = [0..int (length (fv_racks s)) - 1] \<and>
     concat (map gn_members (fv_data_centers s)) = [0..int (length (fv_clusters s)) - 1] \<and>
     concat (map gn_members (fv_zones s)) = [0..int (length (fv_data_centers s)) - 1] \<and>
     concat (map gn_members (fv_regions s)) = [0..int (length (fv_zones s)) - 1]"
proof -
  from init_structure_builds [OF assms, of pw] obtain am s where s: "load_amounts c = Inr am"
    "init_structure pw c (build_frame am) = Inr s" "built s" "tiled5 s" "made s = slots s"
    "slots s = slots (build_frame am)" by blast
  from complete_frame [OF s(3-5)] have f: "whole_frame s" .
  from s(6) have "count (slots s) MachineL = count (slots (build_frame am)) MachineL" by simp
  then have "length (fv_pms s) = nat (am_pm am)" by (simp add: build_frame_def)
  with f s(1,2) show ?thesis unfolding whole_frame_def frame_tiled_def by blast
qed

section \<open>The accounts of a whole run\<close>

lemma init_vms_result:
  assumes "init_vms c reader base b = Inr (b0, s0)"
  obtains am tp where "load_amounts (vp_conf c) = Inr am"
    "init_structure (vp_pow c) (vp_conf c) (build_frame am) = Inr tp"
    "s0 = vm_frame.extend (vm_frame.truncate tp)
              \<lparr>ve_requests = [], ve_live = [], ve_pending = [], ve_metrics = init_metrics, ve_tick = 0,
               ve_pending_action_vm_id = 0, ve_reader = reader, ve_base = base, ve_snapshots = []\<rparr>"
  using assms by (auto simp: init_vms_def res_simps)

lemma initial_frame:
  assumes "topology_ok (vp_conf c)" "init_vms c reader base b = Inr (b0, s0)"
  shows "whole_frame s0"
proof -
  from assms(2) obtain am tp where i: "load_amounts (vp_conf c) = Inr am"
    "init_structure (vp_pow c) (vp_conf c) (build_frame am) = Inr tp"
    and s0: "whole_frame s0 = whole_frame tp"
    by (rule init_vms_result) (simp add: vm_frame.defs whole_frame_def frame_tiled_def)
  from init_structure_builds [OF assms(1), of "vp_pow c"] i have "built tp" "tiled5 tp" "made tp = slots tp" by auto
  then show ?thesis unfolding s0 by (rule complete_frame)
qed

lemma initial_booked:
  assumes "topology_ok (vp_conf c)" "init_vms c reader base b = Inr (b0, s0)"
  shows "booked s0" "list_all (fits d) (fv_pms s0)"
proof -
  from assms(2) have e: "ve_requests s0 = []" "ve_live s0 = []" "ve_pending s0 = []"
    by (rule init_vms_result; simp add: vm_frame.defs)+
  show "booked s0" using initial_frame [OF assms] e
    by (auto simp: whole_frame_def booked_with_def machine_ok_def fresh_machine_def)
  show "list_all (fits d) (fv_pms s0)" using initial_frame [OF assms]
    by (auto simp: whole_frame_def list_all_length fits_def fresh_machine_def)
qed

text \<open>C5: When overloaded machines are not cleared, after any run from the initial state in
  which the agent allocates VMs that are not running yet to machines that are valid for them, every
  machine carries exactly the cores and the memory of the VMs placed on it, its set of live VMs
  names exactly those, it is marked empty exactly when it has none, and its load stays within its
  capacity or within the oversubscription rates.\<close>

theorem vm_run_accounted:
  assumes "topology_ok (vp_conf c)" "rows_ok c" "\<not> vmc_kill_all_vms_if_overload (vp_conf c)"
    and "init_vms c reader base b = Inr (b0, s0)" "(vm_trans c)\<^sup>*\<^sup>* s0 s"
  shows "(\<forall>j < length (fv_pms s). machine_ok s (ve_live s) j \<and> fits (vp_conf c) (fv_pms s ! j))"
  using vm_run_books [OF assms(5,3,2) initial_booked [OF assms(1,4)]]
  by (simp add: booked_with_def list_all_length)

end
