(* ===== verification/VmSafety.thy ===== *)
theory VmSafety imports VmStructure begin

text \<open>
  What the operations of the VM scheduling engine do: allocation, release, postponement and overload,
  and what holds over whole episodes of the environment.
\<close>

section \<open>Allocation\<close>

text \<open>An allocation moves the VM from the pending requests to the live VMs, stamps its
  machine, creation tick and deletion tick, adds its cores, memory and id to the chosen machine and
  marks an empty machine by the category of the VM, changes no other machine, and counts one
  successful allocation.\<close>

theorem allocate_effect:
  assumes "allocate_vm c t i p s = Inr s'"
  shows "\<exists>a tick j. map_of (ve_pending s) i = Some a \<and> t = Some tick \<and> py_pos (length (fv_pms s)) p = Some j \<and>
    ve_pending s' = AList.delete i (ve_pending s) \<and> ve_live s' = AList.update i a (ve_live s) \<and>
    vm_pm_id (vm_of s' a) = p \<and> vm_creation_tick (vm_of s' a) = tick \<and>
    vm_deletion_tick (vm_of s' a) = tick + vm_lifetime (vm_of s a) \<and>
    (\<forall>k < length (fv_pms s). k \<noteq> j \<longrightarrow> fv_pms s' ! k = fv_pms s ! k) \<and>
    pm_key (fv_pms s' ! j) = occupied_key (vm_of s a) (fv_pms s ! j) \<and>
    mt_successful_allocation (ve_metrics s') = mt_successful_allocation (ve_metrics s) + 1"
  using assms
proof (rule allocate_vm_result, goal_cases)
  case (1 a tick vm j pm1 pm2)
  from 1(4) have vm: "vm_pm_id vm = p" "vm_creation_tick vm = tick" "vm_deletion_tick vm = tick + vm_lifetime (vm_of s a)"
    "vm_id vm = vm_id (vm_of s a)" "vm_category vm = vm_category (vm_of s a)"
    "vm_cpu_cores_requirement vm = vm_cpu_cores_requirement (vm_of s a)"
    "vm_memory_requirement vm = vm_memory_requirement (vm_of s a)"
    by (auto simp: start_vm_def set_vm_utilization_def res_simps Let_def vm_of_def)
  have "pm_key pm2 = occupied_key vm (fv_pms s ! j)"
    using 1(6,7) by (simp add: set_energy_key update_cpu_utilization_key occupy_key)
  also have "\<dots> = occupied_key (vm_of s a) (fv_pms s ! j)" using vm by (simp add: occupied_key_def)
  finally have "pm_key (fv_pms s' ! j) = occupied_key (vm_of s a) (fv_pms s ! j)"
    using 1(8) py_pos_less [OF 1(5)] by simp
  moreover have "vm_of s' a = vm" using 1(2,8) by (simp add: vm_of_def)
  ultimately show ?case using 1 vm(1-3) by (intro exI [of _ a] exI [of _ tick] exI [of _ j]) simp
qed

section \<open>Release\<close>

definition finishes :: "'r vms \<Rightarrow> int \<times> nat \<Rightarrow> bool" where
  "finishes s e \<longleftrightarrow> vm_deletion_tick (vm_of s (snd e)) = ve_tick s"

lemma finish_loop_spec:
  "foldE finish_vm (map snd xs) (s, ids) = Inr (s', ids') \<Longrightarrow> list_all (entry_ok s) xs \<Longrightarrow>
   ids' = ids @ map fst (filter (finishes s) xs) \<and> ve_requests s' = ve_requests s \<and> ve_live s' = ve_live s \<and>
   mt_successful_completion (ve_metrics s') = mt_successful_completion (ve_metrics s) + int (length (filter (finishes s) xs))"
proof (induction xs arbitrary: s ids)
  case (Cons e xs)
  from Cons.prems(1) obtain s1 ids1 where f: "finish_vm (snd e) (s, ids) = Inr (s1, ids1)"
    and r: "foldE finish_vm (map snd xs) (s1, ids1) = Inr (s', ids')" by (auto simp: res_simps)
  from f Cons.prems(2) have s1: "ve_requests s1 = ve_requests s" "ve_live s1 = ve_live s" "ve_tick s1 = ve_tick s"
    "ids1 = ids @ (if finishes s e then [fst e] else [])"
    "mt_successful_completion (ve_metrics s1) = mt_successful_completion (ve_metrics s) + (if finishes s e then 1 else 0)"
    by (auto simp: finish_vm_def res_simps request_at_result Let_def finishes_def vm_of_def entry_ok_def split: if_splits)
  then have eq: "finishes s1 = finishes s" "entry_ok s1 = entry_ok s"
    by (auto simp: finishes_def entry_ok_def vm_of_def fun_eq_iff)
  from Cons.IH [OF r] Cons.prems(2) s1 show ?case by (auto simp: eq)
qed simp

text \<open>Releasing finished VMs takes exactly the VMs whose deletion tick is the current
  tick out of the live VMs and counts each as a successful completion.\<close>

theorem process_finished_exact:
  assumes "process_finished_vm s = Inr s'" "distinct (map fst (ve_live s))" "list_all (entry_ok s) (ve_live s)"
  shows "ve_live s' = filter (\<lambda>e. \<not> finishes s e) (ve_live s) \<and>
    mt_successful_completion (ve_metrics s') = mt_successful_completion (ve_metrics s)
      + int (length (ve_live s)) - int (length (ve_live s'))"
proof -
  from assms(1) obtain s1 ids where f: "foldE finish_vm (map snd (ve_live s)) (s, []) = Inr (s1, ids)"
    and p: "foldE pop_live ids s1 = Inr s'" by (auto simp: process_finished_vm_def res_simps)
  from finish_loop_spec [OF f assms(3)] have s1: "ids = map fst (filter (finishes s) (ve_live s))" "ve_live s1 = ve_live s"
    "mt_successful_completion (ve_metrics s1) = mt_successful_completion (ve_metrics s) + int (length (filter (finishes s) (ve_live s)))"
    by simp_all
  have "filter (\<lambda>e. fst e \<notin> set ids) (ve_live s) = filter (\<lambda>e. \<not> finishes s e) (ve_live s)"
    using assms(2) by (intro filter_cong) (auto simp: s1(1) distinct_map inj_on_def)
  with pop_lives_result [OF p] s1(2,3) sum_length_filter_compl [of "finishes s" "ve_live s"] show ?thesis by simp
qed

section \<open>Postponement\<close>

text \<open>A postpone action with n steps either lowers the remaining buffer time by one delay
  and repeats the request one delay later, whatever n is, when n delays would leave at least one
  delay, or drops the request and counts a failed allocation.\<close>

theorem postpone_effect:
  assumes "apply_vm_action c t (PostponeAction i n) s = Inr (s', es)"
  shows "\<exists>a. map_of (ve_pending s) i = Some a \<and> a < length (ve_requests s) \<and>
    (let rest = rq_remaining_buffer_time (ve_requests s ! a); delay = vmc_delay_duration (vp_conf c) in
     if delay \<le> rest - n * delay
     then ve_requests s' = (ve_requests s)[a := (ve_requests s ! a)\<lparr>rq_remaining_buffer_time := rest - delay\<rparr>] \<and>
       ve_pending s' = ve_pending s \<and> es = [EmitRequest (ve_tick s + delay) a] \<and>
       mt_due_to_agent (ve_metrics s') = mt_due_to_agent (ve_metrics s) + delay
     else ve_pending s' = AList.delete i (ve_pending s) \<and> ve_requests s' = ve_requests s \<and> es = [] \<and>
       mt_failed_allocation (ve_metrics s') = mt_failed_allocation (ve_metrics s) + 1)"
proof -
  let ?c = "vp_conf c"
  from assms obtain a where a: "map_of (ve_pending s) i = Some a" "a < length (ve_requests s)"
    and p: "postpone_vm_request ?c AgentDecision i
      (rq_remaining_buffer_time (ve_requests s ! a) - n * vmc_delay_duration ?c) s = Inr (s', es)"
    by (auto simp: apply_vm_action_def res_simps request_at_result dict_get_def split: if_splits option.splits)
  show ?thesis
  proof (cases "vmc_delay_duration ?c \<le> rq_remaining_buffer_time (ve_requests s ! a) - n * vmc_delay_duration ?c")
    case True
    with p a show ?thesis by (simp add: postpone_vm_request_def dict_get_def request_at_def Let_def) (auto simp: add_latency_def)
  next
    case False
    with p have "dict_mem i (ve_pending s)" "es = []"
      "s' = on_metrics (\<lambda>m. m\<lparr>mt_failed_allocation := mt_failed_allocation m + 1\<rparr>)
         (s\<lparr>ve_pending := AList.delete i (ve_pending s)\<rparr>)"
      by (simp_all add: postpone_vm_request_def pop_pending_result res_simps Let_def)
    with a False show ?thesis by simp
  qed
qed

section \<open>Overload\<close>

lemma set_remove_all: "foldE set_remove xs xs = Inr []"
proof -
  have "foldE set_remove xs (xs @ ys) = Inr ys" for ys
    by (induction xs) (simp_all add: set_remove_def)
  from this [of "[]"] show ?thesis by simp
qed

lemma kill_vms_live:
  "foldE (kill_vm t) ids s = Inr s' \<Longrightarrow> ve_live s' = filter (\<lambda>e. fst e \<notin> set ids) (ve_live s) \<and> fv_pms s' = fv_pms s
    \<and> mt_failed_completion (ve_metrics s') = mt_failed_completion (ve_metrics s)"
proof (induction ids arbitrary: s)
  case (Cons i ids)
  then obtain s1 where s1: "kill_vm t i s = Inr s1" "foldE (kill_vm t) ids s1 = Inr s'" by (auto simp: res_simps)
  then have "ve_live s1 = filter (\<lambda>e. fst e \<noteq> i) (ve_live s)" "fv_pms s1 = fv_pms s"
    "mt_failed_completion (ve_metrics s1) = mt_failed_completion (ve_metrics s)"
    by (auto simp: kill_vm_def pop_live_result res_simps AList.delete_eq case_prod_unfold intro!: filter_cong)
  with Cons.IH [OF s1(2)] show ?case by (auto intro!: filter_cong)
qed simp

text \<open>Clearing an overloaded machine kills all its VMs and empties its set of live VMs,
  but leaves its allocated cores and memory and its state as they were, so the resources of the
  killed VMs are never given back.\<close>

theorem overload_leaks:
  assumes "overload c p t s = Inr s'" "vmc_kill_all_vms_if_overload c" "node_at (fv_pms s) p = Inr (j, pm)"
  shows "ve_live s' = filter (\<lambda>e. fst e \<notin> set (pm_live_vms pm)) (ve_live s) \<and>
    fv_pms s' ! j = pm\<lparr>pm_live_vms := []\<rparr> \<and>
    mt_failed_completion (ve_metrics s') = mt_failed_completion (ve_metrics s) + int (length (pm_live_vms pm))"
proof -
  from assms obtain s1 where k: "foldE (kill_vm t) (pm_live_vms pm) s = Inr s1"
    and s': "s' = on_metrics (\<lambda>m. m\<lparr>mt_total_overload_vms := mt_total_overload_vms m + int (length (pm_live_vms pm))\<rparr>)
       (on_metrics (\<lambda>m. m\<lparr>mt_failed_completion := mt_failed_completion m + int (length (pm_live_vms pm))\<rparr>)
         (put_pm j (pm\<lparr>pm_live_vms := []\<rparr>) s1))"
    by (auto simp: overload_def res_simps deallocate_vms_def set_remove_all Let_def)
  from kill_vms_live [OF k] s' node_at_Inr [OF assms(3)] show ?thesis by simp
qed

section \<open>Episodes\<close>

text \<open>C8: Over any number of calls of Env.step with any actions, no VM id runs twice, running,
  completed and killed VMs together never exceed the successful allocations, the identity and
  capacity of the machines are unchanged, and the metric total_overload_pms never moves.\<close>

theorem vm_episode_counters:
  assumes "env_steps (vm_engine c) as s = Some (Inr (s', rs))"
    and "distinct (live_keys (env_engine s))" "0 \<le> lost_runs (env_engine s)"
  shows "distinct (live_keys (env_engine s')) \<and> vm_frozen (env_engine s') = vm_frozen (env_engine s) \<and>
    (let m = ve_metrics (env_engine s') in
     int (length (ve_live (env_engine s'))) + mt_successful_completion m + mt_failed_completion m
       \<le> mt_successful_allocation m)"
proof -
  have "vm_invariant (vm_frozen (env_engine s)) (env_engine s')"
    by (rule vm.env_steps_inv [OF assms(1)]) (use assms(2,3) in \<open>simp add: vm_invariant_def\<close>)
  then show ?thesis by (auto simp: vm_invariant_def lost_runs_def Let_def)
qed

text \<open>An episode of the VM scenario never passes the last tick, and a reply that says it
  is done is given at the last tick only.\<close>

theorem vm_episode_ends:
  assumes "env_steps (vm_engine c) as s = Some (Inr (s', rs))" "env_gen s = NotStarted"
    and "distinct (live_keys (env_engine s))" "0 \<le> lost_runs (env_engine s)"
    and "env_tick s < be_max_tick (ve_base (env_engine s))"
  shows "env_tick s' < be_max_tick (ve_base (env_engine s)) \<and>
     ((\<exists>r \<in> set rs. snd (snd r)) \<longrightarrow> env_tick s' + 1 = be_max_tick (ve_base (env_engine s)))"
  using vm.env_steps_time [OF assms(1), where K = "vm_frozen (env_engine s)"] assms(2-)
  by (simp add: vm_invariant_def vm_frozen_def)

end
