(* ===== verification/VmReset.thy ===== *)
theory VmReset imports VmSafety begin

text \<open>
  Resetting the VM scheduling engine: whatever an episode did, the frame is again the one the
  initialisation built.  Every operation keeps the configuration a node is reset from
  (\<open>frame_fixed\<close>), and a reset depends on nothing else.
\<close>

section \<open>What a reset starts from\<close>

definition pm_fixed :: "machine \<Rightarrow> pm_setting \<times> rat option" where
  "pm_fixed pm = (pm_init pm, pm_idle_energy pm)"

definition group_fixed :: "'i group_node \<Rightarrow> 'i group_ids_scheme \<times> string \<times> int list" where
  "group_fixed n = (gn_init n, gn_label n, gn_members n)"

definition frame_fixed where
  "frame_fixed s = (map pm_fixed (fv_pms s), map group_fixed (fv_racks s), map group_fixed (fv_clusters s),
     map group_fixed (fv_data_centers s), map group_fixed (fv_zones s), map group_fixed (fv_regions s))"

definition same_fixed :: "'a vm_frame_scheme \<Rightarrow> 'a vm_frame_scheme \<Rightarrow> bool" where
  "same_fixed s s' \<longleftrightarrow> frame_fixed s' = frame_fixed s"

lemma same_fixed_refl [simp]: "same_fixed s s"
  by (simp add: same_fixed_def)

lemma same_fixed_trans: "same_fixed s s' \<Longrightarrow> same_fixed s' s'' \<Longrightarrow> same_fixed s s''"
  by (simp add: same_fixed_def)

lemma frame_fixed_simps [simp]:
  "frame_fixed (put_request a r s) = frame_fixed s" "frame_fixed (on_metrics f s) = frame_fixed s"
  "frame_fixed (s\<lparr>ve_live := l\<rparr>) = frame_fixed s" "frame_fixed (s\<lparr>ve_pending := l\<rparr>) = frame_fixed s"
  "frame_fixed (s\<lparr>ve_tick := t\<rparr>) = frame_fixed s" "frame_fixed (s\<lparr>ve_reader := r'\<rparr>) = frame_fixed s"
  "frame_fixed (s\<lparr>ve_requests := rs\<rparr>) = frame_fixed s"
  "frame_fixed (s\<lparr>ve_pending_action_vm_id := i\<rparr>) = frame_fixed s"
  "frame_fixed (vm_take_snapshot fi s) = frame_fixed s"
  by (simp_all add: frame_fixed_def put_request_def on_metrics_def vm_take_snapshot_def)

lemma put_pm_fixed:
  "j < length (fv_pms s) \<Longrightarrow> pm_fixed pm = pm_fixed (fv_pms s ! j) \<Longrightarrow> frame_fixed (put_pm j pm s) = frame_fixed s"
  by (simp add: frame_fixed_def put_pm_def map_update list_update_same_conv)

lemma pm_fixed_keeps:
  "update_cpu_utilization vm u pm = Inr pm' \<Longrightarrow> pm_fixed pm' = pm_fixed pm"
  "set_energy c pm = Inr pm' \<Longrightarrow> pm_fixed pm' = pm_fixed pm"
  "deallocate_vms ids pm = Inr pm' \<Longrightarrow> pm_fixed pm' = pm_fixed pm"
  "pm_fixed (occupy v pm) = pm_fixed pm"
  by (auto simp: update_cpu_utilization_def set_energy_def deallocate_vms_def occupy_def allocate_vms_def pm_fixed_def
      res_simps Let_def)

section \<open>Operations keep it\<close>

lemma pm_workload_fixed: "pm_workload c s pm = Inr pm' \<Longrightarrow> pm_fixed pm' = pm_fixed pm"
  by (auto simp: pm_workload_def res_simps split: if_splits dest!: pm_fixed_keeps(1,2))

lemma update_pm_workload_fixed: "update_pm_workload c s = Inr s' \<Longrightarrow> same_fixed s s'"
  using mapE_static [of "pm_workload c s" "fv_pms s" _ pm_fixed] pm_workload_fixed [of c s]
  by (fastforce simp: update_pm_workload_def res_simps same_fixed_def frame_fixed_def)

lemma update_group_fixed: "update_group_metrics f ns = Inr ns' \<Longrightarrow> map group_fixed ns' = map group_fixed ns"
  unfolding update_group_metrics_def by (erule mapE_static) (auto simp: res_simps group_fixed_def)

lemma upper_level_fixed: "update_upper_level_metrics s = Inr s' \<Longrightarrow> same_fixed s s'"
  by (auto simp: update_upper_level_metrics_def update_rack_metrics_def update_cluster_metrics_def
      update_data_center_metrics_def update_zone_metrics_def update_region_metrics_def res_simps same_fixed_def
      frame_fixed_def dest!: update_group_fixed)

lemma finish_vm_fixed: "finish_vm a (s, ids) = Inr (s', ids') \<Longrightarrow> same_fixed s s'"
  by (auto simp: finish_vm_def res_simps Let_def same_fixed_def split: if_splits dest!: node_at_Inr pm_fixed_keeps(3)
      intro!: put_pm_fixed) (simp_all add: pm_fixed_def)

lemma fold_fixed:
  assumes "foldE f xs s = Inr s'" "\<And>x s s'. f x s = Inr s' \<Longrightarrow> same_fixed s s'"
  shows "same_fixed s s'"
  by (rule foldE_invariant [OF assms(1)]) (simp, use assms(2) same_fixed_trans in blast)

lemma process_finished_fixed:
  assumes "process_finished_vm s = Inr s'"
  shows "same_fixed s s'"
proof -
  from assms obtain s1 ids where f: "foldE finish_vm (map snd (ve_live s)) (s, []) = Inr (s1, ids)"
    and p: "foldE pop_live ids s1 = Inr s'" by (auto simp: process_finished_vm_def res_simps)
  have "same_fixed s (fst (s1, ids))"
    by (rule foldE_invariant [OF f]) (use finish_vm_fixed same_fixed_trans in \<open>fastforce+\<close>)
  with pop_lives_result [OF p] show ?thesis by (simp add: same_fixed_def)
qed

lemma update_vm_fixed: "update_vm f a s = Inr s' \<Longrightarrow> same_fixed s s'"
  by (auto simp: update_vm_result same_fixed_def)

lemma workload_fixed: "update_vm_workload readings s = Inr s' \<Longrightarrow> same_fixed s s'"
  by (auto simp: update_vm_workload_def elim!: bindE_Inr_E
      dest!: fold_fixed [OF _ update_vm_fixed] intro: same_fixed_trans)

lemma vm_step_fixed:
  assumes "vm_step c t (b, s) = Inr (b', s')"
  shows "same_fixed s s'"
  using assms
proof (rule vm_step_result, goal_cases)
  case (1 readings r1 s1 s2 s3 s4 rows r2)
  from process_finished_fixed [OF 1(2)] have "same_fixed s s1" by (simp add: same_fixed_def)
  with workload_fixed [OF 1(3)] update_pm_workload_fixed [OF 1(4)] upper_level_fixed [OF 1(5)]
  have s4: "same_fixed s s4" by (simp add: same_fixed_def)
  have "same_fixed s (snd (b', s'))"
  proof (rule foldE_invariant [OF 1(7)])
    fix row w w' assume "same_fixed s (snd w)" "push_request (vp_conf c) t readings row w = Inr w'"
    then show "same_fixed s (snd w')" by (cases w) (auto simp: same_fixed_def elim!: push_request_result)
  qed (use s4 in \<open>simp add: same_fixed_def\<close>)
  then show ?case by simp
qed

lemma postpone_fixed: "postpone_vm_request c ty i rem s = Inr (s', es) \<Longrightarrow> same_fixed s s'"
  by (auto simp: postpone_vm_request_def pop_pending_result res_simps same_fixed_def Let_def split: if_splits)

lemma allocate_fixed:
  assumes "allocate_vm c t i p s = Inr s'"
  shows "same_fixed s s'"
  using assms
proof (rule allocate_vm_result, goal_cases)
  case (1 a tick vm j pm1 pm2)
  from 1(6,7) have "pm_fixed pm2 = pm_fixed (fv_pms s ! j)" by (simp add: pm_fixed_keeps)
  with 1(8) py_pos_less [OF 1(5)] show ?case by (simp add: same_fixed_def put_pm_fixed)
qed

lemma apply_action_fixed: "apply_vm_action c t act s = Inr (s', es) \<Longrightarrow> same_fixed s s'"
  by (auto simp: apply_vm_action_def res_simps split: if_splits vm_action.splits intro: postpone_fixed allocate_fixed)

lemma apply_actions_fixed: "apply_vm_actions c t acts s = Inr (s', es) \<Longrightarrow> same_fixed s s'"
  by (induction acts arbitrary: s es)
     (auto simp: res_simps split: py_action.splits dest: apply_action_fixed intro: same_fixed_trans)

lemma vm_invoke_fixed:
  assumes "vm_invoke c hn a (b, s) = Inr (b', s')"
  shows "same_fixed s s'"
proof -
  from assms obtain t p es where "vm_handle c hn t p s = Inr (s', es)"
    by (auto simp: vm_invoke_def Let_def res_simps)
  then show ?thesis
    by (auto simp: vm_handle_def on_vm_action_received_def on_vm_required_def pop_pending_result res_simps same_fixed_def
        Let_def split: vm_handler.splits option.splits vm_payload.splits if_splits
        dest!: postpone_fixed apply_actions_fixed)
qed

lemma kill_vm_fixed: "kill_vm t i s = Inr s' \<Longrightarrow> same_fixed s s' \<and> fv_pms s' = fv_pms s"
  by (auto simp: kill_vm_def pop_live_result res_simps same_fixed_def)

lemma overload_fixed:
  assumes "overload c p t s = Inr s'"
  shows "same_fixed s s'"
proof -
  have kills: "foldE (kill_vm t) ids s = Inr s1 \<Longrightarrow> same_fixed s s1 \<and> fv_pms s1 = fv_pms s" for ids s1
    by (erule foldE_invariant) (auto dest!: kill_vm_fixed intro: same_fixed_trans)
  from assms show ?thesis
    by (auto simp: overload_def res_simps Let_def same_fixed_def split: if_splits dest!: kills node_at_Inr pm_fixed_keeps(3))
       (simp_all add: put_pm_fixed same_fixed_def)
qed

lemma post_pm_fixed: "post_pm c t j (s, e, k) = Inr (s', e', k') \<Longrightarrow> same_fixed s s'"
  by (auto simp: post_pm_def Let_def res_simps same_fixed_def split: if_splits dest!: overload_fixed)

lemma vm_post_step_fixed:
  assumes "vm_post_step c t s = Inr (s', e)"
  shows "same_fixed s s'"
proof -
  from assms obtain s1 en co where f: "foldE (post_pm c t) [0..<length (fv_pms s)] (s, 0, 0) = Inr (s1, en, co)"
    and s': "same_fixed s1 s'"
    by (auto simp: vm_post_step_def update_incomes_def update_profit_def res_simps Let_def same_fixed_def split: if_splits)
  have "same_fixed s (fst (s1, en, co))"
    by (rule foldE_invariant [OF f]) (use post_pm_fixed same_fixed_trans in \<open>fastforce+\<close>)
  with s' show ?thesis using same_fixed_trans by simp
qed

section \<open>The reset\<close>

interpretation vm_fixed: engine_invariant "vm_engine c" "\<lambda>s. frame_fixed s = F" for c :: "'r vm_params" and F
proof (unfold_locales, goal_cases)
  case (1 t b w b' w')
  then have "vm_step c t (b, w) = Inr (b', w')" by (simp add: vm_engine_def)
  from vm_step_fixed [OF this] 1(2) show ?case by (simp add: same_fixed_def)
next
  case (2 t w w' e)
  then have "vm_post_step (vp_conf c) t w = Inr (w', e)" by (simp add: vm_engine_def)
  from vm_post_step_fixed [OF this] 2(2) show ?case by (simp add: same_fixed_def)
next
  case (3 hn a b w b' w')
  then have "vm_invoke c hn a (b, w) = Inr (b', w')" by (simp add: vm_engine_def)
  from vm_invoke_fixed [OF this] 3(2) show ?case by (simp add: same_fixed_def)
next
  case (4 w fi)
  then show ?case by (simp add: vm_engine_def)
qed

lemma group_reset_fixed:
  "group_fixed n = group_fixed n' \<Longrightarrow> group_settled n' \<Longrightarrow> group_reset (frame_reset_group z n) = n'"
  by (cases n; cases n') (auto simp: group_fixed_def group_settled_def group_reset_def frame_reset_group_def)

lemma groups_reset_fixed:
  "map group_fixed ns = map group_fixed ns' \<Longrightarrow> list_all group_settled ns' \<Longrightarrow>
   map (group_reset \<circ> frame_reset_group z) ns = ns'"
proof (induction ns arbitrary: ns')
  case (Cons n ns)
  then obtain n' ms where "ns' = n' # ms" "group_fixed n = group_fixed n'" "map group_fixed ns = map group_fixed ms"
    by (cases ns') auto
  with Cons group_reset_fixed show ?case by auto
qed simp

lemma pm_reset_fixed: "pm_fixed pm = pm_fixed pm' \<Longrightarrow> pm_reset (frame_reset_pm pm) = pm_reset pm'"
  by (cases "pm_idle_energy pm'") (simp_all add: pm_fixed_def pm_reset_def frame_reset_pm_def blank_pm_def Let_def)

lemma pms_reset_fixed:
  "map pm_fixed pms = map pm_fixed pms' \<Longrightarrow> (\<And>pm. pm \<in> set pms' \<Longrightarrow> pm_reset pm = Inr pm) \<Longrightarrow>
   mapE pm_reset (map frame_reset_pm pms) = Inr pms'"
proof (induction pms arbitrary: pms')
  case (Cons pm pms)
  then obtain pm' ms where "pms' = pm' # ms" "pm_fixed pm = pm_fixed pm'" "map pm_fixed pms = map pm_fixed ms"
    by (cases pms') auto
  with Cons show ?case by (simp add: pm_reset_fixed)
qed simp

lemma vm_reset_frame:
  assumes w: "whole_frame s0" and f: "frame_fixed s = frame_fixed s0" and r: "vm_reset c k (b, s) = Inr (b', s')"
  shows "vm_frame.truncate s' = vm_frame.truncate s0 \<and> ve_live s' = [] \<and> ve_pending s' = [] \<and> ve_metrics s' = init_metrics"
proof -
  have pms: "mapE pm_reset (map frame_reset_pm (fv_pms s)) = Inr (fv_pms s0)"
    by (rule pms_reset_fixed) (use w f in \<open>auto simp: frame_fixed_def whole_frame_def fresh_machine_def in_set_conv_nth\<close>)
  from w f have g: "map (group_reset \<circ> frame_reset_group z1) (fv_racks s) = fv_racks s0"
    "map (group_reset \<circ> frame_reset_group z2) (fv_clusters s) = fv_clusters s0"
    "map (group_reset \<circ> frame_reset_group z3) (fv_data_centers s) = fv_data_centers s0"
    "map (group_reset \<circ> frame_reset_group z4) (fv_zones s) = fv_zones s0"
    "map (group_reset \<circ> frame_reset_group z5) (fv_regions s) = fv_regions s0" for z1 z2 z3 z4 z5
    by (auto simp: frame_fixed_def whole_frame_def intro!: groups_reset_fixed)
  from r pms show ?thesis
    by (auto simp: vm_reset_def structure_reset_def vm_frame_reset_def Let_def res_simps vm_frame.defs g)
qed

lemma initial_invariant:
  assumes "init_vms c reader base b = Inr (b0, s0)"
  shows "live_keys s0 = []" "lost_runs s0 = 0"
  using assms by (rule init_vms_result; simp add: vm_frame.defs lost_runs_def live_keys_def init_metrics_def)+

text \<open>C7: Whenever resetting the environment after an episode of the VM scenario returns,
  whatever the agent did in the episode, it gives back exactly the frame the initialisation built,
  with no live or pending VM, the initial metrics and the start tick.\<close>

theorem vm_reset_restores:
  assumes "topology_ok (vp_conf c)" "init_vms c reader base b = Inr (b0, s0)" "env_engine env = s0"
    and "env_steps (vm_engine c) as env = Some (Inr (env1, rs))" "env_reset (vm_engine c) k env1 = Some (Inr env2)"
  shows "vm_frame.truncate (env_engine env2) = vm_frame.truncate s0 \<and> ve_live (env_engine env2) = [] \<and>
    ve_pending (env_engine env2) = [] \<and> ve_metrics (env_engine env2) = ve_metrics s0 \<and>
    env_tick env2 = env_start_tick env1 \<and> env_gen env2 = NotStarted"
proof -
  from vm_fixed.env_steps_inv [OF assms(4), of "frame_fixed s0"] assms(3)
  have f: "frame_fixed (env_engine env1) = frame_fixed s0" by simp
  from assms(5) obtain b1 b2 s2 where r: "vm_reset c k (b1, env_engine env1) = Inr (b2, s2)"
    and e: "env_engine env2 = s2" "env_tick env2 = env_start_tick env1" "env_gen env2 = NotStarted"
    by (auto simp: env_reset_def vm_engine_def split: option.splits sum.splits prod.splits)
  have "ve_metrics s0 = init_metrics" using assms(2) by (rule init_vms_result) (simp add: vm_frame.defs)
  with vm_reset_frame [OF initial_frame [OF assms(1,2)] f r] e show ?thesis by simp
qed

section \<open>Empty machines\<close>

lemma update_group_result:
  "update_group_metrics below_n ns = Inr ns' \<Longrightarrow>
   map gn_members ns' = map gn_members ns \<and> mapE (\<lambda>n. below_n (gn_members n)) ns = Inr (map gn_empty_machine_num ns')"
  unfolding update_group_metrics_def by (induction ns arbitrary: ns') (auto simp: res_simps)

lemma sum_members_split:
  "mapE (\<lambda>n. sum_members f nodes (gn_members n)) ns = Inr ks \<Longrightarrow>
   sum_members f nodes (concat (map gn_members ns)) = Inr (sum_list ks)"
proof (induction ns arbitrary: ks)
  case Nil
  then show ?case by (simp add: sum_members_def)
next
  case (Cons n ns)
  have app: "mapE g (xs @ ys) = bindE (mapE g xs) (\<lambda>us. bindE (mapE g ys) (\<lambda>vs. Inr (us @ vs)))" for g :: "int \<Rightarrow> int res" and xs ys
    by (induction xs) (simp_all add: bindE_def split: sum.splits)
  from Cons show ?case by (fastforce simp: res_simps sum_members_def app)
qed

lemma sum_members_all:
  "sum_members f nodes [0..int (length nodes) - 1] = Inr (sum_list (map f nodes))"
proof -
  have "map (\<lambda>i. f (nodes ! nat i)) [0..int n - 1] = map f (take n nodes)" if "n \<le> length nodes" for n
    using that
  proof (induction n)
    case (Suc n)
    then show ?case by (simp add: upto_rec2 take_Suc_conv_app_nth)
  qed simp
  from this [of "length nodes"] show ?thesis by (subst sum_members_total) auto
qed

lemma group_totals:
  assumes "update_group_metrics (sum_members f nodes) ns = Inr ns'"
    and "concat (map gn_members ns) = [0..int (length nodes) - 1]"
  shows "sum_list (map gn_empty_machine_num ns') = sum_list (map f nodes)"
  using sum_members_split [of f nodes ns] update_group_result [OF assms(1)] sum_members_all [of f nodes] assms(2) by simp

lemma frame_tiled_fixed:
  assumes "frame_fixed s = frame_fixed s0" "frame_tiled s0"
  shows "frame_tiled s"
proof -
  have m: "map gn_members ns = map gn_members ns0" if "map group_fixed ns = map group_fixed ns0" for ns ns0 :: "'i group_node list"
  proof -
    have "map (snd \<circ> snd \<circ> group_fixed) ns = map (snd \<circ> snd \<circ> group_fixed) ns0"
      using that by (metis map_map)
    then show ?thesis by (simp add: group_fixed_def o_def)
  qed
  from assms(1) have len: "length (fv_pms s) = length (fv_pms s0)" "length (fv_racks s) = length (fv_racks s0)"
    "length (fv_clusters s) = length (fv_clusters s0)" "length (fv_data_centers s) = length (fv_data_centers s0)"
    "length (fv_zones s) = length (fv_zones s0)"
    by (auto simp: frame_fixed_def dest: map_eq_imp_length_eq)
  from assms(1) have "map gn_members (fv_racks s) = map gn_members (fv_racks s0)"
    "map gn_members (fv_clusters s) = map gn_members (fv_clusters s0)"
    "map gn_members (fv_data_centers s) = map gn_members (fv_data_centers s0)"
    "map gn_members (fv_zones s) = map gn_members (fv_zones s0)"
    "map gn_members (fv_regions s) = map gn_members (fv_regions s0)"
    by (auto simp: frame_fixed_def intro!: m)
  with assms(2) show ?thesis by (simp add: frame_tiled_def len)
qed

lemma upper_level_totals:
  assumes "update_upper_level_metrics s = Inr s'" "frame_tiled s"
  shows "sum_list (map gn_empty_machine_num (fv_regions s')) = int (length (filter (\<lambda>pm. pm_cpu_cores_allocated pm = 0) (fv_pms s)))"
proof -
  from assms(1) obtain racks clusters dcs zones regions where
    u: "update_group_metrics (sum_members (\<lambda>pm. if pm_cpu_cores_allocated pm = 0 then 1 else 0) (fv_pms s)) (fv_racks s) = Inr racks"
      "update_group_metrics (sum_members gn_empty_machine_num racks) (fv_clusters s) = Inr clusters"
      "update_group_metrics (sum_members gn_empty_machine_num clusters) (fv_data_centers s) = Inr dcs"
      "update_group_metrics (sum_members gn_empty_machine_num dcs) (fv_zones s) = Inr zones"
      "update_group_metrics (sum_members gn_empty_machine_num zones) (fv_regions s) = Inr regions"
    and s': "fv_regions s' = regions"
    by (auto simp: update_upper_level_metrics_def update_rack_metrics_def update_cluster_metrics_def
        update_data_center_metrics_def update_zone_metrics_def update_region_metrics_def count_empty_def [abs_def] res_simps)
  have len: "length racks = length (fv_racks s)" "length clusters = length (fv_clusters s)"
    "length dcs = length (fv_data_centers s)" "length zones = length (fv_zones s)"
    using u(1-4)[THEN update_group_result] by (auto dest: map_eq_imp_length_eq)
  have "sum_list (map gn_empty_machine_num regions) = sum_list (map gn_empty_machine_num zones)"
    by (rule group_totals [OF u(5)]) (use assms(2) in \<open>simp add: frame_tiled_def len\<close>)
  also have "\<dots> = sum_list (map gn_empty_machine_num dcs)"
    by (rule group_totals [OF u(4)]) (use assms(2) in \<open>simp add: frame_tiled_def len\<close>)
  also have "\<dots> = sum_list (map gn_empty_machine_num clusters)"
    by (rule group_totals [OF u(3)]) (use assms(2) in \<open>simp add: frame_tiled_def len\<close>)
  also have "\<dots> = sum_list (map gn_empty_machine_num racks)"
    by (rule group_totals [OF u(2)]) (use assms(2) in \<open>simp add: frame_tiled_def len\<close>)
  also have "\<dots> = sum_list (map (\<lambda>pm. if pm_cpu_cores_allocated pm = 0 then 1 else 0) (fv_pms s))"
    by (rule group_totals [OF u(1)]) (use assms(2) in \<open>simp add: frame_tiled_def\<close>)
  also have "\<dots> = int (length (filter (\<lambda>pm. pm_cpu_cores_allocated pm = 0) (fv_pms s)))"
    by (induction "fv_pms s" rule: list.induct) (auto simp: sum_list_map_filter' [symmetric] sum_list_triv)
  finally show ?thesis by (simp add: s')
qed

text \<open>After any episode, the step of a tick leaves the counts of empty machines of the
  regions adding up to the number of machines without an allocated core.\<close>

theorem vm_step_counts_empty:
  assumes "topology_ok (vp_conf c)" "init_vms c reader base b = Inr (b0, s0)" "env_engine env = s0"
    and "env_steps (vm_engine c) as env = Some (Inr (env1, rs))"
    and "vm_step c t (b1, env_engine env1) = Inr (b2, s)"
  shows "sum_list (map gn_empty_machine_num (fv_regions s)) = int (length (filter (\<lambda>pm. pm_cpu_cores_allocated pm = 0) (fv_pms s)))"
  using assms(5)
proof (rule vm_step_result, goal_cases)
  case (1 readings r1 s1 s2 s3 s4 rows r2)
  from vm_fixed.env_steps_inv [OF assms(4), of "frame_fixed s0"] assms(3)
  have "frame_fixed (env_engine env1) = frame_fixed s0" by simp
  with process_finished_fixed [OF 1(2)] workload_fixed [OF 1(3)] update_pm_workload_fixed [OF 1(4)]
  have "frame_fixed s3 = frame_fixed s0" by (simp add: same_fixed_def)
  with initial_frame [OF assms(1,2)] have "frame_tiled s3" by (auto simp: whole_frame_def intro: frame_tiled_fixed)
  from upper_level_totals [OF 1(5) this]
  have t: "sum_list (map gn_empty_machine_num (fv_regions s4)) = int (length (filter (\<lambda>pm. pm_cpu_cores_allocated pm = 0) (fv_pms s3)))" .
  have p: "fv_pms s4 = fv_pms s3" using 1(5)
    by (auto simp: update_upper_level_metrics_def update_rack_metrics_def update_cluster_metrics_def
        update_data_center_metrics_def update_zone_metrics_def update_region_metrics_def res_simps)
  have "fv_pms (snd (b2, s)) = fv_pms s4 \<and> fv_regions (snd (b2, s)) = fv_regions s4"
  proof (rule foldE_invariant [OF 1(7)])
    fix row w w' assume "fv_pms (snd w) = fv_pms s4 \<and> fv_regions (snd w) = fv_regions s4"
      "push_request (vp_conf c) t readings row w = Inr w'"
    then show "fv_pms (snd w') = fv_pms s4 \<and> fv_regions (snd w') = fv_regions s4"
      by (cases w) (auto elim!: push_request_result simp: on_metrics_def)
  qed simp
  with t p show ?case by simp
qed

end
