(* ===== verification/VmSamples.thy ===== *)
theory VmSamples imports SimSamples VmReset begin

text \<open>
  Concrete instances of the properties of the VM scheduling scenario: one rack with two machines, one
  VM that asks for two cores at tick 0 and runs for two ticks.
\<close>

section \<open>A small data center\<close>

definition tiny_conf :: vm_conf where
  "tiny_conf =
     \<lparr>vmc_delay_duration = 1, vmc_buffer_time_budget = 3, vmc_ticks_per_hour = 12,
      vmc_max_cpu_oversubscription_rate = 1, vmc_max_memory_oversubscription_rate = 1, vmc_max_utilization_rate = 1,
      vmc_price_per_cpu_cores_per_hour = 1, vmc_price_per_memory_per_hour = 1, vmc_unit_energy_price_per_kwh = 1,
      vmc_power_usage_efficiency = 1, vmc_kill_all_vms_if_overload = False,
      vmc_components =
        \<lparr>cmp_pm = [\<lparr>pmc_cpu = 4, pmc_memory = 8,
           pmc_power_curve = \<lparr>pwc_calibration_parameter = 1, pwc_busy_power = 100, pwc_idle_power = 10\<rparr>\<rparr>],
         cmp_rack = [(''r'', [(0, 2)])], cmp_cluster = [(''c'', [(''r'', 1)])]\<rparr>,
      vmc_architecture = [\<lparr>rgc_name = ''R'', rgc_zone = [\<lparr>znc_name = ''Z'', znc_data_center =
        [\<lparr>dcc_name = ''D'', dcc_cluster = [(''c'', 1)]\<rparr>]\<rparr>]\<rparr>]\<rparr>"

definition tiny_row :: vm_row where
  "tiny_row = \<lparr>row_vm_id = 7, row_vm_cpu_cores = 2, row_vm_memory = 4, row_vm_lifetime = 2, row_sub_id = 0,
     row_deploy_id = 0, row_vm_category = 1\<rparr>"

definition tiny :: "unit vm_params" where
  "tiny = \<lparr>vp_conf = tiny_conf, vp_pow = (\<lambda>x y. x), vp_cpu_items = (\<lambda>t r. ([(7, 50)], r)),
     vp_vm_items = (\<lambda>t r. (if t = 0 then [tiny_row] else [], r)), vp_reader_reset = (\<lambda>r. r)\<rparr>"

definition tiny_base :: engine_base where
  "tiny_base = \<lparr>be_start_tick = 0, be_max_tick = 4, be_snapshot_resolution = 1, be_max_snapshots = None\<rparr>"

definition no_events :: vm_buffer where
  "no_events =
     \<lparr>eb_heap = (\<lambda>_. new_event AtomEvent None None None None), eb_fresh = 0, pool_atom = [], pool_cascade = [],
      pool_count = 0, eb_pending = [], eb_handlers = [], eb_finished = [], eb_disable_finished = False,
      eb_record = False, eb_recorder_ep = 0, eb_rows = []\<rparr>"

text \<open>The states the run goes through: built, after tick 0, after the request, after the allocation.\<close>

definition tiny_pm :: "int \<Rightarrow> int \<Rightarrow> int \<Rightarrow> rat \<Rightarrow> rat \<Rightarrow> pm_state \<Rightarrow> int list \<Rightarrow> machine" where
  "tiny_pm i cores memory utilization energy state live =
     \<lparr>pm_id = i, pm_cpu_cores_capacity = 4, pm_memory_capacity = 8, pm_type = 0, pm_cpu_cores_allocated = cores,
      pm_memory_allocated = memory, pm_cpu_utilization = utilization, pm_energy_consumption = energy,
      pm_oversubscribable = state, pm_region_id = 0, pm_zone_id = 0, pm_data_center_id = 0, pm_cluster_id = 0,
      pm_rack_id = 0,
      pm_init = \<lparr>pi_id = i, pi_cpu_cores_capacity = 4, pi_memory_capacity = 8, pi_pm_type = 0,
        pi_pm_state = EMPTY, pi_region_id = 0, pi_zone_id = 0, pi_data_center_id = 0, pi_cluster_id = 0, pi_rack_id = 0\<rparr>,
      pm_idle_energy = Some (1 / 1200), pm_live_vms = live\<rparr>"

definition tiny_group :: "'i group_ids_scheme \<Rightarrow> string \<Rightarrow> int list \<Rightarrow> 'i group_node" where
  "tiny_group ids label members =
     \<lparr>gn_ids = ids, gn_empty_machine_num = 2, gn_init = ids, gn_label = label, gn_members = members\<rparr>"

definition tiny0 :: "unit vms" where
  "tiny0 =
     \<lparr>fv_regions = [tiny_group \<lparr>id_self = 0, id_total = 2\<rparr> ''R'' [0]],
      fv_zones = [tiny_group \<lparr>id_self = 0, id_total = 2, id_region = 0\<rparr> ''Z'' [0]],
      fv_data_centers = [tiny_group \<lparr>id_self = 0, id_total = 2, id_region = 0, id_zone = 0\<rparr> ''D'' [0]],
      fv_clusters = [tiny_group \<lparr>id_self = 0, id_total = 2, id_region = 0, id_zone = 0, id_data_center = 0\<rparr> ''c'' [0]],
      fv_racks = [tiny_group \<lparr>id_self = 0, id_total = 2, id_region = 0, id_zone = 0, id_data_center = 0, id_cluster = 0\<rparr>
        ''r'' [0, 1]],
      fv_pms = [tiny_pm 0 0 0 0 (1 / 1200) EMPTY [], tiny_pm 1 0 0 0 (1 / 1200) EMPTY []],
      ve_requests = [], ve_live = [], ve_pending = [], ve_metrics = init_metrics, ve_tick = 0,
      ve_pending_action_vm_id = 0, ve_reader = (), ve_base = tiny_base, ve_snapshots = []\<rparr>"

definition tiny_vm :: "int \<Rightarrow> rat \<Rightarrow> int \<Rightarrow> int \<Rightarrow> virtual_machine" where
  "tiny_vm pm utilization created deleted =
     \<lparr>vm_id = 7, vm_cpu_cores_requirement = 2, vm_memory_requirement = 4, vm_lifetime = 2, vm_sub_id = 0,
      vm_deployment_id = 0, vm_category = INTERACTIVE, vm_unit_price = 1 / 2, vm_utilization_series = [50],
      vm_pm_id = pm, vm_cpu_utilization = utilization, vm_creation_tick = created, vm_deletion_tick = deleted\<rparr>"

definition tiny1 :: "unit vms" where
  "tiny1 = tiny0\<lparr>ve_requests := [\<lparr>rq_vm_info = tiny_vm (- 1) 0 (- 1) (- 1), rq_remaining_buffer_time = 3\<rparr>],
     ve_metrics := init_metrics\<lparr>mt_total_vm_requests := 1\<rparr>\<rparr>"

definition tiny2 :: "unit vms" where
  "tiny2 = tiny1\<lparr>ve_pending := [(7, 0)], ve_pending_action_vm_id := 7\<rparr>"

definition tiny3 :: "unit vms" where
  "tiny3 = tiny2\<lparr>ve_pending := [], ve_live := [(7, 0)],
     ve_requests := [\<lparr>rq_vm_info = tiny_vm 1 50 0 2, rq_remaining_buffer_time = 3\<rparr>],
     fv_pms := [tiny_pm 0 0 0 0 (1 / 1200) EMPTY [], tiny_pm 1 2 4 25 (13 / 4800) NON_OVERSUBSCRIBABLE [7]],
     ve_metrics := init_metrics\<lparr>mt_total_vm_requests := 1, mt_successful_allocation := 1\<rparr>\<rparr>"

lemma tiny_ok: "topology_ok (vp_conf tiny)" "rows_ok tiny" "\<not> vmc_kill_all_vms_if_overload (vp_conf tiny)"
proof -
  show "topology_ok (vp_conf tiny)" by code_simp
  show "\<not> vmc_kill_all_vms_if_overload (vp_conf tiny)" by (simp add: tiny_def tiny_conf_def)
  show "rows_ok tiny" by (simp add: rows_ok_def tiny_def tiny_row_def)
qed

lemma tiny_init: "gives (init_vms tiny () tiny_base no_events) tiny0"
  by code_simp

lemma tiny_tick: "gives (vm_step tiny 0 (no_events, tiny0)) tiny1"
  by code_simp

lemma tiny_require:
  "on_vm_required (vp_conf tiny) (Some 0) 0 tiny1 = Inr (tiny2, [EmitDecision (Some 0)
     \<lparr>vd_frame_index = 0, vd_valid_pms = [0, 1], vd_vm_id = 7, vd_vm_cpu_cores_requirement = 2,
      vd_vm_memory_requirement = 4, vd_vm_sub_id = 0, vd_vm_category = INTERACTIVE, vd_remaining_buffer_time = 3\<rparr>])"
  by code_simp

lemma tiny_allocate: "allocate_vm tiny (Some 0) 7 1 tiny2 = Inr tiny3"
  by code_simp

lemma tiny_run: "(vm_trans tiny)\<^sup>*\<^sup>* tiny0 tiny3"
proof -
  from tiny_tick obtain b where "vm_step tiny 0 (no_events, tiny0) = Inr (b, tiny1)" by (rule gives_obtain)
  then have "vm_trans tiny tiny0 tiny1" by (rule vm_trans.tick)
  moreover have "vm_trans tiny tiny1 tiny2" by (rule vm_trans.require [OF tiny_require])
  moreover have "vm_trans tiny tiny2 tiny3"
  proof (rule vm_trans.allocate)
    show "on_vm_action_received tiny (Some 0) [OneAction (AllocateAction 7 1)] tiny2 = Inr (tiny3, [])"
    proof -
      have "dict_mem 7 (ve_pending tiny2)" by (simp add: tiny2_def dict_mem_def)
      then show ?thesis by (simp add: on_vm_action_received_def apply_vm_action_def tiny_allocate)
    qed
    show "\<not> dict_mem 7 (ve_live tiny2)" "map_of (ve_pending tiny2) 7 = Some 0"
      by (simp_all add: tiny2_def tiny1_def tiny0_def dict_mem_def)
    show "1 \<in> set (get_valid_pms (vp_conf tiny) (vm_cpu_cores_requirement (vm_of tiny2 0))
        (vm_memory_requirement (vm_of tiny2 0)) (vm_category (vm_of tiny2 0)) (fv_pms tiny2))"
      by code_simp
  qed
  ultimately show ?thesis by (meson converse_rtranclp_into_rtranclp rtranclp.rtrancl_refl)
qed

section \<open>Instances\<close>

theorem vm_run_accounted_witness:
  "length (fv_pms tiny3) = 2 \<and> pm_live_vms (fv_pms tiny3 ! 1) = [7] \<and>
   machine_ok tiny3 (ve_live tiny3) 1 \<and> fits (vp_conf tiny) (fv_pms tiny3 ! 1)"
proof -
  from tiny_init obtain b where i: "init_vms tiny () tiny_base no_events = Inr (b, tiny0)" by (rule gives_obtain)
  have l: "length (fv_pms tiny3) = 2" "pm_live_vms (fv_pms tiny3 ! 1) = [7]" by (simp_all add: tiny3_def tiny_pm_def)
  from vm_run_accounted [OF tiny_ok i tiny_run] l show ?thesis by simp
qed

theorem init_structure_witness:
  "\<exists>am s. load_amounts (vp_conf tiny) = Inr am \<and> init_structure (\<lambda>x y. x) (vp_conf tiny) (build_frame am) = Inr s \<and>
     length (fv_pms s) = nat (am_pm am)"
  using init_structure_exact [OF tiny_ok(1), of "\<lambda>x y. x"] by blast

theorem allocate_witness:
  "allocate_vm tiny (Some 0) 7 1 tiny2 = Inr tiny3 \<and> ve_live tiny3 = AList.update 7 0 (ve_live tiny2)"
  using allocate_effect [OF tiny_allocate] tiny_allocate by (auto simp: tiny2_def)

theorem process_finished_witness:
  "\<exists>s'. process_finished_vm (tiny3\<lparr>ve_tick := 2\<rparr>) = Inr s' \<and> ve_live s' = []"
proof -
  let ?s = "tiny3\<lparr>ve_tick := 2\<rparr>"
  have "\<not> isl (process_finished_vm ?s)" by code_simp
  then obtain s' where s': "process_finished_vm ?s = Inr s'" by (cases "process_finished_vm ?s") auto
  have "distinct (map fst (ve_live ?s))" "list_all (entry_ok ?s) (ve_live ?s)" "filter (\<lambda>e. \<not> finishes ?s e) (ve_live ?s) = []"
    by (simp_all add: tiny3_def entry_ok_def vm_of_def finishes_def tiny_vm_def)
  with process_finished_exact [OF s'] s' show ?thesis by simp
qed

theorem postpone_witness:
  "\<exists>s'. apply_vm_action tiny (Some 0) (PostponeAction 7 2) tiny2 = Inr (s', [EmitRequest 1 0])"
proof -
  let ?r = "apply_vm_action tiny (Some 0) (PostponeAction 7 2) tiny2"
  have "\<not> isl ?r" by code_simp
  then obtain s' es where s': "?r = Inr (s', es)" by (cases ?r) auto
  from postpone_effect [OF s'] s' show ?thesis
    by (simp add: tiny2_def tiny1_def tiny0_def tiny_def tiny_conf_def Let_def)
qed

theorem overload_witness:
  "\<exists>s'. overload (tiny_conf\<lparr>vmc_kill_all_vms_if_overload := True\<rparr>) 1 1 tiny3 = Inr s' \<and> ve_live s' = [] \<and>
     pm_live_vms (fv_pms s' ! 1) = [] \<and> pm_cpu_cores_allocated (fv_pms s' ! 1) = 2"
proof -
  let ?c = "tiny_conf\<lparr>vmc_kill_all_vms_if_overload := True\<rparr>"
  let ?r = "overload ?c 1 1 tiny3" and ?pm = "fv_pms tiny3 ! 1"
  have "\<not> isl ?r" by code_simp
  then obtain s' where s': "?r = Inr s'" by (cases ?r) auto
  have n: "node_at (fv_pms tiny3) 1 = Inr (1, ?pm)" by (simp add: node_at_def py_pos_def tiny3_def)
  from overload_leaks [OF s' _ n] s' show ?thesis by (simp add: tiny3_def tiny_pm_def)
qed

section \<open>Episodes\<close>

text \<open>An episode of one tick in which no VM is asked for.\<close>

definition idle :: "unit vm_params" where
  "idle = tiny\<lparr>vp_vm_items := (\<lambda>t r. ([], r))\<rparr>"

definition idle_start :: "unit vms" where
  "idle_start = tiny0\<lparr>ve_base := tiny_base\<lparr>be_max_tick := 1\<rparr>\<rparr>"

definition idle_env :: "(vm_events, vm_payload, vm_handler, unit vms) env" where
  "idle_env = init_env 0 1 Sequential no_events idle_start"

lemma idle_vm_step: "vm_step idle 0 (no_events, idle_start) = Inr (no_events, idle_start)"
proof -
  have "process_finished_vm idle_start = Inr idle_start" "update_vm_workload [(7, 50)] idle_start = Inr idle_start"
    "update_pm_workload idle idle_start = Inr idle_start" "update_upper_level_metrics idle_start = Inr idle_start"
    by code_simp+
  moreover have "idle_start\<lparr>ve_tick := 0, ve_reader := r\<rparr> = idle_start" "idle_start\<lparr>ve_reader := r\<rparr> = idle_start" for r
    by (simp_all add: idle_start_def tiny0_def)
  ultimately show ?thesis by (simp add: vm_step_def idle_def tiny_def)
qed

definition idle_end :: "unit vms" where
  "idle_end = fst (projr (vm_post_step (vp_conf idle) 0 idle_start))"

lemma idle_episode:
  obtains env1 r where "env_steps (vm_engine idle) [NoAction] idle_env = Some (Inr (env1, [r]))" "snd (snd r)"
    "env_tick env1 = 0" "env_buffer env1 = no_events" "env_start_tick env1 = 0" "env_engine env1 = idle_end"
proof -
  let ?c = "vm_engine idle"
  have st: "ng_step ?c 0 (no_events, idle_start) = Inr (no_events, idle_start)"
    by (simp add: vm_engine_def idle_vm_step)
  have ex: "execute (ng_invoke ?c) 0 (no_events, idle_start) = Some (Inr ((no_events, idle_start), []))"
    by (subst execute.simps) (simp add: no_events_def)
  have "case vm_post_step (vp_conf idle) 0 idle_start of Inl _ \<Rightarrow> False | Inr x \<Rightarrow> snd x" by code_simp
  then have po: "ng_post_step ?c 0 idle_start = Inr (idle_end, True)"
    by (auto simp: vm_engine_def idle_end_def split: sum.splits)
  have "\<exists>env1 r. env_step ?c NoAction idle_env = Some (Inr (env1, r)) \<and> snd (snd r) \<and> env_tick env1 = 0
      \<and> env_buffer env1 = no_events \<and> env_start_tick env1 = 0 \<and> env_engine env1 = idle_end"
    by (simp add: env_step_def idle_env_def init_env_def st, subst run_inner.simps)
       (simp add: ex po yield_final_def env_frame_index_def tick_to_frame_index_def Let_def, blast)
  then show thesis using that by auto
qed

lemma idle_ok: "distinct (live_keys (env_engine idle_env))" "0 \<le> lost_runs (env_engine idle_env)"
  by (simp_all add: idle_env_def init_env_def idle_start_def tiny0_def live_keys_def lost_runs_def init_metrics_def)

theorem vm_episode_counters_witness:
  "\<exists>env1 r. env_steps (vm_engine idle) [NoAction] idle_env = Some (Inr (env1, [r])) \<and>
     vm_frozen (env_engine env1) = vm_frozen idle_start"
proof -
  obtain env1 r where e: "env_steps (vm_engine idle) [NoAction] idle_env = Some (Inr (env1, [r]))" by (rule idle_episode)
  have "vm_frozen (env_engine env1) = vm_frozen idle_start"
    using vm_episode_counters [OF e idle_ok] by (simp add: idle_env_def init_env_def)
  with e show ?thesis by blast
qed

theorem vm_episode_ends_witness:
  "\<exists>env1 r. env_steps (vm_engine idle) [NoAction] idle_env = Some (Inr (env1, [r])) \<and> snd (snd r) \<and> env_tick env1 = 0"
proof -
  obtain env1 r where e: "env_steps (vm_engine idle) [NoAction] idle_env = Some (Inr (env1, [r]))" "snd (snd r)"
    by (rule idle_episode)
  have "env_gen idle_env = NotStarted" "env_tick idle_env = 0" "be_max_tick (ve_base (env_engine idle_env)) = 1"
    by (simp_all add: idle_env_def init_env_def idle_start_def)
  with vm_episode_ends [OF e(1) _ idle_ok] e show ?thesis by auto
qed

lemma idle_init: "gives (init_vms idle () (tiny_base\<lparr>be_max_tick := 1\<rparr>) no_events) idle_start"
  by code_simp

lemma idle_topology: "topology_ok (vp_conf idle)"
  using tiny_ok(1) by (simp add: idle_def)

theorem vm_reset_restores_witness:
  "\<exists>env1 rs env2. env_steps (vm_engine idle) [NoAction] idle_env = Some (Inr (env1, rs)) \<and>
     env_reset (vm_engine idle) True env1 = Some (Inr env2) \<and> env_tick env2 = 0 \<and>
     vm_frame.truncate (env_engine env2) = vm_frame.truncate idle_start"
proof -
  obtain env1 r where e: "env_steps (vm_engine idle) [NoAction] idle_env = Some (Inr (env1, [r]))"
    and s: "env_buffer env1 = no_events" "env_start_tick env1 = 0" "env_engine env1 = idle_end" by (rule idle_episode)
  from idle_init obtain b where i: "init_vms idle () (tiny_base\<lparr>be_max_tick := 1\<rparr>) no_events = Inr (b, idle_start)"
    by (rule gives_obtain)
  have g: "env_engine idle_env = idle_start" by (simp add: idle_env_def init_env_def)
  have "case vm_reset idle True (no_events, idle_end) of Inl _ \<Rightarrow> False | Inr _ \<Rightarrow> True" by code_simp
  then obtain w where "vm_reset idle True (no_events, idle_end) = Inr w" by (auto split: sum.splits)
  moreover have "reset_buffer no_events = Some no_events"
    by (simp add: reset_buffer_def no_events_def recycle_all_def Let_def)
  ultimately have "\<exists>env2. env_reset (vm_engine idle) True env1 = Some (Inr env2)"
    by (cases w) (simp add: env_reset_def s vm_engine_def)
  then obtain env2 where r: "env_reset (vm_engine idle) True env1 = Some (Inr env2)" ..
  from vm_reset_restores [OF idle_topology i g e r] e r s(2) show ?thesis by metis
qed

theorem vm_step_counts_empty_witness:
  "\<exists>b2 s. vm_step idle 0 (no_events, idle_start) = Inr (b2, s) \<and> sum_list (map gn_empty_machine_num (fv_regions s)) = 2"
proof -
  from idle_init obtain b where i: "init_vms idle () (tiny_base\<lparr>be_max_tick := 1\<rparr>) no_events = Inr (b, idle_start)"
    by (rule gives_obtain)
  have g: "env_engine idle_env = idle_start" by (simp add: idle_env_def init_env_def)
  have e: "env_steps (vm_engine idle) [] idle_env = Some (Inr (idle_env, []))" by simp
  have "int (length (filter (\<lambda>pm. pm_cpu_cores_allocated pm = 0) (fv_pms idle_start))) = 2"
    by (simp add: idle_start_def tiny0_def tiny_pm_def)
  with vm_step_counts_empty [OF idle_topology i g e, unfolded g, OF idle_vm_step] idle_vm_step show ?thesis by simp
qed

end
