(* ===== verification/DataReader.thy ===== *)
theory DataReader imports SimUtils begin

text \<open>
  \<open>maro/data_lib/binary_reader.py\<close>: the items of a binary data file in a range of time, read through a
  buffer, and the picker that hands them out tick by tick.

  A file is the list of its items; a position in the data area is a number of items.  The generators
  are lists: \<open>items\<close> yields what \<open>reader_items\<close> returns, and is its reader's only user.  Parsing the
  header and the meta data, and memory mapping, are not modelled.
\<close>

section \<open>Time units\<close>

definition unit_seconds :: "string \<Rightarrow> int" where
  "unit_seconds unit =
     (if unit = ''m'' then 60 else if unit = ''h'' then 60 * 60 else if unit = ''d'' then 60 * 60 * 24 else 1)"

definition calc_time_offset :: "int \<Rightarrow> int \<Rightarrow> string \<Rightarrow> int" where
  "calc_time_offset start_time offset unit = offset * unit_seconds unit + start_time"

lemma unit_seconds_pos: "0 < unit_seconds unit"
  by (simp add: unit_seconds_def)

section \<open>The reader\<close>

text \<open>\<open>rd_buffer\<close> is the item buffer, \<open>rd_pos\<close> the position of the file, \<open>rd_history\<close> the positions recorded
  for start offsets, and \<open>rd_readed\<close> the amount of data loaded.\<close>

record 'i reader =
  rd_data :: "'i list"
  rd_starttime :: int
  rd_endtime :: int
  rd_buffer_size :: nat
  rd_history :: "(int \<times> nat) list"
  rd_pos :: nat
  rd_readed :: nat
  rd_buffer :: "'i list"

definition new_reader :: "'i list \<Rightarrow> int \<Rightarrow> int \<Rightarrow> nat \<Rightarrow> 'i reader" where
  "new_reader data starttime endtime buffer_size =
     \<lparr>rd_data = data, rd_starttime = starttime, rd_endtime = endtime, rd_buffer_size = buffer_size,
      rd_history = [], rd_pos = 0, rd_readed = 0, rd_buffer = []\<rparr>"

definition reader_reset :: "'i reader \<Rightarrow> 'i reader" where
  "reader_reset r = r\<lparr>rd_readed := 0\<rparr>"

definition fulfill_buffer :: "'i reader \<Rightarrow> 'i reader" where
  "fulfill_buffer r =
     (let size = min (rd_buffer_size r) (length (rd_data r) - rd_readed r)
      in if size = 0 then r\<lparr>rd_buffer := []\<rparr>
         else let chunk = take size (drop (rd_pos r) (rd_data r))
              in r\<lparr>rd_pos := rd_pos r + length chunk, rd_readed := rd_readed r + length chunk, rd_buffer := chunk\<rparr>)"

text \<open>The \<open>for\<close> loop over the buffer: the items in range, whether one of them was, and whether an item
  beyond the range ends the query.\<close>

fun scan_buffer :: "('i \<Rightarrow> int) \<Rightarrow> int \<Rightarrow> int \<Rightarrow> 'i list \<Rightarrow> 'i list \<times> bool" where
  "scan_buffer ts start_time end_time [] = ([], False)"
| "scan_buffer ts start_time end_time (x # xs) =
     (if end_time < ts x then ([], True)
      else let (ys, finished) = scan_buffer ts start_time end_time xs
           in (if start_time \<le> ts x then x # ys else ys, finished))"

lemma fulfill_progress:
  assumes "rd_buffer (fulfill_buffer r) \<noteq> []"
  shows "length (rd_data (fulfill_buffer r)) - rd_pos (fulfill_buffer r) < length (rd_data r) - rd_pos r"
  using assms by (auto simp: fulfill_buffer_def Let_def split: if_splits)

text \<open>The \<open>while\<close> loop.  \<open>pre\<close> is the position noted before the buffer was last filled (after it, for the
  first buffer), and the first item in range records where to start the next time.\<close>

function items_loop ::
  "('i \<Rightarrow> int) \<Rightarrow> int \<Rightarrow> int \<Rightarrow> int \<Rightarrow> nat \<Rightarrow> 'i reader \<Rightarrow> 'i list \<times> 'i reader" where
  "items_loop ts key start_time end_time pre r =
     (if rd_buffer r = [] then ([], r)
      else
        let (xs, finished) = scan_buffer ts start_time end_time (rd_buffer r);
            r1 = (if xs \<noteq> [] \<and> \<not> dict_mem key (rd_history r)
                  then r\<lparr>rd_history := AList.update key (pre - length (rd_buffer r)) (rd_history r)\<rparr> else r)
        in if finished then (xs, r1)
           else let (ys, r2) = items_loop ts key start_time end_time (rd_pos r1) (fulfill_buffer r1) in (xs @ ys, r2))"
  by pat_completeness auto

termination
proof (relation "measure (\<lambda>(ts, key, start_time, end_time, pre, r).
    if rd_buffer r = [] then 0 else Suc (length (rd_data r) - rd_pos r))", goal_cases)
  case (2 ts key start_time end_time pre r x xs finished r1)
  then have "rd_data r1 = rd_data r" "rd_pos r1 = rd_pos r" by simp_all
  with fulfill_progress [of r1] 2(1) show ?case by auto
qed simp

declare items_loop.simps [simp del]

definition reader_items ::
  "('i \<Rightarrow> int) \<Rightarrow> int \<Rightarrow> int option \<Rightarrow> string \<Rightarrow> 'i reader \<Rightarrow> 'i list \<times> 'i reader" where
  "reader_items ts start_time_offset end_time_offset unit r =
     (let r0 = reader_reset r;
          start_time = calc_time_offset (rd_starttime r0) start_time_offset unit;
          end_time = (case end_time_offset of None \<Rightarrow> rd_endtime r0 | Some e \<Rightarrow> calc_time_offset (rd_starttime r0) e unit);
          offset = (case map_of (rd_history r0) start_time_offset of None \<Rightarrow> 0 | Some p \<Rightarrow> p);
          r1 = fulfill_buffer (r0\<lparr>rd_pos := offset\<rparr>)
      in items_loop ts start_time_offset start_time end_time (rd_pos r1) r1)"

section \<open>The picker\<close>

record 'i picker =
  pk_items :: "'i list"
  pk_starttime :: int
  pk_time_unit :: string
  pk_cached :: "'i option"

definition new_picker :: "'i list \<Rightarrow> int \<Rightarrow> string \<Rightarrow> 'i picker" where
  "new_picker items starttime unit = \<lparr>pk_items = items, pk_starttime = starttime, pk_time_unit = unit, pk_cached = None\<rparr>"

definition items_tick_picker ::
  "('i \<Rightarrow> int) \<Rightarrow> int \<Rightarrow> int option \<Rightarrow> string \<Rightarrow> 'i reader \<Rightarrow> 'i picker \<times> 'i reader" where
  "items_tick_picker ts start_time_offset end_time_offset unit r =
     (let (xs, r1) = reader_items ts start_time_offset end_time_offset unit r
      in (new_picker xs (rd_starttime r) unit, r1))"

text \<open>The loop of \<open>ItemTickPicker.items\<close>: items of the unit of time are yielded, the first later one is
  kept for the next call, earlier ones are skipped.\<close>

fun pick_loop :: "('i \<Rightarrow> int) \<Rightarrow> int \<Rightarrow> int \<Rightarrow> 'i list \<Rightarrow> 'i list \<times> 'i option \<times> 'i list" where
  "pick_loop ts lo width [] = ([], None, [])"
| "pick_loop ts lo width (x # xs) =
     (if lo \<le> ts x then
        (if ts x - lo < width then let (ys, rest) = pick_loop ts lo width xs in (x # ys, rest)
         else ([], Some x, xs))
      else pick_loop ts lo width xs)"

definition picker_items :: "('i \<Rightarrow> int) \<Rightarrow> int \<Rightarrow> 'i picker \<Rightarrow> 'i list \<times> 'i picker" where
  "picker_items ts tick p =
     (let width = unit_seconds (pk_time_unit p);
          (xs, cached, rest) = pick_loop ts (pk_starttime p + tick * width) width
            (case pk_cached p of None \<Rightarrow> pk_items p | Some x \<Rightarrow> x # pk_items p)
      in (xs, p\<lparr>pk_cached := cached, pk_items := rest\<rparr>))"

section \<open>Queries are exact\<close>

abbreviation in_time :: "('i \<Rightarrow> int) \<Rightarrow> int \<Rightarrow> int \<Rightarrow> 'i \<Rightarrow> bool" where
  "in_time ts a b x \<equiv> a \<le> ts x \<and> ts x \<le> b"

abbreviation in_order :: "('i \<Rightarrow> int) \<Rightarrow> 'i list \<Rightarrow> bool" where
  "in_order ts xs \<equiv> sorted (map ts xs)"

lemma scan_buffer_spec:
  "in_order ts xs \<Longrightarrow> scan_buffer ts a b xs = (filter (in_time ts a b) xs, \<exists>x \<in> set xs. b < ts x)"
proof (induction xs)
  case (Cons x xs)
  have "filter (in_time ts a b) xs = []" if "b < ts x"
    using Cons.prems that by (force simp: filter_empty_conv)
  with Cons show ?case by auto
qed simp

text \<open>The recorded position of a start offset lies before the first item of its range.\<close>

definition history_ok :: "('i \<Rightarrow> int) \<Rightarrow> int \<Rightarrow> int \<Rightarrow> 'i reader \<Rightarrow> bool" where
  "history_ok ts key a r \<longleftrightarrow> (\<forall>p. map_of (rd_history r) key = Some p \<longrightarrow>
     p \<le> length (rd_data r) \<and> (\<forall>x \<in> set (take p (rd_data r)). ts x < a))"

text \<open>The buffer holds the data just before the position.\<close>

definition segment :: "'i reader \<Rightarrow> nat \<Rightarrow> bool" where
  "segment r b \<longleftrightarrow> rd_buffer r = drop b (take (rd_pos r) (rd_data r)) \<and> b \<le> rd_pos r \<and> rd_pos r \<le> length (rd_data r) \<and>
     rd_readed r \<le> rd_pos r \<and> 0 < rd_buffer_size r"

lemma segment_fulfill:
  assumes "rd_readed r \<le> rd_pos r" "rd_pos r \<le> length (rd_data r)" "0 < rd_buffer_size r"
  shows "segment (fulfill_buffer r) (rd_pos r)"
    "rd_buffer (fulfill_buffer r) = [] \<Longrightarrow> rd_pos r = length (rd_data r)"
    "rd_data (fulfill_buffer r) = rd_data r" "rd_history (fulfill_buffer r) = rd_history r"
    "rd_starttime (fulfill_buffer r) = rd_starttime r" "rd_endtime (fulfill_buffer r) = rd_endtime r"
    "rd_buffer_size (fulfill_buffer r) = rd_buffer_size r"
  using assms by (auto simp: fulfill_buffer_def segment_def Let_def min_def take_drop add.commute split: if_splits)

lemma drop_take_append: "b \<le> n \<Longrightarrow> drop b (take n xs) @ drop n xs = drop b xs"
  by (metis append_take_drop_id drop_drop drop_take le_add_diff_inverse2)

definition same_file :: "'i reader \<Rightarrow> 'i reader \<Rightarrow> bool" where
  "same_file r r' \<longleftrightarrow> rd_data r' = rd_data r \<and> rd_starttime r' = rd_starttime r \<and> rd_endtime r' = rd_endtime r \<and>
     rd_buffer_size r' = rd_buffer_size r"

definition same_notes :: "int \<Rightarrow> 'i reader \<Rightarrow> 'i reader \<Rightarrow> bool" where
  "same_notes key r r' \<longleftrightarrow> (\<forall>k. k \<noteq> key \<longrightarrow> map_of (rd_history r') k = map_of (rd_history r) k)"

lemma segment_split:
  assumes "segment r b"
  shows "drop b (rd_data r) = rd_buffer r @ drop (rd_pos r) (rd_data r)"
    "take (rd_pos r) (rd_data r) = take b (rd_data r) @ rd_buffer r" "length (rd_buffer r) = rd_pos r - b"
  using assms drop_take_append [of b "rd_pos r" "rd_data r"] append_take_drop_id [of b "take (rd_pos r) (rd_data r)"]
  by (simp_all add: segment_def min_absorb1)

text \<open>One round of the loop: the history it leaves, and what a finished query need not read.\<close>

definition note_start :: "'i list \<Rightarrow> int \<Rightarrow> nat \<Rightarrow> 'i reader \<Rightarrow> 'i reader" where
  "note_start xs key pre r = (if xs \<noteq> [] \<and> \<not> dict_mem key (rd_history r)
     then r\<lparr>rd_history := AList.update key (pre - length (rd_buffer r)) (rd_history r)\<rparr> else r)"

lemma note_start_simps [simp]:
  "rd_data (note_start xs key pre r) = rd_data r" "rd_pos (note_start xs key pre r) = rd_pos r"
  "rd_readed (note_start xs key pre r) = rd_readed r" "rd_buffer_size (note_start xs key pre r) = rd_buffer_size r"
  "rd_starttime (note_start xs key pre r) = rd_starttime r" "rd_endtime (note_start xs key pre r) = rd_endtime r"
  by (simp_all add: note_start_def)

lemma same_notes_start [simp]: "same_notes key r (note_start xs key pre r)"
  by (simp add: same_notes_def note_start_def)

lemma note_start_history:
  assumes "segment r b" "history_ok ts key a r" "pre \<le> rd_pos r"
    and "dict_mem key (rd_history r) \<or> (\<forall>x \<in> set (take b (rd_data r)). ts x < a)"
  shows "history_ok ts key a (note_start xs key pre r)"
proof (cases "xs \<noteq> [] \<and> \<not> dict_mem key (rd_history r)")
  case True
  then have "\<forall>x \<in> set (take b (rd_data r)). ts x < a" using assms(4) by blast
  moreover have "set (take (pre - length (rd_buffer r)) (rd_data r)) \<subseteq> set (take b (rd_data r))"
    using assms(1,3) segment_split(3) [OF assms(1)] by (intro set_take_subset_set_take) (simp add: segment_def)
  ultimately show ?thesis using True assms(1,3) by (auto simp: history_ok_def note_start_def segment_def)
qed (use assms(2) in \<open>auto simp: note_start_def\<close>)

lemma finished_rest:
  assumes "in_order ts (xs @ ys)" "x \<in> set xs" "e < ts x"
  shows "filter (in_time ts a e) ys = []"
  using assms by (fastforce simp: filter_empty_conv sorted_append)

lemma items_loop_spec:
  assumes "in_order ts (rd_data r)" "segment r b" "history_ok ts key a r" "pre \<le> rd_pos r"
    and "rd_buffer r = [] \<longrightarrow> rd_pos r = length (rd_data r)"
    and "dict_mem key (rd_history r) \<or> (\<forall>x \<in> set (take b (rd_data r)). ts x < a)"
  shows "\<exists>r'. items_loop ts key a e pre r = (filter (in_time ts a e) (drop b (rd_data r)), r') \<and>
    history_ok ts key a r' \<and> same_file r r' \<and> same_notes key r r'"
  using assms
proof (induction ts key a e pre r arbitrary: b rule: items_loop.induct)
  case (1 ts key a e pre r)
  let ?D = "rd_data r" and ?B = "rd_buffer r" and ?P = "in_time ts a e"
  note split = segment_split [OF 1(3)]
  show ?case
  proof (cases "?B = []")
    case True
    with 1(6) split(1) have "drop b ?D = []" by simp
    with True 1(4) show ?thesis by (subst items_loop.simps) (simp add: same_file_def same_notes_def)
  next
    case False
    let ?r1 = "note_start (filter ?P ?B) key pre r"
    have sD: "in_order ts (?B @ drop (rd_pos r) ?D)" using 1(2) by (simp add: split(1) [symmetric] drop_map [symmetric])
    then have sB: "in_order ts ?B" by (simp add: sorted_append)
    note sc = scan_buffer_spec [OF sB, of a e] and h1 = note_start_history [OF 1(3,4,5,7), of "filter ?P ?B"]
    have step: "items_loop ts key a e pre r = (if \<exists>x \<in> set ?B. e < ts x then (filter ?P ?B, ?r1)
        else let (ys, r2) = items_loop ts key a e (rd_pos r) (fulfill_buffer ?r1) in (filter ?P ?B @ ys, r2))"
      using False sc by (simp add: items_loop.simps [of ts key a e pre r] note_start_def [symmetric] Let_def)
    show ?thesis
    proof (cases "\<exists>x \<in> set ?B. e < ts x")
      case True
      then have "filter ?P (drop (rd_pos r) ?D) = []" using finished_rest [OF sD] by blast
      with True step h1 split(1) show ?thesis by (simp add: same_file_def)
    next
      case nf: False
      have "rd_readed ?r1 \<le> rd_pos ?r1" "rd_pos ?r1 \<le> length (rd_data ?r1)" "0 < rd_buffer_size ?r1"
        using 1(3) by (auto simp: segment_def)
      note ff = segment_fulfill [OF this]
      have "dict_mem key (rd_history ?r1) \<or> (\<forall>x \<in> set (take (rd_pos r) ?D). ts x < a)"
      proof (cases "dict_mem key (rd_history ?r1)")
        case False
        then have n: "\<not> dict_mem key (rd_history r)" "filter ?P ?B = []"
          by (auto simp: note_start_def dict_mem_def dom_update split: if_splits)
        then have "ts x < a" if "x \<in> set ?B" for x using nf that by (force simp: filter_empty_conv)
        with n(1) 1(7) split(2) show ?thesis by auto
      qed simp
      then have h6: "dict_mem key (rd_history (fulfill_buffer ?r1)) \<or> (\<forall>x \<in> set (take (rd_pos r) (rd_data (fulfill_buffer ?r1))). ts x < a)"
        using ff(3,4) by simp
      have h2: "in_order ts (rd_data (fulfill_buffer ?r1))" using 1(2) ff(3) by simp
      have h3: "segment (fulfill_buffer ?r1) (rd_pos r)" using ff(1) by simp
      have h4: "history_ok ts key a (fulfill_buffer ?r1)" using h1 ff(3,4) by (simp add: history_ok_def)
      have h5: "rd_pos ?r1 \<le> rd_pos (fulfill_buffer ?r1)" using h3 by (simp add: segment_def)
      have h7: "rd_buffer (fulfill_buffer ?r1) = [] \<longrightarrow> rd_pos (fulfill_buffer ?r1) = length (rd_data (fulfill_buffer ?r1))"
        using ff(2,3) h3 by (auto simp: segment_def)
      from 1(1) [OF False refl sc [symmetric] note_start_def nf h2 h3 h4 h5 h7 h6] ff(3)
      obtain r' where "items_loop ts key a e (rd_pos r) (fulfill_buffer ?r1) = (filter ?P (drop (rd_pos r) ?D), r')"
        "history_ok ts key a r'" "same_file (fulfill_buffer ?r1) r'" "same_notes key (fulfill_buffer ?r1) r'" by auto
      with nf step split(1) ff same_notes_start [of key r "filter ?P ?B" pre] show ?thesis
        by (simp add: same_file_def same_notes_def)
    qed
  qed
qed

text \<open>A reader over data in the order of time, all of whose recorded positions come from queries in the
  same unit.\<close>

definition reader_ok :: "('i \<Rightarrow> int) \<Rightarrow> string \<Rightarrow> 'i reader \<Rightarrow> bool" where
  "reader_ok ts unit r \<longleftrightarrow> in_order ts (rd_data r) \<and> 0 < rd_buffer_size r \<and>
     (\<forall>k. history_ok ts k (calc_time_offset (rd_starttime r) k unit) r)"

lemma reader_ok_new: "in_order ts data \<Longrightarrow> 0 < n \<Longrightarrow> reader_ok ts unit (new_reader data a b n)"
  by (simp add: reader_ok_def new_reader_def history_ok_def)

lemma reader_items_spec:
  assumes "reader_ok ts unit r"
  shows "\<exists>r'. reader_items ts k e unit r = (filter (in_time ts (calc_time_offset (rd_starttime r) k unit)
      (case e of None \<Rightarrow> rd_endtime r | Some e' \<Rightarrow> calc_time_offset (rd_starttime r) e' unit)) (rd_data r), r') \<and>
    reader_ok ts unit r' \<and> same_file r r'"
proof -
  let ?a = "calc_time_offset (rd_starttime r) k unit"
  let ?e = "case e of None \<Rightarrow> rd_endtime r | Some e' \<Rightarrow> calc_time_offset (rd_starttime r) e' unit"
  obtain q where q: "q = (case map_of (rd_history r) k of None \<Rightarrow> 0 | Some p \<Rightarrow> p)" by blast
  let ?r0 = "(reader_reset r)\<lparr>rd_pos := q\<rparr>"
  from assms have r: "in_order ts (rd_data r)" "0 < rd_buffer_size r"
    and h: "\<And>k. history_ok ts k (calc_time_offset (rd_starttime r) k unit) r" by (auto simp: reader_ok_def)
  have p: "q \<le> length (rd_data r)" "\<forall>x \<in> set (take q (rd_data r)). ts x < ?a"
    using h [of k] by (auto simp: history_ok_def q split: option.splits)
  have "rd_readed ?r0 \<le> rd_pos ?r0" "rd_pos ?r0 \<le> length (rd_data ?r0)" "0 < rd_buffer_size ?r0"
    using p r by (simp_all add: reader_reset_def)
  note ff = segment_fulfill [OF this]
  let ?f = "fulfill_buffer ?r0"
  have d: "rd_data ?f = rd_data r" using ff(3) by (simp add: reader_reset_def)
  have 1: "in_order ts (rd_data ?f)" using r(1) d by simp
  have 2: "segment ?f q" using ff(1) by simp
  have 3: "history_ok ts k ?a ?f" using h [of k] ff(4) d by (simp add: history_ok_def reader_reset_def)
  have 4: "rd_buffer ?f = [] \<longrightarrow> rd_pos ?f = length (rd_data ?f)" using ff(2) 2 d by (auto simp: segment_def reader_reset_def)
  have 5: "dict_mem k (rd_history ?f) \<or> (\<forall>x \<in> set (take q (rd_data ?f)). ts x < ?a)" using p(2) d by simp
  from items_loop_spec [OF 1 2 3 order.refl 4 5, of ?e] d obtain r' where
    r': "items_loop ts k ?a ?e (rd_pos ?f) ?f = (filter (in_time ts ?a ?e) (drop q (rd_data r)), r')" "history_ok ts k ?a r'"
      "same_file ?f r'" "same_notes k ?f r'" by auto
  have "filter (in_time ts ?a ?e) (take q (rd_data r)) = []" using p(2) by (auto simp: filter_empty_conv)
  then have "filter (in_time ts ?a ?e) (drop q (rd_data r)) = filter (in_time ts ?a ?e) (rd_data r)"
    using filter_append [of "in_time ts ?a ?e" "take q (rd_data r)" "drop q (rd_data r)"] by simp
  moreover have f: "same_file r r'" using r'(3) ff by (simp add: same_file_def reader_reset_def)
  moreover have "history_ok ts k' (calc_time_offset (rd_starttime r) k' unit) r'" for k'
  proof (cases "k' = k")
    case False
    then have "map_of (rd_history r') k' = map_of (rd_history r) k'" using r'(4) ff(4)
      by (simp add: same_notes_def reader_reset_def)
    moreover have "rd_data r' = rd_data r" using f by (simp add: same_file_def)
    ultimately show ?thesis using h [of k'] unfolding history_ok_def by simp
  qed (use r'(2) in simp)
  then have "reader_ok ts unit r'" using f r by (simp add: reader_ok_def same_file_def)
  ultimately show ?thesis using r'(1) by (simp add: reader_items_def Let_def reader_reset_def q [symmetric] cong: option.case_cong)
qed

text \<open>One query after another on the same reader.\<close>

fun run_queries :: "('i \<Rightarrow> int) \<Rightarrow> string \<Rightarrow> (int \<times> int option) list \<Rightarrow> 'i reader \<Rightarrow> 'i list list" where
  "run_queries ts unit [] r = []"
| "run_queries ts unit ((k, e) # qs) r =
     (let (xs, r1) = reader_items ts k e unit r in xs # run_queries ts unit qs r1)"

definition expected_items :: "('i \<Rightarrow> int) \<Rightarrow> string \<Rightarrow> int \<Rightarrow> int \<Rightarrow> 'i list \<Rightarrow> int \<times> int option \<Rightarrow> 'i list" where
  "expected_items ts unit starttime endtime data = (\<lambda>(k, e).
     filter (\<lambda>x. starttime + k * unit_seconds unit \<le> ts x \<and>
       ts x \<le> (case e of None \<Rightarrow> endtime | Some e' \<Rightarrow> starttime + e' * unit_seconds unit)) data)"

text \<open>C14: On a file in the order of time, any sequence of queries in one unit on the same
  reader yields for each query exactly the items of its time range, although the reader jumps to
  positions noted by earlier queries and reads through a buffer of any size.\<close>

theorem reader_queries_exact:
  assumes "sorted (map ts data)" "0 < buffer_size"
  shows "run_queries ts unit qs (new_reader data starttime endtime buffer_size)
    = map (expected_items ts unit starttime endtime data) qs"
proof -
  have "run_queries ts unit qs r = map (expected_items ts unit (rd_starttime r) (rd_endtime r) (rd_data r)) qs"
    if "reader_ok ts unit r" for r
    using that
  proof (induction qs arbitrary: r)
    case (Cons q qs)
    obtain k e where q: "q = (k, e)" by force
    from reader_items_spec [OF Cons.prems, of k e] obtain r1 where
      "reader_items ts k e unit r = (expected_items ts unit (rd_starttime r) (rd_endtime r) (rd_data r) q, r1)"
      "reader_ok ts unit r1" "same_file r r1"
      by (auto simp: expected_items_def calc_time_offset_def q add.commute cong: option.case_cong)
    with Cons.IH [of r1] show ?case by (simp add: q same_file_def)
  qed simp
  from this [OF reader_ok_new [OF assms, of unit starttime endtime]] show ?thesis by (simp add: new_reader_def)
qed

section \<open>Picking is exact\<close>

definition pk_pending :: "'i picker \<Rightarrow> 'i list" where
  "pk_pending p = (case pk_cached p of None \<Rightarrow> pk_items p | Some x \<Rightarrow> x # pk_items p)"

lemma pick_loop_spec:
  assumes "in_order ts xs" "0 < w" "pick_loop ts lo w xs = (ys, c, rest)"
  shows "ys = filter (\<lambda>x. lo \<le> ts x \<and> ts x < lo + w) xs"
    "(case c of None \<Rightarrow> rest | Some x \<Rightarrow> x # rest) = filter (\<lambda>x. lo + w \<le> ts x) xs"
proof -
  have "ys = filter (\<lambda>x. lo \<le> ts x \<and> ts x < lo + w) xs \<and>
    (case c of None \<Rightarrow> rest | Some x \<Rightarrow> x # rest) = filter (\<lambda>x. lo + w \<le> ts x) xs"
    using assms
  proof (induction xs arbitrary: ys c rest)
    case (Cons x xs)
    have "filter (\<lambda>y. lo \<le> ts y \<and> ts y < lo + w) xs = [] \<and> filter (\<lambda>y. lo + w \<le> ts y) xs = xs" if "lo + w \<le> ts x"
      using Cons.prems(1) that by (auto simp: filter_empty_conv filter_id_conv)
    with Cons show ?case by (auto split: if_splits prod.splits)
  qed simp
  then show "ys = filter (\<lambda>x. lo \<le> ts x \<and> ts x < lo + w) xs"
    "(case c of None \<Rightarrow> rest | Some x \<Rightarrow> x # rest) = filter (\<lambda>x. lo + w \<le> ts x) xs" by blast+
qed

lemma picker_items_spec:
  assumes o: "in_order ts items" and p: "pk_pending p = filter (\<lambda>x. b \<le> ts x) items"
    and b: "b \<le> pk_starttime p + t * unit_seconds (pk_time_unit p)"
  shows "\<exists>p'. picker_items ts t p = (filter (\<lambda>x. pk_starttime p + t * unit_seconds (pk_time_unit p) \<le> ts x \<and>
        ts x < pk_starttime p + (t + 1) * unit_seconds (pk_time_unit p)) items, p') \<and>
      pk_pending p' = filter (\<lambda>x. pk_starttime p + (t + 1) * unit_seconds (pk_time_unit p) \<le> ts x) items \<and>
      pk_starttime p' = pk_starttime p \<and> pk_time_unit p' = pk_time_unit p"
proof -
  let ?w = "unit_seconds (pk_time_unit p)"
  let ?lo = "pk_starttime p + t * ?w"
  obtain ys c rest where pl: "pick_loop ts ?lo ?w (pk_pending p) = (ys, c, rest)" by (metis prod_cases3)
  have "in_order ts (pk_pending p)" using o unfolding p by (rule sorted_filter)
  from pick_loop_spec [OF this unit_seconds_pos pl] p b unit_seconds_pos [of "pk_time_unit p"]
  have "ys = filter (\<lambda>x. ?lo \<le> ts x \<and> ts x < ?lo + ?w) items"
    "(case c of None \<Rightarrow> rest | Some x \<Rightarrow> x # rest) = filter (\<lambda>x. ?lo + ?w \<le> ts x) items"
    by (auto intro!: filter_cong)
  with pl show ?thesis by (simp add: picker_items_def pk_pending_def Let_def algebra_simps cong: option.case_cong)
qed

fun pick_ticks :: "('i \<Rightarrow> int) \<Rightarrow> int list \<Rightarrow> 'i picker \<Rightarrow> 'i list list" where
  "pick_ticks ts [] p = []"
| "pick_ticks ts (t # tks) p = (let (xs, p1) = picker_items ts t p in xs # pick_ticks ts tks p1)"

definition tick_items :: "('i \<Rightarrow> int) \<Rightarrow> int \<Rightarrow> string \<Rightarrow> 'i list \<Rightarrow> int \<Rightarrow> 'i list" where
  "tick_items ts starttime unit items t =
     filter (\<lambda>x. starttime + t * unit_seconds unit \<le> ts x \<and> ts x < starttime + (t + 1) * unit_seconds unit) items"

theorem picker_partitions:
  assumes "sorted (map ts items)" "sorted_wrt (<) ticks"
  shows "pick_ticks ts ticks (new_picker items starttime unit) = map (tick_items ts starttime unit items) ticks"
proof -
  have run: "pick_ticks ts ticks p = map (tick_items ts (pk_starttime p) (pk_time_unit p) items) ticks"
    if "pk_pending p = filter (\<lambda>x. b \<le> ts x) items" "\<And>t. t \<in> set ticks \<Longrightarrow> b \<le> pk_starttime p + t * unit_seconds (pk_time_unit p)"
    for p b
    using assms(2) that
  proof (induction ticks arbitrary: p b)
    case (Cons t ticks)
    let ?w = "unit_seconds (pk_time_unit p)"
    from picker_items_spec [OF assms(1) Cons.prems(2), of t] Cons.prems(3) obtain p1 where
      p1: "picker_items ts t p = (tick_items ts (pk_starttime p) (pk_time_unit p) items t, p1)"
      "pk_pending p1 = filter (\<lambda>x. pk_starttime p + (t + 1) * ?w \<le> ts x) items"
      "pk_starttime p1 = pk_starttime p" "pk_time_unit p1 = pk_time_unit p"
      by (auto simp: tick_items_def)
    have "pk_starttime p + (t + 1) * ?w \<le> pk_starttime p1 + t' * unit_seconds (pk_time_unit p1)" if "t' \<in> set ticks" for t'
      using Cons.prems(1) that unit_seconds_pos [of "pk_time_unit p"] p1(3,4) by (auto intro!: mult_right_mono)
    with Cons.IH [OF _ p1(2)] Cons.prems(1) p1 show ?case by simp
  qed simp
  let ?S = "ts ` set items \<union> (\<lambda>t. starttime + t * unit_seconds unit) ` set ticks \<union> {0}"
  let ?p = "new_picker items starttime unit"
  have "filter (\<lambda>x. Min ?S \<le> ts x) items = items" by (auto simp: filter_id_conv intro: Min_le)
  then have "pk_pending ?p = filter (\<lambda>x. Min ?S \<le> ts x) items" by (simp add: pk_pending_def new_picker_def)
  from run [OF this] show ?thesis by (auto simp: new_picker_def intro: Min_le)
qed

text \<open>A recorded position is keyed by the offset alone: queried in another unit, the same offset starts
  behind items it should yield.\<close>

lemma mixed_units_lose_items:
  "fst (reader_items (\<lambda>x. x) 10 None ''s'' (new_reader [0, 30, 60, 700 :: int] 0 700 1)) = [30, 60, 700]"
  "fst (reader_items (\<lambda>x. x) 10 None ''s''
     (snd (reader_items (\<lambda>x. x) 10 None ''m'' (new_reader [0, 30, 60, 700 :: int] 0 700 1)))) \<noteq> [30, 60, 700]"
  by code_simp+

end
