(* ===== verification/CitiNodes.thy ===== *)
theory CitiNodes imports SimCore DataReader "HOL-Library.Product_Lexorder" begin

text \<open>
  \<open>scenarios/citi_bike\<close>, the data: stations (\<open>station.py\<close>), payloads, actions and modes (\<open>common.py\<close>,
  \<open>events.py\<close>), the station file (\<open>stations_info.py\<close>), the weather table, the distance matrix, and the
  decision strategy (\<open>decision_strategy.py\<close>) with its filters of neighbors.
\<close>

section \<open>Stations\<close>

record station =
  bs_index :: int
  bs_bikes :: int
  bs_shortage :: int
  bs_trip_requirement :: int
  bs_fulfillment :: int
  bs_capacity :: int
  bs_id :: int
  bs_weekday :: int
  bs_temperature :: int
  bs_weather :: int
  bs_holiday :: int
  bs_extra_cost :: int
  bs_transfer_cost :: int
  bs_failed_return :: int
  bs_min_bikes :: int
  bs_init_capacity :: int
  bs_init_bikes :: int
  bs_init_id :: int

definition blank_station :: "int \<Rightarrow> station" where
  "blank_station i =
     \<lparr>bs_index = i, bs_bikes = 0, bs_shortage = 0, bs_trip_requirement = 0, bs_fulfillment = 0, bs_capacity = 0,
      bs_id = 0, bs_weekday = 0, bs_temperature = 0, bs_weather = 0, bs_holiday = 0, bs_extra_cost = 0,
      bs_transfer_cost = 0, bs_failed_return = 0, bs_min_bikes = 0, bs_init_capacity = 0, bs_init_bikes = 0,
      bs_init_id = 0\<rparr>"

text \<open>Writing the attribute \<open>bikes\<close> runs the callback \<open>_on_bikes_changed\<close>.\<close>

definition set_bikes :: "int \<Rightarrow> station \<Rightarrow> station" where
  "set_bikes v st = st\<lparr>bs_bikes := v, bs_min_bikes := min v (bs_min_bikes st)\<rparr>"

definition station_reset :: "station \<Rightarrow> station" where
  "station_reset st =
     (set_bikes (bs_init_bikes st) (st\<lparr>bs_capacity := bs_init_capacity st\<rparr>))
       \<lparr>bs_min_bikes := bs_init_bikes st, bs_id := bs_init_id st\<rparr>"

definition station_set_init_state :: "int \<Rightarrow> int \<Rightarrow> int \<Rightarrow> station \<Rightarrow> station" where
  "station_set_init_state bikes capacity i st =
     station_reset (st\<lparr>bs_init_bikes := bikes, bs_init_capacity := capacity, bs_init_id := i\<rparr>)"

text \<open>The frame's own reset: the attributes become zero.\<close>

definition frame_reset_station :: "station \<Rightarrow> station" where
  "frame_reset_station st =
     (blank_station (bs_index st))\<lparr>bs_init_capacity := bs_init_capacity st, bs_init_bikes := bs_init_bikes st,
        bs_init_id := bs_init_id st\<rparr>"

section \<open>Payloads, actions and modes\<close>

datatype citi_events = RequireBike | ReturnBike | RebalanceBike | DeliverBike

datatype decision_type = Supply | Demand

datatype extra_cost_mode = SourceCost | TargetCost

definition extra_cost_mode_of :: "string \<Rightarrow> extra_cost_mode res" where
  "extra_cost_mode_of s =
     (if s = ''source'' then Inr SourceCost else if s = ''target'' then Inr TargetCost else Inl ValueError)"

text \<open>A trip of the data file; \<open>BikeReturnPayload\<close> and \<open>BikeTransferPayload\<close> have the same fields.\<close>

record trip =
  tr_timestamp :: int
  tr_durations :: int
  tr_src_station :: int
  tr_dest_station :: int

record bike_move =
  bm_from_station_idx :: int
  bm_to_station_idx :: int
  bm_number :: int

type_synonym scope = "(int \<times> int) list"

record bike_decision =
  bd_station_idx :: int
  bd_tick :: int
  bd_frame_index :: int
  bd_type :: decision_type
  bd_action_scope :: "scope option"

record bike_action =
  ba_from_station_idx :: int
  ba_to_station_idx :: int
  ba_number :: int

datatype citi_payload =
    TripPayload trip
  | BikeReturnPayload bike_move
  | BikeTransferPayload bike_move
  | BikeDecisionPayload bike_decision
  | BikeActionsPayload "bike_action py_action list"

section \<open>Files\<close>

record station_info =
  si_index :: int
  si_bikes :: int
  si_capacity :: int
  si_id :: int

text \<open>\<open>numpy\<close>'s reshape of the rows of the distance file to a square matrix.\<close>

fun chunks :: "nat \<Rightarrow> nat \<Rightarrow> 'a list \<Rightarrow> 'a list list" where
  "chunks 0 n xs = []"
| "chunks (Suc k) n xs = take n xs # chunks k n (drop n xs)"

definition reshape_square :: "nat \<Rightarrow> 'a list list \<Rightarrow> 'a list list res" where
  "reshape_square n rows =
     (if list_all (\<lambda>r. length r = length (hd rows)) rows \<and> length (concat rows) = n * n
      then Inr (chunks n n (concat rows)) else Inl ValueError)"

record weather_item =
  wt_timestamp :: int
  wt_weather :: int
  wt_temp :: int

definition setup_weather_table :: "(int \<Rightarrow> 'd) \<Rightarrow> weather_item list \<Rightarrow> ('d \<times> weather_item) list" where
  "setup_weather_table date_of items = fold (\<lambda>item. AList.update (date_of (wt_timestamp item)) item) items []"

section \<open>Snapshots\<close>

text \<open>
  The snapshot list of the frame backend keeps the last snapshot of each of the latest frame indices,
  in the order they were taken.
\<close>

type_synonym snapshot_log = "(int \<times> station list) list"

definition snapshot_dict :: "nat \<Rightarrow> (int \<times> 'a) list \<Rightarrow> (int \<times> 'a) list" where
  "snapshot_dict limit entries =
     (let d = fold (\<lambda>(fi, x) d. AList.delete fi d @ [(fi, x)]) entries [] in drop (length d - limit) d)"

section \<open>Filters of neighbors\<close>

datatype scope_filter =
    DistanceFilter int
  | RequirementsFilter int
  | TripsWindowFilter int int "(int \<times> int list) list"

record filter_conf =
  fc_type :: string
  fc_num :: "int option"
  fc_windows :: "int option"

definition conf_key :: "int option \<Rightarrow> int res" where
  "conf_key v = (case v of None \<Rightarrow> Inl KeyError | Some n \<Rightarrow> Inr n)"

definition construct_filter :: "filter_conf \<Rightarrow> scope_filter res" where
  "construct_filter conf =
     (if fc_type conf = ''distance'' then bindE (conf_key (fc_num conf)) (\<lambda>n. Inr (DistanceFilter n))
      else if fc_type conf = ''requirements'' then bindE (conf_key (fc_num conf)) (\<lambda>n. Inr (RequirementsFilter n))
      else if fc_type conf = ''trip_window'' then
        bindE (conf_key (fc_num conf)) (\<lambda>n. bindE (conf_key (fc_windows conf)) (\<lambda>w. Inr (TripsWindowFilter n w [])))
      else Inl KeyError)"

fun filter_reset :: "scope_filter \<Rightarrow> scope_filter" where
  "filter_reset (TripsWindowFilter n w cache) = TripsWindowFilter n w []"
| "filter_reset f = f"

text \<open>\<open>_get_neighbors\<close>; its cache only saves the sorting, as the distances never change.\<close>

definition get_neighbors :: "rat list list \<Rightarrow> int \<Rightarrow> (int \<times> rat) list res" where
  "get_neighbors distance_adj station_idx =
     bindE (py_get distance_adj station_idx) (\<lambda>distances.
       Inr (sort_key snd (filter (\<lambda>(i, d). d \<noteq> 0) (zip [0..int (length distances) - 1] distances))))"

definition pick_source :: "scope \<Rightarrow> int list \<Rightarrow> scope res" where
  "pick_source source ids = mapE (\<lambda>i. bindE (dict_get source i) (\<lambda>v. Inr (i, v))) ids"

definition distance_filter :: "rat list list \<Rightarrow> int \<Rightarrow> int \<Rightarrow> scope \<Rightarrow> scope res" where
  "distance_filter adj num station_idx source =
     bindE (get_neighbors adj station_idx) (\<lambda>neighbors.
       pick_source source (map fst (py_slice neighbors 0 (min num (int (length source))))))"

definition by_value :: "int \<times> int \<Rightarrow> int \<times> int" where
  "by_value kv = (snd kv, fst kv)"

definition requirements_filter :: "int \<Rightarrow> scope \<Rightarrow> scope" where
  "requirements_filter num source =
     take (nat (min num (int (length source)))) (rev (sort_key by_value source))"

text \<open>One frame of the window: the latest one is read again, an earlier one only when it is not cached.\<close>

definition window_frame ::
  "snapshot_log \<Rightarrow> int \<Rightarrow> scope \<Rightarrow> int \<times> int \<Rightarrow> (int \<times> int list) list \<times> scope
   \<Rightarrow> ((int \<times> int list) list \<times> scope) res" where
  "window_frame snapshots available source = (\<lambda>(i, frame_index) (cache, trips).
     bindE (if i = available - 1 \<or> \<not> dict_mem frame_index cache then
              bindE (dict_get snapshots frame_index) (\<lambda>stations.
                Inr (AList.update frame_index (map bs_trip_requirement stations) cache))
            else Inr cache) (\<lambda>cache1.
     bindE (dict_get cache1 frame_index) (\<lambda>trip_state.
     bindE (foldE (\<lambda>(nb, _) t. bindE (py_get trip_state nb) (\<lambda>n.
              Inr (AList.update nb ((case map_of t nb of None \<Rightarrow> 0 | Some m \<Rightarrow> m) + n) t))) source trips) (\<lambda>trips1.
       Inr (cache1, trips1)))))"

definition trips_window_filter ::
  "snapshot_log \<Rightarrow> int \<Rightarrow> int \<Rightarrow> (int \<times> int list) list \<Rightarrow> decision_type \<Rightarrow> scope
   \<Rightarrow> ((int \<times> int list) list \<times> scope) res" where
  "trips_window_filter snapshots num windows cache decision_type source =
     (let output_num = min num (int (length source));
          indices = map fst snapshots;
          available = min windows (int (length indices));
          latest = py_slice indices (- available) (int (length indices))
      in bindE (foldE (window_frame snapshots available source) (zip [0..int (length latest) - 1] latest) (cache, []))
           (\<lambda>(cache1, trips).
              let ordered = sort_key by_value trips;
                  sorted_neighbors = (if decision_type = Demand then rev ordered else ordered)
              in bindE (pick_source source (map fst (py_slice sorted_neighbors 0 output_num)))
                   (\<lambda>result. Inr (cache1, result))))"

definition apply_filter ::
  "rat list list \<Rightarrow> snapshot_log \<Rightarrow> int \<Rightarrow> decision_type \<Rightarrow> scope_filter \<Rightarrow> scope_filter list \<times> scope
   \<Rightarrow> (scope_filter list \<times> scope) res" where
  "apply_filter adj snapshots station_idx decision_type f = (\<lambda>(done, source).
     (case f of
        DistanceFilter num \<Rightarrow>
          bindE (distance_filter adj num station_idx source) (\<lambda>r. Inr (done @ [f], r))
      | RequirementsFilter num \<Rightarrow> Inr (done @ [f], requirements_filter num source)
      | TripsWindowFilter num windows cache \<Rightarrow>
          bindE (trips_window_filter snapshots num windows cache decision_type source)
            (\<lambda>(cache1, r). Inr (done @ [TripsWindowFilter num windows cache1], r))))"

end
