(* ===== verification/CitiEngine.thy ===== *)
theory CitiEngine imports CitiNodes begin

text \<open>
  \<open>citi_bike/decision_strategy.py\<close> (the strategy itself) and \<open>business_engine.py\<close>: trips, returns,
  deliveries, the request for decisions, actions, the end of a tick, initialisation and reset.

  Parameters: the conversion of ticks and timestamps to dates (\<open>dateutil\<close>), weekdays and holidays, and
  \<open>numpy\<close>'s normal distribution.  The location of files and the download of data are not modelled.
\<close>

section \<open>State\<close>

record citi_conf =
  cf_resolution :: int
  cf_effective_time_mean :: rat
  cf_effective_time_std :: rat
  cf_supply_water_mark_ratio :: rat
  cf_demand_water_mark_ratio :: rat
  cf_scope_low :: rat
  cf_scope_high :: rat
  cf_extra_cost_mode :: string
  cf_filters :: "filter_conf list"

record ('d, 'r) citi_params =
  bp_conf :: citi_conf
  bp_tick_date :: "int \<Rightarrow> 'd"
  bp_utc_date :: "int \<Rightarrow> 'd"
  bp_weekday :: "'d \<Rightarrow> int"
  bp_is_holiday :: "'d \<Rightarrow> bool"
  bp_normal :: "rat \<Rightarrow> rat \<Rightarrow> 'r \<Rightarrow> rat \<times> 'r"

record ('d, 'r) citi =
  ct_stations :: "station list"
  ct_trips_adj :: matrix
  ct_distance_adj :: "rat list list"
  ct_filters :: "scope_filter list"
  ct_cost_mode :: extra_cost_mode
  ct_total_trips :: int
  ct_total_shortages :: int
  ct_total_operate_num :: int
  ct_last_date :: "'d option"
  ct_weather :: "('d \<times> weather_item) list"
  ct_reader :: "trip reader"
  ct_picker :: "trip picker"
  ct_base :: engine_base
  ct_snapshots :: snapshot_log
  ct_total_snapshots :: int
  ct_random :: 'r

datatype citi_emit =
    EmitAtom int citi_events "citi_payload option"
  | EmitDecision int bike_decision

definition station_at :: "int \<Rightarrow> ('d, 'r) citi \<Rightarrow> (nat \<times> station) res" where
  "station_at i s = node_at (ct_stations s) i"

definition put_station :: "nat \<Rightarrow> station \<Rightarrow> ('d, 'r) citi \<Rightarrow> ('d, 'r) citi" where
  "put_station j st s = s\<lparr>ct_stations := (ct_stations s)[j := st]\<rparr>"

definition on_station :: "nat \<Rightarrow> (station \<Rightarrow> station) \<Rightarrow> ('d, 'r) citi \<Rightarrow> ('d, 'r) citi" where
  "on_station j f s = put_station j (f (ct_stations s ! j)) s"

section \<open>The decision strategy\<close>

definition transfer_time :: "('d, 'r) citi_params \<Rightarrow> ('d, 'r) citi \<Rightarrow> int \<times> ('d, 'r) citi" where
  "transfer_time c s =
     (let (x, r) = bp_normal c (cf_effective_time_mean (bp_conf c)) (cf_effective_time_std (bp_conf c)) (ct_random s)
      in (round_half_even x, s\<lparr>ct_random := r\<rparr>))"

definition is_decision_tick :: "citi_conf \<Rightarrow> int \<Rightarrow> bool res" where
  "is_decision_tick c tick =
     (if cf_resolution c = 0 then Inl ZeroDivisionError else Inr ((tick + 1) mod cf_resolution c = 0))"

text \<open>
  One station of \<open>get_stations_need_decision\<close>.  Attributes of a node are NumPy scalars: a division by a
  capacity of zero does not raise but gives an infinity, or not-a-number for a station without bikes,
  which passes neither comparison.
\<close>

definition station_decision :: "citi_conf \<Rightarrow> station \<Rightarrow> (int \<times> decision_type) list" where
  "station_decision c st =
     (if bs_capacity st = 0
      then if 0 < bs_bikes st then [(bs_index st, Supply)]
           else if bs_bikes st < 0 then [(bs_index st, Demand)] else []
      else let cur_ratio = of_int (bs_bikes st) / of_int (bs_capacity st)
           in if cf_supply_water_mark_ratio c \<le> cur_ratio then [(bs_index st, Supply)]
              else if cur_ratio \<le> cf_demand_water_mark_ratio c then [(bs_index st, Demand)] else [])"

definition get_stations_need_decision ::
  "citi_conf \<Rightarrow> int \<Rightarrow> ('d, 'r) citi \<Rightarrow> (int \<times> decision_type) list res" where
  "get_stations_need_decision c tick s =
     bindE (is_decision_tick c tick) (\<lambda>d.
       Inr (if d then concat (map (station_decision c) (ct_stations s)) else []))"

definition neighbor_max_bikes :: "citi_conf \<Rightarrow> decision_type \<Rightarrow> station \<Rightarrow> int" where
  "neighbor_max_bikes c decision_type st =
     (case decision_type of
        Supply \<Rightarrow> bs_capacity st - bs_bikes st
      | Demand \<Rightarrow> \<lfloor>of_int (bs_bikes st) * cf_scope_high c\<rfloor>)"

definition bike_action_scope ::
  "citi_conf \<Rightarrow> int \<Rightarrow> decision_type \<Rightarrow> ('d, 'r) citi \<Rightarrow> (scope \<times> ('d, 'r) citi) res" where
  "bike_action_scope c station_idx decision_type s =
     bindE (station_at station_idx s) (\<lambda>(j, station).
     bindE (get_neighbors (ct_distance_adj s) station_idx) (\<lambda>neighbors.
     bindE (foldE (\<lambda>(nb, _) scope.
              if 0 \<le> nb then bindE (station_at nb s) (\<lambda>(k, st).
                Inr (AList.update nb (neighbor_max_bikes c decision_type st) scope))
              else Inr scope) neighbors []) (\<lambda>neighbor_scope.
     bindE (foldE (apply_filter (ct_distance_adj s) (snapshot_dict (nat (ct_total_snapshots s)) (ct_snapshots s))
              station_idx decision_type) (ct_filters s) ([], neighbor_scope)) (\<lambda>(filters, scope).
       Inr (AList.update station_idx
              (case decision_type of
                 Supply \<Rightarrow> \<lfloor>of_int (bs_bikes station) * (1 - cf_scope_low c)\<rfloor>
               | Demand \<Rightarrow> bs_capacity station - bs_bikes station) scope,
            s\<lparr>ct_filters := filters\<rparr>)))))"

text \<open>The property \<open>bike_action_scope\<close> of a decision event, computed when it is first read.\<close>

definition bike_decision_scope ::
  "citi_conf \<Rightarrow> bike_decision \<Rightarrow> ('d, 'r) citi \<Rightarrow> (scope \<times> bike_decision \<times> ('d, 'r) citi) res" where
  "bike_decision_scope c d s =
     (case bd_action_scope d of
        Some sc \<Rightarrow> Inr (sc, d, s)
      | None \<Rightarrow> bindE (bike_action_scope c (bd_station_idx d) (bd_type d) s) (\<lambda>(sc, s1).
          Inr (sc, d\<lparr>bd_action_scope := Some sc\<rparr>, s1)))"

definition calculate_extra_cost :: "int \<Rightarrow> int \<Rightarrow> int" where
  "calculate_extra_cost number neighbor_index = number * (neighbor_index + 1)"

definition set_extra_cost :: "nat \<Rightarrow> nat \<Rightarrow> int \<Rightarrow> ('d, 'r) citi \<Rightarrow> ('d, 'r) citi" where
  "set_extra_cost src target cost s =
     on_station (case ct_cost_mode s of SourceCost \<Rightarrow> src | TargetCost \<Rightarrow> target)
       (\<lambda>st. st\<lparr>bs_extra_cost := bs_extra_cost st + cost\<rparr>) s"

fun move_loop ::
  "nat \<Rightarrow> nat \<Rightarrow> int \<Rightarrow> (int \<times> rat) list \<Rightarrow> int \<Rightarrow> int \<Rightarrow> ('d, 'r) citi \<Rightarrow> (int \<times> ('d, 'r) citi) res" where
  "move_loop src cur order_index [] bike_number total_cost s = Inr (total_cost, s)"
| "move_loop src cur order_index ((nb, distance) # neighbors) bike_number total_cost s =
     (if nb < 0 then move_loop src cur (order_index + 1) neighbors bike_number total_cost s
      else bindE (station_at nb s) (\<lambda>(k, st).
        let accept_number = min (bs_capacity st - bs_bikes st) bike_number;
            cost = calculate_extra_cost accept_number order_index;
            s1 = set_extra_cost src cur cost (put_station k (set_bikes (bs_bikes st + accept_number) st) s)
        in if bike_number - accept_number = 0 then Inr (total_cost + cost, s1)
           else move_loop src cur (order_index + 1) neighbors (bike_number - accept_number) (total_cost + cost) s1))"

definition move_to_neighbor ::
  "nat \<Rightarrow> nat \<Rightarrow> int \<Rightarrow> ('d, 'r) citi \<Rightarrow> (int \<times> ('d, 'r) citi) res" where
  "move_to_neighbor src cur bike_number s =
     bindE (get_neighbors (ct_distance_adj s) (bs_index (ct_stations s ! cur))) (\<lambda>neighbors.
       move_loop src cur 0 neighbors bike_number 0 s)"

section \<open>Trips and returns\<close>

definition on_required_bike ::
  "int option \<Rightarrow> trip \<Rightarrow> ('d, 'r) citi \<Rightarrow> (('d, 'r) citi \<times> citi_emit list) res" where
  "on_required_bike tick trip s =
     bindE (station_at (tr_src_station trip) s) (\<lambda>(j, station).
       let s1 = (put_station j (station\<lparr>bs_trip_requirement := bs_trip_requirement station + 1\<rparr>) s)
                  \<lparr>ct_total_trips := ct_total_trips s + 1\<rparr>
       in bindE (mx_get (ct_trips_adj s1) (tr_src_station trip) (tr_dest_station trip)) (\<lambda>n.
          bindE (mx_set (ct_trips_adj s1) (tr_src_station trip) (tr_dest_station trip) (n + 1)) (\<lambda>m.
            let s2 = s1\<lparr>ct_trips_adj := m\<rparr>
            in if bs_bikes station < 1 then
                 Inr ((on_station j (\<lambda>st. st\<lparr>bs_shortage := bs_shortage st + 1\<rparr>) s2)
                        \<lparr>ct_total_shortages := ct_total_shortages s2 + 1\<rparr>, [])
               else
                 let s3 = on_station j (\<lambda>st. set_bikes (bs_bikes station - 1)
                            (st\<lparr>bs_fulfillment := bs_fulfillment st + 1\<rparr>)) s2
                 in bindE (need tick) (\<lambda>t.
                      Inr (s3, [EmitAtom (t + tr_durations trip) ReturnBike
                        (Some (BikeReturnPayload \<lparr>bm_from_station_idx = tr_src_station trip,
                           bm_to_station_idx = tr_dest_station trip, bm_number = 1\<rparr>))])))))"

text \<open>The room at a station is computed before the excess is moved on, and its bikes are written after.\<close>

definition on_bike_returned :: "bike_move \<Rightarrow> ('d, 'r) citi \<Rightarrow> ('d, 'r) citi res" where
  "on_bike_returned payload s =
     bindE (station_at (bm_to_station_idx payload) s) (\<lambda>(j, station).
       let station_bikes = bs_bikes station; return_number = bm_number payload;
           max_accept_number = min (bs_capacity station - station_bikes) return_number
       in bindE (if max_accept_number < return_number then
                   bindE (station_at (bm_from_station_idx payload) s) (\<lambda>(k, src).
                     let additional_bikes = return_number - max_accept_number;
                         s1 = on_station j (\<lambda>st. st\<lparr>bs_failed_return := bs_failed_return st + additional_bikes\<rparr>) s
                     in bindE (move_to_neighbor k j additional_bikes s1) (\<lambda>(cost, s2). Inr s2))
                 else Inr s)
            (\<lambda>s3. Inr (on_station j (set_bikes (station_bikes + max_accept_number)) s3)))"

definition on_bike_deliver :: "bike_move \<Rightarrow> ('d, 'r) citi \<Rightarrow> ('d, 'r) citi res" where
  "on_bike_deliver payload s =
     bindE (station_at (bm_to_station_idx payload) s) (\<lambda>(j, station).
       let station_bikes = bs_bikes station; transfered_number = bm_number payload;
           max_accept_number = min (bs_capacity station - station_bikes) transfered_number
       in bindE (if max_accept_number < transfered_number then
                   bindE (station_at (bm_from_station_idx payload) s) (\<lambda>(k, src).
                   bindE (move_to_neighbor k j (transfered_number - max_accept_number) s) (\<lambda>(cost, s2). Inr s2))
                 else Inr s)
            (\<lambda>s1. let s2 = (if 0 < max_accept_number then
                       (on_station j (\<lambda>st. st\<lparr>bs_transfer_cost := bs_transfer_cost st + max_accept_number\<rparr>) s1)
                          \<lparr>ct_total_operate_num := ct_total_operate_num s1 + max_accept_number\<rparr>
                     else s1)
                  in Inr (on_station j (set_bikes (station_bikes + max_accept_number)) s2)))"

section \<open>Decisions and actions\<close>

definition on_rebalance_bikes ::
  "citi_conf \<Rightarrow> int option \<Rightarrow> ('d, 'r) citi \<Rightarrow> (('d, 'r) citi \<times> citi_emit list) res" where
  "on_rebalance_bikes c tick s =
     bindE (need tick) (\<lambda>t.
     bindE (get_stations_need_decision c t s) (\<lambda>ds.
     bindE (mapE (\<lambda>(station_idx, decision_type). bindE (be_frame_index (ct_base s) t) (\<lambda>fi.
              Inr (EmitDecision t \<lparr>bd_station_idx = station_idx, bd_tick = t, bd_frame_index = fi,
                     bd_type = decision_type, bd_action_scope = None\<rparr>))) ds) (\<lambda>es. Inr (s, es))))"

definition apply_bike_action ::
  "('d, 'r) citi_params \<Rightarrow> int option \<Rightarrow> bike_action \<Rightarrow> ('d, 'r) citi \<Rightarrow> (('d, 'r) citi \<times> citi_emit list) res" where
  "apply_bike_action c tick a s =
     (let from_idx = ba_from_station_idx a; to_idx = ba_to_station_idx a
      in if from_idx < 0 \<or> to_idx < 0 then Inr (s, [])
         else bindE (station_at from_idx s) (\<lambda>(j, station).
           let executed_number = min (bs_bikes station) (ba_number a)
           in if 0 < executed_number then
                let s1 = put_station j (set_bikes (bs_bikes station - executed_number) station) s;
                    (time, s2) = transfer_time c s1
                in bindE (need tick) (\<lambda>t.
                     Inr (s2, [EmitAtom (t + time) DeliverBike
                       (Some (BikeTransferPayload \<lparr>bm_from_station_idx = from_idx, bm_to_station_idx = to_idx,
                          bm_number = executed_number\<rparr>))]))
              else Inr (s, [])))"

fun on_bike_action_received ::
  "('d, 'r) citi_params \<Rightarrow> int option \<Rightarrow> bike_action py_action list \<Rightarrow> ('d, 'r) citi
   \<Rightarrow> (('d, 'r) citi \<times> citi_emit list) res" where
  "on_bike_action_received c tick [] s = Inr (s, [])"
| "on_bike_action_received c tick (x # xs) s =
     (case x of
        OneAction a \<Rightarrow>
          bindE (apply_bike_action c tick a s) (\<lambda>(s1, es).
          bindE (on_bike_action_received c tick xs s1) (\<lambda>(s2, es'). Inr (s2, es @ es')))
      | _ \<Rightarrow> Inl AssertionError)"

section \<open>Dispatch over the buffer\<close>

datatype citi_handler =
    On_required_bike
  | On_bike_returned
  | On_rebalance_bikes
  | On_bike_deliver
  | On_bike_action_received

type_synonym citi_buffer = "(citi_events, citi_payload, citi_handler) event_buffer"
type_synonym ('d, 'r) citi_world = "(citi_events, citi_payload, citi_handler, ('d, 'r) citi) world"

definition citi_register_events :: "citi_buffer \<Rightarrow> citi_buffer" where
  "citi_register_events b =
     fold (\<lambda>(ty, hn) b. register_event_handler b ty hn)
       [(Scenario RequireBike, On_required_bike), (Scenario ReturnBike, On_bike_returned),
        (Scenario RebalanceBike, On_rebalance_bikes), (Scenario DeliverBike, On_bike_deliver),
        (TAKE_ACTION, On_bike_action_received)] b"

definition citi_handle ::
  "('d, 'r) citi_params \<Rightarrow> citi_handler \<Rightarrow> int option \<Rightarrow> citi_payload option \<Rightarrow> ('d, 'r) citi
   \<Rightarrow> (('d, 'r) citi \<times> citi_emit list) res" where
  "citi_handle c hn tick payload s =
     (case hn of
        On_required_bike \<Rightarrow>
          (case payload of Some (TripPayload trip) \<Rightarrow> on_required_bike tick trip s | _ \<Rightarrow> Inl AttributeError)
      | On_bike_returned \<Rightarrow>
          (case payload of
             Some (BikeReturnPayload p) \<Rightarrow> bindE (on_bike_returned p s) (\<lambda>s1. Inr (s1, []))
           | Some (BikeTransferPayload p) \<Rightarrow> bindE (on_bike_returned p s) (\<lambda>s1. Inr (s1, []))
           | _ \<Rightarrow> Inl AttributeError)
      | On_rebalance_bikes \<Rightarrow> on_rebalance_bikes (bp_conf c) tick s
      | On_bike_deliver \<Rightarrow>
          (case payload of
             Some (BikeReturnPayload p) \<Rightarrow> bindE (on_bike_deliver p s) (\<lambda>s1. Inr (s1, []))
           | Some (BikeTransferPayload p) \<Rightarrow> bindE (on_bike_deliver p s) (\<lambda>s1. Inr (s1, []))
           | _ \<Rightarrow> Inl AttributeError)
      | On_bike_action_received \<Rightarrow>
          (case payload of
             Some (BikeActionsPayload actions) \<Rightarrow> on_bike_action_received c tick actions s
           | _ \<Rightarrow> Inl AssertionError))"

definition citi_apply_emit :: "citi_emit \<Rightarrow> citi_buffer \<Rightarrow> citi_buffer" where
  "citi_apply_emit e b =
     (case e of
        EmitAtom tick ty payload \<Rightarrow>
          (let (b1, a) = gen_atom_event b tick (Scenario ty) payload in insert_event b1 a)
      | EmitDecision tick d \<Rightarrow>
          (let (b1, a) = gen_decision_event b tick (BikeDecisionPayload d) in insert_event b1 a))"

definition citi_invoke ::
  "('d, 'r) citi_params \<Rightarrow> citi_handler \<Rightarrow> addr \<Rightarrow> ('d, 'r) citi_world \<Rightarrow> ('d, 'r) citi_world res" where
  "citi_invoke c hn event w =
     (let ev = eb_heap (fst w) event
      in bindE (citi_handle c hn (ev_tick ev) (ev_payload ev) (snd w)) (\<lambda>(s, es).
           Inr (fold citi_apply_emit es (fst w), s)))"

section \<open>Ticks\<close>

definition set_extra_features :: "int \<Rightarrow> bool \<Rightarrow> int \<Rightarrow> int \<Rightarrow> station \<Rightarrow> station" where
  "set_extra_features weekday holiday weather temperature st =
     st\<lparr>bs_weekday := weekday, bs_holiday := (if holiday then 1 else 0), bs_weather := weather,
        bs_temperature := temperature\<rparr>"

definition update_station_extra_features ::
  "('d, 'r) citi_params \<Rightarrow> int \<Rightarrow> ('d, 'r) citi \<Rightarrow> ('d, 'r) citi" where
  "update_station_extra_features c tick s =
     (let cur = bp_tick_date c tick
      in if ct_last_date s = Some cur then s
         else
           let (weather, temperature) =
                 (case map_of (ct_weather s) cur of
                    None \<Rightarrow> (0, 0) | Some info \<Rightarrow> (wt_weather info, wt_temp info))
           in s\<lparr>ct_last_date := Some cur,
                ct_stations := map (set_extra_features (bp_weekday c cur) (bp_is_holiday c cur) weather temperature)
                  (ct_stations s)\<rparr>)"

definition citi_step ::
  "('d, 'r) citi_params \<Rightarrow> int \<Rightarrow> ('d, 'r) citi_world \<Rightarrow> ('d, 'r) citi_world res" where
  "citi_step c tick w =
     (let (trips, picker) = picker_items tr_timestamp tick (ct_picker (snd w));
          s = (snd w)\<lparr>ct_picker := picker\<rparr>;
          b = fold (\<lambda>trip. citi_apply_emit (EmitAtom tick RequireBike (Some (TripPayload trip)))) trips (fst w)
      in bindE (is_decision_tick (bp_conf c) tick) (\<lambda>d.
           Inr (if d then citi_apply_emit (EmitAtom tick RebalanceBike None) b else b,
                update_station_extra_features c tick s)))"

definition citi_take_snapshot :: "int \<Rightarrow> ('d, 'r) citi \<Rightarrow> ('d, 'r) citi" where
  "citi_take_snapshot fi s = s\<lparr>ct_snapshots := ct_snapshots s @ [(fi, ct_stations s)]\<rparr>"

definition clear_window :: "station \<Rightarrow> station" where
  "clear_window st =
     st\<lparr>bs_shortage := 0, bs_trip_requirement := 0, bs_extra_cost := 0, bs_transfer_cost := 0,
        bs_fulfillment := 0, bs_failed_return := 0, bs_min_bikes := bs_bikes st\<rparr>"

definition citi_post_step :: "int \<Rightarrow> ('d, 'r) citi \<Rightarrow> (('d, 'r) citi \<times> bool) res" where
  "citi_post_step tick s =
     (let resolution = be_snapshot_resolution (ct_base s); finished = (tick + 1 = be_max_tick (ct_base s))
      in if resolution = 0 then Inl ZeroDivisionError
         else if (tick + 1) mod resolution = 0 then
           bindE (be_frame_index (ct_base s) tick) (\<lambda>fi.
             let s1 = citi_take_snapshot fi s
             in Inr (s1\<lparr>ct_stations := map clear_window (ct_stations s1)\<rparr>, finished))
         else Inr (s, finished))"

section \<open>Initialisation and reset\<close>

text \<open>The content of the data files: trips and weather with the header's times, the station file, and the rows
  of the distance file below its header line.\<close>

record citi_files =
  fl_trips :: "trip reader"
  fl_weather :: "weather_item reader"
  fl_stations :: "station_info list"
  fl_distances :: "rat list list"

definition load_weather :: "('d, 'r) citi_params \<Rightarrow> weather_item reader \<Rightarrow> ('d \<times> weather_item) list" where
  "load_weather c r = setup_weather_table (bp_utc_date c) (fst (reader_items wt_timestamp 0 None ''s'' r))"

definition init_stations :: "station_info list \<Rightarrow> station list res" where
  "init_stations infos =
     foldE (\<lambda>info ss. bindE (node_at ss (si_index info)) (\<lambda>(j, st).
              Inr (ss[j := station_set_init_state (si_bikes info) (si_capacity info) (si_id info) st])))
       infos (map blank_station [0..int (length infos) - 1])"

definition start_picker :: "engine_base \<Rightarrow> trip reader \<Rightarrow> trip picker \<times> trip reader" where
  "start_picker base r = items_tick_picker tr_timestamp (be_start_tick base) (Some (be_max_tick base)) ''m'' r"

definition init_citi ::
  "('d, 'r) citi_params \<Rightarrow> citi_files \<Rightarrow> 'r \<Rightarrow> engine_base \<Rightarrow> citi_buffer \<Rightarrow> ('d, 'r) citi_world res" where
  "init_citi c files rand base b =
     (let (picker, reader) = start_picker base (fl_trips files); n = length (fl_stations files)
      in bindE (calc_max_snapshots base) (\<lambda>total.
         bindE (init_stations (fl_stations files)) (\<lambda>stations.
         bindE (reshape_square n (fl_distances files)) (\<lambda>distance_adj.
         bindE (extra_cost_mode_of (cf_extra_cost_mode (bp_conf c))) (\<lambda>mode.
         bindE (mapE construct_filter (cf_filters (bp_conf c))) (\<lambda>filters.
           Inr (citi_register_events b,
                \<lparr>ct_stations = stations, ct_trips_adj = new_matrix (int n) (int n), ct_distance_adj = distance_adj,
                 ct_filters = filters, ct_cost_mode = mode, ct_total_trips = 0, ct_total_shortages = 0,
                 ct_total_operate_num = 0, ct_last_date = None, ct_weather = load_weather c (fl_weather files),
                 ct_reader = reader, ct_picker = picker, ct_base = base, ct_snapshots = [],
                 ct_total_snapshots = total, ct_random = rand\<rparr>)))))))"

definition citi_frame_reset :: "('d, 'r) citi \<Rightarrow> ('d, 'r) citi" where
  "citi_frame_reset s =
     s\<lparr>ct_stations := map frame_reset_station (ct_stations s), ct_trips_adj := mx_fill (ct_trips_adj s) 0\<rparr>"

definition citi_reset :: "('d, 'r) citi \<Rightarrow> ('d, 'r) citi" where
  "citi_reset s =
     (let s1 = (citi_frame_reset (s\<lparr>ct_total_trips := 0, ct_total_operate_num := 0, ct_total_shortages := 0\<rparr>))
                 \<lparr>ct_snapshots := []\<rparr>;
          (picker, reader) = start_picker (ct_base s1) (reader_reset (ct_reader s1))
      in s1\<lparr>ct_reader := reader, ct_picker := picker, ct_stations := map station_reset (ct_stations s1),
            ct_filters := map filter_reset (ct_filters s1), ct_last_date := None\<rparr>)"

section \<open>Queries\<close>

definition citi_node_mapping :: "('d, 'r) citi \<Rightarrow> (int \<times> int) list" where
  "citi_node_mapping s = fold (\<lambda>st. AList.update (bs_index st) (bs_id st)) (ct_stations s) []"

definition citi_agent_idx_list :: "('d, 'r) citi \<Rightarrow> int list" where
  "citi_agent_idx_list s = map bs_index (ct_stations s)"

text \<open>\<open>get_metrics\<close>: trip requirements, bike shortage, operation number.\<close>

type_synonym citi_metrics = "int \<times> int \<times> int"

definition citi_get_metrics :: "('d, 'r) citi \<Rightarrow> citi_metrics" where
  "citi_get_metrics s = (ct_total_trips s, ct_total_shortages s, ct_total_operate_num s)"

definition citi_engine ::
  "('d, 'r) citi_params \<Rightarrow> (citi_events, citi_payload, citi_handler, ('d, 'r) citi, bike_action, citi_metrics) engine"
where
  "citi_engine c =
     \<lparr>ng_step = citi_step c, ng_post_step = citi_post_step, ng_invoke = citi_invoke c,
      ng_snapshot = citi_take_snapshot, ng_metrics = citi_get_metrics,
      ng_reset = (\<lambda>keep_seed w. Some (Inr (fst w, citi_reset (snd w)))), ng_actions = BikeActionsPayload\<rparr>"

end
