(* ===== verification/CitiProps.thy ===== *)
theory CitiProps imports CitiEngine begin

text \<open>
  Where the bikes of the bike repositioning scenario are: the docks of the stations and the payloads of
  the return and delivery events still pending.  What placing excess bikes at neighbors does, and the
  effect of every handler on the books.
\<close>

section \<open>Books of a station\<close>

definition station_ok :: "station \<Rightarrow> bool" where
  "station_ok st \<longleftrightarrow> 0 \<le> bs_bikes st \<and> bs_bikes st \<le> bs_capacity st \<and>
     0 \<le> bs_min_bikes st \<and> bs_min_bikes st \<le> bs_bikes st \<and>
     0 \<le> bs_shortage st \<and> 0 \<le> bs_fulfillment st \<and>
     bs_trip_requirement st = bs_shortage st + bs_fulfillment st"

definition docked :: "('d, 'r) citi \<Rightarrow> int" where
  "docked s = sum_list (map bs_bikes (ct_stations s))"

definition all_docks :: "('d, 'r) citi \<Rightarrow> int" where
  "all_docks s = sum_list (map bs_capacity (ct_stations s))"

definition only_stations :: "('d, 'r) citi \<Rightarrow> ('d, 'r) citi \<Rightarrow> bool" where
  "only_stations s s' \<longleftrightarrow> s' = s\<lparr>ct_stations := ct_stations s'\<rparr> \<and>
     map bs_capacity (ct_stations s') = map bs_capacity (ct_stations s) \<and>
     map bs_index (ct_stations s') = map bs_index (ct_stations s)"

lemma only_stations_refl [simp]: "only_stations s s"
  by (simp add: only_stations_def)

lemma only_stations_trans: "only_stations s s' \<Longrightarrow> only_stations s' s'' \<Longrightarrow> only_stations s s''"
  by (auto simp: only_stations_def) (metis citi.surjective citi.update_convs(1))

lemma only_stations_length: "only_stations s s' \<Longrightarrow> length (ct_stations s') = length (ct_stations s)"
  by (metis length_map only_stations_def)

lemma only_stations_nth:
  assumes "only_stations s s'" "k < length (ct_stations s)"
  shows "bs_capacity (ct_stations s' ! k) = bs_capacity (ct_stations s ! k)"
    "bs_index (ct_stations s' ! k) = bs_index (ct_stations s ! k)"
  using assms only_stations_length [OF assms(1)] unfolding only_stations_def by (metis nth_map)+

lemma only_stations_fields:
  "only_stations s s' \<Longrightarrow> ct_distance_adj s' = ct_distance_adj s \<and> all_docks s' = all_docks s"
  by (auto simp: only_stations_def all_docks_def) (metis citi.select_convs(3) citi.surjective citi.update_convs(1))

lemma docked_update:
  "j < length (ct_stations s) \<Longrightarrow>
   docked (put_station j st s) = docked s - bs_bikes (ct_stations s ! j) + bs_bikes st"
  by (simp add: docked_def put_station_def sum_list_map_update)

lemma put_station_only:
  "j < length (ct_stations s) \<Longrightarrow> bs_capacity st = bs_capacity (ct_stations s ! j) \<Longrightarrow>
   bs_index st = bs_index (ct_stations s ! j) \<Longrightarrow> only_stations s (put_station j st s)"
  by (simp add: only_stations_def put_station_def map_update list_update_same_conv)

text \<open>Counters: a change of one station that touches none of the fields above.\<close>

definition counter :: "(station \<Rightarrow> station) \<Rightarrow> bool" where
  "counter g \<longleftrightarrow> (\<forall>st. bs_bikes (g st) = bs_bikes st \<and> bs_capacity (g st) = bs_capacity st \<and>
     bs_index (g st) = bs_index st \<and> (station_ok (g st) \<longleftrightarrow> station_ok st))"

lemma counters [simp]:
  "counter (\<lambda>st. st\<lparr>bs_extra_cost := bs_extra_cost st + n\<rparr>)"
  "counter (\<lambda>st. st\<lparr>bs_transfer_cost := bs_transfer_cost st + n\<rparr>)"
  "counter (\<lambda>st. st\<lparr>bs_failed_return := bs_failed_return st + n\<rparr>)"
  by (simp_all add: counter_def station_ok_def)

lemma on_station_counter:
  assumes "counter g"
  shows "only_stations s (on_station j g s)" "docked (on_station j g s) = docked s"
    "map bs_bikes (ct_stations (on_station j g s)) = map bs_bikes (ct_stations s)"
    "list_all station_ok (ct_stations (on_station j g s)) = list_all station_ok (ct_stations s)"
proof -
  have m: "map f (ct_stations (on_station j g s)) = map f (ct_stations s)" if "\<And>st. f (g st) = f st" for f :: "station \<Rightarrow> 'z"
    using that by (simp add: on_station_def put_station_def map_update_at)
  from assms show "only_stations s (on_station j g s)"
    by (simp add: only_stations_def counter_def m) (simp add: on_station_def put_station_def)
  from assms show b: "map bs_bikes (ct_stations (on_station j g s)) = map bs_bikes (ct_stations s)"
    by (simp add: counter_def m)
  then show "docked (on_station j g s) = docked s" by (simp add: docked_def)
  have "map station_ok (ct_stations (on_station j g s)) = map station_ok (ct_stations s)"
    using assms by (simp add: counter_def m)
  then show "list_all station_ok (ct_stations (on_station j g s)) = list_all station_ok (ct_stations s)"
    by (metis (no_types, lifting) list.pred_map comp_id list.pred_cong id_apply comp_def)
qed

section \<open>Placing bikes at the neighbors\<close>

text \<open>What a loop that hands out \<open>q\<close> bikes may do: no station gets fewer bikes, \<open>left\<close> bikes find no dock.\<close>

definition handed_out :: "int \<Rightarrow> int \<Rightarrow> ('d, 'r) citi \<Rightarrow> ('d, 'r) citi \<Rightarrow> bool" where
  "handed_out q left s s' \<longleftrightarrow> 0 \<le> left \<and> left \<le> q \<and> docked s' = docked s + q - left \<and>
     list_all station_ok (ct_stations s') \<and> only_stations s s' \<and>
     (\<forall>k < length (ct_stations s). bs_bikes (ct_stations s ! k) \<le> bs_bikes (ct_stations s' ! k))"

lemma station_ok_nth: "list_all station_ok ss \<Longrightarrow> j < length ss \<Longrightarrow> station_ok (ss ! j)"
  by (simp add: list_all_length)

lemma set_bikes_ok:
  "station_ok st \<Longrightarrow> 0 \<le> v \<Longrightarrow> v \<le> bs_capacity st \<Longrightarrow> station_ok (set_bikes v st)"
  by (auto simp: station_ok_def set_bikes_def)

lemma set_bikes_fields [simp]:
  "bs_bikes (set_bikes v st) = v" "bs_capacity (set_bikes v st) = bs_capacity st"
  "bs_index (set_bikes v st) = bs_index st"
  by (simp_all add: set_bikes_def)

lemma extra_cost_effect:
  "only_stations s (set_extra_cost i j n s)" "docked (set_extra_cost i j n s) = docked s"
  "map bs_bikes (ct_stations (set_extra_cost i j n s)) = map bs_bikes (ct_stations s)"
  "list_all station_ok (ct_stations (set_extra_cost i j n s)) = list_all station_ok (ct_stations s)"
  by (simp_all add: set_extra_cost_def on_station_counter)

lemma bikes_nth: "map bs_bikes ss = map bs_bikes ss' \<Longrightarrow> k < length ss \<Longrightarrow> bs_bikes (ss ! k) = bs_bikes (ss' ! k)"
  by (metis length_map nth_map)

definition full_at :: "int \<Rightarrow> ('d, 'r) citi \<Rightarrow> bool" where
  "full_at i s \<longleftrightarrow> nat i < length (ct_stations s) \<and>
     bs_bikes (ct_stations s ! nat i) = bs_capacity (ct_stations s ! nat i)"

definition untouched :: "int list \<Rightarrow> ('d, 'r) citi \<Rightarrow> ('d, 'r) citi \<Rightarrow> bool" where
  "untouched is s s' \<longleftrightarrow> (\<forall>k < length (ct_stations s). int k \<notin> set is \<longrightarrow>
     bs_bikes (ct_stations s' ! k) = bs_bikes (ct_stations s ! k))"

lemma station_at_nonneg:
  "0 \<le> i \<Longrightarrow> station_at i s = Inr (j, st) \<longleftrightarrow>
     nat i < length (ct_stations s) \<and> j = nat i \<and> st = ct_stations s ! nat i"
  by (metis node_at_int nonneg_int_cases nat_int station_at_def)

lemma station_at_Inr: "station_at i s = Inr (j, st) \<Longrightarrow> j < length (ct_stations s) \<and> st = ct_stations s ! j"
  by (auto simp: station_at_def dest: node_at_Inr)

lemma handed_out_0: "handed_out q q s s \<longleftrightarrow> 0 \<le> q \<and> list_all station_ok (ct_stations s)"
  by (auto simp: handed_out_def)

lemma handed_out_trans:
  assumes "handed_out q left s s1" "handed_out left left' s1 s2"
  shows "handed_out q left' s s2"
proof -
  note l = only_stations_length [of s s1]
  from assms show ?thesis by (auto simp: handed_out_def l intro: only_stations_trans order_trans)
qed

lemma handed_out_full: "handed_out q left s s' \<Longrightarrow> full_at i s \<Longrightarrow> full_at i s'"
  using only_stations_length [of s s'] only_stations_nth(1) [of s s' "nat i"]
  by (fastforce simp: handed_out_def full_at_def station_ok_def list_all_length)

text \<open>One neighbor takes what its docks allow.\<close>

lemma one_neighbor:
  assumes k: "nat nb < length (ct_stations s)" and ok: "list_all station_ok (ct_stations s)" and q: "0 \<le> q"
    and a: "a = min (bs_capacity (ct_stations s ! nat nb) - bs_bikes (ct_stations s ! nat nb)) q"
    and s1: "s1 = set_extra_cost src cur n (put_station (nat nb)
               (set_bikes (bs_bikes (ct_stations s ! nat nb) + a) (ct_stations s ! nat nb)) s)"
  shows "handed_out q (q - a) s s1" "q - a = 0 \<or> full_at nb s1" "0 \<le> nb \<Longrightarrow> untouched [nb] s s1"
proof -
  let ?k = "nat nb"
  let ?p = "put_station ?k (set_bikes (bs_bikes (ct_stations s ! ?k) + a) (ct_stations s ! ?k)) s"
  have st: "station_ok (ct_stations s ! ?k)" by (rule station_ok_nth [OF ok k])
  then have a0: "0 \<le> a" "bs_bikes (ct_stations s ! ?k) + a \<le> bs_capacity (ct_stations s ! ?k)"
    using q a by (auto simp: station_ok_def)
  have only: "only_stations s ?p" using k by (intro put_station_only) simp_all
  note e = extra_cost_effect [where s = ?p and i = src and j = cur and n = n, folded s1]
  have only1: "only_stations s s1" by (rule only_stations_trans [OF only e(1)])
  have b: "bs_bikes (ct_stations s1 ! i) = (if i = ?k then bs_bikes (ct_stations s ! ?k) + a else bs_bikes (ct_stations s ! i))"
    if "i < length (ct_stations s)" for i
    using bikes_nth [OF e(3), of i] that only_stations_length [OF only1] k by (simp add: put_station_def nth_list_update)
  have "list_all station_ok (ct_stations ?p)"
    unfolding put_station_def using ok k st a0 by (auto intro!: list_all_update set_bikes_ok simp: station_ok_def)
  with e(2,4) only1 a a0(1) b k show h: "handed_out q (q - a) s s1"
    by (auto simp: handed_out_def docked_update)
  show "q - a = 0 \<or> full_at nb s1"
    using a b [OF k] only_stations_nth(1) [OF only1 k] only_stations_length [OF only1] k by (auto simp: full_at_def min_def)
  show "untouched [nb] s s1" if "0 \<le> nb" using b that by (auto simp: untouched_def)
qed

lemma move_loop_spec:
  assumes "move_loop src cur i nbs q cost s = Inr (tc, s')" "list_all station_ok (ct_stations s)" "0 \<le> q"
  shows "\<exists>left. handed_out q left s s' \<and> untouched (map fst nbs) s s' \<and>
    (\<forall>nb \<in> set (map fst nbs). nb < 0 \<or> left = 0 \<or> full_at nb s')"
  using assms
proof (induction src cur i nbs q cost s rule: move_loop.induct)
  case (1 src cur i q cost s)
  then show ?case by (auto simp: handed_out_0 untouched_def intro!: exI [of _ q])
next
  case (2 src cur i nb d nbs q cost s)
  show ?case
  proof (cases "nb < 0")
    case True
    with 2(1) [OF True] 2(3-5) show ?thesis by (force simp: untouched_def)
  next
    case False
    with 2(3) have k: "nat nb < length (ct_stations s)"
      by (auto simp: res_simps station_at_nonneg)
    let ?st = "ct_stations s ! nat nb"
    obtain a where a: "a = min (bs_capacity ?st - bs_bikes ?st) q" by blast
    obtain s1 where s1: "s1 = set_extra_cost src cur (calculate_extra_cost a i)
        (put_station (nat nb) (set_bikes (bs_bikes ?st + a) ?st) s)" by blast
    note one = one_neighbor [OF k 2(4,5) a s1]
    from False k have at: "station_at nb s = Inr (nat nb, ?st)" by (simp add: station_at_nonneg)
    have eq: "move_loop src cur i ((nb, d) # nbs) q cost s =
        (if q - a = 0 then Inr (cost + calculate_extra_cost a i, s1)
         else move_loop src cur (i + 1) nbs (q - a) (cost + calculate_extra_cost a i) s1)"
      unfolding a s1 using False at by (simp only: move_loop.simps bindE_Inr Let_def split_conv if_False)
    show ?thesis
    proof (cases "q - a = 0")
      case True
      with 2(3) eq have "s' = s1" by simp
      with one True False show ?thesis by (auto simp: untouched_def intro!: exI [of _ 0])
    next
      case qa: False
      with 2(3) eq have next1:
        "move_loop src cur (i + 1) nbs (q - a) (cost + calculate_extra_cost a i) s1 = Inr (tc, s')"
        by simp
      have "list_all station_ok (ct_stations s1)" "0 \<le> q - a" using one(1) by (auto simp: handed_out_def)
      then obtain left where left: "handed_out (q - a) left s1 s'" "untouched (map fst nbs) s1 s'"
        "\<forall>nb \<in> set (map fst nbs). nb < 0 \<or> left = 0 \<or> full_at nb s'"
        using 2(2) [OF False at refl a refl s1 qa next1] by blast
      have l: "length (ct_stations s1) = length (ct_stations s)"
        using one(1) only_stations_length by (auto simp: handed_out_def)
      from one(2) qa handed_out_full [OF left(1)] have "full_at nb s'" by blast
      moreover have "untouched (nb # map fst nbs) s s'"
        using one(3) left(2) False l by (auto simp: untouched_def)
      ultimately show ?thesis using handed_out_trans [OF one(1) left(1)] left(3) by auto
    qed
  qed
qed

section \<open>Complete distances\<close>

text \<open>Every other station is a neighbor: the distance of two stations is zero on the diagonal only.\<close>

definition complete_adj :: "nat \<Rightarrow> rat list list \<Rightarrow> bool" where
  "complete_adj n adj \<longleftrightarrow> length adj = n \<and>
     (\<forall>i < n. length (adj ! i) = n \<and> (\<forall>j < n. adj ! i ! j = 0 \<longleftrightarrow> i = j))"

definition complete :: "('d, 'r) citi \<Rightarrow> bool" where
  "complete s \<longleftrightarrow> complete_adj (length (ct_stations s)) (ct_distance_adj s) \<and>
     map bs_index (ct_stations s) = map int [0..<length (ct_stations s)]"

lemma enumerate_zip: "zip [0..int (length xs) - 1] xs = map (\<lambda>j. (int j, xs ! j)) [0..<length xs]"
  by (rule nth_equalityI) auto

lemma neighbors_complete:
  assumes "complete_adj n adj" "i < n" "get_neighbors adj (int i) = Inr nbs"
  shows "set (map fst nbs) = int ` ({..<n} - {i})"
proof -
  from assms have l: "length adj = n" "length (adj ! i) = n" "\<And>j. j < n \<Longrightarrow> adj ! i ! j = 0 \<longleftrightarrow> i = j"
    by (auto simp: complete_adj_def)
  with assms have "nbs = sort_key snd (filter (\<lambda>(j, d). d \<noteq> 0) (zip [0..int n - 1] (adj ! i)))"
    by (auto simp: get_neighbors_def py_get_def)
  then have "set nbs = {p \<in> (\<lambda>j. (int j, adj ! i ! j)) ` {..<n}. snd p \<noteq> 0}"
    using enumerate_zip [of "adj ! i"] l(2) by (auto simp: split_def)
  also have "... = (\<lambda>j. (int j, adj ! i ! j)) ` ({..<n} - {i})" using l(3) by auto
  finally show ?thesis by (simp add: image_image)
qed

lemma docked_but_one:
  assumes "j < length (ct_stations s)"
    and "\<And>k. k < length (ct_stations s) \<Longrightarrow> k \<noteq> j \<Longrightarrow> bs_bikes (ct_stations s ! k) = bs_capacity (ct_stations s ! k)"
  shows "docked s = all_docks s - bs_capacity (ct_stations s ! j) + bs_bikes (ct_stations s ! j)"
proof -
  have "map bs_bikes (ct_stations s) = (map bs_capacity (ct_stations s))[j := bs_bikes (ct_stations s ! j)]"
    using assms by (intro nth_equalityI) (auto simp: nth_list_update)
  with assms(1) show ?thesis by (simp add: docked_def all_docks_def sum_list_update_int)
qed

lemma move_excess:
  assumes mv: "move_to_neighbor src j (q - a) s = Inr (tc, s')" and ok: "list_all station_ok (ct_stations s)"
    and j: "j < length (ct_stations s)" and a: "a = bs_capacity (ct_stations s ! j) - bs_bikes (ct_stations s ! j)" "a < q"
  shows "\<exists>left. handed_out (q - a) left s s' \<and>
    (complete s \<and> docked s + q \<le> all_docks s \<longrightarrow>
       left = 0 \<and> bs_bikes (ct_stations s' ! j) = bs_bikes (ct_stations s ! j))"
proof -
  from mv obtain nbs where nb: "get_neighbors (ct_distance_adj s) (bs_index (ct_stations s ! j)) = Inr nbs"
    and "move_loop src j 0 nbs (q - a) 0 s = Inr (tc, s')" by (auto simp: move_to_neighbor_def res_simps)
  from move_loop_spec [OF this(2) ok] a obtain left where left: "handed_out (q - a) left s s'"
    "untouched (map fst nbs) s s'" "\<forall>nb \<in> set (map fst nbs). nb < 0 \<or> left = 0 \<or> full_at nb s'" by auto
  have "left = 0 \<and> bs_bikes (ct_stations s' ! j) = bs_bikes (ct_stations s ! j)"
    if c: "complete s" and room: "docked s + q \<le> all_docks s"
  proof -
    let ?n = "length (ct_stations s)"
    have only: "only_stations s s'" using left(1) by (simp add: handed_out_def)
    note l = only_stations_length [OF only]
    from c j have "bs_index (ct_stations s ! j) = int j" by (metis add_0 complete_def length_map nth_map nth_upt map_nth)
    with nb c j have nbs: "set (map fst nbs) = int ` ({..<?n} - {j})" by (intro neighbors_complete) (auto simp: complete_def)
    with left(2) j have b: "bs_bikes (ct_stations s' ! j) = bs_bikes (ct_stations s ! j)" by (auto simp: untouched_def)
    have "left = 0"
    proof (rule ccontr)
      assume "left \<noteq> 0"
      with left(3) nbs have "full_at (int k) s'" if "k < ?n" "k \<noteq> j" for k using that by fastforce
      then have "docked s' = all_docks s' - bs_capacity (ct_stations s' ! j) + bs_bikes (ct_stations s' ! j)"
        using l j by (intro docked_but_one) (auto simp: full_at_def)
      with left(1) b a room only_stations_fields [OF only] only_stations_nth(1) [OF only j] \<open>left \<noteq> 0\<close>
      show False by (simp add: handed_out_def)
    qed
    with b show ?thesis by simp
  qed
  with left(1) show ?thesis by blast
qed

section \<open>Handlers\<close>

text \<open>Bikes that arrive at a station: \<open>left\<close> of the \<open>q\<close> bikes are lost.\<close>

definition steady :: "('d, 'r) citi \<Rightarrow> ('d, 'r) citi \<Rightarrow> bool" where
  "steady s s' \<longleftrightarrow> ct_distance_adj s' = ct_distance_adj s \<and>
     map bs_capacity (ct_stations s') = map bs_capacity (ct_stations s) \<and>
     map bs_index (ct_stations s') = map bs_index (ct_stations s)"

lemma unmoved_refl [simp]: "steady s s"
  by (simp add: steady_def)

lemma unmoved_trans: "steady s s' \<Longrightarrow> steady s' s'' \<Longrightarrow> steady s s''"
  by (simp add: steady_def)

lemma only_steady: "only_stations s s' \<Longrightarrow> steady s s'"
  using only_stations_fields [of s s'] by (simp add: steady_def only_stations_def)

lemma steady_same:
  assumes "steady s s'"
  shows "all_docks s' = all_docks s" "complete s' = complete s" "length (ct_stations s') = length (ct_stations s)"
proof -
  show l: "length (ct_stations s') = length (ct_stations s)" using assms by (metis length_map steady_def)
  show "all_docks s' = all_docks s" "complete s' = complete s"
    using assms l by (simp_all add: all_docks_def complete_def steady_def)
qed

lemma map_eq_nth: "map f xs = map f ys \<Longrightarrow> k < length ys \<Longrightarrow> f (xs ! k) = f (ys ! k)"
  by (metis length_map nth_map)

lemma steady_nth: "steady s s' \<Longrightarrow> k < length (ct_stations s) \<Longrightarrow> bs_capacity (ct_stations s' ! k) = bs_capacity (ct_stations s ! k)"
  by (rule map_eq_nth) (simp_all add: steady_def)

definition arrived :: "int \<Rightarrow> ('d, 'r) citi \<Rightarrow> ('d, 'r) citi \<Rightarrow> bool" where
  "arrived q s s' \<longleftrightarrow> list_all station_ok (ct_stations s') \<and> steady s s' \<and> docked s' \<le> docked s + q \<and>
     (complete s \<and> docked s + q \<le> all_docks s \<longrightarrow> docked s' = docked s + q)"

lemma set_bikes_at:
  assumes "j < length (ct_stations s)" "list_all station_ok (ct_stations s)" "0 \<le> v" "v \<le> bs_capacity (ct_stations s ! j)"
  shows "list_all station_ok (ct_stations (on_station j (set_bikes v) s))" "only_stations s (on_station j (set_bikes v) s)"
    "docked (on_station j (set_bikes v) s) = docked s - bs_bikes (ct_stations s ! j) + v"
  using assms station_ok_nth [OF assms(2,1)]
  by (auto simp: on_station_def docked_update intro!: put_station_only)
     (simp add: put_station_def list_all_update set_bikes_ok)

lemma arrive_at:
  assumes ok: "list_all station_ok (ct_stations s)" and j: "j < length (ct_stations s)" and q: "0 \<le> q"
    and a: "a = min (bs_capacity (ct_stations s ! j) - bs_bikes (ct_stations s ! j)) q"
    and mv: "if a < q then \<exists>src tc. move_to_neighbor src j (q - a) s = Inr (tc, s1) else s1 = s"
    and g: "list_all station_ok (ct_stations s2)" "steady s1 s2" "map bs_bikes (ct_stations s2) = map bs_bikes (ct_stations s1)"
  shows "arrived q s (on_station j (set_bikes (bs_bikes (ct_stations s ! j) + a)) s2)"
proof -
  let ?b = "bs_bikes (ct_stations s ! j)" and ?c = "bs_capacity (ct_stations s ! j)"
  have st: "station_ok (ct_stations s ! j)" by (rule station_ok_nth [OF ok j])
  obtain left where left: "handed_out (q - a) left s s1"
    "complete s \<and> docked s + q \<le> all_docks s \<longrightarrow> left = 0 \<and> bs_bikes (ct_stations s1 ! j) = ?b"
  proof (cases "a < q")
    case True
    with a have "a = ?c - ?b" by auto
    with True mv move_excess [OF _ ok j this True] that show ?thesis by auto
  next
    case False
    with mv a have "s1 = s" "a = q" by auto
    with that [of 0] ok show ?thesis using handed_out_0 [of 0 s] by simp
  qed
  then have only: "only_stations s s1" by (simp add: handed_out_def)
  from unmoved_trans [OF only_steady [OF only] g(2)] have sd: "steady s s2" .
  then have l: "length (ct_stations s2) = length (ct_stations s)" "length (ct_stations s1) = length (ct_stations s)"
    using steady_same(3) only_stations_length [OF only] by auto
  have c: "bs_capacity (ct_stations s2 ! j) = ?c"
    using steady_nth [OF sd j] by simp
  have b: "bs_bikes (ct_stations s2 ! j) = bs_bikes (ct_stations s1 ! j)" using bikes_nth [OF g(3)] j l by simp
  have v: "0 \<le> ?b + a" "?b + a \<le> bs_capacity (ct_stations s2 ! j)" using st a q c by (auto simp: station_ok_def)
  note fin = set_bikes_at [OF _ g(1) v]
  have "docked s2 = docked s1" using g(3) by (simp add: docked_def)
  with fin(3) j l b have d: "docked (on_station j (set_bikes (?b + a)) s2) = docked s1 - bs_bikes (ct_stations s1 ! j) + ?b + a"
    by simp
  have "?b \<le> bs_bikes (ct_stations s1 ! j)" "0 \<le> left" "docked s1 = docked s + (q - a) - left"
    using left(1) j by (simp_all add: handed_out_def)
  with d left(2) have "docked (on_station j (set_bikes (?b + a)) s2) \<le> docked s + q"
    "complete s \<and> docked s + q \<le> all_docks s \<longrightarrow> docked (on_station j (set_bikes (?b + a)) s2) = docked s + q"
    by auto
  with unmoved_trans [OF sd only_steady [OF fin(2)]] fin(1) j l show ?thesis by (simp add: arrived_def)
qed

lemma counter_keeps:
  assumes "counter g"
  shows "list_all station_ok (ct_stations s) \<Longrightarrow> list_all station_ok (ct_stations (on_station j g s))"
    "steady s (on_station j g s)" "map bs_bikes (ct_stations (on_station j g s)) = map bs_bikes (ct_stations s)"
  by (simp_all add: on_station_counter [OF assms] only_steady)

lemma returned_arrived:
  assumes r: "on_bike_returned p s = Inr s'" and ok: "list_all station_ok (ct_stations s)" and q: "0 \<le> bm_number p"
  shows "arrived (bm_number p) s s'"
proof -
  obtain j st where j: "station_at (bm_to_station_idx p) s = Inr (j, st)" using r by (auto simp: on_bike_returned_def res_simps)
  then have jl: "j < length (ct_stations s)" "st = ct_stations s ! j" by (auto dest: station_at_Inr)
  obtain a where a: "a = min (bs_capacity st - bs_bikes st) (bm_number p)" by blast
  have le: "a \<le> bm_number p" by (simp add: a)
  obtain s0 where s0: "s0 = (if a < bm_number p
      then on_station j (\<lambda>st. st\<lparr>bs_failed_return := bs_failed_return st + (bm_number p - a)\<rparr>) s else s)" by blast
  have keeps: "list_all station_ok (ct_stations s0)" "steady s s0" "map bs_bikes (ct_stations s0) = map bs_bikes (ct_stations s)"
    unfolding s0 using ok by (simp_all add: counter_keeps [OF counters(3)])
  have eq: "on_bike_returned p s =
      bindE (if a < bm_number p then bindE (station_at (bm_from_station_idx p) s) (\<lambda>(k, src).
               bindE (move_to_neighbor k j (bm_number p - a)
                 (on_station j (\<lambda>st. st\<lparr>bs_failed_return := bs_failed_return st + (bm_number p - a)\<rparr>) s)) (\<lambda>(cost, s2). Inr s2))
             else Inr s)
        (\<lambda>s3. Inr (on_station j (set_bikes (bs_bikes st + a)) s3))"
    unfolding on_bike_returned_def a by (simp only: j bindE_Inr Let_def split_conv)
  obtain s3 where s3: "if a < bm_number p then \<exists>src tc. move_to_neighbor src j (bm_number p - a) s0 = Inr (tc, s3) else s3 = s0"
    and s': "s' = on_station j (set_bikes (bs_bikes st + a)) s3"
    using r unfolding eq s0 by (cases "a < bm_number p") (auto simp: res_simps)
  have st0: "bs_capacity (ct_stations s0 ! j) = bs_capacity st" "bs_bikes (ct_stations s0 ! j) = bs_bikes st"
    using steady_nth [OF keeps(2)] map_eq_nth [OF keeps(3)] jl by simp_all
  have j0: "j < length (ct_stations s0)" using steady_same(3) [OF keeps(2)] jl by simp
  have ok3: "list_all station_ok (ct_stations s3)"
    using s3 keeps(1) move_loop_spec le
    by (auto simp: move_to_neighbor_def res_simps handed_out_def split: if_splits dest!: move_loop_spec)
  have "arrived (bm_number p) s0 (on_station j (set_bikes (bs_bikes (ct_stations s0 ! j) + a)) s3)"
    by (rule arrive_at [OF keeps(1) j0 q _ s3 ok3]) (simp_all add: st0 a)
  with s' st0 keeps steady_same [OF keeps(2)] unmoved_trans [OF keeps(2)] show ?thesis
    by (simp add: arrived_def docked_def)
qed

lemma deliver_arrived:
  assumes r: "on_bike_deliver p s = Inr s'" and ok: "list_all station_ok (ct_stations s)" and q: "0 \<le> bm_number p"
  shows "arrived (bm_number p) s s'"
proof -
  obtain j st where j: "station_at (bm_to_station_idx p) s = Inr (j, st)" using r by (auto simp: on_bike_deliver_def res_simps)
  then have jl: "j < length (ct_stations s)" "st = ct_stations s ! j" by (auto dest: station_at_Inr)
  obtain a where a: "a = min (bs_capacity st - bs_bikes st) (bm_number p)" by blast
  have eq: "on_bike_deliver p s =
      bindE (if a < bm_number p then bindE (station_at (bm_from_station_idx p) s) (\<lambda>(k, src).
               bindE (move_to_neighbor k j (bm_number p - a) s) (\<lambda>(cost, s2). Inr s2)) else Inr s)
        (\<lambda>s1. Inr (on_station j (set_bikes (bs_bikes st + a)) (if 0 < a then
             (on_station j (\<lambda>st. st\<lparr>bs_transfer_cost := bs_transfer_cost st + a\<rparr>) s1)
               \<lparr>ct_total_operate_num := ct_total_operate_num s1 + a\<rparr> else s1)))"
    unfolding on_bike_deliver_def a by (simp only: j bindE_Inr Let_def split_conv)
  obtain s1 where s1: "if a < bm_number p then \<exists>src tc. move_to_neighbor src j (bm_number p - a) s = Inr (tc, s1) else s1 = s"
    and s': "s' = on_station j (set_bikes (bs_bikes st + a)) (if 0 < a then
       (on_station j (\<lambda>st. st\<lparr>bs_transfer_cost := bs_transfer_cost st + a\<rparr>) s1)
          \<lparr>ct_total_operate_num := ct_total_operate_num s1 + a\<rparr> else s1)"
    using r unfolding eq by (cases "a < bm_number p") (auto simp: res_simps)
  have ok1: "list_all station_ok (ct_stations s1)"
    using s1 ok move_loop_spec a
    by (auto simp: move_to_neighbor_def res_simps handed_out_def split: if_splits dest!: move_loop_spec)
  have "arrived (bm_number p) s s'"
    unfolding s' jl(2)
    by (rule arrive_at [OF ok jl(1) q _ s1])
       (use a jl ok1 in \<open>simp_all add: counter_keeps [OF counters(2)] counter_keeps(2) [OF counters(2), unfolded steady_def] steady_def\<close>)
  then show ?thesis .
qed

section \<open>Departures\<close>

definition payload_bikes :: "citi_payload \<Rightarrow> int" where
  "payload_bikes p =
     (case p of BikeReturnPayload m \<Rightarrow> bm_number m | BikeTransferPayload m \<Rightarrow> bm_number m | _ \<Rightarrow> 0)"

definition emit_payloads :: "citi_emit \<Rightarrow> citi_payload list" where
  "emit_payloads e =
     (case e of
        EmitAtom t ty p \<Rightarrow> (case p of None \<Rightarrow> [] | Some q \<Rightarrow> [q])
      | EmitDecision t d \<Rightarrow> [BikeDecisionPayload d])"

definition sent :: "citi_emit list \<Rightarrow> int" where
  "sent es = sum_list (map payload_bikes (concat (map emit_payloads es)))"

lemma sent_simps [simp]: "sent [] = 0" "sent (es @ es') = sent es + sent es'"
  by (simp_all add: sent_def)

definition departed :: "('d, 'r) citi \<Rightarrow> ('d, 'r) citi \<Rightarrow> citi_emit list \<Rightarrow> bool" where
  "departed s s' es \<longleftrightarrow> list_all station_ok (ct_stations s') \<and> steady s s' \<and> docked s' + sent es = docked s \<and>
     (\<forall>p \<in> set (concat (map emit_payloads es)). 0 \<le> payload_bikes p)"

lemma departed_refl: "list_all station_ok (ct_stations s) \<Longrightarrow> departed s s []"
  by (simp add: departed_def)

lemma departed_trans: "departed s s1 es \<Longrightarrow> departed s1 s2 es' \<Longrightarrow> departed s s2 (es @ es')"
  by (auto simp: departed_def intro: unmoved_trans)

text \<open>Replacing the record of one station.\<close>

lemma put_station_effect:
  assumes "j < length (ct_stations s)" "list_all station_ok (ct_stations s)" "station_ok st"
    "bs_capacity st = bs_capacity (ct_stations s ! j)" "bs_index st = bs_index (ct_stations s ! j)"
  shows "list_all station_ok (ct_stations (put_station j st s))" "steady s (put_station j st s)"
    "docked (put_station j st s) = docked s - bs_bikes (ct_stations s ! j) + bs_bikes st"
  using assms by (simp_all add: docked_update put_station_only only_steady)
    (simp add: put_station_def list_all_update)

lemma required_result:
  assumes r: "on_required_bike tick trip s = Inr (s', es)"
  obtains j st where "j < length (ct_stations s)" "st = ct_stations s ! j"
    "ct_distance_adj s' = ct_distance_adj s"
    "if bs_bikes st < 1
     then es = [] \<and> ct_stations s' = (ct_stations s)[j := st\<lparr>bs_trip_requirement := bs_trip_requirement st + 1,
            bs_shortage := bs_shortage st + 1\<rparr>]
     else ct_stations s' = (ct_stations s)[j := set_bikes (bs_bikes st - 1)
            (st\<lparr>bs_trip_requirement := bs_trip_requirement st + 1, bs_fulfillment := bs_fulfillment st + 1\<rparr>)] \<and>
          (\<exists>t. tick = Some t \<and> es = [EmitAtom (t + tr_durations trip) ReturnBike
            (Some (BikeReturnPayload \<lparr>bm_from_station_idx = tr_src_station trip,
               bm_to_station_idx = tr_dest_station trip, bm_number = 1\<rparr>))])"
proof -
  from r obtain j st where "station_at (tr_src_station trip) s = Inr (j, st)" by (auto simp: on_required_bike_def res_simps)
  with that [of j st] r station_at_Inr [OF this] show ?thesis
    by (auto simp: on_required_bike_def res_simps Let_def put_station_def on_station_def need_def
        split: if_splits option.splits)
qed

lemma required_departed:
  assumes "on_required_bike tick trip s = Inr (s', es)" "list_all station_ok (ct_stations s)"
  shows "departed s s' es"
  using assms(1)
proof (rule required_result, goal_cases)
  case (1 j st)
  from assms(2) 1(1,2) have st: "station_ok st" by (simp add: station_ok_nth)
  obtain st' where st': "ct_stations s' = ct_stations (put_station j st' s)" "station_ok st'"
    "bs_capacity st' = bs_capacity st" "bs_index st' = bs_index st" "bs_bikes st' + sent es = bs_bikes st"
    "\<forall>p \<in> set (concat (map emit_payloads es)). 0 \<le> payload_bikes p"
  proof (cases "bs_bikes st < 1")
    case True
    show thesis
      by (rule that [of "st\<lparr>bs_trip_requirement := bs_trip_requirement st + 1, bs_shortage := bs_shortage st + 1\<rparr>"])
         (use True 1(4) st in \<open>simp_all add: put_station_def station_ok_def\<close>)
  next
    case False
    show thesis
      by (rule that [of "set_bikes (bs_bikes st - 1) (st\<lparr>bs_trip_requirement := bs_trip_requirement st + 1,
             bs_fulfillment := bs_fulfillment st + 1\<rparr>)"])
         (use False 1(4) st in \<open>auto simp: put_station_def station_ok_def set_bikes_def sent_def emit_payloads_def
            payload_bikes_def\<close>)
  qed
  note put = put_station_effect [OF 1(1) assms(2) st'(2)]
  from put st' 1(2,3) show ?case by (auto simp: departed_def docked_def steady_def)
qed

lemma action_departed:
  assumes "apply_bike_action c tick a s = Inr (s', es)" "list_all station_ok (ct_stations s)"
  shows "departed s s' es"
proof (cases "es = []")
  case True
  with assms show ?thesis
    by (auto simp: apply_bike_action_def res_simps Let_def departed_refl split: if_splits prod.splits)
next
  case False
  with assms(1) obtain j st n where "station_at (ba_from_station_idx a) s = Inr (j, st)"
    and n: "n = min (bs_bikes st) (ba_number a)" "0 < n"
    and s': "ct_stations s' = ct_stations (put_station j (set_bikes (bs_bikes st - n) st) s)"
      "ct_distance_adj s' = ct_distance_adj s" "sent es = n"
      "\<forall>p \<in> set (concat (map emit_payloads es)). payload_bikes p = n"
    by (auto simp: apply_bike_action_def res_simps Let_def transfer_time_def put_station_def sent_def emit_payloads_def
        payload_bikes_def split: if_splits prod.splits)
  then have j: "j < length (ct_stations s)" "st = ct_stations s ! j" by (auto dest: station_at_Inr)
  have st: "station_ok st" unfolding j(2) by (rule station_ok_nth [OF assms(2) j(1)])
  then have "station_ok (set_bikes (bs_bikes st - n) st)" using n by (auto simp: station_ok_def set_bikes_def)
  note put = put_station_effect [OF j(1) assms(2) this]
  from put s' n(2) j(2) show ?thesis by (auto simp: departed_def docked_def steady_def)
qed

lemma actions_departed:
  "on_bike_action_received c tick as s = Inr (s', es) \<Longrightarrow> list_all station_ok (ct_stations s) \<Longrightarrow> departed s s' es"
proof (induction as arbitrary: s es)
  case (Cons x as)
  from Cons.prems(1) obtain a s1 es1 es2 where "apply_bike_action c tick a s = Inr (s1, es1)"
    "on_bike_action_received c tick as s1 = Inr (s', es2)" "es = es1 @ es2"
    by (auto simp: res_simps split: py_action.splits)
  with action_departed [OF this(1) Cons.prems(2)] Cons.IH [OF this(2)] show ?case
    by (metis departed_def departed_trans)
qed (simp add: departed_refl)

end
