(* ===== verification/CitiRuns.thy ===== *)
theory CitiRuns imports CitiProps SimProps begin

text \<open>
  Runs of the bike repositioning engine.  \<open>citi_trans\<close> handles the payloads of pending events in any
  order, next to ticks, decisions, snapshots and action scopes read by the agent; its reachable states
  keep the books of every station and of all bikes.  The environment keeps the part of the invariant that
  holds for any content of the buffer, and ends the episode at the last tick.
\<close>

section \<open>Operations that move no bike\<close>

lemma kept_map:
  assumes "ct_stations s' = map g (ct_stations s)" "ct_distance_adj s' = ct_distance_adj s"
    and "list_all station_ok (ct_stations s)"
    and "\<And>st. bs_bikes (g st) = bs_bikes st \<and> bs_capacity (g st) = bs_capacity st \<and> bs_index (g st) = bs_index st"
    and "\<And>st. station_ok st \<Longrightarrow> station_ok (g st)"
  shows "departed s s' []"
  using assms by (simp add: departed_def steady_def docked_def list.pred_map comp_def) (simp add: list_all_iff)

lemma kept_same:
  "ct_stations s' = ct_stations s \<Longrightarrow> ct_distance_adj s' = ct_distance_adj s \<Longrightarrow>
   list_all station_ok (ct_stations s) \<Longrightarrow> departed s s' []"
  using kept_map [of s' id s] by simp

lemma extra_features_departed:
  assumes "list_all station_ok (ct_stations s)"
  shows "departed s (update_station_extra_features c t s) []"
proof (cases "ct_last_date s = Some (bp_tick_date c t)")
  case True
  with assms show ?thesis by (simp add: update_station_extra_features_def departed_refl)
next
  case False
  then obtain wd h w tp where "ct_stations (update_station_extra_features c t s) =
      map (set_extra_features wd h w tp) (ct_stations s)"
    by (cases "map_of (ct_weather s) (bp_tick_date c t)") (auto simp: update_station_extra_features_def Let_def)
  moreover have "ct_distance_adj (update_station_extra_features c t s) = ct_distance_adj s"
    by (simp add: update_station_extra_features_def Let_def split: prod.splits)
  ultimately show ?thesis using assms
    by (rule kept_map) (simp_all add: set_extra_features_def station_ok_def)
qed

lemma citi_step_departed:
  assumes "citi_step c t (b, s) = Inr (b', s')" "list_all station_ok (ct_stations s)"
  shows "departed s s' []"
proof -
  from assms(1) obtain pk where s': "s' = update_station_extra_features c t (s\<lparr>ct_picker := pk\<rparr>)"
    by (auto simp: citi_step_def res_simps Let_def split: prod.splits)
  from assms(2) have "departed (s\<lparr>ct_picker := pk\<rparr>) s' []" unfolding s' by (intro extra_features_departed) simp
  then show ?thesis by (simp add: departed_def steady_def docked_def)
qed

lemma post_step_result:
  "citi_post_step t s = Inr (s', e) \<Longrightarrow>
     e = (t + 1 = be_max_tick (ct_base s)) \<and> ct_base s' = ct_base s \<and> ct_distance_adj s' = ct_distance_adj s \<and>
     (ct_stations s' = ct_stations s \<or> ct_stations s' = map clear_window (ct_stations s))"
  by (auto simp: citi_post_step_def citi_take_snapshot_def res_simps Let_def split: if_splits)

lemma post_step_departed:
  assumes "citi_post_step t s = Inr (s', e)" "list_all station_ok (ct_stations s)"
  shows "departed s s' []"
proof -
  from post_step_result [OF assms(1)] have d: "ct_distance_adj s' = ct_distance_adj s"
    and "ct_stations s' = ct_stations s \<or> ct_stations s' = map clear_window (ct_stations s)" by simp_all
  from this(2) show ?thesis
  proof
    assume "ct_stations s' = map clear_window (ct_stations s)"
    then show ?thesis using d assms(2) by (rule kept_map) (simp_all add: clear_window_def station_ok_def)
  qed (use d assms(2) in \<open>simp add: kept_same\<close>)
qed

lemma rebalance_departed:
  assumes "on_rebalance_bikes c t s = Inr (s', es)"
  shows "s' = s" "sent es = 0" "\<forall>p \<in> set (concat (map emit_payloads es)). payload_bikes p = 0"
proof -
  from assms obtain ds tk where s': "s' = s" and es: "mapE (\<lambda>(i, ty). bindE (be_frame_index (ct_base s) tk) (\<lambda>fi.
      Inr (EmitDecision tk \<lparr>bd_station_idx = i, bd_tick = tk, bd_frame_index = fi, bd_type = ty, bd_action_scope = None\<rparr>))) ds = Inr es"
    by (auto simp: on_rebalance_bikes_def res_simps)
  show "s' = s" by (rule s')
  have "\<forall>p \<in> set (concat (map emit_payloads es)). payload_bikes p = 0" if "mapE (\<lambda>(i, ty). bindE (be_frame_index (ct_base s) tk) (\<lambda>fi.
      Inr (EmitDecision tk \<lparr>bd_station_idx = i, bd_tick = tk, bd_frame_index = fi, bd_type = ty, bd_action_scope = None\<rparr>))) ds = Inr es"
    for ds es
    using that by (induction ds arbitrary: es) (auto simp: res_simps emit_payloads_def payload_bikes_def)
  from this [OF es] show z: "\<forall>p \<in> set (concat (map emit_payloads es)). payload_bikes p = 0" .
  have "sum_list (map payload_bikes ps) = 0" if "\<forall>p \<in> set ps. payload_bikes p = 0" for ps
    using that by (induction ps) auto
  from this [OF z] show "sent es = 0" by (simp add: sent_def)
qed

lemma scope_departed:
  assumes "bike_action_scope c i ty s = Inr (sc, s')" "list_all station_ok (ct_stations s)"
  shows "departed s s' []"
  using assms by (auto simp: bike_action_scope_def res_simps intro!: kept_same)

section \<open>Reachable states\<close>

definition is_move :: "citi_payload \<Rightarrow> bool" where
  "is_move p = (case p of BikeReturnPayload m \<Rightarrow> True | BikeTransferPayload m \<Rightarrow> True | _ \<Rightarrow> False)"

inductive citi_trans ::
  "('d, 'r) citi_params \<Rightarrow> ('d, 'r) citi \<times> citi_payload multiset \<Rightarrow> ('d, 'r) citi \<times> citi_payload multiset \<Rightarrow> bool"
  for c where
  arrive: "\<not> is_move p \<Longrightarrow> citi_trans c (s, Q) (s, add_mset p Q)"
| handled: "citi_handle c hn t (Some p) s = Inr (s', es) \<Longrightarrow> hn \<noteq> On_rebalance_bikes \<Longrightarrow>
    citi_trans c (s, add_mset p Q) (s', mset (concat (map emit_payloads es)) + Q)"
| checked: "citi_handle c On_rebalance_bikes t None s = Inr (s', es) \<Longrightarrow>
    citi_trans c (s, Q) (s', mset (concat (map emit_payloads es)) + Q)"
| tick: "citi_step c t (b, s) = Inr (b', s') \<Longrightarrow> citi_trans c (s, Q) (s', Q)"
| end_tick: "citi_post_step t s = Inr (s', e) \<Longrightarrow> citi_trans c (s, Q) (s', Q)"
| snapshot: "citi_trans c (s, Q) (citi_take_snapshot fi s, Q)"
| scope: "bike_action_scope (bp_conf c) i ty s = Inr (sc, s') \<Longrightarrow> citi_trans c (s, Q) (s', Q)"

inductive_cases citi_trans_idleE: "citi_trans c (s, {#}) S"

definition in_flight :: "citi_payload multiset \<Rightarrow> int" where
  "in_flight Q = (\<Sum>p \<in># Q. payload_bikes p)"

lemma in_flight_simps [simp]:
  "in_flight {#} = 0" "in_flight (add_mset p Q) = payload_bikes p + in_flight Q"
  "in_flight (Q + Q') = in_flight Q + in_flight Q'"
  by (simp_all add: in_flight_def)

lemma in_flight_sent: "in_flight (mset (concat (map emit_payloads es))) = sent es"
  by (simp add: in_flight_def sent_def flip: mset_map sum_mset_sum_list)

lemma in_flight_nonneg: "\<forall>p \<in># Q. 0 \<le> payload_bikes p \<Longrightarrow> 0 \<le> in_flight Q"
  by (induction Q) auto

definition citi_books :: "int \<Rightarrow> ('d, 'r) citi \<times> citi_payload multiset \<Rightarrow> bool" where
  "citi_books K S \<longleftrightarrow> (case S of (s, Q) \<Rightarrow>
     list_all station_ok (ct_stations s) \<and> (\<forall>p \<in># Q. 0 \<le> payload_bikes p) \<and>
     docked s + in_flight Q \<le> K \<and>
     (complete s \<and> K \<le> all_docks s \<longrightarrow> docked s + in_flight Q = K))"

lemma departed_books:
  assumes "departed s s' es" "citi_books K (s, Q)"
  shows "citi_books K (s', mset (concat (map emit_payloads es)) + Q)"
proof -
  from assms(1) have d: "list_all station_ok (ct_stations s')" "steady s s'" "docked s' + sent es = docked s"
    "\<forall>p \<in> set (concat (map emit_payloads es)). 0 \<le> payload_bikes p" by (auto simp: departed_def)
  with assms(2) steady_same [OF d(2)] show ?thesis by (auto simp: citi_books_def in_flight_sent)
qed

lemma departed_nil_books: "departed s s' [] \<Longrightarrow> citi_books K (s, Q) \<Longrightarrow> citi_books K (s', Q)"
  using departed_books [of s s' "[]" K Q] by simp

lemma arrived_books:
  assumes "arrived q s s'" "citi_books K (s, add_mset p Q)" "payload_bikes p = q"
  shows "citi_books K (s', Q)"
proof -
  have nn: "0 \<le> in_flight Q" using assms(2) by (intro in_flight_nonneg) (simp add: citi_books_def)
  from assms(1) have a: "steady s s'" by (simp add: arrived_def)
  show ?thesis using assms nn steady_same [OF a] by (auto simp: citi_books_def arrived_def)
qed

text \<open>Handling a pending payload: it is used up, what the handler emits is pending.\<close>

lemma handled_books:
  assumes h: "citi_handle c hn t (Some p) s = Inr (s', es)" "hn \<noteq> On_rebalance_bikes"
    and b: "citi_books K (s, add_mset p Q)"
  shows "citi_books K (s', mset (concat (map emit_payloads es)) + Q)"
proof -
  from b have ok: "list_all station_ok (ct_stations s)" and q: "0 \<le> payload_bikes p" by (auto simp: citi_books_def)
  show ?thesis
  proof (cases "is_move p")
    case True
    then obtain m where p: "p = BikeReturnPayload m \<or> p = BikeTransferPayload m"
      by (auto simp: is_move_def split: citi_payload.splits)
    then have m: "payload_bikes p = bm_number m" by (auto simp: payload_bikes_def)
    from h p have "(on_bike_returned m s = Inr s' \<or> on_bike_deliver m s = Inr s') \<and> es = []"
      by (auto simp: citi_handle_def res_simps split: citi_handler.splits)
    with returned_arrived [of m s s'] deliver_arrived [of m s s'] ok q m have "arrived (bm_number m) s s'" "es = []" by auto
    from arrived_books [OF this(1) b m] this(2) show ?thesis by simp
  next
    case False
    then have z: "payload_bikes p = 0" by (auto simp: is_move_def payload_bikes_def split: citi_payload.splits)
    from h False have "departed s s' es"
      by (auto simp: citi_handle_def is_move_def res_simps split: citi_handler.splits citi_payload.splits
          intro: required_departed [OF _ ok] actions_departed [OF _ ok])
    from departed_books [OF this, of K Q] b z show ?thesis by (auto simp: citi_books_def)
  qed
qed

theorem citi_trans_books:
  assumes "citi_trans c S S'" "citi_books K S"
  shows "citi_books K S'"
  using assms
proof (cases rule: citi_trans.cases)
  case (arrive p s Q)
  then have "payload_bikes p = 0" by (auto simp: is_move_def payload_bikes_def split: citi_payload.splits)
  with arrive assms(2) show ?thesis by (simp add: citi_books_def)
next
  case (handled hn t p s s' es Q)
  with handled_books assms(2) show ?thesis by blast
next
  case (checked t s s' es Q)
  then have "on_rebalance_bikes (bp_conf c) t s = Inr (s', es)" by (simp add: citi_handle_def)
  from rebalance_departed [OF this] assms(2) checked(1) have "departed s s' es"
    by (auto simp: departed_def citi_books_def)
  from departed_books [OF this, of K Q] assms(2) checked show ?thesis by simp
next
  case (tick t b s b' s' Q)
  with assms(2) citi_step_departed [OF tick(3)] departed_nil_books show ?thesis by (auto simp: citi_books_def)
next
  case (end_tick t s s' e Q)
  with assms(2) post_step_departed [OF end_tick(3)] departed_nil_books show ?thesis by (auto simp: citi_books_def)
next
  case (snapshot s Q fi)
  with assms(2) show ?thesis by (simp add: citi_books_def citi_take_snapshot_def docked_def complete_def all_docks_def)
next
  case (scope i ty s sc s' Q)
  with assms(2) scope_departed [OF scope(3)] departed_nil_books show ?thesis by (auto simp: citi_books_def)
qed

lemma citi_reachable_books: "(citi_trans c)\<^sup>*\<^sup>* S S' \<Longrightarrow> citi_books K S \<Longrightarrow> citi_books K S'"
  by (induction rule: rtranclp_induct) (blast intro: citi_trans_books)+

section \<open>The initial state\<close>

definition infos_ok :: "station_info list \<Rightarrow> bool" where
  "infos_ok infos \<longleftrightarrow> list_all (\<lambda>i. 0 \<le> si_bikes i \<and> si_bikes i \<le> si_capacity i) infos"

lemma set_init_state_ok:
  "0 \<le> b \<Longrightarrow> b \<le> cap \<Longrightarrow> station_ok st \<Longrightarrow> station_ok (station_set_init_state b cap i st)"
  by (simp add: station_ok_def station_set_init_state_def station_reset_def set_bikes_def)

lemma set_init_state_index [simp]: "bs_index (station_set_init_state b cap i st) = bs_index st"
  by (simp add: station_set_init_state_def station_reset_def)

lemma init_stations_index:
  assumes "init_stations infos = Inr ss"
  shows "map bs_index ss = map int [0..<length infos]"
proof -
  have "map bs_index ss = map bs_index (map blank_station [0..int (length infos) - 1])"
    using assms unfolding init_stations_def
  proof (rule foldE_invariant)
    fix info ss1 ss2
    assume i: "map bs_index ss1 = map bs_index (map blank_station [0..int (length infos) - 1])"
      and "bindE (node_at ss1 (si_index info)) (\<lambda>(j, st).
         Inr (ss1[j := station_set_init_state (si_bikes info) (si_capacity info) (si_id info) st])) = Inr ss2"
    then obtain j where "j < length ss1" "ss2 = ss1[j := station_set_init_state (si_bikes info) (si_capacity info) (si_id info) (ss1 ! j)]"
      by (auto simp: res_simps dest!: node_at_Inr)
    with i show "map bs_index ss2 = map bs_index (map blank_station [0..int (length infos) - 1])"
      using map_update_at [of bs_index "station_set_init_state (si_bikes info) (si_capacity info) (si_id info)" ss1 j]
      by simp
  qed simp
  then show ?thesis by (auto simp: blank_station_def intro!: nth_equalityI dest: map_eq_imp_length_eq)
qed

lemma init_stations_ok:
  assumes "init_stations infos = Inr ss" "infos_ok infos"
  shows "list_all station_ok ss"
  using assms(1) unfolding init_stations_def
proof (rule foldE_invariant)
  show "list_all station_ok (map blank_station [0..int (length infos) - 1])"
    by (simp add: list_all_iff blank_station_def station_ok_def)
next
  fix info ss1 ss2
  assume "info \<in> set infos" and ok: "list_all station_ok ss1" and "bindE (node_at ss1 (si_index info)) (\<lambda>(j, st).
      Inr (ss1[j := station_set_init_state (si_bikes info) (si_capacity info) (si_id info) st])) = Inr ss2"
  with assms(2) obtain j where "j < length ss1" "0 \<le> si_bikes info" "si_bikes info \<le> si_capacity info"
    "ss2 = ss1[j := station_set_init_state (si_bikes info) (si_capacity info) (si_id info) (ss1 ! j)]"
    by (auto simp: res_simps infos_ok_def list_all_iff dest!: node_at_Inr)
  with list_all_update_at [OF ok, of "station_set_init_state (si_bikes info) (si_capacity info) (si_id info)" j]
    set_init_state_ok show "list_all station_ok ss2" by blast
qed

lemma init_citi_result:
  assumes "init_citi c files rand base b0 = Inr (b, s)"
  shows "init_stations (fl_stations files) = Inr (ct_stations s)"
    "reshape_square (length (fl_stations files)) (fl_distances files) = Inr (ct_distance_adj s)"
    "ct_base s = base" "ct_trips_adj s = new_matrix (int (length (fl_stations files))) (int (length (fl_stations files)))"
    "ct_total_trips s = 0 \<and> ct_total_shortages s = 0 \<and> ct_total_operate_num s = 0 \<and> ct_last_date s = None \<and> ct_snapshots s = []"
    "(ct_picker s, ct_reader s) = start_picker base (fl_trips files)"
    "mapE construct_filter (cf_filters (bp_conf c)) = Inr (ct_filters s)" "b = citi_register_events b0"
  using assms by (auto simp: init_citi_def res_simps Let_def split: prod.splits)

lemma init_books:
  assumes "init_citi c files rand base b0 = Inr (b, s0)" "infos_ok (fl_stations files)"
  shows "citi_books (docked s0) (s0, {#})" "docked s0 \<le> all_docks s0"
    "complete_adj (length (fl_stations files)) (ct_distance_adj s0) \<Longrightarrow> complete s0"
proof -
  note ok = init_stations_ok [OF init_citi_result(1) [OF assms(1)] assms(2)]
  show "citi_books (docked s0) (s0, {#})" by (simp add: citi_books_def ok)
  show "docked s0 \<le> all_docks s0" unfolding docked_def all_docks_def
    by (rule sum_list_mono) (use ok in \<open>auto simp: list_all_iff station_ok_def\<close>)
  assume "complete_adj (length (fl_stations files)) (ct_distance_adj s0)"
  moreover have "map bs_index (ct_stations s0) = map int [0..<length (fl_stations files)]"
    by (rule init_stations_index [OF init_citi_result(1) [OF assms(1)]])
  moreover from map_eq_imp_length_eq [OF this] have "length (ct_stations s0) = length (fl_stations files)" by simp
  ultimately show "complete s0" by (simp add: complete_def)
qed

lemma trans_steady:
  assumes "citi_trans c S S'" "citi_books K S"
  shows "steady (fst S) (fst S')"
  using assms
proof (cases rule: citi_trans.cases)
  case (handled hn t p s s' es Q)
  from handled(1) assms(2) have ok: "list_all station_ok (ct_stations s)" "0 \<le> payload_bikes p" by (auto simp: citi_books_def)
  from handled(3,4) have "steady s s'"
    by (auto simp: citi_handle_def res_simps payload_bikes_def split: citi_handler.splits citi_payload.splits
        dest!: required_departed [OF _ ok(1)] actions_departed [OF _ ok(1)] returned_arrived [OF _ ok(1)] deliver_arrived [OF _ ok(1)]
        simp: departed_def arrived_def) (use ok(2) in \<open>auto simp: payload_bikes_def\<close>)
  then show ?thesis by (simp add: handled(1,2))
next
  case (checked t s s' es Q)
  then show ?thesis using rebalance_departed(1) [of "bp_conf c" t s s' es] by (simp add: citi_handle_def)
next
  case (tick t b s b' s' Q)
  then show ?thesis using citi_step_departed [OF tick(3)] assms(2) by (simp add: citi_books_def departed_def)
next
  case (end_tick t s s' e Q)
  then show ?thesis using post_step_departed [OF end_tick(3)] assms(2) by (simp add: citi_books_def departed_def)
next
  case (snapshot s Q fi)
  then show ?thesis by (simp add: citi_take_snapshot_def steady_def)
next
  case (scope i ty s sc s' Q)
  then show ?thesis using scope_departed [OF scope(3)] assms(2) by (simp add: citi_books_def departed_def)
qed simp

lemma reachable_steady: "(citi_trans c)\<^sup>*\<^sup>* S S' \<Longrightarrow> citi_books K S \<Longrightarrow> steady (fst S) (fst S')"
proof (induction rule: rtranclp_induct)
  case (step S1 S2)
  with trans_steady [OF step(2) citi_reachable_books [OF step(1)]] show ?case using unmoved_trans by blast
qed simp

section \<open>Properties of runs\<close>

text \<open>C10: Over any run of the bike scenario each station holds between zero bikes and its
  capacity, its minimum of the window is at most its bikes, its trip requirements are its shortages
  and fulfillments together, and bikes never come from nowhere.\<close>

theorem citi_runs_safe:
  assumes "init_citi c files rand base b0 = Inr (b, s0)" "infos_ok (fl_stations files)"
    and "(citi_trans c)\<^sup>*\<^sup>* (s0, {#}) (s, Q)"
  shows "(\<forall>st \<in> set (ct_stations s). 0 \<le> bs_min_bikes st \<and> bs_min_bikes st \<le> bs_bikes st \<and>
       bs_bikes st \<le> bs_capacity st \<and> bs_trip_requirement st = bs_shortage st + bs_fulfillment st) \<and>
    docked s + in_flight Q \<le> docked s0"
  using citi_reachable_books [OF assms(3) init_books(1) [OF assms(1,2)]]
  by (auto simp: citi_books_def list_all_iff station_ok_def)

text \<open>C9: When every station is a neighbor of every other one, no bike is ever lost: after any
  run from the initial state, with any actions and any order of handling the pending events, the
  docked bikes and the bikes of the pending returns and deliveries add up to the bikes of the
  station file.\<close>

theorem citi_bikes_conserved:
  assumes "init_citi c files rand base b0 = Inr (b, s0)" "infos_ok (fl_stations files)"
    and "complete_adj (length (fl_stations files)) (ct_distance_adj s0)" "(citi_trans c)\<^sup>*\<^sup>* (s0, {#}) (s, Q)"
  shows "docked s + in_flight Q = docked s0"
proof -
  note b = init_books [OF assms(1,2)]
  from reachable_steady [OF assms(4) b(1)] have "steady s0 s" by simp
  from steady_same [OF this] b(2) b(3) [OF assms(3)] citi_reachable_books [OF assms(4) b(1)] show ?thesis
    by (simp add: citi_books_def)
qed

end
