(* ===== verification/CitiReset.thy ===== *)
theory CitiReset imports CitiRuns begin

text \<open>
  Episodes of the bike repositioning scenario: what no operation changes (\<open>citi_fixed\<close>), the reset that
  depends on nothing else, the trips an episode requests, and where an episode ends.
\<close>

section \<open>What a reset starts from\<close>

definition station_fixed :: "station \<Rightarrow> int \<times> int \<times> int \<times> int" where
  "station_fixed st = (bs_index st, bs_init_capacity st, bs_init_bikes st, bs_init_id st)"

definition mx_dims :: "matrix \<Rightarrow> int \<times> int \<times> nat" where
  "mx_dims m = (mx_rows m, mx_cols m, length (mx_slots m))"

definition citi_fixed where
  "citi_fixed s = (map station_fixed (ct_stations s),
     mx_dims (ct_trips_adj s), ct_distance_adj s,
     map filter_reset (ct_filters s), ct_cost_mode s, ct_weather s, ct_reader s, ct_base s, ct_total_snapshots s)"

lemma fixed_updates [simp]:
  "citi_fixed (s\<lparr>ct_total_trips := n\<rparr>) = citi_fixed s" "citi_fixed (s\<lparr>ct_total_shortages := n\<rparr>) = citi_fixed s"
  "citi_fixed (s\<lparr>ct_total_operate_num := n\<rparr>) = citi_fixed s" "citi_fixed (s\<lparr>ct_last_date := d\<rparr>) = citi_fixed s"
  "citi_fixed (s\<lparr>ct_picker := p\<rparr>) = citi_fixed s" "citi_fixed (s\<lparr>ct_snapshots := l\<rparr>) = citi_fixed s"
  "citi_fixed (s\<lparr>ct_random := r\<rparr>) = citi_fixed s"
  by (simp_all add: citi_fixed_def)

lemma fixed_put_station:
  "j < length (ct_stations s) \<Longrightarrow> station_fixed st = station_fixed (ct_stations s ! j) \<Longrightarrow>
   citi_fixed (put_station j st s) = citi_fixed s"
  by (simp add: citi_fixed_def put_station_def map_update list_update_same_conv)

lemma fixed_on_station: "(\<And>st. station_fixed (g st) = station_fixed st) \<Longrightarrow> citi_fixed (on_station j g s) = citi_fixed s"
  by (simp add: citi_fixed_def on_station_def put_station_def map_update_at)

lemma fixed_set_bikes [simp]:
  "station_fixed (set_bikes v st) = station_fixed st"
  "station_fixed (st\<lparr>bs_extra_cost := n\<rparr>) = station_fixed st"
  "station_fixed (st\<lparr>bs_transfer_cost := n\<rparr>) = station_fixed st"
  "station_fixed (st\<lparr>bs_failed_return := n\<rparr>) = station_fixed st"
  "station_fixed (st\<lparr>bs_shortage := n\<rparr>) = station_fixed st"
  "station_fixed (st\<lparr>bs_fulfillment := n\<rparr>) = station_fixed st"
  "station_fixed (st\<lparr>bs_trip_requirement := n\<rparr>) = station_fixed st"
  by (simp_all add: station_fixed_def set_bikes_def)

lemma mx_set_dims: "mx_set m i j v = Inr m' \<Longrightarrow> mx_dims m' = mx_dims m"
  by (auto simp: mx_set_def slot_set_def mx_dims_def res_simps split: if_splits)

lemma fixed_trips_adj [simp]:
  "mx_dims m = mx_dims (ct_trips_adj s) \<Longrightarrow> citi_fixed (s\<lparr>ct_trips_adj := m\<rparr>) = citi_fixed s"
  "ct_trips_adj (put_station j st s) = ct_trips_adj s"
  by (simp_all add: citi_fixed_def put_station_def)

lemma fixed_extra_cost [simp]: "citi_fixed (set_extra_cost i j n s) = citi_fixed s"
  by (simp add: set_extra_cost_def fixed_on_station)

section \<open>Operations keep it\<close>

lemma move_loop_fixed: "move_loop src cur i nbs q cost s = Inr (tc, s') \<Longrightarrow> citi_fixed s' = citi_fixed s"
proof (induction src cur i nbs q cost s rule: move_loop.induct)
  case (2 src cur i nb d nbs q cost s)
  show ?case
  proof (cases "nb < 0")
    case True
    with 2 show ?thesis by simp
  next
    case False
    with 2(3) obtain k st where at: "station_at nb s = Inr (k, st)" by (auto simp: res_simps)
    have put: "citi_fixed (set_extra_cost src cur n (put_station k (set_bikes v st) s)) = citi_fixed s" for n v
      using station_at_Inr [OF at] by (simp add: fixed_put_station)
    from 2(3) False at 2(2) [OF False at refl refl refl refl] put show ?thesis
      by (auto simp: Let_def split: if_splits)
  qed
qed simp

lemma move_fixed: "move_to_neighbor src cur q s = Inr (tc, s') \<Longrightarrow> citi_fixed s' = citi_fixed s"
  by (auto simp: move_to_neighbor_def res_simps dest: move_loop_fixed)

lemma returned_fixed: "on_bike_returned p s = Inr s' \<Longrightarrow> citi_fixed s' = citi_fixed s"
  by (auto simp: on_bike_returned_def res_simps Let_def fixed_on_station split: if_splits dest!: move_fixed)

lemma deliver_fixed: "on_bike_deliver p s = Inr s' \<Longrightarrow> citi_fixed s' = citi_fixed s"
  by (auto simp: on_bike_deliver_def res_simps Let_def fixed_on_station split: if_splits dest!: move_fixed)

lemma required_fixed:
  assumes "on_required_bike tick trip s = Inr (s', es)"
  shows "citi_fixed s' = citi_fixed s"
proof -
  from assms obtain j st where "station_at (tr_src_station trip) s = Inr (j, st)"
    by (auto simp: on_required_bike_def res_simps)
  from assms station_at_Inr [OF this] this show ?thesis
    by (auto simp: on_required_bike_def res_simps Let_def fixed_on_station fixed_put_station
        split: if_splits dest!: mx_set_dims)
qed

lemma actions_fixed: "on_bike_action_received c tick as s = Inr (s', es) \<Longrightarrow> citi_fixed s' = citi_fixed s"
proof (induction as arbitrary: s es)
  case (Cons x as)
  from Cons.prems obtain a s1 es1 es2 where a: "apply_bike_action c tick a s = Inr (s1, es1)"
    "on_bike_action_received c tick as s1 = Inr (s', es2)" by (auto simp: res_simps split: py_action.splits)
  have "citi_fixed s1 = citi_fixed s"
    using a(1) by (auto simp: apply_bike_action_def res_simps Let_def transfer_time_def fixed_put_station
        split: if_splits prod.splits dest!: station_at_Inr)
  with Cons.IH [OF a(2)] show ?case by simp
qed simp

lemma handle_fixed: "citi_handle c hn t p s = Inr (s', es) \<Longrightarrow> citi_fixed s' = citi_fixed s"
  by (auto simp: citi_handle_def res_simps split: citi_handler.splits option.splits citi_payload.splits
      dest: required_fixed returned_fixed deliver_fixed actions_fixed rebalance_departed(1))

lemma features_fixed [simp]: "citi_fixed (update_station_extra_features c t s) = citi_fixed s"
  by (auto simp: update_station_extra_features_def Let_def citi_fixed_def set_extra_features_def station_fixed_def
      split: prod.splits)

lemma step_fixed: "citi_step c t (b, s) = Inr (b', s') \<Longrightarrow> citi_fixed s' = citi_fixed s"
  by (auto simp: citi_step_def res_simps Let_def split: prod.splits)

lemma post_step_fixed: "citi_post_step t s = Inr (s', e) \<Longrightarrow> citi_fixed s' = citi_fixed s"
  by (auto simp: citi_post_step_def citi_take_snapshot_def res_simps Let_def citi_fixed_def clear_window_def
      station_fixed_def split: if_splits)

lemma apply_filter_reset:
  "apply_filter adj sn i ty f (fs, source) = Inr (fs', r) \<Longrightarrow> map filter_reset fs' = map filter_reset (fs @ [f])"
  by (cases f) (auto simp: apply_filter_def res_simps)

lemma filters_reset:
  "foldE (apply_filter adj sn i ty) fs (done, source) = Inr (fs', r) \<Longrightarrow>
   map filter_reset fs' = map filter_reset (done @ fs)"
proof (induction fs arbitrary: "done" source)
  case (Cons f fs)
  then obtain d1 s1 where "apply_filter adj sn i ty f (done, source) = Inr (d1, s1)"
    "foldE (apply_filter adj sn i ty) fs (d1, s1) = Inr (fs', r)" by (auto simp: res_simps)
  with Cons.IH [OF this(2)] apply_filter_reset [OF this(1)] show ?case by simp
qed simp

lemma scope_fixed: "bike_action_scope c i ty s = Inr (sc, s') \<Longrightarrow> citi_fixed s' = citi_fixed s"
  by (auto simp: bike_action_scope_def res_simps citi_fixed_def dest!: filters_reset)

lemma trans_fixed: "citi_trans c S S' \<Longrightarrow> citi_fixed (fst S') = citi_fixed (fst S)"
  by (induction rule: citi_trans.induct)
     (auto simp: citi_take_snapshot_def dest: handle_fixed step_fixed post_step_fixed scope_fixed)

lemma reachable_fixed: "(citi_trans c)\<^sup>*\<^sup>* S S' \<Longrightarrow> citi_fixed (fst S') = citi_fixed (fst S)"
  by (induction rule: rtranclp_induct) (auto dest: trans_fixed)

section \<open>The reset\<close>

definition settled :: "station \<Rightarrow> bool" where
  "settled st \<longleftrightarrow> station_reset (frame_reset_station st) = st"

lemma station_reset_fixed:
  "station_fixed st = station_fixed st' \<Longrightarrow> station_reset (frame_reset_station st) = station_reset (frame_reset_station st')"
  by (simp add: station_fixed_def frame_reset_station_def blank_station_def station_reset_def set_bikes_def)

lemma stations_reset_fixed:
  assumes "map station_fixed ss = map station_fixed ss'" "list_all settled ss'"
  shows "map (station_reset \<circ> frame_reset_station) ss = ss'"
proof (rule nth_equalityI)
  show l: "length (map (station_reset \<circ> frame_reset_station) ss) = length ss'"
    using map_eq_imp_length_eq [OF assms(1)] by simp
  fix k assume "k < length (map (station_reset \<circ> frame_reset_station) ss)"
  then show "map (station_reset \<circ> frame_reset_station) ss ! k = ss' ! k"
    using l station_reset_fixed [OF map_eq_nth [OF assms(1), of k]] assms(2) by (simp add: settled_def list_all_length)
qed

lemma init_stations_settled:
  assumes "init_stations infos = Inr ss"
  shows "list_all settled ss"
  using assms unfolding init_stations_def
proof (rule foldE_invariant)
  show "list_all settled (map blank_station [0..int (length infos) - 1])"
    by (simp add: list_all_iff blank_station_def settled_def frame_reset_station_def station_reset_def set_bikes_def)
next
  fix info ss1 ss2
  assume ok: "list_all settled ss1" and "bindE (node_at ss1 (si_index info)) (\<lambda>(j, st).
      Inr (ss1[j := station_set_init_state (si_bikes info) (si_capacity info) (si_id info) st])) = Inr ss2"
  then obtain j where ss2: "ss2 = ss1[j := station_set_init_state (si_bikes info) (si_capacity info) (si_id info) (ss1 ! j)]"
    by (auto simp: res_simps dest!: node_at_Inr)
  have "settled (station_set_init_state b cap i st)" if "settled st" for b cap i st
    using that by (cases st) (simp add: settled_def station_set_init_state_def station_reset_def
      frame_reset_station_def blank_station_def set_bikes_def)
  with ok show "list_all settled ss2" unfolding ss2 by (intro list_all_update_at) blast+
qed

lemma construct_filter_fresh: "construct_filter fc = Inr f \<Longrightarrow> filter_reset f = f"
  by (auto simp: construct_filter_def res_simps split: if_splits)

lemma filters_fresh: "mapE construct_filter fcs = Inr fs \<Longrightarrow> map filter_reset fs = fs"
  by (induction fcs arbitrary: fs) (auto simp: res_simps dest: construct_filter_fresh)

text \<open>The trips a picker of the whole episode holds.\<close>

definition episode_trips :: "engine_base \<Rightarrow> trip reader \<Rightarrow> trip list" where
  "episode_trips base r =
     filter (in_time tr_timestamp (rd_starttime r + be_start_tick base * 60) (rd_starttime r + be_max_tick base * 60)) (rd_data r)"

lemma start_picker_spec:
  assumes "reader_ok tr_timestamp ''m'' r"
  shows "\<exists>r'. start_picker base r = (new_picker (episode_trips base r) (rd_starttime r) ''m'', r') \<and>
    reader_ok tr_timestamp ''m'' r' \<and> same_file r r'"
  using reader_items_spec [OF assms, of "be_start_tick base" "Some (be_max_tick base)"]
  by (auto simp: start_picker_def items_tick_picker_def episode_trips_def calc_time_offset_def unit_seconds_def add.commute)

lemma episode_trips_same: "same_file r r' \<Longrightarrow> episode_trips base r' = episode_trips base r"
  by (simp add: episode_trips_def same_file_def)

lemma reader_ok_reset: "reader_ok ts unit r \<Longrightarrow> reader_ok ts unit (reader_reset r)"
  by (simp add: reader_ok_def reader_reset_def history_ok_def)

text \<open>C11: Resetting the bike scenario after any run gives back exactly the state the
  initialisation built, trips and filters included; only the state of the random generator and the
  reader's notes differ.\<close>

theorem citi_reset_restores:
  assumes "init_citi c files rand base b0 = Inr (b, s0)" "reader_ok tr_timestamp ''m'' (fl_trips files)"
    and "(citi_trans c)\<^sup>*\<^sup>* (s0, {#}) (s, Q)"
  shows "\<exists>r. citi_reset s = s0\<lparr>ct_reader := r, ct_random := ct_random s\<rparr> \<and> reader_ok tr_timestamp ''m'' r"
proof -
  note i = init_citi_result [OF assms(1)]
  from reachable_fixed [OF assms(3)] have f: "citi_fixed s = citi_fixed s0" by simp
  from start_picker_spec [OF assms(2), of base] i(6) obtain r0 where
    r0: "ct_reader s0 = r0" "ct_picker s0 = new_picker (episode_trips base (fl_trips files)) (rd_starttime (fl_trips files)) ''m''"
      "reader_ok tr_timestamp ''m'' r0" "same_file (fl_trips files) r0" by auto
  have rr: "same_file r0 (reader_reset r0)" by (simp add: same_file_def reader_reset_def)
  from start_picker_spec [OF reader_ok_reset [OF r0(3)], of base] obtain r1 where
    r1: "start_picker base (reader_reset r0) = (new_picker (episode_trips base (reader_reset r0)) (rd_starttime (reader_reset r0)) ''m'', r1)"
      "reader_ok tr_timestamp ''m'' r1" by blast
  have pk: "start_picker base (reader_reset r0) = (ct_picker s0, r1)"
    using r1(1) r0(2,4) rr episode_trips_same [OF r0(4)] episode_trips_same [OF rr] by (simp add: same_file_def)
  have st: "map (station_reset \<circ> frame_reset_station) (ct_stations s) = ct_stations s0"
    using f by (intro stations_reset_fixed init_stations_settled [OF i(1)]) (simp add: citi_fixed_def)
  have mx: "mx_fill (ct_trips_adj s) 0 = ct_trips_adj s0"
    using f i(4) by (cases "ct_trips_adj s") (auto simp: citi_fixed_def mx_dims_def mx_fill_def new_matrix_def)
  have "citi_reset s = s0\<lparr>ct_reader := r1, ct_random := ct_random s\<rparr>"
    using f i(3,5) st mx pk r0(1) filters_fresh [OF i(7)]
    by (intro citi.equality) (simp_all add: citi_reset_def citi_frame_reset_def citi_fixed_def)
  with r1(2) show ?thesis by blast
qed

section \<open>The trips of an episode\<close>

text \<open>The trips of one minute of the file's time.\<close>

definition trips_at :: "trip reader \<Rightarrow> int \<Rightarrow> trip list" where
  "trips_at r t = filter (\<lambda>x. rd_starttime r + t * 60 \<le> tr_timestamp x \<and> tr_timestamp x < rd_starttime r + (t + 1) * 60) (rd_data r)"

text \<open>C12: Stepping through the ticks of an episode requests every trip of the data file
  exactly at the tick of its minute, and no trip from outside the episode.\<close>

theorem episode_trips_exact:
  assumes "reader_ok tr_timestamp ''m'' r" "be_start_tick base \<le> be_max_tick base"
  shows "pick_ticks tr_timestamp [be_start_tick base..be_max_tick base - 1] (fst (start_picker base r)) =
    map (trips_at r) [be_start_tick base..be_max_tick base - 1]"
proof -
  let ?ticks = "[be_start_tick base..be_max_tick base - 1]"
  from start_picker_spec [OF assms(1), of base]
  have p: "fst (start_picker base r) = new_picker (episode_trips base r) (rd_starttime r) ''m''" by auto
  from assms(1) have "sorted (map tr_timestamp (rd_data r))" by (simp add: reader_ok_def)
  then have "sorted (map tr_timestamp (episode_trips base r))" unfolding episode_trips_def by (rule sorted_filter)
  from picker_partitions [OF this sorted_wrt_upto, where starttime = "rd_starttime r" and unit = "''m''"]
  have "pick_ticks tr_timestamp ?ticks (fst (start_picker base r)) =
      map (tick_items tr_timestamp (rd_starttime r) ''m'' (episode_trips base r)) ?ticks" by (simp add: p)
  also have "... = map (trips_at r) ?ticks"
  proof (rule map_cong [OF refl])
    fix t assume "t \<in> set ?ticks"
    then have "be_start_tick base * 60 \<le> t * 60" "(t + 1) * 60 \<le> be_max_tick base * 60" by auto
    then show "tick_items tr_timestamp (rd_starttime r) ''m'' (episode_trips base r) t = trips_at r t"
      by (auto simp: tick_items_def trips_at_def episode_trips_def unit_seconds_def intro!: filter_cong)
  qed
  finally show ?thesis .
qed

section \<open>Decisions\<close>

text \<open>Decisions are asked for on the last tick of each resolution window only, and then
  of exactly the stations, in order, whose bikes reach the supply mark of their capacity (as supply)
  or are down to the demand mark (as demand).\<close>

theorem decisions_exact:
  assumes "0 < cf_resolution c" "\<forall>st \<in> set (ct_stations s). 0 < bs_capacity st"
  shows "get_stations_need_decision c tick s = Inr (if (tick + 1) mod cf_resolution c = 0 then
     map (\<lambda>st. (bs_index st, if cf_supply_water_mark_ratio c * of_int (bs_capacity st) \<le> of_int (bs_bikes st) then Supply else Demand))
       (filter (\<lambda>st. cf_supply_water_mark_ratio c * of_int (bs_capacity st) \<le> of_int (bs_bikes st) \<or>
          of_int (bs_bikes st) \<le> cf_demand_water_mark_ratio c * of_int (bs_capacity st)) (ct_stations s))
     else [])"
proof -
  have "concat (map (station_decision c) ss) =
     map (\<lambda>st. (bs_index st, if cf_supply_water_mark_ratio c * of_int (bs_capacity st) \<le> of_int (bs_bikes st) then Supply else Demand))
       (filter (\<lambda>st. cf_supply_water_mark_ratio c * of_int (bs_capacity st) \<le> of_int (bs_bikes st) \<or>
          of_int (bs_bikes st) \<le> cf_demand_water_mark_ratio c * of_int (bs_capacity st)) ss)"
    if "\<forall>st \<in> set ss. 0 < bs_capacity st" for ss
    using that
    by (induction ss) (auto simp: station_decision_def Let_def pos_le_divide_eq pos_divide_le_eq)
  from this [OF assms(2)] assms(1) show ?thesis by (auto simp: get_stations_need_decision_def is_decision_tick_def)
qed

section \<open>The end of an episode\<close>

interpretation citi_ends: timed_engine "citi_engine c" "\<lambda>s. ct_base s = base" "be_max_tick base"
  for c :: "('d, 'r) citi_params" and base
proof (unfold_locales, goal_cases)
  case (1 t b w b' w')
  then have "citi_step c t (b, w) = Inr (b', w')" by (simp add: citi_engine_def)
  from step_fixed [OF this] 1(2) show ?case by (simp add: citi_fixed_def)
next
  case (2 t w w' e)
  then have "citi_post_step t w = Inr (w', e)" by (simp add: citi_engine_def)
  from post_step_fixed [OF this] 2(2) show ?case by (simp add: citi_fixed_def)
next
  case (3 hn a b w b' w')
  then obtain p t es where "citi_handle c hn t p w = Inr (w', es)"
    by (auto simp: citi_engine_def citi_invoke_def Let_def res_simps)
  from handle_fixed [OF this] 3(2) show ?case by (simp add: citi_fixed_def)
next
  case (4 w fi)
  then show ?case by (simp add: citi_engine_def citi_take_snapshot_def)
next
  case (5 t w w' e)
  then show ?case using post_step_result [of t w w' e] by (simp add: citi_engine_def)
qed

text \<open>An episode of the bike scenario never passes the last tick, and a reply that says
  it is done is given at the last tick only.\<close>

theorem citi_episode_ends:
  assumes "env_steps (citi_engine c) as s = Some (Inr (s', rs))" "env_gen s = NotStarted"
    and "env_tick s < be_max_tick (ct_base (env_engine s))"
  shows "ct_base (env_engine s') = ct_base (env_engine s) \<and> env_tick s' < be_max_tick (ct_base (env_engine s)) \<and>
     ((\<exists>r \<in> set rs. snd (snd r)) \<longrightarrow> env_tick s' + 1 = be_max_tick (ct_base (env_engine s)))"
  using citi_ends.env_steps_time [OF assms(1), where base = "ct_base (env_engine s)"]
    citi_ends.env_steps_inv [OF assms(1), where base = "ct_base (env_engine s)"] assms(2,3) by simp

end
