(* ===== verification/CitiScope.thy ===== *)
theory CitiScope imports CitiProps begin

text \<open>
  The action scope of a decision: the filters narrow the scope down to entries of it, and what the scope
  offers can be executed.  \<open>DistanceFilter\<close> behind another filter fails on a neighbor filtered out.
\<close>

section \<open>Filters narrow\<close>

definition narrows :: "scope \<Rightarrow> scope \<Rightarrow> bool" where
  "narrows source r \<longleftrightarrow> distinct (map fst r) \<and> (\<forall>(k, v) \<in> set r. map_of source k = Some v)"

lemma pick_source_narrows:
  assumes "pick_source source ids = Inr r" "distinct ids"
  shows "narrows source r" "map fst r = ids"
proof -
  from assms(1) show m: "map fst r = ids"
    unfolding pick_source_def by (induction ids arbitrary: r) (auto simp: res_simps)
  from assms(1) have "\<forall>(k, v) \<in> set r. map_of source k = Some v"
    unfolding pick_source_def
    by (induction ids arbitrary: r) (auto simp: res_simps dict_get_def split: option.splits)
  with m assms(2) show "narrows source r" by (simp add: narrows_def)
qed

lemma distinct_take_keys: "distinct (map fst xs) \<Longrightarrow> distinct (map fst (py_slice xs a b))"
  by (simp add: py_slice_def Let_def distinct_take distinct_drop flip: take_map drop_map)

lemma distinct_sort_keys: "distinct (map fst xs) \<Longrightarrow> distinct (map fst (sort_key k xs))"
  by (metis distinct_map distinct_sort set_sort)

lemma get_neighbors_keys:
  "get_neighbors adj i = Inr nbs \<Longrightarrow> distinct (map fst nbs) \<and> (\<forall>(k, d) \<in> set nbs. 0 \<le> k)"
proof -
  assume "get_neighbors adj i = Inr nbs"
  then obtain ds where n: "nbs = sort_key snd (filter (\<lambda>(i, d). d \<noteq> 0) (zip [0..int (length ds) - 1] ds))"
    by (auto simp: get_neighbors_def res_simps)
  have "distinct (map fst (zip [0..int (length ds) - 1] ds))" by simp
  then have "distinct (map fst (filter (\<lambda>(i, d). d \<noteq> 0) (zip [0..int (length ds) - 1] ds)))"
    by (rule distinct_map_filter)
  from distinct_sort_keys [OF this] show ?thesis by (auto simp: n dest: set_zip_leftD)
qed

lemma requirements_narrows:
  assumes "distinct (map fst source)"
  shows "narrows source (requirements_filter n source)"
proof -
  have "distinct (map fst (rev (sort_key by_value source)))"
    using distinct_sort_keys [OF assms, of by_value] by (simp flip: rev_map)
  then have "distinct (map fst (requirements_filter n source))"
    unfolding requirements_filter_def by (metis distinct_take take_map)
  moreover have "map_of source k = Some v" if "(k, v) \<in> set (requirements_filter n source)" for k v
    using in_set_takeD [OF that [unfolded requirements_filter_def]] assms by (simp add: map_of_eq_Some_iff)
  ultimately show ?thesis by (auto simp: narrows_def)
qed

lemma window_trips_distinct:
  "foldE (window_frame sn av source) fs (cache, trips) = Inr (cache', trips') \<Longrightarrow> distinct (map fst trips) \<Longrightarrow>
   distinct (map fst trips')"
proof (induction fs arbitrary: cache trips)
  case (Cons f fs)
  have step: "distinct (map fst t')" if "distinct (map fst t)"
    "foldE (\<lambda>(nb, _) t. bindE (py_get st nb) (\<lambda>n.
        Inr (AList.update nb ((case map_of t nb of None \<Rightarrow> 0 | Some m \<Rightarrow> m) + n) t))) src t = Inr t'"
    for st t t' and src :: scope
    using that(2) by (rule foldE_invariant) (use that(1) in \<open>auto simp: res_simps distinct_update\<close>)
  from Cons.prems(1) obtain c1 t1 where "window_frame sn av source f (cache, trips) = Inr (c1, t1)"
    "foldE (window_frame sn av source) fs (c1, t1) = Inr (cache', trips')" by (auto simp: res_simps)
  with Cons.IH [OF this(2)] step Cons.prems(2) show ?case
    by (fastforce simp: window_frame_def res_simps split: prod.splits)
qed simp

lemma filter_narrows:
  assumes f: "apply_filter adj sn i ty f (fs, source) = Inr (fs', r)" and d: "distinct (map fst source)"
  shows "narrows source r"
proof (cases f)
  case (DistanceFilter n)
  with f obtain nbs where "get_neighbors adj i = Inr nbs"
    "pick_source source (map fst (py_slice nbs 0 (min n (int (length source))))) = Inr r"
    by (auto simp: apply_filter_def distance_filter_def res_simps)
  with pick_source_narrows(1) distinct_take_keys get_neighbors_keys show ?thesis by metis
next
  case (RequirementsFilter n)
  with f requirements_narrows [OF d] show ?thesis by (auto simp: apply_filter_def)
next
  case (TripsWindowFilter n w cache)
  from f TripsWindowFilter obtain fi c1 trips ord where
    t: "foldE (window_frame sn (min w (int (length sn))) source) fi (cache, []) = Inr (c1, trips)"
    and o: "ord = (if ty = Demand then rev (sort_key by_value trips) else sort_key by_value trips)"
    and p: "pick_source source (map fst (py_slice ord 0 (min n (int (length source))))) = Inr r"
    by (auto simp: apply_filter_def trips_window_filter_def res_simps Let_def split: if_splits)
  have "distinct (map fst trips)" by (rule window_trips_distinct [OF t]) simp
  then have "distinct (map fst ord)" using distinct_sort_keys by (auto simp: o simp flip: rev_map)
  from pick_source_narrows(1) [OF p distinct_take_keys [OF this]] show ?thesis .
qed

lemma narrows_refl: "distinct (map fst source) \<Longrightarrow> narrows source source"
  by (auto simp: narrows_def)

lemma narrows_trans: "narrows a b \<Longrightarrow> narrows b c \<Longrightarrow> narrows a c"
  by (fastforce simp: narrows_def dest: map_of_SomeD)

lemma filters_narrow:
  "foldE (apply_filter adj sn i ty) fs (done, source) = Inr (fs', r) \<Longrightarrow> distinct (map fst source) \<Longrightarrow> narrows source r"
proof (induction fs arbitrary: "done" source)
  case (Cons f fs)
  then obtain d1 s1 where f: "apply_filter adj sn i ty f (done, source) = Inr (d1, s1)"
    and "foldE (apply_filter adj sn i ty) fs (d1, s1) = Inr (fs', r)" by (auto simp: res_simps)
  with Cons.IH [OF this(2)] filter_narrows [OF f Cons.prems(2)] show ?case
    by (metis narrows_def narrows_trans)
qed (simp add: narrows_refl)

section \<open>The scope offered to the agent\<close>

lemma neighbor_scope_entries:
  assumes "foldE (\<lambda>(nb, _) scope. if 0 \<le> nb then bindE (station_at nb s) (\<lambda>(k, st).
        Inr (AList.update nb (neighbor_max_bikes c ty st) scope)) else Inr scope) (nbs :: (int \<times> rat) list) [] = Inr scope"
  shows "distinct (map fst scope) \<and> (\<forall>(k, v) \<in> set scope. 0 \<le> k \<and> nat k < length (ct_stations s) \<and>
    v = neighbor_max_bikes c ty (ct_stations s ! nat k))"
  using assms
proof (rule foldE_invariant)
  fix p :: "int \<times> rat" and sc sc'
  let ?ok = "\<lambda>scope. distinct (map fst scope) \<and> (\<forall>(k, v) \<in> set scope. 0 \<le> k \<and> nat k < length (ct_stations s) \<and>
    v = neighbor_max_bikes c ty (ct_stations s ! nat k))"
  assume ok: "?ok sc" and st: "(case p of (nb, _) \<Rightarrow> \<lambda>scope. if 0 \<le> nb then bindE (station_at nb s) (\<lambda>(k, st).
        Inr (AList.update nb (neighbor_max_bikes c ty st) scope)) else Inr scope) sc = Inr sc'"
  have upd: "?ok (AList.update nb (neighbor_max_bikes c ty (ct_stations s ! nat nb)) sc)"
    if "0 \<le> nb" "nat nb < length (ct_stations s)" for nb
  proof -
    have d: "distinct (map fst (AList.update nb (neighbor_max_bikes c ty (ct_stations s ! nat nb)) sc))"
      using ok by (simp add: distinct_update)
    have "0 \<le> k \<and> nat k < length (ct_stations s) \<and> v = neighbor_max_bikes c ty (ct_stations s ! nat k)"
      if "(k, v) \<in> set (AList.update nb (neighbor_max_bikes c ty (ct_stations s ! nat nb)) sc)" for k v
      using map_of_is_SomeI [OF d that] ok \<open>0 \<le> nb\<close> \<open>nat nb < _\<close>
      by (auto split: if_splits dest: map_of_SomeD)
    with d show ?thesis by auto
  qed
  show "?ok sc'"
  proof (cases "0 \<le> fst p")
    case True
    with st upd [of "fst p"] show ?thesis by (auto simp: res_simps station_at_nonneg split: prod.splits)
  qed (use st ok in \<open>auto split: prod.splits\<close>)
qed simp

lemma floor_share:
  fixes r :: rat
  assumes "0 \<le> r" "r \<le> 1" "0 \<le> (b :: int)"
  shows "0 \<le> \<lfloor>of_int b * r\<rfloor>" "\<lfloor>of_int b * r\<rfloor> \<le> b"
proof -
  show "0 \<le> \<lfloor>of_int b * r\<rfloor>" using assms by simp
  have "of_int b * r \<le> of_int b * 1" using assms by (intro mult_left_mono) simp_all
  then show "\<lfloor>of_int b * r\<rfloor> \<le> b" by linarith
qed

definition sc_limit :: "int \<Rightarrow> decision_type \<Rightarrow> int \<Rightarrow> station \<Rightarrow> int" where
  "sc_limit i ty k st = (if (k = i) = (ty = Supply) then bs_bikes st else bs_capacity st - bs_bikes st)"

text \<open>C13: The action scope of a decision offers only what can be moved, whatever filters are
  configured: each entry is an existing station with a number between zero and its bikes or its free
  docks, by the direction of the decision, and the deciding station is listed.\<close>

theorem bike_scope_bounds:
  assumes "bike_action_scope c i ty s = Inr (sc, s')" "0 \<le> i"
    and "\<forall>st \<in> set (ct_stations s). 0 \<le> bs_bikes st \<and> bs_bikes st \<le> bs_capacity st"
    and "0 \<le> cf_scope_low c" "cf_scope_low c \<le> 1" "0 \<le> cf_scope_high c" "cf_scope_high c \<le> 1"
  shows "distinct (map fst sc) \<and> dict_mem i sc \<and>
    (\<forall>(k, v) \<in> set sc. 0 \<le> k \<and> nat k < length (ct_stations s) \<and> 0 \<le> v \<and> v \<le> sc_limit i ty k (ct_stations s ! nat k))"
proof -
  from assms(1,2) obtain nbs ns fs scope own where n: "foldE (\<lambda>(nb, _) scope. if 0 \<le> nb then bindE (station_at nb s) (\<lambda>(k, st).
        Inr (AList.update nb (neighbor_max_bikes c ty st) scope)) else Inr scope) (nbs :: (int \<times> rat) list) [] = Inr ns"
    and f: "foldE (apply_filter (ct_distance_adj s) (snapshot_dict (nat (ct_total_snapshots s)) (ct_snapshots s)) i ty)
        (ct_filters s) ([], ns) = Inr (fs, scope)"
    and i: "nat i < length (ct_stations s)"
    and own: "own = (case ty of Supply \<Rightarrow> \<lfloor>of_int (bs_bikes (ct_stations s ! nat i)) * (1 - cf_scope_low c)\<rfloor>
               | Demand \<Rightarrow> bs_capacity (ct_stations s ! nat i) - bs_bikes (ct_stations s ! nat i))"
    and sc: "sc = AList.update i own scope"
    by (auto simp: bike_action_scope_def res_simps station_at_nonneg)
  note ns = neighbor_scope_entries [OF n]
  from filters_narrow [OF f] ns have nr: "narrows ns scope" by blast
  then have d: "distinct (map fst sc)" unfolding sc narrows_def by (simp add: distinct_update)
  have st: "0 \<le> bs_bikes (ct_stations s ! k)" "bs_bikes (ct_stations s ! k) \<le> bs_capacity (ct_stations s ! k)"
    if "k < length (ct_stations s)" for k using assms(3) that by auto
  have e: "0 \<le> k \<and> nat k < length (ct_stations s) \<and> 0 \<le> v \<and> v \<le> sc_limit i ty k (ct_stations s ! nat k)"
    if kv: "(k, v) \<in> set sc" for k v
  proof (cases "k = i")
    case True
    with map_of_is_SomeI [OF d kv] have "v = own" by (simp add: sc)
    with True st [OF i] assms(2,4,5) i floor_share [of "1 - cf_scope_low c" "bs_bikes (ct_stations s ! nat i)"] show ?thesis
      by (cases ty) (auto simp: own sc_limit_def)
  next
    case False
    with map_of_is_SomeI [OF d kv] have "map_of scope k = Some v" by (simp add: sc)
    with nr have "(k, v) \<in> set ns" by (auto simp: narrows_def dest!: map_of_SomeD)
    with ns have k: "0 \<le> k" "nat k < length (ct_stations s)" "v = neighbor_max_bikes c ty (ct_stations s ! nat k)" by auto
    with False st [OF k(2)] assms(6,7) floor_share [of "cf_scope_high c" "bs_bikes (ct_stations s ! nat k)"] show ?thesis
      by (cases ty) (auto simp: sc_limit_def neighbor_max_bikes_def)
  qed
  have "dict_mem i sc" by (simp add: sc dict_mem_map_of)
  with d e show ?thesis by auto
qed

section \<open>The best entries\<close>

text \<open>The requirements filter keeps as many entries of the scope as configured, and none
  it drops exceeds one it keeps.\<close>

theorem requirements_top:
  fixes source :: scope
  assumes "0 \<le> num"
  shows "length (requirements_filter num source) = min (nat num) (length source) \<and>
    mset (requirements_filter num source) \<subseteq># mset source \<and>
    (\<forall>x \<in> set (requirements_filter num source). \<forall>y \<in># mset source - mset (requirements_filter num source).
       by_value y \<le> by_value x)"
proof -
  let ?r = "rev (sort_key by_value source)" and ?n = "nat (min num (int (length source)))"
  have s: "mset source = mset (take ?n ?r) + mset (drop ?n ?r)" by (simp flip: mset_append)
  have "sorted_wrt (\<lambda>x y. by_value y \<le> by_value x) ?r"
    using sorted_sort_key [of by_value source] by (simp add: sorted_wrt_rev sorted_map)
  then have "sorted_wrt (\<lambda>x y. by_value y \<le> by_value x) (take ?n ?r @ drop ?n ?r)" by simp
  then have o: "\<forall>x \<in> set (take ?n ?r). \<forall>y \<in> set (drop ?n ?r). by_value y \<le> by_value x"
    unfolding sorted_wrt_append by blast
  have "mset source - mset (take ?n ?r) = mset (drop ?n ?r)" "mset (take ?n ?r) \<subseteq># mset source" unfolding s by simp_all
  with o show ?thesis by (auto simp: requirements_filter_def)
qed

section \<open>A filter behind another\<close>

lemma distance_filter_fails:
  "distance_filter [[0, 1, 2], [1, 0, 1], [2, 1, 0]] 1 0 (requirements_filter 1 [(1, 0), (2, 5)]) = Inl KeyError"
  by code_simp

end
