(* ===== verification/CitiSamples.thy ===== *)
theory CitiSamples imports SimSamples CitiReset CitiScope begin

text \<open>
  Concrete instances of the properties of the data reader and of the bike repositioning scenario: two
  stations with two bikes and three docks, and one trip to the station that is full.
\<close>

section \<open>A small town\<close>

definition town_conf :: citi_conf where
  "town_conf =
     \<lparr>cf_resolution = 2, cf_effective_time_mean = 3, cf_effective_time_std = 0, cf_supply_water_mark_ratio = 4 / 5,
      cf_demand_water_mark_ratio = 1 / 5, cf_scope_low = 1 / 10, cf_scope_high = 1, cf_extra_cost_mode = ''source'',
      cf_filters = [\<lparr>fc_type = ''requirements'', fc_num = Some 1, fc_windows = None\<rparr>]\<rparr>"

definition town :: "(int, unit) citi_params" where
  "town = \<lparr>bp_conf = town_conf, bp_tick_date = (\<lambda>t. t div 1440), bp_utc_date = (\<lambda>t. t div 86400),
     bp_weekday = (\<lambda>d. d mod 7), bp_is_holiday = (\<lambda>d. False), bp_normal = (\<lambda>mean std r. (mean, r))\<rparr>"

definition town_base :: engine_base where
  "town_base = \<lparr>be_start_tick = 0, be_max_tick = 10, be_snapshot_resolution = 5, be_max_snapshots = None\<rparr>"

definition town_trip :: trip where
  "town_trip = \<lparr>tr_timestamp = 30, tr_durations = 3, tr_src_station = 0, tr_dest_station = 1\<rparr>"

definition town_files :: citi_files where
  "town_files =
     \<lparr>fl_trips = new_reader [town_trip] 0 600 100, fl_weather = new_reader [] 0 600 100,
      fl_stations = [\<lparr>si_index = 0, si_bikes = 1, si_capacity = 2, si_id = 31\<rparr>,
        \<lparr>si_index = 1, si_bikes = 1, si_capacity = 1, si_id = 32\<rparr>],
      fl_distances = [[0, 5], [5, 0]]\<rparr>"

definition town_buffer :: citi_buffer where
  "town_buffer =
     \<lparr>eb_heap = (\<lambda>_. new_event AtomEvent None None None None), eb_fresh = 0, pool_atom = [], pool_cascade = [],
      pool_count = 0, eb_pending = [], eb_handlers = [], eb_finished = [], eb_disable_finished = False,
      eb_record = False, eb_recorder_ep = 0, eb_rows = []\<rparr>"

text \<open>The states of the run: built, after the bike is taken, after it is returned to the full station.\<close>

definition town_station :: "int \<Rightarrow> int \<Rightarrow> int \<Rightarrow> station" where
  "town_station i bikes capacity =
     \<lparr>bs_index = i, bs_bikes = bikes, bs_shortage = 0, bs_trip_requirement = 0, bs_fulfillment = 0,
      bs_capacity = capacity, bs_id = 31 + i, bs_weekday = 0, bs_temperature = 0, bs_weather = 0, bs_holiday = 0,
      bs_extra_cost = 0, bs_transfer_cost = 0, bs_failed_return = 0, bs_min_bikes = bikes, bs_init_capacity = capacity,
      bs_init_bikes = 1, bs_init_id = 31 + i\<rparr>"

definition town0 :: "(int, unit) citi" where
  "town0 =
     \<lparr>ct_stations = [town_station 0 1 2, town_station 1 1 1],
      ct_trips_adj = \<lparr>mx_slots = [0, 0, 0, 0], mx_rows = 2, mx_cols = 2\<rparr>, ct_distance_adj = [[0, 5], [5, 0]],
      ct_filters = [RequirementsFilter 1], ct_cost_mode = SourceCost, ct_total_trips = 0, ct_total_shortages = 0,
      ct_total_operate_num = 0, ct_last_date = None, ct_weather = [],
      ct_reader = (new_reader [town_trip] 0 600 100)\<lparr>rd_history := [(0, 0)], rd_pos := 1, rd_readed := 1\<rparr>,
      ct_picker = new_picker [town_trip] 0 ''m'', ct_base = town_base, ct_snapshots = [], ct_total_snapshots = 2,
      ct_random = ()\<rparr>"

definition town1 :: "(int, unit) citi" where
  "town1 = town0\<lparr>ct_stations := [(town_station 0 0 2)\<lparr>bs_trip_requirement := 1, bs_fulfillment := 1\<rparr>, town_station 1 1 1],
     ct_trips_adj := \<lparr>mx_slots = [0, 1, 0, 0], mx_rows = 2, mx_cols = 2\<rparr>, ct_total_trips := 1\<rparr>"

definition town2 :: "(int, unit) citi" where
  "town2 = town1\<lparr>ct_stations :=
     [(town_station 0 1 2)\<lparr>bs_trip_requirement := 1, bs_fulfillment := 1, bs_extra_cost := 1, bs_min_bikes := 0\<rparr>,
      (town_station 1 1 1)\<lparr>bs_failed_return := 1\<rparr>]\<rparr>"

definition town_ride :: citi_payload where
  "town_ride = BikeReturnPayload \<lparr>bm_from_station_idx = 0, bm_to_station_idx = 1, bm_number = 1\<rparr>"

lemma town_init: "gives (init_citi town town_files () town_base town_buffer) town0"
  by code_simp

lemma town_ok: "infos_ok (fl_stations town_files)" "reader_ok tr_timestamp ''m'' (fl_trips town_files)"
  "complete_adj (length (fl_stations town_files)) (ct_distance_adj town0)"
  by (simp_all add: infos_ok_def town_files_def reader_ok_new complete_adj_def town0_def All_less_Suc)

lemma town_taken:
  "citi_handle town On_required_bike (Some 0) (Some (TripPayload town_trip)) town0 =
     Inr (town1, [EmitAtom 3 ReturnBike (Some town_ride)])"
  by code_simp

lemma town_returned: "citi_handle town On_bike_returned (Some 3) (Some town_ride) town1 = Inr (town2, [])"
  by code_simp

lemma town_run: "(citi_trans town)\<^sup>*\<^sup>* (town0, {#}) (town2, {#})"
proof -
  have "citi_trans town (town0, {#}) (town0, {#TripPayload town_trip#})"
    using citi_trans.arrive [of "TripPayload town_trip" town town0 "{#}"] by (simp add: is_move_def)
  moreover have "citi_trans town (town0, {#TripPayload town_trip#}) (town1, {#town_ride#})"
    using citi_trans.handled [OF town_taken, of "{#}"] by (simp add: emit_payloads_def)
  moreover have "citi_trans town (town1, {#town_ride#}) (town2, {#})"
    using citi_trans.handled [OF town_returned, of "{#}"] by simp
  ultimately show ?thesis by (meson converse_rtranclp_into_rtranclp rtranclp.rtrancl_refl)
qed

section \<open>Instances\<close>

theorem citi_runs_safe_witness: "docked town2 \<le> docked town0 \<and> bs_bikes (ct_stations town2 ! 0) \<le> 2"
proof -
  from town_init obtain b where i: "init_citi town town_files () town_base town_buffer = Inr (b, town0)" by (rule gives_obtain)
  from citi_runs_safe [OF i town_ok(1) town_run] show ?thesis by (simp add: town2_def town_station_def)
qed

theorem citi_bikes_conserved_witness: "docked town2 = docked town0"
proof -
  from town_init obtain b where i: "init_citi town town_files () town_base town_buffer = Inr (b, town0)" by (rule gives_obtain)
  from citi_bikes_conserved [OF i town_ok(1,3) town_run] show ?thesis by simp
qed

theorem citi_reset_restores_witness: "\<exists>r. citi_reset town2 = town0\<lparr>ct_reader := r\<rparr>"
proof -
  from town_init obtain b where i: "init_citi town town_files () town_base town_buffer = Inr (b, town0)" by (rule gives_obtain)
  from citi_reset_restores [OF i town_ok(2) town_run] show ?thesis by (auto simp: town2_def town1_def town0_def)
qed

theorem episode_trips_witness:
  "pick_ticks tr_timestamp [0..9] (fst (start_picker town_base (fl_trips town_files))) = map (trips_at (fl_trips town_files)) [0..9]"
  using episode_trips_exact [OF town_ok(2), of town_base] by (simp add: town_base_def)

theorem decisions_witness:
  "get_stations_need_decision town_conf 1 town2 = Inr [(1, Supply)]"
  using decisions_exact [of town_conf town2 1] by (simp add: town_conf_def town2_def town_station_def)

theorem action_scope_witness:
  "\<exists>sc s'. bike_action_scope town_conf 1 Supply town2 = Inr (sc, s') \<and> dict_mem 1 sc"
proof -
  have "\<not> isl (bike_action_scope town_conf 1 Supply town2)" by code_simp
  then obtain sc s' where r: "bike_action_scope town_conf 1 Supply town2 = Inr (sc, s')"
    by (cases "bike_action_scope town_conf 1 Supply town2") auto
  from bike_scope_bounds [OF r] r show ?thesis
    by (simp add: town_conf_def town2_def town1_def town0_def town_station_def)
qed

theorem requirements_top_witness: "length (requirements_filter 1 [(1, 4), (2, 9)]) = 1"
  using requirements_top [of 1 "[(1, 4), (2, 9)]"] by simp

theorem reader_queries_witness:
  "run_queries (\<lambda>x. x) ''m'' [(1, None), (0, Some 1), (1, Some 2)] (new_reader [0, 59, 60, 130 :: int] 0 600 2) =
     [[60, 130], [0, 59, 60], [60]]"
  using reader_queries_exact [of "\<lambda>x. x" "[0, 59, 60, 130 :: int]" 2 "''m''" "[(1, None), (0, Some 1), (1, Some 2)]" 0 600]
  by (simp add: expected_items_def unit_seconds_def)

text \<open>Without neighbors, here two stations at distance zero, a bike returned to a full station is lost.\<close>

lemma bike_lost:
  "\<exists>s'. on_bike_returned \<lparr>bm_from_station_idx = 0, bm_to_station_idx = 1, bm_number = 1\<rparr>
      (town1\<lparr>ct_distance_adj := [[0, 0], [0, 0]]\<rparr>) = Inr s' \<and> docked s' = docked town1"
proof -
  have "case on_bike_returned \<lparr>bm_from_station_idx = 0, bm_to_station_idx = 1, bm_number = 1\<rparr>
      (town1\<lparr>ct_distance_adj := [[0, 0], [0, 0]]\<rparr>) of Inl _ \<Rightarrow> False | Inr s' \<Rightarrow> docked s' = docked town1"
    by code_simp
  then show ?thesis by (auto split: sum.splits)
qed

section \<open>Episodes\<close>

text \<open>An episode of one tick without a trip and without a decision.\<close>

definition quiet :: "(int, unit) citi" where
  "quiet = town0\<lparr>ct_base := town_base\<lparr>be_max_tick := 1\<rparr>, ct_picker := new_picker [] 0 ''m'', ct_last_date := Some 0\<rparr>"

definition quiet_env :: "(citi_events, citi_payload, citi_handler, (int, unit) citi) env" where
  "quiet_env = init_env 0 5 Sequential town_buffer quiet"

lemma quiet_step: "citi_step town 0 (town_buffer, quiet) = Inr (town_buffer, quiet)"
  by (simp add: citi_step_def picker_items_def quiet_def new_picker_def town_def town_conf_def is_decision_tick_def
      update_station_extra_features_def Let_def)

lemma quiet_episode:
  obtains env1 r where "env_steps (citi_engine town) [NoAction] quiet_env = Some (Inr (env1, [r]))" "snd (snd r)"
    "env_tick env1 = 0"
proof -
  let ?c = "citi_engine town"
  have st: "ng_step ?c 0 (town_buffer, quiet) = Inr (town_buffer, quiet)" by (simp add: citi_engine_def quiet_step)
  have ex: "execute (ng_invoke ?c) 0 (town_buffer, quiet) = Some (Inr ((town_buffer, quiet), []))"
    by (subst execute.simps) (simp add: town_buffer_def)
  have po: "ng_post_step ?c 0 quiet = Inr (quiet, True)"
    by (simp add: citi_engine_def citi_post_step_def quiet_def town_base_def Let_def)
  have "\<exists>env1 r. env_step ?c NoAction quiet_env = Some (Inr (env1, r)) \<and> snd (snd r) \<and> env_tick env1 = 0"
    by (simp add: env_step_def quiet_env_def init_env_def st, subst run_inner.simps)
       (simp add: ex po yield_final_def env_frame_index_def tick_to_frame_index_def Let_def, blast)
  then show thesis using that by auto
qed

theorem citi_episode_ends_witness:
  "\<exists>env1 r. env_steps (citi_engine town) [NoAction] quiet_env = Some (Inr (env1, [r])) \<and> snd (snd r) \<and> env_tick env1 = 0"
proof -
  obtain env1 r where e: "env_steps (citi_engine town) [NoAction] quiet_env = Some (Inr (env1, [r]))" "snd (snd r)"
    by (rule quiet_episode)
  have "env_gen quiet_env = NotStarted" "env_tick quiet_env = 0" "be_max_tick (ct_base (env_engine quiet_env)) = 1"
    by (simp_all add: quiet_env_def init_env_def quiet_def)
  with citi_episode_ends [OF e(1)] e show ?thesis by auto
qed

end
