(* ===== verification/FrameBackend.thy ===== *)
theory FrameBackend imports Complex_Main Prelude begin

text \<open>
  \<open>backends/np_backend.pyx\<close>: the static (NumPy) backend of the frame.  Node types and attributes are
  registered, \<open>setup\<close> allocates one structured array per node type, whose row 0 is the current frame and
  whose rows 1 and up are the ring of snapshots; attributes are read and written slot by slot.

  Numbers stored in arrays are exact rationals.  What NumPy makes of a value when it is stored in an
  array of a data type (conversion, wrap-around, or an error) is the parameter \<open>np\<close>, the conversion to double
  the parameter \<open>np_double\<close>.  An exception in a \<open>cdef\<close> method is raised to the caller.  Writing arrays to
  files (\<open>dump\<close>, \<open>np.memmap\<close>) is input and output: a memory map is the window of rows that can be written.
\<close>

section \<open>C integers\<close>

text \<open>Passing a Python \<open>int\<close> for a C integer raises \<open>OverflowError\<close> when it does not fit.\<close>

definition c_unsigned :: "nat \<Rightarrow> int \<Rightarrow> nat res" where
  "c_unsigned w i = (if 0 \<le> i \<and> i < 2 ^ w then Inr (nat i) else Inl OverflowError)"

definition c_signed :: "nat \<Rightarrow> int \<Rightarrow> int res" where
  "c_signed w i = (if - (2 ^ (w - 1)) \<le> i \<and> i < 2 ^ (w - 1) then Inr i else Inl OverflowError)"

section \<open>Attribute types\<close>

text \<open>A key of a dictionary is a \<open>str\<close> or a \<open>bytes\<close> object; the two are never equal.\<close>

datatype py_key = Str string | Bytes string

definition attribute_type_mapping :: "(py_key \<times> string) list" where
  "attribute_type_mapping =
     [(Bytes ''byte'', ''b''), (Bytes ''ubyte'', ''B''), (Bytes ''short'', ''h''), (Bytes ''ushort'', ''H''),
      (Bytes ''int'', ''i''), (Bytes ''uint'', ''I''), (Bytes ''long'', ''q''), (Bytes ''ulong'', ''Q''),
      (Bytes ''float'', ''f''), (Bytes ''double'', ''d'')]"

definition attribute_type_range :: "(py_key \<times> string \<times> int \<times> int) list" where
  "attribute_type_range =
     [(Str ''b'', ''AttributeType.Byte'', -128, 127),
      (Str ''B'', ''AttributeType.UByte'', 0, 255),
      (Str ''h'', ''AttributeType.Short'', -32768, 32767),
      (Str ''H'', ''AttributeType.UShort'', 0, 65535),
      (Str ''i'', ''AttributeType.Int'', -2147483648, 2147483647),
      (Str ''I'', ''AttributeType.UInt'', 0, 4294967295),
      (Str ''q'', ''AttributeType.Long'', -9223372036854775808, 9223372036854775807),
      (Str ''Q'', ''AttributeType.ULong'', 0, 18446744073709551615)]"

section \<open>State\<close>

text \<open>
  A value handed to or returned by an attribute: one number, or a sequence.  An element of a structured
  array has a list of slots for each field; a node array has rows of nodes.
\<close>

datatype py_value = Scalar rat | Many "rat list"

record node_info =
  ni_name :: string
  ni_type :: nat
  ni_number :: nat

record attr_info =
  ai_name :: string
  ai_dtype :: string
  ai_type :: nat
  ai_node_type :: nat
  ai_slot_number :: nat

type_synonym np_field = "string \<times> string \<times> nat"
type_synonym np_element = "(string \<times> rat list) list"

record node_array =
  na_dtype :: "np_field list"
  na_rows :: "np_element list list"

text \<open>A memory map of 100 rows; \<open>None\<close> is a row not written since the file was opened.\<close>

record buffered_mmap =
  mm_node_number :: nat
  mm_offset :: nat
  mm_current_record_number :: nat
  mm_path :: string
  mm_itemsize :: nat
  mm_buffer_size :: nat
  mm_data_arr :: "np_element list option list"

record snapshots =
  sl_tick2index :: "(int \<times> nat) list"
  sl_index2tick :: "(nat \<times> int) list"
  sl_node_name2type :: "(string \<times> nat) list"
  sl_cur_index :: nat
  sl_max_size :: nat
  sl_history_enabled :: bool
  sl_history :: "(string \<times> buffered_mmap) list"

record backend =
  nb_nodes_list :: "node_info list"
  nb_attrs_list :: "attr_info list"
  nb_node_attrs :: "(nat \<times> attr_info list) list"
  nb_node_data :: "(nat \<times> node_array) list"
  nb_snapshot_enabled :: bool

definition new_backend :: backend where
  "new_backend = \<lparr>nb_nodes_list = [], nb_attrs_list = [], nb_node_attrs = [], nb_node_data = [],
                  nb_snapshot_enabled = False\<rparr>"

section \<open>Registration and setup\<close>

definition add_node :: "string \<Rightarrow> nat \<Rightarrow> backend \<Rightarrow> nat \<times> backend" where
  "add_node name number b =
     (let t = length (nb_nodes_list b)
      in (t, b\<lparr>nb_nodes_list := nb_nodes_list b @ [\<lparr>ni_name = name, ni_type = t, ni_number = number\<rparr>],
               nb_node_attrs := AList.update t [] (nb_node_attrs b)\<rparr>))"

definition add_attr :: "nat \<Rightarrow> string \<Rightarrow> string \<Rightarrow> nat \<Rightarrow> backend \<Rightarrow> (nat \<times> backend) res" where
  "add_attr node_type attr_name dtype slot_num b =
     (if length (nb_nodes_list b) \<le> node_type then Inl Exception
      else bindE (dict_get attribute_type_mapping (Bytes dtype)) (\<lambda>_.
        let node = nb_nodes_list b ! node_type;
            new_attr = \<lparr>ai_name = attr_name, ai_dtype = dtype, ai_type = length (nb_attrs_list b),
                        ai_node_type = ni_type node, ai_slot_number = slot_num\<rparr>
        in bindE (dict_get (nb_node_attrs b) node_type) (\<lambda>attrs.
             Inr (ai_type new_attr,
                  b\<lparr>nb_attrs_list := nb_attrs_list b @ [new_attr],
                    nb_node_attrs := AList.update node_type (attrs @ [new_attr]) (nb_node_attrs b)\<rparr>))))"

definition gen_numpy_dtype :: "attr_info \<Rightarrow> np_field" where
  "gen_numpy_dtype a = (ai_name a, ai_dtype a, ai_slot_number a)"

definition np_zeros :: "nat \<Rightarrow> nat \<Rightarrow> np_field list \<Rightarrow> node_array" where
  "np_zeros rows nodes dtype =
     \<lparr>na_dtype = dtype,
      na_rows = replicate rows (replicate nodes (map (\<lambda>(name, _, slots). (name, replicate slots 0)) dtype))\<rparr>"

definition new_snapshots :: "backend \<Rightarrow> nat \<Rightarrow> snapshots" where
  "new_snapshots b max_size =
     \<lparr>sl_tick2index = [], sl_index2tick = [],
      sl_node_name2type = fold (\<lambda>node. AList.update (ni_name node) (ni_type node)) (nb_nodes_list b) [],
      sl_cur_index = 0, sl_max_size = max_size, sl_history_enabled = False, sl_history = []\<rparr>"

text \<open>Two attributes of a node type with one name are refused by \<open>np.dtype\<close>.\<close>

definition alloc_node :: "nat \<Rightarrow> nat \<times> attr_info list \<Rightarrow> backend \<Rightarrow> backend res" where
  "alloc_node rows = (\<lambda>(node_type, node_attrs) b.
     if length (nb_nodes_list b) \<le> node_type then Inl IndexError
     else let ni = nb_nodes_list b ! node_type; data_type = map gen_numpy_dtype node_attrs
          in if \<not> distinct (map fst data_type) then Inl ValueError
             else Inr (b\<lparr>nb_node_data :=
                    AList.update node_type (np_zeros rows (ni_number ni) data_type) (nb_node_data b)\<rparr>))"

definition setup_backend :: "bool \<Rightarrow> int \<Rightarrow> backend \<Rightarrow> (backend \<times> snapshots option) res" where
  "setup_backend enable_snapshot total_snapshot b =
     bindE (c_unsigned 16 total_snapshot) (\<lambda>total.
     bindE (foldE (alloc_node (if enable_snapshot then total + 1 else 1)) (nb_node_attrs b)
              (b\<lparr>nb_snapshot_enabled := enable_snapshot\<rparr>)) (\<lambda>b.
     Inr (b, if enable_snapshot then Some (new_snapshots b (total + 1)) else None)))"

definition get_node_info :: "backend \<Rightarrow> (string \<times> nat \<times> (string \<times> string \<times> nat) list) list" where
  "get_node_info b =
     fold (\<lambda>(node_type, node_attrs).
        let node = nb_nodes_list b ! node_type
        in AList.update (ni_name node)
             (ni_number node, fold (\<lambda>a. AList.update (ai_name a) (ai_dtype a, ai_slot_number a)) node_attrs []))
       (nb_node_attrs b) []"

section \<open>Reading and writing the frame\<close>

text \<open>\<open>data[node_type][attr.name][row]\<close>: the slots of the attribute for every node.\<close>

definition cell_slots :: "string \<Rightarrow> np_element \<Rightarrow> rat list" where
  "cell_slots name cell = (case map_of cell name of None \<Rightarrow> [] | Some slots \<Rightarrow> slots)"

definition array_row :: "node_array \<Rightarrow> string \<Rightarrow> nat \<Rightarrow> rat list list res" where
  "array_row arr name r =
     (if name \<notin> set (map fst (na_dtype arr)) then Inl ValueError
      else bindE (py_get (na_rows arr) (int r)) (\<lambda>row. Inr (map (cell_slots name) row)))"

definition frame_row :: "backend \<Rightarrow> attr_info \<Rightarrow> rat list list res" where
  "frame_row b attr = bindE (dict_get (nb_node_data b) (ai_node_type attr)) (\<lambda>arr. array_row arr (ai_name attr) 0)"

definition put_slots :: "attr_info \<Rightarrow> nat \<Rightarrow> rat list \<Rightarrow> backend \<Rightarrow> backend" where
  "put_slots attr node_index slots b =
     b\<lparr>nb_node_data := AList.map_entry (ai_node_type attr)
        (\<lambda>arr. arr\<lparr>na_rows := (na_rows arr)[0 :=
                 (na_rows arr ! 0)[node_index := AList.update (ai_name attr) slots (na_rows arr ! 0 ! node_index)]]\<rparr>)
        (nb_node_data b)\<rparr>"

definition range_check :: "attr_info \<Rightarrow> rat list \<Rightarrow> unit res" where
  "range_check attr vals =
     (case map_of attribute_type_range (Bytes (ai_dtype attr)) of
        None \<Rightarrow> Inr ()
      | Some (name, low, high) \<Rightarrow> foldE (\<lambda>v _. assertE (of_int low \<le> v \<and> v \<le> of_int high) (Inr ())) vals ())"

text \<open>The checks that reading and writing one slot begin with.\<close>

definition valid_attr :: "backend \<Rightarrow> nat \<Rightarrow> attr_info res" where
  "valid_attr b attr_type =
     (if length (nb_attrs_list b) \<le> attr_type then Inl Exception else Inr (nb_attrs_list b ! attr_type))"

definition valid_node :: "backend \<Rightarrow> attr_info \<Rightarrow> nat \<Rightarrow> unit res" where
  "valid_node b attr node_index =
     (if length (nb_nodes_list b) \<le> ai_node_type attr then Inl Exception
      else if ni_number (nb_nodes_list b ! ai_node_type attr) \<le> node_index then Inl Exception
      else Inr ())"

definition set_attr_value ::
  "(string \<Rightarrow> rat \<Rightarrow> rat res) \<Rightarrow> nat \<Rightarrow> nat \<Rightarrow> nat \<Rightarrow> rat \<Rightarrow> backend \<Rightarrow> backend res" where
  "set_attr_value np node_index attr_type slot_index v b =
     bindE (valid_attr b attr_type) (\<lambda>attr.
     bindE (range_check attr [v]) (\<lambda>_.
     bindE (valid_node b attr node_index) (\<lambda>_.
     bindE (frame_row b attr) (\<lambda>row.
     bindE (py_get row (int node_index)) (\<lambda>slots.
       if 1 < ai_slot_number attr then
         bindE (np (ai_dtype attr) v) (\<lambda>w.
         bindE (py_set slots (int slot_index) w) (\<lambda>slots'. Inr (put_slots attr node_index slots' b)))
       else
         bindE (np (ai_dtype attr) v) (\<lambda>w. Inr (put_slots attr node_index (map (\<lambda>_. w) slots) b)))))))"

definition get_attr_value :: "nat \<Rightarrow> nat \<Rightarrow> nat \<Rightarrow> backend \<Rightarrow> py_value res" where
  "get_attr_value node_index attr_type slot_index b =
     bindE (valid_attr b attr_type) (\<lambda>attr.
     bindE (valid_node b attr node_index) (\<lambda>_.
     bindE (frame_row b attr) (\<lambda>row.
     bindE (py_get row (int node_index)) (\<lambda>slots.
       if 1 < ai_slot_number attr then bindE (py_get slots (int slot_index)) (\<lambda>v. Inr (Scalar v))
       else Inr (case slots of [v] \<Rightarrow> Scalar v | _ \<Rightarrow> Many slots)))))"

text \<open>
  Several slots at once.  The array of an attribute with one slot has no slot axis, so indexing it by a
  node and a slot fails.  A list of values of length one is spread over the slots by NumPy.
\<close>

definition set_attr_values ::
  "(string \<Rightarrow> rat \<Rightarrow> rat res) \<Rightarrow> nat \<Rightarrow> nat \<Rightarrow> nat list \<Rightarrow> rat list \<Rightarrow> backend \<Rightarrow> backend res" where
  "set_attr_values np node_index attr_type slot_index vals b =
     bindE (py_get (nb_attrs_list b) (int attr_type)) (\<lambda>attr.
     bindE (frame_row b attr) (\<lambda>row.
       if ai_slot_number attr = 1 then
         bindE (py_get vals 0) (\<lambda>v. bindE (range_check attr [v]) (\<lambda>_. Inl IndexError))
       else
         bindE (range_check attr vals) (\<lambda>_.
         bindE (py_get row (int node_index)) (\<lambda>slots.
         bindE (mapE (np (ai_dtype attr)) vals) (\<lambda>vals.
           if \<not> list_all (\<lambda>i. i < length slots) slot_index then Inl IndexError
           else bindE (np_fit (length slot_index) vals) (\<lambda>vals.
                Inr (put_slots attr node_index (assign_slots slot_index vals slots) b)))))))"

definition get_attr_values :: "nat \<Rightarrow> nat \<Rightarrow> nat list \<Rightarrow> backend \<Rightarrow> rat list res" where
  "get_attr_values node_index attr_type slot_indices b =
     bindE (py_get (nb_attrs_list b) (int attr_type)) (\<lambda>attr.
     bindE (frame_row b attr) (\<lambda>row.
       if ai_slot_number attr = 1 then Inl IndexError
       else bindE (py_get row (int node_index)) (\<lambda>slots. mapE (\<lambda>i. py_get slots (int i)) slot_indices)))"

section \<open>Filters on the slots of an attribute\<close>

text \<open>\<open>attr_array[0][index, slot_index]\<close> fails for an attribute with one slot; \<open>attr_array[0][index]\<close> does not.\<close>

definition where_slots :: "nat \<Rightarrow> nat \<Rightarrow> (rat \<Rightarrow> bool res) \<Rightarrow> backend \<Rightarrow> nat list res" where
  "where_slots index attr_type filter_func b =
     bindE (py_get (nb_attrs_list b) (int attr_type)) (\<lambda>attr.
     bindE (frame_row b attr) (\<lambda>row.
       foldE (\<lambda>slot_index result_list.
          if ai_slot_number attr = 1 then Inl IndexError
          else bindE (py_get row (int index)) (\<lambda>slots.
               bindE (py_get slots (int slot_index)) (\<lambda>v.
               bindE (filter_func v) (\<lambda>ok. Inr (if ok then result_list @ [slot_index] else result_list)))))
         [0..<ai_slot_number attr] []))"

definition slots_cmp :: "(rat \<Rightarrow> bool) \<Rightarrow> nat \<Rightarrow> nat \<Rightarrow> backend \<Rightarrow> nat list res" where
  "slots_cmp P index attr_type b =
     bindE (py_get (nb_attrs_list b) (int attr_type)) (\<lambda>attr.
     bindE (frame_row b attr) (\<lambda>row.
     bindE (py_get row (int index)) (\<lambda>slots. Inr (filter (\<lambda>i. P (slots ! i)) [0..<length slots]))))"

definition slots_greater_than :: "nat \<Rightarrow> nat \<Rightarrow> rat \<Rightarrow> backend \<Rightarrow> nat list res" where
  "slots_greater_than index attr_type v = slots_cmp (\<lambda>x. x > v) index attr_type"

definition slots_greater_equal :: "nat \<Rightarrow> nat \<Rightarrow> rat \<Rightarrow> backend \<Rightarrow> nat list res" where
  "slots_greater_equal index attr_type v = slots_cmp (\<lambda>x. x \<ge> v) index attr_type"

definition slots_less_than :: "nat \<Rightarrow> nat \<Rightarrow> rat \<Rightarrow> backend \<Rightarrow> nat list res" where
  "slots_less_than index attr_type v = slots_cmp (\<lambda>x. x < v) index attr_type"

definition slots_less_equal :: "nat \<Rightarrow> nat \<Rightarrow> rat \<Rightarrow> backend \<Rightarrow> nat list res" where
  "slots_less_equal index attr_type v = slots_cmp (\<lambda>x. x \<le> v) index attr_type"

definition slots_equal :: "nat \<Rightarrow> nat \<Rightarrow> rat \<Rightarrow> backend \<Rightarrow> nat list res" where
  "slots_equal index attr_type v = slots_cmp (\<lambda>x. x = v) index attr_type"

definition slots_not_equal :: "nat \<Rightarrow> nat \<Rightarrow> rat \<Rightarrow> backend \<Rightarrow> nat list res" where
  "slots_not_equal index attr_type v = slots_cmp (\<lambda>x. x \<noteq> v) index attr_type"

section \<open>Reset\<close>

definition zero_fields :: "string list \<Rightarrow> np_element \<Rightarrow> np_element" where
  "zero_fields names cell = map (\<lambda>(n, slots). (n, if n \<in> set names then map (\<lambda>_. 0) slots else slots)) cell"

definition reset_rows :: "(nat \<Rightarrow> bool) \<Rightarrow> backend \<Rightarrow> backend res" where
  "reset_rows sel b =
     bindE (mapE (\<lambda>(node_type, arr).
         bindE (dict_get (nb_node_attrs b) node_type) (\<lambda>attrs.
           if \<not> set (map ai_name attrs) \<subseteq> set (map fst (na_dtype arr)) then Inl ValueError
           else Inr (node_type, arr\<lparr>na_rows := map (\<lambda>r.
                  if sel r then map (zero_fields (map ai_name attrs)) (na_rows arr ! r) else na_rows arr ! r)
                [0..<length (na_rows arr)]\<rparr>))) (nb_node_data b)) (\<lambda>data.
     Inr (b\<lparr>nb_node_data := data\<rparr>))"

definition backend_reset :: "backend \<Rightarrow> backend res" where
  "backend_reset = reset_rows (\<lambda>r. r = 0)"

section \<open>The list of snapshots\<close>

definition mmap_buffer_size :: nat where
  "mmap_buffer_size = 100"

definition mmap_reload :: "buffered_mmap \<Rightarrow> buffered_mmap" where
  "mmap_reload m =
     m\<lparr>mm_data_arr := replicate (mm_buffer_size m) None,
       mm_offset := mm_offset m + mm_itemsize m * mm_buffer_size m * mm_node_number m\<rparr>"

definition new_mmap :: "string \<Rightarrow> nat \<Rightarrow> nat \<Rightarrow> buffered_mmap" where
  "new_mmap path itemsize node_number =
     mmap_reload \<lparr>mm_node_number = node_number, mm_offset = 0, mm_current_record_number = 0, mm_path = path,
                   mm_itemsize = itemsize, mm_buffer_size = mmap_buffer_size, mm_data_arr = []\<rparr>"

definition mmap_record :: "np_element list \<Rightarrow> buffered_mmap \<Rightarrow> buffered_mmap res" where
  "mmap_record arr m =
     bindE (py_set (mm_data_arr m) (int (mm_current_record_number m)) (Some arr)) (\<lambda>data_arr.
       let m1 = m\<lparr>mm_data_arr := data_arr, mm_current_record_number := mm_current_record_number m + 1\<rparr>
       in Inr (if mm_buffer_size m1 \<le> mm_current_record_number m1 then mmap_reload m1 else m1))"

definition get_frame_index_list :: "snapshots \<Rightarrow> int list" where
  "get_frame_index_list sl = map fst (sl_tick2index sl)"

definition snapshots_len :: "snapshots \<Rightarrow> nat" where
  "snapshots_len sl = length (sl_index2tick sl)"

definition get_node_number :: "nat \<Rightarrow> backend \<Rightarrow> nat res" where
  "get_node_number node_type b =
     bindE (py_get (nb_nodes_list b) (int node_type)) (\<lambda>node. Inr (ni_number node))"

text \<open>The row for the tick: its own when the tick is known, else the next one of the ring.\<close>

definition target_row :: "int \<Rightarrow> snapshots \<Rightarrow> nat \<times> snapshots" where
  "target_row tick sl =
     (case map_of (sl_tick2index sl) tick of
        Some i \<Rightarrow> (i, sl)
      | None \<Rightarrow> let c = sl_cur_index sl + 1; c = (if sl_max_size sl \<le> c then 1 else c)
               in (c, sl\<lparr>sl_cur_index := c\<rparr>))"

definition forget_row :: "nat \<Rightarrow> snapshots \<Rightarrow> snapshots" where
  "forget_row target sl =
     (case map_of (sl_index2tick sl) target of
        None \<Rightarrow> sl
      | Some old_tick \<Rightarrow> sl\<lparr>sl_tick2index := AList.delete old_tick (sl_tick2index sl)\<rparr>)"

definition copy_row :: "nat \<Rightarrow> backend \<Rightarrow> nat \<times> node_array
    \<Rightarrow> (nat \<times> node_array) list \<times> (string \<times> buffered_mmap) list \<times> bool
    \<Rightarrow> ((nat \<times> node_array) list \<times> (string \<times> buffered_mmap) list \<times> bool) res" where
  "copy_row target b = (\<lambda>(node_type, arr) (data, history, enabled).
     bindE (py_get (nb_nodes_list b) (int node_type)) (\<lambda>ni.
     bindE (py_get (na_rows arr) 0) (\<lambda>row.
     bindE (py_set (na_rows arr) (int target) row) (\<lambda>rows.
     bindE (if enabled then
              bindE (dict_get history (ni_name ni)) (\<lambda>m.
              bindE (mmap_record row m) (\<lambda>m. Inr (AList.update (ni_name ni) m history)))
            else Inr history) (\<lambda>history.
       Inr (data @ [(node_type, arr\<lparr>na_rows := rows\<rparr>)], history, enabled))))))"

definition np_take_snapshot :: "int \<Rightarrow> snapshots \<Rightarrow> backend \<Rightarrow> (snapshots \<times> backend) res" where
  "np_take_snapshot tick sl b =
     (case target_row tick sl of (target, sl1) \<Rightarrow>
        let sl2 = forget_row target sl1
        in bindE (foldE (copy_row target b) (nb_node_data b) ([], sl_history sl2, sl_history_enabled sl2))
             (\<lambda>(data, history, _).
                Inr (sl2\<lparr>sl_history := history,
                         sl_index2tick := AList.update target tick (sl_index2tick sl2),
                         sl_tick2index := AList.update tick target (sl_tick2index sl2)\<rparr>,
                     b\<lparr>nb_node_data := data\<rparr>)))"

definition last_keys :: "nat \<Rightarrow> 'a list \<Rightarrow> 'a list" where
  "last_keys k xs = py_slice xs (- int k) (int (length xs))"

definition query_slots :: "(rat \<Rightarrow> rat) \<Rightarrow> snapshots \<Rightarrow> backend \<Rightarrow> node_array \<Rightarrow> nat \<Rightarrow> nat \<Rightarrow> nat \<Rightarrow> rat list res" where
  "query_slots np_double sl b arr tick node_index attr_type =
     bindE (py_get (nb_attrs_list b) (int attr_type)) (\<lambda>attr.
       case map_of (sl_tick2index sl) (int tick) of
         Some r \<Rightarrow> bindE (array_row arr (ai_name attr) r) (\<lambda>row.
                   bindE (py_get row (int node_index)) (\<lambda>slots. Inr (map np_double slots)))
       | None \<Rightarrow> Inr (replicate (ai_slot_number attr) 0))"

definition np_query ::
  "(rat \<Rightarrow> rat) \<Rightarrow> nat \<Rightarrow> int list \<Rightarrow> nat list \<Rightarrow> nat list \<Rightarrow> snapshots \<Rightarrow> backend \<Rightarrow> rat list res" where
  "np_query np_double node_type ticks node_index_list attr_list sl b =
     bindE (dict_get (nb_node_data b) node_type) (\<lambda>arr.
       let ticks = (if ticks = [] then last_keys (sl_max_size sl - 1) (get_frame_index_list sl) else ticks)
       in bindE (if node_index_list = [] then
                   bindE (get_node_number node_type b) (\<lambda>n. Inr [0..<n]) else Inr node_index_list) (\<lambda>nodes.
          bindE (mapE (\<lambda>t. bindE (c_unsigned 32 t) (\<lambda>tick.
                   mapE (\<lambda>node_index. mapE (query_slots np_double sl b arr tick node_index) attr_list) nodes)) ticks)
            (\<lambda>retq. if concat (concat retq) = [] then Inl ValueError else Inr (concat (concat (concat retq))))))"

definition np_enable_history :: "(nat \<Rightarrow> nat) \<Rightarrow> string \<Rightarrow> snapshots \<Rightarrow> backend \<Rightarrow> snapshots res" where
  "np_enable_history itemsize history_folder sl b =
     (if sl_history_enabled sl then Inr sl
      else bindE (foldE (\<lambda>(node_type, arr) history.
              bindE (py_get (nb_nodes_list b) (int node_type)) (\<lambda>ni.
                Inr (AList.update (ni_name ni)
                       (new_mmap (history_folder @ ''/'' @ ni_name ni @ ''.bin'') (itemsize node_type) (ni_number ni))
                       history))) (nb_node_data b) (sl_history sl)) (\<lambda>history.
           Inr (sl\<lparr>sl_history_enabled := True, sl_history := history\<rparr>)))"

definition snapshots_reset :: "snapshots \<Rightarrow> backend \<Rightarrow> (snapshots \<times> backend) res" where
  "snapshots_reset sl b =
     bindE (reset_rows (\<lambda>r. 1 \<le> r) b) (\<lambda>b.
       Inr (sl\<lparr>sl_cur_index := 0, sl_tick2index := [], sl_index2tick := [], sl_history := []\<rparr>, b))"

end
