(* ===== verification/FrameApi.thy ===== *)
theory FrameApi imports FrameBackend begin

text \<open>
  \<open>backends/frame.pyx\<close> over the static backend: attribute declarations and the accessors bound to node
  instances, the attribute rules of a node, building a frame from its declaration, snapshots, and the
  slicing interface for queries.

  A frame class is the list of its \<open>FrameNode\<close> members in the order of \<open>dir\<close>; a callback of a node class
  is the value passed to it.  The static backend has no dynamic features: appending, deleting and resuming
  nodes does nothing, and no node is ever marked deleted.  Reading environment variables and the
  C++ backend are not modelled.
\<close>

section \<open>Declarations\<close>

definition old_data_type_definitions :: "(py_key \<times> string) list" where
  "old_data_type_definitions =
     [(Str ''i'', ''int''), (Str ''i4'', ''int''), (Str ''i2'', ''short''), (Str ''i8'', ''long''),
      (Str ''f'', ''float''), (Str ''d'', ''double'')]"

record node_attribute =
  at_dtype :: string
  at_slot_number :: nat
  at_is_const :: bool
  at_is_list :: bool

definition node_attribute_init :: "py_key option \<Rightarrow> int \<Rightarrow> bool \<Rightarrow> bool \<Rightarrow> node_attribute res" where
  "node_attribute_init dtype slot_num is_const is_list =
     bindE (c_unsigned 32 slot_num) (\<lambda>slots.
       let t = (case dtype of
                  None \<Rightarrow> ''int''
                | Some (Str s) \<Rightarrow>
                    (case map_of old_data_type_definitions (Str s) of None \<Rightarrow> ''int'' | Some t \<Rightarrow> t)
                | Some (Bytes s) \<Rightarrow> s)
       in Inr \<lparr>at_dtype = t, at_slot_number = slots, at_is_const = is_const, at_is_list = is_list\<rparr>)"

record node_class =
  nc_name :: string
  nc_attributes :: "(string \<times> node_attribute) list"
  nc_callbacks :: "string list"

record frame_node =
  fn_node_cls :: node_class
  fn_number :: nat

section \<open>Attribute accessors\<close>

text \<open>\<open>ac_cb\<close>: whether a value-changed callback is bound.\<close>

record accessor =
  ac_node_index :: nat
  ac_attr_type :: nat
  ac_slot_number :: nat
  ac_is_list :: bool
  ac_cb :: bool
  ac_cur_iter_slot_index :: nat

definition new_accessor :: "node_attribute \<Rightarrow> nat \<Rightarrow> nat \<Rightarrow> bool \<Rightarrow> accessor" where
  "new_accessor attr attr_type node_index cb =
     \<lparr>ac_node_index = node_index, ac_attr_type = attr_type,
      ac_slot_number = (if at_is_list attr then 0 else at_slot_number attr), ac_is_list = at_is_list attr,
      ac_cb = cb, ac_cur_iter_slot_index = 0\<rparr>"

text \<open>What is put between the brackets; any other object can be iterable or not.\<close>

datatype slot_key =
    SlotInt int
  | SlotList "int list"
  | SlotSlice "int option" "int option"
  | SlotOther bool

definition np_uint32 :: "int \<Rightarrow> nat res" where
  "np_uint32 i = (if - (2 ^ 63) \<le> i \<and> i < 2 ^ 63 then Inr (nat (i mod 2 ^ 32)) else Inl OverflowError)"

definition slot_list :: "nat \<Rightarrow> slot_key \<Rightarrow> nat list res" where
  "slot_list slot_number key =
     (case key of
        SlotSlice a b \<Rightarrow>
          bindE (case a of None \<Rightarrow> Inr 0 | Some i \<Rightarrow> c_unsigned 32 i) (\<lambda>start.
          bindE (case b of None \<Rightarrow> Inr slot_number | Some i \<Rightarrow> c_unsigned 32 i) (\<lambda>stop.
          Inr [start..<stop]))
      | SlotList is \<Rightarrow> mapE np_uint32 is
      | SlotInt i \<Rightarrow> Inl TypeError
      | SlotOther iterable \<Rightarrow> Inl TypeError)"

definition accessor_getitem :: "accessor \<Rightarrow> slot_key \<Rightarrow> backend \<Rightarrow> py_value res" where
  "accessor_getitem a key b =
     (case key of
        SlotInt i \<Rightarrow> bindE (c_unsigned 32 i) (\<lambda>slot. get_attr_value (ac_node_index a) (ac_attr_type a) slot b)
      | SlotOther iterable \<Rightarrow>
          if iterable then Inl (MaroError ''BackendsGetItemInvalidException'') else Inl TypeError
      | _ \<Rightarrow> bindE (slot_list (ac_slot_number a) key) (\<lambda>slots.
             bindE (get_attr_values (ac_node_index a) (ac_attr_type a) slots b) (\<lambda>vals. Inr (Many vals))))"

text \<open>
  Writing: the values are cut to the slots or the slots to the values, and one number is repeated.  NumPy
  refuses a sequence for a single slot.  The result lists the values the callback is called with.
\<close>

definition accessor_setitem ::
  "(string \<Rightarrow> rat \<Rightarrow> rat res) \<Rightarrow> accessor \<Rightarrow> slot_key \<Rightarrow> py_value \<Rightarrow> backend \<Rightarrow> (backend \<times> py_value list) res" where
  "accessor_setitem np a key value b =
     bindE (case key of
        SlotInt i \<Rightarrow>
          bindE (c_unsigned 32 i) (\<lambda>slot.
            case value of
              Scalar v \<Rightarrow> set_attr_value np (ac_node_index a) (ac_attr_type a) slot v b
            | Many vs \<Rightarrow> Inl ValueError)
      | SlotOther iterable \<Rightarrow> Inl (MaroError ''BackendsSetItemInvalidException'')
      | _ \<Rightarrow> bindE (slot_list (ac_slot_number a) key) (\<lambda>slots.
             let values = (case value of Many vs \<Rightarrow> take (length slots) vs | Scalar v \<Rightarrow> replicate (length slots) v);
                 slots = take (length values) slots
             in set_attr_values np (ac_node_index a) (ac_attr_type a) slots values b))
       (\<lambda>b. Inr (b, if ac_cb a then [value] else []))"

text \<open>
  The list operations.  The static backend inherits them from \<open>BackendAbc\<close>, where they do nothing and
  \<open>get_slot_number\<close> is 0; the callback is called with \<open>None\<close>.
\<close>

definition list_operation :: "string \<Rightarrow> accessor \<Rightarrow> (accessor \<times> py_value option list) res" where
  "list_operation exn a =
     (if \<not> ac_is_list a then Inl (MaroError exn)
      else Inr (a\<lparr>ac_slot_number := 0\<rparr>, if ac_cb a then [None] else []))"

definition accessor_append :: "rat \<Rightarrow> accessor \<Rightarrow> (accessor \<times> py_value option list) res" where
  "accessor_append v = list_operation ''BackendsAppendToNonListAttributeException''"

definition accessor_resize :: "nat \<Rightarrow> accessor \<Rightarrow> (accessor \<times> py_value option list) res" where
  "accessor_resize new_size = list_operation ''BackendsResizeNonListAttributeException''"

definition accessor_clear :: "accessor \<Rightarrow> (accessor \<times> py_value option list) res" where
  "accessor_clear = list_operation ''BackendsClearNonListAttributeException''"

definition accessor_insert :: "nat \<Rightarrow> rat \<Rightarrow> accessor \<Rightarrow> (accessor \<times> py_value option list) res" where
  "accessor_insert slot_index v = list_operation ''BackendsInsertNonListAttributeException''"

definition accessor_remove :: "nat \<Rightarrow> accessor \<Rightarrow> (accessor \<times> py_value option list) res" where
  "accessor_remove slot_index = list_operation ''BackendsRemoveFromNonListAttributeException''"

definition accessor_len :: "accessor \<Rightarrow> nat" where
  "accessor_len a = 0"

definition accessor_where :: "(rat \<Rightarrow> bool res) \<Rightarrow> accessor \<Rightarrow> backend \<Rightarrow> nat list res" where
  "accessor_where f a = where_slots (ac_node_index a) (ac_attr_type a) f"

datatype comparison = LessThan | LessEqual | GreaterThan | GreaterEqual | EqualTo | NotEqualTo

fun accessor_compare :: "comparison \<Rightarrow> accessor \<Rightarrow> rat \<Rightarrow> backend \<Rightarrow> nat list res" where
  "accessor_compare LessThan a v = slots_less_than (ac_node_index a) (ac_attr_type a) v"
| "accessor_compare LessEqual a v = slots_less_equal (ac_node_index a) (ac_attr_type a) v"
| "accessor_compare GreaterThan a v = slots_greater_than (ac_node_index a) (ac_attr_type a) v"
| "accessor_compare GreaterEqual a v = slots_greater_equal (ac_node_index a) (ac_attr_type a) v"
| "accessor_compare EqualTo a v = slots_equal (ac_node_index a) (ac_attr_type a) v"
| "accessor_compare NotEqualTo a v = slots_not_equal (ac_node_index a) (ac_attr_type a) v"

definition accessor_iter :: "accessor \<Rightarrow> accessor" where
  "accessor_iter a = a\<lparr>ac_cur_iter_slot_index := 0\<rparr>"

definition accessor_next :: "accessor \<Rightarrow> backend \<Rightarrow> (py_value \<times> accessor) res" where
  "accessor_next a b =
     (if ac_slot_number a \<le> ac_cur_iter_slot_index a then Inl StopIteration
      else bindE (get_attr_value (ac_node_index a) (ac_attr_type a) (ac_cur_iter_slot_index a) b) (\<lambda>v.
           Inr (v, a\<lparr>ac_cur_iter_slot_index := ac_cur_iter_slot_index a + 1\<rparr>)))"

section \<open>Node instances\<close>

datatype node_entry = Accessor accessor | Plain py_value

record node_obj =
  nd_index :: nat
  nd_type :: nat
  nd_is_deleted :: bool
  nd_dict :: "(string \<times> node_entry) list"

definition bind_attributes :: "node_class \<Rightarrow> nat \<Rightarrow> (string \<times> nat) list \<Rightarrow> (string \<times> node_entry) list res" where
  "bind_attributes cls index attr_name_type_dict =
     foldE (\<lambda>(name, attr) d.
       bindE (dict_get attr_name_type_dict name) (\<lambda>attr_type.
         Inr (AList.update name (Accessor (new_accessor attr attr_type index (name \<in> set (nc_callbacks cls)))) d)))
       (nc_attributes cls) []"

definition node_setup :: "node_class \<Rightarrow> nat \<Rightarrow> nat \<Rightarrow> (string \<times> nat) list \<Rightarrow> node_obj res" where
  "node_setup cls index node_type attr_name_type_dict =
     bindE (bind_attributes cls index attr_name_type_dict) (\<lambda>d.
       Inr \<lparr>nd_index = index, nd_type = node_type, nd_is_deleted = False, nd_dict = d\<rparr>)"

definition node_setattr ::
  "(string \<Rightarrow> rat \<Rightarrow> rat res) \<Rightarrow> string \<Rightarrow> py_value \<Rightarrow> node_obj \<Rightarrow> backend \<Rightarrow> (node_obj \<times> backend \<times> py_value list) res" where
  "node_setattr np name value node b =
     (if nd_is_deleted node then Inl (MaroError ''BackendsAccessDeletedNodeException'')
      else case map_of (nd_dict node) name of
        Some (Accessor a) \<Rightarrow>
          if \<not> ac_is_list a \<and> 1 < ac_slot_number a then Inl (MaroError ''BackendsArrayAttributeAccessException'')
          else bindE (accessor_setitem np a (SlotInt 0) value b) (\<lambda>(b, calls). Inr (node, b, calls))
      | _ \<Rightarrow> Inr (node\<lparr>nd_dict := AList.update name (Plain value) (nd_dict node)\<rparr>, b, []))"

text \<open>Reading gives a value, or the accessor itself.  Methods and properties of the class are not modelled:
  a name that is not bound is missing.\<close>

definition node_getattribute :: "string \<Rightarrow> node_obj \<Rightarrow> backend \<Rightarrow> node_entry res" where
  "node_getattribute name node b =
     (case map_of (nd_dict node) name of
        Some (Accessor a) \<Rightarrow>
          if nd_is_deleted node then Inl (MaroError ''BackendsAccessDeletedNodeException'')
          else if \<not> ac_is_list a \<and> ac_slot_number a = 1 then
            bindE (accessor_getitem a (SlotInt 0) b) (\<lambda>v. Inr (Plain v))
          else Inr (Accessor a)
      | Some (Plain v) \<Rightarrow> Inr (Plain v)
      | None \<Rightarrow> Inl AttributeError)"

section \<open>Frames\<close>

record snapshot_node =
  sn_node_type :: nat
  sn_attributes :: "(string \<times> nat) list"

record frame =
  fm_backend :: backend
  fm_snapshots :: "snapshots option"
  fm_node_name2attrname :: "(string \<times> string) list"
  fm_node_origin_number :: "(string \<times> nat) list"
  fm_nodes :: "(string \<times> node_obj list) list"
  fm_snapshot_nodes :: "(string \<times> snapshot_node) list"

definition register_attributes :: "nat \<Rightarrow> node_class \<Rightarrow> backend \<Rightarrow> ((string \<times> nat) list \<times> backend) res" where
  "register_attributes node_type cls b =
     foldE (\<lambda>(name, attr) (types, b).
       bindE (add_attr node_type name (at_dtype attr) (at_slot_number attr) b) (\<lambda>(attr_type, b).
         Inr (AList.update name attr_type types, b)))
       (nc_attributes cls) ([], b)"

definition register_node :: "string \<times> frame_node \<Rightarrow> frame \<Rightarrow> frame res" where
  "register_node = (\<lambda>(frame_attr_name, fn) f.
     let cls = fn_node_cls fn; name = nc_name cls
     in case add_node name (fn_number fn) (fm_backend f) of (node_type, b) \<Rightarrow>
          bindE (register_attributes node_type cls b) (\<lambda>(types, b).
          bindE (mapE (\<lambda>i. node_setup cls i node_type types) [0..<fn_number fn]) (\<lambda>instances.
            Inr (f\<lparr>fm_backend := b,
                   fm_node_origin_number := AList.update name (fn_number fn) (fm_node_origin_number f),
                   fm_nodes := AList.update frame_attr_name instances (fm_nodes f),
                   fm_node_name2attrname := AList.update name frame_attr_name (fm_node_name2attrname f),
                   fm_snapshot_nodes := AList.update name \<lparr>sn_node_type = node_type, sn_attributes = types\<rparr>
                                          (fm_snapshot_nodes f)\<rparr>))))"

definition blank_frame :: frame where
  "blank_frame = \<lparr>fm_backend = new_backend, fm_snapshots = None, fm_node_name2attrname = [],
                  fm_node_origin_number = [], fm_nodes = [], fm_snapshot_nodes = []\<rparr>"

definition frame_init :: "(string \<times> frame_node) list \<Rightarrow> bool \<Rightarrow> int \<Rightarrow> frame res" where
  "frame_init members enable_snapshot total_snapshots =
     bindE (c_unsigned 16 total_snapshots) (\<lambda>_.
     bindE (foldE register_node members blank_frame) (\<lambda>f.
     bindE (setup_backend enable_snapshot total_snapshots (fm_backend f)) (\<lambda>(b, sl).
       Inr (f\<lparr>fm_backend := b, fm_snapshots := sl\<rparr>))))"

definition frame_base_reset :: "frame \<Rightarrow> frame res" where
  "frame_base_reset f = bindE (backend_reset (fm_backend f)) (\<lambda>b. Inr (f\<lparr>fm_backend := b\<rparr>))"

definition frame_take_snapshot :: "int \<Rightarrow> frame \<Rightarrow> frame res" where
  "frame_take_snapshot tick f =
     bindE (c_signed 32 tick) (\<lambda>tick.
       case fm_snapshots f of
         None \<Rightarrow> Inr f
       | Some sl \<Rightarrow> bindE (np_take_snapshot tick sl (fm_backend f)) (\<lambda>(sl, b).
                    Inr (f\<lparr>fm_snapshots := Some sl, fm_backend := b\<rparr>)))"

definition frame_enable_history :: "(nat \<Rightarrow> nat) \<Rightarrow> string \<Rightarrow> frame \<Rightarrow> frame res" where
  "frame_enable_history itemsize path f =
     (case fm_snapshots f of
        None \<Rightarrow> Inr f
      | Some sl \<Rightarrow> bindE (np_enable_history itemsize path sl (fm_backend f)) (\<lambda>sl.
                   Inr (f\<lparr>fm_snapshots := Some sl\<rparr>)))"

text \<open>\<open>SnapshotList\<close>: \<open>frame.snapshots[name][ticks:nodes:attributes]\<close>, its reset and its list of indices.\<close>

datatype 'a selector = All | One 'a | Several "'a list"

fun selected :: "'a selector \<Rightarrow> 'a list" where
  "selected All = []"
| "selected (One x) = [x]"
| "selected (Several xs) = xs"

definition snapshot_getitem ::
  "(rat \<Rightarrow> rat) \<Rightarrow> snapshot_node \<Rightarrow> int selector \<Rightarrow> int selector \<Rightarrow> string selector
     \<Rightarrow> snapshots \<Rightarrow> backend \<Rightarrow> rat list option res" where
  "snapshot_getitem np_double node ticks nodes attrs sl b =
     (case attrs of
        All \<Rightarrow> Inr None
      | _ \<Rightarrow>
          bindE (mapE (\<lambda>name. case map_of (sn_attributes node) name of
                   None \<Rightarrow> Inl (MaroError ''BackendsInvalidAttributeException'')
                 | Some t \<Rightarrow> Inr t) (selected attrs)) (\<lambda>attr_types.
          bindE (mapE (c_unsigned 32) (selected nodes)) (\<lambda>node_list.
          bindE (np_query np_double (sn_node_type node) (selected ticks) node_list attr_types sl b) (\<lambda>vals.
            Inr (Some vals)))))"

definition snapshot_list_getitem :: "string \<Rightarrow> frame \<Rightarrow> snapshot_node option" where
  "snapshot_list_getitem name f = map_of (fm_snapshot_nodes f) name"

definition snapshot_node_len :: "snapshot_node \<Rightarrow> backend \<Rightarrow> nat res" where
  "snapshot_node_len node b = get_node_number (sn_node_type node) b"

definition snapshot_list_reset :: "frame \<Rightarrow> frame res" where
  "snapshot_list_reset f =
     (case fm_snapshots f of
        None \<Rightarrow> Inl AttributeError
      | Some sl \<Rightarrow> bindE (snapshots_reset sl (fm_backend f)) (\<lambda>(sl, b).
                   Inr (f\<lparr>fm_snapshots := Some sl, fm_backend := b\<rparr>)))"

end
