(* ===== verification/FrameProps.thy ===== *)
theory FrameProps imports FrameApi begin

text \<open>
  The frame is well typed: the arrays of a frame built from its declaration have the declared shapes, every
  operation keeps them, reading and writing a declared slot of an existing node never fails, and what is
  written is what is read.
\<close>

section \<open>Shapes\<close>

definition cell_ok :: "np_field list \<Rightarrow> np_element \<Rightarrow> bool" where
  "cell_ok dtype cell \<longleftrightarrow> map (\<lambda>(n, s). (n, length s)) cell = map (\<lambda>(n, _, k). (n, k)) dtype"

definition array_ok :: "nat \<Rightarrow> nat \<Rightarrow> node_array \<Rightarrow> bool" where
  "array_ok rows n arr \<longleftrightarrow>
     length (na_rows arr) = rows \<and> distinct (map fst (na_dtype arr))
     \<and> (\<forall>row\<in>set (na_rows arr). length row = n \<and> list_all (cell_ok (na_dtype arr)) row)"

definition attrs_of :: "backend \<Rightarrow> nat \<Rightarrow> attr_info list" where
  "attrs_of b t = filter (\<lambda>a. ai_node_type a = t) (nb_attrs_list b)"

definition registry_ok :: "backend \<Rightarrow> bool" where
  "registry_ok b \<longleftrightarrow>
     nb_node_attrs b = map (\<lambda>t. (t, attrs_of b t)) [0..<length (nb_nodes_list b)]
     \<and> map ni_type (nb_nodes_list b) = [0..<length (nb_nodes_list b)]
     \<and> map ai_type (nb_attrs_list b) = [0..<length (nb_attrs_list b)]
     \<and> list_all (\<lambda>a. ai_node_type a < length (nb_nodes_list b)) (nb_attrs_list b)"

definition backend_ok :: "nat \<Rightarrow> backend \<Rightarrow> bool" where
  "backend_ok rows b \<longleftrightarrow>
     registry_ok b \<and> map fst (nb_node_data b) = [0..<length (nb_nodes_list b)]
     \<and> (\<forall>(t, arr)\<in>set (nb_node_data b).
          na_dtype arr = map gen_numpy_dtype (attrs_of b t) \<and> array_ok rows (ni_number (nb_nodes_list b ! t)) arr)"

lemma cell_ok_names: "cell_ok dtype cell \<Longrightarrow> map fst cell = map fst dtype"
  unfolding cell_ok_def by (drule arg_cong [where f = "map fst"]) (simp add: comp_def case_prod_beta)

lemma cell_ok_length:
  assumes "cell_ok dtype cell" "distinct (map fst dtype)" "(n, d, k) \<in> set dtype"
  shows "length (cell_slots n cell) = k" "map_of cell n \<noteq> None"
proof -
  from assms(3) have "(n, k) \<in> set (map (\<lambda>(n, _, k). (n, k)) dtype)" by force
  then have "(n, k) \<in> set (map (\<lambda>(n, s). (n, length s)) cell)" using assms(1) by (simp only: cell_ok_def)
  then obtain s where s: "(n, s) \<in> set cell" "length s = k" by auto
  moreover have "distinct (map fst cell)" using cell_ok_names [OF assms(1)] assms(2) by simp
  ultimately have "map_of cell n = Some s" by simp
  then show "length (cell_slots n cell) = k" "map_of cell n \<noteq> None" using s by (simp_all add: cell_slots_def)
qed

lemma cell_slots_update: "cell_slots m (AList.update n s cell) = (if m = n then s else cell_slots m cell)"
  by (simp add: cell_slots_def)

lemma shape_update:
  "map_of cell n = Some s0 \<Longrightarrow> length s = length s0 \<Longrightarrow>
   map (\<lambda>(n, s). (n, length s)) (AList.update n s cell) = map (\<lambda>(n, s). (n, length s)) cell"
  by (induction cell) (auto split: if_splits)

lemma cell_ok_update:
  assumes "cell_ok dtype cell" "distinct (map fst dtype)" "(n, d, length s) \<in> set dtype"
  shows "cell_ok dtype (AList.update n s cell)"
proof -
  obtain s0 where s0: "map_of cell n = Some s0" using cell_ok_length(2) [OF assms] by auto
  have "length s = length s0" using cell_ok_length(1) [OF assms] s0 by (simp add: cell_slots_def)
  with s0 assms(1) show ?thesis by (simp add: cell_ok_def shape_update)
qed

lemma shape_zero: "map (\<lambda>(n, s). (n, length s)) (zero_fields names cell) = map (\<lambda>(n, s). (n, length s)) cell"
  by (induction cell) (auto simp: zero_fields_def)

lemma cell_ok_zero: "cell_ok dtype cell \<Longrightarrow> cell_ok dtype (zero_fields names cell)"
  by (simp add: cell_ok_def shape_zero)

lemma array_ok_zeros:
  assumes "distinct (map fst dtype)"
  shows "array_ok rows n (np_zeros rows n dtype)"
proof -
  have "cell_ok dtype (map (\<lambda>(name, _, slots). (name, replicate slots 0)) dtype)"
    by (simp add: cell_ok_def comp_def case_prod_beta)
  with assms show ?thesis by (simp add: array_ok_def np_zeros_def list_all_length)
qed

section \<open>Looking up an attribute\<close>

lemma map_of_upt: "map_of (map (\<lambda>t. (t, f t)) [0..<n]) t = (if t < n then Some (f t) else None)"
  by (induction n) (auto simp: map_add_def less_Suc_eq)

lemma registered_attr:
  assumes "registry_ok b" "j < length (nb_attrs_list b)"
  shows "ai_node_type (nb_attrs_list b ! j) < length (nb_nodes_list b)"
    "nb_attrs_list b ! j \<in> set (attrs_of b (ai_node_type (nb_attrs_list b ! j)))"
  using assms by (auto simp: registry_ok_def attrs_of_def list_all_length)

lemma data_lookup:
  assumes "backend_ok rows b" "t < length (nb_nodes_list b)"
  obtains arr where "map_of (nb_node_data b) t = Some arr" "na_dtype arr = map gen_numpy_dtype (attrs_of b t)"
    "array_ok rows (ni_number (nb_nodes_list b ! t)) arr"
proof -
  have "t \<in> set (map fst (nb_node_data b))" using assms by (simp add: backend_ok_def)
  then obtain arr where "map_of (nb_node_data b) t = Some arr"
    by (metis not_None_eq map_of_eq_None_iff set_map)
  with assms(1) that show thesis by (fastforce simp: backend_ok_def dest: map_of_SomeD)
qed

lemma array_row_ok:
  assumes "array_ok rows n arr" "(name, d, k) \<in> set (na_dtype arr)" "r < rows"
  shows "array_row arr name r = Inr (map (cell_slots name) (na_rows arr ! r))"
    "length (na_rows arr ! r) = n" "\<And>i. i < n \<Longrightarrow> length (cell_slots name (na_rows arr ! r ! i)) = k"
proof -
  from assms(1,3) have row: "na_rows arr ! r \<in> set (na_rows arr)" "r < length (na_rows arr)"
    by (auto simp: array_ok_def)
  show "array_row arr name r = Inr (map (cell_slots name) (na_rows arr ! r))"
    using assms(2) row(2) by (force simp: array_row_def py_get_def)
  show len: "length (na_rows arr ! r) = n" using assms(1) row(1) by (auto simp: array_ok_def)
  show "length (cell_slots name (na_rows arr ! r ! i)) = k" if "i < n" for i
    using assms(1,2) row(1) that len by (auto simp: array_ok_def list_all_length intro!: cell_ok_length(1))
qed

text \<open>The slots of an attribute of a node in a row: 0 for the frame, the others for snapshots.\<close>

definition slots_in :: "backend \<Rightarrow> nat \<Rightarrow> nat \<Rightarrow> string \<Rightarrow> nat \<Rightarrow> rat list" where
  "slots_in b r t name i =
     (case map_of (nb_node_data b) t of None \<Rightarrow> [] | Some arr \<Rightarrow> cell_slots name (na_rows arr ! r ! i))"

definition slots_of :: "backend \<Rightarrow> attr_info \<Rightarrow> nat \<Rightarrow> rat list" where
  "slots_of b a i = slots_in b 0 (ai_node_type a) (ai_name a) i"

lemma attr_field: "a \<in> set (attrs_of b t) \<Longrightarrow> (ai_name a, ai_dtype a, ai_slot_number a) \<in> set (map gen_numpy_dtype (attrs_of b t))"
  by (force simp: gen_numpy_dtype_def)

lemma frame_row_ok:
  assumes "backend_ok rows b" "0 < rows" "j < length (nb_attrs_list b)" "a = nb_attrs_list b ! j"
    and "n = ni_number (nb_nodes_list b ! ai_node_type a)"
  shows "frame_row b a = Inr (map (slots_of b a) [0..<n])" "\<And>i. i < n \<Longrightarrow> length (slots_of b a i) = ai_slot_number a"
proof -
  have reg: "registry_ok b" using assms(1) by (simp add: backend_ok_def)
  note r = registered_attr [OF reg assms(3), folded assms(4)]
  from data_lookup [OF assms(1) r(1)] obtain arr where
    arr: "map_of (nb_node_data b) (ai_node_type a) = Some arr"
      "na_dtype arr = map gen_numpy_dtype (attrs_of b (ai_node_type a))" "array_ok rows n arr"
    unfolding assms(5) by blast
  have field: "(ai_name a, ai_dtype a, ai_slot_number a) \<in> set (na_dtype arr)" using attr_field [OF r(2)] arr(2) by simp
  note row = array_row_ok [OF arr(3) field assms(2)]
  have slots: "slots_of b a = (\<lambda>i. cell_slots (ai_name a) (na_rows arr ! 0 ! i))"
    by (simp add: fun_eq_iff slots_of_def slots_in_def arr(1))
  have "map (cell_slots (ai_name a)) (na_rows arr ! 0) = map (slots_of b a) [0..<n]"
    unfolding slots by (rule nth_equalityI) (simp_all add: row(2))
  with row(1) show "frame_row b a = Inr (map (slots_of b a) [0..<n])" by (simp add: frame_row_def dict_get_def arr(1))
  show "\<And>i. i < n \<Longrightarrow> length (slots_of b a i) = ai_slot_number a" unfolding slots by (rule row(3))
qed

text \<open>The range check compares a \<open>bytes\<close> key with the \<open>str\<close> keys of the table: it never fires.\<close>

lemma range_check_silent [simp]: "range_check a vals = Inr ()"
  by (simp add: range_check_def attribute_type_range_def)

section \<open>Writing a node's slots\<close>

lemma put_slots_fixed [simp]:
  "nb_nodes_list (put_slots a i s b) = nb_nodes_list b" "nb_attrs_list (put_slots a i s b) = nb_attrs_list b"
  "nb_node_attrs (put_slots a i s b) = nb_node_attrs b" "attrs_of (put_slots a i s b) t = attrs_of b t"
  "registry_ok (put_slots a i s b) = registry_ok b"
  by (simp_all add: put_slots_def attrs_of_def registry_ok_def)

lemma map_entry_map_of:
  "map_of (AList.map_entry k f d) t = (if t = k then map_option f (map_of d t) else map_of d t)"
  by (induction d) auto

lemma map_entry_data: "map fst (AList.map_entry k f d) = map fst d"
  by (induction d) auto

lemma array_ok_put:
  assumes "array_ok rows n arr" "0 < rows" "i < n" "(name, d, length s) \<in> set (na_dtype arr)"
  shows "array_ok rows n (arr\<lparr>na_rows := (na_rows arr)[0 := (na_rows arr ! 0)[i := AList.update name s (na_rows arr ! 0 ! i)]]\<rparr>)"
proof -
  have len: "length (na_rows arr) = rows" and dis: "distinct (map fst (na_dtype arr))"
    and ok: "\<And>row. row \<in> set (na_rows arr) \<Longrightarrow> length row = n \<and> list_all (cell_ok (na_dtype arr)) row"
    using assms(1) by (auto simp: array_ok_def)
  have r0: "length (na_rows arr ! 0) = n" "list_all (cell_ok (na_dtype arr)) (na_rows arr ! 0)"
    using ok [of "na_rows arr ! 0"] len assms(2) by auto
  have c: "cell_ok (na_dtype arr) (AList.update name s (na_rows arr ! 0 ! i))"
    using r0 assms(3) dis assms(4) by (auto intro!: cell_ok_update simp: list_all_length)
  have "list_all (cell_ok (na_dtype arr)) ((na_rows arr ! 0)[i := AList.update name s (na_rows arr ! 0 ! i)])"
    by (rule list_all_update [OF r0(2)]) (rule c)
  with len dis ok r0(1) show ?thesis by (auto simp: array_ok_def dest!: set_update_subset_insert [THEN subsetD])
qed

lemma put_slots_ok:
  assumes "backend_ok rows b" "0 < rows" "j < length (nb_attrs_list b)" "a = nb_attrs_list b ! j"
    and "i < ni_number (nb_nodes_list b ! ai_node_type a)" "length s = ai_slot_number a"
  shows "backend_ok rows (put_slots a i s b)"
proof -
  have reg: "registry_ok b" using assms(1) by (simp add: backend_ok_def)
  note r = registered_attr [OF reg assms(3), folded assms(4)]
  have keys: "map fst (nb_node_data (put_slots a i s b)) = map fst (nb_node_data b)"
    by (simp add: put_slots_def map_entry_data)
  let ?f = "\<lambda>arr. arr\<lparr>na_rows := (na_rows arr)[0 := (na_rows arr ! 0)[i := AList.update (ai_name a) s (na_rows arr ! 0 ! i)]]\<rparr>"
  have "na_dtype arr = map gen_numpy_dtype (attrs_of b t) \<and> array_ok rows (ni_number (nb_nodes_list b ! t)) arr"
    if mem: "(t, arr) \<in> set (nb_node_data (put_slots a i s b))" for t arr
  proof -
    have dis: "distinct (map fst (nb_node_data b))" using assms(1) by (simp add: backend_ok_def)
    then have "map_of (nb_node_data (put_slots a i s b)) t = Some arr" using mem keys by simp
    then have m: "(if t = ai_node_type a then map_option ?f (map_of (nb_node_data b) t) else map_of (nb_node_data b) t)
        = Some arr"
      by (auto simp: put_slots_def map_entry_map_of split: if_splits)
    then obtain arr0 where arr0: "map_of (nb_node_data b) t = Some arr0" by (auto split: if_splits)
    then have old: "na_dtype arr0 = map gen_numpy_dtype (attrs_of b t)"
        "array_ok rows (ni_number (nb_nodes_list b ! t)) arr0"
      using assms(1) by (auto simp: backend_ok_def dest: map_of_SomeD)
    show ?thesis
    proof (cases "t = ai_node_type a")
      case False
      then show ?thesis using m arr0 old by simp
    next
      case True
      then have arr: "arr = ?f arr0" using m arr0 by simp
      have "(ai_name a, ai_dtype a, length s) \<in> set (na_dtype arr0)"
        using attr_field [OF r(2)] old(1) True assms(6) by simp
      then have "array_ok rows (ni_number (nb_nodes_list b ! t)) (?f arr0)"
        using old(2) assms(2,5) True by (intro array_ok_put) auto
      with old arr show ?thesis by simp
    qed
  qed
  with assms(1) keys show ?thesis by (auto simp: backend_ok_def)
qed

text \<open>After a write exactly the slots written have changed.\<close>

lemma put_slots_get:
  assumes "backend_ok rows b" "0 < rows" "j < length (nb_attrs_list b)" "a = nb_attrs_list b ! j"
    and "i < ni_number (nb_nodes_list b ! ai_node_type a)"
  shows "slots_in (put_slots a i s b) r t name k =
    (if r = 0 \<and> t = ai_node_type a \<and> name = ai_name a \<and> k = i then s else slots_in b r t name k)"
proof -
  have reg: "registry_ok b" using assms(1) by (simp add: backend_ok_def)
  note q = registered_attr [OF reg assms(3), folded assms(4)]
  from data_lookup [OF assms(1) q(1)] obtain arr where
    arr: "map_of (nb_node_data b) (ai_node_type a) = Some arr"
      "array_ok rows (ni_number (nb_nodes_list b ! ai_node_type a)) arr" by blast
  then have len: "0 < length (na_rows arr)" "i < length (na_rows arr ! 0)"
    using assms(2,5) by (auto simp: array_ok_def)
  show ?thesis
  proof (cases "t = ai_node_type a")
    case False
    then show ?thesis by (simp add: slots_in_def put_slots_def map_entry_map_of)
  next
    case True
    with arr(1) len show ?thesis
      by (cases "r = 0"; cases "k = i")
         (simp_all add: slots_in_def put_slots_def map_entry_map_of cell_slots_update)
  qed
qed

section \<open>Reading and writing\<close>

text \<open>A declared attribute of an existing node.\<close>

definition valid_ref :: "backend \<Rightarrow> nat \<Rightarrow> nat \<Rightarrow> attr_info \<Rightarrow> bool" where
  "valid_ref b i j a \<longleftrightarrow>
     j < length (nb_attrs_list b) \<and> a = nb_attrs_list b ! j \<and> i < ni_number (nb_nodes_list b ! ai_node_type a)"

lemma valid_ref_checks:
  assumes "backend_ok rows b" "0 < rows" "valid_ref b i j a"
  shows "valid_attr b j = Inr a" "valid_node b a i = Inr ()" "py_get (nb_attrs_list b) (int j) = Inr a"
    "bindE (frame_row b a) (\<lambda>row. bindE (py_get row (int i)) F) = F (slots_of b a i)"
    "length (slots_of b a i) = ai_slot_number a"
proof -
  have v: "j < length (nb_attrs_list b)" "a = nb_attrs_list b ! j" "i < ni_number (nb_nodes_list b ! ai_node_type a)"
    using assms(3) unfolding valid_ref_def by blast+
  have reg: "registry_ok b" using assms(1) by (simp add: backend_ok_def)
  note r = registered_attr(1) [OF reg v(1), folded v(2)]
  show "valid_attr b j = Inr a" "py_get (nb_attrs_list b) (int j) = Inr a"
    using v(1,2) by (simp_all add: valid_attr_def py_get_def)
  show "valid_node b a i = Inr ()" using r v(3) by (simp add: valid_node_def)
  note row = frame_row_ok [OF assms(1,2) v(1,2) refl]
  show "bindE (frame_row b a) (\<lambda>row. bindE (py_get row (int i)) F) = F (slots_of b a i)"
    using v(3) by (simp add: row(1) py_get_def)
  show "length (slots_of b a i) = ai_slot_number a" by (rule row(2)) (rule v(3))
qed

lemma singleton_obtain:
  assumes "length xs = 1"
  obtains x where "xs = [x]"
  using assms by (cases xs) auto

lemma get_attr_value_exact:
  assumes "backend_ok rows b" "0 < rows" "valid_ref b i j a" "k < ai_slot_number a"
  shows "get_attr_value i j k b = Inr (Scalar (slots_of b a i ! k))"
proof -
  note c = valid_ref_checks [OF assms(1-3)]
  show ?thesis
  proof (cases "1 < ai_slot_number a")
    case True
    then show ?thesis using assms(4) by (simp add: get_attr_value_def c(1,2,4)) (simp add: c(5) py_get_def)
  next
    case False
    with assms(4) have "length (slots_of b a i) = 1" "k = 0" by (auto simp: c(5))
    then show ?thesis using False by (elim singleton_obtain) (simp add: get_attr_value_def c(1,2,4))
  qed
qed

lemma set_attr_value_exact:
  assumes "backend_ok rows b" "0 < rows" "valid_ref b i j a" "k < ai_slot_number a"
  shows "set_attr_value np i j k v b =
    bindE (np (ai_dtype a) v) (\<lambda>w. Inr (put_slots a i ((slots_of b a i)[k := w]) b))"
proof -
  note c = valid_ref_checks [OF assms(1-3)]
  show ?thesis
  proof (cases "1 < ai_slot_number a")
    case True
    then show ?thesis using assms(4) by (simp add: set_attr_value_def c(1,2,4)) (simp add: c(5) py_set_def)
  next
    case False
    with assms(4) have "length (slots_of b a i) = 1" "k = 0" by (auto simp: c(5))
    then show ?thesis using False by (elim singleton_obtain) (simp add: set_attr_value_def c(1,2,4))
  qed
qed

lemma get_attr_values_exact:
  assumes "backend_ok rows b" "0 < rows" "valid_ref b i j a"
  shows "get_attr_values i j idx b =
    (if ai_slot_number a = 1 then Inl IndexError
     else if \<forall>k\<in>set idx. k < ai_slot_number a then Inr (map (\<lambda>k. slots_of b a i ! k) idx) else Inl IndexError)"
proof -
  note c = valid_ref_checks [OF assms(1-3)]
  have "frame_row b a \<noteq> Inl e" for e using c(4) [where F = "\<lambda>_. Inr ()"] by (auto simp: bindE_def split: sum.splits)
  then obtain row where row: "frame_row b a = Inr row" by (cases "frame_row b a") auto
  have slots: "bindE (py_get row (int i)) F = F (slots_of b a i)" for F :: "rat list \<Rightarrow> rat list res"
    using c(4) [of F] row by simp
  have "mapE (\<lambda>k. py_get (slots_of b a i) (int k)) idx =
    (if \<forall>k\<in>set idx. k < ai_slot_number a then Inr (map (\<lambda>k. slots_of b a i ! k) idx) else Inl IndexError)"
    by (induction idx) (auto simp: py_get_def c(5))
  then show ?thesis by (simp add: get_attr_values_def c(3) row slots)
qed

lemma set_attr_values_exact:
  assumes "backend_ok rows b" "0 < rows" "valid_ref b i j a" "length vals = length idx"
  shows "set_attr_values np i j idx vals b =
    (if ai_slot_number a = 1 then Inl IndexError
     else bindE (mapE (np (ai_dtype a)) vals) (\<lambda>ws.
            if \<forall>k\<in>set idx. k < ai_slot_number a then Inr (put_slots a i (assign_slots idx ws (slots_of b a i)) b)
            else Inl IndexError))"
proof -
  note c = valid_ref_checks [OF assms(1-3)]
  have "frame_row b a \<noteq> Inl e" for e using c(4) [where F = "\<lambda>_. Inr ()"] by (auto simp: bindE_def split: sum.splits)
  then obtain row where row: "frame_row b a = Inr row" by (cases "frame_row b a") auto
  have slots: "bindE (py_get row (int i)) F = F (slots_of b a i)" for F :: "rat list \<Rightarrow> backend res"
    using c(4) [of F] row by simp
  have "bindE (py_get vals 0) (\<lambda>v. Inl IndexError) = Inl IndexError"
    by (cases vals) (auto simp: py_get_def py_pos_def)
  then show ?thesis
    by (auto simp: set_attr_values_def c(3,5) row slots np_fit_def assms(4) list_all_iff mapE_length
        intro!: bindE_cong)
qed

end
