(* ===== verification/FrameRing.thy ===== *)
theory FrameRing imports FrameApi CitiNodes begin

text \<open>
  The list of snapshots is a ring of rows: its two dictionaries are inverse to each other, a tick's row
  holds the frame as it was when the tick was last recorded, and for ticks that do not go back the ring
  keeps exactly the latest ones, which is the dictionary the scenarios are modelled with.
\<close>

section \<open>What is stored\<close>

type_synonym frame_state = "(nat \<times> np_element list) list"

definition row_state :: "backend \<Rightarrow> nat \<Rightarrow> frame_state" where
  "row_state b r = map (\<lambda>(t, arr). (t, na_rows arr ! r)) (nb_node_data b)"

definition kept :: "snapshots \<Rightarrow> backend \<Rightarrow> (int \<times> frame_state) list" where
  "kept sl b = map (\<lambda>(tick, r). (tick, row_state b r)) (sl_tick2index sl)"

lemma copy_rows:
  assumes "foldE (copy_row target b) arrs (data, history, enabled) = Inr (data', history', enabled')"
  shows "data' = data @ map (\<lambda>(t, arr). (t, arr\<lparr>na_rows := (na_rows arr)[target := na_rows arr ! 0]\<rparr>)) arrs
    \<and> (\<forall>(t, arr)\<in>set arrs. target < length (na_rows arr))"
  using assms
proof (induction arrs arbitrary: data history enabled)
  case Nil
  then show ?case by simp
next
  case (Cons x arrs)
  obtain t arr where x: "x = (t, arr)" by (cases x)
  from Cons.prems obtain rows history1 where
    r: "py_get (na_rows arr) 0 = Inr (na_rows arr ! 0)" "py_set (na_rows arr) (int target) (na_rows arr ! 0) = Inr rows"
      "foldE (copy_row target b) arrs (data @ [(t, arr\<lparr>na_rows := rows\<rparr>)], history1, enabled) = Inr (data', history', enabled')"
    by (auto simp: x copy_row_def res_simps py_get_def [where i = 0] py_pos_def split: if_splits option.splits)
  then have "rows = (na_rows arr)[target := na_rows arr ! 0]" "target < length (na_rows arr)"
    by (auto simp: py_set_def split: if_splits)
  with Cons.IH [OF r(3)] show ?case by (simp add: x)
qed

lemma take_snapshot_exact:
  assumes "np_take_snapshot tick sl b = Inr (sl', b')"
  obtains target sl1 where "target_row tick sl = (target, sl1)"
    "sl_tick2index sl' = AList.update tick target (sl_tick2index (forget_row target sl1))"
    "sl_index2tick sl' = AList.update target tick (sl_index2tick sl)"
    "sl_cur_index sl' = sl_cur_index sl1" "sl_max_size sl' = sl_max_size sl"
    "sl_history_enabled sl' = sl_history_enabled sl"
    "b' = b\<lparr>nb_node_data := map (\<lambda>(t, arr). (t, arr\<lparr>na_rows := (na_rows arr)[target := na_rows arr ! 0]\<rparr>)) (nb_node_data b)\<rparr>"
    "\<forall>(t, arr)\<in>set (nb_node_data b). target < length (na_rows arr)"
proof -
  obtain target sl1 where t: "target_row tick sl = (target, sl1)" by (cases "target_row tick sl")
  then have same: "sl_index2tick sl1 = sl_index2tick sl" "sl_max_size sl1 = sl_max_size sl"
      "sl_history_enabled sl1 = sl_history_enabled sl"
    by (auto simp: target_row_def Let_def split: option.splits)
  have f: "sl_index2tick (forget_row target sl1) = sl_index2tick sl1" "sl_max_size (forget_row target sl1) = sl_max_size sl1"
    "sl_cur_index (forget_row target sl1) = sl_cur_index sl1"
    "sl_history_enabled (forget_row target sl1) = sl_history_enabled sl1"
    by (simp_all add: forget_row_def split: option.split)
  from assms t obtain data history enabled where
    e: "foldE (copy_row target b) (nb_node_data b)
         ([], sl_history (forget_row target sl1), sl_history_enabled (forget_row target sl1)) = Inr (data, history, enabled)"
      "sl' = (forget_row target sl1)\<lparr>sl_history := history,
               sl_index2tick := AList.update target tick (sl_index2tick (forget_row target sl1)),
               sl_tick2index := AList.update tick target (sl_tick2index (forget_row target sl1))\<rparr>"
      "b' = b\<lparr>nb_node_data := data\<rparr>"
    by (auto simp: np_take_snapshot_def Let_def res_simps)
  from that [OF t] e copy_rows [OF e(1)] show thesis by (simp add: f same)
qed

lemma row_state_copy:
  assumes "\<forall>(t, arr)\<in>set (nb_node_data b). target < length (na_rows arr)"
    and "b' = b\<lparr>nb_node_data := map (\<lambda>(t, arr). (t, arr\<lparr>na_rows := (na_rows arr)[target := na_rows arr ! 0]\<rparr>)) (nb_node_data b)\<rparr>"
  shows "row_state b' r = (if r = target then row_state b 0 else row_state b r)"
  using assms(1) by (auto simp: row_state_def assms(2) nth_list_update)

section \<open>The dictionaries\<close>

definition ring_ok :: "snapshots \<Rightarrow> bool" where
  "ring_ok sl \<longleftrightarrow>
     2 \<le> sl_max_size sl \<and> sl_cur_index sl < sl_max_size sl
     \<and> distinct (map fst (sl_tick2index sl)) \<and> distinct (map fst (sl_index2tick sl))
     \<and> (\<forall>tick r. map_of (sl_tick2index sl) tick = Some r \<longleftrightarrow> map_of (sl_index2tick sl) r = Some tick)
     \<and> (\<forall>r. map_of (sl_index2tick sl) r \<noteq> None \<longrightarrow> 1 \<le> r \<and> r < sl_max_size sl)"

lemma ring_rows_bounds:
  assumes "ring_ok sl" "map_of (sl_tick2index sl) tick = Some r"
  shows "1 \<le> r" "r < sl_max_size sl"
  using assms by (auto simp: ring_ok_def)

lemma map_of_delete: "map_of (AList.delete k d) = (map_of d)(k := None)"
  by (simp add: delete_conv')

lemma target_row_bounds:
  assumes "ring_ok sl" "target_row tick sl = (target, sl1)"
  shows "1 \<le> target" "target < sl_max_size sl" "sl_cur_index sl1 < sl_max_size sl"
    "sl_tick2index sl1 = sl_tick2index sl" "sl_index2tick sl1 = sl_index2tick sl"
  using assms ring_rows_bounds [OF assms(1), of tick]
  by (auto simp: target_row_def Let_def ring_ok_def split: option.splits if_splits)

lemma take_ring_ok:
  assumes "ring_ok sl" "np_take_snapshot tick sl b = Inr (sl', b')"
  shows "ring_ok sl'"
proof -
  from take_snapshot_exact [OF assms(2)] obtain target sl1 where
    t: "target_row tick sl = (target, sl1)"
      "sl_tick2index sl' = AList.update tick target (sl_tick2index (forget_row target sl1))"
      "sl_index2tick sl' = AList.update target tick (sl_index2tick sl)"
      "sl_cur_index sl' = sl_cur_index sl1" "sl_max_size sl' = sl_max_size sl" by blast
  note bounds = target_row_bounds [OF assms(1) t(1)]
  have inv: "map_of (sl_tick2index sl) u = Some r \<longleftrightarrow> map_of (sl_index2tick sl) r = Some u" for u r
    using assms(1) by (simp add: ring_ok_def)
  have known: "map_of (sl_tick2index sl) tick \<noteq> None \<Longrightarrow> map_of (sl_tick2index sl) tick = Some target"
    using t(1) by (auto simp: target_row_def)
  have forget: "map_of (sl_tick2index (forget_row target sl1)) u =
      (if map_of (sl_index2tick sl) target = Some u then None else map_of (sl_tick2index sl) u)" for u
    by (auto simp: forget_row_def bounds(4,5) map_of_delete split: option.splits)
  have "map_of (sl_tick2index sl') u = Some r \<longleftrightarrow> map_of (sl_index2tick sl') r = Some u" for u r
    using inv [of u r] inv [of u target] inv [of tick r] known by (auto simp: t(2,3) forget)
  moreover have "distinct (map fst (sl_tick2index sl'))"
    using assms(1) by (auto simp: t(2) forget_row_def bounds(4) ring_ok_def distinct_update distinct_delete
        split: option.split)
  moreover have "distinct (map fst (sl_index2tick sl'))"
    using assms(1) by (simp add: t(3) ring_ok_def distinct_update)
  ultimately show ?thesis
    using assms(1) bounds(1-3) by (auto simp: ring_ok_def t(3-5))
qed

lemma ring_rows_distinct:
  assumes "ring_ok sl"
  shows "distinct (map snd (sl_tick2index sl))"
proof -
  have "inj_on snd (set (sl_tick2index sl))"
  proof (rule inj_onI, clarsimp)
    fix u v r
    assume "(u, r) \<in> set (sl_tick2index sl)" "(v, r) \<in> set (sl_tick2index sl)"
    then have "map_of (sl_index2tick sl) r = Some u" "map_of (sl_index2tick sl) r = Some v"
      using assms by (auto simp: ring_ok_def)
    then show "u = v" by simp
  qed
  with assms show ?thesis by (auto simp: ring_ok_def distinct_map)
qed

section \<open>The order of the rows\<close>

definition ring_ordered :: "snapshots \<Rightarrow> bool" where
  "ring_ordered sl \<longleftrightarrow>
     map snd (sl_tick2index sl) =
       (if length (sl_tick2index sl) < sl_max_size sl - 1 then [1..<Suc (sl_cur_index sl)]
        else [Suc (sl_cur_index sl)..<sl_max_size sl] @ [1..<Suc (sl_cur_index sl)])"

lemma snapshot_all_sorted:
  assumes "sorted (map fst L)" "d = fold (\<lambda>(fi, x) d. AList.delete fi d @ [(fi, x)]) L []"
  shows "sorted (map fst d) \<and> distinct (map fst d) \<and> set (map fst d) = set (map fst L)"
  using assms
proof (induction L arbitrary: d rule: rev_induct)
  case Nil
  then show ?case by simp
next
  case (snoc e L)
  obtain t x where e: "e = (t, x)" by (cases e)
  obtain d0 where d0: "d0 = fold (\<lambda>(fi, x) d. AList.delete fi d @ [(fi, x)]) L []" by blast
  have s: "sorted (map fst L)" "\<forall>u\<in>set (map fst L). u \<le> t" using snoc.prems(1) by (auto simp: e sorted_append)
  note IH = snoc.IH [OF s(1) d0]
  have d: "d = AList.delete t d0 @ [(t, x)]" using snoc.prems(2) by (simp add: e d0)
  have keys: "map fst (AList.delete t d0) = filter (\<lambda>u. t \<noteq> u) (map fst d0)"
    by (simp add: delete_keys removeAll_filter_not_eq)
  have "sorted (filter (\<lambda>u. t \<noteq> u) (map fst d0))" "distinct (filter (\<lambda>u. t \<noteq> u) (map fst d0))"
    using IH by (simp_all add: sorted_filter [where f = "\<lambda>x. x", simplified])
  then show ?case using IH s(2) by (auto simp: d keys e sorted_append)
qed

definition lasts :: "nat \<Rightarrow> 'a list \<Rightarrow> 'a list" where
  "lasts n xs = drop (length xs - n) xs"

lemma lasts_all: "length xs \<le> n \<Longrightarrow> lasts n xs = xs"
  by (simp add: lasts_def)

lemma lasts_snoc: "0 < n \<Longrightarrow> lasts n (xs @ [x]) = (if length xs < n then xs else tl (lasts n xs)) @ [x]"
  by (auto simp: lasts_def tl_drop drop_Suc [symmetric] Suc_diff_le)

lemma delete_last:
  assumes "sorted (map fst d)" "distinct (map fst d)" "\<forall>u\<in>set (map fst d). u \<le> t" "t \<in> set (map fst d)"
  shows "d = butlast d @ [(t, snd (last d))]" "AList.delete t d = butlast d"
proof -
  from assms(4) have ne: "d \<noteq> []" by auto
  then obtain ds u x where d: "d = ds @ [(u, x)]" by (metis append_butlast_last_id surj_pair)
  have "u = t"
  proof (rule ccontr)
    assume "u \<noteq> t"
    with assms(4) have "t \<in> set (map fst ds)" by (auto simp: d)
    with assms(1) have "t \<le> u" by (auto simp: d sorted_append)
    with assms(3) \<open>u \<noteq> t\<close> show False by (auto simp: d)
  qed
  then show "d = butlast d @ [(t, snd (last d))]" by (simp add: d)
  have "t \<notin> fst ` set ds" using assms(2) \<open>u = t\<close> by (auto simp: d)
  then have "AList.delete t ds = ds" by (induction ds) auto
  then show "AList.delete t d = butlast d" by (simp add: d \<open>u = t\<close> AList.delete_eq)
qed

text \<open>
  One recording, for a tick that is not below the ticks kept: the kept snapshots are those before, with the
  tick's own replaced and moved to the end, cut to the size of the ring.
\<close>

lemma delete_fresh: "k \<notin> set (map fst d) \<Longrightarrow> AList.delete k d = d"
  by (induction d) auto

lemma update_fresh: "k \<notin> set (map fst d) \<Longrightarrow> AList.update k v d = d @ [(k, v)]"
  by (induction d) auto

lemma kept_other_rows:
  assumes "\<forall>r. row_state b' r = (if r = target then row_state b 0 else row_state b r)"
    and "target \<notin> set (map snd d)"
  shows "map (\<lambda>(tick, r). (tick, row_state b' r)) d = map (\<lambda>(tick, r). (tick, row_state b r)) d"
  using assms by (force intro!: map_cong)

lemma ring_take_known:
  assumes "ring_ok sl" "ring_ordered sl" "sorted (map fst (sl_tick2index sl))"
    and "\<forall>u\<in>set (map fst (sl_tick2index sl)). u \<le> tick" "map_of (sl_tick2index sl) tick = Some target"
    and "target_row tick sl = (target, sl1)"
  shows "AList.update tick target (sl_tick2index (forget_row target sl1)) = sl_tick2index sl"
    "sl_tick2index sl = butlast (sl_tick2index sl) @ [(tick, target)]" "sl1 = sl"
proof -
  let ?d = "sl_tick2index sl"
  show [simp]: "sl1 = sl" using assms(5,6) by (simp add: target_row_def)
  have mem: "tick \<in> set (map fst ?d)" using assms(5) by (metis map_of_eq_None_iff option.distinct(1) set_map)
  have dis: "distinct (map fst ?d)" using assms(1) by (simp add: ring_ok_def)
  note last = delete_last [OF assms(3) dis assms(4) mem]
  have "(tick, snd (last ?d)) \<in> set ?d" by (subst last(1)) simp
  then have "snd (last ?d) = target" using assms(5) dis by simp
  with last show split: "?d = butlast ?d @ [(tick, target)]" by simp
  have "map_of (sl_index2tick sl) target = Some tick" using assms(1,5) by (simp add: ring_ok_def)
  then have "sl_tick2index (forget_row target sl) = butlast ?d" using last(2) by (simp add: forget_row_def)
  moreover have "tick \<notin> set (map fst (butlast ?d))" using dis split by (metis distinct_append map_append
        disjoint_iff list.set_intros(1) list.simps(9) fst_conv)
  ultimately show "AList.update tick target (sl_tick2index (forget_row target sl1)) = ?d"
    using split by (simp add: update_fresh)
qed

lemma ring_shift:
  fixes c :: nat
  assumes "c \<le> N" "0 < N" "target = (if c = N then 1 else Suc c)"
  shows "\<exists>rest. [Suc c..<Suc N] @ [1..<Suc c] = target # rest \<and> rest @ [target] = [Suc target..<Suc N] @ [1..<Suc target]
    \<and> target \<notin> set rest"
proof (cases "c = N")
  case True
  have "[1..<Suc N] = 1 # [2..<Suc N]" using assms(2) by (simp add: upt_conv_Cons numeral_2_eq_2 del: upt_Suc)
  then show ?thesis using True assms(3) by (intro exI [of _ "[2..<Suc N]"]) (simp add: numeral_2_eq_2)
next
  case False
  then have "[Suc c..<Suc N] = Suc c # [Suc (Suc c)..<Suc N]" using assms(1) by (simp add: upt_conv_Cons del: upt_Suc)
  moreover have "[1..<Suc (Suc c)] = [1..<Suc c] @ [Suc c]" by (simp add: upt_Suc_append)
  ultimately show ?thesis using False assms(3)
    by (intro exI [of _ "[Suc (Suc c)..<Suc N] @ [1..<Suc c]"]) (simp del: upt_Suc)
qed

lemma ring_take_new:
  assumes "ring_ok sl" "ring_ordered sl" "map_of (sl_tick2index sl) tick = None"
    and "target_row tick sl = (target, sl1)"
    and "d = (if length (sl_tick2index sl) < sl_max_size sl - 1 then sl_tick2index sl else tl (sl_tick2index sl))"
  shows "AList.update tick target (sl_tick2index (forget_row target sl1)) = d @ [(tick, target)]"
    "target \<notin> set (map snd d)" "sl_cur_index sl1 = target"
    "map snd d @ [target] = (if length d + 1 < sl_max_size sl - 1 then [1..<Suc target]
        else [Suc target..<sl_max_size sl] @ [1..<Suc target])"
proof -
  obtain N where N: "sl_max_size sl = Suc N" "0 < N" using assms(1) by (cases "sl_max_size sl") (auto simp: ring_ok_def)
  obtain c where c: "c = sl_cur_index sl" "c \<le> N" using assms(1) N by (auto simp: ring_ok_def)
  have dis: "distinct (map fst (sl_tick2index sl))"
    and inv: "\<And>u r. map_of (sl_tick2index sl) u = Some r \<longleftrightarrow> map_of (sl_index2tick sl) r = Some u"
    using assms(1) by (auto simp: ring_ok_def)
  have target: "target = (if c = N then 1 else Suc c)" "sl_cur_index sl1 = target"
      "sl_tick2index sl1 = sl_tick2index sl" "sl_index2tick sl1 = sl_index2tick sl"
    using assms(3,4) c(2) by (auto simp: target_row_def Let_def N c(1))
  show "sl_cur_index sl1 = target" by (rule target(2))
  have main: "sl_tick2index (forget_row target sl1) = d \<and> target \<notin> set (map snd d) \<and>
     map snd d @ [target] = (if length d + 1 < N then [1..<Suc target] else [Suc target..<Suc N] @ [1..<Suc target])"
  proof (cases "length (sl_tick2index sl) < N")
    case True
    then have rows: "map snd (sl_tick2index sl) = [1..<Suc c]" and d: "d = sl_tick2index sl"
      using assms(2,5) N c by (simp_all add: ring_ordered_def del: upt_Suc)
    then have len: "length d = c" by (metis diff_Suc_1 length_map length_upt)
    with True d target(1) have t: "target = Suc c" by simp
    have "map_of (sl_index2tick sl) target = None"
    proof (rule ccontr)
      assume "map_of (sl_index2tick sl) target \<noteq> None"
      then obtain u where "map_of (sl_tick2index sl) u = Some target" using inv by blast
      then have "target \<in> set (map snd (sl_tick2index sl))" by (force dest: map_of_SomeD)
      then show False unfolding rows by (simp add: t)
    qed
    then show ?thesis using rows len True d t by (simp add: forget_row_def target(3,4))
  next
    case False
    then have rows: "map snd (sl_tick2index sl) = [Suc c..<Suc N] @ [1..<Suc c]" and d: "d = tl (sl_tick2index sl)"
      using assms(2,5) N c by (simp_all add: ring_ordered_def del: upt_Suc)
    have split: "map snd (sl_tick2index sl) = target # map snd d"
      "map snd d @ [target] = [Suc target..<Suc N] @ [1..<Suc target]" "target \<notin> set (map snd d)"
    proof -
      obtain rest where rest: "map snd (sl_tick2index sl) = target # rest"
        "rest @ [target] = [Suc target..<Suc N] @ [1..<Suc target]" "target \<notin> set rest"
        using ring_shift [OF c(2) N(2) target(1)] unfolding rows by blast
      then have "rest = map snd d" by (simp add: d map_tl)
      with rest show "map snd (sl_tick2index sl) = target # map snd d"
        "map snd d @ [target] = [Suc target..<Suc N] @ [1..<Suc target]" "target \<notin> set (map snd d)" by simp_all
    qed
    then obtain u where cons: "sl_tick2index sl = (u, target) # d" using d by (cases "sl_tick2index sl") auto
    have "map_of (sl_index2tick sl) target = Some u" using inv [of u target] cons by simp
    then have "sl_tick2index (forget_row target sl1) = AList.delete u (sl_tick2index sl)"
      by (simp add: forget_row_def target(3,4))
    also have "\<dots> = d" using dis by (simp add: cons delete_fresh)
    finally have "sl_tick2index (forget_row target sl1) = d" .
    moreover have "\<not> length d + 1 < N" using False cons by simp
    ultimately show ?thesis using split(2,3) by simp
  qed
  have "set d \<subseteq> set (sl_tick2index sl)" by (cases "sl_tick2index sl") (auto simp: assms(5))
  then have "tick \<notin> set (map fst d)" using assms(3) by (auto simp: map_of_eq_None_iff)
  with main show "AList.update tick target (sl_tick2index (forget_row target sl1)) = d @ [(tick, target)]"
    by (simp add: update_fresh)
  from main show "target \<notin> set (map snd d)" by blast
  from main show "map snd d @ [target] = (if length d + 1 < sl_max_size sl - 1 then [1..<Suc target]
        else [Suc target..<sl_max_size sl] @ [1..<Suc target])"
    unfolding N(1) diff_Suc_1 by blast
qed

lemma take_refines:
  assumes ok: "ring_ok sl" and ord: "ring_ordered sl" and sorted: "sorted (map fst (sl_tick2index sl))"
    and le: "\<forall>u\<in>set (map fst (sl_tick2index sl)). u \<le> tick"
    and take: "np_take_snapshot tick sl b = Inr (sl', b')"
  shows "ring_ordered sl' \<and>
    kept sl' b' = lasts (sl_max_size sl - 1) (AList.delete tick (kept sl b) @ [(tick, row_state b 0)])"
proof -
  from take_snapshot_exact [OF take] obtain target sl1 where
    t: "target_row tick sl = (target, sl1)"
      "sl_tick2index sl' = AList.update tick target (sl_tick2index (forget_row target sl1))"
      "sl_cur_index sl' = sl_cur_index sl1" "sl_max_size sl' = sl_max_size sl"
      "b' = b\<lparr>nb_node_data := map (\<lambda>(t, arr). (t, arr\<lparr>na_rows := (na_rows arr)[target := na_rows arr ! 0]\<rparr>)) (nb_node_data b)\<rparr>"
      "\<forall>(t, arr)\<in>set (nb_node_data b). target < length (na_rows arr)" by blast
  note rows = row_state_copy [OF t(6,5)]
  obtain d where d: "d = sl_tick2index sl" by blast
  obtain g where g: "g = (\<lambda>(tick, r). (tick :: int, row_state b r))" by blast
  have dis: "distinct (map fst d)" using ok by (simp add: d ring_ok_def)
  have pos: "0 < sl_max_size sl - 1" using ok by (simp add: ring_ok_def)
  have kept: "kept sl b = map g d" and fst: "map fst (map g e) = map fst e" for e
    by (simp_all add: kept_def d g comp_def case_prod_beta)
  have new: "kept sl' b' = map g e @ [(tick, row_state b 0)]"
    if "sl_tick2index sl' = e @ [(tick, target)]" "target \<notin> set (map snd e)" for e
    using that kept_other_rows [of b' target b e] rows by (simp add: kept_def g)
  have len: "length d \<le> sl_max_size sl - 1"
  proof -
    have "length d = length (map snd d)" by simp
    also have "\<dots> \<le> sl_max_size sl - 1"
      using ord ok by (auto simp: ring_ordered_def d ring_ok_def simp del: length_map)
    finally show ?thesis .
  qed
  show ?thesis
  proof (cases "map_of d tick")
    case (Some r)
    then have "r = target" using t(1) by (simp add: target_row_def d)
    note known = ring_take_known [OF ok ord sorted le Some [unfolded d this] t(1), folded d]
    have e: "sl_tick2index sl' = butlast d @ [(tick, target)]" using t(2) known(1,2) by simp
    have "target \<notin> set (map snd (butlast d))"
      using ring_rows_distinct [OF ok, folded d] by (subst (asm) known(2)) auto
    note kept' = new [OF e this]
    have mem: "tick \<in> set (map fst d)" using Some by (metis map_of_eq_None_iff option.distinct(1) set_map)
    have delete: "AList.delete tick (map g d) = butlast (map g d)"
      by (rule delete_last(2)) (use sorted le mem dis in \<open>simp_all only: fst d\<close>)
    have "kept sl' b' = lasts (sl_max_size sl - 1) (AList.delete tick (kept sl b) @ [(tick, row_state b 0)])"
    proof -
      have "length (butlast (map g d) @ [(tick, row_state b 0)]) = length d" using mem by (cases d) auto
      then have "lasts (sl_max_size sl - 1) (butlast (map g d) @ [(tick, row_state b 0)]) =
          butlast (map g d) @ [(tick, row_state b 0)]"
        using len by (intro lasts_all) simp
      with delete show ?thesis by (simp add: kept kept' map_butlast)
    qed
    moreover have "ring_ordered sl'"
    proof -
      have "sl_tick2index sl' = sl_tick2index sl" "sl_cur_index sl' = sl_cur_index sl"
        using t(2,3) known(1,3) by (simp_all add: d)
      with ord t(4) show ?thesis by (simp only: ring_ordered_def)
    qed
    ultimately show ?thesis by simp
  next
    case None
    obtain e where e: "e = (if length d < sl_max_size sl - 1 then d else tl d)" by blast
    note new' = ring_take_new [OF ok ord None [unfolded d] t(1) e [unfolded d]]
    have kept': "kept sl' b' = map g e @ [(tick, row_state b 0)]"
      by (rule new) (use new'(1,2) t(2) in simp_all)
    have "tick \<notin> set (map fst (map g d))" using None by (simp only: fst) (simp add: map_of_eq_None_iff)
    then have "AList.delete tick (kept sl b) = map g d" unfolding kept by (rule delete_fresh)
    then have "kept sl' b' = lasts (sl_max_size sl - 1) (AList.delete tick (kept sl b) @ [(tick, row_state b 0)])"
      using lasts_snoc [OF pos, of "map g d" "(tick, row_state b 0)"] len by (simp add: kept' e lasts_all map_tl)
    moreover have "ring_ordered sl'"
      using new'(3,4) by (simp add: ring_ordered_def t(2-4) new'(1) del: upt_Suc)
    ultimately show ?thesis by simp
  qed
qed

section \<open>The abstract dictionary\<close>

lemma snapshot_dict_lasts:
  "snapshot_dict n L = lasts n (fold (\<lambda>(fi, x) d. AList.delete fi d @ [(fi, x)]) L [])"
  by (simp add: snapshot_dict_def lasts_def Let_def)

lemma map_lasts: "map f (lasts n xs) = lasts n (map f xs)"
  by (simp add: lasts_def drop_map)

lemma set_lasts: "set (lasts n xs) \<subseteq> set xs"
  by (simp add: lasts_def set_drop_subset)

lemma length_lasts [simp]: "length (lasts n xs) = min n (length xs)"
  by (auto simp: lasts_def)

lemma snapshot_dict_keys:
  assumes "sorted (map fst L)"
  shows "sorted (map fst (snapshot_dict n L))" "distinct (map fst (snapshot_dict n L))"
    "set (map fst (snapshot_dict n L)) \<subseteq> set (map fst L)"
proof -
  obtain d where d: "d = fold (\<lambda>(fi, x) d. AList.delete fi d @ [(fi, x)]) L []" by blast
  have keys: "map fst (snapshot_dict n L) = lasts n (map fst d)" by (simp add: snapshot_dict_lasts map_lasts d)
  note s = snapshot_all_sorted [OF assms d]
  show "sorted (map fst (snapshot_dict n L))" "distinct (map fst (snapshot_dict n L))"
    unfolding keys lasts_def using s by (simp_all only: sorted_wrt_drop distinct_drop)
  show "set (map fst (snapshot_dict n L)) \<subseteq> set (map fst L)" 
    unfolding keys s [THEN conjunct2, THEN conjunct2, symmetric] by (rule set_lasts)
qed

text \<open>For ticks in order, cutting at every step or once at the end is the same.\<close>

lemma snapshot_dict_snoc:
  assumes "sorted (map fst (L @ [(t, x)]))" "0 < n"
  shows "snapshot_dict n (L @ [(t, x)]) = lasts n (AList.delete t (snapshot_dict n L) @ [(t, x)])"
proof -
  obtain d where d: "d = fold (\<lambda>(fi, x) d. AList.delete fi d @ [(fi, x)]) L []" by blast
  have L: "sorted (map fst L)" "\<forall>u\<in>set (map fst L). u \<le> t" using assms(1) by (auto simp: sorted_append)
  have s: "sorted (map fst d)" "distinct (map fst d)" "\<forall>u\<in>set (map fst d). u \<le> t"
    using snapshot_all_sorted [OF L(1) d] L(2) by (simp_all del: set_map)
  have eq: "snapshot_dict n (L @ [(t, x)]) = lasts n (AList.delete t d @ [(t, x)])" "snapshot_dict n L = lasts n d"
    by (simp_all add: snapshot_dict_lasts d)
  show ?thesis
  proof (cases "t \<in> set (map fst d)")
    case False
    then have "t \<notin> set (map fst (lasts n d))" using set_lasts [of n "map fst d"] by (auto simp: map_lasts)
    then have "AList.delete t (lasts n d) = lasts n d" "AList.delete t d = d" using False by (simp_all add: delete_fresh)
    then show ?thesis using lasts_snoc [OF assms(2), of d] lasts_snoc [OF assms(2), of "lasts n d"]
      by (simp add: eq lasts_all)
  next
    case True
    then obtain e v where e: "d = e @ [(t, v)]" by (metis delete_last(1) [OF s(1,2,3)])
    have del: "AList.delete t d = e" using delete_last(2) [OF s True] by (simp add: e)
    have l: "lasts n d = drop (length d - n) e @ [(t, v)]" using assms(2) by (simp add: lasts_def e)
    have "t \<notin> set (map fst e)" using s(2) by (simp add: e)
    then have "t \<notin> set (map fst (drop (length d - n) e))" by (auto dest: in_set_dropD)
    then have "AList.delete t (lasts n d) = drop (length d - n) e"
      unfolding l by (simp add: AList.delete_eq) (simp add: AList.delete_eq [symmetric] delete_fresh)
    moreover have "length (drop (length d - n) e @ [(t, x)]) \<le> n" using assms(2) by (simp add: e)
    ultimately show ?thesis using assms(2) by (simp add: eq del lasts_all) (simp add: lasts_def e)
  qed
qed

end
