(* ===== verification/FrameRuns.thy ===== *)
theory FrameRuns imports FrameProps FrameRing begin

text \<open>
  Runs of a frame: built from its declaration, then written through the attributes of its node instances,
  reset, recorded and queried in any order.  Every run keeps the frame well typed, and its snapshots are
  those of the log of the recordings.
\<close>

section \<open>The state of a frame\<close>

definition accessor_ok :: "backend \<Rightarrow> accessor \<Rightarrow> bool" where
  "accessor_ok b a \<longleftrightarrow>
     ac_attr_type a < length (nb_attrs_list b)
     \<and> ac_node_index a < ni_number (nb_nodes_list b ! ai_node_type (nb_attrs_list b ! ac_attr_type a))
     \<and> (\<not> ac_is_list a \<longrightarrow> ac_slot_number a = ai_slot_number (nb_attrs_list b ! ac_attr_type a))"

definition entry_ok :: "backend \<Rightarrow> node_entry \<Rightarrow> bool" where
  "entry_ok b e = (case e of Accessor a \<Rightarrow> accessor_ok b a | Plain v \<Rightarrow> True)"

definition node_ok :: "backend \<Rightarrow> node_obj \<Rightarrow> bool" where
  "node_ok b node \<longleftrightarrow> \<not> nd_is_deleted node \<and> (\<forall>(name, e)\<in>set (nd_dict node). entry_ok b e)"

definition instances_ok :: "backend \<Rightarrow> (string \<times> node_obj list) list \<Rightarrow> bool" where
  "instances_ok b nodes \<longleftrightarrow> (\<forall>(name, insts)\<in>set nodes. list_all (node_ok b) insts)"

definition frame_ok :: "nat \<Rightarrow> frame \<Rightarrow> bool" where
  "frame_ok rows f \<longleftrightarrow>
     0 < rows \<and> backend_ok rows (fm_backend f) \<and> instances_ok (fm_backend f) (fm_nodes f)"

text \<open>A backend extends another one when it has registered more.\<close>

definition extends :: "backend \<Rightarrow> backend \<Rightarrow> bool" where
  "extends b b' \<longleftrightarrow> (\<exists>ns as. nb_nodes_list b' = nb_nodes_list b @ ns \<and> nb_attrs_list b' = nb_attrs_list b @ as)"

lemma extends_refl [simp]: "extends b b"
  by (auto simp: extends_def)

lemma extends_trans: "extends b b' \<Longrightarrow> extends b' b'' \<Longrightarrow> extends b b''"
  by (auto simp: extends_def)

lemma accessor_ok_extends:
  assumes "registry_ok b" "extends b b'" "accessor_ok b a"
  shows "accessor_ok b' a"
proof -
  have "ac_attr_type a < length (nb_attrs_list b)" using assms(3) by (simp add: accessor_ok_def)
  moreover from registered_attr(1) [OF assms(1) this]
  have "ai_node_type (nb_attrs_list b ! ac_attr_type a) < length (nb_nodes_list b)" .
  ultimately show ?thesis using assms(2,3) by (auto simp: accessor_ok_def extends_def nth_append)
qed

lemma instances_ok_extends: "registry_ok b \<Longrightarrow> extends b b' \<Longrightarrow> instances_ok b nodes \<Longrightarrow> instances_ok b' nodes"
  by (fastforce simp: instances_ok_def node_ok_def entry_ok_def list_all_iff split: node_entry.splits
      dest: accessor_ok_extends)

section \<open>Registration\<close>

lemma add_node_ok:
  assumes "registry_ok b" "add_node name n b = (t, b')"
  shows "registry_ok b'" "extends b b'" "t < length (nb_nodes_list b')" "ni_number (nb_nodes_list b' ! t) = n"
    "nb_node_data b' = nb_node_data b"
proof -
  have eq: "t = length (nb_nodes_list b)" "nb_nodes_list b' = nb_nodes_list b @ [\<lparr>ni_name = name, ni_type = t, ni_number = n\<rparr>]"
    "nb_attrs_list b' = nb_attrs_list b" "nb_node_attrs b' = AList.update t [] (nb_node_attrs b)"
    using assms(2) by (auto simp: add_node_def Let_def)
  show "nb_node_data b' = nb_node_data b" using assms(2) by (auto simp: add_node_def Let_def)
  have "filter (\<lambda>a. ai_node_type a = t) (nb_attrs_list b) = []"
    using assms(1) by (auto simp: registry_ok_def eq(1) filter_empty_conv list_all_iff)
  moreover have "AList.update t [] (nb_node_attrs b) = nb_node_attrs b @ [(t, [])]"
    using assms(1) by (intro update_fresh) (auto simp: registry_ok_def eq(1))
  ultimately show "registry_ok b'"
    using assms(1) by (auto simp: registry_ok_def eq(2-4) attrs_of_def eq(1) list_all_iff)
  show "extends b b'" "t < length (nb_nodes_list b')" "ni_number (nb_nodes_list b' ! t) = n"
    by (simp_all add: extends_def eq)
qed

lemma update_enumerated:
  assumes "t < n"
  shows "AList.update t x (map (\<lambda>u. (u, f u)) [0..<n]) = map (\<lambda>u. (u, if u = t then x else f u)) [0..<n]"
proof -
  have "AList.update t x (map (\<lambda>u. (u, f u)) us) = map (\<lambda>u. (u, if u = t then x else f u)) us"
    if "distinct us" "t \<in> set us" for us
    using that by (induction us) auto
  with assms show ?thesis by simp
qed

lemma add_attr_ok:
  assumes "registry_ok b" "add_attr t name d k b = Inr (j, b')"
  shows "registry_ok b'" "extends b b'" "j < length (nb_attrs_list b')"
    "ai_slot_number (nb_attrs_list b' ! j) = k" "ai_node_type (nb_attrs_list b' ! j) = t" "nb_node_data b' = nb_node_data b"
proof -
  obtain a where a: "a = \<lparr>ai_name = name, ai_dtype = d, ai_type = length (nb_attrs_list b), ai_node_type = t, ai_slot_number = k\<rparr>"
    by blast
  have t: "t < length (nb_nodes_list b)"
    using assms(2) by (auto simp: add_attr_def split: if_splits)
  have "ni_type (nb_nodes_list b ! t) = map ni_type (nb_nodes_list b) ! t" using t by simp
  also have "\<dots> = t" using assms(1) t by (simp add: registry_ok_def)
  finally have ni: "ni_type (nb_nodes_list b ! t) = t" .
  have "dict_get (nb_node_attrs b) t = Inr (attrs_of b t)"
    using assms(1) t by (simp add: registry_ok_def dict_get_def map_of_upt)
  then have eq: "j = length (nb_attrs_list b)" "nb_attrs_list b' = nb_attrs_list b @ [a]"
    "nb_nodes_list b' = nb_nodes_list b" "nb_node_attrs b' = AList.update t (attrs_of b t @ [a]) (nb_node_attrs b)"
    "nb_node_data b' = nb_node_data b"
    using assms(2) t ni by (auto simp: add_attr_def a res_simps Let_def)
  have "nb_node_attrs b' = map (\<lambda>u. (u, attrs_of b' u)) [0..<length (nb_nodes_list b')]"
    using assms(1) t by (auto simp: registry_ok_def eq(2-4) update_enumerated attrs_of_def a)
  then show "registry_ok b'" using assms(1) t by (simp add: registry_ok_def eq(1-3) a)
  show "extends b b'" "j < length (nb_attrs_list b')" "ai_slot_number (nb_attrs_list b' ! j) = k"
    "ai_node_type (nb_attrs_list b' ! j) = t" "nb_node_data b' = nb_node_data b"
    by (simp_all add: extends_def eq a)
qed

text \<open>What registering the attributes of a node class leaves: each name is bound to its attribute.\<close>

definition types_ok :: "nat \<Rightarrow> (string \<times> node_attribute) list \<Rightarrow> backend \<Rightarrow> (string \<times> nat) list \<Rightarrow> bool" where
  "types_ok t attrs b types \<longleftrightarrow>
     (\<forall>(name, attr)\<in>set attrs. \<exists>j. map_of types name = Some j \<and> j < length (nb_attrs_list b)
        \<and> ai_node_type (nb_attrs_list b ! j) = t \<and> ai_slot_number (nb_attrs_list b ! j) = at_slot_number attr)"

lemma types_ok_extends:
  assumes "types_ok t attrs b types" "extends b b'" "name \<notin> set (map fst attrs)"
  shows "types_ok t attrs b' (AList.update name j types)"
  unfolding types_ok_def
proof (clarify)
  fix m attr
  assume m: "(m, attr) \<in> set attrs"
  with assms(1) obtain k where k: "map_of types m = Some k" "k < length (nb_attrs_list b)"
      "ai_node_type (nb_attrs_list b ! k) = t" "ai_slot_number (nb_attrs_list b ! k) = at_slot_number attr"
    unfolding types_ok_def by blast
  have "m \<noteq> name" using m assms(3) by force
  with k assms(2) show "\<exists>k. map_of (AList.update name j types) m = Some k \<and> k < length (nb_attrs_list b')
      \<and> ai_node_type (nb_attrs_list b' ! k) = t \<and> ai_slot_number (nb_attrs_list b' ! k) = at_slot_number attr"
    by (auto simp: extends_def nth_append intro!: exI [of _ k])
qed

lemma register_attributes_loop:
  assumes "foldE (\<lambda>(name, attr) (types, b).
       bindE (add_attr t name (at_dtype attr) (at_slot_number attr) b) (\<lambda>(attr_type, b).
         Inr (AList.update name attr_type types, b))) attrs (types, b) = Inr (types', b')"
    and "registry_ok b" "types_ok t seen b types" "distinct (map fst (seen @ attrs))"
  shows "registry_ok b' \<and> extends b b' \<and> types_ok t (seen @ attrs) b' types' \<and> nb_node_data b' = nb_node_data b"
  using assms
proof (induction attrs arbitrary: types b seen)
  case Nil
  then show ?case by simp
next
  case (Cons x attrs)
  obtain name attr where x: "x = (name, attr)" by (cases x)
  from Cons.prems(1) obtain j b1 where
    step: "add_attr t name (at_dtype attr) (at_slot_number attr) b = Inr (j, b1)"
    and rest: "foldE (\<lambda>(name, attr) (types, b).
       bindE (add_attr t name (at_dtype attr) (at_slot_number attr) b) (\<lambda>(attr_type, b).
         Inr (AList.update name attr_type types, b))) attrs (AList.update name j types, b1) = Inr (types', b')"
    by (auto simp: x res_simps)
  note a = add_attr_ok [OF Cons.prems(2) step]
  have "types_ok t (seen @ [x]) b1 (AList.update name j types)"
    using types_ok_extends [OF Cons.prems(3) a(2), of name j] Cons.prems(4) a(3-5)
    by (auto simp: x types_ok_def)
  from Cons.IH [OF rest a(1) this] Cons.prems(4) a(2,6) show ?case by (auto intro: extends_trans)
qed

lemma register_attributes_ok:
  assumes "register_attributes t cls b = Inr (types, b')" "registry_ok b" "distinct (map fst (nc_attributes cls))"
  shows "registry_ok b'" "extends b b'" "types_ok t (nc_attributes cls) b' types" "nb_node_data b' = nb_node_data b"
  using register_attributes_loop [OF assms(1) [unfolded register_attributes_def] assms(2), of "[]"] assms(3)
  by (auto simp: types_ok_def)

lemma node_setup_ok:
  assumes "node_setup cls i t types = Inr node" "types_ok t (nc_attributes cls) b types" "i < ni_number (nb_nodes_list b ! t)"
  shows "node_ok b node"
proof -
  from assms(1) obtain d where d: "bind_attributes cls i types = Inr d" "nd_dict node = d" "\<not> nd_is_deleted node"
    by (auto simp: node_setup_def res_simps)
  have "\<forall>(name, e)\<in>set d. entry_ok b e"
  proof (rule foldE_invariant [OF d(1) [unfolded bind_attributes_def]])
    show "\<forall>(name, e)\<in>set []. entry_ok b e" by simp
  next
    fix x d d'
    assume x: "x \<in> set (nc_attributes cls)" and d: "\<forall>(name, e)\<in>set d. entry_ok b e"
      and step: "(case x of (name, attr) \<Rightarrow> \<lambda>d. bindE (dict_get types name) (\<lambda>attr_type.
         Inr (AList.update name (Accessor (new_accessor attr attr_type i (name \<in> set (nc_callbacks cls)))) d))) d = Inr d'"
    obtain name attr where xx: "x = (name, attr)" by (cases x)
    from assms(2) x obtain j where j: "map_of types name = Some j" "j < length (nb_attrs_list b)"
        "ai_node_type (nb_attrs_list b ! j) = t" "ai_slot_number (nb_attrs_list b ! j) = at_slot_number attr"
      by (fastforce simp: types_ok_def xx)
    then have d': "d' = AList.update name (Accessor (new_accessor attr j i (name \<in> set (nc_callbacks cls)))) d"
      using step by (simp add: xx dict_get_def)
    have "entry_ok b (Accessor (new_accessor attr j i (name \<in> set (nc_callbacks cls))))"
      using j assms(3) by (simp add: entry_ok_def accessor_ok_def new_accessor_def)
    moreover have "set (AList.update name v d) \<subseteq> insert (name, v) (set d)" for v
      by (induction d) auto
    ultimately show "\<forall>(name, e)\<in>set d'. entry_ok b e" using d by (fastforce simp: d')
  qed
  with d(2,3) show ?thesis by (simp add: node_ok_def)
qed

definition built_ok :: "frame \<Rightarrow> bool" where
  "built_ok f \<longleftrightarrow>
     registry_ok (fm_backend f) \<and> nb_node_data (fm_backend f) = [] \<and> instances_ok (fm_backend f) (fm_nodes f)"

lemma instances_ok_update:
  "instances_ok b nodes \<Longrightarrow> list_all (node_ok b) insts \<Longrightarrow> instances_ok b (AList.update name insts nodes)"
  by (induction nodes) (auto simp: instances_ok_def)

lemma register_node_ok:
  assumes "register_node (name, fn) f = Inr f'" "built_ok f" "distinct (map fst (nc_attributes (fn_node_cls fn)))"
  shows "built_ok f'"
proof -
  obtain t b1 where t: "add_node (nc_name (fn_node_cls fn)) (fn_number fn) (fm_backend f) = (t, b1)"
    by (cases "add_node (nc_name (fn_node_cls fn)) (fn_number fn) (fm_backend f)")
  with assms(1) obtain types b2 insts where
    r: "register_attributes t (fn_node_cls fn) b1 = Inr (types, b2)"
      "mapE (\<lambda>i. node_setup (fn_node_cls fn) i t types) [0..<fn_number fn] = Inr insts"
      "fm_backend f' = b2" "fm_nodes f' = AList.update name insts (fm_nodes f)"
    by (auto simp: register_node_def Let_def res_simps)
  have old: "registry_ok (fm_backend f)" "nb_node_data (fm_backend f) = []" "instances_ok (fm_backend f) (fm_nodes f)"
    using assms(2) by (simp_all add: built_ok_def)
  note n = add_node_ok [OF old(1) t]
  note a = register_attributes_ok [OF r(1) n(1) assms(3)]
  have "ni_number (nb_nodes_list b2 ! t) = fn_number fn" using a(2) n(3,4) by (auto simp: extends_def nth_append)
  then have "list_all (node_ok b2) insts"
    using mapE_nth [OF r(2)] mapE_length [OF r(2)] by (auto simp: list_all_length intro!: node_setup_ok [OF _ a(3)])
  moreover have "instances_ok b2 (fm_nodes f)"
    using instances_ok_extends [OF old(1) extends_trans [OF n(2) a(2)] old(3)] .
  ultimately show ?thesis using a(1,4) n(5) old(2) by (simp add: built_ok_def r(3,4) instances_ok_update)
qed

lemma dtype_names: "map fst (map gen_numpy_dtype as) = map ai_name as"
  by (simp add: gen_numpy_dtype_def)

lemma alloc_loop:
  assumes "foldE (alloc_node rows) xs b = Inr b'"
    and "distinct (map fst xs)" "set (map fst xs) \<inter> set (map fst (nb_node_data b)) = {}"
  shows "nb_nodes_list b' = nb_nodes_list b \<and> nb_attrs_list b' = nb_attrs_list b \<and> nb_node_attrs b' = nb_node_attrs b
    \<and> nb_node_data b' = nb_node_data b @ map (\<lambda>(t, as). (t, np_zeros rows (ni_number (nb_nodes_list b ! t)) (map gen_numpy_dtype as))) xs
    \<and> (\<forall>(t, as)\<in>set xs. distinct (map ai_name as))"
  using assms
proof (induction xs arbitrary: b)
  case Nil
  then show ?case by simp
next
  case (Cons x xs)
  obtain t as where x: "x = (t, as)" by (cases x)
  obtain new where new: "new = np_zeros rows (ni_number (nb_nodes_list b ! t)) (map gen_numpy_dtype as)" by blast
  from Cons.prems(1) obtain b1 where b1: "b1 = b\<lparr>nb_node_data := AList.update t new (nb_node_data b)\<rparr>"
      "distinct (map fst (map gen_numpy_dtype as))" "foldE (alloc_node rows) xs b1 = Inr b'"
    by (auto simp: x alloc_node_def new Let_def res_simps split: if_splits)
  have "AList.update t new (nb_node_data b) = nb_node_data b @ [(t, new)]"
    by (rule update_fresh) (use Cons.prems(3) in \<open>auto simp: x\<close>)
  then have data: "nb_node_data b1 = nb_node_data b @ [(t, new)]" by (simp add: b1(1))
  have names: "distinct (map ai_name as)" using b1(2) by (simp only: dtype_names)
  have "set (map fst xs) \<inter> set (map fst (nb_node_data b1)) = {}"
    using Cons.prems(2,3) by (auto simp: data x)
  from Cons.IH [OF b1(3) _ this] Cons.prems(2) names show ?case
    by (simp add: data x new [symmetric]) (simp add: b1(1) new)
qed

definition members_ok :: "(string \<times> frame_node) list \<Rightarrow> bool" where
  "members_ok members \<longleftrightarrow> (\<forall>(name, fn)\<in>set members. distinct (map fst (nc_attributes (fn_node_cls fn))))"

lemma frame_init_ok:
  assumes "frame_init members enable size0 = Inr f" "members_ok members"
  shows "frame_ok (if enable then nat size0 + 1 else 1) f"
    "fm_snapshots f = (if enable then Some (new_snapshots (fm_backend f) (nat size0 + 1)) else None)"
proof -
  from assms(1) obtain f1 b sl where i: "foldE register_node members blank_frame = Inr f1"
      "setup_backend enable size0 (fm_backend f1) = Inr (b, sl)" "f = f1\<lparr>fm_backend := b, fm_snapshots := sl\<rparr>"
    by (auto simp: frame_init_def res_simps)
  have "built_ok f1"
  proof (rule foldE_invariant [OF i(1)])
    show "built_ok blank_frame"
      by (simp add: built_ok_def blank_frame_def new_backend_def registry_ok_def instances_ok_def)
  qed (use assms(2) in \<open>auto simp: members_ok_def intro: register_node_ok\<close>)
  then have f1: "registry_ok (fm_backend f1)" "nb_node_data (fm_backend f1) = []" "instances_ok (fm_backend f1) (fm_nodes f1)"
    by (simp_all add: built_ok_def)
  obtain rows where rows: "rows = (if enable then nat size0 + 1 else 1)" by blast
  from i(2) obtain b0 where b0: "b0 = fm_backend f1\<lparr>nb_snapshot_enabled := enable\<rparr>"
      "foldE (alloc_node rows) (nb_node_attrs (fm_backend f1)) b0 = Inr b"
      "sl = (if enable then Some (new_snapshots b (nat size0 + 1)) else None)"
    by (auto simp: setup_backend_def c_unsigned_def res_simps rows split: if_splits)
  show "fm_snapshots f = (if enable then Some (new_snapshots (fm_backend f) (nat size0 + 1)) else None)"
    by (simp add: i(3) b0(3))
  have attrs: "nb_node_attrs (fm_backend f1) = map (\<lambda>t. (t, attrs_of (fm_backend f1) t)) [0..<length (nb_nodes_list (fm_backend f1))]"
    using f1(1) by (simp add: registry_ok_def)
  have "distinct (map fst (nb_node_attrs (fm_backend f1)))" by (simp add: attrs comp_def)
  from alloc_loop [OF b0(2) this] f1(2) have b: "nb_nodes_list b = nb_nodes_list (fm_backend f1)"
      "nb_attrs_list b = nb_attrs_list (fm_backend f1)" "nb_node_attrs b = nb_node_attrs (fm_backend f1)"
      "nb_node_data b = map (\<lambda>t. (t, np_zeros rows (ni_number (nb_nodes_list b ! t)) (map gen_numpy_dtype (attrs_of b t))))
         [0..<length (nb_nodes_list b)]"
      "\<And>t. t < length (nb_nodes_list b) \<Longrightarrow> distinct (map ai_name (attrs_of b t))"
    by (auto simp: b0(1) attrs attrs_of_def)
  have "registry_ok b" using f1(1) by (simp add: registry_ok_def b(1-3) attrs_of_def)
  moreover have "array_ok rows (ni_number (nb_nodes_list b ! t))
      (np_zeros rows (ni_number (nb_nodes_list b ! t)) (map gen_numpy_dtype (attrs_of b t)))"
    if "t < length (nb_nodes_list b)" for t
    using b(5) [OF that] by (intro array_ok_zeros) (simp only: dtype_names)
  ultimately have "backend_ok rows b" by (auto simp: backend_ok_def b(4) np_zeros_def comp_def)
  moreover have "instances_ok b (fm_nodes f1)"
    using instances_ok_extends [OF f1(1) _ f1(3)] by (auto simp: extends_def b(1,2))
  ultimately show "frame_ok (if enable then nat size0 + 1 else 1) f"
    using rows by (auto simp: frame_ok_def i(3))
qed

section \<open>What the operations keep\<close>

text \<open>An operation on the frame: the registry and the rows of the snapshots stay as they are.\<close>

definition keeps_shape :: "nat \<Rightarrow> backend \<Rightarrow> backend \<Rightarrow> bool" where
  "keeps_shape rows b b' \<longleftrightarrow>
     backend_ok rows b' \<and> nb_nodes_list b' = nb_nodes_list b \<and> nb_attrs_list b' = nb_attrs_list b"

lemma instances_ok_shape:
  assumes "keeps_shape rows b b'"
  shows "instances_ok b' = instances_ok b"
proof -
  have "accessor_ok b' = accessor_ok b" using assms by (simp add: keeps_shape_def accessor_ok_def fun_eq_iff)
  then have "entry_ok b' = entry_ok b" by (simp add: entry_ok_def fun_eq_iff split: node_entry.split)
  then have "node_ok b' x = node_ok b x" for x by (simp add: node_ok_def)
  then have "node_ok b' = node_ok b" by (rule ext)
  then show ?thesis by (intro ext) (simp only: instances_ok_def)
qed

lemma frame_ok_shape: "frame_ok rows f \<Longrightarrow> keeps_shape rows (fm_backend f) b \<Longrightarrow> frame_ok rows (f\<lparr>fm_backend := b\<rparr>)"
  by (simp add: frame_ok_def instances_ok_shape) (simp add: keeps_shape_def)

lemma data_map_keeps:
  assumes "backend_ok rows b"
    and "\<And>t arr. (t, arr) \<in> set (nb_node_data b) \<Longrightarrow>
      na_dtype (g t arr) = na_dtype arr \<and> (\<forall>n. array_ok rows n arr \<longrightarrow> array_ok rows n (g t arr))"
  shows "keeps_shape rows b (b\<lparr>nb_node_data := map (\<lambda>(t, arr). (t, g t arr)) (nb_node_data b)\<rparr>)"
proof -
  have keys: "map fst (map (\<lambda>(t, arr). (t, g t arr)) d) = map fst d" for d
    by (induction d) auto
  have "registry_ok (b\<lparr>nb_node_data := d\<rparr>) = registry_ok b" "attrs_of (b\<lparr>nb_node_data := d\<rparr>) t = attrs_of b t" for d t
    by (simp_all add: registry_ok_def attrs_of_def)
  with assms show ?thesis unfolding keeps_shape_def backend_ok_def by (auto simp: keys simp del: map_map)
qed

lemma row_state_put: "1 \<le> r \<Longrightarrow> row_state (put_slots a i s b) r = row_state b r"
proof -
  assume r: "1 \<le> r"
  have "map (\<lambda>(t, arr). (t, na_rows arr ! r)) (AList.map_entry k (\<lambda>arr. arr\<lparr>na_rows := (na_rows arr)[0 := F arr]\<rparr>) d) =
      map (\<lambda>(t, arr). (t, na_rows arr ! r)) d" for k F and d :: "(nat \<times> node_array) list"
    using r by (induction d) auto
  then show ?thesis by (simp add: row_state_def put_slots_def)
qed

lemma put_slots_keeps:
  assumes "backend_ok rows b" "0 < rows" "valid_ref b i j a" "length s = ai_slot_number a"
  shows "keeps_shape rows b (put_slots a i s b)"
proof -
  from assms(3) have v: "j < length (nb_attrs_list b)" "a = nb_attrs_list b ! j"
      "i < ni_number (nb_nodes_list b ! ai_node_type a)"
    unfolding valid_ref_def by blast+
  show ?thesis using put_slots_ok [OF assms(1,2) v assms(4)] by (simp add: keeps_shape_def)
qed

lemma set_attr_value_keeps:
  assumes "set_attr_value np i j k v b = Inr b'" "backend_ok rows b" "0 < rows"
  shows "keeps_shape rows b b' \<and> (\<forall>r\<ge>1. row_state b' r = row_state b r)"
proof -
  from assms(1) obtain a where a: "valid_attr b j = Inr a" "valid_node b a i = Inr ()"
    by (auto simp: set_attr_value_def res_simps)
  then have ref: "valid_ref b i j a" by (auto simp: valid_attr_def valid_node_def valid_ref_def split: if_splits)
  note c = valid_ref_checks [OF assms(2,3) ref]
  from assms(1) obtain s where "b' = put_slots a i s b" "length s = length (slots_of b a i)"
    by (auto simp: set_attr_value_def c(1,2,4) res_simps py_set_length split: if_splits dest: py_set_length)
  with put_slots_keeps [OF assms(2,3) ref] show ?thesis by (simp add: c(5) row_state_put)
qed

lemma set_attr_values_keeps:
  assumes "set_attr_values np i j idx vals b = Inr b'" "backend_ok rows b" "0 < rows"
  shows "keeps_shape rows b b' \<and> (\<forall>r\<ge>1. row_state b' r = row_state b r)"
proof -
  from assms(1) obtain a row s0 s where a: "py_get (nb_attrs_list b) (int j) = Inr a" "frame_row b a = Inr row"
      "py_get row (int i) = Inr s0" "b' = put_slots a i s b" "length s = length s0"
    by (auto simp: set_attr_values_def res_simps split: if_splits)
  then have j: "j < length (nb_attrs_list b)" "a = nb_attrs_list b ! j" by (auto simp: py_get_def split: if_splits)
  note row = frame_row_ok [OF assms(2,3) j refl]
  have i: "i < ni_number (nb_nodes_list b ! ai_node_type a)" "s0 = slots_of b a i"
    using a(2,3) row(1) by (auto simp: py_get_def split: if_splits)
  then have "valid_ref b i j a" using j by (simp add: valid_ref_def)
  with put_slots_keeps [OF assms(2,3) this] row(2) i a(4,5) show ?thesis by (simp add: row_state_put)
qed

lemma accessor_setitem_keeps:
  assumes "accessor_setitem np a key v b = Inr (b', calls)" "backend_ok rows b" "0 < rows"
  shows "keeps_shape rows b b' \<and> (\<forall>r\<ge>1. row_state b' r = row_state b r)"
proof -
  have "(\<exists>slot u. set_attr_value np (ac_node_index a) (ac_attr_type a) slot u b = Inr b')
    \<or> (\<exists>idx vals. set_attr_values np (ac_node_index a) (ac_attr_type a) idx vals b = Inr b')"
    using assms(1) by (cases key; cases v) (auto simp: accessor_setitem_def res_simps Let_def)
  with assms(2,3) set_attr_value_keeps set_attr_values_keeps show ?thesis by blast
qed

lemma node_setattr_keeps:
  assumes "node_setattr np name v node b = Inr (node', b', calls)" "backend_ok rows b" "0 < rows"
  shows "keeps_shape rows b b' \<and> (\<forall>r\<ge>1. row_state b' r = row_state b r)"
proof -
  have "b' = b \<or> (\<exists>a key. accessor_setitem np a key v b = Inr (b', calls))"
    using assms(1) by (auto simp: node_setattr_def res_simps split: if_splits option.splits node_entry.splits)
  moreover have "keeps_shape rows b b" using assms(2) by (simp add: keeps_shape_def)
  ultimately show ?thesis using assms(2,3) accessor_setitem_keeps by blast
qed

lemma node_setattr_node_ok:
  assumes "node_setattr np name v node b = Inr (node', b', calls)" "node_ok b node"
  shows "node_ok b node'"
proof -
  have plain: "node_ok b (node\<lparr>nd_dict := AList.update name (Plain v) (nd_dict node)\<rparr>)"
  proof -
    have "set (AList.update name (Plain v) d) \<subseteq> insert (name, Plain v) (set d)" for d
      by (induction d) auto
    with assms(2) show ?thesis by (fastforce simp: node_ok_def entry_ok_def)
  qed
  with assms show ?thesis
    by (auto simp: node_setattr_def res_simps split: if_splits option.splits node_entry.splits)
qed

text \<open>Zeroing rows never fails on a well-typed backend, and touches the selected rows only.\<close>

lemma reset_rows_exact:
  assumes "backend_ok rows b"
  shows "reset_rows sel b = Inr (b\<lparr>nb_node_data := map (\<lambda>(t, arr). (t, arr\<lparr>na_rows := map (\<lambda>r.
      if sel r then map (zero_fields (map ai_name (attrs_of b t))) (na_rows arr ! r) else na_rows arr ! r)
      [0..<length (na_rows arr)]\<rparr>)) (nb_node_data b)\<rparr>)"
proof -
  have reg: "nb_node_attrs b = map (\<lambda>t. (t, attrs_of b t)) [0..<length (nb_nodes_list b)]"
    using assms by (simp add: backend_ok_def registry_ok_def)
  have "dict_get (nb_node_attrs b) t = Inr (attrs_of b t) \<and> map fst (na_dtype arr) = map ai_name (attrs_of b t)"
    if "(t, arr) \<in> set (nb_node_data b)" for t arr
  proof
    have "t \<in> set (map fst (nb_node_data b))" using that by force
    moreover have "map fst (nb_node_data b) = [0..<length (nb_nodes_list b)]" using assms by (simp add: backend_ok_def)
    ultimately have "t < length (nb_nodes_list b)" by (simp del: set_map)
    then show "dict_get (nb_node_attrs b) t = Inr (attrs_of b t)" by (simp add: reg dict_get_def map_of_upt)
    show "map fst (na_dtype arr) = map ai_name (attrs_of b t)"
      using assms that by (auto simp: backend_ok_def gen_numpy_dtype_def)
  qed
  note facts = this
  show ?thesis unfolding reset_rows_def
    by (subst mapE_Inr_map) (use facts in \<open>auto simp del: set_map simp: subset_iff\<close>)
qed

lemma reset_rows_keeps:
  assumes "backend_ok rows b" "reset_rows sel b = Inr b'"
  shows "keeps_shape rows b b'" "\<forall>r. \<not> sel r \<longrightarrow> r < rows \<longrightarrow> row_state b' r = row_state b r"
proof -
  obtain g :: "nat \<Rightarrow> node_array \<Rightarrow> node_array" where g: "g = (\<lambda>t arr. arr\<lparr>na_rows := map (\<lambda>r.
      if sel r then map (zero_fields (map ai_name (attrs_of b t))) (na_rows arr ! r) else na_rows arr ! r)
      [0..<length (na_rows arr)]\<rparr>)" by blast
  have b': "b' = b\<lparr>nb_node_data := map (\<lambda>(t, arr). (t, g t arr)) (nb_node_data b)\<rparr>"
    using assms(2) reset_rows_exact [OF assms(1)] by (simp add: g)
  have g_ok: "array_ok rows n (g t arr)" if "array_ok rows n arr" for n t arr
  proof -
    have "length (na_rows arr ! r) = n \<and> list_all (cell_ok (na_dtype arr)) (na_rows arr ! r)"
      if "r < length (na_rows arr)" for r
      using \<open>array_ok rows n arr\<close> that by (simp add: array_ok_def)
    with that show ?thesis by (auto simp: array_ok_def g list_all_iff intro!: cell_ok_zero)
  qed
  show "keeps_shape rows b b'" unfolding b'
    by (rule data_map_keeps [OF assms(1)]) (use g_ok in \<open>simp add: g\<close>)
  have "length (na_rows arr) = rows" if "(t, arr) \<in> set (nb_node_data b)" for t arr
    using that assms(1) by (auto simp: backend_ok_def array_ok_def)
  then show "\<forall>r. \<not> sel r \<longrightarrow> r < rows \<longrightarrow> row_state b' r = row_state b r"
    by (auto simp: row_state_def b' g)
qed

text \<open>Recording needs a row for the tick, and no history file.\<close>

lemma take_keeps:
  assumes "np_take_snapshot tick sl b = Inr (sl', b')" "backend_ok rows b" "0 < rows"
  shows "keeps_shape rows b b'"
proof -
  from take_snapshot_exact [OF assms(1)] obtain target sl1 where "target_row tick sl = (target, sl1)" and
    b': "b' = b\<lparr>nb_node_data := map (\<lambda>(t, arr). (t, arr\<lparr>na_rows := (na_rows arr)[target := na_rows arr ! 0]\<rparr>)) (nb_node_data b)\<rparr>"
    by blast
  have "array_ok rows n (arr\<lparr>na_rows := (na_rows arr)[target := na_rows arr ! 0]\<rparr>)" if "array_ok rows n arr" for n arr
  proof -
    have "na_rows arr ! 0 \<in> set (na_rows arr)" using that assms(3) by (auto simp: array_ok_def)
    then have "set ((na_rows arr)[target := na_rows arr ! 0]) \<subseteq> set (na_rows arr)"
      using set_update_subset_insert [of "na_rows arr" target "na_rows arr ! 0"] by auto
    with that show ?thesis by (auto simp: array_ok_def)
  qed
  then show ?thesis unfolding b' by (intro data_map_keeps [OF assms(2)]) simp
qed

lemma take_returns:
  assumes "backend_ok rows b" "ring_ok sl" "sl_max_size sl = rows" "\<not> sl_history_enabled sl"
  shows "\<exists>sl' b'. np_take_snapshot tick sl b = Inr (sl', b')"
proof -
  obtain target sl1 where t: "target_row tick sl = (target, sl1)" by (cases "target_row tick sl")
  note bounds = target_row_bounds [OF assms(2) t]
  have off: "\<not> sl_history_enabled (forget_row target sl1)"
    using assms(4) t by (auto simp: forget_row_def target_row_def Let_def split: option.splits)
  have "\<exists>r. foldE (copy_row target b) (nb_node_data b) ([], history, False) = Inr r \<and> \<not> snd (snd r)" for history
  proof (rule foldE_total [where I = "\<lambda>r. \<not> snd (snd r)"])
    fix x and r :: "(nat \<times> node_array) list \<times> (string \<times> buffered_mmap) list \<times> bool"
    assume x: "x \<in> set (nb_node_data b)" and r: "\<not> snd (snd r)"
    obtain k arr where k: "x = (k, arr)" by (cases x)
    have "k \<in> set (map fst (nb_node_data b))" using x k by force
    moreover have "map fst (nb_node_data b) = [0..<length (nb_nodes_list b)]" using assms(1) by (simp add: backend_ok_def)
    ultimately have "k < length (nb_nodes_list b)" by (simp del: set_map)
    moreover have "length (na_rows arr) = rows" using assms(1) x k by (auto simp: backend_ok_def array_ok_def)
    ultimately show "\<exists>s'. copy_row target b x r = Inr s' \<and> \<not> snd (snd s')"
      using bounds(2) assms(3) r
      by (cases r) (auto simp: k copy_row_def py_get_def [where i = "int k"] py_get_def [where i = 0] py_pos_def py_set_def)
  qed simp
  then obtain data h e where "foldE (copy_row target b) (nb_node_data b)
      ([], sl_history (forget_row target sl1), False) = Inr (data, h, e)" by (metis surj_pair)
  with off show ?thesis by (simp add: np_take_snapshot_def t Let_def)
qed

section \<open>Runs\<close>

text \<open>
  A frame in use.  The log has the frame's state at every recording since the snapshots were last
  cleared.  A callback writes attributes through its node, which is a step of its own.
\<close>

definition current_state :: "frame \<Rightarrow> frame_state" where
  "current_state f = row_state (fm_backend f) 0"

inductive frame_run ::
  "(string \<Rightarrow> rat \<Rightarrow> rat res) \<Rightarrow> (nat \<Rightarrow> nat) \<Rightarrow> (string \<times> frame_node) list \<Rightarrow> int \<Rightarrow> (int \<times> frame_state) list \<Rightarrow> frame \<Rightarrow> bool"
  for np itemsize members cap where
  start: "frame_init members True cap = Inr f \<Longrightarrow> frame_run np itemsize members cap [] f"
| setattr: "frame_run np itemsize members cap L f \<Longrightarrow> map_of (fm_nodes f) attr = Some insts \<Longrightarrow> x < length insts \<Longrightarrow>
    node_setattr np name v (insts ! x) (fm_backend f) = Inr (node, b, calls) \<Longrightarrow>
    frame_run np itemsize members cap L
      (f\<lparr>fm_backend := b, fm_nodes := AList.update attr (insts[x := node]) (fm_nodes f)\<rparr>)"
| setitem: "frame_run np itemsize members cap L f \<Longrightarrow> map_of (fm_nodes f) attr = Some insts \<Longrightarrow> x < length insts \<Longrightarrow>
    map_of (nd_dict (insts ! x)) name = Some (Accessor a) \<Longrightarrow>
    accessor_setitem np a key v (fm_backend f) = Inr (b, calls) \<Longrightarrow>
    frame_run np itemsize members cap L (f\<lparr>fm_backend := b\<rparr>)"
| reset: "frame_run np itemsize members cap L f \<Longrightarrow> frame_base_reset f = Inr f' \<Longrightarrow> frame_run np itemsize members cap L f'"
| recording: "frame_run np itemsize members cap L f \<Longrightarrow> frame_take_snapshot tick f = Inr f' \<Longrightarrow>
    frame_run np itemsize members cap (L @ [(tick, current_state f)]) f'"
| history: "frame_run np itemsize members cap L f \<Longrightarrow> frame_enable_history itemsize path f = Inr f' \<Longrightarrow>
    frame_run np itemsize members cap L f'"
| clear: "frame_run np itemsize members cap L f \<Longrightarrow> snapshot_list_reset f = Inr f' \<Longrightarrow>
    frame_run np itemsize members cap [] f'"

definition log_ok :: "(int \<times> frame_state) list \<Rightarrow> snapshots \<Rightarrow> backend \<Rightarrow> bool" where
  "log_ok L sl b \<longleftrightarrow>
     (\<forall>(tick, s)\<in>set (kept sl b). map_of (rev L) tick = Some s)
     \<and> (sorted (map fst L) \<longrightarrow> ring_ordered sl \<and> kept sl b = snapshot_dict (sl_max_size sl - 1) L)"

definition run_ok :: "int \<Rightarrow> (int \<times> frame_state) list \<Rightarrow> frame \<Rightarrow> bool" where
  "run_ok cap L f \<longleftrightarrow>
     frame_ok (nat cap + 1) f
     \<and> (\<exists>sl. fm_snapshots f = Some sl \<and> ring_ok sl \<and> sl_max_size sl = nat cap + 1 \<and> log_ok L sl (fm_backend f))"

lemma kept_cong:
  assumes "ring_ok sl" "\<forall>r. 1 \<le> r \<longrightarrow> r < sl_max_size sl \<longrightarrow> row_state b' r = row_state b r"
  shows "kept sl b' = kept sl b"
proof -
  have "row_state b' r = row_state b r" if "(t, r) \<in> set (sl_tick2index sl)" for t r
    using that assms ring_rows_bounds [OF assms(1), of t r] by (auto simp: ring_ok_def)
  then show ?thesis by (auto simp: kept_def)
qed

lemma frame_ok_backend: "frame_ok rows f \<Longrightarrow> backend_ok rows (fm_backend f)"
  by (simp add: frame_ok_def)

lemma run_ok_write:
  assumes "run_ok cap L f" "keeps_shape (nat cap + 1) (fm_backend f) b"
    and "\<forall>r. 1 \<le> r \<longrightarrow> r < nat cap + 1 \<longrightarrow> row_state b r = row_state (fm_backend f) r"
    and "instances_ok b nodes"
  shows "run_ok cap L (f\<lparr>fm_backend := b, fm_nodes := nodes\<rparr>)"
proof -
  from assms(1) obtain sl where sl: "fm_snapshots f = Some sl" "ring_ok sl" "sl_max_size sl = nat cap + 1"
      "log_ok L sl (fm_backend f)"
    by (auto simp: run_ok_def)
  have "kept sl b = kept sl (fm_backend f)" by (rule kept_cong [OF sl(2)]) (use assms(3) sl(3) in simp)
  then have "log_ok L sl b" using sl(4) by (simp add: log_ok_def)
  with assms sl(1-3) show ?thesis by (simp add: run_ok_def frame_ok_def keeps_shape_def)
qed

lemma log_ok_take:
  assumes "log_ok L sl b" "ring_ok sl" "np_take_snapshot tick sl b = Inr (sl', b')"
  shows "log_ok (L @ [(tick, row_state b 0)]) sl' b'"
proof -
  from take_snapshot_exact [OF assms(3)] obtain target sl1 where
    t: "target_row tick sl = (target, sl1)"
      "sl_tick2index sl' = AList.update tick target (sl_tick2index (forget_row target sl1))"
      "sl_max_size sl' = sl_max_size sl"
      "b' = b\<lparr>nb_node_data := map (\<lambda>(t, arr). (t, arr\<lparr>na_rows := (na_rows arr)[target := na_rows arr ! 0]\<rparr>)) (nb_node_data b)\<rparr>"
      "\<forall>(t, arr)\<in>set (nb_node_data b). target < length (na_rows arr)" by blast
  note rows = row_state_copy [OF t(5,4)]
  note ring' = take_ring_ok [OF assms(2,3)]
  have "map_of (rev (L @ [(tick, row_state b 0)])) u = Some s" if mem: "(u, s) \<in> set (kept sl' b')" for u s
  proof -
    from mem obtain r where r: "(u, r) \<in> set (sl_tick2index sl')" "s = row_state b' r" by (auto simp: kept_def)
    have dis: "distinct (map fst (sl_tick2index sl'))" "distinct (map snd (sl_tick2index sl'))"
      using ring' ring_rows_distinct [OF ring'] by (simp_all add: ring_ok_def)
    have new: "(tick, target) \<in> set (sl_tick2index sl')"
      using map_of_SomeD [of "sl_tick2index sl'" tick target] by (simp add: t(2))
    show ?thesis
    proof (cases "u = tick")
      case True
      then have "r = target" using new r(1) dis(1) by (metis eq_key_imp_eq_value)
      then show ?thesis using True r(2) rows by simp
    next
      case False
      have "r \<noteq> target" using new r(1) dis(2) False by (metis distinct_map inj_onD prod.inject snd_conv)
      moreover have "map_of (sl_tick2index sl') u = Some r" using r(1) dis(1) by simp
      then have "map_of (sl_tick2index (forget_row target sl1)) u = Some r" using False by (simp add: t(2))
      then have "map_of (sl_tick2index sl) u = Some r"
        using target_row_bounds(4,5) [OF assms(2) t(1)]
        by (auto simp: forget_row_def map_of_delete split: option.splits if_splits)
      then have "(u, row_state b r) \<in> set (kept sl b)" by (force simp: kept_def dest: map_of_SomeD)
      ultimately show ?thesis using assms(1) False r(2) rows by (auto simp: log_ok_def)
    qed
  qed
  moreover have "ring_ordered sl' \<and> kept sl' b' = snapshot_dict (sl_max_size sl' - 1) (L @ [(tick, row_state b 0)])"
    if sorted: "sorted (map fst (L @ [(tick, row_state b 0)]))"
  proof -
    have L: "sorted (map fst L)" "\<forall>u\<in>set (map fst L). u \<le> tick" using sorted by (auto simp: sorted_append)
    then have k: "ring_ordered sl" "kept sl b = snapshot_dict (sl_max_size sl - 1) L" using assms(1) by (auto simp: log_ok_def)
    have "map fst (kept sl b) = map fst (sl_tick2index sl)" by (simp add: kept_def comp_def case_prod_beta)
    then have keys: "map fst (sl_tick2index sl) = map fst (snapshot_dict (sl_max_size sl - 1) L)" by (simp only: k(2))
    have "0 < sl_max_size sl - 1" using assms(2) by (simp add: ring_ok_def)
    note dict = snapshot_dict_snoc [OF sorted this]
    have "sorted (map fst (sl_tick2index sl))" "\<forall>u\<in>set (map fst (sl_tick2index sl)). u \<le> tick"
      unfolding keys using snapshot_dict_keys [OF L(1)] L(2) by blast+
    from take_refines [OF assms(2) k(1) this assms(3)] show ?thesis by (simp only: dict k(2) t(3))
  qed
  ultimately show ?thesis unfolding log_ok_def by blast
qed

lemma run_ok_start:
  assumes "frame_init members True cap = Inr f" "members_ok members" "1 \<le> cap"
  shows "run_ok cap [] f"
proof -
  have "ring_ok (new_snapshots (fm_backend f) (nat cap + 1)) \<and> log_ok [] (new_snapshots (fm_backend f) (nat cap + 1)) (fm_backend f)"
    using assms(3) by (simp add: ring_ok_def log_ok_def new_snapshots_def ring_ordered_def kept_def snapshot_dict_def)
  with frame_init_ok [OF assms(1,2)] show ?thesis by (simp add: run_ok_def new_snapshots_def)
qed

lemma run_ok_frame: "run_ok cap L f \<Longrightarrow> frame_ok (nat cap + 1) f"
  by (simp add: run_ok_def)

lemma run_ok_setattr:
  assumes "run_ok cap L f" "map_of (fm_nodes f) attr = Some insts" "x < length insts"
    and "node_setattr np name v (insts ! x) (fm_backend f) = Inr (node, b, calls)"
  shows "run_ok cap L (f\<lparr>fm_backend := b, fm_nodes := AList.update attr (insts[x := node]) (fm_nodes f)\<rparr>)"
proof -
  have b: "backend_ok (nat cap + 1) (fm_backend f)" "instances_ok (fm_backend f) (fm_nodes f)"
    using run_ok_frame [OF assms(1)] by (simp_all add: frame_ok_def)
  note k = node_setattr_keeps [OF assms(4) b(1)]
  have insts: "list_all (node_ok (fm_backend f)) insts"
    using b(2) assms(2) by (auto simp: instances_ok_def dest: map_of_SomeD)
  have "node_ok (fm_backend f) node"
    by (rule node_setattr_node_ok [OF assms(4)]) (use insts assms(3) in \<open>simp add: list_all_length\<close>)
  then have "instances_ok (fm_backend f) (AList.update attr (insts[x := node]) (fm_nodes f))"
    by (intro instances_ok_update [OF b(2)] list_all_update [OF insts])
  then show ?thesis using k instances_ok_shape [of "nat cap + 1" "fm_backend f" b]
    by (intro run_ok_write [OF assms(1)]) auto
qed

lemma run_ok_backend:
  assumes "run_ok cap L f" "keeps_shape (nat cap + 1) (fm_backend f) b"
    and "\<forall>r. 1 \<le> r \<longrightarrow> r < nat cap + 1 \<longrightarrow> row_state b r = row_state (fm_backend f) r"
  shows "run_ok cap L (f\<lparr>fm_backend := b\<rparr>)"
proof -
  have "instances_ok b (fm_nodes f)"
    using run_ok_frame [OF assms(1)] instances_ok_shape [OF assms(2)] by (simp add: frame_ok_def)
  from run_ok_write [OF assms this] show ?thesis by simp
qed

lemma run_ok_record:
  assumes "run_ok cap L f" "frame_take_snapshot tick f = Inr f'"
  shows "run_ok cap (L @ [(tick, current_state f)]) f'"
proof -
  from assms(1) obtain sl where sl: "fm_snapshots f = Some sl" "ring_ok sl" "sl_max_size sl = nat cap + 1"
      "log_ok L sl (fm_backend f)" "frame_ok (nat cap + 1) f"
    by (auto simp: run_ok_def)
  from assms(2) obtain sl' b' where t: "np_take_snapshot tick sl (fm_backend f) = Inr (sl', b')"
      "f' = f\<lparr>fm_snapshots := Some sl', fm_backend := b'\<rparr>"
    by (auto simp: frame_take_snapshot_def sl(1) c_signed_def res_simps split: if_splits)
  have "keeps_shape (nat cap + 1) (fm_backend f) b'" by (rule take_keeps [OF t(1) frame_ok_backend [OF sl(5)]]) simp
  then have "frame_ok (nat cap + 1) f'" using frame_ok_shape [OF sl(5)] by (simp add: t(2) frame_ok_def)
  moreover have "sl_max_size sl' = sl_max_size sl" by (rule take_snapshot_exact [OF t(1)])
  ultimately show ?thesis
    using take_ring_ok [OF sl(2) t(1)] log_ok_take [OF sl(4,2) t(1)] sl(3)
    by (simp add: run_ok_def t(2) current_state_def)
qed

lemma run_ok_history:
  assumes "run_ok cap L f" "frame_enable_history itemsize path f = Inr f'"
  shows "run_ok cap L f'"
proof -
  from assms(1) obtain sl where sl: "fm_snapshots f = Some sl" "ring_ok sl" "sl_max_size sl = nat cap + 1"
      "log_ok L sl (fm_backend f)" "frame_ok (nat cap + 1) f"
    by (auto simp: run_ok_def)
  from assms(2) obtain sl' where sl': "np_enable_history itemsize path sl (fm_backend f) = Inr sl'"
      "f' = f\<lparr>fm_snapshots := Some sl'\<rparr>"
    by (auto simp: frame_enable_history_def sl(1) res_simps)
  then have "sl_tick2index sl' = sl_tick2index sl" "sl_index2tick sl' = sl_index2tick sl"
      "sl_cur_index sl' = sl_cur_index sl" "sl_max_size sl' = sl_max_size sl"
    by (auto simp: np_enable_history_def res_simps split: if_splits)
  with sl show ?thesis
    by (simp add: run_ok_def sl'(2) frame_ok_def ring_ok_def log_ok_def kept_def ring_ordered_def)
qed

lemma run_ok_clear:
  assumes "run_ok cap L f" "snapshot_list_reset f = Inr f'"
  shows "run_ok cap [] f'"
proof -
  from assms(1) obtain sl where sl: "fm_snapshots f = Some sl" "ring_ok sl" "sl_max_size sl = nat cap + 1"
      "frame_ok (nat cap + 1) f"
    by (auto simp: run_ok_def)
  from assms(2) obtain b where b: "reset_rows (\<lambda>r. 1 \<le> r) (fm_backend f) = Inr b"
      "f' = f\<lparr>fm_snapshots := Some (sl\<lparr>sl_cur_index := 0, sl_tick2index := [], sl_index2tick := [], sl_history := []\<rparr>), fm_backend := b\<rparr>"
    by (auto simp: snapshot_list_reset_def snapshots_reset_def sl(1) res_simps)
  have "keeps_shape (nat cap + 1) (fm_backend f) b" by (rule reset_rows_keeps(1) [OF frame_ok_backend [OF sl(4)] b(1)])
  then have "frame_ok (nat cap + 1) f'" using frame_ok_shape [OF sl(4)] by (simp add: b(2) frame_ok_def)
  with sl(2,3) show ?thesis
    by (simp add: run_ok_def b(2) ring_ok_def log_ok_def kept_def ring_ordered_def snapshot_dict_def)
qed

lemma frame_run_ok:
  assumes "frame_run np itemsize members cap L f" "members_ok members" "1 \<le> cap"
  shows "run_ok cap L f"
  using assms(1)
proof induction
  case (start f)
  then show ?case using assms(2,3) by (rule run_ok_start)
next
  case (setattr L f attr insts x name v node b calls)
  show ?case by (rule run_ok_setattr [OF setattr.IH setattr.hyps(2-4)])
next
  case (setitem L f attr insts x name a key v b calls)
  have "backend_ok (nat cap + 1) (fm_backend f)" using run_ok_frame [OF setitem.IH] by (rule frame_ok_backend)
  from accessor_setitem_keeps [OF setitem.hyps(5) this] show ?case by (intro run_ok_backend [OF setitem.IH]) auto
next
  case (reset L f f')
  have f: "backend_ok (nat cap + 1) (fm_backend f)" using run_ok_frame [OF reset.IH] by (rule frame_ok_backend)
  from reset.hyps(2) obtain b where b: "reset_rows (\<lambda>r. r = 0) (fm_backend f) = Inr b" "f' = f\<lparr>fm_backend := b\<rparr>"
    by (auto simp: frame_base_reset_def backend_reset_def res_simps)
  from reset_rows_keeps [OF f b(1)] show ?case unfolding b(2) by (intro run_ok_backend [OF reset.IH]) auto
next
  case (recording L f tick f')
  show ?case by (rule run_ok_record [OF recording.IH recording.hyps(2)])
next
  case (history L f path f')
  show ?case by (rule run_ok_history [OF history.IH history.hyps(2)])
next
  case (clear L f f')
  show ?case by (rule run_ok_clear [OF clear.IH clear.hyps(2)])
qed

end
