(* ===== verification/FrameLaws.thy ===== *)
theory FrameLaws imports FrameRuns begin

text \<open>
  What a user of the frame can rely on: typed access, write and read, the errors of one-slot attributes and
  of the history files, the ring of snapshots, its refinement of the log, and queries.
\<close>

section \<open>Access through the nodes of a frame\<close>

text \<open>An accessor of some node instance of the frame.\<close>

definition bound_accessor :: "frame \<Rightarrow> accessor \<Rightarrow> bool" where
  "bound_accessor f a \<longleftrightarrow>
     (\<exists>attr insts x name. map_of (fm_nodes f) attr = Some insts \<and> x < length insts
        \<and> map_of (nd_dict (insts ! x)) name = Some (Accessor a))"

definition accessor_dtype :: "frame \<Rightarrow> accessor \<Rightarrow> string" where
  "accessor_dtype f a = ai_dtype (nb_attrs_list (fm_backend f) ! ac_attr_type a)"

lemma bound_accessor_ok:
  assumes "run_ok cap L f" "bound_accessor f a"
  shows "accessor_ok (fm_backend f) a"
proof -
  have "instances_ok (fm_backend f) (fm_nodes f)" using run_ok_frame [OF assms(1)] by (simp add: frame_ok_def)
  moreover from assms(2) obtain attr insts x name where n: "map_of (fm_nodes f) attr = Some insts" "x < length insts"
      "map_of (nd_dict (insts ! x)) name = Some (Accessor a)"
    unfolding bound_accessor_def by blast
  ultimately have "node_ok (fm_backend f) (insts ! x)"
    by (auto simp: instances_ok_def list_all_length dest!: map_of_SomeD)
  then show ?thesis using n(3) by (auto simp: node_ok_def entry_ok_def dest!: map_of_SomeD)
qed

lemma bound_accessor_ref:
  assumes "frame_run np itemsize members cap L f" "members_ok members" "1 \<le> cap"
    and "bound_accessor f a" "\<not> ac_is_list a"
  obtains b attr where "b = fm_backend f" "attr = nb_attrs_list b ! ac_attr_type a" "backend_ok (nat cap + 1) b"
    "valid_ref b (ac_node_index a) (ac_attr_type a) attr" "ac_slot_number a = ai_slot_number attr"
    "ai_dtype attr = accessor_dtype f a"
proof -
  note run = frame_run_ok [OF assms(1-3)]
  have "accessor_ok (fm_backend f) a" by (rule bound_accessor_ok [OF run assms(4)])
  then show thesis using frame_ok_backend [OF run_ok_frame [OF run]] assms(5)
    by (intro that [OF refl refl]) (auto simp: accessor_ok_def valid_ref_def accessor_dtype_def)
qed

lemma getitem_exact:
  assumes "backend_ok rows b" "0 < rows" "valid_ref b (ac_node_index a) (ac_attr_type a) attr"
    and "k < ai_slot_number attr" "k < 2 ^ 32"
  shows "accessor_getitem a (SlotInt (int k)) b = Inr (Scalar (slots_of b attr (ac_node_index a) ! k))"
  using assms(5) by (simp add: accessor_getitem_def c_unsigned_def get_attr_value_exact [OF assms(1-4)])

lemma setitem_exact:
  assumes "backend_ok rows b" "0 < rows" "valid_ref b (ac_node_index a) (ac_attr_type a) attr"
    and "k < ai_slot_number attr" "k < 2 ^ 32" "np (ai_dtype attr) v = Inr w"
  shows "accessor_setitem np a (SlotInt (int k)) (Scalar v) b =
    Inr (put_slots attr (ac_node_index a) ((slots_of b attr (ac_node_index a))[k := w]) b,
         if ac_cb a then [Scalar v] else [])"
  using assms(5,6) by (simp add: accessor_setitem_def c_unsigned_def set_attr_value_exact [OF assms(1-4)])

text \<open>C18: A frame stays well formed over any run: every accessor bound to it for an attribute
  that is not a list reads every slot of its attribute, resetting the frame and clearing the
  snapshots never fail, and, while no memory-mapped history is enabled, neither does recording a
  snapshot at a tick that fits 32 bits. With the history enabled recording does fail in the end, see
  history_overflows.\<close>

theorem frame_run_typed:
  assumes "frame_run np itemsize members cap L f" "members_ok members" "1 \<le> cap"
  shows "(\<forall>a k. bound_accessor f a \<longrightarrow> \<not> ac_is_list a \<longrightarrow> k < ac_slot_number a \<longrightarrow> k < 2 ^ 32 \<longrightarrow>
      (\<exists>v. accessor_getitem a (SlotInt (int k)) (fm_backend f) = Inr (Scalar v)))
    \<and> (\<exists>f'. frame_base_reset f = Inr f') \<and> (\<exists>f'. snapshot_list_reset f = Inr f')
    \<and> (\<forall>sl tick. fm_snapshots f = Some sl \<longrightarrow> \<not> sl_history_enabled sl \<longrightarrow> - (2 ^ 31) \<le> tick \<longrightarrow> tick < 2 ^ 31 \<longrightarrow>
         (\<exists>f'. frame_take_snapshot tick f = Inr f'))"
proof (intro conjI allI impI)
  note run = frame_run_ok [OF assms]
  note b = frame_ok_backend [OF run_ok_frame [OF run]]
  fix a k
  assume a: "bound_accessor f a" "\<not> ac_is_list a" "k < ac_slot_number a" "(k :: nat) < 2 ^ 32"
  then show "\<exists>v. accessor_getitem a (SlotInt (int k)) (fm_backend f) = Inr (Scalar v)"
    by (elim bound_accessor_ref [OF assms]) (auto simp: getitem_exact)
next
  note run = frame_run_ok [OF assms]
  note b = frame_ok_backend [OF run_ok_frame [OF run]]
  show "\<exists>f'. frame_base_reset f = Inr f'"
    by (simp add: frame_base_reset_def backend_reset_def reset_rows_exact [OF b])
  from run obtain sl where "fm_snapshots f = Some sl" by (auto simp: run_ok_def)
  then show "\<exists>f'. snapshot_list_reset f = Inr f'"
    by (simp add: snapshot_list_reset_def snapshots_reset_def reset_rows_exact [OF b])
next
  note run = frame_run_ok [OF assms]
  note b = frame_ok_backend [OF run_ok_frame [OF run]]
  fix sl and tick :: int
  assume sl: "fm_snapshots f = Some sl" "\<not> sl_history_enabled sl" and t: "- (2 ^ 31) \<le> tick" "tick < 2 ^ 31"
  from run sl(1) have "ring_ok sl" "sl_max_size sl = nat cap + 1" by (auto simp: run_ok_def)
  from take_returns [OF b this sl(2)] obtain sl' b' where "np_take_snapshot tick sl (fm_backend f) = Inr (sl', b')" by blast
  then show "\<exists>f'. frame_take_snapshot tick f = Inr f'"
    using t by (simp add: frame_take_snapshot_def c_signed_def sl(1))
qed

text \<open>Two attributes of a node type have different names.\<close>

lemma filter_names_distinct:
  "distinct (map f (filter P xs)) \<Longrightarrow> i < length xs \<Longrightarrow> j < length xs \<Longrightarrow> P (xs ! i) \<Longrightarrow> P (xs ! j) \<Longrightarrow>
   f (xs ! i) = f (xs ! j) \<Longrightarrow> i = j"
proof (induction xs arbitrary: i j)
  case Nil
  then show ?case by simp
next
  case (Cons x xs)
  show ?case
  proof (cases i; cases j)
    fix i' j'
    assume "i = Suc i'" "j = Suc j'"
    then show ?thesis using Cons by (auto split: if_splits)
  qed (use Cons.prems in \<open>auto simp: image_iff in_set_conv_nth split: if_splits\<close>)
qed

lemma attr_names_distinct:
  assumes "backend_ok rows b" "valid_ref b i j a" "valid_ref b i' j' a'"
    and "ai_node_type a' = ai_node_type a" "ai_name a' = ai_name a"
  shows "j' = j"
proof -
  have v: "j < length (nb_attrs_list b)" "a = nb_attrs_list b ! j" "j' < length (nb_attrs_list b)" "a' = nb_attrs_list b ! j'"
    using assms(2,3) unfolding valid_ref_def by blast+
  have reg: "registry_ok b" using assms(1) by (simp add: backend_ok_def)
  have t: "ai_node_type a < length (nb_nodes_list b)" unfolding v(2) by (rule registered_attr(1) [OF reg v(1)])
  from data_lookup [OF assms(1) t] obtain arr where
    arr: "na_dtype arr = map gen_numpy_dtype (attrs_of b (ai_node_type a))"
      "array_ok rows (ni_number (nb_nodes_list b ! ai_node_type a)) arr" by metis
  from arr(2) have "distinct (map fst (na_dtype arr))" by (simp only: array_ok_def)
  then have "distinct (map ai_name (filter (\<lambda>x. ai_node_type x = ai_node_type a) (nb_attrs_list b)))"
    by (simp only: arr(1) dtype_names attrs_of_def)
  from filter_names_distinct [OF this v(3,1)] assms(4,5) v(2,4) show ?thesis by blast
qed

text \<open>C19: A value written to a slot of an attribute is read back as NumPy stores it, the
  change callback sees it exactly when the attribute has one, and no other slot of any accessor
  changes.\<close>

theorem attr_write_read:
  assumes "frame_run np itemsize members cap L f" "members_ok members" "1 \<le> cap"
    and "bound_accessor f a" "\<not> ac_is_list a" "k < ac_slot_number a" "k < 2 ^ 32"
    and "np (accessor_dtype f a) v = Inr w"
  shows "\<exists>b'. accessor_setitem np a (SlotInt (int k)) (Scalar v) (fm_backend f) =
        Inr (b', if ac_cb a then [Scalar v] else [])
    \<and> accessor_getitem a (SlotInt (int k)) b' = Inr (Scalar w)
    \<and> (\<forall>a' k'. bound_accessor f a' \<longrightarrow> \<not> ac_is_list a' \<longrightarrow> k' < ac_slot_number a' \<longrightarrow> k' < 2 ^ 32 \<longrightarrow>
         (ac_node_index a', ac_attr_type a', k') \<noteq> (ac_node_index a, ac_attr_type a, k) \<longrightarrow>
         accessor_getitem a' (SlotInt (int k')) b' = accessor_getitem a' (SlotInt (int k')) (fm_backend f))"
proof -
  from bound_accessor_ref [OF assms(1-5)] obtain b attr where b: "b = fm_backend f" "backend_ok (nat cap + 1) b"
      "valid_ref b (ac_node_index a) (ac_attr_type a) attr" "ac_slot_number a = ai_slot_number attr"
      "ai_dtype attr = accessor_dtype f a" by metis
  have pos: "0 < nat cap + 1" by simp
  note k = assms(6) [unfolded b(4)]
  obtain s where s: "s = (slots_of b attr (ac_node_index a))[k := w]" by blast
  have len: "length s = ai_slot_number attr" using valid_ref_checks(5) [OF b(2) pos b(3)] by (simp add: s)
  have set: "accessor_setitem np a (SlotInt (int k)) (Scalar v) b =
      Inr (put_slots attr (ac_node_index a) s b, if ac_cb a then [Scalar v] else [])"
    unfolding s by (rule setitem_exact [OF b(2) pos b(3) k assms(7)]) (simp only: b(5) assms(8))
  obtain b' where b': "b' = put_slots attr (ac_node_index a) s b" by blast
  have ok': "backend_ok (nat cap + 1) b'" using put_slots_keeps [OF b(2) pos b(3) len] by (simp add: b' keeps_shape_def)
  have refs: "valid_ref b' i j x = valid_ref b i j x" for i j x by (simp add: valid_ref_def b')
  have v: "ac_attr_type a < length (nb_attrs_list b)" "attr = nb_attrs_list b ! ac_attr_type a"
      "ac_node_index a < ni_number (nb_nodes_list b ! ai_node_type attr)"
    using b(3) unfolding valid_ref_def by blast+
  note slots = put_slots_get [OF b(2) pos v, where s = s, folded b']
  have "accessor_getitem a (SlotInt (int k)) b' = Inr (Scalar w)"
    using getitem_exact [OF ok' pos b(3) [folded refs] k assms(7)] len k by (simp add: slots_of_def slots s)
  moreover have "accessor_getitem a' (SlotInt (int k')) b' = accessor_getitem a' (SlotInt (int k')) b"
    if a': "bound_accessor f a'" "\<not> ac_is_list a'" "k' < ac_slot_number a'" "k' < 2 ^ 32"
      "(ac_node_index a', ac_attr_type a', k') \<noteq> (ac_node_index a, ac_attr_type a, k)" for a' k'
  proof -
    from bound_accessor_ref [OF assms(1-3) a'(1,2)] obtain attr' where r:
        "valid_ref b (ac_node_index a') (ac_attr_type a') attr'" "ac_slot_number a' = ai_slot_number attr'"
      unfolding b(1) by metis
    note k' = a'(3) [unfolded r(2)]
    have "slots_of b' attr' (ac_node_index a') ! k' = slots_of b attr' (ac_node_index a') ! k'"
      using attr_names_distinct [OF b(2,3) r(1)] a'(5) r(1) v(2)
      by (auto simp: slots_of_def slots s valid_ref_def nth_list_update)
    then show ?thesis
      by (simp add: getitem_exact [OF ok' pos r(1) [folded refs] k' a'(4)] getitem_exact [OF b(2) pos r(1) k' a'(4)])
  qed
  ultimately show ?thesis using set by (auto simp: b' b(1))
qed

section \<open>Several slots at once\<close>

text \<open>The values that a write through a list or a slice stores: cut to the slots, a number repeated.\<close>

definition spread :: "nat \<Rightarrow> py_value \<Rightarrow> rat list" where
  "spread n v = (case v of Many vs \<Rightarrow> take n vs | Scalar x \<Rightarrow> replicate n x)"

lemma spread_length: "length (spread n v) \<le> n"
  by (simp add: spread_def split: py_value.split)

lemma setitem_unfold:
  assumes "slot_list (ac_slot_number a) key = Inr idx" "vals = spread (length idx) v"
  shows "accessor_setitem np a key v b =
    bindE (set_attr_values np (ac_node_index a) (ac_attr_type a) (take (length vals) idx) vals b)
      (\<lambda>b. Inr (b, if ac_cb a then [v] else []))"
  using assms by (cases key; cases v) (auto simp: accessor_setitem_def slot_list_def [of _ "SlotInt i" for i]
        slot_list_def [of _ "SlotOther i" for i] spread_def Let_def min_def)

text \<open>Attributes of one slot cannot be read or written through a list or a slice of
  slots: both raise IndexError.\<close>

theorem one_slot_slices_fail:
  assumes "frame_run np itemsize members cap L f" "members_ok members" "1 \<le> cap"
    and "bound_accessor f a" "\<not> ac_is_list a" "ac_slot_number a = 1" "slot_list 1 key = Inr idx"
  shows "accessor_getitem a key (fm_backend f) = Inl IndexError
    \<and> accessor_setitem np a key v (fm_backend f) = Inl IndexError"
proof -
  from bound_accessor_ref [OF assms(1-5)] obtain b attr where b: "b = fm_backend f" "backend_ok (nat cap + 1) b"
      "valid_ref b (ac_node_index a) (ac_attr_type a) attr" "ac_slot_number a = ai_slot_number attr" by metis
  have pos: "0 < nat cap + 1" by simp
  have one: "ai_slot_number attr = 1" using assms(6) b(4) by simp
  have "accessor_getitem a key b = Inl IndexError"
    using assms(7) get_attr_values_exact [OF b(2) pos b(3)] one
    by (cases key) (simp_all add: accessor_getitem_def slot_list_def assms(6))
  moreover obtain vals where vals: "vals = spread (length idx) v" by blast
  note set = setitem_unfold [OF assms(7) [folded assms(6)] vals, of np b]
  have "accessor_setitem np a key v b = Inl IndexError"
    using set_attr_values_exact [OF b(2) pos b(3), of vals "take (length vals) idx" np] one set spread_length [of "length idx" v] by (simp add: vals min_def)
  ultimately show ?thesis by (simp add: b(1))
qed

text \<open>Reading and writing through a list or a slice, in terms of the slots.\<close>

lemma getitem_slots:
  assumes "backend_ok rows b" "0 < rows" "valid_ref b (ac_node_index a) (ac_attr_type a) attr" "ai_slot_number attr \<noteq> 1"
    and "slot_list (ac_slot_number a) key = Inr idx" "\<forall>k\<in>set idx. k < ai_slot_number attr"
  shows "accessor_getitem a key b = Inr (Many (map (\<lambda>k. slots_of b attr (ac_node_index a) ! k) idx))"
  using assms(4-6) get_attr_values_exact [OF assms(1-3), of idx]
  by (cases key) (auto simp: accessor_getitem_def slot_list_def [of _ "SlotInt i" for i]
      slot_list_def [of _ "SlotOther i" for i])

lemma setitem_slots:
  assumes "backend_ok rows b" "0 < rows" "valid_ref b (ac_node_index a) (ac_attr_type a) attr" "ai_slot_number attr \<noteq> 1"
    and "slot_list (ac_slot_number a) key = Inr idx" "\<forall>k\<in>set idx. k < ai_slot_number attr"
    and "mapE (np (ai_dtype attr)) (spread (length idx) v) = Inr ws"
  shows "accessor_setitem np a key v b =
    Inr (put_slots attr (ac_node_index a)
           (assign_slots (take (length ws) idx) ws (slots_of b attr (ac_node_index a))) b,
         if ac_cb a then [v] else [])"
proof -
  obtain vals where vals: "vals = spread (length idx) v" by blast
  have len: "length vals \<le> length idx" "length ws = length vals"
    using mapE_length [OF assms(7)] by (auto simp: vals spread_def split: py_value.split)
  have "set_attr_values np (ac_node_index a) (ac_attr_type a) (take (length vals) idx) vals b =
      Inr (put_slots attr (ac_node_index a) (assign_slots (take (length ws) idx) ws (slots_of b attr (ac_node_index a))) b)"
    using set_attr_values_exact [OF assms(1-3), of vals "take (length vals) idx" np] len assms(4,6,7)
    by (auto simp: vals [symmetric] dest: in_set_takeD)
  then show ?thesis using setitem_unfold [OF assms(5) vals, of np b] by simp
qed

lemma assign_slots_read:
  assumes "distinct idx" "length ws \<le> length idx" "\<forall>k\<in>set idx. k < length slots"
  shows "map (\<lambda>k. assign_slots (take (length ws) idx) ws slots ! k) idx = ws @ drop (length ws) (map (\<lambda>k. slots ! k) idx)"
proof (rule nth_equalityI)
  fix n
  assume "n < length (map (\<lambda>k. assign_slots (take (length ws) idx) ws slots ! k) idx)"
  then have n: "n < length idx" by simp
  show "map (\<lambda>k. assign_slots (take (length ws) idx) ws slots ! k) idx ! n =
      (ws @ drop (length ws) (map (\<lambda>k. slots ! k) idx)) ! n"
  proof (cases "n < length ws")
    case True
    then have "assign_slots (take (length ws) idx) ws slots ! (take (length ws) idx ! n) = ws ! n"
      using assms by (intro assign_slots_nth) (auto dest: in_set_takeD)
    then show ?thesis using True n by (simp add: nth_append)
  next
    case False
    then have "idx ! n \<notin> set (take (length ws) idx)" using assms(1,2) n
      by (auto simp: in_set_conv_nth nth_eq_iff_index_eq)
    then show ?thesis using False n assms(2) by (simp add: assign_slots_other nth_append)
  qed
qed (use assms(2) in simp)

theorem slice_write_read:
  assumes "frame_run np itemsize members cap L f" "members_ok members" "1 \<le> cap"
    and "bound_accessor f a" "\<not> ac_is_list a" "ac_slot_number a \<noteq> 1"
    and "slot_list (ac_slot_number a) key = Inr idx" "distinct idx" "\<forall>k\<in>set idx. k < ac_slot_number a"
    and "mapE (np (accessor_dtype f a)) (spread (length idx) v) = Inr ws"
  shows "\<exists>olds b'. accessor_getitem a key (fm_backend f) = Inr (Many olds)
    \<and> accessor_setitem np a key v (fm_backend f) = Inr (b', if ac_cb a then [v] else [])
    \<and> accessor_getitem a key b' = Inr (Many (ws @ drop (length ws) olds))"
proof -
  from bound_accessor_ref [OF assms(1-5)] obtain b attr where b: "b = fm_backend f" "backend_ok (nat cap + 1) b"
      "valid_ref b (ac_node_index a) (ac_attr_type a) attr" "ac_slot_number a = ai_slot_number attr"
      "ai_dtype attr = accessor_dtype f a" by metis
  have pos: "0 < nat cap + 1" by simp
  have many: "ai_slot_number attr \<noteq> 1" "\<forall>k\<in>set idx. k < ai_slot_number attr" using assms(6,9) b(4) by simp_all
  obtain i where i: "i = ac_node_index a" by blast
  obtain s where s: "s = assign_slots (take (length ws) idx) ws (slots_of b attr i)" by blast
  obtain b' where b': "b' = put_slots attr i s b" by blast
  note len = valid_ref_checks(5) [OF b(2) pos b(3)]
  have set: "accessor_setitem np a key v b = Inr (b', if ac_cb a then [v] else [])"
    using setitem_slots [OF b(2) pos b(3) many(1) assms(7) many(2), of np v ws] assms(10) by (simp add: b(5) b' s i)
  have ok': "backend_ok (nat cap + 1) b'"
    using put_slots_keeps [OF b(2) pos b(3), of s] len by (simp add: b' s i keeps_shape_def)
  have v: "ac_attr_type a < length (nb_attrs_list b)" "attr = nb_attrs_list b ! ac_attr_type a"
      "i < ni_number (nb_nodes_list b ! ai_node_type attr)"
    using b(3) unfolding valid_ref_def i by blast+
  have ref': "valid_ref b' i (ac_attr_type a) attr"
    unfolding valid_ref_def b' i put_slots_fixed using b(3) [unfolded valid_ref_def] .
  have slots: "slots_of b' attr i = s" by (simp add: slots_of_def put_slots_get [OF b(2) pos v] b')
  have "length ws \<le> length idx"
    using mapE_length [OF assms(10)] by (auto simp: spread_def split: py_value.splits)
  then have "map (\<lambda>k. s ! k) idx = ws @ drop (length ws) (map (\<lambda>k. slots_of b attr i ! k) idx)"
    unfolding s using assms(8) many(2) len by (intro assign_slots_read) (simp_all add: i)
  then show ?thesis
    using set getitem_slots [OF b(2) pos b(3) many(1) assms(7) many(2)]
      getitem_slots [OF ok' pos ref' [unfolded i] many(1) assms(7) many(2)]
    by (auto simp: b(1) i [symmetric] slots)
qed

section \<open>Snapshots\<close>

lemma frame_run_ring:
  assumes "frame_run np itemsize members cap L f" "members_ok members" "1 \<le> cap" "fm_snapshots f = Some sl"
  shows "ring_ok sl" "sl_max_size sl = nat cap + 1" "log_ok L sl (fm_backend f)"
  using frame_run_ok [OF assms(1-3)] assms(4) by (auto simp: run_ok_def)

lemma ring_lengths:
  assumes "ring_ok sl"
  shows "length (sl_index2tick sl) = length (sl_tick2index sl)" "length (sl_tick2index sl) \<le> sl_max_size sl - 1"
proof -
  have dis: "distinct (map fst (sl_index2tick sl))" "distinct (map snd (sl_tick2index sl))"
    using assms ring_rows_distinct [OF assms] by (simp_all add: ring_ok_def)
  have d1: "distinct (map fst (sl_tick2index sl))" using assms by (simp add: ring_ok_def)
  have inv: "map_of (sl_tick2index sl) t = Some r \<longleftrightarrow> map_of (sl_index2tick sl) r = Some t" for t r
    using assms by (simp add: ring_ok_def)
  have "set (map snd (sl_tick2index sl)) = set (map fst (sl_index2tick sl))"
  proof (intro set_eqI iffI)
    fix r
    assume "r \<in> set (map snd (sl_tick2index sl))"
    then obtain t where "map_of (sl_tick2index sl) t = Some r" using d1 by auto
    then show "r \<in> set (map fst (sl_index2tick sl))" using inv by (force dest: map_of_SomeD)
  next
    fix r
    assume "r \<in> set (map fst (sl_index2tick sl))"
    then obtain t where "map_of (sl_index2tick sl) r = Some t" using dis(1) by auto
    then show "r \<in> set (map snd (sl_tick2index sl))" using inv by (force dest: map_of_SomeD)
  qed
  then have "card (set (map fst (sl_index2tick sl))) = card (set (map snd (sl_tick2index sl)))" by simp
  then show "length (sl_index2tick sl) = length (sl_tick2index sl)"
    using distinct_card [OF dis(1)] distinct_card [OF dis(2)] by simp
  have "set (map snd (sl_tick2index sl)) \<subseteq> {1..<sl_max_size sl}"
    using ring_rows_bounds [OF assms] d1 by fastforce
  then have "card (set (map snd (sl_tick2index sl))) \<le> card {1..<sl_max_size sl}" by (intro card_mono) auto
  then show "length (sl_tick2index sl) \<le> sl_max_size sl - 1" using distinct_card [OF dis(2)] by simp
qed

text \<open>C17: Over any run the two dictionaries of the ring are inverse to each other, no more
  snapshots are kept than the capacity, each kept tick has a row of its own inside the array, and
  the row is the state recorded for that tick most recently.\<close>

theorem snapshot_ring:
  assumes "frame_run np itemsize members cap L f" "members_ok members" "1 \<le> cap" "fm_snapshots f = Some sl"
  shows "distinct (get_frame_index_list sl) \<and> snapshots_len sl = length (get_frame_index_list sl)
    \<and> int (snapshots_len sl) \<le> cap
    \<and> (\<forall>tick r. map_of (sl_tick2index sl) tick = Some r \<longleftrightarrow> map_of (sl_index2tick sl) r = Some tick)
    \<and> (\<forall>tick r. map_of (sl_tick2index sl) tick = Some r \<longrightarrow> 1 \<le> r \<and> int r \<le> cap
         \<and> map_of (rev L) tick = Some (row_state (fm_backend f) r))"
proof -
  note ring = frame_run_ring [OF assms]
  have "map_of (rev L) tick = Some (row_state (fm_backend f) r)" if "map_of (sl_tick2index sl) tick = Some r" for tick r
    using ring(3) map_of_SomeD [OF that] by (force simp: log_ok_def kept_def)
  moreover have "1 \<le> r \<and> int r \<le> cap" if "map_of (sl_tick2index sl) tick = Some r" for tick r
    using ring_rows_bounds [OF ring(1) that] ring(2) assms(3) by simp
  moreover have "int (snapshots_len sl) \<le> cap" "snapshots_len sl = length (get_frame_index_list sl)"
    using ring_lengths [OF ring(1)] ring(2) assms(3) by (simp_all add: snapshots_len_def get_frame_index_list_def)
  moreover have "distinct (get_frame_index_list sl)"
    "\<forall>tick r. map_of (sl_tick2index sl) tick = Some r \<longleftrightarrow> map_of (sl_index2tick sl) r = Some tick"
    using ring(1) by (simp_all add: ring_ok_def get_frame_index_list_def)
  ultimately show ?thesis by blast
qed

text \<open>C15: Over any run of a frame (writing, resetting, recording snapshots at non-decreasing
  ticks, clearing) the ring buffer of snapshots holds exactly what the abstract log promises: per
  tick the state recorded last, of the newest ticks as many as the capacity allows, in order.\<close>

theorem snapshots_refine_log:
  assumes "frame_run np itemsize members cap L f" "members_ok members" "1 \<le> cap" "fm_snapshots f = Some sl"
    and "sorted (map fst L)"
  shows "kept sl (fm_backend f) = snapshot_dict (nat cap) L
    \<and> get_frame_index_list sl = map fst (snapshot_dict (nat cap) L)"
proof -
  have "kept sl (fm_backend f) = snapshot_dict (nat cap) L"
    using frame_run_ring [OF assms(1-4)] assms(5) by (simp add: log_ok_def)
  moreover have "map fst (kept sl (fm_backend f)) = get_frame_index_list sl"
    by (simp add: kept_def get_frame_index_list_def comp_def case_prod_beta)
  ultimately show ?thesis by simp
qed

text \<open>The values of an attribute of a node in a recorded state.\<close>

definition state_slots :: "frame_state \<Rightarrow> nat \<Rightarrow> string \<Rightarrow> nat \<Rightarrow> rat list" where
  "state_slots s t name i = (case map_of s t of None \<Rightarrow> [] | Some row \<Rightarrow> cell_slots name (row ! i))"

lemma row_state_slots: "state_slots (row_state b r) t name i = slots_in b r t name i"
  by (cases "map_of (nb_node_data b) t")
     (simp_all add: state_slots_def row_state_def slots_in_def map_of_map [where f = "\<lambda>arr. na_rows arr ! r"])

lemma concat_map_concat: "concat (concat (map g xs)) = concat (map (\<lambda>x. concat (g x)) xs)"
  by (induction xs) auto

lemma query_slots_exact:
  assumes "backend_ok rows b" "map_of (nb_node_data b) t = Some arr" "j < length (nb_attrs_list b)"
    and "attr = nb_attrs_list b ! j" "ai_node_type attr = t" "i < ni_number (nb_nodes_list b ! t)"
    and "\<And>r. map_of (sl_tick2index sl) (int tick) = Some r \<Longrightarrow> r < rows"
  shows "query_slots np_double sl b arr tick i j =
    Inr (case map_of (kept sl b) (int tick) of None \<Rightarrow> replicate (ai_slot_number attr) 0
         | Some s \<Rightarrow> map np_double (state_slots s t (ai_name attr) i))"
proof -
  have reg: "registry_ok b" using assms(1) by (simp add: backend_ok_def)
  note q = registered_attr [OF reg assms(3), folded assms(4), unfolded assms(5)]
  from data_lookup [OF assms(1) q(1)] have arr: "na_dtype arr = map gen_numpy_dtype (attrs_of b t)"
      "array_ok rows (ni_number (nb_nodes_list b ! t)) arr"
    using assms(2) by auto
  have field: "(ai_name attr, ai_dtype attr, ai_slot_number attr) \<in> set (na_dtype arr)"
    using attr_field [OF q(2)] arr(1) by simp
  have kept: "map_of (kept sl b) u = map_option (row_state b) (map_of (sl_tick2index sl) u)" for u
    by (simp add: kept_def map_of_map [where f = "row_state b"])
  have get: "py_get (nb_attrs_list b) (int j) = Inr attr" using assms(3,4) by (simp add: py_get_def)
  show ?thesis
  proof (cases "map_of (sl_tick2index sl) (int tick)")
    case None
    then show ?thesis by (simp add: query_slots_def get kept)
  next
    case (Some r)
    note row = array_row_ok [OF arr(2) field assms(7) [OF Some]]
    have "py_get (map (cell_slots (ai_name attr)) (na_rows arr ! r)) (int i) = Inr (cell_slots (ai_name attr) (na_rows arr ! r ! i))"
      using assms(6) row(2) by (simp add: py_get_nonneg)
    then show ?thesis
      by (simp add: query_slots_def get kept row_state_slots slots_in_def Some assms(2) row(1))
  qed
qed

text \<open>C16: A query over ticks, nodes and attributes of the snapshot list answers the recorded
  slots of each attribute in the kept state of each tick, grouped by tick, then by node, then by
  attribute, each in the order of the request, with zeros for a tick that is not kept. The
  documentation of the slice interface groups the values of a tick by attribute first; the finding
  linked to this theorem discloses that.\<close>

theorem query_reads_log:
  assumes "frame_run np itemsize members cap L f" "members_ok members" "1 \<le> cap" "fm_snapshots f = Some sl"
    and "sorted (map fst L)" "t < length (nb_nodes_list (fm_backend f))"
    and "ticks \<noteq> []" "\<forall>u\<in>set ticks. 0 \<le> u \<and> u < 2 ^ 32"
    and "nodes \<noteq> []" "\<forall>i\<in>set nodes. i < ni_number (nb_nodes_list (fm_backend f) ! t)"
    and "attrs \<noteq> []" "\<forall>j\<in>set attrs. j < length (nb_attrs_list (fm_backend f)) \<and> ai_node_type (nb_attrs_list (fm_backend f) ! j) = t"
  shows "np_query np_double t ticks nodes attrs sl (fm_backend f) =
    Inr (concat (map (\<lambda>u. concat (map (\<lambda>i. concat (map (\<lambda>j.
      let attr = nb_attrs_list (fm_backend f) ! j
      in case map_of (snapshot_dict (nat cap) L) u of
           None \<Rightarrow> replicate (ai_slot_number attr) 0
         | Some s \<Rightarrow> map np_double (state_slots s t (ai_name attr) i)) attrs)) nodes)) ticks))"
proof -
  obtain b where b: "b = fm_backend f" by blast
  obtain v where v: "v = (\<lambda>u i j. case map_of (kept sl b) u of None \<Rightarrow> replicate (ai_slot_number (nb_attrs_list b ! j)) 0
      | Some s \<Rightarrow> map np_double (state_slots s t (ai_name (nb_attrs_list b ! j)) i))" by blast
  note ring = frame_run_ring [OF assms(1-4)]
  have kept: "kept sl b = snapshot_dict (nat cap) L" using ring(2,3) assms(5) by (simp add: log_ok_def b)
  have ok: "backend_ok (nat cap + 1) b" using frame_ok_backend [OF run_ok_frame [OF frame_run_ok [OF assms(1-3)]]] by (simp add: b)
  from data_lookup [OF ok assms(6) [folded b]] obtain arr where arr: "map_of (nb_node_data b) t = Some arr" by metis
  have "query_slots np_double sl b arr (nat u) i j = Inr (v u i j)"
    if "u \<in> set ticks" "i \<in> set nodes" "j \<in> set attrs" for u i j
    using query_slots_exact [OF ok arr _ refl, of j i sl "nat u" np_double] assms(8,10,12) that
      ring_rows_bounds(2) [OF ring(1)] ring(2) by (simp add: b v)
  then have "mapE (\<lambda>u. bindE (c_unsigned 32 u) (\<lambda>tick. mapE (\<lambda>i. mapE (query_slots np_double sl b arr tick i) attrs) nodes)) ticks
      = Inr (map (\<lambda>u. map (\<lambda>i. map (v u i) attrs) nodes) ticks)"
    using assms(8) by (intro mapE_Inr_map) (simp add: c_unsigned_def mapE_Inr_map [where g = "\<lambda>i. map (v _ i) attrs"] mapE_Inr_map)
  moreover have "concat (concat (map (\<lambda>u. map (\<lambda>i. map (v u i) attrs) nodes) ticks)) \<noteq> []"
    using assms(7,9,11) by auto
  ultimately have "np_query np_double t ticks nodes attrs sl b =
      Inr (concat (concat (concat (map (\<lambda>u. map (\<lambda>i. map (v u i) attrs) nodes) ticks))))"
    using assms(7,9) by (simp add: np_query_def dict_get_def arr)
  moreover have "concat (concat (concat (map (\<lambda>u. map (\<lambda>i. map (v u i) attrs) nodes) ticks))) =
      concat (map (\<lambda>u. concat (map (\<lambda>i. concat (map (v u i) attrs)) nodes)) ticks)"
    by (induction ticks) (simp_all add: concat_map_concat)
  ultimately show ?thesis unfolding b [symmetric] kept [symmetric] Let_def by (simp add: v)
qed

section \<open>The history files\<close>

text \<open>
  The window of a memory map has 100 rows.  Its position is not reset when the window is moved on, so the
  101st recording is out of range.
\<close>

lemma mmap_record_step:
  assumes "mm_current_record_number m < 100" "length (mm_data_arr m) = 100" "mm_buffer_size m = 100"
  shows "\<exists>m'. mmap_record row m = Inr m' \<and> mm_current_record_number m' = mm_current_record_number m + 1
    \<and> length (mm_data_arr m') = 100 \<and> mm_buffer_size m' = 100"
  using assms by (simp add: mmap_record_def py_set_def mmap_reload_def Let_def)

lemma mmap_record_full:
  assumes "mm_current_record_number m = 100" "length (mm_data_arr m) = 100"
  shows "mmap_record row m = Inl IndexError"
  using assms py_pos_nonneg [of 100 100] by (simp add: mmap_record_def py_set_def del: py_pos_nonneg)

text \<open>The memory-mapped history of a frame takes exactly 100 records; the next one raises
  IndexError, because a reload never starts the count again.\<close>

theorem history_overflows:
  "(\<exists>m. foldE mmap_record rows (new_mmap path itemsize n) = Inr m) = (length rows \<le> 100)
   \<and> (100 < length rows \<longrightarrow> foldE mmap_record rows (new_mmap path itemsize n) = Inl IndexError)"
proof -
  have loop: "(k + length rows \<le> 100 \<longrightarrow> (\<exists>m'. foldE mmap_record rows m = Inr m'))
      \<and> (100 < k + length rows \<longrightarrow> foldE mmap_record rows m = Inl IndexError)"
    if "mm_current_record_number m = k" "k \<le> 100" "length (mm_data_arr m) = 100" "mm_buffer_size m = 100" for k m
    using that
  proof (induction rows arbitrary: k m)
    case Nil
    then show ?case by simp
  next
    case (Cons row rows)
    show ?case
    proof (cases "k < 100")
      case True
      with Cons.prems obtain m' where m': "mmap_record row m = Inr m'" "mm_current_record_number m' = Suc k"
          "length (mm_data_arr m') = 100" "mm_buffer_size m' = 100"
        using mmap_record_step [of m row] by auto
      with Cons.IH [OF m'(2) _ m'(3,4)] True show ?thesis by simp
    next
      case False
      with Cons.prems mmap_record_full [of m row] show ?thesis by simp
    qed
  qed
  from loop [of "new_mmap path itemsize n" 0] show ?thesis
    by (auto simp: new_mmap_def mmap_reload_def mmap_buffer_size_def not_le)
qed

text \<open>
  Clearing the snapshots forgets the history files but leaves the history switched on, and it cannot be
  enabled again: from then on no recording succeeds.
\<close>

theorem history_lost_by_clear:
  assumes "frame_run np itemsize members cap L f" "members_ok members" "1 \<le> cap"
    and "fm_snapshots f = Some sl" "sl_history_enabled sl" "nb_nodes_list (fm_backend f) \<noteq> []"
    and "snapshot_list_reset f = Inr f'" "frame_enable_history itemsize' path f' = Inr f''"
    and "- (2 ^ 31) \<le> tick" "tick < 2 ^ 31"
  shows "frame_take_snapshot tick f'' = Inl KeyError"
proof -
  note run = frame_run_ok [OF assms(1-3)]
  have run': "run_ok cap [] f'" by (rule run_ok_clear [OF run assms(7)])
  from assms(7) obtain sl' where sl': "fm_snapshots f' = Some sl'" "sl_history_enabled sl'" "sl_history sl' = []"
      "nb_nodes_list (fm_backend f') = nb_nodes_list (fm_backend f)"
    using assms(5) by (auto simp: snapshot_list_reset_def snapshots_reset_def assms(4) res_simps reset_rows_def)
  have f'': "f'' = f'" using assms(8) sl' by (auto simp: frame_enable_history_def np_enable_history_def)
  obtain b where b: "b = fm_backend f'" by blast
  have ok: "backend_ok (nat cap + 1) b" using run_ok_frame [OF run'] by (simp add: frame_ok_def b)
  have ring: "ring_ok sl'" "sl_max_size sl' = nat cap + 1" using run' sl'(1) by (auto simp: run_ok_def)
  obtain target sl1 where t: "target_row tick sl' = (target, sl1)" by (cases "target_row tick sl'")
  then have h: "sl_history (forget_row target sl1) = []" "sl_history_enabled (forget_row target sl1)"
    using sl'(2,3) by (auto simp: forget_row_def target_row_def Let_def split: option.splits)
  have "map fst (nb_node_data b) = [0..<length (nb_nodes_list b)]" using ok by (simp add: backend_ok_def)
  then obtain arr rest where data: "nb_node_data b = (0, arr) # rest"
    using assms(6) sl'(4) by (cases "nb_node_data b") (auto simp: b upt_conv_Cons)
  have "0 < length (nb_nodes_list b)" "length (na_rows arr) = nat cap + 1"
    using ok assms(6) sl'(4) by (auto simp: b backend_ok_def array_ok_def data [unfolded b])
  then have "copy_row target b (0, arr) ([], [], True) = Inl KeyError"
    using target_row_bounds(2) [OF ring(1) t] ring(2)
    by (cases "na_rows arr") (auto simp: copy_row_def py_get_def py_pos_def py_set_def dict_get_def)
  then have "np_take_snapshot tick sl' b = Inl KeyError"
    by (simp add: np_take_snapshot_def t Let_def h data)
  then show ?thesis using assms(9,10) by (simp add: f'' frame_take_snapshot_def c_signed_def sl'(1) b)
qed

end
