(* ===== verification/FrameSamples.thy ===== *)
theory FrameSamples imports FrameLaws begin

text \<open>
  Concrete instances of the properties of the frame: two stations with a one-slot attribute and an
  attribute of three slots, and a ring of two snapshots.
\<close>

definition exact :: "string \<Rightarrow> rat \<Rightarrow> rat res" where
  "exact dtype v = Inr v"

definition demo_members :: "(string \<times> frame_node) list" where
  "demo_members =
     [(''stations'', \<lparr>fn_node_cls = \<lparr>nc_name = ''stations'',
         nc_attributes = [(''bikes'', \<lparr>at_dtype = ''int'', at_slot_number = 1, at_is_const = False, at_is_list = False\<rparr>),
           (''trips'', \<lparr>at_dtype = ''float'', at_slot_number = 3, at_is_const = False, at_is_list = False\<rparr>)],
         nc_callbacks = [''bikes'']\<rparr>, fn_number = 2\<rparr>)]"

lemma demo_members_ok: "members_ok demo_members"
  by (simp add: members_ok_def demo_members_def)

definition bikes :: accessor where
  "bikes = \<lparr>ac_node_index = 1, ac_attr_type = 0, ac_slot_number = 1, ac_is_list = False, ac_cb = True,
            ac_cur_iter_slot_index = 0\<rparr>"

definition trips :: accessor where
  "trips = \<lparr>ac_node_index = 0, ac_attr_type = 1, ac_slot_number = 3, ac_is_list = False, ac_cb = False,
            ac_cur_iter_slot_index = 0\<rparr>"

text \<open>Built; five bikes set; recorded at 0, reset, recorded at 1 and 2.\<close>

definition demo0 :: frame where
  "demo0 = projr (frame_init demo_members True 2)"

definition demo1 :: frame where
  "demo1 = demo0\<lparr>fm_backend := fst (projr (accessor_setitem exact bikes (SlotInt 0) (Scalar 5) (fm_backend demo0)))\<rparr>"

definition demo2 :: frame where
  "demo2 = projr (frame_take_snapshot 0 demo1)"

definition demo3 :: frame where
  "demo3 = projr (frame_base_reset demo2)"

definition demo4 :: frame where
  "demo4 = projr (frame_take_snapshot 1 demo3)"

definition demo5 :: frame where
  "demo5 = projr (frame_take_snapshot 2 demo4)"

lemma demo_returns:
  "frame_init demo_members True 2 = Inr demo0"
  "accessor_setitem exact bikes (SlotInt 0) (Scalar 5) (fm_backend demo0) = Inr (fm_backend demo1, [Scalar 5])"
  "frame_take_snapshot 0 demo1 = Inr demo2" "frame_base_reset demo2 = Inr demo3"
  "frame_take_snapshot 1 demo3 = Inr demo4" "frame_take_snapshot 2 demo4 = Inr demo5"
proof -
  have r: "\<not> isl x \<Longrightarrow> x = Inr (projr x)" for x :: "'a + 'b" by (cases x) auto
  show "frame_init demo_members True 2 = Inr demo0" unfolding demo0_def by (rule r) code_simp
  show "accessor_setitem exact bikes (SlotInt 0) (Scalar 5) (fm_backend demo0) = Inr (fm_backend demo1, [Scalar 5])"
    by code_simp
  show "frame_take_snapshot 0 demo1 = Inr demo2" unfolding demo2_def by (rule r) code_simp
  show "frame_base_reset demo2 = Inr demo3" unfolding demo3_def by (rule r) code_simp
  show "frame_take_snapshot 1 demo3 = Inr demo4" unfolding demo4_def by (rule r) code_simp
  show "frame_take_snapshot 2 demo4 = Inr demo5" unfolding demo5_def by (rule r) code_simp
qed

lemma demo_bound: "bound_accessor demo0 bikes" "bound_accessor demo0 trips"
proof -
  have "map_of (fm_nodes demo0) ''stations'' \<noteq> None" by code_simp
  then obtain insts where i: "map_of (fm_nodes demo0) ''stations'' = Some insts" by auto
  have "length (the (map_of (fm_nodes demo0) ''stations'')) = 2
     \<and> map_of (nd_dict (the (map_of (fm_nodes demo0) ''stations'') ! 1)) ''bikes'' = Some (Accessor bikes)
     \<and> map_of (nd_dict (the (map_of (fm_nodes demo0) ''stations'') ! 0)) ''trips'' = Some (Accessor trips)" by code_simp
  then have "length insts = 2" "map_of (nd_dict (insts ! 1)) ''bikes'' = Some (Accessor bikes)"
    "map_of (nd_dict (insts ! 0)) ''trips'' = Some (Accessor trips)" by (simp_all add: i)
  with i show "bound_accessor demo0 bikes" "bound_accessor demo0 trips"
    unfolding bound_accessor_def by (metis lessI numeral_2_eq_2 One_nat_def, metis zero_less_numeral)
qed

lemma demo_run0: "frame_run exact (\<lambda>_. 32) demo_members 2 [] demo0"
  by (rule frame_run.start) (rule demo_returns(1))

lemma demo_run1: "frame_run exact (\<lambda>_. 32) demo_members 2 [] demo1"
proof -
  from demo_bound(1) obtain attr insts x name where "map_of (fm_nodes demo0) attr = Some insts" "x < length insts"
      "map_of (nd_dict (insts ! x)) name = Some (Accessor bikes)" unfolding bound_accessor_def by blast
  from frame_run.setitem [OF demo_run0 this demo_returns(2)]
  have "frame_run exact (\<lambda>_. 32) demo_members 2 [] (demo0\<lparr>fm_backend := fm_backend demo1\<rparr>)" .
  moreover have "demo0\<lparr>fm_backend := fm_backend demo1\<rparr> = demo1" by (simp add: demo1_def)
  ultimately show ?thesis by simp
qed

definition demo_log :: "(int \<times> frame_state) list" where
  "demo_log = [(0, current_state demo1), (1, current_state demo3), (2, current_state demo4)]"

lemma demo_run2: "frame_run exact (\<lambda>_. 32) demo_members 2 [(0, current_state demo1)] demo2"
  using frame_run.recording [OF demo_run1 demo_returns(3)] by simp

lemma demo_run5: "frame_run exact (\<lambda>_. 32) demo_members 2 demo_log demo5"
proof -
  note r4 = frame_run.recording [OF frame_run.reset [OF demo_run2 demo_returns(4)] demo_returns(5)]
  from frame_run.recording [OF r4 demo_returns(6)] show ?thesis by (simp add: demo_log_def)
qed

section \<open>Instances\<close>

theorem frame_run_typed_witness:
  "(\<exists>v. accessor_getitem trips (SlotInt (int 2)) (fm_backend demo0) = Inr (Scalar v)) \<and> (\<exists>f'. frame_base_reset demo0 = Inr f')"
proof -
  have a: "\<not> ac_is_list trips" "2 < ac_slot_number trips" "(2 :: nat) < 2 ^ 32" "(1 :: int) \<le> 2"
    by (simp_all add: trips_def)
  note t = frame_run_typed [OF demo_run0 demo_members_ok a(4)]
  show ?thesis using t [THEN conjunct1, rule_format, OF demo_bound(2) a(1-3)] t by blast
qed

theorem attr_write_read_witness:
  "\<exists>b'. accessor_setitem exact bikes (SlotInt (int 0)) (Scalar 5) (fm_backend demo0) = Inr (b', [Scalar 5])
     \<and> accessor_getitem bikes (SlotInt (int 0)) b' = Inr (Scalar 5)
     \<and> accessor_getitem trips (SlotInt (int 2)) b' = accessor_getitem trips (SlotInt (int 2)) (fm_backend demo0)"
proof -
  have a: "\<not> ac_is_list bikes" "0 < ac_slot_number bikes" "\<not> ac_is_list trips" "2 < ac_slot_number trips" "ac_cb bikes"
    "ac_attr_type trips \<noteq> ac_attr_type bikes"
    by (simp_all add: bikes_def trips_def)
  from attr_write_read [OF demo_run0 demo_members_ok _ demo_bound(1) a(1,2), of 5 5]
  obtain b' where b': "accessor_setitem exact bikes (SlotInt (int 0)) (Scalar 5) (fm_backend demo0) = Inr (b', [Scalar 5])"
    "accessor_getitem bikes (SlotInt (int 0)) b' = Inr (Scalar 5)"
    "\<forall>a' k'. bound_accessor demo0 a' \<longrightarrow> \<not> ac_is_list a' \<longrightarrow> k' < ac_slot_number a' \<longrightarrow> k' < 2 ^ 32 \<longrightarrow>
         (ac_node_index a', ac_attr_type a', k') \<noteq> (ac_node_index bikes, ac_attr_type bikes, 0) \<longrightarrow>
         accessor_getitem a' (SlotInt (int k')) b' = accessor_getitem a' (SlotInt (int k')) (fm_backend demo0)"
    by (auto simp: exact_def a(5))
  have "accessor_getitem trips (SlotInt (int 2)) b' = accessor_getitem trips (SlotInt (int 2)) (fm_backend demo0)"
    by (rule b'(3) [rule_format, OF demo_bound(2) a(3,4)]) (simp_all add: a(6))
  with b'(1,2) show ?thesis by blast
qed

theorem one_slot_slices_fail_witness:
  "accessor_getitem bikes (SlotSlice None None) (fm_backend demo0) = Inl IndexError
   \<and> accessor_setitem exact bikes (SlotSlice None None) (Scalar 1) (fm_backend demo0) = Inl IndexError"
proof (rule one_slot_slices_fail [OF demo_run0 demo_members_ok _ demo_bound(1)])
  show "slot_list 1 (SlotSlice None None) = Inr [0]" by code_simp
qed (simp_all add: bikes_def)

theorem slice_write_read_witness:
  "\<exists>olds b'. accessor_getitem trips (SlotList [2, 0]) (fm_backend demo0) = Inr (Many olds)
    \<and> accessor_setitem exact trips (SlotList [2, 0]) (Many [7]) (fm_backend demo0) = Inr (b', [])
    \<and> accessor_getitem trips (SlotList [2, 0]) b' = Inr (Many ([7] @ drop 1 olds))"
proof -
  have t: "\<not> ac_is_list trips" "ac_slot_number trips \<noteq> 1" "\<not> ac_cb trips" "\<forall>k\<in>set [2, 0 :: nat]. k < ac_slot_number trips"
    by (simp_all add: trips_def)
  have l: "slot_list (ac_slot_number trips) (SlotList [2, 0]) = Inr [2, 0]" by code_simp
  have m: "mapE (exact (accessor_dtype demo0 trips)) (spread (length [2, 0 :: nat]) (Many [7])) = Inr [7]"
    by (simp add: spread_def exact_def)
  from slice_write_read [OF demo_run0 demo_members_ok _ demo_bound(2) t(1,2) l _ t(4) m] t(3)
  show ?thesis by simp
qed

lemma demo_snapshots:
  obtains sl where "fm_snapshots demo5 = Some sl"
proof -
  have "fm_snapshots demo5 \<noteq> None" by code_simp
  then show thesis using that by auto
qed

theorem snapshot_ring_witness:
  "\<exists>sl. fm_snapshots demo5 = Some sl \<and> distinct (get_frame_index_list sl) \<and> int (snapshots_len sl) \<le> 2"
  using demo_snapshots snapshot_ring [OF demo_run5 demo_members_ok] by (metis one_le_numeral)

theorem snapshots_refine_log_witness:
  "\<exists>sl. fm_snapshots demo5 = Some sl \<and> get_frame_index_list sl = [1, 2]"
proof -
  obtain sl where sl: "fm_snapshots demo5 = Some sl" by (rule demo_snapshots)
  have "get_frame_index_list sl = map fst (snapshot_dict (nat 2) demo_log)"
    using snapshots_refine_log [OF demo_run5 demo_members_ok _ sl] by (simp add: demo_log_def)
  also have "\<dots> = [1, 2]" by (simp add: demo_log_def snapshot_dict_def)
  finally show ?thesis using sl by blast
qed

theorem query_reads_log_witness:
  "\<exists>sl. fm_snapshots demo2 = Some sl \<and> np_query id 0 [0, 7] [1] [0] sl (fm_backend demo2) = Inr [5, 0]"
proof -
  have "fm_snapshots demo2 \<noteq> None" by code_simp
  then obtain sl where sl: "fm_snapshots demo2 = Some sl" by auto
  have f: "0 < length (nb_nodes_list (fm_backend demo2))" "\<forall>i\<in>set [1]. i < ni_number (nb_nodes_list (fm_backend demo2) ! 0)"
    "\<forall>j\<in>set [0]. j < length (nb_attrs_list (fm_backend demo2)) \<and> ai_node_type (nb_attrs_list (fm_backend demo2) ! j) = 0"
    by code_simp+
  have v: "concat (map (\<lambda>u. concat (map (\<lambda>i. concat (map (\<lambda>j.
      let attr = nb_attrs_list (fm_backend demo2) ! j
      in case map_of (snapshot_dict (nat 2) [(0, current_state demo1)]) u of
           None \<Rightarrow> replicate (ai_slot_number attr) 0
         | Some s \<Rightarrow> map id (state_slots s 0 (ai_name attr) i)) [0])) [1])) [0, 7]) = [5, 0]"
    by code_simp
  have "sorted (map fst [(0, current_state demo1)])" by simp
  from query_reads_log [OF demo_run2 demo_members_ok _ sl this f(1) _ _ _ f(2) _ f(3), of "[0, 7]" id, unfolded v]
  have "np_query id 0 [0, 7] [1] [0] sl (fm_backend demo2) = Inr [5, 0]" by simp
  with sl show ?thesis by blast
qed

theorem history_overflows_witness:
  "foldE mmap_record (replicate 101 []) (new_mmap ''/tmp/stations.bin'' 8 2) = Inl IndexError"
proof -
  have "100 < length (replicate 101 [] :: np_element list list)" by (simp only: length_replicate)
  with history_overflows [THEN conjunct2] show ?thesis by blast
qed

definition demo6 :: frame where
  "demo6 = projr (frame_enable_history (\<lambda>_. 32) ''/tmp'' demo0)"

theorem history_lost_by_clear_witness:
  "\<exists>f' f''. snapshot_list_reset demo6 = Inr f' \<and> frame_enable_history (\<lambda>_. 32) ''/tmp'' f' = Inr f''
     \<and> frame_take_snapshot 0 f'' = Inl KeyError"
proof -
  have r: "\<not> isl x \<Longrightarrow> x = Inr (projr x)" for x :: "'a + 'b" by (cases x) auto
  have h: "frame_enable_history (\<lambda>_. 32) ''/tmp'' demo0 = Inr demo6" unfolding demo6_def by (rule r) code_simp
  note run = frame_run.history [OF demo_run0 h]
  have "(case fm_snapshots demo6 of None \<Rightarrow> False | Some sl \<Rightarrow> sl_history_enabled sl)" by code_simp
  then obtain sl where sl: "fm_snapshots demo6 = Some sl" "sl_history_enabled sl" by (auto split: option.splits)
  have n: "nb_nodes_list (fm_backend demo6) \<noteq> []" by code_simp
  obtain f' where c: "snapshot_list_reset demo6 = Inr f'" 
    using reset_rows_exact [OF frame_ok_backend [OF run_ok_frame [OF frame_run_ok [OF run demo_members_ok]]]]
    by (auto simp: snapshot_list_reset_def snapshots_reset_def sl(1))
  then obtain sl' where "fm_snapshots f' = Some sl'" "sl_history_enabled sl'"
    using sl by (auto simp: snapshot_list_reset_def snapshots_reset_def res_simps)
  then have e: "frame_enable_history (\<lambda>_. 32) ''/tmp'' f' = Inr f'"
    by (simp add: frame_enable_history_def np_enable_history_def)
  from history_lost_by_clear [OF run demo_members_ok _ sl n c e, of 0] c e show ?thesis by auto
qed

end
