(* ===== verification/CommRegistry.thy ===== *)
theory CommRegistry imports PyStrings begin

text \<open>
  \<open>communication/message.py\<close> and \<open>registry_table.py\<close>: conditional events over messages.  An event is a string
  \<open>source:type:number\<close> or a tuple of events ending with an operation; its messages are cached per unit
  event until the event is satisfied, and then popped and handed to a handler.
\<close>

section \<open>Messages\<close>

text \<open>A \<open>SessionMessage\<close> has a session type and stage, a plain \<open>Message\<close> has none.\<close>

datatype session_type = TaskSession | NotificationSession

datatype session_stage = TaskRequest | TaskReceive | TaskComplete | NotificationRequest | NotificationReceive

record 'b message =
  ms_tag :: string
  ms_source :: string
  ms_destination :: string
  ms_body :: 'b
  ms_session_id :: string
  ms_message_id :: string
  ms_session :: "(session_type \<times> session_stage) option"

definition session_id_generator :: "string \<Rightarrow> string \<Rightarrow> string \<Rightarrow> string" where
  "session_id_generator unique_id source destination = unique_id @ ''.'' @ source @ ''.'' @ destination"

definition new_message :: "string \<Rightarrow> string \<Rightarrow> string \<Rightarrow> string \<Rightarrow> string \<Rightarrow> 'b \<Rightarrow> 'b message" where
  "new_message unique_id message_id tag source destination body =
     \<lparr>ms_tag = tag, ms_source = source, ms_destination = destination, ms_body = body,
      ms_session_id = session_id_generator unique_id source destination, ms_message_id = message_id,
      ms_session = None\<rparr>"

definition new_session_message ::
  "string \<Rightarrow> string \<Rightarrow> string \<Rightarrow> string \<Rightarrow> string \<Rightarrow> 'b \<Rightarrow> session_type \<Rightarrow> session_stage option \<Rightarrow> 'b message" where
  "new_session_message unique_id message_id tag source destination body ty stage =
     (new_message unique_id message_id tag source destination body)
       \<lparr>ms_session := Some (ty, case stage of
          Some st \<Rightarrow> st
        | None \<Rightarrow> case ty of TaskSession \<Rightarrow> TaskRequest | NotificationSession \<Rightarrow> NotificationRequest)\<rparr>"

text \<open>Turning a message around or passing it on keeps its session; the identifiers are drawn by \<open>uuid\<close>.\<close>

definition message_reply :: "string option \<Rightarrow> 'b \<Rightarrow> string \<Rightarrow> 'b message \<Rightarrow> 'b message" where
  "message_reply tag body new_id m =
     m\<lparr>ms_source := ms_destination m, ms_destination := ms_source m,
       ms_tag := (case tag of None \<Rightarrow> ms_tag m | Some t \<Rightarrow> if t = [] then ms_tag m else t),
       ms_body := body, ms_message_id := new_id\<rparr>"

definition message_forward :: "string \<Rightarrow> string option \<Rightarrow> 'b \<Rightarrow> string \<Rightarrow> 'b message \<Rightarrow> 'b message" where
  "message_forward destination tag body new_id m =
     m\<lparr>ms_source := ms_destination m, ms_destination := destination,
       ms_tag := (case tag of None \<Rightarrow> ms_tag m | Some t \<Rightarrow> if t = [] then ms_tag m else t),
       ms_body := body, ms_message_id := new_id\<rparr>"

section \<open>Conditional events\<close>

datatype operation = AND_op | OR_op

text \<open>What can be given as an event: a string, a tuple, or any other object.\<close>

datatype event_desc = EvStr string | EvTuple "event_desc list" | EvOther

datatype suffix_tree = UnitTree string | OpTree operation "suffix_tree list"

type_synonym 'b unit_dict = "(string \<times> 'b message list) list"

record 'b conditional_event =
  ce_tree :: suffix_tree
  ce_units :: "'b unit_dict"

definition syntax_error :: py_error where
  "syntax_error = MaroError ''ConditionalEventSyntaxError''"

definition unit_event_syntax_check :: "string \<Rightarrow> unit res" where
  "unit_event_syntax_check unit_event =
     (case split_on CHR '':'' unit_event of
        [source, tag, number] \<Rightarrow>
          if number = [] then Inl IndexError
          else (case py_int_of (if last number = CHR ''%'' then butlast number else number) of
                  None \<Rightarrow> Inl syntax_error
                | Some n \<Rightarrow> Inr ())
      | _ \<Rightarrow> Inl syntax_error)"

definition operation_of :: "event_desc \<Rightarrow> operation option" where
  "operation_of e =
     (case e of
        EvStr s \<Rightarrow> if s = ''&&'' \<or> s = ''AND'' then Some AND_op
                   else if s = ''||'' \<or> s = ''OR'' then Some OR_op else None
      | _ \<Rightarrow> None)"

lemma size_butlast: "es \<noteq> [] \<Longrightarrow> size_list f (butlast es) < Suc (size_list f es)"
  by (induction es) auto

function decomposer :: "event_desc \<Rightarrow> 'b unit_dict \<Rightarrow> (suffix_tree \<times> 'b unit_dict) res"
  and decompose_slots :: "event_desc list \<Rightarrow> 'b unit_dict \<Rightarrow> (suffix_tree list \<times> 'b unit_dict) res" where
  "decomposer (EvStr s) d =
     bindE (unit_event_syntax_check s) (\<lambda>_. Inr (UnitTree s, AList.update s [] d))"
| "decomposer (EvTuple es) d =
     (if es = [] then Inl IndexError
      else case operation_of (last es) of
        None \<Rightarrow> Inl syntax_error
      | Some op \<Rightarrow> bindE (decompose_slots (butlast es) d) (\<lambda>(nodes, d). Inr (OpTree op nodes, d)))"
| "decomposer EvOther d = Inl syntax_error"
| "decompose_slots [] d = Inr ([], d)"
| "decompose_slots (slot # slots) d =
     bindE (case slot of EvOther \<Rightarrow> Inl AttributeError | _ \<Rightarrow> decomposer slot d) (\<lambda>(node, d).
     bindE (decompose_slots slots d) (\<lambda>(nodes, d). Inr (node # nodes, d)))"
  by pat_completeness auto
termination
  by (relation "measure (\<lambda>x. case x of Inl (e, _) \<Rightarrow> size e | Inr (es, _) \<Rightarrow> size_list size es)")
     (auto simp: size_butlast)

definition new_conditional_event :: "event_desc \<Rightarrow> 'b conditional_event res" where
  "new_conditional_event e =
     bindE (decomposer e []) (\<lambda>(tree, d). Inr \<lparr>ce_tree = tree, ce_units = d\<rparr>)"

text \<open>The peers known at the moment, by type.\<close>

type_synonym peers = "(string \<times> string list) list"

definition parse_int :: "string \<Rightarrow> int res" where
  "parse_int s = (case py_int_of s of None \<Rightarrow> Inl ValueError | Some n \<Rightarrow> Inr n)"

definition get_request_message_number :: "peers \<Rightarrow> string \<Rightarrow> int res" where
  "get_request_message_number peers unit_event =
     (case split_on CHR '':'' unit_event of
        [component_type, _, number] \<Rightarrow>
          bindE (if component_type = ''*'' then Inr (length (concat (map snd peers)))
                 else bindE (dict_get peers component_type) (\<lambda>names. Inr (length names))) (\<lambda>peers_number.
            if peers_number = 0 then Inl (MaroError ''PeersMissError'')
            else if number = [] then Inl IndexError
            else if last number \<noteq> CHR ''%'' then
              bindE (parse_int number) (\<lambda>n. Inr (min n (int peers_number)))
            else bindE (parse_int (butlast number)) (\<lambda>n. Inr (min (n * int peers_number div 100) (int peers_number))))
      | _ \<Rightarrow> Inl ValueError)"

definition unit_event_satisfied :: "peers \<Rightarrow> 'b unit_dict \<Rightarrow> string \<Rightarrow> string list res" where
  "unit_event_satisfied peers d unit_event =
     bindE (get_request_message_number peers unit_event) (\<lambda>n.
     bindE (dict_get d unit_event) (\<lambda>messages.
       Inr (if n \<le> int (length messages) then [unit_event] else [])))"

text \<open>The loop over the results: a missing part ends a conjunction, the first part there ends a disjunction.\<close>

fun combine :: "operation \<Rightarrow> string list list \<Rightarrow> string list list \<Rightarrow> string list" where
  "combine op [] results = concat results"
| "combine op (r # rs) results =
     (if op = AND_op \<and> r = [] then []
      else if op = OR_op \<and> r \<noteq> [] then r
      else combine op rs results)"

lemma mapE_cong [fundef_cong]: "xs = ys \<Longrightarrow> (\<And>x. x \<in> set ys \<Longrightarrow> f x = g x) \<Longrightarrow> mapE f xs = mapE g ys"
  by (induction xs arbitrary: ys) auto

fun conditional_event_satisfied :: "peers \<Rightarrow> 'b unit_dict \<Rightarrow> suffix_tree \<Rightarrow> string list res" where
  "conditional_event_satisfied peers d (UnitTree u) = unit_event_satisfied peers d u"
| "conditional_event_satisfied peers d (OpTree op nodes) =
     bindE (mapE (conditional_event_satisfied peers d) nodes) (\<lambda>results. Inr (combine op results results))"

definition unit_matches :: "string \<Rightarrow> 'b message \<Rightarrow> bool" where
  "unit_matches unit_event m =
     (case split_on CHR '':'' unit_event of
        [event_source, event_type, _] \<Rightarrow>
          (event_source = ''*'' \<or> substring event_source (ms_source m))
          \<and> (event_type = ''*'' \<or> event_type = ms_tag m)
      | _ \<Rightarrow> False)"

definition push_message :: "'b message \<Rightarrow> 'b conditional_event \<Rightarrow> 'b conditional_event" where
  "push_message m ev =
     ev\<lparr>ce_units := map (\<lambda>(u, messages). (u, if unit_matches u m then messages @ [m] else messages)) (ce_units ev)\<rparr>"

definition pop_unit :: "peers \<Rightarrow> string \<Rightarrow> 'b message list list \<times> 'b unit_dict \<Rightarrow> ('b message list list \<times> 'b unit_dict) res" where
  "pop_unit peers u = (\<lambda>(message_list, d).
     bindE (get_request_message_number peers u) (\<lambda>n.
     bindE (dict_get d u) (\<lambda>messages.
       let k = slice_bound (length messages) n
       in Inr (message_list @ [take k messages], AList.update u (drop k messages) d))))"

definition get_qualified_message :: "peers \<Rightarrow> 'b conditional_event \<Rightarrow> ('b message list \<times> 'b conditional_event) res" where
  "get_qualified_message peers ev =
     bindE (conditional_event_satisfied peers (ce_units ev) (ce_tree ev)) (\<lambda>units.
     bindE (foldE (pop_unit peers) units ([], ce_units ev)) (\<lambda>(message_list, d).
       Inr (concat message_list, ev\<lparr>ce_units := d\<rparr>)))"

definition clear_event :: "'b conditional_event \<Rightarrow> 'b conditional_event" where
  "clear_event ev = ev\<lparr>ce_units := map (\<lambda>(u, messages). (u, [])) (ce_units ev)\<rparr>"

section \<open>The register table\<close>

text \<open>The table maps event objects to handlers; an event object is its position.\<close>

type_synonym ('h, 'b) register_table = "('b conditional_event \<times> 'h) list"

definition table_register ::
  "event_desc \<Rightarrow> 'h \<Rightarrow> ('h, 'b) register_table \<Rightarrow> ('h, 'b) register_table res" where
  "table_register e handler table =
     bindE (new_conditional_event e) (\<lambda>ev. Inr (table @ [(ev, handler)]))"

fun table_get :: "peers \<Rightarrow> ('h, 'b) register_table \<Rightarrow> (('h \<times> 'b message list) list \<times> ('h, 'b) register_table) res" where
  "table_get peers [] = Inr ([], [])"
| "table_get peers ((ev, handler) # table) =
     bindE (get_qualified_message peers ev) (\<lambda>(messages, ev).
     bindE (table_get peers table) (\<lambda>(satisfied, table).
       Inr ((if messages = [] then satisfied else (handler, messages) # satisfied), (ev, handler) # table)))"

text \<open>The calls of handlers that \<open>push\<close> makes, in their order.\<close>

definition table_push ::
  "peers \<Rightarrow> bool \<Rightarrow> 'b message \<Rightarrow> ('h, 'b) register_table \<Rightarrow> (('h \<times> 'b message list) list \<times> ('h, 'b) register_table) res" where
  "table_push peers auto_trigger m table =
     (let table1 = map (\<lambda>(ev, handler). (push_message m ev, handler)) table
      in if auto_trigger then table_get peers table1 else Inr ([], table1))"

text \<open>
  \<open>dist_decorator.py\<close>: the wrapper registers the handlers as they are, keeps a version of each bound to its
  instance and proxy, and for every message received calls \<open>push\<close> and then \<open>get\<close>.  A call is given with whether
  the bound version was called.
\<close>

fun dist_launch ::
  "peers \<Rightarrow> 'b message list \<Rightarrow> ('h, 'b) register_table
     \<Rightarrow> ((bool \<times> 'h \<times> 'b message list) list \<times> ('h, 'b) register_table) res" where
  "dist_launch peers [] table = Inr ([], table)"
| "dist_launch peers (m # ms) table =
     bindE (table_push peers True m table) (\<lambda>(pushed, table).
     bindE (table_get peers table) (\<lambda>(triggered, table).
     bindE (dist_launch peers ms table) (\<lambda>(more, table).
       Inr (map (\<lambda>(h, batch). (False, h, batch)) pushed @ map (\<lambda>(h, batch). (True, h, batch)) triggered @ more, table))))"

definition table_clear :: "('h, 'b) register_table \<Rightarrow> ('h, 'b) register_table" where
  "table_clear = map (\<lambda>(ev, handler). (clear_event ev, handler))"

end
