(* ===== verification/CommProps.thy ===== *)
theory CommProps imports CommRegistry begin

text \<open>
  Conditional events: which descriptions are accepted, what an accepted event can raise, when it is
  satisfied, and that every message is delivered once for each unit event it matches, oldest first.
\<close>

section \<open>Accepted events\<close>

definition valid_unit :: "string \<Rightarrow> bool" where
  "valid_unit u \<longleftrightarrow> unit_event_syntax_check u = Inr ()"

lemma size_in_butlast [termination_simp]: "x \<in> set (butlast es) \<Longrightarrow> size x < Suc (size_list size es)"
  by (auto dest!: in_set_butlastD simp: less_Suc_eq_le intro: size_list_estimation')

fun valid_event :: "event_desc \<Rightarrow> bool" where
  "valid_event (EvStr s) \<longleftrightarrow> valid_unit s"
| "valid_event (EvTuple es) \<longleftrightarrow>
     es \<noteq> [] \<and> operation_of (last es) \<noteq> None \<and> (\<forall>e\<in>set (butlast es). valid_event e)"
| "valid_event EvOther \<longleftrightarrow> False"

fun leaves :: "event_desc \<Rightarrow> string set" where
  "leaves (EvStr s) = {s}"
| "leaves (EvTuple es) = (\<Union>e\<in>set (butlast es). leaves e)"
| "leaves EvOther = {}"

fun tree_units :: "suffix_tree \<Rightarrow> string set" where
  "tree_units (UnitTree u) = {u}"
| "tree_units (OpTree op nodes) = (\<Union>t\<in>set nodes. tree_units t)"

lemma unit_check_cases: "unit_event_syntax_check s = Inr x \<longleftrightarrow> valid_unit s"
  by (simp add: valid_unit_def)

lemma decompose_exact:
  "(\<exists>r. decomposer e d = Inr r) = valid_event e"
  "(\<exists>r. decompose_slots es d = Inr r) = (\<forall>e\<in>set es. valid_event e)"
proof (induction e d and es d rule: decomposer_decompose_slots.induct)
  case (1 s d)
  then show ?case by (auto simp: res_simps unit_check_cases)
next
  case (2 es d)
  then show ?case by (cases "operation_of (last es)") (auto simp: res_simps)
next
  case (5 slot slots d)
  have one: "(\<exists>r. (case slot of EvOther \<Rightarrow> Inl AttributeError | _ \<Rightarrow> decomposer slot d) = Inr r) = valid_event slot"
  proof (cases slot)
    case (EvStr s)
    then show ?thesis using 5(1) [OF EvStr] by (simp only: event_desc.case)
  next
    case (EvTuple es)
    then show ?thesis using 5(2) [OF EvTuple] by (simp only: event_desc.case)
  qed simp
  show ?case
  proof (cases "valid_event slot")
    case False
    then have "\<nexists>r. (case slot of EvOther \<Rightarrow> Inl AttributeError | _ \<Rightarrow> decomposer slot d) = Inr r" using one by blast
    then show ?thesis using False by (auto simp: res_simps)
  next
    case True
    then obtain t d1 where t: "(case slot of EvOther \<Rightarrow> Inl AttributeError | _ \<Rightarrow> decomposer slot d) = Inr (t, d1)"
      using one by force
    with 5(3) [OF t refl] True show ?thesis by (auto simp: res_simps)
  qed
qed auto

lemma decompose_units:
  "decomposer e d = Inr (t, d') \<Longrightarrow>
     tree_units t = leaves e \<and> set (map fst d') = set (map fst d) \<union> leaves e \<and> (\<forall>u\<in>leaves e. valid_unit u)
     \<and> (distinct (map fst d) \<longrightarrow> distinct (map fst d')) \<and> ((\<forall>x\<in>set d. snd x = []) \<longrightarrow> (\<forall>x\<in>set d'. snd x = []))"
  "decompose_slots es d = Inr (ts, d') \<Longrightarrow>
     (\<Union>t\<in>set ts. tree_units t) = (\<Union>e\<in>set es. leaves e) \<and> set (map fst d') = set (map fst d) \<union> (\<Union>e\<in>set es. leaves e)
     \<and> (\<forall>u\<in>(\<Union>e\<in>set es. leaves e). valid_unit u)
     \<and> (distinct (map fst d) \<longrightarrow> distinct (map fst d')) \<and> ((\<forall>x\<in>set d. snd x = []) \<longrightarrow> (\<forall>x\<in>set d'. snd x = []))"
proof (induction e d and es d arbitrary: t d' and ts d' rule: decomposer_decompose_slots.induct)
  case (1 s d)
  have "set (map fst (AList.update s [] d)) = insert s (set (map fst d))" by (auto simp: update_keys)
  moreover have "\<forall>x\<in>set d. snd x = [] \<Longrightarrow> \<forall>x\<in>set (AList.update s [] d). snd x = []"
    by (induction d) auto
  ultimately show ?case using 1 by (auto simp: res_simps unit_check_cases distinct_update simp del: set_map)
next
  case (2 es d)
  from 2(2) obtain op ts where op: "es \<noteq> []" "operation_of (last es) = Some op" "decompose_slots (butlast es) d = Inr (ts, d')"
      "t = OpTree op ts"
    by (auto simp: res_simps split: if_splits option.splits)
  from 2(1) [OF op(1-3)] show ?case by (simp add: op(4) del: set_map)
next
  case (5 slot slots d)
  from 5(4) obtain t d1 ts1 where t: "decomposer slot d = Inr (t, d1)" "decompose_slots slots d1 = Inr (ts1, d')"
      "ts = t # ts1" "slot \<noteq> EvOther"
    by (cases slot) (auto simp: res_simps)
  have "(case slot of EvOther \<Rightarrow> Inl AttributeError | _ \<Rightarrow> decomposer slot d) = Inr (t, d1)"
    using t(1,4) by (cases slot) auto
  have one: "tree_units t = leaves slot \<and> set (map fst d1) = set (map fst d) \<union> leaves slot \<and> (\<forall>u\<in>leaves slot. valid_unit u)
     \<and> (distinct (map fst d) \<longrightarrow> distinct (map fst d1)) \<and> ((\<forall>x\<in>set d. snd x = []) \<longrightarrow> (\<forall>x\<in>set d1. snd x = []))"
  proof (cases slot)
    case (EvStr s)
    then show ?thesis using 5(1) [OF EvStr t(1)] by blast
  next
    case (EvTuple es)
    then show ?thesis using 5(2) [OF EvTuple t(1)] by blast
  qed (use t(4) in simp)
  have "(case slot of EvOther \<Rightarrow> Inl AttributeError | _ \<Rightarrow> decomposer slot d) = Inr (t, d1)"
    using t(1,4) by (cases slot) (simp_all only: event_desc.case simp_thms)
  note rest = 5(3) [OF this refl t(2)]
  show ?case using one rest t(3) by (auto simp del: set_map)
qed auto

section \<open>Requests\<close>

lemma valid_unit_split:
  assumes "valid_unit u"
  obtains source tag number n where "split_on CHR '':'' u = [source, tag, number]" "number \<noteq> []"
    "py_int_of (if last number = CHR ''%'' then butlast number else number) = Some n"
  using assms by (auto simp: valid_unit_def unit_event_syntax_check_def split: list.splits option.splits if_splits)

text \<open>The number of peers a unit event refers to.\<close>

definition unit_peers :: "peers \<Rightarrow> string \<Rightarrow> nat option" where
  "unit_peers peers u =
     (let t = hd (split_on CHR '':'' u)
      in if t = ''*'' then Some (length (concat (map snd peers))) else map_option length (map_of peers t))"

lemma request_of_valid:
  assumes "valid_unit u"
  shows "case unit_peers peers u of
      None \<Rightarrow> get_request_message_number peers u = Inl KeyError
    | Some 0 \<Rightarrow> get_request_message_number peers u = Inl (MaroError ''PeersMissError'')
    | Some (Suc n) \<Rightarrow> \<exists>k \<le> int (Suc n). get_request_message_number peers u = Inr k"
proof -
  from valid_unit_split [OF assms] obtain source tag number n where
    u: "split_on CHR '':'' u = [source, tag, number]" "number \<noteq> []"
      "py_int_of (if last number = CHR ''%'' then butlast number else number) = Some n" by blast
  show ?thesis using u(2,3)
    by (auto simp: get_request_message_number_def unit_peers_def u(1) dict_get_def parse_int_def Let_def
        split: option.splits nat.splits)
qed

lemma satisfied_progress:
  assumes "\<forall>u\<in>tree_units t. valid_unit u \<and> map_of d u \<noteq> None"
  shows "conditional_event_satisfied peers d t = Inl e \<Longrightarrow> e = KeyError \<or> e = MaroError ''PeersMissError''"
    and "\<forall>u\<in>tree_units t. \<exists>n>0. unit_peers peers u = Some n \<Longrightarrow> \<exists>us. conditional_event_satisfied peers d t = Inr us"
  using assms
proof (induction t)
  case (UnitTree u)
  {
    case 1
    then show ?case using request_of_valid [of u peers]
      by (auto simp: unit_event_satisfied_def bindE_def dict_get_def split: option.splits nat.splits sum.splits)
  next
    case 2
    then show ?case using request_of_valid [of u peers]
      by (auto simp: unit_event_satisfied_def bindE_def dict_get_def split: option.splits nat.splits sum.splits)
  }
next
  case (OpTree op nodes)
  have err: "mapE f xs = Inl e \<Longrightarrow> \<exists>x\<in>set xs. f x = Inl e" for f :: "suffix_tree \<Rightarrow> string list res" and xs e
    by (induction xs) (auto simp: bindE_def split: sum.splits)
  have tot: "\<forall>x\<in>set xs. \<exists>y. f x = Inr y \<Longrightarrow> \<exists>ys. mapE f xs = Inr ys" for f :: "suffix_tree \<Rightarrow> string list res" and xs
    by (induction xs) auto
  {
    case 1
    then have "mapE (conditional_event_satisfied peers d) nodes = Inl e" by (auto simp: bindE_def split: sum.splits)
    from err [OF this] OpTree(1) 1(2) show ?case by auto
  next
    case 2
    have "\<exists>rs. mapE (conditional_event_satisfied peers d) nodes = Inr rs"
      by (rule tot) (use OpTree(2) 2 in auto)
    then show ?case by auto
  }
qed

section \<open>Satisfaction\<close>

fun tree_holds :: "(string \<Rightarrow> bool) \<Rightarrow> suffix_tree \<Rightarrow> bool" where
  "tree_holds P (UnitTree u) \<longleftrightarrow> P u"
| "tree_holds P (OpTree AND_op nodes) \<longleftrightarrow> nodes \<noteq> [] \<and> (\<forall>t\<in>set nodes. tree_holds P t)"
| "tree_holds P (OpTree OR_op nodes) \<longleftrightarrow> (\<exists>t\<in>set nodes. tree_holds P t)"

lemma tree_holds_mono: "tree_holds P t \<Longrightarrow> (\<And>u. P u \<Longrightarrow> Q u) \<Longrightarrow> tree_holds Q t"
  by (induction P t rule: tree_holds.induct) auto

lemma combine_and: "set rs \<subseteq> set results \<Longrightarrow>
   combine AND_op rs results = (if [] \<in> set rs then [] else concat results)"
  by (induction rs) auto

lemma combine_or: "combine OR_op rs results =
   (case filter (\<lambda>r. r \<noteq> []) rs of [] \<Rightarrow> concat results | r # _ \<Rightarrow> r)"
  by (induction rs) auto

definition unit_ready :: "peers \<Rightarrow> 'b unit_dict \<Rightarrow> string \<Rightarrow> bool" where
  "unit_ready peers d u \<longleftrightarrow>
     (\<exists>n messages. get_request_message_number peers u = Inr n \<and> map_of d u = Some messages \<and> n \<le> int (length messages))"

lemma combine_set: "set (combine op rs results) \<subseteq> \<Union> (set ` set results) \<union> \<Union> (set ` set rs)"
  by (induction rs) auto

lemma combine_and_sound:
  assumes "length rs = length nodes"
    and "\<And>i. i < length nodes \<Longrightarrow> (rs ! i \<noteq> [] \<longleftrightarrow> tree_holds P (nodes ! i))
      \<and> (rs ! i \<noteq> [] \<longrightarrow> tree_holds (\<lambda>u. u \<in> set (rs ! i)) (nodes ! i))"
    and "us = combine AND_op rs rs"
  shows "(us \<noteq> [] \<longleftrightarrow> tree_holds P (OpTree AND_op nodes)) \<and> (us \<noteq> [] \<longrightarrow> tree_holds (\<lambda>u. u \<in> set us) (OpTree AND_op nodes))"
proof (cases "[] \<in> set rs \<or> nodes = []")
  case True
  then have "us = []" using combine_and [of rs rs] assms(1,3) by auto
  moreover have "\<not> tree_holds P (OpTree AND_op nodes)"
  proof (cases "nodes = []")
    case False
    with True obtain i where i: "i < length nodes" "rs ! i = []" using assms(1) by (auto simp: in_set_conv_nth)
    then have "\<not> tree_holds P (nodes ! i)" using assms(2) [OF i(1)] by simp
    then show ?thesis using nth_mem [OF i(1)] by auto
  qed simp
  ultimately show ?thesis by simp
next
  case False
  then have us: "us = concat rs" using combine_and [of rs rs] assms(3) by simp
  have all: "rs ! i \<noteq> []" if "i < length nodes" for i using False that assms(1) by (metis nth_mem)
  have "tree_holds (\<lambda>u. u \<in> set us) (nodes ! i)" if "i < length nodes" for i
    by (rule tree_holds_mono [where P = "\<lambda>u. u \<in> set (rs ! i)"])
       (use assms(2) [OF that] all [OF that] us that assms(1) in auto)
  then have "tree_holds (\<lambda>u. u \<in> set us) (OpTree AND_op nodes)" "tree_holds P (OpTree AND_op nodes)"
    using False assms(2) all by (auto simp: in_set_conv_nth)
  moreover have "us \<noteq> []" using us all [of 0] False assms(1) by (cases rs) auto
  ultimately show ?thesis by simp
qed

lemma combine_or_sound:
  assumes "length rs = length nodes"
    and "\<And>i. i < length nodes \<Longrightarrow> (rs ! i \<noteq> [] \<longleftrightarrow> tree_holds P (nodes ! i))
      \<and> (rs ! i \<noteq> [] \<longrightarrow> tree_holds (\<lambda>u. u \<in> set (rs ! i)) (nodes ! i))"
    and "us = combine OR_op rs rs"
  shows "(us \<noteq> [] \<longleftrightarrow> tree_holds P (OpTree OR_op nodes)) \<and> (us \<noteq> [] \<longrightarrow> tree_holds (\<lambda>u. u \<in> set us) (OpTree OR_op nodes))"
proof (cases "filter (\<lambda>r. r \<noteq> []) rs")
  case Nil
  then have none: "\<forall>r\<in>set rs. r = []" by (simp add: filter_empty_conv)
  then have "\<not> tree_holds P (nodes ! i)" if "i < length nodes" for i
    using assms(1) assms(2) [OF that] that by simp
  then have "\<not> tree_holds P (OpTree OR_op nodes)" by (auto simp: in_set_conv_nth)
  moreover have "us = []" using none Nil assms(3) by (simp add: combine_or)
  ultimately show ?thesis by simp
next
  case (Cons r rest)
  then have us: "us = r" using assms(3) by (simp add: combine_or)
  have "r \<in> set rs" "r \<noteq> []" using Cons by (auto dest: filter_eq_ConsD)
  then obtain i where i: "i < length nodes" "rs ! i = r" using assms(1) by (auto simp: in_set_conv_nth)
  then show ?thesis
    using assms(2) [OF i(1)] us \<open>r \<noteq> []\<close> nth_mem [OF i(1)] by (auto intro!: bexI [of _ "nodes ! i"])
qed

lemma satisfied_sound:
  "conditional_event_satisfied peers d t = Inr us \<Longrightarrow>
   (us \<noteq> [] \<longleftrightarrow> tree_holds (unit_ready peers d) t) \<and> (us \<noteq> [] \<longrightarrow> tree_holds (\<lambda>u. u \<in> set us) t)
   \<and> (\<forall>u\<in>set us. unit_ready peers d u \<and> u \<in> tree_units t)"
proof (induction t arbitrary: us)
  case (UnitTree u)
  then show ?case
    by (auto simp: unit_event_satisfied_def res_simps dict_get_def unit_ready_def split: option.splits if_splits)
next
  case (OpTree op nodes)
  then obtain rs where rs: "mapE (conditional_event_satisfied peers d) nodes = Inr rs" "us = combine op rs rs"
    by (auto simp: res_simps)
  have len: "length rs = length nodes" by (rule mapE_length [OF rs(1)])
  have each: "(rs ! i \<noteq> [] \<longleftrightarrow> tree_holds (unit_ready peers d) (nodes ! i))
      \<and> (rs ! i \<noteq> [] \<longrightarrow> tree_holds (\<lambda>u. u \<in> set (rs ! i)) (nodes ! i))"
    and sub: "\<forall>u\<in>set (rs ! i). unit_ready peers d u \<and> u \<in> tree_units (nodes ! i)" if "i < length nodes" for i
    using OpTree.IH [of "nodes ! i" "rs ! i"] mapE_nth [OF rs(1) that] that by simp_all
  have "set us \<subseteq> \<Union> (set ` set rs)" using combine_set [of op rs rs] rs(2) by auto
  moreover have "\<Union> (set ` set rs) \<subseteq> {u. unit_ready peers d u \<and> u \<in> tree_units (OpTree op nodes)}"
    using sub len by (fastforce simp: in_set_conv_nth [of _ rs])
  ultimately have "\<forall>u\<in>set us. unit_ready peers d u \<and> u \<in> tree_units (OpTree op nodes)" by blast
  moreover have "(us \<noteq> [] \<longleftrightarrow> tree_holds (unit_ready peers d) (OpTree op nodes))
      \<and> (us \<noteq> [] \<longrightarrow> tree_holds (\<lambda>u. u \<in> set us) (OpTree op nodes))"
    using combine_and_sound [OF len each] combine_or_sound [OF len each] rs(2) by (cases op) simp_all
  ultimately show ?case by simp
qed

section \<open>Delivery\<close>

text \<open>A conditional event in use: messages arrive, and it is asked for its qualified messages, with any peers.\<close>

inductive ce_run :: "event_desc \<Rightarrow> 'b message list \<Rightarrow> 'b message list \<Rightarrow> 'b conditional_event \<Rightarrow> bool" for e where
  start: "new_conditional_event e = Inr ev \<Longrightarrow> ce_run e [] [] ev"
| push: "ce_run e arrived delivered ev \<Longrightarrow> ce_run e (arrived @ [m]) delivered (push_message m ev)"
| get: "ce_run e arrived delivered ev \<Longrightarrow> get_qualified_message peers ev = Inr (messages, ev') \<Longrightarrow>
    ce_run e arrived (delivered @ messages) ev'"

definition matching :: "'b message list \<Rightarrow> string \<Rightarrow> 'b message list" where
  "matching arrived u = filter (unit_matches u) arrived"

definition ce_ok :: "event_desc \<Rightarrow> 'b message list \<Rightarrow> 'b message list \<Rightarrow> 'b conditional_event \<Rightarrow> bool" where
  "ce_ok e arrived delivered ev \<longleftrightarrow>
     tree_units (ce_tree ev) = leaves e \<and> set (map fst (ce_units ev)) = leaves e
     \<and> distinct (map fst (ce_units ev)) \<and> (\<forall>u\<in>leaves e. valid_unit u)
     \<and> (\<forall>(u, messages)\<in>set (ce_units ev). \<exists>k. messages = drop k (matching arrived u))
     \<and> mset delivered + mset (concat (map snd (ce_units ev))) =
         mset (concat (map (matching arrived) (map fst (ce_units ev))))"

lemma concat_update_mset:
  assumes "distinct (map fst d)" "map_of d u = Some messages"
  shows "mset (concat (map snd (AList.update u rest d))) + mset messages = mset (concat (map snd d)) + mset rest"
  using assms
proof (induction d)
  case (Cons x d)
  show ?case
  proof (cases "fst x = u")
    case True
    then show ?thesis using Cons.prems by (cases x) (auto split: if_splits)
  next
    case False
    with Cons.prems have "map_of d u = Some messages" "distinct (map fst d)" by (cases x; auto)+
    from Cons.IH [OF this(2,1)] False show ?thesis by (cases x) (auto simp: ac_simps)
  qed
qed simp

lemma pop_unit_step:
  assumes "pop_unit peers u (out, d) = Inr r"
  obtains messages k where "map_of d u = Some messages"
    "r = (out @ [take k messages], AList.update u (drop k messages) d)"
  using assms by (auto simp: pop_unit_def res_simps dict_get_def Let_def split: option.splits)

lemma pop_units_ok:
  assumes "foldE (pop_unit peers) us (out, d) = Inr (out', d')"
    and "distinct (map fst d)" "\<forall>(u, messages)\<in>set d. \<exists>k. messages = drop k (matching arrived u)"
  shows "map fst d' = map fst d \<and> (\<forall>(u, messages)\<in>set d'. \<exists>k. messages = drop k (matching arrived u))
    \<and> mset (concat out') + mset (concat (map snd d')) = mset (concat out) + mset (concat (map snd d))"
  using assms
proof (induction us arbitrary: out d)
  case Nil
  then show ?case by simp
next
  case (Cons u us)
  from Cons.prems(1) obtain r where r: "pop_unit peers u (out, d) = Inr r" "foldE (pop_unit peers) us r = Inr (out', d')"
    by (auto simp: res_simps)
  from pop_unit_step [OF r(1)] obtain messages k where u: "map_of d u = Some messages"
      "foldE (pop_unit peers) us (out @ [take k messages], AList.update u (drop k messages) d) = Inr (out', d')"
    using r(2) by blast
  have keys: "map fst (AList.update u (drop k messages) d) = map fst d"
    using u(1) by (simp add: keys_update dict_mem_map_of)
  obtain j where "messages = drop j (matching arrived u)" using Cons.prems(3) map_of_SomeD [OF u(1)] by auto
  then have "\<exists>n. drop k messages = drop n (matching arrived u)" by (metis drop_drop)
  moreover have "set (AList.update u (drop k messages) d) \<subseteq> insert (u, drop k messages) (set d)" for k messages
    by (induction d) auto
  ultimately have "\<forall>(v, ms)\<in>set (AList.update u (drop k messages) d). \<exists>n. ms = drop n (matching arrived v)"
    using Cons.prems(3) by fastforce
  from Cons.IH [OF u(2) _ this] Cons.prems(2) keys
  have IH: "map fst d' = map fst d" "\<forall>(u, messages)\<in>set d'. \<exists>k. messages = drop k (matching arrived u)"
    "mset (concat out') + mset (concat (map snd d')) =
      mset (concat (out @ [take k messages])) + mset (concat (map snd (AList.update u (drop k messages) d)))"
    by simp_all
  have "mset messages = mset (take k messages) + mset (drop k messages)" by (metis append_take_drop_id mset_append)
  with concat_update_mset [OF Cons.prems(2) u(1), of "drop k messages"] IH(3)
  have "mset (concat out') + mset (concat (map snd d')) = mset (concat out) + mset (concat (map snd d))"
    by (simp add: ac_simps)
  with IH(1,2) show ?case by blast
qed

lemma mset_shift: "x + b = c + y \<Longrightarrow> e + c = b \<Longrightarrow> e + x = (y :: 'a multiset)"
  by (metis add.assoc add.commute add_right_cancel)

lemma ce_run_ok: "ce_run e arrived delivered ev \<Longrightarrow> ce_ok e arrived delivered ev"
proof (induction rule: ce_run.induct)
  case (start ev)
  then obtain t d where d: "decomposer e [] = Inr (t, d)" "ev = \<lparr>ce_tree = t, ce_units = d\<rparr>"
    by (auto simp: new_conditional_event_def res_simps)
  from decompose_units(1) [OF d(1)] have u: "tree_units t = leaves e" "set (map fst d) = leaves e" "distinct (map fst d)"
      "\<forall>u\<in>leaves e. valid_unit u" "\<forall>x\<in>set d. snd x = []" by (simp_all del: set_map)
  have "concat (map (matching []) (map fst d)) = concat (map snd d)" using u(5) by (induction d) (auto simp: matching_def)
  then have "mset [] + mset (concat (map snd d)) = mset (concat (map (matching []) (map fst d)))"
    by (simp only: mset.simps add_0)
  moreover have "\<forall>(u, messages)\<in>set d. \<exists>k. messages = drop k (matching [] u)" using u(5) by (auto simp: matching_def)
  ultimately show ?case using u(1-4) by (simp only: ce_ok_def d(2) conditional_event.simps simp_thms)
next
  case (push arrived delivered ev m)
  obtain d where d: "d = ce_units ev" by blast
  obtain d' where d': "d' = map (\<lambda>(u, ms). (u, if unit_matches u m then ms @ [m] else ms)) d" by blast
  have ev': "ce_units (push_message m ev) = d'" "ce_tree (push_message m ev) = ce_tree ev"
    by (simp_all add: push_message_def d d')
  have snoc: "matching (arrived @ [m]) u = matching arrived u @ (if unit_matches u m then [m] else [])" for u
    by (simp add: matching_def)
  have count: "mset (concat (map snd (map (\<lambda>(u, ms). (u, if unit_matches u m then ms @ [m] else ms)) d)))
      + mset (concat (map (matching arrived) (map fst d))) =
      mset (concat (map snd d)) + mset (concat (map (matching (arrived @ [m])) (map fst d)))" for d :: "'a unit_dict"
    by (induction d) (auto simp: snoc ac_simps)
  have "\<exists>k. ms = drop k (matching (arrived @ [m]) u)" if mem: "(u, ms) \<in> set d'" for u ms
  proof -
    obtain ms0 where ms0: "(u, ms0) \<in> set d" "ms = (if unit_matches u m then ms0 @ [m] else ms0)"
      using mem by (auto simp: d')
    then obtain k where "ms0 = drop k (matching arrived u)" using push.IH by (auto simp: ce_ok_def d)
    then show ?thesis using ms0(2)
      by (intro exI [of _ "min k (length (matching arrived u))"]) (auto simp: snoc min_def)
  qed
  moreover have "map fst d' = map fst d" unfolding d' by (induction d) auto
  moreover have "mset delivered + mset (concat (map snd d')) = mset (concat (map (matching (arrived @ [m])) (map fst d)))"
    by (rule mset_shift [OF count [of d, folded d']]) (use push.IH in \<open>simp only: ce_ok_def d\<close>)
  ultimately show ?case using push.IH by (simp add: ce_ok_def ev' d [symmetric] del: set_map map_map) blast
next
  case (get arrived delivered ev peers messages ev')
  then obtain us out d' where g: "foldE (pop_unit peers) us ([], ce_units ev) = Inr (out, d')"
      "messages = concat out" "ev' = ev\<lparr>ce_units := d'\<rparr>"
    by (auto simp: get_qualified_message_def res_simps)
  have ok: "distinct (map fst (ce_units ev))"
      "\<forall>(u, messages)\<in>set (ce_units ev). \<exists>k. messages = drop k (matching arrived u)"
    using get.IH by (simp_all add: ce_ok_def)
  from pop_units_ok [OF g(1) ok] show ?case using get.IH by (auto simp: ce_ok_def g(2,3) ac_simps simp del: set_map)
qed

section \<open>Properties\<close>

theorem event_accepted_exact:
  "(\<exists>ev :: 'b conditional_event. new_conditional_event e = Inr ev) = valid_event e
   \<and> (\<forall>ev :: 'b conditional_event. new_conditional_event e = Inr ev \<longrightarrow>
        distinct (map fst (ce_units ev)) \<and> set (map fst (ce_units ev)) = leaves e \<and> tree_units (ce_tree ev) = leaves e
        \<and> (\<forall>x\<in>set (ce_units ev). snd x = []))"
proof
  show "(\<exists>ev :: 'b conditional_event. new_conditional_event e = Inr ev) = valid_event e"
    using decompose_exact(1) [of e "[] :: 'b unit_dict"] by (auto simp: new_conditional_event_def res_simps)
  show "\<forall>ev :: 'b conditional_event. new_conditional_event e = Inr ev \<longrightarrow>
        distinct (map fst (ce_units ev)) \<and> set (map fst (ce_units ev)) = leaves e \<and> tree_units (ce_tree ev) = leaves e
        \<and> (\<forall>x\<in>set (ce_units ev). snd x = [])"
  proof (intro allI impI)
    fix ev :: "'b conditional_event"
    assume "new_conditional_event e = Inr ev"
    then obtain t d where d: "decomposer e [] = Inr (t, d)" "ev = \<lparr>ce_tree = t, ce_units = d\<rparr>"
      by (auto simp: new_conditional_event_def res_simps)
    from decompose_units(1) [OF d(1)]
    show "distinct (map fst (ce_units ev)) \<and> set (map fst (ce_units ev)) = leaves e \<and> tree_units (ce_tree ev) = leaves e
        \<and> (\<forall>x\<in>set (ce_units ev). snd x = [])" by (simp add: d(2) del: set_map)
  qed
qed

lemma pop_units_total:
  assumes "\<forall>u\<in>set us. valid_unit u \<and> map_of d u \<noteq> None \<and> (\<exists>n. get_request_message_number peers u = Inr n)"
  shows "\<exists>r. foldE (pop_unit peers) us (out, d) = Inr r"
  using assms
proof (induction us arbitrary: out d)
  case (Cons u us)
  then obtain n messages where "get_request_message_number peers u = Inr n" "map_of d u = Some messages" by auto
  then have "\<exists>out' d'. pop_unit peers u (out, d) = Inr (out', d') \<and> (\<forall>v. map_of d v \<noteq> None \<longrightarrow> map_of d' v \<noteq> None)"
    by (auto simp: pop_unit_def dict_get_def Let_def)
  then obtain out' d' where "pop_unit peers u (out, d) = Inr (out', d')" "\<forall>v. map_of d v \<noteq> None \<longrightarrow> map_of d' v \<noteq> None"
    by blast
  then show ?case using Cons.IH [of d' out'] Cons.prems by simp
qed simp

lemma ce_ok_tree:
  assumes "ce_ok e arrived delivered ev"
  shows "\<forall>u\<in>tree_units (ce_tree ev). valid_unit u \<and> map_of (ce_units ev) u \<noteq> None"
proof -
  have "fst ` set (ce_units ev) = leaves e" using assms by (simp add: ce_ok_def)
  then show ?thesis using assms by (simp add: ce_ok_def map_of_eq_None_iff)
qed

lemma foldE_error: "foldE f xs s = Inl e \<Longrightarrow> (\<And>x s. x \<in> set xs \<Longrightarrow> f x s \<noteq> Inl e) \<Longrightarrow> False"
  by (induction xs arbitrary: s) (auto simp: bindE_def split: sum.splits)

text \<open>Collecting the messages of an accepted event raises nothing but KeyError for an
  unknown type of peers and PeersMissError for one without peers, and never fails when every unit
  event names a type with peers.\<close>

theorem qualified_errors:
  assumes "ce_run e arrived delivered ev"
  shows "(\<forall>err. get_qualified_message peers ev = Inl err \<longrightarrow> err = KeyError \<or> err = MaroError ''PeersMissError'')
    \<and> ((\<forall>u\<in>leaves e. \<exists>n>0. unit_peers peers u = Some n) \<longrightarrow>
        (\<exists>messages ev'. get_qualified_message peers ev = Inr (messages, ev')))"
proof -
  note ok = ce_run_ok [OF assms]
  note tree = ce_ok_tree [OF ok]
  have leaves: "tree_units (ce_tree ev) = leaves e" using ok by (simp add: ce_ok_def)
  have pop: "\<exists>r. foldE (pop_unit peers) us ([], ce_units ev) = Inr r"
    if "conditional_event_satisfied peers (ce_units ev) (ce_tree ev) = Inr us" for us
  proof (rule pop_units_total, intro ballI)
    fix u
    assume "u \<in> set us"
    then have "unit_ready peers (ce_units ev) u" "u \<in> tree_units (ce_tree ev)" using satisfied_sound [OF that] by auto
    with tree show "valid_unit u \<and> map_of (ce_units ev) u \<noteq> None \<and> (\<exists>n. get_request_message_number peers u = Inr n)"
      by (auto simp: unit_ready_def)
  qed
  show ?thesis
  proof (intro conjI allI impI)
    fix err
    assume err: "get_qualified_message peers ev = Inl err"
    show "err = KeyError \<or> err = MaroError ''PeersMissError''"
    proof (cases "conditional_event_satisfied peers (ce_units ev) (ce_tree ev)")
      case (Inl e')
      then show ?thesis using err satisfied_progress(1) [OF tree Inl] by (simp add: get_qualified_message_def)
    next
      case (Inr us)
      with pop [OF Inr] err show ?thesis by (auto simp: get_qualified_message_def)
    qed
  next
    assume "\<forall>u\<in>leaves e. \<exists>n>0. unit_peers peers u = Some n"
    then obtain us where us: "conditional_event_satisfied peers (ce_units ev) (ce_tree ev) = Inr us"
      using satisfied_progress(2) [OF tree, of peers] leaves by auto
    from pop [OF us] show "\<exists>messages ev'. get_qualified_message peers ev = Inr (messages, ev')"
      by (auto simp: get_qualified_message_def us)
  qed
qed

text \<open>C21: A conditional event counts as satisfied exactly when its tree of conjunctions and
  disjunctions holds over the unit events that have enough messages, and the unit events it hands
  out are ready and make the tree hold by themselves.\<close>

theorem satisfied_exact:
  assumes "conditional_event_satisfied peers d t = Inr us"
  shows "(us \<noteq> []) = tree_holds (unit_ready peers d) t
    \<and> (us \<noteq> [] \<longrightarrow> tree_holds (\<lambda>u. u \<in> set us) t) \<and> (\<forall>u\<in>set us. unit_ready peers d u)"
  using satisfied_sound [OF assms] by blast

text \<open>C20: Whatever is pushed, and whenever messages are collected, for every unit event each
  matching message is either still cached or has been delivered exactly once, and the cache holds
  the newest ones in their order of arrival.\<close>

theorem delivered_once:
  assumes "ce_run e arrived delivered ev"
  shows "mset delivered + mset (concat (map snd (ce_units ev))) =
      mset (concat (map (\<lambda>u. filter (unit_matches u) arrived) (map fst (ce_units ev))))
    \<and> (\<forall>(u, cached)\<in>set (ce_units ev). \<exists>k. cached = drop k (filter (unit_matches u) arrived))"
  using ce_run_ok [OF assms] by (simp add: ce_ok_def matching_def [abs_def])

text \<open>One message after the other pushed, with the handlers called as soon as their event is satisfied.\<close>

fun push_all :: "peers \<Rightarrow> 'b message list \<Rightarrow> ('h, 'b) register_table \<Rightarrow> (('h \<times> 'b message list) list \<times> ('h, 'b) register_table) res" where
  "push_all peers [] table = Inr ([], table)"
| "push_all peers (m # ms) table =
     bindE (table_push peers True m table) (\<lambda>(calls, table).
     bindE (push_all peers ms table) (\<lambda>(more, table). Inr (calls @ more, table)))"

lemma push_one_unit:
  assumes "get_request_message_number peers u = Inr (int r)" "0 < r" "unit_matches u m" "length cached < r"
  shows "table_push peers True m [(\<lparr>ce_tree = UnitTree u, ce_units = [(u, cached)]\<rparr>, h)] =
    (if length cached + 1 = r then Inr ([(h, cached @ [m])], [(\<lparr>ce_tree = UnitTree u, ce_units = [(u, [])]\<rparr>, h)])
     else Inr ([], [(\<lparr>ce_tree = UnitTree u, ce_units = [(u, cached @ [m])]\<rparr>, h)]))"
  using assms
  by (auto simp: table_push_def push_message_def get_qualified_message_def unit_event_satisfied_def dict_get_def
      pop_unit_def Let_def slice_bound_def)

text \<open>C22: A handler waiting for r messages of a unit event is called once for every r
  matching messages that arrive, with batches of r messages that are the messages in order.\<close>

theorem unit_event_fires:
  assumes "new_conditional_event (EvStr u) = Inr ev" "get_request_message_number peers u = Inr (int r)" "0 < r"
    and "\<forall>m\<in>set ms. unit_matches u m"
  shows "\<exists>calls table. push_all peers ms [(ev, h)] = Inr (calls, table)
    \<and> length calls = length ms div r \<and> (\<forall>(h', batch)\<in>set calls. h' = h \<and> length batch = r)
    \<and> concat (map snd calls) = take (length ms div r * r) ms"
proof -
  have ev: "ev = \<lparr>ce_tree = UnitTree u, ce_units = [(u, [])]\<rparr>"
    using assms(1) by (auto simp: new_conditional_event_def res_simps)
  have "\<exists>calls table. push_all peers ms [(\<lparr>ce_tree = UnitTree u, ce_units = [(u, cached)]\<rparr>, h)] = Inr (calls, table)
      \<and> length calls = (length cached + length ms) div r \<and> (\<forall>(h', batch)\<in>set calls. h' = h \<and> length batch = r)
      \<and> concat (map snd calls) = take ((length cached + length ms) div r * r) (cached @ ms)"
    if "length cached < r" for cached
    using assms(4) that
  proof (induction ms arbitrary: cached)
    case Nil
    then show ?case by simp
  next
    case (Cons m ms)
    note one = push_one_unit [OF assms(2,3), of m cached h]
    show ?case
    proof (cases "length cached + 1 = r")
      case True
      obtain calls table where c: "push_all peers ms [(\<lparr>ce_tree = UnitTree u, ce_units = [(u, [])]\<rparr>, h)] = Inr (calls, table)"
          "length calls = length ms div r" "\<forall>(h', batch)\<in>set calls. h' = h \<and> length batch = r"
          "concat (map snd calls) = take (length ms div r * r) ms"
        using Cons.IH [of "[]"] Cons.prems(1) assms(3) by auto
      have len: "length cached + length (m # ms) = r + length ms" using True by simp
      have "(length cached + length (m # ms)) div r = Suc (length ms div r)" 
        unfolding len using div_add_self1 [of r "length ms"] assms(3) by linarith
      moreover have "take (Suc (length ms div r) * r) (cached @ m # ms) = (cached @ [m]) @ take (length ms div r * r) ms"
      proof -
        obtain xs where xs: "xs = cached @ [m]" by blast
        then have "length xs = r" using True by simp
        then have "take (Suc (length ms div r) * r) (xs @ ms) = xs @ take (length ms div r * r) ms" by simp
        then show ?thesis by (simp add: xs)
      qed
      ultimately show ?thesis using one Cons.prems c True by auto
    next
      case False
      then have "length (cached @ [m]) < r" using Cons.prems(2) by simp
      from Cons.IH [OF _ this] Cons.prems one False show ?thesis by auto
    qed
  qed
  from this [of "[]"] assms(3) show ?thesis by (simp add: ev)
qed

text \<open>A percentage of the peers that rounds down to no message at all: its handler is never called.\<close>

lemma push_zero_unit:
  assumes "get_request_message_number peers u = Inr 0"
  shows "\<exists>cached'. table_push peers True m [(\<lparr>ce_tree = UnitTree u, ce_units = [(u, cached)]\<rparr>, h)] =
    Inr ([], [(\<lparr>ce_tree = UnitTree u, ce_units = [(u, cached')]\<rparr>, h)])"
  using assms
  by (auto simp: table_push_def push_message_def get_qualified_message_def unit_event_satisfied_def dict_get_def
      pop_unit_def Let_def slice_bound_def)

theorem zero_request_silent:
  assumes "new_conditional_event (EvStr u) = Inr ev" "get_request_message_number peers u = Inr 0"
  shows "\<exists>table. push_all peers ms [(ev, h)] = Inr ([], table)"
proof -
  have ev: "ev = \<lparr>ce_tree = UnitTree u, ce_units = [(u, [])]\<rparr>"
    using assms(1) by (auto simp: new_conditional_event_def res_simps)
  have "\<exists>table. push_all peers ms [(\<lparr>ce_tree = UnitTree u, ce_units = [(u, cached)]\<rparr>, h)] = Inr ([], table)" for cached
  proof (induction ms arbitrary: cached)
    case (Cons m ms)
    from push_zero_unit [OF assms(2), of m cached h] obtain cached' where
      "table_push peers True m [(\<lparr>ce_tree = UnitTree u, ce_units = [(u, cached)]\<rparr>, h)] =
        Inr ([], [(\<lparr>ce_tree = UnitTree u, ce_units = [(u, cached')]\<rparr>, h)])" by blast
    with Cons.IH [of cached'] show ?case by auto
  qed simp
  then show ?thesis by (simp add: ev)
qed

text \<open>
  What the decorator does with a unit event: \<open>push\<close> has already called the registered handler, which is not
  bound to its instance, and \<open>get\<close> finds nothing any more.
\<close>

text \<open>The wrapper of the dist decorator calls the registered handlers themselves, without
  the instance and the proxy, and never the bound handlers it prepared: push has already taken the
  messages that get would hand to them.\<close>

theorem dist_launch_unbound:
  fixes ms :: "'b message list"
  assumes "new_conditional_event (EvStr u) = Inr ev" "get_request_message_number peers u = Inr (int r)" "0 < r"
    and "\<forall>m\<in>set ms. unit_matches u m"
  shows "\<exists>calls table. dist_launch peers ms [(ev, h)] = Inr (calls, table) \<and> length calls = length ms div r
    \<and> (\<forall>(bound, h', batch)\<in>set calls. \<not> bound)"
proof -
  have ev: "ev = \<lparr>ce_tree = UnitTree u, ce_units = [(u, [])]\<rparr>"
    using assms(1) by (auto simp: new_conditional_event_def res_simps)
  have quiet: "table_get peers [(\<lparr>ce_tree = UnitTree u, ce_units = [(u, cached)]\<rparr>, h)] =
      Inr ([], [(\<lparr>ce_tree = UnitTree u, ce_units = [(u, cached)]\<rparr>, h)])" if "length cached < r" for cached :: "'b message list"
    using assms(2) that by (auto simp: get_qualified_message_def unit_event_satisfied_def dict_get_def)
  have "\<exists>calls table. dist_launch peers ms [(\<lparr>ce_tree = UnitTree u, ce_units = [(u, cached)]\<rparr>, h)] = Inr (calls, table)
      \<and> length calls = (length cached + length ms) div r \<and> (\<forall>(bound, h', batch)\<in>set calls. \<not> bound)"
    if "length cached < r" for cached
    using assms(4) that
  proof (induction ms arbitrary: cached)
    case (Cons m ms)
    note one = push_one_unit [OF assms(2,3), of m cached h]
    show ?case
    proof (cases "length cached + 1 = r")
      case True
      have len: "length cached + length (m # ms) = r + length ms" using True by simp
      have "(length cached + length (m # ms)) div r = Suc (length ms div r)"
        unfolding len using div_add_self1 [of r "length ms"] assms(3) by linarith
      with one True Cons.IH [of "[]"] Cons.prems quiet [of "[]"] assms(3) show ?thesis by (auto simp del: table_get.simps)
    next
      case False
      then have "length (cached @ [m]) < r" using Cons.prems(2) by simp
      with one False Cons.IH [of "cached @ [m]"] Cons.prems quiet [of "cached @ [m]"] show ?thesis by (auto simp del: table_get.simps)
    qed
  qed simp
  from this [of "[]"] assms(3) show ?thesis by (simp add: ev)
qed

end
