(* ===== verification/CommProxy.thy ===== *)
theory CommProxy imports CommRegistry begin

text \<open>
  \<open>communication/proxy.py\<close> with the bookkeeping of \<open>driver/zmq_driver.py\<close>: finding and connecting peers, keeping
  up with peers that leave and rejoin, sending with a cache for peers that are away, and receiving replies
  by their session.

  Redis is what it answers at the moment of a call; the clock and the messages that arrive are arguments.  The
  sockets of ZeroMQ are the addresses they are connected to.  Logging and signal handlers are not modelled.
\<close>

section \<open>The driver\<close>

text \<open>The address of a peer has one entry per socket type; 7 is \<open>zmq.PULL\<close> and 2 is \<open>zmq.SUB\<close>.\<close>

type_synonym address = "(string \<times> string) list"

text \<open>The own address that a driver hands out, as it arrives at the peers.\<close>

definition zmq_address :: "string \<Rightarrow> string \<Rightarrow> address" where
  "zmq_address u b = [(''7'', u), (''2'', b)]"

record 'b driver =
  dr_unicast_senders :: "(string \<times> string) list"
  dr_broadcast :: "string list"
  dr_disconnected :: "string list"
  dr_sent :: "'b message list"
  dr_published :: "(string \<times> 'b message) list"

definition system_exit :: py_error where
  "system_exit = MaroError ''SystemExit''"

definition connect_socket :: "string \<Rightarrow> string \<times> string \<Rightarrow> 'b driver \<Rightarrow> 'b driver res" where
  "connect_socket peer_name = (\<lambda>(socket_type, addr) dr.
     case py_int_of socket_type of
       Some t \<Rightarrow>
         if t = 7 then Inr (dr\<lparr>dr_unicast_senders := AList.update peer_name addr (dr_unicast_senders dr)\<rparr>)
         else if t = 2 then Inr (dr\<lparr>dr_broadcast := dr_broadcast dr @ [addr]\<rparr>)
         else Inl (MaroError ''PeersConnectionError'')
     | None \<Rightarrow> Inl (MaroError ''PeersConnectionError''))"

definition connect_peer :: "string \<times> address \<Rightarrow> 'b driver \<Rightarrow> 'b driver res" where
  "connect_peer = (\<lambda>(peer_name, addr) dr.
     bindE (foldE (connect_socket peer_name) addr dr) (\<lambda>dr.
       Inr (dr\<lparr>dr_disconnected := remove1 peer_name (dr_disconnected dr)\<rparr>)))"

definition driver_connect :: "(string \<times> address) list \<Rightarrow> 'b driver \<Rightarrow> 'b driver res" where
  "driver_connect = foldE connect_peer"

definition disconnect_socket :: "string \<Rightarrow> string \<times> string \<Rightarrow> 'b driver \<Rightarrow> 'b driver res" where
  "disconnect_socket peer_name = (\<lambda>(socket_type, addr) dr.
     case py_int_of socket_type of
       Some t \<Rightarrow>
         if t = 7 then
           (if map_of (dr_unicast_senders dr) peer_name = Some addr
            then Inr (dr\<lparr>dr_unicast_senders := AList.delete peer_name (dr_unicast_senders dr)\<rparr>)
            else Inl (MaroError ''PeersDisconnectionError''))
         else if t = 2 then
           (if addr \<in> set (dr_broadcast dr) then Inr (dr\<lparr>dr_broadcast := remove1 addr (dr_broadcast dr)\<rparr>)
            else Inl (MaroError ''PeersDisconnectionError''))
         else Inl (MaroError ''PeersDisconnectionError'')
     | None \<Rightarrow> Inl (MaroError ''PeersDisconnectionError''))"

definition disconnect_peer :: "string \<times> address \<Rightarrow> 'b driver \<Rightarrow> 'b driver res" where
  "disconnect_peer = (\<lambda>(peer_name, addr) dr.
     bindE (foldE (disconnect_socket peer_name) addr dr) (\<lambda>dr.
       Inr (dr\<lparr>dr_disconnected := dr_disconnected dr @ [peer_name]\<rparr>)))"

definition driver_disconnect :: "(string \<times> address) list \<Rightarrow> 'b driver \<Rightarrow> 'b driver res" where
  "driver_disconnect = foldE disconnect_peer"

definition pending_to_send :: py_error where
  "pending_to_send = MaroError ''PendingToSend''"

definition driver_send :: "'b message \<Rightarrow> 'b driver \<Rightarrow> 'b driver res" where
  "driver_send m dr =
     (if map_of (dr_unicast_senders dr) (ms_destination m) \<noteq> None then Inr (dr\<lparr>dr_sent := dr_sent dr @ [m]\<rparr>)
      else if ms_destination m \<in> set (dr_disconnected dr) then Inl pending_to_send
      else Inl system_exit)"

definition driver_broadcast :: "string \<Rightarrow> 'b message \<Rightarrow> 'b driver \<Rightarrow> 'b driver" where
  "driver_broadcast topic m dr = dr\<lparr>dr_published := dr_published dr @ [(topic, m)]\<rparr>"

section \<open>The proxy\<close>

record 'b proxy =
  px_name :: string
  px_driver :: "'b driver"
  px_peers_info :: "(string \<times> string \<times> nat) list"
  px_onboard :: "(string \<times> (string \<times> address option) list) list"
  px_onboard_start_time :: int
  px_message_cache :: "(string \<times> 'b message list) list"
  px_enable_rejoin :: bool
  px_minimal_peers :: "(string \<times> nat) list"
  px_catch_lifetime :: int
  px_minimal_timeout :: int
  px_enable_message_cache :: bool
  px_exited_cache :: "(string \<times> 'b message list) list"
  px_max_cache :: nat

text \<open>\<open>_onboard_peer_dict\<close> is a \<open>defaultdict\<close> of dictionaries.\<close>

definition onboard_peers :: "string \<Rightarrow> 'b proxy \<Rightarrow> (string \<times> address option) list" where
  "onboard_peers peer_type px = (case map_of (px_onboard px) peer_type of None \<Rightarrow> [] | Some ps \<Rightarrow> ps)"

text \<open>The minimal numbers of peers, given for all types or for each.\<close>

definition set_minimal_peers :: "nat + (string \<times> nat) list \<Rightarrow> (string \<times> string \<times> nat) list \<Rightarrow> (string \<times> nat) list res" where
  "set_minimal_peers minimal infos =
     (case minimal of
        Inl n \<Rightarrow> Inr (map (\<lambda>(peer_type, _). (peer_type, max n 1)) infos)
      | Inr d \<Rightarrow> mapE (\<lambda>(peer_type, _). bindE (dict_get d peer_type) (\<lambda>n. Inr (peer_type, max n 1))) infos)"

text \<open>The hash tables of redis: for each name the peers registered with their addresses.\<close>

type_synonym redis = "string \<Rightarrow> (string \<times> address) list"

definition information_uncompleted :: py_error where
  "information_uncompleted = MaroError ''InformationUncompletedError''"

text \<open>Peer discovery: one answer of redis per try, until enough peers of the type have registered.\<close>

fun discover :: "nat \<Rightarrow> string list list \<Rightarrow> string list" where
  "discover expected [] = []"
| "discover expected (registered # tries) =
     (if expected \<le> length registered then take expected registered else discover expected tries)"

definition get_peers_list ::
  "nat \<Rightarrow> (string \<Rightarrow> string list list) \<Rightarrow> int \<Rightarrow> 'b proxy \<Rightarrow> 'b proxy res" where
  "get_peers_list max_retries answers now px =
     (if px_peers_info px = [] then Inl (MaroError ''PeersMissError'')
      else bindE (foldE (\<lambda>(peer_type, table, expected) onboard.
             let registered = discover expected (take max_retries (answers table))
             in if registered = [] then Inl information_uncompleted
                else Inr (AList.update peer_type (fold (\<lambda>p. AList.update p None) registered []) onboard))
           (px_peers_info px) (px_onboard px)) (\<lambda>onboard.
           Inr (px\<lparr>px_onboard := onboard, px_onboard_start_time := now\<rparr>)))"

definition build_connection :: "redis \<Rightarrow> 'b proxy \<Rightarrow> 'b proxy res" where
  "build_connection redis px =
     foldE (\<lambda>(peer_type, table, expected) px.
       bindE (mapE (\<lambda>(p, _). case map_of (redis table) p of
                  None \<Rightarrow> Inl information_uncompleted | Some addr \<Rightarrow> Inr (p, addr)) (onboard_peers peer_type px)) (\<lambda>peers.
       bindE (driver_connect peers (px_driver px)) (\<lambda>dr.
         Inr (px\<lparr>px_onboard := AList.update peer_type (map (\<lambda>(p, addr). (p, Some addr)) peers) (px_onboard px),
                px_driver := dr\<rparr>))))
       (px_peers_info px) px"

definition proxy_peers :: "'b proxy \<Rightarrow> peers" where
  "proxy_peers px = map (\<lambda>(peer_type, _). (peer_type, map fst (onboard_peers peer_type px))) (px_peers_info px)"

section \<open>Receiving by session\<close>

definition cache_append :: "'b message \<Rightarrow> (string \<times> 'b message list) list \<Rightarrow> (string \<times> 'b message list) list" where
  "cache_append m cache =
     (case map_of cache (ms_session_id m) of
        None \<Rightarrow> AList.update (ms_session_id m) [m] cache
      | Some ms \<Rightarrow> AList.update (ms_session_id m) (ms @ [m]) cache)"

text \<open>Messages received before they were asked for.\<close>

definition take_cached ::
  "string \<Rightarrow> string list \<times> 'b message list \<times> (string \<times> 'b message list) list
     \<Rightarrow> (string list \<times> 'b message list \<times> (string \<times> 'b message list) list) res" where
  "take_cached session_id = (\<lambda>(pending, received, cache).
     case map_of cache session_id of
       None \<Rightarrow> Inr (pending, received, cache)
     | Some [] \<Rightarrow> Inl IndexError
     | Some (m # ms) \<Rightarrow>
         Inr (remove1 session_id pending, received @ [m],
              if ms = [] then AList.delete session_id cache else AList.update session_id ms cache))"

text \<open>
  The messages that arrive before a poll times out; without a time-out the loop goes on waiting when they
  are used up, which is \<open>None\<close>.
\<close>

fun receive_loop ::
  "string list \<Rightarrow> 'b message list \<Rightarrow> (string \<times> 'b message list) list \<Rightarrow> 'b message list \<Rightarrow> bool
     \<Rightarrow> (string list \<times> 'b message list \<times> (string \<times> 'b message list) list \<times> 'b message list) option" where
  "receive_loop pending received cache [] times_out = (if times_out then Some (pending, received, cache, []) else None)"
| "receive_loop pending received cache (m # ms) times_out =
     (if ms_session_id m \<in> set pending then
        (let pending' = remove1 (ms_session_id m) pending; received' = received @ [m]
         in if pending' = [] then Some (pending', received', cache, ms)
            else receive_loop pending' received' cache ms times_out)
      else receive_loop pending received (cache_append m cache) ms times_out)"

definition receive_by_id ::
  "string list option \<Rightarrow> 'b message list \<Rightarrow> bool \<Rightarrow> 'b proxy
     \<Rightarrow> (string list \<times> 'b message list option \<times> 'b message list \<times> 'b proxy) option res" where
  "receive_by_id targets incoming times_out px =
     (case targets of
        None \<Rightarrow> Inr (Some ([], None, incoming, px))
      | Some targets \<Rightarrow>
          bindE (foldE take_cached targets (targets, [], px_message_cache px)) (\<lambda>(pending, received, cache).
            Inr (if pending = [] then Some ([], Some received, incoming, px\<lparr>px_message_cache := cache\<rparr>)
                 else map_option (\<lambda>(pending, received, cache, rest).
                        (pending, Some received, rest, px\<lparr>px_message_cache := cache\<rparr>))
                      (receive_loop pending received cache incoming times_out))))"

section \<open>Peers that leave and rejoin\<close>

definition dict_same :: "('k \<times> 'v) list \<Rightarrow> ('k \<times> 'v) list \<Rightarrow> bool" where
  "dict_same d e \<longleftrightarrow> list_all (\<lambda>k. map_of d k = map_of e k) (map fst d @ map fst e)"

definition need_address :: "address option \<Rightarrow> address res" where
  "need_address a = (case a of None \<Rightarrow> Inl AttributeError | Some addr \<Rightarrow> Inr addr)"

definition update_peer ::
  "(string \<times> address) list \<Rightarrow> string \<Rightarrow> (string \<times> address option) list \<times> 'b driver
     \<Rightarrow> ((string \<times> address option) list \<times> 'b driver) res" where
  "update_peer on_redis peer_name = (\<lambda>(onboard, dr).
     case map_of onboard peer_name of
       None \<Rightarrow>
         bindE (dict_get on_redis peer_name) (\<lambda>addr.
         bindE (driver_connect [(peer_name, addr)] dr) (\<lambda>dr.
           Inr (AList.update peer_name (Some addr) onboard, dr)))
     | Some old \<Rightarrow>
         (case map_of on_redis peer_name of
            None \<Rightarrow>
              bindE (need_address old) (\<lambda>old_addr.
              bindE (driver_disconnect [(peer_name, old_addr)] dr) (\<lambda>dr.
                Inr (AList.delete peer_name onboard, dr)))
          | Some addr \<Rightarrow>
              if Some addr \<noteq> old then
                bindE (need_address old) (\<lambda>old_addr.
                bindE (driver_disconnect [(peer_name, old_addr)] dr) (\<lambda>dr.
                bindE (driver_connect [(peer_name, addr)] dr) (\<lambda>dr.
                  Inr (AList.update peer_name (Some addr) onboard, dr))))
              else Inr (onboard, dr)))"

definition update_peer_type ::
  "(string \<times> address) list \<Rightarrow> (string \<times> address option) list \<times> 'b driver
     \<Rightarrow> ((string \<times> address option) list \<times> 'b driver) res" where
  "update_peer_type on_redis = (\<lambda>(onboard, dr).
     if dict_same onboard (map (\<lambda>(p, addr). (p, Some addr)) on_redis) then Inr (onboard, dr)
     else foldE (update_peer on_redis) (map fst onboard @ map fst on_redis) (onboard, dr))"

definition check_peers_update :: "redis \<Rightarrow> 'b proxy \<Rightarrow> 'b proxy res" where
  "check_peers_update redis px =
     foldE (\<lambda>(peer_type, table, expected) px.
       bindE (update_peer_type (redis table) (onboard_peers peer_type px, px_driver px)) (\<lambda>(onboard, dr).
         Inr (px\<lparr>px_onboard := AList.update peer_type onboard (px_onboard px), px_driver := dr\<rparr>)))
       (px_peers_info px) px"

text \<open>
  Waiting for enough peers: one look at the clock and at redis per round.  \<open>None\<close> is still waiting; after the
  time-out the process exits.
\<close>

fun wait_for_minimal_peer_number ::
  "string \<Rightarrow> int \<Rightarrow> (int \<times> redis) list \<Rightarrow> 'b proxy \<Rightarrow> 'b proxy option res" where
  "wait_for_minimal_peer_number peer_type start_time [] px = Inr None"
| "wait_for_minimal_peer_number peer_type start_time ((now, redis) # rounds) px =
     (if px_minimal_timeout px \<le> now - start_time then Inl system_exit
      else bindE (check_peers_update redis px) (\<lambda>px.
           bindE (dict_get (px_minimal_peers px) peer_type) (\<lambda>minimal.
             if minimal \<le> length (onboard_peers peer_type px) then Inr (Some px)
             else wait_for_minimal_peer_number peer_type start_time rounds px)))"

definition proxy_rejoin ::
  "string \<Rightarrow> int \<Rightarrow> redis \<Rightarrow> (int \<times> redis) list \<Rightarrow> 'b proxy \<Rightarrow> 'b proxy option res" where
  "proxy_rejoin peer_type now redis rounds px =
     bindE (if px_catch_lifetime px < now - px_onboard_start_time px
            then bindE (check_peers_update redis px) (\<lambda>px. Inr (px\<lparr>px_onboard_start_time := now\<rparr>))
            else Inr px) (\<lambda>px.
     bindE (dict_get (px_minimal_peers px) peer_type) (\<lambda>minimal.
       if length (onboard_peers peer_type px) < minimal then wait_for_minimal_peer_number peer_type now rounds px
       else Inr (Some px)))"

text \<open>\<open>s[:s.rfind(x)]\<close>: a part that is not found is at position \<open>-1\<close>.\<close>

fun rfind :: "string \<Rightarrow> string \<Rightarrow> int" where
  "rfind x [] = (if x = [] then 0 else -1)"
| "rfind x (c # cs) =
     (let r = rfind x cs
      in if 0 \<le> r then r + 1 else if take (length x) (c # cs) = x then 0 else -1)"

definition get_peer_type :: "string \<Rightarrow> 'b proxy \<Rightarrow> string res" where
  "get_peer_type peer_name px =
     (let peer_type = py_slice peer_name 0 (rfind ''_proxy_'' peer_name)
      in if \<not> dict_mem peer_type (px_onboard px) then Inl system_exit else Inr peer_type)"

section \<open>Sending\<close>

definition deque_append :: "nat \<Rightarrow> 'a \<Rightarrow> 'a list \<Rightarrow> 'a list" where
  "deque_append maxlen x xs = (let ys = xs @ [x] in drop (length ys - maxlen) ys)"

definition push_message_to_message_cache :: "'b message \<Rightarrow> 'b proxy \<Rightarrow> 'b proxy" where
  "push_message_to_message_cache m px =
     (let pending = (case map_of (px_exited_cache px) (ms_destination m) of None \<Rightarrow> [] | Some ms \<Rightarrow> ms)
      in if \<exists>p\<in>set pending. ms_message_id p = ms_message_id m
         then px\<lparr>px_exited_cache := AList.update (ms_destination m) pending (px_exited_cache px)\<rparr>
         else px\<lparr>px_exited_cache := AList.update (ms_destination m) (deque_append (px_max_cache px) m pending)
                   (px_exited_cache px)\<rparr>)"

text \<open>Sending the pending messages of a peer that is back, then the message itself.\<close>

definition flush_pending :: "string \<Rightarrow> 'b message \<Rightarrow> 'b proxy \<Rightarrow> (string list \<times> 'b proxy) res" where
  "flush_pending peer_type m px =
     (case map_of (px_exited_cache px) (ms_destination m) of
        Some pending \<Rightarrow>
          if px_enable_message_cache px \<and> dict_mem (ms_destination m) (onboard_peers peer_type px) then
            bindE (foldE driver_send pending (px_driver px)) (\<lambda>dr.
              Inr (map ms_session_id pending,
                   px\<lparr>px_driver := dr, px_exited_cache := AList.delete (ms_destination m) (px_exited_cache px)\<rparr>))
          else Inr ([], px)
      | None \<Rightarrow> Inr ([], px))"

definition proxy_send_now :: "string list \<Rightarrow> 'b message \<Rightarrow> 'b proxy \<Rightarrow> (string list option \<times> 'b proxy) res" where
  "proxy_send_now session_ids m px =
     (case driver_send m (px_driver px) of
        Inr dr \<Rightarrow> Inr (Some (session_ids @ [ms_session_id m]), px\<lparr>px_driver := dr\<rparr>)
      | Inl e \<Rightarrow>
          if e = pending_to_send
          then Inr (None, if px_enable_message_cache px then push_message_to_message_cache m px else px)
          else Inl e)"

definition proxy_send ::
  "int \<Rightarrow> redis \<Rightarrow> (int \<times> redis) list \<Rightarrow> 'b message \<Rightarrow> 'b proxy \<Rightarrow> (string list option \<times> 'b proxy) option res" where
  "proxy_send now redis rounds m px =
     (if px_enable_rejoin px then
        bindE (get_peer_type (ms_destination m) px) (\<lambda>peer_type.
        bindE (proxy_rejoin peer_type now redis rounds px) (\<lambda>waited.
          case waited of
            None \<Rightarrow> Inr None
          | Some px \<Rightarrow>
              bindE (flush_pending peer_type m px) (\<lambda>(session_ids, px).
              bindE (proxy_send_now session_ids m px) (\<lambda>r. Inr (Some r)))))
      else bindE (proxy_send_now [] m px) (\<lambda>r. Inr (Some r)))"

text \<open>
  \<open>scatter\<close> sends a message per destination, with the identifiers drawn for each; \<open>broadcast\<close> publishes one
  message for all peers of a type.
\<close>

fun scatter_ids ::
  "int \<Rightarrow> redis \<Rightarrow> (int \<times> redis) list \<Rightarrow> string \<Rightarrow> session_type \<Rightarrow> (string \<times> 'b \<times> string \<times> string) list \<Rightarrow> 'b proxy
     \<Rightarrow> (string list \<times> 'b proxy) option res" where
  "scatter_ids now redis rounds tag ty [] px = Inr (Some ([], px))"
| "scatter_ids now redis rounds tag ty ((destination, body, unique_id, message_id) # rest) px =
     bindE (proxy_send now redis rounds
             (new_session_message unique_id message_id tag (px_name px) destination body ty None) px) (\<lambda>sent.
       case sent of
         None \<Rightarrow> Inr None
       | Some (ids, px) \<Rightarrow>
           bindE (scatter_ids now redis rounds tag ty rest px) (\<lambda>others.
             Inr (map_option (\<lambda>(more, px). ((case ids of None \<Rightarrow> [] | Some ids \<Rightarrow> ids) @ more, px)) others)))"

definition broadcast_ids ::
  "int \<Rightarrow> redis \<Rightarrow> (int \<times> redis) list \<Rightarrow> string \<Rightarrow> string \<Rightarrow> session_type \<Rightarrow> 'b \<times> string \<times> string \<Rightarrow> 'b proxy
     \<Rightarrow> (string list \<times> 'b proxy) option res" where
  "broadcast_ids now redis rounds component_type tag ty = (\<lambda>(body, unique_id, message_id) px.
     if \<not> dict_mem component_type (px_onboard px) then Inl system_exit
     else bindE (if px_enable_rejoin px then proxy_rejoin component_type now redis rounds px else Inr (Some px)) (\<lambda>waited.
       case waited of
         None \<Rightarrow> Inr None
       | Some px \<Rightarrow>
           let m = new_session_message unique_id message_id tag (px_name px) component_type body ty None
           in Inr (Some (map (\<lambda>_. ms_session_id m) (onboard_peers component_type px),
                         px\<lparr>px_driver := driver_broadcast component_type m (px_driver px)\<rparr>))))"

text \<open>The blocking versions wait for the replies.\<close>

definition wait_replies ::
  "'b message list \<Rightarrow> bool \<Rightarrow> (string list \<times> 'b proxy) option
     \<Rightarrow> (string list \<times> 'b message list option \<times> 'b message list \<times> 'b proxy) option res" where
  "wait_replies incoming times_out sent =
     (case sent of None \<Rightarrow> Inr None | Some (ids, px) \<Rightarrow> receive_by_id (Some ids) incoming times_out px)"

definition proxy_scatter ::
  "int \<Rightarrow> redis \<Rightarrow> (int \<times> redis) list \<Rightarrow> string \<Rightarrow> session_type \<Rightarrow> (string \<times> 'b \<times> string \<times> string) list
     \<Rightarrow> 'b message list \<Rightarrow> bool \<Rightarrow> 'b proxy
     \<Rightarrow> (string list \<times> 'b message list option \<times> 'b message list \<times> 'b proxy) option res" where
  "proxy_scatter now redis rounds tag ty destinations incoming times_out px =
     bindE (scatter_ids now redis rounds tag ty destinations px) (wait_replies incoming times_out)"

definition proxy_broadcast ::
  "int \<Rightarrow> redis \<Rightarrow> (int \<times> redis) list \<Rightarrow> string \<Rightarrow> string \<Rightarrow> session_type \<Rightarrow> 'b \<times> string \<times> string
     \<Rightarrow> 'b message list \<Rightarrow> bool \<Rightarrow> 'b proxy
     \<Rightarrow> (string list \<times> 'b message list option \<times> 'b message list \<times> 'b proxy) option res" where
  "proxy_broadcast now redis rounds component_type tag ty what incoming times_out px =
     bindE (broadcast_ids now redis rounds component_type tag ty what px) (wait_replies incoming times_out)"

definition proxy_send_receive ::
  "int \<Rightarrow> redis \<Rightarrow> (int \<times> redis) list \<Rightarrow> 'b message \<Rightarrow> 'b message list \<Rightarrow> bool \<Rightarrow> 'b proxy
     \<Rightarrow> (string list \<times> 'b message list option \<times> 'b message list \<times> 'b proxy) option res" where
  "proxy_send_receive now redis rounds m incoming times_out px =
     bindE (proxy_send now redis rounds m px) (\<lambda>sent.
       case sent of None \<Rightarrow> Inr None | Some (ids, px) \<Rightarrow> receive_by_id ids incoming times_out px)"

text \<open>\<open>reply\<close> and \<open>forward\<close> turn the message first; a reply also moves its session on.\<close>

definition proxy_reply ::
  "int \<Rightarrow> redis \<Rightarrow> (int \<times> redis) list \<Rightarrow> string option \<Rightarrow> 'b \<Rightarrow> bool \<Rightarrow> string \<Rightarrow> 'b message \<Rightarrow> 'b proxy
     \<Rightarrow> (string list option \<times> 'b proxy) option res" where
  "proxy_reply now redis rounds tag body ack_reply new_id m px =
     (let m = message_reply tag body new_id m;
          m = m\<lparr>ms_session := map_option (\<lambda>(ty, _).
                (ty, case ty of TaskSession \<Rightarrow> if ack_reply then TaskReceive else TaskComplete
                     | NotificationSession \<Rightarrow> NotificationReceive)) (ms_session m)\<rparr>
      in proxy_send now redis rounds m px)"

definition proxy_forward ::
  "int \<Rightarrow> redis \<Rightarrow> (int \<times> redis) list \<Rightarrow> string \<Rightarrow> string option \<Rightarrow> 'b \<Rightarrow> string \<Rightarrow> 'b message \<Rightarrow> 'b proxy
     \<Rightarrow> (string list option \<times> 'b proxy) option res" where
  "proxy_forward now redis rounds destination tag body new_id m =
     proxy_send now redis rounds (message_forward destination tag body new_id m)"

end
