(* ===== verification/CommProxyProps.thy ===== *)
theory CommProxyProps imports CommProxy begin

text \<open>
  The proxy: receiving by session loses and reorders nothing and answers every target once, keeping up with
  redis leaves exactly the peers of redis, and messages for a peer that is away are kept in order, without
  duplicates and within the bound.
\<close>

section \<open>Receiving\<close>

definition cached :: "string \<Rightarrow> (string \<times> 'b message list) list \<Rightarrow> 'b message list" where
  "cached s cache = (case map_of cache s of None \<Rightarrow> [] | Some ms \<Rightarrow> ms)"

definition of_session :: "string \<Rightarrow> 'b message list \<Rightarrow> 'b message list" where
  "of_session s ms = filter (\<lambda>m. ms_session_id m = s) ms"

definition cache_ok :: "(string \<times> 'b message list) list \<Rightarrow> bool" where
  "cache_ok cache \<longleftrightarrow>
     (\<forall>s ms. map_of cache s = Some ms \<longrightarrow> ms \<noteq> [] \<and> (\<forall>m\<in>set ms. ms_session_id m = s))"

lemma cached_append: "cached s (cache_append m cache) = cached s cache @ of_session s [m]"
  by (auto simp: cache_append_def cached_def of_session_def split: option.split)

lemma cache_ok_append: "cache_ok cache \<Longrightarrow> cache_ok (cache_append m cache)"
  by (auto simp: cache_append_def cache_ok_def split: option.split)

lemma of_session_append [simp]: "of_session s (xs @ ys) = of_session s xs @ of_session s ys"
  by (simp add: of_session_def)

text \<open>The invariant of both phases: what was received and what is cached, and who is still waited for.\<close>

definition served :: "string list \<Rightarrow> (string \<times> 'b message list) list \<Rightarrow> 'b message list
    \<Rightarrow> string list \<times> 'b message list \<times> (string \<times> 'b message list) list \<Rightarrow> bool" where
  "served targets cache0 consumed = (\<lambda>(pending, received, cache).
     cache_ok cache
     \<and> (\<forall>s. of_session s received @ cached s cache = cached s cache0 @ of_session s consumed)
     \<and> (\<forall>s. count_list pending s + length (of_session s received) = count_list targets s))"

lemma count_list_remove1: "count_list (remove1 x xs) y = (if x = y then count_list xs y - 1 else count_list xs y)"
  by (induction xs) (auto simp: count_list_0_iff)

lemma served_receive:
  assumes "served targets cache0 consumed (pending, received, cache)" "s \<in> set pending" "ms_session_id m = s" "cache_ok c"
    and "\<And>t. of_session t (received @ [m]) @ cached t c = cached t cache0 @ of_session t consumed'"
  shows "served targets cache0 consumed' (remove1 s pending, received @ [m], c)"
proof -
  have pos: "0 < count_list pending s" using assms(2) by (metis count_list_0_iff neq0_conv)
  have "count_list (remove1 s pending) t + length (of_session t (received @ [m])) = count_list targets t" for t
  proof -
    have "count_list pending t + length (of_session t received) = count_list targets t"
      using assms(1) by (simp add: served_def)
    then show ?thesis using pos assms(3) by (cases "t = s") (auto simp: count_list_remove1 of_session_def)
  qed
  with assms(4,5) show ?thesis by (simp add: served_def del: of_session_append)
qed

lemma take_cached_served:
  assumes "served targets cache0 [] (pending, received, cache)" "s \<in> set pending"
  obtains p r c where "take_cached s (pending, received, cache) = Inr (p, r, c)" "served targets cache0 [] (p, r, c)"
    "\<And>t. length (cached t c) = length (cached t cache) - (if t = s then 1 else 0)"
    "\<And>t. count_list p t = (if t = s \<and> cached s cache \<noteq> [] then count_list pending t - 1 else count_list pending t)"
proof (cases "map_of cache s")
  case None
  then show thesis using assms that [of pending received cache] by (simp add: take_cached_def cached_def)
next
  case (Some ms)
  have ok: "cache_ok cache" using assms(1) by (simp add: served_def)
  then obtain m rest where ms: "ms = m # rest" "\<forall>x\<in>set ms. ms_session_id x = s"
    using Some by (cases ms) (auto simp: cache_ok_def)
  obtain c where c: "c = (if rest = [] then AList.delete s cache else AList.update s rest cache)" by blast
  have lookup: "map_of c t = (if t = s then (if rest = [] then None else Some rest) else map_of cache t)" for t
    by (auto simp: c delete_conv')
  have c_ok: "cache_ok c" using ok ms Some by (auto simp: cache_ok_def lookup)
  have "of_session t (received @ [m]) @ cached t c = cached t cache0 @ of_session t []" for t
  proof -
    have "of_session t received @ cached t cache = cached t cache0" using assms(1) by (simp add: served_def of_session_def)
    then show ?thesis using ms Some by (auto simp: cached_def lookup of_session_def)
  qed
  then have "served targets cache0 [] (remove1 s pending, received @ [m], c)"
    using ms by (intro served_receive [OF assms(1,2) _ c_ok]) simp_all
  moreover have "take_cached s (pending, received, cache) = Inr (remove1 s pending, received @ [m], c)"
    using Some by (simp add: take_cached_def ms(1) c)
  moreover have "length (cached t c) = length (cached t cache) - (if t = s then 1 else 0)" for t
    using Some by (simp add: cached_def lookup ms(1))
  moreover have "count_list (remove1 s pending) t =
      (if t = s \<and> cached s cache \<noteq> [] then count_list pending t - 1 else count_list pending t)" for t
    using Some by (simp add: count_list_remove1 cached_def ms(1))
  ultimately show thesis by (intro that)
qed

lemma take_all_cached:
  assumes "served targets cache0 [] (pending, received, cache)"
    and "\<forall>s. count_list todo s \<le> count_list pending s"
    and "\<forall>s. count_list todo s < count_list pending s \<longrightarrow> cached s cache = []"
  shows "\<exists>p r c. foldE take_cached todo (pending, received, cache) = Inr (p, r, c) \<and> served targets cache0 [] (p, r, c)
    \<and> (\<forall>s\<in>set p. cached s c = [])"
  using assms
proof (induction todo arbitrary: pending received cache)
  case Nil
  have "cached s cache = []" if "s \<in> set pending" for s
  proof -
    have "0 < count_list pending s" using that by (metis count_list_0_iff neq0_conv)
    with Nil.prems(3) show ?thesis by simp
  qed
  with Nil.prems(1) show ?case by auto
next
  case (Cons s todo)
  have "count_list (s # todo) s \<le> count_list pending s" using Cons.prems(2) by blast
  then have "0 < count_list pending s" by simp
  then have mem: "s \<in> set pending" by (metis count_list_0_iff neq0_conv)
  obtain p r c where step: "take_cached s (pending, received, cache) = Inr (p, r, c)" "served targets cache0 [] (p, r, c)"
    "\<And>t. length (cached t c) = length (cached t cache) - (if t = s then 1 else 0)"
    "\<And>t. count_list p t = (if t = s \<and> cached s cache \<noteq> [] then count_list pending t - 1 else count_list pending t)"
    using take_cached_served [OF Cons.prems(1) mem] by metis
  have le: "\<forall>t. count_list todo t \<le> count_list p t"
  proof
    fix t
    show "count_list todo t \<le> count_list p t" using Cons.prems(2) [rule_format, of t] by (auto simp: step(4) split: if_splits)
  qed
  have "\<forall>t. count_list todo t < count_list p t \<longrightarrow> cached t c = []"
  proof (intro allI impI)
    fix t
    assume lt: "count_list todo t < count_list p t"
    show "cached t c = []"
    proof (cases "t = s \<and> cached s cache = []")
      case True
      then show ?thesis using step(3) [of t] by simp
    next
      case False
      then have "count_list (s # todo) t < count_list pending t" using lt by (auto simp: step(4) split: if_splits)
      then have "cached t cache = []" using Cons.prems(3) by blast
      then show ?thesis using step(3) [of t] by simp
    qed
  qed
  from Cons.IH [OF step(2) le this] step(1) show ?case by simp
qed

lemma receive_loop_served:
  assumes "served targets cache0 consumed (pending, received, cache)" "\<forall>s\<in>set pending. cached s cache = []"
    and "receive_loop pending received cache ms times_out = Some (p, r, c, rest)" "pending \<noteq> []"
  shows "\<exists>more. ms = more @ rest \<and> served targets cache0 (consumed @ more) (p, r, c) \<and> (p \<noteq> [] \<longrightarrow> times_out \<and> rest = [])"
  using assms
proof (induction ms arbitrary: pending received cache consumed)
  case Nil
  then show ?case by (auto split: if_splits)
next
  case (Cons m ms)
  obtain s where s: "s = ms_session_id m" by blast
  show ?case
  proof (cases "s \<in> set pending")
    case True
    have "served targets cache0 (consumed @ [m]) (remove1 s pending, received @ [m], cache)"
    proof (rule served_receive [OF Cons.prems(1) True s [symmetric]])
      show "cache_ok cache" using Cons.prems(1) by (simp add: served_def)
      fix t
      have "of_session t received @ cached t cache = cached t cache0 @ of_session t consumed"
        using Cons.prems(1) by (simp add: served_def)
      moreover have "cached s cache = []" using Cons.prems(2) True by simp
      ultimately show "of_session t (received @ [m]) @ cached t cache = cached t cache0 @ of_session t (consumed @ [m])"
        by (cases "t = s") (auto simp: of_session_def s)
    qed
    note step = this
    show ?thesis
    proof (cases "remove1 s pending = []")
      case True
      then have "(p, r, c, rest) = (remove1 s pending, received @ [m], cache, ms)"
        using Cons.prems(3) \<open>s \<in> set pending\<close> by (simp add: s)
      then show ?thesis using step True by (intro exI [of _ "[m]"]) simp
    next
      case False
      then have "receive_loop (remove1 s pending) (received @ [m]) cache ms times_out = Some (p, r, c, rest)"
        using Cons.prems(3) True by (simp add: s)
      moreover have "\<forall>t\<in>set (remove1 s pending). cached t cache = []"
        using Cons.prems(2) set_remove1_subset [of s pending] by blast
      ultimately obtain more where more: "ms = more @ rest" "served targets cache0 ((consumed @ [m]) @ more) (p, r, c)"
          "p \<noteq> [] \<longrightarrow> times_out \<and> rest = []"
        using Cons.IH [OF step _ _ False] by blast
      then show ?thesis by (intro exI [of _ "m # more"]) simp
    qed
  next
    case False
    then have step: "served targets cache0 (consumed @ [m]) (pending, received, cache_append m cache)"
      using Cons.prems(1) by (auto simp: served_def cache_ok_append cached_append)
    have "\<forall>t\<in>set pending. cached t (cache_append m cache) = []"
      using Cons.prems(2) False by (auto simp: cached_append of_session_def s)
    moreover have "receive_loop pending received (cache_append m cache) ms times_out = Some (p, r, c, rest)"
      using Cons.prems(3) False by (simp add: s)
    ultimately obtain more where more: "ms = more @ rest" "served targets cache0 ((consumed @ [m]) @ more) (p, r, c)"
        "p \<noteq> [] \<longrightarrow> times_out \<and> rest = []"
      using Cons.IH [OF step _ _ Cons.prems(4)] by blast
    then show ?thesis by (intro exI [of _ "m # more"]) simp
  qed
qed

lemma served_start: "cache_ok cache \<Longrightarrow> served targets cache [] (targets, [], cache)"
  by (simp add: served_def of_session_def)

lemma receive_phases:
  assumes "cache_ok (px_message_cache px)"
  obtains p r c where "foldE take_cached targets (targets, [], px_message_cache px) = Inr (p, r, c)"
    "served targets (px_message_cache px) [] (p, r, c)" "\<forall>s\<in>set p. cached s c = []"
  using take_all_cached [OF served_start [OF assms], of targets targets] by auto

text \<open>C23: Receiving by session loses, duplicates and reorders nothing: per session the
  messages handed out followed by those cached are the cached ones followed by those consumed, each
  target is answered at most once per request, and targets stay open only when the wait timed out.\<close>

theorem receive_by_session:
  assumes "cache_ok (px_message_cache px)"
    and "receive_by_id (Some targets) incoming times_out px = Inr (Some (pending, Some received, rest, px'))"
  shows "\<exists>consumed. incoming = consumed @ rest \<and> cache_ok (px_message_cache px')
    \<and> (\<forall>s. of_session s received @ cached s (px_message_cache px') = cached s (px_message_cache px) @ of_session s consumed)
    \<and> (\<forall>s. count_list pending s + length (of_session s received) = count_list targets s)
    \<and> (pending \<noteq> [] \<longrightarrow> times_out \<and> rest = [])"
proof -
  from receive_phases [OF assms(1), of targets] obtain p r c where
    f: "foldE take_cached targets (targets, [], px_message_cache px) = Inr (p, r, c)"
      "served targets (px_message_cache px) [] (p, r, c)" "\<forall>s\<in>set p. cached s c = []" .
  show ?thesis
  proof (cases "p = []")
    case True
    then show ?thesis using assms(2) f(1,2) by (auto simp: receive_by_id_def served_def intro!: exI [of _ "[]"])
  next
    case False
    then obtain c' where l: "receive_loop p r c incoming times_out = Some (pending, received, c', rest)"
        "px' = px\<lparr>px_message_cache := c'\<rparr>"
      using assms(2) f(1) by (auto simp: receive_by_id_def)
    from receive_loop_served [OF f(2,3) l(1) False] obtain consumed where
      "incoming = consumed @ rest" "served targets (px_message_cache px) consumed (pending, received, c')"
      "pending \<noteq> [] \<longrightarrow> times_out \<and> rest = []" by auto
    then show ?thesis by (auto simp: served_def l(2))
  qed
qed

text \<open>No error and no endless wait: when the messages suffice, every target is answered.\<close>

lemma receive_loop_returns:
  assumes "\<forall>s. count_list pending s \<le> length (of_session s ms)" "pending \<noteq> []"
  shows "\<exists>r c rest. receive_loop pending received cache ms times_out = Some ([], r, c, rest)"
  using assms
proof (induction ms arbitrary: pending received cache)
  case Nil
  then obtain s where "s \<in> set pending" by (cases pending) auto
  then have "0 < count_list pending s" by (metis count_list_0_iff neq0_conv)
  with Nil.prems(1) show ?case by (metis list.size(3) of_session_def filter.simps(1) not_less)
next
  case (Cons m ms)
  obtain s where s: "s = ms_session_id m" by blast
  have le: "count_list pending t \<le> (if t = s then 1 else 0) + length (of_session t ms)" for t
    using Cons.prems(1) [rule_format, of t] by (auto simp: of_session_def s split: if_splits)
  show ?case
  proof (cases "s \<in> set pending")
    case True
    have "\<forall>t. count_list (remove1 s pending) t \<le> length (of_session t ms)"
    proof
      fix t
      show "count_list (remove1 s pending) t \<le> length (of_session t ms)"
        using le [of t] by (auto simp: count_list_remove1 split: if_splits)
    qed
    from Cons.IH [OF this] True show ?thesis by (cases "remove1 s pending = []") (simp_all add: s Let_def)
  next
    case False
    have "\<forall>t. count_list pending t \<le> length (of_session t ms)"
    proof
      fix t
      show "count_list pending t \<le> length (of_session t ms)"
        using le [of t] False count_list_0_iff [of pending t] by (cases "t = s") auto
    qed
    from Cons.IH [OF this Cons.prems(2)] False show ?thesis by (simp add: s)
  qed
qed

text \<open>C24: When cache and arriving messages hold enough messages of each target session,
  receiving returns without an error or a time-out and answers every target.\<close>

theorem receive_answers_all:
  assumes "cache_ok (px_message_cache px)"
    and "\<forall>s. count_list targets s \<le> length (cached s (px_message_cache px)) + length (of_session s incoming)"
  shows "\<exists>received rest px'. receive_by_id (Some targets) incoming times_out px = Inr (Some ([], Some received, rest, px'))
    \<and> (\<forall>s. length (of_session s received) = count_list targets s)"
proof -
  from receive_phases [OF assms(1), of targets] obtain p r c where
    f: "foldE take_cached targets (targets, [], px_message_cache px) = Inr (p, r, c)"
      "served targets (px_message_cache px) [] (p, r, c)" "\<forall>s\<in>set p. cached s c = []" .
  have "\<exists>received rest px'. receive_by_id (Some targets) incoming times_out px = Inr (Some ([], Some received, rest, px'))"
  proof (cases "p = []")
    case True
    then show ?thesis by (simp add: receive_by_id_def f(1))
  next
    case False
    have "\<forall>s. count_list p s \<le> length (of_session s incoming)"
    proof
      fix s
      show "count_list p s \<le> length (of_session s incoming)"
      proof (cases "s \<in> set p")
        case True
        have "length (of_session s r) + length (cached s c) = length (cached s (px_message_cache px))"
          using f(2) by (simp add: served_def of_session_def) (metis length_append)
        moreover have "count_list p s + length (of_session s r) = count_list targets s" using f(2) by (simp add: served_def)
        moreover have "cached s c = []" using f(3) True by simp
        ultimately show ?thesis using assms(2) [rule_format, of s] by simp
      next
        case False
        then show ?thesis by (simp add: count_list_0_iff)
      qed
    qed
    from receive_loop_returns [OF this False, of r c times_out] show ?thesis
      by (auto simp: receive_by_id_def f(1) False)
  qed
  then obtain received rest px' where r: "receive_by_id (Some targets) incoming times_out px = Inr (Some ([], Some received, rest, px'))"
    by blast
  have "served targets (px_message_cache px) [] (p, r, c)" by (rule f(2))
  moreover have "length (of_session s received) = count_list targets s" for s
  proof (cases "p = []")
    case True
    then have "received = r" using r f(1) by (simp add: receive_by_id_def)
    then show ?thesis using f(2) True by (simp add: served_def)
  next
    case False
    then obtain c' where "receive_loop p r c incoming times_out = Some ([], received, c', rest)"
      using r f(1) by (auto simp: receive_by_id_def)
    from receive_loop_served [OF f(2,3) this False] show ?thesis by (auto simp: served_def)
  qed
  ultimately show ?thesis using r by blast
qed

section \<open>Keeping up with redis\<close>

lemma update_peer_lookup:
  assumes "update_peer on_redis p (onboard, dr) = Inr (onboard', dr')"
  shows "map_of onboard' q = (if q = p then map_option Some (map_of on_redis p) else map_of onboard q)"
  using assms
  by (auto simp: update_peer_def dict_get_def res_simps update_conv' delete_conv' split: option.splits if_splits)

lemma update_peers_lookup:
  assumes "foldE (update_peer on_redis) ps (onboard, dr) = Inr (onboard', dr')"
  shows "map_of onboard' q = (if q \<in> set ps then map_option Some (map_of on_redis q) else map_of onboard q)"
  using assms
proof (induction ps arbitrary: onboard dr)
  case (Cons p ps)
  then obtain o1 d1 where step: "update_peer on_redis p (onboard, dr) = Inr (o1, d1)"
      "foldE (update_peer on_redis) ps (o1, d1) = Inr (onboard', dr')"
    by (auto simp: res_simps)
  from Cons.IH [OF step(2)] update_peer_lookup [OF step(1), of q] show ?case by auto
qed simp

lemma map_of_some_values: "map_of (map (\<lambda>(p, addr). (p, Some addr)) d) q = map_option Some (map_of d q)"
  by (induction d) auto

lemma dict_same_lookup: "dict_same d e \<Longrightarrow> map_of d q = map_of e q"
proof -
  assume "dict_same d e"
  then have "q \<in> fst ` set d \<union> fst ` set e \<Longrightarrow> map_of d q = map_of e q" by (auto simp: dict_same_def list_all_iff)
  then show ?thesis by (metis UnCI map_of_eq_None_iff)
qed

lemma update_peer_type_lookup:
  assumes "update_peer_type on_redis (onboard, dr) = Inr (onboard', dr')"
  shows "map_of onboard' q = map_option Some (map_of on_redis q)"
proof (cases "dict_same onboard (map (\<lambda>(p, addr). (p, Some addr)) on_redis)")
  case True
  then show ?thesis using assms dict_same_lookup [OF True, of q]
    by (simp add: update_peer_type_def map_of_some_values)
next
  case False
  then have "foldE (update_peer on_redis) (map fst onboard @ map fst on_redis) (onboard, dr) = Inr (onboard', dr')"
    using assms by (simp add: update_peer_type_def)
  note lookup = update_peers_lookup [OF this, of q]
  show ?thesis
  proof (cases "q \<in> set (map fst onboard @ map fst on_redis)")
    case False
    then have "map_of onboard q = None" "map_of on_redis q = None" by (simp_all add: map_of_eq_None_iff)
    with lookup show ?thesis by simp
  qed (use lookup in simp)
qed

theorem peers_follow_redis:
  assumes "check_peers_update redis px = Inr px'" "distinct (map fst (px_peers_info px))"
  shows "px_peers_info px' = px_peers_info px
    \<and> (\<forall>(peer_type, table, expected)\<in>set (px_peers_info px). \<exists>onboard. map_of (px_onboard px') peer_type = Some onboard
        \<and> (\<forall>peer. map_of onboard peer = map_option Some (map_of (redis table) peer)))"
proof -
  define f where "f = (\<lambda>(peer_type, table, expected :: nat) px.
       bindE (update_peer_type (redis table) (onboard_peers peer_type px, px_driver px)) (\<lambda>(onboard, dr).
         Inr (px\<lparr>px_onboard := AList.update peer_type onboard (px_onboard px), px_driver := dr\<rparr> :: 'a proxy)))"
  have step: "px_peers_info q = px_peers_info p
      \<and> (\<forall>t. t \<noteq> fst x \<longrightarrow> map_of (px_onboard q) t = map_of (px_onboard p) t)
      \<and> (\<exists>onboard. map_of (px_onboard q) (fst x) = Some onboard
          \<and> (\<forall>peer. map_of onboard peer = map_option Some (map_of (redis (fst (snd x))) peer)))"
    if "f x p = Inr q" for x p q
    using that update_peer_type_lookup
    by (cases x) (auto simp: f_def res_simps dict_get_def update_conv' split: option.splits)
  have "px_peers_info q = px_peers_info p
      \<and> (\<forall>t. t \<notin> fst ` set xs \<longrightarrow> map_of (px_onboard q) t = map_of (px_onboard p) t)
      \<and> (\<forall>x\<in>set xs. \<exists>onboard. map_of (px_onboard q) (fst x) = Some onboard
          \<and> (\<forall>peer. map_of onboard peer = map_option Some (map_of (redis (fst (snd x))) peer)))"
    if "foldE f xs p = Inr q" "distinct (map fst xs)" for xs p q
    using that
  proof (induction xs arbitrary: p)
    case (Cons x xs)
    then obtain p1 where "f x p = Inr p1" "foldE f xs p1 = Inr q" by (auto simp: res_simps)
    with step [OF this(1)] Cons.IH [OF this(2)] Cons.prems(2) show ?case by auto
  qed simp
  from this [of "px_peers_info px" px px'] assms show ?thesis
    unfolding check_peers_update_def f_def [symmetric] by fastforce
qed

section \<open>Messages for peers that are away\<close>

definition pending_of :: "string \<Rightarrow> 'b proxy \<Rightarrow> 'b message list" where
  "pending_of d px = (case map_of (px_exited_cache px) d of None \<Rightarrow> [] | Some ms \<Rightarrow> ms)"

lemma push_pending:
  assumes "ms_message_id m \<notin> ms_message_id ` set (pending_of (ms_destination m) px)"
  shows "pending_of d (push_message_to_message_cache m px) =
    (if ms_destination m = d then keep_last (px_max_cache px) (pending_of d px @ [m]) else pending_of d px)"
proof -
  obtain ms where ms: "pending_of (ms_destination m) px = ms" by blast
  then have "(case map_of (px_exited_cache px) (ms_destination m) of None \<Rightarrow> [] | Some ms \<Rightarrow> ms) = ms"
    by (simp only: pending_of_def)
  moreover have "\<not> (\<exists>p\<in>set ms. ms_message_id p = ms_message_id m)" using assms unfolding ms by (metis imageI)
  ultimately have "push_message_to_message_cache m px =
      px\<lparr>px_exited_cache := AList.update (ms_destination m) (deque_append (px_max_cache px) m ms) (px_exited_cache px)\<rparr>"
    by (simp only: push_message_to_message_cache_def Let_def if_False)
  then show ?thesis using ms by (auto simp: pending_of_def deque_append_def keep_last_def Let_def update_conv')
qed

lemma push_frame [simp]:
  "px_max_cache (push_message_to_message_cache m px) = px_max_cache px"
  "px_driver (push_message_to_message_cache m px) = px_driver px"
  "px_onboard (push_message_to_message_cache m px) = px_onboard px"
  "px_enable_message_cache (push_message_to_message_cache m px) = px_enable_message_cache px"
  by (simp_all add: push_message_to_message_cache_def Let_def)

lemma push_all_pending:
  assumes "distinct (map ms_message_id ms)" "\<And>m e. m \<in> set ms \<Longrightarrow> ms_message_id m \<notin> ms_message_id ` set (pending_of e px)"
    and "length (pending_of d px) \<le> px_max_cache px"
  shows "pending_of d (fold push_message_to_message_cache ms px) =
    keep_last (px_max_cache px) (pending_of d px @ filter (\<lambda>m. ms_destination m = d) ms)"
  using assms
proof (induction ms arbitrary: px)
  case Nil
  then show ?case by (simp add: keep_last_def)
next
  case (Cons m ms)
  define px1 where "px1 = push_message_to_message_cache m px"
  have max: "px_max_cache px1 = px_max_cache px" by (simp add: px1_def)
  have new: "ms_message_id m \<notin> ms_message_id ` set (pending_of (ms_destination m) px)" using Cons.prems(2) by simp
  have p1: "pending_of e px1 = (if ms_destination m = e then keep_last (px_max_cache px) (pending_of e px @ [m]) else pending_of e px)"
    for e unfolding px1_def by (rule push_pending [OF new])
  have "ms_message_id x \<notin> ms_message_id ` set (pending_of e px1)" if x: "x \<in> set ms" for x e
  proof -
    have "set (pending_of e px1) \<subseteq> insert m (set (pending_of e px))"
      using set_keep_last [of "px_max_cache px" "pending_of e px @ [m]"] by (auto simp: p1)
    moreover have "ms_message_id m \<notin> ms_message_id ` set ms" using Cons.prems(1) by simp
    then have "ms_message_id x \<noteq> ms_message_id m" using x by (metis imageI)
    moreover have "ms_message_id x \<notin> ms_message_id ` set (pending_of e px)" using Cons.prems(2) x by simp
    ultimately show ?thesis by auto
  qed
  moreover have "length (pending_of d px1) \<le> px_max_cache px1"
    using Cons.prems(3) by (auto simp: max p1 keep_last_def)
  ultimately have "pending_of d (fold push_message_to_message_cache ms px1) =
      keep_last (px_max_cache px1) (pending_of d px1 @ filter (\<lambda>m. ms_destination m = d) ms)"
    using Cons.IH [of px1] Cons.prems(1) by simp
  then show ?case using keep_last_append [of "px_max_cache px" "pending_of d px @ [m]"]
    by (auto simp: px1_def [symmetric] p1 max)
qed

lemma driver_send_all:
  assumes "map_of (dr_unicast_senders dr) d \<noteq> None" "\<forall>m\<in>set ms. ms_destination m = d"
  shows "foldE driver_send ms dr = Inr (dr\<lparr>dr_sent := dr_sent dr @ ms\<rparr>)"
  using assms
  by (induction ms arbitrary: dr) (auto simp: driver_send_def)

text \<open>Messages for a peer that is away are kept up to the configured number, newest last,
  and when the peer is back they are sent in that order before the next message.\<close>

theorem pending_sent_in_order:
  assumes "distinct (map ms_message_id (ms @ [m]))" "pending_of (ms_destination m) px = []"
    and "\<forall>x\<in>set ms. \<forall>e. ms_message_id x \<notin> ms_message_id ` set (pending_of e px)"
    and "ms \<noteq> []" "\<forall>x\<in>set ms. ms_destination x = ms_destination m" "px_enable_message_cache px"
    and "map_of (px_onboard px) peer_type = Some onboard" "dict_mem (ms_destination m) onboard"
    and "map_of (dr_unicast_senders (px_driver px)) (ms_destination m) \<noteq> None"
  shows "\<exists>px'. flush_pending peer_type m (fold push_message_to_message_cache ms px) =
      Inr (map ms_session_id (keep_last (px_max_cache px) ms), px')
    \<and> dr_sent (px_driver px') = dr_sent (px_driver px) @ keep_last (px_max_cache px) ms
    \<and> map_of (px_exited_cache px') (ms_destination m) = None"
proof -
  define px1 where "px1 = fold push_message_to_message_cache ms px"
  have frame: "px_onboard px1 = px_onboard px" "px_driver px1 = px_driver px"
      "px_enable_message_cache px1 = px_enable_message_cache px" "px_max_cache px1 = px_max_cache px"
    unfolding px1_def by (induction ms arbitrary: px) simp_all
  have "pending_of (ms_destination m) px1 = keep_last (px_max_cache px) ms"
    using push_all_pending [of ms px "ms_destination m"] assms(1,2,3,5) by (simp add: px1_def filter_id_conv)
  moreover have "map_of (px_exited_cache px1) (ms_destination m) \<noteq> None"
  proof -
    obtain x xs where "ms = xs @ [x]" using assms(4) by (metis rev_exhaust)
    then show ?thesis using assms(5)
      by (auto simp: px1_def push_message_to_message_cache_def Let_def update_conv')
  qed
  ultimately have cached: "map_of (px_exited_cache px1) (ms_destination m) = Some (keep_last (px_max_cache px) ms)"
    by (auto simp: pending_of_def)
  have "foldE driver_send (keep_last (px_max_cache px) ms) (px_driver px) =
      Inr ((px_driver px)\<lparr>dr_sent := dr_sent (px_driver px) @ keep_last (px_max_cache px) ms\<rparr>)"
    using set_keep_last [of "px_max_cache px" ms] assms(5) by (intro driver_send_all [OF assms(9)]) blast
  then show ?thesis unfolding px1_def [symmetric]
    by (simp add: flush_pending_def onboard_peers_def frame assms(6-8) cached delete_conv')
qed

section \<open>The type of a peer\<close>

lemma substring_take: "substring x s \<Longrightarrow> s \<noteq> [] \<Longrightarrow> \<not> substring x (tl s) \<Longrightarrow> take (length x) s = x"
  by (cases s) auto

lemma rfind_none: "\<not> substring x s \<Longrightarrow> rfind x s = -1"
  by (induction s) (auto simp: Let_def)

lemma rfind_first: "\<not> substring x (tl s) \<Longrightarrow> take (length x) s = x \<Longrightarrow> rfind x s = 0"
  by (cases s) (auto simp: rfind_none)

lemma rfind_shift: "rfind x s = 0 \<Longrightarrow> rfind x (t @ s) = int (length t)"
  by (induction t) auto

theorem peer_type_of_name:
  "(\<not> substring ''_proxy_'' (tl (''_proxy_'' @ suffix)) \<longrightarrow>
      get_peer_type (t @ ''_proxy_'' @ suffix) px = (if dict_mem t (px_onboard px) then Inr t else Inl system_exit))
   \<and> (\<not> substring ''_proxy_'' name \<longrightarrow>
      get_peer_type name px = (if dict_mem (butlast name) (px_onboard px) then Inr (butlast name) else Inl system_exit))"
proof (intro conjI impI)
  assume "\<not> substring ''_proxy_'' (tl (''_proxy_'' @ suffix))"
  then have "rfind ''_proxy_'' (''_proxy_'' @ suffix) = 0" by (rule rfind_first) simp
  then have "rfind ''_proxy_'' (t @ ''_proxy_'' @ suffix) = int (length t)" by (rule rfind_shift)
  then show "get_peer_type (t @ ''_proxy_'' @ suffix) px = (if dict_mem t (px_onboard px) then Inr t else Inl system_exit)"
    by (simp add: get_peer_type_def py_slice_def slice_bound_def)
next
  assume "\<not> substring ''_proxy_'' name"
  then have "rfind ''_proxy_'' name = -1" by (rule rfind_none)
  moreover have "nat (int (length name) - 1) = length name - Suc 0" by linarith
  then have "py_slice name 0 (-1) = butlast name"
    by (auto simp: py_slice_def slice_bound_def butlast_conv_take Let_def min_def max_def)
  ultimately show "get_peer_type name px =
      (if dict_mem (butlast name) (px_onboard px) then Inr (butlast name) else Inl system_exit)"
    by (simp add: get_peer_type_def Let_def)
qed

section \<open>The sockets follow the peers\<close>

text \<open>
  The state of a driver whose
  sockets are those of the onboard peers; \<open>other\<close> are the broadcast sockets of other types of peers.
\<close>

definition well_addressed :: "(string \<times> address) list \<Rightarrow> bool" where
  "well_addressed d \<longleftrightarrow> (\<forall>(p, a)\<in>set d. \<exists>u b. a = zmq_address u b)"

definition sub_address :: "string \<times> address option \<Rightarrow> string" where
  "sub_address = (\<lambda>(p, a). case a of None \<Rightarrow> [] | Some a \<Rightarrow> the (map_of a ''2''))"

definition has_senders :: "(string \<times> address option) list \<Rightarrow> (string \<times> string) list \<Rightarrow> bool" where
  "has_senders onboard senders \<longleftrightarrow>
     (\<forall>p a. map_of onboard p = Some a \<longrightarrow> (\<exists>u b. a = Some (zmq_address u b) \<and> map_of senders p = Some u))"

definition linked :: "string multiset \<Rightarrow> (string \<times> address option) list \<Rightarrow> 'b driver \<Rightarrow> bool" where
  "linked other onboard dr \<longleftrightarrow> distinct (map fst onboard) \<and> has_senders onboard (dr_unicast_senders dr)
     \<and> mset (dr_broadcast dr) = other + mset (map sub_address onboard)"

lemma py_int_socket [simp]: "py_int_of ''7'' = Some 7" "py_int_of ''2'' = Some 2"
  by code_simp+

lemma sub_address_zmq [simp]: "sub_address (p, Some (zmq_address u b)) = b"
  by (simp add: sub_address_def zmq_address_def)

lemma has_senders_update:
  "has_senders onboard senders \<Longrightarrow> has_senders (AList.update p (Some (zmq_address u b)) onboard) (AList.update p u senders)"
  by (simp add: has_senders_def update_conv') blast

lemma has_senders_delete: "has_senders onboard senders \<Longrightarrow> has_senders (AList.delete p onboard) (AList.delete p senders)"
  by (simp add: has_senders_def delete_conv')

lemma connect_one: "driver_connect [(p, zmq_address u b)] dr =
    Inr (dr\<lparr>dr_unicast_senders := AList.update p u (dr_unicast_senders dr), dr_broadcast := dr_broadcast dr @ [b],
            dr_disconnected := remove1 p (dr_disconnected dr)\<rparr>)"
  by (simp add: driver_connect_def connect_peer_def connect_socket_def zmq_address_def)

lemma disconnect_one:
  assumes "map_of (dr_unicast_senders dr) p = Some u" "b \<in># mset (dr_broadcast dr)"
  shows "driver_disconnect [(p, zmq_address u b)] dr =
    Inr (dr\<lparr>dr_unicast_senders := AList.delete p (dr_unicast_senders dr), dr_broadcast := remove1 b (dr_broadcast dr),
            dr_disconnected := dr_disconnected dr @ [p]\<rparr>)"
  using assms by (simp add: driver_disconnect_def disconnect_peer_def disconnect_socket_def zmq_address_def)

lemma mset_delete:
  "map_of d p = Some a \<Longrightarrow> distinct (map fst d) \<Longrightarrow> mset (map f d) = add_mset (f (p, a)) (mset (map f (AList.delete p d)))"
proof (induction d)
  case (Cons x d)
  then show ?case by (cases x) (auto simp: delete_id image_iff split: if_splits intro!: arg_cong [where f = "\<lambda>x. mset (map f x)"])
qed simp

lemma mset_update_new: "map_of d p = None \<Longrightarrow> AList.update p a d = d @ [(p, a)]"
  by (induction d) (auto split: if_splits)

lemma mset_update_old:
  "map_of d p = Some a \<Longrightarrow> distinct (map fst d) \<Longrightarrow>
    mset (map f (AList.update p c d)) + {#f (p, a)#} = mset (map f d) + {#f (p, c)#}"
  by (induction d) (auto split: if_splits simp: map_of_eq_None_iff [symmetric] update_conv')

lemma linked_connect:
  assumes "linked other onboard dr" "map_of onboard p = None" "driver_connect [(p, zmq_address u b)] dr = Inr dr'"
  shows "linked other (AList.update p (Some (zmq_address u b)) onboard) dr'"
proof -
  have "has_senders (AList.update p (Some (zmq_address u b)) onboard) (AList.update p u (dr_unicast_senders dr))"
    using assms(1) by (simp add: linked_def has_senders_update)
  then show ?thesis using assms distinct_update [of onboard p]
    by (auto simp: linked_def connect_one mset_update_new)
qed

lemma linked_disconnect:
  assumes "linked other onboard dr" "map_of onboard p = Some a"
  obtains u b dr' where "a = Some (zmq_address u b)" "driver_disconnect [(p, zmq_address u b)] dr = Inr dr'"
    "linked other (AList.delete p onboard) dr'"
proof -
  obtain u b where a: "a = Some (zmq_address u b)" "map_of (dr_unicast_senders dr) p = Some u"
    using assms unfolding linked_def has_senders_def by blast
  have d: "distinct (map fst onboard)" "mset (dr_broadcast dr) = other + mset (map sub_address onboard)"
    using assms(1) by (auto simp: linked_def)
  have m: "mset (map sub_address onboard) = add_mset b (mset (map sub_address (AList.delete p onboard)))"
    using mset_delete [OF assms(2) d(1), of sub_address] by (simp add: a(1))
  then have "b \<in># mset (dr_broadcast dr)" by (simp add: d(2))
  note step = disconnect_one [OF a(2) this]
  have "linked other (AList.delete p onboard)
      (dr\<lparr>dr_unicast_senders := AList.delete p (dr_unicast_senders dr), dr_broadcast := remove1 b (dr_broadcast dr),
          dr_disconnected := dr_disconnected dr @ [p]\<rparr>)"
    using assms(1) m d(2) by (simp add: linked_def has_senders_delete distinct_delete)
  with a(1) step show thesis by (rule that)
qed

lemma update_peer_linked:
  assumes "linked other onboard dr" "well_addressed on_redis" "map_of onboard p \<noteq> None \<or> map_of on_redis p \<noteq> None"
  shows "\<exists>onboard' dr'. update_peer on_redis p (onboard, dr) = Inr (onboard', dr') \<and> linked other onboard' dr'"
proof (cases "map_of on_redis p")
  case None
  then obtain a where a: "map_of onboard p = Some a" using assms(3) by auto
  obtain u b dr' where "a = Some (zmq_address u b)" "driver_disconnect [(p, zmq_address u b)] dr = Inr dr'"
      "linked other (AList.delete p onboard) dr'" by (rule linked_disconnect [OF assms(1) a])
  then show ?thesis using a None by (simp add: update_peer_def need_address_def)
next
  case (Some addr)
  then obtain u b where addr: "addr = zmq_address u b" using assms(2) map_of_SomeD by (fastforce simp: well_addressed_def)
  show ?thesis
  proof (cases "map_of onboard p")
    case None
    obtain dr' where dr': "driver_connect [(p, zmq_address u b)] dr = Inr dr'" using connect_one by blast
    with linked_connect [OF assms(1) None dr'] show ?thesis using Some None
      by (simp add: update_peer_def addr dict_get_def)
  next
    case old: (Some a)
    obtain v c dr1 where d: "a = Some (zmq_address v c)" "driver_disconnect [(p, zmq_address v c)] dr = Inr dr1"
      "linked other (AList.delete p onboard) dr1" by (rule linked_disconnect [OF assms(1) old])
    obtain dr2 where c: "driver_connect [(p, zmq_address u b)] dr1 = Inr dr2" using connect_one by blast
    have "map_of (AList.delete p onboard) p = None" by (simp add: delete_conv')
    from linked_connect [OF d(3) this c] have l: "linked other (AList.update p (Some addr) (AList.delete p onboard)) dr2"
      by (simp add: addr)
    have dist: "distinct (map fst onboard)" using assms(1) by (simp add: linked_def)
    have "mset (map sub_address (AList.update p (Some addr) onboard)) =
        mset (map sub_address (AList.update p (Some addr) (AList.delete p onboard)))"
      using mset_update_old [OF old dist, of sub_address "Some addr"] mset_delete [OF old dist, of sub_address]
      by (simp add: mset_update_new delete_conv')
    then have "linked other (AList.update p (Some addr) onboard) dr2"
      using l dist by (simp add: linked_def distinct_update has_senders_def update_conv' delete_conv')
    then show ?thesis using Some old d(1,2) c assms(1) by (auto simp: update_peer_def need_address_def addr)
  qed
qed

text \<open>C25: Keeping up with redis never fails: whoever left, joined or moved, afterwards each
  peer registered at redis has a socket at its current address, and of its type of peers the
  broadcast socket is connected to exactly these.\<close>

theorem follow_redis_returns:
  assumes "linked other onboard dr" "well_addressed on_redis" "distinct (map fst on_redis)"
  shows "\<exists>onboard' dr'. update_peer_type on_redis (onboard, dr) = Inr (onboard', dr') \<and> linked other onboard' dr'
    \<and> (\<forall>peer u b. map_of on_redis peer = Some (zmq_address u b) \<longrightarrow> map_of (dr_unicast_senders dr') peer = Some u)"
proof -
  have fold: "\<exists>o' d'. foldE (update_peer on_redis) ps (ob, d) = Inr (o', d') \<and> linked other o' d'"
    if "linked other ob d" "distinct ps \<or> set ps \<subseteq> fst ` set on_redis"
      "\<forall>p\<in>set ps. map_of ob p \<noteq> None \<or> map_of on_redis p \<noteq> None" for ps ob d
    using that
  proof (induction ps arbitrary: ob d)
    case (Cons p ps)
    then obtain o1 d1 where s: "update_peer on_redis p (ob, d) = Inr (o1, d1)" "linked other o1 d1"
      using update_peer_linked [OF Cons.prems(1) assms(2), of p] by auto
    have "map_of o1 q \<noteq> None \<or> map_of on_redis q \<noteq> None" if "q \<in> set ps" for q
      proof (cases "q = p")
      case True
      then have "q \<in> fst ` set on_redis" using Cons.prems(2) that by auto
      then show ?thesis by (simp add: map_of_eq_None_iff)
    next
      case False
      then show ?thesis using Cons.prems(3) that update_peer_lookup [OF s(1), of q] by simp
    qed
    with Cons.IH [OF s(2)] Cons.prems(2) s(1) show ?case by auto
  qed simp
  have "\<exists>o' d'. update_peer_type on_redis (onboard, dr) = Inr (o', d') \<and> linked other o' d'"
  proof (cases "dict_same onboard (map (\<lambda>(p, addr). (p, Some addr)) on_redis)")
    case True
    then show ?thesis using assms(1) by (simp add: update_peer_type_def)
  next
    case False
    obtain o1 d1 where s: "foldE (update_peer on_redis) (map fst onboard) (onboard, dr) = Inr (o1, d1)" "linked other o1 d1"
      using fold [OF assms(1), of "map fst onboard"] assms(1) by (auto simp: linked_def map_of_eq_None_iff)
    moreover obtain o2 d2 where "foldE (update_peer on_redis) (map fst on_redis) (o1, d1) = Inr (o2, d2)" "linked other o2 d2"
      using fold [OF s(2), of "map fst on_redis"] by (auto simp: map_of_eq_None_iff)
    ultimately show ?thesis using False by (simp add: update_peer_type_def foldE_append)
  qed
  then obtain o' d' where r: "update_peer_type on_redis (onboard, dr) = Inr (o', d')" "linked other o' d'" by blast
  moreover have "map_of (dr_unicast_senders d') peer = Some u" if "map_of on_redis peer = Some (zmq_address u b)" for peer u b
    using update_peer_type_lookup [OF r(1), of peer] r(2) that by (auto simp: linked_def has_senders_def zmq_address_def simp del: map_of_eq_Some_iff)
  ultimately show ?thesis by blast
qed

end
