(* ===== verification/CommSamples.thy ===== *)
theory CommSamples imports CommProps CommProxyProps begin

text \<open>
  Concrete instances of the properties of the communication: a learner that waits for its actors, and a
  proxy with one type of peers.
\<close>

section \<open>Conditional events\<close>

definition actors :: peers where
  "actors = [(''actor'', [''actor.1'', ''actor.2'', ''actor.3''])]"

definition two_of_three :: event_desc where
  "two_of_three = EvTuple [EvStr ''actor:done:2'', EvStr ''*:exit:1'', EvStr ''||'']"

definition done_event :: string where
  "done_event = ''actor:done:2''"

definition from_actor :: "string \<Rightarrow> string \<Rightarrow> string \<Rightarrow> nat message" where
  "from_actor n s i = \<lparr>ms_tag = ''done'', ms_source = ''actor.'' @ n, ms_destination = ''learner'', ms_body = 0,
     ms_session_id = s, ms_message_id = i, ms_session = None\<rparr>"

definition waiting :: "nat conditional_event" where
  "waiting = \<lparr>ce_tree = OpTree OR_op [UnitTree ''actor:done:2'', UnitTree ''*:exit:1''],
     ce_units = [(''actor:done:2'', []), (''*:exit:1'', [])]\<rparr>"

lemma waiting_new: "new_conditional_event two_of_three = Inr waiting"
  by code_simp

theorem event_accepted_exact_witness:
  "valid_event two_of_three \<and> (\<exists>ev :: nat conditional_event. new_conditional_event two_of_three = Inr ev
     \<and> set (map fst (ce_units ev)) = {''actor:done:2'', ''*:exit:1''})"
proof -
  have "valid_event two_of_three" by code_simp
  moreover have "leaves two_of_three = {''actor:done:2'', ''*:exit:1''}" by (auto simp: two_of_three_def)
  ultimately show ?thesis using event_accepted_exact [where 'b = nat, of two_of_three] waiting_new by metis
qed

lemma waiting_run: "ce_run two_of_three [from_actor ''1'' ''s'' ''m''] [] (push_message (from_actor ''1'' ''s'' ''m'') waiting)"
  using ce_run.push [OF ce_run.start [OF waiting_new], of "from_actor ''1'' ''s'' ''m''"] by simp

theorem qualified_errors_witness:
  "\<exists>messages ev'. get_qualified_message actors (push_message (from_actor ''1'' ''s'' ''m'') waiting) = Inr (messages, ev')"
proof -
  have "\<forall>u\<in>leaves two_of_three. unit_peers actors u = Some 3" by (simp add: two_of_three_def unit_peers_def actors_def)
  then have "\<forall>u\<in>leaves two_of_three. \<exists>n>0. unit_peers actors u = Some n" by simp
  then show ?thesis using qualified_errors [OF waiting_run, of actors] by blast
qed

theorem satisfied_exact_witness:
  "unit_ready actors [(done_event, [from_actor ''1'' ''s'' ''m'', from_actor ''2'' ''t'' ''n''])] done_event"
proof -
  have "conditional_event_satisfied actors [(done_event, [from_actor ''1'' ''s'' ''m'', from_actor ''2'' ''t'' ''n''])]
      (UnitTree done_event) = Inr [done_event]" by code_simp
  from satisfied_exact [OF this] show ?thesis by simp
qed

theorem delivered_once_witness:
  "mset (concat (map snd (ce_units (push_message (from_actor ''1'' ''s'' ''m'') waiting)))) = {#from_actor ''1'' ''s'' ''m''#}"
proof -
  have "map fst (ce_units (push_message (from_actor ''1'' ''s'' ''m'') waiting)) = [''actor:done:2'', ''*:exit:1'']" by code_simp
  moreover have "filter (unit_matches ''actor:done:2'') [from_actor ''1'' ''s'' ''m''] = [from_actor ''1'' ''s'' ''m'']"
    "filter (unit_matches ''*:exit:1'') [from_actor ''1'' ''s'' ''m''] = []" by code_simp+
  ultimately show ?thesis using delivered_once [OF waiting_run] by simp
qed

definition done_waiting :: "nat conditional_event" where
  "done_waiting = \<lparr>ce_tree = UnitTree done_event, ce_units = [(done_event, [])]\<rparr>"

theorem unit_event_fires_witness:
  "\<exists>calls table. push_all actors [from_actor ''1'' ''s'' ''m'', from_actor ''2'' ''t'' ''n'', from_actor ''3'' ''u'' ''o'']
      [(done_waiting, ''update'')] = Inr (calls, table)
    \<and> length calls = 1 \<and> concat (map snd calls) = [from_actor ''1'' ''s'' ''m'', from_actor ''2'' ''t'' ''n'']"
proof -
  have "new_conditional_event (EvStr done_event) = Inr done_waiting"
    "get_request_message_number actors done_event = Inr (int 2)" by code_simp+
  moreover have "\<forall>m\<in>set [from_actor ''1'' ''s'' ''m'', from_actor ''2'' ''t'' ''n'', from_actor ''3'' ''u'' ''o''].
      unit_matches done_event m" by code_simp
  ultimately show ?thesis
    using unit_event_fires [of done_event done_waiting actors 2
        "[from_actor ''1'' ''s'' ''m'', from_actor ''2'' ''t'' ''n'', from_actor ''3'' ''u'' ''o'']" "''update''"]
    by fastforce
qed

theorem zero_request_silent_witness:
  "\<exists>table. push_all actors (replicate 100 (from_actor ''1'' ''s'' ''m''))
      [(\<lparr>ce_tree = UnitTree ''actor:done:30%'', ce_units = [(''actor:done:30%'', [])]\<rparr>, ''update'')] = Inr ([], table)"
proof -
  have "new_conditional_event (EvStr ''actor:done:30%'') =
      Inr (\<lparr>ce_tree = UnitTree ''actor:done:30%'', ce_units = [(''actor:done:30%'', [])]\<rparr> :: nat conditional_event)"
    "get_request_message_number actors ''actor:done:30%'' = Inr 0" by code_simp+
  then show ?thesis by (rule zero_request_silent)
qed

theorem dist_launch_unbound_witness:
  "\<exists>h batch table. dist_launch actors [from_actor ''1'' ''s'' ''m'', from_actor ''2'' ''t'' ''n''] [(done_waiting, ''update'')] =
    Inr ([(False, h, batch)], table)"
proof -
  have "new_conditional_event (EvStr done_event) = Inr done_waiting"
    "get_request_message_number actors done_event = Inr (int 2)" by code_simp+
  moreover have "\<forall>m\<in>set [from_actor ''1'' ''s'' ''m'', from_actor ''2'' ''t'' ''n'']. unit_matches done_event m" by code_simp
  ultimately obtain calls table where c: "dist_launch actors [from_actor ''1'' ''s'' ''m'', from_actor ''2'' ''t'' ''n'']
      [(done_waiting, ''update'')] = Inr (calls, table)" "length calls = 1" "\<forall>(bound, h', batch)\<in>set calls. \<not> bound"
    using dist_launch_unbound [of done_event done_waiting actors 2
        "[from_actor ''1'' ''s'' ''m'', from_actor ''2'' ''t'' ''n'']" "''update''"] by auto
  obtain bound h batch where "calls = [(bound, h, batch)]" using c(2) by (cases calls) auto
  then show ?thesis using c(1,3) by auto
qed

section \<open>The proxy\<close>

definition actor_address :: "(string \<times> address) list" where
  "actor_address = [(''actor_proxy_1'', zmq_address ''tcp:1'' ''tcp:2'')]"

definition learner :: "nat proxy" where
  "learner = \<lparr>px_name = ''learner_proxy_0'',
     px_driver = \<lparr>dr_unicast_senders = [(''actor_proxy_1'', ''tcp:1'')], dr_broadcast = [''tcp:2''], dr_disconnected = [],
       dr_sent = [], dr_published = []\<rparr>,
     px_peers_info = [(''actor'', ''group:actor'', 1)],
     px_onboard = [(''actor'', [(''actor_proxy_1'', Some (zmq_address ''tcp:1'' ''tcp:2''))])],
     px_onboard_start_time = 0, px_message_cache = [(''s'', [from_actor ''1'' ''s'' ''m''])],
     px_enable_rejoin = True, px_minimal_peers = [(''actor'', 1)], px_catch_lifetime = 10, px_minimal_timeout = 60,
     px_enable_message_cache = True, px_exited_cache = [], px_max_cache = 2\<rparr>"

lemma learner_cache_ok: "cache_ok (px_message_cache learner)"
  by (simp add: cache_ok_def learner_def from_actor_def)

definition answered :: "nat message list" where
  "answered = [from_actor ''2'' ''t'' ''n'', from_actor ''1'' ''u'' ''o'']"

theorem receive_by_session_witness:
  "\<exists>px' received. receive_by_id (Some [''s'', ''u'']) answered True learner = Inr (Some ([], Some received, [], px'))
    \<and> of_session ''t'' received @ cached ''t'' (px_message_cache px') = [from_actor ''2'' ''t'' ''n'']"
proof -
  obtain px' where r: "receive_by_id (Some [''s'', ''u'']) answered True learner =
      Inr (Some ([], Some [from_actor ''1'' ''s'' ''m'', from_actor ''1'' ''u'' ''o''], [], px'))"
    by (simp add: receive_by_id_def learner_def answered_def take_cached_def from_actor_def cache_append_def)
  from receive_by_session [OF learner_cache_ok r] obtain consumed where
    "answered = consumed" "\<forall>s. of_session s [from_actor ''1'' ''s'' ''m'', from_actor ''1'' ''u'' ''o''] @ cached s (px_message_cache px')
      = cached s (px_message_cache learner) @ of_session s consumed" by auto
  then have "of_session ''t'' [from_actor ''1'' ''s'' ''m'', from_actor ''1'' ''u'' ''o''] @ cached ''t'' (px_message_cache px')
      = cached ''t'' (px_message_cache learner) @ of_session ''t'' answered" by blast
  also have "\<dots> = [from_actor ''2'' ''t'' ''n'']"
    by (simp add: of_session_def answered_def from_actor_def cached_def learner_def)
  finally have "of_session ''t'' [from_actor ''1'' ''s'' ''m'', from_actor ''1'' ''u'' ''o''] @ cached ''t'' (px_message_cache px')
      = [from_actor ''2'' ''t'' ''n'']" .
  with r show ?thesis by blast
qed

theorem receive_answers_all_witness:
  "\<exists>received rest px'. receive_by_id (Some [''s'', ''u'']) answered False learner = Inr (Some ([], Some received, rest, px'))
    \<and> length (of_session ''u'' received) = 1"
proof -
  have "\<forall>s. count_list [''s'', ''u''] s \<le> length (cached s (px_message_cache learner)) + length (of_session s answered)"
    by (simp add: of_session_def answered_def from_actor_def cached_def learner_def)
  from receive_answers_all [OF learner_cache_ok this, of False] show ?thesis by fastforce
qed

definition registered :: redis where
  "registered table = [(''actor_proxy_1'', zmq_address ''tcp:5'' ''tcp:6''), (''actor_proxy_2'', zmq_address ''tcp:3'' ''tcp:4'')]"

theorem peers_follow_redis_witness:
  "\<exists>px' onboard. check_peers_update registered learner = Inr px' \<and> map_of (px_onboard px') ''actor'' = Some onboard
    \<and> map_of onboard ''actor_proxy_1'' = Some (Some (zmq_address ''tcp:5'' ''tcp:6''))"
proof -
  have "\<not> isl (check_peers_update registered learner)" by code_simp
  then obtain px' where r: "check_peers_update registered learner = Inr px'"
    by (cases "check_peers_update registered learner") auto
  have "distinct (map fst (px_peers_info learner))" by (simp add: learner_def)
  from peers_follow_redis [OF r this] obtain onboard where "map_of (px_onboard px') ''actor'' = Some onboard"
      "\<forall>peer. map_of onboard peer = map_option Some (map_of (registered ''group:actor'') peer)"
    by (auto simp: learner_def)
  then show ?thesis using r by (auto simp: registered_def)
qed

theorem follow_redis_returns_witness:
  "\<exists>onboard dr. update_peer_type (registered ''group:actor'')
      ([(''actor_proxy_1'', Some (zmq_address ''tcp:1'' ''tcp:2''))], px_driver learner) = Inr (onboard, dr)
    \<and> map_of (dr_unicast_senders dr) ''actor_proxy_2'' = Some ''tcp:3''"
proof -
  have "linked {#} [(''actor_proxy_1'', Some (zmq_address ''tcp:1'' ''tcp:2''))] (px_driver learner)"
    by (simp add: linked_def has_senders_def learner_def) blast
  moreover have "well_addressed (registered ''group:actor'')" "distinct (map fst (registered ''group:actor''))"
    by (auto simp: well_addressed_def registered_def)
  moreover have "map_of (registered ''group:actor'') ''actor_proxy_2'' = Some (zmq_address ''tcp:3'' ''tcp:4'')"
    by (simp add: registered_def)
  ultimately show ?thesis using follow_redis_returns by blast
qed

definition task :: "string \<Rightarrow> nat message" where
  "task i = \<lparr>ms_tag = ''task'', ms_source = ''learner_proxy_0'', ms_destination = ''actor_proxy_1'', ms_body = 0,
     ms_session_id = i, ms_message_id = i, ms_session = None\<rparr>"

theorem pending_sent_in_order_witness:
  "\<exists>px'. flush_pending ''actor'' (task ''4'') (fold push_message_to_message_cache [task ''1'', task ''2'', task ''3''] learner) =
      Inr ([''2'', ''3''], px') \<and> dr_sent (px_driver px') = [task ''2'', task ''3'']"
proof -
  have "map_of (px_onboard learner) ''actor'' = Some [(''actor_proxy_1'', Some (zmq_address ''tcp:1'' ''tcp:2''))]"
    by (simp add: learner_def)
  note send = pending_sent_in_order [OF _ _ _ _ _ _ this, of "[task ''1'', task ''2'', task ''3'']" "task ''4''"]
  show ?thesis using send by (simp add: learner_def task_def pending_of_def dict_mem_def keep_last_def) blast
qed

theorem peer_type_of_name_witness:
  "get_peer_type ''actor_proxy_1'' learner = Inr ''actor'' \<and> get_peer_type ''actor_5f3a'' learner = Inl system_exit"
proof -
  have "\<not> substring ''_proxy_'' (tl (''_proxy_'' @ ''1''))" "\<not> substring ''_proxy_'' ''actor_5f3a''" by code_simp+
  then have "get_peer_type (''actor'' @ ''_proxy_'' @ ''1'') learner = (if dict_mem ''actor'' (px_onboard learner) then Inr ''actor'' else Inl system_exit)"
    "get_peer_type ''actor_5f3a'' learner = (if dict_mem (butlast ''actor_5f3a'') (px_onboard learner)
       then Inr (butlast ''actor_5f3a'') else Inl system_exit)"
    using peer_type_of_name by blast+
  then show ?thesis by (simp add: learner_def dict_mem_def)
qed

end
