(* ===== verification/ReplayIndex.thy ===== *)
theory ReplayIndex imports Complex_Main Prelude begin

text \<open>
  The index schedulers of \<open>rl/training/replay_memory.py\<close>: which rows of a replay memory a batch is written to,
  and which rows a sample is taken from.

  NumPy's draws are arguments: \<open>choice n k\<close> are \<open>k\<close> different numbers below \<open>n\<close>, \<open>draw n k\<close> are \<open>k\<close> numbers below \<open>n\<close>,
  \<open>weighted ps k\<close> are \<open>k\<close> positions of \<open>ps\<close> drawn with these probabilities.  Powers of floats are the argument \<open>pw\<close>.
\<close>

record draws =
  dw_choice :: "nat \<Rightarrow> nat \<Rightarrow> nat list"
  dw_draw :: "nat \<Rightarrow> nat \<Rightarrow> nat list"
  dw_weighted :: "rat list \<Rightarrow> nat \<Rightarrow> nat list"

definition draws_ok :: "draws \<Rightarrow> bool" where
  "draws_ok r \<longleftrightarrow>
     (\<forall>n k. k \<le> n \<longrightarrow> length (dw_choice r n k) = k \<and> distinct (dw_choice r n k) \<and> set (dw_choice r n k) \<subseteq> {..<n})
     \<and> (\<forall>n k. 0 < n \<longrightarrow> length (dw_draw r n k) = k \<and> set (dw_draw r n k) \<subseteq> {..<n})
     \<and> (\<forall>ps k. ps \<noteq> [] \<longrightarrow> length (dw_weighted r ps k) = k \<and> set (dw_weighted r ps k) \<subseteq> {..<length ps})"

text \<open>\<open>np.random.choice(n, size=k, replace=False)\<close>\<close>

definition choose_some :: "draws \<Rightarrow> nat \<Rightarrow> nat \<Rightarrow> nat list res" where
  "choose_some r n k = (if n < k then Inl ValueError else Inr (dw_choice r n k))"

section \<open>Random sampling\<close>

record random_scheduler =
  rs_capacity :: nat
  rs_random_overwrite :: bool
  rs_ptr :: nat
  rs_size :: nat

definition new_random_scheduler :: "nat \<Rightarrow> bool \<Rightarrow> random_scheduler" where
  "new_random_scheduler capacity random_overwrite =
     \<lparr>rs_capacity = capacity, rs_random_overwrite = random_overwrite, rs_ptr = 0, rs_size = 0\<rparr>"

definition random_put_indexes :: "draws \<Rightarrow> nat \<Rightarrow> random_scheduler \<Rightarrow> (nat list \<times> random_scheduler) res" where
  "random_put_indexes r batch_size s =
     (let size' = min (rs_size s + batch_size) (rs_capacity s)
      in if rs_ptr s + batch_size \<le> rs_capacity s
         then Inr ([rs_ptr s..<rs_ptr s + batch_size], s\<lparr>rs_ptr := rs_ptr s + batch_size, rs_size := size'\<rparr>)
         else let overwrites = rs_ptr s + batch_size - rs_capacity s
              in bindE (if rs_random_overwrite s then choose_some r (rs_ptr s) overwrites else Inr [0..<overwrites]) (\<lambda>rest.
                   Inr ([rs_ptr s..<rs_capacity s] @ rest,
                        s\<lparr>rs_ptr := if rs_random_overwrite s then rs_capacity s else overwrites, rs_size := size'\<rparr>)))"

definition random_sample_indexes :: "draws \<Rightarrow> int option \<Rightarrow> random_scheduler \<Rightarrow> (nat list \<times> random_scheduler) res" where
  "random_sample_indexes r batch_size s =
     (case batch_size of
        None \<Rightarrow> Inl AssertionError
      | Some n \<Rightarrow> assertE (0 < n) (assertE (0 < rs_size s) (Inr (dw_draw r (rs_size s) (nat n), s))))"

section \<open>Sampling by priority\<close>

record priority_scheduler =
  ps_capacity :: nat
  ps_alpha :: rat
  ps_beta :: rat
  ps_max_prio :: rat
  ps_min_prio :: rat
  ps_weights :: "rat list"
  ps_ptr :: nat
  ps_size :: nat

definition new_priority_scheduler :: "nat \<Rightarrow> rat \<Rightarrow> rat \<Rightarrow> priority_scheduler" where
  "new_priority_scheduler capacity alpha beta =
     \<lparr>ps_capacity = capacity, ps_alpha = alpha, ps_beta = beta, ps_max_prio = 1, ps_min_prio = 1,
      ps_weights = replicate capacity 0, ps_ptr = 0, ps_size = 0\<rparr>"

definition init_weights :: "(rat \<Rightarrow> rat \<Rightarrow> rat) \<Rightarrow> nat list \<Rightarrow> priority_scheduler \<Rightarrow> priority_scheduler res" where
  "init_weights pw indexes s =
     bindE (np_put indexes (replicate (length indexes) (pw (ps_max_prio s) (ps_alpha s))) (ps_weights s)) (\<lambda>ws.
       Inr (s\<lparr>ps_weights := ws\<rparr>))"

definition get_weight :: "(rat \<Rightarrow> rat \<Rightarrow> rat) \<Rightarrow> nat list \<Rightarrow> priority_scheduler \<Rightarrow> rat list res" where
  "get_weight pw indexes s =
     bindE (np_take indexes (ps_weights s)) (\<lambda>ws. Inr (map (\<lambda>w. pw (w / ps_min_prio s) (- ps_beta s)) ws))"

definition update_weight ::
  "(rat \<Rightarrow> rat \<Rightarrow> rat) \<Rightarrow> rat \<Rightarrow> nat list \<Rightarrow> rat list \<Rightarrow> priority_scheduler \<Rightarrow> priority_scheduler res" where
  "update_weight pw eps indexes weight s =
     assertE (length indexes = length weight)
       (let weight = map (\<lambda>w. \<bar>w\<bar> + eps) weight
        in bindE (np_put indexes (map (\<lambda>w. pw w (ps_alpha s)) weight) (ps_weights s)) (\<lambda>ws.
             if weight = [] then Inl ValueError
             else Inr (s\<lparr>ps_weights := ws, ps_max_prio := max (ps_max_prio s) (Max (set weight)),
                         ps_min_prio := min (ps_min_prio s) (Min (set weight))\<rparr>)))"

definition priority_put_indexes ::
  "(rat \<Rightarrow> rat \<Rightarrow> rat) \<Rightarrow> nat \<Rightarrow> priority_scheduler \<Rightarrow> (nat list \<times> priority_scheduler) res" where
  "priority_put_indexes pw batch_size s =
     (let overwrites = ps_ptr s + batch_size - ps_capacity s;
          indexes = (if ps_ptr s + batch_size \<le> ps_capacity s then [ps_ptr s..<ps_ptr s + batch_size]
                     else [ps_ptr s..<ps_capacity s] @ [0..<overwrites]);
          ptr = (if ps_ptr s + batch_size \<le> ps_capacity s then ps_ptr s + batch_size else overwrites)
      in bindE (init_weights pw indexes
             (s\<lparr>ps_ptr := ptr, ps_size := min (ps_size s + batch_size) (ps_capacity s)\<rparr>)) (\<lambda>s. Inr (indexes, s)))"

definition priority_sample_indexes :: "draws \<Rightarrow> int option \<Rightarrow> priority_scheduler \<Rightarrow> (nat list \<times> priority_scheduler) res" where
  "priority_sample_indexes r batch_size s =
     (case batch_size of
        None \<Rightarrow> Inl AssertionError
      | Some n \<Rightarrow> assertE (0 < n) (assertE (0 < ps_size s)
          (let weights = take (ps_size s) (ps_weights s); total_weight = sum_list weights
           in if total_weight = 0 \<or> (\<exists>w\<in>set weights. w / total_weight < 0) then Inl ValueError
              else Inr (dw_weighted r (map (\<lambda>w. w / total_weight) weights) (nat n), s))))"

section \<open>First in, first out\<close>

record fifo_scheduler =
  fs_capacity :: nat
  fs_head :: nat
  fs_tail :: nat

definition new_fifo_scheduler :: "nat \<Rightarrow> fifo_scheduler" where
  "new_fifo_scheduler capacity = \<lparr>fs_capacity = capacity, fs_head = 0, fs_tail = 0\<rparr>"

definition fifo_size :: "fifo_scheduler \<Rightarrow> nat" where
  "fifo_size s = nat ((int (fs_tail s) - int (fs_head s)) mod int (fs_capacity s))"

text \<open>The recursive call goes on with less to overwrite; Python gives up beyond its recursion limit.\<close>

fun fifo_put_indexes :: "nat \<Rightarrow> nat \<Rightarrow> fifo_scheduler \<Rightarrow> (nat list \<times> fifo_scheduler) res" where
  "fifo_put_indexes 0 batch_size s = Inl RuntimeError"
| "fifo_put_indexes (Suc depth) batch_size s =
     (if fs_capacity s = 0 then Inl ZeroDivisionError
      else if fifo_size s + batch_size \<le> fs_capacity s then
        Inr (if fs_tail s + batch_size \<le> fs_capacity s then [fs_tail s..<fs_tail s + batch_size]
             else [fs_tail s..<fs_capacity s] @ [0..<fs_tail s + batch_size - fs_capacity s],
             s\<lparr>fs_tail := (fs_tail s + batch_size) mod fs_capacity s\<rparr>)
      else
        (let overwrite = fifo_size s + batch_size - fs_capacity s
         in fifo_put_indexes depth batch_size (s\<lparr>fs_head := (fs_head s + overwrite) mod fs_capacity s\<rparr>)))"

definition fifo_sample_indexes :: "int option \<Rightarrow> fifo_scheduler \<Rightarrow> (nat list \<times> fifo_scheduler) res" where
  "fifo_sample_indexes batch_size s =
     Inr (if fs_head s < fs_tail s then [fs_head s..<fs_tail s] else [fs_head s..<fs_capacity s] @ [0..<fs_tail s],
          s\<lparr>fs_head := fs_tail s\<rparr>)"

section \<open>Any scheduler\<close>

datatype index_scheduler = RandomS random_scheduler | PriorityS priority_scheduler | FifoS fifo_scheduler

text \<open>What the calls draw on: powers, NumPy's draws and the recursion limit.\<close>

record numpy_env =
  mc_pow :: "rat \<Rightarrow> rat \<Rightarrow> rat"
  mc_draws :: draws
  mc_depth :: nat

definition get_put_indexes :: "numpy_env \<Rightarrow> nat \<Rightarrow> index_scheduler \<Rightarrow> (nat list \<times> index_scheduler) res" where
  "get_put_indexes mc batch_size sch =
     (case sch of
        RandomS s \<Rightarrow> bindE (random_put_indexes (mc_draws mc) batch_size s) (\<lambda>(idx, s). Inr (idx, RandomS s))
      | PriorityS s \<Rightarrow> bindE (priority_put_indexes (mc_pow mc) batch_size s) (\<lambda>(idx, s). Inr (idx, PriorityS s))
      | FifoS s \<Rightarrow> bindE (fifo_put_indexes (mc_depth mc) batch_size s) (\<lambda>(idx, s). Inr (idx, FifoS s)))"

definition get_sample_indexes :: "numpy_env \<Rightarrow> int option \<Rightarrow> index_scheduler \<Rightarrow> (nat list \<times> index_scheduler) res" where
  "get_sample_indexes mc batch_size sch =
     (case sch of
        RandomS s \<Rightarrow> bindE (random_sample_indexes (mc_draws mc) batch_size s) (\<lambda>(idx, s). Inr (idx, RandomS s))
      | PriorityS s \<Rightarrow> bindE (priority_sample_indexes (mc_draws mc) batch_size s) (\<lambda>(idx, s). Inr (idx, PriorityS s))
      | FifoS s \<Rightarrow> bindE (fifo_sample_indexes batch_size s) (\<lambda>(idx, s). Inr (idx, FifoS s)))"

end
