(* ===== verification/ReplayMemory.thy ===== *)
theory ReplayMemory imports ReplayIndex begin

text \<open>
  \<open>rl/utils/transition_batch.py\<close> and the memories of \<open>rl/training/replay_memory.py\<close>: arrays of transitions that
  batches are written to and sampled from.  An array with two axes is the list of its rows.
\<close>

section \<open>Batches\<close>

record transition_batch =
  tb_states :: "rat list list"
  tb_actions :: "rat list list"
  tb_rewards :: "rat list"
  tb_next_states :: "rat list list"
  tb_terminals :: "bool list"
  tb_truncated :: "bool list"
  tb_returns :: "rat list option"
  tb_advantages :: "rat list option"
  tb_old_logps :: "rat list option"

definition batch_size :: "transition_batch \<Rightarrow> nat" where
  "batch_size b = length (tb_states b)"

text \<open>\<open>__post_init__\<close>; the rows of an array have one length.\<close>

definition check_batch :: "transition_batch \<Rightarrow> transition_batch res" where
  "check_batch b =
     (let n = length (tb_states b)
      in assertE (0 < n) (assertE (length (tb_actions b) = n) (assertE (length (tb_rewards b) = n)
         (assertE (map length (tb_next_states b) = map length (tb_states b))
         (assertE (length (tb_terminals b) = n) (assertE (length (tb_truncated b) = n) (Inr b)))))))"

definition make_kth_sub_batch :: "nat \<Rightarrow> nat \<Rightarrow> transition_batch \<Rightarrow> transition_batch res" where
  "make_kth_sub_batch i k b =
     check_batch
       \<lparr>tb_states = stride i k (tb_states b), tb_actions = stride i k (tb_actions b),
        tb_rewards = stride i k (tb_rewards b), tb_next_states = stride i k (tb_next_states b),
        tb_terminals = stride i k (tb_terminals b), tb_truncated = stride i k (tb_truncated b),
        tb_returns = map_option (stride i k) (tb_returns b), tb_advantages = map_option (stride i k) (tb_advantages b),
        tb_old_logps = map_option (stride i k) (tb_old_logps b)\<rparr>"

definition split_batch :: "nat \<Rightarrow> transition_batch \<Rightarrow> transition_batch list res" where
  "split_batch k b = mapE (\<lambda>i. make_kth_sub_batch i k b) [0..<k]"

text \<open>Joining: \<open>np.concatenate\<close> of nothing, or of \<open>None\<close>, raises \<open>ValueError\<close>.\<close>

definition joined :: "'a list option list \<Rightarrow> 'a list res" where
  "joined xs = bindE (mapE (\<lambda>x. case x of None \<Rightarrow> Inl ValueError | Some ys \<Rightarrow> Inr ys) xs) (\<lambda>xs. Inr (concat xs))"

definition merge_transition_batches :: "transition_batch list \<Rightarrow> transition_batch res" where
  "merge_transition_batches bs =
     (case bs of
        [] \<Rightarrow> Inl ValueError
      | b # _ \<Rightarrow>
          bindE (joined (map tb_returns bs)) (\<lambda>returns.
          bindE (joined (map tb_advantages bs)) (\<lambda>advantages.
          bindE (if tb_old_logps b = None then Inr None else bindE (joined (map tb_old_logps bs)) (\<lambda>l. Inr (Some l))) (\<lambda>old_logps.
            check_batch
              \<lparr>tb_states = concat (map tb_states bs), tb_actions = concat (map tb_actions bs),
               tb_rewards = concat (map tb_rewards bs), tb_next_states = concat (map tb_next_states bs),
               tb_terminals = concat (map tb_terminals bs), tb_truncated = concat (map tb_truncated bs),
               tb_returns = Some returns, tb_advantages = Some advantages, tb_old_logps = old_logps\<rparr>))))"

section \<open>The memory of one agent\<close>

record replay_memory =
  rm_capacity :: nat
  rm_state_dim :: nat
  rm_action_dim :: nat
  rm_idx_scheduler :: index_scheduler
  rm_states :: "rat list list"
  rm_actions :: "rat list list"
  rm_rewards :: "rat list"
  rm_terminals :: "bool list"
  rm_truncated :: "bool list"
  rm_next_states :: "rat list list"
  rm_returns :: "rat list"
  rm_advantages :: "rat list"
  rm_old_logps :: "rat list"
  rm_n_sample :: nat

definition new_replay_memory :: "nat \<Rightarrow> nat \<Rightarrow> nat \<Rightarrow> index_scheduler \<Rightarrow> replay_memory" where
  "new_replay_memory capacity state_dim action_dim scheduler =
     \<lparr>rm_capacity = capacity, rm_state_dim = state_dim, rm_action_dim = action_dim, rm_idx_scheduler = scheduler,
      rm_states = replicate capacity (replicate state_dim 0), rm_actions = replicate capacity (replicate action_dim 0),
      rm_rewards = replicate capacity 0, rm_terminals = replicate capacity False, rm_truncated = replicate capacity False,
      rm_next_states = replicate capacity (replicate state_dim 0), rm_returns = replicate capacity 0,
      rm_advantages = replicate capacity 0, rm_old_logps = replicate capacity 0, rm_n_sample = 0\<rparr>"

definition random_replay_memory :: "nat \<Rightarrow> nat \<Rightarrow> nat \<Rightarrow> bool \<Rightarrow> replay_memory" where
  "random_replay_memory capacity state_dim action_dim random_overwrite =
     new_replay_memory capacity state_dim action_dim (RandomS (new_random_scheduler capacity random_overwrite))"

definition prioritized_replay_memory :: "nat \<Rightarrow> nat \<Rightarrow> nat \<Rightarrow> rat \<Rightarrow> rat \<Rightarrow> replay_memory" where
  "prioritized_replay_memory capacity state_dim action_dim alpha beta =
     new_replay_memory capacity state_dim action_dim (PriorityS (new_priority_scheduler capacity alpha beta))"

definition fifo_replay_memory :: "nat \<Rightarrow> nat \<Rightarrow> nat \<Rightarrow> replay_memory" where
  "fifo_replay_memory capacity state_dim action_dim =
     new_replay_memory capacity state_dim action_dim (FifoS (new_fifo_scheduler capacity))"

definition put_optional :: "nat list \<Rightarrow> 'a list option \<Rightarrow> 'a list \<Rightarrow> 'a list res" where
  "put_optional indexes vals arr = (case vals of None \<Rightarrow> Inr arr | Some vs \<Rightarrow> np_put indexes vs arr)"

definition put_by_indexes :: "nat list \<Rightarrow> transition_batch \<Rightarrow> replay_memory \<Rightarrow> replay_memory res" where
  "put_by_indexes indexes b m =
     bindE (np_put indexes (tb_states b) (rm_states m)) (\<lambda>states.
     bindE (np_put indexes (tb_actions b) (rm_actions m)) (\<lambda>actions.
     bindE (np_put indexes (tb_rewards b) (rm_rewards m)) (\<lambda>rewards.
     bindE (np_put indexes (tb_terminals b) (rm_terminals m)) (\<lambda>terminals.
     bindE (np_put indexes (tb_truncated b) (rm_truncated m)) (\<lambda>truncated.
     bindE (np_put indexes (tb_next_states b) (rm_next_states m)) (\<lambda>next_states.
     bindE (put_optional indexes (tb_returns b) (rm_returns m)) (\<lambda>returns.
     bindE (put_optional indexes (tb_advantages b) (rm_advantages m)) (\<lambda>advantages.
     bindE (put_optional indexes (tb_old_logps b) (rm_old_logps m)) (\<lambda>old_logps.
       Inr (m\<lparr>rm_states := states, rm_actions := actions, rm_rewards := rewards, rm_terminals := terminals,
              rm_truncated := truncated, rm_next_states := next_states, rm_returns := returns,
              rm_advantages := advantages, rm_old_logps := old_logps\<rparr>))))))))))"

text \<open>\<open>match_shape\<close>: the size of each axis.\<close>

definition match_rows :: "nat \<Rightarrow> nat \<Rightarrow> 'a list list \<Rightarrow> bool" where
  "match_rows n d xs \<longleftrightarrow> length xs = n \<and> list_all (\<lambda>row. length row = d) xs"

text \<open>The shapes of returns, advantages and old log probabilities are computed but not asserted.\<close>

definition memory_put :: "numpy_env \<Rightarrow> transition_batch \<Rightarrow> replay_memory \<Rightarrow> replay_memory res" where
  "memory_put mc b m =
     (let n = length (tb_states b)
      in assertE (0 < n \<and> n \<le> rm_capacity m)
         (assertE (match_rows n (rm_state_dim m) (tb_states b))
         (assertE (match_rows n (rm_action_dim m) (tb_actions b))
         (assertE (length (tb_rewards b) = n) (assertE (length (tb_terminals b) = n) (assertE (length (tb_truncated b) = n)
         (assertE (match_rows n (rm_state_dim m) (tb_next_states b))
           (bindE (get_put_indexes mc n (rm_idx_scheduler m)) (\<lambda>(indexes, scheduler).
            bindE (put_by_indexes indexes b (m\<lparr>rm_idx_scheduler := scheduler\<rparr>)) (\<lambda>m.
              Inr (m\<lparr>rm_n_sample := min (rm_n_sample m + batch_size b) (rm_capacity m)\<rparr>)))))))))))"

definition sample_by_indexes :: "nat list \<Rightarrow> replay_memory \<Rightarrow> transition_batch res" where
  "sample_by_indexes indexes m =
     assertE (list_all (\<lambda>i. i < rm_capacity m) indexes)
       (bindE (np_take indexes (rm_states m)) (\<lambda>states.
        bindE (np_take indexes (rm_actions m)) (\<lambda>actions.
        bindE (np_take indexes (rm_rewards m)) (\<lambda>rewards.
        bindE (np_take indexes (rm_terminals m)) (\<lambda>terminals.
        bindE (np_take indexes (rm_truncated m)) (\<lambda>truncated.
        bindE (np_take indexes (rm_next_states m)) (\<lambda>next_states.
        bindE (np_take indexes (rm_returns m)) (\<lambda>returns.
        bindE (np_take indexes (rm_advantages m)) (\<lambda>advantages.
        bindE (np_take indexes (rm_old_logps m)) (\<lambda>old_logps.
          check_batch
            \<lparr>tb_states = states, tb_actions = actions, tb_rewards = rewards, tb_next_states = next_states,
             tb_terminals = terminals, tb_truncated = truncated, tb_returns = Some returns,
             tb_advantages = Some advantages, tb_old_logps = Some old_logps\<rparr>))))))))))"

definition memory_sample :: "numpy_env \<Rightarrow> int option \<Rightarrow> replay_memory \<Rightarrow> (transition_batch \<times> replay_memory) res" where
  "memory_sample mc n m =
     bindE (get_sample_indexes mc n (rm_idx_scheduler m)) (\<lambda>(indexes, scheduler).
     bindE (sample_by_indexes indexes m) (\<lambda>b. Inr (b, m\<lparr>rm_idx_scheduler := scheduler\<rparr>)))"

text \<open>The weights of a prioritized memory.\<close>

definition memory_get_weight :: "numpy_env \<Rightarrow> nat list \<Rightarrow> replay_memory \<Rightarrow> rat list res" where
  "memory_get_weight mc indexes m =
     (case rm_idx_scheduler m of PriorityS s \<Rightarrow> get_weight (mc_pow mc) indexes s | _ \<Rightarrow> Inl AssertionError)"

definition memory_update_weight :: "numpy_env \<Rightarrow> rat \<Rightarrow> nat list \<Rightarrow> rat list \<Rightarrow> replay_memory \<Rightarrow> replay_memory res" where
  "memory_update_weight mc eps indexes weight m =
     (case rm_idx_scheduler m of
        PriorityS s \<Rightarrow> bindE (update_weight (mc_pow mc) eps indexes weight s) (\<lambda>s. Inr (m\<lparr>rm_idx_scheduler := PriorityS s\<rparr>))
      | _ \<Rightarrow> Inl AssertionError)"

section \<open>The memory of several agents\<close>

record multi_transition_batch =
  mb_states :: "rat list list"
  mb_actions :: "rat list list list"
  mb_rewards :: "rat list list"
  mb_next_states :: "rat list list"
  mb_agent_states :: "rat list list list"
  mb_next_agent_states :: "rat list list list"
  mb_terminals :: "bool list"
  mb_truncated :: "bool list"
  mb_returns :: "rat list list option"
  mb_advantages :: "rat list list option"

definition check_multi_batch :: "multi_transition_batch \<Rightarrow> multi_transition_batch res" where
  "check_multi_batch b =
     (let n = length (mb_states b); k = length (mb_actions b)
      in assertE (0 < n) (assertE (k = length (mb_rewards b)) (assertE (length (mb_agent_states b) = k)
         (assertE (list_all (\<lambda>i. length (mb_actions b ! i) = n \<and> length (mb_rewards b ! i) = n
                                  \<and> length (mb_agent_states b ! i) = n) [0..<k])
         (assertE (length (mb_terminals b) = n) (assertE (length (mb_truncated b) = n)
         (assertE (map length (mb_next_states b) = map length (mb_states b))
         (assertE (length (mb_next_agent_states b) = length (mb_agent_states b))
         (assertE (map (map length) (mb_agent_states b) = map (map length) (mb_next_agent_states b)) (Inr b))))))))))"

definition make_kth_multi_batch :: "nat \<Rightarrow> nat \<Rightarrow> multi_transition_batch \<Rightarrow> multi_transition_batch res" where
  "make_kth_multi_batch i k b =
     check_multi_batch
       \<lparr>mb_states = stride i k (mb_states b), mb_actions = map (stride i k) (mb_actions b),
        mb_rewards = map (stride i k) (mb_rewards b), mb_next_states = stride i k (mb_next_states b),
        mb_agent_states = map (stride i k) (mb_agent_states b),
        mb_next_agent_states = map (stride i k) (mb_next_agent_states b),
        mb_terminals = stride i k (mb_terminals b), mb_truncated = stride i k (mb_truncated b),
        mb_returns = map_option (map (stride i k)) (mb_returns b),
        mb_advantages = map_option (map (stride i k)) (mb_advantages b)\<rparr>"

definition split_multi_batch :: "nat \<Rightarrow> multi_transition_batch \<Rightarrow> multi_transition_batch list res" where
  "split_multi_batch k b = mapE (\<lambda>i. make_kth_multi_batch i k b) [0..<k]"

record multi_replay_memory =
  mr_capacity :: nat
  mr_state_dim :: nat
  mr_action_dims :: "nat list"
  mr_agent_states_dims :: "nat list"
  mr_idx_scheduler :: index_scheduler
  mr_states :: "rat list list"
  mr_actions :: "rat list list list"
  mr_rewards :: "rat list list"
  mr_next_states :: "rat list list"
  mr_terminals :: "bool list"
  mr_truncated :: "bool list"
  mr_agent_states :: "rat list list list"
  mr_next_agent_states :: "rat list list list"

definition new_multi_replay_memory :: "nat \<Rightarrow> nat \<Rightarrow> nat list \<Rightarrow> nat list \<Rightarrow> index_scheduler \<Rightarrow> multi_replay_memory res" where
  "new_multi_replay_memory capacity state_dim action_dims agent_states_dims scheduler =
     assertE (length agent_states_dims = length action_dims)
       (Inr \<lparr>mr_capacity = capacity, mr_state_dim = state_dim, mr_action_dims = action_dims,
             mr_agent_states_dims = agent_states_dims, mr_idx_scheduler = scheduler,
             mr_states = replicate capacity (replicate state_dim 0),
             mr_actions = map (\<lambda>d. replicate capacity (replicate d 0)) action_dims,
             mr_rewards = map (\<lambda>_. replicate capacity 0) action_dims,
             mr_next_states = replicate capacity (replicate state_dim 0),
             mr_terminals = replicate capacity False, mr_truncated = replicate capacity False,
             mr_agent_states = map (\<lambda>d. replicate capacity (replicate d 0)) agent_states_dims,
             mr_next_agent_states = map (\<lambda>d. replicate capacity (replicate d 0)) agent_states_dims\<rparr>)"

text \<open>Agent by agent; a batch without an entry for an agent raises \<open>IndexError\<close>.\<close>

fun put_each :: "nat list \<Rightarrow> 'a list list \<Rightarrow> 'a list list \<Rightarrow> 'a list list res" where
  "put_each indexes vals [] = Inr []"
| "put_each indexes [] (arr # arrs) = Inl IndexError"
| "put_each indexes (v # vals) (arr # arrs) =
     bindE (np_put indexes v arr) (\<lambda>a. bindE (put_each indexes vals arrs) (\<lambda>rest. Inr (a # rest)))"

definition multi_put_by_indexes :: "nat list \<Rightarrow> multi_transition_batch \<Rightarrow> multi_replay_memory \<Rightarrow> multi_replay_memory res" where
  "multi_put_by_indexes indexes b m =
     bindE (np_put indexes (mb_states b) (mr_states m)) (\<lambda>states.
     bindE (put_each indexes (mb_actions b) (mr_actions m)) (\<lambda>actions.
     bindE (put_each indexes (mb_rewards b) (mr_rewards m)) (\<lambda>rewards.
     bindE (np_put indexes (mb_terminals b) (mr_terminals m)) (\<lambda>terminals.
     bindE (np_put indexes (mb_truncated b) (mr_truncated m)) (\<lambda>truncated.
     bindE (np_put indexes (mb_next_states b) (mr_next_states m)) (\<lambda>next_states.
     bindE (put_each indexes (mb_agent_states b) (mr_agent_states m)) (\<lambda>agent_states.
     bindE (put_each indexes (mb_next_agent_states b) (mr_next_agent_states m)) (\<lambda>next_agent_states.
       Inr (m\<lparr>mr_states := states, mr_actions := actions, mr_rewards := rewards, mr_terminals := terminals,
              mr_truncated := truncated, mr_next_states := next_states, mr_agent_states := agent_states,
              mr_next_agent_states := next_agent_states\<rparr>)))))))))"

definition multi_put :: "numpy_env \<Rightarrow> multi_transition_batch \<Rightarrow> multi_replay_memory \<Rightarrow> multi_replay_memory res" where
  "multi_put mc b m =
     (let n = length (mb_states b); agents = length (mr_action_dims m)
      in assertE (0 < n \<and> n \<le> mr_capacity m)
         (assertE (match_rows n (mr_state_dim m) (mb_states b))
         (assertE (length (mb_actions b) = length (mb_rewards b) \<and> length (mb_rewards b) = agents)
         (assertE (list_all (\<lambda>i. match_rows n (mr_action_dims m ! i) (mb_actions b ! i) \<and> length (mb_rewards b ! i) = n) [0..<agents])
         (assertE (length (mb_terminals b) = n) (assertE (length (mb_truncated b) = n)
         (assertE (match_rows n (mr_state_dim m) (mb_next_states b))
         (assertE (length (mb_agent_states b) = agents) (assertE (length (mb_next_agent_states b) = agents)
         (assertE (list_all (\<lambda>i. match_rows n (mr_agent_states_dims m ! i) (mb_agent_states b ! i)
                                  \<and> match_rows n (mr_agent_states_dims m ! i) (mb_next_agent_states b ! i)) [0..<agents])
           (bindE (get_put_indexes mc n (mr_idx_scheduler m)) (\<lambda>(indexes, scheduler).
              multi_put_by_indexes indexes b (m\<lparr>mr_idx_scheduler := scheduler\<rparr>)))))))))))))"

definition multi_sample_by_indexes :: "nat list \<Rightarrow> multi_replay_memory \<Rightarrow> multi_transition_batch res" where
  "multi_sample_by_indexes indexes m =
     assertE (list_all (\<lambda>i. i < mr_capacity m) indexes)
       (bindE (np_take indexes (mr_states m)) (\<lambda>states.
        bindE (mapE (np_take indexes) (mr_actions m)) (\<lambda>actions.
        bindE (mapE (np_take indexes) (mr_rewards m)) (\<lambda>rewards.
        bindE (np_take indexes (mr_terminals m)) (\<lambda>terminals.
        bindE (np_take indexes (mr_truncated m)) (\<lambda>truncated.
        bindE (np_take indexes (mr_next_states m)) (\<lambda>next_states.
        bindE (mapE (np_take indexes) (mr_agent_states m)) (\<lambda>agent_states.
        bindE (mapE (np_take indexes) (mr_next_agent_states m)) (\<lambda>next_agent_states.
          check_multi_batch
            \<lparr>mb_states = states, mb_actions = actions, mb_rewards = rewards, mb_next_states = next_states,
             mb_agent_states = agent_states, mb_next_agent_states = next_agent_states,
             mb_terminals = terminals, mb_truncated = truncated, mb_returns = None, mb_advantages = None\<rparr>)))))))))"

definition multi_sample :: "numpy_env \<Rightarrow> int option \<Rightarrow> multi_replay_memory \<Rightarrow> (multi_transition_batch \<times> multi_replay_memory) res" where
  "multi_sample mc n m =
     bindE (get_sample_indexes mc n (mr_idx_scheduler m)) (\<lambda>(indexes, scheduler).
     bindE (multi_sample_by_indexes indexes m) (\<lambda>b. Inr (b, m\<lparr>mr_idx_scheduler := scheduler\<rparr>)))"

end
