(* ===== verification/ReplayProps.thy ===== *)
theory ReplayProps imports ReplayMemory begin

text \<open>
  Replay memories: the contract of an index scheduler, that the three schedulers keep it, and what a memory makes
  of it: a batch that is put can be read back, and other rows stay.
\<close>

section \<open>The contract of a scheduler\<close>

text \<open>As long as batches fit, it answers with that many different rows.\<close>

locale put_contract =
  fixes put :: "nat \<Rightarrow> 's \<Rightarrow> (nat list \<times> 's) res"
    and ok :: "'s \<Rightarrow> bool"
    and capacity :: nat
  assumes put_ok: "ok s \<Longrightarrow> 0 < n \<Longrightarrow> n \<le> capacity \<Longrightarrow>
    \<exists>idx s'. put n s = Inr (idx, s') \<and> ok s' \<and> length idx = n \<and> distinct idx \<and> set idx \<subseteq> {..<capacity}"
begin

lemma puts_return:
  assumes "ok s" "\<forall>n\<in>set ns. 0 < n \<and> n \<le> capacity"
  shows "\<exists>s'. foldE (\<lambda>n s. bindE (put n s) (\<lambda>(idx, s'). Inr s')) ns s = Inr s' \<and> ok s'"
proof (rule foldE_total [where I = ok, OF assms(1)])
  fix n s
  assume "n \<in> set ns" "ok s"
  then obtain idx s' where "put n s = Inr (idx, s')" "ok s'" using put_ok [of s n] assms(2) by blast
  then show "\<exists>s'. bindE (put n s) (\<lambda>(idx, s'). Inr s') = Inr s' \<and> ok s'" by simp
qed

end

section \<open>The schedulers keep it\<close>

definition random_ok :: "nat \<Rightarrow> random_scheduler \<Rightarrow> bool" where
  "random_ok cap s \<longleftrightarrow> rs_capacity s = cap \<and> rs_ptr s \<le> cap \<and> (rs_size s = rs_ptr s \<or> rs_size s = cap)"

definition priority_ok :: "nat \<Rightarrow> priority_scheduler \<Rightarrow> bool" where
  "priority_ok cap s \<longleftrightarrow> ps_capacity s = cap \<and> ps_ptr s \<le> cap \<and> (ps_size s = ps_ptr s \<or> ps_size s = cap)
     \<and> length (ps_weights s) = cap"

definition fifo_ok :: "nat \<Rightarrow> fifo_scheduler \<Rightarrow> bool" where
  "fifo_ok cap s \<longleftrightarrow> fs_capacity s = cap \<and> fs_head s < cap \<and> fs_tail s < cap"

interpretation rnd: put_contract "random_put_indexes r" "\<lambda>s. draws_ok r \<and> random_ok cap s" cap for r cap
proof
  fix s n
  assume ok: "draws_ok r \<and> random_ok cap s" and n: "0 < n" "n \<le> cap"
  show "\<exists>idx s'. random_put_indexes r n s = Inr (idx, s') \<and> (draws_ok r \<and> random_ok cap s') \<and> length idx = n
      \<and> distinct idx \<and> set idx \<subseteq> {..<cap}"
  proof (cases "rs_ptr s + n \<le> cap")
    case True
    then show ?thesis using ok n by (auto simp: random_put_indexes_def random_ok_def)
  next
    case False
    define k where "k = rs_ptr s + n - cap"
    have k: "k \<le> rs_ptr s" using n by (simp add: k_def)
    then have c: "length (dw_choice r (rs_ptr s) k) = k" "distinct (dw_choice r (rs_ptr s) k)"
        "set (dw_choice r (rs_ptr s) k) \<subseteq> {..<rs_ptr s}"
      using ok by (auto simp: draws_ok_def)
    then have "\<And>x. x \<in> set (dw_choice r (rs_ptr s) k) \<Longrightarrow> x < rs_ptr s" by auto
    with c show ?thesis using ok False k
      by (auto simp: random_put_indexes_def random_ok_def choose_some_def k_def [symmetric] Let_def min_def)
         (auto simp: k_def dest!: order.strict_trans2)
  qed
qed

lemma weights_put:
  "length (ps_weights s) = cap \<Longrightarrow> \<forall>i\<in>set idx. i < cap \<Longrightarrow>
   init_weights pw idx s = Inr (s\<lparr>ps_weights := assign_slots idx (replicate (length idx) (pw (ps_max_prio s) (ps_alpha s))) (ps_weights s)\<rparr>)"
  by (simp add: init_weights_def np_put_exact)

lemma priority_put_exact:
  assumes "priority_ok cap s" "0 < n" "n \<le> cap"
  obtains idx s1 where
    "priority_put_indexes pw n s =
      Inr (idx, s1\<lparr>ps_weights := assign_slots idx (replicate n (pw (ps_max_prio s) (ps_alpha s))) (ps_weights s)\<rparr>)"
    "length idx = n" "distinct idx" "\<forall>i\<in>set idx. i < cap" "priority_ok cap s1" "ps_size s1 = min (ps_size s + n) cap"
    "ps_max_prio s1 = ps_max_prio s" "\<forall>i<ps_size s1. i \<in> set idx \<or> i < ps_size s"
proof -
  define k where "k = ps_ptr s + n - cap"
  define idx where "idx = (if ps_ptr s + n \<le> cap then [ps_ptr s..<ps_ptr s + n] else [ps_ptr s..<cap] @ [0..<k])"
  define s1 where "s1 = s\<lparr>ps_ptr := if ps_ptr s + n \<le> cap then ps_ptr s + n else k, ps_size := min (ps_size s + n) cap\<rparr>"
  have idx: "length idx = n" "distinct idx" "\<forall>i\<in>set idx. i < cap"
    using assms by (auto simp: idx_def k_def priority_ok_def)
  have s1: "length (ps_weights s1) = cap" using assms(1) by (simp add: s1_def priority_ok_def)
  have "priority_put_indexes pw n s =
      Inr (idx, s1\<lparr>ps_weights := assign_slots idx (replicate n (pw (ps_max_prio s) (ps_alpha s))) (ps_weights s)\<rparr>)"
    using assms(1) weights_put [OF s1 idx(3), of pw] idx(1)
    by (cases "ps_ptr s + n \<le> cap")
       (simp_all add: priority_put_indexes_def priority_ok_def Let_def idx_def s1_def k_def)
  moreover have "priority_ok cap s1" using assms by (auto simp: s1_def priority_ok_def k_def)
  moreover have "\<forall>i<ps_size s1. i \<in> set idx \<or> i < ps_size s"
    using assms by (auto simp: s1_def idx_def priority_ok_def min_def split: if_splits)
  ultimately show thesis using idx by (intro that [of idx s1]) (simp_all add: s1_def)
qed

interpretation pri: put_contract "priority_put_indexes pw" "priority_ok cap" cap for pw cap
proof
  fix s n
  assume ok: "priority_ok cap s" "0 < n" "n \<le> cap"
  have len: "length (ps_weights s) = cap" using ok(1) by (simp add: priority_ok_def)
  show "\<exists>idx s'. priority_put_indexes pw n s = Inr (idx, s') \<and> priority_ok cap s' \<and> length idx = n \<and> distinct idx
      \<and> set idx \<subseteq> {..<cap}"
    by (rule priority_put_exact [OF ok, of pw]) (use len in \<open>auto simp: priority_ok_def\<close>)
qed

lemma mod_wrap: "x < 2 * c \<Longrightarrow> x mod c = (if x < c then x else x - c)" for x c :: nat
  by (simp add: le_mod_geq)

lemma fifo_size_nat: "fifo_ok cap s \<Longrightarrow> fifo_size s = (fs_tail s + cap - fs_head s) mod cap"
proof -
  assume ok: "fifo_ok cap s"
  have "(int (fs_tail s) - int (fs_head s)) mod int cap = (int (fs_tail s) - int (fs_head s) + int cap) mod int cap" by simp
  also have "int (fs_tail s) - int (fs_head s) + int cap = int (fs_tail s + cap - fs_head s)"
    using ok by (simp add: fifo_ok_def)
  finally have "nat ((int (fs_tail s) - int (fs_head s)) mod int cap) = nat (int ((fs_tail s + cap - fs_head s) mod cap))"
    by (simp only: zmod_int)
  then show ?thesis using ok by (simp add: fifo_size_def fifo_ok_def)
qed

lemma ring_indexes:
  assumes "t < c" "n \<le> c"
  shows "(if t + n \<le> c then [t..<t + n] else [t..<c] @ [0..<t + n - c]) = map (\<lambda>i. (t + i) mod c) [0..<n]"
proof (cases "t + n \<le> c")
  case True
  then show ?thesis using assms by (auto intro!: nth_equalityI simp: mod_wrap)
next
  case False
  then show ?thesis using assms by (auto intro!: nth_equalityI simp: mod_wrap nth_append)
qed

lemma fifo_put_exact:
  assumes "fifo_ok cap s" "n \<le> cap"
  shows "fifo_put_indexes (Suc (Suc d)) n s = Inr (map (\<lambda>i. (fs_tail s + i) mod cap) [0..<n],
    s\<lparr>fs_tail := (fs_tail s + n) mod cap,
      fs_head := if fifo_size s + n \<le> cap then fs_head s else (fs_tail s + n) mod cap\<rparr>)"
proof (cases "fifo_size s + n \<le> cap")
  case True
  then show ?thesis using assms ring_indexes [of "fs_tail s" cap n] by (auto simp: fifo_ok_def)
next
  case False
  define s1 where "s1 = s\<lparr>fs_head := (fs_tail s + n) mod cap\<rparr>"
  have cap: "0 < cap" using assms(1) by (simp add: fifo_ok_def)
  have ok1: "fifo_ok cap s1" using assms(1) cap by (simp add: s1_def fifo_ok_def)
  have size: "fifo_size s < cap" using cap by (simp add: fifo_size_nat [OF assms(1)])
  have head: "(fs_head s + fifo_size s) mod cap = fs_tail s"
  proof -
    have "(fs_head s + fifo_size s) mod cap = (fs_head s + (fs_tail s + cap - fs_head s)) mod cap"
      by (simp add: fifo_size_nat [OF assms(1)] mod_add_right_eq)
    also have "\<dots> = fs_tail s" using assms(1) by (simp add: fifo_ok_def)
    finally show ?thesis .
  qed
  have shift: "(fs_head s + (fifo_size s + n - cap)) mod cap = (fs_tail s + n) mod cap"
  proof -
    have "(fs_head s + (fifo_size s + n - cap)) mod cap = (fs_head s + (fifo_size s + n - cap) + cap) mod cap" by simp
    also have "fs_head s + (fifo_size s + n - cap) + cap = (fs_head s + fifo_size s) + n" using False by simp
    finally show ?thesis by (metis head mod_add_left_eq)
  qed
  have "fifo_size s1 + n \<le> cap"
  proof (cases "n = cap")
    case True
    then have "fs_head s1 = fs_tail s1" using assms(1) by (simp add: s1_def fifo_ok_def)
    then show ?thesis using True ok1 by (simp add: fifo_size_nat [OF ok1])
  next
    case False
    have "fifo_size s1 = (fs_tail s + cap - (fs_tail s + n) mod cap) mod cap"
      using fifo_size_nat [OF ok1] by (simp add: s1_def)
    also have "\<dots> \<le> cap - n" using assms False cap
      by (cases "fs_tail s + n < cap") (auto simp: fifo_ok_def mod_wrap)
    finally show ?thesis using assms(2) by simp
  qed
  then have "fifo_put_indexes (Suc d) n s1 = Inr (map (\<lambda>i. (fs_tail s1 + i) mod cap) [0..<n], s1\<lparr>fs_tail := (fs_tail s1 + n) mod cap\<rparr>)"
    using ok1 ring_indexes [of "fs_tail s1" cap n] assms(2) by (auto simp: fifo_ok_def)
  moreover have "fifo_put_indexes (Suc e) n s = fifo_put_indexes e n s1" for e
    using False assms(1) shift by (simp add: s1_def fifo_ok_def Let_def)
  ultimately show ?thesis using False by (simp add: s1_def del: fifo_put_indexes.simps)
qed

text \<open>A batch beyond the capacity never finds room: the recursion does not end.\<close>

lemma fifo_put_too_many: "fifo_ok cap s \<Longrightarrow> cap < n \<Longrightarrow> fifo_put_indexes depth n s = Inl RuntimeError"
proof (induction depth arbitrary: s)
  case (Suc depth)
  then show ?case by (auto simp: fifo_ok_def Let_def)
qed simp

lemma ring_distinct: "t < c \<Longrightarrow> n \<le> c \<Longrightarrow> distinct (map (\<lambda>i. (t + i) mod c) [0..<n])" for t c n :: nat
  by (subst ring_indexes [symmetric]) auto

interpretation fifo: put_contract "fifo_put_indexes (Suc (Suc d))" "fifo_ok cap" cap for d cap
proof
  fix s n
  assume "fifo_ok cap s" "0 < n" "n \<le> cap"
  then show "\<exists>idx s'. fifo_put_indexes (Suc (Suc d)) n s = Inr (idx, s') \<and> fifo_ok cap s' \<and> length idx = n \<and> distinct idx
      \<and> set idx \<subseteq> {..<cap}"
    using ring_distinct [of "fs_tail s" cap n] fifo_put_exact [of cap s n d]
    by (auto simp: fifo_ok_def simp del: fifo_put_indexes.simps)
qed

definition numpy_ok :: "numpy_env \<Rightarrow> bool" where
  "numpy_ok mc \<longleftrightarrow> draws_ok (mc_draws mc) \<and> 2 \<le> mc_depth mc \<and> (\<forall>x a. 0 < x \<longrightarrow> 0 < mc_pow mc x a)"

definition scheduler_ok :: "nat \<Rightarrow> index_scheduler \<Rightarrow> bool" where
  "scheduler_ok cap sch =
     (case sch of RandomS s \<Rightarrow> random_ok cap s | PriorityS s \<Rightarrow> priority_ok cap s | FifoS s \<Rightarrow> fifo_ok cap s)"

interpretation sched: put_contract "get_put_indexes mc" "\<lambda>s. numpy_ok mc \<and> scheduler_ok cap s" cap for mc cap
proof
  fix s n
  assume ok: "numpy_ok mc \<and> scheduler_ok cap s" and n: "0 < n" "n \<le> cap"
  obtain d where d: "mc_depth mc = Suc (Suc d)" using ok by (metis numpy_ok_def One_nat_def Suc_1 Suc_le_D Suc_le_mono)
  show "\<exists>idx s'. get_put_indexes mc n s = Inr (idx, s') \<and> (numpy_ok mc \<and> scheduler_ok cap s') \<and> length idx = n
      \<and> distinct idx \<and> set idx \<subseteq> {..<cap}"
  proof (cases s)
    case (RandomS t)
    then show ?thesis using ok rnd.put_ok [of "mc_draws mc" cap t n] n
      by (auto simp: get_put_indexes_def scheduler_ok_def numpy_ok_def)
  next
    case (PriorityS t)
    then show ?thesis using ok pri.put_ok [of cap t n "mc_pow mc"] n by (auto simp: get_put_indexes_def scheduler_ok_def)
  next
    case (FifoS t)
    then show ?thesis using ok fifo.put_ok [of cap t n d] n
      by (auto simp: get_put_indexes_def scheduler_ok_def d simp del: fifo_put_indexes.simps)
  qed
qed

section \<open>A memory as rows\<close>

type_synonym transition = "rat list \<times> rat list \<times> rat \<times> bool \<times> bool \<times> rat list"

definition row :: "replay_memory \<Rightarrow> nat \<Rightarrow> transition" where
  "row m i = (rm_states m ! i, rm_actions m ! i, rm_rewards m ! i, rm_terminals m ! i, rm_truncated m ! i, rm_next_states m ! i)"

definition batch_row :: "transition_batch \<Rightarrow> nat \<Rightarrow> transition" where
  "batch_row b i = (tb_states b ! i, tb_actions b ! i, tb_rewards b ! i, tb_terminals b ! i, tb_truncated b ! i, tb_next_states b ! i)"

definition batch_rows :: "transition_batch \<Rightarrow> transition list" where
  "batch_rows b = map (batch_row b) [0..<batch_size b]"

definition memory_ok :: "replay_memory \<Rightarrow> bool" where
  "memory_ok m \<longleftrightarrow> (let cap = rm_capacity m
     in 0 < cap \<and> scheduler_ok cap (rm_idx_scheduler m)
        \<and> match_rows cap (rm_state_dim m) (rm_states m) \<and> match_rows cap (rm_action_dim m) (rm_actions m)
        \<and> length (rm_rewards m) = cap \<and> length (rm_terminals m) = cap \<and> length (rm_truncated m) = cap
        \<and> match_rows cap (rm_state_dim m) (rm_next_states m) \<and> length (rm_returns m) = cap
        \<and> length (rm_advantages m) = cap \<and> length (rm_old_logps m) = cap)"

definition batch_fits :: "replay_memory \<Rightarrow> transition_batch \<Rightarrow> bool" where
  "batch_fits m b \<longleftrightarrow> (let n = batch_size b
     in 0 < n \<and> n \<le> rm_capacity m \<and> match_rows n (rm_state_dim m) (tb_states b) \<and> match_rows n (rm_action_dim m) (tb_actions b)
        \<and> length (tb_rewards b) = n \<and> length (tb_terminals b) = n \<and> length (tb_truncated b) = n
        \<and> match_rows n (rm_state_dim m) (tb_next_states b))"

lemma np_put_length: "np_put idx vals arr = Inr arr' \<Longrightarrow> length arr' = length arr"
  by (auto simp: np_put_def res_simps split: if_splits)

lemma put_optional_length: "put_optional idx vals arr = Inr arr' \<Longrightarrow> length arr' = length arr"
  by (auto simp: put_optional_def np_put_length split: option.splits)

lemma assign_slots_cases:
  "i < length arr \<Longrightarrow> assign_slots idx vals arr ! i = arr ! i \<or> assign_slots idx vals arr ! i \<in> set vals"
proof (induction idx arbitrary: vals arr)
  case Nil
  then show ?case by (simp add: assign_slots_def)
next
  case (Cons k idx)
  show ?case
  proof (cases vals)
    case Nil
    then show ?thesis by (simp add: assign_slots_def)
  next
    case (Cons v vs)
    then show ?thesis using Cons.IH [of "arr[k := v]" vs] Cons.prems by (cases "i = k") (auto simp: assign_slots_Cons)
  qed
qed

lemma match_rows_assign:
  assumes "match_rows cap d arr" "list_all (\<lambda>r. length r = d) vals"
  shows "match_rows cap d (assign_slots idx vals arr)"
proof -
  have "length (assign_slots idx vals arr ! i) = d" if "i < cap" for i
    using assign_slots_cases [of i arr idx vals] assms that by (auto simp: match_rows_def list_all_iff)
  then show ?thesis using assms(1) by (auto simp: match_rows_def list_all_length)
qed

lemma put_fits: "memory_put mc b m = Inr m' \<Longrightarrow> batch_fits m b"
  by (auto simp: memory_put_def batch_fits_def batch_size_def Let_def res_simps)

lemma put_by_indexes_exact:
  assumes "put_by_indexes idx b m = Inr m'" "\<forall>i\<in>set idx. i < cap"
    and "length (rm_states m) = cap" "length (rm_actions m) = cap" "length (rm_rewards m) = cap" "length (rm_terminals m) = cap"
    "length (rm_truncated m) = cap" "length (rm_next_states m) = cap"
    and "length (tb_states b) = length idx" "length (tb_actions b) = length idx" "length (tb_rewards b) = length idx"
    "length (tb_terminals b) = length idx" "length (tb_truncated b) = length idx" "length (tb_next_states b) = length idx"
  obtains rets advs logps where "length rets = length (rm_returns m)" "length advs = length (rm_advantages m)"
    "length logps = length (rm_old_logps m)"
    "m' = m\<lparr>rm_states := assign_slots idx (tb_states b) (rm_states m), rm_actions := assign_slots idx (tb_actions b) (rm_actions m),
       rm_rewards := assign_slots idx (tb_rewards b) (rm_rewards m), rm_terminals := assign_slots idx (tb_terminals b) (rm_terminals m),
       rm_truncated := assign_slots idx (tb_truncated b) (rm_truncated m),
       rm_next_states := assign_slots idx (tb_next_states b) (rm_next_states m), rm_returns := rets,
       rm_advantages := advs, rm_old_logps := logps\<rparr>"
proof -
  have "np_put idx (tb_states b) (rm_states m) = Inr (assign_slots idx (tb_states b) (rm_states m))"
    "np_put idx (tb_actions b) (rm_actions m) = Inr (assign_slots idx (tb_actions b) (rm_actions m))"
    "np_put idx (tb_rewards b) (rm_rewards m) = Inr (assign_slots idx (tb_rewards b) (rm_rewards m))"
    "np_put idx (tb_terminals b) (rm_terminals m) = Inr (assign_slots idx (tb_terminals b) (rm_terminals m))"
    "np_put idx (tb_truncated b) (rm_truncated m) = Inr (assign_slots idx (tb_truncated b) (rm_truncated m))"
    "np_put idx (tb_next_states b) (rm_next_states m) = Inr (assign_slots idx (tb_next_states b) (rm_next_states m))"
    using assms(2-14) by (simp_all add: np_put_exact)
  then obtain rets advs logps where o: "put_optional idx (tb_returns b) (rm_returns m) = Inr rets"
      "put_optional idx (tb_advantages b) (rm_advantages m) = Inr advs"
      "put_optional idx (tb_old_logps b) (rm_old_logps m) = Inr logps"
      "m' = m\<lparr>rm_states := assign_slots idx (tb_states b) (rm_states m), rm_actions := assign_slots idx (tb_actions b) (rm_actions m),
       rm_rewards := assign_slots idx (tb_rewards b) (rm_rewards m), rm_terminals := assign_slots idx (tb_terminals b) (rm_terminals m),
       rm_truncated := assign_slots idx (tb_truncated b) (rm_truncated m),
       rm_next_states := assign_slots idx (tb_next_states b) (rm_next_states m), rm_returns := rets,
       rm_advantages := advs, rm_old_logps := logps\<rparr>"
    using assms(1) by (auto simp: put_by_indexes_def res_simps)
  from put_optional_length [OF o(1)] put_optional_length [OF o(2)] put_optional_length [OF o(3)] o(4) show thesis
    by (rule that)
qed

lemma put_rows:
  assumes "memory_ok m" "numpy_ok mc" "memory_put mc b m = Inr m'"
  obtains idx s where "get_put_indexes mc (batch_size b) (rm_idx_scheduler m) = Inr (idx, s)" "rm_idx_scheduler m' = s"
    "memory_ok m'" "rm_capacity m' = rm_capacity m" "length idx = batch_size b" "distinct idx" "\<forall>i\<in>set idx. i < rm_capacity m"
    "\<And>j. j < batch_size b \<Longrightarrow> row m' (idx ! j) = batch_row b j" "\<And>i. i \<notin> set idx \<Longrightarrow> row m' i = row m i"
    "rm_n_sample m' = min (rm_n_sample m + batch_size b) (rm_capacity m)"
proof -
  have fits: "batch_fits m b" by (rule put_fits [OF assms(3)])
  define cap where "cap = rm_capacity m"
  have n: "0 < batch_size b" "batch_size b \<le> cap" using fits by (auto simp: batch_fits_def Let_def cap_def)
  have sch: "numpy_ok mc \<and> scheduler_ok cap (rm_idx_scheduler m)"
    using assms(1,2) by (simp add: memory_ok_def Let_def cap_def)
  from sched.put_ok [OF sch n] obtain idx s where i: "get_put_indexes mc (batch_size b) (rm_idx_scheduler m) = Inr (idx, s)"
      "scheduler_ok cap s" "length idx = batch_size b" "distinct idx" "\<forall>i\<in>set idx. i < cap"
    by auto
  define m0 where "m0 = m\<lparr>rm_idx_scheduler := s\<rparr>"
  obtain m1 where put: "put_by_indexes idx b m0 = Inr m1"
      "m' = m1\<lparr>rm_n_sample := min (rm_n_sample m1 + batch_size b) (rm_capacity m1)\<rparr>"
    using assms(3) i(1) by (auto simp: m0_def memory_put_def Let_def res_simps batch_size_def [symmetric])
  have shapes: "match_rows cap (rm_state_dim m) (rm_states m)" "match_rows cap (rm_action_dim m) (rm_actions m)"
    "length (rm_rewards m) = cap" "length (rm_terminals m) = cap" "length (rm_truncated m) = cap"
    "match_rows cap (rm_state_dim m) (rm_next_states m)"
    using assms(1) by (simp_all add: memory_ok_def Let_def cap_def)
  have bs: "match_rows (length idx) (rm_state_dim m) (tb_states b)" "match_rows (length idx) (rm_action_dim m) (tb_actions b)"
    "length (tb_rewards b) = length idx" "length (tb_terminals b) = length idx" "length (tb_truncated b) = length idx"
    "match_rows (length idx) (rm_state_dim m) (tb_next_states b)"
    using fits i(3) by (simp_all add: batch_fits_def Let_def)
  have lens: "length (rm_states m0) = cap" "length (rm_actions m0) = cap" "length (rm_rewards m0) = cap"
    "length (rm_terminals m0) = cap" "length (rm_truncated m0) = cap" "length (rm_next_states m0) = cap"
    "length (tb_states b) = length idx" "length (tb_actions b) = length idx" "length (tb_rewards b) = length idx"
    "length (tb_terminals b) = length idx" "length (tb_truncated b) = length idx" "length (tb_next_states b) = length idx"
    using shapes bs by (simp_all add: m0_def match_rows_def)
  obtain rets advs logps where o: "length rets = length (rm_returns m0)" "length advs = length (rm_advantages m0)"
      "length logps = length (rm_old_logps m0)"
      "m1 = m0\<lparr>rm_states := assign_slots idx (tb_states b) (rm_states m0), rm_actions := assign_slots idx (tb_actions b) (rm_actions m0),
         rm_rewards := assign_slots idx (tb_rewards b) (rm_rewards m0), rm_terminals := assign_slots idx (tb_terminals b) (rm_terminals m0),
         rm_truncated := assign_slots idx (tb_truncated b) (rm_truncated m0),
         rm_next_states := assign_slots idx (tb_next_states b) (rm_next_states m0), rm_returns := rets,
         rm_advantages := advs, rm_old_logps := logps\<rparr>"
    by (rule put_by_indexes_exact [OF put(1) i(5) lens])
  have "memory_ok m'" using assms(1) i(2,5) bs shapes o(1-3)
    by (auto simp: memory_ok_def Let_def put(2) o(4) m0_def cap_def match_rows_def [of "length idx"] intro!: match_rows_assign)
  moreover have "row m' (idx ! j) = batch_row b j" if "j < batch_size b" for j
    using that i(3-5) lens by (simp add: row_def batch_row_def put(2) o(4) assign_slots_nth)
  moreover have "row m' i = row m i" if "i \<notin> set idx" for i
    using that by (simp add: row_def put(2) o(4) m0_def assign_slots_other)
  ultimately show thesis using i cap_def by (intro that [of idx s]) (simp_all add: put(2) o(4) m0_def)
qed

text \<open>A batch of the right shape is taken whenever its optional columns have a value per row.\<close>

definition column_fits :: "nat \<Rightarrow> 'a list option \<Rightarrow> bool" where
  "column_fits n vals \<longleftrightarrow> (case vals of None \<Rightarrow> True | Some vs \<Rightarrow> length vs = n)"

lemma put_optional_exact:
  "column_fits (length idx) vals \<Longrightarrow> \<forall>i\<in>set idx. i < length arr \<Longrightarrow>
   put_optional idx vals arr = Inr (case vals of None \<Rightarrow> arr | Some vs \<Rightarrow> assign_slots idx vs arr)"
  by (auto simp: column_fits_def put_optional_def np_put_exact split: option.splits)

lemma put_succeeds:
  assumes "memory_ok m" "numpy_ok mc" "batch_fits m b"
    and "column_fits (batch_size b) (tb_returns b)" "column_fits (batch_size b) (tb_advantages b)"
    "column_fits (batch_size b) (tb_old_logps b)"
  shows "\<exists>m'. memory_put mc b m = Inr m'"
proof -
  have n: "0 < batch_size b" "batch_size b \<le> rm_capacity m" using assms(3) by (simp_all add: batch_fits_def Let_def)
  have "numpy_ok mc \<and> scheduler_ok (rm_capacity m) (rm_idx_scheduler m)" using assms(1,2) by (simp add: memory_ok_def Let_def)
  from sched.put_ok [OF this n] obtain idx s where i: "get_put_indexes mc (batch_size b) (rm_idx_scheduler m) = Inr (idx, s)"
      "length idx = batch_size b" "\<forall>i\<in>set idx. i < rm_capacity m" by auto
  have shapes: "length (rm_states m) = rm_capacity m" "length (rm_actions m) = rm_capacity m" "length (rm_rewards m) = rm_capacity m"
    "length (rm_terminals m) = rm_capacity m" "length (rm_truncated m) = rm_capacity m" "length (rm_next_states m) = rm_capacity m"
    "length (rm_returns m) = rm_capacity m" "length (rm_advantages m) = rm_capacity m" "length (rm_old_logps m) = rm_capacity m"
    using assms(1) by (simp_all add: memory_ok_def Let_def match_rows_def)
  have lens: "length (tb_states b) = length idx" "length (tb_actions b) = length idx" "length (tb_rewards b) = length idx"
    "length (tb_terminals b) = length idx" "length (tb_truncated b) = length idx" "length (tb_next_states b) = length idx"
    using assms(3) i(2) by (simp_all add: batch_fits_def Let_def match_rows_def)
  have "\<exists>m1. put_by_indexes idx b (m\<lparr>rm_idx_scheduler := s\<rparr>) = Inr m1"
    using assms(4-6) i(2,3) by (simp add: put_by_indexes_def np_put_exact put_optional_exact shapes lens)
  then show ?thesis using assms(3) i(1) by (auto simp: memory_put_def batch_fits_def batch_size_def Let_def)
qed

lemma sample_rows:
  assumes "memory_ok m" "\<forall>i\<in>set idx. i < rm_capacity m" "idx \<noteq> []"
  obtains b where "sample_by_indexes idx m = Inr b" "batch_rows b = map (row m) idx" "batch_size b = length idx"
    "tb_returns b = Some (map ((!) (rm_returns m)) idx)" "tb_advantages b = Some (map ((!) (rm_advantages m)) idx)"
    "tb_old_logps b = Some (map ((!) (rm_old_logps m)) idx)"
proof -
  have shapes: "length (rm_states m) = rm_capacity m" "length (rm_actions m) = rm_capacity m" "length (rm_rewards m) = rm_capacity m"
    "length (rm_terminals m) = rm_capacity m" "length (rm_truncated m) = rm_capacity m" "length (rm_next_states m) = rm_capacity m"
    "length (rm_returns m) = rm_capacity m" "length (rm_advantages m) = rm_capacity m" "length (rm_old_logps m) = rm_capacity m"
    using assms(1) by (simp_all add: memory_ok_def Let_def match_rows_def)
  have "match_rows (rm_capacity m) (rm_state_dim m) (rm_states m)" "match_rows (rm_capacity m) (rm_state_dim m) (rm_next_states m)"
    using assms(1) by (simp_all add: memory_ok_def Let_def)
  then have dims: "\<forall>i\<in>set idx. length (rm_next_states m ! i) = length (rm_states m ! i)"
    using assms(2) by (auto simp: match_rows_def list_all_length)
  define b where "b = \<lparr>tb_states = map ((!) (rm_states m)) idx, tb_actions = map ((!) (rm_actions m)) idx,
     tb_rewards = map ((!) (rm_rewards m)) idx, tb_next_states = map ((!) (rm_next_states m)) idx,
     tb_terminals = map ((!) (rm_terminals m)) idx, tb_truncated = map ((!) (rm_truncated m)) idx,
     tb_returns = Some (map ((!) (rm_returns m)) idx), tb_advantages = Some (map ((!) (rm_advantages m)) idx),
     tb_old_logps = Some (map ((!) (rm_old_logps m)) idx)\<rparr>"
  have "sample_by_indexes idx m = check_batch b"
    using assms(2) by (simp add: sample_by_indexes_def np_take_exact shapes list_all_iff b_def)
  also have "\<dots> = Inr b" using dims assms(3) by (simp add: check_batch_def b_def Let_def)
  finally have "sample_by_indexes idx m = Inr b" .
  moreover have "batch_rows b = map (row m) idx"
    by (rule nth_equalityI) (simp_all add: batch_rows_def batch_row_def row_def batch_size_def b_def)
  ultimately show thesis by (rule that) (simp_all add: b_def batch_size_def)
qed

text \<open>The columns a batch may leave out.\<close>

lemma put_columns:
  assumes "memory_put mc b m = Inr m'" and "get_put_indexes mc (batch_size b) (rm_idx_scheduler m) = Inr (idx, s)"
  shows "put_optional idx (tb_returns b) (rm_returns m) = Inr (rm_returns m')"
    and "put_optional idx (tb_advantages b) (rm_advantages m) = Inr (rm_advantages m')"
    and "put_optional idx (tb_old_logps b) (rm_old_logps m) = Inr (rm_old_logps m')"
  using assms by (auto simp: memory_put_def put_by_indexes_def batch_size_def Let_def res_simps)

lemma put_optional_read:
  assumes "put_optional idx vals arr = Inr arr'" and "column_fits (length idx) vals" and "\<forall>i\<in>set idx. i < length arr"
    and "distinct idx"
  shows "map ((!) arr') idx = (case vals of None \<Rightarrow> map ((!) arr) idx | Some vs \<Rightarrow> vs)"
    and "i \<notin> set idx \<Longrightarrow> arr' ! i = arr ! i"
proof -
  have arr': "arr' = (case vals of None \<Rightarrow> arr | Some vs \<Rightarrow> assign_slots idx vs arr)"
    using assms(1) put_optional_exact [OF assms(2,3)] by simp
  show "map ((!) arr') idx = (case vals of None \<Rightarrow> map ((!) arr) idx | Some vs \<Rightarrow> vs)"
  proof (cases vals)
    case (Some vs)
    then have "length vs = length idx" using assms(2) by (simp add: column_fits_def)
    then show ?thesis using Some arr' assms(3,4) by (auto intro!: nth_equalityI simp: assign_slots_nth)
  qed (simp add: arr')
  show "i \<notin> set idx \<Longrightarrow> arr' ! i = arr ! i"
    by (cases vals) (simp_all add: arr' assign_slots_other)
qed

definition column_read :: "'a list option \<Rightarrow> nat list \<Rightarrow> 'a list \<Rightarrow> 'a list" where
  "column_read vals idx arr = (case vals of None \<Rightarrow> map ((!) arr) idx | Some vs \<Rightarrow> vs)"

definition extra_row :: "replay_memory \<Rightarrow> nat \<Rightarrow> rat \<times> rat \<times> rat" where
  "extra_row m i = (rm_returns m ! i, rm_advantages m ! i, rm_old_logps m ! i)"

text \<open>C28: Whatever the scheduler, a batch of the right shape is stored in rows of its own and
  read back from them: all nine columns unchanged where the batch has them; for returns, advantages
  or old_logps missing from the batch the sample hands out what those rows of the memory held before
  (a finding). Every other row of all nine columns stays as it was, and the number of samples grows
  up to the capacity.\<close>

theorem put_then_sample:
  assumes "memory_ok m" "numpy_ok mc" "batch_fits m b"
    and "column_fits (batch_size b) (tb_returns b)" "column_fits (batch_size b) (tb_advantages b)"
    "column_fits (batch_size b) (tb_old_logps b)"
  shows "\<exists>m' idx b'. memory_put mc b m = Inr m' \<and> memory_ok m' \<and> sample_by_indexes idx m' = Inr b'
    \<and> batch_rows b' = batch_rows b \<and> tb_returns b' = Some (column_read (tb_returns b) idx (rm_returns m))
    \<and> tb_advantages b' = Some (column_read (tb_advantages b) idx (rm_advantages m))
    \<and> tb_old_logps b' = Some (column_read (tb_old_logps b) idx (rm_old_logps m))
    \<and> distinct idx \<and> length idx = batch_size b
    \<and> (\<forall>i. i \<notin> set idx \<longrightarrow> row m' i = row m i \<and> extra_row m' i = extra_row m i)
    \<and> rm_n_sample m' = min (rm_n_sample m + batch_size b) (rm_capacity m)"
proof -
  obtain m' where m': "memory_put mc b m = Inr m'" using put_succeeds [OF assms] by blast
  obtain idx s where r: "get_put_indexes mc (batch_size b) (rm_idx_scheduler m) = Inr (idx, s)" "memory_ok m'"
      "rm_capacity m' = rm_capacity m" "length idx = batch_size b" "distinct idx" "\<forall>i\<in>set idx. i < rm_capacity m"
      "\<And>j. j < batch_size b \<Longrightarrow> row m' (idx ! j) = batch_row b j"
      "\<And>i. i \<notin> set idx \<Longrightarrow> row m' i = row m i" "rm_n_sample m' = min (rm_n_sample m + batch_size b) (rm_capacity m)"
    using put_rows [OF assms(1,2) m'] by metis
  have "idx \<noteq> []" using r(4) assms(3) by (auto simp: batch_fits_def Let_def)
  then obtain b' where b': "sample_by_indexes idx m' = Inr b'" "batch_rows b' = map (row m') idx"
      "tb_returns b' = Some (map ((!) (rm_returns m')) idx)" "tb_advantages b' = Some (map ((!) (rm_advantages m')) idx)"
      "tb_old_logps b' = Some (map ((!) (rm_old_logps m')) idx)"
    using sample_rows [OF r(2), of idx] r(3,6) by metis
  have rows: "map (row m') idx = batch_rows b"
    by (rule nth_equalityI) (simp_all add: batch_rows_def r(4,7))
  have lens: "length (rm_returns m) = rm_capacity m" "length (rm_advantages m) = rm_capacity m" "length (rm_old_logps m) = rm_capacity m"
    using assms(1) by (simp_all add: memory_ok_def Let_def)
  note puts = put_columns [OF m' r(1)]
  note fits = assms(4-6) [folded r(4)]
  have "column_read (tb_returns b) idx (rm_returns m) = map ((!) (rm_returns m')) idx"
    "column_read (tb_advantages b) idx (rm_advantages m) = map ((!) (rm_advantages m')) idx"
    "column_read (tb_old_logps b) idx (rm_old_logps m) = map ((!) (rm_old_logps m')) idx"
    using r(5,6) by (simp_all add: column_read_def put_optional_read(1) [OF puts(1) fits(1)]
        put_optional_read(1) [OF puts(2) fits(2)] put_optional_read(1) [OF puts(3) fits(3)] lens)
  moreover have "extra_row m' i = extra_row m i" if "i \<notin> set idx" for i
    using r(5,6) that by (simp add: extra_row_def put_optional_read(2) [OF puts(1) fits(1)]
        put_optional_read(2) [OF puts(2) fits(2)] put_optional_read(2) [OF puts(3) fits(3)] lens)
  ultimately show ?thesis using m' r(2,4,5,8,9) b' rows by (metis (no_types, lifting))
qed

end
