(* ===== verification/ReplayRuns.thy ===== *)
theory ReplayRuns imports ReplayProps begin

text \<open>
  Runs of a replay memory: a first-in-first-out memory is a window over the log of the rows put, the other
  memories sample rows that were put; and how batches are split.
\<close>

section \<open>Runs of a memory\<close>

text \<open>Batches put one after the other, with samples and new weights in between.\<close>

inductive memory_run :: "numpy_env \<Rightarrow> replay_memory \<Rightarrow> transition_batch list \<Rightarrow> replay_memory \<Rightarrow> bool" for mc m0 where
  empty: "memory_run mc m0 [] m0"
| put: "memory_run mc m0 bs m \<Longrightarrow> memory_put mc b m = Inr m' \<Longrightarrow> memory_run mc m0 (bs @ [b]) m'"
| sample: "memory_run mc m0 bs m \<Longrightarrow> memory_sample mc n m = Inr (b, m') \<Longrightarrow> memory_run mc m0 bs m'"
| weigh: "memory_run mc m0 bs m \<Longrightarrow> 0 < eps \<Longrightarrow> memory_update_weight mc eps indexes weight m = Inr m' \<Longrightarrow> memory_run mc m0 bs m'"

definition zero_row :: "nat \<Rightarrow> nat \<Rightarrow> transition" where
  "zero_row sd ad = (replicate sd 0, replicate ad 0, 0, False, False, replicate sd 0)"

text \<open>The rows of a ring, oldest first, are the newest entries of the log.\<close>

definition ring_rows :: "replay_memory \<Rightarrow> fifo_scheduler \<Rightarrow> transition list" where
  "ring_rows m s = map (\<lambda>i. row m ((fs_tail s + i) mod rm_capacity m)) [0..<rm_capacity m]"

definition fifo_memory_ok :: "nat \<Rightarrow> transition list \<Rightarrow> replay_memory \<Rightarrow> bool" where
  "fifo_memory_ok cap L m \<longleftrightarrow> memory_ok m \<and> rm_capacity m = cap
     \<and> (\<exists>s. rm_idx_scheduler m = FifoS s \<and> fifo_ok cap s \<and> cap \<le> length L \<and> ring_rows m s = keep_last cap L)"

lemma memory_sample_frame: "memory_sample mc n m = Inr (b, m') \<Longrightarrow> m' = m\<lparr>rm_idx_scheduler := rm_idx_scheduler m'\<rparr>"
  by (auto simp: memory_sample_def res_simps)

lemma keep_last_nth: "n \<le> length xs \<Longrightarrow> i < n \<Longrightarrow> keep_last n xs ! i = xs ! (length xs - n + i)"
  by (simp add: keep_last_def)

lemma fifo_put_log:
  assumes "fifo_memory_ok cap L m" "numpy_ok mc" "memory_put mc b m = Inr m'"
  shows "fifo_memory_ok cap (L @ batch_rows b) m'"
proof -
  obtain s where s: "memory_ok m" "rm_capacity m = cap" "rm_idx_scheduler m = FifoS s" "fifo_ok cap s" "cap \<le> length L"
      "ring_rows m s = keep_last cap L"
    using assms(1) by (auto simp: fifo_memory_ok_def)
  obtain d where d: "mc_depth mc = Suc (Suc d)" using assms(2) by (metis numpy_ok_def One_nat_def Suc_1 Suc_le_D Suc_le_mono)
  define n where "n = batch_size b"
  have n: "n \<le> cap" using put_fits [OF assms(3)] s(2) by (simp add: batch_fits_def Let_def n_def)
  obtain idx t where r: "get_put_indexes mc n (FifoS s) = Inr (idx, t)" "rm_idx_scheduler m' = t" "memory_ok m'"
      "rm_capacity m' = cap" "length idx = n" "\<And>j. j < n \<Longrightarrow> row m' (idx ! j) = batch_row b j"
      "\<And>i. i \<notin> set idx \<Longrightarrow> row m' i = row m i"
    using put_rows [OF s(1) assms(2,3)] unfolding s(2,3) n_def by metis
  define s' where "s' = s\<lparr>fs_tail := (fs_tail s + n) mod cap,
      fs_head := if fifo_size s + n \<le> cap then fs_head s else (fs_tail s + n) mod cap\<rparr>"
  have i: "idx = map (\<lambda>i. (fs_tail s + i) mod cap) [0..<n]" "t = FifoS s'"
    using r(1) fifo_put_exact [OF s(4) n, of d] by (auto simp: get_put_indexes_def d s'_def simp del: fifo_put_indexes.simps)
  have t: "fs_tail s < cap" using s(4) by (simp add: fifo_ok_def)
  have wrap: "((fs_tail s + n) mod cap + i) mod cap = (fs_tail s + (n + i)) mod cap" for i
    by (simp add: mod_add_left_eq add.assoc)
  have "ring_rows m' s' = keep_last cap (L @ batch_rows b)"
  proof (rule nth_equalityI)
    show "length (ring_rows m' s') = length (keep_last cap (L @ batch_rows b))"
      using s(5) by (simp add: ring_rows_def r(4) keep_last_def batch_rows_def)
    fix i
    assume "i < length (ring_rows m' s')"
    then have ic: "i < cap" by (simp add: ring_rows_def r(4))
    have lhs: "ring_rows m' s' ! i = row m' ((fs_tail s + (n + i)) mod cap)"
      using ic by (simp add: ring_rows_def r(4) s'_def wrap)
    have rhs: "keep_last cap (L @ batch_rows b) ! i = (L @ batch_rows b) ! (length L + n - cap + i)"
      using ic s(5) keep_last_nth [of cap "L @ batch_rows b" i] by (simp add: batch_rows_def n_def)
    show "ring_rows m' s' ! i = keep_last cap (L @ batch_rows b) ! i"
    proof (cases "n + i < cap")
      case True
      have "(fs_tail s + (n + i)) mod cap \<notin> set idx"
      proof
        assume "(fs_tail s + (n + i)) mod cap \<in> set idx"
        then obtain j where j: "j < n" "(fs_tail s + (n + i)) mod cap = (fs_tail s + j) mod cap" by (auto simp: i(1))
        have "distinct (map (\<lambda>i. (fs_tail s + i) mod cap) [0..<cap])" using ring_distinct [OF t, of cap] by simp
        then have "inj_on (\<lambda>i. (fs_tail s + i) mod cap) {0..<cap}" by (simp add: distinct_map)
        then show False using j True by (auto dest: inj_onD [where x = "n + i" and y = j])
      qed
      then have "row m' ((fs_tail s + (n + i)) mod cap) = ring_rows m s ! (n + i)"
        using True r(7) by (simp add: ring_rows_def s(2))
      also have "\<dots> = L ! (length L - cap + (n + i))" using True s(5) by (simp add: s(6) keep_last_def)
      finally have "row m' ((fs_tail s + (n + i)) mod cap) = L ! (length L - cap + (n + i))" .
      moreover have "length L + n - cap + i = length L - cap + (n + i)" "length L - cap + (n + i) < length L"
        using True s(5) by simp_all
      ultimately show ?thesis unfolding lhs rhs by (simp only: nth_append if_True)
    next
      case False
      define j where "j = n + i - cap"
      have j: "j < n" "n + i = cap + j" using False ic by (simp_all add: j_def)
      have "fs_tail s + (n + i) = fs_tail s + j + cap" using j(2) by simp
      then have "(fs_tail s + (n + i)) mod cap = (fs_tail s + j) mod cap" by (simp only: mod_add_self2)
      then have "row m' ((fs_tail s + (n + i)) mod cap) = row m' (idx ! j)" using j(1) by (simp add: i(1))
      also have "\<dots> = batch_row b j" by (rule r(6) [OF j(1)])
      also have "\<dots> = (L @ batch_rows b) ! (length L + j)" using j(1) by (simp add: batch_rows_def n_def)
      also have "length L + j = length L + n - cap + i" using j(2) s(5) by simp
      finally show ?thesis by (simp add: lhs rhs)
    qed
  qed
  moreover have "fifo_ok cap s'" using s(4) t by (simp add: s'_def fifo_ok_def)
  ultimately show ?thesis using r(2,3,4) i(2) s(5) by (simp add: fifo_memory_ok_def)
qed

lemma fifo_sample_log:
  assumes "fifo_memory_ok cap L m"
  obtains s b m' where "rm_idx_scheduler m = FifoS s" "memory_sample mc n m = Inr (b, m')"
    "batch_rows b = keep_last (if fifo_size s = 0 then cap else fifo_size s) L" "fifo_memory_ok cap L m'"
proof -
  obtain s where s: "memory_ok m" "rm_capacity m = cap" "rm_idx_scheduler m = FifoS s" "fifo_ok cap s" "cap \<le> length L"
      "ring_rows m s = keep_last cap L"
    using assms by (auto simp: fifo_memory_ok_def)
  have t: "fs_tail s < cap" "fs_head s < cap" using s(4) by (simp_all add: fifo_ok_def)
  define k where "k = (if fifo_size s = 0 then cap else fifo_size s)"
  have size: "fifo_size s = (if fs_head s \<le> fs_tail s then fs_tail s - fs_head s else fs_tail s + cap - fs_head s)"
    using t by (auto simp: fifo_size_nat [OF s(4)] mod_wrap)
  have k: "0 < k" "k \<le> cap" using t size by (auto simp: k_def)
  define idx where "idx = (if fs_head s < fs_tail s then [fs_head s..<fs_tail s] else [fs_head s..<cap] @ [0..<fs_tail s])"
  have idx: "idx = map (\<lambda>i. (fs_tail s + (cap - k + i)) mod cap) [0..<k]"
    using t by (intro nth_equalityI) (auto simp: idx_def k_def size nth_append mod_wrap)
  have "\<forall>i\<in>set idx. i < rm_capacity m" "idx \<noteq> []" using t k by (auto simp: idx s(2))
  then obtain b where b: "sample_by_indexes idx m = Inr b" "batch_rows b = map (row m) idx"
    using sample_rows [OF s(1)] by metis
  define m' where "m' = m\<lparr>rm_idx_scheduler := FifoS (s\<lparr>fs_head := fs_tail s\<rparr>)\<rparr>"
  have sampled: "memory_sample mc n m = Inr (b, m')"
    using b(1) s(2-4) by (cases "fs_head s < fs_tail s")
      (simp_all add: memory_sample_def get_sample_indexes_def fifo_sample_indexes_def idx_def fifo_ok_def m'_def)
  have "map (row m) idx = drop (cap - k) (ring_rows m s)"
    using k by (intro nth_equalityI) (simp_all add: idx ring_rows_def s(2))
  also have "\<dots> = keep_last k L" using k s(5) by (simp add: s(6) keep_last_def)
  finally have rows: "batch_rows b = keep_last (if fifo_size s = 0 then cap else fifo_size s) L" by (simp add: b(2) k_def)
  have "row m' = row m" "rm_capacity m' = cap" by (simp_all add: m'_def row_def fun_eq_iff s(2))
  then have "fifo_memory_ok cap L m'"
    using s t by (auto simp: fifo_memory_ok_def m'_def memory_ok_def Let_def scheduler_ok_def ring_rows_def fifo_ok_def)
  with s(3) sampled rows show thesis by (rule that)
qed

lemma fifo_new_ok: "0 < cap \<Longrightarrow> fifo_memory_ok cap (replicate cap (zero_row sd ad)) (fifo_replay_memory cap sd ad)"
  by (auto simp: fifo_memory_ok_def fifo_replay_memory_def new_replay_memory_def memory_ok_def Let_def scheduler_ok_def
      fifo_ok_def new_fifo_scheduler_def match_rows_def list_all_iff ring_rows_def keep_last_def row_def zero_row_def
      intro!: nth_equalityI)

lemma fifo_run_ok:
  assumes "memory_run mc (fifo_replay_memory cap sd ad) bs m" "0 < cap" "numpy_ok mc"
  shows "fifo_memory_ok cap (replicate cap (zero_row sd ad) @ concat (map batch_rows bs)) m"
  using assms
proof (induction rule: memory_run.induct)
  case empty
  then show ?case using fifo_new_ok by simp
next
  case (put bs m b m')
  from fifo_put_log [OF put.IH [OF put.prems] put.prems(2) put.hyps(2)] show ?case by simp
next
  case (sample bs m n b m')
  then show ?case using fifo_sample_log [of cap _ m mc n] by (metis Inr_inject Pair_inject)
next
  case (weigh bs m eps indexes weight m')
  then show ?case by (auto simp: fifo_memory_ok_def memory_update_weight_def)
qed

text \<open>
  A sample of the ring in any state is a window over the zero rows it is created with and all rows put since, with as many
  of the newest as its pointers say; when they meet, the size reads 0 and the window is the whole ring.
\<close>

lemma fifo_window:
  assumes "memory_run mc (fifo_replay_memory cap sd ad) bs m" "0 < cap" "numpy_ok mc"
  shows "\<exists>s b m'. rm_idx_scheduler m = FifoS s \<and> memory_sample mc n m = Inr (b, m')
    \<and> batch_rows b = keep_last (if fifo_size s = 0 then cap else fifo_size s)
        (replicate cap (zero_row sd ad) @ concat (map batch_rows bs))"
  using fifo_sample_log [OF fifo_run_ok [OF assms], of mc n] by metis

section \<open>From one sample to the next\<close>

text \<open>Nothing has been put since the memory was created or sampled.\<close>

definition drained :: "numpy_env \<Rightarrow> nat \<Rightarrow> nat \<Rightarrow> nat \<Rightarrow> transition_batch list \<Rightarrow> replay_memory \<Rightarrow> bool" where
  "drained mc cap sd ad bs m \<longleftrightarrow> m = fifo_replay_memory cap sd ad \<and> bs = []
     \<or> (\<exists>m0 n b. memory_run mc (fifo_replay_memory cap sd ad) bs m0 \<and> memory_sample mc n m0 = Inr (b, m))"

lemma drained_facts:
  assumes "drained mc cap sd ad bs m" "0 < cap" "numpy_ok mc"
  shows "memory_run mc (fifo_replay_memory cap sd ad) bs m"
    and "\<exists>s. rm_idx_scheduler m = FifoS s \<and> fifo_ok cap s \<and> fs_head s = fs_tail s"
proof -
  show run: "memory_run mc (fifo_replay_memory cap sd ad) bs m"
    using assms(1) by (auto simp: drained_def intro: memory_run.intros)
  obtain s where s: "rm_idx_scheduler m = FifoS s" "fifo_ok cap s"
    using fifo_run_ok [OF run assms(2,3)] by (auto simp: fifo_memory_ok_def)
  have "fs_head s = fs_tail s"
    using assms(1) unfolding drained_def
  proof (elim disjE exE conjE)
    assume "m = fifo_replay_memory cap sd ad"
    then show ?thesis using s(1) by (auto simp: fifo_replay_memory_def new_replay_memory_def new_fifo_scheduler_def)
  next
    fix m0 n b
    assume m0: "memory_run mc (fifo_replay_memory cap sd ad) bs m0" "memory_sample mc n m0 = Inr (b, m)"
    obtain s0 where "rm_idx_scheduler m0 = FifoS s0" using fifo_run_ok [OF m0(1) assms(2,3)] by (auto simp: fifo_memory_ok_def)
    then show ?thesis using m0(2) s(1)
      by (auto simp: memory_sample_def get_sample_indexes_def fifo_sample_indexes_def res_simps split: if_splits)
  qed
  with s show "\<exists>s. rm_idx_scheduler m = FifoS s \<and> fifo_ok cap s \<and> fs_head s = fs_tail s" by blast
qed

lemma fifo_fill:
  assumes "foldE (memory_put mc) bs m0 = Inr m" "drained mc cap sd ad bs0 m0" "0 < cap" "numpy_ok mc"
    and "sum_list (map batch_size bs) \<le> cap"
  shows "memory_run mc (fifo_replay_memory cap sd ad) (bs0 @ bs) m \<and> (\<exists>s. rm_idx_scheduler m = FifoS s \<and> fifo_ok cap s
    \<and> fs_tail s = (fs_head s + sum_list (map batch_size bs)) mod cap)"
  using assms(1,5)
proof (induction bs arbitrary: m rule: rev_induct)
  case Nil
  then show ?case using drained_facts [OF assms(2-4)] by (auto simp: fifo_ok_def)
next
  case (snoc b bs)
  define T where "T = sum_list (map batch_size bs)"
  from snoc.prems(1) obtain m1 where m1: "foldE (memory_put mc) bs m0 = Inr m1" "memory_put mc b m1 = Inr m"
    by (auto simp: foldE_append res_simps)
  have "sum_list (map batch_size bs) \<le> cap" using snoc.prems(2) by simp
  from snoc.IH [OF m1(1) this] obtain s where s: "memory_run mc (fifo_replay_memory cap sd ad) (bs0 @ bs) m1"
      "rm_idx_scheduler m1 = FifoS s" "fifo_ok cap s" "fs_tail s = (fs_head s + T) mod cap"
    unfolding T_def by blast
  have ok: "memory_ok m1" "rm_capacity m1 = cap" using fifo_run_ok [OF s(1) assms(3,4)] by (simp_all add: fifo_memory_ok_def)
  have n: "0 < batch_size b" "T + batch_size b \<le> cap"
    using put_fits [OF m1(2)] snoc.prems(2) by (simp_all add: batch_fits_def Let_def T_def)
  have size: "fifo_size s = T" using s(3,4) n by (simp add: fifo_size_nat [OF s(3)] fifo_ok_def mod_wrap)
  obtain d where d: "mc_depth mc = Suc (Suc d)" using assms(4) by (metis numpy_ok_def One_nat_def Suc_1 Suc_le_D Suc_le_mono)
  obtain idx t where r: "get_put_indexes mc (batch_size b) (FifoS s) = Inr (idx, t)" "rm_idx_scheduler m = t"
    using put_rows [OF ok(1) assms(4) m1(2)] unfolding s(2) by metis
  then have "t = FifoS (s\<lparr>fs_tail := (fs_tail s + batch_size b) mod cap\<rparr>)"
    using fifo_put_exact [OF s(3), of "batch_size b" d] n size
    by (auto simp: get_put_indexes_def d simp del: fifo_put_indexes.simps)
  moreover have "(fs_tail s + batch_size b) mod cap = (fs_head s + (T + batch_size b)) mod cap"
    by (simp add: s(4) mod_simps add.assoc)
  ultimately show ?case using r(2) s(3) assms(3) memory_run.put [OF s(1) m1(2)] by (auto simp: T_def fifo_ok_def)
qed


text \<open>Sampling when nothing has been put since the last sample, or ever, hands out the whole ring.\<close>

theorem drained_fifo_repeats:
  assumes "drained mc cap sd ad bs m" "0 < cap" "numpy_ok mc"
  shows "\<exists>b m'. memory_sample mc n m = Inr (b, m')
    \<and> batch_rows b = keep_last cap (replicate cap (zero_row sd ad) @ concat (map batch_rows bs))"
proof -
  obtain s where "rm_idx_scheduler m = FifoS s" "fifo_size s = 0"
    using drained_facts(2) [OF assms] by (auto simp: fifo_size_def)
  then show ?thesis using fifo_window [OF drained_facts(1) [OF assms] assms(2,3), of n] by auto
qed

text \<open>A full ring looks like an empty one: what fills it is forgotten at the next batch, and a sample is that batch only.\<close>

theorem fifo_full_forgets:
  assumes "foldE (memory_put mc) bs (fifo_replay_memory cap sd ad) = Inr m" "0 < cap" "numpy_ok mc"
    and "sum_list (map batch_size bs) = cap" "memory_put mc b m = Inr m'" "batch_size b < cap"
  shows "\<exists>b' m''. memory_sample mc n m' = Inr (b', m'') \<and> batch_rows b' = batch_rows b"
proof -
  have "drained mc cap sd ad [] (fifo_replay_memory cap sd ad)" by (simp add: drained_def)
  from fifo_fill [OF assms(1) this assms(2,3)] assms(4) obtain s where s: "memory_run mc (fifo_replay_memory cap sd ad) bs m"
      "rm_idx_scheduler m = FifoS s" "fifo_ok cap s" "fs_tail s = (fs_head s + cap) mod cap" by auto
  then have "fs_head s = fs_tail s" by (simp add: fifo_ok_def)
  note s = s(1-3) this
  have ok: "memory_ok m" "rm_capacity m = cap" using fifo_run_ok [OF s(1) assms(2,3)] by (simp_all add: fifo_memory_ok_def)
  obtain d where d: "mc_depth mc = Suc (Suc d)" using assms(3) by (metis numpy_ok_def One_nat_def Suc_1 Suc_le_D Suc_le_mono)
  have n: "0 < batch_size b" using put_fits [OF assms(5)] by (simp add: batch_fits_def Let_def)
  obtain idx t where r: "get_put_indexes mc (batch_size b) (FifoS s) = Inr (idx, t)" "rm_idx_scheduler m' = t"
    using put_rows [OF ok(1) assms(3,5)] unfolding s(2) by metis
  define s' where "s' = s\<lparr>fs_tail := (fs_tail s + batch_size b) mod cap\<rparr>"
  have size: "fifo_size s = 0" by (simp add: fifo_size_def s(4))
  have t: "rm_idx_scheduler m' = FifoS s'"
    using r fifo_put_exact [OF s(3), of "batch_size b" d] assms(6)
    by (simp add: get_put_indexes_def d s'_def size del: fifo_put_indexes.simps)
  have ok': "fifo_ok cap s'" using s(3) assms(2) by (simp add: fifo_ok_def s'_def)
  have "fifo_size s' = batch_size b"
    using assms(6) s(3,4) by (simp add: fifo_size_nat [OF ok']) (simp add: s'_def fifo_ok_def mod_wrap)
  with fifo_window [OF memory_run.put [OF s(1) assms(5)] assms(2,3), of n] t(1) n
  obtain b' m'' where "memory_sample mc n m' = Inr (b', m'')"
      "batch_rows b' = keep_last (batch_size b) (replicate cap (zero_row sd ad) @ concat (map batch_rows (bs @ [b])))"
    by auto
  moreover have "keep_last (batch_size b) (xs @ batch_rows b) = batch_rows b" for xs
    by (simp add: keep_last_def batch_rows_def)
  moreover have "replicate cap (zero_row sd ad) @ concat (map batch_rows (bs @ [b])) =
      (replicate cap (zero_row sd ad) @ concat (map batch_rows bs)) @ batch_rows b" by simp
  ultimately show ?thesis by metis
qed

section \<open>Sampling at random\<close>

definition sampled_range :: "index_scheduler \<Rightarrow> nat" where
  "sampled_range sch = (case sch of RandomS s \<Rightarrow> rs_size s | PriorityS s \<Rightarrow> ps_size s | FifoS s \<Rightarrow> 0)"

definition ready :: "index_scheduler \<Rightarrow> bool" where
  "ready sch = (case sch of RandomS s \<Rightarrow> True
     | PriorityS s \<Rightarrow> 0 < ps_max_prio s \<and> (\<forall>i<ps_size s. 0 < ps_weights s ! i) | FifoS s \<Rightarrow> False)"

lemma put_covers:
  assumes "scheduler_ok cap sch" "ready sch" "numpy_ok mc" "0 < n" "n \<le> cap" "get_put_indexes mc n sch = Inr (idx, sch')"
  shows "ready sch' \<and> (\<forall>i<sampled_range sch'. i \<in> set idx \<or> i < sampled_range sch)
    \<and> 0 < sampled_range sch' \<and> sampled_range sch' \<le> cap"
proof (cases sch)
  case (RandomS s)
  then show ?thesis using assms
    by (auto simp: scheduler_ok_def random_ok_def get_put_indexes_def random_put_indexes_def Let_def ready_def sampled_range_def
        res_simps split: if_splits)
next
  case (PriorityS s)
  have ok: "priority_ok cap s" using assms(1) PriorityS by (simp add: scheduler_ok_def)
  define w where "w = mc_pow mc (ps_max_prio s) (ps_alpha s)"
  have w: "0 < w" using assms(2,3) PriorityS by (simp add: ready_def numpy_ok_def w_def)
  obtain s1 where put: "sch' = PriorityS (s1\<lparr>ps_weights := assign_slots idx (replicate n w) (ps_weights s)\<rparr>)"
      "length idx = n" "distinct idx" "\<forall>i\<in>set idx. i < cap" "ps_size s1 = min (ps_size s + n) cap"
      "ps_max_prio s1 = ps_max_prio s" "\<forall>i<ps_size s1. i \<in> set idx \<or> i < ps_size s"
  proof (rule priority_put_exact [OF ok assms(4,5), of "mc_pow mc"])
    fix idx' s1
    assume p: "priority_put_indexes (mc_pow mc) n s =
        Inr (idx', s1\<lparr>ps_weights := assign_slots idx' (replicate n (mc_pow mc (ps_max_prio s) (ps_alpha s))) (ps_weights s)\<rparr>)"
      "length idx' = n" "distinct idx'" "\<forall>i\<in>set idx'. i < cap" "ps_size s1 = min (ps_size s + n) cap"
      "ps_max_prio s1 = ps_max_prio s" "\<forall>i<ps_size s1. i \<in> set idx' \<or> i < ps_size s"
    have "idx' = idx" "sch' = PriorityS (s1\<lparr>ps_weights := assign_slots idx' (replicate n w) (ps_weights s)\<rparr>)"
      using assms(6) p(1) PriorityS by (auto simp: get_put_indexes_def w_def)
    with p(2-) show thesis by (intro that [of s1]) simp_all
  qed
  have len: "length (ps_weights s) = cap" using ok by (simp add: priority_ok_def)
  have "0 < assign_slots idx (replicate n w) (ps_weights s) ! i" if "i < ps_size s1" for i
  proof (cases "i \<in> set idx")
    case True
    then obtain j where "j < n" "i = idx ! j" using put(2) by (auto simp: in_set_conv_nth)
    then show ?thesis using put(2-4) w len assign_slots_nth [of idx "replicate n w" "ps_weights s" j] by simp
  next
    case False
    then have "i < ps_size s" using put(7) that by blast
    then show ?thesis using False assms(2) PriorityS by (simp add: assign_slots_other ready_def)
  qed
  then show ?thesis using put assms(2,4,5) PriorityS by (auto simp: ready_def sampled_range_def)
next
  case (FifoS s)
  then show ?thesis using assms(2) by (simp add: ready_def)
qed

definition covered :: "nat \<Rightarrow> transition set \<Rightarrow> replay_memory \<Rightarrow> bool" where
  "covered cap S m \<longleftrightarrow> memory_ok m \<and> rm_capacity m = cap \<and> ready (rm_idx_scheduler m)
     \<and> sampled_range (rm_idx_scheduler m) \<le> cap
     \<and> (\<forall>i<sampled_range (rm_idx_scheduler m). row m i \<in> S)"

lemma put_covered:
  assumes "covered cap S m" "numpy_ok mc" "memory_put mc b m = Inr m'"
  shows "covered cap (S \<union> set (batch_rows b)) m' \<and> 0 < sampled_range (rm_idx_scheduler m')"
proof -
  have c: "memory_ok m" "rm_capacity m = cap" "ready (rm_idx_scheduler m)" using assms(1) by (simp_all add: covered_def)
  then have sch: "scheduler_ok cap (rm_idx_scheduler m)" by (simp add: memory_ok_def Let_def)
  have n: "0 < batch_size b" "batch_size b \<le> cap" using put_fits [OF assms(3)] c(2) by (simp_all add: batch_fits_def Let_def)
  obtain idx s where r: "get_put_indexes mc (batch_size b) (rm_idx_scheduler m) = Inr (idx, s)" "rm_idx_scheduler m' = s"
      "memory_ok m'" "rm_capacity m' = cap" "length idx = batch_size b"
      "\<And>j. j < batch_size b \<Longrightarrow> row m' (idx ! j) = batch_row b j" "\<And>i. i \<notin> set idx \<Longrightarrow> row m' i = row m i"
    using put_rows [OF c(1) assms(2,3)] unfolding c(2) by metis
  note p = put_covers [OF sch c(3) assms(2) n r(1)]
  have "row m' i \<in> S \<union> set (batch_rows b)" if i: "i < sampled_range s" for i
  proof (cases "i \<in> set idx")
    case True
    then obtain j where "j < batch_size b" "i = idx ! j" using r(5) by (auto simp: in_set_conv_nth)
    then show ?thesis using r(6) by (auto simp: batch_rows_def)
  next
    case False
    then have "i < sampled_range (rm_idx_scheduler m)" using p i by blast
    then show ?thesis using r(7) [OF False] assms(1) by (auto simp: covered_def)
  qed
  then show ?thesis using p r(2-4) by (simp add: covered_def)
qed

lemma sample_indexes_covered:
  assumes "scheduler_ok cap sch" "ready sch" "sampled_range sch \<le> cap" "numpy_ok mc" "0 < sampled_range sch" "0 < n"
  obtains idx where "get_sample_indexes mc (Some n) sch = Inr (idx, sch)" "length idx = nat n"
    "\<forall>i\<in>set idx. i < sampled_range sch"
proof (cases sch)
  case (RandomS s)
  then have "length (dw_draw (mc_draws mc) (rs_size s) (nat n)) = nat n \<and> set (dw_draw (mc_draws mc) (rs_size s) (nat n)) \<subseteq> {..<rs_size s}"
    using assms(4,5) by (simp add: numpy_ok_def draws_ok_def sampled_range_def)
  then show thesis using RandomS assms(5,6)
    by (intro that [of "dw_draw (mc_draws mc) (rs_size s) (nat n)"])
       (auto simp: get_sample_indexes_def random_sample_indexes_def sampled_range_def)
next
  case (PriorityS s)
  define ws where "ws = take (ps_size s) (ps_weights s)"
  have len: "length ws = ps_size s" "0 < ps_size s"
    using assms(1,3,5) PriorityS by (auto simp: ws_def scheduler_ok_def priority_ok_def sampled_range_def)
  have pos: "\<forall>w\<in>set ws. 0 < w" using assms(2) PriorityS len(1) by (auto simp: ready_def in_set_conv_nth ws_def)
  then have total_pos: "0 < sum_list ws" using len by (cases ws) (auto intro!: add_pos_nonneg sum_list_nonneg dest: less_imp_le)
  have sampled: "priority_sample_indexes (mc_draws mc) (Some n) s =
      Inr (dw_weighted (mc_draws mc) (map (\<lambda>w. w / sum_list ws) ws) (nat n), s)"
    using assms(6) len(2) pos total_pos
    by (auto simp: priority_sample_indexes_def Let_def ws_def [symmetric] zero_less_divide_iff not_less divide_less_0_iff dest: order.strict_trans)
  have "length (dw_weighted (mc_draws mc) (map (\<lambda>w. w / sum_list ws) ws) (nat n)) = nat n
      \<and> set (dw_weighted (mc_draws mc) (map (\<lambda>w. w / sum_list ws) ws) (nat n)) \<subseteq> {..<ps_size s}"
  proof -
    have "\<forall>ps k. ps \<noteq> [] \<longrightarrow> length (dw_weighted (mc_draws mc) ps k) = k
        \<and> set (dw_weighted (mc_draws mc) ps k) \<subseteq> {..<length ps}"
      using assms(4) by (simp add: numpy_ok_def draws_ok_def)
    moreover have "map (\<lambda>w. w / sum_list ws) ws \<noteq> []" using len by auto
    ultimately show ?thesis using len(1) by (metis length_map)
  qed
  then show thesis using sampled PriorityS
    by (intro that [of "dw_weighted (mc_draws mc) (map (\<lambda>w. w / sum_list ws) ws) (nat n)"])
       (auto simp: get_sample_indexes_def sampled_range_def)
next
  case (FifoS s)
  then show thesis using assms(2) by (simp add: ready_def)
qed

lemma weigh_covered:
  assumes "covered cap S m" "numpy_ok mc" "0 < eps" "memory_update_weight mc eps indexes weight m = Inr m'"
  shows "covered cap S m' \<and> sampled_range (rm_idx_scheduler m') = sampled_range (rm_idx_scheduler m)"
proof -
  obtain s s' where s: "rm_idx_scheduler m = PriorityS s" "update_weight (mc_pow mc) eps indexes weight s = Inr s'"
      "m' = m\<lparr>rm_idx_scheduler := PriorityS s'\<rparr>"
    using assms(4) by (auto simp: memory_update_weight_def res_simps split: index_scheduler.splits)
  have ok: "priority_ok cap s" "ready (PriorityS s)"
    using assms(1) by (auto simp: covered_def s(1) memory_ok_def Let_def scheduler_ok_def)
  define vals where "vals = map (\<lambda>w. mc_pow mc (\<bar>w\<bar> + eps) (ps_alpha s)) weight"
  have "0 < \<bar>w\<bar> + eps" for w :: rat using assms(3) by (intro add_nonneg_pos) simp_all
  then have pos: "\<forall>v\<in>set vals. 0 < v" using assms(2) by (auto simp: vals_def numpy_ok_def)
  have u: "length indexes = length weight" "\<forall>i\<in>set indexes. i < cap" "weight \<noteq> []"
    using s(2) ok(1) by (auto simp: update_weight_def Let_def res_simps np_put_def priority_ok_def list_all_iff split: if_splits)
  obtain mp mn where s': "s' = s\<lparr>ps_weights := assign_slots indexes vals (ps_weights s), ps_max_prio := max (ps_max_prio s) mp,
      ps_min_prio := mn\<rparr>"
  proof -
    have "np_put indexes vals (ps_weights s) = Inr (assign_slots indexes vals (ps_weights s))"
      using u ok(1) by (intro np_put_exact) (simp_all add: vals_def priority_ok_def)
    then have "np_put indexes (map (\<lambda>w. mc_pow mc w (ps_alpha s)) (map (\<lambda>w. \<bar>w\<bar> + eps) weight)) (ps_weights s) =
        Inr (assign_slots indexes vals (ps_weights s))" by (simp add: vals_def o_def)
    then have "s' = s\<lparr>ps_weights := assign_slots indexes vals (ps_weights s),
        ps_max_prio := max (ps_max_prio s) (Max (set (map (\<lambda>w. \<bar>w\<bar> + eps) weight))),
        ps_min_prio := min (ps_min_prio s) (Min (set (map (\<lambda>w. \<bar>w\<bar> + eps) weight)))\<rparr>"
      using s(2) u by (simp add: update_weight_def Let_def del: map_map set_map)
    then show thesis by (rule that)
  qed
  have len: "length (ps_weights s) = cap" "ps_size s \<le> cap" using ok(1) by (auto simp: priority_ok_def)
  have "0 < assign_slots indexes vals (ps_weights s) ! i" if i: "i < ps_size s" for i
    using assign_slots_cases [of i "ps_weights s" indexes vals] ok(2) i len pos by (auto simp: ready_def)
  then have ready: "ready (PriorityS s')" using ok(2) by (simp add: s' ready_def less_max_iff_disj)
  have row: "row m' i = row m i" for i by (simp add: s(3) row_def)
  have "priority_ok cap s'" using ok(1) by (simp add: s' priority_ok_def)
  then have mem: "memory_ok m'" "rm_capacity m' = cap"
    using assms(1) by (auto simp: covered_def memory_ok_def Let_def scheduler_ok_def s(3))
  have range: "sampled_range (rm_idx_scheduler m') = sampled_range (rm_idx_scheduler m)"
    by (simp add: s(1,3) sampled_range_def s')
  have "covered cap S m'" using assms(1) mem ready unfolding covered_def row range by (simp add: s(3))
  then show ?thesis using range by simp
qed

lemma covered_run:
  assumes "memory_run mc m0 bs m" "covered cap {} m0" "numpy_ok mc"
  shows "covered cap (set (concat (map batch_rows bs))) m \<and> (bs \<noteq> [] \<longrightarrow> 0 < sampled_range (rm_idx_scheduler m))"
  using assms
proof (induction rule: memory_run.induct)
  case empty
  then show ?case by simp
next
  case (put bs m b m')
  then show ?case using put_covered [of cap "set (concat (map batch_rows bs))" m mc b m'] by simp
next
  case (sample bs m n b m')
  obtain idx where "get_sample_indexes mc n (rm_idx_scheduler m) = Inr (idx, rm_idx_scheduler m')"
      "m' = m\<lparr>rm_idx_scheduler := rm_idx_scheduler m'\<rparr>"
    using sample.hyps(2) by (auto simp: memory_sample_def res_simps)
  moreover have "ready (rm_idx_scheduler m)" using sample by (simp add: covered_def)
  ultimately have "rm_idx_scheduler m' = rm_idx_scheduler m"
    by (auto simp: get_sample_indexes_def random_sample_indexes_def priority_sample_indexes_def ready_def res_simps Let_def
        split: index_scheduler.splits option.splits if_splits)
  then have "m' = m" using memory_sample_frame [OF sample.hyps(2)] by simp
  then show ?case using sample by simp
next
  case (weigh bs m eps indexes weight m')
  then show ?case using weigh_covered [of cap "set (concat (map batch_rows bs))" m mc eps indexes weight m'] by simp
qed

lemma covered_new:
  "0 < cap \<Longrightarrow> covered cap {} (random_replay_memory cap sd ad overwrite)"
  "0 < cap \<Longrightarrow> covered cap {} (prioritized_replay_memory cap sd ad alpha beta)"
  by (simp_all add: covered_def random_replay_memory_def prioritized_replay_memory_def new_replay_memory_def memory_ok_def
      Let_def scheduler_ok_def random_ok_def priority_ok_def ready_def sampled_range_def match_rows_def list_all_iff
      new_random_scheduler_def new_priority_scheduler_def)

text \<open>C27: After any run of puts, samples and weight updates a random or prioritized memory
  samples as many rows as asked for without an error, and only rows that were put.\<close>

theorem samples_were_put:
  assumes "m0 \<in> {random_replay_memory cap sd ad overwrite, prioritized_replay_memory cap sd ad alpha beta}"
    and "memory_run mc m0 bs m" "0 < cap" "numpy_ok mc" "bs \<noteq> []" "0 < n"
  shows "\<exists>b. memory_sample mc (Some n) m = Inr (b, m) \<and> batch_size b = nat n
    \<and> set (batch_rows b) \<subseteq> set (concat (map batch_rows bs))"
proof -
  have "covered cap {} m0" using assms(1,3) covered_new by auto
  from covered_run [OF assms(2) this assms(4)] assms(5)
  have c: "covered cap (set (concat (map batch_rows bs))) m" "0 < sampled_range (rm_idx_scheduler m)" by simp_all
  then have m: "memory_ok m" "rm_capacity m = cap" "scheduler_ok cap (rm_idx_scheduler m)" "ready (rm_idx_scheduler m)"
      "sampled_range (rm_idx_scheduler m) \<le> cap" "\<forall>i<sampled_range (rm_idx_scheduler m). row m i \<in> set (concat (map batch_rows bs))"
    by (auto simp: covered_def memory_ok_def Let_def)
  obtain idx where i: "get_sample_indexes mc (Some n) (rm_idx_scheduler m) = Inr (idx, rm_idx_scheduler m)" "length idx = nat n"
      "\<forall>i\<in>set idx. i < sampled_range (rm_idx_scheduler m)"
    by (rule sample_indexes_covered [OF m(3-5) assms(4) c(2) assms(6)])
  have "\<forall>i\<in>set idx. i < rm_capacity m" "idx \<noteq> []" using i(2,3) m(2,5) assms(6) by (force, auto)
  then obtain b where b: "sample_by_indexes idx m = Inr b" "batch_rows b = map (row m) idx" "batch_size b = length idx"
    using sample_rows [OF m(1)] by metis
  then show ?thesis using i m(6) by (auto simp: memory_sample_def)
qed

section \<open>Splitting a batch\<close>

text \<open>Row \<open>j\<close> goes to sub-batch \<open>j mod k\<close>, so no sub-batch is empty exactly when there are as many rows as parts.\<close>

lemma split_progress:
  assumes "check_batch b = Inr b" "i < k" "0 < k"
  shows "make_kth_sub_batch i k b = (if i < batch_size b then
    Inr \<lparr>tb_states = stride i k (tb_states b), tb_actions = stride i k (tb_actions b),
        tb_rewards = stride i k (tb_rewards b), tb_next_states = stride i k (tb_next_states b),
        tb_terminals = stride i k (tb_terminals b), tb_truncated = stride i k (tb_truncated b),
        tb_returns = map_option (stride i k) (tb_returns b), tb_advantages = map_option (stride i k) (tb_advantages b),
        tb_old_logps = map_option (stride i k) (tb_old_logps b)\<rparr>
    else Inl AssertionError)"
proof -
  have l: "length (tb_actions b) = batch_size b" "length (tb_rewards b) = batch_size b"
      "map length (tb_next_states b) = map length (tb_states b)" "length (tb_terminals b) = batch_size b"
      "length (tb_truncated b) = batch_size b" "length (tb_states b) = batch_size b"
    using assms(1) by (auto simp: check_batch_def Let_def res_simps batch_size_def)
  then have l2: "length (tb_next_states b) = batch_size b" by (metis length_map)
  have pos: "0 < length (stride i k xs) \<longleftrightarrow> i < length xs" for xs :: "'x list"
    using stride_bound [OF assms(2), of 0 "length xs"] by (simp add: stride_length)
  have "length (tb_next_states b ! j) = length (tb_states b ! j)" if "j < batch_size b" for j
    using that l(3,6) l2 by (metis nth_map)
  then have "map length (stride i k (tb_next_states b)) = map length (stride i k (tb_states b))"
    using stride_bound [OF assms(2), of _ "batch_size b"]
    by (intro nth_equalityI) (simp_all add: stride_length l(6) l2 stride_nth)
  then show ?thesis using l l2 pos [of "tb_states b"]
    by (auto simp: make_kth_sub_batch_def check_batch_def Let_def stride_length assertE_def)
qed

lemma mapE_fails:
  "\<forall>x\<in>set xs. f x = Inl e \<or> (\<exists>y. f x = Inr y) \<Longrightarrow> \<exists>x\<in>set xs. f x = Inl e \<Longrightarrow> mapE f xs = Inl e"
proof (induction xs)
  case (Cons a xs)
  then show ?case by (cases "f a = Inl e") auto
qed simp

theorem split_exact:
  assumes "check_batch b = Inr b" "0 < k"
  shows "if k \<le> batch_size b
    then \<exists>bs. split_batch k b = Inr bs \<and> length bs = k
      \<and> (\<forall>j<batch_size b. j div k < batch_size (bs ! (j mod k)) \<and> batch_row (bs ! (j mod k)) (j div k) = batch_row b j)
      \<and> (\<forall>i<k. \<forall>m<batch_size (bs ! i). i + m * k < batch_size b)
    else split_batch k b = Inl AssertionError"
proof (cases "k \<le> batch_size b")
  case False
  then have "split_batch k b = Inl AssertionError" unfolding split_batch_def
    using split_progress [OF assms(1) _ assms(2)] by (intro mapE_fails) (auto intro!: bexI [of _ "batch_size b"])
  then show ?thesis using False by simp
next
  case True
  define sub where "sub = (\<lambda>i. \<lparr>tb_states = stride i k (tb_states b), tb_actions = stride i k (tb_actions b),
        tb_rewards = stride i k (tb_rewards b), tb_next_states = stride i k (tb_next_states b),
        tb_terminals = stride i k (tb_terminals b), tb_truncated = stride i k (tb_truncated b),
        tb_returns = map_option (stride i k) (tb_returns b), tb_advantages = map_option (stride i k) (tb_advantages b),
        tb_old_logps = map_option (stride i k) (tb_old_logps b)\<rparr>)"
  have split: "split_batch k b = Inr (map sub [0..<k])" unfolding split_batch_def
    using split_progress [OF assms(1) _ assms(2)] True by (intro mapE_Inr_map) (simp add: sub_def)
  have l: "length (tb_actions b) = batch_size b" "length (tb_rewards b) = batch_size b"
      "map length (tb_next_states b) = map length (tb_states b)" "length (tb_terminals b) = batch_size b"
      "length (tb_truncated b) = batch_size b" "length (tb_states b) = batch_size b"
    using assms(1) by (auto simp: check_batch_def Let_def res_simps batch_size_def)
  then have l2: "length (tb_next_states b) = batch_size b" by (metis length_map)
  have size: "m < batch_size (sub i) \<longleftrightarrow> i + m * k < batch_size b" if "i < k" for i m
    using stride_bound [OF that, of m "batch_size b"] by (simp add: sub_def batch_size_def stride_length)
  have "j div k < batch_size (sub (j mod k)) \<and> batch_row (sub (j mod k)) (j div k) = batch_row b j" if j: "j < batch_size b" for j
  proof -
    have m: "j mod k < k" "j mod k + j div k * k = j" using assms(2) by simp_all
    then have b: "j div k < (batch_size b + k - 1 - j mod k) div k" using stride_bound [OF m(1), of "j div k" "batch_size b"] j by simp
    have nth: "stride (j mod k) k xs ! (j div k) = xs ! j" if "length xs = batch_size b" for xs :: "'x list"
      using stride_nth [of "j div k" "j mod k" k xs] b m(2) that by (simp add: stride_length)
    show ?thesis using size [OF m(1), of "j div k"] m(2) j l l2 by (simp add: sub_def batch_row_def nth)
  qed
  then show ?thesis using True split size assms(2) by auto
qed

end
