(* ===== verification/ReplaySamples.thy ===== *)
theory ReplaySamples imports ReplayRuns begin

text \<open>Concrete instances of the properties of replay memories: one-dimensional states, a capacity of three rows.\<close>

definition steady_draws :: draws where
  "steady_draws = \<lparr>dw_choice = (\<lambda>n k. [0..<k]), dw_draw = (\<lambda>n k. replicate k 0), dw_weighted = (\<lambda>ps k. replicate k 0)\<rparr>"

definition plain :: numpy_env where
  "plain = \<lparr>mc_pow = (\<lambda>x a. x), mc_draws = steady_draws, mc_depth = 1000\<rparr>"

lemma plain_ok: "numpy_ok plain"
  by (auto simp: numpy_ok_def plain_def steady_draws_def draws_ok_def set_replicate_conv_if)

definition rewarded :: "rat list \<Rightarrow> transition_batch" where
  "rewarded rs = \<lparr>tb_states = map (\<lambda>r. [r]) rs, tb_actions = map (\<lambda>r. [r]) rs, tb_rewards = rs,
     tb_next_states = map (\<lambda>r. [r]) rs, tb_terminals = map (\<lambda>_. False) rs, tb_truncated = map (\<lambda>_. False) rs,
     tb_returns = None, tb_advantages = None, tb_old_logps = None\<rparr>"

lemma rewarded_size [simp]: "batch_size (rewarded rs) = length rs"
  by (simp add: batch_size_def rewarded_def)

lemma rewarded_columns: "column_fits n (tb_returns (rewarded rs))" "column_fits n (tb_advantages (rewarded rs))"
    "column_fits n (tb_old_logps (rewarded rs))"
  by (simp_all add: rewarded_def column_fits_def)

lemma rewarded_fits: "rs \<noteq> [] \<Longrightarrow> length rs \<le> rm_capacity m \<Longrightarrow> rm_state_dim m = 1 \<Longrightarrow> rm_action_dim m = 1 \<Longrightarrow> batch_fits m (rewarded rs)"
  by (simp add: batch_fits_def Let_def) (simp add: rewarded_def match_rows_def list_all_iff)

definition window :: replay_memory where
  "window = fifo_replay_memory 3 1 1"

lemma window_ok: "memory_ok window"
  using fifo_new_ok [of 3 1 1] by (simp add: fifo_memory_ok_def window_def)

text \<open>Returns are given and read back, advantages are not and show what the rows held before.\<close>

theorem put_then_sample_witness:
  "\<exists>m' idx b'. memory_put plain ((rewarded [1, 2])\<lparr>tb_returns := Some [5, 6]\<rparr>) window = Inr m'
    \<and> sample_by_indexes idx m' = Inr b' \<and> batch_rows b' = batch_rows (rewarded [1, 2])
    \<and> tb_returns b' = Some [5, 6] \<and> tb_advantages b' = Some (map ((!) [0, 0, 0]) idx) \<and> rm_n_sample m' = 2"
proof -
  let ?b = "(rewarded [1, 2])\<lparr>tb_returns := Some [5, 6]\<rparr>"
  have b: "batch_size ?b = 2" "batch_rows ?b = batch_rows (rewarded [1, 2])"
    by (simp_all add: batch_size_def batch_rows_def batch_row_def rewarded_def)
  have "batch_fits window (rewarded [1, 2])"
    by (rule rewarded_fits) (simp_all add: window_def fifo_replay_memory_def new_replay_memory_def)
  then have fits: "batch_fits window ?b" by (simp add: batch_fits_def batch_size_def)
  have columns: "column_fits (batch_size ?b) (tb_returns ?b)" "column_fits (batch_size ?b) (tb_advantages ?b)"
    "column_fits (batch_size ?b) (tb_old_logps ?b)"
    unfolding b(1) by (simp_all add: column_fits_def rewarded_def)
  have w: "rm_returns window = [0, 0, 0]" "rm_advantages window = [0, 0, 0]" "rm_n_sample window = 0" "rm_capacity window = 3"
    by (simp_all add: window_def fifo_replay_memory_def new_replay_memory_def eval_nat_numeral)
  have opt: "tb_returns ?b = Some [5, 6]" "tb_advantages ?b = None" by (simp_all add: rewarded_def)
  from put_then_sample [OF window_ok plain_ok fits columns] obtain m' idx b' where
    "memory_put plain ?b window = Inr m'" "sample_by_indexes idx m' = Inr b'" "batch_rows b' = batch_rows ?b"
    "tb_returns b' = Some (column_read (tb_returns ?b) idx (rm_returns window))"
    "tb_advantages b' = Some (column_read (tb_advantages ?b) idx (rm_advantages window))"
    "rm_n_sample m' = min (rm_n_sample window + 2) (rm_capacity window)"
    unfolding b(1) by blast
  then show ?thesis
    unfolding b(2) w opt column_read_def by (intro exI [of _ m'] exI [of _ idx] exI [of _ b']) simp
qed

definition window1 :: replay_memory where
  "window1 = projr (memory_put plain (rewarded [1, 2]) window)"

definition window2 :: replay_memory where
  "window2 = projr (memory_put plain (rewarded [3]) window1)"

definition window3 :: replay_memory where
  "window3 = projr (memory_put plain (rewarded [4]) window2)"

lemma window_puts:
  "memory_put plain (rewarded [1, 2]) window = Inr window1" "memory_put plain (rewarded [3]) window1 = Inr window2"
  "memory_put plain (rewarded [4]) window2 = Inr window3"
proof -
  have r: "\<not> isl x \<Longrightarrow> x = Inr (projr x)" for x :: "'a + 'b" by (cases x) auto
  show "memory_put plain (rewarded [1, 2]) window = Inr window1" unfolding window1_def by (rule r) code_simp
  show "memory_put plain (rewarded [3]) window1 = Inr window2" unfolding window2_def by (rule r) code_simp
  show "memory_put plain (rewarded [4]) window2 = Inr window3" unfolding window3_def by (rule r) code_simp
qed

lemma window_drained: "drained plain 3 1 1 [] window"
  by (simp add: drained_def window_def)


theorem drained_fifo_repeats_witness:
  "\<exists>b m'. memory_sample plain None window = Inr (b, m') \<and> batch_rows b = replicate 3 (zero_row 1 1)"
  using drained_fifo_repeats [OF window_drained _ plain_ok, of None] by (simp add: keep_last_def)

theorem fifo_full_forgets_witness:
  "\<exists>b' m''. memory_sample plain None window3 = Inr (b', m'') \<and> batch_rows b' = batch_rows (rewarded [4])"
proof -
  have "foldE (memory_put plain) [rewarded [1, 2], rewarded [3]] (fifo_replay_memory 3 1 1) = Inr window2"
    using window_puts unfolding window_def by simp
  from fifo_full_forgets [OF this _ plain_ok _ window_puts(3), of None] show ?thesis by simp
qed

definition pool :: replay_memory where
  "pool = prioritized_replay_memory 3 1 1 1 1"

definition pool1 :: replay_memory where
  "pool1 = projr (memory_put plain (rewarded [1, 2]) pool)"

theorem samples_were_put_witness:
  "\<exists>b. memory_sample plain (Some 4) pool1 = Inr (b, pool1) \<and> batch_size b = 4
    \<and> set (batch_rows b) \<subseteq> set (batch_rows (rewarded [1, 2]))"
proof -
  have "\<not> isl (memory_put plain (rewarded [1, 2]) pool)" by code_simp
  then have "memory_put plain (rewarded [1, 2]) pool = Inr pool1"
    unfolding pool1_def by (cases "memory_put plain (rewarded [1, 2]) pool") auto
  then have "memory_run plain pool ([] @ [rewarded [1, 2]]) pool1" by (rule memory_run.put [OF memory_run.empty])
  from samples_were_put [OF _ this _ plain_ok, of 3 1 1 False 1 1 4] show ?thesis by (simp add: pool_def)
qed

theorem split_exact_witness:
  "(\<exists>bs. split_batch 2 (rewarded [1, 2, 3]) = Inr bs \<and> batch_row (bs ! 0) 1 = batch_row (rewarded [1, 2, 3]) 2)
   \<and> split_batch 4 (rewarded [1, 2, 3]) = Inl AssertionError"
proof -
  have c: "check_batch (rewarded [1, 2, 3]) = Inr (rewarded [1, 2, 3])"
    by (simp add: check_batch_def rewarded_def)
  from split_exact [OF c, of 2] obtain bs where "split_batch 2 (rewarded [1, 2, 3]) = Inr bs"
      "\<forall>j<3. batch_row (bs ! (j mod 2)) (j div 2) = batch_row (rewarded [1, 2, 3]) j" by auto
  then have "batch_row (bs ! 0) 1 = batch_row (rewarded [1, 2, 3]) 2" by (auto dest: spec [of _ 2])
  moreover have "split_batch 4 (rewarded [1, 2, 3]) = Inl AssertionError" using split_exact [OF c, of 4] by simp
  ultimately show ?thesis using \<open>split_batch 2 (rewarded [1, 2, 3]) = Inr bs\<close> by blast
qed

end
