(* ===== verification/EnvSampler.thy ===== *)
theory EnvSampler imports Complex_Main Prelude begin

text \<open>
  \<open>rl/rollout/env_sampler.py\<close>: choosing actions for agents by their policies, collecting experiences from an
  environment through a cache, and splitting experiences by agent and by trainer.

  Agents are of any linearly ordered type.  The environment and what a subclass of \<open>AbsEnvSampler\<close> provides
  (states, actions, rewards) are the record \<open>hooks\<close>.  Modes and states of policies, devices and files are not
  modelled.
\<close>

section \<open>Choosing actions\<close>

definition append_to :: "'k \<Rightarrow> 'v \<Rightarrow> ('k \<times> 'v list) list \<Rightarrow> ('k \<times> 'v list) list" where
  "append_to k v d = AList.update k ((case map_of d k of None \<Rightarrow> [] | Some vs \<Rightarrow> vs) @ [v]) d"

text \<open>\<open>get_actions\<close> is what the policies answer for a list of states.\<close>

definition choose_actions ::
  "('g \<times> string) list \<Rightarrow> (string \<Rightarrow> 's list \<Rightarrow> 'a list res) \<Rightarrow> ('g \<times> 's) list \<Rightarrow> ('g \<times> 'a) list res" where
  "choose_actions agent2policy get_actions state_by_agent =
     bindE (foldE (\<lambda>(agent, state) (states, agents).
             bindE (dict_get agent2policy agent) (\<lambda>policy.
               Inr (append_to policy state states, append_to policy agent agents)))
           state_by_agent ([], [])) (\<lambda>(states_by_policy, agents_by_policy).
     foldE (\<lambda>(policy, agents) actions.
         bindE (dict_get states_by_policy policy) (\<lambda>states.
         bindE (get_actions policy states) (\<lambda>chosen.
           Inr (fold (\<lambda>(g, a). AList.update g a) (zip agents chosen) actions))))
       agents_by_policy [])"

section \<open>Experiences\<close>

record ('g, 's, 'a) exp_element =
  ex_tick :: int
  ex_state :: "'s option"
  ex_agent_state :: "('g \<times> 's) list"
  ex_action :: "('g \<times> 'a) list"
  ex_reward :: "('g \<times> rat) list"
  ex_terminal :: "('g \<times> bool) list"
  ex_next_state :: "'s option"
  ex_next_agent_state :: "('g \<times> 's) list"
  ex_truncated :: bool

definition agent_names :: "('g :: linorder, 's, 'a, 'z) exp_element_scheme \<Rightarrow> 'g list" where
  "agent_names e = sort (map fst (ex_agent_state e))"

definition split_contents_by_agent :: "('g, 's, 'a) exp_element \<Rightarrow> ('g \<times> ('g, 's, 'a) exp_element) list res" where
  "split_contents_by_agent e =
     mapE (\<lambda>(agent, state).
       bindE (dict_get (ex_action e) agent) (\<lambda>action.
       bindE (dict_get (ex_reward e) agent) (\<lambda>reward.
       bindE (dict_get (ex_terminal e) agent) (\<lambda>terminal.
         Inr (agent, e\<lparr>ex_agent_state := [(agent, state)], ex_action := [(agent, action)], ex_reward := [(agent, reward)],
           ex_terminal := [(agent, terminal)],
           ex_next_agent_state := (case map_of (ex_next_agent_state e) agent of None \<Rightarrow> [] | Some x \<Rightarrow> [(agent, x)])\<rparr>)))))
       (ex_agent_state e)"

definition no_agents :: "('g, 's, 'a) exp_element \<Rightarrow> ('g, 's, 'a) exp_element" where
  "no_agents e = e\<lparr>ex_agent_state := [], ex_action := [], ex_reward := [], ex_terminal := [], ex_next_agent_state := []\<rparr>"

definition add_agent ::
  "('g, 's, 'a) exp_element \<Rightarrow> 'g \<Rightarrow> ('g, 's, 'a) exp_element \<Rightarrow> ('g, 's, 'a) exp_element res" where
  "add_agent e agent t =
     bindE (dict_get (ex_agent_state e) agent) (\<lambda>state.
     bindE (dict_get (ex_action e) agent) (\<lambda>action.
     bindE (dict_get (ex_reward e) agent) (\<lambda>reward.
     bindE (dict_get (ex_terminal e) agent) (\<lambda>terminal.
       Inr (t\<lparr>ex_agent_state := AList.update agent state (ex_agent_state t),
              ex_action := AList.update agent action (ex_action t),
              ex_reward := AList.update agent reward (ex_reward t),
              ex_terminal := AList.update agent terminal (ex_terminal t),
              ex_next_agent_state :=
                (case map_of (ex_next_agent_state e) agent of
                   None \<Rightarrow> ex_next_agent_state t | Some x \<Rightarrow> AList.update agent x (ex_next_agent_state t))\<rparr>)))))"

definition split_contents_by_trainer ::
  "('g \<times> string) list \<Rightarrow> ('g, 's, 'a) exp_element \<Rightarrow> (string \<times> ('g, 's, 'a) exp_element) list res" where
  "split_contents_by_trainer agent2trainer e =
     foldE (\<lambda>(agent, trainer) ret.
       if dict_mem agent (ex_agent_state e) then
         bindE (add_agent e agent (case map_of ret trainer of None \<Rightarrow> no_agents e | Some t \<Rightarrow> t)) (\<lambda>t.
           Inr (AList.update trainer t ret))
       else Inr ret) agent2trainer []"

record ('g, 's, 'a, 'ev, 'act) cache_element = "('g, 's, 'a) exp_element" +
  ca_event :: "'ev option"
  ca_env_action :: "('g \<times> 'act) list"

definition make_exp_element :: "('g, 's, 'a, 'ev, 'act) cache_element \<Rightarrow> ('g, 's, 'a) exp_element res" where
  "make_exp_element e =
     assertE (length (ex_terminal e) = length (ex_agent_state e) \<and> length (ex_agent_state e) = length (ex_action e))
       (assertE (length (ex_terminal e) = length (ex_next_agent_state e)
                 \<and> length (ex_next_agent_state e) = length (ex_reward e))
         (Inr (exp_element.truncate e)))"

section \<open>The sampler\<close>

record ('g, 's, 'a, 'ev, 'act, 'env, 'i) sampler =
  sa_learn_env :: 'env
  sa_test_env :: 'env
  sa_on_test :: bool
  sa_event :: "'ev option"
  sa_end_of_episode :: bool
  sa_state :: "'s option"
  sa_agent_state :: "('g \<times> 's) list"
  sa_transition_cache :: "('g, 's, 'a, 'ev, 'act) cache_element list"
  sa_agent_last_index :: "('g \<times> nat) list"
  sa_reward_eval_delay :: "nat option"
  sa_max_episode_length :: "nat option"
  sa_current_episode_length :: nat
  sa_info :: 'i
  sa_agent2policy :: "('g \<times> string) list"
  sa_rl_policies :: "string list"
  sa_trainable_policies :: "string list"
  sa_total_number_interactions :: nat

record ('g, 's, 'a, 'ev, 'act, 'env, 'i) hooks =
  hk_step :: "'act list option \<Rightarrow> 'env \<Rightarrow> ('ev option \<times> bool \<times> 'env) res"
  hk_reset :: "'env \<Rightarrow> 'env res"
  hk_tick :: "'env \<Rightarrow> int"
  hk_get_state :: "'env \<Rightarrow> 'ev option \<Rightarrow> int \<Rightarrow> ('s option \<times> ('g \<times> 's) list) res"
  hk_is_array :: "'s \<Rightarrow> bool"
  hk_choose :: "('g \<times> 's) list \<Rightarrow> ('g \<times> 'a) list res"
  hk_translate :: "('g \<times> 'a) list \<Rightarrow> 'ev option \<Rightarrow> ('g \<times> 'act) list res"
  hk_reward :: "'env \<Rightarrow> ('g \<times> 'act) list \<Rightarrow> 'ev option \<Rightarrow> int \<Rightarrow> ('g \<times> rat) list res"
  hk_post_step :: "('g, 's, 'a, 'ev, 'act) cache_element \<Rightarrow> 'i \<Rightarrow> 'i res"
  hk_post_eval_step :: "('g, 's, 'a, 'ev, 'act) cache_element \<Rightarrow> 'i \<Rightarrow> 'i res"
  hk_no_info :: 'i

definition sa_env :: "('g, 's, 'a, 'ev, 'act, 'env, 'i) sampler \<Rightarrow> 'env" where
  "sa_env s = (if sa_on_test s then sa_test_env s else sa_learn_env s)"

definition put_env :: "'env \<Rightarrow> ('g, 's, 'a, 'ev, 'act, 'env, 'i) sampler \<Rightarrow> ('g, 's, 'a, 'ev, 'act, 'env, 'i) sampler" where
  "put_env e s = (if sa_on_test s then s\<lparr>sa_test_env := e\<rparr> else s\<lparr>sa_learn_env := e\<rparr>)"

definition trainable :: "('g, 's, 'a, 'ev, 'act, 'env, 'i) sampler \<Rightarrow> 'g \<Rightarrow> bool" where
  "trainable s g = (case map_of (sa_agent2policy s) g of None \<Rightarrow> False | Some p \<Rightarrow> p \<in> set (sa_trainable_policies s))"

definition select_trainable_agents :: "('g, 's, 'a, 'ev, 'act, 'env, 'i) sampler \<Rightarrow> ('g \<times> 'v) list \<Rightarrow> ('g \<times> 'v) list" where
  "select_trainable_agents s d = filter (\<lambda>(g, v). trainable s g) d"

definition sa_truncated :: "('g, 's, 'a, 'ev, 'act, 'env, 'i) sampler \<Rightarrow> bool" where
  "sa_truncated s \<longleftrightarrow> sa_max_episode_length s = Some (sa_current_episode_length s)"

definition get_global_and_agent_state ::
  "('g, 's, 'a, 'ev, 'act, 'env, 'i) hooks \<Rightarrow> 'ev option \<Rightarrow> int \<Rightarrow> ('g, 's, 'a, 'ev, 'act, 'env, 'i) sampler
     \<Rightarrow> ('s option \<times> ('g \<times> 's) list) res" where
  "get_global_and_agent_state hk event tick s =
     bindE (hk_get_state hk (sa_env s) event tick) (\<lambda>(state, agents).
     bindE (mapE (\<lambda>(agent, x). bindE (dict_get (sa_agent2policy s) agent) (\<lambda>policy.
              if policy \<in> set (sa_rl_policies s) \<and> \<not> hk_is_array hk x then Inl ValueError else Inr ())) agents) (\<lambda>_.
       Inr (state, agents)))"

definition sampler_step ::
  "('g, 's, 'a, 'ev, 'act, 'env, 'i) hooks \<Rightarrow> 'act list option \<Rightarrow> ('g, 's, 'a, 'ev, 'act, 'env, 'i) sampler
     \<Rightarrow> ('g, 's, 'a, 'ev, 'act, 'env, 'i) sampler res" where
  "sampler_step hk actions s =
     bindE (hk_step hk actions (sa_env s)) (\<lambda>(event, done, env).
       let s = (put_env env s)\<lparr>sa_event := event, sa_end_of_episode := done\<rparr>
       in bindE (if done then Inr (None, []) else get_global_and_agent_state hk event (hk_tick hk env) s) (\<lambda>(state, agents).
            Inr (s\<lparr>sa_state := state, sa_agent_state := agents\<rparr>)))"

definition calc_reward ::
  "('g :: linorder, 's, 'a, 'ev, 'act, 'env, 'i) hooks \<Rightarrow> 'env \<Rightarrow> ('g, 's, 'a, 'ev, 'act) cache_element
     \<Rightarrow> ('g, 's, 'a, 'ev, 'act) cache_element res" where
  "calc_reward hk env e =
     bindE (hk_reward hk env (ca_env_action e) (ca_event e) (ex_tick e)) (\<lambda>rewards.
     bindE (mapE (\<lambda>agent. bindE (dict_get rewards agent) (\<lambda>r. Inr (agent, r))) (agent_names e)) (\<lambda>rewards.
       Inr (e\<lparr>ex_reward := rewards\<rparr>)))"

text \<open>What an element of the cache learns about an agent when the agent comes up again, or at the end.\<close>

definition close_agent ::
  "'g \<Rightarrow> bool \<Rightarrow> 's \<Rightarrow> ('g, 's, 'a, 'z) exp_element_scheme \<Rightarrow> ('g, 's, 'a, 'z) exp_element_scheme" where
  "close_agent agent terminal next e =
     e\<lparr>ex_terminal := AList.update agent terminal (ex_terminal e),
       ex_next_agent_state := AList.update agent next (ex_next_agent_state e)\<rparr>"

definition append_cache_element ::
  "('g :: linorder, 's, 'a, 'ev, 'act) cache_element \<Rightarrow> ('g, 's, 'a, 'ev, 'act, 'env, 'i) sampler
     \<Rightarrow> ('g, 's, 'a, 'ev, 'act, 'env, 'i) sampler res" where
  "append_cache_element x s =
     (let cache = sa_transition_cache s @ [x]; cur_index = length (sa_transition_cache s)
      in bindE (foldE (\<lambda>agent (cache, last_index).
             case map_of last_index agent of
               None \<Rightarrow> Inr (cache, AList.update agent cur_index last_index)
             | Some i \<Rightarrow>
                 bindE (py_get cache (int i)) (\<lambda>e.
                 bindE (dict_get (ex_agent_state x) agent) (\<lambda>state.
                   Inr (cache[i := close_agent agent False state e], AList.update agent cur_index last_index))))
           (agent_names x) (cache, sa_agent_last_index s)) (\<lambda>(cache, last_index).
           Inr (s\<lparr>sa_transition_cache := cache, sa_agent_last_index := last_index\<rparr>)))"

definition append_nothing ::
  "('g, 's, 'a, 'ev, 'act, 'env, 'i) sampler \<Rightarrow> ('g, 's, 'a, 'ev, 'act, 'env, 'i) sampler res" where
  "append_nothing s =
     bindE (foldE (\<lambda>(agent, i) cache.
         bindE (py_get cache (int i)) (\<lambda>e.
         bindE (dict_get (ex_agent_state e) agent) (\<lambda>state.
           Inr (cache[i := close_agent agent (sa_end_of_episode s) state e]))))
       (sa_agent_last_index s) (sa_transition_cache s)) (\<lambda>cache. Inr (s\<lparr>sa_transition_cache := cache\<rparr>))"

definition sampler_reset ::
  "('g, 's, 'a, 'ev, 'act, 'env, 'i) hooks \<Rightarrow> ('g, 's, 'a, 'ev, 'act, 'env, 'i) sampler
     \<Rightarrow> ('g, 's, 'a, 'ev, 'act, 'env, 'i) sampler res" where
  "sampler_reset hk s =
     bindE (hk_reset hk (sa_env s)) (\<lambda>env.
       sampler_step hk None
         ((put_env env s)\<lparr>sa_current_episode_length := 0, sa_info := hk_no_info hk, sa_transition_cache := [],
            sa_agent_last_index := []\<rparr>))"

text \<open>The reward of an element, and what the subclass records of it: \<open>post\<close> is \<open>_post_step\<close> or \<open>_post_eval_step\<close>.\<close>

definition evaluate ::
  "('g :: linorder, 's, 'a, 'ev, 'act, 'env, 'i) hooks \<Rightarrow> (('g, 's, 'a, 'ev, 'act) cache_element \<Rightarrow> 'i \<Rightarrow> 'i res)
     \<Rightarrow> ('g, 's, 'a, 'ev, 'act) cache_element \<Rightarrow> ('g, 's, 'a, 'ev, 'act, 'env, 'i) sampler
     \<Rightarrow> (('g, 's, 'a, 'ev, 'act) cache_element \<times> ('g, 's, 'a, 'ev, 'act, 'env, 'i) sampler) res" where
  "evaluate hk post e s =
     bindE (calc_reward hk (sa_env s) e) (\<lambda>e. bindE (post e (sa_info s)) (\<lambda>i. Inr (e, s\<lparr>sa_info := i\<rparr>)))"

definition count_interaction ::
  "bool \<Rightarrow> ('g, 's, 'a, 'ev, 'act, 'env, 'i) sampler \<Rightarrow> ('g, 's, 'a, 'ev, 'act, 'env, 'i) sampler" where
  "count_interaction learning s =
     (if learning then s\<lparr>sa_total_number_interactions := sa_total_number_interactions s + 1,
                         sa_current_episode_length := sa_current_episode_length s + 1\<rparr> else s)"

definition new_element ::
  "('g, 's, 'a, 'ev, 'act, 'env, 'i) hooks \<Rightarrow> bool \<Rightarrow> ('g, 's, 'a, 'ev, 'act, 'env, 'i) sampler
     \<Rightarrow> ('g \<times> 'a) list \<Rightarrow> ('g \<times> 'act) list \<Rightarrow> ('g, 's, 'a, 'ev, 'act) cache_element" where
  "new_element hk learning s actions env_actions =
     \<lparr>ex_tick = hk_tick hk (sa_env s), ex_state = sa_state s,
      ex_agent_state = select_trainable_agents s (sa_agent_state s),
      ex_action = select_trainable_agents s actions, ex_reward = [], ex_terminal = [], ex_next_state = None,
      ex_next_agent_state = [], ex_truncated = learning \<and> sa_truncated s, ca_event = sa_event s,
      ca_env_action = select_trainable_agents s env_actions\<rparr>"

text \<open>One interaction with the environment, while learning and while evaluating.\<close>

definition interact ::
  "('g :: linorder, 's, 'a, 'ev, 'act, 'env, 'i) hooks
     \<Rightarrow> (('g, 's, 'a, 'ev, 'act) cache_element \<Rightarrow> 'i \<Rightarrow> 'i res) \<Rightarrow> bool \<Rightarrow> ('g, 's, 'a, 'ev, 'act, 'env, 'i) sampler
     \<Rightarrow> ('g, 's, 'a, 'ev, 'act, 'env, 'i) sampler res" where
  "interact hk post learning s =
     bindE (hk_choose hk (sa_agent_state s)) (\<lambda>actions.
     bindE (hk_translate hk actions (sa_event s)) (\<lambda>env_actions.
       let s = count_interaction learning s; e = new_element hk learning s actions env_actions
       in bindE (sampler_step hk (Some (map snd env_actions)) s) (\<lambda>s.
            let e = e\<lparr>ex_next_state := sa_state s\<rparr>
            in bindE (if sa_reward_eval_delay s = None then evaluate hk post e s else Inr (e, s)) (\<lambda>(e, s).
                 append_cache_element e s))))"

text \<open>The inner loop; without an end it does not return.\<close>

partial_function (option) collect ::
  "('g :: linorder, 's, 'a, 'ev, 'act, 'env, 'i) hooks \<Rightarrow> nat option \<Rightarrow> ('g, 's, 'a, 'ev, 'act, 'env, 'i) sampler
     \<Rightarrow> (nat option \<times> ('g, 's, 'a, 'ev, 'act, 'env, 'i) sampler) res option" where
  "collect hk steps s =
     (if sa_end_of_episode s \<or> sa_truncated s \<or> steps = Some 0 then Some (Inr (steps, s))
      else case interact hk (hk_post_step hk) True s of
             Inl err \<Rightarrow> Some (Inl err)
           | Inr s \<Rightarrow> collect hk (map_option (\<lambda>n. n - 1) steps) s)"

text \<open>Taking the elements whose rewards are due out of the cache.\<close>

definition tick_bound :: "('g, 's, 'a, 'ev, 'act, 'env, 'i) hooks \<Rightarrow> ('g, 's, 'a, 'ev, 'act, 'env, 'i) sampler \<Rightarrow> int" where
  "tick_bound hk s =
     hk_tick hk (sa_env s) - (case sa_reward_eval_delay s of None \<Rightarrow> 0 | Some d \<Rightarrow> int d)"

definition settle ::
  "('g :: linorder, 's, 'a, 'ev, 'act, 'env, 'i) hooks \<Rightarrow> (('g, 's, 'a, 'ev, 'act) cache_element \<Rightarrow> 'i \<Rightarrow> 'i res)
     \<Rightarrow> ('g, 's, 'a, 'ev, 'act) cache_element \<Rightarrow> ('g, 's, 'a, 'ev, 'act, 'env, 'i) sampler
     \<Rightarrow> (('g, 's, 'a, 'ev, 'act) cache_element \<times> ('g, 's, 'a, 'ev, 'act, 'env, 'i) sampler) res" where
  "settle hk post e s =
     (if sa_reward_eval_delay s \<noteq> None then evaluate hk post e s else Inr (e, s))"

definition pop_due ::
  "('g :: linorder, 's, 'a, 'ev, 'act, 'env, 'i) hooks \<Rightarrow> (('g, 's, 'a, 'ev, 'act) cache_element \<Rightarrow> 'i \<Rightarrow> 'i res)
     \<Rightarrow> bool \<Rightarrow> ('g, 's, 'a, 'ev, 'act, 'env, 'i) sampler
     \<Rightarrow> (('g, 's, 'a) exp_element list \<times> ('g, 's, 'a, 'ev, 'act, 'env, 'i) sampler) res" where
  "pop_due hk post learning s =
     (let bound = tick_bound hk s; due = takeWhile (\<lambda>e. ex_tick e \<le> bound) (sa_transition_cache s)
      in bindE (foldE (\<lambda>e (exps, s).
             bindE (settle hk post e s) (\<lambda>(e, s).
               if learning then bindE (make_exp_element e) (\<lambda>x. Inr (exps @ [x], s)) else Inr (exps, s)))
           due ([], s)) (\<lambda>(exps, s).
           Inr (exps, s\<lparr>sa_transition_cache := drop (length due) (sa_transition_cache s)\<rparr>)))"

definition shift_last_index :: "nat \<Rightarrow> ('g \<times> nat) list \<Rightarrow> ('g \<times> nat) list" where
  "shift_last_index n d = map (\<lambda>(k, v). (k, v - n)) (filter (\<lambda>(k, v). n \<le> v) d)"

partial_function (option) sample_loop ::
  "('g :: linorder, 's, 'a, 'ev, 'act, 'env, 'i) hooks \<Rightarrow> nat option \<Rightarrow> ('g, 's, 'a) exp_element list
     \<Rightarrow> ('g, 's, 'a, 'ev, 'act, 'env, 'i) sampler
     \<Rightarrow> (('g, 's, 'a) exp_element list \<times> ('g, 's, 'a, 'ev, 'act, 'env, 'i) sampler) res option" where
  "sample_loop hk steps acc s =
     (if (steps = None \<and> (sa_end_of_episode s \<or> sa_truncated s)) \<or> steps = Some 0 then Some (Inr (acc, s))
      else case (if sa_end_of_episode s \<or> sa_truncated s then sampler_reset hk s else Inr s) of
             Inl err \<Rightarrow> Some (Inl err)
           | Inr s \<Rightarrow>
               (case collect hk steps s of
                  None \<Rightarrow> None
                | Some (Inl err) \<Rightarrow> Some (Inl err)
                | Some (Inr (steps, s)) \<Rightarrow>
                    (case bindE (append_nothing s) (pop_due hk (hk_post_step hk) True) of
                       Inl err \<Rightarrow> Some (Inl err)
                     | Inr (experiences, s) \<Rightarrow>
                         sample_loop hk steps (acc @ experiences)
                           (s\<lparr>sa_agent_last_index := shift_last_index (length experiences) (sa_agent_last_index s)\<rparr>))))"

definition sampler_sample ::
  "('g :: linorder, 's, 'a, 'ev, 'act, 'env, 'i) hooks \<Rightarrow> nat option \<Rightarrow> ('g, 's, 'a, 'ev, 'act, 'env, 'i) sampler
     \<Rightarrow> (('g, 's, 'a) exp_element list \<times> ('g, 's, 'a, 'ev, 'act, 'env, 'i) sampler) res option" where
  "sampler_sample hk num_steps s =
     (case (if sa_end_of_episode s then sampler_reset hk (s\<lparr>sa_on_test := False\<rparr>) else Inr (s\<lparr>sa_on_test := False\<rparr>)) of
        Inl err \<Rightarrow> Some (Inl err)
      | Inr s \<Rightarrow> sample_loop hk num_steps [] s)"

section \<open>Evaluation\<close>

partial_function (option) eval_loop ::
  "('g :: linorder, 's, 'a, 'ev, 'act, 'env, 'i) hooks \<Rightarrow> ('g, 's, 'a, 'ev, 'act, 'env, 'i) sampler
     \<Rightarrow> ('g, 's, 'a, 'ev, 'act, 'env, 'i) sampler res option" where
  "eval_loop hk s =
     (if sa_end_of_episode s then Some (Inr s)
      else case interact hk (hk_post_eval_step hk) False s of
             Inl err \<Rightarrow> Some (Inl err)
           | Inr s \<Rightarrow> eval_loop hk s)"

fun sampler_eval ::
  "('g :: linorder, 's, 'a, 'ev, 'act, 'env, 'i) hooks \<Rightarrow> nat \<Rightarrow> ('g, 's, 'a, 'ev, 'act, 'env, 'i) sampler
     \<Rightarrow> ('i list \<times> ('g, 's, 'a, 'ev, 'act, 'env, 'i) sampler) res option" where
  "sampler_eval hk 0 s = Some (Inr ([], s\<lparr>sa_on_test := True\<rparr>))"
| "sampler_eval hk (Suc episodes) s =
     (case sampler_reset hk (s\<lparr>sa_on_test := True\<rparr>) of
        Inl err \<Rightarrow> Some (Inl err)
      | Inr s \<Rightarrow>
          (case eval_loop hk s of
             None \<Rightarrow> None
           | Some (Inl err) \<Rightarrow> Some (Inl err)
           | Some (Inr s) \<Rightarrow>
               (case bindE (append_nothing s) (pop_due hk (hk_post_eval_step hk) False) of
                  Inl err \<Rightarrow> Some (Inl err)
                | Inr (_, s) \<Rightarrow>
                    map_option (\<lambda>r. bindE r (\<lambda>(infos, t). Inr (sa_info s # infos, t))) (sampler_eval hk episodes s))))"

end
