(* ===== verification/EnvSamplerProps.thy ===== *)
theory EnvSamplerProps imports EnvSampler begin

text \<open>
  What choosing actions and splitting experiences do, and the links between the elements of the cache.
\<close>

section \<open>Choosing actions is choosing for every agent by its own policy\<close>

lemma append_to_map_of:
  "map_of (append_to k v d) k' = (if k' = k then Some ((case map_of d k of None \<Rightarrow> [] | Some vs \<Rightarrow> vs) @ [v]) else map_of d k')"
  by (simp add: append_to_def)

lemma append_to_keys: "fst ` set (append_to k v d) = insert k (fst ` set d)"
  by (simp add: append_to_def dom_update)

lemma append_to_distinct: "distinct (map fst d) \<Longrightarrow> distinct (map fst (append_to k v d))"
  by (simp add: append_to_def distinct_update)

lemma grouped_map_of:
  "map_of (fold (\<lambda>x. append_to (k x) (v x)) xs d) p =
     (let group = filter (\<lambda>x. k x = p) xs
      in if group = [] then map_of d p else Some ((case map_of d p of None \<Rightarrow> [] | Some vs \<Rightarrow> vs) @ map v group))"
  by (induction xs arbitrary: d) (simp_all add: append_to_map_of Let_def)

lemma grouped_keys: "fst ` set (fold (\<lambda>x. append_to (k x) (v x)) xs d) = fst ` set d \<union> k ` set xs"
  by (induction xs arbitrary: d) (auto simp: append_to_keys)

lemma grouped_distinct: "distinct (map fst d) \<Longrightarrow> distinct (map fst (fold (\<lambda>x. append_to (k x) (v x)) xs d))"
  by (induction xs arbitrary: d) (auto simp: append_to_distinct)

text \<open>The first loop of \<open>_choose_actions_impl\<close> groups states and agents by policy.\<close>

lemma grouping_loop:
  assumes "\<And>g x. (g, x) \<in> set xs \<Longrightarrow> map_of a2p g = Some (pol g)"
  shows "foldE (\<lambda>(agent, state) (states, agents).
            bindE (dict_get a2p agent) (\<lambda>policy.
              Inr (append_to policy state states, append_to policy agent agents))) xs (ss, gs) =
         Inr (fold (\<lambda>x. append_to (pol (fst x)) (snd x)) xs ss, fold (\<lambda>x. append_to (pol (fst x)) (fst x)) xs gs)"
  using assms
proof (induction xs arbitrary: ss gs)
  case Nil
  then show ?case by simp
next
  case (Cons x xs)
  obtain g y where x: "x = (g, y)" by force
  have step: "dict_get a2p g = Inr (pol g)" using Cons.prems [of g y] x by (simp add: dict_get_def)
  have rest: "map_of a2p g' = Some (pol g')" if "(g', x') \<in> set xs" for g' x' using Cons.prems [of g' x'] that by simp
  show ?case by (simp add: x step Cons.IH [OF rest])
qed

lemma fold_update_map_of:
  "map_of (fold (\<lambda>(k, v). AList.update k v) xs d) = map_of d ++ map_of (rev xs)"
  by (induction xs arbitrary: d) (auto simp: fun_eq_iff map_add_def split: option.splits)

lemma answering_loop:
  assumes "\<And>p gs. (p, gs) \<in> set groups \<Longrightarrow>
             \<exists>states. map_of ss p = Some states \<and> get_actions p states = Inr (map (f p) states) \<and> zip gs (map (f p) states) = ans p gs"
  shows "foldE (\<lambda>(policy, agents) actions.
            bindE (dict_get ss policy) (\<lambda>states. bindE (get_actions policy states) (\<lambda>chosen.
              Inr (fold (\<lambda>(g, a). AList.update g a) (zip agents chosen) actions)))) groups d =
         Inr (fold (\<lambda>(g, a). AList.update g a) (concat (map (\<lambda>(p, gs). ans p gs) groups)) d)"
  using assms
proof (induction groups arbitrary: d)
  case Nil
  then show ?case by simp
next
  case (Cons x groups)
  obtain p gs where x: "x = (p, gs)" by force
  obtain states where "map_of ss p = Some states" "get_actions p states = Inr (map (f p) states)"
    "zip gs (map (f p) states) = ans p gs" using Cons.prems x by force
  with Cons.IH Cons.prems show ?case by (simp add: x dict_get_def)
qed

lemma zip_answers: "zip (map fst xs) (map (h \<circ> snd) xs) = map (\<lambda>(g, x). (g, h x)) xs"
  by (induction xs) auto


lemma answers_mem:
  "(g, a) \<in> set (concat (map (\<lambda>(p, gs). map (\<lambda>(g, x). (g, f p x)) (filter (\<lambda>x. pol (fst x) = p) xs)) groups)) \<longleftrightarrow>
     (\<exists>x. (g, x) \<in> set xs \<and> pol g \<in> fst ` set groups \<and> a = f (pol g) x)"
  by (force simp: image_iff)

lemma answers_distinct:
  assumes "distinct (map fst groups)" and "distinct (map fst xs)"
  shows "distinct (map fst (concat (map (\<lambda>(p, gs). map (\<lambda>(g, x). (g, f p x)) (filter (\<lambda>x. pol (fst x) = p) xs)) groups)))"
  using assms(1)
proof (induction groups)
  case Nil
  then show ?case by simp
next
  case (Cons y groups)
  let ?A = "\<lambda>p. map (\<lambda>(g, x). (g, f p x)) (filter (\<lambda>x. pol (fst x) = p) xs)"
  obtain p gs where y: "y = (p, gs)" by force
  have "map fst (?A p) = map fst (filter (\<lambda>x. pol (fst x) = p) xs)" by simp
  then have head: "distinct (map fst (?A p))" using distinct_map_filter [OF assms(2)] by metis
  have IH: "distinct (map fst (concat (map (\<lambda>(p, gs). ?A p) groups)))" using Cons by simp
  have apart: "set (map fst (?A p)) \<inter> set (map fst (concat (map (\<lambda>(p, gs). ?A p) groups))) = {}"
    using Cons.prems by (force simp: y)
  show ?case using head IH apart by (simp only: y list.map(2) prod.case concat.simps(2) map_append distinct_append)
qed

lemma map_of_rev_distinct: "distinct (map fst xs) \<Longrightarrow> map_of (rev xs) = map_of xs"
  by (rule map_of_inject_set [THEN iffD2]) (simp_all flip: rev_map)

text \<open>C33: Choosing actions in batches by policy is choosing them one by one: each agent gets
  the action its own policy gives for its own state, whatever the order of the agents.\<close>

theorem choose_actions_by_policy:
  assumes "distinct (map fst states)" and "\<forall>g\<in>fst ` set states. dict_mem g a2p"
    and "\<forall>p xs. get_actions p xs = Inr (map (f p) xs)"
  shows "\<exists>actions. choose_actions a2p get_actions states = Inr actions \<and>
           (\<forall>g. map_of actions g = map_option (f (the (map_of a2p g))) (map_of states g))"
proof -
  define pol where "pol g = the (map_of a2p g)" for g
  have pol: "map_of a2p g = Some (pol g)" if "(g, x) \<in> set states" for g x
    using assms(2) that by (force simp: dict_mem_map_of pol_def)
  define ss where "ss = fold (\<lambda>x. append_to (pol (fst x)) (snd x)) states []"
  define gs where "gs = fold (\<lambda>x. append_to (pol (fst x)) (fst x)) states []"
  let ?ans = "\<lambda>(p, gs :: 'a list). map (\<lambda>(g, x). (g, f p x)) (filter (\<lambda>x. pol (fst x) = p) states)"
  have keys: "distinct (map fst gs)" "fst ` set gs = (\<lambda>x. pol (fst x)) ` set states"
    by (simp_all add: gs_def grouped_distinct grouped_keys)
  have group: "map_of ss p = Some (map snd (filter (\<lambda>x. pol (fst x) = p) states)) \<and>
      zip g (map (f p) (map snd (filter (\<lambda>x. pol (fst x) = p) states))) = ?ans (p, g)" if "(p, g) \<in> set gs" for p g
  proof -
    have "map_of gs p = Some g" using that keys(1) by simp
    then have "filter (\<lambda>x. pol (fst x) = p) states \<noteq> []" "g = map fst (filter (\<lambda>x. pol (fst x) = p) states)"
      by (auto simp: gs_def grouped_map_of Let_def split: if_splits)
    then show ?thesis by (simp add: ss_def grouped_map_of Let_def zip_answers)
  qed
  define acts where "acts = concat (map ?ans gs)"
  have run: "choose_actions a2p get_actions states = Inr (fold (\<lambda>(g, a). AList.update g a) acts [])"
    using answering_loop [of gs ss get_actions f "curry ?ans" "[]"] group assms(3)
    by (force simp: choose_actions_def grouping_loop [OF pol] simp flip: ss_def gs_def acts_def)
  have d: "distinct (map fst acts)" unfolding acts_def by (rule answers_distinct [OF keys(1) assms(1)])
  have mem: "(g, a) \<in> set acts \<longleftrightarrow> (\<exists>x. (g, x) \<in> set states \<and> a = f (pol g) x)" for g a
    unfolding acts_def answers_mem keys(2) by force
  have "map_of (rev acts) g = map_option (f (pol g)) (map_of states g)" for g
  proof (cases "map_of states g")
    case None
    then have "g \<notin> fst ` set acts" using mem by (force simp: map_of_eq_None_iff)
    then have "map_of acts g = None" by (simp add: map_of_eq_None_iff)
    with None d show ?thesis by (simp add: map_of_rev_distinct)
  next
    case (Some x)
    then have "(g, f (pol g) x) \<in> set acts" using mem map_of_SomeD by force
    with Some d show ?thesis by (simp add: map_of_rev_distinct)
  qed
  then show ?thesis using run by (simp add: fold_update_map_of pol_def)
qed

end
