(* ===== verification/EnvSamplerCache.thy ===== *)
theory EnvSamplerCache imports EnvSampler begin

text \<open>
  The cache of transitions: how an element is linked to the next element its agents come up in, and the invariant of
  the cache under interactions, flushes and removals.
\<close>

section \<open>Closing agents\<close>

text \<open>Both branches of \<open>_append_cache_element\<close> close agents of elements; a closing names agent, index, flag and state.\<close>

definition close_all ::
  "('g \<times> nat \<times> bool \<times> 's) list \<Rightarrow> ('g, 's, 'a, 'z) exp_element_scheme list \<Rightarrow> ('g, 's, 'a, 'z) exp_element_scheme list" where
  "close_all cs cache = fold (\<lambda>(g, i, t, next) c. c[i := close_agent g t next (c ! i)]) cs cache"

definition core :: "('g, 's, 'a, 'z) exp_element_scheme \<Rightarrow> ('g, 's, 'a, 'z) exp_element_scheme" where
  "core e = e\<lparr>ex_terminal := [], ex_next_agent_state := []\<rparr>"

lemma close_agent_core: "core (close_agent g t next e) = core e"
  by (simp add: core_def close_agent_def)

lemma core_eqD:
  assumes "core e = core e'"
  shows "ex_agent_state e = ex_agent_state e' \<and> ex_action e = ex_action e' \<and> ex_reward e = ex_reward e'
           \<and> ex_tick e = ex_tick e'"
proof -
  have "ex_agent_state (core d) = ex_agent_state d \<and> ex_action (core d) = ex_action d \<and> ex_reward (core d) = ex_reward d
          \<and> ex_tick (core d) = ex_tick d" for d :: "('a, 'b, 'c, 'd) exp_element_scheme"
    by (simp add: core_def)
  then show ?thesis using assms by metis
qed

lemma close_all_Nil [simp]: "close_all [] cache = cache"
  by (simp add: close_all_def)

lemma close_all_Cons: "close_all ((g, i, t, next) # cs) cache = close_all cs (cache[i := close_agent g t next (cache ! i)])"
  by (simp add: close_all_def)

lemma close_all_length [simp]: "length (close_all cs cache) = length cache"
  by (induction cs arbitrary: cache) (auto simp: close_all_Cons)

lemma close_all_core: "map core (close_all cs cache) = map core cache"
proof (induction cs arbitrary: cache)
  case Nil
  then show ?case by simp
next
  case (Cons c cs)
  obtain g i t x where c: "c = (g, i, t, x)" by (metis prod_cases4)
  have "map core (cache[i := close_agent g t x (cache ! i)]) = map core cache"
    by (rule map_update_at) (rule close_agent_core)
  then show ?case using Cons by (simp add: c close_all_Cons)
qed

lemma closed_agents: "ex_agent_state (cache[i := close_agent g t x (cache ! i)] ! j) = ex_agent_state (cache ! j)"
  by (cases "i < length cache"; cases "j = i") (auto simp: close_agent_def list_update_beyond)

text \<open>A field of an element that a list of closings leaves alone, and one it sets.\<close>

lemma close_all_other:
  assumes "\<And>t x. (g, i, t, x) \<notin> set cs"
  shows "map_of (ex_terminal (close_all cs cache ! i)) g = map_of (ex_terminal (cache ! i)) g
         \<and> map_of (ex_next_agent_state (close_all cs cache ! i)) g = map_of (ex_next_agent_state (cache ! i)) g"
  using assms
proof (induction cs arbitrary: cache)
  case Nil
  then show ?case by simp
next
  case (Cons c cs)
  obtain h j t x where c: "c = (h, j, t, x)" by (metis prod_cases4)
  have "h \<noteq> g \<or> j \<noteq> i" using Cons.prems [of t x] c by auto
  then have "map_of (ex_terminal (cache[j := close_agent h t x (cache ! j)] ! i)) g = map_of (ex_terminal (cache ! i)) g
      \<and> map_of (ex_next_agent_state (cache[j := close_agent h t x (cache ! j)] ! i)) g = map_of (ex_next_agent_state (cache ! i)) g"
    by (cases "j < length cache"; cases "j = i") (auto simp: close_agent_def list_update_beyond)
  moreover have "(g, i, t, x) \<notin> set cs" for t x using Cons.prems [of t x] by simp
  ultimately show ?case using Cons.IH by (simp add: c close_all_Cons)
qed

lemma close_all_set:
  assumes "(g, i, t, x) \<in> set cs" and "distinct (map fst cs)" and "i < length cache"
  shows "map_of (ex_terminal (close_all cs cache ! i)) g = Some t
         \<and> map_of (ex_next_agent_state (close_all cs cache ! i)) g = Some x"
  using assms
proof (induction cs arbitrary: cache)
  case Nil
  then show ?case by simp
next
  case (Cons c cs)
  obtain h j u y where c: "c = (h, j, u, y)" by (metis prod_cases4)
  show ?case
  proof (cases "(g, i, t, x) \<in> set cs")
    case True
    then show ?thesis using Cons by (simp add: c close_all_Cons)
  next
    case False
    then have "c = (g, i, t, x)" using Cons.prems(1) by auto
    moreover have "(g, i', t', x') \<notin> set cs" for i' t' x'
      using Cons.prems(2) calculation by (force simp: image_iff)
    ultimately have "map_of (ex_terminal (close_all (c # cs) cache ! i)) g
        = map_of (ex_terminal (cache[i := close_agent g t x (cache ! i)] ! i)) g
      \<and> map_of (ex_next_agent_state (close_all (c # cs) cache ! i)) g
        = map_of (ex_next_agent_state (cache[i := close_agent g t x (cache ! i)] ! i)) g"
      using close_all_other [of g i cs] by (simp add: close_all_Cons)
    then show ?thesis using Cons.prems(3) by (simp add: close_agent_def)
  qed
qed

text \<open>Closings keep the fields duplicate free.\<close>

definition closed_keys :: "('g, 's, 'a, 'z) exp_element_scheme \<Rightarrow> bool" where
  "closed_keys e \<longleftrightarrow> distinct (map fst (ex_agent_state e)) \<and> distinct (map fst (ex_terminal e))
     \<and> distinct (map fst (ex_next_agent_state e))
     \<and> fst ` set (ex_terminal e) \<subseteq> fst ` set (ex_agent_state e)
     \<and> fst ` set (ex_next_agent_state e) \<subseteq> fst ` set (ex_agent_state e)"

lemma closed_keys_reward [simp]: "closed_keys (e\<lparr>ex_reward := r\<rparr>) = closed_keys e"
  by (simp add: closed_keys_def)

lemma close_agent_keys: "closed_keys e \<Longrightarrow> dict_mem g (ex_agent_state e) \<Longrightarrow> closed_keys (close_agent g t x e)"
  by (auto simp: closed_keys_def close_agent_def dict_mem_map_of dom_update distinct_update map_of_eq_None_iff)

lemma close_all_keys:
  assumes "list_all closed_keys cache"
    and "\<And>g i t x. (g, i, t, x) \<in> set cs \<Longrightarrow> dict_mem g (ex_agent_state (cache ! i))"
  shows "list_all closed_keys (close_all cs cache)"
  using assms
proof (induction cs arbitrary: cache)
  case Nil
  then show ?case by simp
next
  case (Cons c cs)
  obtain g i t x where c: "c = (g, i, t, x)" by (metis prod_cases4)
  have mem: "dict_mem g (ex_agent_state (cache ! i))" using Cons.prems(2) [of g i t x] c by simp
  have "list_all closed_keys (cache[i := close_agent g t x (cache ! i)])"
    using Cons.prems(1) mem by (intro list_all_update) (auto simp: list_all_length close_agent_keys)
  moreover have "dict_mem h (ex_agent_state (cache[i := close_agent g t x (cache ! i)] ! j))"
    if "(h, j, u, y) \<in> set cs" for h j u y
    using Cons.prems(2) [of h j u y] that
    by (simp add: closed_agents)
  ultimately show ?case using Cons.IH by (simp add: c close_all_Cons)
qed

section \<open>The loops of \<open>_append_cache_element\<close>\<close>

definition links_of :: "('g \<times> nat) list \<Rightarrow> ('g, 's, 'a, 'z) exp_element_scheme \<Rightarrow> 'g list \<Rightarrow> ('g \<times> nat \<times> bool \<times> 's) list" where
  "links_of last_index x gs =
     concat (map (\<lambda>g. case map_of last_index g of
                        None \<Rightarrow> []
                      | Some i \<Rightarrow> [(g, i, False, the (map_of (ex_agent_state x) g))]) gs)"

lemma links_of_mem:
  "(g, i, t, y) \<in> set (links_of last_index x gs) \<longleftrightarrow>
     g \<in> set gs \<and> map_of last_index g = Some i \<and> \<not> t \<and> y = the (map_of (ex_agent_state x) g)"
  by (auto simp: links_of_def split: option.splits)

lemma links_of_distinct: "distinct gs \<Longrightarrow> distinct (map fst (links_of last_index x gs))"
proof (induction gs)
  case Nil
  then show ?case by (simp add: links_of_def)
next
  case (Cons g gs)
  have "g \<notin> fst ` set (links_of last_index x gs)" using Cons.prems by (auto simp: links_of_mem)
  with Cons show ?case by (simp add: links_of_def split: option.splits)
qed

lemma link_loop:
  assumes "distinct gs" and "\<forall>g\<in>set gs. dict_mem g (ex_agent_state x)"
    and "\<forall>g\<in>set gs. \<forall>i. map_of last_index g = Some i \<longrightarrow> i < length cache"
  shows "foldE (\<lambda>agent (cache, last_index).
             case map_of last_index agent of
               None \<Rightarrow> Inr (cache, AList.update agent n last_index)
             | Some i \<Rightarrow>
                 bindE (py_get cache (int i)) (\<lambda>e.
                 bindE (dict_get (ex_agent_state x) agent) (\<lambda>state.
                   Inr (cache[i := close_agent agent False state e], AList.update agent n last_index))))
           gs (cache, last_index)
         = Inr (close_all (links_of last_index x gs) cache, fold (\<lambda>g. AList.update g n) gs last_index)"
  using assms
proof (induction gs arbitrary: cache last_index)
  case Nil
  then show ?case by (simp add: links_of_def)
next
  case (Cons g gs)
  have same: "links_of (AList.update g n last_index) x gs = links_of last_index x gs"
    unfolding links_of_def using Cons.prems(1) by (intro arg_cong [where f = concat] map_cong) auto
  obtain st where st: "map_of (ex_agent_state x) g = Some st" using Cons.prems(2) by (auto simp: dict_mem_map_of)
  show ?case
  proof (cases "map_of last_index g")
    case None
    have "links_of last_index x (g # gs) = links_of last_index x gs" by (simp add: links_of_def None)
    then show ?thesis using Cons by (simp add: None same)
  next
    case (Some i)
    have links: "links_of last_index x (g # gs) = (g, i, False, st) # links_of last_index x gs"
      by (simp add: links_of_def Some st)
    have i: "i < length cache" using Cons.prems(3) Some by simp
    have step: "py_get cache (int i) = Inr (cache ! i)" "dict_get (ex_agent_state x) g = Inr st"
      using i st by (simp_all add: py_get_nonneg dict_get_def)
    show ?thesis using Cons by (simp add: Some links close_all_Cons same step)
  qed
qed

lemma flush_loop:
  assumes "\<And>g i. (g, i) \<in> set last_index \<Longrightarrow> i < length cache \<and> dict_mem g (ex_agent_state (cache ! i))"
  shows "foldE (\<lambda>(agent, i) cache.
            bindE (py_get cache (int i)) (\<lambda>e.
            bindE (dict_get (ex_agent_state e) agent) (\<lambda>state.
              Inr (cache[i := close_agent agent done state e])))) last_index cache
         = Inr (close_all (map (\<lambda>(g, i). (g, i, done, the (map_of (ex_agent_state (cache ! i)) g))) last_index) cache)"
  using assms
proof (induction last_index arbitrary: cache)
  case Nil
  then show ?case by simp
next
  case (Cons y rest)
  obtain g i where y: "y = (g, i)" by force
  have i: "i < length cache" and mem: "dict_mem g (ex_agent_state (cache ! i))" using Cons.prems [of g i] y by auto
  obtain st where st: "map_of (ex_agent_state (cache ! i)) g = Some st" using mem by (auto simp: dict_mem_map_of)
  define cache' where "cache' = cache[i := close_agent g done st (cache ! i)]"
  have keep: "ex_agent_state (cache' ! j) = ex_agent_state (cache ! j)" for j
    by (simp add: cache'_def closed_agents)
  have rest: "i < length cache \<and> dict_mem g (ex_agent_state (cache ! i))" if "(g, i) \<in> set rest" for g i
    using Cons.prems [of g i] that by simp
  have IH: "foldE (\<lambda>(agent, i) cache.
      bindE (py_get cache (int i)) (\<lambda>e. bindE (dict_get (ex_agent_state e) agent) (\<lambda>state.
        Inr (cache[i := close_agent agent done state e])))) rest cache'
      = Inr (close_all (map (\<lambda>(g, i). (g, i, done, the (map_of (ex_agent_state (cache' ! i)) g))) rest) cache')"
    by (rule Cons.IH) (use rest in \<open>simp add: keep, simp add: cache'_def\<close>)
  have step: "py_get cache (int i) = Inr (cache ! i)" "dict_get (ex_agent_state (cache ! i)) g = Inr st"
    using i st by (simp_all add: py_get_nonneg dict_get_def)
  show ?case using IH by (simp add: y step st close_all_Cons keep flip: cache'_def)
qed


section \<open>The invariant of the cache\<close>

definition next_occurrence :: "('g, 's, 'a, 'z) exp_element_scheme list \<Rightarrow> nat \<Rightarrow> 'g \<Rightarrow> nat option" where
  "next_occurrence cache i g = find (\<lambda>j. dict_mem g (ex_agent_state (cache ! j))) [Suc i..<length cache]"

definition linked :: "('g, 's, 'a, 'z) exp_element_scheme list \<Rightarrow> nat \<Rightarrow> 'g \<Rightarrow> bool" where
  "linked cache i g =
     (case next_occurrence cache i g of
        None \<Rightarrow> True
      | Some j \<Rightarrow> map_of (ex_terminal (cache ! i)) g = Some False
                \<and> map_of (ex_next_agent_state (cache ! i)) g = map_of (ex_agent_state (cache ! j)) g)"

definition cache_inv :: "('g, 's, 'a, 'z) exp_element_scheme list \<Rightarrow> ('g \<times> nat) list \<Rightarrow> bool" where
  "cache_inv cache last_index \<longleftrightarrow> list_all closed_keys cache \<and> distinct (map fst last_index)
     \<and> (\<forall>g i. map_of last_index g = Some i \<longleftrightarrow>
          i < length cache \<and> dict_mem g (ex_agent_state (cache ! i)) \<and> next_occurrence cache i g = None)
     \<and> (\<forall>i<length cache. \<forall>g. dict_mem g (ex_agent_state (cache ! i)) \<longrightarrow> linked cache i g)"

lemma cache_inv_empty: "cache_inv [] []"
  by (simp add: cache_inv_def)

lemma find_snoc: "find P (xs @ [x]) = (case find P xs of None \<Rightarrow> if P x then Some x else None | Some y \<Rightarrow> Some y)"
  by (induction xs) auto

lemma next_occurrence_cong:
  assumes "map ex_agent_state cache = map ex_agent_state cache'"
  shows "next_occurrence cache i g = next_occurrence cache' i g"
proof -
  have len: "length cache = length cache'" using assms by (metis length_map)
  have "ex_agent_state (cache ! j) = ex_agent_state (cache' ! j)" if "j < length cache'" for j
    using assms that len by (metis nth_map)
  then show ?thesis unfolding next_occurrence_def len by (intro find_cong) auto
qed

lemma next_occurrence_Some:
  "next_occurrence cache i g = Some j \<Longrightarrow> i < j \<and> j < length cache \<and> dict_mem g (ex_agent_state (cache ! j))"
  by (auto simp: next_occurrence_def find_Some_iff)

lemma next_occurrence_snoc:
  assumes "i < length cache"
  shows "next_occurrence (cache @ [x]) i g =
    (case next_occurrence cache i g of
       None \<Rightarrow> if dict_mem g (ex_agent_state x) then Some (length cache) else None
     | Some j \<Rightarrow> Some j)"
proof -
  have "[Suc i..<length (cache @ [x])] = [Suc i..<length cache] @ [length cache]" using assms by simp
  moreover have "find (\<lambda>j. dict_mem g (ex_agent_state ((cache @ [x]) ! j))) [Suc i..<length cache]
      = next_occurrence cache i g"
    unfolding next_occurrence_def by (intro find_cong) (auto simp: nth_append)
  ultimately show ?thesis by (simp add: next_occurrence_def [of "cache @ [x]"] find_snoc)
qed

lemma next_occurrence_last: "next_occurrence (cache @ [x]) (length cache) g = None"
  by (simp add: next_occurrence_def)

lemma next_occurrence_drop:
  assumes "n \<le> length cache"
  shows "next_occurrence (drop n cache) i g = map_option (\<lambda>j. j - n) (next_occurrence cache (n + i) g)"
proof -
  have "[Suc (n + i)..<length cache] = map (\<lambda>j. n + j) [Suc i..<length cache - n]"
    using assms by (intro nth_equalityI) auto
  moreover have "find P (map f xs) = map_option f (find (P \<circ> f) xs)" for P :: "nat \<Rightarrow> bool" and f :: "nat \<Rightarrow> nat" and xs
    by (induction xs) auto
  moreover have "find (\<lambda>j. dict_mem g (ex_agent_state (drop n cache ! j))) [Suc i..<length cache - n]
      = find ((\<lambda>j. dict_mem g (ex_agent_state (cache ! j))) \<circ> (\<lambda>j. n + j)) [Suc i..<length cache - n]"
    using assms by (intro find_cong) auto
  ultimately show ?thesis by (simp add: next_occurrence_def option.map_comp comp_def option.map_ident)
qed


lemma all_updated_map_of:
  "map_of (fold (\<lambda>g. AList.update g n) gs d) g = (if g \<in> set gs then Some n else map_of d g)"
  by (induction gs arbitrary: d) auto

lemma all_updated_distinct: "distinct (map fst d) \<Longrightarrow> distinct (map fst (fold (\<lambda>g. AList.update g n) gs d))"
  by (induction gs arbitrary: d) (auto simp: distinct_update)

lemma agent_names_mem: "g \<in> set (agent_names e) \<longleftrightarrow> dict_mem g (ex_agent_state e)"
  by (force simp: agent_names_def dict_mem_map_of map_of_eq_None_iff image_iff)

lemma core_agents:
  assumes "map core cache = map core cache'"
  shows "map ex_agent_state cache = map ex_agent_state cache'"
proof -
  have "length cache = length cache'" using assms by (metis length_map)
  moreover have "ex_agent_state (cache ! i) = ex_agent_state (cache' ! i)" if "i < length cache" for i
    using assms that calculation core_eqD [of "cache ! i" "cache' ! i"] by (metis nth_map)
  ultimately show ?thesis by (simp add: list_eq_iff_nth_eq)
qed

lemma close_all_agents: "map ex_agent_state (close_all cs cache) = map ex_agent_state cache"
  by (rule core_agents) (rule close_all_core)

lemma close_all_agents_nth: "i < length cache \<Longrightarrow> ex_agent_state (close_all cs cache ! i) = ex_agent_state (cache ! i)"
  using close_all_agents [of cs cache] by (metis close_all_length nth_map)

lemma close_all_next: "next_occurrence (close_all cs cache) i g = next_occurrence cache i g"
  by (rule next_occurrence_cong) (rule close_all_agents)

text \<open>What \<open>_append_cache_element\<close> makes of the cache.\<close>

definition linked_cache ::
  "('g :: linorder \<times> nat) list \<Rightarrow> ('g, 's, 'a, 'z) exp_element_scheme \<Rightarrow> ('g, 's, 'a, 'z) exp_element_scheme list
     \<Rightarrow> ('g, 's, 'a, 'z) exp_element_scheme list" where
  "linked_cache last_index x cache = close_all (links_of last_index x (agent_names x)) (cache @ [x])"

definition moved_index :: "nat \<Rightarrow> ('g :: linorder, 's, 'a, 'z) exp_element_scheme \<Rightarrow> ('g \<times> nat) list \<Rightarrow> ('g \<times> nat) list" where
  "moved_index n x last_index = fold (\<lambda>g. AList.update g n) (agent_names x) last_index"

lemma linked_cache_length [simp]: "length (linked_cache last_index x cache) = Suc (length cache)"
  by (simp add: linked_cache_def)

lemma linked_cache_agents:
  "i \<le> length cache \<Longrightarrow> ex_agent_state (linked_cache last_index x cache ! i) = ex_agent_state ((cache @ [x]) ! i)"
  by (simp add: linked_cache_def close_all_agents_nth)

lemma linked_cache_next: "next_occurrence (linked_cache last_index x cache) i g = next_occurrence (cache @ [x]) i g"
  by (simp add: linked_cache_def close_all_next)

lemma cache_inv_index:
  "cache_inv cache last_index \<Longrightarrow> map_of last_index g = Some i \<longleftrightarrow>
     i < length cache \<and> dict_mem g (ex_agent_state (cache ! i)) \<and> next_occurrence cache i g = None"
  by (simp add: cache_inv_def)

lemma linked_cache_index:
  assumes inv: "cache_inv cache last_index"
  shows "map_of (moved_index (length cache) x last_index) g = Some i \<longleftrightarrow>
           i < Suc (length cache) \<and> dict_mem g (ex_agent_state (linked_cache last_index x cache ! i))
           \<and> next_occurrence (linked_cache last_index x cache) i g = None"
proof -
  note index = cache_inv_index [OF inv, of g i]
  consider "i = length cache" | "i < length cache" | "length cache < i" by linarith
  then show ?thesis
  proof cases
    case 1
    then show ?thesis using index
      by (simp add: linked_cache_agents linked_cache_next next_occurrence_last moved_index_def all_updated_map_of agent_names_mem)
  next
    case 2
    then show ?thesis using index
      by (auto simp: linked_cache_agents linked_cache_next next_occurrence_snoc moved_index_def all_updated_map_of
          agent_names_mem nth_append split: option.splits)
  next
    case 3
    then show ?thesis using index by (auto simp: moved_index_def all_updated_map_of)
  qed
qed

text \<open>The element an agent came up in last is linked to the new one; the others stay as they are.\<close>

lemma linked_cache_linked:
  assumes inv: "cache_inv cache last_index" and x: "closed_keys x"
    and i: "i < length cache" and mem: "dict_mem g (ex_agent_state (cache ! i))"
  shows "linked (linked_cache last_index x cache) i g"
proof (cases "next_occurrence cache i g")
  case None
  then have last: "map_of last_index g = Some i" using cache_inv_index [OF inv] i mem by simp
  have names: "distinct (agent_names x)" using x by (simp add: closed_keys_def agent_names_def)
  show ?thesis
  proof (cases "dict_mem g (ex_agent_state x)")
    case True
    then have "(g, i, False, the (map_of (ex_agent_state x) g)) \<in> set (links_of last_index x (agent_names x))"
      by (simp add: links_of_mem last agent_names_mem)
    from close_all_set [OF this links_of_distinct [OF names], of "cache @ [x]"] True i show ?thesis
      by (auto simp: linked_def linked_cache_next next_occurrence_snoc None linked_cache_agents dict_mem_map_of)
        (auto simp: linked_cache_def)
  next
    case False
    then show ?thesis using i None by (simp add: linked_def linked_cache_next next_occurrence_snoc)
  qed
next
  case (Some j)
  then have "map_of last_index g \<noteq> Some i" using cache_inv_index [OF inv] by simp
  then have "(g, i, t, y) \<notin> set (links_of last_index x (agent_names x))" for t y by (simp add: links_of_mem)
  from close_all_other [OF this, of "cache @ [x]"] have same:
    "map_of (ex_terminal (linked_cache last_index x cache ! i)) g = map_of (ex_terminal (cache ! i)) g"
    "map_of (ex_next_agent_state (linked_cache last_index x cache ! i)) g = map_of (ex_next_agent_state (cache ! i)) g"
    using i by (simp_all add: linked_cache_def nth_append)
  have "linked cache i g" using inv i mem by (simp add: cache_inv_def)
  then show ?thesis using next_occurrence_Some [OF Some]
    by (simp add: linked_def linked_cache_next next_occurrence_snoc i Some same linked_cache_agents nth_append)
qed

lemma linked_cache_inv:
  assumes inv: "cache_inv cache last_index" and x: "closed_keys x"
  shows "cache_inv (linked_cache last_index x cache) (moved_index (length cache) x last_index)"
proof -
  let ?C = "linked_cache last_index x cache"
  have "list_all closed_keys ?C"
    unfolding linked_cache_def
  proof (rule close_all_keys)
    show "list_all closed_keys (cache @ [x])" using inv x by (simp add: cache_inv_def)
    show "dict_mem g (ex_agent_state ((cache @ [x]) ! i))"
      if "(g, i, t, y) \<in> set (links_of last_index x (agent_names x))" for g i t y
      using that cache_inv_index [OF inv, of g i] by (simp add: links_of_mem nth_append)
  qed
  moreover have "distinct (map fst (moved_index (length cache) x last_index))"
    using inv by (simp add: moved_index_def cache_inv_def all_updated_distinct)
  moreover have "linked ?C i g" if "i < length ?C" "dict_mem g (ex_agent_state (?C ! i))" for i g
  proof (cases "i = length cache")
    case True
    then show ?thesis by (simp add: linked_def linked_cache_next next_occurrence_last)
  next
    case False
    then have "i < length cache" using that by simp
    then show ?thesis using that by (intro linked_cache_linked [OF inv x]) (auto simp: linked_cache_agents nth_append)
  qed
  ultimately show ?thesis using linked_cache_index [OF inv] unfolding cache_inv_def linked_cache_length by blast
qed

lemma append_cache_element_eq:
  assumes inv: "cache_inv (sa_transition_cache s) (sa_agent_last_index s)" and x: "closed_keys x"
  shows "append_cache_element x s =
    Inr (s\<lparr>sa_transition_cache := linked_cache (sa_agent_last_index s) x (sa_transition_cache s),
          sa_agent_last_index := moved_index (length (sa_transition_cache s)) x (sa_agent_last_index s)\<rparr>)"
proof -
  let ?last = "sa_agent_last_index s" and ?cache = "sa_transition_cache s"
  have "distinct (agent_names x)" using x by (simp add: closed_keys_def agent_names_def)
  moreover have "\<forall>g\<in>set (agent_names x). \<forall>i. map_of ?last g = Some i \<longrightarrow> i < length (?cache @ [x])"
    using cache_inv_index [OF inv] by auto
  ultimately show ?thesis
    using link_loop [of "agent_names x" x ?last "?cache @ [x]" "length ?cache"]
    by (simp add: append_cache_element_def agent_names_mem linked_cache_def moved_index_def)
qed

text \<open>What \<open>_append_cache_element(None)\<close> makes of it.\<close>

definition flushed_cache ::
  "bool \<Rightarrow> ('g \<times> nat) list \<Rightarrow> ('g, 's, 'a, 'z) exp_element_scheme list \<Rightarrow> ('g, 's, 'a, 'z) exp_element_scheme list" where
  "flushed_cache done last_index cache =
     close_all (map (\<lambda>(g, i). (g, i, done, the (map_of (ex_agent_state (cache ! i)) g))) last_index) cache"

text \<open>Every agent of every element is closed: by the element it comes up in next, or by the flush.\<close>

definition settled :: "bool \<Rightarrow> ('g, 's, 'a, 'z) exp_element_scheme list \<Rightarrow> nat \<Rightarrow> 'g \<Rightarrow> bool" where
  "settled done cache i g =
     (case next_occurrence cache i g of
        Some j \<Rightarrow> map_of (ex_terminal (cache ! i)) g = Some False
                \<and> map_of (ex_next_agent_state (cache ! i)) g = map_of (ex_agent_state (cache ! j)) g
      | None \<Rightarrow> map_of (ex_terminal (cache ! i)) g = Some done
                \<and> map_of (ex_next_agent_state (cache ! i)) g = map_of (ex_agent_state (cache ! i)) g)"

lemma flushed_settled:
  assumes inv: "cache_inv cache last_index" and i: "i < length cache" and mem: "dict_mem g (ex_agent_state (cache ! i))"
  shows "settled done (flushed_cache done last_index cache) i g"
proof -
  let ?cs = "map (\<lambda>(g, i). (g, i, done, the (map_of (ex_agent_state (cache ! i)) g))) last_index"
  have dist: "distinct (map fst last_index)" using inv by (simp add: cache_inv_def)
  have "map fst ?cs = map fst last_index" by auto
  then have dist': "distinct (map fst ?cs)" using dist by (simp only:)
  show ?thesis
  proof (cases "next_occurrence cache i g")
    case None
    then have "map_of last_index g = Some i" using cache_inv_index [OF inv] i mem by simp
    then have "(g, i) \<in> set last_index" by (rule map_of_SomeD)
    then have "(g, i, done, the (map_of (ex_agent_state (cache ! i)) g)) \<in> set ?cs" by force
    from close_all_set [OF this dist' i] i mem show ?thesis
      by (auto simp: settled_def flushed_cache_def close_all_next None close_all_agents_nth dict_mem_map_of)
  next
    case (Some j)
    then have "map_of last_index g \<noteq> Some i" using cache_inv_index [OF inv] by simp
    then have "(g, i) \<notin> set last_index" using dist by auto
    then have "(g, i, t, y) \<notin> set ?cs" for t y by auto
    from close_all_other [OF this, of cache] have same:
      "map_of (ex_terminal (flushed_cache done last_index cache ! i)) g = map_of (ex_terminal (cache ! i)) g"
      "map_of (ex_next_agent_state (flushed_cache done last_index cache ! i)) g = map_of (ex_next_agent_state (cache ! i)) g"
      by (simp_all add: flushed_cache_def)
    have next1: "next_occurrence (flushed_cache done last_index cache) i g = Some j"
      using Some by (simp add: flushed_cache_def close_all_next)
    have agents: "ex_agent_state (flushed_cache done last_index cache ! j) = ex_agent_state (cache ! j)"
      using next_occurrence_Some [OF Some] by (simp add: flushed_cache_def close_all_agents_nth)
    have "linked cache i g" using inv i mem by (simp add: cache_inv_def)
    then show ?thesis by (simp add: settled_def next1 same agents linked_def Some)
  qed
qed

lemma flushed_inv:
  assumes inv: "cache_inv cache last_index"
  shows "cache_inv (flushed_cache done last_index cache) last_index"
proof -
  let ?C = "flushed_cache done last_index cache"
  have len: "length ?C = length cache" by (simp add: flushed_cache_def)
  have agents: "i < length cache \<Longrightarrow> ex_agent_state (?C ! i) = ex_agent_state (cache ! i)" for i
    by (simp add: flushed_cache_def close_all_agents_nth)
  have "list_all closed_keys ?C"
    unfolding flushed_cache_def
  proof (rule close_all_keys)
    show "list_all closed_keys cache" using inv by (simp add: cache_inv_def)
    show "dict_mem g (ex_agent_state (cache ! i))"
      if "(g, i, t, y) \<in> set (map (\<lambda>(g, i). (g, i, done, the (map_of (ex_agent_state (cache ! i)) g))) last_index)" for g i t y
    proof -
      have "map_of last_index g = Some i" using that inv by (auto simp: cache_inv_def)
      then show ?thesis using cache_inv_index [OF inv] by simp
    qed
  qed
  moreover have "linked ?C i g" if "i < length cache" "dict_mem g (ex_agent_state (cache ! i))" for i g
    using flushed_settled [OF inv that, of "done"] by (auto simp: settled_def linked_def split: option.splits)
  moreover have "next_occurrence ?C i g = next_occurrence cache i g" for i g
    by (simp add: flushed_cache_def close_all_next)
  ultimately show ?thesis using inv agents by (auto simp: cache_inv_def len)
qed

lemma append_nothing_eq:
  assumes inv: "cache_inv (sa_transition_cache s) (sa_agent_last_index s)"
  shows "append_nothing s =
    Inr (s\<lparr>sa_transition_cache := flushed_cache (sa_end_of_episode s) (sa_agent_last_index s) (sa_transition_cache s)\<rparr>)"
proof -
  have "i < length (sa_transition_cache s) \<and> dict_mem g (ex_agent_state (sa_transition_cache s ! i))"
    if "(g, i) \<in> set (sa_agent_last_index s)" for g i
  proof -
    have "map_of (sa_agent_last_index s) g = Some i" using that inv by (simp add: cache_inv_def)
    then show ?thesis using cache_inv_index [OF inv] by simp
  qed
  from flush_loop [OF this] show ?thesis by (simp add: append_nothing_def flushed_cache_def)
qed

end
