(* ===== verification/EnvSamplerRuns.thy ===== *)
theory EnvSamplerRuns imports EnvSamplerCache begin

text \<open>
  Runs of a sampler: resets, interactions and rounds of collecting keep the links of the cache, whatever the
  environment and the subclass answer.
\<close>

section \<open>Taking elements out of the cache\<close>

lemma shift_map_of:
  assumes "distinct (map fst d)"
  shows "map_of (shift_last_index n d) g = Some i \<longleftrightarrow> map_of d g = Some (n + i)"
  using assms
proof (induction d arbitrary: g)
  case Nil
  then show ?case by (simp add: shift_last_index_def)
next
  case (Cons y d)
  obtain k v where y: "y = (k, v)" by force
  have IH: "map_of (shift_last_index n d) h = Some i \<longleftrightarrow> map_of d h = Some (n + i)" for h
    using Cons.prems by (intro Cons.IH [of h]) simp
  have fresh: "map_of d k = None" using Cons.prems y by (simp add: map_of_eq_None_iff)
  have step: "shift_last_index n ((k, v) # d) = (if n \<le> v then (k, v - n) # shift_last_index n d else shift_last_index n d)"
    by (simp add: shift_last_index_def)
  show ?case using IH [of g] IH [of k] fresh unfolding y step by auto
qed

lemma shift_distinct: "distinct (map fst d) \<Longrightarrow> distinct (map fst (shift_last_index n d))"
  by (induction d) (auto simp: shift_last_index_def image_iff)

lemma drop_inv:
  assumes inv: "cache_inv cache last_index" and n: "n \<le> length cache"
  shows "cache_inv (drop n cache) (shift_last_index n last_index)"
proof -
  have dist: "distinct (map fst last_index)" using inv by (simp add: cache_inv_def)
  have index: "map_of (shift_last_index n last_index) g = Some i \<longleftrightarrow>
      i < length (drop n cache) \<and> dict_mem g (ex_agent_state (drop n cache ! i)) \<and> next_occurrence (drop n cache) i g = None" for g i
    using cache_inv_index [OF inv, of g "n + i"] n by (auto simp: shift_map_of [OF dist] next_occurrence_drop)
  have "linked (drop n cache) i g" if "i < length (drop n cache)" "dict_mem g (ex_agent_state (drop n cache ! i))" for i g
  proof -
    have "linked cache (n + i) g" using inv n that by (simp add: cache_inv_def)
    then show ?thesis using n
      by (cases "next_occurrence cache (n + i) g") (auto simp: linked_def next_occurrence_drop dest: next_occurrence_Some)
  qed
  then show ?thesis using inv index shift_distinct [OF dist]
    by (auto simp: cache_inv_def list_all_iff dest: in_set_dropD)
qed

lemma info_refl: "\<exists>i. s = s\<lparr>sa_info := i\<rparr>"
  by (rule exI [of _ "sa_info s"]) simp

lemma calc_reward_facts:
  assumes "calc_reward hk env e = Inr e'"
  shows "\<exists>r. e' = e\<lparr>ex_reward := r\<rparr> \<and> length r = length (ex_agent_state e)"
proof -
  from assms obtain rs r where e': "e' = e\<lparr>ex_reward := r\<rparr>"
    and r: "mapE (\<lambda>agent. bindE (dict_get rs agent) (\<lambda>r. Inr (agent, r))) (agent_names e) = Inr r"
    by (auto simp: calc_reward_def res_simps)
  have "length r = length (ex_agent_state e)" using mapE_length [OF r] by (simp add: agent_names_def)
  with e' show ?thesis by blast
qed

lemma evaluate_facts:
  "evaluate hk post e s = Inr (e', s') \<Longrightarrow>
     (\<exists>r. e' = e\<lparr>ex_reward := r\<rparr> \<and> length r = length (ex_agent_state e)) \<and> (\<exists>i. s' = s\<lparr>sa_info := i\<rparr>)"
  by (auto simp: evaluate_def res_simps dest: calc_reward_facts)

lemma settle_frame: "settle hk post e s = Inr (e', s') \<Longrightarrow> \<exists>i. s' = s\<lparr>sa_info := i\<rparr>"
  using info_refl [of s] by (auto simp: settle_def dest: evaluate_facts split: if_splits)

lemma pop_loop_frame:
  assumes "foldE (\<lambda>e (exps, s).
             bindE (settle hk post e s) (\<lambda>(e, s).
               if learning then bindE (make_exp_element e) (\<lambda>x. Inr (exps @ [x], s)) else Inr (exps, s))) es (acc, s) = Inr (exps, t)"
  shows "length exps = length acc + (if learning then length es else 0) \<and> (\<exists>i. t = s\<lparr>sa_info := i\<rparr>)"
  using assms
proof (induction es arbitrary: acc s)
  case Nil
  then show ?case using info_refl [of s] by auto
next
  case (Cons e es)
  from Cons.prems obtain s' acc' e' where
    first: "settle hk post e s = Inr (e', s')" "length acc' = length acc + (if learning then 1 else 0)"
    and rest: "foldE (\<lambda>e (exps, s).
             bindE (settle hk post e s) (\<lambda>(e, s).
               if learning then bindE (make_exp_element e) (\<lambda>x. Inr (exps @ [x], s)) else Inr (exps, s))) es (acc', s') = Inr (exps, t)"
    using that [of _ _ acc] that [of _ _ "acc @ [_]"] by (cases learning) (auto simp: res_simps)
  from settle_frame [OF first(1)] Cons.IH [OF rest] first(2) show ?case by auto
qed

lemma pop_due_frame:
  assumes "pop_due hk post True s = Inr (exps, t)"
  shows "length exps \<le> length (sa_transition_cache s)
    \<and> (\<exists>i. t = s\<lparr>sa_info := i, sa_transition_cache := drop (length exps) (sa_transition_cache s)\<rparr>)"
proof -
  let ?due = "takeWhile (\<lambda>e. ex_tick e \<le> tick_bound hk s) (sa_transition_cache s)"
  obtain u where u:
    "foldE (\<lambda>e (exps, s). bindE (settle hk post e s) (\<lambda>(e, s).
        if True then bindE (make_exp_element e) (\<lambda>x. Inr (exps @ [x], s)) else Inr (exps, s))) ?due ([], s) = Inr (exps, u)"
    and t: "t = u\<lparr>sa_transition_cache := drop (length ?due) (sa_transition_cache u)\<rparr>"
    using assms unfolding pop_due_def Let_def by (auto simp only: res_simps prod.case Inr_inject Pair_inject split_paired_Ex)
  have "length ?due \<le> length (sa_transition_cache s)" by (rule length_takeWhile_le)
  with pop_loop_frame [OF u] t show ?thesis by auto
qed

section \<open>Steps of a sampler\<close>

definition dicts_ok :: "('g, 's, 'a, 'ev, 'act, 'env, 'i) hooks \<Rightarrow> bool" where
  "dicts_ok hk \<longleftrightarrow> (\<forall>env event tick state agents.
     hk_get_state hk env event tick = Inr (state, agents) \<longrightarrow> distinct (map fst agents))"

definition sampler_inv :: "('g, 's, 'a, 'ev, 'act, 'env, 'i) sampler \<Rightarrow> bool" where
  "sampler_inv s \<longleftrightarrow> cache_inv (sa_transition_cache s) (sa_agent_last_index s) \<and> distinct (map fst (sa_agent_state s))"

lemma put_env_simps [simp]:
  "sa_transition_cache (put_env env s) = sa_transition_cache s" "sa_agent_last_index (put_env env s) = sa_agent_last_index s"
  "sa_agent2policy (put_env env s) = sa_agent2policy s" "sa_rl_policies (put_env env s) = sa_rl_policies s"
  "sa_trainable_policies (put_env env s) = sa_trainable_policies s" "sa_reward_eval_delay (put_env env s) = sa_reward_eval_delay s"
  "sa_max_episode_length (put_env env s) = sa_max_episode_length s"
  "sa_current_episode_length (put_env env s) = sa_current_episode_length s"
  "sa_total_number_interactions (put_env env s) = sa_total_number_interactions s"
  "sa_on_test (put_env env s) = sa_on_test s" "sa_info (put_env env s) = sa_info s" "sa_env (put_env env s) = env"
  by (simp_all add: put_env_def sa_env_def)

lemma sa_env_update [simp]:
  "sa_env (s\<lparr>sa_event := ev\<rparr>) = sa_env s" "sa_env (s\<lparr>sa_end_of_episode := d\<rparr>) = sa_env s"
  "sa_env (s\<lparr>sa_state := st\<rparr>) = sa_env s" "sa_env (s\<lparr>sa_agent_state := ag\<rparr>) = sa_env s"
  "sa_env (s\<lparr>sa_info := i\<rparr>) = sa_env s" "sa_env (s\<lparr>sa_transition_cache := c\<rparr>) = sa_env s"
  "sa_env (s\<lparr>sa_agent_last_index := l\<rparr>) = sa_env s" "sa_env (s\<lparr>sa_total_number_interactions := n\<rparr>) = sa_env s"
  "sa_env (s\<lparr>sa_current_episode_length := n\<rparr>) = sa_env s"
  by (simp_all add: sa_env_def)

lemma sampler_step_facts:
  assumes "sampler_step hk acts s = Inr t"
  shows "sa_transition_cache t = sa_transition_cache s \<and> sa_agent_last_index t = sa_agent_last_index s
    \<and> sa_reward_eval_delay t = sa_reward_eval_delay s \<and> sa_on_test t = sa_on_test s
    \<and> sa_max_episode_length t = sa_max_episode_length s \<and> sa_current_episode_length t = sa_current_episode_length s"
  using assms by (auto simp: sampler_step_def Let_def res_simps)

lemma sampler_step_agents: "dicts_ok hk \<Longrightarrow> sampler_step hk acts s = Inr t \<Longrightarrow> distinct (map fst (sa_agent_state t))"
  by (auto simp: sampler_step_def get_global_and_agent_state_def dicts_ok_def Let_def res_simps split: if_splits)

lemma sampler_reset_inv: "dicts_ok hk \<Longrightarrow> sampler_reset hk s = Inr t \<Longrightarrow> sampler_inv t"
  by (auto simp: sampler_reset_def sampler_inv_def res_simps cache_inv_empty sampler_step_agents dest: sampler_step_facts)

lemma selected_distinct: "distinct (map fst d) \<Longrightarrow> distinct (map fst (select_trainable_agents s d))"
  by (simp add: select_trainable_agents_def distinct_map_filter)

text \<open>An interaction: the step of the environment, perhaps the reward, and the element appended to the cache.\<close>

lemma interact_parts:
  assumes "interact hk post learning s = Inr t"
  obtains actions env_actions v e x u where
    "hk_choose hk (sa_agent_state s) = Inr actions" "hk_translate hk actions (sa_event s) = Inr env_actions"
    "sampler_step hk (Some (map snd env_actions)) (count_interaction learning s) = Inr v"
    "e = (new_element hk learning (count_interaction learning s) actions env_actions)\<lparr>ex_next_state := sa_state v\<rparr>"
    "if sa_reward_eval_delay v = None then evaluate hk post e v = Inr (x, u) else (x, u) = (e, v)"
    "append_cache_element x u = Inr t"
proof -
  obtain actions env_actions v x u where
    "hk_choose hk (sa_agent_state s) = Inr actions" "hk_translate hk actions (sa_event s) = Inr env_actions"
    "sampler_step hk (Some (map snd env_actions)) (count_interaction learning s) = Inr v"
    "(if sa_reward_eval_delay v = None
      then evaluate hk post ((new_element hk learning (count_interaction learning s) actions env_actions)
        \<lparr>ex_next_state := sa_state v\<rparr>) v
      else Inr ((new_element hk learning (count_interaction learning s) actions env_actions)
        \<lparr>ex_next_state := sa_state v\<rparr>, v)) = Inr (x, u)"
    "append_cache_element x u = Inr t"
    using assms by (simp add: interact_def Let_def res_simps) blast
  then show thesis by (intro that [OF _ _ _ refl]) (auto split: if_splits)
qed

lemma interactI:
  assumes "hk_choose hk (sa_agent_state s) = Inr actions" and "hk_translate hk actions (sa_event s) = Inr env_actions"
    and "sampler_step hk (Some (map snd env_actions)) (count_interaction learning s) = Inr v"
    and e: "e = (new_element hk learning (count_interaction learning s) actions env_actions)\<lparr>ex_next_state := sa_state v\<rparr>"
    and "(if sa_reward_eval_delay v = None then evaluate hk post e v else Inr (e, v)) = Inr (x, u)"
    and "append_cache_element x u = Inr t"
  shows "interact hk post learning s = Inr t"
  using assms(5) unfolding interact_def Let_def assms(1,2,3) bindE_Inr e [symmetric] by (simp only: bindE_Inr prod.case assms(6))

lemma new_element_keys:
  "sampler_inv s \<Longrightarrow>
     closed_keys ((new_element hk learning (count_interaction learning s) actions env_actions)\<lparr>ex_next_state := st\<rparr>)"
  by (simp add: closed_keys_def sampler_inv_def selected_distinct new_element_def count_interaction_def)

lemma append_frame:
  "append_cache_element x u = Inr t \<Longrightarrow>
     \<exists>c l. t = u\<lparr>sa_transition_cache := c, sa_agent_last_index := l\<rparr>"
  by (auto simp: append_cache_element_def Let_def res_simps)

lemma interact_inv:
  assumes hk: "dicts_ok hk" and step: "interact hk post learning s = Inr t" and inv: "sampler_inv s"
  shows "sampler_inv t"
proof -
  from step obtain actions env_actions v e x u where
    v: "sampler_step hk (Some (map snd env_actions)) (count_interaction learning s) = Inr v"
    and e: "e = (new_element hk learning (count_interaction learning s) actions env_actions)\<lparr>ex_next_state := sa_state v\<rparr>"
    and x: "if sa_reward_eval_delay v = None then evaluate hk post e v = Inr (x, u) else (x, u) = (e, v)"
    and u: "append_cache_element x u = Inr t"
    by (rule interact_parts)
  have keys: "closed_keys x" using x new_element_keys [OF inv] by (auto simp: e dest!: evaluate_facts split: if_splits)
  have frame: "sa_transition_cache u = sa_transition_cache s" "sa_agent_last_index u = sa_agent_last_index s"
    "sa_agent_state u = sa_agent_state v"
    using x sampler_step_facts [OF v] by (auto simp: count_interaction_def dest!: evaluate_facts split: if_splits)
  have "distinct (map fst (sa_agent_state v))" by (rule sampler_step_agents [OF hk v])
  with u append_cache_element_eq [of u x] keys inv frame show ?thesis
    by (auto simp: sampler_inv_def intro: linked_cache_inv)
qed

lemma interact_on_test:
  assumes "interact hk post learning s = Inr t"
  shows "sa_on_test t = sa_on_test s"
proof -
  from assms obtain actions env_actions v e x u where
    v: "sampler_step hk (Some (map snd env_actions)) (count_interaction learning s) = Inr v"
    and "e = (new_element hk learning (count_interaction learning s) actions env_actions)\<lparr>ex_next_state := sa_state v\<rparr>"
    and x: "if sa_reward_eval_delay v = None then evaluate hk post e v = Inr (x, u) else (x, u) = (e, v)"
    and u: "append_cache_element x u = Inr t"
    by (rule interact_parts)
  then show ?thesis using sampler_step_facts [OF v] append_frame [OF u]
    by (auto simp: count_interaction_def dest!: evaluate_facts split: if_splits)
qed

text \<open>Runs: a reset, an interaction, and the end of a round of collecting.\<close>

inductive sampler_run ::
  "('g :: linorder, 's, 'a, 'ev, 'act, 'env, 'i) hooks \<Rightarrow> ('g, 's, 'a, 'ev, 'act, 'env, 'i) sampler \<Rightarrow> bool"
  for hk :: "('g, 's, 'a, 'ev, 'act, 'env, 'i) hooks" where
  fresh: "sampler_reset hk s = Inr t \<Longrightarrow> sampler_run hk t"
| acted: "sampler_run hk s \<Longrightarrow> interact hk post learning s = Inr t \<Longrightarrow> sampler_run hk t"
| collected: "sampler_run hk s \<Longrightarrow> bindE (append_nothing s) (pop_due hk post True) = Inr (exps, t) \<Longrightarrow>
    sampler_run hk (t\<lparr>sa_agent_last_index := shift_last_index (length exps) (sa_agent_last_index t)\<rparr>)"

lemma collected_inv:
  assumes inv: "sampler_inv s" and step: "bindE (append_nothing s) (pop_due hk post True) = Inr (exps, t)"
  shows "sampler_inv (t\<lparr>sa_agent_last_index := shift_last_index (length exps) (sa_agent_last_index t)\<rparr>)"
proof -
  let ?flushed = "flushed_cache (sa_end_of_episode s) (sa_agent_last_index s) (sa_transition_cache s)"
  have c: "cache_inv (sa_transition_cache s) (sa_agent_last_index s)" using inv by (simp add: sampler_inv_def)
  have "pop_due hk post True (s\<lparr>sa_transition_cache := ?flushed\<rparr>) = Inr (exps, t)"
    using step by (simp add: append_nothing_eq [OF c])
  from pop_due_frame [OF this] flushed_inv [OF c, of "sa_end_of_episode s"] inv show ?thesis
    by (auto simp: sampler_inv_def intro!: drop_inv)
qed

lemma sampler_run_inv: "dicts_ok hk \<Longrightarrow> sampler_run hk s \<Longrightarrow> sampler_inv s"
  by (rotate_tac, induction rule: sampler_run.induct) (auto intro: sampler_reset_inv interact_inv collected_inv)

text \<open>C30: Over any run of the sampler the cache of transitions links each state of an agent
  to the next one of the same agent: after the flush at the end of a batch every cached state is
  followed by the state of its next occurrence, or is terminal exactly when the episode has ended.\<close>

theorem flush_settles:
  assumes "dicts_ok hk" and "sampler_run hk s"
  shows "\<exists>t. append_nothing s = Inr t \<and> length (sa_transition_cache t) = length (sa_transition_cache s)
    \<and> (\<forall>i<length (sa_transition_cache t). \<forall>(g, x)\<in>set (ex_agent_state (sa_transition_cache t ! i)).
         settled (sa_end_of_episode s) (sa_transition_cache t) i g)"
proof -
  have c: "cache_inv (sa_transition_cache s) (sa_agent_last_index s)"
    using sampler_run_inv [OF assms] by (simp add: sampler_inv_def)
  let ?flushed = "flushed_cache (sa_end_of_episode s) (sa_agent_last_index s) (sa_transition_cache s)"
  have "settled (sa_end_of_episode s) ?flushed i g"
    if "i < length ?flushed" "(g, x) \<in> set (ex_agent_state (?flushed ! i))" for i g x
  proof (rule flushed_settled [OF c])
    show i: "i < length (sa_transition_cache s)" using that by (simp add: flushed_cache_def)
    show "dict_mem g (ex_agent_state (sa_transition_cache s ! i))"
      using that i by (force simp: flushed_cache_def close_all_agents_nth dict_mem_map_of map_of_eq_None_iff)
  qed
  then show ?thesis by (auto simp: append_nothing_eq [OF c] flushed_cache_def)
qed

end
