(* ===== verification/EnvSamplerRounds.thy ===== *)
theory EnvSamplerRounds imports EnvSamplerRuns begin

text \<open>
  Whole calls of \<open>sample\<close>: how they end, when they get stuck, and what a call of \<open>n\<close> steps collects from an
  environment and a subclass that answer.
\<close>

section \<open>How a call without a number of steps ends\<close>

lemma collect_end:
  assumes "collect hk steps s = Some r"
  shows "\<forall>k t. r = Inr (k, t) \<longrightarrow> (steps = None \<longrightarrow> k = None) \<and> sa_on_test t = sa_on_test s"
proof (rule collect.raw_induct [OF _ assms], goal_cases)
  case (1 f hk steps s r)
  show ?case
  proof (cases "sa_end_of_episode s \<or> sa_truncated s \<or> steps = Some 0")
    case True
    then show ?thesis using 1(2) by auto
  next
    case False
    show ?thesis
    proof (cases "interact hk (hk_post_step hk) True s")
      case (Inl err)
      then show ?thesis using 1(2) False by auto
    next
      case (Inr u)
      then have "f hk (map_option (\<lambda>n. n - 1) steps) u = Some r" using 1(2) False by auto
      from 1(1) [OF this] interact_on_test [OF Inr] show ?thesis by auto
    qed
  qed
qed

lemma flush_pop_on_test:
  assumes "bindE (append_nothing s) (pop_due hk post True) = Inr (exps, t)"
  shows "sa_on_test t = sa_on_test s"
proof -
  obtain u where u: "append_nothing s = Inr u" "pop_due hk post True u = Inr (exps, t)" using assms by (auto simp: res_simps)
  then have "sa_on_test u = sa_on_test s" by (auto simp: append_nothing_def res_simps)
  then show ?thesis using pop_due_frame [OF u(2)] by auto
qed

lemma sampler_reset_on_test: "sampler_reset hk s = Inr t \<Longrightarrow> sa_on_test t = sa_on_test s"
  by (auto simp: sampler_reset_def res_simps dest!: sampler_step_facts)

lemma sample_loop_end:
  assumes "sample_loop hk steps acc s = Some r"
  shows "\<forall>x t. r = Inr (x, t) \<longrightarrow> steps = None \<longrightarrow> (sa_end_of_episode t \<or> sa_truncated t) \<and> sa_on_test t = sa_on_test s"
proof (rule sample_loop.raw_induct [OF _ assms], goal_cases)
  case (1 f hk steps acc s r)
  show ?case
  proof (intro allI impI)
    fix x t
    assume r: "r = Inr (x, t)" and none: "steps = None"
    show "(sa_end_of_episode t \<or> sa_truncated t) \<and> sa_on_test t = sa_on_test s"
    proof (cases "sa_end_of_episode s \<or> sa_truncated s")
      case True
      then show ?thesis using 1(2) r none by auto
    next
      case False
      then obtain k u exps v where u: "collect hk None s = Some (Inr (k, u))"
        and v: "bindE (append_nothing u) (pop_due hk (hk_post_step hk) True) = Inr (exps, v)"
        and rest: "f hk k (acc @ exps)
          (v\<lparr>sa_agent_last_index := shift_last_index (length exps) (sa_agent_last_index v)\<rparr>) = Some r"
        using 1(2) r none by (auto split: option.splits sum.splits prod.splits)
      have "k = None" "sa_on_test u = sa_on_test s" using collect_end [OF u] by auto
      with 1(1) [OF rest] r flush_pop_on_test [OF v] show ?thesis by auto
    qed
  qed
qed

lemma truncated_sample:
  assumes "\<not> sa_end_of_episode s" and "sa_truncated s" and "\<not> sa_on_test s"
  shows "sampler_sample hk None s = Some (Inr ([], s))"
proof -
  have same: "s\<lparr>sa_on_test := False\<rparr> = s" using assms(3) by (cases s) simp
  show ?thesis unfolding sampler_sample_def same using assms by (simp add: sample_loop.simps [of hk None])
qed

lemma sample_ends:
  assumes "sampler_sample hk None s = Some (Inr (x, t))"
  shows "(sa_end_of_episode t \<or> sa_truncated t) \<and> \<not> sa_on_test t"
proof -
  obtain u where u: "sample_loop hk None [] u = Some (Inr (x, t))" and "\<not> sa_on_test u"
    using assms by (auto simp: sampler_sample_def split: sum.splits if_splits dest: sampler_reset_on_test)
  then show ?thesis using sample_loop_end [OF u] by auto
qed

end
