(* ===== verification/EnvSamplerTotals.thy ===== *)
theory EnvSamplerTotals imports EnvSamplerRounds begin

text \<open>
  A call of \<open>sample\<close> for a number of steps, with an environment and a subclass that answer: it returns, it counts
  every interaction, and without a reward delay it returns one complete experience per step.
\<close>

section \<open>What the environment and the subclass promise\<close>

definition env_ok :: "('g, 's, 'a, 'ev, 'act, 'env, 'i) hooks \<Rightarrow> bool" where
  "env_ok hk \<longleftrightarrow>
     (\<forall>acts env. \<exists>event done env'. hk_step hk acts env = Inr (event, done, env') \<and> hk_tick hk env \<le> hk_tick hk env')
     \<and> (\<forall>env. \<exists>env' event env''. hk_reset hk env = Inr env' \<and> hk_step hk None env' = Inr (event, False, env''))"

definition agents_ok ::
  "('g, 's, 'a, 'ev, 'act, 'env, 'i) hooks \<Rightarrow> ('g \<times> string) list \<Rightarrow> string list \<Rightarrow> bool" where
  "agents_ok hk agent2policy rl_policies \<longleftrightarrow>
     (\<forall>env event tick. \<exists>state agents. hk_get_state hk env event tick = Inr (state, agents) \<and> distinct (map fst agents)
        \<and> (\<forall>(g, x)\<in>set agents. \<exists>policy. map_of agent2policy g = Some policy \<and> (policy \<in> set rl_policies \<longrightarrow> hk_is_array hk x)))
     \<and> (\<forall>agents. distinct (map fst agents) \<longrightarrow> (\<forall>g\<in>fst ` set agents. dict_mem g agent2policy) \<longrightarrow>
          (\<exists>actions. hk_choose hk agents = Inr actions \<and> distinct (map fst actions) \<and> fst ` set actions = fst ` set agents))
     \<and> (\<forall>actions event. \<exists>env_actions. hk_translate hk actions event = Inr env_actions
          \<and> fst ` set env_actions = fst ` set actions)
     \<and> (\<forall>env env_actions event tick. \<exists>rewards. hk_reward hk env env_actions event tick = Inr rewards
          \<and> fst ` set env_actions \<subseteq> fst ` set rewards)
     \<and> (\<forall>e info. \<exists>info'. hk_post_step hk e info = Inr info')"

text \<open>An element that can be evaluated, and, once the reward is there, turned into an experience when it is closed.\<close>

definition element_ok :: "nat option \<Rightarrow> int \<Rightarrow> ('g, 's, 'a, 'ev, 'act) cache_element \<Rightarrow> bool" where
  "element_ok delay tick e \<longleftrightarrow> length (ex_action e) = length (ex_agent_state e)
     \<and> fst ` set (ex_agent_state e) \<subseteq> fst ` set (ca_env_action e) \<and> ex_tick e \<le> tick
     \<and> (delay = None \<longrightarrow> length (ex_reward e) = length (ex_agent_state e))"

definition sampler_good :: "('g, 's, 'a, 'ev, 'act, 'env, 'i) hooks \<Rightarrow> ('g, 's, 'a, 'ev, 'act, 'env, 'i) sampler \<Rightarrow> bool" where
  "sampler_good hk s \<longleftrightarrow> sampler_inv s \<and> (\<forall>g\<in>fst ` set (sa_agent_state s). dict_mem g (sa_agent2policy s))
     \<and> list_all (element_ok (sa_reward_eval_delay s) (hk_tick hk (sa_env s))) (sa_transition_cache s)"

text \<open>What a sampler does not change.\<close>

definition same_setup :: "('g, 's, 'a, 'ev, 'act, 'env, 'i) sampler \<Rightarrow> ('g, 's, 'a, 'ev, 'act, 'env, 'i) sampler \<Rightarrow> bool" where
  "same_setup s t \<longleftrightarrow> sa_agent2policy t = sa_agent2policy s \<and> sa_rl_policies t = sa_rl_policies s
     \<and> sa_trainable_policies t = sa_trainable_policies s \<and> sa_reward_eval_delay t = sa_reward_eval_delay s
     \<and> sa_max_episode_length t = sa_max_episode_length s"

definition hooks_ok :: "('g, 's, 'a, 'ev, 'act, 'env, 'i) hooks \<Rightarrow> ('g, 's, 'a, 'ev, 'act, 'env, 'i) sampler \<Rightarrow> bool" where
  "hooks_ok hk s \<longleftrightarrow> env_ok hk \<and> agents_ok hk (sa_agent2policy s) (sa_rl_policies s)"

lemma same_setup_refl [simp]: "same_setup s s"
  by (simp add: same_setup_def)

lemma same_setup_trans: "same_setup s t \<Longrightarrow> same_setup t u \<Longrightarrow> same_setup s u"
  by (simp add: same_setup_def)

lemma hooks_ok_same: "hooks_ok hk s \<Longrightarrow> same_setup s t \<Longrightarrow> hooks_ok hk t"
  by (simp add: hooks_ok_def same_setup_def)

lemma same_setup_updates [simp]:
  "same_setup s (t\<lparr>sa_transition_cache := c\<rparr>) = same_setup s t" "same_setup s (t\<lparr>sa_agent_last_index := l\<rparr>) = same_setup s t"
  "same_setup s (t\<lparr>sa_info := i\<rparr>) = same_setup s t" "same_setup s (t\<lparr>sa_event := ev\<rparr>) = same_setup s t"
  "same_setup s (t\<lparr>sa_end_of_episode := d\<rparr>) = same_setup s t" "same_setup s (t\<lparr>sa_state := st\<rparr>) = same_setup s t"
  "same_setup s (t\<lparr>sa_agent_state := ag\<rparr>) = same_setup s t" "same_setup s (t\<lparr>sa_current_episode_length := n\<rparr>) = same_setup s t"
  "same_setup s (t\<lparr>sa_total_number_interactions := n\<rparr>) = same_setup s t" "same_setup s (t\<lparr>sa_on_test := b\<rparr>) = same_setup s t"
  "same_setup s (put_env env t) = same_setup s t"
  by (simp_all add: same_setup_def)

section \<open>Steps succeed\<close>

lemma hooks_okD:
  assumes "hooks_ok hk s"
  shows "distinct (map fst agents) \<Longrightarrow> \<forall>g\<in>fst ` set agents. dict_mem g (sa_agent2policy s) \<Longrightarrow>
           \<exists>actions. hk_choose hk agents = Inr actions \<and> distinct (map fst actions) \<and> fst ` set actions = fst ` set agents"
    and "\<exists>env_actions. hk_translate hk actions event = Inr env_actions \<and> fst ` set env_actions = fst ` set actions"
    and "\<exists>rewards. hk_reward hk env env_actions event tick = Inr rewards \<and> fst ` set env_actions \<subseteq> fst ` set rewards"
    and "\<exists>info'. hk_post_step hk e info = Inr info'"
  using assms by (simp_all only: hooks_ok_def agents_ok_def)

lemma get_state_total:
  assumes "hooks_ok hk s"
  shows "\<exists>st ag. get_global_and_agent_state hk event tick s = Inr (st, ag) \<and> distinct (map fst ag)
           \<and> (\<forall>g\<in>fst ` set ag. dict_mem g (sa_agent2policy s))"
proof -
  have "\<exists>st ag. hk_get_state hk (sa_env s) event tick = Inr (st, ag) \<and> distinct (map fst ag)
      \<and> (\<forall>(g, x)\<in>set ag. \<exists>policy. map_of (sa_agent2policy s) g = Some policy
           \<and> (policy \<in> set (sa_rl_policies s) \<longrightarrow> hk_is_array hk x))"
    using assms by (simp only: hooks_ok_def agents_ok_def)
  then obtain st ag where ag: "hk_get_state hk (sa_env s) event tick = Inr (st, ag)" "distinct (map fst ag)"
    and policies: "\<And>g x. (g, x) \<in> set ag \<Longrightarrow>
       \<exists>policy. map_of (sa_agent2policy s) g = Some policy \<and> (policy \<in> set (sa_rl_policies s) \<longrightarrow> hk_is_array hk x)"
    by blast
  have "mapE (\<lambda>(agent, x). bindE (dict_get (sa_agent2policy s) agent) (\<lambda>policy.
      if policy \<in> set (sa_rl_policies s) \<and> \<not> hk_is_array hk x then Inl ValueError else Inr ())) ag = Inr (map (\<lambda>_. ()) ag)"
  proof (rule mapE_Inr_map)
    fix y
    assume "y \<in> set ag"
    then show "(case y of (agent, x) \<Rightarrow> bindE (dict_get (sa_agent2policy s) agent) (\<lambda>policy.
      if policy \<in> set (sa_rl_policies s) \<and> \<not> hk_is_array hk x then Inl ValueError else Inr ())) = Inr ()"
      using policies [of "fst y" "snd y"] by (auto simp: dict_get_def split: prod.splits)
  qed
  moreover have "dict_mem g (sa_agent2policy s)" if mem: "g \<in> fst ` set ag" for g
  proof -
    obtain x where "(g, x) \<in> set ag" using mem by force
    then show ?thesis using policies [of g x] by (auto simp: dict_mem_map_of)
  qed
  ultimately show ?thesis using ag by (simp add: get_global_and_agent_state_def)
qed

lemma step_total:
  assumes ok: "hooks_ok hk s"
  shows "\<exists>t. sampler_step hk acts s = Inr t \<and> same_setup s t \<and> distinct (map fst (sa_agent_state t))
           \<and> (\<forall>g\<in>fst ` set (sa_agent_state t). dict_mem g (sa_agent2policy t))
           \<and> hk_tick hk (sa_env s) \<le> hk_tick hk (sa_env t)
           \<and> sa_total_number_interactions t = sa_total_number_interactions s
           \<and> (\<forall>event env'. hk_step hk acts (sa_env s) = Inr (event, False, env') \<longrightarrow> \<not> sa_end_of_episode t)"
proof -
  obtain event d env' where step: "hk_step hk acts (sa_env s) = Inr (event, d, env')" "hk_tick hk (sa_env s) \<le> hk_tick hk env'"
    using ok unfolding hooks_ok_def env_ok_def by blast
  define u where "u = (put_env env' s)\<lparr>sa_event := event, sa_end_of_episode := d\<rparr>"
  have "hooks_ok hk u" using ok by (rule hooks_ok_same) (simp add: u_def)
  from get_state_total [OF this, of event "hk_tick hk env'"] obtain st ag where
    "get_global_and_agent_state hk event (hk_tick hk env') u = Inr (st, ag)" "distinct (map fst ag)"
    "\<forall>g\<in>fst ` set ag. dict_mem g (sa_agent2policy u)" by blast
  then show ?thesis using step by (auto simp: sampler_step_def Let_def simp flip: u_def) (auto simp: u_def)
qed


lemma key_set_length:
  assumes "distinct (map fst d)" and "distinct (map fst d')" and "fst ` set d = fst ` set d'"
  shows "length d = length d'"
  using assms distinct_card [of "map fst d"] distinct_card [of "map fst d'"] by simp

lemma selected_keys: "fst ` set (select_trainable_agents s d) = {g \<in> fst ` set d. trainable s g}"
  by (force simp: select_trainable_agents_def)

lemma evaluate_total:
  assumes ok: "hooks_ok hk s" and e: "element_ok d tick e"
  shows "\<exists>r i. evaluate hk (hk_post_step hk) e s = Inr (e\<lparr>ex_reward := r\<rparr>, s\<lparr>sa_info := i\<rparr>)
           \<and> length r = length (ex_agent_state e)"
proof -
  obtain rewards where rewards: "hk_reward hk (sa_env s) (ca_env_action e) (ca_event e) (ex_tick e) = Inr rewards"
    "fst ` set (ca_env_action e) \<subseteq> fst ` set rewards"
    using hooks_okD(3) [OF ok] by blast
  have "bindE (dict_get rewards g) (\<lambda>r. Inr (g, r)) = Inr (g, the (map_of rewards g))" if "g \<in> set (agent_names e)" for g
  proof -
    have "g \<in> fst ` set (ex_agent_state e)" using that by (simp add: agent_names_def)
    then have "g \<in> fst ` set rewards" using e rewards(2) unfolding element_ok_def by blast
    then show ?thesis by (auto simp: dict_get_def map_of_eq_None_iff split: option.splits)
  qed
  then have r: "mapE (\<lambda>g. bindE (dict_get rewards g) (\<lambda>r. Inr (g, r))) (agent_names e)
      = Inr (map (\<lambda>g. (g, the (map_of rewards g))) (agent_names e))"
    by (rule mapE_Inr_map)
  obtain i where "hk_post_step hk (e\<lparr>ex_reward := map (\<lambda>g. (g, the (map_of rewards g))) (agent_names e)\<rparr>) (sa_info s) = Inr i"
    using hooks_okD(4) [OF ok] by blast
  then show ?thesis using rewards(1) r by (auto simp: evaluate_def calc_reward_def agent_names_def)
qed

lemma element_ok_core: "element_ok d tick (core e) = element_ok d tick e"
  by (simp add: element_ok_def core_def)

lemma elements_ok_core:
  assumes "map core c = map core c'"
  shows "list_all (element_ok d tick) c = list_all (element_ok d tick) c'"
proof -
  have "list_all (element_ok d tick) b = list_all (element_ok d tick) (map core b)" for b :: "('a, 'b, 'c, 'd, 'e) cache_element list"
    by (induction b) (auto simp: element_ok_core)
  then show ?thesis using assms by metis
qed

lemma element_ok_later: "element_ok d tick e \<Longrightarrow> tick \<le> tick' \<Longrightarrow> element_ok d tick' e"
  by (simp add: element_ok_def)

lemma count_interaction_simps [simp]:
  "sa_agent2policy (count_interaction b s) = sa_agent2policy s" "sa_env (count_interaction b s) = sa_env s"
  "sa_agent_state (count_interaction b s) = sa_agent_state s" "same_setup t (count_interaction b s) = same_setup t s"
  "sa_trainable_policies (count_interaction b s) = sa_trainable_policies s"
  "sa_transition_cache (count_interaction b s) = sa_transition_cache s"
  "sa_agent_last_index (count_interaction b s) = sa_agent_last_index s"
  "sa_reward_eval_delay (count_interaction b s) = sa_reward_eval_delay s"
  by (simp_all add: count_interaction_def)

lemma new_element_ok:
  assumes good: "sampler_good hk s"
    and actions: "distinct (map fst actions)" "fst ` set actions = fst ` set (sa_agent_state s)"
    and env_actions: "fst ` set env_actions = fst ` set actions"
  shows "element_ok (Some 0) (hk_tick hk (sa_env s)) ((new_element hk b (count_interaction b s) actions env_actions)\<lparr>ex_next_state := st\<rparr>)"
proof -
  have "trainable (count_interaction b s) = trainable s" by (auto simp: fun_eq_iff trainable_def split: option.splits)
  then have keys: "fst ` set (select_trainable_agents (count_interaction b s) d) = {g \<in> fst ` set d. trainable s g}"
    for d :: "('a \<times> 'x) list" by (simp only: selected_keys)
  have "distinct (map fst (sa_agent_state s))" using good by (simp add: sampler_good_def sampler_inv_def)
  then have "length (select_trainable_agents (count_interaction b s) actions)
      = length (select_trainable_agents (count_interaction b s) (sa_agent_state s))"
    by (intro key_set_length selected_distinct) (use actions in \<open>simp_all only: keys\<close>)
  then show ?thesis using actions env_actions by (auto simp: element_ok_def new_element_def keys selected_keys)
qed


lemma linked_cache_core: "map core (linked_cache l x c) = map core (c @ [x])"
  unfolding linked_cache_def by (rule close_all_core)

lemma linked_elements_ok:
  "list_all (element_ok d tick) (linked_cache l x c) \<longleftrightarrow> list_all (element_ok d tick) c \<and> element_ok d tick x"
  using elements_ok_core [OF linked_cache_core, of d tick l x c] by simp

lemma close_all_elements_ok: "list_all (element_ok d tick) (close_all cs c) \<longleftrightarrow> list_all (element_ok d tick) c"
  by (rule elements_ok_core) (rule close_all_core)

text \<open>The element is evaluated before it is appended, unless rewards are delayed.\<close>

lemma evaluated_total:
  assumes ok: "hooks_ok hk v" and e: "element_ok (Some 0) tick e"
  shows "\<exists>x u. (if sa_reward_eval_delay v = None then evaluate hk (hk_post_step hk) e v else Inr (e, v)) = Inr (x, u)
    \<and> element_ok (sa_reward_eval_delay v) tick x \<and> (\<exists>r. x = e\<lparr>ex_reward := r\<rparr>) \<and> (\<exists>i. u = v\<lparr>sa_info := i\<rparr>)"
proof (cases "sa_reward_eval_delay v")
  case None
  from evaluate_total [OF ok e] obtain r i where
    x: "evaluate hk (hk_post_step hk) e v = Inr (e\<lparr>ex_reward := r\<rparr>, v\<lparr>sa_info := i\<rparr>)" "length r = length (ex_agent_state e)"
    by blast
  have "element_ok None tick (e\<lparr>ex_reward := r\<rparr>)" using e x(2) by (simp add: element_ok_def)
  then show ?thesis unfolding None using x(1) by (intro exI conjI) (simp, assumption, rule refl, rule refl)
next
  case (Some d)
  have "element_ok (Some d) tick e" using e by (simp add: element_ok_def)
  moreover have "e = e\<lparr>ex_reward := ex_reward e\<rparr>" "v = v\<lparr>sa_info := sa_info v\<rparr>" by simp_all
  ultimately show ?thesis unfolding Some by (intro exI conjI) (simp, assumption+)
qed

lemma interact_total:
  assumes ok: "hooks_ok hk s" and good: "sampler_good hk s"
  shows "\<exists>t. interact hk (hk_post_step hk) True s = Inr t \<and> same_setup s t \<and> sampler_good hk t
           \<and> length (sa_transition_cache t) = Suc (length (sa_transition_cache s))
           \<and> sa_total_number_interactions t = Suc (sa_total_number_interactions s)"
proof -
  let ?c = "count_interaction True s"
  have inv: "sampler_inv s" and dist: "distinct (map fst (sa_agent_state s))"
    and known: "\<forall>g\<in>fst ` set (sa_agent_state s). dict_mem g (sa_agent2policy s)"
    using good by (auto simp: sampler_good_def sampler_inv_def)
  obtain actions where actions: "hk_choose hk (sa_agent_state s) = Inr actions" "distinct (map fst actions)"
    "fst ` set actions = fst ` set (sa_agent_state s)" using hooks_okD(1) [OF ok dist known] by blast
  obtain env_actions where env_actions: "hk_translate hk actions (sa_event s) = Inr env_actions"
    "fst ` set env_actions = fst ` set actions" using hooks_okD(2) [OF ok] by blast
  have okc: "hooks_ok hk ?c" using ok by (rule hooks_ok_same) simp
  from step_total [OF okc, of "Some (map snd env_actions)"] obtain v where
    v: "sampler_step hk (Some (map snd env_actions)) ?c = Inr v" "same_setup ?c v" "distinct (map fst (sa_agent_state v))"
      "\<forall>g\<in>fst ` set (sa_agent_state v). dict_mem g (sa_agent2policy v)" "hk_tick hk (sa_env s) \<le> hk_tick hk (sa_env v)"
      "sa_total_number_interactions v = sa_total_number_interactions ?c" by auto
  have frame: "sa_transition_cache v = sa_transition_cache s" "sa_agent_last_index v = sa_agent_last_index s"
    using sampler_step_facts [OF v(1)] by simp_all
  have conf: "same_setup s v" using v(2) by (simp add: same_setup_def count_interaction_def)
  define e where "e = (new_element hk True ?c actions env_actions)\<lparr>ex_next_state := sa_state v\<rparr>"
  have e: "element_ok (Some 0) (hk_tick hk (sa_env v)) e"
    unfolding e_def by (rule element_ok_later [OF new_element_ok [OF good actions(2,3) env_actions(2)] v(5)])
  obtain x u r i where x: "(if sa_reward_eval_delay v = None then evaluate hk (hk_post_step hk) e v else Inr (e, v)) = Inr (x, u)"
    "element_ok (sa_reward_eval_delay v) (hk_tick hk (sa_env v)) x" "x = e\<lparr>ex_reward := r\<rparr>" "u = v\<lparr>sa_info := i\<rparr>"
    using evaluated_total [OF hooks_ok_same [OF ok conf] e] by blast
  have keys: "closed_keys x" using new_element_keys [OF inv] by (simp add: x(3) e_def)
  have cinv: "cache_inv (sa_transition_cache u) (sa_agent_last_index u)"
    using inv by (simp add: x(4) frame sampler_inv_def)
  define t where "t = u\<lparr>sa_transition_cache := linked_cache (sa_agent_last_index u) x (sa_transition_cache u),
      sa_agent_last_index := moved_index (length (sa_transition_cache u)) x (sa_agent_last_index u)\<rparr>"
  have run: "interact hk (hk_post_step hk) True s = Inr t"
    by (rule interactI [OF actions(1) env_actions(1) v(1) e_def x(1)]) (simp add: append_cache_element_eq [OF cinv keys] t_def)
  have "list_all (element_ok (sa_reward_eval_delay v) (hk_tick hk (sa_env v))) (sa_transition_cache s)"
    using good conf v(5) by (auto simp: sampler_good_def same_setup_def list_all_iff element_ok_later)
  then have "list_all (element_ok (sa_reward_eval_delay v) (hk_tick hk (sa_env v))) (sa_transition_cache t)"
    using x(2) by (simp add: t_def x(4) frame linked_elements_ok)
  then have "sampler_good hk t" using linked_cache_inv [OF cinv keys] v(3,4)
    by (simp add: sampler_good_def sampler_inv_def t_def x(4))
  then show ?thesis using run conf v(6) by (simp add: t_def x(4) frame count_interaction_def)
qed


section \<open>Rounds of collecting\<close>

definition closed :: "('g, 's, 'a, 'z) exp_element_scheme \<Rightarrow> bool" where
  "closed e \<longleftrightarrow> length (ex_terminal e) = length (ex_agent_state e) \<and> length (ex_next_agent_state e) = length (ex_agent_state e)"

lemma settled_closed:
  assumes keys: "closed_keys (c ! i)" and all: "\<And>g. dict_mem g (ex_agent_state (c ! i)) \<Longrightarrow> settled d c i g"
  shows "closed (c ! i)"
proof -
  have agent: "map_of (ex_terminal (c ! i)) g \<noteq> None \<and> map_of (ex_next_agent_state (c ! i)) g \<noteq> None"
    if "g \<in> fst ` set (ex_agent_state (c ! i))" for g
  proof -
    have "dict_mem g (ex_agent_state (c ! i))" using that by (simp add: dict_mem_map_of map_of_eq_None_iff)
    from all [OF this] this show ?thesis
      by (auto simp: settled_def dict_mem_map_of split: option.splits dest!: next_occurrence_Some)
  qed
  have "fst ` set (ex_agent_state (c ! i)) \<subseteq> fst ` set (ex_terminal (c ! i))"
    "fst ` set (ex_agent_state (c ! i)) \<subseteq> fst ` set (ex_next_agent_state (c ! i))"
    using agent by (simp_all add: map_of_eq_None_iff subsetI)
  then show ?thesis using keys unfolding closed_def closed_keys_def by (intro conjI key_set_length) auto
qed

lemma settle_total:
  assumes ok: "hooks_ok hk s" and e: "element_ok (sa_reward_eval_delay s) tick e"
  shows "\<exists>x i. settle hk (hk_post_step hk) e s = Inr (x, s\<lparr>sa_info := i\<rparr>)
           \<and> element_ok None tick x \<and> (\<exists>r. x = e\<lparr>ex_reward := r\<rparr>)"
proof (cases "sa_reward_eval_delay s")
  case None
  have "settle hk (hk_post_step hk) e s = Inr (e, s\<lparr>sa_info := sa_info s\<rparr>)" by (simp add: settle_def None)
  moreover have "e = e\<lparr>ex_reward := ex_reward e\<rparr>" by simp
  ultimately show ?thesis using e None by metis
next
  case (Some d)
  from evaluate_total [OF ok e] obtain r i where
    "evaluate hk (hk_post_step hk) e s = Inr (e\<lparr>ex_reward := r\<rparr>, s\<lparr>sa_info := i\<rparr>)" "length r = length (ex_agent_state e)" by blast
  with Some e show ?thesis by (auto simp: settle_def element_ok_def)
qed

lemma pop_loop_total:
  assumes "hooks_ok hk s" and "list_all (element_ok (sa_reward_eval_delay s) tick) es" and "list_all closed es"
  shows "\<exists>r. foldE (\<lambda>e (exps, s).
             bindE (settle hk (hk_post_step hk) e s) (\<lambda>(e, s).
               if True then bindE (make_exp_element e) (\<lambda>x. Inr (exps @ [x], s)) else Inr (exps, s))) es (acc, s) = Inr r"
  using assms
proof (induction es arbitrary: acc s)
  case Nil
  then show ?case by simp
next
  case (Cons e es)
  from settle_total [of hk s tick e] Cons.prems obtain x i r where
    x: "settle hk (hk_post_step hk) e s = Inr (x, s\<lparr>sa_info := i\<rparr>)" "element_ok None tick x" "x = e\<lparr>ex_reward := r\<rparr>" by auto
  have "closed x" using Cons.prems(3) by (simp add: x(3) closed_def)
  then have "make_exp_element x = Inr (exp_element.truncate x)" using x(2) by (simp add: make_exp_element_def closed_def element_ok_def)
  moreover have "hooks_ok hk (s\<lparr>sa_info := i\<rparr>)" using Cons.prems(1) by (simp add: hooks_ok_def)
  ultimately show ?case using Cons.IH [of "s\<lparr>sa_info := i\<rparr>"] Cons.prems(2,3) x(1) by simp
qed


lemma pop_due_total:
  assumes ok: "hooks_ok hk s" and cache: "list_all (element_ok (sa_reward_eval_delay s) (hk_tick hk (sa_env s))) (sa_transition_cache s)"
    and "list_all closed (sa_transition_cache s)"
  shows "\<exists>exps i. pop_due hk (hk_post_step hk) True s
      = Inr (exps, s\<lparr>sa_info := i, sa_transition_cache := drop (length exps) (sa_transition_cache s)\<rparr>)
    \<and> length exps \<le> length (sa_transition_cache s)
    \<and> (sa_reward_eval_delay s = None \<longrightarrow> length exps = length (sa_transition_cache s))"
proof -
  let ?due = "takeWhile (\<lambda>e. ex_tick e \<le> tick_bound hk s) (sa_transition_cache s)"
  have "list_all P ?due" if "list_all P (sa_transition_cache s)" for P
    using that by (auto simp: list_all_iff dest: set_takeWhileD)
  from pop_loop_total [OF ok this [OF cache] this [OF assms(3)], of "[]"] obtain exps u where
    loop: "foldE (\<lambda>e (exps, s). bindE (settle hk (hk_post_step hk) e s) (\<lambda>(e, s).
        if True then bindE (make_exp_element e) (\<lambda>x. Inr (exps @ [x], s)) else Inr (exps, s))) ?due ([], s) = Inr (exps, u)"
    by force
  from pop_loop_frame [OF loop] obtain i where u: "u = s\<lparr>sa_info := i\<rparr>" and len: "length exps = length ?due" by auto
  have "?due = sa_transition_cache s" if "sa_reward_eval_delay s = None"
    using cache that by (auto simp: takeWhile_eq_all_conv tick_bound_def list_all_iff element_ok_def)
  then have "sa_reward_eval_delay s = None \<longrightarrow> length exps = length (sa_transition_cache s)"
    unfolding len by (intro impI) (rule arg_cong [where f = length])
  moreover have "length exps \<le> length (sa_transition_cache s)" unfolding len by (rule length_takeWhile_le)
  moreover have "pop_due hk (hk_post_step hk) True s
      = Inr (exps, s\<lparr>sa_info := i, sa_transition_cache := drop (length exps) (sa_transition_cache s)\<rparr>)"
    unfolding pop_due_def Let_def loop u len by simp
  ultimately show ?thesis by (metis (no_types, lifting))
qed

lemma round_total:
  assumes ok: "hooks_ok hk s" and good: "sampler_good hk s"
  shows "\<exists>exps t. bindE (append_nothing s) (pop_due hk (hk_post_step hk) True) = Inr (exps, t) \<and> same_setup s t
    \<and> sampler_good hk (t\<lparr>sa_agent_last_index := shift_last_index (length exps) (sa_agent_last_index t)\<rparr>)
    \<and> sa_total_number_interactions t = sa_total_number_interactions s
    \<and> (sa_reward_eval_delay s = None \<longrightarrow> length exps = length (sa_transition_cache s) \<and> sa_transition_cache t = [])"
proof -
  have inv: "sampler_inv s" using good by (simp add: sampler_good_def)
  then have c: "cache_inv (sa_transition_cache s) (sa_agent_last_index s)" by (simp add: sampler_inv_def)
  let ?flushed = "flushed_cache (sa_end_of_episode s) (sa_agent_last_index s) (sa_transition_cache s)"
  define u where "u = s\<lparr>sa_transition_cache := ?flushed\<rparr>"
  have u: "append_nothing s = Inr u" by (simp add: append_nothing_eq [OF c] u_def)
  have len: "length ?flushed = length (sa_transition_cache s)" by (simp add: flushed_cache_def)
  have elements: "list_all (element_ok (sa_reward_eval_delay s) (hk_tick hk (sa_env s))) ?flushed"
    using good by (simp add: sampler_good_def flushed_cache_def close_all_elements_ok)
  have keys: "list_all closed_keys ?flushed" using flushed_inv [OF c] by (simp add: cache_inv_def)
  have "closed (?flushed ! i)" if i: "i < length ?flushed" for i
  proof (rule settled_closed)
    show "closed_keys (?flushed ! i)" using keys i by (simp add: list_all_length)
    show "settled (sa_end_of_episode s) ?flushed i g" if "dict_mem g (ex_agent_state (?flushed ! i))" for g
      using i that by (intro flushed_settled [OF c]) (auto simp: len flushed_cache_def close_all_agents_nth)
  qed
  then have "list_all closed ?flushed" by (simp add: list_all_length)
  moreover have "hooks_ok hk u" using ok by (rule hooks_ok_same) (simp add: u_def)
  ultimately obtain exps i where pop: "pop_due hk (hk_post_step hk) True u
      = Inr (exps, u\<lparr>sa_info := i, sa_transition_cache := drop (length exps) ?flushed\<rparr>)"
    "sa_reward_eval_delay s = None \<longrightarrow> length exps = length (sa_transition_cache s)"
    using pop_due_total [of hk u] elements by (auto simp: u_def len)
  let ?t = "u\<lparr>sa_info := i, sa_transition_cache := drop (length exps) ?flushed\<rparr>"
  have step: "bindE (append_nothing s) (pop_due hk (hk_post_step hk) True) = Inr (exps, ?t)" using u pop(1) by simp
  have "list_all (element_ok (sa_reward_eval_delay s) (hk_tick hk (sa_env s))) (drop (length exps) ?flushed)"
    using elements by (auto simp: list_all_iff dest: in_set_dropD)
  then have good': "sampler_good hk (?t\<lparr>sa_agent_last_index := shift_last_index (length exps) (sa_agent_last_index ?t)\<rparr>)"
    using collected_inv [OF inv step] good by (simp add: sampler_good_def u_def)
  show ?thesis
  proof (intro exI conjI)
    show "bindE (append_nothing s) (pop_due hk (hk_post_step hk) True) = Inr (exps, ?t)" by (rule step)
    show "sampler_good hk (?t\<lparr>sa_agent_last_index := shift_last_index (length exps) (sa_agent_last_index ?t)\<rparr>)" by (rule good')
    show "same_setup s ?t" "sa_total_number_interactions ?t = sa_total_number_interactions s" by (simp_all add: u_def)
    show "sa_reward_eval_delay s = None \<longrightarrow> length exps = length (sa_transition_cache s) \<and> sa_transition_cache ?t = []"
      using pop(2) len by simp
  qed
qed

lemma collect_total:
  assumes "hooks_ok hk s" and "sampler_good hk s"
  shows "\<exists>m t. collect hk (Some n) s = Some (Inr (Some m, t)) \<and> same_setup s t \<and> sampler_good hk t \<and> m \<le> n
    \<and> (m = n \<longrightarrow> n = 0 \<or> sa_end_of_episode s \<or> sa_truncated s)
    \<and> sa_total_number_interactions t = sa_total_number_interactions s + (n - m)
    \<and> length (sa_transition_cache t) = length (sa_transition_cache s) + (n - m)"
  using assms
proof (induction n arbitrary: s)
  case 0
  then show ?case by (simp add: collect.simps [of hk "Some 0"])
next
  case (Suc n)
  show ?case
  proof (cases "sa_end_of_episode s \<or> sa_truncated s")
    case True
    then show ?thesis using Suc.prems by (simp add: collect.simps [of hk "Some (Suc n)"])
  next
    case False
    obtain u where u: "interact hk (hk_post_step hk) True s = Inr u" "same_setup s u" "sampler_good hk u"
      "length (sa_transition_cache u) = Suc (length (sa_transition_cache s))"
      "sa_total_number_interactions u = Suc (sa_total_number_interactions s)"
      using interact_total [OF Suc.prems] by blast
    obtain m t where m: "collect hk (Some n) u = Some (Inr (Some m, t))" "same_setup u t" "sampler_good hk t" "m \<le> n"
      "sa_total_number_interactions t = sa_total_number_interactions u + (n - m)"
      "length (sa_transition_cache t) = length (sa_transition_cache u) + (n - m)"
      using Suc.IH [OF hooks_ok_same [OF Suc.prems(1) u(2)] u(3)] by blast
    have "collect hk (Some (Suc n)) s = Some (Inr (Some m, t))"
      using False u(1) m(1) by (simp add: collect.simps [of hk "Some (Suc n)"])
    then show ?thesis using m u same_setup_trans [OF u(2) m(2)] by auto
  qed
qed

lemma reset_total:
  assumes ok: "hooks_ok hk s" and max: "sa_max_episode_length s \<noteq> Some 0"
  shows "\<exists>t. sampler_reset hk s = Inr t \<and> same_setup s t \<and> sampler_good hk t \<and> \<not> sa_end_of_episode t \<and> \<not> sa_truncated t
    \<and> sa_total_number_interactions t = sa_total_number_interactions s \<and> sa_transition_cache t = []"
proof -
  obtain env event env' where env: "hk_reset hk (sa_env s) = Inr env" "hk_step hk None env = Inr (event, False, env')"
    using ok unfolding hooks_ok_def env_ok_def by blast
  define u where "u = (put_env env s)\<lparr>sa_current_episode_length := 0, sa_info := hk_no_info hk, sa_transition_cache := [],
      sa_agent_last_index := []\<rparr>"
  have "hooks_ok hk u" using ok by (rule hooks_ok_same) (simp add: u_def)
  from step_total [OF this, of None] obtain t where t: "sampler_step hk None u = Inr t" "same_setup u t"
    "distinct (map fst (sa_agent_state t))" "\<forall>g\<in>fst ` set (sa_agent_state t). dict_mem g (sa_agent2policy t)"
    "sa_total_number_interactions t = sa_total_number_interactions u"
    "\<forall>event env'. hk_step hk None (sa_env u) = Inr (event, False, env') \<longrightarrow> \<not> sa_end_of_episode t" by blast
  have "same_setup s t" using same_setup_trans [OF _ t(2), of s] by (simp add: u_def)
  moreover have "\<not> sa_end_of_episode t" using t(6) env(2) by (simp add: u_def)
  moreover have "\<not> sa_truncated t" using sampler_step_facts [OF t(1)] max by (simp add: sa_truncated_def u_def)
  moreover have "sampler_good hk t" "sa_transition_cache t = []"
    using sampler_step_facts [OF t(1)] t(3,4) by (simp_all add: sampler_good_def sampler_inv_def u_def cache_inv_empty)
  moreover have "sampler_reset hk s = Inr t" using t(1) env(1) by (simp add: sampler_reset_def u_def)
  ultimately show ?thesis using t(5) by (auto simp: u_def)
qed


text \<open>A pass of the outer loop: perhaps a reset, then a round.\<close>

lemma restart_total:
  assumes ok: "hooks_ok hk s" and max: "sa_max_episode_length s \<noteq> Some 0"
    and good: "sa_end_of_episode s \<or> sampler_good hk s"
  shows "\<exists>u. (if sa_end_of_episode s \<or> sa_truncated s then sampler_reset hk s else Inr s) = Inr u \<and> same_setup s u
    \<and> sampler_good hk u \<and> \<not> sa_end_of_episode u \<and> \<not> sa_truncated u
    \<and> sa_total_number_interactions u = sa_total_number_interactions s
    \<and> (sa_transition_cache s = [] \<longrightarrow> sa_transition_cache u = [])"
proof (cases "sa_end_of_episode s \<or> sa_truncated s")
  case True
  then show ?thesis using reset_total [OF ok max] by auto
next
  case False
  then show ?thesis using good by simp
qed

lemma pass_total:
  assumes ok: "hooks_ok hk s" and max: "sa_max_episode_length s \<noteq> Some 0"
    and good: "sa_end_of_episode s \<or> sampler_good hk s" and n: "0 < n"
  obtains m x y where "\<And>acc. sample_loop hk (Some n) acc s = sample_loop hk (Some m) (acc @ x) y"
    "m < n" "same_setup s y" "sampler_good hk y"
    "sa_total_number_interactions y = sa_total_number_interactions s + (n - m)"
    "sa_reward_eval_delay s = None \<Longrightarrow> sa_transition_cache s = [] \<Longrightarrow> length x = n - m \<and> sa_transition_cache y = []"
proof -
  obtain u where u: "(if sa_end_of_episode s \<or> sa_truncated s then sampler_reset hk s else Inr s) = Inr u"
    "same_setup s u" "sampler_good hk u" "\<not> sa_end_of_episode u" "\<not> sa_truncated u"
    "sa_total_number_interactions u = sa_total_number_interactions s"
    "sa_transition_cache s = [] \<longrightarrow> sa_transition_cache u = []"
    using restart_total [OF ok max good] by blast
  note oku = hooks_ok_same [OF ok u(2)]
  obtain m v where v: "collect hk (Some n) u = Some (Inr (Some m, v))" "same_setup u v" "sampler_good hk v" "m \<le> n"
    "m = n \<longrightarrow> n = 0 \<or> sa_end_of_episode u \<or> sa_truncated u"
    "sa_total_number_interactions v = sa_total_number_interactions u + (n - m)"
    "length (sa_transition_cache v) = length (sa_transition_cache u) + (n - m)"
    using collect_total [OF oku u(3)] by blast
  have m: "m < n" using v(4,5) n u(4,5) by force
  obtain x w where w: "bindE (append_nothing v) (pop_due hk (hk_post_step hk) True) = Inr (x, w)" "same_setup v w"
    "sampler_good hk (w\<lparr>sa_agent_last_index := shift_last_index (length x) (sa_agent_last_index w)\<rparr>)"
    "sa_total_number_interactions w = sa_total_number_interactions v"
    "sa_reward_eval_delay v = None \<longrightarrow> length x = length (sa_transition_cache v) \<and> sa_transition_cache w = []"
    using round_total [OF hooks_ok_same [OF oku v(2)] v(3)] by (elim exE conjE) (rule that; assumption)
  define y where "y = w\<lparr>sa_agent_last_index := shift_last_index (length x) (sa_agent_last_index w)\<rparr>"
  show thesis
  proof (rule that)
    show "sample_loop hk (Some n) acc s = sample_loop hk (Some m) (acc @ x) y" for acc
      using n u(1) v(1) w(1) by (simp add: sample_loop.simps [of hk "Some n"] y_def split del: if_split)
    show "same_setup s y" using same_setup_trans [OF same_setup_trans [OF u(2) v(2)] w(2)] by (simp add: y_def)
    show "sampler_good hk y" using w(3) by (simp add: y_def)
    show "sa_total_number_interactions y = sa_total_number_interactions s + (n - m)" using w(4) v(6) u(6) by (simp add: y_def)
    show "length x = n - m \<and> sa_transition_cache y = []" if "sa_reward_eval_delay s = None" "sa_transition_cache s = []"
    proof -
      have "sa_reward_eval_delay v = None" using that(1) u(2) v(2) by (simp add: same_setup_def)
      then show ?thesis using that(2) u(7) v(7) w(5) by (simp add: y_def)
    qed
  qed (rule m)
qed

lemma sample_loop_total:
  assumes "hooks_ok hk s" and "sa_max_episode_length s \<noteq> Some 0" and "sa_end_of_episode s \<or> sampler_good hk s"
  shows "\<exists>exps t. sample_loop hk (Some n) acc s = Some (Inr (acc @ exps, t))
    \<and> sa_total_number_interactions t = sa_total_number_interactions s + n
    \<and> (sa_reward_eval_delay s = None \<longrightarrow> sa_transition_cache s = [] \<longrightarrow> length exps = n)"
  using assms
proof (induction n arbitrary: acc s rule: less_induct)
  case (less n)
  show ?case
  proof (cases "n = 0")
    case True
    then show ?thesis by (simp add: sample_loop.simps [of hk "Some 0"])
  next
    case False
    then obtain m x y where y: "\<And>acc. sample_loop hk (Some n) acc s = sample_loop hk (Some m) (acc @ x) y"
      "m < n" "same_setup s y" "sampler_good hk y"
      "sa_total_number_interactions y = sa_total_number_interactions s + (n - m)"
      "sa_reward_eval_delay s = None \<Longrightarrow> sa_transition_cache s = [] \<Longrightarrow> length x = n - m \<and> sa_transition_cache y = []"
      using pass_total [OF less.prems, of n] by blast
    have max_y: "sa_max_episode_length y \<noteq> Some 0" using less.prems(2) y(3) by (simp add: same_setup_def)
    obtain exps t where t: "sample_loop hk (Some m) (acc @ x) y = Some (Inr ((acc @ x) @ exps, t))"
      "sa_total_number_interactions t = sa_total_number_interactions y + m"
      "sa_reward_eval_delay y = None \<longrightarrow> sa_transition_cache y = [] \<longrightarrow> length exps = m"
      using less.IH [OF y(2) hooks_ok_same [OF less.prems(1) y(3)] max_y disjI2 [OF y(4)]] by blast
    have "sample_loop hk (Some n) acc s = Some (Inr (acc @ (x @ exps), t))" using y(1) t(1) by simp
    moreover have "sa_total_number_interactions t = sa_total_number_interactions s + n" using t(2) y(2,5) by simp
    moreover have "length (x @ exps) = n" if d: "sa_reward_eval_delay s = None" and "sa_transition_cache s = []"
      using t(3) y(2) y(6) [OF that] y(3) d by (simp add: same_setup_def)
    ultimately show ?thesis by metis
  qed
qed

text \<open>C29: Sampling n interactions ends: on an environment that answers its steps the sampler
  returns without an error, over as many episodes as it takes, counts exactly n more interactions,
  and without a delay of the rewards hands out exactly n experiences.\<close>

theorem sample_counts_steps:
  assumes "hooks_ok hk s" and "sa_max_episode_length s \<noteq> Some 0"
    and "sa_end_of_episode s \<or> sampler_good hk (s\<lparr>sa_on_test := False\<rparr>)"
  shows "\<exists>exps t. sampler_sample hk (Some n) s = Some (Inr (exps, t))
    \<and> sa_total_number_interactions t = sa_total_number_interactions s + n
    \<and> (sa_reward_eval_delay s = None \<longrightarrow> sa_end_of_episode s \<or> sa_transition_cache s = [] \<longrightarrow> length exps = n)"
proof -
  define l where "l = s\<lparr>sa_on_test := False\<rparr>"
  have l: "hooks_ok hk l" "sa_max_episode_length l \<noteq> Some 0" "sa_end_of_episode l = sa_end_of_episode s"
    using assms(1,2) by (simp_all add: l_def hooks_ok_def)
  have "\<exists>u. (if sa_end_of_episode l then sampler_reset hk l else Inr l) = Inr u \<and> same_setup l u \<and> sampler_good hk u
      \<and> sa_total_number_interactions u = sa_total_number_interactions l
      \<and> (sa_end_of_episode l \<or> sa_transition_cache l = [] \<longrightarrow> sa_transition_cache u = [])"
  proof (cases "sa_end_of_episode l")
    case True
    then show ?thesis using reset_total [OF l(1,2)] by auto
  next
    case False
    then show ?thesis using assms(3) l(3) by (simp add: l_def)
  qed
  then obtain u where u: "(if sa_end_of_episode l then sampler_reset hk l else Inr l) = Inr u" "same_setup l u" "sampler_good hk u"
    "sa_total_number_interactions u = sa_total_number_interactions l"
    "sa_end_of_episode l \<or> sa_transition_cache l = [] \<longrightarrow> sa_transition_cache u = []" by blast
  have "sa_max_episode_length u \<noteq> Some 0" using l(2) u(2) by (simp add: same_setup_def)
  from sample_loop_total [OF hooks_ok_same [OF l(1) u(2)] this disjI2 [OF u(3)], of n "[]"] obtain exps t where
    "sample_loop hk (Some n) [] u = Some (Inr (exps, t))"
    "sa_total_number_interactions t = sa_total_number_interactions u + n"
    "sa_reward_eval_delay u = None \<longrightarrow> sa_transition_cache u = [] \<longrightarrow> length exps = n" by auto
  moreover have "sampler_sample hk (Some n) s = sample_loop hk (Some n) [] u"
    using u(1) by (simp add: sampler_sample_def l_def split: if_splits)
  moreover have "sa_reward_eval_delay u = sa_reward_eval_delay s" using u(2) by (simp add: same_setup_def l_def)
  ultimately show ?thesis using u(4,5) l(3) by (auto simp: l_def)
qed

end
