(* ===== verification/EnvSamplerSamples.thy ===== *)
theory EnvSamplerSamples imports EnvSamplerProps EnvSamplerTotals begin

text \<open>The theorems on the sampler at concrete inputs: an environment of four ticks with two agents taking turns.\<close>

definition turn_hooks :: "(nat, nat, nat, nat, nat, nat, nat) hooks" where
  "turn_hooks =
     \<lparr>hk_step = (\<lambda>acts e. Inr (Some e, 3 \<le> e, Suc e)), hk_reset = (\<lambda>e. Inr 0), hk_tick = int,
      hk_get_state = (\<lambda>e event tick. Inr (None, [(e mod 2, e)])), hk_is_array = (\<lambda>x. True),
      hk_choose = (\<lambda>agents. Inr (map (\<lambda>(g, x). (g, x + 10)) agents)), hk_translate = (\<lambda>actions event. Inr actions),
      hk_reward = (\<lambda>e actions event tick. Inr (map (\<lambda>(g, a). (g, of_nat a)) actions)),
      hk_post_step = (\<lambda>e i. Inr (Suc i)), hk_post_eval_step = (\<lambda>e i. Inr i), hk_no_info = 0\<rparr>"

definition turn_sampler :: "nat option \<Rightarrow> (nat, nat, nat, nat, nat, nat, nat) sampler" where
  "turn_sampler max_length =
     \<lparr>sa_learn_env = 0, sa_test_env = 0, sa_on_test = False, sa_event = None, sa_end_of_episode = True, sa_state = None,
      sa_agent_state = [], sa_transition_cache = [], sa_agent_last_index = [], sa_reward_eval_delay = None,
      sa_max_episode_length = max_length, sa_current_episode_length = 0, sa_info = 0,
      sa_agent2policy = [(0, ''p''), (1, ''q'')], sa_rl_policies = [''p'', ''q''], sa_trainable_policies = [''p'', ''q''],
      sa_total_number_interactions = 0\<rparr>"

lemma turn_hooks_ok: "hooks_ok turn_hooks (turn_sampler l)"
proof -
  have env: "env_ok turn_hooks" by (simp add: env_ok_def turn_hooks_def)
  have "agents_ok turn_hooks [(0, ''p''), (1, ''q'')] rl" for rl
    by (auto simp: agents_ok_def turn_hooks_def comp_def case_prod_unfold dict_mem_def image_image intro: rev_image_eqI)
  then show ?thesis using env by (simp add: hooks_ok_def turn_sampler_def)
qed

theorem sample_counts_steps_witness:
  "\<exists>exps t. sampler_sample turn_hooks (Some 10) (turn_sampler (Some 2)) = Some (Inr (exps, t))
     \<and> sa_total_number_interactions t = 10 \<and> length exps = 10"
  using sample_counts_steps [of turn_hooks "turn_sampler (Some 2)" 10] turn_hooks_ok
  by (auto simp: turn_sampler_def)


lemma turn_dicts_ok: "dicts_ok turn_hooks"
  by (auto simp: dicts_ok_def turn_hooks_def)

text \<open>After the reset and two interactions the first agent has not come up again and the second is the current one.\<close>

theorem flush_settles_witness:
  "\<exists>s t. sampler_run turn_hooks s \<and> length (sa_transition_cache s) = 2 \<and> append_nothing s = Inr t
     \<and> (\<forall>i<2. \<forall>(g, x)\<in>set (ex_agent_state (sa_transition_cache t ! i)).
          settled (sa_end_of_episode s) (sa_transition_cache t) i g)"
proof -
  have start: "hooks_ok turn_hooks (turn_sampler None)" "sa_max_episode_length (turn_sampler None) \<noteq> Some 0"
    by (rule turn_hooks_ok) (simp add: turn_sampler_def)
  obtain a where a: "sampler_reset turn_hooks (turn_sampler None) = Inr a" "same_setup (turn_sampler None) a"
    "sampler_good turn_hooks a" "sa_transition_cache a = []" using reset_total [OF start] by blast
  obtain b where b: "interact turn_hooks (hk_post_step turn_hooks) True a = Inr b" "same_setup a b" "sampler_good turn_hooks b"
    "length (sa_transition_cache b) = 1"
    using interact_total [OF hooks_ok_same [OF start(1) a(2)] a(3)] a(4) by auto
  obtain c where c: "interact turn_hooks (hk_post_step turn_hooks) True b = Inr c" "length (sa_transition_cache c) = 2"
    using interact_total [OF hooks_ok_same [OF hooks_ok_same [OF start(1) a(2)] b(2)] b(3)] b(4) by auto
  have run: "sampler_run turn_hooks c"
    by (rule sampler_run.acted [OF sampler_run.acted [OF sampler_run.fresh [OF a(1)] b(1)] c(1)])
  show ?thesis using flush_settles [OF turn_dicts_ok run] run c(2) by force
qed

theorem choose_actions_by_policy_witness:
  "\<exists>actions. choose_actions [(0, ''p''), (1, ''q''), (2, ''p'')] (\<lambda>p xs. Inr (map (\<lambda>x. length p + x) xs)) [(2, 5), (1, 6), (0, 7)]
       = Inr actions \<and> map_of actions 2 = Some 6 \<and> map_of actions (0 :: nat) = Some 8"
proof -
  have pre: "distinct (map fst [(2 :: nat, 5 :: nat), (1, 6), (0, 7)])"
    "\<forall>g\<in>fst ` set [(2 :: nat, 5 :: nat), (1, 6), (0, 7)]. dict_mem g [(0, ''p''), (1, ''q''), (2, ''p'')]"
    by (simp_all add: dict_mem_def)
  show ?thesis
    using choose_actions_by_policy [OF pre, of "\<lambda>p xs. Inr (map (\<lambda>x. length p + x) xs)" "\<lambda>p x. length p + x"] by auto
qed

end
