(* ===== verification/RlWorkflow.thy ===== *)
theory RlWorkflow imports EnvSampler PyStrings begin

text \<open>
  A training job: the bundle of its components (\<open>rl/rl_component/rl_component_bundle.py\<close>), the manager of its
  trainers and what a trainer records (\<open>rl/training/training_manager.py\<close>, \<open>trainer.py\<close>), the loop over episodes with
  its callbacks (\<open>rl/workflows/main.py\<close>, \<open>callback.py\<close>), and remote sampling (\<open>rl/rollout/batch_env_sampler.py\<close>).

  A policy is its name and whether it is an \<open>RLPolicy\<close>.  Networks, devices, files and logging are not modelled.
\<close>

section \<open>The bundle\<close>

datatype trainer_kind = SingleAgent | MultiAgent

record 'g rl_bundle =
  rb_agent2policy :: "('g \<times> string) list"
  rb_policies :: "(string \<times> bool) list"
  rb_trainers :: "(string \<times> trainer_kind) list"
  rb_device_mapping :: "(string \<times> string) list"
  rb_policy_trainer :: "(string \<times> string) list"

text \<open>Without a mapping a policy belongs to the trainer named by the first segment of its name.\<close>

definition default_mapping :: "string list \<Rightarrow> (string \<times> string) list" where
  "default_mapping names = map (\<lambda>p. (p, hd (split_on CHR ''.'' p))) (remdups names)"

definition make_bundle ::
  "('g \<times> string) list \<Rightarrow> (string \<times> bool) list \<Rightarrow> (string \<times> trainer_kind) list \<Rightarrow> (string \<times> string) list option
     \<Rightarrow> (string \<times> string) list option \<Rightarrow> 'g rl_bundle res" where
  "make_bundle agent2policy policies trainers device_mapping policy_trainer_mapping =
     (let names = map fst policies; used = map snd agent2policy
      in if \<not> list_all (\<lambda>p. p \<in> set names) used then Inl ValueError
         else if \<not> list_all (\<lambda>p. p \<in> set used) names then Inl (MaroError ''Warning'')
         else let mapping = filter (\<lambda>(p, t). p \<in> set names)
                    (case policy_trainer_mapping of Some m \<Rightarrow> m | None \<Rightarrow> default_mapping names)
              in if \<not> list_all (\<lambda>(p, t). t \<in> fst ` set trainers) mapping then Inl ValueError
                 else if \<not> list_all (\<lambda>(t, k). t \<in> snd ` set mapping) trainers then Inl (MaroError ''Warning'')
                 else Inr \<lparr>rb_agent2policy = agent2policy, rb_policies = policies, rb_trainers = trainers,
                           rb_device_mapping =
                             (case device_mapping of None \<Rightarrow> [] | Some d \<Rightarrow> filter (\<lambda>(p, x). p \<in> set names) d),
                           rb_policy_trainer = mapping\<rparr>)"

definition trainable_agent2policy :: "'g rl_bundle \<Rightarrow> ('g \<times> string) list" where
  "trainable_agent2policy b = filter (\<lambda>(g, p). dict_mem p (rb_policy_trainer b)) (rb_agent2policy b)"

definition trainable_policies :: "'g rl_bundle \<Rightarrow> string list res" where
  "trainable_policies b =
     mapE (\<lambda>(p, rl). assertE rl (Inr p)) (filter (\<lambda>(p, rl). dict_mem p (rb_policy_trainer b)) (rb_policies b))"

section \<open>Trainers and their manager\<close>

definition register_agent2policy ::
  "string \<Rightarrow> ('g \<times> string) list \<Rightarrow> (string \<times> string) list \<Rightarrow> ('g \<times> string) list res" where
  "register_agent2policy name agent2policy mapping =
     foldE (\<lambda>(agent, policy) mine. bindE (dict_get mapping policy) (\<lambda>t.
       Inr (if t = name then AList.update agent policy mine else mine))) agent2policy []"

definition policies_of :: "string \<Rightarrow> (string \<times> bool) list \<Rightarrow> (string \<times> string) list \<Rightarrow> (string \<times> bool) list res" where
  "policies_of name policies mapping =
     foldE (\<lambda>(policy, rl) mine. bindE (dict_get mapping policy) (\<lambda>t.
       Inr (if t = name then mine @ [(policy, rl)] else mine))) policies []"

definition register_policies ::
  "trainer_kind \<Rightarrow> string \<Rightarrow> (string \<times> bool) list \<Rightarrow> (string \<times> string) list \<Rightarrow> string list res" where
  "register_policies kind name policies mapping =
     bindE (policies_of name policies mapping) (\<lambda>mine.
       if kind = SingleAgent \<and> length mine \<noteq> 1 then Inl ValueError
       else mapE (\<lambda>(policy, rl). assertE rl (Inr policy)) mine)"

record 'g rl_trainer =
  tr_kind :: trainer_kind
  tr_agent2policy :: "('g \<times> string) list"
  tr_policies :: "string list"

record 'g rl_manager =
  mg_trainers :: "(string \<times> 'g rl_trainer) list"
  mg_agent2trainer :: "('g \<times> string) list"

text \<open>
  The user's allocation of devices; the train ops of a trainer of several policies are kept per policy.  Moving them to
  a device has no effect here.
\<close>

definition assign_devices :: "'g rl_bundle \<Rightarrow> (string \<times> 'g rl_trainer) list \<Rightarrow> unit res" where
  "assign_devices b trainers =
     foldE (\<lambda>(policy, device) _. bindE (dict_get (rb_policy_trainer b) policy) (\<lambda>t.
       bindE (dict_get trainers t) (\<lambda>r.
         if tr_kind r = MultiAgent \<and> policy \<notin> set (tr_policies r) then Inl KeyError else Inr ())))
       (rb_device_mapping b) ()"

text \<open>
  The constructor.  What \<open>build\<close> of an algorithm's trainer does (train ops and replay memory, on PyTorch) is an argument:
  it returns or raises.  The addresses and loggers that trainers are given have no effect here.
\<close>

definition make_manager :: "(string \<Rightarrow> 'g rl_trainer \<Rightarrow> unit res) \<Rightarrow> bool \<Rightarrow> 'g rl_bundle \<Rightarrow> 'g rl_manager res" where
  "make_manager build explicit_assign_device b =
     bindE (foldE (\<lambda>(name, kind) trainers.
         bindE (register_agent2policy name (trainable_agent2policy b) (rb_policy_trainer b)) (\<lambda>agents.
         bindE (register_policies kind name (rb_policies b) (rb_policy_trainer b)) (\<lambda>policies.
           let trainer = \<lparr>tr_kind = kind, tr_agent2policy = agents, tr_policies = policies\<rparr>
           in bindE (build name trainer) (\<lambda>_. Inr (AList.update name trainer trainers)))))
       (rb_trainers b) []) (\<lambda>trainers.
     bindE (if explicit_assign_device then assign_devices b trainers else Inr ()) (\<lambda>_.
     bindE (foldE (\<lambda>(agent, policy) agent2trainer.
         bindE (dict_get (rb_policy_trainer b) policy) (\<lambda>t.
           if dict_mem t trainers then Inr (AList.update agent t agent2trainer) else Inl (MaroError ''MissingTrainer'')))
       (trainable_agent2policy b) []) (\<lambda>agent2trainer.
       Inr \<lparr>mg_trainers = trainers, mg_agent2trainer = agent2trainer\<rparr>)))"

section \<open>Recording experiences\<close>

text \<open>The calls of \<open>record_multiple\<close> for the experiences of one environment: trainer and elements.\<close>

definition dispatch ::
  "('g \<times> string) list \<Rightarrow> ('g, 's, 'a) exp_element list \<Rightarrow> (string \<times> ('g, 's, 'a) exp_element list) list res" where
  "dispatch agent2trainer experiences =
     foldE (\<lambda>e pool. bindE (split_contents_by_trainer agent2trainer e) (\<lambda>parts.
       Inr (fold (\<lambda>(trainer, x). append_to trainer x) parts pool))) experiences []"

definition record_experiences ::
  "'g rl_manager \<Rightarrow> ('g, 's, 'a) exp_element list list
     \<Rightarrow> (nat \<times> string \<times> ('g, 's, 'a) exp_element list) list res" where
  "record_experiences m experiences =
     foldE (\<lambda>(i, env_experience) calls. bindE (dispatch (mg_agent2trainer m) env_experience) (\<lambda>pool.
       bindE (mapE (\<lambda>(trainer, es). bindE (dict_get (mg_trainers m) trainer) (\<lambda>_. Inr (i, trainer, es))) pool) (\<lambda>new.
         Inr (calls @ new)))) (enumerate 0 experiences) []"

text \<open>A row of the batch a trainer that trains one policy puts into its replay memory.\<close>

type_synonym ('s, 'a) transition = "'s \<times> 'a \<times> rat \<times> bool \<times> bool \<times> 's"

definition transition_of :: "('g, 's, 'a) exp_element \<Rightarrow> 'g \<Rightarrow> ('s, 'a) transition res" where
  "transition_of e agent =
     bindE (dict_get (ex_agent_state e) agent) (\<lambda>state.
     bindE (dict_get (ex_action e) agent) (\<lambda>action.
     bindE (dict_get (ex_reward e) agent) (\<lambda>reward.
     bindE (dict_get (ex_terminal e) agent) (\<lambda>terminal.
       Inr (state, action, reward, terminal, ex_truncated e,
            case map_of (ex_next_agent_state e) agent of None \<Rightarrow> state | Some x \<Rightarrow> x)))))"

definition agent_batches ::
  "('g :: linorder, 's, 'a) exp_element list \<Rightarrow> ('g \<times> ('s, 'a) transition list) list res" where
  "agent_batches es =
     foldE (\<lambda>e pool. foldE (\<lambda>agent pool. bindE (transition_of e agent) (\<lambda>t. Inr (append_to agent t pool)))
       (agent_names e) pool) es []"

section \<open>The loop over episodes\<close>

text \<open>\<open>while n_sample < min_n_sample\<close> over the sampler of the process.\<close>

partial_function (option) gather ::
  "('g :: linorder, 's, 'a, 'ev, 'act, 'env, 'i) hooks \<Rightarrow> nat option \<Rightarrow> nat \<Rightarrow> nat
     \<Rightarrow> ('g, 's, 'a) exp_element list list \<Rightarrow> 'i list \<Rightarrow> ('g, 's, 'a, 'ev, 'act, 'env, 'i) sampler
     \<Rightarrow> (('g, 's, 'a) exp_element list list \<times> 'i list \<times> ('g, 's, 'a, 'ev, 'act, 'env, 'i) sampler) res option" where
  "gather hk num_steps min_n_sample n_sample acc infos s =
     (if n_sample < min_n_sample then
        (case sampler_sample hk num_steps s of
           None \<Rightarrow> None
         | Some (Inl err) \<Rightarrow> Some (Inl err)
         | Some (Inr (experiences, s)) \<Rightarrow>
             gather hk num_steps min_n_sample (n_sample + length experiences) (acc @ [experiences]) (infos @ [sa_info s]) s)
      else Some (Inr (acc, infos, s)))"

text \<open>Early stopping: the best metric so far (none: minus infinity) and its episode.\<close>

record early_stopping =
  es_patience :: int
  es_best_ep :: int
  es_best :: "rat option"

definition new_early_stopping :: "int \<Rightarrow> early_stopping" where
  "new_early_stopping patience = \<lparr>es_patience = patience, es_best_ep = - 1, es_best = None\<rparr>"

definition early_on_validation_end :: "int \<Rightarrow> rat \<Rightarrow> early_stopping \<Rightarrow> early_stopping \<times> bool" where
  "early_on_validation_end ep cur e =
     (let e = (if es_best e = None \<or> the (es_best e) < cur then e\<lparr>es_best_ep := ep, es_best := Some cur\<rparr> else e)
      in (e, es_patience e < ep - es_best_ep e))"

text \<open>
  The rest of an episode is a parameter: a round of sampling, recording and training, an evaluation, the metric that is
  watched, and saving the trainers.
\<close>

record 'w job_steps =
  js_train :: "int \<Rightarrow> 'w \<Rightarrow> 'w res"
  js_evaluate :: "int \<Rightarrow> 'w \<Rightarrow> 'w res"
  js_metric :: "'w \<Rightarrow> rat"
  js_save :: "int \<Rightarrow> 'w \<Rightarrow> 'w res"

record 'w job_state =
  jb_world :: 'w
  jb_point :: nat
  jb_early_stop :: bool
  jb_stopping :: "early_stopping option"
  jb_evaluated :: "int list"

text \<open>The schedule the configuration makes of a number of episodes between evaluations (\<open>workflows/config/parser.py\<close>).\<close>

definition interval_schedule :: "int \<Rightarrow> int \<Rightarrow> int list" where
  "interval_schedule k num_episodes = map (\<lambda>i. k * i) [1..num_episodes div k]"

definition checkpoint_on_training_end :: "'w job_steps \<Rightarrow> int option \<Rightarrow> int \<Rightarrow> 'w \<Rightarrow> 'w res" where
  "checkpoint_on_training_end steps interval ep w =
     (case interval of
        None \<Rightarrow> Inr w
      | Some k \<Rightarrow> if k = 0 then Inl ZeroDivisionError else if ep mod k = 0 then js_save steps ep w else Inr w)"

definition on_validation_end :: "'w job_steps \<Rightarrow> int \<Rightarrow> 'w job_state \<Rightarrow> 'w job_state" where
  "on_validation_end steps ep j =
     (case jb_stopping j of
        None \<Rightarrow> j
      | Some e \<Rightarrow>
          let (e, stop) = early_on_validation_end ep (js_metric steps (jb_world j)) e
          in j\<lparr>jb_stopping := Some e, jb_early_stop := jb_early_stop j \<or> stop\<rparr>)"

definition run_episode :: "'w job_steps \<Rightarrow> int list \<Rightarrow> int option \<Rightarrow> int \<Rightarrow> 'w job_state \<Rightarrow> 'w job_state res" where
  "run_episode steps eval_schedule interval ep j =
     bindE (js_train steps ep (jb_world j)) (\<lambda>w.
     bindE (checkpoint_on_training_end steps interval ep w) (\<lambda>w.
       let j = j\<lparr>jb_world := w\<rparr>
       in if eval_schedule = [] then Inr j
          else bindE (py_get eval_schedule (int (jb_point j))) (\<lambda>due.
            if ep \<noteq> due then Inr j
            else bindE (js_evaluate steps ep (jb_world j)) (\<lambda>w.
                   Inr (on_validation_end steps ep
                     (j\<lparr>jb_world := w, jb_point := jb_point j + 1, jb_evaluated := jb_evaluated j @ [ep]\<rparr>))))))"

fun run_job :: "'w job_steps \<Rightarrow> int list \<Rightarrow> int option \<Rightarrow> int list \<Rightarrow> 'w job_state \<Rightarrow> 'w job_state res" where
  "run_job steps eval_schedule interval [] j = Inr j"
| "run_job steps eval_schedule interval (ep # eps) j =
     (if jb_early_stop j then Inr j
      else bindE (run_episode steps eval_schedule interval ep j) (run_job steps eval_schedule interval eps))"

definition training_job ::
  "'w job_steps \<Rightarrow> int list \<Rightarrow> int option \<Rightarrow> int option \<Rightarrow> int \<Rightarrow> int \<Rightarrow> 'w \<Rightarrow> 'w job_state res" where
  "training_job steps eval_schedule interval patience start_ep num_episodes w =
     run_job steps eval_schedule interval [start_ep..num_episodes]
       \<lparr>jb_world = w, jb_point = 0, jb_early_stop = False, jb_stopping = map_option new_early_stopping patience,
        jb_evaluated = []\<rparr>"

end
