(* ===== verification/RlWorkflowProps.thy ===== *)
theory RlWorkflowProps imports RlWorkflow EnvSamplerRounds EnvSamplerProps begin

text \<open>
  What a training job does: sampling that never ends, trainers that know their agents and get their experiences, and
  evaluations on schedule.
\<close>

section \<open>Gathering samples\<close>

lemma gather_stuck:
  assumes "gather hk num_steps min_n n acc infos s = Some r"
  shows "num_steps = None \<longrightarrow> n < min_n \<longrightarrow> sampler_sample hk None s = Some (Inr ([], s)) \<longrightarrow> False"
proof (rule gather.raw_induct [OF _ assms], goal_cases)
  case (1 f hk num_steps min_n n acc infos s r)
  show ?case
  proof (intro impI)
    assume none: "num_steps = None" and less: "n < min_n" and stuck: "sampler_sample hk None s = Some (Inr ([], s))"
    have "f hk None min_n n (acc @ [[]]) (infos @ [sa_info s]) s = Some r" using 1(2) none less stuck by simp
    from 1(1) [OF this] none less stuck show False by simp
  qed
qed

text \<open>C36: When an episode is cut off by the maximal length and no number of steps is given,
  the sampler stays at its end: it returns no experiences any more, and a training loop that waits
  for some never ends.\<close>

theorem truncated_job_hangs:
  assumes "sampler_sample hk None s = Some (Inr (x, t))" and "\<not> sa_end_of_episode t" and "0 < min_n"
  shows "sampler_sample hk None t = Some (Inr ([], t)) \<and> gather hk None min_n 0 [] [] t = None"
proof -
  have stuck: "sampler_sample hk None t = Some (Inr ([], t))"
    using sample_ends [OF assms(1)] assms(2) by (simp add: truncated_sample)
  then show ?thesis using gather_stuck [of hk None min_n 0 "[]" "[]" t] assms(3) by (cases "gather hk None min_n 0 [] [] t") auto
qed

section \<open>The bundle and its trainers\<close>

lemma make_bundle_facts:
  assumes "make_bundle a2p policies trainers devices mapping = Inr b"
  shows "rb_policies b = policies \<and> rb_trainers b = trainers \<and> rb_agent2policy b = a2p
    \<and> (\<forall>p\<in>snd ` set a2p. p \<in> fst ` set policies) \<and> (\<forall>(p, t)\<in>set (rb_policy_trainer b). t \<in> fst ` set trainers)
    \<and> (\<forall>t\<in>fst ` set trainers. t \<in> snd ` set (rb_policy_trainer b))
    \<and> (\<forall>(p, d)\<in>set (rb_device_mapping b). p \<in> fst ` set policies) \<and> (\<forall>p\<in>fst ` set policies. p \<in> snd ` set a2p)"
proof -
  define m where "m = filter (\<lambda>(p, t). p \<in> set (map fst policies))
      (case mapping of Some m \<Rightarrow> m | None \<Rightarrow> default_mapping (map fst policies))"
  have "list_all (\<lambda>p. p \<in> set (map fst policies)) (map snd a2p)" "list_all (\<lambda>p. p \<in> set (map snd a2p)) (map fst policies)"
    "list_all (\<lambda>(p, t). t \<in> fst ` set trainers) m"
    "list_all (\<lambda>(t, k). t \<in> snd ` set m) trainers" "rb_policy_trainer b = m"
    "rb_policies b = policies \<and> rb_trainers b = trainers \<and> rb_agent2policy b = a2p"
    "\<forall>(p, d)\<in>set (rb_device_mapping b). p \<in> fst ` set policies"
    using assms unfolding make_bundle_def Let_def m_def [symmetric] by (auto split: if_splits option.splits)
  moreover have "\<forall>t\<in>fst ` set trainers. t \<in> snd ` set m"
  proof
    fix t
    assume "t \<in> fst ` set trainers"
    then obtain k where "(t, k) \<in> set trainers" by auto
    then show "t \<in> snd ` set m" using calculation(4) by (auto simp: list_all_iff)
  qed
  ultimately show ?thesis by (simp add: list_all_iff)
qed

lemma register_agents:
  assumes "\<forall>(g, p)\<in>set a2p. dict_mem p mapping" and "distinct (map fst (mine @ a2p))"
  shows "foldE (\<lambda>(agent, policy) mine. bindE (dict_get mapping policy) (\<lambda>t.
       Inr (if t = name then AList.update agent policy mine else mine))) a2p mine
     = Inr (mine @ filter (\<lambda>(g, p). map_of mapping p = Some name) a2p)"
  using assms
proof (induction a2p arbitrary: mine)
  case Nil
  then show ?case by simp
next
  case (Cons x a2p)
  obtain g p where x: "x = (g, p)" by force
  obtain t where t: "map_of mapping p = Some t" using Cons.prems(1) x by (auto simp: dict_mem_map_of)
  have "g \<notin> fst ` set mine" using Cons.prems(2) x by auto
  then have snoc: "AList.update g p mine = mine @ [(g, p)]" by (induction mine) auto
  show ?case using Cons by (auto simp: x t dict_get_def snoc)
qed

lemma policies_of_filter:
  assumes "\<forall>(p, rl)\<in>set policies. dict_mem p mapping"
  shows "policies_of name policies mapping = Inr (filter (\<lambda>(p, rl). map_of mapping p = Some name) policies)"
proof -
  have "foldE (\<lambda>(policy, rl) mine. bindE (dict_get mapping policy) (\<lambda>t.
       Inr (if t = name then mine @ [(policy, rl)] else mine))) policies mine
     = Inr (mine @ filter (\<lambda>(p, rl). map_of mapping p = Some name) policies)" for mine
    using assms
  proof (induction policies arbitrary: mine)
    case Nil
    then show ?case by simp
  next
    case (Cons x policies)
    obtain p rl where x: "x = (p, rl)" by force
    obtain t where "map_of mapping p = Some t" using Cons.prems x by (auto simp: dict_mem_map_of)
    then show ?case using Cons by (auto simp: x dict_get_def)
  qed
  then show ?thesis by (simp add: policies_of_def)
qed

lemma policies_of_missing:
  assumes "(p, rl) \<in> set policies" and "\<not> dict_mem p mapping"
  shows "policies_of name policies mapping = Inl KeyError"
proof -
  have "foldE (\<lambda>(policy, rl) mine. bindE (dict_get mapping policy) (\<lambda>t.
       Inr (if t = name then mine @ [(policy, rl)] else mine))) policies mine = Inl KeyError" for mine
    using assms(1)
  proof (induction policies arbitrary: mine)
    case Nil
    then show ?case by simp
  next
    case (Cons x policies)
    obtain q b where x: "x = (q, b)" by force
    show ?case
    proof (cases "map_of mapping q")
      case None
      then show ?thesis by (simp add: x dict_get_def)
    next
      case (Some t)
      then have "(p, rl) \<in> set policies" using Cons.prems assms(2) x by (auto simp: dict_mem_map_of)
      with Cons.IH Some show ?thesis by (simp add: x dict_get_def)
    qed
  qed
  then show ?thesis by (simp add: policies_of_def)
qed

text \<open>
  A mapping from policies to trainers that leaves out a policy is accepted by the bundle, but the training manager looks
  every policy up in it and raises a KeyError.
\<close>

theorem partial_mapping_raises:
  assumes "make_bundle a2p policies trainers devices (Some mapping) = Inr b"
    and "distinct (map fst a2p)" and "(p, rl) \<in> set policies" and "\<not> dict_mem p mapping" and "trainers \<noteq> []"
  shows "make_manager build explicit b = Inl KeyError"
proof -
  have b: "rb_policies b = policies" "rb_trainers b = trainers" "rb_agent2policy b = a2p"
    using make_bundle_facts [OF assms(1)] by auto
  have "rb_policy_trainer b = filter (\<lambda>(p, t). p \<in> fst ` set policies) mapping"
    using assms(1) by (auto simp: make_bundle_def Let_def split: if_splits)
  then have missing: "\<not> dict_mem p (rb_policy_trainer b)"
    using assms(4) by (auto simp: dict_mem_map_of map_of_eq_None_iff)
  obtain name kind rest where first: "trainers = (name, kind) # rest" using assms(5) by (metis neq_Nil_conv surj_pair)
  have "register_agent2policy name (trainable_agent2policy b) (rb_policy_trainer b)
      = Inr ([] @ filter (\<lambda>(g, p). map_of (rb_policy_trainer b) p = Some name) (trainable_agent2policy b))"
    unfolding register_agent2policy_def
    by (rule register_agents) (use assms(2) b in \<open>auto simp: trainable_agent2policy_def distinct_map_filter\<close>)
  moreover have "register_policies kind name policies (rb_policy_trainer b) = Inl KeyError"
    using policies_of_missing [OF assms(3) missing] by (simp add: register_policies_def)
  ultimately show ?thesis by (simp add: make_manager_def b first)
qed


text \<open>A loop that updates a dictionary once per element.\<close>

lemma update_loop:
  assumes "\<And>x acc. x \<in> set xs \<Longrightarrow> step x acc = Inr (AList.update (k x) (v x) acc)"
  shows "foldE step xs acc = Inr (fold (\<lambda>(k, v). AList.update k v) (map (\<lambda>x. (k x, v x)) xs) acc)"
  using assms by (induction xs arbitrary: acc) auto

lemma updated_map_of:
  assumes "distinct (map k xs)"
  shows "map_of (fold (\<lambda>(k, v). AList.update k v) (map (\<lambda>x. (k x, v x)) xs) []) y = map_of (map (\<lambda>x. (k x, v x)) xs) y"
proof -
  have "distinct (map fst (map (\<lambda>x. (k x, v x)) xs))" using assms by (simp add: comp_def)
  then show ?thesis by (simp add: fold_update_map_of map_of_rev_distinct)
qed

lemma foldE_unit: "(\<And>x u. x \<in> set xs \<Longrightarrow> f x u = Inr ()) \<Longrightarrow> foldE f xs () = Inr ()"
  by (induction xs) auto

text \<open>What the manager keeps of a trainer.\<close>

definition trainer_record :: "'g rl_bundle \<Rightarrow> string \<times> trainer_kind \<Rightarrow> 'g rl_trainer" where
  "trainer_record b = (\<lambda>(t, kind).
     \<lparr>tr_kind = kind, tr_agent2policy = filter (\<lambda>(g, p). map_of (rb_policy_trainer b) p = Some t) (trainable_agent2policy b),
      tr_policies = map fst (filter (\<lambda>(p, rl). map_of (rb_policy_trainer b) p = Some t) (rb_policies b))\<rparr>)"

text \<open>
  What setting up needs: each policy is an \<open>RLPolicy\<close> and has a trainer, a trainer of one policy has exactly one, and the
  trainers can be built.
\<close>

definition setup_ok :: "(string \<Rightarrow> 'g rl_trainer \<Rightarrow> unit res) \<Rightarrow> 'g rl_bundle \<Rightarrow> bool" where
  "setup_ok build b \<longleftrightarrow> list_all (\<lambda>(p, rl). rl \<and> dict_mem p (rb_policy_trainer b)) (rb_policies b)
     \<and> list_all (\<lambda>(t, kind). build t (trainer_record b (t, kind)) = Inr () \<and> (kind = SingleAgent \<longrightarrow>
          length (filter (\<lambda>(p, rl). map_of (rb_policy_trainer b) p = Some t) (rb_policies b)) = 1)) (rb_trainers b)"

lemma register_ok:
  assumes "setup_ok build b" and "distinct (map fst (rb_agent2policy b))" and "(t, kind) \<in> set (rb_trainers b)"
  shows "register_agent2policy t (trainable_agent2policy b) (rb_policy_trainer b)
           = Inr (tr_agent2policy (trainer_record b (t, kind)))"
    and "register_policies kind t (rb_policies b) (rb_policy_trainer b) = Inr (tr_policies (trainer_record b (t, kind)))"
proof -
  have "register_agent2policy t (trainable_agent2policy b) (rb_policy_trainer b)
      = Inr ([] @ filter (\<lambda>(g, p). map_of (rb_policy_trainer b) p = Some t) (trainable_agent2policy b))"
    unfolding register_agent2policy_def
    by (rule register_agents) (use assms in \<open>auto simp: trainable_agent2policy_def distinct_map_filter setup_ok_def\<close>)
  then show "register_agent2policy t (trainable_agent2policy b) (rb_policy_trainer b)
      = Inr (tr_agent2policy (trainer_record b (t, kind)))" by (simp add: trainer_record_def)
  let ?mine = "filter (\<lambda>(p, rl). map_of (rb_policy_trainer b) p = Some t) (rb_policies b)"
  have "mapE (\<lambda>(p, rl). assertE rl (Inr p)) ?mine = Inr (map fst ?mine)"
    by (rule mapE_Inr_map) (use assms(1) in \<open>auto simp: setup_ok_def list_all_iff\<close>)
  moreover have "policies_of t (rb_policies b) (rb_policy_trainer b) = Inr ?mine"
    by (rule policies_of_filter) (use assms(1) in \<open>auto simp: setup_ok_def list_all_iff\<close>)
  moreover have "kind = SingleAgent \<longrightarrow> length ?mine = 1" using assms by (fastforce simp: setup_ok_def list_all_iff)
  ultimately show "register_policies kind t (rb_policies b) (rb_policy_trainer b)
      = Inr (tr_policies (trainer_record b (t, kind)))" by (simp add: register_policies_def trainer_record_def)
qed

lemma trainers_map_of:
  assumes "distinct (map fst xs)" and "x \<in> set xs"
  shows "map_of (map (\<lambda>x. (fst x, v x)) xs) (fst x) = Some (v x)"
  using assms by (induction xs) (auto simp: image_iff)

lemma make_manager_maps:
  assumes ok: "setup_ok build b" and names: "distinct (map fst (rb_agent2policy b))" "distinct (map fst (rb_trainers b))"
    and all: "trainable_agent2policy b = rb_agent2policy b"
    and trainers: "\<forall>(g, p)\<in>set (rb_agent2policy b).
      \<exists>t kind. map_of (rb_policy_trainer b) p = Some t \<and> (t, kind) \<in> set (rb_trainers b)"
    and devices: "\<forall>(p, d)\<in>set (rb_device_mapping b). p \<in> snd ` set (rb_agent2policy b) \<and> p \<in> fst ` set (rb_policies b)"
  shows "\<exists>m. make_manager build explicit b = Inr m
    \<and> (\<forall>(t, kind)\<in>set (rb_trainers b). map_of (mg_trainers m) t = Some (trainer_record b (t, kind)))
    \<and> (\<forall>(g, p)\<in>set (rb_agent2policy b). map_of (mg_agent2trainer m) g = map_of (rb_policy_trainer b) p)"
proof -
  let ?m = "rb_policy_trainer b" and ?a2p = "rb_agent2policy b"
  have trainer: "\<exists>t kind. map_of ?m p = Some t \<and> (t, kind) \<in> set (rb_trainers b)" if "(g, p) \<in> set ?a2p" for g p
    using trainers that by blast
  define ts where "ts = fold (\<lambda>(k, v). AList.update k v) (map (\<lambda>x. (fst x, trainer_record b x)) (rb_trainers b)) []"
  have ts: "map_of ts t = Some (trainer_record b (t, kind))" if "(t, kind) \<in> set (rb_trainers b)" for t kind
    using trainers_map_of [of "rb_trainers b" "(t, kind)"] that names unfolding ts_def
    by (subst updated_map_of) auto
  define ag where "ag = fold (\<lambda>(k, v). AList.update k v) (map (\<lambda>x. (fst x, the (map_of ?m (snd x)))) ?a2p) []"
  have ag: "map_of ag g = map_of ?m p" if "(g, p) \<in> set ?a2p" for g p
    using trainers_map_of [of ?a2p "(g, p)" "\<lambda>x. the (map_of ?m (snd x))"] that names trainer [OF that] unfolding ag_def
    by (subst updated_map_of) auto
  have loop1: "foldE (\<lambda>(name, kind) trainers.
       bindE (register_agent2policy name ?a2p ?m) (\<lambda>agents.
       bindE (register_policies kind name (rb_policies b) ?m) (\<lambda>policies.
         let trainer = \<lparr>tr_kind = kind, tr_agent2policy = agents, tr_policies = policies\<rparr>
         in bindE (build name trainer) (\<lambda>_. Inr (AList.update name trainer trainers)))))
     (rb_trainers b) [] = Inr ts"
    unfolding ts_def
  proof (rule update_loop, clarify)
    fix t kind acc
    assume t: "(t, kind) \<in> set (rb_trainers b)"
    have "\<lparr>tr_kind = kind, tr_agent2policy = tr_agent2policy (trainer_record b (t, kind)),
        tr_policies = tr_policies (trainer_record b (t, kind))\<rparr> = trainer_record b (t, kind)"
      by (simp add: trainer_record_def)
    moreover have "build t (trainer_record b (t, kind)) = Inr ()" using ok t by (auto simp: setup_ok_def list_all_iff)
    ultimately show "bindE (register_agent2policy t ?a2p ?m) (\<lambda>agents.
       bindE (register_policies kind t (rb_policies b) ?m) (\<lambda>policies.
         let trainer = \<lparr>tr_kind = kind, tr_agent2policy = agents, tr_policies = policies\<rparr>
         in bindE (build t trainer) (\<lambda>_. Inr (AList.update t trainer acc))))
      = Inr (AList.update (fst (t, kind)) (trainer_record b (t, kind)) acc)"
      using register_ok [OF ok names(1) t] by (simp add: all)
  qed
  have loop2: "foldE (\<lambda>(agent, policy) agent2trainer.
       bindE (dict_get ?m policy) (\<lambda>t.
         if dict_mem t ts then Inr (AList.update agent t agent2trainer) else Inl (MaroError ''MissingTrainer''))) ?a2p [] = Inr ag"
    unfolding ag_def
  proof (rule update_loop, clarify)
    fix g p acc
    assume "(g, p) \<in> set ?a2p"
    then obtain t kind where "map_of ?m p = Some t" "(t, kind) \<in> set (rb_trainers b)" using trainer by blast
    then show "bindE (dict_get ?m p) (\<lambda>t.
        if dict_mem t ts then Inr (AList.update g t acc) else Inl (MaroError ''MissingTrainer''))
      = Inr (AList.update (fst (g, p)) (the (map_of ?m (snd (g, p)))) acc)" using ts by (simp add: dict_get_def dict_mem_map_of)
  qed
  have "(case x of (policy, device) \<Rightarrow> \<lambda>_. bindE (dict_get ?m policy) (\<lambda>t. bindE (dict_get ts t) (\<lambda>r.
      if tr_kind r = MultiAgent \<and> policy \<notin> set (tr_policies r) then Inl KeyError else Inr ()))) u = Inr ()"
    if x: "x \<in> set (rb_device_mapping b)" for x u
  proof -
    obtain p d where pd: "x = (p, d)" by force
    obtain g where "(g, p) \<in> set ?a2p" and p: "p \<in> fst ` set (rb_policies b)" using devices x pd by force
    then obtain t kind where t: "map_of ?m p = Some t" "(t, kind) \<in> set (rb_trainers b)" using trainer by blast
    have "p \<in> set (tr_policies (trainer_record b (t, kind)))" using p t(1) by (force simp: trainer_record_def)
    then show ?thesis using t ts [OF t(2)] by (simp add: pd dict_get_def)
  qed
  then have "assign_devices b ts = Inr ()" unfolding assign_devices_def by (rule foldE_unit)
  then have "make_manager build explicit b = Inr \<lparr>mg_trainers = ts, mg_agent2trainer = ag\<rparr>"
    unfolding make_manager_def all loop1 bindE_Inr loop2 by simp
  then show ?thesis using ts ag by auto
qed

text \<open>Setting up fails when something it needs is missing.\<close>

lemma foldE_each: "foldE f xs s = Inr t \<Longrightarrow> x \<in> set xs \<Longrightarrow> \<exists>s' t'. f x s' = Inr t'"
  by (induction xs arbitrary: s) (auto simp: res_simps)

lemma mapE_each: "mapE f xs = Inr ys \<Longrightarrow> x \<in> set xs \<Longrightarrow> \<exists>y. f x = Inr y"
  by (induction xs arbitrary: ys) (auto simp: res_simps)

lemma registered_ok:
  assumes "register_policies kind t policies mapping = Inr names"
  shows "\<forall>(p, rl)\<in>set policies. dict_mem p mapping \<and> (map_of mapping p = Some t \<longrightarrow> rl)"
    and "kind = SingleAgent \<longrightarrow> length (filter (\<lambda>(p, rl). map_of mapping p = Some t) policies) = 1"
proof -
  obtain mine where mine: "policies_of t policies mapping = Inr mine" using assms by (auto simp: register_policies_def res_simps)
  then have all: "\<forall>(p, rl)\<in>set policies. dict_mem p mapping" using policies_of_missing by fastforce
  from policies_of_filter [OF this] mine have mine: "mine = filter (\<lambda>(p, rl). map_of mapping p = Some t) policies" by simp
  have "mapE (\<lambda>(p, rl). assertE rl (Inr p)) mine = Inr names"
    using assms policies_of_filter [OF all, of t] by (auto simp: register_policies_def mine split: if_splits)
  from mapE_each [OF this] have "rl" if "(p, rl) \<in> set mine" for p rl
    using that by (cases rl) force+
  with all show "\<forall>(p, rl)\<in>set policies. dict_mem p mapping \<and> (map_of mapping p = Some t \<longrightarrow> rl)" by (auto simp: mine)
  show "kind = SingleAgent \<longrightarrow> length (filter (\<lambda>(p, rl). map_of mapping p = Some t) policies) = 1"
    using assms policies_of_filter [OF all, of t] by (auto simp: register_policies_def split: if_splits)
qed

lemma manager_needs:
  assumes m: "make_manager build explicit b = Inr m" and names: "distinct (map fst (rb_agent2policy b))"
    and trainers: "rb_trainers b \<noteq> []" "\<forall>(p, t)\<in>set (rb_policy_trainer b). t \<in> fst ` set (rb_trainers b)"
  shows "setup_ok build b"
proof -
  have each: "\<exists>agents ps. register_agent2policy t (trainable_agent2policy b) (rb_policy_trainer b) = Inr agents
      \<and> register_policies kind t (rb_policies b) (rb_policy_trainer b) = Inr ps
      \<and> build t \<lparr>tr_kind = kind, tr_agent2policy = agents, tr_policies = ps\<rparr> = Inr ()"
    if t: "(t, kind) \<in> set (rb_trainers b)" for t kind
  proof -
    obtain ts where "foldE (\<lambda>(name, kind) trainers.
         bindE (register_agent2policy name (trainable_agent2policy b) (rb_policy_trainer b)) (\<lambda>agents.
         bindE (register_policies kind name (rb_policies b) (rb_policy_trainer b)) (\<lambda>policies.
           let trainer = \<lparr>tr_kind = kind, tr_agent2policy = agents, tr_policies = policies\<rparr>
           in bindE (build name trainer) (\<lambda>_. Inr (AList.update name trainer trainers)))))
       (rb_trainers b) [] = Inr ts" using m by (auto simp: make_manager_def res_simps)
    from foldE_each [OF this t] show ?thesis by (auto simp: res_simps Let_def)
  qed
  have rl: "rl \<and> dict_mem p (rb_policy_trainer b)" if p: "(p, rl) \<in> set (rb_policies b)" for p rl
  proof -
    obtain t0 k0 where "(t0, k0) \<in> set (rb_trainers b)" using trainers(1) by (cases "rb_trainers b") force+
    then have known: "dict_mem p (rb_policy_trainer b)" using each registered_ok(1) p by fastforce
    then obtain t where t: "map_of (rb_policy_trainer b) p = Some t" by (auto simp: dict_mem_map_of)
    then obtain kind where "(t, kind) \<in> set (rb_trainers b)" using trainers(2) by (force dest: map_of_SomeD)
    then show ?thesis using each registered_ok(1) p t known by fastforce
  qed
  have "build t (trainer_record b (t, kind)) = Inr () \<and> (kind = SingleAgent \<longrightarrow>
      length (filter (\<lambda>(p, rl). map_of (rb_policy_trainer b) p = Some t) (rb_policies b)) = 1)"
    if t: "(t, kind) \<in> set (rb_trainers b)" for t kind
  proof -
    obtain agents ps where r: "register_agent2policy t (trainable_agent2policy b) (rb_policy_trainer b) = Inr agents"
        "register_policies kind t (rb_policies b) (rb_policy_trainer b) = Inr ps"
        "build t \<lparr>tr_kind = kind, tr_agent2policy = agents, tr_policies = ps\<rparr> = Inr ()" using each [OF t] by blast
    have "setup_ok (\<lambda>_ _. Inr ()) (b\<lparr>rb_trainers := [(t, kind)]\<rparr>)"
      using rl registered_ok(2) [OF r(2)] by (auto simp: setup_ok_def list_all_iff)
    from register_ok [OF this, of t kind] names r(1,2)
    have "agents = tr_agent2policy (trainer_record b (t, kind))" "ps = tr_policies (trainer_record b (t, kind))"
      by (simp_all add: trainable_agent2policy_def trainer_record_def)
    then show ?thesis using r(3) registered_ok(2) [OF r(2)] by (simp add: trainer_record_def)
  qed
  with rl show ?thesis by (auto simp: setup_ok_def list_all_iff)
qed

lemma manager_routes:
  assumes "make_bundle a2p policies trainers devices mapping = Inr b" and "setup_ok build b"
    and names: "distinct (map fst a2p)" "distinct (map fst trainers)"
  shows "\<exists>m. make_manager build explicit b = Inr m \<and> (\<forall>(g, p)\<in>set a2p. \<exists>t r. map_of (mg_agent2trainer m) g = Some t
     \<and> map_of (rb_policy_trainer b) p = Some t \<and> map_of (mg_trainers m) t = Some r
     \<and> (g, p) \<in> set (tr_agent2policy r) \<and> p \<in> set (tr_policies r))"
proof -
  note facts = make_bundle_facts [OF assms(1)]
  then have a2p: "rb_agent2policy b = a2p" and used: "\<forall>p\<in>snd ` set a2p. p \<in> fst ` set (rb_policies b)"
    and targets: "\<forall>(p, t)\<in>set (rb_policy_trainer b). t \<in> fst ` set (rb_trainers b)"
    and placed: "\<forall>(p, d)\<in>set (rb_device_mapping b). p \<in> fst ` set (rb_policies b)"
    and needed: "\<forall>p\<in>fst ` set (rb_policies b). p \<in> snd ` set a2p"
    by simp_all
  have known: "p \<in> fst ` set (rb_policies b) \<and> dict_mem p (rb_policy_trainer b)" if "(g, p) \<in> set a2p" for g p
  proof -
    have p: "p \<in> fst ` set (rb_policies b)" using that used by force
    then obtain rl where "(p, rl) \<in> set (rb_policies b)" by auto
    then show ?thesis using p assms(2) unfolding setup_ok_def list_all_iff by blast
  qed
  have all: "trainable_agent2policy b = rb_agent2policy b"
    unfolding trainable_agent2policy_def by (rule filter_True) (use known a2p in auto)
  have trainer: "\<exists>t kind. map_of (rb_policy_trainer b) p = Some t \<and> (t, kind) \<in> set (rb_trainers b)"
    if gp: "(g, p) \<in> set (rb_agent2policy b)" for g p
  proof -
    obtain t where "map_of (rb_policy_trainer b) p = Some t" using known gp a2p by (auto simp: dict_mem_map_of)
    then show ?thesis using targets by (force dest: map_of_SomeD)
  qed
  have devices: "\<forall>(p, d)\<in>set (rb_device_mapping b). p \<in> snd ` set (rb_agent2policy b) \<and> p \<in> fst ` set (rb_policies b)"
  proof (clarify, intro conjI)
    fix p d
    assume "(p, d) \<in> set (rb_device_mapping b)"
    then show "p \<in> fst ` set (rb_policies b)" using placed by blast
    then show "p \<in> snd ` set (rb_agent2policy b)" using needed a2p by blast
  qed
  have "distinct (map fst (rb_agent2policy b))" "distinct (map fst (rb_trainers b))" using names facts by simp_all
  note maps = make_manager_maps [OF assms(2) this all _ devices, of explicit]
  obtain m where m: "make_manager build explicit b = Inr m"
    "\<forall>(t, kind)\<in>set (rb_trainers b). map_of (mg_trainers m) t = Some (trainer_record b (t, kind))"
    "\<forall>(g, p)\<in>set (rb_agent2policy b). map_of (mg_agent2trainer m) g = map_of (rb_policy_trainer b) p"
    using maps trainer by blast
  have "\<exists>t r. map_of (mg_agent2trainer m) g = Some t \<and> map_of (rb_policy_trainer b) p = Some t
      \<and> map_of (mg_trainers m) t = Some r \<and> (g, p) \<in> set (tr_agent2policy r) \<and> p \<in> set (tr_policies r)"
    if gp: "(g, p) \<in> set a2p" for g p
  proof -
    obtain t kind where t: "map_of (rb_policy_trainer b) p = Some t" "(t, kind) \<in> set (rb_trainers b)"
      using trainer gp a2p by blast
    then have "map_of (mg_trainers m) t = Some (trainer_record b (t, kind))" "map_of (mg_agent2trainer m) g = Some t"
      using m(2,3) gp a2p by auto
    then show ?thesis using t(1) gp known [OF gp] by (force simp: trainer_record_def all a2p)
  qed
  then show ?thesis using m(1) by blast
qed


end
