(* ===== verification/RlRecording.thy ===== *)
theory RlRecording imports RlWorkflowProps begin

text \<open>
  From the experiences of a sampler to the batches of the trainers: every experience of an agent arrives once, in order
  and unchanged, at the trainer of the agent.
\<close>

section \<open>Splitting an experience by trainer\<close>

definition complete :: "('g, 's, 'a) exp_element \<Rightarrow> bool" where
  "complete e \<longleftrightarrow> distinct (map fst (ex_agent_state e))
     \<and> list_all (\<lambda>g. dict_mem g (ex_action e) \<and> dict_mem g (ex_reward e) \<and> dict_mem g (ex_terminal e)) (map fst (ex_agent_state e))"

text \<open>The element \<open>t\<close> is \<open>e\<close> restricted to the agents in \<open>G\<close>.\<close>

definition restricted :: "('g, 's, 'a) exp_element \<Rightarrow> ('g \<Rightarrow> bool) \<Rightarrow> ('g, 's, 'a) exp_element \<Rightarrow> bool" where
  "restricted e G t \<longleftrightarrow>
     map_of (ex_agent_state t) = (\<lambda>g. if G g then map_of (ex_agent_state e) g else None)
     \<and> (\<forall>g. G g \<longrightarrow> dict_mem g (ex_agent_state e) \<longrightarrow> map_of (ex_action t) g = map_of (ex_action e) g
          \<and> map_of (ex_reward t) g = map_of (ex_reward e) g \<and> map_of (ex_terminal t) g = map_of (ex_terminal e) g
          \<and> map_of (ex_next_agent_state t) g = map_of (ex_next_agent_state e) g)
     \<and> (\<forall>g. \<not> G g \<longrightarrow> map_of (ex_next_agent_state t) g = None)
     \<and> ex_truncated t = ex_truncated e \<and> distinct (map fst (ex_agent_state t))"

lemma foldE_snoc: "foldE f (xs @ [x]) s = bindE (foldE f xs s) (f x)"
proof -
  have "bindE m (foldE f []) = m" for m by (cases m) auto
  then show ?thesis by (simp add: foldE_append bindE_def split: sum.splits)
qed

lemma restricted_empty:
  assumes "\<And>g. dict_mem g (ex_agent_state e) \<Longrightarrow> \<not> G g"
  shows "restricted e G (no_agents e)"
proof -
  have "(if G g then map_of (ex_agent_state e) g else None) = None" for g
    using assms [of g] by (cases "map_of (ex_agent_state e) g") (auto simp: dict_mem_map_of)
  then show ?thesis using assms by (auto simp: restricted_def no_agents_def fun_eq_iff)
qed

lemma add_agent_restricted:
  assumes e: "complete e" and g: "dict_mem g (ex_agent_state e)" and new: "\<not> G g" and t: "restricted e G t"
  shows "\<exists>t'. add_agent e g t = Inr t' \<and> restricted e (\<lambda>h. G h \<or> h = g) t'"
proof -
  obtain st ac rw tm where maps: "map_of (ex_agent_state e) g = Some st" "map_of (ex_action e) g = Some ac"
    "map_of (ex_reward e) g = Some rw" "map_of (ex_terminal e) g = Some tm"
    using e g by (force simp: complete_def list_all_iff dict_mem_map_of dest: map_of_SomeD)
  define t' where "t' = t\<lparr>ex_agent_state := AList.update g st (ex_agent_state t), ex_action := AList.update g ac (ex_action t),
      ex_reward := AList.update g rw (ex_reward t), ex_terminal := AList.update g tm (ex_terminal t),
      ex_next_agent_state := (case map_of (ex_next_agent_state e) g of
         None \<Rightarrow> ex_next_agent_state t | Some x \<Rightarrow> AList.update g x (ex_next_agent_state t))\<rparr>"
  have "add_agent e g t = Inr t'" by (simp add: add_agent_def dict_get_def maps t'_def)
  moreover have "restricted e (\<lambda>h. G h \<or> h = g) t'"
    using t new maps by (auto simp: restricted_def t'_def fun_eq_iff distinct_update split: option.splits)
  ultimately show ?thesis by blast
qed

definition concerns :: "('g \<times> string) list \<Rightarrow> string \<Rightarrow> ('g, 's, 'a) exp_element \<Rightarrow> bool" where
  "concerns a2t tr e \<longleftrightarrow> (\<exists>g. map_of a2t g = Some tr \<and> dict_mem g (ex_agent_state e))"

definition split_ok :: "('g \<times> string) list \<Rightarrow> ('g, 's, 'a) exp_element \<Rightarrow> (string \<times> ('g, 's, 'a) exp_element) list \<Rightarrow> bool" where
  "split_ok a2t e ret \<longleftrightarrow> distinct (map fst ret)
     \<and> (\<forall>tr t. map_of ret tr = Some t \<longrightarrow> restricted e (\<lambda>g. map_of a2t g = Some tr \<and> dict_mem g (ex_agent_state e)) t)
     \<and> (\<forall>tr. map_of ret tr = None \<longleftrightarrow> \<not> concerns a2t tr e)"

lemma split_ok_Some:
  "split_ok a2t e ret \<Longrightarrow> map_of ret tr = Some t \<Longrightarrow>
     restricted e (\<lambda>g. map_of a2t g = Some tr \<and> dict_mem g (ex_agent_state e)) t"
  unfolding split_ok_def by blast

lemma split_ok_None: "split_ok a2t e ret \<Longrightarrow> map_of ret tr = None \<longleftrightarrow> \<not> concerns a2t tr e"
  unfolding split_ok_def by blast

lemma split_total:
  assumes e: "complete e" and dist: "distinct (map fst a2t)"
  shows "\<exists>ret. split_contents_by_trainer a2t e = Inr ret \<and> split_ok a2t e ret"
  using dist
proof (induction a2t rule: rev_induct)
  case Nil
  then show ?case by (simp add: split_contents_by_trainer_def split_ok_def concerns_def)
next
  case (snoc x a2t)
  obtain g tr where x: "x = (g, tr)" by force
  have new: "map_of a2t g = None" using snoc.prems by (simp add: x map_of_eq_None_iff)
  have maps: "map_of (a2t @ [(g, tr)]) h = (if h = g then Some tr else map_of a2t h)" for h
    using new by (auto simp: map_add_def split: option.splits)
  obtain ret where ret: "split_contents_by_trainer a2t e = Inr ret" "split_ok a2t e ret" using snoc by auto
  let ?step = "if dict_mem g (ex_agent_state e) then
      bindE (add_agent e g (case map_of ret tr of None \<Rightarrow> no_agents e | Some t \<Rightarrow> t)) (\<lambda>t. Inr (AList.update tr t ret)) else Inr ret"
  have run: "split_contents_by_trainer (a2t @ [x]) e = ?step"
    using ret(1) by (simp add: split_contents_by_trainer_def foldE_snoc x)
  show ?case
  proof (cases "dict_mem g (ex_agent_state e)")
    case False
    have same: "(map_of (a2t @ [(g, tr)]) h = Some r \<and> dict_mem h (ex_agent_state e))
        \<longleftrightarrow> (map_of a2t h = Some r \<and> dict_mem h (ex_agent_state e))" for h r
      using False by (cases "h = g") (auto simp: maps)
    have "split_ok (a2t @ [x]) e ret" using ret(2) unfolding split_ok_def concerns_def x same .
    then show ?thesis using ret(1) run False by simp
  next
    case True
    define t0 where "t0 = (case map_of ret tr of None \<Rightarrow> no_agents e | Some t \<Rightarrow> t)"
    have "restricted e (\<lambda>h. map_of a2t h = Some tr \<and> dict_mem h (ex_agent_state e)) t0"
    proof (cases "map_of ret tr")
      case None
      then have "\<not> concerns a2t tr e" using split_ok_None [OF ret(2)] by simp
      then show ?thesis unfolding t0_def None by (auto simp: concerns_def intro!: restricted_empty)
    next
      case (Some t)
      then show ?thesis using split_ok_Some [OF ret(2) Some] by (simp add: t0_def)
    qed
    from add_agent_restricted [OF e True _ this] new obtain t' where t': "add_agent e g t0 = Inr t'"
      "restricted e (\<lambda>h. (map_of a2t h = Some tr \<and> dict_mem h (ex_agent_state e)) \<or> h = g) t'" by auto
    have same: "(map_of (a2t @ [(g, tr)]) h = Some r \<and> dict_mem h (ex_agent_state e))
        \<longleftrightarrow> ((map_of a2t h = Some r \<and> dict_mem h (ex_agent_state e)) \<or> h = g \<and> r = tr)" for h r
      unfolding maps using True new by (cases "h = g") auto
    have "split_ok (a2t @ [(g, tr)]) e (AList.update tr t' ret)"
      using ret(2) t'(2) True unfolding split_ok_def concerns_def same
      by (auto simp: distinct_update split: if_splits)
    then show ?thesis using run True t'(1) by (simp add: x flip: t0_def)
  qed
qed


section \<open>Dispatching to trainers\<close>

definition lookup_list :: "('k \<times> 'v list) list \<Rightarrow> 'k \<Rightarrow> 'v list" where
  "lookup_list d k = (case map_of d k of None \<Rightarrow> [] | Some vs \<Rightarrow> vs)"

lemma lookup_append_to: "lookup_list (append_to k v d) k' = lookup_list d k' @ (if k' = k then [v] else [])"
  by (simp add: lookup_list_def append_to_map_of)

lemma lookup_grouped:
  "lookup_list (fold (\<lambda>x. append_to (k x) (v x)) xs d) y = lookup_list d y @ map v (filter (\<lambda>x. k x = y) xs)"
  by (induction xs arbitrary: d) (auto simp: lookup_append_to)

lemma filter_key: "distinct (map fst d) \<Longrightarrow> filter (\<lambda>x. fst x = k) d = (case map_of d k of None \<Rightarrow> [] | Some v \<Rightarrow> [(k, v)])"
proof (induction d)
  case Nil
  then show ?case by simp
next
  case (Cons y d)
  have "map_of d (fst y) = None" using Cons.prems by (simp add: map_of_eq_None_iff)
  then show ?case using Cons by (cases y) auto
qed

lemma dispatch_total:
  assumes "list_all complete exps" and dist: "distinct (map fst a2t)"
  shows "\<exists>pool. dispatch a2t exps = Inr pool \<and> (\<forall>tr. list_all2 (\<lambda>e t. restricted e
           (\<lambda>g. map_of a2t g = Some tr \<and> dict_mem g (ex_agent_state e)) t) (filter (concerns a2t tr) exps) (lookup_list pool tr))"
  using assms(1)
proof (induction exps rule: rev_induct)
  case Nil
  then show ?case by (simp add: dispatch_def lookup_list_def)
next
  case (snoc e exps)
  obtain pool where pool: "dispatch a2t exps = Inr pool" and parts: "\<And>tr. list_all2 (\<lambda>e t. restricted e
      (\<lambda>g. map_of a2t g = Some tr \<and> dict_mem g (ex_agent_state e)) t) (filter (concerns a2t tr) exps) (lookup_list pool tr)"
    using snoc by auto
  obtain ret where ret: "split_contents_by_trainer a2t e = Inr ret" "split_ok a2t e ret"
    using split_total [OF _ dist] snoc.prems by auto
  define pool' where "pool' = fold (\<lambda>(tr, x). append_to tr x) ret pool"
  have run: "dispatch a2t (exps @ [e]) = Inr pool'"
    using pool ret(1) by (simp add: dispatch_def foldE_snoc pool'_def)
  have look: "lookup_list pool' tr = lookup_list pool tr @ (case map_of ret tr of None \<Rightarrow> [] | Some t \<Rightarrow> [t])" for tr
  proof -
    have "distinct (map fst ret)" using ret(2) by (simp add: split_ok_def)
    then show ?thesis using lookup_grouped [of fst snd ret pool tr]
      by (simp add: pool'_def case_prod_unfold filter_key split: option.splits)
  qed
  have "list_all2 (\<lambda>e t. restricted e (\<lambda>g. map_of a2t g = Some tr \<and> dict_mem g (ex_agent_state e)) t)
      (filter (concerns a2t tr) (exps @ [e])) (lookup_list pool' tr)" for tr
  proof (cases "map_of ret tr")
    case None
    then have "\<not> concerns a2t tr e" using split_ok_None [OF ret(2)] by simp
    then show ?thesis using parts [of tr] None by (simp add: look)
  next
    case (Some t)
    then have t: "restricted e (\<lambda>g. map_of a2t g = Some tr \<and> dict_mem g (ex_agent_state e)) t"
      by (rule split_ok_Some [OF ret(2)])
    have "concerns a2t tr e" using split_ok_None [OF ret(2), of tr] Some by simp
    then show ?thesis using parts [of tr] Some t by (auto simp: look intro: list_all2_appendI)
  qed
  then show ?case using run by blast
qed


section \<open>The batches of a trainer\<close>

definition transition_row :: "('g, 's, 'a) exp_element \<Rightarrow> 'g \<Rightarrow> ('s, 'a) transition" where
  "transition_row e g =
     (the (map_of (ex_agent_state e) g), the (map_of (ex_action e) g), the (map_of (ex_reward e) g),
      the (map_of (ex_terminal e) g), ex_truncated e,
      case map_of (ex_next_agent_state e) g of None \<Rightarrow> the (map_of (ex_agent_state e) g) | Some x \<Rightarrow> x)"

definition has_row :: "('g, 's, 'a) exp_element \<Rightarrow> 'g \<Rightarrow> bool" where
  "has_row e g \<longleftrightarrow> dict_mem g (ex_agent_state e) \<and> dict_mem g (ex_action e) \<and> dict_mem g (ex_reward e) \<and> dict_mem g (ex_terminal e)"

lemma transition_of_row: "has_row e g \<Longrightarrow> transition_of e g = Inr (transition_row e g)"
  by (auto simp: has_row_def dict_mem_map_of transition_of_def transition_row_def dict_get_def split: option.splits)

lemma filter_same: "distinct xs \<Longrightarrow> filter (\<lambda>x. x = g) xs = (if g \<in> set xs then [g] else [])"
  by (induction xs) auto

lemma complete_has_row: "complete e \<Longrightarrow> dict_mem g (ex_agent_state e) \<Longrightarrow> has_row e g"
  by (auto simp: complete_def has_row_def list_all_iff) (force simp: dict_mem_map_of dest: map_of_SomeD)+

lemma restricted_row:
  assumes t: "restricted e (\<lambda>g. map_of a2t g = Some tr \<and> dict_mem g (ex_agent_state e)) t" and e: "complete e"
    and g: "dict_mem g (ex_agent_state t)"
  shows "has_row t g \<and> transition_row t g = transition_row e g"
proof -
  have mem: "map_of a2t g = Some tr \<and> dict_mem g (ex_agent_state e)"
    using t g by (auto simp: restricted_def dict_mem_map_of split: if_splits)
  have row: "has_row e g" using complete_has_row [OF e] mem by blast
  have same: "map_of (ex_agent_state t) g = map_of (ex_agent_state e) g" "map_of (ex_action t) g = map_of (ex_action e) g"
    "map_of (ex_reward t) g = map_of (ex_reward e) g" "map_of (ex_terminal t) g = map_of (ex_terminal e) g"
    "map_of (ex_next_agent_state t) g = map_of (ex_next_agent_state e) g" "ex_truncated t = ex_truncated e"
    using t mem by (simp_all add: restricted_def)
  show ?thesis using row unfolding has_row_def transition_row_def dict_mem_map_of same by simp
qed

lemma agent_batches_total:
  assumes "\<And>t g. t \<in> set es \<Longrightarrow> distinct (map fst (ex_agent_state t)) \<and> (dict_mem g (ex_agent_state t) \<longrightarrow> has_row t g)"
  shows "\<exists>pool. agent_batches es = Inr pool \<and>
    (\<forall>g. lookup_list pool g = map (\<lambda>t. transition_row t g) (filter (\<lambda>t. dict_mem g (ex_agent_state t)) es))"
  using assms
proof (induction es rule: rev_induct)
  case Nil
  then show ?case by (simp add: agent_batches_def lookup_list_def)
next
  case (snoc t es)
  obtain pool where pool: "agent_batches es = Inr pool"
    "\<forall>g. lookup_list pool g = map (\<lambda>t. transition_row t g) (filter (\<lambda>t. dict_mem g (ex_agent_state t)) es)"
    using snoc by auto
  have names: "distinct (agent_names t)" using snoc.prems [of t] by (simp add: agent_names_def)
  have "foldE (\<lambda>agent pool. bindE (transition_of t agent) (\<lambda>x. Inr (append_to agent x pool))) gs pool
      = Inr (fold (\<lambda>g. append_to g (transition_row t g)) gs pool)" if "set gs \<subseteq> set (agent_names t)" for gs pool
    using that
  proof (induction gs arbitrary: pool)
    case Nil
    then show ?case by simp
  next
    case (Cons g gs)
    have "has_row t g" using snoc.prems [of t g] Cons.prems by (simp add: agent_names_mem)
    with Cons show ?case by (simp add: transition_of_row)
  qed
  then have run: "agent_batches (es @ [t]) = Inr (fold (\<lambda>g. append_to g (transition_row t g)) (agent_names t) pool)"
    using pool(1) by (simp add: agent_batches_def foldE_snoc)
  have "filter (\<lambda>x. x = g) (agent_names t) = (if dict_mem g (ex_agent_state t) then [g] else [])" for g
    using filter_same [OF names] agent_names_mem [of g t] by simp
  then show ?case using run pool(2) lookup_grouped [of "\<lambda>g. g" "transition_row t" "agent_names t" pool] by simp
qed

lemma restricted_member:
  assumes "restricted e (\<lambda>g. map_of a2t g = Some tr \<and> dict_mem g (ex_agent_state e)) t" and "map_of a2t g = Some tr"
  shows "dict_mem g (ex_agent_state t) = dict_mem g (ex_agent_state e)"
  using assms by (auto simp: restricted_def dict_mem_map_of)

lemma restricted_rows:
  assumes "list_all2 (\<lambda>e t. restricted e (\<lambda>g. map_of a2t g = Some tr \<and> dict_mem g (ex_agent_state e)) t) es ts"
    and "list_all complete es" and g: "map_of a2t g = Some tr"
  shows "map (\<lambda>t. transition_row t g) (filter (\<lambda>t. dict_mem g (ex_agent_state t)) ts)
      = map (\<lambda>e. transition_row e g) (filter (\<lambda>e. dict_mem g (ex_agent_state e)) es)"
  using assms(1,2)
proof (induction rule: list_all2_induct)
  case Nil
  then show ?case by simp
next
  case (Cons e es t ts)
  then show ?case using restricted_member [OF Cons.hyps(1) g] restricted_row [OF Cons.hyps(1), of g] by auto
qed

text \<open>C31: The experiences that are dispatched to the trainers reach each trainer once and in
  order: for each agent the transitions recorded by its trainer are those of all experiences it took
  part in, one for each.\<close>

theorem experiences_recorded_once:
  assumes "list_all complete exps" and "distinct (map fst a2t)" and "map_of a2t g = Some tr"
  shows "\<exists>pool batches. dispatch a2t exps = Inr pool \<and> agent_batches (lookup_list pool tr) = Inr batches
    \<and> mapE (\<lambda>e. transition_of e g) (filter (\<lambda>e. dict_mem g (ex_agent_state e)) exps) = Inr (lookup_list batches g)"
proof -
  obtain pool where pool: "dispatch a2t exps = Inr pool" and parts: "list_all2 (\<lambda>e t. restricted e
      (\<lambda>g. map_of a2t g = Some tr \<and> dict_mem g (ex_agent_state e)) t) (filter (concerns a2t tr) exps) (lookup_list pool tr)"
    using dispatch_total [OF assms(1,2)] by blast
  have part: "\<exists>e. complete e \<and> restricted e (\<lambda>g. map_of a2t g = Some tr \<and> dict_mem g (ex_agent_state e)) t"
    if t: "t \<in> set (lookup_list pool tr)" for t
  proof -
    obtain i where i: "i < length (lookup_list pool tr)" "t = lookup_list pool tr ! i" using t by (auto simp: in_set_conv_nth)
    let ?e = "filter (concerns a2t tr) exps ! i"
    have "i < length (filter (concerns a2t tr) exps)" using list_all2_lengthD [OF parts] i(1) by simp
    then have "?e \<in> set exps" using nth_mem by fastforce
    then have "complete ?e" using assms(1) by (simp add: list_all_iff)
    then show ?thesis using list_all2_nthD2 [OF parts i(1)] i(2) by blast
  qed
  have rows: "distinct (map fst (ex_agent_state t)) \<and> (dict_mem h (ex_agent_state t) \<longrightarrow> has_row t h)"
    if t: "t \<in> set (lookup_list pool tr)" for t h
  proof -
    obtain e where "complete e" "restricted e (\<lambda>g. map_of a2t g = Some tr \<and> dict_mem g (ex_agent_state e)) t"
      using part [OF t] by blast
    then show ?thesis using restricted_row [of e a2t tr t h] by (simp add: restricted_def)
  qed
  obtain batches where batches: "agent_batches (lookup_list pool tr) = Inr batches" "lookup_list batches g
      = map (\<lambda>t. transition_row t g) (filter (\<lambda>t. dict_mem g (ex_agent_state t)) (lookup_list pool tr))"
    using agent_batches_total [OF rows] by blast
  have all: "list_all complete (filter (concerns a2t tr) exps)" using assms(1) by (simp add: list_all_iff)
  have "filter (\<lambda>e. dict_mem g (ex_agent_state e)) (filter (concerns a2t tr) exps) = filter (\<lambda>e. dict_mem g (ex_agent_state e)) exps"
    using assms(3) by (auto simp: concerns_def intro!: filter_cong)
  then have look: "lookup_list batches g = map (\<lambda>e. transition_row e g) (filter (\<lambda>e. dict_mem g (ex_agent_state e)) exps)"
    using batches(2) restricted_rows [OF parts all assms(3)] by simp
  have "mapE (\<lambda>e. transition_of e g) (filter (\<lambda>e. dict_mem g (ex_agent_state e)) exps) = Inr (lookup_list batches g)"
    unfolding look by (rule mapE_Inr_map) (use assms(1) in \<open>auto simp: list_all_iff transition_of_row complete_has_row\<close>)
  then show ?thesis using pool batches(1) by blast
qed

end
