(* ===== verification/RlSchedule.thy ===== *)
theory RlSchedule imports RlWorkflow begin

text \<open>
  When a training job evaluates: the loop over episodes walks through the evaluation schedule, and raises an error when
  the schedule is over before the episodes are.
\<close>

definition steps_ok :: "'w job_steps \<Rightarrow> int option \<Rightarrow> bool" where
  "steps_ok steps interval \<longleftrightarrow> (\<forall>ep w. \<exists>w'. js_train steps ep w = Inr w') \<and> (\<forall>ep w. \<exists>w'. js_evaluate steps ep w = Inr w')
     \<and> (\<forall>ep w. \<exists>w'. js_save steps ep w = Inr w') \<and> interval \<noteq> Some 0"

lemma steps_okD:
  assumes "steps_ok steps interval"
  shows "\<exists>w'. js_train steps ep w = Inr w'" and "\<exists>w'. js_evaluate steps ep w = Inr w'"
  using assms by (simp_all add: steps_ok_def)

lemma checkpoint_total: "steps_ok steps interval \<Longrightarrow> \<exists>w'. checkpoint_on_training_end steps interval ep w = Inr w'"
  by (cases interval) (auto simp: checkpoint_on_training_end_def steps_ok_def)

lemma run_job_append:
  "run_job steps sched interval (xs @ ys) j = bindE (run_job steps sched interval xs j) (run_job steps sched interval ys)"
proof (induction xs arbitrary: j)
  case Nil
  then show ?case by simp
next
  case (Cons x xs)
  have "run_job steps sched interval ys j = Inr j" if "jb_early_stop j" using that by (cases ys) auto
  moreover have "run_job steps sched interval (xs @ ys)
      = (\<lambda>j. bindE (run_job steps sched interval xs j) (run_job steps sched interval ys))"
    by (rule ext) (rule Cons.IH)
  ultimately show ?case by (simp add: bindE_assoc)
qed

text \<open>One episode, without early stopping.\<close>

lemma episode_not_due:
  assumes ok: "steps_ok steps interval" and due: "py_get sched (int (jb_point j)) = Inr d" "d \<noteq> ep"
  shows "\<exists>w. run_episode steps sched interval ep j = Inr (j\<lparr>jb_world := w\<rparr>)"
proof -
  obtain w where "js_train steps ep (jb_world j) = Inr w" using steps_okD(1) [OF ok] by blast
  moreover obtain w' where "checkpoint_on_training_end steps interval ep w = Inr w'" using checkpoint_total [OF ok] by blast
  ultimately show ?thesis using due by (auto simp: run_episode_def Let_def)
qed

lemma episode_due:
  assumes ok: "steps_ok steps interval" and due: "py_get sched (int (jb_point j)) = Inr ep" and "jb_stopping j = None"
  shows "\<exists>w. run_episode steps sched interval ep j
    = Inr (j\<lparr>jb_world := w, jb_point := jb_point j + 1, jb_evaluated := jb_evaluated j @ [ep]\<rparr>)"
proof -
  obtain w where "js_train steps ep (jb_world j) = Inr w" using steps_okD(1) [OF ok] by blast
  moreover obtain w' where "checkpoint_on_training_end steps interval ep w = Inr w'" using checkpoint_total [OF ok] by blast
  moreover obtain w'' where "js_evaluate steps ep w' = Inr w''" using steps_okD(2) [OF ok] by blast
  moreover have "sched \<noteq> []" using due by (auto simp: py_get_def py_pos_def)
  ultimately show ?thesis using due assms(3) by (auto simp: run_episode_def Let_def on_validation_end_def)
qed

lemma episode_after_schedule:
  assumes ok: "steps_ok steps interval" and "sched \<noteq> []" and "jb_point j = length sched"
  shows "run_episode steps sched interval ep j = Inl IndexError"
proof -
  obtain w where "js_train steps ep (jb_world j) = Inr w" using steps_okD(1) [OF ok] by blast
  moreover obtain w' where "checkpoint_on_training_end steps interval ep w = Inr w'" using checkpoint_total [OF ok] by blast
  ultimately show ?thesis using assms(2,3) by (simp add: run_episode_def Let_def py_get_def)
qed

lemma interval_schedule_get:
  assumes "0 < k" and "int i < n div k"
  shows "py_get (interval_schedule k n) (int i) = Inr (k * (int i + 1))"
proof -
  have "i < length (interval_schedule k n)" using assms by (simp add: interval_schedule_def)
  moreover have "interval_schedule k n ! i = k * (int i + 1)"
    using assms(2) nth_upto [of 1 i "n div k"] by (simp add: interval_schedule_def add.commute)
  ultimately show ?thesis by (simp add: py_get_nonneg)
qed

lemma interval_schedule_length: "length (interval_schedule k n) = nat (n div k)"
  by (simp add: interval_schedule_def)

lemma div_step:
  assumes "0 < (k :: int)" and "0 \<le> m"
  shows "(m + 1) div k = (if k dvd m + 1 then m div k + 1 else m div k)"
proof -
  define q r where "q = (m + 1) div k" and "r = (m + 1) mod k"
  have m: "m + 1 = k * q + r" by (simp add: q_def r_def)
  have r: "0 \<le> r" "r < k" using assms by (simp_all add: r_def)
  show ?thesis
  proof (cases "r = 0")
    case True
    then have "m div k = q - 1" using m assms(1) by (intro int_div_pos_eq [where r = "k - 1"]) (simp_all add: algebra_simps)
    then show ?thesis using True by (simp add: q_def r_def dvd_eq_mod_eq_0)
  next
    case False
    then have "m div k = q" using m r by (intro int_div_pos_eq [where r = "r - 1"]) (simp_all add: algebra_simps)
    then show ?thesis using False by (simp add: q_def r_def dvd_eq_mod_eq_0)
  qed
qed

text \<open>The state after the first \<open>m\<close> episodes.\<close>

lemma scheduled_prefix:
  assumes ok: "steps_ok steps interval" and k: "0 < k" and m: "int m \<le> k * (n div k)"
    and j: "jb_point j = 0" "\<not> jb_early_stop j" "jb_stopping j = None" "jb_evaluated j = []"
  shows "\<exists>j'. run_job steps (interval_schedule k n) interval [1..int m] j = Inr j' \<and> int (jb_point j') = int m div k
    \<and> \<not> jb_early_stop j' \<and> jb_stopping j' = None \<and> jb_evaluated j' = interval_schedule k (int m)"
  using m
proof (induction m)
  case 0
  then show ?case using j by (simp add: interval_schedule_def)
next
  case (Suc m)
  then obtain j' where j': "run_job steps (interval_schedule k n) interval [1..int m] j = Inr j'"
    "int (jb_point j') = int m div k" "\<not> jb_early_stop j'" "jb_stopping j' = None" "jb_evaluated j' = interval_schedule k (int m)"
    by auto
  have upto: "[1..1 + int m] = [1..int m] @ [int m + 1]" using upto_rec2 [of 1 "int m + 1"] by (simp add: add.commute)
  have next1: "run_job steps (interval_schedule k n) interval [1..1 + int m] j
      = bindE (run_episode steps (interval_schedule k n) interval (int m + 1) j') Inr"
    unfolding upto run_job_append j'(1) by (simp add: j'(3)) (simp add: bindE_def split: sum.splits)
  have less: "int m div k < n div k"
  proof (rule ccontr)
    assume "\<not> ?thesis"
    then have "k * (n div k) \<le> k * (int m div k)" using k by simp
    also have "\<dots> \<le> int m" using k by (simp add: minus_mod_eq_mult_div [symmetric])
    finally show False using Suc.prems by simp
  qed
  have get: "py_get (interval_schedule k n) (int (jb_point j')) = Inr (k * (int m div k + 1))"
    using interval_schedule_get [OF k, of "jb_point j'" n] less j'(2) by simp
  show ?case
  proof (cases "k dvd int m + 1")
    case True
    then have due: "k * (int m div k + 1) = int m + 1" using div_step [OF k, of "int m"] by (metis dvd_mult_div_cancel of_nat_0_le_iff)
    obtain w where w: "run_episode steps (interval_schedule k n) interval (int m + 1) j'
        = Inr (j'\<lparr>jb_world := w, jb_point := jb_point j' + 1, jb_evaluated := jb_evaluated j' @ [int m + 1]\<rparr>)"
      using episode_due [OF ok, of "interval_schedule k n" j' "int m + 1"] get due j'(4) by auto
    have "interval_schedule k (int m + 1) = interval_schedule k (int m) @ [int m + 1]"
      using div_step [OF k, of "int m"] True due upto_rec2 [of 1 "int m div k + 1"] k
      by (simp add: interval_schedule_def pos_imp_zdiv_nonneg_iff add.commute)
    then show ?thesis using w j'(2,3,4,5) div_step [OF k, of "int m"] True by (simp add: next1 add.commute)
  next
    case False
    have "k * (int m div k + 1) \<noteq> int m + 1" using False by (metis dvd_triv_left)
    then obtain w where w: "run_episode steps (interval_schedule k n) interval (int m + 1) j' = Inr (j'\<lparr>jb_world := w\<rparr>)"
      using episode_not_due [OF ok get] by blast
    have "interval_schedule k (1 + int m) = interval_schedule k (int m)"
      using div_step [OF k, of "int m"] False by (simp add: interval_schedule_def add.commute)
    then show ?thesis using w j'(2,3,4,5) div_step [OF k, of "int m"] False by (simp add: next1 add.commute)
  qed
qed


lemma interval_schedule_multiples:
  assumes "0 < k"
  shows "interval_schedule k n = filter (\<lambda>ep. k dvd ep) [1..n]"
proof (rule sorted_distinct_set_unique)
  show "sorted (interval_schedule k n)" using assms by (simp add: interval_schedule_def sorted_iff_nth_mono)
  show "distinct (interval_schedule k n)" using assms by (simp add: interval_schedule_def distinct_map inj_on_def)
  show "sorted (filter (\<lambda>ep. k dvd ep) [1..n])" by (simp add: sorted_wrt_filter)
  show "distinct (filter (\<lambda>ep. k dvd ep) [1..n])" by simp
  have "ep \<in> (\<lambda>i. k * i) ` {1..n div k}" if ep: "k dvd ep" "1 \<le> ep" "ep \<le> n" for ep
  proof -
    obtain i where i: "ep = k * i" using ep(1) by (rule dvdE)
    then have "0 < k * i" using ep(2) by linarith
    then have "0 < i" using assms by (rule zero_less_mult_pos)
    moreover have "i \<le> n div k" using i ep(3) assms zdiv_mono1 [of ep n k] by simp
    ultimately show ?thesis using i by auto
  qed
  moreover have "1 \<le> k * i \<and> k * i \<le> n" if "1 \<le> i" "i \<le> n div k" for i
  proof -
    have "0 < k * i" using that(1) assms by simp
    moreover have "k * i \<le> k * (n div k)" using that(2) assms by simp
    moreover have "k * (n div k) \<le> n" using assms by (simp add: minus_mod_eq_mult_div [symmetric])
    ultimately show ?thesis by linarith
  qed
  ultimately show "set (interval_schedule k n) = set (filter (\<lambda>ep. k dvd ep) [1..n])"
    by (auto simp: interval_schedule_def)
qed

lemma no_schedule_runs:
  assumes ok: "steps_ok steps interval" and "\<not> jb_early_stop j" and "jb_evaluated j = []"
  shows "\<exists>j'. run_job steps [] interval eps j = Inr j' \<and> jb_evaluated j' = []"
  using assms(2,3)
proof (induction eps arbitrary: j)
  case Nil
  then show ?case by simp
next
  case (Cons ep eps)
  obtain w where "js_train steps ep (jb_world j) = Inr w" using steps_okD(1) [OF ok] by blast
  moreover obtain w' where "checkpoint_on_training_end steps interval ep w = Inr w'" using checkpoint_total [OF ok] by blast
  ultimately show ?case using Cons by (simp add: run_episode_def Let_def)
qed

text \<open>C35: A job of n episodes with an evaluation every k of them runs to its end, and
  evaluates after the multiples of k, when k divides n or exceeds n; otherwise it raises an
  IndexError after the last evaluation.\<close>

theorem interval_schedule_runs:
  assumes ok: "steps_ok steps interval" and k: "0 < k" and n: "0 < n"
  shows "if k dvd n \<or> n < k
         then \<exists>j. training_job steps (interval_schedule k n) interval None 1 n w = Inr j
                \<and> jb_evaluated j = filter (\<lambda>ep. k dvd ep) [1..n]
         else training_job steps (interval_schedule k n) interval None 1 n w = Inl IndexError"
proof -
  define j0 where "j0 = \<lparr>jb_world = w, jb_point = 0, jb_early_stop = False,
      jb_stopping = map_option new_early_stopping None, jb_evaluated = []\<rparr>"
  have j0: "jb_point j0 = 0" "\<not> jb_early_stop j0" "jb_stopping j0 = None" "jb_evaluated j0 = []" by (simp_all add: j0_def)
  have job: "training_job steps sched interval None 1 n w = run_job steps sched interval [1..n] j0" for sched
    by (simp add: training_job_def j0_def)
  define l where "l = k * (n div k)"
  have l: "0 \<le> l" "l \<le> n" "l div k = n div k" "k dvd l"
  proof -
    have "n = l + n mod k" "0 \<le> n mod k" using k by (simp_all add: l_def)
    then show "l \<le> n" by linarith
    show "0 \<le> l" "l div k = n div k" "k dvd l" using k n by (simp_all add: l_def pos_imp_zdiv_nonneg_iff)
  qed
  obtain j where j: "run_job steps (interval_schedule k n) interval [1..l] j0 = Inr j" "int (jb_point j) = n div k"
    "\<not> jb_early_stop j" "jb_evaluated j = interval_schedule k l"
    using scheduled_prefix [OF ok k, of "nat l" n j0] j0 l by (auto simp: l_def)
  consider "k dvd n" | "n < k" | "\<not> k dvd n" "k \<le> n" by linarith
  then show ?thesis
  proof cases
    case 1
    then have "l = n" by (simp add: l_def)
    then show ?thesis using 1 j interval_schedule_multiples [OF k, of n] by (simp add: job)
  next
    case 2
    then have "interval_schedule k n = []" using n by (simp add: interval_schedule_def)
    then show ?thesis using 2 no_schedule_runs [OF ok j0(2,4), of "[1..n]"] interval_schedule_multiples [OF k, of n] by (simp add: job)
  next
    case 3
    then have less: "l < n" using l by (metis order_le_neq_trans)
    have pos: "0 < n div k" using 3 k by (simp add: pos_imp_zdiv_pos_iff)
    then have "1 \<le> l" using k by (simp add: l_def int_one_le_iff_zero_less)
    with less have upto: "[1..n] = [1..l] @ (l + 1) # [l + 2..n]"
      using l(1) upto_split2 [of 1 l n] upto_rec1 [of "l + 1" n] by (simp add: add.commute)
    have "run_episode steps (interval_schedule k n) interval (l + 1) j = Inl IndexError"
      using j(2) pos by (intro episode_after_schedule [OF ok]) (auto simp: interval_schedule_def)
    then show ?thesis using 3 j(1,3) by (simp add: job upto run_job_append)
  qed
qed

end
