(* ===== verification/RlRemote.thy ===== *)
theory RlRemote imports RlWorkflow begin

text \<open>
  \<open>rl/rollout/batch_env_sampler.py\<close> and \<open>worker.py\<close>: sampling and evaluating with remote workers.  Sockets are not
  modelled; what arrives at the controller is a list of replies, each a request index and a result, with the time in
  milliseconds that passes before it where time matters.
\<close>

section \<open>Results of workers\<close>

datatype ('x, 'i) reply_value = Experiences "'x list" | Infos "'i list"

type_synonym ('x, 'i) reply = "(string \<times> ('x, 'i) reply_value) list"

definition sample_reply :: "'x \<Rightarrow> 'i \<Rightarrow> ('x, 'i) reply" where
  "sample_reply experiences info = [(''experiences'', Experiences [experiences]), (''info'', Infos [info])]"

definition eval_reply :: "'i list \<Rightarrow> ('x, 'i) reply" where
  "eval_reply infos = [(''info'', Infos infos)]"

definition truthy :: "('x, 'i) reply_value \<Rightarrow> bool" where
  "truthy v = (case v of Experiences xs \<Rightarrow> xs \<noteq> [] | Infos is \<Rightarrow> is \<noteq> [])"

definition experiences_of :: "('x, 'i) reply \<Rightarrow> 'x list res" where
  "experiences_of r = bindE (dict_get r ''experiences'') (\<lambda>v. case v of Experiences xs \<Rightarrow> Inr xs | Infos _ \<Rightarrow> Inl TypeError)"

definition info_of :: "('x, 'i) reply \<Rightarrow> 'i res" where
  "info_of r = bindE (dict_get r ''info'') (\<lambda>v. case v of Infos is \<Rightarrow> py_get is 0 | Experiences _ \<Rightarrow> Inl TypeError)"

section \<open>The controller\<close>

text \<open>Waiting for \<open>min_replies\<close> replies to the request; \<open>None\<close> when it waits for ever.\<close>

fun collect_replies :: "int \<Rightarrow> nat \<Rightarrow> (int \<times> 'r) list \<Rightarrow> 'r list \<Rightarrow> ('r list \<times> (int \<times> 'r) list) option" where
  "collect_replies index min_replies [] results = (if min_replies \<le> length results then Some (results, []) else None)"
| "collect_replies index min_replies ((i, r) # arriving) results =
     (if min_replies \<le> length results then Some (results, (i, r) # arriving)
      else collect_replies index min_replies arriving (if i = index then results @ [r] else results))"

text \<open>The grace period: the countdown and the time spent, in milliseconds, the replies to come, and the results.\<close>

record 'r grace =
  gr_countdown :: rat
  gr_waited :: rat
  gr_arriving :: "(rat \<times> int \<times> 'r) list"
  gr_results :: "'r list"

definition grace_waiting :: "nat \<Rightarrow> 'r grace \<Rightarrow> bool" where
  "grace_waiting parallelism g \<longleftrightarrow> length (gr_results g) < parallelism \<and> 0 < gr_countdown g"

text \<open>
  One pass of the loop: \<open>poll\<close> returns with the next reply, or empty when the countdown has passed (PyZMQ rounds it down
  to whole milliseconds).  The countdown is in milliseconds, what is taken off it is in seconds.
\<close>

definition spend :: "rat \<Rightarrow> 'r grace \<Rightarrow> 'r grace" where
  "spend elapsed g = g\<lparr>gr_countdown := gr_countdown g - elapsed / 1000, gr_waited := gr_waited g + elapsed\<rparr>"

definition grace_pass :: "int \<Rightarrow> 'r grace \<Rightarrow> 'r grace" where
  "grace_pass index g =
     (case gr_arriving g of
        [] \<Rightarrow> spend (gr_countdown g) g
      | (delay, i, r) # rest \<Rightarrow>
          if delay \<le> gr_countdown g
          then spend delay (g\<lparr>gr_arriving := rest, gr_results := (if i = index then gr_results g @ [r] else gr_results g)\<rparr>)
          else spend (gr_countdown g) (g\<lparr>gr_arriving := (delay - gr_countdown g, i, r) # rest\<rparr>))"

fun grace_passes :: "nat \<Rightarrow> int \<Rightarrow> nat \<Rightarrow> 'r grace \<Rightarrow> 'r grace" where
  "grace_passes 0 index parallelism g = g"
| "grace_passes (Suc n) index parallelism g =
     (if grace_waiting parallelism g then grace_passes n index parallelism (grace_pass index g) else g)"

text \<open>\<open>int((time.time() - start_time) * grace_factor) * 1000.0\<close>, with the seconds the first phase took.\<close>

definition grace_countdown :: "rat \<Rightarrow> rat \<Rightarrow> rat" where
  "grace_countdown seconds grace_factor = of_int (let x = seconds * grace_factor in if 0 \<le> x then \<lfloor>x\<rfloor> else \<lceil>x\<rceil>) * 1000"

section \<open>The batch sampler\<close>

record batch_sampler =
  bs_sampling_parallelism :: nat
  bs_min_env_samples :: nat
  bs_eval_parallelism :: nat
  bs_ep :: int
  bs_end_of_episode :: bool

definition new_batch_sampler :: "nat option \<Rightarrow> nat option \<Rightarrow> nat option \<Rightarrow> batch_sampler" where
  "new_batch_sampler sampling min_samples evaluation =
     (let parallelism = (case sampling of None \<Rightarrow> 1 | Some n \<Rightarrow> n)
      in \<lparr>bs_sampling_parallelism = parallelism,
          bs_min_env_samples = (case min_samples of None \<Rightarrow> parallelism | Some n \<Rightarrow> n),
          bs_eval_parallelism = (case evaluation of None \<Rightarrow> 1 | Some n \<Rightarrow> n), bs_ep = 0, bs_end_of_episode = True\<rparr>)"

fun any_end_of_episode :: "('x, 'i) reply list \<Rightarrow> bool res" where
  "any_end_of_episode [] = Inr False"
| "any_end_of_episode (r # rs) =
     bindE (dict_get r ''end_of_episode'') (\<lambda>v. if truthy v then Inr True else any_end_of_episode rs)"

text \<open>What \<open>sample\<close> makes of the results of its request.\<close>

definition merge_samples :: "('x, 'i) reply list \<Rightarrow> batch_sampler \<Rightarrow> (('x list \<times> 'i list) \<times> batch_sampler) res" where
  "merge_samples results b =
     bindE (any_end_of_episode results) (\<lambda>done.
     bindE (mapE experiences_of results) (\<lambda>experiences.
     bindE (mapE info_of results) (\<lambda>infos.
       Inr ((concat experiences, infos), b\<lparr>bs_end_of_episode := done\<rparr>))))"

text \<open>
  With the workers connected, the replies that arrive and those the grace period lets in (none without a grace factor),
  which ends when every worker has answered.
\<close>

definition late_replies :: "int \<Rightarrow> nat \<Rightarrow> (int \<times> 'r) list \<Rightarrow> 'r list \<Rightarrow> 'r list" where
  "late_replies index parallelism late results =
     results @ take (parallelism - length results) (map snd (filter (\<lambda>(i, r). i = index) late))"

definition batch_sample ::
  "(int \<times> ('x, 'i) reply) list \<Rightarrow> (int \<times> ('x, 'i) reply) list \<Rightarrow> batch_sampler
     \<Rightarrow> (('x list \<times> 'i list) \<times> (int \<times> ('x, 'i) reply) list \<times> batch_sampler) res option" where
  "batch_sample arriving late b =
     (let b = (if bs_end_of_episode b then b\<lparr>bs_ep := bs_ep b + 1\<rparr> else b)
      in map_option (\<lambda>(results, rest).
             bindE (merge_samples (late_replies (bs_ep b) (bs_sampling_parallelism b) late results) b) (\<lambda>(merged, b).
               Inr (merged, rest, b)))
           (collect_replies (bs_ep b) (bs_min_env_samples b) arriving []))"

definition batch_eval ::
  "(int \<times> ('x, 'i) reply) list \<Rightarrow> batch_sampler \<Rightarrow> ('i list \<times> (int \<times> ('x, 'i) reply) list) res option" where
  "batch_eval arriving b =
     map_option (\<lambda>(results, rest). bindE (mapE info_of results) (\<lambda>infos. Inr (infos, rest)))
       (collect_replies (bs_ep b) (bs_eval_parallelism b) arriving [])"

end
