(* ===== verification/RlRemoteProps.thy ===== *)
theory RlRemoteProps imports RlRemote begin

text \<open>
  Remote sampling asks the replies for a field the workers do not send, and the grace period for late workers counts
  milliseconds down by seconds.
\<close>

section \<open>Waiting for replies\<close>

lemma wait_replies_complete:
  assumes "n \<le> length results + length (filter (\<lambda>(i, r). i = index) arriving)"
  shows "\<exists>new rest. collect_replies index n arriving results = Some (results @ new, rest) \<and> n \<le> length (results @ new)
    \<and> set new \<subseteq> snd ` set arriving"
  using assms
proof (induction arriving arbitrary: results)
  case Nil
  then show ?case by simp
next
  case (Cons a arriving)
  obtain i r where a: "a = (i, r)" by force
  show ?case
  proof (cases "n \<le> length results")
    case True
    then show ?thesis by (simp add: a)
  next
    case False
    define results' where "results' = (if i = index then results @ [r] else results)"
    have "n \<le> length results' + length (filter (\<lambda>(i, r). i = index) arriving)"
      using Cons.prems by (simp add: results'_def a split: if_splits)
    from Cons.IH [OF this] obtain new rest where
      new: "collect_replies index n arriving results' = Some (results' @ new, rest)" "n \<le> length (results' @ new)"
        "set new \<subseteq> snd ` set arriving" by blast
    define new' where "new' = (if i = index then r # new else new)"
    have "results' @ new = results @ new'" by (simp add: results'_def new'_def)
    moreover have "set new' \<subseteq> snd ` set (a # arriving)" using new(3) by (auto simp: new'_def a)
    ultimately show ?thesis using new False by (auto simp: a simp flip: results'_def)
  qed
qed

text \<open>C37: Sampling through remote workers raises a KeyError as soon as enough of them have
  answered: the replies have no entry for the end of the episode.\<close>

theorem remote_sampling_raises:
  assumes "\<forall>(i, r)\<in>set arriving. \<exists>experiences info. r = sample_reply experiences info"
    and "bs_min_env_samples b \<le> length (filter (\<lambda>(i, r). i = (if bs_end_of_episode b then bs_ep b + 1 else bs_ep b)) arriving)"
    and "0 < bs_min_env_samples b"
  shows "batch_sample arriving late b = Some (Inl KeyError)"
proof -
  define c where "c = (if bs_end_of_episode b then b\<lparr>bs_ep := bs_ep b + 1\<rparr> else b)"
  have c: "bs_min_env_samples c = bs_min_env_samples b" "bs_ep c = (if bs_end_of_episode b then bs_ep b + 1 else bs_ep b)"
    by (simp_all add: c_def)
  obtain new rest where new: "collect_replies (bs_ep c) (bs_min_env_samples c) arriving [] = Some (new, rest)"
    "bs_min_env_samples b \<le> length new" "set new \<subseteq> snd ` set arriving"
    using wait_replies_complete [of "bs_min_env_samples c" "[]" "bs_ep c" arriving] assms(2) by (auto simp: c)
  obtain r rs where r: "new = r # rs" using new(2) assms(3) by (cases new) auto
  then obtain experiences info where "r = sample_reply experiences info" using new(3) assms(1) by force
  then have "merge_samples (late_replies (bs_ep c) (bs_sampling_parallelism c) late new) c = Inl KeyError"
    by (simp add: merge_samples_def late_replies_def r sample_reply_def dict_get_def)
  then show ?thesis using new(1) by (simp add: batch_sample_def Let_def flip: c_def)
qed

section \<open>The grace period\<close>

lemma idle_pass:
  "gr_arriving g = [] \<Longrightarrow> grace_pass index g
     = g\<lparr>gr_countdown := gr_countdown g * (999 / 1000), gr_waited := gr_waited g + gr_countdown g\<rparr>"
  by (simp add: grace_pass_def spend_def)

lemma idle_passes:
  assumes "gr_arriving g = []" and "length (gr_results g) < parallelism" and "0 < gr_countdown g"
  shows "gr_countdown (grace_passes n index parallelism g) = gr_countdown g * (999 / 1000) ^ n
    \<and> gr_waited (grace_passes n index parallelism g) = gr_waited g + 1000 * gr_countdown g * (1 - (999 / 1000) ^ n)"
  using assms
proof (induction n arbitrary: g)
  case 0
  then show ?case by simp
next
  case (Suc n)
  let ?h = "grace_pass index g"
  have h: "gr_arriving ?h = []" "length (gr_results ?h) < parallelism" "0 < gr_countdown ?h"
    "gr_countdown ?h = gr_countdown g * (999 / 1000)" "gr_waited ?h = gr_waited g + gr_countdown g"
    using Suc.prems by (simp_all add: idle_pass)
  have "grace_waiting parallelism g" using Suc.prems by (simp add: grace_waiting_def)
  then show ?case using Suc.IH [OF h(1-3)] by (simp add: h(4,5) algebra_simps)
qed

lemma power_lower_bound: "0 \<le> x \<Longrightarrow> 1 + of_nat n * x \<le> (1 + x) ^ n" for x :: rat
proof (induction n)
  case 0
  then show ?case by simp
next
  case (Suc n)
  have "1 + of_nat (Suc n) * x \<le> (1 + x) * (1 + of_nat n * x)" using Suc.prems by (simp add: algebra_simps)
  also have "\<dots> \<le> (1 + x) * (1 + x) ^ n" using Suc by (intro mult_left_mono) auto
  finally show ?case by simp
qed

lemma half_bound: "0 \<le> x \<Longrightarrow> 2 \<le> y \<Longrightarrow> x * y = 1 \<Longrightarrow> x \<le> 1 / 2" for x y :: rat
  using mult_left_mono [of 2 y x] by simp

lemma shrinking_power: "(999 / 1000 :: rat) ^ 999 \<le> 1 / 2"
proof (rule half_bound)
  have "1 + of_nat 999 * (1 / 999) \<le> (1 + 1 / 999 :: rat) ^ 999" by (rule power_lower_bound) simp
  moreover have "1 + of_nat 999 * (1 / 999) = (2 :: rat)" by simp
  ultimately show "2 \<le> (1 + 1 / 999 :: rat) ^ 999" by (simp only:)
  have "(999 / 1000) * (1 + 1 / 999) = (1 :: rat)" by simp
  then have "((999 / 1000) * (1 + 1 / 999)) ^ 999 = (1 :: rat)" by (simp only: power_one)
  then show "(999 / 1000) ^ 999 * (1 + 1 / 999) ^ 999 = (1 :: rat)" by (simp only: power_mult_distrib)
  show "0 \<le> (999 / 1000 :: rat) ^ 999" by (rule zero_le_power) simp
qed

lemma passes_frame:
  "gr_arriving g = [] \<Longrightarrow> gr_results (grace_passes n index parallelism g) = gr_results g"
  by (induction n arbitrary: g) (auto simp: idle_pass)

text \<open>
  The countdown of the grace period is in milliseconds, and each pass of the loop lowers it by the seconds it polled for
  them: with no reply arriving 999 passes have waited for more than half as many times the period, and it is not over.
\<close>

theorem grace_period_overruns:
  assumes "gr_arriving g = []" and "length (gr_results g) < parallelism" and "0 < gr_countdown g"
  shows "500 * gr_countdown g \<le> gr_waited (grace_passes 999 index parallelism g) - gr_waited g
    \<and> grace_waiting parallelism (grace_passes 999 index parallelism g)"
proof
  let ?c = "gr_countdown g"
  have "gr_waited (grace_passes 999 index parallelism g) - gr_waited g = 1000 * ?c * (1 - (999 / 1000) ^ 999)"
    using idle_passes [OF assms, of 999 index] by (simp only: add_diff_cancel_left')
  moreover have "1000 * ?c * (1 / 2) \<le> 1000 * ?c * (1 - (999 / 1000) ^ 999)"
  proof (rule mult_left_mono)
    show "1 / 2 \<le> (1 - (999 / 1000) ^ 999 :: rat)" using shrinking_power by linarith
    show "0 \<le> 1000 * ?c" using assms(3) by simp
  qed
  ultimately show "500 * ?c \<le> gr_waited (grace_passes 999 index parallelism g) - gr_waited g" by (simp only: mult.assoc)
  have "0 < ?c * (999 / 1000) ^ 999" using assms(3) by (intro mult_pos_pos zero_less_power) simp_all
  then show "grace_waiting parallelism (grace_passes 999 index parallelism g)"
    using idle_passes [OF assms, of 999 index] passes_frame [OF assms(1), of 999 index parallelism] assms(2)
    by (simp only: grace_waiting_def)
qed

end
