(* ===== verification/RlSamples.thy ===== *)
theory RlSamples imports EnvSamplerSamples RlRecording RlSchedule RlRemoteProps begin

text \<open>The theorems on training jobs at concrete inputs.\<close>

section \<open>A sampler cut off after two of its steps\<close>

declare collect.simps [code] sample_loop.simps [code]

lemma cut_off_run:
  "case sampler_sample turn_hooks None (turn_sampler (Some 2)) of
     Some (Inr (x, t)) \<Rightarrow> length x = 2 \<and> \<not> sa_end_of_episode t
   | _ \<Rightarrow> False"
  by code_simp

theorem truncated_job_hangs_witness:
  "\<exists>x t. sampler_sample turn_hooks None (turn_sampler (Some 2)) = Some (Inr (x, t)) \<and> length x = 2
     \<and> gather turn_hooks None 1 0 [] [] t = None"
proof -
  obtain x t where run: "sampler_sample turn_hooks None (turn_sampler (Some 2)) = Some (Inr (x, t))"
    "length x = 2" "\<not> sa_end_of_episode t"
    using cut_off_run by (auto split: option.splits sum.splits)
  then show ?thesis using truncated_job_hangs [OF run(1,3), of 1] by simp
qed


section \<open>Bundles, trainers and experiences\<close>

theorem partial_mapping_raises_witness:
  "\<exists>b. make_bundle [(0 :: nat, ''a''), (1, ''b'')] [(''a'', True), (''b'', True)] [(''t'', SingleAgent)] None (Some [(''a'', ''t'')]) = Inr b
     \<and> make_manager (\<lambda>_ _. Inr ()) True b = Inl KeyError"
proof -
  let ?make = "make_bundle [(0 :: nat, ''a''), (1, ''b'')] [(''a'', True), (''b'', True)] [(''t'', SingleAgent)] None (Some [(''a'', ''t'')])"
  obtain b where b: "?make = Inr b" by (simp add: make_bundle_def)
  have "make_manager (\<lambda>_ _. Inr ()) True b = Inl KeyError"
    by (rule partial_mapping_raises [OF b, of "''b''" True]) (simp_all add: dict_mem_def)
  then show ?thesis using b by blast
qed

definition two_bundle :: "nat rl_bundle res" where
  "two_bundle = make_bundle [(0, ''ppo.policy''), (1, ''dqn.policy''), (2, ''ppo.policy'')]
     [(''ppo.policy'', True), (''dqn.policy'', True)] [(''ppo'', SingleAgent), (''dqn'', MultiAgent)] None None"

text \<open>The bundle can be set up, unless the trainer \<open>dqn\<close> cannot be built.\<close>

lemma two_bundle_ok: "case two_bundle of Inl _ \<Rightarrow> False
    | Inr b \<Rightarrow> setup_ok (\<lambda>_ _. Inr ()) b \<and> \<not> setup_ok (\<lambda>t _. if t = ''dqn'' then Inl AssertionError else Inr ()) b"
  by code_simp


definition shared_step :: "int \<Rightarrow> (nat \<times> int) list \<Rightarrow> (nat, int, int) exp_element" where
  "shared_step tick states =
     \<lparr>ex_tick = tick, ex_state = None, ex_agent_state = states, ex_action = states,
      ex_reward = map (\<lambda>(g, x). (g, 1)) states, ex_terminal = map (\<lambda>(g, x). (g, False)) states, ex_next_state = None,
      ex_next_agent_state = [], ex_truncated = False\<rparr>"

theorem experiences_recorded_once_witness:
  "\<exists>pool batches. dispatch [(1, ''x''), (2, ''y'')] [shared_step 0 [(1, 10), (2, 20)], shared_step 1 [(2, 21)]] = Inr pool
     \<and> agent_batches (lookup_list pool ''y'') = Inr batches
     \<and> lookup_list batches 2 = [(20, 20, 1, False, False, 20), (21, 21, 1, False, False, 21)]"
proof -
  have all: "list_all complete [shared_step 0 [(1, 10), (2, 20)], shared_step 1 [(2, 21)]]"
    by (simp add: complete_def shared_step_def dict_mem_def)
  from experiences_recorded_once [OF all, of "[(1, ''x''), (2, ''y'')]" 2 "''y''"] show ?thesis
    by (force simp: shared_step_def dict_mem_def transition_of_def dict_get_def)
qed

section \<open>Schedules\<close>

definition counting_steps :: "nat job_steps" where
  "counting_steps = \<lparr>js_train = (\<lambda>ep w. Inr (w + 1)), js_evaluate = (\<lambda>ep w. Inr w), js_metric = of_nat, js_save = (\<lambda>ep w. Inr w)\<rparr>"

theorem interval_schedule_runs_witness:
  "training_job counting_steps (interval_schedule 5 23) None None 1 23 0 = Inl IndexError
     \<and> (\<exists>j. training_job counting_steps (interval_schedule 5 20) None None 1 20 0 = Inr j \<and> jb_evaluated j = [5, 10, 15, 20])"
proof -
  have ok: "steps_ok counting_steps None" by (simp add: steps_ok_def counting_steps_def)
  have "filter (\<lambda>ep. 5 dvd ep) [1..20] = [5, 10, 15, 20 :: int]" by code_simp
  then show ?thesis using interval_schedule_runs [OF ok, of 5 23 0] interval_schedule_runs [OF ok, of 5 20 0] by simp
qed

section \<open>Remote workers\<close>

theorem remote_sampling_raises_witness:
  "batch_sample [(0, sample_reply [7 :: nat] True), (1, sample_reply [8] True), (1, sample_reply [9] False)] []
     (new_batch_sampler (Some 2) None None) = Some (Inl KeyError)"
  by (rule remote_sampling_raises) (auto simp: new_batch_sampler_def)

theorem grace_period_overruns_witness:
  "500 * 1000 \<le> gr_waited (grace_passes 999 3 2
       \<lparr>gr_countdown = grace_countdown 2 (1 / 2), gr_waited = 0, gr_arriving = [], gr_results = [True]\<rparr>)"
proof -
  have c: "grace_countdown 2 (1 / 2) = 1000" by (simp add: grace_countdown_def)
  show ?thesis unfolding c
    using grace_period_overruns [of "\<lparr>gr_countdown = 1000, gr_waited = 0, gr_arriving = [], gr_results = [True]\<rparr>" 2 3]
    by (simp only: grace.simps) simp
qed

end
