(* ===== verification/TrainProxy.thy ===== *)
theory TrainProxy imports "HOL-Library.Multiset" Prelude begin

text \<open>
  \<open>rl/training/proxy.py\<close>: the proxy between trainers and workers.  A request of train ops is split over the least
  recently used workers, and the gradients the workers send back are averaged into one result.

  Splitting a batch and averaging gradients are arguments.  When the splitting of a request raises, the event loop goes
  on with what the handler had changed before, and the ops that asked wait for an answer nobody works on.
\<close>

section \<open>The proxy\<close>

record ('w, 'c, 'r) train_proxy =
  tp_available_workers :: "'w list"
  tp_connected_ops :: "'c set"
  tp_result_cache :: "('c \<times> 'r list) list"
  tp_expected_num_results :: "('c \<times> nat) list"
  tp_receiving :: bool

definition new_train_proxy :: "('w, 'c, 'r) train_proxy" where
  "new_train_proxy =
     \<lparr>tp_available_workers = [], tp_connected_ops = {}, tp_result_cache = [], tp_expected_num_results = [], tp_receiving = False\<rparr>"

definition cached_results :: "('w, 'c, 'r) train_proxy \<Rightarrow> 'c \<Rightarrow> 'r list" where
  "cached_results p c = (case map_of (tp_result_cache p) c of None \<Rightarrow> [] | Some rs \<Rightarrow> rs)"

text \<open>The messages of a request: worker, ops and sub-batch.\<close>

definition route_request ::
  "(nat \<Rightarrow> 'b \<Rightarrow> 'b list res) \<Rightarrow> 'c \<Rightarrow> nat \<Rightarrow> 'b \<Rightarrow> ('w, 'c, 'r) train_proxy
     \<Rightarrow> ('w \<times> 'c \<times> 'b) list res \<times> ('w, 'c, 'r) train_proxy" where
  "route_request split c desired_parallelism batch p =
     (let k = min desired_parallelism (length (tp_available_workers p));
          workers = take k (tp_available_workers p);
          p = p\<lparr>tp_connected_ops := insert c (tp_connected_ops p), tp_available_workers := drop k (tp_available_workers p),
                tp_expected_num_results := AList.update c k (tp_expected_num_results p)\<rparr>
      in case split k batch of
           Inl err \<Rightarrow> (Inl err, p)
         | Inr parts \<Rightarrow>
             (Inr (map (\<lambda>(w, part). (w, c, part)) (zip workers parts)),
              if tp_available_workers p = [] then p\<lparr>tp_receiving := False\<rparr> else p))"

text \<open>The ops leave; when the last ones do, the workers that are told to exit.\<close>

definition route_exit :: "'c \<Rightarrow> ('w, 'c, 'r) train_proxy \<Rightarrow> ('w list \<times> ('w, 'c, 'r) train_proxy) res" where
  "route_exit c p =
     (if c \<in> tp_connected_ops p then
        let p = p\<lparr>tp_connected_ops := tp_connected_ops p - {c}\<rparr>
        in Inr (if tp_connected_ops p = {} then tp_available_workers p else [], p)
      else Inl KeyError)"

definition worker_available :: "'w \<Rightarrow> ('w, 'c, 'r) train_proxy \<Rightarrow> ('w, 'c, 'r) train_proxy" where
  "worker_available w p = p\<lparr>tp_available_workers := tp_available_workers p @ [w], tp_receiving := True\<rparr>"

text \<open>A result of a worker; the answer to the ops, when it was the last one.\<close>

definition send_result ::
  "('r list \<Rightarrow> 'r) \<Rightarrow> 'w \<Rightarrow> 'c \<Rightarrow> 'r \<Rightarrow> ('w, 'c, 'r) train_proxy \<Rightarrow> ('r option \<times> ('w, 'c, 'r) train_proxy) res" where
  "send_result average w c r p =
     (let results = cached_results p c @ [r]
      in bindE (dict_get (tp_expected_num_results p) c) (\<lambda>expected.
           if length results = expected
           then Inr (Some (average results), worker_available w (p\<lparr>tp_result_cache := AList.update c [] (tp_result_cache p)\<rparr>))
           else Inr (None, worker_available w (p\<lparr>tp_result_cache := AList.update c results (tp_result_cache p)\<rparr>))))"

section \<open>The proxy among ops and workers\<close>

text \<open>
  The jobs the workers have, the parts of the request each of the ops waits for, the ops whose request went to no worker
  (its splitting raised, or no worker was left), and the answers: ops, parts and result.  Ops ask again only when they
  have their answer.
\<close>

record ('w, 'c, 'b, 'r) training_net =
  tn_proxy :: "('w, 'c, 'r) train_proxy"
  tn_jobs :: "('w \<times> 'c \<times> 'b) list"
  tn_asked :: "'c \<Rightarrow> 'b list option"
  tn_lost :: "'c set"
  tn_answers :: "('c \<times> 'b list \<times> 'r) list"

definition new_training_net :: "('w, 'c, 'b, 'r) training_net" where
  "new_training_net =
     \<lparr>tn_proxy = new_train_proxy, tn_jobs = [], tn_asked = (\<lambda>c. None), tn_lost = {}, tn_answers = []\<rparr>"

definition idle_ops :: "('w, 'c, 'b, 'r) training_net \<Rightarrow> 'c \<Rightarrow> bool" where
  "idle_ops s c \<longleftrightarrow> tn_asked s c = None \<and> c \<notin> tn_lost s"

inductive net_run ::
  "(nat \<Rightarrow> 'b \<Rightarrow> 'b list res) \<Rightarrow> ('r list \<Rightarrow> 'r) \<Rightarrow> ('b \<Rightarrow> 'r) \<Rightarrow> ('w, 'c, 'b, 'r) training_net \<Rightarrow> bool"
  for split :: "nat \<Rightarrow> 'b \<Rightarrow> 'b list res" and average :: "'r list \<Rightarrow> 'r" and compute :: "'b \<Rightarrow> 'r" where
  start: "net_run split average compute new_training_net"
| ready: "net_run split average compute s \<Longrightarrow>
    w \<notin> set (tp_available_workers (tn_proxy s)) \<union> fst ` set (tn_jobs s) \<Longrightarrow>
    net_run split average compute (s\<lparr>tn_proxy := worker_available w (tn_proxy s)\<rparr>)"
| request: "net_run split average compute s \<Longrightarrow> tp_receiving (tn_proxy s) \<Longrightarrow> idle_ops s c \<Longrightarrow>
    route_request split c n batch (tn_proxy s) = (Inr jobs, p) \<Longrightarrow> jobs \<noteq> [] \<Longrightarrow>
    net_run split average compute
      (s\<lparr>tn_proxy := p, tn_jobs := tn_jobs s @ jobs, tn_asked := (tn_asked s)(c \<mapsto> map (\<lambda>(w, c, part). part) jobs)\<rparr>)"
| lost: "net_run split average compute s \<Longrightarrow> tp_receiving (tn_proxy s) \<Longrightarrow> idle_ops s c \<Longrightarrow>
    route_request split c n batch (tn_proxy s) = (result, p) \<Longrightarrow> result = Inr [] \<or> isl result \<Longrightarrow>
    net_run split average compute (s\<lparr>tn_proxy := p, tn_lost := insert c (tn_lost s)\<rparr>)"
| finish: "net_run split average compute s \<Longrightarrow> i < length (tn_jobs s) \<Longrightarrow> tn_jobs s ! i = (w, c, part) \<Longrightarrow>
    send_result average w c (compute part) (tn_proxy s) = Inr (answer, p) \<Longrightarrow>
    net_run split average compute
      (s\<lparr>tn_proxy := p, tn_jobs := take i (tn_jobs s) @ drop (Suc i) (tn_jobs s),
         tn_asked := (if answer = None then tn_asked s else (tn_asked s)(c := None)),
         tn_answers := (case answer of None \<Rightarrow> tn_answers s
                        | Some r \<Rightarrow> tn_answers s @ [(c, case tn_asked s c of None \<Rightarrow> [] | Some parts \<Rightarrow> parts, r)])\<rparr>)"

section \<open>What the proxy keeps\<close>

definition jobs_of :: "('w, 'c, 'b, 'r) training_net \<Rightarrow> 'c \<Rightarrow> 'b list" where
  "jobs_of s c = map (\<lambda>(w, c, part). part) (filter (\<lambda>(w, d, part). d = c) (tn_jobs s))"

text \<open>What the proxy knows of the ops: the results that came and the jobs still out make up the request.\<close>

definition ops_inv :: "('b \<Rightarrow> 'r) \<Rightarrow> ('w, 'c, 'r) train_proxy \<Rightarrow> 'c \<Rightarrow> 'b list \<Rightarrow> 'b list option \<Rightarrow> bool" where
  "ops_inv compute p c jobs asked =
     (case asked of
        None \<Rightarrow> jobs = [] \<and> cached_results p c = []
      | Some parts \<Rightarrow> jobs \<noteq> [] \<and> map_of (tp_expected_num_results p) c = Some (length parts)
          \<and> mset (cached_results p c) + image_mset compute (mset jobs) = image_mset compute (mset parts))"

definition net_inv :: "('b \<Rightarrow> 'r) \<Rightarrow> ('w, 'c, 'b, 'r) training_net \<Rightarrow> bool" where
  "net_inv compute s \<longleftrightarrow>
     distinct (tp_available_workers (tn_proxy s) @ map fst (tn_jobs s))
     \<and> (tp_receiving (tn_proxy s) \<longrightarrow> tp_available_workers (tn_proxy s) \<noteq> [] \<or> tn_lost s \<noteq> {})
     \<and> (\<forall>c. ops_inv compute (tn_proxy s) c (jobs_of s c) (tn_asked s c))
     \<and> (\<forall>c\<in>tn_lost s. tn_asked s c = None)"

end
