(* ===== verification/TrainProxyProps.thy ===== *)
theory TrainProxyProps imports TrainProxy ReplayMemory begin

text \<open>
  Requests are answered exactly, whatever the order in which workers come and finish; and a batch with fewer rows than
  workers loses the workers.
\<close>

section \<open>Steps keep the invariant\<close>

lemma cached_update:
  "cached_results (p\<lparr>tp_result_cache := AList.update c rs (tp_result_cache q)\<rparr>) d = (if d = c then rs else cached_results q d)"
  by (simp add: cached_results_def)

lemma worker_available_simps [simp]:
  "tp_available_workers (worker_available w p) = tp_available_workers p @ [w]"
  "tp_expected_num_results (worker_available w p) = tp_expected_num_results p"
  "cached_results (worker_available w p) = cached_results p" "tp_receiving (worker_available w p)"
  by (simp_all add: worker_available_def cached_results_def fun_eq_iff)

lemma route_request_keeps:
  assumes "route_request split c n batch p = (result, q)"
  shows "cached_results q = cached_results p" and "tp_receiving q \<Longrightarrow> tp_receiving p"
    and "\<exists>k. tp_available_workers q = drop k (tp_available_workers p)"
    and "d \<noteq> c \<Longrightarrow> map_of (tp_expected_num_results q) d = map_of (tp_expected_num_results p) d"
  using assms by (auto simp: route_request_def Let_def cached_results_def fun_eq_iff update_conv' split: sum.splits if_splits)

lemma route_request_facts:
  assumes "route_request split c n batch p = (Inr jobs, q)"
    and "\<forall>k b parts. split k b = Inr parts \<longrightarrow> length parts = k"
  shows "map fst jobs @ tp_available_workers q = tp_available_workers p"
    and "\<forall>job\<in>set jobs. fst (snd job) = c" and "tp_receiving q \<longrightarrow> tp_available_workers q \<noteq> []"
    and "tp_expected_num_results q = AList.update c (length jobs) (tp_expected_num_results p)"
proof -
  define k where "k = min n (length (tp_available_workers p))"
  obtain parts where parts: "split k batch = Inr parts"
    using assms(1) by (auto simp: route_request_def Let_def k_def split: sum.splits)
  have len: "length parts = k" using assms(2) parts by blast
  have jobs: "jobs = map (\<lambda>(w, part). (w, c, part)) (zip (take k (tp_available_workers p)) parts)"
    and q: "tp_available_workers q = drop k (tp_available_workers p)"
      "tp_expected_num_results q = AList.update c k (tp_expected_num_results p)" "tp_receiving q \<longrightarrow> tp_available_workers q \<noteq> []"
    using assms(1) parts by (auto simp: route_request_def Let_def split: if_splits simp flip: k_def)
  have k: "k \<le> length (tp_available_workers p)" by (simp add: k_def)
  have "map fst jobs = map fst (zip (take k (tp_available_workers p)) parts)" by (simp add: jobs case_prod_unfold comp_def)
  then have "map fst jobs = take k (tp_available_workers p)" using len k by simp
  then show "map fst jobs @ tp_available_workers q = tp_available_workers p" using q(1) by simp
  show "\<forall>job\<in>set jobs. fst (snd job) = c" by (auto simp: jobs)
  have "length jobs = k" using len k by (simp add: jobs)
  then show "tp_expected_num_results q = AList.update c (length jobs) (tp_expected_num_results p)" using q(2) by simp
  show "tp_receiving q \<longrightarrow> tp_available_workers q \<noteq> []" by (rule q(3))
qed

lemma jobs_of_append:
  "jobs_of (s\<lparr>tn_proxy := p, tn_jobs := tn_jobs s @ jobs, tn_asked := a\<rparr>) d
     = jobs_of s d @ map (\<lambda>(w, c, part). part) (filter (\<lambda>(w, c, part). c = d) jobs)"
  by (simp add: jobs_of_def)

lemma net_inv_request:
  assumes inv: "net_inv compute s" and asked: "idle_ops s c"
    and route: "route_request split c n batch (tn_proxy s) = (Inr jobs, p)" and nonempty: "jobs \<noteq> []"
    and split: "\<forall>k b parts. split k b = Inr parts \<longrightarrow> length parts = k"
  shows "net_inv compute (s\<lparr>tn_proxy := p, tn_jobs := tn_jobs s @ jobs,
           tn_asked := (tn_asked s)(c \<mapsto> map (\<lambda>(w, c, part). part) jobs)\<rparr>)"
proof -
  note facts = route_request_facts [OF route split] and keeps = route_request_keeps [OF route]
  define s' where "s' = s\<lparr>tn_proxy := p, tn_jobs := tn_jobs s @ jobs, tn_asked := (tn_asked s)(c \<mapsto> map (\<lambda>(w, c, part). part) jobs)\<rparr>"
  have own: "filter (\<lambda>(w, d, part). d = e) jobs = (if e = c then jobs else [])" for e
    using facts(2) by (auto simp: case_prod_unfold filter_empty_conv)
  have workers: "distinct (map fst jobs @ tp_available_workers p @ map fst (tn_jobs s))"
    using inv facts(1) by (simp add: net_inv_def flip: append_assoc)
  have ops: "ops_inv compute (tn_proxy s) d (jobs_of s d) (tn_asked s d)" for d using inv by (simp add: net_inv_def)
  have "ops_inv compute p d (jobs_of s' d) (tn_asked s' d)" for d
  proof (cases "d = c")
    case True
    then show ?thesis using ops [of c] asked facts(4) nonempty keeps(1)
      by (simp add: ops_inv_def idle_ops_def s'_def jobs_of_append own)
  next
    case False
    then show ?thesis using ops [of d] keeps(1,4)
      by (auto simp: ops_inv_def s'_def jobs_of_append own split: option.splits)
  qed
  moreover have "distinct (tp_available_workers p @ map fst (tn_jobs s @ jobs))" using workers by auto
  ultimately have "net_inv compute s'" using facts(3) inv asked by (auto simp: net_inv_def idle_ops_def s'_def)
  then show ?thesis by (simp add: s'_def)
qed

lemma net_inv_lost:
  assumes inv: "net_inv compute s" and asked: "idle_ops s c"
    and route: "route_request split c n batch (tn_proxy s) = (result, p)"
  shows "net_inv compute (s\<lparr>tn_proxy := p, tn_lost := insert c (tn_lost s)\<rparr>)"
proof -
  note keeps = route_request_keeps [OF route]
  have ops: "ops_inv compute (tn_proxy s) d (jobs_of s d) (tn_asked s d)" for d using inv by (simp add: net_inv_def)
  have "ops_inv compute p d (jobs_of s d) (tn_asked s d)" for d
    using ops [of d] asked keeps(1,4) by (cases "d = c") (auto simp: ops_inv_def idle_ops_def split: option.splits)
  moreover have "distinct (tp_available_workers p @ map fst (tn_jobs s))"
  proof -
    obtain k where "tp_available_workers p = drop k (tp_available_workers (tn_proxy s))" using keeps(3) by blast
    then show ?thesis using inv set_drop_subset [of k "tp_available_workers (tn_proxy s)"] by (auto simp: net_inv_def)
  qed
  ultimately show ?thesis using inv asked by (auto simp: net_inv_def idle_ops_def jobs_of_def)
qed

lemma remove_job:
  assumes "i < length js" and "js ! i = (w, c, part)"
  shows "mset (map (\<lambda>(w, c, part). part) (filter (\<lambda>(w, d, part). d = c) js))
      = add_mset part (mset (map (\<lambda>(w, c, part). part) (filter (\<lambda>(w, d, part). d = c) (take i js @ drop (Suc i) js))))"
    and "d \<noteq> c \<Longrightarrow> filter (\<lambda>(w, e, part). e = d) (take i js @ drop (Suc i) js) = filter (\<lambda>(w, e, part). e = d) js"
    and "distinct (ws @ map fst js) \<Longrightarrow> distinct ((ws @ [w]) @ map fst (take i js @ drop (Suc i) js))"
proof -
  have js: "js = take i js @ (w, c, part) # drop (Suc i) js" using id_take_nth_drop [OF assms(1)] assms(2) by simp
  show "mset (map (\<lambda>(w, c, part). part) (filter (\<lambda>(w, d, part). d = c) js))
      = add_mset part (mset (map (\<lambda>(w, c, part). part) (filter (\<lambda>(w, d, part). d = c) (take i js @ drop (Suc i) js))))"
    by (subst (1) js) simp
  show "filter (\<lambda>(w, e, part). e = d) (take i js @ drop (Suc i) js) = filter (\<lambda>(w, e, part). e = d) js" if "d \<noteq> c"
    using that by (subst (3) js) simp
  assume dist: "distinct (ws @ map fst js)"
  have "map fst js = map fst (take i js) @ w # map fst (drop (Suc i) js)" by (subst js) simp
  with dist show "distinct ((ws @ [w]) @ map fst (take i js @ drop (Suc i) js))" by auto
qed

lemma net_inv_finish:
  assumes inv: "net_inv compute s" and i: "i < length (tn_jobs s)" "tn_jobs s ! i = (w, c, part)"
    and send: "send_result average w c (compute part) (tn_proxy s) = Inr (answer, p)"
  shows "\<exists>parts results. tn_asked s c = Some parts
      \<and> (answer = None \<or> answer = Some (average results) \<and> mset results = image_mset compute (mset parts))
      \<and> net_inv compute (s\<lparr>tn_proxy := p, tn_jobs := take i (tn_jobs s) @ drop (Suc i) (tn_jobs s),
           tn_asked := (if answer = None then tn_asked s else (tn_asked s)(c := None)), tn_answers := answers\<rparr>)"
proof -
  let ?rest = "take i (tn_jobs s) @ drop (Suc i) (tn_jobs s)" and ?q = "tn_proxy s"
  define s' where "s' = s\<lparr>tn_proxy := p, tn_jobs := ?rest,
      tn_asked := (if answer = None then tn_asked s else (tn_asked s)(c := None)), tn_answers := answers\<rparr>"
  have ops: "ops_inv compute ?q d (jobs_of s d) (tn_asked s d)" for d using inv by (simp add: net_inv_def)
  have own: "mset (jobs_of s c) = add_mset part (mset (jobs_of s' c))"
    using remove_job(1) [OF i] by (simp add: jobs_of_def s'_def)
  have others: "jobs_of s' d = jobs_of s d" if "d \<noteq> c" for d using remove_job(2) [OF i that] by (simp add: jobs_of_def s'_def)
  obtain parts where parts: "tn_asked s c = Some parts" using ops [of c] own by (cases "tn_asked s c") (auto simp: ops_inv_def)
  have expected: "map_of (tp_expected_num_results ?q) c = Some (length parts)" using ops [of c] parts by (simp add: ops_inv_def)
  define results where "results = cached_results ?q c @ [compute part]"
  have made: "mset results + image_mset compute (mset (jobs_of s' c)) = image_mset compute (mset parts)"
    using ops [of c] parts own by (simp add: ops_inv_def results_def)
  have size: "length results + length (jobs_of s' c) = length parts"
    using arg_cong [OF made, of size] by simp
  have answer: "answer = (if length results = length parts then Some (average results) else None)"
    and p: "p = worker_available w (?q\<lparr>tp_result_cache := AList.update c (if answer = None then results else []) (tp_result_cache ?q)\<rparr>)"
    using send expected by (auto simp: send_result_def Let_def dict_get_def simp flip: results_def split: if_splits)
  have s': "tn_proxy s' = p" "tn_jobs s' = ?rest" "tn_asked s' d = (if d = c \<and> answer \<noteq> None then None else tn_asked s d)" for d
    by (auto simp: s'_def)
  have "ops_inv compute p d (jobs_of s' d) (tn_asked s' d)" for d
  proof (cases "d = c")
    case c: True
    show ?thesis
    proof (cases "length results = length parts")
      case True
      with c size answer show ?thesis by (simp add: ops_inv_def s' p cached_update)
    next
      case False
      then have "jobs_of s' c \<noteq> []" using size by auto
      with False c answer made parts expected show ?thesis by (simp add: ops_inv_def s' p cached_update)
    qed
  next
    case False
    with ops [of d] others show ?thesis by (simp add: ops_inv_def s' p cached_update split: option.splits)
  qed
  moreover have "distinct (tp_available_workers p @ map fst ?rest)"
    using remove_job(3) [OF i, of "tp_available_workers (tn_proxy s)"] inv unfolding net_inv_def p by simp
  moreover have "\<forall>d\<in>tn_lost s'. tn_asked s' d = None" using inv s' by (simp add: net_inv_def s'_def)
  ultimately have "net_inv compute s'" unfolding net_inv_def s'(1,2) by (simp add: p)
  moreover have "mset results = image_mset compute (mset parts)" if "answer \<noteq> None"
    using that answer size made by (simp split: if_splits)
  ultimately show ?thesis using parts answer unfolding s'_def by (intro exI [of _ parts] exI [of _ results]) auto
qed


section \<open>Runs\<close>

text \<open>What holds in every state of a run: the invariant, and that the answers so far are those of the whole requests.\<close>

definition answers_ok :: "('r list \<Rightarrow> 'r) \<Rightarrow> ('b \<Rightarrow> 'r) \<Rightarrow> ('w, 'c, 'b, 'r) training_net \<Rightarrow> bool" where
  "answers_ok average compute s \<longleftrightarrow> (\<forall>(c, parts, r)\<in>set (tn_answers s). r = average (map compute parts))"

lemma net_run_inv:
  assumes "net_run split average compute s"
    and split: "\<forall>k b parts. split k b = Inr parts \<longrightarrow> length parts = k"
    and average: "\<forall>rs rs'. mset rs = mset rs' \<longrightarrow> average rs = average rs'"
  shows "net_inv compute s \<and> answers_ok average compute s"
  using assms(1)
proof induction
  case start
  then show ?case
    by (simp add: net_inv_def answers_ok_def ops_inv_def jobs_of_def new_training_net_def new_train_proxy_def cached_results_def)
next
  case (ready s w)
  have "ops_inv compute (worker_available w (tn_proxy s)) c (jobs_of (s\<lparr>tn_proxy := q\<rparr>) c) a
      = ops_inv compute (tn_proxy s) c (jobs_of s c) a" for c q a
    by (simp add: ops_inv_def jobs_of_def split: option.splits)
  with ready show ?case by (simp add: net_inv_def answers_ok_def)
next
  case (request s c n batch jobs p)
  then show ?case
    using net_inv_request [OF conjunct1 [OF request.IH] request.hyps(3-5) split] by (simp add: answers_ok_def)
next
  case (lost s c n batch result p)
  then show ?case using net_inv_lost [OF conjunct1 [OF lost.IH] lost.hyps(3,4)] by (simp add: answers_ok_def)
next
  case (finish s i w c part answer p)
  define answers where "answers = (case answer of None \<Rightarrow> tn_answers s
      | Some r \<Rightarrow> tn_answers s @ [(c, case tn_asked s c of None \<Rightarrow> [] | Some parts \<Rightarrow> parts, r)])"
  obtain parts results where parts: "tn_asked s c = Some parts"
    and answer: "answer = None \<or> answer = Some (average results) \<and> mset results = image_mset compute (mset parts)"
    and inv: "net_inv compute (s\<lparr>tn_proxy := p, tn_jobs := take i (tn_jobs s) @ drop (Suc i) (tn_jobs s),
        tn_asked := (if answer = None then tn_asked s else (tn_asked s)(c := None)), tn_answers := answers\<rparr>)"
    using net_inv_finish [OF conjunct1 [OF finish.IH] finish.hyps(2,3,4), of answers] by blast
  have "average results = average (map compute parts)" if "mset results = image_mset compute (mset parts)"
    using average that by (metis mset_map)
  then have "answers_ok average compute (s\<lparr>tn_answers := answers\<rparr>)"
    using answer finish.IH parts by (auto simp: answers_ok_def answers_def)
  with inv show ?case by (simp add: answers_ok_def answers_def)
qed


section \<open>Batches with few rows\<close>

lemma sub_batch_error: "make_kth_sub_batch i k b = Inl e \<Longrightarrow> e = AssertionError"
  by (auto simp: make_kth_sub_batch_def check_batch_def assertE_def Let_def split: if_splits)

lemma mapE_Inl: "mapE f xs = Inl e \<Longrightarrow> \<exists>x\<in>set xs. f x = Inl e"
  by (induction xs) (auto simp: bindE_def split: sum.splits)

lemma few_rows_raise:
  assumes "batch_size b < k"
  shows "split_batch k b = Inl AssertionError"
proof (cases "split_batch k b")
  case (Inl e)
  then show ?thesis using mapE_Inl sub_batch_error by (force simp: split_batch_def)
next
  case (Inr parts)
  have "stride (batch_size b) k (tb_states b) = []" using assms by (simp add: stride_def batch_size_def)
  then have "make_kth_sub_batch (batch_size b) k b = Inl AssertionError"
    by (simp add: make_kth_sub_batch_def check_batch_def assertE_def)
  then show ?thesis using Inr mapE_nth assms by (force simp: split_batch_def)
qed

text \<open>
  A batch with fewer rows than workers makes its splitting raise an AssertionError: nothing is sent, and the workers
  taken for the request are lost to all later ones.
\<close>

theorem few_rows_lose_workers:
  assumes "batch_size batch < min n (length (tp_available_workers p))"
  shows "\<exists>q. route_request split_batch c n batch p = (Inl AssertionError, q)
    \<and> tp_available_workers q = drop (min n (length (tp_available_workers p))) (tp_available_workers p)"
  using few_rows_raise [OF assms] by (simp add: route_request_def Let_def)

section \<open>A request of two parts\<close>

definition every_kth :: "nat \<Rightarrow> rat list \<Rightarrow> rat list list res" where
  "every_kth k rows = Inr (map (\<lambda>i. stride i k rows) [0..<k])"

definition mean :: "rat list \<Rightarrow> rat" where
  "mean rs = sum_list rs / of_nat (length rs)"

definition two_workers :: "(nat, nat, rat list, rat) training_net" where
  "two_workers =
     \<lparr>tn_proxy = worker_available 1 (worker_available 0 new_train_proxy), tn_jobs = [], tn_asked = (\<lambda>c. None), tn_lost = {}, tn_answers = []\<rparr>"

lemma two_workers_run: "net_run every_kth mean sum_list two_workers"
proof -
  have "net_run every_kth mean sum_list
      (new_training_net\<lparr>tn_proxy := worker_available 0 new_train_proxy\<rparr>)"
    using net_run.ready [OF net_run.start, of 0] by (simp add: new_training_net_def new_train_proxy_def)
  from net_run.ready [OF this, of "Suc 0"] show ?thesis by (simp add: two_workers_def worker_available_def new_training_net_def new_train_proxy_def)
qed

definition one_answer :: "(nat, nat, rat list, rat) training_net" where
  "one_answer =
     \<lparr>tn_proxy = \<lparr>tp_available_workers = [1, 0], tp_connected_ops = {0}, tp_result_cache = [(0, [])],
                  tp_expected_num_results = [(0, 2)], tp_receiving = True\<rparr>,
      tn_jobs = [], tn_asked = (\<lambda>c. None), tn_lost = {}, tn_answers = [(0, [[1, 3], [2]], 3)]\<rparr>"

text \<open>The second worker finishes first.\<close>

lemma one_answer_run: "net_run every_kth mean sum_list one_answer"
proof -
  define p1 :: "(nat, nat, rat) train_proxy" where
    "p1 = \<lparr>tp_available_workers = [], tp_connected_ops = {0}, tp_result_cache = [], tp_expected_num_results = [(0, 2)], tp_receiving = False\<rparr>"
  define s1 :: "(nat, nat, rat list, rat) training_net" where
    "s1 = \<lparr>tn_proxy = p1, tn_jobs = [(0, 0, [1, 3]), (1, 0, [2])], tn_asked = [0 \<mapsto> [[1, 3], [2]]], tn_lost = {}, tn_answers = []\<rparr>"
  define p2 where "p2 = p1\<lparr>tp_available_workers := [1], tp_result_cache := [(0, [2])], tp_receiving := True\<rparr>"
  define s2 where "s2 = s1\<lparr>tn_proxy := p2, tn_jobs := [(0, 0, [1, 3])]\<rparr>"
  have parts: "every_kth 2 [1, 2, 3] = Inr [[1, 3], [2]]"
    by (simp add: every_kth_def) code_simp
  have route: "route_request every_kth 0 2 [1, 2, 3] (tn_proxy two_workers) = (Inr [(0, 0, [1, 3]), (1, 0, [2])], p1)"
    by (simp add: route_request_def two_workers_def worker_available_def new_train_proxy_def
        parts [unfolded numeral_2_eq_2] p1_def Let_def)
  have s1: "net_run every_kth mean sum_list s1"
    using net_run.request [OF two_workers_run _ _ route]
    by (simp add: s1_def two_workers_def worker_available_def idle_ops_def)
  have send: "send_result mean 1 0 (sum_list [2]) (tn_proxy s1) = Inr (None, p2)"
    by (simp add: send_result_def s1_def p1_def p2_def cached_results_def worker_available_def dict_get_def)
  have s2: "net_run every_kth mean sum_list s2"
    using net_run.finish [OF s1 _ _ send, of 1] by (simp add: s2_def s1_def)
  have send: "send_result mean 0 0 (sum_list [1, 3]) (tn_proxy s2) = Inr (Some 3, tn_proxy one_answer)"
    by (simp add: send_result_def s2_def s1_def p1_def p2_def cached_results_def worker_available_def dict_get_def one_answer_def mean_def)
  show ?thesis
    using net_run.finish [OF s2 _ _ send, of 0] by (simp add: s2_def s1_def one_answer_def)
qed


theorem few_rows_lose_workers_witness:
  "route_request split_batch (0::nat) 2 \<lparr>tb_states = [[1]], tb_actions = [[0]], tb_rewards = [1], tb_next_states = [[1]],
     tb_terminals = [False], tb_truncated = [False], tb_returns = None, tb_advantages = None, tb_old_logps = None\<rparr>
     (worker_available 1 (worker_available (0::nat) new_train_proxy))
   = (Inl AssertionError, (new_train_proxy :: (nat, nat, nat) train_proxy)
       \<lparr>tp_connected_ops := {0}, tp_expected_num_results := [(0, 2)], tp_receiving := True\<rparr>)"
  using few_rows_lose_workers [of "\<lparr>tb_states = [[1]], tb_actions = [[0]], tb_rewards = [1], tb_next_states = [[1]],
      tb_terminals = [False], tb_truncated = [False], tb_returns = None, tb_advantages = None, tb_old_logps = None\<rparr>" 2
      "worker_available 1 (worker_available (0::nat) (new_train_proxy :: (nat, nat, nat) train_proxy))" "0::nat"]
  by (auto simp: route_request_def worker_available_def new_train_proxy_def batch_size_def Let_def split: sum.splits)

end
